(* ===== verification/Prelude.thy ===== *)
theory Prelude
  imports Main "HOL-Library.Char_ord" "HOL-Library.List_Lexorder" "HOL-Library.AList"
    "HOL-Library.Sublist"
begin

text \<open>
  Shared vocabulary of the development: Python exceptions as values, the result type with its
  bind, guard chains (the shape of a \<open>__post_init__\<close>), the string operations the program uses,
  dictionaries as association lists, and the automation the component theories share.

  A Python \<open>str\<close> is modelled by its UTF-8 encoding, a \<open>string\<close> of bytes: \<open>encode("utf-8")\<close> is
  the identity, and comparing code points is comparing bytes lexicographically, since UTF-8
  preserves that order. A \<open>bytes\<close> value is a \<open>string\<close> too.
\<close>

named_theorems result_simps \<open>rewrite rules of the result type and of guard chains\<close>
named_theorems str_simps \<open>facts about the string predicates of the model\<close>

section \<open>Exceptions and results\<close>

text \<open>
  The exception classes the program raises or catches. The text of a message is reduced to a
  tag that identifies the check (usually the name of the field); the class is kept.
\<close>

datatype exn =
    ValueError string
  | KeyError string
  | AttributeError string
  | PermissionError string
  | IntegrityError string
  | TypeError string
  | RuntimeError string
  | StopIteration string
  | OverflowError string
  | TimeoutError string
  | FileNotFoundError string
  | IsADirectoryError string
  | JSONDecodeError string
  | UnicodeDecodeError string
  | TrustAnchorError string
  | AnchorDiscrepancyError string
  | ContainmentViolationError string
  | ApprovalIdempotencyConflictError string
  | ApprovalAlreadyRecordedError string
  | ApprovalLifecycleConflictError string
  | ApprovalLifecycleTargetError string

type_synonym 'a result = "exn + 'a"

text \<open>\<open>except ValueError\<close> also catches the subclasses of \<open>ValueError\<close>.\<close>

fun is_value_error :: "exn \<Rightarrow> bool" where
  "is_value_error (KeyError _) = False"
| "is_value_error (AttributeError _) = False"
| "is_value_error (PermissionError _) = False"
| "is_value_error (IntegrityError _) = False"
| "is_value_error (TypeError _) = False"
| "is_value_error (RuntimeError _) = False"
| "is_value_error (StopIteration _) = False"
| "is_value_error (OverflowError _) = False"
| "is_value_error (TimeoutError _) = False"
| "is_value_error (FileNotFoundError _) = False"
| "is_value_error (IsADirectoryError _) = False"
| "is_value_error _ = True"

definition bindE :: "'a result \<Rightarrow> ('a \<Rightarrow> 'b result) \<Rightarrow> 'b result" where
  "bindE m f = (case m of Inl e \<Rightarrow> Inl e | Inr x \<Rightarrow> f x)"

lemma bindE_Inl [simp, result_simps]: "bindE (Inl e) f = Inl e"
  by (simp add: bindE_def)

lemma bindE_Inr [simp, result_simps]: "bindE (Inr x) f = f x"
  by (simp add: bindE_def)

lemma bindE_eq_Inr_iff [result_simps]:
  "bindE m f = Inr y \<longleftrightarrow> (\<exists>x. m = Inr x \<and> f x = Inr y)"
  by (cases m) auto

lemma bindE_InrE [elim!]:
  assumes "bindE m f = Inr y"
  obtains x where "m = Inr x" and "f x = Inr y"
  using assms by (auto simp: bindE_eq_Inr_iff)

definition is_ok :: "'a result \<Rightarrow> bool" where
  "is_ok r = (case r of Inl _ \<Rightarrow> False | Inr _ \<Rightarrow> True)"

lemma is_ok_simps [simp]: "\<not> is_ok (Inl e)" "is_ok (Inr x)"
  by (simp_all add: is_ok_def)

lemma is_ok_iff: "is_ok r \<longleftrightarrow> (\<exists>x. r = Inr x)"
  by (cases r) auto

text \<open>
  A guard chain: the checks of a constructor in source order, each with the exception it
  raises. The first check that holds raises.
\<close>

fun guards :: "(bool \<times> exn) list \<Rightarrow> unit result" where
  "guards [] = Inr ()"
| "guards ((c, e) # gs) = (if c then Inl e else guards gs)"

lemma guards_Inr_iff [result_simps]: "guards gs = Inr u \<longleftrightarrow> (\<forall>g \<in> set gs. \<not> fst g)"
  by (induction gs rule: guards.induct) auto

lemma guards_Cons_Inr [simp]: "guards ((c, e) # gs) = Inr u \<longleftrightarrow> \<not> c \<and> guards gs = Inr u"
  by simp

lemma guards_Cons [simp]:
  "c \<Longrightarrow> guards ((c, e) # gs) = Inl e"
  "\<not> c \<Longrightarrow> guards ((c, e) # gs) = guards gs"
  by simp_all

lemma guards_single: "guards [(c, e)] = (if c then Inl e else Inr ())"
  by simp

lemma guards_append: "guards (gs @ hs) = bindE (guards gs) (\<lambda>_. guards hs)"
  by (induction gs rule: guards.induct) auto

lemma guards_Inl_mem: "guards gs = Inl e \<Longrightarrow> (True, e) \<in> set gs"
  by (induction gs rule: guards.induct) (auto split: if_splits)

declare guards.simps(2) [simp del]

text \<open>Mapping a fallible function over a sequence, left to right, stopping at the first error.\<close>

fun mapE :: "('a \<Rightarrow> 'b result) \<Rightarrow> 'a list \<Rightarrow> 'b list result" where
  "mapE f [] = Inr []"
| "mapE f (x # xs) = bindE (f x) (\<lambda>y. bindE (mapE f xs) (\<lambda>ys. Inr (y # ys)))"

lemma mapE_Inr_iff: "mapE f xs = Inr ys \<longleftrightarrow> list_all2 (\<lambda>x y. f x = Inr y) xs ys"
proof (induction xs arbitrary: ys)
  case Nil
  then show ?case by auto
next
  case (Cons x xs)
  then show ?case
    by (cases ys) (auto simp: bindE_eq_Inr_iff list_all2_Cons1)
qed

lemma mapE_member: "mapE f xs = Inr ys \<Longrightarrow> x \<in> set xs \<Longrightarrow> \<exists>y. f x = Inr y"
  by (auto simp: mapE_Inr_iff list_all2_conv_all_nth in_set_conv_nth)

lemma mapE_unit: "mapE f xs = Inr ys \<longleftrightarrow> ys = map (\<lambda>_. ()) xs \<and> (\<forall>x \<in> set xs. f x = Inr ())" for f :: "'a \<Rightarrow> unit result"
proof (induction xs arbitrary: ys)
  case (Cons a xs)
  then show ?case by (cases "f a"; cases "mapE f xs") auto
qed auto

lemma mapE_map: "mapE f (map g xs) = mapE (\<lambda>x. f (g x)) xs"
  by (induction xs) auto

lemma mapE_cong [fundef_cong]:
  "xs = ys \<Longrightarrow> (\<And>x. x \<in> set ys \<Longrightarrow> f x = g x) \<Longrightarrow> mapE f xs = mapE g ys"
proof (induction xs arbitrary: ys)
  case (Cons x xs)
  then show ?case by (cases ys) auto
qed simp

lemma bindE_cong [fundef_cong]:
  "m = n \<Longrightarrow> (\<And>x. n = Inr x \<Longrightarrow> f x = g x) \<Longrightarrow> bindE m f = bindE n g"
  by (cases m) auto

lemma mapE_Inr_id: "(\<And>x. x \<in> set xs \<Longrightarrow> f x = Inr (h x)) \<Longrightarrow> mapE f xs = Inr (map h xs)"
  by (induction xs) auto

lemma mapE_all: "mapE f xs = Inr ys \<Longrightarrow> (\<And>x y. f x = Inr y \<Longrightarrow> P y) \<Longrightarrow> list_all P ys"
  by (induction xs arbitrary: ys) auto

text \<open>A loop over a list with a state, stopped by the first error.\<close>

fun foldE :: "('a \<Rightarrow> 's \<Rightarrow> 's result) \<Rightarrow> 'a list \<Rightarrow> 's \<Rightarrow> 's result" where
  "foldE f [] s = Inr s"
| "foldE f (x # xs) s = bindE (f x s) (foldE f xs)"

lemma foldE_append: "foldE f (xs @ ys) s = bindE (foldE f xs s) (foldE f ys)"
  by (induction xs arbitrary: s) (auto simp: bindE_def split: sum.splits)

lemma foldE_cong [fundef_cong]:
  "xs = ys \<Longrightarrow> (\<And>x s. x \<in> set ys \<Longrightarrow> f x s = g x s) \<Longrightarrow> s = t \<Longrightarrow> foldE f xs s = foldE g ys t"
  by (induction ys arbitrary: xs s t) (auto simp: bindE_def split: sum.splits)

section \<open>Strings\<close>

definition byte :: "char \<Rightarrow> nat" where
  "byte c = of_char c"

text \<open>\<open>str.isspace\<close> on one code point, given by its UTF-8 bytes.\<close>

definition space1 :: "char \<Rightarrow> bool" where
  "space1 c = (let n = byte c in (9 \<le> n \<and> n \<le> 13) \<or> (28 \<le> n \<and> n \<le> 32))"

definition space2 :: "char \<Rightarrow> char \<Rightarrow> bool" where
  "space2 a b = (byte a = 194 \<and> (byte b = 133 \<or> byte b = 160))"

definition space3 :: "char \<Rightarrow> char \<Rightarrow> char \<Rightarrow> bool" where
  "space3 a b c =
     ((byte a = 225 \<and> byte b = 154 \<and> byte c = 128) \<or>
      (byte a = 226 \<and> byte b = 128 \<and>
         ((128 \<le> byte c \<and> byte c \<le> 138) \<or> byte c = 168 \<or> byte c = 169 \<or> byte c = 175)) \<or>
      (byte a = 226 \<and> byte b = 129 \<and> byte c = 159) \<or>
      (byte a = 227 \<and> byte b = 128 \<and> byte c = 128))"

text \<open>\<open>not s.strip()\<close>: the string is empty or whitespace only.\<close>

fun blank :: "string \<Rightarrow> bool" where
  "blank [] = True"
| "blank [a] = space1 a"
| "blank [a, b] = (if space1 a then blank [b] else space2 a b)"
| "blank (a # b # c # s) =
     (if space1 a then blank (b # c # s)
      else if space2 a b then blank (c # s)
      else space3 a b c \<and> blank s)"

lemma not_blank_printable [simp, str_simps]:
  "33 \<le> (of_char a :: nat) \<Longrightarrow> of_char a < (128 :: nat) \<Longrightarrow> \<not> blank (a # s)"
  by (cases "a # s" rule: blank.cases)
    (auto simp: space1_def space2_def space3_def byte_def Let_def)

declare blank.simps(2-4) [simp del]

text \<open>\<open>(value or "").strip()\<close> and the other idioms on optional strings.\<close>

definition blank_if_given :: "string option \<Rightarrow> bool" where
  "blank_if_given v = (case v of None \<Rightarrow> False | Some s \<Rightarrow> blank s)"

definition opt_or :: "'a option \<Rightarrow> 'a \<Rightarrow> 'a" where
  "opt_or v d = (case v of None \<Rightarrow> d | Some x \<Rightarrow> x)"

definition hex_char :: "char \<Rightarrow> bool" where
  "hex_char c = (c \<in> set ''0123456789abcdef'')"

text \<open>The test every record applies to a digest: 64 lowercase hexadecimal characters.\<close>

definition is_sha256 :: "string \<Rightarrow> bool" where
  "is_sha256 s = (length s = 64 \<and> list_all hex_char s)"

definition starts_with :: "string \<Rightarrow> string \<Rightarrow> bool" where
  "starts_with s p = (take (length p) s = p)"

fun split_on :: "char \<Rightarrow> string \<Rightarrow> string list" where
  "split_on c [] = [[]]"
| "split_on c (x # xs) =
     (if x = c then [] # split_on c xs
      else (case split_on c xs of [] \<Rightarrow> [[x]] | y # ys \<Rightarrow> (x # y) # ys))"

definition backslash_to_slash :: "string \<Rightarrow> string" where
  "backslash_to_slash s = map (\<lambda>c. if c = CHR 0x5C then CHR ''/'' else c) s"

fun join :: "string \<Rightarrow> string list \<Rightarrow> string" where
  "join sep [] = []"
| "join sep [s] = s"
| "join sep (s # t # ss) = s @ sep @ join sep (t # ss)"

text \<open>Decimal numerals, \<open>str(int)\<close>.\<close>

definition digit_char :: "nat \<Rightarrow> char" where
  "digit_char n = (char_of (48 + n mod 10) :: char)"

fun dec_nat :: "nat \<Rightarrow> string" where
  "dec_nat n = (if n < 10 then [digit_char n] else dec_nat (n div 10) @ [digit_char n])"

declare dec_nat.simps [simp del]

definition dec_int :: "int \<Rightarrow> string" where
  "dec_int i = (if i < 0 then CHR ''-'' # dec_nat (nat (- i)) else dec_nat (nat i))"

section \<open>Dictionaries and sequences\<close>

text \<open>
  A \<open>dict\<close> keeps insertion order, so it is an association list with distinct keys. Lookup is
  \<open>map_of\<close>; assignment keeps the position of an existing key and appends a new one, which is
  what \<open>AList.update\<close> does.
\<close>

type_synonym ('k, 'v) dict = "('k \<times> 'v) list"

definition dict_ok :: "('k, 'v) dict \<Rightarrow> bool" where
  "dict_ok d = distinct (map fst d)"

definition dict_of :: "('k \<times> 'v) list \<Rightarrow> ('k, 'v) dict" where
  "dict_of kvs = foldl (\<lambda>d (k, v). AList.update k v d) [] kvs"

definition dict_get :: "('k, 'v) dict \<Rightarrow> 'k \<Rightarrow> 'v \<Rightarrow> 'v" where
  "dict_get d k v = opt_or (map_of d k) v"

definition dict_eq :: "('k, 'v) dict \<Rightarrow> ('k, 'v) dict \<Rightarrow> bool" where
  "dict_eq d e = (set (map fst d) = set (map fst e) \<and> (\<forall>k \<in> set (map fst d). map_of d k = map_of e k))"

lemma dict_eq_iff: "dict_eq d e \<longleftrightarrow> map_of d = map_of e"
proof
  assume h: "dict_eq d e"
  show "map_of d = map_of e"
  proof
    fix k
    show "map_of d k = map_of e k"
    proof (cases "k \<in> set (map fst d)")
      case True
      with h show ?thesis unfolding dict_eq_def by blast
    next
      case False
      with h have "map_of d k = None" and "map_of e k = None"
        unfolding dict_eq_def by (simp_all add: map_of_eq_None_iff)
      then show ?thesis by simp
    qed
  qed
next
  assume "map_of d = map_of e"
  then show "dict_eq d e"
    by (metis dict_eq_def dom_map_of_conv_image_fst list.set_map)
qed

lemma map_of_update [simp]: "map_of (AList.update k v d) = (map_of d)(k \<mapsto> v)"
  by (simp add: update_conv')

lemma dict_ok_update [simp]: "dict_ok d \<Longrightarrow> dict_ok (AList.update k v d)"
  by (simp add: dict_ok_def distinct_update)

lemma dict_ok_foldl_update:
  "dict_ok d \<Longrightarrow> dict_ok (foldl (\<lambda>d (k, v). AList.update k v d) d kvs)"
  by (induction kvs arbitrary: d) auto

lemma dict_ok_dict_of [simp]: "dict_ok (dict_of kvs)"
  unfolding dict_of_def by (rule dict_ok_foldl_update) (simp add: dict_ok_def)

text \<open>\<open>sorted(set(...))\<close> and \<open>len(x) != len(set(x))\<close>.\<close>

definition sorted_set :: "string list \<Rightarrow> string list" where
  "sorted_set xs = sort (remdups xs)"

lemma set_sorted_set [simp]: "set (sorted_set xs) = set xs"
  by (simp add: sorted_set_def)

lemma sorted_sorted_set [simp]: "sorted (sorted_set xs)"
  by (simp add: sorted_set_def)

lemma distinct_sorted_set [simp]: "distinct (sorted_set xs)"
  by (simp add: sorted_set_def)

text \<open>\<open>next((x for x in xs if p(x)), None)\<close>.\<close>

definition find_first :: "('a \<Rightarrow> bool) \<Rightarrow> 'a list \<Rightarrow> 'a option" where
  "find_first p xs = find p xs"

lemma find_first_Some: "find_first p xs = Some x \<Longrightarrow> x \<in> set xs \<and> p x"
  by (auto simp: find_first_def find_Some_iff)

lemma find_first_None: "find_first p xs = None \<longleftrightarrow> (\<forall>x \<in> set xs. \<not> p x)"
  by (auto simp: find_first_def find_None_iff)

lemma last_opt_cases: "xs = [] \<or> (\<exists>ys y. xs = ys @ [y])"
  by (cases xs rule: rev_cases) auto

end
