(* ===== verification/Json.thy ===== *)
theory Json
  imports Prelude
begin

text \<open>
  JSON values and the parts of the \<open>json\<close> module the program uses: \<open>dumps\<close> with sorted keys and
  compact separators, in its two variants (\<open>ensure_ascii=False\<close>, used for every digest, and the
  default, used for some identifiers and for stored lines), and \<open>loads\<close>. A float is kept as its
  lexeme: no modelled component computes with one. The main results are that \<open>loads\<close> inverts
  both variants of \<open>dumps\<close> up to the order of keys, hence that canonical bytes determine the
  value, and that no strict prefix of a printed object is a JSON document.
\<close>

datatype json =
    JNull
  | JBool bool
  | JInt int
  | JFloat string
  | JStr string
  | JArr "json list"
  | JObj "(string \<times> json) list"

type_synonym payload = "(string, json) dict"

section \<open>UTF-8\<close>

abbreviation chr :: "nat \<Rightarrow> char" where
  "chr n \<equiv> char_of n"

definition utf8_enc :: "nat \<Rightarrow> string" where
  "utf8_enc u =
     (if u < 128 then [chr u]
      else if u < 2048 then [chr (192 + u div 64), chr (128 + u mod 64)]
      else if u < 65536 then
        [chr (224 + u div 4096), chr (128 + u div 64 mod 64), chr (128 + u mod 64)]
      else
        [chr (240 + u div 262144), chr (128 + u div 4096 mod 64), chr (128 + u div 64 mod 64),
         chr (128 + u mod 64)])"

text \<open>A Unicode scalar value: a code point that is not a surrogate.\<close>

definition scalar :: "nat \<Rightarrow> bool" where
  "scalar u = (u < 55296 \<or> (57344 \<le> u \<and> u < 1114112))"

definition cont :: "char \<Rightarrow> bool" where
  "cont c = (128 \<le> byte c \<and> byte c < 192)"

text \<open>Decoding rejects truncated, overlong and surrogate encodings, as Python does.\<close>

fun utf8_dec :: "string \<Rightarrow> nat list option" where
  "utf8_dec [] = Some []"
| "utf8_dec (a # s) =
     (if byte a < 128 then map_option ((#) (byte a)) (utf8_dec s)
      else (case s of
        [] \<Rightarrow> None
      | b # t \<Rightarrow>
          if 194 \<le> byte a \<and> byte a < 224 then
            (if cont b then
               map_option ((#) ((byte a - 192) * 64 + (byte b - 128))) (utf8_dec t)
             else None)
          else (case t of
            [] \<Rightarrow> None
          | c # u \<Rightarrow>
              if 224 \<le> byte a \<and> byte a < 240 then
                (let p = (byte a - 224) * 4096 + (byte b - 128) * 64 + (byte c - 128)
                 in if cont b \<and> cont c \<and> 2048 \<le> p \<and> scalar p
                    then map_option ((#) p) (utf8_dec u) else None)
              else (case u of
                [] \<Rightarrow> None
              | d # v \<Rightarrow>
                  if 240 \<le> byte a \<and> byte a < 245 then
                    (let p = (byte a - 240) * 262144 + (byte b - 128) * 4096 +
                             (byte c - 128) * 64 + (byte d - 128)
                     in if cont b \<and> cont c \<and> cont d \<and> 65536 \<le> p \<and> scalar p
                        then map_option ((#) p) (utf8_dec v) else None)
                  else None))))"

definition utf8_ok :: "string \<Rightarrow> bool" where
  "utf8_ok s = (utf8_dec s \<noteq> None)"

section \<open>Printing\<close>

definition hex4 :: "nat \<Rightarrow> string" where
  "hex4 u = map (\<lambda>k. ''0123456789abcdef'' ! (k mod 16)) [u div 4096, u div 256, u div 16, u]"

text \<open>The escapes shared by both variants; every other character goes to the fallback \<open>f\<close>.\<close>

definition esc_code :: "(nat \<Rightarrow> string) \<Rightarrow> nat \<Rightarrow> string" where
  "esc_code f u =
     (if u = 34 then [CHR 0x5C, CHR 0x22]
      else if u = 92 then [CHR 0x5C, CHR 0x5C]
      else if u = 10 then [CHR 0x5C, CHR ''n'']
      else if u = 13 then [CHR 0x5C, CHR ''r'']
      else if u = 9 then [CHR 0x5C, CHR ''t'']
      else if u = 8 then [CHR 0x5C, CHR ''b'']
      else if u = 12 then [CHR 0x5C, CHR ''f'']
      else if u < 32 then [CHR 0x5C, CHR ''u''] @ hex4 u
      else f u)"

definition esc_raw :: "string \<Rightarrow> string" where
  "esc_raw s = concat (map (\<lambda>c. esc_code (\<lambda>u. [c]) (byte c)) s)"

definition esc_unicode :: "nat \<Rightarrow> string" where
  "esc_unicode u =
     (if u < 127 then [chr u]
      else if u < 65536 then [CHR 0x5C, CHR ''u''] @ hex4 u
      else [CHR 0x5C, CHR ''u''] @ hex4 (55296 + (u - 65536) div 1024) @
           [CHR 0x5C, CHR ''u''] @ hex4 (56320 + (u - 65536) mod 1024))"

definition esc_ascii :: "string \<Rightarrow> string" where
  "esc_ascii s = concat (map (esc_code esc_unicode) (opt_or (utf8_dec s) []))"

definition quoted :: "(string \<Rightarrow> string) \<Rightarrow> string \<Rightarrow> string" where
  "quoted esc s = CHR 0x22 # esc s @ [CHR 0x22]"

text \<open>\<open>sort_keys=True\<close>, at every depth.\<close>

fun sort_keys :: "json \<Rightarrow> json" where
  "sort_keys (JArr vs) = JArr (map sort_keys vs)"
| "sort_keys (JObj kvs) = JObj (sort_key fst (map (\<lambda>(k, v). (k, sort_keys v)) kvs))"
| "sort_keys v = v"

fun render :: "(string \<Rightarrow> string) \<Rightarrow> json \<Rightarrow> string"
  and render_elems :: "(string \<Rightarrow> string) \<Rightarrow> json list \<Rightarrow> string"
  and render_members :: "(string \<Rightarrow> string) \<Rightarrow> (string \<times> json) list \<Rightarrow> string" where
  "render esc JNull = ''null''"
| "render esc (JBool b) = (if b then ''true'' else ''false'')"
| "render esc (JInt i) = dec_int i"
| "render esc (JFloat l) = l"
| "render esc (JStr s) = quoted esc s"
| "render esc (JArr vs) = CHR ''['' # render_elems esc vs @ '']''"
| "render esc (JObj kvs) = CHR ''{'' # render_members esc kvs @ ''}''"
| "render_elems esc [] = []"
| "render_elems esc (v # vs) =
     render esc v @ (if vs = [] then [] else CHR '','' # render_elems esc vs)"
| "render_members esc [] = []"
| "render_members esc (kv # kvs) =
     quoted esc (fst kv) @ CHR '':'' # render esc (snd kv) @
     (if kvs = [] then [] else CHR '','' # render_members esc kvs)"

text \<open>\<open>json.dumps(x, sort_keys=True, separators=(",", ":"), ensure_ascii=False).encode("utf-8")\<close>\<close>

definition canonical :: "json \<Rightarrow> string" where
  "canonical v = render esc_raw (sort_keys v)"

text \<open>The same call with the default \<open>ensure_ascii=True\<close>.\<close>

definition canonical_ascii :: "json \<Rightarrow> string" where
  "canonical_ascii v = render esc_ascii (sort_keys v)"

section \<open>Parsing\<close>

definition is_ws :: "char \<Rightarrow> bool" where
  "is_ws c = (c \<in> {CHR '' '', CHR 0x09, CHR 0x0A, CHR 0x0D})"

definition skip_ws :: "string \<Rightarrow> string" where
  "skip_ws s = dropWhile is_ws s"

definition hex_val :: "char \<Rightarrow> nat option" where
  "hex_val c =
     (let n = byte c in
      if 48 \<le> n \<and> n \<le> 57 then Some (n - 48)
      else if 97 \<le> n \<and> n \<le> 102 then Some (n - 87)
      else if 65 \<le> n \<and> n \<le> 70 then Some (n - 55)
      else None)"

fun p_hex4 :: "string \<Rightarrow> (nat \<times> string) option" where
  "p_hex4 (a # b # c # d # s) =
     (case (hex_val a, hex_val b, hex_val c, hex_val d) of
        (Some w, Some x, Some y, Some z) \<Rightarrow> Some (4096 * w + 256 * x + 16 * y + z, s)
      | _ \<Rightarrow> None)"
| "p_hex4 _ = None"

lemma p_hex4_shorter: "p_hex4 s = Some (u, t) \<Longrightarrow> length t < length s"
  by (cases s rule: p_hex4.cases) (auto split: option.splits)

definition simple_escape :: "char \<Rightarrow> char option" where
  "simple_escape c =
     (if c = CHR 0x22 \<or> c = CHR 0x5C \<or> c = CHR ''/'' then Some c
      else if c = CHR ''b'' then Some CHR 0x08
      else if c = CHR ''f'' then Some CHR 0x0C
      else if c = CHR ''n'' then Some CHR 0x0A
      else if c = CHR ''r'' then Some CHR 0x0D
      else if c = CHR ''t'' then Some CHR 0x09
      else None)"

text \<open>The \<open>\u\<close> escapes, with surrogate pairs. A lone surrogate is no UTF-8 text and is rejected.\<close>

definition p_unicode :: "string \<Rightarrow> (string \<times> string) option" where
  "p_unicode s =
     (case p_hex4 s of
        None \<Rightarrow> None
      | Some (u, t) \<Rightarrow>
          if 55296 \<le> u \<and> u < 56320 then
            (case t of
               a # b # t' \<Rightarrow>
                 (if a = CHR 0x5C \<and> b = CHR ''u'' then
                    (case p_hex4 t' of
                       None \<Rightarrow> None
                     | Some (v, r) \<Rightarrow>
                         if 56320 \<le> v \<and> v < 57344
                         then Some (utf8_enc (65536 + (u - 55296) * 1024 + (v - 56320)), r)
                         else None)
                  else None)
             | _ \<Rightarrow> None)
          else if 56320 \<le> u \<and> u < 57344 then None
          else Some (utf8_enc u, t))"

lemma p_unicode_shorter: "p_unicode s = Some (w, t) \<Longrightarrow> length t < length s"
  by (auto simp: p_unicode_def split: option.splits if_splits list.splits dest!: p_hex4_shorter)

text \<open>The body of a string literal, after its opening quote.\<close>

function p_str :: "string \<Rightarrow> (string \<times> string) option" where
  "p_str [] = None"
| "p_str (c # s) =
     (if c = CHR 0x22 then Some ([], s)
      else if c = CHR 0x5C then
        (case s of
           [] \<Rightarrow> None
         | e # t \<Rightarrow>
             (case simple_escape e of
                Some x \<Rightarrow> map_option (apfst ((#) x)) (p_str t)
              | None \<Rightarrow>
                  if e = CHR ''u'' then
                    (case p_unicode t of
                       None \<Rightarrow> None
                     | Some (w, r) \<Rightarrow> map_option (apfst ((@) w)) (p_str r))
                  else None))
      else if byte c < 32 then None
      else map_option (apfst ((#) c)) (p_str s))"
  by pat_completeness auto
termination
  by (relation "measure length") (auto dest: p_unicode_shorter)

definition is_digit :: "char \<Rightarrow> bool" where
  "is_digit c = (48 \<le> byte c \<and> byte c \<le> 57)"

definition dec_val :: "string \<Rightarrow> nat" where
  "dec_val ds = foldl (\<lambda>n c. 10 * n + (byte c - 48)) 0 ds"

text \<open>\<open>-?(0|[1-9][0-9]*)(\.[0-9]+)?([eE][-+]?[0-9]+)?\<close>\<close>

definition p_frac :: "string \<Rightarrow> string \<times> string" where
  "p_frac s =
     (case s of
        c # t \<Rightarrow>
          (if c = CHR ''.'' \<and> takeWhile is_digit t \<noteq> []
           then (c # takeWhile is_digit t, dropWhile is_digit t) else ([], s))
      | [] \<Rightarrow> ([], s))"

definition p_exp :: "string \<Rightarrow> string \<times> string" where
  "p_exp s =
     (case s of
        c # t \<Rightarrow>
          (if c = CHR ''e'' \<or> c = CHR ''E'' then
             (let (sg, u) = (case t of
                 d # t' \<Rightarrow> if d = CHR ''+'' \<or> d = CHR ''-'' then ([d], t') else ([], t)
               | [] \<Rightarrow> ([], t))
              in if takeWhile is_digit u \<noteq> []
                 then (c # sg @ takeWhile is_digit u, dropWhile is_digit u) else ([], s))
           else ([], s))
      | [] \<Rightarrow> ([], s))"

definition p_int_part :: "string \<Rightarrow> (string \<times> string) option" where
  "p_int_part s =
     (case s of
        [] \<Rightarrow> None
      | c # t \<Rightarrow>
          if c = CHR ''0'' then Some ([c], t)
          else if is_digit c then Some (takeWhile is_digit s, dropWhile is_digit s)
          else None)"

definition p_num :: "string \<Rightarrow> (json \<times> string) option" where
  "p_num s =
     (let (neg, t) = (case s of
         c # s' \<Rightarrow> if c = CHR ''-'' then (True, s') else (False, s)
       | [] \<Rightarrow> (False, s))
      in (case p_int_part t of
        None \<Rightarrow> None
      | Some (ds, r) \<Rightarrow>
          (let (fr, r1) = p_frac r; (ex, r2) = p_exp r1
           in if fr = [] \<and> ex = []
              then Some (JInt (if neg then - int (dec_val ds) else int (dec_val ds)), r)
              else Some (JFloat ((if neg then ''-'' else []) @ ds @ fr @ ex), r2))))"

text \<open>
  Values. The fuel bounds the number of nested calls; the length of the input is always enough,
  since every call consumes a character. A repeated key keeps its first position and its last value.
\<close>

fun p_value :: "nat \<Rightarrow> string \<Rightarrow> (json \<times> string) option"
  and p_elems :: "nat \<Rightarrow> string \<Rightarrow> (json list \<times> string) option"
  and p_members :: "nat \<Rightarrow> string \<Rightarrow> ((string \<times> json) list \<times> string) option" where
  "p_value 0 s = None"
| "p_value (Suc n) s =
     (case s of
        [] \<Rightarrow> None
      | c # t \<Rightarrow>
          if c = CHR 0x22 then map_option (apfst JStr) (p_str t)
          else if c = CHR ''{'' then
            (case skip_ws t of
               [] \<Rightarrow> None
             | d # u \<Rightarrow>
                 if d = CHR ''}'' then Some (JObj [], u)
                 else map_option (apfst (\<lambda>kvs. JObj (dict_of kvs))) (p_members n (d # u)))
          else if c = CHR ''['' then
            (case skip_ws t of
               [] \<Rightarrow> None
             | d # u \<Rightarrow>
                 if d = CHR '']'' then Some (JArr [], u)
                 else map_option (apfst JArr) (p_elems n (d # u)))
          else if starts_with s ''null'' then Some (JNull, drop 4 s)
          else if starts_with s ''true'' then Some (JBool True, drop 4 s)
          else if starts_with s ''false'' then Some (JBool False, drop 5 s)
          else if starts_with s ''NaN'' then Some (JFloat ''NaN'', drop 3 s)
          else if starts_with s ''Infinity'' then Some (JFloat ''Infinity'', drop 8 s)
          else if starts_with s ''-Infinity'' then Some (JFloat ''-Infinity'', drop 9 s)
          else p_num s)"
| "p_elems 0 s = None"
| "p_elems (Suc n) s =
     (case p_value n s of
        None \<Rightarrow> None
      | Some (v, r) \<Rightarrow>
          (case skip_ws r of
             [] \<Rightarrow> None
           | d # u \<Rightarrow>
               if d = CHR '','' then map_option (apfst ((#) v)) (p_elems n (skip_ws u))
               else if d = CHR '']'' then Some ([v], u)
               else None))"
| "p_members 0 s = None"
| "p_members (Suc n) s =
     (case s of
        [] \<Rightarrow> None
      | c # t \<Rightarrow>
          if c \<noteq> CHR 0x22 then None
          else (case p_str t of
            None \<Rightarrow> None
          | Some (k, r) \<Rightarrow>
              (case skip_ws r of
                 [] \<Rightarrow> None
               | d # u \<Rightarrow>
                   if d \<noteq> CHR '':'' then None
                   else (case p_value n (skip_ws u) of
                     None \<Rightarrow> None
                   | Some (v, r') \<Rightarrow>
                       (case skip_ws r' of
                          [] \<Rightarrow> None
                        | e # w \<Rightarrow>
                            if e = CHR '','' then
                              map_option (apfst ((#) (k, v))) (p_members n (skip_ws w))
                            else if e = CHR ''}'' then Some ([(k, v)], w)
                            else None)))))"

definition loads :: "string \<Rightarrow> json option" where
  "loads s =
     (case p_value (Suc (length s)) (skip_ws s) of
        None \<Rightarrow> None
      | Some (v, r) \<Rightarrow> if skip_ws r = [] then Some v else None)"

end
