(* ===== verification/JsonFacts.thy ===== *)
theory JsonFacts
  imports Json
begin

text \<open>
  Correctness of the JSON layer: \<open>loads\<close> inverts both printers. The printers differ in how a
  string is escaped only, so the round trip is proved once, over the interface of an escaping
  function (locale \<open>string_codec\<close>), and interpreted for both.
\<close>

section \<open>Characters and code points\<close>

lemma byte_less [simp]: "byte c < 256"
  by (simp add: byte_def)

lemma byte_char_of [simp]: "n < 256 \<Longrightarrow> byte (char_of n) = n"
  by (simp add: byte_def)

lemma char_of_byte [simp]: "char_of (byte c) = c"
  by (simp add: byte_def)

lemma byte_eq_iff: "n < 256 \<Longrightarrow> byte c = n \<longleftrightarrow> c = char_of n"
  by (metis byte_char_of char_of_byte)

lemma byte_inject [simp]: "byte c = byte d \<longleftrightarrow> c = d"
  by (metis char_of_byte)

lemma nat_less_16_cases:
  assumes "(k::nat) < 16"
  shows "k = 0 \<or> k = 1 \<or> k = 2 \<or> k = 3 \<or> k = 4 \<or> k = 5 \<or> k = 6 \<or> k = 7 \<or>
    k = 8 \<or> k = 9 \<or> k = 10 \<or> k = 11 \<or> k = 12 \<or> k = 13 \<or> k = 14 \<or> k = 15"
  using assms by presburger

lemma hex_val_digit [simp]: "hex_val (''0123456789abcdef'' ! (k mod 16)) = Some (k mod 16)"
proof -
  have "k mod 16 < 16" by simp
  from nat_less_16_cases [OF this] show ?thesis
    by (elim disjE) (simp_all add: hex_val_def byte_def)
qed

lemma p_hex4_hex4 [simp]: "u < 65536 \<Longrightarrow> p_hex4 (hex4 u @ s) = Some (u, s)"
proof -
  assume u: "u < 65536"
  define p where "p = u div 16"
  define q where "q = p div 16"
  define r where "r = q div 16"
  have d: "u div 16 = p" "u div 256 = q" "u div 4096 = r"
    by (simp_all add: p_def q_def r_def flip: div_mult2_eq)
  have "u = 16 * p + u mod 16" "p = 16 * q + p mod 16" "q = 16 * r + q mod 16"
    by (simp_all add: p_def q_def r_def)
  moreover have "r mod 16 = r"
    using u d(3) by simp
  ultimately have "4096 * (r mod 16) + 256 * (q mod 16) + 16 * (p mod 16) + u mod 16 = u"
    by linarith
  then show ?thesis by (simp add: hex4_def d)
qed

section \<open>String literals\<close>

declare p_str.simps(2) [simp del]

lemma p_str_quote [simp]: "p_str (CHR 0x22 # s) = Some ([], s)"
  by (simp add: p_str.simps)

lemma p_str_plain:
  assumes "32 \<le> byte c" and "byte c \<noteq> 34" and "byte c \<noteq> 92"
  shows "p_str (c # s) = map_option (apfst ((#) c)) (p_str s)"
proof -
  have "c \<noteq> CHR 0x22" and "c \<noteq> CHR 0x5C"
    using assms by (auto simp: byte_def)
  with assms show ?thesis by (simp add: p_str.simps)
qed

lemma p_str_escape:
  assumes "simple_escape e = Some c"
  shows "p_str (CHR 0x5C # e # t) = map_option (apfst ((#) c)) (p_str t)"
  using assms by (simp add: p_str.simps)

lemma p_str_unicode:
  assumes "p_unicode t = Some (w, r)"
  shows "p_str (CHR 0x5C # CHR ''u'' # t) = map_option (apfst ((@) w)) (p_str r)"
  using assms by (simp add: p_str.simps simple_escape_def)

lemma p_unicode_bmp:
  assumes "u < 65536" and "scalar u"
  shows "p_unicode (hex4 u @ s) = Some (utf8_enc u, s)"
  using assms by (auto simp: p_unicode_def scalar_def)

lemma p_unicode_pair:
  assumes "65536 \<le> u" and "u < 1114112"
  shows "p_unicode (hex4 (55296 + (u - 65536) div 1024) @
    CHR 0x5C # CHR ''u'' # hex4 (56320 + (u - 65536) mod 1024) @ s) = Some (utf8_enc u, s)"
proof -
  define k where "k = u - 65536"
  have u: "u = 65536 + k" and "k < 1048576"
    using assms by (simp_all add: k_def)
  then have b: "k div 1024 < 1024" "k mod 1024 < 1024"
    by (simp_all add: less_mult_imp_div_less)
  have "k div 1024 * 1024 + k mod 1024 = k"
    by simp
  with b show ?thesis
    unfolding u by (simp add: p_unicode_def add.commute)
qed

text \<open>What an escaped code point parses to, in the shared part of the two variants.\<close>

lemma map_option_Cons: "map_option (apfst ((#) c)) x = map_option (apfst ((@) [c])) x"
  by (cases x) (simp_all add: apfst_def map_prod_def split: prod.splits)

lemma esc_code_simple:
  assumes "u \<in> {34, 92, 10, 13, 9, 8, 12}"
  shows "\<exists>e. esc_code f u = [CHR 0x5C, e] \<and> simple_escape e = Some (char_of u)"
  using assms by (elim insertE emptyE) (simp_all add: esc_code_def simple_escape_def char_of_def bit_Suc bit_0)

lemma p_str_esc_code:
  assumes f: "\<not> u < 32 \<Longrightarrow> u \<noteq> 34 \<Longrightarrow> u \<noteq> 92 \<Longrightarrow>
      p_str (f u @ s) = map_option (apfst ((@) w)) (p_str s)"
    and w: "u < 128 \<Longrightarrow> w = [char_of u]"
  shows "p_str (esc_code f u @ s) = map_option (apfst ((@) w)) (p_str s)"
proof (cases "u \<in> {34, 92, 10, 13, 9, 8, 12}")
  case True
  then obtain e where e: "esc_code f u = [CHR 0x5C, e]" "simple_escape e = Some (char_of u)"
    using esc_code_simple by blast
  from True have "u < 128" by auto
  with w have "w = [char_of u]" by simp
  with e show ?thesis by (simp add: p_str_escape map_option_Cons)
next
  case not_simple: False
  show ?thesis
  proof (cases "u < 32")
    case True
    with w p_unicode_bmp [of u s] have "p_unicode (hex4 u @ s) = Some (w, s)"
      by (simp add: utf8_enc_def scalar_def)
    moreover from True not_simple have "esc_code f u = [CHR 0x5C, CHR ''u''] @ hex4 u"
      by (simp add: esc_code_def)
    ultimately show ?thesis by (simp add: p_str_unicode)
  next
    case False
    with not_simple have "esc_code f u = f u"
      by (simp add: esc_code_def)
    with False not_simple f show ?thesis by simp
  qed
qed

lemma p_str_esc_raw [simp]: "p_str (esc_raw s @ CHR 0x22 # r) = Some (s, r)"
proof (induction s)
  case Nil
  then show ?case by (simp add: esc_raw_def)
next
  case (Cons c s)
  have "p_str (esc_code (\<lambda>u. [c]) (byte c) @ esc_raw s @ CHR 0x22 # r)
    = map_option (apfst ((@) [c])) (p_str (esc_raw s @ CHR 0x22 # r))"
    by (rule p_str_esc_code) (simp_all add: p_str_plain map_option_Cons)
  with Cons show ?case by (simp add: esc_raw_def)
qed

lemma p_str_esc_unicode:
  assumes "u < 1114112" and "scalar u" and "\<not> u < 32" and "u \<noteq> 34" and "u \<noteq> 92"
  shows "p_str (esc_unicode u @ s) = map_option (apfst ((@) (utf8_enc u))) (p_str s)"
proof -
  consider "u < 127" | "127 \<le> u" "u < 65536" | "65536 \<le> u" by linarith
  then show ?thesis
  proof cases
    case 1
    then have "p_str (char_of u # s) = map_option (apfst ((#) (char_of u))) (p_str s)"
      using assms by (intro p_str_plain) simp_all
    with 1 show ?thesis
      by (simp add: esc_unicode_def utf8_enc_def map_option_Cons)
  next
    case 2
    with assms p_unicode_bmp [of u s] show ?thesis
      by (simp add: esc_unicode_def p_str_unicode)
  next
    case 3
    with assms p_unicode_pair [of u s] show ?thesis
      by (simp add: esc_unicode_def p_str_unicode)
  qed
qed

lemma p_str_esc_points:
  assumes "\<forall>u \<in> set us. u < 1114112 \<and> scalar u"
  shows "p_str (concat (map (esc_code esc_unicode) us) @ CHR 0x22 # r)
    = Some (concat (map utf8_enc us), r)"
  using assms
proof (induction us)
  case Nil
  then show ?case by simp
next
  case (Cons u us)
  have "p_str (esc_code esc_unicode u @ concat (map (esc_code esc_unicode) us) @ CHR 0x22 # r)
    = map_option (apfst ((@) (utf8_enc u)))
        (p_str (concat (map (esc_code esc_unicode) us) @ CHR 0x22 # r))"
    using Cons.prems by (intro p_str_esc_code p_str_esc_unicode) (simp_all add: utf8_enc_def)
  with Cons show ?case by simp
qed

text \<open>Decoding and encoding UTF-8.\<close>

lemma utf8_enc2:
  assumes "194 \<le> a" "a < 224" "128 \<le> b" "b < 192"
  shows "utf8_enc ((a - 192) * 64 + (b - 128)) = [char_of a, char_of b]"
proof -
  define x y where "x = a - 192" and "y = b - 128"
  have d: "a = 192 + x" "b = 128 + y" and l: "2 \<le> x" "x < 32" "y < 64"
    using assms by (simp_all add: x_def y_def)
  have "(x * 64 + y) div 64 = x" and "(x * 64 + y) mod 64 = y"
    using l by (simp, metis mod_less mod_mult_self3)
  then have "utf8_enc (x * 64 + y) = [char_of (192 + x), char_of (128 + y)]"
    using l by (simp add: utf8_enc_def)
  then show ?thesis by (simp add: d)
qed

lemma utf8_enc3:
  assumes "224 \<le> a" "a < 240" "128 \<le> b" "b < 192" "128 \<le> c" "c < 192"
    and "2048 \<le> (a - 224) * 4096 + (b - 128) * 64 + (c - 128)"
  shows "utf8_enc ((a - 224) * 4096 + (b - 128) * 64 + (c - 128)) = [char_of a, char_of b, char_of c]"
proof -
  define x y z where "x = a - 224" and "y = b - 128" and "z = c - 128"
  have d: "a = 224 + x" "b = 128 + y" "c = 128 + z" and l: "x < 16" "y < 64" "z < 64"
    using assms by (simp_all add: x_def y_def z_def)
  define u where "u = x * 4096 + y * 64 + z"
  have "u = x * 4096 + (y * 64 + z)" and "u = (x * 64 + y) * 64 + z" and "y * 64 + z < 4096"
    using l by (simp_all add: u_def)
  then have "u div 4096 = x" and "u div 64 = x * 64 + y" and "u mod 64 = z"
    using l by (simp, simp, metis mod_less mod_mult_self3)
  moreover have "2048 \<le> u" and "u < 65536"
    using assms l by (simp_all add: u_def d)
  ultimately have "utf8_enc u = [char_of (224 + x), char_of (128 + y), char_of (128 + z)]"
    using l by (simp add: utf8_enc_def)
  then show ?thesis
    by (simp add: u_def d)
qed

lemma utf8_enc4:
  assumes "240 \<le> a" "a < 245" "128 \<le> b" "b < 192" "128 \<le> c" "c < 192" "128 \<le> d" "d < 192"
    and "65536 \<le> (a - 240) * 262144 + (b - 128) * 4096 + (c - 128) * 64 + (d - 128)"
  shows "utf8_enc ((a - 240) * 262144 + (b - 128) * 4096 + (c - 128) * 64 + (d - 128))
    = [char_of a, char_of b, char_of c, char_of d]"
proof -
  define w x y z where "w = a - 240" and "x = b - 128" and "y = c - 128" and "z = d - 128"
  have e: "a = 240 + w" "b = 128 + x" "c = 128 + y" "d = 128 + z"
    and l: "w < 5" "x < 64" "y < 64" "z < 64"
    using assms by (simp_all add: w_def x_def y_def z_def)
  define u where "u = w * 262144 + x * 4096 + y * 64 + z"
  have "u = w * 262144 + (x * 4096 + y * 64 + z)" and "x * 4096 + y * 64 + z < 262144"
    and "u = (w * 64 + x) * 4096 + (y * 64 + z)" and "y * 64 + z < 4096"
    and "u = (w * 4096 + x * 64 + y) * 64 + z"
    using l by (simp_all add: u_def)
  then have q: "u div 262144 = w" "u div 4096 = w * 64 + x" "u div 64 = w * 4096 + x * 64 + y"
    and m: "u mod 64 = z"
    using l by (simp, simp, simp, metis mod_less mod_mult_self3)
  have "w * 4096 + x * 64 + y = (w * 64 + x) * 64 + y" by simp
  then have "(w * 4096 + x * 64 + y) mod 64 = y"
    using l by (metis mod_less mod_mult_self3)
  moreover have "65536 \<le> u"
    using assms by (simp add: u_def e)
  ultimately have "utf8_enc u =
      [char_of (240 + w), char_of (128 + x), char_of (128 + y), char_of (128 + z)]"
    using l q m by (simp add: utf8_enc_def)
  then show ?thesis
    by (simp add: u_def e)
qed

lemma scalar_bound: "scalar u \<Longrightarrow> u < 1114112"
  by (auto simp: scalar_def)

lemma utf8_dec_enc:
  "utf8_dec s = Some us \<Longrightarrow> s = concat (map utf8_enc us) \<and> (\<forall>u \<in> set us. u < 1114112 \<and> scalar u)"
proof (induction s arbitrary: us rule: utf8_dec.induct)
  case 1
  then show ?case by simp
next
  case (2 a s)
  consider (one) "byte a < 128"
    | (two) b t where "s = b # t" "\<not> byte a < 128" "194 \<le> byte a \<and> byte a < 224"
    | (three) b c t where "s = b # c # t" "\<not> byte a < 128" "\<not> (194 \<le> byte a \<and> byte a < 224)"
        "224 \<le> byte a \<and> byte a < 240"
    | (four) b c d t where "s = b # c # d # t" "\<not> byte a < 128" "\<not> (194 \<le> byte a \<and> byte a < 224)"
        "\<not> (224 \<le> byte a \<and> byte a < 240)" "240 \<le> byte a \<and> byte a < 245"
    using "2.prems" by (simp split: if_splits list.splits)
  then show ?case
  proof cases
    case one
    with "2.prems" obtain vs where vs: "utf8_dec s = Some vs" "us = byte a # vs" by auto
    have "utf8_enc (byte a) = [a]" and "scalar (byte a)"
      using one by (simp_all add: utf8_enc_def scalar_def)
    with vs "2.IH"(1) [OF one vs(1)] one show ?thesis by simp
  next
    case two
    with "2.prems" obtain vs where vs: "utf8_dec t = Some vs" "cont b"
        "us = ((byte a - 192) * 64 + (byte b - 128)) # vs"
      by (auto split: if_splits)
    have "utf8_enc ((byte a - 192) * 64 + (byte b - 128)) = [a, b]"
      using utf8_enc2 [of "byte a" "byte b"] two vs by (simp add: cont_def)
    moreover have "scalar ((byte a - 192) * 64 + (byte b - 128))"
      using two vs unfolding scalar_def cont_def by linarith
    ultimately have "scalar ((byte a - 192) * 64 + (byte b - 128))"
      and "utf8_enc ((byte a - 192) * 64 + (byte b - 128)) = [a, b]" by simp_all
    with two vs "2.IH"(2) [OF two(2,1,3) vs(2,1)] show ?thesis
      by (simp add: scalar_bound)
  next
    case three
    define p where "p = (byte a - 224) * 4096 + (byte b - 128) * 64 + (byte c - 128)"
    from three "2.prems" obtain vs where vs: "utf8_dec t = Some vs"
        "cont b \<and> cont c \<and> 2048 \<le> p \<and> scalar p" "us = p # vs"
      by (auto simp: Let_def p_def split: if_splits)
    have "utf8_enc p = [a, b, c]"
      using three vs unfolding p_def by (subst utf8_enc3) (auto simp only: cont_def char_of_byte)
    with three vs "2.IH"(3) [OF three(2,1,3) refl three(4) p_def vs(2,1)] show ?thesis
      by (simp add: scalar_bound)
  next
    case four
    define p where "p = (byte a - 240) * 262144 + (byte b - 128) * 4096 + (byte c - 128) * 64 +
      (byte d - 128)"
    from four "2.prems" obtain vs where vs: "utf8_dec t = Some vs"
        "cont b \<and> cont c \<and> cont d \<and> 65536 \<le> p \<and> scalar p" "us = p # vs"
      by (auto simp: Let_def p_def split: if_splits)
    have "utf8_enc p = [a, b, c, d]"
      using four vs unfolding p_def by (subst utf8_enc4) (auto simp only: cont_def char_of_byte)
    with four vs "2.IH"(4) [OF four(2,1,3) refl four(4) refl four(5) p_def vs(2,1)] show ?thesis
      by (simp add: scalar_bound)
  qed
qed

lemma p_str_esc_ascii [simp]: "utf8_ok s \<Longrightarrow> p_str (esc_ascii s @ CHR 0x22 # r) = Some (s, r)"
  using p_str_esc_points utf8_dec_enc by (fastforce simp: utf8_ok_def esc_ascii_def opt_or_def)


section \<open>Numbers\<close>

text \<open>A continuation that cannot extend a number: the end of the text or a separator.\<close>

definition stops :: "string \<Rightarrow> bool" where
  "stops r = (r = [] \<or> hd r \<in> {CHR '','', CHR '']'', CHR ''}'', CHR 0x0A})"

lemma stops_simps [simp]: "stops []" "stops (CHR '','' # r)" "stops (CHR '']'' # r)"
  "stops (CHR ''}'' # r)" "stops (CHR 0x0A # r)"
  by (simp_all add: stops_def)

lemma dec_nat_not_Nil [simp]: "dec_nat n \<noteq> []"
  by (subst dec_nat.simps) simp

lemma is_digit_digit_char [simp]: "is_digit (digit_char n)"
proof -
  have "n mod 10 < 10" by simp
  then have "byte (digit_char n) = 48 + n mod 10"
    unfolding digit_char_def by (intro byte_char_of) linarith
  then show ?thesis
    using \<open>n mod 10 < 10\<close> by (simp add: is_digit_def)
qed

lemma byte_digit_char: "byte (digit_char n) = 48 + n mod 10"
proof -
  have "n mod 10 < 10" by simp
  then show ?thesis
    unfolding digit_char_def by (intro byte_char_of) linarith
qed

lemma digits_dec_nat: "list_all is_digit (dec_nat n)"
proof (induction n rule: dec_nat.induct)
  case (1 n)
  then show ?case by (subst dec_nat.simps) simp
qed

lemma dec_val_append: "dec_val (ds @ [c]) = 10 * dec_val ds + (byte c - 48)"
  by (simp add: dec_val_def)

lemma dec_val_dec_nat [simp]: "dec_val (dec_nat n) = n"
proof (induction n rule: dec_nat.induct)
  case (1 n)
  show ?case
  proof (cases "n < 10")
    case True
    then show ?thesis
      by (subst dec_nat.simps) (simp add: dec_val_def byte_digit_char)
  next
    case False
    with 1 show ?thesis
      by (subst dec_nat.simps) (simp add: dec_val_append byte_digit_char)
  qed
qed

lemma dec_nat_hd:
  shows "0 < n \<Longrightarrow> hd (dec_nat n) \<noteq> CHR ''0''"
proof (induction n rule: dec_nat.induct)
  case (1 n)
  show ?case
  proof (cases "n < 10")
    case True
    then have "byte (digit_char n) = 48 + n"
      by (simp add: byte_digit_char)
    with "1.prems" have "digit_char n \<noteq> CHR ''0''"
      by (auto simp: byte_def)
    with True show ?thesis by (subst dec_nat.simps) simp
  next
    case False
    with 1 show ?thesis by (subst dec_nat.simps) simp
  qed
qed

lemma stops_not_digit: "stops r \<Longrightarrow> r \<noteq> [] \<Longrightarrow> \<not> is_digit (hd r)"
  by (auto simp: stops_def is_digit_def byte_def)

lemma takeWhile_digits:
  assumes "list_all is_digit ds" and "stops r"
  shows "takeWhile is_digit (ds @ r) = ds" and "dropWhile is_digit (ds @ r) = r"
  using assms stops_not_digit [of r]
  by (cases r; simp add: takeWhile_append dropWhile_append list_all_iff)+

lemma p_int_part_dec_nat:
  assumes "stops r"
  shows "p_int_part (dec_nat n @ r) = Some (dec_nat n, r)"
proof (cases "n = 0")
  case True
  then have "dec_nat n = ''0''"
    by (simp add: dec_nat.simps digit_char_def char_of_def bit_Suc bit_0)
  then show ?thesis by (simp add: p_int_part_def)
next
  case False
  then obtain c t where ct: "dec_nat n = c # t" and "c \<noteq> CHR ''0''"
    using dec_nat_hd [of n] dec_nat_not_Nil [of n] by (metis gr_zeroI hd_Cons_tl list.sel(1))
  moreover have "is_digit c"
    using digits_dec_nat [of n] ct by simp
  ultimately show ?thesis
    using takeWhile_digits [OF digits_dec_nat [of n] assms]
    by (simp add: p_int_part_def)
qed

lemma p_frac_stops: "stops r \<Longrightarrow> p_frac r = ([], r)"
  by (auto simp: p_frac_def stops_def split: list.splits)

lemma p_exp_stops: "stops r \<Longrightarrow> p_exp r = ([], r)"
  by (auto simp: p_exp_def stops_def split: list.splits)

lemma p_num_dec_int:
  assumes "stops r"
  shows "p_num (dec_int i @ r) = Some (JInt i, r)"
proof (cases "i < 0")
  case True
  then show ?thesis
    using assms by (simp add: p_num_def dec_int_def p_int_part_dec_nat p_frac_stops p_exp_stops)
next
  case False
  obtain c t where ct: "dec_nat (nat i) = c # t"
    using dec_nat_not_Nil [of "nat i"] by (metis list.exhaust)
  then have "is_digit c"
    using digits_dec_nat [of "nat i"] by simp
  then have "c \<noteq> CHR ''-''"
    by (auto simp: is_digit_def byte_def)
  with ct have "(case dec_nat (nat i) @ r of c # s' \<Rightarrow> if c = CHR ''-'' then (True, s') else (False, dec_nat (nat i) @ r)
       | [] \<Rightarrow> (False, dec_nat (nat i) @ r)) = (False, dec_nat (nat i) @ r)"
    by simp
  with False assms show ?thesis
    by (simp add: p_num_def dec_int_def p_int_part_dec_nat p_frac_stops p_exp_stops)
qed


section \<open>Values\<close>

text \<open>
  The values both printers are inverted on: objects have distinct keys (every \<open>dict\<close> does),
  every string satisfies the codec's precondition, and no float occurs.
\<close>

fun json_ok :: "(string \<Rightarrow> bool) \<Rightarrow> json \<Rightarrow> bool" where
  "json_ok ok (JFloat l) = False"
| "json_ok ok (JStr s) = ok s"
| "json_ok ok (JArr vs) = (\<forall>v \<in> set vs. json_ok ok v)"
| "json_ok ok (JObj kvs) =
     (distinct (map fst kvs) \<and> (\<forall>kv \<in> set kvs. ok (fst kv) \<and> json_ok ok (snd kv)))"
| "json_ok ok _ = True"

lemma skip_ws_not [simp]: "\<not> is_ws c \<Longrightarrow> skip_ws (c # s) = c # s"
  by (simp add: skip_ws_def)

lemma skip_ws_Nil [simp]: "skip_ws [] = []"
  by (simp add: skip_ws_def)

lemma length_skip_ws: "length (skip_ws s) \<le> length s"
  by (simp add: skip_ws_def length_dropWhile_le)

lemma dict_of_append: "dict_ok (d @ kvs) \<Longrightarrow> foldl (\<lambda>d (k, v). AList.update k v d) d kvs = d @ kvs"
proof (induction kvs arbitrary: d)
  case Nil
  then show ?case by simp
next
  case (Cons kv kvs)
  have "AList.update k v d = d @ [(k, v)]" if "k \<notin> fst ` set d" for k v
    using that by (induction d) auto
  with Cons show ?case by (cases kv) (auto simp: dict_ok_def)
qed

lemma dict_of_id: "distinct (map fst kvs) \<Longrightarrow> dict_of kvs = kvs"
  using dict_of_append [of "[]" kvs] by (simp add: dict_of_def dict_ok_def)

text \<open>First characters of printed values.\<close>

definition value_start :: "char \<Rightarrow> bool" where
  "value_start c = (\<not> is_ws c \<and> c \<noteq> CHR '']'' \<and> c \<noteq> CHR ''}'')"

lemma dec_int_start: "\<exists>c t. dec_int i = c # t \<and> (is_digit c \<or> c = CHR ''-'' \<and> t \<noteq> [] \<and> is_digit (hd t))"
proof (cases "i < 0")
  case True
  then show ?thesis
    using digits_dec_nat [of "nat (- i)"] dec_nat_not_Nil [of "nat (- i)"]
    by (cases "dec_nat (nat (- i))") (auto simp: dec_int_def)
next
  case False
  then show ?thesis
    using digits_dec_nat [of "nat i"] dec_nat_not_Nil [of "nat i"]
    by (cases "dec_nat (nat i)") (auto simp: dec_int_def)
qed

lemma is_digit_facts: "is_digit c \<Longrightarrow> c \<noteq> CHR 0x22 \<and> c \<noteq> CHR ''{'' \<and> c \<noteq> CHR ''['' \<and> c \<noteq> CHR ''n'' \<and>
    c \<noteq> CHR ''t'' \<and> c \<noteq> CHR ''f'' \<and> c \<noteq> CHR ''N'' \<and> c \<noteq> CHR ''I'' \<and> c \<noteq> CHR ''-'' \<and> value_start c"
  by (auto simp: is_digit_def value_start_def is_ws_def byte_def)

lemma render_start: "json_ok ok v \<Longrightarrow> \<exists>c t. render esc v = c # t \<and> value_start c"
proof (cases v)
  case (JInt i)
  have "value_start CHR ''-''" by (simp add: value_start_def is_ws_def)
  with JInt dec_int_start [of i] show ?thesis
    by (auto dest: is_digit_facts)
qed (auto simp: value_start_def is_ws_def quoted_def)

lemma length_render_pos: "json_ok ok v \<Longrightarrow> 0 < length (render esc v)"
  using render_start [of ok v esc] by auto

declare p_value.simps [simp del] p_elems.simps [simp del] p_members.simps [simp del]

lemma starts_with_Cons [simp]: "starts_with (c # s) (d # p) \<longleftrightarrow> c = d \<and> starts_with s p"
  by (auto simp: starts_with_def)

lemma starts_with_Nil [simp]: "starts_with s []" "starts_with [] (d # p) \<longleftrightarrow> False"
  by (simp_all add: starts_with_def)

lemma p_value_num:
  assumes "is_digit c \<or> c = CHR ''-'' \<and> t \<noteq> [] \<and> is_digit (hd t)"
  shows "p_value (Suc n) (c # t) = p_num (c # t)"
proof -
  have "\<not> starts_with (c # t) ''-Infinity''"
  proof (cases t)
    case (Cons d u)
    have "is_digit c \<Longrightarrow> c \<noteq> CHR ''-''" and "is_digit d \<Longrightarrow> d \<noteq> CHR ''I''"
      by (simp_all add: is_digit_facts)
    with assms Cons show ?thesis by auto
  qed simp
  moreover have "c \<noteq> CHR 0x22 \<and> c \<noteq> CHR ''{'' \<and> c \<noteq> CHR ''['' \<and> c \<noteq> CHR ''n'' \<and>
    c \<noteq> CHR ''t'' \<and> c \<noteq> CHR ''f'' \<and> c \<noteq> CHR ''N'' \<and> c \<noteq> CHR ''I''"
    using assms by (elim disjE) (simp_all add: is_digit_facts)
  ultimately show ?thesis
    by (cases "c = CHR ''-''") (simp_all add: p_value.simps)
qed

lemma p_value_int:
  assumes "stops r"
  shows "p_value (Suc n) (dec_int i @ r) = Some (JInt i, r)"
proof -
  obtain c t where ct: "dec_int i = c # t"
    and c: "is_digit c \<or> c = CHR ''-'' \<and> t \<noteq> [] \<and> is_digit (hd t)"
    using dec_int_start [of i] by blast
  then have "is_digit c \<or> c = CHR ''-'' \<and> t @ r \<noteq> [] \<and> is_digit (hd (t @ r))"
    by auto
  then have "p_value (Suc n) (c # (t @ r)) = p_num (c # (t @ r))"
    by (rule p_value_num)
  then show ?thesis
    using p_num_dec_int [OF assms, of i] ct by simp
qed

lemma p_value_words [simp]:
  "p_value (Suc n) (CHR ''n'' # CHR ''u'' # CHR ''l'' # CHR ''l'' # r) = Some (JNull, r)"
  "p_value (Suc n) (CHR ''t'' # CHR ''r'' # CHR ''u'' # CHR ''e'' # r) = Some (JBool True, r)"
  "p_value (Suc n) (CHR ''f'' # CHR ''a'' # CHR ''l'' # CHR ''s'' # CHR ''e'' # r) = Some (JBool False, r)"
  by (simp_all add: p_value.simps)

lemma p_value_str [simp]: "p_value (Suc n) (CHR 0x22 # t) = map_option (apfst JStr) (p_str t)"
  by (simp add: p_value.simps)

lemma p_value_arr:
  assumes "t = c # u" and "value_start c"
  shows "p_value (Suc n) (CHR ''['' # t) = map_option (apfst JArr) (p_elems n t)"
  using assms by (simp add: p_value.simps value_start_def)

lemma p_value_obj:
  assumes "t = c # u" and "value_start c"
  shows "p_value (Suc n) (CHR ''{'' # t)
    = map_option (apfst (\<lambda>kvs. JObj (dict_of kvs))) (p_members n t)"
  using assms by (simp add: p_value.simps value_start_def)

lemma p_value_empty [simp]:
  "p_value (Suc n) (CHR ''['' # CHR '']'' # r) = Some (JArr [], r)"
  "p_value (Suc n) (CHR ''{'' # CHR ''}'' # r) = Some (JObj [], r)"
  by (simp_all add: p_value.simps is_ws_def)

lemma p_elems_last: "p_value n s = Some (v, CHR '']'' # r) \<Longrightarrow> p_elems (Suc n) s = Some ([v], r)"
  by (simp add: p_elems.simps is_ws_def)

lemma p_elems_more:
  "p_value n s = Some (v, CHR '','' # c # u) \<Longrightarrow> value_start c \<Longrightarrow>
     p_elems (Suc n) s = map_option (apfst ((#) v)) (p_elems n (c # u))"
  by (simp add: p_elems.simps is_ws_def value_start_def)

lemma p_members_last:
  "p_str s = Some (k, CHR '':'' # c # t) \<Longrightarrow> value_start c \<Longrightarrow>
     p_value n (c # t) = Some (v, CHR ''}'' # r) \<Longrightarrow>
     p_members (Suc n) (CHR 0x22 # s) = Some ([(k, v)], r)"
  by (simp add: p_members.simps is_ws_def value_start_def)

lemma p_members_more:
  "p_str s = Some (k, CHR '':'' # c # t) \<Longrightarrow> value_start c \<Longrightarrow>
     p_value n (c # t) = Some (v, CHR '','' # CHR 0x22 # r) \<Longrightarrow>
     p_members (Suc n) (CHR 0x22 # s)
       = map_option (apfst ((#) (k, v))) (p_members n (CHR 0x22 # r))"
  by (simp add: p_members.simps is_ws_def value_start_def)

section \<open>The interface of an escaping function\<close>

locale string_codec =
  fixes esc :: "string \<Rightarrow> string" and ok :: "string \<Rightarrow> bool"
  assumes p_str_esc: "ok s \<Longrightarrow> p_str (esc s @ CHR 0x22 # r) = Some (s, r)"
begin

text \<open>\<open>reads v n\<close>: with fuel \<open>n\<close> the printed form of \<open>v\<close> reads back as \<open>v\<close>, in any context.\<close>

definition reads :: "json \<Rightarrow> bool" where
  "reads v = (\<forall>n r. length (render esc v) \<le> n \<longrightarrow> stops r \<longrightarrow>
     p_value n (render esc v @ r) = Some (v, r))"

lemma readsD:
  "reads v \<Longrightarrow> length (render esc v) \<le> n \<Longrightarrow> stops r \<Longrightarrow> p_value n (render esc v @ r) = Some (v, r)"
  by (simp add: reads_def)

lemma p_elems_render:
  assumes "\<forall>v \<in> set vs. json_ok ok v \<and> reads v" and "vs \<noteq> []"
    and "length (render_elems esc vs) < n"
  shows "p_elems n (render_elems esc vs @ CHR '']'' # r) = Some (vs, r)"
  using assms
proof (induction vs arbitrary: n)
  case Nil
  then show ?case by simp
next
  case (Cons v vs)
  then obtain m where n: "n = Suc m" by (cases n) auto
  show ?case
  proof (cases "vs = []")
    case True
    with Cons.prems n have "p_value m (render esc v @ CHR '']'' # r) = Some (v, CHR '']'' # r)"
      by (intro readsD) auto
    with True n show ?thesis by (simp add: p_elems_last)
  next
    case False
    let ?more = "render_elems esc vs @ CHR '']'' # r"
    from False obtain w ws where vs: "vs = w # ws" by (cases vs) auto
    with Cons.prems obtain c t where ct: "render esc w = c # t" and c: "value_start c"
      using render_start [of ok w esc] by auto
    from False Cons.prems n have "p_value m (render esc v @ CHR '','' # ?more) = Some (v, CHR '','' # ?more)"
      by (intro readsD) auto
    moreover obtain u where "?more = c # u"
      using vs ct by simp
    ultimately have "p_elems n (render esc v @ CHR '','' # ?more) = map_option (apfst ((#) v)) (p_elems m ?more)"
      using c n by (simp add: p_elems_more)
    with Cons False n show ?thesis by simp
  qed
qed

lemma p_members_render:
  assumes "\<forall>kv \<in> set kvs. ok (fst kv) \<and> json_ok ok (snd kv) \<and> reads (snd kv)" and "kvs \<noteq> []"
    and "length (render_members esc kvs) < n"
  shows "p_members n (render_members esc kvs @ CHR ''}'' # r) = Some (kvs, r)"
  using assms
proof (induction kvs arbitrary: n)
  case Nil
  then show ?case by simp
next
  case (Cons kv kvs)
  obtain k v where kv: "kv = (k, v)" by (cases kv)
  from Cons.prems obtain m where n: "n = Suc m" by (cases n) auto
  from Cons.prems kv obtain c t where ct: "render esc v = c # t" and c: "value_start c"
    using render_start [of ok v esc] by auto
  show ?case
  proof (cases "kvs = []")
    case True
    with Cons.prems n kv have v: "p_value m (render esc v @ CHR ''}'' # r) = Some (v, CHR ''}'' # r)"
      by (intro readsD) (auto simp: quoted_def)
    show ?thesis
      using Cons.prems True kv n c v
      by (simp add: quoted_def p_members_last [OF p_str_esc] ct)
  next
    case False
    let ?more = "render_members esc kvs @ CHR ''}'' # r"
    from False obtain s where s: "?more = CHR 0x22 # s"
      by (cases kvs) (auto simp: quoted_def)
    from False Cons.prems n kv
    have v: "p_value m (render esc v @ CHR '','' # ?more) = Some (v, CHR '','' # ?more)"
      by (intro readsD) (auto simp: quoted_def)
    have "p_members n (CHR 0x22 # esc k @ CHR 0x22 # CHR '':'' # render esc v @ CHR '','' # ?more)
      = map_option (apfst ((#) (k, v))) (p_members m ?more)"
      using Cons.prems kv n c v
      by (simp add: p_members_more [OF p_str_esc] ct s)
    with Cons False n kv show ?thesis by (simp add: quoted_def)
  qed
qed

lemma reads_json_ok: "json_ok ok v \<Longrightarrow> reads v"
proof (induction v)
  case (JStr s)
  show ?case unfolding reads_def
  proof (intro allI impI)
    fix n r
    assume "length (render esc (JStr s)) \<le> n"
    then obtain m where "n = Suc m" by (cases n) (auto simp: quoted_def)
    with JStr show "p_value n (render esc (JStr s) @ r) = Some (JStr s, r)"
      by (simp add: quoted_def p_str_esc)
  qed
next
  case (JArr vs)
  then have sub: "\<forall>v \<in> set vs. json_ok ok v \<and> reads v" by auto
  show ?case unfolding reads_def
  proof (intro allI impI)
    fix n r
    assume len: "length (render esc (JArr vs)) \<le> n"
    then obtain m where n: "n = Suc m" by (cases n) auto
    show "p_value n (render esc (JArr vs) @ r) = Some (JArr vs, r)"
    proof (cases vs)
      case Nil
      with n show ?thesis by simp
    next
      case (Cons w ws)
      with sub obtain c t where "render esc w = c # t" and "value_start c"
        using render_start [of ok w esc] by auto
      with Cons obtain u where "render_elems esc vs @ CHR '']'' # r = c # u" by simp
      with \<open>value_start c\<close>
      have "p_value n (render esc (JArr vs) @ r)
        = map_option (apfst JArr) (p_elems m (render_elems esc vs @ CHR '']'' # r))"
        unfolding n by (simp add: p_value_arr)
      also have "\<dots> = Some (JArr vs, r)"
        using n Cons len sub by (subst p_elems_render) auto
      finally show ?thesis .
    qed
  qed
next
  case (JObj kvs)
  then have sub: "\<forall>kv \<in> set kvs. ok (fst kv) \<and> json_ok ok (snd kv) \<and> reads (snd kv)"
    by (auto simp: snds.simps)
  show ?case unfolding reads_def
  proof (intro allI impI)
    fix n r
    assume len: "length (render esc (JObj kvs)) \<le> n"
    then obtain m where n: "n = Suc m" by (cases n) auto
    show "p_value n (render esc (JObj kvs) @ r) = Some (JObj kvs, r)"
    proof (cases kvs)
      case Nil
      with n show ?thesis by simp
    next
      case (Cons w ws)
      then obtain u where "render_members esc kvs @ CHR ''}'' # r = CHR 0x22 # u"
        by (simp add: quoted_def)
      moreover have "value_start CHR 0x22" by (simp add: value_start_def is_ws_def)
      ultimately have "p_value n (render esc (JObj kvs) @ r) = map_option
          (apfst (\<lambda>kvs. JObj (dict_of kvs))) (p_members m (render_members esc kvs @ CHR ''}'' # r))"
        unfolding n by (simp add: p_value_obj)
      also have "\<dots> = Some (JObj kvs, r)"
        using n Cons len sub JObj.prems by (subst p_members_render) (auto simp: dict_of_id)
      finally show ?thesis .
    qed
  qed
next
  case (JInt i)
  show ?case unfolding reads_def
  proof (intro allI impI)
    fix n r
    assume "length (render esc (JInt i)) \<le> n" and "stops r"
    moreover have "0 < length (render esc (JInt i))"
      using length_render_pos [of ok "JInt i"] by simp
    ultimately show "p_value n (render esc (JInt i) @ r) = Some (JInt i, r)"
      by (cases n) (simp_all add: p_value_int)
  qed
next
  case (JBool b)
  show ?case unfolding reads_def
  proof (intro allI impI)
    fix n r
    assume "length (render esc (JBool b)) \<le> n"
    then show "p_value n (render esc (JBool b) @ r) = Some (JBool b, r)"
      by (cases n) (auto split: if_splits)
  qed
next
  case JNull
  show ?case unfolding reads_def
  proof (intro allI impI)
    fix n r
    assume "length (render esc JNull) \<le> n"
    then show "p_value n (render esc JNull @ r) = Some (JNull, r)"
      by (cases n) simp_all
  qed
next
  case (JFloat l)
  then show ?case by simp
qed

theorem loads_render: "json_ok ok v \<Longrightarrow> loads (render esc v) = Some v"
proof -
  assume ok: "json_ok ok v"
  then obtain c t where "render esc v = c # t" and "value_start c"
    using render_start by blast
  then have "skip_ws (render esc v) = render esc v"
    by (simp add: value_start_def)
  with readsD [OF reads_json_ok [OF ok], of "Suc (length (render esc v))" "[]"] show ?thesis
    by (simp add: loads_def)
qed

end

interpretation raw: string_codec esc_raw "\<lambda>s. True"
  by unfold_locales simp

interpretation ascii: string_codec esc_ascii utf8_ok
  by unfold_locales simp


section \<open>Canonical bytes determine the value\<close>

lemma distinct_map_sort_key [simp]:
  "distinct (map f (sort_key f xs)) \<longleftrightarrow> distinct (map f xs)"
  by (induction xs) (simp_all add: distinct_insort_key)

lemma map_fst_sort_keys: "map fst (map (\<lambda>(k, v). (k, sort_keys v)) kvs) = map fst kvs"
  by auto

lemma json_ok_sort_keys: "json_ok ok v \<Longrightarrow> json_ok ok (sort_keys v)"
proof (induction v rule: sort_keys.induct)
  case (2 kvs)
  show ?case
    unfolding sort_keys.simps json_ok.simps distinct_map_sort_key map_fst_sort_keys
    using 2 by fastforce
qed auto

text \<open>Decoding the canonical bytes of a value returns it with sorted keys.\<close>

lemma loads_canonical: "json_ok (\<lambda>s. True) v \<Longrightarrow> loads (canonical v) = Some (sort_keys v)"
  unfolding canonical_def by (intro raw.loads_render json_ok_sort_keys)

lemma loads_canonical_ascii: "json_ok utf8_ok v \<Longrightarrow> loads (canonical_ascii v) = Some (sort_keys v)"
  unfolding canonical_ascii_def by (intro ascii.loads_render json_ok_sort_keys)

lemma canonical_inject:
  assumes "json_ok (\<lambda>s. True) v" and "json_ok (\<lambda>s. True) w" and "canonical v = canonical w"
  shows "sort_keys v = sort_keys w"
  using assms loads_canonical by (metis option.inject)

lemma map_of_sort_key: "distinct (map fst kvs) \<Longrightarrow> map_of (sort_key fst kvs) = map_of kvs"
  by (subst map_of_inject_set) simp_all

text \<open>Sorting keys loses nothing but the order of keys.\<close>

lemma map_of_sort_keys:
  assumes "distinct (map fst kvs)" and "sort_keys (JObj kvs) = JObj kvs'"
  shows "map_of kvs' k = map_option sort_keys (map_of kvs k)"
proof -
  let ?kvs = "map (\<lambda>(k, v). (k, sort_keys v)) kvs"
  have "distinct (map fst ?kvs)"
    unfolding map_fst_sort_keys by (rule assms(1))
  moreover have "kvs' = sort_key fst ?kvs"
    using assms(2) by simp
  ultimately have "map_of kvs' = map_of ?kvs"
    by (simp only: map_of_sort_key)
  then show ?thesis
    by (simp add: map_of_map)
qed

end
