(* ===== verification/JsonPrefix.thy ===== *)
theory JsonPrefix
  imports JsonFacts
begin

text \<open>
  No strict prefix of a printed object is a JSON object. This is what makes recovery from a torn
  write of a line possible: the parser never mistakes an incomplete record for a complete one.
  The key fact is that parsing a string, an array or an object is insensitive to what follows it,
  so a successful parse of a prefix would leave the rest of the text unread.
\<close>

section \<open>Parsing is insensitive to appended text\<close>

lemma skip_ws_append: "skip_ws s \<noteq> [] \<Longrightarrow> skip_ws (s @ x) = skip_ws s @ x"
  by (induction s) (auto simp: skip_ws_def)

lemma skip_ws_ConsD: "skip_ws s = d # u \<Longrightarrow> skip_ws (s @ x) = d # u @ x"
  using skip_ws_append [of s x] by simp

lemma p_hex4_append: "p_hex4 s = Some (u, t) \<Longrightarrow> p_hex4 (s @ x) = Some (u, t @ x)"
  by (cases s rule: p_hex4.cases) (auto split: option.splits)

lemma p_unicode_append:
  assumes "p_unicode s = Some (w, t)"
  shows "p_unicode (s @ x) = Some (w, t @ x)"
proof -
  from assms obtain u t0 where h: "p_hex4 s = Some (u, t0)"
    by (cases "p_hex4 s") (auto simp: p_unicode_def)
  note h' = p_hex4_append [OF h, of x]
  show ?thesis
  proof (cases "55296 \<le> u \<and> u < 56320")
    case True
    with assms h obtain t1 where t0: "t0 = CHR 0x5C # CHR ''u'' # t1"
      by (auto simp: p_unicode_def split: list.splits if_splits)
    from assms h True t0 obtain v r where v: "p_hex4 t1 = Some (v, r)"
      by (cases "p_hex4 t1") (auto simp: p_unicode_def)
    from assms h h' True t0 v p_hex4_append [OF v, of x] show ?thesis
      by (simp add: p_unicode_def split: if_splits)
  next
    case False
    then have n: "(55296 \<le> u \<and> u < 56320) = False" by blast
    from assms h n have "\<not> (56320 \<le> u \<and> u < 57344)" "utf8_enc u = w" "t0 = t"
      by (simp_all add: p_unicode_def split: if_splits)
    with h' False show ?thesis
      by (auto simp: p_unicode_def)
  qed
qed

lemma p_str_append: "p_str s = Some (w, r) \<Longrightarrow> p_str (s @ x) = Some (w, r @ x)"
proof (induction s arbitrary: w r rule: p_str.induct)
  case 1
  then show ?case by simp
next
  case (2 c s)
  show ?case
  proof (cases "c = CHR 0x22")
    case True
    with "2.prems" show ?thesis by simp
  next
    case not_quote: False
    show ?thesis
    proof (cases "c = CHR 0x5C")
      case bs: True
      with not_quote "2.prems" obtain e t where s: "s = e # t"
        by (cases s) (auto simp: p_str.simps)
      show ?thesis
      proof (cases "simple_escape e")
        case (Some y)
        with bs s "2.prems" obtain w' where w: "p_str t = Some (w', r)" "w = y # w'"
          by (auto simp: p_str_escape)
        from "2.IH"(2) [OF not_quote bs s Some w(1)] w bs s Some show ?thesis
          by (simp add: p_str_escape)
      next
        case None
        with not_quote bs s "2.prems" have u: "e = CHR ''u''"
          by (auto simp: p_str.simps split: if_splits)
        with not_quote bs s None "2.prems" obtain v t' where v: "p_unicode t = Some (v, t')"
          by (cases "p_unicode t") (auto simp: p_str.simps)
        with bs s u "2.prems" obtain w' where w: "p_str t' = Some (w', r)" "w = v @ w'"
          by (auto simp: p_str_unicode)
        from "2.IH"(1) [OF not_quote bs s None u v refl w(1)] w bs s u p_unicode_append [OF v, of x]
        show ?thesis by (simp add: p_str_unicode)
      qed
    next
      case not_bs: False
      with not_quote "2.prems" have ge: "\<not> byte c < 32" and p: "map_option (apfst ((#) c)) (p_str s) = Some (w, r)"
        by (auto simp: p_str.simps split: if_splits)
      from p obtain w' where w: "p_str s = Some (w', r)" "w = c # w'" by auto
      from "2.IH"(3) [OF not_quote not_bs ge w(1)] w not_quote not_bs ge show ?thesis
        by (simp add: p_str.simps)
    qed
  qed
qed

text \<open>A remainder that ends a number for good.\<close>

definition ends :: "string \<Rightarrow> bool" where
  "ends r = (r \<noteq> [] \<and> (is_ws (hd r) \<or> hd r \<in> {CHR '','', CHR '']'', CHR ''}''}))"

lemma skip_ws_ends: "skip_ws r = d # u \<Longrightarrow> d \<in> {CHR '','', CHR '']'', CHR ''}''} \<Longrightarrow> ends r"
  by (cases r) (auto simp: skip_ws_def ends_def split: if_splits)

lemma ends_first:
  assumes "ends r"
  obtains c t where "r = c # t" and "\<not> is_digit c" and "c \<noteq> CHR ''.''" and "c \<noteq> CHR ''e''"
    and "c \<noteq> CHR ''E''"
proof -
  from assms obtain c t where "r = c # t" and "is_ws c \<or> c \<in> {CHR '','', CHR '']'', CHR ''}''}"
    by (cases r) (auto simp: ends_def)
  then show ?thesis
    using that by (auto simp: is_ws_def is_digit_def byte_def)
qed

lemma takeWhile_ends: 
  assumes "ends (dropWhile p s)" 
  shows "takeWhile p (s @ x) = takeWhile p s \<and> dropWhile p (s @ x) = dropWhile p s @ x"
proof -
  have "dropWhile p s \<noteq> []" using assms by (auto simp: ends_def)
  then obtain y where "y \<in> set s" "\<not> p y" by (auto simp: dropWhile_eq_Nil_conv)
  then show ?thesis by (auto simp: takeWhile_append1 dropWhile_append1)
qed

lemma p_frac_ends: "ends r \<Longrightarrow> p_frac (r @ x) = ([], r @ x)"
  by (elim ends_first) (simp add: p_frac_def)

lemma p_exp_ends: "ends r \<Longrightarrow> p_exp (r @ x) = ([], r @ x)"
  by (elim ends_first) (simp add: p_exp_def)

lemma ends_Nil [simp]: "\<not> ends []"
  by (simp add: ends_def)

lemma ends_digit: "is_digit c \<Longrightarrow> \<not> ends (c # t)"
  by (auto simp: ends_def is_ws_def is_digit_def byte_def)

lemma ends_num_char: "\<not> ends (CHR ''.'' # t)" "\<not> ends (CHR ''e'' # t)" "\<not> ends (CHR ''E'' # t)"
  by (simp_all add: ends_def is_ws_def)

lemma p_exp_append:
  assumes "p_exp s = (ex, r)" and "ends r"
  shows "p_exp (s @ x) = (ex, r @ x)"
proof (cases "ex = []")
  case True
  with assms have "s = r"
    by (auto simp: p_exp_def Let_def split: list.splits if_splits prod.splits)
  with assms True show ?thesis by (simp add: p_exp_ends)
next
  case False
  with assms obtain c t where s: "s = c # t" and c: "c = CHR ''e'' \<or> c = CHR ''E''"
    by (cases s) (auto simp: p_exp_def split: if_splits)
  define sgu where "sgu = (case t of d # t' \<Rightarrow> if d = CHR ''+'' \<or> d = CHR ''-'' then ([d], t') else ([], t) | [] \<Rightarrow> ([], t))"
  obtain sg u where su: "sgu = (sg, u)" by (cases sgu)
  from assms s c su False have tk: "takeWhile is_digit u \<noteq> []" "ex = c # sg @ takeWhile is_digit u" "r = dropWhile is_digit u"
    by (auto simp: p_exp_def sgu_def [symmetric] split: if_splits)
  have "(case t @ x of d # t' \<Rightarrow> if d = CHR ''+'' \<or> d = CHR ''-'' then ([d], t') else ([], t @ x) | [] \<Rightarrow> ([], t @ x)) = (sg, u @ x)"
    using su tk(1) unfolding sgu_def by (cases t) (auto split: if_splits)
  with s c tk takeWhile_ends [of is_digit u x] assms(2) show ?thesis
    by (auto simp: p_exp_def)
qed

lemma p_frac_append:
  assumes "p_frac s = (fr, r)" and "p_exp r = (ex, r')" and "ends r'"
  shows "p_frac (s @ x) = (fr, r @ x)"
proof (cases "fr = []")
  case True
  with assms have sr: "s = r"
    by (auto simp: p_frac_def split: list.splits if_splits)
  have "r \<noteq> [] \<and> hd r \<noteq> CHR ''.''"
    using assms(2,3) by (cases r) (auto simp: p_exp_def ends_num_char split: if_splits prod.splits)
  with sr True show ?thesis
    by (cases r) (auto simp: p_frac_def)
next
  case False
  with assms obtain t where s: "s = CHR ''.'' # t" and tk: "takeWhile is_digit t \<noteq> []"
    "fr = CHR ''.'' # takeWhile is_digit t" "r = dropWhile is_digit t"
    by (cases s) (auto simp: p_frac_def split: if_splits)
  have "r \<noteq> []"
    using assms(2,3) by (auto simp: p_exp_def)
  then obtain y where "y \<in> set t" "\<not> is_digit y"
    using tk(3) by (auto simp: dropWhile_eq_Nil_conv)
  then show ?thesis
    using s tk by (simp add: p_frac_def takeWhile_append1 dropWhile_append1)
qed


lemma p_int_part_append:
  assumes "p_int_part s = Some (ds, r)" and "r \<noteq> []"
  shows "p_int_part (s @ x) = Some (ds, r @ x)"
proof -
  from assms(1) obtain c t where s: "s = c # t"
    by (cases s) (auto simp: p_int_part_def)
  show ?thesis
  proof (cases "c = CHR ''0''")
    case True
    with assms s show ?thesis by (simp add: p_int_part_def)
  next
    case False
    with assms s have d: "is_digit c" "ds = takeWhile is_digit s" "r = dropWhile is_digit s"
      by (auto simp: p_int_part_def split: if_splits)
    with assms(2) obtain y where "y \<in> set s" "\<not> is_digit y"
      by (auto simp: dropWhile_eq_Nil_conv)
    then have "takeWhile is_digit (s @ x) = takeWhile is_digit s"
      and "dropWhile is_digit (s @ x) = dropWhile is_digit s @ x"
      by (auto simp: takeWhile_append1 dropWhile_append1)
    with False s d show ?thesis by (simp add: p_int_part_def)
  qed
qed

lemma p_num_append:
  assumes "p_num s = Some (v, r)" and "ends r"
  shows "p_num (s @ x) = Some (v, r @ x)"
proof -
  define sp where "sp y = (case y of c # s' \<Rightarrow> if c = CHR ''-'' then (True, s') else (False, y) | [] \<Rightarrow> (False, y))" for y
  obtain neg t where sp: "sp s = (neg, t)" by (cases "sp s")
  from assms sp obtain ds r0 where i: "p_int_part t = Some (ds, r0)"
    by (cases "p_int_part t") (auto simp: p_num_def sp_def Let_def split: prod.splits)
  obtain fr r1 where f: "p_frac r0 = (fr, r1)" by (cases "p_frac r0")
  obtain ex r2 where e: "p_exp r1 = (ex, r2)" by (cases "p_exp r1")
  have pn: "p_num s = (if fr = [] \<and> ex = []
      then Some (JInt (if neg then - int (dec_val ds) else int (dec_val ds)), r0)
      else Some (JFloat ((if neg then ''-'' else []) @ ds @ fr @ ex), r2))"
    using sp i f e unfolding p_num_def sp_def by simp
  have same: "r1 = r0" "r2 = r0" if "fr = []" "ex = []"
    using that f e by (auto simp: p_frac_def p_exp_def Let_def split: list.splits if_splits prod.splits)
  have r2: "ends r2" 
    using assms pn same by (auto split: if_splits)
  have "r0 \<noteq> []"
    using e f r2 by (auto simp: p_frac_def p_exp_def)
  have "sp (s @ x) = (neg, t @ x)"
    using sp i by (cases s) (auto simp: sp_def p_int_part_def split: if_splits)
  with p_int_part_append [OF i \<open>r0 \<noteq> []\<close>, of x] p_frac_append [OF f e r2, of x] p_exp_append [OF e r2, of x]
  have "p_num (s @ x) = (if fr = [] \<and> ex = []
      then Some (JInt (if neg then - int (dec_val ds) else int (dec_val ds)), r0 @ x)
      else Some (JFloat ((if neg then ''-'' else []) @ ds @ fr @ ex), r2 @ x))"
    unfolding p_num_def sp_def by simp
  with pn assms(1) show ?thesis by (auto split: if_splits)
qed

section \<open>The same for values, with any larger fuel\<close>

definition closed_start :: "string \<Rightarrow> bool" where
  "closed_start s = (s \<noteq> [] \<and> hd s \<in> {CHR 0x22, CHR ''{'', CHR ''[''})"

lemma starts_with_iff: "starts_with s p \<longleftrightarrow> (\<exists>t. s = p @ t)"
  by (auto simp: starts_with_def) (metis append_take_drop_id)

lemma p_value_more_words [simp]:
  "p_value (Suc n) (CHR ''N'' # CHR ''a'' # CHR ''N'' # r) = Some (JFloat ''NaN'', r)"
  "p_value (Suc n) (''Infinity'' @ r) = Some (JFloat ''Infinity'', r)"
  "p_value (Suc n) (''-Infinity'' @ r) = Some (JFloat ''-Infinity'', r)"
  by (simp_all add: p_value.simps)

definition word_values :: "(string \<times> json) list" where
  "word_values = [(''null'', JNull), (''true'', JBool True), (''false'', JBool False),
     (''NaN'', JFloat ''NaN''), (''Infinity'', JFloat ''Infinity''),
     (''-Infinity'', JFloat ''-Infinity'')]"

lemma p_value_word: "(w, v) \<in> set word_values \<Longrightarrow> p_value (Suc n) (w @ r) = Some (v, r)"
proof -
  have "list_all (\<lambda>(w, v). p_value (Suc n) (w @ r) = Some (v, r)) word_values"
    by (simp add: word_values_def p_value.simps)
  then show "(w, v) \<in> set word_values \<Longrightarrow> p_value (Suc n) (w @ r) = Some (v, r)"
    unfolding list_all_iff by blast
qed

lemma is_digit_zero: "is_digit CHR ''0''"
  by (simp add: is_digit_def byte_def)

lemma p_int_part_start: "p_int_part s = Some y \<Longrightarrow> s \<noteq> [] \<and> is_digit (hd s)"
  by (cases s) (auto simp: p_int_part_def is_digit_zero split: if_splits)

lemma p_num_start:
  assumes "p_num (c # t) = Some (v, r)"
  shows "is_digit c \<or> c = CHR ''-'' \<and> t \<noteq> [] \<and> is_digit (hd t)"
proof (cases "c = CHR ''-''")
  case True
  with assms obtain y where "p_int_part t = Some y"
    by (cases "p_int_part t") (auto simp: p_num_def)
  with True show ?thesis using p_int_part_start by blast
next
  case False
  with assms obtain y where "p_int_part (c # t) = Some y"
    by (cases "p_int_part (c # t)") (auto simp: p_num_def)
  then show ?thesis using p_int_part_start by fastforce
qed

lemma p_value_scalar_cases:
  assumes "p_value (Suc n) s = Some (v, r)" and "\<not> closed_start s"
  obtains (word) w where "(w, v) \<in> set word_values" and "s = w @ r"
    | (num) c t where "s = c # t" and "p_num s = Some (v, r)"
proof -
  from assms(1) obtain c t where s: "s = c # t"
    by (cases s) (simp_all add: p_value.simps)
  have "(\<exists>w. (w, v) \<in> set word_values \<and> s = w @ r) \<or> p_num s = Some (v, r)"
    using assms s
    by (auto simp: p_value.simps closed_start_def word_values_def starts_with_iff
        simp del: starts_with_Cons split: if_splits)
  with s word num show ?thesis by blast
qed

lemma p_value_Nil [simp]: "p_value n [] = None"
  by (cases n) (simp_all add: p_value.simps)

lemma p_elems_Nil [simp]: "p_elems n [] = None"
  by (cases n) (simp_all add: p_elems.simps)

lemma p_members_Nil [simp]: "p_members n [] = None"
  by (cases n) (simp_all add: p_members.simps)

lemma parse_append:
  "(\<forall>s v r m. p_value n s = Some (v, r) \<longrightarrow> ends r \<or> closed_start s \<longrightarrow> n \<le> m \<longrightarrow>
      p_value m (s @ x) = Some (v, r @ x)) \<and>
   (\<forall>s vs r m. p_elems n s = Some (vs, r) \<longrightarrow> n \<le> m \<longrightarrow> p_elems m (s @ x) = Some (vs, r @ x)) \<and>
   (\<forall>s kvs r m. p_members n s = Some (kvs, r) \<longrightarrow> n \<le> m \<longrightarrow> p_members m (s @ x) = Some (kvs, r @ x))"
proof (induction n)
  case 0
  then show ?case by (simp add: p_value.simps p_elems.simps p_members.simps)
next
  case (Suc n)
  then have IHv: "\<And>s v r m. p_value n s = Some (v, r) \<Longrightarrow> ends r \<or> closed_start s \<Longrightarrow> n \<le> m \<Longrightarrow>
        p_value m (s @ x) = Some (v, r @ x)"
    and IHe: "\<And>s vs r m. p_elems n s = Some (vs, r) \<Longrightarrow> n \<le> m \<Longrightarrow> p_elems m (s @ x) = Some (vs, r @ x)"
    and IHm: "\<And>s kvs r m. p_members n s = Some (kvs, r) \<Longrightarrow> n \<le> m \<Longrightarrow> p_members m (s @ x) = Some (kvs, r @ x)"
    by blast+
  have val: "p_value (Suc m) (s @ x) = Some (v, r @ x)"
    if p: "p_value (Suc n) s = Some (v, r)" and e: "ends r \<or> closed_start s" and le: "n \<le> m" for s v r m
  proof (cases "closed_start s")
    case True
    then obtain c t where s: "s = c # t" and c: "c = CHR 0x22 \<or> c = CHR ''{'' \<or> c = CHR ''[''"
      by (cases s) (auto simp: closed_start_def)
    show ?thesis
    proof (cases "c = CHR 0x22")
      case True
      with p s p_str_append [of t] show ?thesis by auto
    next
      case False
      with p s c obtain d u where w: "skip_ws t = d # u"
        by (cases "skip_ws t") (auto simp: p_value.simps)
      note w' = skip_ws_ConsD [OF w, of x]
      from p s c False w w' IHe [OF _ le] IHm [OF _ le] show ?thesis
        by (auto simp: p_value.simps split: if_splits) fastforce+
    qed
  next
    case False
    with e have "ends r" by blast
    from p False show ?thesis
    proof (cases rule: p_value_scalar_cases)
      case (word w)
      then show ?thesis using p_value_word [of w v m "r @ x"] by simp
    next
      case (num c t)
      then have "is_digit c \<or> c = CHR ''-'' \<and> t @ x \<noteq> [] \<and> is_digit (hd (t @ x))"
        using p_num_start [of c t v r] by auto
      then have "p_value (Suc m) (c # (t @ x)) = p_num (c # (t @ x))"
        by (rule p_value_num)
      with num p_num_append [OF num(2) \<open>ends r\<close>, of x] show ?thesis by simp
    qed
  qed
  have elems: "p_elems (Suc m) (s @ x) = Some (vs, r @ x)"
    if p: "p_elems (Suc n) s = Some (vs, r)" and le: "n \<le> m" for s vs r m
  proof -
    from p obtain v r1 where v: "p_value n s = Some (v, r1)"
      by (cases "p_value n s") (auto simp: p_elems.simps)
    with p obtain d u where w: "skip_ws r1 = d # u"
      by (cases "skip_ws r1") (auto simp: p_elems.simps)
    with p v have d: "d = CHR '','' \<or> d = CHR '']''"
      by (auto simp: p_elems.simps split: if_splits)
    then have "ends r1" using skip_ws_ends [OF w] by blast
    with IHv [OF v _ le] have v': "p_value m (s @ x) = Some (v, r1 @ x)" by blast
    show ?thesis
    proof (cases "d = CHR '',''")
      case True
      with p v w obtain ws where e: "p_elems n (skip_ws u) = Some (ws, r)" and vs: "vs = v # ws"
        by (auto simp: p_elems.simps)
      then have "skip_ws u \<noteq> []"
        using p_elems_Nil by fastforce
      with IHe [OF e le] v' vs True skip_ws_ConsD [OF w, of x] show ?thesis
        by (simp add: p_elems.simps skip_ws_append)
    next
      case False
      with p v w d v' skip_ws_ConsD [OF w, of x] show ?thesis
        by (simp add: p_elems.simps)
    qed
  qed
  have members: "p_members (Suc m) (s @ x) = Some (kvs, r @ x)"
    if p: "p_members (Suc n) s = Some (kvs, r)" and le: "n \<le> m" for s kvs r m
  proof -
    from p obtain t where s: "s = CHR 0x22 # t"
      by (cases s) (auto simp: p_members.simps split: if_splits)
    from p s obtain k r1 where k: "p_str t = Some (k, r1)"
      by (cases "p_str t") (auto simp: p_members.simps)
    from p s k obtain u where w: "skip_ws r1 = CHR '':'' # u"
      by (cases "skip_ws r1") (auto simp: p_members.simps split: if_splits)
    from p s k w obtain v r2 where v: "p_value n (skip_ws u) = Some (v, r2)"
      by (cases "p_value n (skip_ws u)") (auto simp: p_members.simps)
    from p s k w v obtain e y where w2: "skip_ws r2 = e # y"
      by (cases "skip_ws r2") (auto simp: p_members.simps)
    from p s k w v w2 have e: "e = CHR '','' \<or> e = CHR ''}''"
      by (auto simp: p_members.simps split: if_splits)
    then have "ends r2" using skip_ws_ends [OF w2] by blast
    with IHv [OF v _ le] have v': "p_value m (skip_ws u @ x) = Some (v, r2 @ x)" by blast
    from v have "skip_ws u \<noteq> []" by auto
    then have u: "skip_ws (u @ x) = skip_ws u @ x" by (rule skip_ws_append)
    note facts = s p_str_append [OF k, of x] skip_ws_ConsD [OF w, of x] v' u
      skip_ws_ConsD [OF w2, of x]
    show ?thesis
    proof (cases "e = CHR '',''")
      case True
      with p s k w v w2 obtain ws where m: "p_members n (skip_ws y) = Some (ws, r)"
        and kvs: "kvs = (k, v) # ws"
        by (auto simp: p_members.simps)
      then have "skip_ws y \<noteq> []" by auto
      with IHm [OF m le] facts kvs True show ?thesis
        by (simp add: p_members.simps skip_ws_append)
    next
      case False
      with p s k w v w2 e facts show ?thesis
        by (simp add: p_members.simps)
    qed
  qed
  have lift: "\<exists>l. m = Suc l \<and> n \<le> l" if "Suc n \<le> m" for m
    using that by (cases m) auto
  show ?case
    using val elems members by (blast dest: lift)
qed

text \<open>A parse of one object or array followed by nothing cannot be extended.\<close>

lemma loads_prefix_not_object:
  assumes full: "p_value n (p @ q) = Some (v, [])" "n \<le> m" and q: "q \<noteq> []"
    and start: "p = c # t" "c = CHR ''{''"
  shows "loads p = None"
proof (rule ccontr)
  assume "loads p \<noteq> None"
  moreover have "skip_ws p = p" using start by (simp add: is_ws_def)
  ultimately obtain w r where w: "p_value (Suc (length p)) p = Some (w, r)"
    by (auto simp: loads_def split: option.splits)
  have c: "closed_start p" "closed_start (p @ q)"
    using start by (simp_all add: closed_start_def)
  let ?m = "max n (Suc (length p))"
  have "p_value ?m (p @ q) = Some (w, r @ q)"
    using parse_append [of "Suc (length p)" q] w c by simp
  moreover have "p_value ?m (p @ q) = Some (v, [])"
    using parse_append [of n "[]"] full c by (metis append_Nil2 max.cobounded1)
  ultimately show False using q by simp
qed

end
