(* ===== verification/Datetime.thy ===== *)
theory Datetime
  imports JsonFacts
begin

text \<open>
  \<open>datetime\<close> values and \<open>utils/time.py\<close>. A value without \<open>tzinfo\<close> is \<open>Naive\<close>; one with \<open>tzinfo\<close> is
  \<open>Aware\<close> and is represented by its UTC instant, in microseconds since 0001-01-01T00:00:00: the
  program reads an aware value only through \<open>astimezone(UTC)\<close>, comparison and \<open>timedelta\<close>, which
  depend on the instant alone. The calendar functions follow CPython's \<open>_pydatetime\<close>.
  \<open>fromisoformat\<close> is modelled on the extended format with any separator character, optional
  seconds and fraction, and the offsets \<open>Z\<close>, \<open>+HH\<close>, \<open>+HH:MM\<close> and \<open>+HH:MM:SS\<close>; the basic format
  and week dates are not accepted by the model.
\<close>

datatype datetime = Naive int | Aware int

fun tz_aware :: "datetime \<Rightarrow> bool" where
  "tz_aware (Naive _) = False"
| "tz_aware (Aware _) = True"

fun instant :: "datetime \<Rightarrow> int" where
  "instant (Naive t) = t"
| "instant (Aware t) = t"

definition day_us :: int where
  "day_us = 86400000000"

definition max_days :: int where
  "max_days = 3652059"

definition in_range :: "int \<Rightarrow> bool" where
  "in_range t = (0 \<le> t \<and> t < max_days * day_us)"

definition dt_ok :: "datetime \<Rightarrow> bool" where
  "dt_ok d = in_range (instant d)"

text \<open>\<open>d + timedelta(days=n)\<close>, which raises \<open>OverflowError\<close> outside the years 1 to 9999.\<close>

definition add_days :: "datetime \<Rightarrow> int \<Rightarrow> datetime result" where
  "add_days d n =
     (let t = instant d + n * day_us
      in if in_range t then Inr (case d of Naive _ \<Rightarrow> Naive t | Aware _ \<Rightarrow> Aware t)
         else Inl (OverflowError ''date value out of range''))"

section \<open>The proleptic Gregorian calendar\<close>

definition leap_year :: "int \<Rightarrow> bool" where
  "leap_year y = (y mod 4 = 0 \<and> (y mod 100 \<noteq> 0 \<or> y mod 400 = 0))"

definition days_before_year :: "int \<Rightarrow> int" where
  "days_before_year y = (y - 1) * 365 + (y - 1) div 4 - (y - 1) div 100 + (y - 1) div 400"

definition month_starts :: "int list" where
  "month_starts = [0, 31, 59, 90, 120, 151, 181, 212, 243, 273, 304, 334, 365]"

definition days_before_month :: "bool \<Rightarrow> int \<Rightarrow> int" where
  "days_before_month leap m = month_starts ! nat (m - 1) + (if leap \<and> 2 < m then 1 else 0)"

definition days_in_month :: "bool \<Rightarrow> int \<Rightarrow> int" where
  "days_in_month leap m = days_before_month leap (m + 1) - days_before_month leap m"

definition ymd_valid :: "int \<Rightarrow> int \<Rightarrow> int \<Rightarrow> bool" where
  "ymd_valid y m d =
     (1 \<le> y \<and> y \<le> 9999 \<and> 1 \<le> m \<and> m \<le> 12 \<and> 1 \<le> d \<and> d \<le> days_in_month (leap_year y) m)"

text \<open>\<open>_ymd2ord\<close>, counted from zero.\<close>

definition ymd2ord :: "int \<Rightarrow> int \<Rightarrow> int \<Rightarrow> int" where
  "ymd2ord y m d = days_before_year y + days_before_month (leap_year y) m + d - 1"

text \<open>The month and day of day number \<open>n\<close> of a year.\<close>

definition month_day :: "bool \<Rightarrow> int \<Rightarrow> int \<times> int" where
  "month_day leap n =
     (let m = (n + 50) div 32;
          p = days_before_month leap m
      in if n < p then (m - 1, n - days_before_month leap (m - 1) + 1) else (m, n - p + 1))"

text \<open>\<open>_ord2ymd\<close>, counted from zero.\<close>

definition ord2ymd :: "int \<Rightarrow> int \<times> int \<times> int" where
  "ord2ymd n =
     (let n400 = n div 146097; a = n mod 146097;
          n100 = a div 36524; b = a mod 36524;
          n4 = b div 1461; c = b mod 1461;
          n1 = c div 365; r = c mod 365;
          y = n400 * 400 + 1 + n100 * 100 + n4 * 4 + n1
      in if n1 = 4 \<or> n100 = 4 then (y - 1, 12, 31)
         else (let leap = (n1 = 3 \<and> (n4 \<noteq> 24 \<or> n100 = 3))
               in case month_day leap r of (m, d) \<Rightarrow> (y, m, d)))"

section \<open>Printing: \<open>isoformat\<close>\<close>

fun pad :: "nat \<Rightarrow> int \<Rightarrow> string" where
  "pad 0 n = []"
| "pad (Suc k) n = pad k (n div 10) @ [digit_char (nat (n mod 10))]"

definition iso_date :: "int \<Rightarrow> string" where
  "iso_date n = (case ord2ymd n of (y, m, d) \<Rightarrow> pad 4 y @ ''-'' @ pad 2 m @ ''-'' @ pad 2 d)"

definition iso_time :: "int \<Rightarrow> string" where
  "iso_time u =
     (let s = u div 1000000; us = u mod 1000000
      in pad 2 (s div 3600) @ '':'' @ pad 2 (s div 60 mod 60) @ '':'' @ pad 2 (s mod 60) @
         (if us = 0 then [] else ''.'' @ pad 6 us))"

definition iso_naive :: "int \<Rightarrow> string" where
  "iso_naive t = iso_date (t div day_us) @ ''T'' @ iso_time (t mod day_us)"

text \<open>\<open>d.astimezone(UTC).isoformat()\<close> of an aware value.\<close>

definition utc_iso :: "datetime \<Rightarrow> string" where
  "utc_iso d = iso_naive (instant d) @ (if tz_aware d then ''+00:00'' else [])"

section \<open>Parsing: \<open>fromisoformat\<close>\<close>

definition p_digits :: "nat \<Rightarrow> string \<Rightarrow> (int \<times> string) option" where
  "p_digits k s =
     (if k \<le> length s \<and> list_all is_digit (take k s)
      then Some (int (dec_val (take k s)), drop k s) else None)"

definition p_char :: "char \<Rightarrow> string \<Rightarrow> string option" where
  "p_char c s = (case s of [] \<Rightarrow> None | d # t \<Rightarrow> if c = d then Some t else None)"

definition p_date :: "string \<Rightarrow> (int \<times> string) option" where
  "p_date s =
     (case p_digits 4 s of None \<Rightarrow> None | Some (y, s1) \<Rightarrow>
      case p_char CHR ''-'' s1 of None \<Rightarrow> None | Some s2 \<Rightarrow>
      case p_digits 2 s2 of None \<Rightarrow> None | Some (m, s3) \<Rightarrow>
      case p_char CHR ''-'' s3 of None \<Rightarrow> None | Some s4 \<Rightarrow>
      case p_digits 2 s4 of None \<Rightarrow> None | Some (d, s5) \<Rightarrow>
      if ymd_valid y m d then Some (ymd2ord y m d, s5) else None)"

text \<open>A component introduced by a colon: absent is zero.\<close>

definition p_colon :: "string \<Rightarrow> (int \<times> string) option" where
  "p_colon s =
     (case p_char CHR '':'' s of
        None \<Rightarrow> Some (0, s)
      | Some t \<Rightarrow> (case p_digits 2 t of
          Some (n, r) \<Rightarrow> if n < 60 then Some (n, r) else None
        | None \<Rightarrow> None))"

text \<open>A fraction of one or more digits, truncated to microseconds.\<close>

definition p_micro :: "string \<Rightarrow> (int \<times> string) option" where
  "p_micro s =
     (case s of
        [] \<Rightarrow> Some (0, s)
      | c # t \<Rightarrow>
          if c = CHR ''.'' \<or> c = CHR '','' then
            (let ds = takeWhile is_digit t
             in if ds = [] then None
                else Some (int (dec_val (take 6 (ds @ ''00000''))), dropWhile is_digit t))
          else Some (0, s))"

definition p_clock :: "string \<Rightarrow> (int \<times> string) option" where
  "p_clock s =
     (case p_digits 2 s of None \<Rightarrow> None | Some (h, s1) \<Rightarrow>
      if \<not> h < 24 then None else
      case p_colon s1 of None \<Rightarrow> None | Some (mi, s2) \<Rightarrow>
      case (if s2 = s1 then Some (0, s2) else p_colon s2) of None \<Rightarrow> None | Some (sec, s3) \<Rightarrow>
      case (if s3 = s2 then Some (0, s3) else p_micro s3) of None \<Rightarrow> None | Some (us, s4) \<Rightarrow>
      Some (((h * 60 + mi) * 60 + sec) * 1000000 + us, s4))"

definition p_offset :: "string \<Rightarrow> int option option" where
  "p_offset s =
     (case s of
        [] \<Rightarrow> Some None
      | c # t \<Rightarrow>
          if s = ''Z'' then Some (Some 0)
          else if c = CHR ''+'' \<or> c = CHR ''-'' then
            (case p_clock t of
               Some (u, []) \<Rightarrow> Some (Some (if c = CHR ''+'' then u else - u))
             | _ \<Rightarrow> None)
          else None)"

definition fromisoformat :: "string \<Rightarrow> datetime result" where
  "fromisoformat s =
     (case p_date s of
        None \<Rightarrow> Inl (ValueError ''isoformat'')
      | Some (n, []) \<Rightarrow> Inr (Naive (n * day_us))
      | Some (n, _ # r) \<Rightarrow>
          (case p_clock r of
             None \<Rightarrow> Inl (ValueError ''isoformat'')
           | Some (u, r') \<Rightarrow>
               (case p_offset r' of
                  None \<Rightarrow> Inl (ValueError ''isoformat'')
                | Some None \<Rightarrow> Inr (Naive (n * day_us + u))
                | Some (Some off) \<Rightarrow> Inr (Aware (n * day_us + u - off)))))"

text \<open>\<open>utils/time.py: parse_datetime\<close>: an offset is required, the result is in UTC.\<close>

definition parse_datetime :: "string \<Rightarrow> string \<Rightarrow> datetime result" where
  "parse_datetime value field =
     bindE (fromisoformat value) (\<lambda>parsed.
       if \<not> tz_aware parsed then Inl (ValueError field)
       else if \<not> in_range (instant parsed) then Inl (OverflowError ''date value out of range'')
       else Inr parsed)"

end
