(* ===== verification/DatetimeFacts.thy ===== *)
theory DatetimeFacts
  imports Datetime
begin

text \<open>
  The calendar arithmetic is a bijection on the supported years, and \<open>parse_datetime\<close> inverts
  \<open>isoformat\<close>: what a record stores as text is the instant it was built with.
\<close>

section \<open>The calendar\<close>

definition month_day_ok :: "bool \<Rightarrow> int \<Rightarrow> bool" where
  "month_day_ok leap n = (case month_day leap n of (m, d) \<Rightarrow>
      1 \<le> m \<and> m \<le> 12 \<and> 1 \<le> d \<and> d \<le> days_in_month leap m \<and>
      days_before_month leap m + d - 1 = n)"

lemma month_day_all:
  "list_all (month_day_ok True) (map int [0..<366])"
  "list_all (month_day_ok False) (map int [0..<365])"
  by code_simp+

lemma month_day:
  assumes "0 \<le> n" and "n < (if leap then 366 else 365)"
  shows "month_day_ok leap n"
proof -
  have "n \<in> set (map int [0..<(if leap then 366 else 365)])"
    using assms by (auto intro!: image_eqI [of n int "nat n"])
  with month_day_all show ?thesis
    unfolding list_all_iff by (cases leap) auto
qed

text \<open>The decomposition of a year number into cycles of 400, 100, 4 and 1 years.\<close>

lemma mult_add_mod_0: "0 < v \<Longrightarrow> v \<le> b \<Longrightarrow> (b * k + v) mod b = 0 \<longleftrightarrow> v = (b :: int)"
  by (cases "v = b") (simp_all add: mod_pos_pos_trivial)

lemma year_cycles:
  assumes "0 \<le> w" "0 \<le> p" "p \<le> 3" "0 \<le> q" "q \<le> 24" "0 \<le> s" "s \<le> 3"
    and y: "y = w * 400 + 1 + p * 100 + q * 4 + s"
  shows "days_before_year y = 146097 * w + 36524 * p + 1461 * q + 365 * s"
    and "leap_year y \<longleftrightarrow> s = 3 \<and> (q \<noteq> 24 \<or> p = 3)"
proof -
  have d4: "(y - 1) div 4 = 100 * w + 25 * p + q"
    by (rule int_div_pos_eq [where r = s]) (use assms in simp_all)
  have d100: "(y - 1) div 100 = 4 * w + p"
    by (rule int_div_pos_eq [where r = "4 * q + s"]) (use assms in simp_all)
  have d400: "(y - 1) div 400 = w"
    by (rule int_div_pos_eq [where r = "100 * p + 4 * q + s"]) (use assms in simp_all)
  show "days_before_year y = 146097 * w + 36524 * p + 1461 * q + 365 * s"
    unfolding days_before_year_def d4 d100 d400 using y by simp
  have y4: "y = 4 * (100 * w + 25 * p + q) + (1 + s)" using y by simp
  have m4: "y mod 4 = 0 \<longleftrightarrow> s = 3"
    unfolding y4 using assms(6,7) by (subst mult_add_mod_0) simp_all
  have y100: "y = 100 * (4 * w + p) + (1 + q * 4 + s)" using y by simp
  have m100: "y mod 100 = 0 \<longleftrightarrow> 1 + q * 4 + s = 100"
    unfolding y100 using assms(4-7) by (subst mult_add_mod_0) simp_all
  have y400: "y = 400 * w + (1 + p * 100 + q * 4 + s)" using y by simp
  have m400: "y mod 400 = 0 \<longleftrightarrow> 1 + p * 100 + q * 4 + s = 400"
    unfolding y400 using assms(2-7) by (subst mult_add_mod_0) simp_all
  show "leap_year y \<longleftrightarrow> s = 3 \<and> (q \<noteq> 24 \<or> p = 3)"
    unfolding leap_year_def m4 m100 m400 using assms(2-7) by auto
qed

lemma year_bound:
  assumes "0 \<le> w" "w \<le> 24" "0 \<le> p" "p \<le> 3" "0 \<le> q" "q \<le> 24" "0 \<le> s" "s \<le> 3"
    and "146097 * w + 36524 * p + 1461 * q + 365 * s < (max_days :: int)"
  shows "w * 400 + 1 + p * 100 + q * 4 + s \<le> 9999"
proof (rule ccontr)
  assume "\<not> ?thesis"
  with assms have "w = 24" "p = 3" "q = 24" "s = 3" by linarith+
  with assms(9) show False by (simp add: max_days_def)
qed

lemma days_in_month_le: "1 \<le> m \<Longrightarrow> m \<le> 12 \<Longrightarrow> days_in_month leap m \<le> 31"
proof -
  assume "1 \<le> m" and "m \<le> 12"
  then have "m = 1 \<or> m = 2 \<or> m = 3 \<or> m = 4 \<or> m = 5 \<or> m = 6 \<or> m = 7 \<or> m = 8 \<or> m = 9 \<or>
      m = 10 \<or> m = 11 \<or> m = 12"
    by presburger
  then show ?thesis
    by (elim disjE)
      (simp_all add: days_in_month_def days_before_month_def month_starts_def)
qed

lemma ord2ymd_valid:
  assumes "0 \<le> n" and "n < max_days"
  shows "case ord2ymd n of (y, m, d) \<Rightarrow> ymd_valid y m d \<and> ymd2ord y m d = n"
proof -
  define n400 a where "n400 = n div 146097" and "a = n mod 146097"
  define n100 b where "n100 = a div 36524" and "b = a mod 36524"
  define n4 c where "n4 = b div 1461" and "c = b mod 1461"
  define n1 r where "n1 = c div 365" and "r = c mod 365"
  define y where "y = n400 * 400 + 1 + n100 * 100 + n4 * 4 + n1"
  have bounds: "0 \<le> a" "a < 146097" "0 \<le> b" "b < 36524" "0 \<le> c" "c < 1461" "0 \<le> r" "r < 365"
    by (simp_all add: a_def b_def c_def r_def)
  have eqs: "n = 146097 * n400 + a" "a = 36524 * n100 + b" "b = 1461 * n4 + c" "c = 365 * n1 + r"
    by (simp_all add: n400_def a_def n100_def b_def n4_def c_def n1_def r_def)
  have q: "0 \<le> n400" "n400 \<le> 24" "0 \<le> n100" "n100 \<le> 4" "0 \<le> n4" "n4 \<le> 24" "0 \<le> n1" "n1 \<le> 4"
    using assms bounds eqs by (simp_all add: max_days_def)
  have ord: "ord2ymd n = (if n1 = 4 \<or> n100 = 4 then (y - 1, 12, 31)
      else (case month_day (n1 = 3 \<and> (n4 \<noteq> 24 \<or> n100 = 3)) r of (m, d) \<Rightarrow> (y, m, d)))"
    unfolding ord2ymd_def Let_def y_def n1_def n4_def n100_def n400_def r_def c_def b_def a_def
    by (rule refl)
  show ?thesis
  proof (cases "n1 = 4 \<or> n100 = 4")
    case True
    have "ymd_valid (y - 1) 12 31 \<and> ymd2ord (y - 1) 12 31 = n"
    proof (cases "n100 = 4")
      case True
      then have z: "b = 0" "n4 = 0" "n1 = 0"
        using bounds eqs q by simp_all
      have y1: "y - 1 = n400 * 400 + 1 + 3 * 100 + 24 * 4 + 3"
        using True z y_def by simp
      have "n400 \<le> 23 \<or> n400 = 24" using q by linarith
      then show ?thesis
        using year_cycles [of n400 3 24 3 "y - 1"] y1 q True z eqs bounds assms
        by (auto simp: ymd_valid_def ymd2ord_def days_in_month_def days_before_month_def
            month_starts_def max_days_def)
    next
      case False
      with True have n1: "n1 = 4" by simp
      then have r: "r = 0" "c = 1460" using bounds eqs by simp_all
      then have n4: "n4 \<noteq> 24 \<or> n100 = 3" using eqs bounds q False by auto
      have y1: "y - 1 = n400 * 400 + 1 + n100 * 100 + n4 * 4 + 3"
        using n1 y_def by simp
      with n4 q False have "leap_year (y - 1)"
        and "days_before_year (y - 1) = 146097 * n400 + 36524 * n100 + 1461 * n4 + 365 * 3"
        using year_cycles [of n400 n100 n4 3 "y - 1"] by simp_all
      moreover have "1 \<le> y - 1" "y - 1 \<le> 9999"
        using year_bound [of n400 n100 n4 3] y1 q False eqs n1 r assms by simp_all
      ultimately show ?thesis
        using eqs n1 r
        by (simp add: ymd_valid_def ymd2ord_def days_in_month_def days_before_month_def month_starts_def)
    qed
    with True ord show ?thesis by simp
  next
    case False
    define leap where "leap = (n1 = 3 \<and> (n4 \<noteq> 24 \<or> n100 = 3))"
    have cyc: "days_before_year y = 146097 * n400 + 36524 * n100 + 1461 * n4 + 365 * n1"
      "leap_year y = leap"
      using year_cycles [of n400 n100 n4 n1 y] q False by (simp_all add: y_def leap_def)
    obtain m d where md: "month_day leap r = (m, d)" by (cases "month_day leap r")
    have "month_day_ok leap r"
      using bounds by (intro month_day) simp_all
    moreover have "1 \<le> y" and "y \<le> 9999"
      using year_bound [of n400 n100 n4 n1] q False eqs bounds assms by (simp_all add: y_def)
    ultimately have "ymd_valid y m d \<and> ymd2ord y m d = n"
      using md cyc eqs by (simp add: month_day_ok_def ymd_valid_def ymd2ord_def)
    with False ord md show ?thesis by (simp add: leap_def)
  qed
qed

section \<open>Fields\<close>

lemma length_pad [simp]: "length (pad k n) = k"
  by (induction k arbitrary: n) auto

lemma digits_pad [simp]: "list_all is_digit (pad k n)"
  by (induction k arbitrary: n) auto

lemma dec_val_pad: "0 \<le> n \<Longrightarrow> n < 10 ^ k \<Longrightarrow> int (dec_val (pad k n)) = n"
proof (induction k arbitrary: n)
  case 0
  then show ?case by (simp add: dec_val_def)
next
  case (Suc k)
  then have "int (dec_val (pad k (n div 10))) = n div 10"
    by (intro Suc.IH) (simp_all add: pos_imp_zdiv_nonneg_iff)
  moreover have "nat (n mod 10) mod 10 = nat (n mod 10)"
    by (simp add: nat_less_iff)
  ultimately show ?case
    by (simp add: dec_val_append byte_digit_char)
qed

lemma p_digits_pad [simp]: "0 \<le> n \<Longrightarrow> n < 10 ^ k \<Longrightarrow> p_digits k (pad k n @ r) = Some (n, r)"
  by (simp add: p_digits_def dec_val_pad)

lemma p_char_Cons [simp]: "p_char c (c # r) = Some r"
  by (simp add: p_char_def)

lemma p_date_iso_date:
  assumes "0 \<le> n" and "n < max_days"
  shows "p_date (iso_date n @ r) = Some (n, r)"
proof -
  obtain y m d where o: "ord2ymd n = (y, m, d)" by (cases "ord2ymd n") auto
  with ord2ymd_valid [OF assms] have v: "ymd_valid y m d" and e: "ymd2ord y m d = n" by simp_all
  then have "d \<le> 31"
    using days_in_month_le [of m "leap_year y"] by (simp add: ymd_valid_def)
  with v have "0 \<le> y" "y < 10 ^ 4" "0 \<le> m" "m < 10 ^ 2" "0 \<le> d" "d < 10 ^ 2"
    by (simp_all add: ymd_valid_def)
  with o v e show ?thesis
    by (simp add: p_date_def iso_date_def del: pad.simps)
qed

lemma p_clock_iso_time:
  assumes u: "0 \<le> u" "u < day_us" and r: "r = [] \<or> (\<exists>c t. r = c # t \<and> c \<noteq> CHR ''.'' \<and> c \<noteq> CHR '','' \<and> \<not> is_digit c)"
  shows "p_clock (iso_time u @ r) = Some (u, r)"
proof -
  define s us where "s = u div 1000000" and "us = u mod 1000000"
  have s: "0 \<le> s" "s < 86400" and us: "0 \<le> us" "us < 10 ^ 6"
    using u by (simp_all add: s_def us_def day_us_def pos_imp_zdiv_nonneg_iff)
  define h mi se where "h = s div 3600" and "mi = s div 60 mod 60" and "se = s mod 60"
  have b: "0 \<le> h" "h < 24" "0 \<le> mi" "mi < 60" "0 \<le> se" "se < 60"
    using s by (simp_all add: h_def mi_def se_def pos_imp_zdiv_nonneg_iff)
  have se: "s = (h * 60 + mi) * 60 + se"
  proof -
    have "s div 3600 = s div 60 div 60"
      using zdiv_zmult2_eq [of 60 s 60] by simp
    then show ?thesis
      unfolding h_def mi_def se_def by simp
  qed
  have u_eq: "u = ((h * 60 + mi) * 60 + se) * 1000000 + us"
    unfolding se [symmetric] s_def us_def by simp
  have pc: "p_colon (CHR '':'' # pad 2 k @ x) = Some (k, x)" if "0 \<le> k" "k < 60" for k x
    using that by (simp add: p_colon_def del: pad.simps)
  have pm: "p_micro x = Some (us, r)" if x: "x = (if us = 0 then [] else ''.'' @ pad 6 us) @ r" for x
  proof (cases "us = 0")
    case True
    with x r show ?thesis by (auto simp: p_micro_def)
  next
    case False
    have tk: "takeWhile is_digit (pad 6 us @ r) = pad 6 us" "dropWhile is_digit (pad 6 us @ r) = r"
      using r digits_pad [of 6 us]
      by (auto simp: takeWhile_append dropWhile_append list_all_iff simp del: pad.simps digits_pad)
    have "pad 6 us \<noteq> []"
      using length_pad [of 6 us] by (metis length_0_conv zero_neq_numeral)
    moreover have "take 6 (pad 6 us @ ''00000'') = pad 6 us"
      using length_pad [of 6 us] by (simp del: pad.simps)
    ultimately have "p_micro (CHR ''.'' # pad 6 us @ r) = Some (us, r)"
      using tk us by (simp add: p_micro_def Let_def dec_val_pad del: pad.simps)
    with False x show ?thesis by simp
  qed
  define x3 where "x3 = (if us = 0 then [] else ''.'' @ pad 6 us) @ r"
  define x2 where "x2 = CHR '':'' # pad 2 se @ x3"
  define x1 where "x1 = CHR '':'' # pad 2 mi @ x2"
  have it: "iso_time u @ r = pad 2 h @ x1"
    unfolding iso_time_def Let_def x1_def x2_def x3_def h_def mi_def se_def s_def us_def by simp
  have len: "length x2 < length x1" "length x3 < length x2"
    by (simp_all add: x1_def x2_def del: pad.simps)
  then have ne: "x2 \<noteq> x1" "x3 \<noteq> x2" by auto
  have steps: "p_digits 2 (pad 2 h @ x1) = Some (h, x1)" "p_colon x1 = Some (mi, x2)"
    "p_colon x2 = Some (se, x3)"
    using b unfolding x1_def x2_def by (simp_all add: pc del: pad.simps)
  have last: "p_micro x3 = Some (us, r)"
    by (rule pm [OF x3_def])
  show ?thesis
    unfolding it p_clock_def using b
    by (simp add: steps ne last u_eq del: pad.simps)
qed

lemma parse_datetime_utc_iso:
  assumes "in_range t"
  shows "parse_datetime (utc_iso (Aware t)) field = Inr (Aware t)"
proof -
  define n u where "n = t div day_us" and "u = t mod day_us"
  have u: "0 \<le> u" "u < day_us" and t: "n * day_us + u = t"
    by (simp_all add: n_def u_def day_us_def)
  from assms have n: "0 \<le> n" "n < max_days"
    using u t unfolding in_range_def day_us_def max_days_def by linarith+
  have pc: "p_clock (iso_time u @ ''+00:00'') = Some (u, ''+00:00'')"
    using u by (intro p_clock_iso_time) (simp_all add: is_digit_def byte_def)
  have po: "p_offset ''+00:00'' = Some (Some 0)"
    by (simp add: p_offset_def p_clock_def p_digits_def p_colon_def p_char_def is_digit_def byte_def
        dec_val_def)
  have "utc_iso (Aware t) = iso_date n @ CHR ''T'' # (iso_time u @ ''+00:00'')"
    by (simp add: utc_iso_def iso_naive_def n_def u_def)
  then have "fromisoformat (utc_iso (Aware t)) = Inr (Aware t)"
    using p_date_iso_date [OF n, of "CHR ''T'' # (iso_time u @ ''+00:00'')"] pc po t
    by (simp add: fromisoformat_def)
  with assms show ?thesis
    by (simp add: parse_datetime_def)
qed

end
