(* ===== verification/Sha256.thy ===== *)
theory Sha256
  imports Prelude "HOL-Library.Word"
begin

text \<open>
  \<open>hashlib.sha256(data).hexdigest()\<close>, which every record identity and digest of the program is
  computed with, as an executable function on byte strings over 32-bit words. The program relies
  on two facts only: the result is 64 lowercase hexadecimal characters, and it is a function of
  the bytes. Statements about tampering therefore either conclude equality of the hashed bytes
  or exhibit a collision; no freedom from collisions is assumed.
\<close>

unbundle bit_operations_syntax

type_synonym w32 = "32 word"

section \<open>The compression function\<close>

definition round_keys :: "w32 list" where
  "round_keys = [
     1116352408, 1899447441, 3049323471, 3921009573, 961987163, 1508970993,
     2453635748, 2870763221, 3624381080, 310598401, 607225278, 1426881987,
     1925078388, 2162078206, 2614888103, 3248222580, 3835390401, 4022224774,
     264347078, 604807628, 770255983, 1249150122, 1555081692, 1996064986,
     2554220882, 2821834349, 2952996808, 3210313671, 3336571891, 3584528711,
     113926993, 338241895, 666307205, 773529912, 1294757372, 1396182291,
     1695183700, 1986661051, 2177026350, 2456956037, 2730485921, 2820302411,
     3259730800, 3345764771, 3516065817, 3600352804, 4094571909, 275423344,
     430227734, 506948616, 659060556, 883997877, 958139571, 1322822218,
     1537002063, 1747873779, 1955562222, 2024104815, 2227730452, 2361852424,
     2428436474, 2756734187, 3204031479, 3329325298]"

definition start_state :: "w32 list" where
  "start_state = [
     1779033703, 3144134277, 1013904242, 2773480762, 1359893119, 2600822924,
     528734635, 1541459225]"

definition rotr :: "nat \<Rightarrow> w32 \<Rightarrow> w32" where
  "rotr n x = drop_bit n x OR push_bit (32 - n) x"

definition small0 :: "w32 \<Rightarrow> w32" where
  "small0 x = rotr 7 x XOR rotr 18 x XOR drop_bit 3 x"

definition small1 :: "w32 \<Rightarrow> w32" where
  "small1 x = rotr 17 x XOR rotr 19 x XOR drop_bit 10 x"

definition big0 :: "w32 \<Rightarrow> w32" where
  "big0 x = rotr 2 x XOR rotr 13 x XOR rotr 22 x"

definition big1 :: "w32 \<Rightarrow> w32" where
  "big1 x = rotr 6 x XOR rotr 11 x XOR rotr 25 x"

text \<open>The message schedule, newest word first, grown to 64 words.\<close>

fun extend :: "nat \<Rightarrow> w32 list \<Rightarrow> w32 list" where
  "extend 0 ws = ws"
| "extend (Suc n) ws =
     extend n ((small1 (ws ! 1) + ws ! 6 + small0 (ws ! 14) + ws ! 15) # ws)"

definition schedule :: "w32 list \<Rightarrow> w32 list" where
  "schedule block = rev (extend 48 (rev block))"

text \<open>One round on the working variables \<open>a .. h\<close>.\<close>

fun sha_round :: "w32 list \<Rightarrow> w32 \<times> w32 \<Rightarrow> w32 list" where
  "sha_round [a, b, c, d, e, f, g, h] (k, w) =
     (let t1 = h + big1 e + ((e AND f) XOR (NOT e AND g)) + k + w;
          t2 = big0 a + ((a AND b) XOR (a AND c) XOR (b AND c))
      in [t1 + t2, a, b, c, d + t1, e, f, g])"
| "sha_round s _ = s"

definition compress :: "w32 list \<Rightarrow> w32 list \<Rightarrow> w32 list" where
  "compress st block = map2 (+) st (foldl sha_round st (zip round_keys (schedule block)))"

section \<open>Padding and blocks\<close>

definition byte_word :: "char \<Rightarrow> w32" where
  "byte_word c = word_of_nat (byte c)"

fun words_of :: "string \<Rightarrow> w32 list" where
  "words_of (a # b # c # d # s) =
     (push_bit 24 (byte_word a) OR push_bit 16 (byte_word b) OR
      push_bit 8 (byte_word c) OR byte_word d) # words_of s"
| "words_of _ = []"

fun be_bytes :: "nat \<Rightarrow> nat \<Rightarrow> string" where
  "be_bytes 0 n = []"
| "be_bytes (Suc k) n = be_bytes k (n div 256) @ [char_of (n mod 256)]"

definition padded :: "string \<Rightarrow> string" where
  "padded s = s @ [CHR 0x80] @ replicate ((119 - length s mod 64) mod 64) CHR 0x00 @
     be_bytes 8 (8 * length s)"

fun blocks :: "nat \<Rightarrow> w32 list \<Rightarrow> w32 list list" where
  "blocks 0 ws = []"
| "blocks (Suc n) ws = take 16 ws # blocks n (drop 16 ws)"

definition sha256 :: "string \<Rightarrow> w32 list" where
  "sha256 s =
     (let p = padded s in foldl compress start_state (blocks (length p div 64) (words_of p)))"

section \<open>Hexadecimal output\<close>

definition hex_digit :: "nat \<Rightarrow> char" where
  "hex_digit n = ''0123456789abcdef'' ! (n mod 16)"

fun hex_of :: "nat \<Rightarrow> w32 \<Rightarrow> string" where
  "hex_of 0 w = []"
| "hex_of (Suc k) w = hex_of k (drop_bit 4 w) @ [hex_digit (unat (w AND 15))]"

definition sha256_hex :: "string \<Rightarrow> string" where
  "sha256_hex s = concat (map (\<lambda>w. hex_of 8 w) (sha256 s))"

lemma hex_char_hex_digit [simp]: "hex_char (hex_digit n)"
proof -
  have "n mod 16 < length ''0123456789abcdef''" by simp
  then show ?thesis
    unfolding hex_char_def hex_digit_def by (rule nth_mem)
qed

lemma length_hex_of [simp]: "length (hex_of k n) = k"
  by (induction k arbitrary: n) auto

lemma hex_chars_hex_of [simp]: "list_all hex_char (hex_of k n)"
  by (induction k arbitrary: n) auto

lemma length_sha_round [simp]: "length (sha_round s kw) = length s"
  by (cases "(s, kw)" rule: sha_round.cases) (auto simp: Let_def)

lemma length_foldl_sha_round [simp]: "length (foldl sha_round s kws) = length s"
  by (induction kws arbitrary: s) auto

lemma length_compress [simp]: "length (compress st b) = length st"
  by (simp add: compress_def)

lemma length_foldl_compress [simp]: "length (foldl compress st bs) = length st"
  by (induction bs arbitrary: st) auto

lemma length_sha256 [simp]: "length (sha256 s) = 8"
  by (simp add: sha256_def Let_def start_state_def)

text \<open>The digest test of the records accepts every computed digest.\<close>

lemma is_sha256_sha256_hex [simp, str_simps]: "is_sha256 (sha256_hex s)"
proof -
  have "length (concat (map (\<lambda>w. hex_of 8 w) ws)) = 8 * length ws" for ws :: "w32 list"
    by (induction ws) auto
  moreover have "list_all hex_char (concat (map (\<lambda>w. hex_of 8 w) ws))" for ws :: "w32 list"
    by (induction ws) auto
  ultimately show ?thesis
    by (simp add: is_sha256_def sha256_hex_def)
qed

lemma length_sha256_hex [simp]: "length (sha256_hex s) = 64"
  using is_sha256_sha256_hex [of s] by (simp add: is_sha256_def)

lemma sha256_hex_not_Nil [simp]: "sha256_hex s \<noteq> []"
  using length_sha256_hex [of s] by (metis length_0_conv zero_neq_numeral)

lemma blank_ConsD: "blank (a # s) \<Longrightarrow> space1 a \<or> (\<exists>b t. s = b # t \<and> (space2 a b \<or> (\<exists>c u. t = c # u \<and> space3 a b c)))"
  by (cases "a # s" rule: blank.cases) (auto simp: blank.simps split: if_splits)

lemma hex_char_not_space: "hex_char a \<Longrightarrow> \<not> space1 a \<and> \<not> space2 a b \<and> \<not> space3 a b c"
  by (auto simp: hex_char_def space1_def space2_def space3_def byte_def Let_def)

lemma not_blank_sha256 [simp, str_simps]: "is_sha256 s \<Longrightarrow> \<not> blank s"
  by (cases s) (auto simp: is_sha256_def dest!: blank_ConsD dest: hex_char_not_space)

lemma not_blank_sha256_hex [simp]: "\<not> blank (sha256_hex s)"
  by (rule not_blank_sha256) simp

text \<open>Two distinct byte strings with the same digest.\<close>

definition collision :: "string \<Rightarrow> string \<Rightarrow> bool" where
  "collision s t = (s \<noteq> t \<and> sha256_hex s = sha256_hex t)"

lemma sha256_hex_eqD: "sha256_hex s = sha256_hex t \<Longrightarrow> s = t \<or> collision s t"
  by (auto simp: collision_def)

end
