(* ===== verification/JsonIndent.thy ===== *)
theory JsonIndent
  imports JsonFacts
begin

text \<open>
  \<open>json.dumps(x, indent=2, sort_keys=True) + "\n"\<close>, the rendering of every document that is meant to be read
  by people: each element on a line of its own, indented by two spaces per level, \<open>": "\<close> after a
  key. The main result is that \<open>loads\<close> reads it back.
\<close>

section \<open>Printing\<close>

definition new_line :: "nat \<Rightarrow> string" where
  "new_line n = CHR 0x0A # replicate (2 * n) CHR '' ''"

fun pretty :: "nat \<Rightarrow> json \<Rightarrow> string"
  and pretty_elems :: "nat \<Rightarrow> json list \<Rightarrow> string"
  and pretty_members :: "nat \<Rightarrow> (string \<times> json) list \<Rightarrow> string" where
  "pretty n (JArr vs) =
     (if vs = [] then ''[]'' else CHR ''['' # new_line (Suc n) @ pretty_elems (Suc n) vs @ new_line n @ '']'')"
| "pretty n (JObj kvs) =
     (if kvs = [] then ''{}'' else CHR ''{'' # new_line (Suc n) @ pretty_members (Suc n) kvs @ new_line n @ ''}'')"
| "pretty n v = render esc_ascii v"
| "pretty_elems n [] = []"
| "pretty_elems n (v # vs) =
     pretty n v @ (if vs = [] then [] else CHR '','' # new_line n @ pretty_elems n vs)"
| "pretty_members n [] = []"
| "pretty_members n (kv # kvs) =
     quoted esc_ascii (fst kv) @ CHR '':'' # CHR '' '' # pretty n (snd kv) @
     (if kvs = [] then [] else CHR '','' # new_line n @ pretty_members n kvs)"

definition indented :: "json \<Rightarrow> string" where
  "indented v = pretty 0 (sort_keys v) @ [CHR 0x0A]"

section \<open>Reading back\<close>

lemma skip_new_line [simp]: "skip_ws (new_line n @ s) = skip_ws s"
  by (induction n) (simp_all add: new_line_def skip_ws_def is_ws_def)

lemma stops_new_line [simp]: "stops (new_line n @ s)"
  by (simp add: new_line_def)

lemma pretty_start: "json_ok ok v \<Longrightarrow> \<exists>c t. pretty n v = c # t \<and> value_start c"
  using render_start [of ok v esc_ascii] by (cases v) (auto simp: value_start_def is_ws_def)

lemma skip_pretty: "json_ok ok v \<Longrightarrow> skip_ws (pretty n v @ s) = pretty n v @ s"
  using pretty_start [of ok v n] by (auto simp: value_start_def)

lemma skip_pretty_elems: "\<forall>v \<in> set vs. json_ok ok v \<Longrightarrow> vs \<noteq> [] \<Longrightarrow> skip_ws (pretty_elems n vs @ s) = pretty_elems n vs @ s"
  by (cases vs) (auto simp: skip_pretty [of ok])

lemma skip_pretty_members: "kvs \<noteq> [] \<Longrightarrow> skip_ws (pretty_members n kvs @ s) = pretty_members n kvs @ s"
  by (cases kvs) (simp_all add: quoted_def skip_ws_def is_ws_def)

definition reads_back :: "json \<Rightarrow> bool" where
  "reads_back v = (\<forall>k n r. length (pretty k v) \<le> n \<longrightarrow> stops r \<longrightarrow> p_value n (pretty k v @ r) = Some (v, r))"

lemma reads_backD: "reads_back v \<Longrightarrow> length (pretty k v) \<le> n \<Longrightarrow> stops r \<Longrightarrow> p_value n (pretty k v @ r) = Some (v, r)"
  by (simp add: reads_back_def)

lemma p_elems_pretty:
  assumes "\<forall>v \<in> set vs. json_ok ok v \<and> reads_back v" and "vs \<noteq> []" and "length (pretty_elems k vs) < n"
  shows "p_elems n (pretty_elems k vs @ new_line j @ CHR '']'' # r) = Some (vs, r)"
  using assms
proof (induction vs arbitrary: n)
  case (Cons v vs)
  then obtain m where n: "n = Suc m" by (cases n) auto
  show ?case
  proof (cases "vs = []")
    case True
    with Cons.prems n have "p_value m (pretty k v @ new_line j @ CHR '']'' # r) = Some (v, new_line j @ CHR '']'' # r)"
      by (intro reads_backD) auto
    with True n show ?thesis by (simp add: p_elems.simps is_ws_def)
  next
    case False
    let ?more = "pretty_elems k vs @ new_line j @ CHR '']'' # r"
    from False Cons.prems n
    have "p_value m (pretty k v @ CHR '','' # new_line k @ ?more) = Some (v, CHR '','' # new_line k @ ?more)"
      by (intro reads_backD) auto
    moreover have "skip_ws ?more = ?more"
      using Cons.prems False by (intro skip_pretty_elems [of vs ok]) auto
    moreover have "p_elems m ?more = Some (vs, r)"
      using Cons False n by (intro Cons.IH) (auto simp: new_line_def)
    ultimately show ?thesis using n False by (simp add: p_elems.simps is_ws_def)
  qed
qed simp

lemma p_members_pretty:
  assumes "\<forall>kv \<in> set kvs. utf8_ok (fst kv) \<and> json_ok utf8_ok (snd kv) \<and> reads_back (snd kv)" and "kvs \<noteq> []"
    and "length (pretty_members k kvs) < n"
  shows "p_members n (pretty_members k kvs @ new_line j @ CHR ''}'' # r) = Some (kvs, r)"
  using assms
proof (induction kvs arbitrary: n)
  case (Cons kv kvs)
  obtain key v where kv: "kv = (key, v)" by (cases kv)
  from Cons.prems obtain m where n: "n = Suc m" by (cases n) auto
  have blank: "skip_ws (CHR '' '' # s) = skip_ws s" for s by (simp add: skip_ws_def is_ws_def)
  have v: "skip_ws (pretty k v @ s) = pretty k v @ s" for s
    using Cons.prems kv by (intro skip_pretty [of utf8_ok]) simp
  show ?case
  proof (cases "kvs = []")
    case True
    with Cons.prems n kv have "p_value m (pretty k v @ new_line j @ CHR ''}'' # r) = Some (v, new_line j @ CHR ''}'' # r)"
      by (intro reads_backD) (auto simp: quoted_def)
    then show ?thesis
      using Cons.prems True kv n by (simp add: quoted_def p_members.simps is_ws_def blank v)
  next
    case False
    let ?more = "pretty_members k kvs @ new_line j @ CHR ''}'' # r"
    from False Cons.prems n kv
    have "p_value m (pretty k v @ CHR '','' # new_line k @ ?more) = Some (v, CHR '','' # new_line k @ ?more)"
      by (intro reads_backD) (auto simp: quoted_def)
    moreover have "p_members m ?more = Some (kvs, r)"
      using Cons False n by (intro Cons.IH) (auto simp: new_line_def)
    ultimately show ?thesis
      using Cons.prems kv n False
      by (simp add: quoted_def p_members.simps is_ws_def blank v skip_pretty_members)
  qed
qed simp

lemma reads_back_json_ok: "json_ok utf8_ok v \<Longrightarrow> reads_back v"
proof (induction v)
  case (JArr vs)
  then have sub: "\<forall>v \<in> set vs. json_ok utf8_ok v \<and> reads_back v" by auto
  show ?case unfolding reads_back_def
  proof (intro allI impI)
    fix k n r
    assume len: "length (pretty k (JArr vs)) \<le> n"
    then obtain m where n: "n = Suc m" by (cases n) (auto split: if_splits)
    show "p_value n (pretty k (JArr vs) @ r) = Some (JArr vs, r)"
    proof (cases "vs = []")
      case False
      let ?more = "pretty_elems (Suc k) vs @ new_line k @ CHR '']'' # r"
      have skip: "skip_ws ?more = ?more"
        using sub False by (intro skip_pretty_elems [of vs utf8_ok]) auto
      obtain w ws where vs: "vs = w # ws" using False by (cases vs) auto
      then obtain c u where "?more = c # u" "value_start c"
        using sub pretty_start [of utf8_ok w "Suc k"] by auto
      moreover have "p_elems m ?more = Some (vs, r)"
        using len n False sub by (intro p_elems_pretty [of vs utf8_ok]) (auto simp: new_line_def)
      ultimately show ?thesis
        using n False skip by (simp add: p_value.simps value_start_def)
    qed (use n in simp)
  qed
next
  case (JObj kvs)
  then have sub: "\<forall>kv \<in> set kvs. utf8_ok (fst kv) \<and> json_ok utf8_ok (snd kv) \<and> reads_back (snd kv)"
    by (auto simp: snds.simps)
  show ?case unfolding reads_back_def
  proof (intro allI impI)
    fix k n r
    assume len: "length (pretty k (JObj kvs)) \<le> n"
    then obtain m where n: "n = Suc m" by (cases n) (auto split: if_splits)
    show "p_value n (pretty k (JObj kvs) @ r) = Some (JObj kvs, r)"
    proof (cases "kvs = []")
      case False
      let ?more = "pretty_members (Suc k) kvs @ new_line k @ CHR ''}'' # r"
      have skip: "skip_ws ?more = ?more" using False by (rule skip_pretty_members)
      obtain u where "?more = CHR 0x22 # u" using False by (cases kvs) (auto simp: quoted_def)
      moreover have "p_members m ?more = Some (kvs, r)"
        using len n False sub by (intro p_members_pretty) (auto simp: new_line_def)
      ultimately show ?thesis
        using n False skip JObj.prems by (simp add: p_value.simps dict_of_id)
    qed (use n in simp)
  qed
qed (unfold reads_back_def pretty.simps, (intro allI impI ascii.readsD [OF ascii.reads_json_ok], assumption+)+)

theorem loads_indented: "json_ok utf8_ok v \<Longrightarrow> loads (indented v) = Some (sort_keys v)"
proof -
  assume "json_ok utf8_ok v"
  then have ok: "json_ok utf8_ok (sort_keys v)" by (rule json_ok_sort_keys)
  have "skip_ws (pretty 0 (sort_keys v) @ [CHR 0x0A]) = pretty 0 (sort_keys v) @ [CHR 0x0A]"
    by (rule skip_pretty [OF ok])
  with reads_backD [OF reads_back_json_ok [OF ok], of 0 "Suc (length (indented v))" "[CHR 0x0A]"] show ?thesis
    by (simp add: loads_def indented_def skip_ws_def is_ws_def)
qed

end
