(* ===== verification/JsonSupport.thy ===== *)
theory JsonSupport
  imports JsonPrefix DatetimeFacts Sha256 JsonIndent
begin

text \<open>
  \<open>utils/json_support.py\<close> and the idioms the records use to read a JSON mapping:
  \<open>payload["k"]\<close>, \<open>payload.get("k", d)\<close>, \<open>str(payload["k"])\<close>, and the frozen dataclass
  constructor. The digest idiom \<open>sha256(_canonical(payload)).hexdigest()\<close> and its collision
  lemma are here too.
\<close>

section \<open>\<open>str\<close> of a JSON value\<close>

text \<open>
  \<open>repr\<close> of a string: single quotes unless the text has a single quote and no double quote. A
  non-ASCII character is taken as printable.
\<close>

definition repr_char :: "char \<Rightarrow> char \<Rightarrow> string" where
  "repr_char q c =
     (let u = byte c in
      if c = q \<or> u = 92 then [CHR 0x5C, c]
      else if u = 10 then [CHR 0x5C, CHR ''n'']
      else if u = 13 then [CHR 0x5C, CHR ''r'']
      else if u = 9 then [CHR 0x5C, CHR ''t'']
      else if u < 32 \<or> u = 127 then [CHR 0x5C, CHR ''x''] @ drop 2 (hex4 u)
      else [c])"

definition py_repr_str :: "string \<Rightarrow> string" where
  "py_repr_str s =
     (let q = (if CHR 0x27 \<in> set s \<and> CHR 0x22 \<notin> set s then CHR 0x22 else CHR 0x27)
      in q # concat (map (repr_char q) s) @ [q])"

fun py_repr :: "json \<Rightarrow> string" where
  "py_repr JNull = ''None''"
| "py_repr (JBool b) = (if b then ''True'' else ''False'')"
| "py_repr (JInt i) = dec_int i"
| "py_repr (JFloat l) = l"
| "py_repr (JStr s) = py_repr_str s"
| "py_repr (JArr vs) = ''['' @ join '', '' (map py_repr vs) @ '']''"
| "py_repr (JObj kvs) =
     ''{'' @ join '', '' (map (\<lambda>(k, v). py_repr_str k @ '': '' @ py_repr v) kvs) @ ''}''"

fun py_str :: "json \<Rightarrow> string" where
  "py_str (JStr s) = s"
| "py_str v = py_repr v"

section \<open>Validators\<close>

text \<open>
  \<open>require_value\<close> and \<open>require_object\<close>. The argument is a value of \<open>json\<close>, so the branches for
  a non-string key and for a value outside JSON cannot be taken; the copies they build are equal
  to their argument.
\<close>

fun require_value :: "json \<Rightarrow> string \<Rightarrow> json result" where
  "require_value (JObj kvs) field =
     bindE (mapE (\<lambda>(k, v). bindE (require_value v (field @ ''.'' @ k)) (\<lambda>w. Inr (k, w))) kvs)
       (\<lambda>d. Inr (JObj (dict_of d)))"
| "require_value (JArr vs) field =
     bindE (mapE (\<lambda>v. require_value v field) vs) (\<lambda>ws. Inr (JArr ws))"
| "require_value v field = Inr v"

definition require_object :: "json \<Rightarrow> string \<Rightarrow> payload result" where
  "require_object v field =
     (case v of
        JObj kvs \<Rightarrow>
          bindE (mapE (\<lambda>(k, v). bindE (require_value v (field @ ''.'' @ k)) (\<lambda>w. Inr (k, w))) kvs)
            (\<lambda>d. Inr (dict_of d))
      | _ \<Rightarrow> Inl (ValueError field))"

definition loads_object :: "string \<Rightarrow> string \<Rightarrow> payload result" where
  "loads_object value field =
     (case loads value of
        None \<Rightarrow> Inl (ValueError field)
      | Some decoded \<Rightarrow> require_object decoded field)"

text \<open>
  \<open>load_object\<close>: a file system is a map from paths to bytes. The newline translation of text mode
  cannot be observed: a carriage return is white space in JSON and illegal inside a string.
\<close>

type_synonym files = "string \<Rightarrow> string option"

definition load_object :: "files \<Rightarrow> string \<Rightarrow> string \<Rightarrow> payload result" where
  "load_object fs path field =
     (case fs path of
        None \<Rightarrow> Inl (FileNotFoundError path)
      | Some b \<Rightarrow> if utf8_ok b then loads_object b field else Inl (UnicodeDecodeError path))"

text \<open>\<open>Path.name\<close>: the last non-empty component.\<close>

definition path_name :: "string \<Rightarrow> string" where
  "path_name p =
     (case filter (\<lambda>c. c \<noteq> [] \<and> c \<noteq> ''.'') (split_on CHR ''/'' p) of
        [] \<Rightarrow> [] | cs \<Rightarrow> last cs)"

definition require_bool :: "json \<Rightarrow> string \<Rightarrow> bool result" where
  "require_bool v field = (case v of JBool b \<Rightarrow> Inr b | _ \<Rightarrow> Inl (ValueError field))"

definition require_int :: "json \<Rightarrow> string \<Rightarrow> int result" where
  "require_int v field = (case v of JInt i \<Rightarrow> Inr i | _ \<Rightarrow> Inl (ValueError field))"

definition require_string :: "json \<Rightarrow> string \<Rightarrow> string result" where
  "require_string v field = (case v of JStr s \<Rightarrow> Inr s | _ \<Rightarrow> Inl (ValueError field))"

definition string_mapping :: "json \<Rightarrow> string \<Rightarrow> (string, string) dict result" where
  "string_mapping v field =
     (case v of
        JObj kvs \<Rightarrow> Inr (map (\<lambda>(k, v). (k, py_str v)) kvs)
      | _ \<Rightarrow> Inl (ValueError field))"

definition string_sequence :: "json \<Rightarrow> string \<Rightarrow> string list result" where
  "string_sequence v field =
     (case v of JArr vs \<Rightarrow> Inr (map py_str vs) | _ \<Rightarrow> Inl (ValueError field))"

fun split_once :: "char \<Rightarrow> string \<Rightarrow> (string \<times> string) option" where
  "split_once c [] = None"
| "split_once c (x # xs) =
     (if x = c then Some ([], xs) else map_option (apfst ((#) x)) (split_once c xs))"

definition metadata_from_cli :: "string list \<Rightarrow> (string, string) dict result" where
  "metadata_from_cli values =
     foldl (\<lambda>acc item. bindE acc (\<lambda>metadata.
         case split_once CHR ''='' item of
           None \<Rightarrow> Inl (ValueError ''metadata must use key=value syntax'')
         | Some (key, val) \<Rightarrow>
             if blank key then Inl (ValueError ''metadata key must not be blank'')
             else Inr (AList.update key val metadata)))
       (Inr []) values"

section \<open>Reading a mapping\<close>

definition item :: "payload \<Rightarrow> string \<Rightarrow> json result" where
  "item d k = (case map_of d k of None \<Rightarrow> Inl (KeyError k) | Some v \<Rightarrow> Inr v)"

definition get_or :: "payload \<Rightarrow> string \<Rightarrow> json \<Rightarrow> json" where
  "get_or d k v = (case map_of d k of None \<Rightarrow> v | Some w \<Rightarrow> w)"

definition item_str :: "payload \<Rightarrow> string \<Rightarrow> string result" where
  "item_str d k = bindE (item d k) (\<lambda>v. Inr (py_str v))"

definition get_str :: "payload \<Rightarrow> string \<Rightarrow> string \<Rightarrow> string" where
  "get_str d k v = py_str (get_or d k (JStr v))"

text \<open>\<open>None if payload.get(k) is None else str(payload[k])\<close>\<close>

definition get_opt_str :: "payload \<Rightarrow> string \<Rightarrow> string option" where
  "get_opt_str d k =
     (case map_of d k of None \<Rightarrow> None | Some JNull \<Rightarrow> None | Some v \<Rightarrow> Some (py_str v))"

text \<open>\<open>None if payload.get(k) is None else f(payload[k])\<close>\<close>

definition get_opt :: "payload \<Rightarrow> string \<Rightarrow> (json \<Rightarrow> 'a result) \<Rightarrow> 'a option result" where
  "get_opt d k f =
     (case map_of d k of
        None \<Rightarrow> Inr None
      | Some JNull \<Rightarrow> Inr None
      | Some v \<Rightarrow> bindE (f v) (\<lambda>x. Inr (Some x)))"

text \<open>Iterating a JSON value: elements of a list, keys of an object, characters of a string.\<close>

definition iter_json :: "json \<Rightarrow> json list result" where
  "iter_json v =
     (case v of
        JArr vs \<Rightarrow> Inr vs
      | JObj kvs \<Rightarrow> Inr (map (\<lambda>kv. JStr (fst kv)) kvs)
      | JStr s \<Rightarrow> Inr (map (\<lambda>u. JStr (utf8_enc u)) (opt_or (utf8_dec s) []))
      | _ \<Rightarrow> Inl (TypeError ''not iterable''))"

text \<open>\<open>missing = [k for k in required if k not in payload]\<close> and its \<open>ValueError\<close>.\<close>

definition missing_fields :: "payload \<Rightarrow> string list \<Rightarrow> string list" where
  "missing_fields d required = filter (\<lambda>k. map_of d k = None) required"

definition jopt_str :: "string option \<Rightarrow> json" where
  "jopt_str v = (case v of None \<Rightarrow> JNull | Some s \<Rightarrow> JStr s)"

definition jopt :: "('a \<Rightarrow> json) \<Rightarrow> 'a option \<Rightarrow> json" where
  "jopt f v = (case v of None \<Rightarrow> JNull | Some x \<Rightarrow> f x)"

definition jstrs :: "string list \<Rightarrow> json" where
  "jstrs xs = JArr (map JStr xs)"

text \<open>\<open>dict(sorted(d.items()))\<close>: keys are distinct, so the order is that of the keys.\<close>

definition sorted_items :: "('k :: linorder, 'v) dict \<Rightarrow> ('k, 'v) dict" where
  "sorted_items d = sort_key fst d"

definition jdict :: "(string, string) dict \<Rightarrow> json" where
  "jdict d = JObj (map (\<lambda>(k, v). (k, JStr v)) d)"

text \<open>A frozen dataclass constructor: \<open>__post_init__\<close> on the given fields.\<close>

definition construct :: "('a \<Rightarrow> unit result) \<Rightarrow> 'a \<Rightarrow> 'a result" where
  "construct post_init x = bindE (post_init x) (\<lambda>_. Inr x)"

text \<open>The serialized-format marker: absent, null or \<open>"1"\<close>.\<close>

definition check_format_version :: "payload \<Rightarrow> unit result" where
  "check_format_version d =
     guards [(case get_opt_str d ''format_version'' of None \<Rightarrow> False | Some v \<Rightarrow> v \<noteq> ''1'',
       ValueError ''format_version'')]"

section \<open>Digests\<close>

definition digest_of :: "payload \<Rightarrow> string" where
  "digest_of d = sha256_hex (canonical (JObj d))"

lemma is_sha256_digest_of [simp, str_simps]: "is_sha256 (digest_of d)"
  by (simp add: digest_of_def)

lemma digest_of_not_Nil [simp]: "digest_of d \<noteq> []"
  by (simp add: digest_of_def)

lemma not_blank_digest_of [simp]: "\<not> blank (digest_of d)"
  by (simp add: str_simps)

text \<open>
  Two payloads with one digest agree on every key up to the order of keys, or they exhibit a
  collision of SHA-256.
\<close>

definition digest_collision :: "payload \<Rightarrow> payload \<Rightarrow> bool" where
  "digest_collision d e = collision (canonical (JObj d)) (canonical (JObj e))"

lemma digest_of_inject:
  assumes "digest_of d = digest_of e"
    and "json_ok (\<lambda>s. True) (JObj d)" and "json_ok (\<lambda>s. True) (JObj e)"
  shows "digest_collision d e \<or>
    (\<forall>k. map_option sort_keys (map_of d k) = map_option sort_keys (map_of e k))"
proof (cases "digest_collision d e")
  case False
  with sha256_hex_eqD [OF assms(1) [unfolded digest_of_def]]
  have "canonical (JObj d) = canonical (JObj e)"
    by (simp add: digest_collision_def)
  with assms have "sort_keys (JObj d) = sort_keys (JObj e)"
    by (intro canonical_inject)
  moreover have "distinct (map fst d)" "distinct (map fst e)"
    using assms by simp_all
  ultimately show ?thesis
    using map_of_sort_keys [of d] map_of_sort_keys [of e] by (metis sort_keys.simps(2))
qed simp

section \<open>Facts\<close>

lemma map_fst_case: "map fst (map (\<lambda>(k, v). (k, f v)) kvs) = map fst kvs"
  by (induction kvs) auto

lemma require_value_id: "json_ok (\<lambda>s. True) v \<Longrightarrow> require_value v field = Inr v"
proof (induction v field rule: require_value.induct)
  case (1 kvs field)
  have "mapE (\<lambda>(k, v). bindE (require_value v (field @ ''.'' @ k)) (\<lambda>w. Inr (k, w))) kvs =
      Inr (map id kvs)"
    using 1 by (intro mapE_Inr_id) fastforce
  with 1 show ?case by (simp add: dict_of_id)
next
  case (2 vs field)
  have "mapE (\<lambda>v. require_value v field) vs = Inr (map id vs)"
    using 2 by (intro mapE_Inr_id) simp
  then show ?case by simp
qed auto

lemma require_object_id: "json_ok (\<lambda>s. True) (JObj d) \<Longrightarrow> require_object (JObj d) field = Inr d"
  using require_value_id [of "JObj d" field]
  by (simp add: require_object_def bindE_eq_Inr_iff)

lemma require_object_error [simp]:
  "\<forall>d. v \<noteq> JObj d \<Longrightarrow> require_object v field = Inl (ValueError field)"
  by (cases v) (auto simp: require_object_def)

text \<open>
  On a concrete mapping \<open>json_ok\<close> is decided entry by entry; on a named one it stays folded.
\<close>

lemma json_ok_JObj_simps [simp]:
  "json_ok (\<lambda>s. True) (JObj [])"
  "json_ok (\<lambda>s. True) (JObj ((k, v) # d)) \<longleftrightarrow>
     k \<notin> set (map fst d) \<and> json_ok (\<lambda>s. True) v \<and> json_ok (\<lambda>s. True) (JObj d)"
  by (auto simp: image_iff)

lemma json_ok_JObjD: "json_ok (\<lambda>s. True) (JObj d) \<Longrightarrow> distinct (map fst d)"
  by simp

lemma json_ok_JObj_append [simp]:
  "json_ok (\<lambda>s. True) (JObj (d @ e)) \<longleftrightarrow> json_ok (\<lambda>s. True) (JObj d) \<and> json_ok (\<lambda>s. True) (JObj e) \<and>
     set (map fst d) \<inter> set (map fst e) = {}"
  by auto

lemma item_simps [simp]:
  "map_of d k = Some v \<Longrightarrow> item d k = Inr v"
  "map_of d k = None \<Longrightarrow> item d k = Inl (KeyError k)"
  by (simp_all add: item_def)

lemma get_opt_str_simps [simp]:
  "map_of d k = Some (JStr s) \<Longrightarrow> get_opt_str d k = Some s"
  "map_of d k = Some JNull \<Longrightarrow> get_opt_str d k = None"
  "map_of d k = None \<Longrightarrow> get_opt_str d k = None"
  "map_of d k = Some (jopt_str v) \<Longrightarrow> get_opt_str d k = v"
  by (auto simp: get_opt_str_def jopt_str_def split: option.splits)

lemma string_sequence_jstrs [simp]: "string_sequence (jstrs xs) field = Inr xs"
  by (simp add: string_sequence_def jstrs_def comp_def)

lemma string_mapping_jdict [simp]: "string_mapping (jdict d) field = Inr d"
  by (simp add: string_mapping_def jdict_def comp_def split_def)

lemma json_ok_jopt_str [simp]: "json_ok (\<lambda>s. True) (jopt_str v)"
  by (simp add: jopt_str_def split: option.splits)

lemma json_ok_jstrs [simp]: "json_ok (\<lambda>s. True) (jstrs xs)"
  by (simp add: jstrs_def)

lemma json_ok_jdict [simp]: "json_ok (\<lambda>s. True) (jdict d) \<longleftrightarrow> distinct (map fst d)"
  by (auto simp: jdict_def map_fst_case simp del: map_map)

lemma sort_keys_jopt_str [simp]: "sort_keys (jopt_str v) = jopt_str v"
  by (simp add: jopt_str_def split: option.splits)

lemma sort_keys_jstrs [simp]: "sort_keys (jstrs xs) = jstrs xs"
  by (simp add: jstrs_def)

lemma jopt_str_inject [simp]: "jopt_str v = jopt_str w \<longleftrightarrow> v = w"
  by (auto simp: jopt_str_def split: option.splits)

lemma jstrs_inject [simp]: "jstrs xs = jstrs ys \<longleftrightarrow> xs = ys"
  by (simp add: jstrs_def inj_map_eq_map inj_def)

lemma sort_keys_jdict [simp]: "sort_keys (jdict d) = jdict (sorted_items d)"
proof -
  have *: "sort_key fst (map (\<lambda>(k, v). (k, f v)) d) = map (\<lambda>(k, v). (k, f v)) (sort_key fst d)"
    for f :: "string \<Rightarrow> json"
  proof (induction d)
    case (Cons kv d)
    have "insort_key fst (case kv of (k, v) \<Rightarrow> (k, f v)) (map (\<lambda>(k, v). (k, f v)) e) =
        map (\<lambda>(k, v). (k, f v)) (insort_key fst kv e)" for e
      by (induction e) (auto split: prod.splits)
    with Cons show ?case by simp
  qed simp
  show ?thesis
    using * [of JStr] by (simp add: jdict_def sorted_items_def comp_def split_def)
qed

lemma jdict_inject [simp]: "jdict d = jdict e \<longleftrightarrow> d = e"
proof -
  have "inj (\<lambda>(k, v). (k, JStr v))" by (auto simp: inj_def)
  then show ?thesis unfolding jdict_def json.inject by (rule inj_map_eq_map)
qed

lemma map_of_sorted_items [simp]: "distinct (map fst d) \<Longrightarrow> map_of (sorted_items d) = map_of d"
  by (simp add: sorted_items_def map_of_sort_key)

lemma distinct_sorted_items [simp]: "distinct (map fst (sorted_items d)) \<longleftrightarrow> distinct (map fst d)"
  by (simp add: sorted_items_def)

lemma sorted_items_idem [simp]: "sorted_items (sorted_items d) = sorted_items d"
  by (simp add: sorted_items_def sort_key_id_if_sorted)

lemma sorted_items_eqD: "sorted_items d = sorted_items e \<Longrightarrow> distinct (map fst d) \<Longrightarrow>
    distinct (map fst e) \<Longrightarrow> dict_eq d e"
  unfolding dict_eq_iff by (metis map_of_sorted_items)

lemma sorted_items_dict_eq:
  assumes "dict_ok d" "dict_ok e"
  shows "sorted_items d = sorted_items e \<longleftrightarrow> dict_eq d e"
proof
  assume "dict_eq d e"
  then have "map_of (sorted_items d) = map_of (sorted_items e)"
    using assms by (simp add: dict_eq_iff dict_ok_def)
  then have "set (sorted_items d) = set (sorted_items e)"
    using assms by (metis dict_ok_def distinct_sorted_items map_of_inject_set)
  moreover have "sorted (map fst (sorted_items x))" for x :: "('a, 'b) dict"
    by (simp add: sorted_items_def)
  moreover have "distinct (map fst (sorted_items d))" "distinct (map fst (sorted_items e))"
    using assms by (simp_all add: dict_ok_def)
  ultimately show "sorted_items d = sorted_items e"
    by (intro map_sorted_distinct_set_unique [of fst]) (simp_all add: distinct_map)
qed (use assms in \<open>auto simp: dict_ok_def dest: sorted_items_eqD\<close>)

lemma construct_Inr_iff [result_simps]:
  "construct post x = Inr y \<longleftrightarrow> y = x \<and> post x = Inr ()"
  by (auto simp: construct_def bindE_eq_Inr_iff)

lemma construct_ok: "post x = Inr () \<Longrightarrow> construct post x = Inr x"
  by (simp add: construct_def)

text \<open>
  \<open>stored d e\<close>: the mapping \<open>d\<close> holds what \<open>e\<close> holds, with the keys of its values sorted. It is
  what reading a canonical document of \<open>e\<close> yields, and every \<open>from_dict\<close> is proved on it.
\<close>

definition stored :: "payload \<Rightarrow> payload \<Rightarrow> bool" where
  "stored d e = list_all (\<lambda>k. map_of d k = map_option sort_keys (map_of e k))
     (map fst d @ map fst e)"

lemma stored_iff: "stored d e \<longleftrightarrow> (\<forall>k. map_of d k = map_option sort_keys (map_of e k))"
proof
  assume h: "stored d e"
  show "\<forall>k. map_of d k = map_option sort_keys (map_of e k)"
  proof
    fix k
    show "map_of d k = map_option sort_keys (map_of e k)"
    proof (cases "k \<in> set (map fst d @ map fst e)")
      case True
      with h show ?thesis unfolding stored_def list_all_iff by blast
    next
      case False
      then have "map_of d k = None" "map_of e k = None"
        by (simp_all add: map_of_eq_None_iff)
      then show ?thesis by simp
    qed
  qed
qed (simp add: stored_def list_all_iff)

lemma storedD: "stored d e \<Longrightarrow> map_of d k = map_option sort_keys (map_of e k)"
  by (simp add: stored_iff)

lemma stored_refl: "\<forall>v \<in> set (map snd d). sort_keys v = v \<Longrightarrow> stored d d"
  unfolding stored_iff by (auto simp: option.map_id0 dest!: map_of_SomeD intro!: option.expand)
    (metis map_of_SomeD option.map(1) option.map(2) option.exhaust image_eqI set_map snd_conv)

text \<open>The mapping inside \<open>sort_keys\<close> of an object, for objects nested in a document.\<close>

definition sorted_payload :: "payload \<Rightarrow> payload" where
  "sorted_payload d = sort_key fst (map (\<lambda>(k, v). (k, sort_keys v)) d)"

lemma sort_keys_JObj: "sort_keys (JObj d) = JObj (sorted_payload d)"
  by (simp add: sorted_payload_def)

lemma stored_sorted_payload:
  "json_ok (\<lambda>s. True) (JObj d) \<Longrightarrow> stored (sorted_payload d) d"
  unfolding stored_iff using map_of_sort_keys [of d "sorted_payload d"] sort_keys_JObj [of d]
  by simp

lemma json_ok_sorted_payload:
  "json_ok (\<lambda>s. True) (JObj d) \<Longrightarrow> json_ok (\<lambda>s. True) (JObj (sorted_payload d))"
  using json_ok_sort_keys [of "\<lambda>s. True" "JObj d"] unfolding sort_keys_JObj .

text \<open>The digest sees a mapping up to the order of its keys, at every depth.\<close>

lemma sorted_payload_cong:
  assumes "distinct (map fst d)" "distinct (map fst e)"
    and "\<And>k. map_option sort_keys (map_of d k) = map_option sort_keys (map_of e k)"
  shows "sorted_payload d = sorted_payload e"
proof -
  let ?s = "\<lambda>d. map (\<lambda>(k, v). (k, sort_keys v)) d"
  have dist: "distinct (map fst (?s d))" "distinct (map fst (?s e))"
    unfolding map_fst_case using assms by simp_all
  have "map_of (?s d) = map_of (?s e)"
    using assms(3) by (auto simp: map_of_map fun_eq_iff)
  then have "dict_eq (?s d) (?s e)" by (simp add: dict_eq_iff)
  then have "sorted_items (?s d) = sorted_items (?s e)"
    using sorted_items_dict_eq dist unfolding dict_ok_def by blast
  then show ?thesis
    by (simp add: sorted_payload_def sorted_items_def)
qed

lemma digest_of_cong:
  assumes "distinct (map fst d)" "distinct (map fst e)"
    and "\<And>k. map_option sort_keys (map_of d k) = map_option sort_keys (map_of e k)"
  shows "digest_of d = digest_of e"
  using sorted_payload_cong [OF assms]
  by (simp add: digest_of_def canonical_def sort_keys_JObj del: sort_keys.simps(2))

lemma sort_keys_idem [simp]: "json_ok ok v \<Longrightarrow> sort_keys (sort_keys v) = sort_keys v"
proof (induction v rule: sort_keys.induct)
  case (2 kvs)
  have "map (\<lambda>(k, v). (k, sort_keys v)) (sort_key fst (map (\<lambda>(k, v). (k, sort_keys v)) kvs)) =
      sort_key fst (map (\<lambda>(k, v). (k, sort_keys v)) kvs)"
    using 2 by (intro map_idI) fastforce
  then show ?case
    by (simp add: sort_key_id_if_sorted)
qed auto

lemma get_opt_stored:
  assumes "map_of d k = Some (sort_keys (jopt j v))"
    and "\<And>x. v = Some x \<Longrightarrow> f (sort_keys (j x)) = Inr x \<and> j x \<noteq> JNull"
  shows "get_opt d k f = Inr v"
proof (cases v)
  case None
  with assms show ?thesis by (simp add: get_opt_def jopt_def)
next
  case (Some x)
  with assms have "map_of d k = Some (sort_keys (j x))" and f: "f (sort_keys (j x)) = Inr x"
    and "j x \<noteq> JNull"
    by (simp_all add: jopt_def)
  moreover from this have "sort_keys (j x) \<noteq> JNull"
    by (cases "j x") simp_all
  ultimately show ?thesis
    using Some by (cases "sort_keys (j x)") (simp_all add: get_opt_def)
qed

lemma require_object_nested:
  assumes "json_ok (\<lambda>s. True) (JObj d)" and "\<And>d'. stored d' d \<Longrightarrow> f d' = y"
  shows "bindE (require_object (sort_keys (JObj d)) field) f = y"
  unfolding sort_keys_JObj require_object_id [OF json_ok_sorted_payload [OF assms(1)]]
  by (simp add: assms(2) stored_sorted_payload [OF assms(1)])

lemma loads_object_canonical:
  assumes "json_ok (\<lambda>s. True) (JObj d)"
  obtains d' where "loads_object (canonical (JObj d)) field = Inr d'" and "stored d' d"
proof -
  obtain d' where d': "sort_keys (JObj d) = JObj d'" by simp
  have "json_ok (\<lambda>s. True) (JObj d')"
    using json_ok_sort_keys [OF assms] unfolding d' .
  with loads_canonical [OF assms] d'
  have "loads_object (canonical (JObj d)) field = Inr d'"
    by (simp add: loads_object_def require_object_id del: sort_keys.simps)
  moreover have "stored d' d"
    unfolding stored_iff using assms d' map_of_sort_keys [of d d'] by simp
  ultimately show thesis by (rule that)
qed

text \<open>
  \<open>py_ok\<close>: a value Python can hold, every object in it with distinct keys. Payloads given to a
  \<open>from_dict\<close> satisfy it.
\<close>

fun py_ok :: "json \<Rightarrow> bool" where
  "py_ok (JArr vs) = (\<forall>v \<in> set vs. py_ok v)"
| "py_ok (JObj kvs) = (distinct (map fst kvs) \<and> (\<forall>kv \<in> set kvs. py_ok (snd kv)))"
| "py_ok _ = True"

lemma json_ok_py_ok: "json_ok ok v \<Longrightarrow> py_ok v"
  by (induction v rule: py_ok.induct) auto

lemma py_ok_map_of: "py_ok (JObj d) \<Longrightarrow> map_of d k = Some v \<Longrightarrow> py_ok v"
  by (auto dest!: map_of_SomeD)

lemma string_mapping_ok:
  assumes "py_ok (JObj d)" "string_mapping (get_or d k (JObj [])) f = Inr m"
  shows "dict_ok m"
proof -
  obtain kvs where kvs: "get_or d k (JObj []) = JObj kvs" and m: "m = map (\<lambda>(k, v). (k, py_str v)) kvs"
    using assms(2) by (auto simp: string_mapping_def split: json.splits)
  from kvs have "distinct (map fst kvs)"
    using py_ok_map_of [OF assms(1), of k] by (auto simp: get_or_def split: option.splits)
  then show ?thesis
    unfolding dict_ok_def m map_fst_case .
qed

lemma parse_datetime_ok: "parse_datetime s f = Inr t \<Longrightarrow> tz_aware t \<and> dt_ok t"
  by (auto simp: parse_datetime_def bindE_eq_Inr_iff dt_ok_def split: if_splits)

declare json_ok.simps(4) [simp del]

end
