(* ===== verification/SystemState.thy ===== *)
theory SystemState
  imports JsonSupport
begin

text \<open>
  \<open>domain/state.py\<close>: the snapshot of the runtime a run executed in, its fingerprint and its
  serialized form.
\<close>

section \<open>Data\<close>

record system_state =
  ss_state_id :: string
  ss_captured_at :: datetime
  ss_agent_version :: string
  ss_model :: string
  ss_prompt_digest :: string
  ss_tool_digests :: "(string, string) dict"
  ss_retrieval_digest :: "string option"
  ss_memory_digest :: "string option"
  ss_policy_digest :: "string option"

definition system_state_post_init :: "system_state \<Rightarrow> unit result" where
  "system_state_post_init s = guards [
     (blank (ss_state_id s), ValueError ''state_id''),
     (\<not> tz_aware (ss_captured_at s), ValueError ''captured_at''),
     (blank (ss_agent_version s), ValueError ''agent_version''),
     (blank (ss_model s), ValueError ''model''),
     (blank (ss_prompt_digest s), ValueError ''prompt_digest''),
     (list_ex (\<lambda>(name, digest). blank name \<or> blank digest) (ss_tool_digests s),
        ValueError ''tool_digests'')]"

section \<open>Operations\<close>

definition fingerprint_payload :: "system_state \<Rightarrow> payload" where
  "fingerprint_payload s = [
     (''agent_version'', JStr (ss_agent_version s)),
     (''model'', JStr (ss_model s)),
     (''prompt_digest'', JStr (ss_prompt_digest s)),
     (''tool_digests'', jdict (sorted_items (ss_tool_digests s))),
     (''retrieval_digest'', jopt_str (ss_retrieval_digest s)),
     (''memory_digest'', jopt_str (ss_memory_digest s)),
     (''policy_digest'', jopt_str (ss_policy_digest s))]"

definition fingerprint :: "system_state \<Rightarrow> string" where
  "fingerprint s = digest_of (fingerprint_payload s)"

definition system_state_to_dict :: "system_state \<Rightarrow> payload" where
  "system_state_to_dict s =
     [(''state_id'', JStr (ss_state_id s)),
      (''captured_at'', JStr (utc_iso (ss_captured_at s)))] @ fingerprint_payload s"

text \<open>
  The check that \<open>tool_digests\<close> is an object and the later \<open>str\<close> of its entries, which cannot
  fail, are one \<open>string_mapping\<close>.
\<close>

definition system_state_from_dict :: "payload \<Rightarrow> system_state result" where
  "system_state_from_dict d =
     (if missing_fields d [''state_id'', ''captured_at'', ''agent_version'', ''model'',
          ''prompt_digest''] \<noteq> []
      then Inl (ValueError ''missing'')
      else
        bindE (string_mapping (get_or d ''tool_digests'' (JObj [])) ''tool_digests'') (\<lambda>tools.
        bindE (item_str d ''state_id'') (\<lambda>sid.
        bindE (item_str d ''captured_at'') (\<lambda>at.
        bindE (parse_datetime at ''captured_at'') (\<lambda>captured.
        bindE (item_str d ''agent_version'') (\<lambda>agent.
        bindE (item_str d ''model'') (\<lambda>model.
        bindE (item_str d ''prompt_digest'') (\<lambda>prompt.
        construct system_state_post_init
          \<lparr>ss_state_id = sid, ss_captured_at = captured, ss_agent_version = agent,
           ss_model = model, ss_prompt_digest = prompt, ss_tool_digests = tools,
           ss_retrieval_digest = get_opt_str d ''retrieval_digest'',
           ss_memory_digest = get_opt_str d ''memory_digest'',
           ss_policy_digest = get_opt_str d ''policy_digest''\<rparr>))))))))"

section \<open>Well-formed snapshots\<close>

text \<open>What a constructed snapshot satisfies; the dictionary and the timestamp are Python values.\<close>

definition system_state_ok :: "system_state \<Rightarrow> bool" where
  "system_state_ok s = (system_state_post_init s = Inr () \<and> dict_ok (ss_tool_digests s) \<and>
     dt_ok (ss_captured_at s))"

lemma json_ok_fingerprint_payload:
  "json_ok (\<lambda>s. True) (JObj (fingerprint_payload s)) \<longleftrightarrow> dict_ok (ss_tool_digests s)"
  by (simp add: fingerprint_payload_def dict_ok_def)

lemma json_ok_system_state:
  "json_ok (\<lambda>s. True) (JObj (system_state_to_dict s)) \<longleftrightarrow> dict_ok (ss_tool_digests s)"
  by (simp add: system_state_to_dict_def fingerprint_payload_def dict_ok_def)

text \<open>The state-defining fields, as the fingerprint sees them.\<close>

definition same_behaviour :: "system_state \<Rightarrow> system_state \<Rightarrow> bool" where
  "same_behaviour s t =
     (ss_agent_version s = ss_agent_version t \<and> ss_model s = ss_model t \<and>
      ss_prompt_digest s = ss_prompt_digest t \<and>
      dict_eq (ss_tool_digests s) (ss_tool_digests t) \<and>
      ss_retrieval_digest s = ss_retrieval_digest t \<and>
      ss_memory_digest s = ss_memory_digest t \<and> ss_policy_digest s = ss_policy_digest t)"

lemma fingerprint_payload_eq_iff:
  assumes "dict_ok (ss_tool_digests s)" "dict_ok (ss_tool_digests t)"
  shows "fingerprint_payload s = fingerprint_payload t \<longleftrightarrow> same_behaviour s t"
  using assms by (simp add: fingerprint_payload_def same_behaviour_def sorted_items_dict_eq)

lemma fingerprint_payload_keysD:
  assumes "\<forall>k. map_option sort_keys (map_of (fingerprint_payload s) k) =
      map_option sort_keys (map_of (fingerprint_payload t) k)"
    and "dict_ok (ss_tool_digests s)" "dict_ok (ss_tool_digests t)"
  shows "same_behaviour s t"
proof -
  note k = assms(1) [THEN spec]
  show ?thesis
    using k [of "''agent_version''"] k [of "''model''"] k [of "''prompt_digest''"]
      k [of "''tool_digests''"] k [of "''retrieval_digest''"] k [of "''memory_digest''"]
      k [of "''policy_digest''"] assms(2,3)
    by (simp add: fingerprint_payload_def same_behaviour_def sorted_items_dict_eq)
qed

lemma fingerprint_eqD:
  assumes "fingerprint s = fingerprint t"
    and "dict_ok (ss_tool_digests s)" "dict_ok (ss_tool_digests t)"
  shows "digest_collision (fingerprint_payload s) (fingerprint_payload t) \<or> same_behaviour s t"
  using digest_of_inject [of "fingerprint_payload s" "fingerprint_payload t"] assms
    fingerprint_payload_keysD [of s t]
  unfolding fingerprint_def json_ok_fingerprint_payload by blast

text \<open>
  The fingerprint identifies the behaviour-defining part of a snapshot. Two snapshots have one
  fingerprint exactly when they agree on every field that defines behaviour, the tool digests as
  dictionaries (the identifier, the capture time and the order of the tools do not matter), or when
  their canonical documents are a collision of SHA-256.
\<close>

theorem fingerprint_identifies_behaviour:
  assumes "dict_ok (ss_tool_digests s)" "dict_ok (ss_tool_digests t)"
  shows "fingerprint s = fingerprint t \<longleftrightarrow>
    same_behaviour s t \<or>
    digest_collision (fingerprint_payload s) (fingerprint_payload t)"
  using fingerprint_eqD [of s t] fingerprint_payload_eq_iff [of s t] assms
  by (auto simp: fingerprint_def digest_of_def digest_collision_def collision_def)

lemma list_ex_sorted_items [simp]: "list_ex p (sorted_items d) = list_ex p d"
  by (simp add: list_ex_iff sorted_items_def)

lemma system_state_from_stored:
  assumes "system_state_ok s" "stored d (system_state_to_dict s)"
  shows "system_state_from_dict d = Inr (s\<lparr>ss_tool_digests := sorted_items (ss_tool_digests s)\<rparr>)"
proof -
  obtain t where at: "ss_captured_at s = Aware t" "in_range t"
    using assms(1) by (cases "ss_captured_at s")
      (auto simp: system_state_ok_def system_state_post_init_def dt_ok_def)
  show ?thesis
    using assms(1) at
    by (simp add: system_state_from_dict_def missing_fields_def item_str_def get_or_def
        storedD [OF assms(2)] system_state_to_dict_def fingerprint_payload_def
        parse_datetime_utc_iso construct_ok system_state_ok_def
        system_state_post_init_def)
qed

lemma json_ok_system_state_to_dict: "system_state_ok s \<Longrightarrow> json_ok (\<lambda>s. True) (JObj (system_state_to_dict s))"
  unfolding json_ok_system_state system_state_ok_def by simp

text \<open>
  A snapshot survives its canonical document: writing it as canonical JSON, decoding the bytes
  with \<open>loads_object\<close> and rebuilding it with \<open>from_dict\<close> yields the same snapshot, its tools sorted
  by name, and the fingerprint is unchanged.
\<close>

theorem system_state_document_roundtrip:
  assumes "system_state_ok s"
  shows "\<exists>s'. bindE (loads_object (canonical (JObj (system_state_to_dict s))) ''state'')
      system_state_from_dict = Inr s' \<and>
    s' = s\<lparr>ss_tool_digests := sorted_items (ss_tool_digests s)\<rparr> \<and>
    fingerprint s' = fingerprint s"
proof -
  obtain d where "loads_object (canonical (JObj (system_state_to_dict s))) ''state'' = Inr d"
    and "stored d (system_state_to_dict s)"
    using loads_object_canonical [OF json_ok_system_state_to_dict [OF assms]] .
  moreover have "fingerprint (s\<lparr>ss_tool_digests := sorted_items (ss_tool_digests s)\<rparr>) = fingerprint s"
    by (simp add: fingerprint_def fingerprint_payload_def)
  ultimately show ?thesis
    using system_state_from_stored [OF assms] by simp
qed

definition sample_state :: system_state where
  "sample_state = \<lparr>ss_state_id = ''s1'', ss_captured_at = Aware 0, ss_agent_version = ''1'',
     ss_model = ''m'', ss_prompt_digest = ''p'', ss_tool_digests = [(''b'', ''2''), (''a'', ''1'')],
     ss_retrieval_digest = None, ss_memory_digest = Some ''q'', ss_policy_digest = None\<rparr>"

lemma sample_state_ok: "system_state_ok sample_state"
  by code_simp

lemma system_state_document_roundtrip_witness:
  "\<exists>s'. bindE (loads_object (canonical (JObj (system_state_to_dict sample_state))) ''state'')
      system_state_from_dict = Inr s' \<and>
    s' = sample_state\<lparr>ss_tool_digests := sorted_items (ss_tool_digests sample_state)\<rparr> \<and>
    fingerprint s' = fingerprint sample_state"
  by (rule system_state_document_roundtrip [OF sample_state_ok])

lemma fingerprint_identifies_behaviour_witness:
  "fingerprint sample_state =
     fingerprint (sample_state\<lparr>ss_state_id := ''s2'', ss_captured_at := Aware 7,
       ss_tool_digests := [(''a'', ''1''), (''b'', ''2'')]\<rparr>)"
  by (subst fingerprint_identifies_behaviour) code_simp+

end
