(* ===== verification/Events.thy ===== *)
theory Events
  imports JsonSupport
begin

text \<open>\<open>domain/events.py\<close>: the envelope of one event of a run.\<close>

record event_envelope =
  ev_run_id :: string
  ev_sequence :: int
  ev_occurred_at :: datetime
  ev_event_type :: string
  ev_actor :: string
  ev_name :: "string option"
  ev_state_id :: "string option"
  ev_payload_ref :: "string option"
  ev_metadata :: "(string, string) dict"

definition event_post_init :: "event_envelope \<Rightarrow> unit result" where
  "event_post_init e = guards [
     (blank (ev_run_id e), ValueError ''run_id''),
     (ev_sequence e < 0, ValueError ''sequence''),
     (blank (ev_event_type e), ValueError ''event_type''),
     (blank (ev_actor e), ValueError ''actor''),
     (\<not> tz_aware (ev_occurred_at e), ValueError ''occurred_at'')]"

definition event_to_dict :: "event_envelope \<Rightarrow> payload" where
  "event_to_dict e = [
     (''run_id'', JStr (ev_run_id e)),
     (''sequence'', JInt (ev_sequence e)),
     (''occurred_at'', JStr (utc_iso (ev_occurred_at e))),
     (''event_type'', JStr (ev_event_type e)),
     (''actor'', JStr (ev_actor e)),
     (''name'', jopt_str (ev_name e)),
     (''state_id'', jopt_str (ev_state_id e)),
     (''payload_ref'', jopt_str (ev_payload_ref e)),
     (''metadata'', jdict (sorted_items (ev_metadata e)))]"

definition event_from_dict :: "payload \<Rightarrow> event_envelope result" where
  "event_from_dict d =
     (if missing_fields d [''run_id'', ''sequence'', ''occurred_at'', ''event_type'', ''actor''] \<noteq> []
      then Inl (ValueError ''missing'')
      else
        bindE (item d ''sequence'') (\<lambda>raw.
        bindE (require_int raw ''sequence'') (\<lambda>sequence.
        bindE (item_str d ''occurred_at'') (\<lambda>at.
        bindE (parse_datetime at ''occurred_at'') (\<lambda>occurred_at.
        bindE (string_mapping (get_or d ''metadata'' (JObj [])) ''metadata'') (\<lambda>metadata.
        bindE (item_str d ''run_id'') (\<lambda>run_id.
        bindE (item_str d ''event_type'') (\<lambda>event_type.
        bindE (item_str d ''actor'') (\<lambda>actor.
        construct event_post_init
          \<lparr>ev_run_id = run_id, ev_sequence = sequence, ev_occurred_at = occurred_at,
           ev_event_type = event_type, ev_actor = actor, ev_name = get_opt_str d ''name'',
           ev_state_id = get_opt_str d ''state_id'',
           ev_payload_ref = get_opt_str d ''payload_ref'', ev_metadata = metadata\<rparr>)))))))))"

definition event_ok :: "event_envelope \<Rightarrow> bool" where
  "event_ok e = (event_post_init e = Inr () \<and> dict_ok (ev_metadata e) \<and> dt_ok (ev_occurred_at e))"

lemma json_ok_event_to_dict: "event_ok e \<Longrightarrow> json_ok (\<lambda>s. True) (JObj (event_to_dict e))"
  by (simp add: event_to_dict_def event_ok_def dict_ok_def)

lemma event_from_stored:
  assumes "event_ok e" "stored d (event_to_dict e)"
  shows "event_from_dict d = Inr (e\<lparr>ev_metadata := sorted_items (ev_metadata e)\<rparr>)"
proof -
  obtain t where at: "ev_occurred_at e = Aware t" "in_range t"
    using assms(1) by (cases "ev_occurred_at e") (auto simp: event_ok_def event_post_init_def dt_ok_def)
  show ?thesis
    using assms(1) at
    by (simp add: event_from_dict_def missing_fields_def item_str_def get_or_def
        storedD [OF assms(2)] event_to_dict_def require_int_def
        parse_datetime_utc_iso construct_ok event_ok_def event_post_init_def)
qed

text \<open>
  An event survives its canonical document, its metadata sorted by key.
\<close>

theorem event_document_roundtrip:
  assumes "event_ok e"
  shows "bindE (loads_object (canonical (JObj (event_to_dict e))) ''event'') event_from_dict =
    Inr (e\<lparr>ev_metadata := sorted_items (ev_metadata e)\<rparr>)"
proof -
  obtain d where "loads_object (canonical (JObj (event_to_dict e))) ''event'' = Inr d"
    and "stored d (event_to_dict e)"
    using loads_object_canonical [OF json_ok_event_to_dict [OF assms]] .
  with event_from_stored [OF assms] show ?thesis by simp
qed

definition sample_event :: event_envelope where
  "sample_event = \<lparr>ev_run_id = ''r'', ev_sequence = 3, ev_occurred_at = Aware 86400000001,
     ev_event_type = ''tool'', ev_actor = ''agent'', ev_name = Some ''n'', ev_state_id = None,
     ev_payload_ref = None, ev_metadata = [(''k'', ''v''), (''a'', ''w'')]\<rparr>"

lemma sample_event_ok: "event_ok sample_event"
  by code_simp

lemma event_document_roundtrip_witness:
  "bindE (loads_object (canonical (JObj (event_to_dict sample_event))) ''event'') event_from_dict =
    Inr (sample_event\<lparr>ev_metadata := [(''a'', ''w''), (''k'', ''v'')]\<rparr>)"
proof -
  have "sorted_items (ev_metadata sample_event) = [(''a'', ''w''), (''k'', ''v'')]"
    by code_simp
  with event_document_roundtrip [OF sample_event_ok] show ?thesis by simp
qed

text \<open>A mapping that \<open>from_dict\<close> accepts has the required keys and a non-negative integer sequence.\<close>

lemma event_from_dict_ok:
  assumes "event_from_dict d = Inr e"
  shows "event_post_init e = Inr ()" and "map_of d ''sequence'' = Some (JInt (ev_sequence e))"
    and "0 \<le> ev_sequence e"
proof -
  show p: "event_post_init e = Inr ()"
    using assms by (auto simp: event_from_dict_def construct_Inr_iff split: if_splits)
  then show "0 \<le> ev_sequence e"
    by (simp add: event_post_init_def)
  show "map_of d ''sequence'' = Some (JInt (ev_sequence e))"
    using assms by (auto simp: event_from_dict_def construct_Inr_iff item_def require_int_def
        split: if_splits option.splits json.splits)
qed

end
