(* ===== verification/ReliabilityEvidence.thy ===== *)
theory ReliabilityEvidence
  imports JsonSupport
begin

text \<open>
  \<open>domain/reliability_evidence.py\<close>: references to artifacts owned by other subsystems, and the
  chain that binds a run, its evidence, its verification and reconciliation status and the decision
  taken on it. The decision gate of \<open>__post_init__\<close> and the digest check of \<open>from_dict\<close> are the two
  contracts the rest of the program relies on.
\<close>

section \<open>Evidence references\<close>

datatype evidence_reference =
  EvidenceReference (er_kind: string) (er_identity: string) (er_digest: string)
    (er_source: "string option") (er_receipt_ref: "evidence_reference option")

definition evidence_reference_post_init :: "evidence_reference \<Rightarrow> unit result" where
  "evidence_reference_post_init r = guards ([
     (blank (er_kind r) \<or> blank (er_identity r), ValueError ''kind and identity''),
     (\<not> is_sha256 (er_digest r), ValueError ''digest''),
     (blank_if_given (er_source r), ValueError ''source'')] @
     (case er_receipt_ref r of
        None \<Rightarrow> []
      | Some q \<Rightarrow> [
          (er_kind r \<noteq> ''evidence'', ValueError ''receipt_ref of evidence only''),
          (er_kind q \<noteq> ''receipt'', ValueError ''receipt_ref kind''),
          (er_receipt_ref q \<noteq> None, ValueError ''nested receipt'')]))"

fun ref_to_dict :: "evidence_reference \<Rightarrow> payload" where
  "ref_to_dict (EvidenceReference kind identity digest source receipt) = [
     (''kind'', JStr kind),
     (''identity'', JStr identity),
     (''digest'', JStr digest),
     (''source'', jopt_str source),
     (''receipt_ref'', case receipt of None \<Rightarrow> JNull | Some q \<Rightarrow> JObj (ref_to_dict q))]"

definition jref :: "evidence_reference \<Rightarrow> json" where
  "jref r = JObj (ref_to_dict r)"

text \<open>
  The local function \<open>ref\<close> of \<open>from_dict\<close>. It calls itself at most once, with
  \<open>allow_receipt=False\<close>; \<open>read_receipt\<close> is what it does with a receipt that is present.
\<close>

definition read_ref_with ::
    "(json \<Rightarrow> string \<Rightarrow> evidence_reference result) \<Rightarrow> json \<Rightarrow> string \<Rightarrow> evidence_reference result" where
  "read_ref_with read_receipt v name =
     (case v of
        JObj d \<Rightarrow>
          bindE (get_opt d ''receipt_ref'' (\<lambda>w. read_receipt w (name @ ''.receipt_ref''))) (\<lambda>receipt.
          bindE (item_str d ''kind'') (\<lambda>kind.
          bindE (item_str d ''identity'') (\<lambda>identity.
          bindE (item_str d ''digest'') (\<lambda>digest.
          construct evidence_reference_post_init
            (EvidenceReference kind identity digest (get_opt_str d ''source'') receipt)))))
      | _ \<Rightarrow> Inl (ValueError name))"

definition read_receipt_ref :: "json \<Rightarrow> string \<Rightarrow> evidence_reference result" where
  "read_receipt_ref = read_ref_with (\<lambda>v name. Inl (ValueError ''nested receipt''))"

definition read_ref :: "json \<Rightarrow> string \<Rightarrow> evidence_reference result" where
  "read_ref = read_ref_with read_receipt_ref"

section \<open>Chains\<close>

record chain =
  rc_chain_id :: string
  rc_run :: evidence_reference
  rc_state :: evidence_reference
  rc_evidence :: "evidence_reference list"
  rc_provenance :: evidence_reference
  rc_integrity :: evidence_reference
  rc_verification_status :: string
  rc_reliability_state :: string
  rc_reconciliation_state :: string
  rc_reconciliation_ref :: "evidence_reference option"
  rc_recovery_ref :: "evidence_reference option"
  rc_attestation_ref :: "evidence_reference option"
  rc_decision_basis_ref :: "evidence_reference option"
  rc_comparison_ref :: "evidence_reference option"
  rc_reconciliation_binding_ref :: "evidence_reference option"
  rc_decision :: string
  rc_decision_rationale :: "string list"

definition kind_not_in :: "evidence_reference option \<Rightarrow> string list \<Rightarrow> bool" where
  "kind_not_in r kinds = (case r of None \<Rightarrow> False | Some q \<Rightarrow> er_kind q \<notin> set kinds)"

definition chain_post_init :: "chain \<Rightarrow> unit result" where
  "chain_post_init c = guards [
     (blank (rc_chain_id c), ValueError ''chain_id''),
     (er_kind (rc_run c) \<noteq> ''run'', ValueError ''run''),
     (er_kind (rc_state c) \<noteq> ''state'', ValueError ''state''),
     (er_kind (rc_provenance c) \<noteq> ''provenance'', ValueError ''provenance''),
     (er_kind (rc_integrity c) \<noteq> ''integrity'', ValueError ''integrity''),
     (kind_not_in (rc_decision_basis_ref c) [''decision-basis'', ''policy''],
        ValueError ''decision_basis_ref''),
     (kind_not_in (rc_comparison_ref c) [''comparison''], ValueError ''comparison_ref''),
     (kind_not_in (rc_reconciliation_binding_ref c) [''reconciliation-binding''],
        ValueError ''reconciliation_binding_ref''),
     (rc_evidence c = [], ValueError ''evidence''),
     (rc_verification_status c \<notin> {''unverified'', ''verified'', ''failed''},
        ValueError ''verification_status''),
     (rc_reliability_state c \<notin> {''unknown'', ''reliable'', ''degraded'', ''unreliable'', ''recovered''},
        ValueError ''reliability_state''),
     (rc_reconciliation_state c \<notin>
        {''pending'', ''verified'', ''stale'', ''missing'', ''invalid'', ''recovered''},
        ValueError ''reconciliation_state''),
     (rc_decision c \<notin> {''undecided'', ''accept'', ''review'', ''reject''}, ValueError ''decision''),
     (rc_reconciliation_state c = ''verified'' \<and> rc_verification_status c \<noteq> ''verified'',
        ValueError ''verified reconciliation''),
     (rc_decision c = ''accept'' \<and>
        \<not> (rc_verification_status c = ''verified'' \<and>
           rc_reconciliation_state c \<in> {''verified'', ''recovered''} \<and>
           rc_reliability_state c \<in> {''reliable'', ''recovered''}),
        ValueError ''accept''),
     (rc_decision c = ''reject'' \<and> rc_reliability_state c \<notin> {''unreliable'', ''degraded''},
        ValueError ''reject'')]"

definition chain_payload :: "chain \<Rightarrow> payload" where
  "chain_payload c = [
     (''chain_id'', JStr (rc_chain_id c)),
     (''run'', jref (rc_run c)),
     (''state'', jref (rc_state c)),
     (''evidence'', JArr (map jref (rc_evidence c))),
     (''provenance'', jref (rc_provenance c)),
     (''integrity'', jref (rc_integrity c)),
     (''verification_status'', JStr (rc_verification_status c)),
     (''reliability_state'', JStr (rc_reliability_state c)),
     (''reconciliation_state'', JStr (rc_reconciliation_state c)),
     (''reconciliation_ref'', jopt jref (rc_reconciliation_ref c)),
     (''recovery_ref'', jopt jref (rc_recovery_ref c)),
     (''attestation_ref'', jopt jref (rc_attestation_ref c)),
     (''decision_basis_ref'', jopt jref (rc_decision_basis_ref c)),
     (''comparison_ref'', jopt jref (rc_comparison_ref c)),
     (''reconciliation_binding_ref'', jopt jref (rc_reconciliation_binding_ref c)),
     (''decision'', JStr (rc_decision c)),
     (''decision_rationale'', jstrs (rc_decision_rationale c))]"

definition chain_digest :: "chain \<Rightarrow> string" where
  "chain_digest c = digest_of (chain_payload c)"

definition chain_to_dict :: "chain \<Rightarrow> payload" where
  "chain_to_dict c =
     [(''format_version'', JStr ''1'')] @ chain_payload c @ [(''digest'', JStr (chain_digest c))]"

text \<open>\<open>cls(...)\<close>: the arguments in source order, then the constructor.\<close>

definition read_chain :: "payload \<Rightarrow> chain result" where
  "read_chain d =
     bindE (item_str d ''chain_id'') (\<lambda>chain_id.
     bindE (bindE (item d ''run'') (\<lambda>v. read_ref v ''run'')) (\<lambda>run.
     bindE (bindE (item d ''state'') (\<lambda>v. read_ref v ''state'')) (\<lambda>state.
     bindE (bindE (iter_json (get_or d ''evidence'' (JArr [])))
       (mapE (\<lambda>v. read_ref v ''evidence''))) (\<lambda>evidence.
     bindE (bindE (item d ''provenance'') (\<lambda>v. read_ref v ''provenance'')) (\<lambda>provenance.
     bindE (bindE (item d ''integrity'') (\<lambda>v. read_ref v ''integrity'')) (\<lambda>integrity.
     bindE (get_opt d ''reconciliation_ref'' (\<lambda>v. read_ref v ''reconciliation_ref'')) (\<lambda>reconciliation.
     bindE (get_opt d ''recovery_ref'' (\<lambda>v. read_ref v ''recovery_ref'')) (\<lambda>recovery.
     bindE (get_opt d ''attestation_ref'' (\<lambda>v. read_ref v ''attestation_ref'')) (\<lambda>attestation.
     bindE (get_opt d ''decision_basis_ref'' (\<lambda>v. read_ref v ''decision_basis_ref'')) (\<lambda>basis.
     bindE (get_opt d ''comparison_ref'' (\<lambda>v. read_ref v ''comparison_ref'')) (\<lambda>comparison.
     bindE (get_opt d ''reconciliation_binding_ref'' (\<lambda>v. read_ref v ''reconciliation_binding_ref''))
       (\<lambda>binding.
     bindE (string_sequence (get_or d ''decision_rationale'' (JArr [])) ''decision_rationale'')
       (\<lambda>rationale.
     construct chain_post_init
       \<lparr>rc_chain_id = chain_id, rc_run = run, rc_state = state, rc_evidence = evidence,
        rc_provenance = provenance, rc_integrity = integrity,
        rc_verification_status = get_str d ''verification_status'' ''unverified'',
        rc_reliability_state = get_str d ''reliability_state'' ''unknown'',
        rc_reconciliation_state = get_str d ''reconciliation_state'' ''pending'',
        rc_reconciliation_ref = reconciliation, rc_recovery_ref = recovery,
        rc_attestation_ref = attestation, rc_decision_basis_ref = basis,
        rc_comparison_ref = comparison, rc_reconciliation_binding_ref = binding,
        rc_decision = get_str d ''decision'' ''undecided'',
        rc_decision_rationale = rationale\<rparr>)))))))))))))"

definition chain_from_dict :: "payload \<Rightarrow> chain result" where
  "chain_from_dict d =
     bindE (check_format_version d) (\<lambda>_.
     bindE (read_chain d) (\<lambda>c.
       let supplied = get_str d ''digest'' []
       in if supplied \<noteq> [] \<and> supplied \<noteq> chain_digest c
          then Inl (ValueError ''digest mismatch'') else Inr c))"

section \<open>References are read back\<close>

fun reference_ok :: "evidence_reference \<Rightarrow> bool" where
  "reference_ok (EvidenceReference kind identity digest source receipt) =
     (evidence_reference_post_init (EvidenceReference kind identity digest source receipt) = Inr () \<and>
      (case receipt of None \<Rightarrow> True | Some q \<Rightarrow> reference_ok q))"

lemma reference_ok_post_init: "reference_ok r \<Longrightarrow> evidence_reference_post_init r = Inr ()"
  by (cases r) simp

lemma reference_ok_receipt: "reference_ok r \<Longrightarrow> er_receipt_ref r = Some q \<Longrightarrow>
    reference_ok q \<and> er_receipt_ref q = None"
  by (cases r) (auto simp: evidence_reference_post_init_def)

lemma json_ok_jref [simp]: "json_ok (\<lambda>s. True) (jref r)"
  unfolding jref_def
  by (induction r rule: ref_to_dict.induct) (auto split: option.splits)

lemma jref_not_JNull [simp]: "jref r \<noteq> JNull"
  by (simp add: jref_def)

lemma read_ref_with_stored:
  assumes "stored d (ref_to_dict r)" "reference_ok r"
    and "\<And>q n. er_receipt_ref r = Some q \<Longrightarrow> read (sort_keys (jref q)) n = Inr q"
  shows "read_ref_with read (JObj d) name = Inr r"
proof -
  obtain k i h s q where r: "r = EvidenceReference k i h s q" by (cases r)
  have "map_of d ''receipt_ref'' = Some (sort_keys (jopt jref q))"
    unfolding storedD [OF assms(1)] r by (simp add: jopt_def jref_def split: option.splits)
  then have "get_opt d ''receipt_ref'' (\<lambda>w. read w (name @ ''.receipt_ref'')) = Inr q"
    by (rule get_opt_stored) (use assms(3) r in \<open>simp add: jref_def\<close>)
  moreover have "item_str d ''kind'' = Inr k" "item_str d ''identity'' = Inr i"
    "item_str d ''digest'' = Inr h" "get_opt_str d ''source'' = s"
    by (simp_all add: item_str_def storedD [OF assms(1)] r)
  ultimately show ?thesis
    using reference_ok_post_init [OF assms(2)] r
    by (simp add: read_ref_with_def construct_ok)
qed

lemma read_receipt_ref_stored:
  assumes "reference_ok q" "er_receipt_ref q = None"
  shows "read_receipt_ref (sort_keys (jref q)) name = Inr q"
  unfolding read_receipt_ref_def jref_def sort_keys_JObj
  by (rule read_ref_with_stored)
    (use assms stored_sorted_payload json_ok_jref [of q] in \<open>simp_all add: jref_def\<close>)

lemma read_ref_stored:
  assumes "reference_ok r"
  shows "read_ref (sort_keys (jref r)) name = Inr r"
proof -
  have "stored (sorted_payload (ref_to_dict r)) (ref_to_dict r)"
    using stored_sorted_payload json_ok_jref [of r] by (simp add: jref_def)
  then show ?thesis
    unfolding read_ref_def jref_def sort_keys_JObj
    by (rule read_ref_with_stored)
      (use assms reference_ok_receipt [OF assms] in \<open>simp_all add: read_receipt_ref_stored\<close>)
qed

lemma read_ref_ok:
  assumes "read_ref v name = Inr r"
  shows "reference_ok r"
proof -
  have *: "reference_ok q" if "read_receipt_ref w n = Inr q" for w n q
    using that
    by (auto simp: read_receipt_ref_def read_ref_with_def construct_Inr_iff get_opt_def
        split: json.splits option.splits)
  show ?thesis
    using assms
    by (auto simp: read_ref_def read_ref_with_def construct_Inr_iff get_opt_def dest: *
        split: json.splits option.splits)
qed

section \<open>Chains are read back\<close>

definition chain_references :: "chain \<Rightarrow> evidence_reference list" where
  "chain_references c =
     [rc_run c, rc_state c] @ rc_evidence c @ [rc_provenance c, rc_integrity c] @
     concat (map (case_option [] (\<lambda>r. [r]))
       [rc_reconciliation_ref c, rc_recovery_ref c, rc_attestation_ref c, rc_decision_basis_ref c,
        rc_comparison_ref c, rc_reconciliation_binding_ref c])"

lemma chain_references_ok:
  "list_all reference_ok (chain_references c) \<longleftrightarrow>
     reference_ok (rc_run c) \<and> reference_ok (rc_state c) \<and> list_all reference_ok (rc_evidence c) \<and>
     reference_ok (rc_provenance c) \<and> reference_ok (rc_integrity c) \<and>
     list_all (case_option True reference_ok)
       [rc_reconciliation_ref c, rc_recovery_ref c, rc_attestation_ref c, rc_decision_basis_ref c,
        rc_comparison_ref c, rc_reconciliation_binding_ref c]"
proof -
  have "list_all reference_ok (case_option [] (\<lambda>r. [r]) v) = case_option True reference_ok v" for v
    by (cases v) simp_all
  then show ?thesis
    by (simp add: chain_references_def)
qed

definition chain_ok :: "chain \<Rightarrow> bool" where
  "chain_ok c = (chain_post_init c = Inr () \<and> list_all reference_ok (chain_references c))"

lemma json_ok_jopt_jref [simp]: "json_ok (\<lambda>s. True) (jopt jref v)"
  by (simp add: jopt_def split: option.splits)

lemma json_ok_chain_payload [simp]: "json_ok (\<lambda>s. True) (JObj (chain_payload c))"
  by (simp add: chain_payload_def)

lemma json_ok_chain_to_dict [simp]: "json_ok (\<lambda>s. True) (JObj (chain_to_dict c))"
  by (simp add: chain_to_dict_def) (simp add: chain_payload_def)

lemma chain_get_opt:
  assumes "chain_ok c" "map_of d k = Some (sort_keys (jopt jref v))"
    and "case v of None \<Rightarrow> True | Some r \<Rightarrow> r \<in> set (chain_references c)"
  shows "get_opt d k (\<lambda>v. read_ref v name) = Inr v"
proof (rule get_opt_stored [OF assms(2)])
  fix x
  assume "v = Some x"
  with assms(1,3) have "reference_ok x"
    by (simp add: chain_ok_def list_all_iff)
  then show "read_ref (sort_keys (jref x)) name = Inr x \<and> jref x \<noteq> JNull"
    by (simp add: read_ref_stored)
qed

definition chain_keys :: "string list" where
  "chain_keys = map fst (chain_payload undefined)"

lemma map_fst_chain_payload [simp]: "map fst (chain_payload c) = chain_keys"
  by (simp add: chain_keys_def chain_payload_def)

text \<open>Every argument of the constructor is read back.\<close>

lemma read_chain_stored:
  assumes ok: "chain_ok c"
    and d: "\<And>k. k \<in> set chain_keys \<Longrightarrow> map_of d k = map_option sort_keys (map_of (chain_payload c) k)"
  shows "read_chain d = Inr c"
proof -
  have k: "chain_keys = [''chain_id'', ''run'', ''state'', ''evidence'', ''provenance'', ''integrity'', ''verification_status'',
      ''reliability_state'', ''reconciliation_state'', ''reconciliation_ref'', ''recovery_ref'',
      ''attestation_ref'', ''decision_basis_ref'', ''comparison_ref'', ''reconciliation_binding_ref'',
      ''decision'', ''decision_rationale'']"
    by (simp add: chain_keys_def chain_payload_def)
  have look: "list_all (\<lambda>k. map_of d k = map_option sort_keys (map_of (chain_payload c) k)) chain_keys"
    using d by (simp add: list_all_iff)
  note look = look [unfolded k chain_payload_def, simplified]
  have refs: "\<And>r. r \<in> set (chain_references c) \<Longrightarrow> reference_ok r"
    using ok by (simp add: chain_ok_def list_all_iff)
  have ev: "mapE (\<lambda>v. read_ref v ''evidence'') (map (sort_keys \<circ> jref) (rc_evidence c)) =
      Inr (rc_evidence c)"
    unfolding mapE_map
    using mapE_Inr_id [of "rc_evidence c" "\<lambda>r. read_ref (sort_keys (jref r)) ''evidence''" id] refs
    by (simp add: read_ref_stored chain_references_def)
  have opts:
    "get_opt d ''reconciliation_ref'' (\<lambda>v. read_ref v n) = Inr (rc_reconciliation_ref c)"
    "get_opt d ''recovery_ref'' (\<lambda>v. read_ref v n) = Inr (rc_recovery_ref c)"
    "get_opt d ''attestation_ref'' (\<lambda>v. read_ref v n) = Inr (rc_attestation_ref c)"
    "get_opt d ''decision_basis_ref'' (\<lambda>v. read_ref v n) = Inr (rc_decision_basis_ref c)"
    "get_opt d ''comparison_ref'' (\<lambda>v. read_ref v n) = Inr (rc_comparison_ref c)"
    "get_opt d ''reconciliation_binding_ref'' (\<lambda>v. read_ref v n) = Inr (rc_reconciliation_binding_ref c)"
    for n
    using look by (auto intro!: chain_get_opt [OF ok] simp: chain_references_def split: option.splits)
  have one: "read_ref (sort_keys (jref (rc_run c))) n = Inr (rc_run c)"
    "read_ref (sort_keys (jref (rc_state c))) n = Inr (rc_state c)"
    "read_ref (sort_keys (jref (rc_provenance c))) n = Inr (rc_provenance c)"
    "read_ref (sort_keys (jref (rc_integrity c))) n = Inr (rc_integrity c)" for n
    by (simp_all add: read_ref_stored refs chain_references_def)
  show ?thesis
    using ok
    by (simp add: read_chain_def item_str_def get_or_def get_str_def look ev opts one iter_json_def
        chain_ok_def chain_post_init_def construct_ok)
qed

lemma chain_from_dict_stored:
  assumes ok: "chain_ok c"
    and d: "\<And>k. k \<in> set chain_keys \<Longrightarrow> map_of d k = map_option sort_keys (map_of (chain_payload c) k)"
    and "map_of d ''digest'' \<in> {None, Some (JStr []), Some (JStr (chain_digest c))}"
    and "map_of d ''format_version'' \<in> {None, Some JNull, Some (JStr ''1'')}"
  shows "chain_from_dict d = Inr c"
  using assms(3,4)
  by (auto simp: chain_from_dict_def check_format_version_def read_chain_stored [OF ok d] get_str_def get_or_def)

lemma chain_from_dict_to_dict:
  assumes "chain_ok c" "stored d (chain_to_dict c)"
  shows "chain_from_dict d = Inr c"
proof -
  have "k \<in> set chain_keys \<Longrightarrow> map_of (chain_to_dict c) k = map_of (chain_payload c) k" for k
    by (auto simp: chain_keys_def chain_payload_def chain_to_dict_def)
  with assms(2) show ?thesis
    by (intro chain_from_dict_stored [OF assms(1)])
      (simp_all add: storedD chain_to_dict_def chain_payload_def)
qed

lemma stored_sorted_chain: "stored (sorted_payload (chain_to_dict c)) (chain_to_dict c)"
  by (simp add: stored_sorted_payload)

lemma chain_digest_inject:
  assumes "chain_digest c = chain_digest c'" "chain_ok c" "chain_ok c'"
  shows "c = c' \<or> digest_collision (chain_payload c) (chain_payload c')"
proof (cases "digest_collision (chain_payload c) (chain_payload c')")
  case False
  with digest_of_inject [of "chain_payload c" "chain_payload c'"] assms(1)
  have *: "map_option sort_keys (map_of (chain_payload c) k) =
      map_option sort_keys (map_of (chain_payload c') k)" for k
    by (simp add: chain_digest_def)
  have d: "stored (sorted_payload (chain_payload c)) (chain_payload c)"
    by (simp add: stored_sorted_payload)
  have "read_chain (sorted_payload (chain_payload c)) = Inr c"
    by (rule read_chain_stored [OF assms(2)]) (simp add: storedD [OF d])
  moreover have "read_chain (sorted_payload (chain_payload c)) = Inr c'"
    by (rule read_chain_stored [OF assms(3)]) (simp add: storedD [OF d] *)
  ultimately show ?thesis by simp
qed simp

lemma chain_from_dict_Inr:
  assumes "chain_from_dict d = Inr c"
  shows "chain_ok c" and "get_str d ''digest'' [] \<in> {[], chain_digest c}" and "read_chain d = Inr c"
proof -
  have *: "list_all reference_ok rs" if "mapE (\<lambda>v. read_ref v n) vs = Inr rs" for rs vs n
    using that by (auto simp: mapE_Inr_iff list_all_length list_all2_conv_all_nth intro: read_ref_ok)
  have **: "case_option True reference_ok r" if "get_opt d k (\<lambda>v. read_ref v n) = Inr r" for k n r
    using that by (auto simp: get_opt_def split: option.splits json.splits dest: read_ref_ok)
  show r: "read_chain d = Inr c" and "get_str d ''digest'' [] \<in> {[], chain_digest c}"
    using assms by (auto simp: chain_from_dict_def Let_def split: if_splits)
  from r show "chain_ok c"
    unfolding read_chain_def chain_ok_def chain_references_ok
    by (elim bindE_InrE) (simp add: construct_Inr_iff read_ref_ok [of _ "''run''"]
        read_ref_ok [of _ "''state''"] read_ref_ok [of _ "''provenance''"]
        read_ref_ok [of _ "''integrity''"] * **)
qed

section \<open>The contracts of a chain\<close>

text \<open>
  A chain survives its persisted form, the canonical document of \<open>to_dict\<close>: decoding the bytes
  and rebuilding the chain, with its format marker and its digest checked on the way, gives back
  the very same chain.
\<close>

theorem chain_document_roundtrip:
  assumes "chain_ok c"
  shows "bindE (loads_object (canonical (JObj (chain_to_dict c))) field) chain_from_dict = Inr c"
proof -
  obtain d where "loads_object (canonical (JObj (chain_to_dict c))) field = Inr d"
    and "stored d (chain_to_dict c)"
    using loads_object_canonical [OF json_ok_chain_to_dict] .
  with chain_from_dict_to_dict [OF assms] show ?thesis by simp
qed

text \<open>
  The digest identifies the whole chain, references and rationale included: two valid chains
  have one digest only if they are equal, or their canonical payloads are a SHA-256 collision.
\<close>

theorem chain_digest_identifies:
  assumes "chain_ok c" "chain_ok c'"
  shows "chain_digest c = chain_digest c' \<longleftrightarrow>
    c = c' \<or> digest_collision (chain_payload c) (chain_payload c')"
  using chain_digest_inject [of c c'] assms
  by (auto simp: chain_digest_def digest_of_def digest_collision_def collision_def)

text \<open>
  A persisted chain is tamper-evident. If a document still carries the digest of the chain
  \<open>c\<close> and is accepted by \<open>from_dict\<close>, then it is read as \<open>c\<close> itself, or a SHA-256 collision has been
  found: no edit of any other field of the document goes unnoticed.
\<close>

theorem chain_tamper_evident:
  assumes "chain_ok c" "map_of d ''digest'' = Some (JStr (chain_digest c))"
    and "chain_from_dict d = Inr c'"
  shows "c' = c \<or> digest_collision (chain_payload c') (chain_payload c)"
proof -
  have "chain_digest c' = chain_digest c"
    using chain_from_dict_Inr(2) [OF assms(3)] assms(2)
    by (auto simp: get_str_def get_or_def chain_digest_def)
  then show ?thesis
    using chain_digest_inject [of c' c] chain_from_dict_Inr(1) [OF assms(3)] assms(1) by simp
qed

text \<open>
  C2: the decision gate. Whatever mapping \<open>from_dict\<close> accepts, an accept decision rests on verified
  evidence, a completed reconciliation and a reliable or recovered state, a reject decision on an
  unreliable or degraded state, a verified reconciliation on verified evidence; there is at least
  one piece of evidence, and only evidence references are bound to a receipt, which has no receipt
  of its own.
\<close>

theorem chain_decision_gate:
  assumes "chain_from_dict d = Inr c"
  shows "(rc_decision c = ''accept'' \<longrightarrow>
      rc_verification_status c = ''verified'' \<and>
      rc_reconciliation_state c \<in> {''verified'', ''recovered''} \<and>
      rc_reliability_state c \<in> {''reliable'', ''recovered''}) \<and>
    (rc_decision c = ''reject'' \<longrightarrow> rc_reliability_state c \<in> {''unreliable'', ''degraded''}) \<and>
    (rc_reconciliation_state c = ''verified'' \<longrightarrow> rc_verification_status c = ''verified'') \<and>
    rc_evidence c \<noteq> [] \<and>
    list_all (\<lambda>r. is_sha256 (er_digest r) \<and>
      (case er_receipt_ref r of None \<Rightarrow> True
       | Some q \<Rightarrow> er_kind r = ''evidence'' \<and> er_kind q = ''receipt'' \<and> er_receipt_ref q = None))
      (chain_references c)"
proof -
  have ok: "chain_ok c" by (rule chain_from_dict_Inr(1) [OF assms])
  then have "chain_post_init c = Inr ()" by (simp add: chain_ok_def)
  moreover have "is_sha256 (er_digest r) \<and>
      (case er_receipt_ref r of None \<Rightarrow> True
       | Some q \<Rightarrow> er_kind r = ''evidence'' \<and> er_kind q = ''receipt'' \<and> er_receipt_ref q = None)"
    if "reference_ok r" for r
    using reference_ok_post_init [OF that]
    by (simp add: evidence_reference_post_init_def guards_append bindE_eq_Inr_iff split: option.splits)
  ultimately show ?thesis
    using ok by (simp add: chain_post_init_def chain_ok_def list_all_iff)
qed

definition sample_ref :: "string \<Rightarrow> evidence_reference" where
  "sample_ref kind = EvidenceReference kind ''id'' (replicate 64 CHR ''a'') None None"

definition sample_chain :: chain where
  "sample_chain = \<lparr>rc_chain_id = ''c'', rc_run = sample_ref ''run'', rc_state = sample_ref ''state'',
     rc_evidence = [EvidenceReference ''evidence'' ''e'' (replicate 64 CHR ''b'') (Some ''s'')
       (Some (sample_ref ''receipt''))],
     rc_provenance = sample_ref ''provenance'', rc_integrity = sample_ref ''integrity'',
     rc_verification_status = ''verified'', rc_reliability_state = ''reliable'',
     rc_reconciliation_state = ''verified'', rc_reconciliation_ref = None, rc_recovery_ref = None,
     rc_attestation_ref = Some (sample_ref ''attestation''), rc_decision_basis_ref = None,
     rc_comparison_ref = None, rc_reconciliation_binding_ref = None, rc_decision = ''accept'',
     rc_decision_rationale = [''ok'']\<rparr>"

lemma sample_chain_ok: "chain_ok sample_chain"
  by code_simp

lemma sample_chain_read: "chain_from_dict (sorted_payload (chain_to_dict sample_chain)) = Inr sample_chain"
  by (rule chain_from_dict_to_dict [OF sample_chain_ok stored_sorted_chain])

lemma sample_chain_digest:
  "map_of (sorted_payload (chain_to_dict sample_chain)) ''digest'' =
    Some (JStr (chain_digest sample_chain))"
  unfolding storedD [OF stored_sorted_chain] by (simp add: chain_to_dict_def chain_payload_def)

lemma chain_document_roundtrip_witness:
  "bindE (loads_object (canonical (JObj (chain_to_dict sample_chain))) ''chain'') chain_from_dict =
    Inr sample_chain"
  by (rule chain_document_roundtrip [OF sample_chain_ok])

lemma chain_digest_identifies_witness:
  "chain_digest sample_chain = chain_digest sample_chain"
  using chain_digest_identifies [OF sample_chain_ok sample_chain_ok] by simp

lemma chain_tamper_evident_witness:
  "\<exists>d c'. chain_from_dict d = Inr c' \<and>
    (c' = sample_chain \<or> digest_collision (chain_payload c') (chain_payload sample_chain))"
  using chain_tamper_evident [OF sample_chain_ok sample_chain_digest sample_chain_read]
    sample_chain_read by blast

lemma chain_decision_gate_witness:
  "rc_decision sample_chain = ''accept'' \<and> rc_verification_status sample_chain = ''verified''"
  using chain_decision_gate [OF sample_chain_read] by (simp add: sample_chain_def)

end
