(* ===== verification/Evidence.thy ===== *)
theory Evidence
  imports JsonSupport
begin

text \<open>
  \<open>domain/evidence.py\<close>: references to the evidence available to an agent and the manifest that
  collects them.
\<close>

record evidence_item =
  ei_evidence_id :: string
  ei_source :: string
  ei_digest :: "string option"
  ei_content_ref :: "string option"
  ei_metadata :: "(string, string) dict"
  ei_sensitivity :: string

definition evidence_item_post_init :: "evidence_item \<Rightarrow> unit result" where
  "evidence_item_post_init i = guards [
     (blank (ei_evidence_id i), ValueError ''evidence_id''),
     (blank (ei_source i), ValueError ''source''),
     (ei_digest i = None \<and> ei_content_ref i = None, ValueError ''digest or content_ref''),
     (ei_sensitivity i \<notin> {''public'', ''internal'', ''confidential'', ''restricted''},
        ValueError ''sensitivity'')]"

definition evidence_item_to_dict :: "evidence_item \<Rightarrow> payload" where
  "evidence_item_to_dict i = [
     (''evidence_id'', JStr (ei_evidence_id i)),
     (''source'', JStr (ei_source i)),
     (''digest'', jopt_str (ei_digest i)),
     (''content_ref'', jopt_str (ei_content_ref i)),
     (''metadata'', jdict (sorted_items (ei_metadata i))),
     (''sensitivity'', JStr (ei_sensitivity i))]"

definition evidence_item_from_dict :: "payload \<Rightarrow> evidence_item result" where
  "evidence_item_from_dict d =
     (if missing_fields d [''evidence_id'', ''source''] \<noteq> [] then Inl (ValueError ''missing'')
      else
        bindE (string_mapping (get_or d ''metadata'' (JObj [])) ''metadata'') (\<lambda>metadata.
        bindE (item_str d ''evidence_id'') (\<lambda>evidence_id.
        bindE (item_str d ''source'') (\<lambda>source.
        construct evidence_item_post_init
          \<lparr>ei_evidence_id = evidence_id, ei_source = source, ei_digest = get_opt_str d ''digest'',
           ei_content_ref = get_opt_str d ''content_ref'', ei_metadata = metadata,
           ei_sensitivity = get_str d ''sensitivity'' ''internal''\<rparr>))))"

record evidence_manifest =
  em_manifest_id :: string
  em_run_id :: string
  em_items :: "evidence_item list"

definition evidence_manifest_post_init :: "evidence_manifest \<Rightarrow> unit result" where
  "evidence_manifest_post_init m = guards [
     (blank (em_manifest_id m), ValueError ''manifest_id''),
     (blank (em_run_id m), ValueError ''run_id''),
     (\<not> distinct (map ei_evidence_id (em_items m)), ValueError ''unique evidence ids'')]"

definition evidence_manifest_to_dict :: "evidence_manifest \<Rightarrow> payload" where
  "evidence_manifest_to_dict m = [
     (''manifest_id'', JStr (em_manifest_id m)),
     (''run_id'', JStr (em_run_id m)),
     (''items'', JArr (map (\<lambda>i. JObj (evidence_item_to_dict i)) (em_items m)))]"

definition evidence_manifest_from_dict :: "payload \<Rightarrow> evidence_manifest result" where
  "evidence_manifest_from_dict d =
     (case get_or d ''items'' (JArr []) of
        JArr items \<Rightarrow>
          bindE (mapE (\<lambda>v. bindE (require_object v ''payload'') evidence_item_from_dict) items)
            (\<lambda>parsed.
          construct evidence_manifest_post_init
            \<lparr>em_manifest_id = get_str d ''manifest_id'' [], em_run_id = get_str d ''run_id'' [],
             em_items = parsed\<rparr>)
      | _ \<Rightarrow> Inl (ValueError ''items''))"

section \<open>Well-formed manifests\<close>

definition evidence_item_ok :: "evidence_item \<Rightarrow> bool" where
  "evidence_item_ok i = (evidence_item_post_init i = Inr () \<and> dict_ok (ei_metadata i))"

definition evidence_manifest_ok :: "evidence_manifest \<Rightarrow> bool" where
  "evidence_manifest_ok m =
     (evidence_manifest_post_init m = Inr () \<and> list_all evidence_item_ok (em_items m))"

definition sort_item :: "evidence_item \<Rightarrow> evidence_item" where
  "sort_item i = i\<lparr>ei_metadata := sorted_items (ei_metadata i)\<rparr>"

lemma json_ok_evidence_item: "evidence_item_ok i \<Longrightarrow> json_ok (\<lambda>s. True) (JObj (evidence_item_to_dict i))"
  by (simp add: evidence_item_to_dict_def evidence_item_ok_def dict_ok_def)

lemma evidence_item_from_stored:
  assumes "evidence_item_ok i" "stored d (evidence_item_to_dict i)"
  shows "evidence_item_from_dict d = Inr (sort_item i)"
  using assms(1)
  by (simp add: evidence_item_from_dict_def missing_fields_def item_str_def get_or_def get_str_def
      storedD [OF assms(2)] evidence_item_to_dict_def sort_item_def
      construct_ok evidence_item_ok_def evidence_item_post_init_def)

text \<open>An object nested in a document is read back as \<open>stored\<close> as well.\<close>

lemma evidence_item_nested:
  assumes "evidence_item_ok i"
  shows "bindE (require_object (sort_keys (JObj (evidence_item_to_dict i))) field)
    evidence_item_from_dict = Inr (sort_item i)"
  by (intro require_object_nested json_ok_evidence_item evidence_item_from_stored assms)

lemma json_ok_evidence_manifest:
  "evidence_manifest_ok m \<Longrightarrow> json_ok (\<lambda>s. True) (JObj (evidence_manifest_to_dict m))"
  by (auto simp: evidence_manifest_to_dict_def evidence_manifest_ok_def list_all_iff
      json_ok_evidence_item)

lemma evidence_manifest_from_stored:
  assumes "evidence_manifest_ok m" "stored d (evidence_manifest_to_dict m)"
  shows "evidence_manifest_from_dict d = Inr (m\<lparr>em_items := map sort_item (em_items m)\<rparr>)"
proof -
  have "mapE (\<lambda>v. bindE (require_object v ''payload'') evidence_item_from_dict)
      (map (\<lambda>i. sort_keys (JObj (evidence_item_to_dict i))) (em_items m)) =
      Inr (map sort_item (em_items m))"
    using assms(1) unfolding mapE_map
    by (intro mapE_Inr_id evidence_item_nested) (simp add: evidence_manifest_ok_def list_all_iff)
  moreover have "map (\<lambda>i. ei_evidence_id (sort_item i)) = map ei_evidence_id"
    by (simp add: sort_item_def)
  ultimately show ?thesis
    using assms(1)
    by (simp add: evidence_manifest_from_dict_def storedD [OF assms(2)] get_or_def get_str_def
        evidence_manifest_to_dict_def construct_ok evidence_manifest_ok_def
        evidence_manifest_post_init_def comp_def del: sort_keys.simps(2))
qed

text \<open>
  A manifest survives its canonical document, the metadata of its items sorted by key; in
  particular the nested items are validated again by \<open>EvidenceItem.from_dict\<close>, and none is dropped,
  duplicated or reordered.
\<close>

theorem evidence_manifest_document_roundtrip:
  assumes "evidence_manifest_ok m"
  shows "bindE (loads_object (canonical (JObj (evidence_manifest_to_dict m))) ''manifest'')
      evidence_manifest_from_dict = Inr (m\<lparr>em_items := map sort_item (em_items m)\<rparr>)"
proof -
  obtain d where "loads_object (canonical (JObj (evidence_manifest_to_dict m))) ''manifest'' = Inr d"
    and "stored d (evidence_manifest_to_dict m)"
    using loads_object_canonical [OF json_ok_evidence_manifest [OF assms]] .
  with evidence_manifest_from_stored [OF assms] show ?thesis by simp
qed

definition sample_manifest :: evidence_manifest where
  "sample_manifest = \<lparr>em_manifest_id = ''m'', em_run_id = ''r'', em_items = [
     \<lparr>ei_evidence_id = ''e2'', ei_source = ''s'', ei_digest = Some ''d'', ei_content_ref = None,
      ei_metadata = [(''b'', ''1''), (''a'', ''2'')], ei_sensitivity = ''public''\<rparr>,
     \<lparr>ei_evidence_id = ''e1'', ei_source = ''s'', ei_digest = None, ei_content_ref = Some ''c'',
      ei_metadata = [], ei_sensitivity = ''restricted''\<rparr>]\<rparr>"

lemma sample_manifest_ok: "evidence_manifest_ok sample_manifest"
  by code_simp

lemma evidence_manifest_document_roundtrip_witness:
  "is_ok (bindE (loads_object (canonical (JObj (evidence_manifest_to_dict sample_manifest))) ''manifest'')
      evidence_manifest_from_dict)"
  unfolding evidence_manifest_document_roundtrip [OF sample_manifest_ok] by simp

end
