(* ===== verification/EvidenceReceipt.thy ===== *)
theory EvidenceReceipt
  imports ReliabilityEvidence Evidence
begin

text \<open>
  \<open>domain/evidence_receipt.py\<close>: the receipt that binds an externally produced artifact to its
  producer. The constructor fills in the receipt identity and the digest, and rejects given ones
  that differ.
\<close>

section \<open>Data\<close>

record receipt =
  rp_producer_type :: string
  rp_producer_id :: string
  rp_artifact_digest :: string
  rp_artifact_size :: int
  rp_captured_at :: datetime
  rp_source_ref :: string
  rp_source_event_id :: "string option"
  rp_producer_version :: "string option"
  rp_run_id :: "string option"
  rp_provenance_ref :: "evidence_reference option"
  rp_metadata :: "(string, string) dict"
  rp_receipt_id :: string
  rp_digest :: string

definition identity_payload :: "receipt \<Rightarrow> payload" where
  "identity_payload r = [
     (''producer_type'', JStr (rp_producer_type r)),
     (''producer_id'', JStr (rp_producer_id r)),
     (''producer_version'', jopt_str (rp_producer_version r)),
     (''source_ref'', JStr (rp_source_ref r)),
     (''source_event_id'', jopt_str (rp_source_event_id r)),
     (''artifact_digest'', JStr (rp_artifact_digest r)),
     (''artifact_size'', JInt (rp_artifact_size r)),
     (''run_id'', jopt_str (rp_run_id r)),
     (''provenance_ref'', jopt jref (rp_provenance_ref r)),
     (''metadata'', jdict (sorted_items (rp_metadata r)))]"

text \<open>What a receipt identity is computed from: the source event if there is one.\<close>

definition occurrence_payload :: "receipt \<Rightarrow> payload" where
  "occurrence_payload r =
     (case rp_source_event_id r of
        Some e \<Rightarrow> [
          (''producer_type'', JStr (rp_producer_type r)),
          (''producer_id'', JStr (rp_producer_id r)),
          (''source_event_id'', JStr e)]
      | None \<Rightarrow> identity_payload r)"

definition computed_receipt_id :: "receipt \<Rightarrow> string" where
  "computed_receipt_id r = digest_of (occurrence_payload r)"

definition receipt_payload :: "receipt \<Rightarrow> payload" where
  "receipt_payload r = identity_payload r @ [
     (''captured_at'', JStr (utc_iso (rp_captured_at r))),
     (''receipt_id'', JStr (rp_receipt_id r))]"

definition receipt_computed_digest :: "receipt \<Rightarrow> string" where
  "receipt_computed_digest r = digest_of (receipt_payload r)"

definition receipt_guards :: "receipt \<Rightarrow> unit result" where
  "receipt_guards r = guards [
     (blank (rp_producer_type r), ValueError ''producer_type''),
     (blank (rp_producer_id r), ValueError ''producer_id''),
     (blank (rp_source_ref r), ValueError ''source_ref''),
     (blank_if_given (rp_producer_version r), ValueError ''producer_version''),
     (blank_if_given (rp_source_event_id r), ValueError ''source_event_id''),
     (blank_if_given (rp_run_id r), ValueError ''run_id''),
     (\<not> is_sha256 (rp_artifact_digest r), ValueError ''artifact_digest''),
     (rp_artifact_size r < 0, ValueError ''artifact_size''),
     (\<not> tz_aware (rp_captured_at r), ValueError ''captured_at''),
     (list_ex (\<lambda>kv. blank (fst kv)) (rp_metadata r), ValueError ''metadata''),
     (kind_not_in (rp_provenance_ref r) [''provenance''], ValueError ''provenance_ref'')]"

definition make_receipt :: "receipt \<Rightarrow> receipt result" where
  "make_receipt r =
     bindE (receipt_guards r) (\<lambda>_.
       let computed_id = computed_receipt_id r
       in if rp_receipt_id r \<noteq> [] \<and> rp_receipt_id r \<noteq> computed_id
          then Inl (ValueError ''receipt_id'')
          else let r1 = r\<lparr>rp_receipt_id := computed_id\<rparr>;
                   computed_digest = receipt_computed_digest r1
               in if rp_digest r1 \<noteq> [] \<and> rp_digest r1 \<noteq> computed_digest
                  then Inl (ValueError ''digest'')
                  else Inr (r1\<lparr>rp_digest := computed_digest\<rparr>))"

section \<open>Operations\<close>

definition receipt_to_dict :: "receipt \<Rightarrow> payload" where
  "receipt_to_dict r =
     [(''format_version'', JStr ''1'')] @ receipt_payload r @ [(''digest'', JStr (rp_digest r))]"

definition receipt_reference :: "receipt \<Rightarrow> string option \<Rightarrow> evidence_reference result" where
  "receipt_reference r source =
     construct evidence_reference_post_init
       (EvidenceReference ''receipt'' (rp_receipt_id r) (rp_digest r) source None)"

definition artifact_reference :: "receipt \<Rightarrow> string option \<Rightarrow> evidence_reference result" where
  "artifact_reference r receipt_source =
     bindE (case receipt_source of
         None \<Rightarrow> Inr None
       | Some s \<Rightarrow> bindE (receipt_reference r (Some s)) (\<lambda>q. Inr (Some q))) (\<lambda>receipt_ref.
     construct evidence_reference_post_init
       (EvidenceReference ''evidence'' (rp_receipt_id r) (rp_artifact_digest r) None receipt_ref))"

definition put_opt :: "string \<Rightarrow> string option \<Rightarrow> (string, string) dict \<Rightarrow> (string, string) dict" where
  "put_opt k v d = (case v of None \<Rightarrow> d | Some x \<Rightarrow> AList.update k x d)"

definition to_evidence_item :: "receipt \<Rightarrow> string \<Rightarrow> evidence_item result" where
  "to_evidence_item r sensitivity =
     (let m0 = rp_metadata r;
          m1 = AList.update ''source_ref'' (rp_source_ref r)
                (AList.update ''producer_id'' (rp_producer_id r)
                 (AList.update ''producer_type'' (rp_producer_type r)
                  (AList.update ''receipt_id'' (rp_receipt_id r) m0)));
          m2 = put_opt ''source_event_id'' (rp_source_event_id r) m1;
          m3 = put_opt ''producer_version'' (rp_producer_version r) m2;
          m4 = put_opt ''run_id'' (rp_run_id r) m3
      in construct evidence_item_post_init
           \<lparr>ei_evidence_id = rp_receipt_id r,
            ei_source = rp_producer_type r @ '':'' @ rp_producer_id r,
            ei_digest = Some (rp_artifact_digest r),
            ei_content_ref = Some (''cas:'' @ rp_artifact_digest r),
            ei_metadata = m4, ei_sensitivity = sensitivity\<rparr>)"

text \<open>An evidence reference without its receipt, read from an object.\<close>

definition read_plain_ref :: "payload \<Rightarrow> evidence_reference option \<Rightarrow> evidence_reference result" where
  "read_plain_ref d receipt =
     bindE (item_str d ''kind'') (\<lambda>kind.
     bindE (item_str d ''identity'') (\<lambda>identity.
     bindE (item_str d ''digest'') (\<lambda>digest.
     construct evidence_reference_post_init
       (EvidenceReference kind identity digest (get_opt_str d ''source'') receipt))))"

definition read_provenance_ref :: "json \<Rightarrow> evidence_reference result" where
  "read_provenance_ref v =
     (case v of JObj d \<Rightarrow> read_plain_ref d None | _ \<Rightarrow> Inl (ValueError ''provenance_ref''))"

definition receipt_from_dict :: "payload \<Rightarrow> receipt result" where
  "receipt_from_dict d =
     bindE (check_format_version d) (\<lambda>_.
     bindE (string_mapping (get_or d ''metadata'' (JObj [])) ''metadata'') (\<lambda>metadata.
     bindE (get_opt d ''provenance_ref'' read_provenance_ref) (\<lambda>provenance_ref.
     bindE (item_str d ''producer_type'') (\<lambda>producer_type.
     bindE (item_str d ''producer_id'') (\<lambda>producer_id.
     bindE (item_str d ''artifact_digest'') (\<lambda>artifact_digest.
     bindE (bindE (item d ''artifact_size'') (\<lambda>v. require_int v ''artifact_size'')) (\<lambda>artifact_size.
     bindE (bindE (item_str d ''captured_at'') (\<lambda>t. parse_datetime t ''captured_at'')) (\<lambda>captured_at.
     bindE (item_str d ''source_ref'') (\<lambda>source_ref.
     make_receipt
       \<lparr>rp_producer_type = producer_type, rp_producer_id = producer_id,
        rp_artifact_digest = artifact_digest, rp_artifact_size = artifact_size,
        rp_captured_at = captured_at, rp_source_ref = source_ref,
        rp_source_event_id = get_opt_str d ''source_event_id'',
        rp_producer_version = get_opt_str d ''producer_version'',
        rp_run_id = get_opt_str d ''run_id'', rp_provenance_ref = provenance_ref,
        rp_metadata = metadata, rp_receipt_id = get_str d ''receipt_id'' [],
        rp_digest = get_str d ''digest'' []\<rparr>)))))))))"

text \<open>\<open>ExternalEvidenceReceipt.from_dict(json.loads(...))\<close> on the content of a file.\<close>

definition receipt_of_content :: "string \<Rightarrow> receipt result" where
  "receipt_of_content b =
     (if \<not> utf8_ok b then Inl (UnicodeDecodeError ''receipt'')
      else case loads b of
          None \<Rightarrow> Inl (JSONDecodeError ''receipt'')
        | Some (JObj d) \<Rightarrow> receipt_from_dict d
        | Some _ \<Rightarrow> Inl (AttributeError ''get''))"

text \<open>Equality of two receipts: the metadata is compared as a dictionary.\<close>

definition receipt_eq :: "receipt \<Rightarrow> receipt \<Rightarrow> bool" where
  "receipt_eq r s =
     (r\<lparr>rp_metadata := []\<rparr> = s\<lparr>rp_metadata := []\<rparr> \<and> dict_eq (rp_metadata r) (rp_metadata s))"

section \<open>Well-formed receipts\<close>

definition receipt_ok :: "receipt \<Rightarrow> bool" where
  "receipt_ok r =
     (receipt_guards r = Inr () \<and> rp_receipt_id r = computed_receipt_id r \<and>
      rp_digest r = receipt_computed_digest r \<and>
      dict_ok (rp_metadata r) \<and> dt_ok (rp_captured_at r) \<and>
      case_option True reference_ok (rp_provenance_ref r))"

definition sort_receipt :: "receipt \<Rightarrow> receipt" where
  "sort_receipt r = r\<lparr>rp_metadata := sorted_items (rp_metadata r)\<rparr>"

lemma payload_ignores [simp]:
  "identity_payload (r\<lparr>rp_receipt_id := i\<rparr>) = identity_payload r"
  "identity_payload (r\<lparr>rp_digest := h\<rparr>) = identity_payload r"
  "occurrence_payload (r\<lparr>rp_receipt_id := i\<rparr>) = occurrence_payload r"
  "occurrence_payload (r\<lparr>rp_digest := h\<rparr>) = occurrence_payload r"
  "receipt_payload (r\<lparr>rp_digest := h\<rparr>) = receipt_payload r"
  "receipt_guards (r\<lparr>rp_receipt_id := i\<rparr>) = receipt_guards r"
  "receipt_guards (r\<lparr>rp_digest := h\<rparr>) = receipt_guards r"
  by (simp_all add: identity_payload_def occurrence_payload_def receipt_payload_def
      receipt_guards_def split: option.split)

lemma make_receipt_Inr_iff:
  "make_receipt r = Inr r' \<longleftrightarrow>
     receipt_guards r = Inr () \<and>
     r' = r\<lparr>rp_receipt_id := computed_receipt_id r,
            rp_digest := receipt_computed_digest (r\<lparr>rp_receipt_id := computed_receipt_id r\<rparr>)\<rparr> \<and>
     (rp_receipt_id r = [] \<or> rp_receipt_id r = rp_receipt_id r') \<and>
     (rp_digest r = [] \<or> rp_digest r = rp_digest r')"
  by (auto simp: make_receipt_def Let_def bindE_eq_Inr_iff split: if_splits)

lemma sort_receipt_payloads [simp]:
  "identity_payload (sort_receipt r) = identity_payload r"
  "occurrence_payload (sort_receipt r) = occurrence_payload r"
  "receipt_payload (sort_receipt r) = receipt_payload r"
  by (simp_all add: sort_receipt_def identity_payload_def occurrence_payload_def receipt_payload_def
      split: option.split)

lemma sort_receipt_ok: "receipt_ok r \<Longrightarrow> receipt_ok (sort_receipt r)"
  by (simp add: receipt_ok_def computed_receipt_id_def receipt_computed_digest_def)
    (auto simp: sort_receipt_def receipt_guards_def dict_ok_def list_ex_iff sorted_items_def)

lemma make_receipt_fixed:
  assumes "receipt_ok r"
  shows "make_receipt r = Inr r"
proof -
  have "computed_receipt_id r = rp_receipt_id r" "receipt_computed_digest r = rp_digest r"
    using assms by (simp_all add: receipt_ok_def)
  with assms show ?thesis by (simp add: make_receipt_Inr_iff receipt_ok_def)
qed

lemma make_receipt_no_digest:
  assumes "receipt_ok r"
  shows "make_receipt (r\<lparr>rp_digest := []\<rparr>) = Inr r"
proof -
  have id: "computed_receipt_id r = rp_receipt_id r" and dg: "receipt_computed_digest r = rp_digest r"
    and g: "receipt_guards r = Inr ()"
    using assms by (simp_all add: receipt_ok_def)
  have "computed_receipt_id (r\<lparr>rp_digest := []\<rparr>) = rp_receipt_id r"
    unfolding id [symmetric] computed_receipt_id_def by simp
  moreover have "receipt_computed_digest (r\<lparr>rp_digest := []\<rparr>) = rp_digest r"
    unfolding dg [symmetric] receipt_computed_digest_def by simp
  ultimately show ?thesis
    using g by (simp add: make_receipt_Inr_iff)
qed

lemma make_receipt_ok:
  assumes "make_receipt r = Inr r'" "dict_ok (rp_metadata r)" "dt_ok (rp_captured_at r)"
    "case_option True reference_ok (rp_provenance_ref r)"
  shows "receipt_ok r'"
  using assms
  by (auto simp: make_receipt_Inr_iff receipt_ok_def receipt_computed_digest_def computed_receipt_id_def)

lemma json_ok_identity: "dict_ok (rp_metadata r) \<Longrightarrow> json_ok (\<lambda>s. True) (JObj (identity_payload r))"
  by (simp add: identity_payload_def dict_ok_def)

lemma json_ok_occurrence: "dict_ok (rp_metadata r) \<Longrightarrow> json_ok (\<lambda>s. True) (JObj (occurrence_payload r))"
  by (simp add: occurrence_payload_def json_ok_identity split: option.split)

lemma json_ok_receipt_payload: "dict_ok (rp_metadata r) \<Longrightarrow> json_ok (\<lambda>s. True) (JObj (receipt_payload r))"
  by (simp add: receipt_payload_def json_ok_identity) (simp add: identity_payload_def)

lemma json_ok_receipt_to_dict: "dict_ok (rp_metadata r) \<Longrightarrow> json_ok (\<lambda>s. True) (JObj (receipt_to_dict r))"
  by (simp add: receipt_to_dict_def json_ok_receipt_payload)
    (simp add: receipt_payload_def identity_payload_def)

section \<open>Receipts are read back\<close>

lemma read_plain_ref_stored:
  assumes "reference_ok r" "\<And>k. k \<in> {''kind'', ''identity'', ''digest'', ''source''} \<Longrightarrow>
      map_of d k = map_option sort_keys (map_of (ref_to_dict r) k)"
  shows "read_plain_ref d (er_receipt_ref r) = Inr r"
proof -
  obtain k i h s q where r: "r = EvidenceReference k i h s q" by (cases r)
  have "item_str d ''kind'' = Inr k" "item_str d ''identity'' = Inr i"
    "item_str d ''digest'' = Inr h" "get_opt_str d ''source'' = s"
    using assms(2) by (simp_all add: item_str_def r)
  then show ?thesis
    using reference_ok_post_init [OF assms(1)] r by (simp add: read_plain_ref_def construct_ok)
qed

lemma provenance_no_receipt: "reference_ok r \<Longrightarrow> er_kind r = ''provenance'' \<Longrightarrow> er_receipt_ref r = None"
  by (cases r) (auto simp: evidence_reference_post_init_def split: option.splits)

lemma read_provenance_ref_stored:
  assumes "reference_ok r" "er_kind r = ''provenance''"
  shows "read_provenance_ref (sort_keys (jref r)) = Inr r"
proof -
  have "stored (sorted_payload (ref_to_dict r)) (ref_to_dict r)"
    using stored_sorted_payload json_ok_jref [of r] by (simp add: jref_def)
  then have "read_plain_ref (sorted_payload (ref_to_dict r)) (er_receipt_ref r) = Inr r"
    by (intro read_plain_ref_stored [OF assms(1)]) (simp add: storedD)
  then show ?thesis
    unfolding read_provenance_ref_def jref_def sort_keys_JObj
    by (simp add: provenance_no_receipt [OF assms])
qed

text \<open>
  Reading a mapping that holds the payload of \<open>r\<close>, whatever receipt identity and digest it gives.
\<close>

definition receipt_keys :: "string list" where
  "receipt_keys = map fst (identity_payload undefined) @ [''captured_at'']"

lemma receipt_from_dict_stored:
  assumes ok: "receipt_ok r"
    and d: "\<And>k. k \<in> set receipt_keys \<Longrightarrow> map_of d k = map_option sort_keys (map_of (receipt_payload r) k)"
    and "map_of d ''format_version'' \<in> {None, Some JNull, Some (JStr ''1'')}"
    and "map_of d ''receipt_id'' = Some (JStr i)" "get_str d ''digest'' [] = h"
  shows "receipt_from_dict d = make_receipt (sort_receipt (r\<lparr>rp_receipt_id := i, rp_digest := h\<rparr>))"
proof -
  let ?s = "\<lparr>rp_producer_type = rp_producer_type r, rp_producer_id = rp_producer_id r,
         rp_artifact_digest = rp_artifact_digest r, rp_artifact_size = rp_artifact_size r,
         rp_captured_at = rp_captured_at r, rp_source_ref = rp_source_ref r,
         rp_source_event_id = rp_source_event_id r, rp_producer_version = rp_producer_version r,
         rp_run_id = rp_run_id r, rp_provenance_ref = rp_provenance_ref r,
         rp_metadata = sorted_items (rp_metadata r), rp_receipt_id = i, rp_digest = h\<rparr>"
  have look: "list_all (\<lambda>k. map_of d k = map_option sort_keys (map_of (receipt_payload r) k)) receipt_keys"
    using d by (simp add: list_all_iff)
  note look = look [unfolded receipt_keys_def receipt_payload_def identity_payload_def, simplified]
  obtain t where at: "rp_captured_at r = Aware t" "in_range t"
    using ok by (cases "rp_captured_at r") (auto simp: receipt_ok_def receipt_guards_def dt_ok_def)
  have "get_opt d ''provenance_ref'' read_provenance_ref = Inr (rp_provenance_ref r)"
    using look ok
    by (intro get_opt_stored [where j = jref])
      (auto simp: receipt_ok_def receipt_guards_def kind_not_in_def read_provenance_ref_stored)
  moreover have "check_format_version d = Inr ()"
    using assms(3) by (auto simp: check_format_version_def)
  moreover have "get_str d ''receipt_id'' [] = i"
    using assms(4) by (simp add: get_str_def get_or_def)
  ultimately have "receipt_from_dict d = make_receipt ?s"
    using look at assms(5)
    by (simp add: receipt_from_dict_def get_or_def item_str_def require_int_def
        parse_datetime_utc_iso)
  moreover have "?s = sort_receipt (r\<lparr>rp_receipt_id := i, rp_digest := h\<rparr>)"
    by (simp add: sort_receipt_def)
  ultimately show ?thesis by simp
qed

lemma receipt_from_dict_to_dict:
  assumes "receipt_ok r" "stored d (receipt_to_dict r)"
  shows "receipt_from_dict d = Inr (sort_receipt r)"
proof -
  have "\<And>k. k \<in> set receipt_keys \<Longrightarrow> map_of d k = map_option sort_keys (map_of (receipt_payload r) k)"
    by (auto simp: storedD [OF assms(2)] receipt_to_dict_def receipt_keys_def receipt_payload_def
        identity_payload_def)
  moreover have "map_of d ''format_version'' = Some (JStr ''1'')"
    "map_of d ''receipt_id'' = Some (JStr (rp_receipt_id r))" "get_str d ''digest'' [] = rp_digest r"
    by (simp_all add: storedD [OF assms(2)] receipt_to_dict_def receipt_payload_def
        identity_payload_def get_str_def get_or_def)
  ultimately have "receipt_from_dict d = make_receipt (sort_receipt r)"
    using receipt_from_dict_stored [OF assms(1), of d "rp_receipt_id r" "rp_digest r"] by simp
  then show ?thesis
    by (simp add: make_receipt_fixed sort_receipt_ok assms)
qed

lemma read_provenance_ref_ok: "read_provenance_ref v = Inr r \<Longrightarrow> reference_ok r"
  by (auto simp: read_provenance_ref_def read_plain_ref_def construct_Inr_iff split: json.splits)

lemma receipt_from_dict_ok:
  assumes "receipt_from_dict d = Inr r" "py_ok (JObj d)"
  shows "receipt_ok r" and "get_str d ''digest'' [] \<in> {[], rp_digest r}"
    and "get_str d ''receipt_id'' [] \<in> {[], rp_receipt_id r}"
proof -
  have prov: "case_option True reference_ok v"
    if "get_opt d k read_provenance_ref = Inr v" for k v
    using that by (auto simp: get_opt_def split: option.splits json.splits dest: read_provenance_ref_ok)
  show "receipt_ok r"
    using assms(1) unfolding receipt_from_dict_def
    by (elim bindE_InrE)
      (erule make_receipt_ok, simp_all add: prov string_mapping_ok [OF assms(2)] parse_datetime_ok)
  show "get_str d ''digest'' [] \<in> {[], rp_digest r}"
    using assms(1) unfolding receipt_from_dict_def
    by (elim bindE_InrE) (auto simp: make_receipt_Inr_iff)
  show "get_str d ''receipt_id'' [] \<in> {[], rp_receipt_id r}"
    using assms(1) unfolding receipt_from_dict_def
    by (elim bindE_InrE) (auto simp: make_receipt_Inr_iff)
qed

text \<open>A receipt is determined, up to the order of its metadata, by its digest.\<close>

lemma sort_receipt_eq_iff:
  assumes "dict_ok (rp_metadata r)" "dict_ok (rp_metadata s)"
  shows "sort_receipt r = sort_receipt s \<longleftrightarrow> receipt_eq r s"
  using assms
  by (cases r; cases s) (auto simp: sort_receipt_def receipt_eq_def sorted_items_dict_eq)

lemma receipt_digest_inject:
  assumes "rp_digest r = rp_digest s" "receipt_ok r" "receipt_ok s"
  shows "receipt_eq r s \<or> digest_collision (receipt_payload r) (receipt_payload s)"
proof (cases "digest_collision (receipt_payload r) (receipt_payload s)")
  case False
  have j: "json_ok (\<lambda>s. True) (JObj (receipt_payload r))" "json_ok (\<lambda>s. True) (JObj (receipt_payload s))"
    using assms by (simp_all add: receipt_ok_def json_ok_receipt_payload)
  have "digest_of (receipt_payload r) = digest_of (receipt_payload s)"
    using assms by (simp add: receipt_ok_def receipt_computed_digest_def)
  with False j have *: "map_option sort_keys (map_of (receipt_payload r) k) =
      map_option sort_keys (map_of (receipt_payload s) k)" for k
    using digest_of_inject by blast
  define d where "d = sorted_payload (receipt_payload r)"
  have d: "stored d (receipt_payload r)" "stored d (receipt_payload s)"
    using stored_sorted_payload [OF j(1)] * unfolding d_def stored_iff by simp_all
  have read: "receipt_from_dict d = Inr (sort_receipt t)"
    if "stored d (receipt_payload t)" "receipt_ok t" for t
  proof -
    have f: "map_of d ''format_version'' = None" "map_of d ''digest'' = None"
      "map_of d ''receipt_id'' = Some (JStr (rp_receipt_id t))"
      by (simp_all add: storedD [OF that(1)] receipt_payload_def identity_payload_def)
    then have "get_str d ''digest'' [] = []"
      by (simp add: get_str_def get_or_def)
    with f have "receipt_from_dict d = make_receipt (sort_receipt (t\<lparr>rp_digest := []\<rparr>))"
      using receipt_from_dict_stored [OF that(2), of d "rp_receipt_id t" "[]"] storedD [OF that(1)]
      by simp
    moreover have "sort_receipt (t\<lparr>rp_digest := []\<rparr>) = (sort_receipt t)\<lparr>rp_digest := []\<rparr>"
      by (simp add: sort_receipt_def)
    ultimately show ?thesis
      by (simp add: make_receipt_no_digest sort_receipt_ok that)
  qed
  from read [OF d(1) assms(2)] read [OF d(2) assms(3)] have "sort_receipt r = sort_receipt s"
    by simp
  moreover have "dict_ok (rp_metadata r)" "dict_ok (rp_metadata s)"
    using assms(2,3) by (simp_all add: receipt_ok_def)
  ultimately show ?thesis
    using sort_receipt_eq_iff by blast
qed simp

section \<open>Occurrence identity\<close>

text \<open>
  One occurrence: the same producer and source event; without a source event, the same producer,
  source, artifact, run, provenance and metadata.
\<close>

definition same_occurrence :: "receipt \<Rightarrow> receipt \<Rightarrow> bool" where
  "same_occurrence r s =
     (rp_producer_type r = rp_producer_type s \<and> rp_producer_id r = rp_producer_id s \<and>
      rp_source_event_id r = rp_source_event_id s \<and>
      (rp_source_event_id r = None \<longrightarrow>
         rp_producer_version r = rp_producer_version s \<and> rp_source_ref r = rp_source_ref s \<and>
         rp_artifact_digest r = rp_artifact_digest s \<and> rp_artifact_size r = rp_artifact_size s \<and>
         rp_run_id r = rp_run_id s \<and> rp_provenance_ref r = rp_provenance_ref s \<and>
         dict_eq (rp_metadata r) (rp_metadata s)))"

lemma jref_sorted_inject:
  assumes "sort_keys (jref x) = sort_keys (jref y)" "reference_ok x" "reference_ok y"
  shows "x = y"
proof -
  have "read_ref (sort_keys (jref x)) [] = Inr x" by (rule read_ref_stored [OF assms(2)])
  moreover have "read_ref (sort_keys (jref y)) [] = Inr y" by (rule read_ref_stored [OF assms(3)])
  ultimately have "Inr x = (Inr y :: evidence_reference result)" unfolding assms(1) by (rule subst)
  then show ?thesis by simp
qed

lemma jopt_jref_inject:
  assumes "sort_keys (jopt jref v) = sort_keys (jopt jref w)"
    "case_option True reference_ok v" "case_option True reference_ok w"
  shows "v = w"
proof -
  have n: "sort_keys (jref r) \<noteq> JNull" "JNull \<noteq> sort_keys (jref r)" for r
    by (simp_all add: jref_def)
  show ?thesis
  proof (cases v)
    case None
    with assms(1) n show ?thesis by (cases w) (simp_all add: jopt_def)
  next
    case (Some x)
    with assms n show ?thesis
      by (cases w) (simp_all add: jopt_def jref_sorted_inject)
  qed
qed

lemma occurrence_keysD:
  assumes k: "\<And>k. map_option sort_keys (map_of (occurrence_payload r) k) =
      map_option sort_keys (map_of (occurrence_payload s) k)"
    and "receipt_ok r" "receipt_ok s"
  shows "same_occurrence r s"
proof -
  have ok: "dict_ok (rp_metadata r)" "dict_ok (rp_metadata s)"
    "case_option True reference_ok (rp_provenance_ref r)"
    "case_option True reference_ok (rp_provenance_ref s)"
    using assms(2,3) by (simp_all add: receipt_ok_def)
  note short = k [of "''producer_type''"] k [of "''producer_id''"] k [of "''source_event_id''"]
    k [of "''artifact_digest''"]
  note long = k [of "''producer_version''"] k [of "''source_ref''"] k [of "''artifact_size''"]
    k [of "''run_id''"] k [of "''provenance_ref''"] k [of "''metadata''"]
  show ?thesis
  proof (cases "rp_source_event_id r = None \<and> rp_source_event_id s = None")
    case True
    then show ?thesis
      using short long ok jopt_jref_inject [of "rp_provenance_ref r" "rp_provenance_ref s"]
      by (simp add: occurrence_payload_def identity_payload_def same_occurrence_def
          sorted_items_dict_eq)
  next
    case False
    then show ?thesis
      using short
      by (auto simp: occurrence_payload_def identity_payload_def same_occurrence_def
          split: option.splits)
  qed
qed

lemma occurrence_payload_cong:
  assumes "same_occurrence r s" "dict_ok (rp_metadata r)" "dict_ok (rp_metadata s)"
  shows "occurrence_payload r = occurrence_payload s"
  using assms
  by (auto simp: same_occurrence_def occurrence_payload_def identity_payload_def
      sorted_items_dict_eq split: option.split)

section \<open>The contracts of a receipt\<close>

text \<open>
  Receipt identities are idempotent and discriminating. Two receipts have one identity exactly
  when they report one occurrence (the same source event of one producer, or, without a source
  event, the same artifact with the same lineage), or when a SHA-256 collision has been found.
\<close>

theorem receipt_identity:
  assumes "receipt_ok r" "receipt_ok s"
  shows "rp_receipt_id r = rp_receipt_id s \<longleftrightarrow>
    same_occurrence r s \<or> digest_collision (occurrence_payload r) (occurrence_payload s)"
proof
  assume "rp_receipt_id r = rp_receipt_id s"
  then have "digest_of (occurrence_payload r) = digest_of (occurrence_payload s)"
    using assms by (simp add: receipt_ok_def computed_receipt_id_def)
  moreover have "json_ok (\<lambda>s. True) (JObj (occurrence_payload r))"
    "json_ok (\<lambda>s. True) (JObj (occurrence_payload s))"
    using assms by (simp_all add: receipt_ok_def json_ok_occurrence)
  ultimately show "same_occurrence r s \<or> digest_collision (occurrence_payload r) (occurrence_payload s)"
    using digest_of_inject occurrence_keysD [OF _ assms] by blast
next
  assume "same_occurrence r s \<or> digest_collision (occurrence_payload r) (occurrence_payload s)"
  then have "digest_of (occurrence_payload r) = digest_of (occurrence_payload s)"
    using occurrence_payload_cong assms
    by (auto simp: digest_of_def digest_collision_def collision_def receipt_ok_def)
  then show "rp_receipt_id r = rp_receipt_id s"
    using assms by (simp add: receipt_ok_def computed_receipt_id_def)
qed

text \<open>
  A receipt survives its persisted form: decoding the canonical document of \<open>to_dict\<close> and
  rebuilding the receipt, which recomputes and checks its identity and its digest, gives back the
  receipt, its metadata sorted by key.
\<close>

theorem receipt_document_roundtrip:
  assumes "receipt_ok r"
  shows "bindE (loads_object (canonical (JObj (receipt_to_dict r))) field) receipt_from_dict =
    Inr (sort_receipt r)"
proof -
  have "json_ok (\<lambda>s. True) (JObj (receipt_to_dict r))"
    using assms by (intro json_ok_receipt_to_dict) (simp add: receipt_ok_def)
  then obtain d where "loads_object (canonical (JObj (receipt_to_dict r))) field = Inr d"
    and "stored d (receipt_to_dict r)"
    by (rule loads_object_canonical)
  with receipt_from_dict_to_dict [OF assms] show ?thesis by simp
qed

text \<open>
  A persisted receipt is tamper-evident: a document that carries the digest of the receipt \<open>r\<close>
  and is accepted by \<open>from_dict\<close> is read as \<open>r\<close>, or exhibits a SHA-256 collision.
\<close>

theorem receipt_tamper_evident:
  assumes "receipt_ok r" "py_ok (JObj d)" "map_of d ''digest'' = Some (JStr (rp_digest r))"
    and "receipt_from_dict d = Inr r'"
  shows "receipt_eq r' r \<or> digest_collision (receipt_payload r') (receipt_payload r)"
proof -
  have "rp_digest r \<noteq> []"
    using assms(1) by (auto simp: receipt_ok_def receipt_computed_digest_def)
  then have "rp_digest r' = rp_digest r"
    using receipt_from_dict_ok(2) [OF assms(4,2)] assms(3) by (simp add: get_str_def get_or_def)
  then show ?thesis
    by (intro receipt_digest_inject receipt_from_dict_ok(1) [OF assms(4,2)] assms(1))
qed

definition sample_receipt_fields :: receipt where
  "sample_receipt_fields = \<lparr>rp_producer_type = ''ci'', rp_producer_id = ''p'',
     rp_artifact_digest = replicate 64 CHR ''0'', rp_artifact_size = 3, rp_captured_at = Aware 1000000,
     rp_source_ref = ''src'', rp_source_event_id = None, rp_producer_version = Some ''2'',
     rp_run_id = Some ''r'', rp_provenance_ref = Some (sample_ref ''provenance''),
     rp_metadata = [(''k'', ''v''), (''a'', ''b'')], rp_receipt_id = [], rp_digest = []\<rparr>"

definition sample_receipt :: receipt where
  "sample_receipt = projr (make_receipt sample_receipt_fields)"

lemma sample_receipt_fields_ok:
  "receipt_guards sample_receipt_fields = Inr ()" "dict_ok (rp_metadata sample_receipt_fields)"
  "dt_ok (rp_captured_at sample_receipt_fields)"
  "case_option True reference_ok (rp_provenance_ref sample_receipt_fields)"
  by code_simp+

lemma sample_receipt_made: "make_receipt sample_receipt_fields = Inr sample_receipt"
proof -
  have "\<exists>r. make_receipt sample_receipt_fields = Inr r"
    using sample_receipt_fields_ok(1)
    by (simp add: make_receipt_Inr_iff) (simp add: sample_receipt_fields_def)
  then show ?thesis by (auto simp: sample_receipt_def)
qed

lemma sample_receipt_ok: "receipt_ok sample_receipt"
  by (rule make_receipt_ok [OF sample_receipt_made sample_receipt_fields_ok(2-4)])

lemma sample_receipt_digest:
  "map_of (sorted_payload (receipt_to_dict sample_receipt)) ''digest'' =
    Some (JStr (rp_digest sample_receipt))"
proof -
  have "stored (sorted_payload (receipt_to_dict sample_receipt)) (receipt_to_dict sample_receipt)"
    using sample_receipt_ok by (intro stored_sorted_payload json_ok_receipt_to_dict)
      (simp add: receipt_ok_def)
  then have "map_of (sorted_payload (receipt_to_dict sample_receipt)) ''digest'' =
      map_option sort_keys (map_of (receipt_to_dict sample_receipt) ''digest'')"
    by (rule storedD)
  moreover have "map_of (receipt_to_dict sample_receipt) ''digest'' = Some (JStr (rp_digest sample_receipt))"
    by (simp add: receipt_to_dict_def receipt_payload_def identity_payload_def)
  ultimately show ?thesis by simp
qed

lemma sample_receipt_read:
  "receipt_from_dict (sorted_payload (receipt_to_dict sample_receipt)) = Inr (sort_receipt sample_receipt)"
  "py_ok (JObj (sorted_payload (receipt_to_dict sample_receipt)))"
proof -
  have j: "json_ok (\<lambda>s. True) (JObj (receipt_to_dict sample_receipt))"
    using sample_receipt_ok by (intro json_ok_receipt_to_dict) (simp add: receipt_ok_def)
  show "receipt_from_dict (sorted_payload (receipt_to_dict sample_receipt)) =
      Inr (sort_receipt sample_receipt)"
    by (rule receipt_from_dict_to_dict [OF sample_receipt_ok stored_sorted_payload [OF j]])
  show "py_ok (JObj (sorted_payload (receipt_to_dict sample_receipt)))"
    by (rule json_ok_py_ok [OF json_ok_sorted_payload [OF j]])
qed

lemma receipt_identity_witness:
  "rp_receipt_id (sort_receipt sample_receipt) = rp_receipt_id sample_receipt"
proof (subst receipt_identity [OF sort_receipt_ok [OF sample_receipt_ok] sample_receipt_ok])
  have "dict_ok (rp_metadata sample_receipt)"
    using sample_receipt_ok by (simp add: receipt_ok_def)
  then have "same_occurrence (sort_receipt sample_receipt) sample_receipt"
    by (simp add: same_occurrence_def sort_receipt_def dict_eq_iff dict_ok_def)
  then show "same_occurrence (sort_receipt sample_receipt) sample_receipt \<or>
      digest_collision (occurrence_payload (sort_receipt sample_receipt))
        (occurrence_payload sample_receipt)" ..
qed

lemma receipt_document_roundtrip_witness:
  "bindE (loads_object (canonical (JObj (receipt_to_dict sample_receipt))) ''receipt'')
    receipt_from_dict = Inr (sort_receipt sample_receipt)"
  by (rule receipt_document_roundtrip [OF sample_receipt_ok])

lemma receipt_tamper_evident_witness:
  "receipt_eq (sort_receipt sample_receipt) sample_receipt \<or>
   digest_collision (receipt_payload (sort_receipt sample_receipt)) (receipt_payload sample_receipt)"
  by (rule receipt_tamper_evident [OF sample_receipt_ok sample_receipt_read(2)
      sample_receipt_digest sample_receipt_read(1)])

end
