(* ===== verification/EvidenceAdmission.thy ===== *)
theory EvidenceAdmission
  imports EvidenceReceipt
begin

text \<open>
  \<open>domain/evidence_admission.py\<close> and \<open>services/evidence_admission_service.py\<close>: the proof that an
  external receipt may be consumed as evidence, issued only for an artifact whose bytes match it.
\<close>

section \<open>Admissions\<close>

record admission =
  ea_receipt_id :: string
  ea_receipt_digest :: string
  ea_artifact_digest :: string
  ea_artifact_size :: int
  ea_producer_type :: string
  ea_producer_id :: string
  ea_source_event_id :: "string option"
  ea_run_id :: "string option"
  ea_evidence_reference :: evidence_reference

definition admission_post_init :: "admission \<Rightarrow> unit result" where
  "admission_post_init a = guards ([
     (blank (ea_receipt_id a), ValueError ''receipt_id''),
     (blank (ea_receipt_digest a), ValueError ''receipt_digest''),
     (blank (ea_artifact_digest a), ValueError ''artifact_digest''),
     (blank (ea_producer_type a), ValueError ''producer_type''),
     (blank (ea_producer_id a), ValueError ''producer_id''),
     (\<not> is_sha256 (ea_receipt_digest a), ValueError ''receipt_digest''),
     (\<not> is_sha256 (ea_artifact_digest a), ValueError ''artifact_digest''),
     (ea_artifact_size a < 0, ValueError ''artifact_size''),
     (er_kind (ea_evidence_reference a) \<noteq> ''evidence'', ValueError ''evidence_reference'')] @
     (case er_receipt_ref (ea_evidence_reference a) of
        None \<Rightarrow> [(True, ValueError ''receipt binding'')]
      | Some q \<Rightarrow> [
          (er_identity q \<noteq> ea_receipt_id a, ValueError ''receipt identity''),
          (er_digest q \<noteq> ea_receipt_digest a, ValueError ''receipt digest'')]) @
     [(er_digest (ea_evidence_reference a) \<noteq> ea_artifact_digest a, ValueError ''artifact digest'')])"

definition admission_payload :: "admission \<Rightarrow> payload" where
  "admission_payload a = [
     (''receipt_id'', JStr (ea_receipt_id a)),
     (''receipt_digest'', JStr (ea_receipt_digest a)),
     (''artifact_digest'', JStr (ea_artifact_digest a)),
     (''artifact_size'', JInt (ea_artifact_size a)),
     (''producer_type'', JStr (ea_producer_type a)),
     (''producer_id'', JStr (ea_producer_id a)),
     (''source_event_id'', jopt_str (ea_source_event_id a)),
     (''run_id'', jopt_str (ea_run_id a)),
     (''evidence_reference'', jref (ea_evidence_reference a))]"

definition admission_digest :: "admission \<Rightarrow> string" where
  "admission_digest a = digest_of (admission_payload a)"

definition admission_to_dict :: "admission \<Rightarrow> payload" where
  "admission_to_dict a = admission_payload a @ [(''digest'', JStr (admission_digest a))]"

definition admission_from_dict :: "payload \<Rightarrow> admission result" where
  "admission_from_dict d =
     (case get_or d ''evidence_reference'' JNull of
        JObj raw_ref \<Rightarrow>
          (case get_or raw_ref ''receipt_ref'' JNull of
             JObj raw_receipt \<Rightarrow>
               bindE (read_plain_ref raw_receipt None) (\<lambda>receipt_ref.
               bindE (read_plain_ref raw_ref (Some receipt_ref)) (\<lambda>evidence_ref.
               bindE (item_str d ''receipt_id'') (\<lambda>receipt_id.
               bindE (item_str d ''receipt_digest'') (\<lambda>receipt_digest.
               bindE (item_str d ''artifact_digest'') (\<lambda>artifact_digest.
               bindE (bindE (item d ''artifact_size'') (\<lambda>v. require_int v ''artifact_size''))
                 (\<lambda>artifact_size.
               bindE (item_str d ''producer_type'') (\<lambda>producer_type.
               bindE (item_str d ''producer_id'') (\<lambda>producer_id.
               bindE (construct admission_post_init
                 \<lparr>ea_receipt_id = receipt_id, ea_receipt_digest = receipt_digest,
                  ea_artifact_digest = artifact_digest, ea_artifact_size = artifact_size,
                  ea_producer_type = producer_type, ea_producer_id = producer_id,
                  ea_source_event_id = get_opt_str d ''source_event_id'',
                  ea_run_id = get_opt_str d ''run_id'',
                  ea_evidence_reference = evidence_ref\<rparr>) (\<lambda>a.
               let supplied = get_str d ''digest'' []
               in if supplied \<noteq> [] \<and> supplied \<noteq> admission_digest a
                  then Inl (ValueError ''digest mismatch'') else Inr a)))))))))
           | _ \<Rightarrow> Inl (ValueError ''receipt_ref''))
      | _ \<Rightarrow> Inl (ValueError ''evidence_reference''))"

section \<open>The admission service\<close>

definition differs :: "'a option \<Rightarrow> 'a option \<Rightarrow> bool" where
  "differs expected actual = (expected \<noteq> None \<and> actual \<noteq> expected)"

text \<open>
  \<open>admit_external_evidence\<close>: \<open>fs\<close> is the file system, a path is a file when it is mapped. The three
  checks after the references are built compare a value with what it was just built from.
\<close>

definition admit_external_evidence ::
    "files \<Rightarrow> receipt \<Rightarrow> string \<Rightarrow> string option \<Rightarrow> string option \<Rightarrow> string option \<Rightarrow> string option \<Rightarrow>
     admission result" where
  "admit_external_evidence fs r artifact_path receipt_path run_id producer_type producer_id =
     (case fs artifact_path of
        None \<Rightarrow> Inl (FileNotFoundError artifact_path)
      | Some content \<Rightarrow>
          bindE (guards [
            (sha256_hex content \<noteq> rp_artifact_digest r, ValueError ''artifact digest''),
            (int (length content) \<noteq> rp_artifact_size r, ValueError ''artifact size''),
            (differs run_id (rp_run_id r), ValueError ''run_id''),
            (differs producer_type (Some (rp_producer_type r)), ValueError ''producer_type''),
            (differs producer_id (Some (rp_producer_id r)), ValueError ''producer_id'')]) (\<lambda>_.
          bindE (case receipt_path of
              None \<Rightarrow> Inr ()
            | Some path \<Rightarrow>
                (case fs path of
                   None \<Rightarrow> Inl (FileNotFoundError path)
                 | Some _ \<Rightarrow>
                     bindE (bindE (load_object fs path ''payload'') receipt_from_dict) (\<lambda>persisted.
                     guards [(\<not> receipt_eq persisted r, ValueError ''persisted receipt'')]))) (\<lambda>_.
          bindE (receipt_reference r (map_option path_name receipt_path)) (\<lambda>receipt_ref.
          bindE (construct evidence_reference_post_init
              (EvidenceReference ''evidence'' (rp_receipt_id r) (rp_artifact_digest r) None
                (Some receipt_ref))) (\<lambda>evidence_ref.
          bindE (guards [
            (er_identity evidence_ref \<noteq> rp_receipt_id r, ValueError ''reference identity''),
            (er_digest evidence_ref \<noteq> rp_artifact_digest r, ValueError ''reference digest''),
            (er_receipt_ref evidence_ref \<noteq> Some receipt_ref, ValueError ''receipt binding'')]) (\<lambda>_.
          construct admission_post_init
            \<lparr>ea_receipt_id = rp_receipt_id r, ea_receipt_digest = rp_digest r,
             ea_artifact_digest = rp_artifact_digest r, ea_artifact_size = rp_artifact_size r,
             ea_producer_type = rp_producer_type r, ea_producer_id = rp_producer_id r,
             ea_source_event_id = rp_source_event_id r, ea_run_id = rp_run_id r,
             ea_evidence_reference = evidence_ref\<rparr>))))))"

definition load_external_evidence_admission :: "files \<Rightarrow> string \<Rightarrow> admission result" where
  "load_external_evidence_admission fs path =
     bindE (load_object fs path ''payload'') admission_from_dict"

section \<open>What an admission says\<close>

definition admission_ok :: "admission \<Rightarrow> bool" where
  "admission_ok a = (admission_post_init a = Inr () \<and> reference_ok (ea_evidence_reference a))"

lemma json_ok_admission_payload [simp]: "json_ok (\<lambda>s. True) (JObj (admission_payload a))"
  by (simp add: admission_payload_def)

lemma json_ok_admission_to_dict [simp]: "json_ok (\<lambda>s. True) (JObj (admission_to_dict a))"
  by (simp add: admission_to_dict_def) (simp add: admission_payload_def)

definition admission_keys :: "string list" where
  "admission_keys = map fst (admission_payload undefined)"

lemma admission_from_dict_stored:
  assumes ok: "admission_ok a"
    and d: "\<And>k. k \<in> set admission_keys \<Longrightarrow> map_of d k = map_option sort_keys (map_of (admission_payload a) k)"
    and h: "get_str d ''digest'' [] \<in> {[], admission_digest a}"
  shows "admission_from_dict d = Inr a"
proof -
  define e where "e = ea_evidence_reference a"
  obtain q where q: "er_receipt_ref e = Some q"
    using ok by (cases "er_receipt_ref e")
      (auto simp: admission_ok_def admission_post_init_def e_def)
  have re: "reference_ok e" using ok by (simp add: admission_ok_def e_def)
  then have rq: "reference_ok q" "er_receipt_ref q = None"
    using reference_ok_receipt [OF re q] by simp_all
  have se: "stored (sorted_payload (ref_to_dict e)) (ref_to_dict e)"
    and sq: "stored (sorted_payload (ref_to_dict q)) (ref_to_dict q)"
    using stored_sorted_payload json_ok_jref by (simp_all add: jref_def)
  have me: "map_of (sorted_payload (ref_to_dict e)) ''receipt_ref'' = Some (JObj (sorted_payload (ref_to_dict q)))"
    using q unfolding storedD [OF se] by (cases e) (simp add: sort_keys_JObj del: sort_keys.simps(2))
  have look: "list_all (\<lambda>k. map_of d k = map_option sort_keys (map_of (admission_payload a) k)) admission_keys"
    using d by (simp add: list_all_iff)
  note look = look [unfolded admission_keys_def admission_payload_def, simplified]
  have "map_of d ''evidence_reference'' = Some (JObj (sorted_payload (ref_to_dict e)))"
    using look by (simp add: jref_def e_def sort_keys_JObj del: sort_keys.simps(2))
  moreover have "read_plain_ref (sorted_payload (ref_to_dict q)) None = Inr q"
    using read_plain_ref_stored [OF rq(1)] storedD [OF sq] rq(2) by metis
  moreover have "read_plain_ref (sorted_payload (ref_to_dict e)) (Some q) = Inr e"
    using read_plain_ref_stored [OF re] storedD [OF se] q by metis
  moreover have eta: "\<lparr>ea_receipt_id = ea_receipt_id a, ea_receipt_digest = ea_receipt_digest a,
      ea_artifact_digest = ea_artifact_digest a, ea_artifact_size = ea_artifact_size a,
      ea_producer_type = ea_producer_type a, ea_producer_id = ea_producer_id a,
      ea_source_event_id = ea_source_event_id a, ea_run_id = ea_run_id a,
      ea_evidence_reference = e\<rparr> = a"
    by (simp add: e_def)
  ultimately show ?thesis
    using ok h look me q
    by (auto simp: admission_from_dict_def get_or_def item_str_def require_int_def construct_def
        admission_ok_def e_def [symmetric] Let_def eta)
qed

lemma read_plain_ref_ok:
  "read_plain_ref d v = Inr r \<Longrightarrow> case_option True reference_ok v \<Longrightarrow> reference_ok r"
  by (auto simp: read_plain_ref_def construct_Inr_iff split: option.splits)

lemma admission_from_dict_ok:
  assumes "admission_from_dict d = Inr a"
  shows "admission_ok a" and "get_str d ''digest'' [] \<in> {[], admission_digest a}"
proof -
  obtain raw where raw: "get_or d ''evidence_reference'' JNull = JObj raw"
    using assms by (cases "get_or d ''evidence_reference'' JNull") (simp_all add: admission_from_dict_def)
  obtain rec where rec: "get_or raw ''receipt_ref'' JNull = JObj rec"
    using assms raw by (cases "get_or raw ''receipt_ref'' JNull") (simp_all add: admission_from_dict_def)
  have read: "read_plain_ref rec None = Inr q \<Longrightarrow> read_plain_ref raw (Some q) = Inr r \<Longrightarrow> reference_ok r"
    for q r using read_plain_ref_ok [of rec None q] read_plain_ref_ok [of raw "Some q" r] by simp
  show "admission_ok a"
    using assms unfolding admission_from_dict_def raw rec json.case Let_def construct_def
    by (elim bindE_InrE) (auto simp: admission_ok_def read split: if_splits)
  show "get_str d ''digest'' [] \<in> {[], admission_digest a}"
    using assms unfolding admission_from_dict_def raw rec json.case Let_def construct_def
    by (elim bindE_InrE) (simp split: if_splits)
qed

text \<open>Admitting succeeds exactly when the artifact and the persisted receipt match the receipt.\<close>

definition artifact_matches :: "files \<Rightarrow> receipt \<Rightarrow> string \<Rightarrow> bool" where
  "artifact_matches fs r path =
     (case fs path of
        None \<Rightarrow> False
      | Some content \<Rightarrow> sha256_hex content = rp_artifact_digest r \<and> int (length content) = rp_artifact_size r)"

definition persisted_matches :: "files \<Rightarrow> receipt \<Rightarrow> string option \<Rightarrow> bool" where
  "persisted_matches fs r path =
     (case path of
        None \<Rightarrow> True
      | Some p \<Rightarrow> \<not> blank (path_name p) \<and>
          (case bindE (load_object fs p ''payload'') receipt_from_dict of
             Inl e \<Rightarrow> False | Inr persisted \<Rightarrow> receipt_eq persisted r))"

definition admission_of :: "receipt \<Rightarrow> string option \<Rightarrow> admission" where
  "admission_of r source =
     \<lparr>ea_receipt_id = rp_receipt_id r, ea_receipt_digest = rp_digest r,
      ea_artifact_digest = rp_artifact_digest r, ea_artifact_size = rp_artifact_size r,
      ea_producer_type = rp_producer_type r, ea_producer_id = rp_producer_id r,
      ea_source_event_id = rp_source_event_id r, ea_run_id = rp_run_id r,
      ea_evidence_reference =
        EvidenceReference ''evidence'' (rp_receipt_id r) (rp_artifact_digest r) None
          (Some (EvidenceReference ''receipt'' (rp_receipt_id r) (rp_digest r) source None))\<rparr>"

lemma receipt_digests:
  assumes "receipt_ok r"
  shows "is_sha256 (rp_receipt_id r)" "is_sha256 (rp_digest r)" "is_sha256 (rp_artifact_digest r)"
    "0 \<le> rp_artifact_size r" "\<not> blank (rp_producer_type r)" "\<not> blank (rp_producer_id r)"
  using assms
  by (simp_all add: receipt_ok_def computed_receipt_id_def receipt_computed_digest_def receipt_guards_def)

lemma receipt_reference_eq:
  "receipt_ok r \<Longrightarrow> receipt_reference r source =
    (if blank_if_given source then Inl (ValueError ''source'')
     else Inr (EvidenceReference ''receipt'' (rp_receipt_id r) (rp_digest r) source None))"
  by (simp add: receipt_reference_def construct_def evidence_reference_post_init_def receipt_digests)

lemma evidence_reference_made:
  assumes "receipt_ok r"
  shows "construct evidence_reference_post_init
      (EvidenceReference ''evidence'' (rp_receipt_id r) (rp_artifact_digest r) None
        (Some (EvidenceReference ''receipt'' (rp_receipt_id r) (rp_digest r) source None))) =
    Inr (EvidenceReference ''evidence'' (rp_receipt_id r) (rp_artifact_digest r) None
        (Some (EvidenceReference ''receipt'' (rp_receipt_id r) (rp_digest r) source None)))"
  using assms
  by (simp add: construct_def evidence_reference_post_init_def receipt_digests blank_if_given_def)

lemma admission_made:
  "receipt_ok r \<Longrightarrow> construct admission_post_init (admission_of r source) = Inr (admission_of r source)"
  by (simp add: construct_def admission_post_init_def admission_of_def receipt_digests not_less)

lemma admit_step:
  assumes "receipt_ok r" "fs artifact_path = Some content"
  shows "admit_external_evidence fs r artifact_path receipt_path run_id producer_type producer_id = Inr a \<longleftrightarrow>
     artifact_matches fs r artifact_path \<and> \<not> differs run_id (rp_run_id r) \<and>
     \<not> differs producer_type (Some (rp_producer_type r)) \<and>
     \<not> differs producer_id (Some (rp_producer_id r)) \<and>
     persisted_matches fs r receipt_path \<and> a = admission_of r (map_option path_name receipt_path)"
proof -
  have p: "(case receipt_path of
              None \<Rightarrow> Inr ()
            | Some path \<Rightarrow>
                (case fs path of
                   None \<Rightarrow> Inl (FileNotFoundError path)
                 | Some _ \<Rightarrow>
                     bindE (bindE (load_object fs path ''payload'') receipt_from_dict) (\<lambda>persisted.
                     guards [(\<not> receipt_eq persisted r, ValueError ''persisted receipt'')]))) = Inr () \<and>
       \<not> blank_if_given (map_option path_name receipt_path) \<longleftrightarrow> persisted_matches fs r receipt_path"
    by (auto simp: persisted_matches_def load_object_def blank_if_given_def bindE_eq_Inr_iff
        split: option.splits sum.splits)
  show ?thesis
    unfolding p [symmetric]
    by (auto simp: admit_external_evidence_def assms receipt_reference_eq evidence_reference_made
        artifact_matches_def bindE_eq_Inr_iff admission_made [unfolded admission_of_def]
        admission_of_def split: if_splits)
qed

lemma admission_digest_inject:
  assumes "admission_digest a = admission_digest b" "admission_ok a" "admission_ok b"
  shows "a = b \<or> digest_collision (admission_payload a) (admission_payload b)"
proof (cases "digest_collision (admission_payload a) (admission_payload b)")
  case False
  with digest_of_inject [of "admission_payload a" "admission_payload b"] assms(1)
  have *: "map_option sort_keys (map_of (admission_payload a) k) =
      map_option sort_keys (map_of (admission_payload b) k)" for k
    by (simp add: admission_digest_def)
  define d where "d = sorted_payload (admission_payload a)"
  have d: "stored d (admission_payload a)" "stored d (admission_payload b)"
    using stored_sorted_payload [OF json_ok_admission_payload [of a]] *
    unfolding d_def stored_iff by simp_all
  have "get_str d ''digest'' [] = []"
    by (simp add: get_str_def get_or_def storedD [OF d(1)] admission_payload_def)
  then have "admission_from_dict d = Inr a" "admission_from_dict d = Inr b"
    using d assms by (auto intro!: admission_from_dict_stored dest: storedD)
  then show ?thesis by simp
qed simp

section \<open>The contracts of an admission\<close>

text \<open>
  C7: the admission of external evidence is sound and complete. For a valid receipt the service
  issues an admission exactly when the artifact file exists and its bytes have the digest and the
  size of the receipt, every expectation of the caller holds, and the persisted receipt, when one is
  named, exists, is a valid document and equals the receipt; the admission is then determined, and
  bound to the receipt and the artifact. None of the checks of the constructed references and of the
  admission can fail.
\<close>

theorem admit_external_evidence_iff:
  assumes "receipt_ok r"
  shows "admit_external_evidence fs r artifact_path receipt_path run_id producer_type producer_id = Inr a \<longleftrightarrow>
     artifact_matches fs r artifact_path \<and> \<not> differs run_id (rp_run_id r) \<and>
     \<not> differs producer_type (Some (rp_producer_type r)) \<and>
     \<not> differs producer_id (Some (rp_producer_id r)) \<and>
     persisted_matches fs r receipt_path \<and> a = admission_of r (map_option path_name receipt_path)"
proof (cases "fs artifact_path")
  case None
  then show ?thesis
    by (simp add: admit_external_evidence_def artifact_matches_def)
next
  case (Some content)
  with admit_step [OF assms] show ?thesis by blast
qed

text \<open>
  An admission persisted with its digest is tamper-evident: if the document still carries the
  digest of the admission \<open>a\<close> and loads, it loads as \<open>a\<close>, or a SHA-256 collision has been found.
\<close>

theorem admission_tamper_evident:
  assumes "admission_ok a" "map_of d ''digest'' = Some (JStr (admission_digest a))"
    and "admission_from_dict d = Inr b"
  shows "b = a \<or> digest_collision (admission_payload b) (admission_payload a)"
proof -
  have "admission_digest b = admission_digest a"
    using admission_from_dict_ok(2) [OF assms(3)] assms(2)
    by (simp add: get_str_def get_or_def admission_digest_def)
  then show ?thesis
    by (intro admission_digest_inject admission_from_dict_ok(1) [OF assms(3)] assms(1))
qed

definition sample_content :: string where
  "sample_content = ''abc''"

definition sample_artifact_receipt :: receipt where
  "sample_artifact_receipt =
     projr (make_receipt (sample_receipt_fields\<lparr>rp_artifact_digest := sha256_hex sample_content\<rparr>))"

lemma make_receipt_fields:
  "make_receipt r = Inr r' \<Longrightarrow> rp_artifact_digest r' = rp_artifact_digest r \<and>
    rp_artifact_size r' = rp_artifact_size r \<and> rp_run_id r' = rp_run_id r"
  by (auto simp: make_receipt_Inr_iff)

lemma sample_artifact_receipt_ok:
  "receipt_ok sample_artifact_receipt"
  "rp_artifact_digest sample_artifact_receipt = sha256_hex sample_content"
  "rp_artifact_size sample_artifact_receipt = 3" "rp_run_id sample_artifact_receipt = Some ''r''"
proof -
  let ?f = "sample_receipt_fields\<lparr>rp_artifact_digest := sha256_hex sample_content\<rparr>"
  have f: "rp_artifact_size sample_receipt_fields = 3" "rp_run_id sample_receipt_fields = Some ''r''"
    by (simp_all add: sample_receipt_fields_def)
  have "receipt_guards ?f = Inr ()"
    using sample_receipt_fields_ok(1) by (simp add: receipt_guards_def)
  then have "\<exists>r. make_receipt ?f = Inr r"
    by (simp add: make_receipt_Inr_iff) (simp add: sample_receipt_fields_def)
  then have made: "make_receipt ?f = Inr sample_artifact_receipt"
    by (auto simp: sample_artifact_receipt_def)
  then show "receipt_ok sample_artifact_receipt"
    by (rule make_receipt_ok) (use sample_receipt_fields_ok in simp_all)
  show "rp_artifact_digest sample_artifact_receipt = sha256_hex sample_content"
    "rp_artifact_size sample_artifact_receipt = 3" "rp_run_id sample_artifact_receipt = Some ''r''"
    using make_receipt_fields [OF made] f by simp_all
qed

lemma admit_external_evidence_iff_witness:
  "is_ok (admit_external_evidence [''a'' \<mapsto> sample_content] sample_artifact_receipt ''a'' None
      (Some ''r'') None None) \<and>
   \<not> is_ok (admit_external_evidence [''a'' \<mapsto> sample_content @ ''d''] sample_artifact_receipt ''a'' None
      (Some ''r'') None None)"
  using admit_external_evidence_iff [OF sample_artifact_receipt_ok(1)]
  by (auto simp: is_ok_iff artifact_matches_def differs_def persisted_matches_def
      sample_artifact_receipt_ok sample_content_def)

lemma admission_tamper_evident_witness:
  "\<exists>d b. admission_from_dict d = Inr b \<and>
     (b = admission_of sample_artifact_receipt None \<or>
      digest_collision (admission_payload b) (admission_payload (admission_of sample_artifact_receipt None)))"
proof -
  let ?a = "admission_of sample_artifact_receipt None"
  have ok: "admission_ok ?a"
    using admission_made [OF sample_artifact_receipt_ok(1), of None]
      evidence_reference_made [OF sample_artifact_receipt_ok(1), of None]
      receipt_digests [OF sample_artifact_receipt_ok(1)]
    by (simp add: admission_ok_def construct_Inr_iff)
      (simp add: admission_of_def evidence_reference_post_init_def blank_if_given_def)
  define d where "d = sorted_payload (admission_to_dict ?a)"
  have d: "stored d (admission_to_dict ?a)"
    unfolding d_def by (simp add: stored_sorted_payload)
  have h: "map_of d ''digest'' = Some (JStr (admission_digest ?a))"
    unfolding storedD [OF d] by (simp add: admission_to_dict_def admission_payload_def)
  moreover have "admission_from_dict d = Inr ?a"
  proof (rule admission_from_dict_stored [OF ok])
    show "map_of d k = map_option sort_keys (map_of (admission_payload ?a) k)"
      if "k \<in> set admission_keys" for k
      using that by (auto simp: storedD [OF d] admission_to_dict_def admission_keys_def admission_payload_def)
    show "get_str d ''digest'' [] \<in> {[], admission_digest ?a}"
      using h by (simp add: get_str_def get_or_def)
  qed
  ultimately show ?thesis
    using admission_tamper_evident [OF ok] by blast
qed

end
