(* ===== verification/ReliabilityState.thy ===== *)
theory ReliabilityState
  imports JsonSupport
begin

text \<open>
  \<open>domain/reliability_state.py\<close>: the states of a subject, the transitions allowed between them,
  the hash-linked transition record and the snapshot derived from a history.
\<close>

section \<open>States\<close>

definition reliability_states :: "string list" where
  "reliability_states = [''unknown'', ''reliable'', ''degraded'', ''unreliable'', ''recovered'']"

definition allowed_transitions :: "(string, string list) dict" where
  "allowed_transitions = [
     (''unknown'', [''reliable'', ''degraded'', ''unreliable'']),
     (''reliable'', [''degraded'', ''unreliable'']),
     (''degraded'', [''reliable'', ''unreliable'']),
     (''unreliable'', [''recovered'', ''reliable'', ''degraded'']),
     (''recovered'', [''reliable'', ''degraded'', ''unreliable''])]"

definition allowed :: "string \<Rightarrow> string \<Rightarrow> bool" where
  "allowed a b = (b \<in> set (dict_get allowed_transitions a []))"

section \<open>Transitions\<close>

record transition =
  rt_transition_id :: string
  rt_subject_id :: string
  rt_from_state :: string
  rt_to_state :: string
  rt_occurred_at :: datetime
  rt_actor :: string
  rt_evidence_chain_id :: string
  rt_evidence_chain_digest :: string
  rt_decision :: string
  rt_rationale :: "string list"
  rt_previous :: string
  rt_digest :: string

definition transition_post_init :: "transition \<Rightarrow> unit result" where
  "transition_post_init t = guards [
     (blank (rt_transition_id t) \<or> blank (rt_subject_id t) \<or> blank (rt_actor t),
        ValueError ''transition_id, subject_id, actor''),
     (rt_from_state t \<notin> set reliability_states, ValueError ''from_state''),
     (rt_to_state t \<notin> set reliability_states, ValueError ''to_state''),
     (\<not> allowed (rt_from_state t) (rt_to_state t), ValueError ''invalid transition''),
     (\<not> tz_aware (rt_occurred_at t), ValueError ''occurred_at''),
     (blank (rt_evidence_chain_id t), ValueError ''evidence_chain_id''),
     (\<not> is_sha256 (rt_evidence_chain_digest t), ValueError ''evidence_chain_digest''),
     (rt_previous t \<noteq> [] \<and> \<not> is_sha256 (rt_previous t), ValueError ''previous_transition_digest''),
     (rt_decision t \<notin> {''accept'', ''review'', ''reject''}, ValueError ''decision''),
     (rt_to_state t \<in> {''reliable'', ''recovered''} \<and> rt_decision t \<noteq> ''accept'', ValueError ''accept''),
     (rt_to_state t = ''degraded'' \<and> rt_decision t \<noteq> ''review'', ValueError ''review''),
     (rt_to_state t = ''unreliable'' \<and> rt_decision t \<noteq> ''reject'', ValueError ''reject'')]"

definition transition_payload :: "transition \<Rightarrow> payload" where
  "transition_payload t = [
     (''transition_id'', JStr (rt_transition_id t)),
     (''subject_id'', JStr (rt_subject_id t)),
     (''from_state'', JStr (rt_from_state t)),
     (''to_state'', JStr (rt_to_state t)),
     (''occurred_at'', JStr (utc_iso (rt_occurred_at t))),
     (''actor'', JStr (rt_actor t)),
     (''evidence_chain_id'', JStr (rt_evidence_chain_id t)),
     (''evidence_chain_digest'', JStr (rt_evidence_chain_digest t)),
     (''decision'', JStr (rt_decision t)),
     (''rationale'', jstrs (rt_rationale t)),
     (''previous_transition_digest'', JStr (rt_previous t))]"

definition transition_digest :: "transition \<Rightarrow> string" where
  "transition_digest t = digest_of (transition_payload t)"

definition transition_to_dict :: "transition \<Rightarrow> payload" where
  "transition_to_dict t = transition_payload t @ [(''digest'', JStr (transition_digest t))]"

definition read_transition :: "payload \<Rightarrow> transition result" where
  "read_transition d =
     bindE (item_str d ''transition_id'') (\<lambda>transition_id.
     bindE (item_str d ''subject_id'') (\<lambda>subject_id.
     bindE (item_str d ''from_state'') (\<lambda>from_state.
     bindE (item_str d ''to_state'') (\<lambda>to_state.
     bindE (bindE (item_str d ''occurred_at'') (\<lambda>t. parse_datetime t ''occurred_at'')) (\<lambda>occurred_at.
     bindE (item_str d ''actor'') (\<lambda>actor.
     bindE (item_str d ''evidence_chain_id'') (\<lambda>evidence_chain_id.
     bindE (item_str d ''evidence_chain_digest'') (\<lambda>evidence_chain_digest.
     bindE (item_str d ''decision'') (\<lambda>decision.
     bindE (string_sequence (get_or d ''rationale'' (JArr [])) ''rationale'') (\<lambda>rationale.
     construct transition_post_init
       \<lparr>rt_transition_id = transition_id, rt_subject_id = subject_id, rt_from_state = from_state,
        rt_to_state = to_state, rt_occurred_at = occurred_at, rt_actor = actor,
        rt_evidence_chain_id = evidence_chain_id, rt_evidence_chain_digest = evidence_chain_digest,
        rt_decision = decision, rt_rationale = rationale,
        rt_previous = get_str d ''previous_transition_digest'' [], rt_digest = []\<rparr>))))))))))"

definition without_digest :: "payload \<Rightarrow> payload" where
  "without_digest d = filter (\<lambda>kv. fst kv \<noteq> ''digest'') d"

definition transition_from_dict :: "payload \<Rightarrow> transition result" where
  "transition_from_dict d =
     (let supplied = get_str d ''digest'' []
      in bindE (guards [(supplied \<noteq> [] \<and> supplied \<noteq> digest_of (without_digest d),
           ValueError ''digest mismatch'')]) (\<lambda>_.
         bindE (read_transition d) (\<lambda>t.
         bindE (guards [(supplied \<noteq> [] \<and> supplied \<noteq> transition_digest t,
           ValueError ''digest mismatch'')]) (\<lambda>_. Inr t))))"

section \<open>Snapshots\<close>

record snapshot =
  rs_subject_id :: string
  rs_state :: string
  rs_transition_id :: "string option"
  rs_transition_digest :: "string option"
  rs_evidence_chain_id :: "string option"

definition snapshot_post_init :: "snapshot \<Rightarrow> unit result" where
  "snapshot_post_init s = guards [
     (blank (rs_subject_id s), ValueError ''subject_id''),
     (rs_state s \<notin> set reliability_states, ValueError ''state''),
     (case rs_transition_digest s of None \<Rightarrow> False | Some h \<Rightarrow> \<not> is_sha256 h,
        ValueError ''transition_digest'')]"

definition snapshot_to_dict :: "snapshot \<Rightarrow> payload" where
  "snapshot_to_dict s = [
     (''subject_id'', JStr (rs_subject_id s)),
     (''state'', JStr (rs_state s)),
     (''transition_id'', jopt_str (rs_transition_id s)),
     (''transition_digest'', jopt_str (rs_transition_digest s)),
     (''evidence_chain_id'', jopt_str (rs_evidence_chain_id s))]"

section \<open>Facts\<close>

definition transition_ok :: "transition \<Rightarrow> bool" where
  "transition_ok t = (transition_post_init t = Inr () \<and> dt_ok (rt_occurred_at t) \<and> rt_digest t = [])"

lemma json_ok_transition_payload [simp]: "json_ok (\<lambda>s. True) (JObj (transition_payload t))"
  by (simp add: transition_payload_def)

lemma json_ok_transition_to_dict [simp]: "json_ok (\<lambda>s. True) (JObj (transition_to_dict t))"
  by (simp add: transition_to_dict_def) (simp add: transition_payload_def)

lemma allowed_states: "allowed a b \<Longrightarrow> a \<in> set reliability_states \<and> b \<in> set reliability_states \<and> a \<noteq> b"
  by (auto simp: allowed_def dict_get_def opt_or_def allowed_transitions_def reliability_states_def
      split: if_splits)

definition transition_keys :: "string list" where
  "transition_keys = map fst (transition_payload undefined)"

lemma read_transition_stored:
  assumes ok: "transition_ok t"
    and d: "\<And>k. k \<in> set transition_keys \<Longrightarrow> map_of d k = map_option sort_keys (map_of (transition_payload t) k)"
  shows "read_transition d = Inr t"
proof -
  have look: "list_all (\<lambda>k. map_of d k = map_option sort_keys (map_of (transition_payload t) k)) transition_keys"
    using d by (simp add: list_all_iff)
  note look = look [unfolded transition_keys_def transition_payload_def, simplified]
  obtain u where at: "rt_occurred_at t = Aware u" "in_range u"
    using ok by (cases "rt_occurred_at t")
      (auto simp: transition_ok_def transition_post_init_def dt_ok_def)
  have eta: "\<lparr>rt_transition_id = rt_transition_id t, rt_subject_id = rt_subject_id t,
      rt_from_state = rt_from_state t, rt_to_state = rt_to_state t, rt_occurred_at = Aware u,
      rt_actor = rt_actor t, rt_evidence_chain_id = rt_evidence_chain_id t,
      rt_evidence_chain_digest = rt_evidence_chain_digest t, rt_decision = rt_decision t,
      rt_rationale = rt_rationale t, rt_previous = rt_previous t, rt_digest = []\<rparr> = t"
    using ok at by (simp add: transition_ok_def)
  show ?thesis
    using look ok
    by (simp add: read_transition_def item_str_def get_or_def get_str_def at
        parse_datetime_utc_iso eta construct_ok transition_ok_def)
qed

lemma read_transition_ok: "read_transition d = Inr t \<Longrightarrow> transition_ok t"
  unfolding read_transition_def
  by (elim bindE_InrE) (auto simp: construct_Inr_iff transition_ok_def dest: parse_datetime_ok)

lemma without_digest_to_dict [simp]: "without_digest (transition_to_dict t) = transition_payload t"
  by (simp add: without_digest_def transition_to_dict_def transition_payload_def)

lemma map_of_without_digest: "map_of (without_digest d) k = (if k = ''digest'' then None else map_of d k)"
  unfolding without_digest_def by (induction d) auto

lemma transition_from_dict_stored:
  assumes "transition_ok t" "stored d (transition_to_dict t)" "distinct (map fst d)"
  shows "transition_from_dict d = Inr t"
proof -
  have "read_transition d = Inr t"
    by (rule read_transition_stored [OF assms(1)])
      (auto simp: storedD [OF assms(2)] transition_to_dict_def transition_keys_def transition_payload_def)
  moreover have "digest_of (without_digest d) = transition_digest t"
    unfolding transition_digest_def
  proof (rule digest_of_cong)
    show "distinct (map fst (without_digest d))"
      using assms(3) by (simp add: without_digest_def distinct_map_filter)
    show "distinct (map fst (transition_payload t))"
      by (simp add: json_ok_JObjD)
    show "map_option sort_keys (map_of (without_digest d) k) =
        map_option sort_keys (map_of (transition_payload t) k)" for k
    proof (cases "k = ''digest''")
      case True
      with map_of_without_digest [of "transition_to_dict t" k] show ?thesis
        by (simp add: map_of_without_digest)
    next
      case False
      have "map_of (transition_payload t) k = map_of (transition_to_dict t) k"
        using map_of_without_digest [of "transition_to_dict t" k] False by simp
      moreover have "map_option (sort_keys \<circ> sort_keys) (map_of (transition_to_dict t) k) =
          map_option sort_keys (map_of (transition_to_dict t) k)"
      proof (cases "map_of (transition_to_dict t) k")
        case (Some v)
        then have "json_ok (\<lambda>s. True) v"
          using json_ok_transition_to_dict [of t] by (auto simp: json_ok.simps(4) dest!: map_of_SomeD)
        with Some show ?thesis by simp
      qed simp
      ultimately show ?thesis
        unfolding map_of_without_digest storedD [OF assms(2)] if_not_P [OF False]
        by (simp only: option.map_comp)
    qed
  qed
  moreover have "get_str d ''digest'' [] = transition_digest t"
    by (simp add: get_str_def get_or_def storedD [OF assms(2)] transition_to_dict_def transition_payload_def)
  ultimately show ?thesis
    by (simp add: transition_from_dict_def)
qed

lemma digest_checked:
  "bindE (guards [(s \<noteq> [] \<and> s \<noteq> a, e)])
     (\<lambda>_. bindE m (\<lambda>t. bindE (guards [(s \<noteq> [] \<and> s \<noteq> h t, e)]) (\<lambda>_. Inr t))) = Inr t \<Longrightarrow>
   m = Inr t \<and> (s = [] \<or> s = h t)"
  by (auto simp: bindE_eq_Inr_iff)

lemma transition_from_dict_Inr:
  assumes "transition_from_dict d = Inr t"
  shows "transition_ok t" and "get_str d ''digest'' [] \<in> {[], transition_digest t}"
    and "read_transition d = Inr t"
proof -
  have "read_transition d = Inr t \<and> (get_str d ''digest'' [] = [] \<or> get_str d ''digest'' [] = transition_digest t)"
    using assms unfolding transition_from_dict_def Let_def by (rule digest_checked)
  then show r: "read_transition d = Inr t" and "get_str d ''digest'' [] \<in> {[], transition_digest t}"
    by simp_all
  from r show "transition_ok t" by (rule read_transition_ok)
qed

lemma transition_digest_inject:
  assumes "transition_digest t = transition_digest u" "transition_ok t" "transition_ok u"
  shows "t = u \<or> digest_collision (transition_payload t) (transition_payload u)"
proof (cases "digest_collision (transition_payload t) (transition_payload u)")
  case False
  with digest_of_inject [of "transition_payload t" "transition_payload u"] assms(1)
  have *: "map_option sort_keys (map_of (transition_payload t) k) =
      map_option sort_keys (map_of (transition_payload u) k)" for k
    by (simp add: transition_digest_def)
  have d: "stored (sorted_payload (transition_payload t)) (transition_payload t)"
    by (simp add: stored_sorted_payload)
  have "read_transition (sorted_payload (transition_payload t)) = Inr t"
    by (rule read_transition_stored [OF assms(2)]) (simp add: storedD [OF d])
  moreover have "read_transition (sorted_payload (transition_payload t)) = Inr u"
    by (rule read_transition_stored [OF assms(3)]) (simp add: storedD [OF d] *)
  ultimately show ?thesis by simp
qed simp

lemma transition_to_dict_inject:
  assumes "transition_to_dict t = transition_to_dict u" "transition_ok t" "transition_ok u"
  shows "t = u"
proof -
  have "transition_from_dict (sorted_payload (transition_to_dict v)) = Inr v" if "transition_ok v" for v
    by (rule transition_from_dict_stored [OF that stored_sorted_payload [OF json_ok_transition_to_dict]
        json_ok_JObjD [OF json_ok_sorted_payload [OF json_ok_transition_to_dict]]])
  from this [OF assms(2)] this [OF assms(3)] have "Inr t = (Inr u :: transition result)"
    unfolding assms(1) by (rule subst)
  then show ?thesis by simp
qed

section \<open>The contracts of a transition\<close>

text \<open>
  C15: the lifecycle gate. Whatever mapping \<open>from_dict\<close> accepts as a transition follows the allowed
  edges: it leaves a state for another one, never enters \<open>unknown\<close>, enters \<open>recovered\<close> only from
  \<open>unreliable\<close>, and its decision is the one its target requires (accept for reliable and recovered,
  review for degraded, reject for unreliable).
\<close>

theorem transition_gate:
  assumes "transition_from_dict d = Inr t"
  shows "allowed (rt_from_state t) (rt_to_state t) \<and> rt_from_state t \<noteq> rt_to_state t \<and>
    rt_to_state t \<noteq> ''unknown'' \<and>
    (rt_to_state t = ''recovered'' \<longrightarrow> rt_from_state t = ''unreliable'') \<and>
    (rt_decision t = ''accept'' \<longleftrightarrow> rt_to_state t \<in> {''reliable'', ''recovered''}) \<and>
    (rt_decision t = ''review'' \<longleftrightarrow> rt_to_state t = ''degraded'') \<and>
    (rt_decision t = ''reject'' \<longleftrightarrow> rt_to_state t = ''unreliable'')"
proof -
  have p: "transition_post_init t = Inr ()"
    using transition_from_dict_Inr(1) [OF assms] by (simp add: transition_ok_def)
  then have al: "allowed (rt_from_state t) (rt_to_state t)"
    and st: "rt_to_state t \<in> set reliability_states"
    and dec: "rt_decision t \<in> {''accept'', ''review'', ''reject''}"
    "rt_to_state t = ''reliable'' \<longrightarrow> rt_decision t = ''accept''"
    "rt_to_state t = ''recovered'' \<longrightarrow> rt_decision t = ''accept''"
    "rt_to_state t = ''degraded'' \<longrightarrow> rt_decision t = ''review''"
    "rt_to_state t = ''unreliable'' \<longrightarrow> rt_decision t = ''reject''"
    by (simp_all add: transition_post_init_def) argo+
  have e: "list_all (\<lambda>(a, bs). ''unknown'' \<notin> set bs \<and> (''recovered'' \<in> set bs \<longrightarrow> a = ''unreliable''))
      allowed_transitions"
    by code_simp
  obtain bs where bs: "(rt_from_state t, bs) \<in> set allowed_transitions" "rt_to_state t \<in> set bs"
    using al by (cases "map_of allowed_transitions (rt_from_state t)")
      (auto simp: allowed_def dict_get_def opt_or_def dest: map_of_SomeD)
  have out: "''unknown'' \<notin> set bs \<and> (''recovered'' \<in> set bs \<longrightarrow> rt_from_state t = ''unreliable'')"
    using e [unfolded list_all_iff, rule_format, OF bs(1)] by simp
  then have "rt_to_state t \<noteq> ''unknown''"
    using bs(2) by metis
  moreover have "rt_to_state t = ''recovered'' \<longrightarrow> rt_from_state t = ''unreliable''"
    using out bs(2) by metis
  moreover have "rt_to_state t = ''unknown'' \<or> rt_to_state t = ''reliable'' \<or> rt_to_state t = ''degraded'' \<or>
      rt_to_state t = ''unreliable'' \<or> rt_to_state t = ''recovered''"
    using st by (simp add: reliability_states_def)
  moreover have "rt_from_state t \<noteq> rt_to_state t"
    using allowed_states [OF al] by simp
  ultimately show ?thesis
    using al dec(2-5) by (elim disjE) simp_all
qed

text \<open>
  A transition document is tamper-evident: if it carries the digest of the transition \<open>t\<close> and is
  accepted, it is read as \<open>t\<close>, or a SHA-256 collision has been found.
\<close>

theorem transition_tamper_evident:
  assumes "transition_ok t" "map_of d ''digest'' = Some (JStr (transition_digest t))"
    and "transition_from_dict d = Inr u"
  shows "u = t \<or> digest_collision (transition_payload u) (transition_payload t)"
proof -
  have "get_str d ''digest'' [] = transition_digest t"
    using assms(2) by (simp add: get_str_def get_or_def)
  then have "transition_digest u = transition_digest t"
    using transition_from_dict_Inr(2) [OF assms(3)] by (simp add: transition_digest_def)
  then show ?thesis
    by (intro transition_digest_inject transition_from_dict_Inr(1) [OF assms(3)] assms(1))
qed

definition sample_transition :: transition where
  "sample_transition = \<lparr>rt_transition_id = ''t1'', rt_subject_id = ''s'', rt_from_state = ''unknown'',
     rt_to_state = ''reliable'', rt_occurred_at = Aware 5, rt_actor = ''op'',
     rt_evidence_chain_id = ''c'', rt_evidence_chain_digest = replicate 64 CHR ''f'',
     rt_decision = ''accept'', rt_rationale = [''r''], rt_previous = [], rt_digest = []\<rparr>"

lemma sample_transition_ok: "transition_ok sample_transition"
  by code_simp

lemma sample_transition_stored:
  "stored (sorted_payload (transition_to_dict t)) (transition_to_dict t)"
  "distinct (map fst (sorted_payload (transition_to_dict t)))"
  by (rule stored_sorted_payload [OF json_ok_transition_to_dict],
      rule json_ok_JObjD [OF json_ok_sorted_payload [OF json_ok_transition_to_dict]])

lemma sample_transition_read:
  "transition_from_dict (sorted_payload (transition_to_dict sample_transition)) = Inr sample_transition"
  "map_of (sorted_payload (transition_to_dict sample_transition)) ''digest'' =
    Some (JStr (transition_digest sample_transition))"
proof -
  show "transition_from_dict (sorted_payload (transition_to_dict sample_transition)) = Inr sample_transition"
    by (rule transition_from_dict_stored [OF sample_transition_ok sample_transition_stored])
  show "map_of (sorted_payload (transition_to_dict sample_transition)) ''digest'' =
      Some (JStr (transition_digest sample_transition))"
    unfolding storedD [OF sample_transition_stored(1)]
    by (simp add: transition_to_dict_def transition_payload_def)
qed

lemma transition_gate_witness:
  "allowed (rt_from_state sample_transition) (rt_to_state sample_transition) \<and>
   rt_decision sample_transition = ''accept''"
  using transition_gate [OF sample_transition_read(1)] by (simp add: sample_transition_def)

lemma transition_tamper_evident_witness:
  "sample_transition = sample_transition \<or>
    digest_collision (transition_payload sample_transition) (transition_payload sample_transition)"
  by (rule transition_tamper_evident [OF sample_transition_ok sample_transition_read(2)
      sample_transition_read(1)])

end
