(* ===== verification/Lines.thy ===== *)
theory Lines
  imports JsonSupport
begin

text \<open>
  Text files of JSON lines: \<open>str.splitlines\<close> on UTF-8 text, the split of a file into its complete
  lines and an unterminated rest, and the facts a store of canonical lines needs: a line printed with
  the default \<open>ensure_ascii\<close> is printable ASCII, hence one line of the file and valid UTF-8, no strict
  prefix of it is a JSON document, and neither is a line with another one glued to it.
\<close>

abbreviation LF :: char where
  "LF \<equiv> CHR 0x0A"

section \<open>Lines\<close>

text \<open>The text after a line boundary at the front, if there is one.\<close>

definition after_break :: "string \<Rightarrow> string option" where
  "after_break s =
     (case s of
        [] \<Rightarrow> None
      | c # t \<Rightarrow>
          if byte c = 13 then (case t of d # u \<Rightarrow> if d = LF then Some u else Some t | [] \<Rightarrow> Some t)
          else if byte c \<in> {10, 11, 12, 28, 29, 30} then Some t
          else if byte c = 194 then
            (case t of d # u \<Rightarrow> if byte d = 133 then Some u else None | [] \<Rightarrow> None)
          else if byte c = 226 then
            (case t of
               d # e # u \<Rightarrow> if byte d = 128 \<and> (byte e = 168 \<or> byte e = 169) then Some u else None
             | _ \<Rightarrow> None)
          else None)"

lemma after_break_shorter: "after_break s = Some u \<Longrightarrow> length u < length s"
  by (auto simp: after_break_def split: list.splits if_splits)

function splitlines :: "string \<Rightarrow> string list" where
  "splitlines [] = []"
| "splitlines (c # t) =
     (case after_break (c # t) of
        Some u \<Rightarrow> [] # splitlines u
      | None \<Rightarrow> (case splitlines t of [] \<Rightarrow> [[c]] | l # ls \<Rightarrow> (c # l) # ls))"
  by pat_completeness auto
termination
  by (relation "measure length") (auto dest: after_break_shorter)

definition terminated :: "string \<Rightarrow> bool" where
  "terminated raw = (raw \<noteq> [] \<and> last raw = LF)"

text \<open>Up to and including the last newline, and the rest: \<open>raw.rfind(b"\n")\<close>.\<close>

definition complete_part :: "string \<Rightarrow> string" where
  "complete_part raw = rev (dropWhile (\<lambda>c. c \<noteq> LF) (rev raw))"

definition tail_part :: "string \<Rightarrow> string" where
  "tail_part raw = rev (takeWhile (\<lambda>c. c \<noteq> LF) (rev raw))"

lemma complete_tail: "complete_part raw @ tail_part raw = raw"
  unfolding complete_part_def tail_part_def
  by (metis rev_append rev_rev_ident takeWhile_dropWhile_id)

lemma parts_append:
  assumes "LF \<notin> set q" "p = [] \<or> terminated p"
  shows "complete_part (p @ q) = p" "tail_part (p @ q) = q"
proof -
  have d: "dropWhile (\<lambda>c. c \<noteq> LF) (rev p) = rev p" and t: "takeWhile (\<lambda>c. c \<noteq> LF) (rev p) = []"
    using assms(2) by (cases p rule: rev_cases; auto simp: terminated_def)+
  have "takeWhile (\<lambda>c. c \<noteq> LF) (rev q @ rev p) = rev q @ takeWhile (\<lambda>c. c \<noteq> LF) (rev p)"
    "dropWhile (\<lambda>c. c \<noteq> LF) (rev q @ rev p) = dropWhile (\<lambda>c. c \<noteq> LF) (rev p)"
    using assms(1) by (auto intro!: takeWhile_append2 dropWhile_append2)
  with d t show "complete_part (p @ q) = p" "tail_part (p @ q) = q"
    by (simp_all add: complete_part_def tail_part_def)
qed

section \<open>Printable lines\<close>

definition printable :: "char \<Rightarrow> bool" where
  "printable c = (32 \<le> byte c \<and> byte c < 127)"

lemma printable_not_LF: "list_all printable l \<Longrightarrow> LF \<notin> set l"
  by (auto simp: list_all_iff printable_def byte_def)

lemma after_break_printable: "printable c \<Longrightarrow> after_break (c # t) = None"
  by (auto simp: after_break_def printable_def)

lemma splitlines_LF: "splitlines (LF # r) = [] # splitlines r"
  by (simp add: after_break_def byte_def)

lemma splitlines_line:
  "list_all printable l \<Longrightarrow> splitlines (l @ LF # r) = l # splitlines r"
  by (induction l) (simp_all add: splitlines_LF after_break_printable del: splitlines.simps(2)
      add: splitlines.simps(2) [of _ "_ @ _"])

lemma splitlines_last:
  "list_all printable l \<Longrightarrow> l \<noteq> [] \<Longrightarrow> splitlines l = [l]"
proof (induction l)
  case (Cons c l)
  then show ?case by (cases l) (simp_all add: after_break_printable)
qed simp

lemma utf8_ok_ascii: "list_all (\<lambda>c. byte c < 128) s \<Longrightarrow> utf8_ok s"
proof (induction s)
  case (Cons a s)
  then show ?case by (auto simp: utf8_ok_def)
qed (simp add: utf8_ok_def)

lemma printable_byte: "list_all printable s \<Longrightarrow> list_all (\<lambda>c. byte c < 128) s"
  by (auto simp: list_all_iff printable_def)

lemma printable_hex4: "list_all printable (hex4 u)"
proof -
  have "list_all printable ''0123456789abcdef''"
    by (simp add: printable_def byte_def)
  then have "printable (''0123456789abcdef'' ! (k mod 16))" for k
    unfolding list_all_length by simp
  then show ?thesis by (simp add: hex4_def)
qed

lemma printable_esc_unicode: "32 \<le> u \<Longrightarrow> list_all printable (esc_unicode u)"
  by (auto simp: esc_unicode_def printable_hex4) (simp_all add: printable_def byte_def)

lemma printable_esc_code: "list_all printable (esc_code esc_unicode u)"
  using printable_esc_unicode [of u]
  by (auto simp: esc_code_def printable_hex4) (simp_all add: printable_def byte_def)

lemma printable_esc_ascii: "list_all printable (esc_ascii s)"
  by (simp add: esc_ascii_def list_all_iff) (use printable_esc_code in \<open>auto simp: list_all_iff\<close>)

lemma printable_digits: "list_all is_digit ds \<Longrightarrow> list_all printable ds"
  by (auto simp: list_all_iff is_digit_def printable_def)

lemma printable_dec_int: "list_all printable (dec_int i)"
proof -
  have "list_all printable (dec_nat n)" for n
    by (rule printable_digits [OF digits_dec_nat])
  then show ?thesis
    by (simp add: dec_int_def printable_def byte_def)
qed

lemma printable_punct [simp]:
  "printable CHR ''[''" "printable CHR '']''" "printable CHR ''{''" "printable CHR ''}''"
  "printable CHR '',''" "printable CHR '':''" "printable CHR 0x22"
  by (simp_all add: printable_def byte_def)

lemma printable_render_list:
  assumes "\<And>v. v \<in> set vs \<Longrightarrow> list_all printable (render esc v)"
  shows "list_all printable (render_elems esc vs)"
  using assms by (induction vs) auto

lemma printable_render_members:
  assumes "\<And>kv. kv \<in> set kvs \<Longrightarrow> list_all printable (render esc (snd kv))"
    and "\<And>s. list_all printable (esc s)"
  shows "list_all printable (render_members esc kvs)"
  using assms by (induction kvs) (auto simp: quoted_def)

lemma printable_render: "json_ok ok v \<Longrightarrow> list_all printable (render esc_ascii v)"
proof (induction v)
  case (JObj kvs)
  then have "\<And>kv. kv \<in> set kvs \<Longrightarrow> list_all printable (render esc_ascii (snd kv))"
    by (metis json_ok.simps(4) prod.collapse snds.intros)
  then show ?case
    by (simp add: printable_render_members printable_esc_ascii)
next
  case JNull
  show ?case by (simp add: printable_def byte_def)
next
  case (JBool b)
  show ?case by (simp add: printable_def byte_def)
qed (simp_all add: printable_render_list printable_dec_int printable_esc_ascii quoted_def)

section \<open>Lines that hold one object\<close>

definition json_line :: "payload \<Rightarrow> string" where
  "json_line d = canonical_ascii (JObj d)"

lemma json_line_printable: "json_ok utf8_ok (JObj d) \<Longrightarrow> list_all printable (json_line d)"
  unfolding json_line_def canonical_ascii_def
  by (rule printable_render) (rule json_ok_sort_keys)

lemma json_line_start: "\<exists>t. json_line d = CHR ''{'' # t"
  by (simp add: json_line_def canonical_ascii_def sort_keys_JObj del: sort_keys.simps(2))

lemma json_line_not_Nil [simp]: "json_line d \<noteq> []"
  using json_line_start [of d] by auto

lemma json_line_not_blank [simp]: "\<not> blank (json_line d)"
  using json_line_start [of d] by auto

lemma loads_json_line:
  "json_ok utf8_ok (JObj d) \<Longrightarrow> loads (json_line d) = Some (JObj (sorted_payload d))"
  unfolding json_line_def by (simp add: loads_canonical_ascii sort_keys_JObj del: sort_keys.simps(2))

lemma p_value_json_line:
  assumes "json_ok utf8_ok (JObj d)"
  shows "p_value (Suc (length (json_line d))) (json_line d) = Some (JObj (sorted_payload d), [])"
proof -
  have r: "ascii.reads (JObj (sorted_payload d))"
    using ascii.reads_json_ok [OF json_ok_sort_keys [OF assms]] unfolding sort_keys_JObj .
  show ?thesis
    using ascii.readsD [OF r, of _ "[]"]
    by (simp add: json_line_def canonical_ascii_def sort_keys_JObj del: sort_keys.simps(2))
qed

lemma torn_line:
  assumes "json_ok utf8_ok (JObj d)" "strict_prefix p (json_line d)"
  shows "loads p = None"
proof (cases p)
  case Nil
  then show ?thesis by (simp add: loads_def p_value.simps)
next
  case (Cons c t)
  obtain q where q: "json_line d = p @ q" "q \<noteq> []"
    using assms(2) by (auto elim!: strict_prefixE')
  have "c = CHR ''{''"
    using json_line_start [of d] q Cons by auto
  with Cons q p_value_json_line [OF assms(1)] show ?thesis
    by (intro loads_prefix_not_object [where n = "Suc (length (json_line d))"
        and m = "Suc (length (json_line d))"]) simp_all
qed

lemma glued_line:
  assumes "json_ok utf8_ok (JObj d)" "skip_ws q \<noteq> []"
  shows "loads (json_line d @ q) = None"
proof -
  obtain t where t: "json_line d = CHR ''{'' # t" using json_line_start by blast
  have "closed_start (json_line d)" using t by (simp add: closed_start_def)
  then have "p_value (Suc (length (json_line d @ q))) (json_line d @ q) =
      Some (JObj (sorted_payload d), [] @ q)"
    using parse_append [of "Suc (length (json_line d))" q] p_value_json_line [OF assms(1)] by simp
  moreover have "skip_ws (json_line d @ q) = json_line d @ q"
    using t by (simp add: is_ws_def)
  ultimately show ?thesis
    using assms(2) by (simp add: loads_def)
qed

section \<open>Files of such lines\<close>

text \<open>\<open>except (json.JSONDecodeError, TypeError, KeyError, ValueError)\<close> of the readers.\<close>

definition caught :: "exn \<Rightarrow> bool" where
  "caught e = (case e of KeyError _ \<Rightarrow> True | TypeError _ \<Rightarrow> True | _ \<Rightarrow> is_value_error e)"

definition json_lines :: "payload list \<Rightarrow> string" where
  "json_lines ps = concat (map (\<lambda>p. json_line p @ [LF]) ps)"

lemma json_lines_simps [simp]:
  "json_lines [] = []" "json_lines (p # ps) = json_line p @ LF # json_lines ps"
  "json_lines (ps @ qs) = json_lines ps @ json_lines qs"
  by (simp_all add: json_lines_def)

lemma splitlines_json_lines:
  "list_all (\<lambda>p. json_ok utf8_ok (JObj p)) ps \<Longrightarrow> splitlines (json_lines ps @ r) = map json_line ps @ splitlines r"
  by (induction ps) (simp_all add: splitlines_line json_line_printable)

lemma ascii_json_lines:
  "list_all (\<lambda>p. json_ok utf8_ok (JObj p)) ps \<Longrightarrow> list_all (\<lambda>c. byte c < 128) (json_lines ps)"
proof (induction ps)
  case (Cons p ps)
  with printable_byte [OF json_line_printable, of p] show ?case by (simp add: byte_def)
qed simp

section \<open>Strings of the program that are ASCII\<close>

lemma utf8_ok_append: "list_all (\<lambda>c. byte c < 128) a \<Longrightarrow> utf8_ok b \<Longrightarrow> utf8_ok (a @ b)"
  by (induction a) (auto simp: utf8_ok_def)

lemma utf8_ok_sha256: "is_sha256 s \<Longrightarrow> utf8_ok s"
proof (rule utf8_ok_ascii)
  assume "is_sha256 s"
  moreover have "list_all (\<lambda>c. byte c < 128) ''0123456789abcdef''"
    by (simp add: byte_def)
  ultimately show "list_all (\<lambda>c. byte c < 128) s"
    unfolding is_sha256_def hex_char_def list_all_iff by blast
qed

lemma iso_naive_bytes: "list_all (\<lambda>c. byte c < 128) (iso_naive t)"
proof -
  have d: "list_all (\<lambda>c. byte c < 128) ds" if "list_all is_digit ds" for ds
    using that by (auto simp: list_all_iff is_digit_def)
  have p: "list_all (\<lambda>c. byte c < 128) (pad k n)" for k n
    by (rule d [OF digits_pad])
  have "list_all (\<lambda>c. byte c < 128) (iso_date n)" for n
    using p by (auto simp: iso_date_def byte_def split: prod.split)
  moreover have "list_all (\<lambda>c. byte c < 128) (iso_time u)" for u
    using p by (simp add: iso_time_def Let_def byte_def)
  ultimately show ?thesis by (simp add: iso_naive_def byte_def)
qed

lemma utf8_ok_utc_iso:
  "in_range t \<Longrightarrow> utf8_ok (utc_iso (Aware t))"
  using iso_naive_bytes [of t] by (intro utf8_ok_ascii) (simp add: utc_iso_def byte_def)

lemma json_okI:
  "distinct (map fst d) \<Longrightarrow> list_all ok (map fst d) \<Longrightarrow> list_all (json_ok ok) (map snd d) \<Longrightarrow>
    json_ok ok (JObj d)"
  by (auto simp: json_ok.simps(4) list_all_iff)

section \<open>Documents written with an indentation\<close>

definition ascii :: "char \<Rightarrow> bool" where
  "ascii c = (byte c < 128)"

lemma ascii_punct [simp]:
  "ascii CHR ''[''" "ascii CHR '']''" "ascii CHR ''{''" "ascii CHR ''}''" "ascii CHR '',''" "ascii CHR '':''"
  "ascii CHR '' ''" "ascii CHR 0x22" "ascii CHR 0x0A"
  by (simp_all add: ascii_def byte_def)

lemma ascii_printable: "list_all printable s \<Longrightarrow> list_all ascii s"
  by (auto simp: list_all_iff printable_def ascii_def)

lemma ascii_new_line [simp]: "list_all ascii (new_line n)"
  by (simp add: new_line_def list_all_iff)

lemma ascii_pretty_elems:
  "(\<And>v. v \<in> set vs \<Longrightarrow> list_all ascii (pretty n v)) \<Longrightarrow> list_all ascii (pretty_elems n vs)"
  by (induction vs) auto

lemma ascii_pretty_members:
  "(\<And>kv. kv \<in> set kvs \<Longrightarrow> list_all ascii (pretty n (snd kv))) \<Longrightarrow> list_all ascii (pretty_members n kvs)"
  by (induction kvs) (auto simp: quoted_def ascii_printable [OF printable_esc_ascii])

lemma ascii_pretty: "json_ok ok v \<Longrightarrow> list_all ascii (pretty n v)"
proof (induction v arbitrary: n)
  case (JObj kvs)
  then have "kv \<in> set kvs \<Longrightarrow> list_all ascii (pretty k (snd kv))" for kv k
    by (metis json_ok.simps(4) prod.collapse snds.intros)
  then show ?case by (simp add: ascii_pretty_members)
next
  case (JArr vs)
  then show ?case by (simp add: ascii_pretty_elems)
qed (simp_all add: ascii_printable [OF printable_render] del: render.simps)

lemma utf8_ok_indented: "json_ok ok v \<Longrightarrow> utf8_ok (indented v)"
  using ascii_pretty [OF json_ok_sort_keys, of ok v 0]
  by (intro utf8_ok_ascii) (auto simp: indented_def ascii_def byte_def list_all_iff)

lemma json_ok_weaken: "json_ok ok v \<Longrightarrow> json_ok (\<lambda>s. True) v"
proof (induction v)
  case (JObj kvs)
  then show ?case by (fastforce simp: json_ok.simps(4) snds.simps)
qed auto

lemma load_object_indented:
  assumes "json_ok utf8_ok (JObj d)"
  shows "load_object (fs(p \<mapsto> indented (JObj d))) p field = Inr (sorted_payload d)"
proof -
  have "loads (indented (JObj d)) = Some (JObj (sorted_payload d))"
    using loads_indented [OF assms] by (simp add: sort_keys_JObj del: sort_keys.simps)
  moreover have "require_object (JObj (sorted_payload d)) field = Inr (sorted_payload d)"
    by (intro require_object_id json_ok_sorted_payload json_ok_weaken [OF assms])
  ultimately show ?thesis
    using utf8_ok_indented [OF assms] by (simp add: load_object_def loads_object_def)
qed

lemma stored_written: "json_ok utf8_ok (JObj d) \<Longrightarrow> stored (sorted_payload d) d"
  by (intro stored_sorted_payload json_ok_weaken)

end
