(* ===== verification/StateStore.thy ===== *)
theory StateStore
  imports ReliabilityState Lines
begin

text \<open>
  \<open>adapters/reliability_state.py\<close>: the append-only history of state transitions, as a JSONL file
  with crash recovery and as a SQLite table. Both refine one abstract history, stated as the locale
  \<open>state_store\<close>, on which the services rest.
\<close>

section \<open>The abstract history\<close>

text \<open>The tip of a subject: the digest of its last transition, or the empty string.\<close>

definition of_subject :: "string \<Rightarrow> transition list \<Rightarrow> transition list" where
  "of_subject s h = filter (\<lambda>t. rt_subject_id t = s) h"

definition select :: "string option \<Rightarrow> transition list \<Rightarrow> transition list" where
  "select s h = (case s of None \<Rightarrow> h | Some x \<Rightarrow> of_subject x h)"

definition tip :: "transition list \<Rightarrow> string \<Rightarrow> string" where
  "tip h s = (if of_subject s h = [] then [] else transition_digest (last (of_subject s h)))"

text \<open>What appending a transition to a history does: an idempotent return, an error, or one more entry.\<close>

definition append_spec :: "transition list \<Rightarrow> transition \<Rightarrow> (transition \<times> transition list) result" where
  "append_spec h t =
     (case find_first (\<lambda>e. rt_transition_id e = rt_transition_id t) h of
        Some e \<Rightarrow>
          if transition_to_dict e \<noteq> transition_to_dict t then Inl (ValueError ''identity collision'')
          else Inr (e, h)
      | None \<Rightarrow>
          bindE (guards [
            (rt_previous t \<noteq> tip h (rt_subject_id t), ValueError ''stale tip''),
            (of_subject (rt_subject_id t) h \<noteq> [] \<and>
               rt_from_state t \<noteq> rt_to_state (last (of_subject (rt_subject_id t) h)),
               ValueError ''predecessor mismatch'')]) (\<lambda>_. Inr (t, h @ [t])))"

text \<open>
  A valid stored transition: constructed, and its strings are encodable. Every place of the program
  that builds a transition leaves \<open>digest\<close> empty.
\<close>

definition storable :: "transition \<Rightarrow> bool" where
  "storable t = (transition_ok t \<and> json_ok utf8_ok (JObj (transition_to_dict t)))"

text \<open>
  A linked history: the identities are distinct, and each entry continues the last one of its subject, by digest and by
  state.
\<close>

fun linked :: "transition list \<Rightarrow> transition list \<Rightarrow> bool" where
  "linked h [] = True"
| "linked h (t # ts) =
     (rt_previous t = tip h (rt_subject_id t) \<and>
      (of_subject (rt_subject_id t) h \<noteq> [] \<longrightarrow>
         rt_from_state t = rt_to_state (last (of_subject (rt_subject_id t) h))) \<and>
      linked (h @ [t]) ts)"

definition history_ok :: "transition list \<Rightarrow> bool" where
  "history_ok h = (list_all storable h \<and> linked [] h \<and> distinct (map rt_transition_id h))"

lemma of_subject_simps [simp]:
  "of_subject s [] = []"
  "of_subject s (h @ g) = of_subject s h @ of_subject s g"
  "of_subject s (t # h) = (if rt_subject_id t = s then t # of_subject s h else of_subject s h)"
  by (simp_all add: of_subject_def)

lemma tip_Nil [simp]: "tip [] s = []"
  by (simp add: tip_def)

lemma tip_snoc [simp]:
  "tip (h @ [t]) s = (if rt_subject_id t = s then transition_digest t else tip h s)"
  by (simp add: tip_def)

lemma linked_append: "linked h (ts @ us) \<longleftrightarrow> linked h ts \<and> linked (h @ ts) us"
  by (induction ts arbitrary: h) auto

lemma history_ok_Nil [simp]: "history_ok []"
  by (simp add: history_ok_def)

lemma append_spec_ok:
  assumes "history_ok h" "storable t" "append_spec h t = Inr (u, h')"
  shows "history_ok h'" and "u = t" and "h' = (if t \<in> set h then h else h @ [t])"
    and "rt_transition_id t \<in> rt_transition_id ` set h \<longleftrightarrow> t \<in> set h"
proof -
  have "history_ok h' \<and> u = t \<and> h' = (if t \<in> set h then h else h @ [t]) \<and>
    (rt_transition_id t \<in> rt_transition_id ` set h \<longleftrightarrow> t \<in> set h)"
  proof (cases "find_first (\<lambda>e. rt_transition_id e = rt_transition_id t) h")
    case None
    then have n: "rt_transition_id t \<notin> rt_transition_id ` set h"
      by (auto simp: find_first_None)
    then have "t \<notin> set h" by auto
    with None n assms show ?thesis
      by (auto simp: append_spec_def history_ok_def linked_append bindE_eq_Inr_iff)
  next
    case (Some e)
    then have e: "e \<in> set h" "rt_transition_id e = rt_transition_id t"
      by (auto dest: find_first_Some)
    have eq: "transition_to_dict e = transition_to_dict t" "u = e" "h' = h"
      using assms(3) Some by (auto simp: append_spec_def split: if_splits)
    have "e = t"
      using eq e assms by (intro transition_to_dict_inject)
        (auto simp: history_ok_def list_all_iff storable_def)
    with e eq assms show ?thesis by auto
  qed
  then show "history_ok h'" and "u = t" and "h' = (if t \<in> set h then h else h @ [t])"
    and "rt_transition_id t \<in> rt_transition_id ` set h \<longleftrightarrow> t \<in> set h"
    by blast+
qed

text \<open>A sequence of appends on any store: the results, and the final store.\<close>

fun run :: "('s \<Rightarrow> transition \<Rightarrow> transition result \<times> 's) \<Rightarrow> 's \<Rightarrow> transition list \<Rightarrow>
    transition result list \<times> 's" where
  "run f s [] = ([], s)"
| "run f s (t # ts) =
     (case f s t of (r, s') \<Rightarrow> case run f s' ts of (rs, s'') \<Rightarrow> (r # rs, s''))"

lemma run_Cons: "run f s (t # ts) =
    (fst (f s t) # fst (run f (snd (f s t)) ts), snd (run f (snd (f s t)) ts))"
  by (simp split: prod.split)

definition append_spec_step :: "transition list \<Rightarrow> transition \<Rightarrow> transition result \<times> transition list" where
  "append_spec_step h t =
     (case append_spec h t of Inl e \<Rightarrow> (Inl e, h) | Inr (u, h') \<Rightarrow> (Inr u, h'))"

section \<open>The interface of a store\<close>

text \<open>
  \<open>ReliabilityStateStore\<close>: an operation returns its result and the new store. A provider promises
  that from a store representing a good history, reading yields that history and appending does what
  \<open>append_spec\<close> does.
\<close>

locale state_store =
  fixes append :: "'s \<Rightarrow> transition \<Rightarrow> transition result \<times> 's"
    and read :: "'s \<Rightarrow> string option \<Rightarrow> transition list result \<times> 's"
    and represents :: "'s \<Rightarrow> transition list \<Rightarrow> bool"
  assumes represents_ok: "represents s h \<Longrightarrow> history_ok h"
    and read_ok: "represents s h \<Longrightarrow> read s subject = (Inr (select subject h), s)"
    and append_ok: "represents s h \<Longrightarrow> storable t \<Longrightarrow> append_spec h t = Inr (u, h') \<Longrightarrow>
      fst (append s t) = Inr u \<and> represents (snd (append s t)) h'"
    and append_error: "represents s h \<Longrightarrow> storable t \<Longrightarrow> append_spec h t = Inl e \<Longrightarrow>
      fst (append s t) = Inl e \<and> represents (snd (append s t)) h"
begin

text \<open>Appending a transition twice stores it once.\<close>

lemma append_idempotent:
  assumes "represents s h" "storable t" "fst (append s t) = Inr u"
  shows "u = t" and "append_spec h t = Inr (t, if t \<in> set h then h else h @ [t])"
    and "fst (append (snd (append s t)) t) = Inr t"
    and "represents (snd (append s t)) (if t \<in> set h then h else h @ [t])"
    and "represents (snd (append (snd (append s t)) t)) (if t \<in> set h then h else h @ [t])"
proof -
  obtain v h' where sp: "append_spec h t = Inr (v, h')"
    using assms append_error by (cases "append_spec h t") fastforce+
  then have v: "v = t" "h' = (if t \<in> set h then h else h @ [t])" and ok: "history_ok h'"
    using append_spec_ok [OF represents_ok [OF assms(1)] assms(2)] by blast+
  show "append_spec h t = Inr (t, if t \<in> set h then h else h @ [t])"
    using sp v by simp
  have r: "represents (snd (append s t)) h'" and "u = t"
    using append_ok [OF assms(1,2) sp] assms(3) v by simp_all
  then show "u = t" by simp
  from r v show "represents (snd (append s t)) (if t \<in> set h then h else h @ [t])" by simp
  have "t \<in> set h'" using v by simp
  moreover have "find_first (\<lambda>e. rt_transition_id e = rt_transition_id t) h' \<noteq> None"
    using \<open>t \<in> set h'\<close> unfolding find_first_None by blast
  then obtain e where e: "find_first (\<lambda>e. rt_transition_id e = rt_transition_id t) h' = Some e"
    by blast
  then have "e \<in> set h'" "rt_transition_id e = rt_transition_id t"
    by (auto dest: find_first_Some)
  then have "e = t"
    using \<open>t \<in> set h'\<close> ok by (auto simp: history_ok_def distinct_map inj_on_def)
  with e have "append_spec h' t = Inr (t, h')"
    by (simp add: append_spec_def)
  with append_ok [OF r assms(2)] v
  show "fst (append (snd (append s t)) t) = Inr t"
    and "represents (snd (append (snd (append s t)) t)) (if t \<in> set h then h else h @ [t])"
    by simp_all
qed

lemma append_step:
  assumes "represents s h" "storable t"
  shows "fst (append s t) = fst (append_spec_step h t)"
    and "represents (snd (append s t)) (snd (append_spec_step h t))"
  using append_ok [OF assms] append_error [OF assms]
  by (cases "append_spec h t"; auto simp: append_spec_step_def)+

text \<open>A sequence of appends behaves as the specification, step by step.\<close>

lemma run_refines:
  assumes "represents s h" "list_all storable ts"
  shows "fst (run append s ts) = fst (run append_spec_step h ts)" and
    "represents (snd (run append s ts)) (snd (run append_spec_step h ts))"
proof -
  have "fst (run append s ts) = fst (run append_spec_step h ts) \<and>
      represents (snd (run append s ts)) (snd (run append_spec_step h ts))"
    using assms
  proof (induction ts arbitrary: s h)
    case (Cons t ts)
    have step: "fst (append s t) = fst (append_spec_step h t)"
      "represents (snd (append s t)) (snd (append_spec_step h t))"
      using append_step [OF Cons.prems(1)] Cons.prems(2) by simp_all
    with Cons.IH [OF step(2)] Cons.prems(2) show ?case
      by (simp add: run_Cons del: run.simps(2))
  qed simp
  then show "fst (run append s ts) = fst (run append_spec_step h ts)" and
    "represents (snd (run append s ts)) (snd (run append_spec_step h ts))" by blast+
qed

text \<open>A history only grows.\<close>

lemma append_grows:
  assumes "represents s h" "storable t"
  shows "\<exists>h'. represents (snd (append s t)) h' \<and> prefix h h'"
proof (cases "append_spec h t")
  case (Inl e)
  with append_error [OF assms] show ?thesis by blast
next
  case (Inr uh)
  obtain u h' where uh: "uh = (u, h')" by (cases uh)
  with Inr append_ok [OF assms] append_spec_ok(3) [OF represents_ok [OF assms(1)] assms(2)]
  show ?thesis by (auto split: if_splits)
qed

end

section \<open>Reading a history from JSON lines\<close>

text \<open>One record of the history, checked against the tip of its subject.\<close>

definition check_record :: "(string \<rightharpoonup> string) \<Rightarrow> payload \<Rightarrow> transition \<Rightarrow> unit result" where
  "check_record tips payload t = guards [
     (rt_previous t \<noteq> opt_or (tips (rt_subject_id t)) [], ValueError ''previous digest''),
     (get_or payload ''digest'' JNull \<noteq> JStr (transition_digest t), ValueError ''stored digest'')]"

definition read_record :: "(string \<rightharpoonup> string) \<Rightarrow> string \<Rightarrow> transition result" where
  "read_record tips line =
     (case loads line of
        None \<Rightarrow> Inl (JSONDecodeError ''line'')
      | Some (JObj payload) \<Rightarrow>
          bindE (transition_from_dict payload) (\<lambda>t.
          bindE (check_record tips payload t) (\<lambda>_. Inr t))
      | Some _ \<Rightarrow> Inl (ValueError ''transition record must be a JSON object''))"

fun parse_lines :: "bool \<Rightarrow> (string \<rightharpoonup> string) \<Rightarrow> string option \<Rightarrow> string list \<Rightarrow> transition list result" where
  "parse_lines unterminated tips subject [] = Inr []"
| "parse_lines unterminated tips subject (line # rest) =
     (if blank line then parse_lines unterminated tips subject rest
      else case read_record tips line of
        Inl e \<Rightarrow>
          if \<not> caught e then Inl e
          else if unterminated \<and> rest = [] then Inl (ValueError ''incomplete final record'')
          else Inl (ValueError ''invalid transition'')
      | Inr t \<Rightarrow>
          bindE (parse_lines unterminated (tips(rt_subject_id t \<mapsto> transition_digest t)) subject rest)
            (\<lambda>ts. Inr (if subject = None \<or> subject = Some (rt_subject_id t) then t # ts else ts)))"

definition parse_history :: "string \<Rightarrow> string option \<Rightarrow> transition list result" where
  "parse_history raw subject =
     (if raw = [] then Inr []
      else if \<not> utf8_ok raw then Inl (ValueError ''utf-8'')
      else parse_lines (\<not> terminated raw) Map.empty subject (splitlines raw))"

section \<open>The JSONL store\<close>

text \<open>\<open>_recover_partial_tail\<close>: the contents after the repair.\<close>

definition recover_partial_tail :: "string \<Rightarrow> string result" where
  "recover_partial_tail raw =
     (if raw = [] \<or> terminated raw then Inr raw
      else
        let tail = tail_part raw;
            attempt =
              (if \<not> utf8_ok tail then Inl (UnicodeDecodeError ''tail'')
               else case loads tail of
                 None \<Rightarrow> Inl (JSONDecodeError ''tail'')
               | Some (JObj payload) \<Rightarrow> bindE (transition_from_dict payload) (\<lambda>_. Inr True)
               | Some _ \<Rightarrow> Inr False)
        in case attempt of
             Inr keep \<Rightarrow> Inr (if keep then raw else complete_part raw)
           | Inl e \<Rightarrow> if caught e then Inr (complete_part raw) else Inl e)"

text \<open>
  The store is the content of its file, \<open>None\<close> when the file does not exist. \<open>acquired\<close> says whether
  the lock was obtained within the timeout.
\<close>

type_synonym jsonl = "string option"

definition read_unlocked :: "bool \<Rightarrow> jsonl \<Rightarrow> string option \<Rightarrow> transition list result \<times> jsonl" where
  "read_unlocked recover file subject =
     (case file of
        None \<Rightarrow> (Inr [], None)
      | Some raw \<Rightarrow>
          (case (if recover then recover_partial_tail raw else Inr raw) of
             Inl e \<Rightarrow> (Inl e, Some raw)
           | Inr raw' \<Rightarrow> (parse_history raw' subject, Some raw')))"

definition jsonl_read :: "bool \<Rightarrow> bool \<Rightarrow> jsonl \<Rightarrow> string option \<Rightarrow> transition list result \<times> jsonl" where
  "jsonl_read acquired recover file subject =
     (if acquired then read_unlocked recover file subject
      else (Inl (TimeoutError ''reliability-state lock''), file))"

text \<open>The decision of \<open>append\<close>: an existing entry to return, or the permission to write.\<close>

definition jsonl_admit :: "transition list \<Rightarrow> transition \<Rightarrow> transition option result" where
  "jsonl_admit transitions t =
     (case find_first (\<lambda>e. rt_transition_id e = rt_transition_id t) transitions of
        Some existing \<Rightarrow>
          if transition_to_dict existing \<noteq> transition_to_dict t
          then Inl (ValueError ''identity collision'') else Inr (Some existing)
      | None \<Rightarrow>
          (let subject_transitions = filter (\<lambda>x. rt_subject_id x = rt_subject_id t) transitions;
               previous = (if subject_transitions = [] then None else Some (last subject_transitions));
               expected = (case previous of None \<Rightarrow> [] | Some p \<Rightarrow> transition_digest p)
           in bindE (guards [
                (rt_previous t \<noteq> expected, ValueError ''stale tip''),
                (case previous of None \<Rightarrow> False | Some p \<Rightarrow> rt_from_state t \<noteq> rt_to_state p,
                   ValueError ''predecessor mismatch'')]) (\<lambda>_. Inr None)))"

definition record_line :: "transition \<Rightarrow> string" where
  "record_line t = json_line (transition_to_dict t) @ [LF]"

text \<open>
  \<open>append\<close>, when the process stops after \<open>written\<close> bytes of the record; \<open>None\<close> is a completed write.
  The write loop appends the remaining bytes until all are written.
\<close>

definition jsonl_append_until ::
    "nat option \<Rightarrow> bool \<Rightarrow> bool \<Rightarrow> jsonl \<Rightarrow> transition \<Rightarrow> transition result \<times> jsonl" where
  "jsonl_append_until written acquired recover file t =
     (if \<not> acquired then (Inl (TimeoutError ''reliability-state lock''), file)
      else case read_unlocked recover file None of
        (Inl e, file') \<Rightarrow> (Inl e, file')
      | (Inr transitions, file') \<Rightarrow>
          (case jsonl_admit transitions t of
             Inl e \<Rightarrow> (Inl e, file')
           | Inr (Some existing) \<Rightarrow> (Inr existing, file')
           | Inr None \<Rightarrow>
               (Inr t, Some (opt_or file' [] @
                  (case written of None \<Rightarrow> record_line t | Some n \<Rightarrow> take n (record_line t))))))"

definition jsonl_append :: "bool \<Rightarrow> bool \<Rightarrow> jsonl \<Rightarrow> transition \<Rightarrow> transition result \<times> jsonl" where
  "jsonl_append = jsonl_append_until None"

section \<open>The SQLite store\<close>

text \<open>
  The table in the order of \<open>sequence\<close>. The identity is unique; the transaction is immediate, so
  the selects and the insert see one state and the unique constraint cannot be violated.
\<close>

record sql_row =
  sr_transition_id :: string
  sr_subject_id :: string
  sr_digest :: string
  sr_payload :: string

definition loads_transition :: "string \<Rightarrow> transition result" where
  "loads_transition text =
     (case loads text of
        None \<Rightarrow> Inl (JSONDecodeError ''payload'')
      | Some (JObj payload) \<Rightarrow> transition_from_dict payload
      | Some _ \<Rightarrow> Inl (AttributeError ''get''))"

definition sqlite_append :: "sql_row list \<Rightarrow> transition \<Rightarrow> transition result \<times> sql_row list" where
  "sqlite_append rows t =
     (case find_first (\<lambda>r. sr_transition_id r = rt_transition_id t) rows of
        Some row \<Rightarrow>
          (bindE (loads_transition (sr_payload row)) (\<lambda>existing.
             if transition_to_dict existing \<noteq> transition_to_dict t
             then Inl (ValueError ''identity collision'') else Inr existing), rows)
      | None \<Rightarrow>
          (let matching = filter (\<lambda>r. sr_subject_id r = rt_subject_id t) rows;
               row = (if matching = [] then None else Some (last matching));
               expected = (case row of None \<Rightarrow> [] | Some r \<Rightarrow> sr_digest r)
           in case bindE (guards [(rt_previous t \<noteq> expected, ValueError ''stale tip'')]) (\<lambda>_.
                  case row of
                    None \<Rightarrow> Inr ()
                  | Some r \<Rightarrow>
                      bindE (loads_transition (sr_payload r)) (\<lambda>previous.
                      guards [(rt_from_state t \<noteq> rt_to_state previous,
                        ValueError ''predecessor mismatch'')])) of
                Inl e \<Rightarrow> (Inl e, rows)
              | Inr _ \<Rightarrow>
                  (Inr t, rows @ [\<lparr>sr_transition_id = rt_transition_id t,
                     sr_subject_id = rt_subject_id t, sr_digest = transition_digest t,
                     sr_payload = json_line (transition_to_dict t)\<rparr>])))"

definition check_row :: "(string \<rightharpoonup> string) \<Rightarrow> sql_row \<Rightarrow> transition result" where
  "check_row tips row =
     (case loads (sr_payload row) of
        None \<Rightarrow> Inl (JSONDecodeError ''payload'')
      | Some (JObj payload) \<Rightarrow>
          bindE (transition_from_dict payload) (\<lambda>t.
          bindE (guards [
            (sr_subject_id row \<noteq> rt_subject_id t, ValueError ''subject_id column''),
            (sr_digest row \<noteq> transition_digest t, ValueError ''digest column'')]) (\<lambda>_.
          bindE (check_record tips payload t) (\<lambda>_. Inr t)))
      | Some _ \<Rightarrow> Inl (ValueError ''transition record must be a JSON object''))"

fun read_rows :: "(string \<rightharpoonup> string) \<Rightarrow> sql_row list \<Rightarrow> transition list result" where
  "read_rows tips [] = Inr []"
| "read_rows tips (row # rows) =
     (case check_row tips row of
        Inl e \<Rightarrow> if caught e then Inl (ValueError ''invalid transition'') else Inl e
      | Inr t \<Rightarrow>
          bindE (read_rows (tips(rt_subject_id t \<mapsto> transition_digest t)) rows)
            (\<lambda>ts. Inr (t # ts)))"

definition sqlite_read :: "sql_row list \<Rightarrow> string option \<Rightarrow> transition list result \<times> sql_row list" where
  "sqlite_read rows subject =
     (read_rows Map.empty
        (case subject of None \<Rightarrow> rows | Some s \<Rightarrow> filter (\<lambda>r. sr_subject_id r = s) rows), rows)"

section \<open>Reading back what was written\<close>

lemma storable_read:
  assumes "storable t"
  shows "loads (json_line (transition_to_dict t)) = Some (JObj (sorted_payload (transition_to_dict t)))"
    and "transition_from_dict (sorted_payload (transition_to_dict t)) = Inr t"
    and "get_or (sorted_payload (transition_to_dict t)) ''digest'' JNull = JStr (transition_digest t)"
    and "list_all printable (json_line (transition_to_dict t))"
proof -
  have j: "json_ok utf8_ok (JObj (transition_to_dict t))" and ok: "transition_ok t"
    using assms by (simp_all add: storable_def)
  show "loads (json_line (transition_to_dict t)) = Some (JObj (sorted_payload (transition_to_dict t)))"
    by (rule loads_json_line [OF j])
  show "transition_from_dict (sorted_payload (transition_to_dict t)) = Inr t"
    by (rule transition_from_dict_stored [OF ok sample_transition_stored])
  have "map_of (sorted_payload (transition_to_dict t)) ''digest'' = Some (JStr (transition_digest t))"
    unfolding storedD [OF sample_transition_stored(1)]
    by (simp add: transition_to_dict_def transition_payload_def)
  then show "get_or (sorted_payload (transition_to_dict t)) ''digest'' JNull = JStr (transition_digest t)"
    by (simp add: get_or_def)
  show "list_all printable (json_line (transition_to_dict t))"
    by (rule json_line_printable [OF j])
qed

definition tips_of :: "(string \<rightharpoonup> string) \<Rightarrow> transition list \<Rightarrow> bool" where
  "tips_of tips h = (\<forall>s. opt_or (tips s) [] = tip h s)"

lemma tips_of_step [simp]:
  "tips_of tips h \<Longrightarrow> tips_of (tips(rt_subject_id t \<mapsto> transition_digest t)) (h @ [t])"
  by (simp add: tips_of_def opt_or_def)

lemma tips_of_empty [simp]: "tips_of Map.empty []"
  by (simp add: tips_of_def opt_or_def)

lemma check_record_linked:
  assumes "storable t" "tips_of tips h" "rt_previous t = tip h (rt_subject_id t)"
  shows "check_record tips (sorted_payload (transition_to_dict t)) t = Inr ()"
  using assms storable_read(3) [OF assms(1)] by (simp add: check_record_def tips_of_def)

lemma read_record_linked:
  assumes "storable t" "tips_of tips h" "rt_previous t = tip h (rt_subject_id t)"
  shows "read_record tips (json_line (transition_to_dict t)) = Inr t"
  by (simp add: read_record_def storable_read [OF assms(1)] check_record_linked [OF assms])

definition lines_of :: "transition list \<Rightarrow> string list" where
  "lines_of h = map (\<lambda>t. json_line (transition_to_dict t)) h"

lemma select_Nil [simp]: "select subject [] = []"
  by (simp add: select_def split: option.split)

lemma select_Cons: "select subject (t # ts) =
    (if subject = None \<or> subject = Some (rt_subject_id t) then t # select subject ts else select subject ts)"
  by (auto simp: select_def split: option.split)

lemma parse_lines_linked:
  assumes "list_all storable ts" "linked h ts" "tips_of tips h"
  shows "parse_lines unterminated tips subject (lines_of ts @ rest) =
    bindE (parse_lines unterminated (foldl (\<lambda>m t. m(rt_subject_id t \<mapsto> transition_digest t)) tips ts)
        subject rest) (\<lambda>us. Inr (select subject ts @ us))"
  using assms
proof (induction ts arbitrary: h tips)
  case Nil
  then show ?case
    by (cases "parse_lines unterminated tips subject rest") (simp_all add: lines_of_def)
next
  case (Cons t ts)
  define tips' where "tips' = tips(rt_subject_id t \<mapsto> transition_digest t)"
  define last where "last = foldl (\<lambda>m t. m(rt_subject_id t \<mapsto> transition_digest t)) tips' ts"
  have "read_record tips (json_line (transition_to_dict t)) = Inr t"
    using Cons.prems by (intro read_record_linked [of t tips h]) simp_all
  then have "parse_lines unterminated tips subject (lines_of (t # ts) @ rest) =
      bindE (parse_lines unterminated tips' subject (lines_of ts @ rest))
        (\<lambda>us. Inr (if subject = None \<or> subject = Some (rt_subject_id t) then t # us else us))"
    unfolding tips'_def by (simp add: lines_of_def)
  also have "parse_lines unterminated tips' subject (lines_of ts @ rest) =
      bindE (parse_lines unterminated last subject rest) (\<lambda>us. Inr (select subject ts @ us))"
    using Cons.prems(1,2) unfolding last_def tips'_def
    by (intro Cons.IH [OF _ _ tips_of_step [OF Cons.prems(3)]]) simp_all
  finally have "parse_lines unterminated tips subject (lines_of (t # ts) @ rest) =
      bindE (parse_lines unterminated last subject rest) (\<lambda>us. Inr (select subject (t # ts) @ us))"
    by (cases "parse_lines unterminated last subject rest") (simp_all add: select_Cons)
  then show ?case
    by (simp only: foldl_Cons last_def tips'_def)
qed

definition file_of :: "transition list \<Rightarrow> string" where
  "file_of h = concat (map record_line h)"

lemma file_of_simps [simp]:
  "file_of [] = []" "file_of (t # h) = json_line (transition_to_dict t) @ LF # file_of h"
  "file_of (h @ g) = file_of h @ file_of g"
  by (simp_all add: file_of_def record_line_def)

lemma splitlines_file_of:
  "list_all storable h \<Longrightarrow> splitlines (file_of h @ r) = lines_of h @ splitlines r"
  by (induction h) (simp_all add: lines_of_def splitlines_line storable_read(4))

lemma ascii_file_of: "list_all storable h \<Longrightarrow> list_all (\<lambda>c. byte c < 128) (file_of h)"
proof (induction h)
  case (Cons t h)
  then show ?case
    using printable_byte [OF storable_read(4)] by (simp add: byte_def [of LF])
qed simp

lemma file_of_terminated: "file_of h = [] \<or> terminated (file_of h)"
  by (cases h rule: rev_cases) (simp_all add: terminated_def)

lemma parse_history_file_of:
  assumes "history_ok h" "list_all (\<lambda>c. byte c < 128) r" "file_of h @ r \<noteq> []"
  shows "parse_history (file_of h @ r) subject =
    bindE (parse_lines (\<not> terminated (file_of h @ r))
      (foldl (\<lambda>m t. m(rt_subject_id t \<mapsto> transition_digest t)) Map.empty h) subject (splitlines r))
      (\<lambda>us. Inr (select subject h @ us))"
proof -
  have s: "list_all storable h" "linked [] h" using assms(1) by (simp_all add: history_ok_def)
  have "utf8_ok (file_of h @ r)"
    using assms(2) ascii_file_of [OF s(1)] by (intro utf8_ok_ascii) simp
  then show ?thesis
    using assms(3) parse_lines_linked [OF s tips_of_empty]
    by (auto simp: parse_history_def splitlines_file_of [OF s(1)])
qed

lemma parse_history_ok:
  assumes "history_ok h"
  shows "parse_history (file_of h) subject = Inr (select subject h)"
proof (cases "file_of h = []")
  case True
  then have "h = []" by (cases h) simp_all
  then show ?thesis by (simp add: parse_history_def select_def split: option.split)
next
  case False
  with parse_history_file_of [OF assms, of "[]"] show ?thesis by simp
qed

lemma recover_file_of: "recover_partial_tail (file_of h) = Inr (file_of h)"
  using file_of_terminated [of h] by (simp add: recover_partial_tail_def)

section \<open>The JSONL store implements the interface\<close>

definition jsonl_represents :: "jsonl \<Rightarrow> transition list \<Rightarrow> bool" where
  "jsonl_represents file h =
     (history_ok h \<and> (file = Some (file_of h) \<or> file = None \<and> h = []))"

lemma jsonl_read_ok:
  "jsonl_represents file h \<Longrightarrow> read_unlocked recover file subject = (Inr (select subject h), file)"
  by (auto simp: jsonl_represents_def read_unlocked_def recover_file_of parse_history_ok select_def
      split: option.split)

text \<open>The decision of the code is that of the specification.\<close>

lemma jsonl_admit_spec:
  "append_spec h t = bindE (jsonl_admit h t) (\<lambda>r. Inr (case r of
     Some existing \<Rightarrow> (existing, h) | None \<Rightarrow> (t, h @ [t])))"
  by (auto simp: append_spec_def jsonl_admit_def tip_def of_subject_def Let_def bindE_def
      split: option.split sum.split)

lemma jsonl_append_until_represents:
  assumes "jsonl_represents file h"
  shows "jsonl_append_until written True recover file t =
    (case jsonl_admit h t of
       Inl e \<Rightarrow> (Inl e, file)
     | Inr (Some existing) \<Rightarrow> (Inr existing, file)
     | Inr None \<Rightarrow> (Inr t, Some (file_of h @
         (case written of None \<Rightarrow> record_line t | Some n \<Rightarrow> take n (record_line t)))))"
proof -
  have "opt_or file [] = file_of h"
    using assms by (auto simp: jsonl_represents_def opt_or_def)
  then show ?thesis
    using jsonl_read_ok [OF assms, of recover None]
    by (auto simp: jsonl_append_until_def select_def split: sum.split option.split)
qed

interpretation jsonl: state_store "jsonl_append True recover" "jsonl_read True recover" jsonl_represents
  for recover :: bool
proof unfold_locales
  fix s h subject t u h' e
  assume r: "jsonl_represents s h"
  then show "history_ok h" by (simp add: jsonl_represents_def)
  show "jsonl_read True recover s subject = (Inr (select subject h), s)"
    by (simp add: jsonl_read_def jsonl_read_ok [OF r])
  assume st: "storable t"
  {
    assume sp: "append_spec h t = Inr (u, h')"
    have "history_ok h'"
      using append_spec_ok(1) [OF _ st sp] r by (simp add: jsonl_represents_def)
    with r sp show "fst (jsonl_append True recover s t) = Inr u \<and>
        jsonl_represents (snd (jsonl_append True recover s t)) h'"
      unfolding jsonl_append_def jsonl_append_until_represents [OF r] jsonl_admit_spec
      by (auto simp: jsonl_represents_def record_line_def bindE_def split: sum.splits option.splits)
  }
  assume "append_spec h t = Inl e"
  with r show "fst (jsonl_append True recover s t) = Inl e \<and>
      jsonl_represents (snd (jsonl_append True recover s t)) h"
    unfolding jsonl_append_def jsonl_append_until_represents [OF r] jsonl_admit_spec
    by (auto simp: bindE_def split: sum.splits option.splits)
qed

section \<open>The SQLite store implements the interface\<close>

definition row_of :: "transition \<Rightarrow> sql_row" where
  "row_of t = \<lparr>sr_transition_id = rt_transition_id t, sr_subject_id = rt_subject_id t,
     sr_digest = transition_digest t, sr_payload = json_line (transition_to_dict t)\<rparr>"

definition sqlite_represents :: "sql_row list \<Rightarrow> transition list \<Rightarrow> bool" where
  "sqlite_represents rows h = (history_ok h \<and> rows = map row_of h)"

lemma row_of_sel [simp]:
  "sr_transition_id (row_of t) = rt_transition_id t" "sr_subject_id (row_of t) = rt_subject_id t"
  "sr_digest (row_of t) = transition_digest t" "sr_payload (row_of t) = json_line (transition_to_dict t)"
  by (simp_all add: row_of_def)

lemma read_rows_linked:
  assumes "list_all storable ts" "linked h ts" "tips_of tips h"
  shows "read_rows tips (map row_of ts) = Inr ts"
  using assms
proof (induction ts arbitrary: h tips)
  case (Cons t ts)
  have "check_row tips (row_of t) = Inr t"
    using Cons.prems check_record_linked [of t tips h]
    by (simp add: check_row_def storable_read)
  moreover have "read_rows (tips(rt_subject_id t \<mapsto> transition_digest t)) (map row_of ts) = Inr ts"
    using Cons.prems(1,2) by (intro Cons.IH [OF _ _ tips_of_step [OF Cons.prems(3)]]) simp_all
  ultimately show ?case by simp
qed simp

lemma of_subject_idem [simp]: "of_subject s (of_subject s h) = of_subject s h"
  by (simp add: of_subject_def)

lemma linked_of_subject: "linked [] h \<Longrightarrow> linked [] (of_subject s h)"
  by (induction h rule: rev_induct) (auto simp: linked_append tip_def)

lemma filter_row_of: "filter (\<lambda>r. sr_subject_id r = s) (map row_of h) = map row_of (of_subject s h)"
  by (induction h) simp_all

lemma history_ok_of_subject: "history_ok h \<Longrightarrow> history_ok (of_subject s h)"
  by (simp add: history_ok_def linked_of_subject of_subject_def list_all_iff distinct_map_filter)
    (simp flip: of_subject_def add: linked_of_subject)

lemma find_first_map: "find_first p (map f xs) = map_option f (find_first (p \<circ> f) xs)"
  by (induction xs) (auto simp: find_first_def)

lemma sqlite_append_spec:
  assumes "sqlite_represents rows h"
  shows "sqlite_append rows t =
    (case append_spec h t of
       Inl e \<Rightarrow> (Inl e, rows)
     | Inr (u, h') \<Rightarrow> (Inr u, map row_of h'))"
proof -
  have rows: "rows = map row_of h" and ok: "history_ok h"
    using assms by (simp_all add: sqlite_represents_def)
  have st: "x \<in> set h \<Longrightarrow> loads_transition (json_line (transition_to_dict x)) = Inr x" for x
    using ok by (simp add: loads_transition_def storable_read history_ok_def list_all_iff)
  have find: "find_first (\<lambda>r. sr_transition_id r = rt_transition_id t) rows =
      map_option row_of (find_first (\<lambda>e. rt_transition_id e = rt_transition_id t) h)"
    unfolding rows find_first_map by (simp add: comp_def)
  show ?thesis
  proof (cases "find_first (\<lambda>e. rt_transition_id e = rt_transition_id t) h")
    case (Some e)
    with find have "loads_transition (json_line (transition_to_dict e)) = Inr e"
      by (intro st) (auto dest: find_first_Some)
    with Some find rows show ?thesis
      by (simp add: sqlite_append_def append_spec_def)
  next
    case None
    let ?m = "of_subject (rt_subject_id t) h"
    have m: "filter (\<lambda>r. sr_subject_id r = rt_subject_id t) rows = map row_of ?m"
      unfolding rows by (rule filter_row_of)
    have last: "?m \<noteq> [] \<Longrightarrow> loads_transition (json_line (transition_to_dict (last ?m))) = Inr (last ?m)"
      using last_in_set [of ?m] by (intro st) (auto simp: of_subject_def)
    show ?thesis
    proof (cases "?m = []")
      case True
      with None find rows m show ?thesis
        by (simp add: sqlite_append_def append_spec_def tip_def row_of_def guards.simps)
    next
      case False
      with None find rows m last show ?thesis
        by (simp add: sqlite_append_def append_spec_def tip_def last_map Let_def guards.simps
            row_of_def)
    qed
  qed
qed

interpretation sqlite: state_store sqlite_append sqlite_read sqlite_represents
proof unfold_locales
  fix s h subject t u h' e
  assume r: "sqlite_represents s h"
  then show ok: "history_ok h" by (simp add: sqlite_represents_def)
  have s: "s = map row_of h" using r by (simp add: sqlite_represents_def)
  have rd: "read_rows Map.empty (map row_of g) = Inr g" if "history_ok g" for g
    using that by (intro read_rows_linked [of g "[]"]) (simp_all add: history_ok_def)
  show "sqlite_read s subject = (Inr (select subject h), s)"
    unfolding s sqlite_read_def
    by (cases subject)
      (simp_all add: select_def filter_row_of rd ok history_ok_of_subject)
  assume st: "storable t"
  {
    assume sp: "append_spec h t = Inr (u, h')"
    then show "fst (sqlite_append s t) = Inr u \<and> sqlite_represents (snd (sqlite_append s t)) h'"
      using append_spec_ok(1) [OF ok st sp]
      by (simp add: sqlite_append_spec [OF r] sqlite_represents_def)
  }
  assume "append_spec h t = Inl e"
  with r show "fst (sqlite_append s t) = Inl e \<and> sqlite_represents (snd (sqlite_append s t)) h"
    by (simp add: sqlite_append_spec [OF r])
qed

section \<open>Interrupted writes\<close>

text \<open>What a reader finds after a write of the record of \<open>t\<close> that stopped after \<open>n\<close> bytes.\<close>

lemma terminated_append_printable:
  "list_all printable p \<Longrightarrow> p \<noteq> [] \<Longrightarrow> \<not> terminated (f @ p)"
  using printable_not_LF [of p] by (metis last_appendR last_in_set terminated_def)

lemma torn_parts:
  assumes "list_all printable p"
  shows "complete_part (file_of h @ p) = file_of h" "tail_part (file_of h @ p) = p"
  using parts_append [OF printable_not_LF [OF assms] file_of_terminated] by simp_all

lemma recover_torn:
  assumes "history_ok h" "storable t" "n < length (json_line (transition_to_dict t))"
  shows "recover_partial_tail (file_of h @ take n (json_line (transition_to_dict t))) = Inr (file_of h)"
proof (cases "n = 0")
  case True
  then show ?thesis by (simp add: recover_file_of)
next
  case False
  define p where "p = take n (json_line (transition_to_dict t))"
  have pr: "list_all printable p"
    using storable_read(4) [OF assms(2)] unfolding p_def by (auto simp: list_all_iff dest: in_set_takeD)
  have "p \<noteq> []" using False assms(3) by (auto simp: p_def)
  have "strict_prefix p (json_line (transition_to_dict t))"
    using assms(3) unfolding p_def strict_prefix_def by (auto simp: take_is_prefix)
  then have "loads p = None"
    using assms(2) by (intro torn_line) (auto simp: storable_def)
  moreover have "utf8_ok p"
    by (rule utf8_ok_ascii [OF printable_byte [OF pr]])
  ultimately show ?thesis
    using terminated_append_printable [OF pr \<open>p \<noteq> []\<close>] \<open>p \<noteq> []\<close>
    by (simp add: recover_partial_tail_def torn_parts [OF pr] Let_def caught_def flip: p_def)
qed

lemma recover_unterminated:
  assumes "storable t"
  shows "recover_partial_tail (file_of h @ json_line (transition_to_dict t)) =
    Inr (file_of h @ json_line (transition_to_dict t))"
proof -
  note pr = storable_read(4) [OF assms]
  have "utf8_ok (json_line (transition_to_dict t))"
    by (rule utf8_ok_ascii [OF printable_byte [OF pr]])
  then show ?thesis
    using terminated_append_printable [OF pr]
    by (simp add: recover_partial_tail_def torn_parts [OF pr] storable_read [OF assms] Let_def)
qed

lemma parse_unterminated:
  assumes "history_ok (h @ [t])"
  shows "parse_history (file_of h @ json_line (transition_to_dict t)) subject = Inr (select subject (h @ [t]))"
proof -
  have st: "list_all storable (h @ [t])" "linked [] (h @ [t])"
    using assms by (simp_all add: history_ok_def)
  then have pr: "list_all printable (json_line (transition_to_dict t))"
    using storable_read(4) by simp
  have "splitlines (json_line (transition_to_dict t)) = lines_of [t]"
    by (simp add: splitlines_last [OF pr] lines_of_def)
  then have "splitlines (file_of h @ json_line (transition_to_dict t)) = lines_of (h @ [t])"
    using splitlines_file_of [of h] st(1) by (simp add: lines_of_def)
  moreover have "utf8_ok (file_of h @ json_line (transition_to_dict t))"
    using ascii_file_of [of h] st(1) printable_byte [OF pr] by (intro utf8_ok_ascii) simp
  moreover have "parse_lines b Map.empty subject (lines_of (h @ [t])) = Inr (select subject (h @ [t]))" for b
    using parse_lines_linked [OF st tips_of_empty, of b subject "[]"] by simp
  ultimately show ?thesis
    by (simp add: parse_history_def)
qed

text \<open>A record glued to an unterminated one is not readable.\<close>

lemma parse_glued:
  assumes "history_ok h" "storable t" "storable u"
  shows "parse_history (file_of h @ json_line (transition_to_dict t) @ record_line u) subject =
    Inl (ValueError ''invalid transition'')"
proof -
  let ?q = "json_line (transition_to_dict u)"
  let ?g = "json_line (transition_to_dict t) @ ?q"
  have st: "list_all storable h" "linked [] h" using assms(1) by (simp_all add: history_ok_def)
  have pr: "list_all printable ?g"
    using storable_read(4) [OF assms(2)] storable_read(4) [OF assms(3)] by simp
  have split: "splitlines (file_of h @ ?g @ [LF]) = lines_of h @ [?g]"
    using splitlines_file_of [OF st(1)] splitlines_line [OF pr, of "[]"] by simp
  obtain v where v: "?q = CHR ''{'' # v" using json_line_start by blast
  then have "skip_ws ?q \<noteq> []" by (simp add: is_ws_def)
  moreover have "json_ok utf8_ok (JObj (transition_to_dict t))"
    using assms(2) by (simp add: storable_def)
  ultimately have "loads ?g = None"
    by (intro glued_line)
  moreover obtain w where "?g = CHR ''{'' # w"
    using json_line_start [of "transition_to_dict t"] by auto
  then have "\<not> blank ?g" by simp
  ultimately have bad: "parse_lines False tips subject [?g] = Inl (ValueError ''invalid transition'')" for tips
    by (simp add: read_record_def caught_def)
  have "utf8_ok (file_of h @ ?g @ [LF])"
    using ascii_file_of [OF st(1)] printable_byte [OF pr] by (intro utf8_ok_ascii) (simp add: byte_def)
  then have "parse_history (file_of h @ ?g @ [LF]) subject =
      parse_lines False Map.empty subject (lines_of h @ [?g])"
    using split by (simp add: parse_history_def terminated_def)
  also have "\<dots> = Inl (ValueError ''invalid transition'')"
    unfolding parse_lines_linked [OF st tips_of_empty] bad by simp
  finally show ?thesis by (simp add: record_line_def)
qed

section \<open>Verified histories\<close>

text \<open>The digest links that \<open>parse_history\<close> verifies on arbitrary bytes.\<close>

fun digest_linked :: "transition list \<Rightarrow> transition list \<Rightarrow> bool" where
  "digest_linked h [] = True"
| "digest_linked h (t # ts) =
     (rt_previous t = tip h (rt_subject_id t) \<and> digest_linked (h @ [t]) ts)"

lemma digest_linked_append: "digest_linked h (ts @ us) \<longleftrightarrow> digest_linked h ts \<and> digest_linked (h @ ts) us"
  by (induction ts arbitrary: h) auto

lemma digest_linked_of_subject: "digest_linked [] h \<Longrightarrow> digest_linked [] (of_subject s h)"
  by (induction h rule: rev_induct) (auto simp: digest_linked_append tip_def)

lemma read_record_Inr:
  assumes "read_record tips line = Inr t"
  shows "transition_ok t" and "rt_previous t = opt_or (tips (rt_subject_id t)) []"
proof -
  obtain d where d: "loads line = Some (JObj d)"
    using assms by (auto simp: read_record_def split: option.splits json.splits)
  from assms have "transition_from_dict d = Inr t" and c: "check_record tips d t = Inr ()"
    unfolding read_record_def d option.case json.case by (elim bindE_InrE, simp)+
  then show "transition_ok t" by (intro transition_from_dict_Inr(1))
  from c show "rt_previous t = opt_or (tips (rt_subject_id t)) []"
    by (simp add: check_record_def)
qed

lemma parse_lines_sound:
  assumes "parse_lines b tips None ls = Inr ts" "tips_of tips h"
  shows "list_all transition_ok ts \<and> digest_linked h ts"
  using assms
proof (induction ls arbitrary: tips h ts)
  case (Cons l ls)
  show ?case
  proof (cases "blank l")
    case True
    with Cons show ?thesis by simp
  next
    case False
    then obtain t where t: "read_record tips l = Inr t"
      using Cons.prems(1) by (auto split: sum.splits if_splits)
    with False Cons.prems(1) obtain us where ts: "ts = t # us"
      and us: "parse_lines b (tips(rt_subject_id t \<mapsto> transition_digest t)) None ls = Inr us"
      by (auto split: if_splits)
    have "rt_previous t = tip h (rt_subject_id t)"
      using read_record_Inr(2) [OF t] Cons.prems(2) by (simp add: tips_of_def)
    then show ?thesis
      using Cons.IH [OF us tips_of_step [OF Cons.prems(2)]] read_record_Inr(1) [OF t] ts by simp
  qed
qed simp

lemma parse_history_sound:
  assumes "parse_history raw None = Inr h"
  shows "list_all transition_ok h" and "digest_linked [] h"
proof -
  have "h = [] \<or> (\<exists>b ls. parse_lines b Map.empty None ls = Inr h)"
    using assms by (auto simp: parse_history_def split: if_splits)
  then have "list_all transition_ok h \<and> digest_linked [] h"
    using parse_lines_sound [OF _ tips_of_empty] by auto
  then show "list_all transition_ok h" and "digest_linked [] h" by simp_all
qed

text \<open>The hash chain: the tip of a subject determines its whole history.\<close>

definition chain_collision :: "transition list \<Rightarrow> transition list \<Rightarrow> bool" where
  "chain_collision g h =
     list_ex (\<lambda>t. list_ex (\<lambda>u. digest_collision (transition_payload t) (transition_payload u)) h) g"

lemma chain_collision_mono:
  "chain_collision g h \<Longrightarrow> set g \<subseteq> set g' \<Longrightarrow> set h \<subseteq> set h' \<Longrightarrow> chain_collision g' h'"
  by (auto simp: chain_collision_def list_ex_iff)

lemma transition_digest_not_Nil [simp]: "transition_digest t \<noteq> []" "[] \<noteq> transition_digest t"
  using digest_of_not_Nil [of "transition_payload t"] unfolding transition_digest_def by metis+

lemma subject_chain_unique:
  assumes "list_all (\<lambda>t. transition_ok t \<and> rt_subject_id t = s) g" "digest_linked [] g"
    and "list_all (\<lambda>t. transition_ok t \<and> rt_subject_id t = s) h" "digest_linked [] h"
    and "tip g s = tip h s"
  shows "g = h \<or> chain_collision g h"
  using assms
proof (induction g arbitrary: h rule: rev_induct)
  case Nil
  then show ?case
    by (cases h rule: rev_cases) auto
next
  case (snoc t g)
  then obtain u h' where h: "h = h' @ [u]"
    by (cases h rule: rev_cases) auto
  have s: "rt_subject_id t = s" "rt_subject_id u = s"
    using snoc.prems(1,3) h by simp_all
  then have "transition_digest t = transition_digest u"
    using snoc.prems(5) h by simp
  then consider "digest_collision (transition_payload t) (transition_payload u)" | "t = u"
    using transition_digest_inject [of t u] snoc.prems(1,3) h by auto
  then show ?case
  proof cases
    case 1
    then show ?thesis using h by (simp add: chain_collision_def)
  next
    case 2
    have "tip g s = tip h' s"
      using snoc.prems(2,4) s h 2 by (simp add: digest_linked_append)
    then have "g = h' \<or> chain_collision g h'"
      using snoc.prems h by (intro snoc.IH) (simp_all add: digest_linked_append)
    then show ?thesis
      using chain_collision_mono [of g h' "g @ [t]" h] h 2 by auto
  qed
qed

section \<open>The contracts of the stores\<close>

text \<open>
  C4: the JSONL store refines the abstract history. On a file that represents a good history, reading
  returns the entries of the requested subject in order and leaves the file alone; appending a
  transition has the result of the specification (the stored entry, or the error of an identity
  collision, a stale tip or a predecessor mismatch), and the new file represents the specified history,
  which is again a good one.
\<close>

theorem jsonl_store_refines:
  assumes "jsonl_represents file h" "storable t"
  shows "jsonl_read True recover file subject = (Inr (select subject h), file) \<and>
    fst (jsonl_append True recover file t) = fst (append_spec_step h t) \<and>
    jsonl_represents (snd (jsonl_append True recover file t)) (snd (append_spec_step h t)) \<and>
    history_ok (snd (append_spec_step h t))"
  using jsonl.read_ok [OF assms(1)] jsonl.append_step [OF assms]
    jsonl.represents_ok [OF jsonl.append_step(2) [OF assms]]
  by blast

text \<open>
  C17: the two adapters are interchangeable. For every sequence of appends from the empty store the JSONL
  file and the SQLite table return the same results, errors included, and then read the same
  history for every subject.
\<close>

theorem stores_agree:
  assumes "list_all storable ts"
  shows "fst (run (jsonl_append True recover) None ts) = fst (run sqlite_append [] ts) \<and>
    fst (jsonl_read True recover (snd (run (jsonl_append True recover) None ts)) subject) =
    fst (sqlite_read (snd (run sqlite_append [] ts)) subject)"
proof -
  have j: "jsonl_represents None []" by (simp add: jsonl_represents_def)
  have q: "sqlite_represents [] []" by (simp add: sqlite_represents_def)
  show ?thesis
    using jsonl.run_refines [OF j assms, of recover] sqlite.run_refines [OF q assms]
    by (simp add: jsonl.read_ok sqlite.read_ok)
qed

text \<open>
  C1: a crash during an append loses at most the record being written. Whatever number of bytes of the
  record reached the file, the next reader (which repairs a partial tail) gets the history before the
  append, or, once every byte but the newline was written, the history with the new record; it never
  fails and never sees a damaged record.
\<close>

theorem jsonl_crash_recovery:
  assumes "jsonl_represents file h" "storable t" "append_spec h t = Inr (t, h @ [t])"
    and "n \<le> length (record_line t)"
  shows "fst (jsonl_read True True (snd (jsonl_append_until (Some n) True recover file t)) subject) =
    Inr (select subject (if Suc n < length (record_line t) then h else h @ [t]))"
proof -
  let ?l = "json_line (transition_to_dict t)"
  have h: "history_ok h" using assms(1) by (simp add: jsonl_represents_def)
  have h': "history_ok (h @ [t])" by (rule append_spec_ok(1) [OF h assms(2,3)])
  have "jsonl_admit h t = Inr None"
    using assms(3) unfolding jsonl_admit_spec by (auto simp: bindE_eq_Inr_iff split: option.splits)
  then have written: "snd (jsonl_append_until (Some n) True recover file t) =
      Some (file_of h @ take n (record_line t))"
    by (simp add: jsonl_append_until_represents [OF assms(1)])
  consider "n < length ?l" | "n = length ?l" | "n = length (record_line t)"
    using assms(4) by (simp add: record_line_def) linarith
  then show ?thesis
  proof cases
    case 1
    then show ?thesis
      unfolding written
      by (simp add: jsonl_read_def read_unlocked_def record_line_def recover_torn [OF h assms(2)]
          parse_history_ok [OF h])
  next
    case 2
    then show ?thesis
      unfolding written
      by (simp add: jsonl_read_def read_unlocked_def record_line_def
          recover_unterminated [OF assms(2)] parse_unterminated [OF h'])
  next
    case 3
    have "file_of h @ record_line t = file_of (h @ [t])"
      by (simp add: record_line_def)
    with 3 recover_file_of [of "h @ [t]"] parse_history_ok [OF h'] show ?thesis
      unfolding written by (simp add: jsonl_read_def read_unlocked_def)
  qed
qed

text \<open>
  C20: the repair has a gap. If a crash loses exactly the newline of a record, the repair keeps the
  record without terminating it, and the next append, which succeeds, glues its record to it: from
  then on every read of the history fails, with or without the repair, and so does every append.
\<close>

theorem unterminated_record_breaks_history:
  assumes "jsonl_represents file h" "storable t" "append_spec h t = Inr (t, h @ [t])"
    and "storable u" "append_spec (h @ [t]) u = Inr (u, h @ [t, u])"
    and "file1 = snd (jsonl_append_until (Some (length (record_line t) - 1)) True recover file t)"
    and "file2 = snd (jsonl_append True True file1 u)"
  shows "fst (jsonl_append True True file1 u) = Inr u \<and>
    fst (jsonl_read True recover' file2 subject) = Inl (ValueError ''invalid transition'') \<and>
    jsonl_append True recover' file2 v = (Inl (ValueError ''invalid transition''), file2)"
proof -
  let ?l = "json_line (transition_to_dict t)"
  have h: "history_ok h" using assms(1) by (simp add: jsonl_represents_def)
  have h': "history_ok (h @ [t])" by (rule append_spec_ok(1) [OF h assms(2,3)])
  have "jsonl_admit h t = Inr None"
    using assms(3) unfolding jsonl_admit_spec by (auto simp: bindE_eq_Inr_iff split: option.splits)
  then have f1: "file1 = Some (file_of h @ ?l)"
    unfolding assms(6) by (simp add: jsonl_append_until_represents [OF assms(1)] record_line_def)
  have adm: "jsonl_admit (h @ [t]) u = Inr None"
    using assms(5) unfolding jsonl_admit_spec by (auto simp: bindE_eq_Inr_iff split: option.splits)
  have app: "jsonl_append True True file1 u = (Inr u, Some (file_of h @ ?l @ record_line u))"
    using adm parse_unterminated [OF h', of None]
    by (simp add: jsonl_append_def jsonl_append_until_def f1 read_unlocked_def
        recover_unterminated [OF assms(2)] select_def opt_or_def)
  have "terminated (file_of h @ ?l @ record_line u)"
    by (simp add: terminated_def record_line_def)
  then have "recover_partial_tail (file_of h @ ?l @ record_line u) = Inr (file_of h @ ?l @ record_line u)"
    by (simp add: recover_partial_tail_def)
  then have "read_unlocked recover' file2 s = (Inl (ValueError ''invalid transition''), file2)" for s
    unfolding assms(7) app using parse_glued [OF h assms(2,4)]
    by (simp add: read_unlocked_def)
  then have "fst (jsonl_read True recover' file2 subject) = Inl (ValueError ''invalid transition'')"
    and "jsonl_append True recover' file2 v = (Inl (ValueError ''invalid transition''), file2)"
    by (simp_all add: jsonl_read_def jsonl_append_def jsonl_append_until_def)
  with app show ?thesis by simp
qed

text \<open>
  C10: the history of a subject is a hash chain. If two files, whatever their bytes, are accepted by
  \<open>parse_reliability_state_history\<close> and agree on the tip of a subject, then they hold the same
  sequence of transitions for that subject, or two of their records are a SHA-256 collision: nobody
  can alter, drop or reorder past transitions of a subject and keep its tip.
\<close>

theorem history_tamper_evident:
  assumes "parse_history raw None = Inr g" "parse_history raw' None = Inr h" "tip g s = tip h s"
  shows "of_subject s g = of_subject s h \<or> chain_collision g h"
proof -
  note g = parse_history_sound [OF assms(1)] and h = parse_history_sound [OF assms(2)]
  have "of_subject s g = of_subject s h \<or> chain_collision (of_subject s g) (of_subject s h)"
  proof (rule subject_chain_unique [where s = s])
    have "tip (of_subject s f) s = tip f s" for f by (simp add: tip_def)
    with assms(3) show "tip (of_subject s g) s = tip (of_subject s h) s" by simp
  qed (use g h digest_linked_of_subject in \<open>auto simp: list_all_iff of_subject_def\<close>)
  then show ?thesis
    using chain_collision_mono [of "of_subject s g" "of_subject s h" g h]
    by (auto simp: of_subject_def)
qed

section \<open>Witnesses\<close>

definition transition_strings :: "transition \<Rightarrow> string list" where
  "transition_strings t = [rt_transition_id t, rt_subject_id t, rt_from_state t, rt_to_state t, rt_actor t,
     rt_evidence_chain_id t, rt_evidence_chain_digest t, rt_decision t, rt_previous t] @ rt_rationale t"

lemma storableI:
  assumes "transition_ok t" "list_all utf8_ok (transition_strings t)"
  shows "storable t"
proof -
  obtain u where at: "rt_occurred_at t = Aware u" "in_range u"
    using assms(1) by (cases "rt_occurred_at t")
      (auto simp: transition_ok_def transition_post_init_def dt_ok_def)
  have keys: "list_all utf8_ok (map fst (transition_to_dict t))"
    by (rule subst [of "map fst (transition_to_dict sample_transition)"])
      (simp_all add: transition_to_dict_def transition_payload_def, code_simp)
  have vals: "list_all (\<lambda>v. json_ok utf8_ok v) (map snd (transition_to_dict t))"
    using assms(2) at utf8_ok_utc_iso [OF at(2)] utf8_ok_sha256 [of "transition_digest t"]
    by (simp add: transition_to_dict_def transition_payload_def transition_strings_def jstrs_def
        list_all_iff transition_digest_def)
  show ?thesis
    unfolding storable_def
    by (intro conjI assms(1) json_okI [OF json_ok_JObjD [OF json_ok_transition_to_dict] keys vals])
qed

lemma sample_storable: "storable sample_transition"
  by (rule storableI [OF sample_transition_ok]) code_simp

definition second_fields :: transition where
  "second_fields = sample_transition\<lparr>rt_transition_id := ''t2'', rt_from_state := ''reliable'',
     rt_to_state := ''degraded'', rt_decision := ''review''\<rparr>"

definition second_transition :: transition where
  "second_transition = second_fields\<lparr>rt_previous := transition_digest sample_transition\<rparr>"

lemma is_sha256_transition_digest [simp]: "is_sha256 (transition_digest t)"
  by (simp add: transition_digest_def)

lemma second_storable: "storable second_transition"
proof (rule storableI)
  have "transition_ok second_fields"
    by code_simp
  then show "transition_ok second_transition"
    by (simp add: transition_ok_def transition_post_init_def second_transition_def)
  have "list_all utf8_ok (transition_strings second_fields)"
    by code_simp
  then show "list_all utf8_ok (transition_strings second_transition)"
    using utf8_ok_sha256 [of "transition_digest sample_transition"]
    by (simp add: transition_strings_def second_transition_def)
qed

lemma sample_appends:
  "append_spec [] sample_transition = Inr (sample_transition, [sample_transition])"
  "append_spec [sample_transition] second_transition =
     Inr (second_transition, [sample_transition, second_transition])"
  by (simp_all add: append_spec_def find_first_def sample_transition_def second_transition_def
      second_fields_def tip_def)

lemma empty_represents: "jsonl_represents None []"
  by (simp add: jsonl_represents_def)

lemma jsonl_store_refines_witness:
  "fst (jsonl_append True True None sample_transition) = Inr sample_transition"
  using jsonl_store_refines [OF empty_represents sample_storable, of True None]
  by (simp add: append_spec_step_def sample_appends)

lemma stores_agree_witness:
  "fst (run (jsonl_append True True) None [sample_transition, second_transition, sample_transition]) =
   fst (run sqlite_append [] [sample_transition, second_transition, sample_transition])"
  using stores_agree [of "[sample_transition, second_transition, sample_transition]" True None]
    sample_storable second_storable by simp

lemma jsonl_crash_recovery_witness:
  "fst (jsonl_read True True (snd (jsonl_append_until
      (Some (length (record_line sample_transition) - 2)) True True None sample_transition)) None) = Inr []"
proof -
  have "Suc (length (record_line sample_transition) - 2) < length (record_line sample_transition)"
    using length_greater_0_conv [of "json_line (transition_to_dict sample_transition)"]
    by (simp add: record_line_def)
  then show ?thesis
    using jsonl_crash_recovery [OF empty_represents sample_storable, of _ True None]
    by (simp add: sample_appends select_def)
qed

lemma unterminated_record_breaks_history_witness:
  "\<exists>file2. fst (jsonl_read True True file2 None) = Inl (ValueError ''invalid transition'')"
  using unterminated_record_breaks_history [OF empty_represents sample_storable _ second_storable]
    sample_appends by fastforce

lemma history_tamper_evident_witness:
  "\<exists>g. parse_history (file_of [sample_transition, second_transition]) None = Inr g \<and>
    (of_subject ''s'' g = of_subject ''s'' g \<or> chain_collision g g)"
proof -
  have "history_ok [sample_transition, second_transition]"
    using append_spec_ok(1) [OF append_spec_ok(1) [OF history_ok_Nil sample_storable sample_appends(1)]
        second_storable sample_appends(2)] .
  then obtain g where g: "parse_history (file_of [sample_transition, second_transition]) None = Inr g"
    using parse_history_ok by blast
  with history_tamper_evident [OF g g refl] show ?thesis by blast
qed

end
