(* ===== verification/StateService.thy ===== *)
theory StateService
  imports StateStore ReliabilityEvidence
begin

text \<open>
  \<open>services/reliability_state_service.py\<close> and \<open>domain/operational_hooks.py\<close>: the service that turns an
  evidence chain into a transition of a subject. It is written over the operations of a store, proved
  once on the interface \<open>state_store\<close>, and applied to the JSONL and SQLite adapters.
\<close>

section \<open>Failure events\<close>

record failure_event =
  fe_event_type :: string
  fe_operation :: string
  fe_subject_id :: "string option"
  fe_message :: exn
  fe_occurred_at :: datetime

definition failure_event_now :: "datetime \<Rightarrow> string \<Rightarrow> string \<Rightarrow> exn \<Rightarrow> string option \<Rightarrow> failure_event" where
  "failure_event_now now event_type operation message subject =
     \<lparr>fe_event_type = event_type, fe_operation = operation, fe_subject_id = subject,
      fe_message = message, fe_occurred_at = now\<rparr>"

section \<open>The service\<close>

definition transition_identity :: "string \<Rightarrow> string \<Rightarrow> chain \<Rightarrow> datetime \<Rightarrow> string" where
  "transition_identity subject_id previous_digest c occurred_at =
     sha256_hex (canonical_ascii (JObj [
       (''subject_id'', JStr subject_id),
       (''previous_transition_digest'', JStr previous_digest),
       (''evidence_chain_id'', JStr (rc_chain_id c)),
       (''evidence_chain_digest'', JStr (chain_digest c)),
       (''occurred_at'', JStr (utc_iso occurred_at)),
       (''decision'', JStr (rc_decision c)),
       (''to_state'', JStr (rc_reliability_state c))]))"

definition snapshot_of :: "string \<Rightarrow> transition list \<Rightarrow> snapshot" where
  "snapshot_of subject_id transitions =
     (if transitions = [] then
        \<lparr>rs_subject_id = subject_id, rs_state = ''unknown'', rs_transition_id = None,
         rs_transition_digest = None, rs_evidence_chain_id = None\<rparr>
      else
        (let latest = last transitions
         in \<lparr>rs_subject_id = subject_id, rs_state = rt_to_state latest,
             rs_transition_id = Some (rt_transition_id latest),
             rs_transition_digest = Some (transition_digest latest),
             rs_evidence_chain_id = Some (rt_evidence_chain_id latest)\<rparr>))"

definition current_reliability_state ::
    "('s \<Rightarrow> string option \<Rightarrow> transition list result \<times> 's) \<Rightarrow> 's \<Rightarrow> string \<Rightarrow> snapshot result \<times> 's" where
  "current_reliability_state store_read s subject_id =
     (case store_read s (Some subject_id) of
        (Inl e, s') \<Rightarrow> (Inl e, s')
      | (Inr transitions, s') \<Rightarrow>
          (construct snapshot_post_init (snapshot_of subject_id transitions), s'))"

text \<open>The checks between the current state and the target of the chain, in source order.\<close>

definition transition_checks :: "snapshot \<Rightarrow> chain \<Rightarrow> unit result" where
  "transition_checks current c =
     (let target = rc_reliability_state c in guards [
       (\<not> allowed (rs_state current) target, ValueError ''invalid transition''),
       (rc_decision c = ''accept'' \<and> target \<notin> {''reliable'', ''recovered''}, ValueError ''accept''),
       (rc_decision c = ''review'' \<and> target \<noteq> ''degraded'', ValueError ''review''),
       (rc_decision c = ''reject'' \<and> target \<noteq> ''unreliable'', ValueError ''reject''),
       (target = ''recovered'' \<and> rs_state current \<noteq> ''unreliable'', ValueError ''recovered predecessor''),
       (target = ''recovered'' \<and>
          (rc_recovery_ref c = None \<or> rc_reconciliation_state c \<noteq> ''recovered''),
          ValueError ''recovery reference'')])"

definition make_transition ::
    "string \<Rightarrow> snapshot \<Rightarrow> chain \<Rightarrow> string \<Rightarrow> datetime \<Rightarrow> string list \<Rightarrow> transition result" where
  "make_transition subject_id current c actor occurred_at rationale =
     (let previous = opt_or (rs_transition_digest current) []
      in construct transition_post_init
        \<lparr>rt_transition_id = transition_identity subject_id previous c occurred_at,
         rt_subject_id = subject_id, rt_from_state = rs_state current,
         rt_to_state = rc_reliability_state c, rt_occurred_at = occurred_at, rt_actor = actor,
         rt_evidence_chain_id = rc_chain_id c, rt_evidence_chain_digest = chain_digest c,
         rt_decision = rc_decision c,
         rt_rationale = (if rationale = [] then rc_decision_rationale c else rationale),
         rt_previous = previous, rt_digest = []\<rparr>)"

text \<open>
  \<open>transition_reliability_state\<close>. \<open>verify\<close> is the verification of the chain against its evidence root,
  \<open>None\<close> when no root is given; \<open>now\<close> is the clock. The result carries the new store and the events
  the failure hook received.
\<close>

definition transition_reliability_state ::
    "('s \<Rightarrow> transition \<Rightarrow> transition result \<times> 's) \<Rightarrow>
     ('s \<Rightarrow> string option \<Rightarrow> transition list result \<times> 's) \<Rightarrow>
     (chain \<Rightarrow> unit result) option \<Rightarrow> datetime \<Rightarrow> 's \<Rightarrow>
     string \<Rightarrow> chain \<Rightarrow> string \<Rightarrow> datetime option \<Rightarrow> string list \<Rightarrow>
     transition result \<times> 's \<times> failure_event list" where
  "transition_reliability_state store_append store_read verify now s subject_id c actor occurred_at rationale =
     (if blank subject_id then (Inl (ValueError ''subject_id''), s, [])
      else let occurred = opt_or occurred_at now in
      if \<not> tz_aware occurred then (Inl (ValueError ''occurred_at''), s, [])
      else case (case verify of None \<Rightarrow> Inr () | Some f \<Rightarrow> f c) of
        Inl e \<Rightarrow> (Inl e, s, [failure_event_now now ''verification_failure'' ''verify_evidence_chain'' e
                    (Some subject_id)])
      | Inr _ \<Rightarrow>
        (case current_reliability_state store_read s subject_id of
           (Inl e, s1) \<Rightarrow> (Inl e, s1, [])
         | (Inr current, s1) \<Rightarrow>
             if rs_state current = rc_reliability_state c \<and> rs_transition_id current \<noteq> None \<and>
                rs_evidence_chain_id current = Some (rc_chain_id c)
             then (case store_read s1 (Some subject_id) of
                 (Inl e, s2) \<Rightarrow> (Inl e, s2, [])
               | (Inr history, s2) \<Rightarrow> (Inr (last history), s2, []))
             else (case bindE (transition_checks current c) (\<lambda>_.
                     make_transition subject_id current c actor occurred rationale) of
                 Inl e \<Rightarrow> (Inl e, s1, [])
               | Inr t \<Rightarrow>
                   (case store_append s1 t of
                      (Inl e, s2) \<Rightarrow> (Inl e, s2, [failure_event_now now ''state_write_failure''
                        ''append_reliability_state'' e (Some subject_id)])
                    | (Inr u, s2) \<Rightarrow> (Inr u, s2, [])))))"

definition reliability_state_history :: "bool \<Rightarrow> jsonl \<Rightarrow> string \<Rightarrow> payload list result \<times> jsonl" where
  "reliability_state_history acquired file subject_id =
     (case jsonl_read acquired True file (Some subject_id) of
        (Inl e, file') \<Rightarrow> (Inl e, file')
      | (Inr ts, file') \<Rightarrow> (Inr (map transition_to_dict ts), file'))"

section \<open>What the service computes on a history\<close>

text \<open>The service on the abstract history, without a store.\<close>

definition service_spec ::
    "(chain \<Rightarrow> unit result) option \<Rightarrow> datetime \<Rightarrow> transition list \<Rightarrow>
     string \<Rightarrow> chain \<Rightarrow> string \<Rightarrow> datetime option \<Rightarrow> string list \<Rightarrow> (transition \<times> transition list) result" where
  "service_spec verify now h subject_id c actor occurred_at rationale =
     (let mine = of_subject subject_id h;
          current = snapshot_of subject_id mine
      in bindE (guards [
           (blank subject_id, ValueError ''subject_id''),
           (\<not> tz_aware (opt_or occurred_at now), ValueError ''occurred_at'')]) (\<lambda>_.
         bindE (case verify of None \<Rightarrow> Inr () | Some f \<Rightarrow> f c) (\<lambda>_.
         if mine \<noteq> [] \<and> rt_to_state (last mine) = rc_reliability_state c \<and>
            rt_evidence_chain_id (last mine) = rc_chain_id c
         then Inr (last mine, h)
         else
           bindE (transition_checks current c) (\<lambda>_.
           bindE (make_transition subject_id current c actor (opt_or occurred_at now) rationale)
             (\<lambda>t. append_spec h t)))))"

lemma snapshot_of_ok:
  assumes "list_all transition_ok ts" "\<not> blank subject_id"
  shows "construct snapshot_post_init (snapshot_of subject_id ts) = Inr (snapshot_of subject_id ts)"
proof (cases ts rule: rev_cases)
  case Nil
  then show ?thesis
    using assms(2) by (simp add: construct_def snapshot_of_def snapshot_post_init_def reliability_states_def)
next
  case (snoc us t)
  then have "rt_to_state t \<in> set reliability_states"
    using assms(1) by (simp add: transition_ok_def transition_post_init_def)
  with snoc assms(2) show ?thesis
    by (simp add: construct_def snapshot_of_def snapshot_post_init_def)
qed

lemma history_ok_transitions: "history_ok h \<Longrightarrow> list_all transition_ok (of_subject s h)"
  by (auto simp: history_ok_def storable_def list_all_iff of_subject_def)

text \<open>The strings of the arguments are encodable, as every Python string that can be stored is.\<close>

definition inputs_ok :: "string \<Rightarrow> chain \<Rightarrow> string \<Rightarrow> datetime \<Rightarrow> string list \<Rightarrow> bool" where
  "inputs_ok subject_id c actor occurred rationale =
     (list_all utf8_ok ([subject_id, rc_chain_id c, actor] @ rationale @ rc_decision_rationale c) \<and>
      dt_ok occurred)"

lemma utf8_ok_states: "s \<in> set reliability_states \<Longrightarrow> utf8_ok s"
proof -
  have "list_all utf8_ok reliability_states" by code_simp
  then show "s \<in> set reliability_states \<Longrightarrow> utf8_ok s" by (simp add: list_all_iff)
qed

lemma utf8_ok_decisions: "utf8_ok ''accept''" "utf8_ok ''review''" "utf8_ok ''reject''"
  by code_simp+

lemma make_transition_storable:
  assumes "make_transition subject_id current c actor occurred rationale = Inr t"
    and "inputs_ok subject_id c actor occurred rationale"
  shows "storable t"
proof (rule storableI)
  have p: "transition_post_init t = Inr ()"
    using assms(1) by (simp add: make_transition_def Let_def construct_Inr_iff)
  have f: "rt_subject_id t = subject_id" "rt_occurred_at t = occurred" "rt_digest t = []"
    "rt_actor t = actor" "rt_evidence_chain_id t = rc_chain_id c"
    "rt_rationale t = rationale \<or> rt_rationale t = rc_decision_rationale c"
    "is_sha256 (rt_transition_id t)"
    using assms(1) by (auto simp: make_transition_def Let_def construct_Inr_iff transition_identity_def)
  show "transition_ok t"
    using p f assms(2) by (simp add: transition_ok_def inputs_ok_def)
  have "utf8_ok (rt_from_state t)" "utf8_ok (rt_to_state t)"
    using p utf8_ok_states by (simp_all add: transition_post_init_def)
  moreover have "utf8_ok (rt_previous t)"
    using p utf8_ok_sha256 [of "rt_previous t"]
    by (cases "rt_previous t = []") (simp_all add: transition_post_init_def utf8_ok_def)
  moreover have "utf8_ok (rt_decision t)"
  proof -
    have "rt_decision t = ''accept'' \<or> rt_decision t = ''review'' \<or> rt_decision t = ''reject''"
      using p by (simp add: transition_post_init_def)
    then show ?thesis using utf8_ok_decisions by (elim disjE) simp_all
  qed
  moreover have "utf8_ok (rt_evidence_chain_digest t)"
    using p by (intro utf8_ok_sha256) (simp add: transition_post_init_def)
  ultimately show "list_all utf8_ok (transition_strings t)"
    using f assms(2) utf8_ok_sha256 [of "rt_transition_id t"]
    by (auto simp: transition_strings_def inputs_ok_def)
qed

lemma service_spec_retry:
  assumes ok: "history_ok h" and inp: "inputs_ok subject_id c actor (opt_or occurred_at now) rationale"
    and sp: "service_spec verify now h subject_id c actor occurred_at rationale = Inr (t, h')"
  shows "service_spec verify now h' subject_id c actor occurred_at rationale = Inr (t, h')"
proof (cases "h' = h")
  case True
  with sp show ?thesis by simp
next
  case False
  let ?c = "snapshot_of subject_id (of_subject subject_id h)"
  obtain u where g: "\<not> blank subject_id" "tz_aware (opt_or occurred_at now)"
      "(case verify of None \<Rightarrow> Inr () | Some f \<Rightarrow> f c) = Inr ()"
    and m: "make_transition subject_id ?c c actor (opt_or occurred_at now) rationale = Inr u"
    and app: "append_spec h u = Inr (t, h')"
    using sp False by (auto simp: service_spec_def Let_def bindE_eq_Inr_iff split: if_splits)
  have st: "storable u" by (rule make_transition_storable [OF m inp])
  have "t = u" "h' = h @ [t]"
    using append_spec_ok [OF ok st app] False by (auto split: if_splits)
  moreover have "rt_subject_id u = subject_id" "rt_to_state u = rc_reliability_state c"
    "rt_evidence_chain_id u = rc_chain_id c"
    using m by (auto simp: make_transition_def Let_def construct_Inr_iff)
  ultimately show ?thesis
    using g by (simp add: service_spec_def)
qed

context state_store begin

text \<open>The service on any store is the specification on the history the store represents.\<close>

lemma service_refines:
  assumes r: "represents s h" and inp: "inputs_ok subject_id c actor (opt_or occurred_at now) rationale"
    and res: "transition_reliability_state append read verify now s subject_id c actor occurred_at rationale =
      (result, s', events)"
  shows "case service_spec verify now h subject_id c actor occurred_at rationale of
      Inl e \<Rightarrow> result = Inl e \<and> represents s' h
    | Inr (t, h') \<Rightarrow> result = Inr t \<and> represents s' h' \<and> events = []"
proof -
  define mine where "mine = of_subject subject_id h"
  have rd: "read s (Some subject_id) = (Inr mine, s)"
    using read_ok [OF r] by (simp add: select_def mine_def)
  show ?thesis
  proof (cases "blank subject_id \<or> \<not> tz_aware (opt_or occurred_at now)")
    case True
    with res r show ?thesis
      by (auto simp: transition_reliability_state_def service_spec_def Let_def guards.simps)
  next
    case False
    show ?thesis
    proof (cases "case verify of None \<Rightarrow> Inr () | Some f \<Rightarrow> f c")
      case (Inl e)
      with res r False show ?thesis
        by (auto simp: transition_reliability_state_def service_spec_def Let_def)
    next
      case (Inr u)
      have "list_all transition_ok mine"
        unfolding mine_def by (rule history_ok_transitions [OF represents_ok [OF r]])
      then have cur: "current_reliability_state read s subject_id = (Inr (snapshot_of subject_id mine), s)"
        using False by (simp add: current_reliability_state_def rd snapshot_of_ok)
      have dup: "(rs_state (snapshot_of subject_id mine) = rc_reliability_state c \<and>
          rs_transition_id (snapshot_of subject_id mine) \<noteq> None \<and>
          rs_evidence_chain_id (snapshot_of subject_id mine) = Some (rc_chain_id c)) =
        (mine \<noteq> [] \<and> rt_to_state (last mine) = rc_reliability_state c \<and>
          rt_evidence_chain_id (last mine) = rc_chain_id c)" (is "?d = ?e")
        by (simp add: snapshot_of_def Let_def)
      show ?thesis
      proof (cases ?e)
        case True
        with res r False Inr dup show ?thesis
          by (simp add: transition_reliability_state_def service_spec_def Let_def cur rd flip: mine_def)
      next
        case ne: False
        let ?m = "bindE (transition_checks (snapshot_of subject_id mine) c) (\<lambda>_.
          make_transition subject_id (snapshot_of subject_id mine) c actor (opt_or occurred_at now) rationale)"
        show ?thesis
        proof (cases ?m)
          case (Inl e)
          have "transition_reliability_state append read verify now s subject_id c actor occurred_at rationale =
              (Inl e, s, [])"
            using False Inr dup ne Inl
            by (simp add: transition_reliability_state_def Let_def cur del: de_Morgan_conj)
          moreover have "service_spec verify now h subject_id c actor occurred_at rationale = Inl e"
            using False Inr ne Inl
            by (cases "transition_checks (snapshot_of subject_id mine) c")
              (simp_all add: service_spec_def Let_def flip: mine_def del: de_Morgan_conj)
          ultimately show ?thesis using res r by simp
        next
          case t: (Inr t)
          then have "storable t"
            using inp by (auto intro: make_transition_storable)
          note step = append_ok [OF r this] append_error [OF r this]
          have spec: "service_spec verify now h subject_id c actor occurred_at rationale = append_spec h t"
            using False Inr ne t
            by (cases "transition_checks (snapshot_of subject_id mine) c")
              (simp_all add: service_spec_def Let_def flip: mine_def del: de_Morgan_conj)
          have impl: "transition_reliability_state append read verify now s subject_id c actor occurred_at rationale =
              (case append s t of
                 (Inl e, s2) \<Rightarrow> (Inl e, s2, [failure_event_now now ''state_write_failure''
                    ''append_reliability_state'' e (Some subject_id)])
               | (Inr u, s2) \<Rightarrow> (Inr u, s2, []))"
            using False Inr dup ne t
            by (simp add: transition_reliability_state_def Let_def cur del: de_Morgan_conj)
          show ?thesis
            using res step unfolding spec impl
            by (cases "append_spec h t"; cases "append s t") (auto split: sum.splits)
        qed
      qed
    qed
  qed
qed

text \<open>A retry of a successful call returns the same transition and changes nothing.\<close>

lemma service_retry:
  assumes r: "represents s h" and inp: "inputs_ok subject_id c actor (opt_or occurred_at now) rationale"
    and res: "transition_reliability_state append read verify now s subject_id c actor occurred_at rationale =
      (Inr t, s', events)"
  obtains h' s'' where "represents s' h'" and "represents s'' h'"
    and "transition_reliability_state append read verify now s' subject_id c actor occurred_at rationale =
      (Inr t, s'', [])"
proof -
  obtain h' where sp: "service_spec verify now h subject_id c actor occurred_at rationale = Inr (t, h')"
    and r': "represents s' h'"
    using service_refines [OF r inp res] by (auto split: sum.splits)
  have again: "service_spec verify now h' subject_id c actor occurred_at rationale = Inr (t, h')"
    by (rule service_spec_retry [OF represents_ok [OF r] inp sp])
  obtain result s'' events'' where res': "transition_reliability_state append read verify now s' subject_id c
      actor occurred_at rationale = (result, s'', events'')"
    by (cases "transition_reliability_state append read verify now s' subject_id c actor occurred_at rationale")
  with service_refines [OF r' inp res'] again
  have "result = Inr t" "represents s'' h'" "events'' = []" by simp_all
  with r' res' show thesis by (intro that) simp_all
qed

end

section \<open>Histories the service builds\<close>

text \<open>One call of the service by any caller, on the abstract history.\<close>

inductive serviced :: "transition list \<Rightarrow> transition list \<Rightarrow> bool" where
  call: "inputs_ok subject_id c actor (opt_or occurred_at now) rationale \<Longrightarrow>
    service_spec verify now h subject_id c actor occurred_at rationale = Inr (t, h') \<Longrightarrow> serviced h h'"

inductive_cases servicedE: "serviced h h'"

inductive reachable_history :: "transition list \<Rightarrow> bool" where
  empty: "reachable_history []"
| step: "reachable_history h \<Longrightarrow> serviced h h' \<Longrightarrow> reachable_history h'"

text \<open>A walk along allowed edges.\<close>

fun walk :: "string \<Rightarrow> transition list \<Rightarrow> bool" where
  "walk a [] = True"
| "walk a (t # ts) =
     (rt_from_state t = a \<and> allowed a (rt_to_state t) \<and> walk (rt_to_state t) ts)"

lemma walk_snoc:
  "walk a (ts @ [t]) \<longleftrightarrow> walk a ts \<and>
     (let b = (if ts = [] then a else rt_to_state (last ts))
      in rt_from_state t = b \<and> allowed b (rt_to_state t))"
  by (induction ts arbitrary: a) auto

lemma service_spec_new:
  assumes sp: "service_spec verify now h subject_id c actor occurred_at rationale = Inr (t, h')"
    and ok: "history_ok h" and inp: "inputs_ok subject_id c actor (opt_or occurred_at now) rationale"
  shows "history_ok h' \<and> (h' = h \<or> h' = h @ [t] \<and>
    rt_subject_id t = subject_id \<and>
    rt_from_state t = rs_state (snapshot_of subject_id (of_subject subject_id h)) \<and>
    make_transition subject_id (snapshot_of subject_id (of_subject subject_id h)) c actor
      (opt_or occurred_at now) rationale = Inr t \<and>
    transition_checks (snapshot_of subject_id (of_subject subject_id h)) c = Inr () \<and>
    rt_previous t = tip h subject_id)"
proof -
  let ?c = "snapshot_of subject_id (of_subject subject_id h)"
  consider "h' = h" | u where "transition_checks ?c c = Inr ()"
    "make_transition subject_id ?c c actor (opt_or occurred_at now) rationale = Inr u"
    "append_spec h u = Inr (t, h')"
    using sp by (auto simp: service_spec_def Let_def bindE_eq_Inr_iff split: if_splits)
  then show ?thesis
  proof cases
    case 1
    with ok show ?thesis by simp
  next
    case 2
    have st: "storable u" by (rule make_transition_storable [OF 2(2) inp])
    have f: "rt_subject_id u = subject_id" "rt_from_state u = rs_state ?c"
      "rt_previous u = opt_or (rs_transition_digest ?c) []"
      using 2(2) by (auto simp: make_transition_def Let_def construct_Inr_iff)
    have "opt_or (rs_transition_digest ?c) [] = tip h subject_id"
      by (simp add: snapshot_of_def tip_def opt_or_def Let_def)
    with append_spec_ok [OF ok st 2(3)] f 2 show ?thesis by auto
  qed
qed

lemma reachable_lifecycle:
  assumes "reachable_history h"
  shows "history_ok h \<and> walk ''unknown'' (of_subject s h)"
  using assms
proof (induction arbitrary: s)
  case empty
  show ?case by simp
next
  case (step h h')
  then have ok: "history_ok h" and w: "\<And>s. walk ''unknown'' (of_subject s h)" by simp_all
  obtain subject_id c actor occurred_at now rationale verify t
    where inp: "inputs_ok subject_id c actor (opt_or occurred_at now) rationale"
      and sp: "service_spec verify now h subject_id c actor occurred_at rationale = Inr (t, h')"
    using step.hyps(2) by (rule servicedE)
  note new = service_spec_new [OF sp ok inp]
  show ?case
  proof (cases "h' = h")
    case True
    with ok w show ?thesis by simp
  next
    case False
      have "rs_state (snapshot_of subject_id (of_subject subject_id h)) =
          (if of_subject subject_id h = [] then ''unknown''
           else rt_to_state (last (of_subject subject_id h)))"
        by (simp add: snapshot_of_def Let_def)
      moreover have "allowed (rt_from_state t) (rt_to_state t)"
        using new False by (auto simp: history_ok_def storable_def transition_ok_def transition_post_init_def)
      ultimately show ?thesis
        using new False w [of s] by (auto simp: walk_snoc Let_def)
  qed
qed

section \<open>Identities of the transitions of the service\<close>

text \<open>What the identity of a transition is the digest of, as its own fields record it.\<close>

definition identity_record :: "transition \<Rightarrow> payload" where
  "identity_record t = [
     (''subject_id'', JStr (rt_subject_id t)),
     (''previous_transition_digest'', JStr (rt_previous t)),
     (''evidence_chain_id'', JStr (rt_evidence_chain_id t)),
     (''evidence_chain_digest'', JStr (rt_evidence_chain_digest t)),
     (''occurred_at'', JStr (utc_iso (rt_occurred_at t))),
     (''decision'', JStr (rt_decision t)),
     (''to_state'', JStr (rt_to_state t))]"

definition identity_bytes :: "transition \<Rightarrow> string" where
  "identity_bytes t = canonical_ascii (JObj (identity_record t))"

lemma make_transition_identity:
  "make_transition subject_id current c actor occurred rationale = Inr t \<Longrightarrow>
   rt_transition_id t = sha256_hex (identity_bytes t)"
  by (auto simp: make_transition_def Let_def construct_Inr_iff transition_identity_def identity_bytes_def
      identity_record_def)

lemma json_ok_identity_record:
  assumes "storable t"
  shows "json_ok utf8_ok (JObj (identity_record t))"
proof (rule json_okI)
  show "distinct (map fst (identity_record t))" by (simp add: identity_record_def)
  have "list_all utf8_ok [''subject_id'', ''previous_transition_digest'', ''evidence_chain_id'',
      ''evidence_chain_digest'', ''occurred_at'', ''decision'', ''to_state'']" by code_simp
  then show "list_all utf8_ok (map fst (identity_record t))" by (simp add: identity_record_def)
  have "\<forall>kv \<in> set (transition_to_dict t). json_ok utf8_ok (snd kv)"
    using assms by (simp add: storable_def json_ok.simps(4))
  then show "list_all (\<lambda>v. json_ok utf8_ok v) (map snd (identity_record t))"
    by (simp add: identity_record_def transition_to_dict_def transition_payload_def)
qed

lemma identity_bytes_inject:
  assumes "identity_bytes t = identity_bytes u" "storable t" "storable u"
  shows "rt_evidence_chain_id t = rt_evidence_chain_id u"
proof -
  have "Some (sort_keys (JObj (identity_record t))) = Some (sort_keys (JObj (identity_record u)))"
    using assms loads_canonical_ascii [OF json_ok_identity_record]
    unfolding identity_bytes_def by metis
  then have e: "sort_keys (JObj (identity_record t)) = JObj (sorted_payload (identity_record u))"
    by (simp only: sort_keys_JObj option.inject)
  have "distinct (map fst (identity_record v))" for v by (simp add: identity_record_def)
  from map_of_sort_keys [OF this e] map_of_sort_keys [OF this sort_keys_JObj]
  have "map_option sort_keys (map_of (identity_record t) k) = map_option sort_keys (map_of (identity_record u) k)" for k
    by metis
  from this [of "''evidence_chain_id''"] show ?thesis by (simp add: identity_record_def)
qed

lemma reachable_identified:
  assumes "reachable_history h" "e \<in> set h"
  shows "rt_transition_id e = sha256_hex (identity_bytes e)"
  using assms
proof (induction arbitrary: e)
  case (step h h')
  then have ok: "history_ok h" using reachable_lifecycle by blast
  obtain subject_id c actor occurred_at now rationale verify t
    where inp: "inputs_ok subject_id c actor (opt_or occurred_at now) rationale"
      and sp: "service_spec verify now h subject_id c actor occurred_at rationale = Inr (t, h')"
    using step.hyps(2) by (rule servicedE)
  from service_spec_new [OF sp ok inp] step.IH step.prems show ?case
    by (auto dest: make_transition_identity)
qed simp

text \<open>The service takes a subject to the state of a chain whenever the state can be entered and the identity is fresh.\<close>

lemma service_spec_accepts:
  assumes ok: "history_ok h" and inp: "inputs_ok subject_id c actor (opt_or occurred_at now) rationale"
    and g: "\<not> blank subject_id" "\<not> blank actor" "tz_aware (opt_or occurred_at now)"
      "case verify of None \<Rightarrow> True | Some f \<Rightarrow> f c = Inr ()"
    and chk: "transition_checks (snapshot_of subject_id (of_subject subject_id h)) c = Inr ()"
    and dec: "rc_decision c = ''accept''" "rc_reliability_state c = ''reliable''" "\<not> blank (rc_chain_id c)"
  obtains t where "make_transition subject_id (snapshot_of subject_id (of_subject subject_id h)) c actor
      (opt_or occurred_at now) rationale = Inr t"
    and "rt_transition_id t \<notin> rt_transition_id ` set h \<Longrightarrow>
      rs_state (snapshot_of subject_id (of_subject subject_id h)) \<noteq> ''reliable'' \<Longrightarrow>
      service_spec verify now h subject_id c actor occurred_at rationale = Inr (t, h @ [t])"
proof -
  let ?c = "snapshot_of subject_id (of_subject subject_id h)"
  define t where "t = \<lparr>rt_transition_id = transition_identity subject_id (opt_or (rs_transition_digest ?c) []) c (opt_or occurred_at now),
         rt_subject_id = subject_id, rt_from_state = rs_state ?c,
         rt_to_state = rc_reliability_state c, rt_occurred_at = opt_or occurred_at now, rt_actor = actor,
         rt_evidence_chain_id = rc_chain_id c, rt_evidence_chain_digest = chain_digest c,
         rt_decision = rc_decision c,
         rt_rationale = (if rationale = [] then rc_decision_rationale c else rationale),
         rt_previous = opt_or (rs_transition_digest ?c) [], rt_digest = []\<rparr>"
  have al: "allowed (rs_state ?c) ''reliable''" using chk dec by (simp add: transition_checks_def Let_def)
  have prev: "opt_or (rs_transition_digest ?c) [] = tip h subject_id"
    by (simp add: snapshot_of_def tip_def opt_or_def Let_def)
  have "is_sha256 (chain_digest c)" by (simp add: chain_digest_def)
  moreover have "opt_or (rs_transition_digest ?c) [] = [] \<or> is_sha256 (opt_or (rs_transition_digest ?c) [])"
    by (simp add: snapshot_of_def Let_def opt_or_def transition_digest_def)
  ultimately have "transition_post_init t = Inr ()"
    using g dec al allowed_states [OF al]
    by (simp add: transition_post_init_def t_def transition_identity_def)
  then have m: "make_transition subject_id ?c c actor (opt_or occurred_at now) rationale = Inr t"
    by (simp add: make_transition_def Let_def construct_ok t_def)
  show thesis
  proof (rule that [OF m])
    assume fresh: "rt_transition_id t \<notin> rt_transition_id ` set h" and st: "rs_state ?c \<noteq> ''reliable''"
    have "find_first (\<lambda>e. rt_transition_id e = rt_transition_id t) h = None"
      using fresh by (simp add: find_first_None image_iff) metis
    moreover have "rt_from_state t = rt_to_state (last (of_subject subject_id h))" if "of_subject subject_id h \<noteq> []"
      using that by (simp add: t_def snapshot_of_def Let_def)
    moreover have "rt_previous t = tip h subject_id" "rt_subject_id t = subject_id" using prev by (simp_all add: t_def)
    ultimately have "append_spec h t = Inr (t, h @ [t])"
      by (cases "of_subject subject_id h = []") (simp_all add: append_spec_def)
    moreover have "\<not> (of_subject subject_id h \<noteq> [] \<and> rt_to_state (last (of_subject subject_id h)) = ''reliable'' \<and>
        rt_evidence_chain_id (last (of_subject subject_id h)) = rc_chain_id c)"
      using st by (auto simp: snapshot_of_def Let_def)
    ultimately show "service_spec verify now h subject_id c actor occurred_at rationale = Inr (t, h @ [t])"
      using g chk m dec by (cases verify) (simp_all add: service_spec_def Let_def del: de_Morgan_conj)
  qed
qed

section \<open>The contracts of the service\<close>

text \<open>The service on the two adapters.\<close>

definition service_jsonl where
  "service_jsonl recover = transition_reliability_state (jsonl_append True recover) (jsonl_read True recover)"

definition service_sqlite where
  "service_sqlite = transition_reliability_state sqlite_append sqlite_read"

text \<open>
  What a successful call of the service on a JSONL history has done. Either nothing, and it returns the
  last transition of the subject, which already has the target state and cites the same chain, or it
  appended exactly one transition: the chain was verified (when an evidence root is given), the
  transition leaves the current state of the subject along an allowed edge, continues its hash chain, cites the
  identity and the digest of the chain and carries its decision; a recovery leaves \<open>unreliable\<close>, and its
  chain has a recovery reference and a recovered reconciliation. No failure event is emitted.
\<close>

theorem service_new_transition:
  assumes "jsonl_represents file h" "inputs_ok subject_id c actor (opt_or occurred_at now) rationale"
    and "service_jsonl recover verify now file subject_id c actor occurred_at rationale = (Inr t, file', events)"
    and "t \<notin> set h"
  shows "jsonl_represents file' (h @ [t]) \<and> events = [] \<and>
    (case verify of None \<Rightarrow> True | Some f \<Rightarrow> f c = Inr ()) \<and>
    rt_subject_id t = subject_id \<and> rt_previous t = tip h subject_id \<and>
    rt_from_state t = rs_state (snapshot_of subject_id (of_subject subject_id h)) \<and>
    rt_to_state t = rc_reliability_state c \<and> allowed (rt_from_state t) (rt_to_state t) \<and>
    rt_evidence_chain_id t = rc_chain_id c \<and> rt_evidence_chain_digest t = chain_digest c \<and>
    rt_decision t = rc_decision c \<and>
    (rt_to_state t = ''recovered'' \<longrightarrow> rt_from_state t = ''unreliable'' \<and> rc_recovery_ref c \<noteq> None \<and>
       rc_reconciliation_state c = ''recovered'')"
proof -
  obtain h' where sp: "service_spec verify now h subject_id c actor occurred_at rationale = Inr (t, h')"
    and r: "jsonl_represents file' h'" and ev: "events = []"
    using jsonl.service_refines [OF assms(1,2) assms(3) [unfolded service_jsonl_def]]
    by (auto split: sum.splits)
  have ok: "history_ok h" using assms(1) by (simp add: jsonl_represents_def)
  have v: "case verify of None \<Rightarrow> True | Some f \<Rightarrow> f c = Inr ()"
    using sp by (auto simp: service_spec_def Let_def bindE_eq_Inr_iff split: option.splits)
  have "h' \<noteq> h"
  proof
    assume "h' = h"
    then have "service_spec verify now h subject_id c actor occurred_at rationale = Inr (t, h)"
      using sp by simp
    moreover have "append_spec h u \<noteq> Inr (t, h)" for u
      using assms(4) by (auto simp: append_spec_def bindE_eq_Inr_iff dest: find_first_Some
          split: option.splits if_splits)
    moreover have "t \<in> set h" if "mine \<noteq> []" "t = last mine" "mine = of_subject subject_id h" for mine
      using that last_in_set [of mine] by (auto simp: of_subject_def)
    ultimately show False
      using assms(4) by (auto simp: service_spec_def Let_def bindE_eq_Inr_iff split: if_splits)
  qed
  with service_spec_new [OF sp ok assms(2)]
  have new: "h' = h @ [t]" "rt_subject_id t = subject_id"
    "rt_from_state t = rs_state (snapshot_of subject_id (of_subject subject_id h))"
    "rt_previous t = tip h subject_id"
    "transition_checks (snapshot_of subject_id (of_subject subject_id h)) c = Inr ()"
    and m: "make_transition subject_id (snapshot_of subject_id (of_subject subject_id h)) c actor
      (opt_or occurred_at now) rationale = Inr t"
    by simp_all
  have f: "rt_to_state t = rc_reliability_state c" "rt_evidence_chain_id t = rc_chain_id c"
    "rt_evidence_chain_digest t = chain_digest c" "rt_decision t = rc_decision c"
    using m by (auto simp: make_transition_def Let_def construct_Inr_iff)
  have "rc_reliability_state c = ''recovered'' \<longrightarrow>
      rs_state (snapshot_of subject_id (of_subject subject_id h)) = ''unreliable'' \<and>
      rc_recovery_ref c \<noteq> None \<and> rc_reconciliation_state c = ''recovered''"
    and "allowed (rs_state (snapshot_of subject_id (of_subject subject_id h))) (rc_reliability_state c)"
    using new(5) by (simp_all add: transition_checks_def Let_def)
  with new f r ev v show ?thesis by simp
qed

text \<open>
  Retrying a successful call is safe: it returns the same transition, emits nothing, and leaves the history as it is.
\<close>

theorem service_retry_idempotent:
  assumes "jsonl_represents file h" "inputs_ok subject_id c actor (opt_or occurred_at now) rationale"
    and "service_jsonl recover verify now file subject_id c actor occurred_at rationale = (Inr t, file', events)"
  shows "\<exists>h' file''. jsonl_represents file' h' \<and> jsonl_represents file'' h' \<and>
    service_jsonl recover verify now file' subject_id c actor occurred_at rationale = (Inr t, file'', [])"
  using jsonl.service_retry [OF assms(1,2) assms(3) [unfolded service_jsonl_def]]
  unfolding service_jsonl_def by blast

text \<open>
  A failing call changes no history, whatever failed, and the service behaves the same on both adapters: from stores that
  represent one history, the calls have one outcome.
\<close>

theorem service_outcome_agrees:
  assumes "jsonl_represents file h" "sqlite_represents rows h"
    and "inputs_ok subject_id c actor (opt_or occurred_at now) rationale"
    and "service_jsonl recover verify now file subject_id c actor occurred_at rationale = (r, file', events)"
    and "service_sqlite verify now rows subject_id c actor occurred_at rationale = (r', rows', events')"
  shows "r = r' \<and> (\<exists>h'. jsonl_represents file' h' \<and> sqlite_represents rows' h' \<and>
    ((\<exists>e. r = Inl e) \<longrightarrow> h' = h))"
  using jsonl.service_refines [OF assms(1,3) assms(4) [unfolded service_jsonl_def]]
    sqlite.service_refines [OF assms(2,3) assms(5) [unfolded service_sqlite_def]]
  by (cases "service_spec verify now h subject_id c actor occurred_at rationale")
    (auto split: prod.splits)



section \<open>Witnesses\<close>

lemma sample_inputs_ok: "inputs_ok ''s'' sample_chain ''op'' (Aware 0) []"
  by code_simp

lemma sample_service_spec:
  "\<exists>t. service_spec None (Aware 0) [] ''s'' sample_chain ''op'' None [] = Inr (t, [t])"
proof -
  define t where "t = \<lparr>rt_transition_id = transition_identity ''s'' [] sample_chain (Aware 0),
    rt_subject_id = ''s'', rt_from_state = ''unknown'', rt_to_state = ''reliable'',
    rt_occurred_at = Aware 0, rt_actor = ''op'', rt_evidence_chain_id = ''c'',
    rt_evidence_chain_digest = chain_digest sample_chain, rt_decision = ''accept'',
    rt_rationale = [''ok''], rt_previous = [], rt_digest = []\<rparr>"
  have a: "allowed ''unknown'' ''reliable''" by code_simp
  have c: "rc_reliability_state sample_chain = ''reliable''" "rc_decision sample_chain = ''accept''"
    "rc_chain_id sample_chain = ''c''" "rc_decision_rationale sample_chain = [''ok'']"
    by (simp_all add: sample_chain_def)
  have "transition_post_init t = Inr ()"
    using a by (simp add: transition_post_init_def t_def reliability_states_def transition_identity_def
        chain_digest_def)
  then have "make_transition ''s'' (snapshot_of ''s'' []) sample_chain ''op'' (Aware 0) [] = Inr t"
    by (simp add: make_transition_def snapshot_of_def c t_def opt_or_def construct_def)
  moreover have "append_spec [] t = Inr (t, [t])"
    by (simp add: append_spec_def find_first_def t_def tip_def)
  moreover have "transition_checks (snapshot_of ''s'' []) sample_chain = Inr ()"
    using a by (simp add: transition_checks_def snapshot_of_def c)
  ultimately have "service_spec None (Aware 0) [] ''s'' sample_chain ''op'' None [] = Inr (t, [t])"
    by (simp add: service_spec_def opt_or_def)
  then show ?thesis by blast
qed

lemma sample_service:
  obtains t file' where
    "service_jsonl True None (Aware 0) None ''s'' sample_chain ''op'' None [] = (Inr t, file', [])"
proof -
  obtain r file' ev where res:
    "service_jsonl True None (Aware 0) None ''s'' sample_chain ''op'' None [] = (r, file', ev)"
    by (cases "service_jsonl True None (Aware 0) None ''s'' sample_chain ''op'' None []")
  have inp: "inputs_ok ''s'' sample_chain ''op'' (opt_or None (Aware 0)) []"
    using sample_inputs_ok by (simp add: opt_or_def)
  show thesis
    using jsonl.service_refines [OF empty_represents inp res [unfolded service_jsonl_def]]
      sample_service_spec res that by auto
qed

lemma sample_inputs: "inputs_ok ''s'' sample_chain ''op'' (opt_or None (Aware 0)) []"
  using sample_inputs_ok by (simp add: opt_or_def)

lemma service_new_transition_witness:
  "\<exists>t file'. service_jsonl True None (Aware 0) None ''s'' sample_chain ''op'' None [] = (Inr t, file', []) \<and>
     jsonl_represents file' [t] \<and> rt_to_state t = ''reliable''"
proof -
  obtain t file' where res:
    "service_jsonl True None (Aware 0) None ''s'' sample_chain ''op'' None [] = (Inr t, file', [])"
    by (rule sample_service)
  with service_new_transition [OF empty_represents sample_inputs res] show ?thesis
    by (auto simp: sample_chain_def)
qed

lemma service_retry_idempotent_witness:
  "\<exists>t file' file''. service_jsonl True None (Aware 0) None ''s'' sample_chain ''op'' None [] = (Inr t, file', []) \<and>
     service_jsonl True None (Aware 0) file' ''s'' sample_chain ''op'' None [] = (Inr t, file'', [])"
proof -
  obtain t file' where res:
    "service_jsonl True None (Aware 0) None ''s'' sample_chain ''op'' None [] = (Inr t, file', [])"
    by (rule sample_service)
  with service_retry_idempotent [OF empty_represents sample_inputs res] show ?thesis
    by blast
qed

lemma service_outcome_agrees_witness:
  "fst (service_jsonl True None (Aware 0) None ''s'' sample_chain ''op'' None []) =
   fst (service_sqlite None (Aware 0) [] ''s'' sample_chain ''op'' None [])"
proof -
  have "sqlite_represents [] []" by (simp add: sqlite_represents_def)
  then show ?thesis
    using service_outcome_agrees [OF empty_represents _ sample_inputs]
    by (metis prod.collapse fst_conv)
qed



end
