(* ===== verification/Containment.thy ===== *)
theory Containment
  imports Complex_Main JsonSupport "HOL-Library.Word"
begin

unbundle bit_operations_syntax

text \<open>
  \<open>domain/runtime_containment.py\<close>: the limits for untrusted input, the walk over decoded JSON and the
  checks of archive metadata. A ratio and a number of seconds are rationals: with the sizes the limits
  admit, the floating-point quotient of the code compares with the limit as the exact one does. Text
  given as bytes is UTF-8: the detection of other encodings by \<open>json.loads\<close> is not modelled, nor is
  \<open>validate_reference\<close>, which is a call of \<open>urlparse\<close>.
\<close>

section \<open>Limits\<close>

record limits =
  max_input_bytes :: int
  max_archive_members :: int
  max_archive_uncompressed_bytes :: int
  max_archive_compression_ratio :: rat
  max_json_depth :: int
  max_json_nodes :: int
  max_string_bytes :: int
  max_graph_nodes :: int
  max_verification_seconds :: rat
  max_concurrency :: int
  max_temporary_bytes :: int

definition default_limits :: limits where
  "default_limits = \<lparr>max_input_bytes = 64 * 1024 * 1024, max_archive_members = 256,
     max_archive_uncompressed_bytes = 128 * 1024 * 1024, max_archive_compression_ratio = 100,
     max_json_depth = 64, max_json_nodes = 10000, max_string_bytes = 256 * 1024,
     max_graph_nodes = 10000, max_verification_seconds = 30, max_concurrency = 4,
     max_temporary_bytes = 128 * 1024 * 1024\<rparr>"

definition limits_post_init :: "limits \<Rightarrow> unit result" where
  "limits_post_init l = guards [
     (max_input_bytes l \<le> 0, ValueError ''max_input_bytes''),
     (max_archive_members l \<le> 0, ValueError ''max_archive_members''),
     (max_archive_uncompressed_bytes l \<le> 0, ValueError ''max_archive_uncompressed_bytes''),
     (max_json_depth l \<le> 0, ValueError ''max_json_depth''),
     (max_json_nodes l \<le> 0, ValueError ''max_json_nodes''),
     (max_string_bytes l \<le> 0, ValueError ''max_string_bytes''),
     (max_graph_nodes l \<le> 0, ValueError ''max_graph_nodes''),
     (max_concurrency l \<le> 0, ValueError ''max_concurrency''),
     (max_temporary_bytes l \<le> 0, ValueError ''max_temporary_bytes''),
     (max_archive_compression_ratio l < 1, ValueError ''max_archive_compression_ratio''),
     (max_verification_seconds l \<le> 0, ValueError ''max_verification_seconds'')]"

text \<open>The monotonic clock is an argument.\<close>

record deadline =
  dl_expires_at :: rat

definition deadline_from_limits :: "rat \<Rightarrow> limits \<Rightarrow> deadline" where
  "deadline_from_limits clock l = \<lparr>dl_expires_at = clock + max_verification_seconds l\<rparr>"

definition deadline_check :: "rat \<Rightarrow> deadline \<Rightarrow> unit result" where
  "deadline_check clock d = guards [(dl_expires_at d < clock, ContainmentViolationError ''time'')]"

definition validate_input_size :: "int \<Rightarrow> limits \<Rightarrow> unit result" where
  "validate_input_size n l = guards [
     (n < 0, ContainmentViolationError ''size must be non-negative''),
     (max_input_bytes l < n, ContainmentViolationError ''maximum input size'')]"

section \<open>Bounded JSON\<close>

definition check_string :: "limits \<Rightarrow> string \<Rightarrow> unit result" where
  "check_string l s = guards [(max_string_bytes l < int (length s), ContainmentViolationError ''string'')]"

text \<open>\<open>_walk_json\<close>: the list cell \<open>counts[0]\<close> is the state of the fold.\<close>

fun walk_json :: "limits \<Rightarrow> int \<Rightarrow> json \<Rightarrow> int \<Rightarrow> int result" where
  "walk_json l depth v count =
     bindE (guards [
         (max_json_nodes l < count + 1, ContainmentViolationError ''node count''),
         (max_json_depth l < depth, ContainmentViolationError ''nesting depth'')]) (\<lambda>_.
     (case v of
        JStr s \<Rightarrow> bindE (check_string l s) (\<lambda>_. Inr (count + 1))
      | JObj kvs \<Rightarrow>
          foldE (\<lambda>kv n. bindE (check_string l (fst kv)) (\<lambda>_. walk_json l (depth + 1) (snd kv) n)) kvs (count + 1)
      | JArr vs \<Rightarrow> foldE (walk_json l (depth + 1)) vs (count + 1)
      | _ \<Rightarrow> Inr (count + 1)))"

declare walk_json.simps [simp del]

definition load_bounded_json :: "limits \<Rightarrow> string \<Rightarrow> json result" where
  "load_bounded_json l raw =
     bindE (validate_input_size (int (length raw)) l) (\<lambda>_.
     if \<not> utf8_ok raw then Inl (UnicodeDecodeError ''utf-8'')
     else (case loads raw of
        None \<Rightarrow> Inl (ContainmentViolationError ''not valid JSON'')
      | Some v \<Rightarrow> bindE (walk_json l 0 v 0) (\<lambda>_. Inr v)))"

section \<open>Archives\<close>

record zip_info =
  zi_filename :: string
  zi_file_size :: int
  zi_compress_size :: int
  zi_external_attr :: "32 word"

definition external_mode :: "zip_info \<Rightarrow> 32 word" where
  "external_mode z = drop_bit 16 (zi_external_attr z) AND 0xFFFF"

definition is_symlink :: "zip_info \<Rightarrow> bool" where
  "is_symlink z = (external_mode z \<noteq> 0 \<and> external_mode z AND 0xF000 = 0xA000)"

definition unsafe_path :: "string \<Rightarrow> bool" where
  "unsafe_path p = (starts_with p ''/'' \<or> ''..'' \<in> set (split_on CHR ''/'' p))"

definition validate_archive_metadata :: "limits \<Rightarrow> zip_info \<Rightarrow> unit result" where
  "validate_archive_metadata l z = guards [
     (unsafe_path (zi_filename z), ContainmentViolationError ''unsafe archive path''),
     (max_archive_uncompressed_bytes l < zi_file_size z, ContainmentViolationError ''member size''),
     (max_archive_compression_ratio l < of_int (zi_file_size z) / of_int (max (zi_compress_size z) 1),
        ContainmentViolationError ''compression ratio''),
     (is_symlink z, ContainmentViolationError ''symlink'')]"

definition validate_archive_envelope :: "limits \<Rightarrow> zip_info list \<Rightarrow> unit result" where
  "validate_archive_envelope l infos =
     bindE (guards [(max_archive_members l < int (length infos), ContainmentViolationError ''members'')]) (\<lambda>_.
     bindE (foldE (\<lambda>z total.
         bindE (validate_archive_metadata l z) (\<lambda>_.
         bindE (guards [(max_archive_uncompressed_bytes l < total + zi_file_size z,
             ContainmentViolationError ''aggregate size'')])
           (\<lambda>_. Inr (total + zi_file_size z)))) infos 0) (\<lambda>_. Inr ()))"

section \<open>What the walk bounds\<close>

text \<open>The measures of a value: its nodes, its nesting depth and its longest string or key.\<close>

fun json_nodes :: "json \<Rightarrow> int" where
  "json_nodes (JObj kvs) = 1 + sum_list (map (\<lambda>kv. json_nodes (snd kv)) kvs)"
| "json_nodes (JArr vs) = 1 + sum_list (map json_nodes vs)"
| "json_nodes _ = 1"

fun deep_ok :: "limits \<Rightarrow> int \<Rightarrow> json \<Rightarrow> bool" where
  "deep_ok l d (JObj kvs) =
     (d \<le> max_json_depth l \<and> (\<forall>kv \<in> set kvs. int (length (fst kv)) \<le> max_string_bytes l \<and> deep_ok l (d + 1) (snd kv)))"
| "deep_ok l d (JArr vs) = (d \<le> max_json_depth l \<and> (\<forall>v \<in> set vs. deep_ok l (d + 1) v))"
| "deep_ok l d (JStr s) = (d \<le> max_json_depth l \<and> int (length s) \<le> max_string_bytes l)"
| "deep_ok l d _ = (d \<le> max_json_depth l)"

lemma json_nodes_pos: "1 \<le> json_nodes v"
  by (induction v rule: json_nodes.induct) (auto intro!: sum_list_nonneg simp: order.trans [OF zero_le_one])

lemma foldE_count:
  assumes "\<And>x c c'. x \<in> set xs \<Longrightarrow> f x c = Inr c' \<longleftrightarrow> c' = c + g x \<and> c + g x \<le> (M :: int) \<and> P x"
    and "\<And>x. x \<in> set xs \<Longrightarrow> 0 \<le> g x" and "c \<le> M"
  shows "foldE f xs c = Inr c' \<longleftrightarrow>
    c' = c + sum_list (map g xs) \<and> c + sum_list (map g xs) \<le> M \<and> (\<forall>x \<in> set xs. P x)"
  using assms
proof (induction xs arbitrary: c)
  case Nil
  then show ?case by auto
next
  case (Cons x xs)
  have nonneg: "0 \<le> sum_list (map g xs)" using Cons.prems(2) by (intro sum_list_nonneg) auto
  have IH: "foldE f xs (c + g x) = Inr c' \<longleftrightarrow> c' = c + g x + sum_list (map g xs) \<and>
      c + g x + sum_list (map g xs) \<le> M \<and> (\<forall>x \<in> set xs. P x)" if "c + g x \<le> M"
    using Cons.prems that by (intro Cons.IH) simp_all
  have "foldE f (x # xs) c = Inr c' \<longleftrightarrow> c + g x \<le> M \<and> P x \<and> foldE f xs (c + g x) = Inr c'"
    using Cons.prems(1) [of x c] by (auto simp: bindE_eq_Inr_iff)
  with IH nonneg show ?case by (auto simp: add.assoc)
qed

lemma check_string_Inr: "check_string l s = Inr u \<longleftrightarrow> int (length s) \<le> max_string_bytes l"
  by (auto simp: check_string_def)

lemma walk_json_Inr:
  "walk_json l d v c = Inr c' \<longleftrightarrow>
    c' = c + json_nodes v \<and> c + json_nodes v \<le> max_json_nodes l \<and> deep_ok l d v"
proof (induction l d v c arbitrary: c' rule: walk_json.induct)
  case (1 l d v c)
  show ?case
  proof (cases "c + 1 \<le> max_json_nodes l \<and> d \<le> max_json_depth l")
    case False
    then have "walk_json l d v c \<noteq> Inr c'" by (subst walk_json.simps) auto
    moreover have "\<not> (c + json_nodes v \<le> max_json_nodes l \<and> deep_ok l d v)"
      using False json_nodes_pos [of v] by (cases v) auto
    ultimately show ?thesis by blast
  next
    case True
    then have g: "guards [(max_json_nodes l < c + 1, ContainmentViolationError ''node count''),
        (max_json_depth l < d, ContainmentViolationError ''nesting depth'')] = Inr ()" by simp
    show ?thesis
    proof (cases v)
      case (JStr s)
      with True show ?thesis by (subst walk_json.simps) (auto simp: check_string_Inr bindE_eq_Inr_iff)
    next
      case (JArr vs)
      have "foldE (walk_json l (d + 1)) vs (c + 1) = Inr c' \<longleftrightarrow>
          c' = c + 1 + sum_list (map json_nodes vs) \<and> c + 1 + sum_list (map json_nodes vs) \<le> max_json_nodes l \<and>
          (\<forall>v \<in> set vs. deep_ok l (d + 1) v)"
        using True json_nodes_pos 1(1) [OF g JArr]
        by (intro foldE_count) (auto intro: order.trans [OF zero_le_one])
      with True JArr show ?thesis by (subst walk_json.simps) auto
    next
      case (JObj kvs)
      have "foldE (\<lambda>kv n. bindE (check_string l (fst kv)) (\<lambda>_. walk_json l (d + 1) (snd kv) n)) kvs (c + 1) = Inr c' \<longleftrightarrow>
          c' = c + 1 + sum_list (map (\<lambda>kv. json_nodes (snd kv)) kvs) \<and>
          c + 1 + sum_list (map (\<lambda>kv. json_nodes (snd kv)) kvs) \<le> max_json_nodes l \<and>
          (\<forall>kv \<in> set kvs. int (length (fst kv)) \<le> max_string_bytes l \<and> deep_ok l (d + 1) (snd kv))"
        using True json_nodes_pos 1(2) [OF g JObj]
        by (intro foldE_count) (auto simp: bindE_eq_Inr_iff check_string_Inr intro: order.trans [OF zero_le_one])
      with True JObj show ?thesis by (subst walk_json.simps) auto
    qed (use True in \<open>subst walk_json.simps; auto\<close>)+
  qed
qed

section \<open>Properties\<close>

text \<open>
  What bounded decoding accepts is what it promises, and conversely: a document is accepted exactly
  when its bytes are within the input limit, it is JSON, its value has at most the configured number of
  nodes, and no value is nested deeper nor any string or key longer than the limits.
\<close>

theorem bounded_json_iff:
  "load_bounded_json l raw = Inr v \<longleftrightarrow>
    int (length raw) \<le> max_input_bytes l \<and> utf8_ok raw \<and> loads raw = Some v \<and>
    json_nodes v \<le> max_json_nodes l \<and> deep_ok l 0 v"
  by (auto simp: load_bounded_json_def validate_input_size_def bindE_eq_Inr_iff walk_json_Inr
      split: option.splits)

lemma archive_envelope_Inr:
  assumes "\<forall>z \<in> set infos. 0 \<le> zi_file_size z"
  shows "validate_archive_envelope l infos = Inr () \<longleftrightarrow>
    int (length infos) \<le> max_archive_members l \<and>
    list_all (\<lambda>z. validate_archive_metadata l z = Inr ()) infos \<and>
    (infos = [] \<or> sum_list (map zi_file_size infos) \<le> max_archive_uncompressed_bytes l)"
proof (cases "infos = [] \<or> 0 \<le> max_archive_uncompressed_bytes l")
  case True
  let ?f = "\<lambda>z total. bindE (validate_archive_metadata l z) (\<lambda>_.
    bindE (guards [(max_archive_uncompressed_bytes l < total + zi_file_size z,
      ContainmentViolationError ''aggregate size'')]) (\<lambda>_. Inr (total + zi_file_size z)))"
  have "foldE ?f infos 0 = Inr n \<longleftrightarrow> n = 0 + sum_list (map zi_file_size infos) \<and>
      0 + sum_list (map zi_file_size infos) \<le> max_archive_uncompressed_bytes l \<and>
      (\<forall>z \<in> set infos. validate_archive_metadata l z = Inr ())" if "infos \<noteq> []" for n
    using that True assms by (intro foldE_count) (auto simp: bindE_eq_Inr_iff)
  then show ?thesis
    by (cases "infos = []") (auto simp: validate_archive_envelope_def bindE_eq_Inr_iff list_all_iff)
next
  case False
  then obtain z rest where infos: "infos = z # rest" by (cases infos) auto
  have "0 \<le> zi_file_size z" "0 \<le> sum_list (map zi_file_size rest)"
    using assms infos by (auto intro!: sum_list_nonneg)
  with False infos show ?thesis
    by (auto simp: validate_archive_envelope_def bindE_eq_Inr_iff)
qed

text \<open>
  C39: an accepted archive is bounded in every respect: the number of members, the sum of their sizes, and
  for each member its compression ratio, a relative path without \<open>..\<close>, and no symbolic link, read from
  the upper half of the 32-bit attributes.
\<close>

theorem archive_envelope_bounds:
  assumes "\<forall>z \<in> set infos. 0 \<le> zi_file_size z" and "0 \<le> max_archive_uncompressed_bytes l"
  shows "validate_archive_envelope l infos = Inr () \<longleftrightarrow>
    int (length infos) \<le> max_archive_members l \<and>
    sum_list (map zi_file_size infos) \<le> max_archive_uncompressed_bytes l \<and>
    (\<forall>z \<in> set infos. \<not> unsafe_path (zi_filename z) \<and> \<not> is_symlink z \<and>
      of_int (zi_file_size z) \<le> max_archive_compression_ratio l * of_int (max (zi_compress_size z) 1))"
proof -
  have size: "zi_file_size z \<le> sum_list (map zi_file_size infos)" if "z \<in> set infos" for z
    using assms(1) that
  proof (induction infos)
    case (Cons y ys)
    have "0 \<le> sum_list (map zi_file_size ys)" using Cons.prems by (intro sum_list_nonneg) auto
    with Cons show ?case by fastforce
  qed simp
  have meta: "validate_archive_metadata l z = Inr () \<longleftrightarrow> \<not> unsafe_path (zi_filename z) \<and> \<not> is_symlink z \<and>
      zi_file_size z \<le> max_archive_uncompressed_bytes l \<and>
      of_int (zi_file_size z) \<le> max_archive_compression_ratio l * of_int (max (zi_compress_size z) 1)" for z
    by (auto simp: validate_archive_metadata_def not_less pos_divide_le_eq)
  show ?thesis
    unfolding archive_envelope_Inr [OF assms(1)] list_all_iff meta using size assms(2) by fastforce
qed

lemma archive_envelope_bounds_witness:
  "validate_archive_envelope default_limits [\<lparr>zi_filename = ''a/b'', zi_file_size = 90, zi_compress_size = 0,
     zi_external_attr = 0x81A40000\<rparr>] = Inr () \<and>
   validate_archive_envelope default_limits [\<lparr>zi_filename = ''a/b'', zi_file_size = 90, zi_compress_size = 0,
     zi_external_attr = 0xA1FF0000\<rparr>] \<noteq> Inr ()"
proof -
  have attr: "\<not> is_symlink \<lparr>zi_filename = f, zi_file_size = s, zi_compress_size = c, zi_external_attr = 0x81A40000\<rparr>"
    "is_symlink \<lparr>zi_filename = f, zi_file_size = s, zi_compress_size = c, zi_external_attr = 0xA1FF0000\<rparr>" for f s c
    by (simp_all add: is_symlink_def external_mode_def)
  have path: "\<not> unsafe_path ''a/b''" by code_simp
  show ?thesis
    by (subst archive_envelope_bounds; simp add: default_limits_def attr path)+
qed

end
