(* ===== verification/Governance.thy ===== *)
theory Governance
  imports Evidence
begin

text \<open>
  \<open>domain/governance.py\<close> and \<open>domain/data_lifecycle.py\<close>: sensitivity classifications, the governance
  of an evidence manifest by destination, inherited sensitivity, retention and deletion. A lookup
  \<open>SENSITIVITY_ORDER[s]\<close> of an unsupported classification is a \<open>KeyError\<close>.
\<close>

section \<open>Sensitivity\<close>

definition sensitivity_order :: "(string, int) dict" where
  "sensitivity_order = [(''public'', 0), (''internal'', 1), (''confidential'', 2), (''restricted'', 3)]"

definition sensitivities :: "string list" where
  "sensitivities = map fst sensitivity_order"

definition rank_of :: "string \<Rightarrow> int result" where
  "rank_of s = (case map_of sensitivity_order s of None \<Rightarrow> Inl (KeyError s) | Some n \<Rightarrow> Inr n)"

definition exceeds :: "string \<Rightarrow> string \<Rightarrow> bool result" where
  "exceeds s ceiling = bindE (rank_of s) (\<lambda>a. bindE (rank_of ceiling) (\<lambda>b. Inr (b < a)))"

definition validate_sensitivity :: "string \<Rightarrow> unit result" where
  "validate_sensitivity s = guards [(s \<notin> set sensitivities, ValueError ''sensitivity'')]"

section \<open>Evidence governance\<close>

record governance_policy =
  gp_policy_id :: string
  gp_storage_max :: string
  gp_telemetry_max :: string
  gp_require_digest_for :: "string list"

definition governance_policy_post_init :: "governance_policy \<Rightarrow> unit result" where
  "governance_policy_post_init p = guards [
     (blank (gp_policy_id p), ValueError ''policy_id''),
     (gp_storage_max p \<notin> set sensitivities, ValueError ''storage_max_sensitivity''),
     (gp_telemetry_max p \<notin> set sensitivities, ValueError ''telemetry_max_sensitivity''),
     (filter (\<lambda>s. s \<notin> set sensitivities) (gp_require_digest_for p) \<noteq> [], ValueError ''require_digest_for'')]"

record governance_decision =
  gd_policy_id :: string
  gd_manifest_id :: string
  gd_storage_allowed :: bool
  gd_telemetry_allowed :: bool
  gd_storage_reasons :: "string list"
  gd_telemetry_reasons :: "string list"
  gd_visible :: "string list"

definition decision_allowed :: "governance_decision \<Rightarrow> bool" where
  "decision_allowed d = (gd_storage_allowed d \<and> gd_telemetry_allowed d)"

definition governance_decision_to_dict :: "governance_decision \<Rightarrow> payload" where
  "governance_decision_to_dict d = [
     (''policy_id'', JStr (gd_policy_id d)),
     (''manifest_id'', JStr (gd_manifest_id d)),
     (''storage_allowed'', JBool (gd_storage_allowed d)),
     (''telemetry_allowed'', JBool (gd_telemetry_allowed d)),
     (''storage_reasons'', jstrs (gd_storage_reasons d)),
     (''telemetry_reasons'', jstrs (gd_telemetry_reasons d)),
     (''telemetry_visible_evidence_ids'', jstrs (gd_visible d))]"

text \<open>The body of the loop, on the storage reasons, the telemetry reasons and the visible identifiers.\<close>

definition govern_item :: "governance_policy \<Rightarrow> evidence_item \<Rightarrow>
    string list \<times> string list \<times> string list \<Rightarrow> (string list \<times> string list \<times> string list) result" where
  "govern_item p i = (\<lambda>(storage, telemetry, visible).
     let name = ''evidence '' @ ei_evidence_id i; s = ei_sensitivity i in
     bindE (exceeds s (gp_storage_max p)) (\<lambda>over.
     bindE (exceeds s (gp_telemetry_max p)) (\<lambda>hidden.
     Inr (storage @
            (if over then [name @ '' exceeds storage sensitivity ceiling '' @ gp_storage_max p @ ''.''] else []) @
            (if s \<in> set (gp_require_digest_for p) \<and> opt_or (ei_digest i) [] = []
             then [name @ '' requires a digest for sensitivity '' @ s @ ''.''] else []),
          telemetry @
            (if hidden then [name @ '' is excluded from telemetry at sensitivity '' @ s @ ''.''] else []),
          visible @ (if hidden then [] else [ei_evidence_id i])))))"

definition evaluate_evidence_governance ::
    "evidence_manifest \<Rightarrow> governance_policy \<Rightarrow> governance_decision result" where
  "evaluate_evidence_governance m p =
     bindE (foldE (govern_item p) (em_items m) ([], [], [])) (\<lambda>(storage, telemetry, visible).
       Inr \<lparr>gd_policy_id = gp_policy_id p, gd_manifest_id = em_manifest_id m,
            gd_storage_allowed = (storage = []), gd_telemetry_allowed = True,
            gd_storage_reasons = storage, gd_telemetry_reasons = telemetry,
            gd_visible = sort visible\<rparr>)"

fun filterE :: "('a \<Rightarrow> bool result) \<Rightarrow> 'a list \<Rightarrow> 'a list result" where
  "filterE f [] = Inr []"
| "filterE f (x # xs) = bindE (f x) (\<lambda>b. bindE (filterE f xs) (\<lambda>ys. Inr (if b then x # ys else ys)))"

definition project_manifest_for_telemetry ::
    "evidence_manifest \<Rightarrow> governance_policy \<Rightarrow> evidence_manifest result" where
  "project_manifest_for_telemetry m p =
     bindE (filterE (\<lambda>i. bindE (exceeds (ei_sensitivity i) (gp_telemetry_max p)) (\<lambda>h. Inr (\<not> h))) (em_items m))
       (\<lambda>visible. construct evidence_manifest_post_init
          \<lparr>em_manifest_id = em_manifest_id m, em_run_id = em_run_id m, em_items = visible\<rparr>)"

section \<open>Inherited sensitivity\<close>

text \<open>\<open>max(xs, key=f)\<close>: the first of the elements with the greatest key.\<close>

fun first_max :: "('a \<Rightarrow> int) \<Rightarrow> 'a \<Rightarrow> 'a list \<Rightarrow> 'a" where
  "first_max f x [] = x"
| "first_max f x (y # ys) = first_max f (if f x < f y then y else x) ys"

definition rank :: "string \<Rightarrow> int" where
  "rank s = opt_or (map_of sensitivity_order s) (- 1)"

definition inherit_sensitivity :: "string list \<Rightarrow> string option \<Rightarrow> bool \<Rightarrow> string result" where
  "inherit_sensitivity sources requested approved =
     (case sources of
        [] \<Rightarrow> Inl (ValueError ''source_sensitivities'')
      | x # xs \<Rightarrow>
          bindE (guards (map (\<lambda>s. (s \<notin> set sensitivities, ValueError ''source sensitivity'')) sources)) (\<lambda>_.
          let inherited = first_max rank x xs in
          (case requested of
             None \<Rightarrow> Inr inherited
           | Some r \<Rightarrow>
               bindE (guards [
                   (r \<notin> set sensitivities, ValueError ''requested_sensitivity''),
                   (rank r < rank inherited \<and> \<not> approved, ValueError ''downgraded'')])
                 (\<lambda>_. Inr r))))"

section \<open>Retention, disclosure and deletion\<close>

record lifecycle_policy =
  lp_policy_id :: string
  lp_purpose :: string
  lp_max_retention_days :: "int option"
  lp_storage_max :: string
  lp_telemetry_max :: string
  lp_disclosure_max :: string
  lp_encryption_required :: bool
  lp_tls_required :: bool

definition lifecycle_policy_post_init :: "lifecycle_policy \<Rightarrow> unit result" where
  "lifecycle_policy_post_init p = guards [
     (blank (lp_policy_id p) \<or> blank (lp_purpose p), ValueError ''policy_id, purpose''),
     (case lp_max_retention_days p of None \<Rightarrow> False | Some n \<Rightarrow> n < 0, ValueError ''max_retention_days''),
     (lp_storage_max p \<notin> set sensitivities, ValueError ''storage_max_sensitivity''),
     (lp_telemetry_max p \<notin> set sensitivities, ValueError ''telemetry_max_sensitivity''),
     (lp_disclosure_max p \<notin> set sensitivities, ValueError ''disclosure_max_sensitivity'')]"

record lifecycle_decision =
  ld_object_id :: string
  ld_sensitivity :: string
  ld_policy_id :: string
  ld_retain_until :: "string option"
  ld_expired :: bool
  ld_storage_allowed :: bool
  ld_telemetry_allowed :: bool
  ld_disclosure_allowed :: bool
  ld_deletion_allowed :: bool
  ld_reasons :: "string list"

definition lifecycle_decision_to_dict :: "lifecycle_decision \<Rightarrow> payload" where
  "lifecycle_decision_to_dict d = [
     (''object_id'', JStr (ld_object_id d)),
     (''sensitivity'', JStr (ld_sensitivity d)),
     (''policy_id'', JStr (ld_policy_id d)),
     (''retain_until'', jopt_str (ld_retain_until d)),
     (''expired'', JBool (ld_expired d)),
     (''storage_allowed'', JBool (ld_storage_allowed d)),
     (''telemetry_allowed'', JBool (ld_telemetry_allowed d)),
     (''disclosure_allowed'', JBool (ld_disclosure_allowed d)),
     (''deletion_allowed'', JBool (ld_deletion_allowed d)),
     (''reasons'', jstrs (ld_reasons d))]"

definition assess_data_lifecycle ::
    "string \<Rightarrow> string \<Rightarrow> datetime \<Rightarrow> lifecycle_policy \<Rightarrow> datetime \<Rightarrow> bool \<Rightarrow> lifecycle_decision result" where
  "assess_data_lifecycle object_id sensitivity created_at p now legal_hold =
     bindE (guards [(blank object_id, ValueError ''object_id'')]) (\<lambda>_.
     bindE (validate_sensitivity sensitivity) (\<lambda>_.
     bindE (guards [(\<not> tz_aware created_at \<or> \<not> tz_aware now, ValueError ''timezone'')]) (\<lambda>_.
     bindE (exceeds sensitivity (lp_storage_max p)) (\<lambda>no_storage.
     bindE (exceeds sensitivity (lp_telemetry_max p)) (\<lambda>no_telemetry.
     bindE (exceeds sensitivity (lp_disclosure_max p)) (\<lambda>no_disclosure.
     bindE (case lp_max_retention_days p of
              None \<Rightarrow> Inr (None, False, [''no maximum retention is configured''])
            | Some n \<Rightarrow>
                bindE (add_days created_at n) (\<lambda>eligible.
                let expired = instant eligible \<le> instant now
                in Inr (Some (utc_iso eligible), expired,
                     if expired then [] else [''retention window has not expired''])))
       (\<lambda>(retain_until, expired, why).
     Inr \<lparr>ld_object_id = object_id, ld_sensitivity = sensitivity, ld_policy_id = lp_policy_id p,
          ld_retain_until = retain_until, ld_expired = expired,
          ld_storage_allowed = (\<not> no_storage), ld_telemetry_allowed = (\<not> no_telemetry),
          ld_disclosure_allowed = (\<not> no_disclosure),
          ld_deletion_allowed = (expired \<and> \<not> legal_hold),
          ld_reasons =
            (if no_storage then [''sensitivity exceeds storage policy ceiling''] else []) @
            (if no_telemetry then [''sensitivity excluded from telemetry''] else []) @
            (if no_disclosure then [''sensitivity excluded from disclosure''] else []) @
            why @ (if legal_hold then [''legal hold blocks deletion''] else [])\<rparr>)))))))"

record deletion_record =
  dr_object_id :: string
  dr_digest :: string
  dr_sensitivity :: string
  dr_deleted_at :: string
  dr_policy_id :: string
  dr_reason :: string
  dr_derived_from :: "string list"

definition deletion_record_post_init :: "deletion_record \<Rightarrow> unit result" where
  "deletion_record_post_init r = guards [
     (blank (dr_object_id r) \<or> blank (dr_reason r) \<or> blank (dr_policy_id r), ValueError ''object_id''),
     (\<not> is_sha256 (dr_digest r), ValueError ''digest''),
     (dr_sensitivity r \<notin> set sensitivities, ValueError ''sensitivity''),
     (blank (dr_deleted_at r), ValueError ''deleted_at''),
     (list_ex blank (dr_derived_from r), ValueError ''derived_from'')]"

definition deletion_record_to_dict :: "deletion_record \<Rightarrow> payload" where
  "deletion_record_to_dict r = [
     (''object_id'', JStr (dr_object_id r)),
     (''digest'', JStr (dr_digest r)),
     (''sensitivity'', JStr (dr_sensitivity r)),
     (''deleted_at'', JStr (dr_deleted_at r)),
     (''policy_id'', JStr (dr_policy_id r)),
     (''reason'', JStr (dr_reason r)),
     (''derived_from'', jstrs (dr_derived_from r))]"

definition build_deletion_record ::
    "string \<Rightarrow> string \<Rightarrow> string \<Rightarrow> datetime \<Rightarrow> string \<Rightarrow> string \<Rightarrow> string list \<Rightarrow> deletion_record result" where
  "build_deletion_record object_id digest sensitivity deleted_at policy_id reason derived_from =
     bindE (guards [(\<not> tz_aware deleted_at, ValueError ''deleted_at'')]) (\<lambda>_.
     construct deletion_record_post_init
       \<lparr>dr_object_id = object_id, dr_digest = digest, dr_sensitivity = sensitivity,
        dr_deleted_at = utc_iso deleted_at, dr_policy_id = policy_id, dr_reason = reason,
        dr_derived_from = derived_from\<rparr>)"

definition filter_disclosable_ids :: "(string, string) dict \<Rightarrow> string \<Rightarrow> string list result" where
  "filter_disclosable_ids objects ceiling =
     bindE (validate_sensitivity ceiling) (\<lambda>_.
     bindE (guards (concat (map (\<lambda>(i, s). [
         (blank i, ValueError ''object identifiers''),
         (s \<notin> set sensitivities, ValueError ''object sensitivity'')]) objects))) (\<lambda>_.
     Inr (sort (map fst (filter (\<lambda>(i, s). rank s \<le> rank ceiling) objects)))))"

section \<open>Facts\<close>

lemma rank_of_known: "s \<in> set sensitivities \<Longrightarrow> rank_of s = Inr (rank s)"
  by (auto simp: sensitivities_def sensitivity_order_def rank_of_def rank_def opt_or_def)

lemma exceeds_known:
  "s \<in> set sensitivities \<Longrightarrow> c \<in> set sensitivities \<Longrightarrow> exceeds s c = Inr (rank c < rank s)"
  by (simp add: exceeds_def rank_of_known)

lemma rank_of_Inr: "rank_of s = Inr n \<Longrightarrow> s \<in> set sensitivities \<and> n = rank s"
  by (force simp: rank_of_def rank_def sensitivities_def opt_or_def split: option.splits dest: map_of_SomeD)

lemma exceeds_Inr: "exceeds s c = Inr b \<longleftrightarrow>
    s \<in> set sensitivities \<and> c \<in> set sensitivities \<and> b = (rank c < rank s)"
  by (auto simp: exceeds_known) (auto simp: exceeds_def dest!: rank_of_Inr)

lemma first_max_correct:
  "first_max f x xs \<in> set (x # xs) \<and> (\<forall>y \<in> set (x # xs). f y \<le> f (first_max f x xs))"
  by (induction xs arbitrary: x) fastforce+

lemma filterE_known: "(\<And>x. x \<in> set xs \<Longrightarrow> f x = Inr (p x)) \<Longrightarrow> filterE f xs = Inr (filter p xs)"
  by (induction xs) auto

lemma item_sensitivity_known: "evidence_item_ok i \<Longrightarrow> ei_sensitivity i \<in> set sensitivities"
  by (auto simp: evidence_item_ok_def evidence_item_post_init_def sensitivities_def sensitivity_order_def)

definition governance_policy_ok :: "governance_policy \<Rightarrow> bool" where
  "governance_policy_ok p = (governance_policy_post_init p = Inr ())"

definition storable_item :: "governance_policy \<Rightarrow> evidence_item \<Rightarrow> bool" where
  "storable_item p i =
     (rank (ei_sensitivity i) \<le> rank (gp_storage_max p) \<and>
      (ei_sensitivity i \<in> set (gp_require_digest_for p) \<longrightarrow> (\<exists>d. ei_digest i = Some d \<and> d \<noteq> [])))"

definition telemetry_item :: "governance_policy \<Rightarrow> evidence_item \<Rightarrow> bool" where
  "telemetry_item p i = (rank (ei_sensitivity i) \<le> rank (gp_telemetry_max p))"

lemma governance_policy_known:
  "governance_policy_ok p \<Longrightarrow> gp_storage_max p \<in> set sensitivities \<and> gp_telemetry_max p \<in> set sensitivities"
  by (simp add: governance_policy_ok_def governance_policy_post_init_def)

lemma digest_missing: "opt_or d [] = [] \<longleftrightarrow> \<not> (\<exists>x. d = Some x \<and> x \<noteq> [])"
  by (cases d) (auto simp: opt_or_def)

lemma govern_item_known:
  assumes "governance_policy_ok p" "evidence_item_ok i"
  shows "\<exists>s' t'. govern_item p i (s, t, v) = Inr (s', t', v @ (if telemetry_item p i then [ei_evidence_id i] else [])) \<and>
    (s' = [] \<longleftrightarrow> s = [] \<and> storable_item p i)"
  using governance_policy_known [OF assms(1)] item_sensitivity_known [OF assms(2)]
  by (auto simp: govern_item_def exceeds_known storable_item_def telemetry_item_def Let_def digest_missing)

lemma govern_items_known:
  assumes "governance_policy_ok p" "list_all evidence_item_ok is"
  shows "\<exists>s' t'. foldE (govern_item p) is (s, t, v) =
      Inr (s', t', v @ map ei_evidence_id (filter (telemetry_item p) is)) \<and>
    (s' = [] \<longleftrightarrow> s = [] \<and> list_all (storable_item p) is)"
  using assms(2)
proof (induction "is" arbitrary: s t v)
  case Nil
  then show ?case by simp
next
  case (Cons i "is")
  then have i: "evidence_item_ok i" by simp
  obtain s1 t1 where one: "govern_item p i (s, t, v) =
      Inr (s1, t1, v @ (if telemetry_item p i then [ei_evidence_id i] else []))"
    "s1 = [] \<longleftrightarrow> s = [] \<and> storable_item p i"
    using govern_item_known [OF assms(1) i, of s t v] by (elim exE conjE)
  have "list_all evidence_item_ok is" using Cons.prems by simp
  from Cons.IH [OF this, of s1 t1 "v @ (if telemetry_item p i then [ei_evidence_id i] else [])"]
  obtain s2 t2 where two: "foldE (govern_item p) is (s1, t1, v @ (if telemetry_item p i then [ei_evidence_id i] else [])) =
      Inr (s2, t2, (v @ (if telemetry_item p i then [ei_evidence_id i] else [])) @ map ei_evidence_id (filter (telemetry_item p) is))"
    and s2: "s2 = [] \<longleftrightarrow> s1 = [] \<and> list_all (storable_item p) is"
    by (elim exE conjE)
  show ?case
    unfolding foldE.simps(2) one(1) bindE_Inr two using s2 one(2)
    by (intro exI [of _ s2] exI [of _ t2]) simp
qed

lemma project_known:
  assumes "governance_policy_ok p" "evidence_manifest_ok m"
  shows "project_manifest_for_telemetry m p = Inr (m\<lparr>em_items := filter (telemetry_item p) (em_items m)\<rparr>)"
proof -
  have "filterE (\<lambda>i. bindE (exceeds (ei_sensitivity i) (gp_telemetry_max p)) (\<lambda>h. Inr (\<not> h))) (em_items m) =
      Inr (filter (telemetry_item p) (em_items m))"
  proof (rule filterE_known)
    fix i assume "i \<in> set (em_items m)"
    then have "evidence_item_ok i" using assms(2) by (simp add: evidence_manifest_ok_def list_all_iff)
    then show "bindE (exceeds (ei_sensitivity i) (gp_telemetry_max p)) (\<lambda>h. Inr (\<not> h)) = Inr (telemetry_item p i)"
      using governance_policy_known [OF assms(1)] item_sensitivity_known
      by (auto simp: exceeds_known telemetry_item_def)
  qed
  moreover have "distinct (map ei_evidence_id (filter (telemetry_item p) (em_items m)))"
    using assms(2) by (intro distinct_map_filter) (simp add: evidence_manifest_ok_def evidence_manifest_post_init_def)
  ultimately show ?thesis
    using assms(2)
    by (simp add: project_manifest_for_telemetry_def construct_ok evidence_manifest_ok_def
        evidence_manifest_post_init_def)
qed

section \<open>Properties\<close>

text \<open>
  The governance decision over a valid manifest and policy is always made; storage is allowed exactly
  when no item exceeds the storage ceiling and every item whose class requires a digest has a non-empty
  one; and the identifiers declared visible are exactly, and in order, those of the manifest projected
  for telemetry, all of whose items are within the telemetry ceiling.
\<close>

theorem governance_decision_correct:
  assumes "governance_policy_ok p" and "evidence_manifest_ok m"
  shows "\<exists>d m'. evaluate_evidence_governance m p = Inr d \<and> project_manifest_for_telemetry m p = Inr m' \<and>
    (gd_storage_allowed d \<longleftrightarrow> list_all (storable_item p) (em_items m)) \<and>
    gd_visible d = sort (map ei_evidence_id (em_items m')) \<and>
    set (em_items m') = {i \<in> set (em_items m). rank (ei_sensitivity i) \<le> rank (gp_telemetry_max p)}"
proof -
  have "list_all evidence_item_ok (em_items m)" using assms(2) by (simp add: evidence_manifest_ok_def)
  from govern_items_known [OF assms(1) this, of "[]" "[]" "[]"] obtain s t where
    "foldE (govern_item p) (em_items m) ([], [], []) =
      Inr (s, t, map ei_evidence_id (filter (telemetry_item p) (em_items m)))"
    "s = [] \<longleftrightarrow> list_all (storable_item p) (em_items m)" by auto
  then show ?thesis
    by (simp add: evaluate_evidence_governance_def project_known [OF assms] telemetry_item_def)
qed

definition sample_governance :: governance_policy where
  "sample_governance = \<lparr>gp_policy_id = ''p'', gp_storage_max = ''restricted'', gp_telemetry_max = ''internal'',
     gp_require_digest_for = [''restricted'']\<rparr>"

lemma governance_decision_correct_witness:
  "\<exists>d. evaluate_evidence_governance sample_manifest sample_governance = Inr d \<and> \<not> gd_storage_allowed d"
proof -
  have "governance_policy_ok sample_governance" by code_simp
  from governance_decision_correct [OF this sample_manifest_ok] obtain d where
    "evaluate_evidence_governance sample_manifest sample_governance = Inr d"
    "gd_storage_allowed d \<longleftrightarrow> list_all (storable_item sample_governance) (em_items sample_manifest)"
    by blast
  moreover have "\<not> list_all (storable_item sample_governance) (em_items sample_manifest)"
    by (simp add: sample_manifest_def sample_governance_def storable_item_def)
  ultimately show ?thesis by blast
qed

lemma inherit_sensitivity_max:
  assumes "inherit_sensitivity sources None a = Inr s"
  shows "s \<in> set sources" "x \<in> set sources \<Longrightarrow> rank x \<le> rank s" "s \<in> set sensitivities"
proof -
  obtain y ys where src: "sources = y # ys" using assms by (cases sources) (auto simp: inherit_sensitivity_def)
  with assms have s: "s = first_max rank y ys"
    and all: "guards (map (\<lambda>s. (s \<notin> set sensitivities, ValueError ''source sensitivity'')) sources) = Inr ()"
    by (auto simp: inherit_sensitivity_def simp del: list.map)
  then show "s \<in> set sources" "x \<in> set sources \<Longrightarrow> rank x \<le> rank s"
    using first_max_correct [of rank y ys] src by auto
  with all show "s \<in> set sensitivities" by (auto simp: guards_Inr_iff)
qed

text \<open>
  A derived classification is never weaker than any of its sources unless the downgrade is approved:
  without a request it is the greatest of the sources, with one it is the requested class, and both are
  supported classes.
\<close>

theorem inherit_sensitivity_sound:
  assumes "inherit_sensitivity sources requested approved = Inr s"
  shows "s \<in> set sensitivities \<and> (requested = None \<longrightarrow> s \<in> set sources) \<and>
    (requested = None \<or> \<not> approved \<longrightarrow> (\<forall>x \<in> set sources. rank x \<le> rank s)) \<and>
    (requested = None \<or> requested = Some s)"
proof (cases requested)
  case None
  then show ?thesis using inherit_sensitivity_max assms by blast
next
  case (Some r)
  with assms obtain y ys where src: "sources = y # ys"
    and all: "guards (map (\<lambda>s. (s \<notin> set sensitivities, ValueError ''source sensitivity'')) sources) = Inr ()"
    and r: "r = s" "r \<in> set sensitivities" "\<not> (rank r < rank (first_max rank y ys) \<and> \<not> approved)"
    by (cases sources) (auto simp: inherit_sensitivity_def Let_def simp del: list.map)
  with first_max_correct [of rank y ys] Some show ?thesis by fastforce
qed

lemma inherit_sensitivity_sound_witness:
  "inherit_sensitivity [''public'', ''confidential'', ''internal''] None False = Inr ''confidential'' \<and>
   rank ''internal'' \<le> rank ''confidential''"
proof -
  have "inherit_sensitivity [''public'', ''confidential'', ''internal''] None False = Inr ''confidential''"
    by code_simp
  then show ?thesis using inherit_sensitivity_sound by fastforce
qed

text \<open>
  An object may be deleted exactly when its retention window, counted in days from its creation, has
  ended and no legal hold applies; without a maximum retention it never may. Disclosure is allowed
  exactly up to the ceiling of the policy.
\<close>

theorem deletion_decision_correct:
  assumes "assess_data_lifecycle i s created p now hold = Inr d"
  shows "(ld_deletion_allowed d \<longleftrightarrow>
      \<not> hold \<and> (\<exists>n. lp_max_retention_days p = Some n \<and> instant created + n * day_us \<le> instant now)) \<and>
    (ld_disclosure_allowed d \<longleftrightarrow> rank s \<le> rank (lp_disclosure_max p)) \<and>
    (ld_storage_allowed d \<longleftrightarrow> rank s \<le> rank (lp_storage_max p)) \<and> tz_aware created \<and> tz_aware now"
proof (cases "lp_max_retention_days p")
  case None
  with assms show ?thesis
    by (auto simp: assess_data_lifecycle_def exceeds_Inr validate_sensitivity_def)
next
  case (Some n)
  have add: "instant e = instant created + n * day_us" if "add_days created n = Inr e" for e
    using that by (cases created) (auto simp: add_days_def Let_def split: if_splits)
  from Some assms show ?thesis
    by (auto simp: assess_data_lifecycle_def exceeds_Inr validate_sensitivity_def Let_def add)
qed

definition sample_lifecycle :: lifecycle_policy where
  "sample_lifecycle = \<lparr>lp_policy_id = ''p'', lp_purpose = ''audit'', lp_max_retention_days = Some 30,
     lp_storage_max = ''restricted'', lp_telemetry_max = ''internal'', lp_disclosure_max = ''internal'',
     lp_encryption_required = False, lp_tls_required = True\<rparr>"

lemma deletion_decision_correct_witness:
  "\<exists>d. assess_data_lifecycle ''o'' ''public'' (Aware 0) sample_lifecycle (Aware (31 * day_us)) False = Inr d \<and>
    ld_deletion_allowed d"
proof -
  have "is_ok (assess_data_lifecycle ''o'' ''public'' (Aware 0) sample_lifecycle (Aware (31 * day_us)) False)"
    by code_simp
  then obtain d where
    d: "assess_data_lifecycle ''o'' ''public'' (Aware 0) sample_lifecycle (Aware (31 * day_us)) False = Inr d"
    by (auto simp: is_ok_iff)
  from deletion_decision_correct [OF d] have "ld_deletion_allowed d"
    by (simp add: sample_lifecycle_def day_us_def)
  with d show ?thesis by blast
qed

end
