(* ===== verification/Provenance.thy ===== *)
theory Provenance
  imports JsonSupport "HOL-Library.Product_Lexorder" "HOL-Library.Multiset"
begin

text \<open>
  \<open>domain/provenance.py\<close> and the proof construction of \<open>services/provenance_service.py\<close>: the
  cross-artifact provenance graph, its checks (acyclicity by depth-first search, required edges,
  identities, reachability by a stack) and the integrity proof. The searches are proved correct against
  the edge relation of the graph. Python's recursion limit is not modelled.
\<close>

section \<open>Nodes and graphs\<close>

record node =
  pn_node_id :: string
  pn_kind :: string
  pn_digest :: string
  pn_identity :: string
  pn_derived_from :: "string list"
  pn_path :: "string option"

definition node_post_init :: "node \<Rightarrow> unit result" where
  "node_post_init n = guards [
     (blank (pn_node_id n) \<or> blank (pn_kind n) \<or> blank (pn_identity n),
        ValueError ''node_id, kind, identity''),
     (\<not> is_sha256 (pn_digest n), ValueError ''digest''),
     (case pn_path n of None \<Rightarrow> False | Some p \<Rightarrow>
        blank p \<or> starts_with p ''/'' \<or> ''..'' \<in> set (split_on CHR ''/'' (backslash_to_slash p)),
        ValueError ''path''),
     (list_ex blank (pn_derived_from n), ValueError ''derived_from''),
     (pn_node_id n \<in> set (pn_derived_from n), ValueError ''derives from itself'')]"

definition node_to_dict :: "node \<Rightarrow> payload" where
  "node_to_dict n = [
     (''node_id'', JStr (pn_node_id n)),
     (''kind'', JStr (pn_kind n)),
     (''digest'', JStr (pn_digest n)),
     (''identity'', JStr (pn_identity n)),
     (''derived_from'', jstrs (pn_derived_from n)),
     (''path'', jopt_str (pn_path n))]"

record graph =
  pg_nodes :: "node list"
  pg_required :: "(string \<times> string) list"

definition node_ids :: "graph \<Rightarrow> string list" where
  "node_ids g = map pn_node_id (pg_nodes g)"

definition graph_post_init :: "graph \<Rightarrow> unit result" where
  "graph_post_init g = guards (
     [(\<not> distinct (node_ids g), ValueError ''node ids'')] @
     map (\<lambda>n. (filter (\<lambda>s. s \<notin> set (node_ids g)) (pn_derived_from n) \<noteq> [],
       ValueError ''unknown provenance'')) (pg_nodes g) @
     map (\<lambda>(child, parent). (child \<notin> set (node_ids g) \<or> parent \<notin> set (node_ids g),
       ValueError ''required edges'')) (pg_required g))"

definition graph_node :: "graph \<Rightarrow> string \<Rightarrow> node result" where
  "graph_node g i =
     (case find_first (\<lambda>n. pn_node_id n = i) (pg_nodes g) of
        None \<Rightarrow> Inl (KeyError i) | Some n \<Rightarrow> Inr n)"

definition jedge :: "string \<times> string \<Rightarrow> json" where
  "jedge e = JArr [JStr (fst e), JStr (snd e)]"

definition graph_payload :: "graph \<Rightarrow> payload" where
  "graph_payload g = [
     (''nodes'', JArr (map (\<lambda>n. JObj (node_to_dict n)) (sort_key pn_node_id (pg_nodes g)))),
     (''required_edges'', JArr (map jedge (sort (pg_required g))))]"

definition graph_digest :: "graph \<Rightarrow> string" where
  "graph_digest g = digest_of (graph_payload g)"

definition roots :: "graph \<Rightarrow> string list" where
  "roots g =
     (let referenced = concat (map pn_derived_from (pg_nodes g))
      in sort (filter (\<lambda>i. i \<notin> set referenced) (node_ids g)))"

definition children :: "graph \<Rightarrow> string \<Rightarrow> string list" where
  "children g i = sort (map pn_node_id (filter (\<lambda>n. i \<in> set (pn_derived_from n)) (pg_nodes g)))"

section \<open>Acyclicity\<close>

text \<open>The visiting and the visited nodes.\<close>

type_synonym marks = "string set \<times> string set"

text \<open>
  \<open>visit\<close>, with fuel for the depth of the recursion: a nested call adds a node to the visiting set, so
  one more than the number of nodes is enough (\<open>validate_acyclic_iff\<close>).
\<close>

fun visit :: "graph \<Rightarrow> nat \<Rightarrow> string \<Rightarrow> marks \<Rightarrow> marks result" where
  "visit g 0 i marks = Inl (RuntimeError ''recursion'')"
| "visit g (Suc n) i (visiting, visited) =
     (if i \<in> visiting then Inl (ValueError ''cycle'')
      else if i \<in> visited then Inr (visiting, visited)
      else
        bindE (graph_node g i) (\<lambda>node.
        bindE (foldE (visit g n) (pn_derived_from node) (insert i visiting, visited))
          (\<lambda>(visiting', visited'). Inr (visiting' - {i}, insert i visited'))))"

definition validate_acyclic :: "graph \<Rightarrow> unit result" where
  "validate_acyclic g =
     bindE (foldE (visit g (Suc (length (pg_nodes g)))) (node_ids g) ({}, {})) (\<lambda>_. Inr ())"

definition edge_list :: "graph \<Rightarrow> (string \<times> string) list" where
  "edge_list g = concat (map (\<lambda>n. map (Pair (pn_node_id n)) (pn_derived_from n)) (pg_nodes g))"

definition validate_required_edges :: "graph \<Rightarrow> unit result" where
  "validate_required_edges g =
     bindE (validate_acyclic g) (\<lambda>_.
       guards [(filter (\<lambda>e. e \<notin> set (edge_list g)) (pg_required g) \<noteq> [],
         ValueError ''required edges are missing'')])"

definition verify_identities :: "graph \<Rightarrow> (string, string) dict \<Rightarrow> unit result" where
  "verify_identities g identities =
     bindE (mapE (\<lambda>(i, expected). bindE (graph_node g i) (\<lambda>n. Inr (pn_identity n \<noteq> expected))) identities)
       (\<lambda>mismatches. guards [(list_ex id mismatches, ValueError ''identity mismatches'')])"

section \<open>Reachability\<close>

lemma graph_node_Inr: "graph_node g i = Inr n \<Longrightarrow> n \<in> set (pg_nodes g) \<and> pn_node_id n = i"
  by (auto simp: graph_node_def split: option.splits dest: find_first_Some)

text \<open>
  The loop of \<open>reachable\<close>: \<open>pop\<close> takes the last element of the stack, \<open>extend\<close> appends.
\<close>

function reach_loop :: "graph \<Rightarrow> string \<Rightarrow> string set \<Rightarrow> string list \<Rightarrow> bool result" where
  "reach_loop g target seen stack =
     (if stack = [] then Inr False
      else let current = last stack; rest = butlast stack in
      if current = target then Inr True
      else if current \<in> seen then reach_loop g target seen rest
      else case graph_node g current of
        Inl e \<Rightarrow> Inl e
      | Inr n \<Rightarrow> reach_loop g target (insert current seen) (rest @ pn_derived_from n))"
  by pat_completeness auto

termination
proof (relation "measures [\<lambda>(g, target, seen, stack). card (set (node_ids g) - seen),
    \<lambda>(g, target, seen, stack). length stack]", goal_cases)
  case 1
  show ?case by simp
next
  case (2 g target seen stack current rest)
  then show ?case by simp
next
  case (3 g target seen stack current rest n)
  have "current \<in> set (node_ids g)"
    using graph_node_Inr [OF 3(6)] by (auto simp: node_ids_def)
  with 3(5) have "current \<in> set (node_ids g) - seen" by simp
  then have "card (set (node_ids g) - insert current seen) < card (set (node_ids g) - seen)"
    by (intro psubset_card_mono) auto
  then show ?case by simp
qed

declare reach_loop.simps [simp del]

definition reachable :: "graph \<Rightarrow> string \<Rightarrow> string \<Rightarrow> bool result" where
  "reachable g start target =
     bindE (graph_node g start) (\<lambda>_.
     bindE (graph_node g target) (\<lambda>_. reach_loop g target {} [start]))"

definition graph_to_dict :: "graph \<Rightarrow> payload result" where
  "graph_to_dict g =
     bindE (validate_required_edges g) (\<lambda>_.
       Inr ([(''graph_digest'', JStr (graph_digest g))] @ graph_payload g @
         [(''roots'', jstrs (roots g))]))"

section \<open>Integrity proofs\<close>

record integrity_proof =
  ip_graph_digest :: string
  ip_edges_verified :: bool
  ip_identities_verified :: bool
  ip_reachable_pairs :: "(string \<times> string \<times> bool) list"
  ip_verified :: bool

definition proof_post_init :: "integrity_proof \<Rightarrow> unit result" where
  "proof_post_init p = guards [(\<not> is_sha256 (ip_graph_digest p), ValueError ''graph_digest'')]"

text \<open>\<open>try: check() except ValueError\<close>: other exceptions propagate.\<close>

definition succeeds :: "unit result \<Rightarrow> bool result" where
  "succeeds r = (case r of Inr _ \<Rightarrow> Inr True | Inl e \<Rightarrow> if is_value_error e then Inr False else Inl e)"

text \<open>\<open>try: result = reachable(...) except KeyError: result = False\<close>\<close>

definition pair_result :: "graph \<Rightarrow> string \<times> string \<Rightarrow> (string \<times> string \<times> bool) result" where
  "pair_result g p =
     (case reachable g (fst p) (snd p) of
        Inr b \<Rightarrow> Inr (fst p, snd p, b)
      | Inl (KeyError _) \<Rightarrow> Inr (fst p, snd p, False)
      | Inl e \<Rightarrow> Inl e)"

definition build_integrity_proof ::
    "graph \<Rightarrow> (string, string) dict option \<Rightarrow> (string \<times> string) list \<Rightarrow> integrity_proof result" where
  "build_integrity_proof g identities pairs =
     bindE (succeeds (validate_required_edges g)) (\<lambda>edges_ok.
     bindE (case identities of None \<Rightarrow> Inr True | Some ids \<Rightarrow> succeeds (verify_identities g ids)) (\<lambda>identity_ok.
     bindE (mapE (pair_result g) pairs) (\<lambda>results.
     let reachable_ok = list_all (\<lambda>(_, _, b). b) results
     in construct proof_post_init
       \<lparr>ip_graph_digest = graph_digest g, ip_edges_verified = edges_ok,
        ip_identities_verified = identity_ok, ip_reachable_pairs = results,
        ip_verified = (edges_ok \<and> identity_ok \<and> reachable_ok)\<rparr>)))"

definition integrity_proof_to_dict :: "integrity_proof \<Rightarrow> payload" where
  "integrity_proof_to_dict p = [
     (''graph_digest'', JStr (ip_graph_digest p)),
     (''required_edges_verified'', JBool (ip_edges_verified p)),
     (''required_identities_verified'', JBool (ip_identities_verified p)),
     (''reachable_pairs'', JArr (map (\<lambda>(a, b, r). JArr [JStr a, JStr b, JBool r]) (ip_reachable_pairs p))),
     (''verified'', JBool (ip_verified p))]"

definition write_provenance_proof :: "string \<Rightarrow> integrity_proof \<Rightarrow> files \<Rightarrow> files" where
  "write_provenance_proof path p fs = fs(path \<mapsto> indented (JObj (integrity_proof_to_dict p)))"

section \<open>Loading and verifying a graph\<close>

definition load_node :: "json \<Rightarrow> node result" where
  "load_node raw = (case raw of
     JObj d \<Rightarrow>
       bindE (iter_json (get_or d ''derived_from'' (JArr []))) (\<lambda>sources.
       construct node_post_init
         \<lparr>pn_node_id = get_str d ''node_id'' [], pn_kind = get_str d ''kind'' [],
          pn_digest = get_str d ''digest'' [], pn_identity = get_str d ''identity'' [],
          pn_derived_from = map py_str sources, pn_path = get_opt_str d ''path''\<rparr>)
   | _ \<Rightarrow> Inl (ValueError ''provenance node''))"

definition load_edge :: "json \<Rightarrow> (string \<times> string) result" where
  "load_edge edge = (case edge of
     JArr [child, parent] \<Rightarrow> Inr (py_str child, py_str parent)
   | _ \<Rightarrow> Inl (ValueError ''required edge''))"

definition load_nodes :: "payload \<Rightarrow> node list result" where
  "load_nodes d = (case get_or d ''nodes'' JNull of
     JArr (raw # raws) \<Rightarrow> mapE load_node (raw # raws)
   | _ \<Rightarrow> Inl (ValueError ''nodes''))"

definition load_edges :: "payload \<Rightarrow> (string \<times> string) list result" where
  "load_edges d = (case get_or d ''required_edges'' (JArr []) of
     JArr raw_edges \<Rightarrow> mapE load_edge raw_edges
   | _ \<Rightarrow> Inl (ValueError ''required_edges''))"

definition graph_of_payload :: "payload \<Rightarrow> graph result" where
  "graph_of_payload d =
     bindE (load_nodes d) (\<lambda>nodes.
     bindE (load_edges d) (\<lambda>edges.
     bindE (construct graph_post_init \<lparr>pg_nodes = nodes, pg_required = edges\<rparr>) (\<lambda>g.
     bindE (guards [(get_or d ''graph_digest'' JNull \<noteq> JNull \<and>
         get_or d ''graph_digest'' JNull \<noteq> JStr (graph_digest g), ValueError ''graph digest'')])
       (\<lambda>_. Inr g))))"

definition load_provenance_graph :: "files \<Rightarrow> string \<Rightarrow> graph result" where
  "load_provenance_graph fs path = bindE (load_object fs path ''json'') graph_of_payload"

text \<open>
  The path resolution of \<open>pathlib\<close> is an argument: a node path is outside the root of the graph, names
  no file, or names a file with the given bytes.
\<close>

datatype located = Outside | Absent | Content string

definition check_artifact :: "(string \<Rightarrow> located) \<Rightarrow> node \<Rightarrow> bool result" where
  "check_artifact locate n =
     (case pn_path n of
        None \<Rightarrow> Inr True
      | Some p \<Rightarrow> (case locate p of
            Outside \<Rightarrow> Inl (ValueError ''escapes'')
          | Absent \<Rightarrow> Inl (FileNotFoundError p)
          | Content bytes \<Rightarrow> Inr (sha256_hex bytes = pn_digest n)))"

definition verify_artifact_digests :: "(string \<Rightarrow> located) \<Rightarrow> graph \<Rightarrow> unit result" where
  "verify_artifact_digests locate g =
     bindE (mapE (check_artifact locate) (pg_nodes g))
       (\<lambda>matches. guards [(\<not> list_all id matches, ValueError ''artifact digest mismatches'')])"

definition verify_provenance_graph ::
    "files \<Rightarrow> (string \<Rightarrow> located) \<Rightarrow> string \<Rightarrow> (string, string) dict option \<Rightarrow>
     (string \<times> string) list \<Rightarrow> bool \<Rightarrow> integrity_proof result" where
  "verify_provenance_graph fs locate path identities pairs verify_files =
     bindE (load_provenance_graph fs path) (\<lambda>g.
     bindE (if verify_files then verify_artifact_digests locate g else Inr ()) (\<lambda>_.
     build_integrity_proof g identities pairs))"

section \<open>The edge relation\<close>

definition edges :: "graph \<Rightarrow> (string \<times> string) set" where
  "edges g = set (edge_list g)"

definition graph_ok :: "graph \<Rightarrow> bool" where
  "graph_ok g = (graph_post_init g = Inr () \<and> list_all (\<lambda>n. node_post_init n = Inr ()) (pg_nodes g))"

lemma edges_iff: "(i, p) \<in> edges g \<longleftrightarrow> (\<exists>n \<in> set (pg_nodes g). pn_node_id n = i \<and> p \<in> set (pn_derived_from n))"
  by (auto simp: edges_def edge_list_def)

lemma graph_ok_distinct: "graph_ok g \<Longrightarrow> distinct (node_ids g)"
  by (simp add: graph_ok_def graph_post_init_def)

lemma graph_ok_known:
  assumes "graph_ok g" "(i, p) \<in> edges g"
  shows "i \<in> set (node_ids g)" "p \<in> set (node_ids g)"
proof -
  obtain n where n: "n \<in> set (pg_nodes g)" "pn_node_id n = i" "p \<in> set (pn_derived_from n)"
    using assms(2) by (auto simp: edges_iff)
  then show "i \<in> set (node_ids g)" by (auto simp: node_ids_def)
  have "\<forall>n \<in> set (pg_nodes g). filter (\<lambda>s. s \<notin> set (node_ids g)) (pn_derived_from n) = []"
    using assms(1)
    by (simp add: graph_ok_def graph_post_init_def guards_append guards_Inr_iff ball_Un bindE_eq_Inr_iff)
  from bspec [OF this n(1)] have "filter (\<lambda>s. s \<notin> set (node_ids g)) (pn_derived_from n) = []" .
  with n(3) show "p \<in> set (node_ids g)"
    by (auto simp: filter_empty_conv)
qed

lemma graph_node_known:
  assumes "graph_ok g" "i \<in> set (node_ids g)"
  obtains n where "graph_node g i = Inr n" "set (pn_derived_from n) = {p. (i, p) \<in> edges g}"
proof -
  obtain n where n: "graph_node g i = Inr n"
  proof (cases "find_first (\<lambda>n. pn_node_id n = i) (pg_nodes g)")
    case None
    then have "\<forall>n \<in> set (pg_nodes g). pn_node_id n \<noteq> i" by (simp add: find_first_None)
    with assms(2) have False unfolding node_ids_def set_map by blast
    then show ?thesis ..
  next
    case (Some n)
    show ?thesis by (rule that [of n]) (simp add: graph_node_def Some)
  qed
  then have m: "n \<in> set (pg_nodes g)" "pn_node_id n = i" using graph_node_Inr [OF n] by simp_all
  have inj: "inj_on pn_node_id (set (pg_nodes g))"
    using graph_ok_distinct [OF assms(1)] by (simp add: node_ids_def distinct_map)
  have only: "n' = n" if "n' \<in> set (pg_nodes g)" "pn_node_id n' = i" for n'
    using inj_onD [OF inj _ that(1) m(1)] that(2) m(2) by simp
  have "p \<in> set (pn_derived_from n) \<longleftrightarrow> (i, p) \<in> edges g" for p
    unfolding edges_iff using m only by blast
  then have "set (pn_derived_from n) = {p. (i, p) \<in> edges g}" by blast
  with n show thesis by (rule that)
qed

section \<open>The depth-first search decides acyclicity\<close>

text \<open>
  The invariant of the search: the visited nodes are known, closed under provenance, on no cycle and not being visited.
\<close>

definition search_inv :: "graph \<Rightarrow> marks \<Rightarrow> bool" where
  "search_inv g m = (case m of (V, D) \<Rightarrow>
     V \<subseteq> set (node_ids g) \<and> V \<inter> D = {} \<and> edges g `` D \<subseteq> D \<and> (\<forall>x \<in> D. (x, x) \<notin> (edges g)\<^sup>+))"

lemma closed_trancl: "E `` D \<subseteq> D \<Longrightarrow> x \<in> D \<Longrightarrow> (x, y) \<in> E\<^sup>+ \<Longrightarrow> y \<in> D"
  by (rotate_tac 2, induction rule: trancl_induct) auto

text \<open>The two outcomes of a visit: a cycle of the graph, or the node visited and the invariant kept.\<close>

definition visit_outcome :: "graph \<Rightarrow> marks \<Rightarrow> string set \<Rightarrow> marks result \<Rightarrow> bool" where
  "visit_outcome g m new r = (case r of
     Inl e \<Rightarrow> e = ValueError ''cycle'' \<and> \<not> acyclic (edges g)
   | Inr m' \<Rightarrow> search_inv g m' \<and> fst m' = fst m \<and> snd m \<subseteq> snd m' \<and> new \<subseteq> snd m')"

lemma foldE_outcome:
  assumes step: "\<And>p m. p \<in> set ps \<Longrightarrow> search_inv g m \<Longrightarrow> fst m = V \<Longrightarrow> visit_outcome g m {p} (f p m)"
    and "search_inv g m" "fst m = V"
  shows "visit_outcome g m (set ps) (foldE f ps m)"
  using assms
proof (induction ps arbitrary: m)
  case Nil
  then show ?case by (simp add: visit_outcome_def)
next
  case (Cons p ps)
  have one: "visit_outcome g m {p} (f p m)"
    using Cons.prems by simp
  show ?case
  proof (cases "f p m")
    case (Inl e)
    with one show ?thesis by (simp add: visit_outcome_def)
  next
    case (Inr m')
    with one Cons.prems have m': "search_inv g m'" "fst m' = V" "snd m \<subseteq> snd m'" "p \<in> snd m'"
      by (simp_all add: visit_outcome_def)
    then have "visit_outcome g m' (set ps) (foldE f ps m')"
      using Cons.prems(1) by (intro Cons.IH) simp_all
    with m' Inr Cons.prems(3) show ?thesis
      by (auto simp: visit_outcome_def split: sum.splits)
  qed
qed

lemma visit_correct:
  assumes ok: "graph_ok g"
  shows "search_inv g m \<Longrightarrow> i \<in> set (node_ids g) \<Longrightarrow> \<forall>v \<in> fst m. (v, i) \<in> (edges g)\<^sup>+ \<Longrightarrow>
    card (set (node_ids g) - fst m) < n \<Longrightarrow> visit_outcome g m {i} (visit g n i m)"
proof (induction n arbitrary: i m)
  case 0
  then show ?case by simp
next
  case (Suc n)
  obtain V D where m: "m = (V, D)" by (cases m)
  show ?case
  proof (cases "i \<in> V \<or> i \<in> D")
    case True
    with Suc.prems m show ?thesis
      by (auto simp: visit_outcome_def acyclic_def)
  next
    case False
    obtain node where node: "graph_node g i = Inr node"
      and ps: "set (pn_derived_from node) = {p. (i, p) \<in> edges g}"
      by (rule graph_node_known [OF ok Suc.prems(2)])
    let ?m = "(insert i V, D)"
    have inv: "search_inv g ?m"
      using Suc.prems(1,2) False m by (auto simp: search_inv_def)
    have "card (set (node_ids g) - insert i V) < card (set (node_ids g) - V)"
      using False Suc.prems(2) by (intro psubset_card_mono) auto
    then have fuel: "card (set (node_ids g) - insert i V) < n"
      using Suc.prems(4) m by simp
    have step: "visit_outcome g m' {p} (visit g n p m')"
      if "p \<in> set (pn_derived_from node)" "search_inv g m'" "fst m' = insert i V" for p m'
    proof (rule Suc.IH [OF that(2)])
      have e: "(i, p) \<in> edges g" using that(1) ps by simp
      then show "p \<in> set (node_ids g)" by (rule graph_ok_known(2) [OF ok])
      show "\<forall>v \<in> fst m'. (v, p) \<in> (edges g)\<^sup>+"
        using that(3) Suc.prems(3) e m by (auto intro: trancl.trancl_into_trancl)
      show "card (set (node_ids g) - fst m') < n" using fuel that(3) by simp
    qed
    have out: "visit_outcome g ?m (set (pn_derived_from node)) (foldE (visit g n) (pn_derived_from node) ?m)"
      by (rule foldE_outcome [OF step inv]) simp_all
    show ?thesis
    proof (cases "foldE (visit g n) (pn_derived_from node) ?m")
      case (Inl e)
      with out False node m show ?thesis by (simp add: visit_outcome_def)
    next
      case (Inr r)
      obtain V' D' where r: "r = (V', D')" by (cases r)
      with out Inr have D': "V' = insert i V" "D \<subseteq> D'" "{p. (i, p) \<in> edges g} \<subseteq> D'"
        "insert i V \<inter> D' = {}" "edges g `` D' \<subseteq> D'" "\<forall>x \<in> D'. (x, x) \<notin> (edges g)\<^sup>+" "V' \<subseteq> set (node_ids g)"
        unfolding ps by (auto simp: visit_outcome_def search_inv_def)
      have "(i, i) \<notin> (edges g)\<^sup>+"
      proof
        assume "(i, i) \<in> (edges g)\<^sup>+"
        then obtain p where "(i, p) \<in> edges g" "(p, i) \<in> (edges g)\<^sup>*"
          by (meson tranclD)
        then have "i \<in> D'"
          using D'(3,5) closed_trancl [of "edges g" D' p i] by (auto simp: rtrancl_eq_or_trancl)
        with D'(4) show False by auto
      qed
      then have "search_inv g (V, insert i D')"
        using D' False by (auto simp: search_inv_def)
      moreover have "V' - {i} = V" using D'(1) False by auto
      ultimately show ?thesis
        using Inr False node m r D'(2) by (auto simp: visit_outcome_def)
    qed
  qed
qed

lemma validate_acyclic_outcome:
  assumes ok: "graph_ok g"
  shows "validate_acyclic g =
    (if acyclic (edges g) then Inr () else Inl (ValueError ''cycle''))"
proof -
  let ?f = "visit g (Suc (length (pg_nodes g)))"
  have c: "card (set (node_ids g)) < Suc (length (pg_nodes g))"
    using card_length [of "node_ids g"] by (simp add: node_ids_def)
  have "visit_outcome g ({}, {}) (set (node_ids g)) (foldE ?f (node_ids g) ({}, {}))"
  proof (rule foldE_outcome)
    show "visit_outcome g m {p} (?f p m)" if "p \<in> set (node_ids g)" "search_inv g m" "fst m = {}" for p m
      using that c by (intro visit_correct [OF ok]) simp_all
  qed (simp_all add: search_inv_def)
  moreover have "acyclic (edges g)" if "\<forall>x \<in> D. (x, x) \<notin> (edges g)\<^sup>+" "set (node_ids g) \<subseteq> D" for D
  proof -
    have "(x, x) \<notin> (edges g)\<^sup>+" for x
    proof
      assume x: "(x, x) \<in> (edges g)\<^sup>+"
      then obtain y where "(x, y) \<in> edges g" by (meson tranclD)
      then have "x \<in> D" using graph_ok_known(1) [OF ok] that(2) by blast
      with that(1) x show False by blast
    qed
    then show ?thesis by (simp add: acyclic_def)
  qed
  ultimately show ?thesis
    by (auto simp: validate_acyclic_def visit_outcome_def search_inv_def split: sum.splits prod.splits)
qed

section \<open>The stack search decides reachability\<close>

lemma leaves:
  assumes "(x, y) \<in> E\<^sup>*" "E `` S \<subseteq> S \<union> T" "x \<in> S" "y \<notin> S"
  shows "\<exists>t \<in> T. (t, y) \<in> E\<^sup>*"
  using assms(1,3,4)
proof (induction rule: converse_rtrancl_induct)
  case base
  then show ?case by simp
next
  case (step x z)
  then show ?case using assms(2) by (cases "z \<in> S") auto
qed

text \<open>What is left of the stack decides: the seen nodes lead only to seen nodes and to the stack.\<close>

definition stack_inv :: "graph \<Rightarrow> string \<Rightarrow> string set \<Rightarrow> string list \<Rightarrow> bool" where
  "stack_inv g target seen stack =
     (set stack \<subseteq> set (node_ids g) \<and> target \<notin> seen \<and> edges g `` seen \<subseteq> seen \<union> set stack)"

lemma reach_loop_correct:
  assumes ok: "graph_ok g"
  shows "stack_inv g target seen stack \<Longrightarrow>
    reach_loop g target seen stack = Inr (\<exists>s \<in> set stack. (s, target) \<in> (edges g)\<^sup>*)"
  using ok
proof (induction g target seen stack rule: reach_loop.induct)
  case (1 g target seen stack)
  show ?case
  proof (cases "stack = []")
    case True
    then show ?thesis by (simp add: reach_loop.simps)
  next
    case False
    define current rest where cr: "current = last stack" "rest = butlast stack"
    have st: "set stack = insert current (set rest)"
      unfolding cr using append_butlast_last_id [OF False]
      by (metis Un_insert_right list.set(1) list.simps(15) set_append sup_bot_right)
    consider "current = target" | "current \<noteq> target" "current \<in> seen"
      | "current \<noteq> target" "current \<notin> seen" by blast
    then show ?thesis
    proof cases
      case 1
      then show ?thesis
        using False st by (subst reach_loop.simps) (simp add: Let_def cr)
    next
      case 2
      have E: "edges g `` seen \<subseteq> seen \<union> set rest" "target \<notin> seen"
        using 1(3) 2 st by (auto simp: stack_inv_def)
      have "stack_inv g target seen rest"
        using 1(3) E st by (simp add: stack_inv_def)
      with 1(1) [OF False cr(1) cr(2) 2] 1(4)
      have "reach_loop g target seen rest = Inr (\<exists>s \<in> set rest. (s, target) \<in> (edges g)\<^sup>*)" by simp
      moreover have "(\<exists>s \<in> set rest. (s, target) \<in> (edges g)\<^sup>*) = (\<exists>s \<in> set stack. (s, target) \<in> (edges g)\<^sup>*)"
        using leaves [OF _ E(1) 2(2) E(2)] st by auto
      ultimately show ?thesis
        using False 2 by (subst reach_loop.simps) (simp add: Let_def cr)
    next
      case 3
      have "current \<in> set (node_ids g)" using 1(3) st by (simp add: stack_inv_def)
      then obtain n where n: "graph_node g current = Inr n" "set (pn_derived_from n) = {p. (current, p) \<in> edges g}"
        by (rule graph_node_known [OF 1(4)])
      have "stack_inv g target (insert current seen) (rest @ pn_derived_from n)"
        using 1(3) 3 st n(2) graph_ok_known(2) [OF 1(4)] by (auto simp: stack_inv_def)
      with 1(2) [OF False cr(1) cr(2) 3 n(1)] 1(4)
      have "reach_loop g target (insert current seen) (rest @ pn_derived_from n) =
        Inr (\<exists>s \<in> set (rest @ pn_derived_from n). (s, target) \<in> (edges g)\<^sup>*)" by blast
      moreover have "(\<exists>s \<in> set (rest @ pn_derived_from n). (s, target) \<in> (edges g)\<^sup>*) =
        (\<exists>s \<in> set stack. (s, target) \<in> (edges g)\<^sup>*)"
        using 3(1) st n(2) by (auto elim: converse_rtranclE intro: converse_rtrancl_into_rtrancl)
      ultimately show ?thesis
        using False 3 n(1) by (subst reach_loop.simps) (simp add: Let_def cr)
    qed
  qed
qed

lemma reachable_outcome:
  assumes ok: "graph_ok g"
  shows "reachable g a b =
    (if a \<notin> set (node_ids g) then Inl (KeyError a) else if b \<notin> set (node_ids g) then Inl (KeyError b)
     else Inr ((a, b) \<in> (edges g)\<^sup>*))"
proof -
  have unknown: "graph_node g i = Inl (KeyError i)" if "i \<notin> set (node_ids g)" for i
  proof -
    have "find_first (\<lambda>n. pn_node_id n = i) (pg_nodes g) = None"
      unfolding find_first_None using that by (auto simp: node_ids_def)
    then show ?thesis by (simp add: graph_node_def)
  qed
  have known: "\<exists>n. graph_node g i = Inr n" if "i \<in> set (node_ids g)" for i
    using graph_node_known [OF ok that] by blast
  show ?thesis
  proof (cases "a \<in> set (node_ids g) \<and> b \<in> set (node_ids g)")
    case True
    then have "reach_loop g b {} [a] = Inr ((a, b) \<in> (edges g)\<^sup>*)"
      using reach_loop_correct [OF ok, of b "{}" "[a]"] by (simp add: stack_inv_def)
    moreover obtain m n where "graph_node g a = Inr m" "graph_node g b = Inr n"
      using known True by blast
    ultimately show ?thesis using True by (simp add: reachable_def)
  next
    case False
    then show ?thesis
      using known [of a] unknown [of a] unknown [of b] by (auto simp: reachable_def)
  qed
qed

lemma validate_required_edges_outcome:
  assumes ok: "graph_ok g"
  shows "validate_required_edges g =
    (if \<not> acyclic (edges g) then Inl (ValueError ''cycle'')
     else if set (pg_required g) \<subseteq> edges g then Inr () else Inl (ValueError ''required edges are missing''))"
  by (auto simp: validate_required_edges_def validate_acyclic_outcome [OF ok] filter_empty_conv edges_def guards_single)

lemma succeeds_edges:
  assumes ok: "graph_ok g"
  shows "succeeds (validate_required_edges g) = Inr (acyclic (edges g) \<and> set (pg_required g) \<subseteq> edges g)"
  by (simp add: succeeds_def validate_required_edges_outcome [OF ok])

text \<open>The identity a graph gives to a node.\<close>

definition has_identity :: "graph \<Rightarrow> string \<Rightarrow> string \<Rightarrow> bool" where
  "has_identity g i v = list_ex (\<lambda>n. pn_node_id n = i \<and> pn_identity n = v) (pg_nodes g)"

lemma has_identity_node:
  assumes ok: "graph_ok g" and n: "graph_node g i = Inr n"
  shows "has_identity g i v \<longleftrightarrow> pn_identity n = v"
proof -
  have m: "n \<in> set (pg_nodes g)" "pn_node_id n = i" using graph_node_Inr [OF n] by simp_all
  have inj: "inj_on pn_node_id (set (pg_nodes g))"
    using graph_ok_distinct [OF ok] by (simp add: node_ids_def distinct_map)
  have "n' = n" if "n' \<in> set (pg_nodes g)" "pn_node_id n' = i" for n'
    using inj_onD [OF inj _ that(1) m(1)] that(2) m(2) by simp
  then show ?thesis
    using m unfolding has_identity_def list_ex_iff by blast
qed

lemma succeeds_identities:
  assumes ok: "graph_ok g" and known: "fst ` set ids \<subseteq> set (node_ids g)"
  shows "succeeds (verify_identities g ids) = Inr (\<forall>(i, v) \<in> set ids. has_identity g i v)"
proof -
  have "mapE (\<lambda>(i, expected). bindE (graph_node g i) (\<lambda>n. Inr (pn_identity n \<noteq> expected))) ids =
    Inr (map (\<lambda>(i, v). \<not> has_identity g i v) ids)"
  proof (rule mapE_Inr_id)
    fix x assume x: "x \<in> set ids"
    obtain i v where iv: "x = (i, v)" by (cases x)
    have "i \<in> set (node_ids g)" using known x iv by force
    then obtain n where n: "graph_node g i = Inr n" by (rule graph_node_known [OF ok])
    with has_identity_node [OF ok n, of v] iv
    show "(\<lambda>(i, expected). bindE (graph_node g i) (\<lambda>n. Inr (pn_identity n \<noteq> expected))) x =
      Inr ((\<lambda>(i, v). \<not> has_identity g i v) x)" by simp
  qed
  then show ?thesis
    by (auto simp: verify_identities_def succeeds_def list_ex_iff guards_single split: prod.splits)
qed

lemma pair_results:
  assumes ok: "graph_ok g"
  shows "mapE (pair_result g) pairs = Inr (map (\<lambda>(a, b). (a, b, a \<in> set (node_ids g) \<and>
    b \<in> set (node_ids g) \<and> (a, b) \<in> (edges g)\<^sup>*)) pairs)"
  by (rule mapE_Inr_id) (auto simp: pair_result_def reachable_outcome [OF ok])

section \<open>Properties\<close>

definition sample_node :: "string \<Rightarrow> string list \<Rightarrow> node" where
  "sample_node i sources = \<lparr>pn_node_id = i, pn_kind = ''k'', pn_digest = replicate 64 CHR ''a'',
     pn_identity = ''artifact:'' @ i, pn_derived_from = sources, pn_path = None\<rparr>"

definition sample_graph :: graph where
  "sample_graph = \<lparr>pg_nodes = [sample_node ''c'' [''b'', ''a''], sample_node ''b'' [''a''], sample_node ''a'' []],
     pg_required = [(''c'', ''b'')]\<rparr>"

lemma sample_graph_ok: "graph_ok sample_graph"
  by code_simp

text \<open>
  C35: on a well-formed graph the depth-first search accepts exactly the acyclic graphs, and its only
  error is the cycle: no node is missing and the recursion is at most one deeper than the number of
  nodes.
\<close>

theorem validate_acyclic_decides:
  assumes "graph_ok g"
  shows "validate_acyclic g = (if acyclic (edges g) then Inr () else Inl (ValueError ''cycle''))"
  by (rule validate_acyclic_outcome [OF assms])

lemma validate_acyclic_decides_witness:
  "acyclic (edges sample_graph) \<and>
   \<not> acyclic (edges \<lparr>pg_nodes = [sample_node ''a'' [''b''], sample_node ''b'' [''a'']], pg_required = []\<rparr>)"
proof -
  let ?cyc = "\<lparr>pg_nodes = [sample_node ''a'' [''b''], sample_node ''b'' [''a'']], pg_required = []\<rparr>"
  have "graph_ok ?cyc" by code_simp
  moreover have "validate_acyclic sample_graph = Inr ()" by code_simp
  moreover have "\<not> is_ok (validate_acyclic ?cyc)" by code_simp
  ultimately show ?thesis
    using validate_acyclic_decides [OF sample_graph_ok] validate_acyclic_decides [of ?cyc]
    by (auto split: if_splits)
qed

text \<open>
  The stack search decides reachability along provenance: it terminates, answers whether a path of
  edges leads from the start to the target, and raises \<open>KeyError\<close> exactly for unknown nodes, cyclic
  graphs included.
\<close>

theorem reachable_decides:
  assumes "graph_ok g"
  shows "reachable g a b =
    (if a \<notin> set (node_ids g) then Inl (KeyError a) else if b \<notin> set (node_ids g) then Inl (KeyError b)
     else Inr ((a, b) \<in> (edges g)\<^sup>*))"
  by (rule reachable_outcome [OF assms])

lemma reachable_decides_witness:
  "(''c'', ''a'') \<in> (edges sample_graph)\<^sup>* \<and> (''a'', ''c'') \<notin> (edges sample_graph)\<^sup>*"
proof -
  have "''a'' \<in> set (node_ids sample_graph)" "''c'' \<in> set (node_ids sample_graph)"
    by code_simp+
  moreover have "reachable sample_graph ''c'' ''a'' = Inr True" "reachable sample_graph ''a'' ''c'' = Inr False"
    by (simp_all add: reachable_def reach_loop.simps graph_node_def find_first_def sample_graph_def
        sample_node_def Let_def)
  ultimately show ?thesis
    using reachable_decides [OF sample_graph_ok, of "''c''" "''a''"]
      reachable_decides [OF sample_graph_ok, of "''a''" "''c''"]
    by (simp split: if_splits)
qed

text \<open>
  An integrity proof says what it claims. Over a well-formed graph, and expected identities of known
  nodes, it is always built; its flags are equivalent to the graph being acyclic and containing every
  required edge, and to every expected identity being the one of its node; each pair is reported with
  whether both ends are known and connected; and it is verified exactly when all of this holds.
\<close>

theorem integrity_proof_correct:
  assumes "graph_ok g" and "fst ` set ids \<subseteq> set (node_ids g)"
  shows "\<exists>p. build_integrity_proof g (Some ids) pairs = Inr p \<and>
    ip_graph_digest p = graph_digest g \<and>
    ip_edges_verified p = (acyclic (edges g) \<and> set (pg_required g) \<subseteq> edges g) \<and>
    ip_identities_verified p = (\<forall>(i, v) \<in> set ids. has_identity g i v) \<and>
    ip_reachable_pairs p = map (\<lambda>(a, b). (a, b, a \<in> set (node_ids g) \<and> b \<in> set (node_ids g) \<and>
      (a, b) \<in> (edges g)\<^sup>*)) pairs \<and>
    ip_verified p = (ip_edges_verified p \<and> ip_identities_verified p \<and>
      (\<forall>(a, b) \<in> set pairs. a \<in> set (node_ids g) \<and> b \<in> set (node_ids g) \<and> (a, b) \<in> (edges g)\<^sup>*))"
proof -
  have d: "is_sha256 (graph_digest g)" by (simp add: graph_digest_def)
  show ?thesis
    by (simp add: build_integrity_proof_def succeeds_edges [OF assms(1)] succeeds_identities [OF assms]
        pair_results [OF assms(1)] construct_def proof_post_init_def d list_all_iff)
      (simp add: case_prod_beta)
qed

lemma integrity_proof_correct_witness:
  "\<exists>p. build_integrity_proof sample_graph (Some [(''b'', ''artifact:b'')]) [] = Inr p \<and>
    ip_identities_verified p \<and> ip_verified p = ip_edges_verified p"
proof -
  have "fst ` set [(''b'', ''artifact:b'')] \<subseteq> set (node_ids sample_graph)" by code_simp
  moreover have "has_identity sample_graph ''b'' ''artifact:b''" by code_simp
  ultimately show ?thesis
    using integrity_proof_correct [OF sample_graph_ok, of "[(''b'', ''artifact:b'')]" "[]"] by auto
qed

text \<open>
  An expected identity for a node the graph does not have escapes \<open>build_integrity_proof\<close> as a
  \<open>KeyError\<close>, whatever else the proof would say: unlike an unreachable or unknown pair it does not lead
  to an unverified proof.
\<close>

theorem unknown_identity_escapes:
  assumes "graph_ok g" and "i \<notin> set (node_ids g)"
  shows "build_integrity_proof g (Some ((i, v) # ids)) pairs = Inl (KeyError i)"
proof -
  have "find_first (\<lambda>n. pn_node_id n = i) (pg_nodes g) = None"
    unfolding find_first_None using assms(2) by (auto simp: node_ids_def)
  then have "verify_identities g ((i, v) # ids) = Inl (KeyError i)"
    by (simp add: verify_identities_def graph_node_def)
  then have "succeeds (verify_identities g ((i, v) # ids)) = Inl (KeyError i)"
    by (simp add: succeeds_def)
  then show ?thesis
    by (simp add: build_integrity_proof_def succeeds_edges [OF assms(1)])
qed

lemma unknown_identity_escapes_witness:
  "build_integrity_proof sample_graph (Some [(''z'', ''x'')]) [(''c'', ''z'')] = Inl (KeyError ''z'')"
proof (rule unknown_identity_escapes [OF sample_graph_ok])
  show "''z'' \<notin> set (node_ids sample_graph)" by code_simp
qed

lemma load_node_ok: "load_node raw = Inr n \<Longrightarrow> node_post_init n = Inr ()"
  by (cases raw) (auto simp: load_node_def construct_Inr_iff)

lemma load_nodes_ok:
  assumes "load_nodes d = Inr nodes"
  shows "list_all (\<lambda>n. node_post_init n = Inr ()) nodes"
proof -
  from assms obtain raws where "mapE load_node raws = Inr nodes"
    unfolding load_nodes_def by (cases "get_or d ''nodes'' JNull") (simp_all split: list.splits del: mapE.simps)
  then show ?thesis by (rule mapE_all) (rule load_node_ok)
qed

lemma graph_of_payload_ok:
  assumes "graph_of_payload d = Inr g"
  shows "graph_ok g"
proof -
  from assms obtain nodes where nodes: "load_nodes d = Inr nodes"
    and "pg_nodes g = nodes" "graph_post_init g = Inr ()"
    unfolding graph_of_payload_def by (elim bindE_InrE) (simp add: construct_Inr_iff)
  with load_nodes_ok [OF nodes] show ?thesis by (simp add: graph_ok_def)
qed

lemma load_provenance_graph_ok: "load_provenance_graph fs path = Inr g \<Longrightarrow> graph_ok g"
  by (auto simp: load_provenance_graph_def dest: graph_of_payload_ok)

lemma verify_artifact_digests_ok:
  assumes "verify_artifact_digests locate g = Inr ()" "n \<in> set (pg_nodes g)" "pn_path n = Some p"
  shows "\<exists>bytes. locate p = Content bytes \<and> sha256_hex bytes = pn_digest n"
proof -
  from assms(1) obtain ms where ms: "mapE (check_artifact locate) (pg_nodes g) = Inr ms" and all: "list_all id ms"
    unfolding verify_artifact_digests_def by (elim bindE_InrE) simp
  from ms have "list_all2 (\<lambda>n m. check_artifact locate n = Inr m) (pg_nodes g) ms"
    by (simp add: mapE_Inr_iff)
  moreover obtain i where i: "i < length (pg_nodes g)" "pg_nodes g ! i = n"
    using assms(2) by (auto simp: in_set_conv_nth)
  ultimately have "check_artifact locate n = Inr (ms ! i)" "i < length ms"
    by (auto simp: list_all2_conv_all_nth)
  with all have "check_artifact locate n = Inr True"
    by (simp add: list_all_length)
  with assms(3) show ?thesis
    by (auto simp: check_artifact_def split: located.splits)
qed

text \<open>
  End to end, a verified proof of a stored graph with its files checked means: every node that names
  a file has its digest, the provenance is acyclic, and each requested pair is connected by it.
\<close>

theorem verified_graph_sound:
  assumes "verify_provenance_graph fs locate path None pairs True = Inr p" and "ip_verified p"
  shows "\<exists>g. load_provenance_graph fs path = Inr g \<and> acyclic (edges g) \<and> set (pg_required g) \<subseteq> edges g \<and>
    set pairs \<subseteq> (edges g)\<^sup>* \<and>
    (\<forall>n \<in> set (pg_nodes g). \<forall>f. pn_path n = Some f \<longrightarrow>
      (\<exists>bytes. locate f = Content bytes \<and> sha256_hex bytes = pn_digest n))"
proof -
  from assms(1) obtain g where g: "load_provenance_graph fs path = Inr g"
    and files: "verify_artifact_digests locate g = Inr ()"
    and p: "build_integrity_proof g None pairs = Inr p"
    by (auto simp: verify_provenance_graph_def)
  have ok: "graph_ok g" by (rule load_provenance_graph_ok [OF g])
  from p assms(2) have "acyclic (edges g)" "set (pg_required g) \<subseteq> edges g" "set pairs \<subseteq> (edges g)\<^sup>*"
    by (auto simp: build_integrity_proof_def succeeds_edges [OF ok] pair_results [OF ok]
        construct_Inr_iff list_all_iff)
  with g verify_artifact_digests_ok [OF files] show ?thesis by blast
qed

definition sample_graph_file :: string where
  "sample_graph_file = ''{\"nodes\": [{\"node_id\": \"a\", \"kind\": \"k\", \"identity\": \"i\", \"digest\": \"'' @
     replicate 64 CHR ''a'' @ ''\"}]}''"

lemma verified_graph_sound_witness:
  "\<exists>g. load_provenance_graph [''g.json'' \<mapsto> sample_graph_file] ''g.json'' = Inr g \<and> acyclic (edges g)"
proof -
  let ?fs = "[''g.json'' \<mapsto> sample_graph_file]"
  let ?g = "\<lparr>pg_nodes = [\<lparr>pn_node_id = ''a'', pn_kind = ''k'', pn_digest = replicate 64 CHR ''a'',
     pn_identity = ''i'', pn_derived_from = [], pn_path = None\<rparr>], pg_required = []\<rparr>"
  have g: "load_provenance_graph ?fs ''g.json'' = Inr ?g" by code_simp
  have ok: "graph_ok ?g" by (rule load_provenance_graph_ok [OF g])
  have none: "edges ?g = {}" by (simp add: edges_def edge_list_def)
  then have "\<exists>p. verify_provenance_graph ?fs (\<lambda>_. Absent) ''g.json'' None [] True = Inr p \<and> ip_verified p"
    unfolding verify_provenance_graph_def g
    by (simp add: verify_artifact_digests_def check_artifact_def build_integrity_proof_def
        succeeds_edges [OF ok] construct_def proof_post_init_def graph_digest_def acyclic_def)
  then show ?thesis
    using verified_graph_sound by blast
qed

section \<open>The digest of a graph\<close>

lemma json_ok_node: "json_ok (\<lambda>s. True) (JObj (node_to_dict n))"
  by (simp add: node_to_dict_def)

lemma node_to_dict_inject:
  assumes "sort_keys (JObj (node_to_dict m)) = sort_keys (JObj (node_to_dict n))"
  shows "m = n"
proof -
  have "distinct (map fst (node_to_dict k))" for k by (rule json_ok_JObjD [OF json_ok_node])
  then have "map_option sort_keys (map_of (node_to_dict m) k) = map_option sort_keys (map_of (node_to_dict n) k)" for k
    using assms map_of_sort_keys [of "node_to_dict m"] map_of_sort_keys [of "node_to_dict n"]
    by (metis sort_keys.simps(2) json.inject(5))
  then have "list_all (\<lambda>k. map_option sort_keys (map_of (node_to_dict m) k) =
      map_option sort_keys (map_of (node_to_dict n) k))
    [''node_id'', ''kind'', ''digest'', ''identity'', ''derived_from'', ''path'']"
    by (simp add: list_all_iff)
  then show ?thesis by (simp add: node_to_dict_def)
qed

lemma sort_key_perm:
  fixes f :: "'a \<Rightarrow> 'b :: linorder"
  assumes "mset xs = mset ys" "distinct (map f ys)"
  shows "sort_key f xs = sort_key f ys"
proof (rule sort_key_inj_key_eq)
  show "mset xs = mset (sort_key f ys)" using assms(1) by simp
  have "inj_on f (set ys)" using assms(2) by (simp add: distinct_map)
  moreover have "set xs = set ys" by (rule mset_eq_setD [OF assms(1)])
  ultimately show "inj_on f (set xs)" by simp
qed simp

lemma map_inject_lists: "map f xs = map f ys \<Longrightarrow> (\<And>x y. f x = f y \<Longrightarrow> x = y) \<Longrightarrow> xs = ys"
  by (rule map_injective) (auto intro: injI)

lemma json_ok_graph_payload: "json_ok (\<lambda>s. True) (JObj (graph_payload g))"
  by (auto simp: graph_payload_def list_all_iff jedge_def json_ok_node)

definition same_graph :: "graph \<Rightarrow> graph \<Rightarrow> bool" where
  "same_graph g h = (mset (pg_nodes g) = mset (pg_nodes h) \<and> mset (pg_required g) = mset (pg_required h))"

text \<open>
  The digest identifies a graph: two well-formed graphs have the same digest exactly when they have
  the same nodes and the same required edges, in whatever order, unless the two canonical documents
  exhibit a collision of SHA-256.
\<close>

theorem graph_digest_identifies:
  assumes "graph_ok g" and "graph_ok h"
  shows "digest_collision (graph_payload g) (graph_payload h) \<or> (graph_digest g = graph_digest h) = same_graph g h"
proof (cases "graph_digest g = graph_digest h")
  case True
  let ?sort = "\<lambda>k p. map_option sort_keys (map_of p k)"
  consider "digest_collision (graph_payload g) (graph_payload h)"
    | "?sort ''nodes'' (graph_payload g) = ?sort ''nodes'' (graph_payload h)"
      "?sort ''required_edges'' (graph_payload g) = ?sort ''required_edges'' (graph_payload h)"
    using digest_of_inject [OF True [unfolded graph_digest_def] json_ok_graph_payload json_ok_graph_payload]
    by blast
  then show ?thesis
  proof cases
    case 2
    then have "map (\<lambda>n. sort_keys (JObj (node_to_dict n))) (sort_key pn_node_id (pg_nodes g)) =
        map (\<lambda>n. sort_keys (JObj (node_to_dict n))) (sort_key pn_node_id (pg_nodes h))"
      and "map (\<lambda>e. sort_keys (jedge e)) (sort (pg_required g)) = map (\<lambda>e. sort_keys (jedge e)) (sort (pg_required h))"
      by (simp_all add: graph_payload_def comp_def del: sort_keys.simps(2))
    then have "sort_key pn_node_id (pg_nodes g) = sort_key pn_node_id (pg_nodes h)"
      and "sort (pg_required g) = sort (pg_required h)"
      by (auto intro: node_to_dict_inject simp: jedge_def prod_eq_iff elim!: map_inject_lists
          simp del: sort_keys.simps(2))
    then have "same_graph g h"
      unfolding same_graph_def by (metis mset_sort)
    with True show ?thesis by simp
  qed simp
next
  case False
  have "graph_payload g = graph_payload h" if same: "same_graph g h"
  proof -
    have "sort_key pn_node_id (pg_nodes g) = sort_key pn_node_id (pg_nodes h)"
      using same graph_ok_distinct [OF assms(2)]
      by (intro sort_key_perm) (simp_all add: same_graph_def node_ids_def)
    moreover have "sort (pg_required g) = sort (pg_required h)"
      using same by (intro properties_for_sort) (simp_all add: same_graph_def)
    ultimately show ?thesis by (simp add: graph_payload_def)
  qed
  with False show ?thesis by (auto simp: graph_digest_def)
qed

lemma graph_digest_identifies_witness:
  "graph_digest sample_graph = graph_digest (sample_graph\<lparr>pg_nodes := rev (pg_nodes sample_graph)\<rparr>) \<or>
   digest_collision (graph_payload sample_graph)
     (graph_payload (sample_graph\<lparr>pg_nodes := rev (pg_nodes sample_graph)\<rparr>))"
proof -
  have "graph_ok (sample_graph\<lparr>pg_nodes := rev (pg_nodes sample_graph)\<rparr>)" by code_simp
  with graph_digest_identifies [OF sample_graph_ok this] show ?thesis
    by (auto simp: same_graph_def)
qed

end
