(* ===== verification/Operations.thy ===== *)
theory Operations
  imports Governance Provenance
begin

text \<open>
  \<open>domain/operations.py\<close>: operational bundles and their artifacts, the identities computed from them, the
  inheritance of sensitivity inside a bundle and the retention decision; and the provenance graph of a
  bundle from \<open>services/provenance_service.py\<close>.
\<close>

section \<open>Policies, artifacts and bundles\<close>

record retention_policy =
  rp_policy_id :: string
  rp_max_age_days :: "int option"
  rp_max_sensitivity :: string

definition retention_policy_post_init :: "retention_policy \<Rightarrow> unit result" where
  "retention_policy_post_init p = guards [
     (blank (rp_policy_id p), ValueError ''policy_id''),
     (case rp_max_age_days p of None \<Rightarrow> False | Some n \<Rightarrow> n < 0, ValueError ''max_age_days''),
     (rp_max_sensitivity p \<notin> set sensitivities, ValueError ''max_sensitivity'')]"

definition retention_policy_to_dict :: "retention_policy \<Rightarrow> payload" where
  "retention_policy_to_dict p = [
     (''policy_id'', JStr (rp_policy_id p)),
     (''max_age_days'', jopt JInt (rp_max_age_days p)),
     (''max_sensitivity'', JStr (rp_max_sensitivity p))]"

record artifact =
  oa_artifact_id :: string
  oa_path :: string
  oa_kind :: string
  oa_sha256 :: string
  oa_size_bytes :: int
  oa_sensitivity :: string
  oa_derived_from :: "string list"

text \<open>A single relative path component, after the replacement of backslashes.\<close>

definition bad_component :: "string \<Rightarrow> bool" where
  "bad_component c =
     (blank c \<or> starts_with c ''/'' \<or> CHR ''/'' \<in> set c \<or> c = ''.'' \<or> c = ''..'')"

definition artifact_post_init :: "artifact \<Rightarrow> unit result" where
  "artifact_post_init a =
     (let path = backslash_to_slash (oa_path a) in guards [
     (bad_component (backslash_to_slash (oa_artifact_id a)), ValueError ''artifact_id''),
     (blank path \<or> starts_with path ''/'' \<or> ''..'' \<in> set (split_on CHR ''/'' path), ValueError ''artifact path''),
     (blank (oa_kind a), ValueError ''kind''),
     (\<not> is_sha256 (oa_sha256 a), ValueError ''sha256''),
     (oa_size_bytes a < 0, ValueError ''size_bytes''),
     (oa_sensitivity a \<notin> set sensitivities, ValueError ''sensitivity''),
     (list_ex blank (oa_derived_from a), ValueError ''derived_from'')])"

definition artifact_to_dict :: "artifact \<Rightarrow> payload" where
  "artifact_to_dict a = [
     (''artifact_id'', JStr (oa_artifact_id a)),
     (''path'', JStr (oa_path a)),
     (''kind'', JStr (oa_kind a)),
     (''sha256'', JStr (oa_sha256 a)),
     (''size_bytes'', JInt (oa_size_bytes a)),
     (''sensitivity'', JStr (oa_sensitivity a)),
     (''derived_from'', jstrs (oa_derived_from a))]"

record op_bundle =
  ob_bundle_id :: string
  ob_manifest_id :: string
  ob_agent_name :: string
  ob_engine_version :: string
  ob_created_at :: datetime
  ob_artifacts :: "artifact list"
  ob_retention :: "retention_policy option"

definition artifact_ids :: "op_bundle \<Rightarrow> string list" where
  "artifact_ids b = map oa_artifact_id (ob_artifacts b)"

text \<open>\<open>by_id[source]\<close>\<close>

definition artifact_by_id :: "op_bundle \<Rightarrow> string \<Rightarrow> artifact result" where
  "artifact_by_id b i =
     (case find_first (\<lambda>a. oa_artifact_id a = i) (ob_artifacts b) of
        None \<Rightarrow> Inl (KeyError i) | Some a \<Rightarrow> Inr a)"

definition check_derivation :: "op_bundle \<Rightarrow> artifact \<Rightarrow> unit result" where
  "check_derivation b a =
     bindE (guards [(filter (\<lambda>s. s \<notin> set (artifact_ids b)) (oa_derived_from a) \<noteq> [],
         ValueError ''unknown provenance'')]) (\<lambda>_.
     if oa_derived_from a = [] then Inr ()
     else
       bindE (mapE (\<lambda>s. bindE (artifact_by_id b s) (\<lambda>x. Inr (oa_sensitivity x))) (oa_derived_from a)) (\<lambda>sources.
       bindE (inherit_sensitivity sources None False) (\<lambda>inherited.
       bindE (exceeds inherited (oa_sensitivity a)) (\<lambda>lower.
       guards [(lower, ValueError ''lower than inherited'')]))))"

definition bundle_post_init :: "op_bundle \<Rightarrow> unit result" where
  "bundle_post_init b =
     bindE (guards [
       (blank (ob_bundle_id b), ValueError ''bundle_id''),
       (blank (ob_manifest_id b), ValueError ''manifest_id''),
       (blank (ob_agent_name b), ValueError ''agent_name''),
       (blank (ob_engine_version b), ValueError ''engine_version''),
       (\<not> tz_aware (ob_created_at b), ValueError ''created_at''),
       (\<not> distinct (artifact_ids b), ValueError ''artifact IDs'')]) (\<lambda>_.
     bindE (mapE (check_derivation b) (ob_artifacts b)) (\<lambda>_. Inr ()))"

text \<open>The manifest payload without its \<open>manifest_id\<close>.\<close>

definition unnamed_payload :: "op_bundle \<Rightarrow> payload" where
  "unnamed_payload b = [
     (''agent_name'', JStr (ob_agent_name b)),
     (''engine_version'', JStr (ob_engine_version b)),
     (''created_at'', JStr (utc_iso (ob_created_at b))),
     (''artifacts'', JArr (map (\<lambda>a. JObj (artifact_to_dict a)) (ob_artifacts b))),
     (''retention_policy'', jopt (\<lambda>p. JObj (retention_policy_to_dict p)) (ob_retention b))]"

definition manifest_payload :: "op_bundle \<Rightarrow> payload" where
  "manifest_payload b = (''manifest_id'', JStr (ob_manifest_id b)) # unnamed_payload b"

definition computed_manifest_id :: "op_bundle \<Rightarrow> string" where
  "computed_manifest_id b = digest_of (unnamed_payload b)"

definition computed_bundle_id :: "op_bundle \<Rightarrow> string" where
  "computed_bundle_id b = digest_of ((''manifest_id'', JStr (computed_manifest_id b)) # unnamed_payload b)"

definition bundle_to_dict :: "op_bundle \<Rightarrow> payload" where
  "bundle_to_dict b = (''bundle_id'', JStr (ob_bundle_id b)) # manifest_payload b"

section \<open>Retention\<close>

record retention_decision =
  rd_bundle_id :: string
  rd_policy_id :: string
  rd_state :: string
  rd_eligible_at :: "string option"
  rd_reason :: string

definition retention_decision_to_dict :: "retention_decision \<Rightarrow> payload" where
  "retention_decision_to_dict d = [
     (''bundle_id'', JStr (rd_bundle_id d)),
     (''policy_id'', JStr (rd_policy_id d)),
     (''state'', JStr (rd_state d)),
     (''eligible_at'', jopt_str (rd_eligible_at d)),
     (''reason'', JStr (rd_reason d))]"

definition assess_retention :: "op_bundle \<Rightarrow> retention_policy \<Rightarrow> datetime \<Rightarrow> retention_decision result" where
  "assess_retention b p as_of =
     (let decision = (\<lambda>state eligible reason. Inr
        \<lparr>rd_bundle_id = ob_bundle_id b, rd_policy_id = rp_policy_id p, rd_state = state,
         rd_eligible_at = eligible, rd_reason = reason\<rparr>) in
      if \<not> tz_aware as_of then Inl (ValueError ''as_of'')
      else if ob_artifacts b = [] then decision ''retain'' None ''bundle contains no artifacts''
      else
        bindE (rank_of (rp_max_sensitivity p)) (\<lambda>_.
        bindE (filterE (\<lambda>a. exceeds (oa_sensitivity a) (rp_max_sensitivity p)) (ob_artifacts b)) (\<lambda>above.
        if above \<noteq> [] then
          decision ''quarantine'' None
            (''artifacts exceed retention sensitivity ceiling: '' @ join '', '' (sort (map oa_artifact_id above)))
        else (case rp_max_age_days p of
            None \<Rightarrow> decision ''retain'' None ''no maximum age configured''
          | Some n \<Rightarrow>
              bindE (add_days (ob_created_at b) n) (\<lambda>eligible.
              if instant eligible \<le> instant as_of
              then decision ''expired'' (Some (utc_iso eligible)) (''bundle is '' @ dec_int n @ '' days or older'')
              else decision ''retain'' (Some (utc_iso eligible))
                (''bundle remains within the '' @ dec_int n @ ''-day retention window''))))))"

section \<open>The provenance of a bundle\<close>

definition artifact_node :: "artifact \<Rightarrow> node" where
  "artifact_node a =
     \<lparr>pn_node_id = oa_artifact_id a, pn_kind = oa_kind a, pn_digest = oa_sha256 a,
      pn_identity = ''artifact:'' @ oa_artifact_id a, pn_derived_from = oa_derived_from a, pn_path = None\<rparr>"

text \<open>The argument \<open>raw\<close> is the content of the bundle file.\<close>

definition bundle_node :: "string \<Rightarrow> op_bundle \<Rightarrow> node" where
  "bundle_node raw b =
     \<lparr>pn_node_id = ''bundle'', pn_kind = ''operational_bundle'', pn_digest = sha256_hex raw,
      pn_identity = ''bundle:'' @ ob_bundle_id b, pn_derived_from = artifact_ids b, pn_path = None\<rparr>"

definition build_provenance_graph_for_bundle :: "string \<Rightarrow> op_bundle \<Rightarrow> graph result" where
  "build_provenance_graph_for_bundle raw b =
     bindE (mapE (\<lambda>a. construct node_post_init (artifact_node a)) (ob_artifacts b)) (\<lambda>nodes.
     bindE (construct node_post_init (bundle_node raw b)) (\<lambda>top.
     construct graph_post_init
       \<lparr>pg_nodes = nodes @ [top],
        pg_required =
          concat (map (\<lambda>n. map (Pair (pn_node_id n)) (pn_derived_from n)) (nodes @ [top])) @
          map (Pair ''bundle'') (artifact_ids b)\<rparr>))"

definition check_bundle_node :: "op_bundle \<Rightarrow> node \<Rightarrow> unit result" where
  "check_bundle_node b n =
     (if pn_node_id n = ''bundle'' then Inr ()
      else (case find_first (\<lambda>a. oa_artifact_id a = pn_node_id n) (ob_artifacts b) of
          None \<Rightarrow> Inl (ValueError ''artifact mismatch'')
        | Some a \<Rightarrow> guards [
            (pn_kind n \<noteq> oa_kind a \<or> pn_digest n \<noteq> oa_sha256 a, ValueError ''artifact mismatch''),
            (pn_identity n \<noteq> ''artifact:'' @ oa_artifact_id a, ValueError ''artifact identity mismatch'')]))"

definition verify_bundle_provenance :: "string \<Rightarrow> op_bundle \<Rightarrow> (graph \<times> integrity_proof) result" where
  "verify_bundle_provenance raw b =
     bindE (build_provenance_graph_for_bundle raw b) (\<lambda>g.
     bindE (build_integrity_proof g None (map (Pair ''bundle'') (artifact_ids b))) (\<lambda>proof.
     bindE (guards [(\<not> ip_verified proof, ValueError ''provenance integrity'')]) (\<lambda>_.
     bindE (graph_node g ''bundle'') (\<lambda>top.
     bindE (guards [(pn_digest top \<noteq> sha256_hex raw \<or> pn_identity top \<noteq> ''bundle:'' @ ob_bundle_id b,
         ValueError ''identity or digest mismatch'')]) (\<lambda>_.
     bindE (mapE (check_bundle_node b) (pg_nodes g)) (\<lambda>_. Inr (g, proof)))))))"

section \<open>Sensitivity along derivations\<close>

definition bundle_ok :: "op_bundle \<Rightarrow> bool" where
  "bundle_ok b = (bundle_post_init b = Inr () \<and> list_all (\<lambda>a. artifact_post_init a = Inr ()) (ob_artifacts b))"

definition derives :: "op_bundle \<Rightarrow> (string \<times> string) set" where
  "derives b = {(oa_artifact_id a, s) | a s. a \<in> set (ob_artifacts b) \<and> s \<in> set (oa_derived_from a)}"

lemma artifact_known: "bundle_ok b \<Longrightarrow> a \<in> set (ob_artifacts b) \<Longrightarrow> oa_sensitivity a \<in> set sensitivities"
  by (auto simp: bundle_ok_def list_all_iff artifact_post_init_def Let_def)

lemma bundle_ok_distinct: "bundle_ok b \<Longrightarrow> distinct (artifact_ids b)"
  unfolding bundle_ok_def bundle_post_init_def by (elim conjE bindE_InrE) simp

lemma check_derivation_ok:
  assumes "bundle_ok b" "a \<in> set (ob_artifacts b)"
  shows "check_derivation b a = Inr ()"
proof -
  from assms(1) obtain us where "mapE (check_derivation b) (ob_artifacts b) = Inr us"
    unfolding bundle_ok_def bundle_post_init_def by (elim conjE bindE_InrE)
  then show ?thesis
    using assms(2) by (auto simp: mapE_Inr_iff list_all2_conv_all_nth in_set_conv_nth)
qed

lemma same_id:
  assumes "distinct (artifact_ids b)" "a \<in> set (ob_artifacts b)" "x \<in> set (ob_artifacts b)"
    and "oa_artifact_id a = oa_artifact_id x"
  shows "a = x"
proof -
  have "inj_on oa_artifact_id (set (ob_artifacts b))"
    using assms(1) by (simp add: artifact_ids_def distinct_map)
  from inj_onD [OF this assms(4,2,3)] show ?thesis .
qed

lemma artifact_by_id_unique:
  assumes "distinct (artifact_ids b)" "a \<in> set (ob_artifacts b)"
  shows "artifact_by_id b (oa_artifact_id a) = Inr a"
proof (cases "find_first (\<lambda>x. oa_artifact_id x = oa_artifact_id a) (ob_artifacts b)")
  case None
  with assms(2) show ?thesis by (auto simp: find_first_None)
next
  case (Some x)
  then have "x \<in> set (ob_artifacts b)" "oa_artifact_id x = oa_artifact_id a"
    by (auto dest: find_first_Some)
  then have "x = a" using same_id [OF assms(1) _ assms(2)] by blast
  with Some show ?thesis by (simp add: artifact_by_id_def)
qed

lemma derives_known:
  assumes "bundle_ok b" "a \<in> set (ob_artifacts b)" "s \<in> set (oa_derived_from a)"
  shows "\<exists>x \<in> set (ob_artifacts b). oa_artifact_id x = s"
proof -
  from check_derivation_ok [OF assms(1,2)]
  have "filter (\<lambda>s. s \<notin> set (artifact_ids b)) (oa_derived_from a) = []"
    unfolding check_derivation_def by (elim bindE_InrE) simp
  with assms(3) show ?thesis by (auto simp: filter_empty_conv artifact_ids_def)
qed

lemma derives_rank:
  assumes ok: "bundle_ok b" and a: "a \<in> set (ob_artifacts b)" and s: "oa_artifact_id x \<in> set (oa_derived_from a)"
    and x: "x \<in> set (ob_artifacts b)"
  shows "rank (oa_sensitivity x) \<le> rank (oa_sensitivity a)"
proof -
  have "oa_derived_from a \<noteq> []" using s by auto
  with check_derivation_ok [OF ok a] obtain sources inherited where
    sources: "mapE (\<lambda>s. bindE (artifact_by_id b s) (\<lambda>x. Inr (oa_sensitivity x))) (oa_derived_from a) = Inr sources"
    and inh: "inherit_sensitivity sources None False = Inr inherited"
    and low: "exceeds inherited (oa_sensitivity a) = Inr False"
    unfolding check_derivation_def by (auto simp: bindE_eq_Inr_iff)
  have "oa_sensitivity x \<in> set sources"
  proof -
    obtain i where i: "i < length (oa_derived_from a)" "oa_derived_from a ! i = oa_artifact_id x"
      using s by (auto simp: in_set_conv_nth)
    with sources have "bindE (artifact_by_id b (oa_artifact_id x)) (\<lambda>x. Inr (oa_sensitivity x)) = Inr (sources ! i)"
      "i < length sources"
      by (auto simp: mapE_Inr_iff list_all2_conv_all_nth)
    then show ?thesis using artifact_by_id_unique [OF bundle_ok_distinct [OF ok] x] by auto
  qed
  then have "rank (oa_sensitivity x) \<le> rank inherited"
    by (rule inherit_sensitivity_max(2) [OF inh])
  also have "rank inherited \<le> rank (oa_sensitivity a)" using low by (auto simp: exceeds_Inr)
  finally show ?thesis .
qed

definition sample_artifact :: "string \<Rightarrow> string \<Rightarrow> string list \<Rightarrow> artifact" where
  "sample_artifact i s sources = \<lparr>oa_artifact_id = i, oa_path = ''f.txt'', oa_kind = ''k'',
     oa_sha256 = replicate 64 CHR ''a'', oa_size_bytes = 3, oa_sensitivity = s, oa_derived_from = sources\<rparr>"

definition sample_bundle :: op_bundle where
  "sample_bundle = \<lparr>ob_bundle_id = ''b'', ob_manifest_id = ''m'', ob_agent_name = ''a'', ob_engine_version = ''1'',
     ob_created_at = Aware 0,
     ob_artifacts = [sample_artifact ''x'' ''confidential'' [], sample_artifact ''y'' ''restricted'' [''x''],
       sample_artifact ''z'' ''public'' []],
     ob_retention = None\<rparr>"

lemma sample_bundle_ok: "bundle_ok sample_bundle"
  by code_simp

text \<open>
  Inside a valid bundle sensitivity never decreases along provenance, at any distance: an artifact
  derived, through whatever chain, from another is classified at least as highly.
\<close>

theorem sensitivity_inherited:
  assumes "bundle_ok b" and "a \<in> set (ob_artifacts b)" "x \<in> set (ob_artifacts b)"
    and "(oa_artifact_id a, oa_artifact_id x) \<in> (derives b)\<^sup>*"
  shows "rank (oa_sensitivity x) \<le> rank (oa_sensitivity a)"
  using assms(4,3)
proof (induction "oa_artifact_id x" arbitrary: x rule: rtrancl_induct)
  case base
  then have "a = x" using same_id [OF bundle_ok_distinct [OF assms(1)] assms(2)] by blast
  then show ?case by simp
next
  case (step s)
  from step.hyps(2) obtain y where y: "y \<in> set (ob_artifacts b)" "s = oa_artifact_id y"
    and x: "oa_artifact_id x \<in> set (oa_derived_from y)"
    unfolding derives_def by blast
  have "rank (oa_sensitivity x) \<le> rank (oa_sensitivity y)"
    by (rule derives_rank [OF assms(1) y(1) x step.prems])
  with step.hyps(3) [OF y(2) y(1)] show ?case by simp
qed

lemma sensitivity_inherited_witness: "rank ''confidential'' \<le> rank ''restricted''"
proof -
  let ?y = "sample_artifact ''y'' ''restricted'' [''x'']" and ?x = "sample_artifact ''x'' ''confidential'' []"
  have m: "?y \<in> set (ob_artifacts sample_bundle)" "?x \<in> set (ob_artifacts sample_bundle)"
    by (simp_all add: sample_bundle_def)
  have "''x'' \<in> set (oa_derived_from ?y)" by (simp add: sample_artifact_def)
  then have "(oa_artifact_id ?y, ''x'') \<in> derives sample_bundle"
    unfolding derives_def using m(1) by blast
  moreover have "oa_artifact_id ?x = ''x''" by (simp add: sample_artifact_def)
  ultimately have "(oa_artifact_id ?y, oa_artifact_id ?x) \<in> (derives sample_bundle)\<^sup>*" by auto
  from sensitivity_inherited [OF sample_bundle_ok m this] show ?thesis by (simp add: sample_artifact_def)
qed

text \<open>
  The retention decision over a non-empty valid bundle is quarantine exactly when an artifact exceeds
  the ceiling of the policy, whatever the age; otherwise expired exactly from the instant the bundle is the
  configured number of days old; and retain in every other case.
\<close>

theorem retention_decision_correct:
  assumes "bundle_ok b" "ob_artifacts b \<noteq> []" and "assess_retention b p as_of = Inr d"
  shows "rd_state d =
    (if \<exists>a \<in> set (ob_artifacts b). rank (rp_max_sensitivity p) < rank (oa_sensitivity a) then ''quarantine''
     else if \<exists>n. rp_max_age_days p = Some n \<and> instant (ob_created_at b) + n * day_us \<le> instant as_of then ''expired''
     else ''retain'')"
proof -
  have tz: "tz_aware as_of" and known: "rp_max_sensitivity p \<in> set sensitivities"
    using assms(2,3) rank_of_Inr by (auto simp: assess_retention_def Let_def split: if_splits)
  have above: "filterE (\<lambda>a. exceeds (oa_sensitivity a) (rp_max_sensitivity p)) (ob_artifacts b) =
      Inr (filter (\<lambda>a. rank (rp_max_sensitivity p) < rank (oa_sensitivity a)) (ob_artifacts b))"
    using artifact_known [OF assms(1)] known by (intro filterE_known) (simp add: exceeds_known)
  have add: "instant e = instant (ob_created_at b) + n * day_us" if "add_days (ob_created_at b) n = Inr e" for e n
    using that by (cases "ob_created_at b") (auto simp: add_days_def Let_def split: if_splits)
  show ?thesis
    using assms(2,3) tz
    by (auto simp: assess_retention_def Let_def rank_of_known [OF known] above filter_empty_conv add
        split: if_splits option.splits)
qed

lemma retention_decision_correct_witness:
  "\<exists>d. assess_retention sample_bundle \<lparr>rp_policy_id = ''p'', rp_max_age_days = Some 1, rp_max_sensitivity = ''restricted''\<rparr>
    (Aware day_us) = Inr d \<and> rd_state d = ''expired''"
proof -
  let ?p = "\<lparr>rp_policy_id = ''p'', rp_max_age_days = Some 1, rp_max_sensitivity = ''restricted''\<rparr>"
  have "is_ok (assess_retention sample_bundle ?p (Aware day_us))" by code_simp
  then obtain d where d: "assess_retention sample_bundle ?p (Aware day_us) = Inr d" by (auto simp: is_ok_iff)
  have "ob_artifacts sample_bundle \<noteq> []" by (simp add: sample_bundle_def)
  from retention_decision_correct [OF sample_bundle_ok this d] have "rd_state d = ''expired''"
    by (simp add: sample_bundle_def sample_artifact_def rank_def sensitivity_order_def opt_or_def)
  with d show ?thesis by blast
qed

section \<open>When the provenance of a bundle verifies\<close>

lemma find_last: "\<forall>x \<in> set xs. \<not> p x \<Longrightarrow> p y \<Longrightarrow> find p (xs @ [y]) = Some y"
  by (induction xs) auto

lemma no_backslash: "CHR ''/'' \<notin> set (backslash_to_slash c) \<Longrightarrow> backslash_to_slash c = c"
  by (induction c) (auto simp: backslash_to_slash_def split: if_splits)

lemma artifact_ok_id:
  assumes "artifact_post_init a = Inr ()"
  shows "\<not> blank (oa_artifact_id a)"
proof -
  have "\<not> bad_component (backslash_to_slash (oa_artifact_id a))"
    using assms by (simp add: artifact_post_init_def Let_def)
  with no_backslash [of "oa_artifact_id a"] show ?thesis by (auto simp: bad_component_def)
qed

lemma not_blank_tagged [simp]: "\<not> blank (''artifact:'' @ i)" "\<not> blank (''bundle:'' @ i)"
  by simp_all

lemma artifact_node_ok:
  assumes "artifact_post_init a = Inr ()"
  shows "node_post_init (artifact_node a) = Inr () \<longleftrightarrow> oa_artifact_id a \<notin> set (oa_derived_from a)"
  using assms artifact_ok_id [OF assms]
  by (simp add: node_post_init_def artifact_node_def artifact_post_init_def Let_def)

definition bundle_graph :: "string \<Rightarrow> op_bundle \<Rightarrow> graph" where
  "bundle_graph raw b =
     (let nodes = map artifact_node (ob_artifacts b) @ [bundle_node raw b] in
      \<lparr>pg_nodes = nodes,
       pg_required = concat (map (\<lambda>n. map (Pair (pn_node_id n)) (pn_derived_from n)) nodes) @
         map (Pair ''bundle'') (artifact_ids b)\<rparr>)"

lemma node_ids_bundle_graph: "node_ids (bundle_graph raw b) = artifact_ids b @ [''bundle'']"
  by (simp add: node_ids_def bundle_graph_def Let_def artifact_node_def bundle_node_def artifact_ids_def comp_def)

lemma edges_bundle_graph: "edges (bundle_graph raw b) = derives b \<union> {''bundle''} \<times> set (artifact_ids b)"
  by (auto simp: edges_def edge_list_def bundle_graph_def Let_def artifact_node_def bundle_node_def derives_def)

lemma required_bundle_graph: "set (pg_required (bundle_graph raw b)) \<subseteq> edges (bundle_graph raw b)"
  unfolding edges_bundle_graph
  by (auto simp: bundle_graph_def Let_def artifact_node_def bundle_node_def derives_def)

lemma mapE_construct:
  "mapE (\<lambda>a. construct p (f a)) xs = Inr ns \<longleftrightarrow> ns = map f xs \<and> list_all (\<lambda>a. p (f a) = Inr ()) xs"
  by (induction xs arbitrary: ns) (auto simp: bindE_eq_Inr_iff construct_Inr_iff)

lemma build_bundle_graph_eq:
  "build_provenance_graph_for_bundle raw b = Inr g \<longleftrightarrow> g = bundle_graph raw b \<and> graph_ok (bundle_graph raw b)"
proof -
  have nodes: "list_all (\<lambda>n. node_post_init n = Inr ()) (pg_nodes (bundle_graph raw b)) \<longleftrightarrow>
      list_all (\<lambda>a. node_post_init (artifact_node a) = Inr ()) (ob_artifacts b) \<and> node_post_init (bundle_node raw b) = Inr ()"
    by (simp add: bundle_graph_def Let_def list_all_iff conj_commute)
  show ?thesis
    unfolding build_provenance_graph_for_bundle_def bindE_eq_Inr_iff mapE_construct construct_Inr_iff graph_ok_def nodes
    unfolding bundle_graph_def Let_def by blast
qed

lemma graph_ok_bundle_graph:
  assumes ok: "bundle_ok b"
  shows "graph_ok (bundle_graph raw b) \<longleftrightarrow>
    ''bundle'' \<notin> set (artifact_ids b) \<and> (\<forall>a \<in> set (ob_artifacts b). oa_artifact_id a \<notin> set (oa_derived_from a))"
    (is "_ \<longleftrightarrow> ?free \<and> ?irrefl")
proof
  assume g: "graph_ok (bundle_graph raw b)"
  have "node_post_init (artifact_node a) = Inr ()" "artifact_post_init a = Inr ()" if "a \<in> set (ob_artifacts b)" for a
    using g ok that by (auto simp: graph_ok_def bundle_ok_def bundle_graph_def Let_def list_all_iff)
  then show "?free \<and> ?irrefl"
    using graph_ok_distinct [OF g] artifact_node_ok by (auto simp: node_ids_bundle_graph)
next
  assume free: "?free \<and> ?irrefl"
  let ?g = "bundle_graph raw b"
  have arts: "artifact_post_init a = Inr ()" if "a \<in> set (ob_artifacts b)" for a
    using ok that by (auto simp: bundle_ok_def list_all_iff)
  have top: "node_post_init (bundle_node raw b) = Inr ()"
    using free arts artifact_ok_id
    by (auto simp: node_post_init_def bundle_node_def artifact_ids_def list_ex_iff)
  then have nodes: "list_all (\<lambda>n. node_post_init n = Inr ()) (pg_nodes ?g)"
    using free arts artifact_node_ok by (auto simp: bundle_graph_def Let_def list_all_iff)
  have known: "e \<in> set (node_ids ?g) \<times> set (node_ids ?g)" if "e \<in> edges ?g" for e
    using that derives_known [OF ok]
    by (fastforce simp: edges_bundle_graph node_ids_bundle_graph derives_def artifact_ids_def)
  have derived: "\<forall>n \<in> set (pg_nodes ?g). filter (\<lambda>s. s \<notin> set (node_ids ?g)) (pn_derived_from n) = []"
    unfolding filter_empty_conv using known edges_iff [of _ _ ?g] by blast
  have required: "\<forall>e \<in> set (pg_required ?g). fst e \<in> set (node_ids ?g) \<and> snd e \<in> set (node_ids ?g)"
    using required_bundle_graph known by fastforce
  have "distinct (node_ids ?g)"
    using free bundle_ok_distinct [OF ok] by (simp add: node_ids_bundle_graph)
  then have "graph_post_init ?g = Inr ()"
    using derived required
    by (simp add: graph_post_init_def guards_append guards_Inr_iff bindE_eq_Inr_iff) (auto simp: split_def)
  with nodes show "graph_ok ?g" by (simp add: graph_ok_def)
qed

lemma acyclic_top:
  assumes "n \<notin> Range E" "n \<notin> S"
  shows "acyclic (E \<union> {n} \<times> S) \<longleftrightarrow> acyclic E"
proof
  show "acyclic E" if "acyclic (E \<union> {n} \<times> S)" by (rule acyclic_subset [OF that]) simp
next
  assume E: "acyclic E"
  have not_top: "y \<noteq> n" if "(x, y) \<in> (E \<union> {n} \<times> S)\<^sup>+" for x y
    using that by (cases rule: trancl.cases) (use assms in auto)
  have "x \<noteq> n \<Longrightarrow> (x, y) \<in> E\<^sup>+" if "(x, y) \<in> (E \<union> {n} \<times> S)\<^sup>+" for x y
    using that
  proof (induction rule: trancl_induct)
    case (step y z)
    then show ?case using not_top [OF step.hyps(1)] by (auto intro: trancl.trancl_into_trancl)
  qed auto
  with not_top E show "acyclic (E \<union> {n} \<times> S)" unfolding acyclic_def by blast
qed

lemma find_artifact:
  assumes "bundle_ok b" "a \<in> set (ob_artifacts b)"
  shows "find_first (\<lambda>x. oa_artifact_id x = oa_artifact_id a) (ob_artifacts b) = Some a"
  using artifact_by_id_unique [OF bundle_ok_distinct [OF assms(1)] assms(2)] by (auto simp: artifact_by_id_def split: option.splits)

lemma check_bundle_nodes:
  assumes "bundle_ok b"
  shows "is_ok (mapE (check_bundle_node b) (pg_nodes (bundle_graph raw b)))"
proof -
  have "mapE (check_bundle_node b) (pg_nodes (bundle_graph raw b)) = Inr (map (\<lambda>_. ()) (pg_nodes (bundle_graph raw b)))"
  proof (rule mapE_Inr_id)
    fix n assume "n \<in> set (pg_nodes (bundle_graph raw b))"
    then consider "n = bundle_node raw b" | a where "a \<in> set (ob_artifacts b)" "n = artifact_node a"
      by (auto simp: bundle_graph_def Let_def)
    then show "check_bundle_node b n = Inr ()"
    proof cases
      case 1
      then show ?thesis by (simp add: check_bundle_node_def bundle_node_def)
    next
      case 2
      then show ?thesis
        using find_artifact [OF assms 2(1)] by (simp add: check_bundle_node_def artifact_node_def)
    qed
  qed
  then show ?thesis by simp
qed

lemma bundle_provenance_outcome:
  assumes ok: "bundle_ok b"
  shows "is_ok (verify_bundle_provenance raw b) \<longleftrightarrow> ''bundle'' \<notin> set (artifact_ids b) \<and> acyclic (derives b)"
proof (cases "graph_ok (bundle_graph raw b)")
  case False
  then have "\<not> is_ok (verify_bundle_provenance raw b)"
    using build_bundle_graph_eq by (auto simp: verify_bundle_provenance_def is_ok_iff bindE_eq_Inr_iff)
  moreover have "\<not> (''bundle'' \<notin> set (artifact_ids b) \<and> acyclic (derives b))"
    using False graph_ok_bundle_graph [OF ok, of raw] by (auto simp: acyclic_def derives_def)
  ultimately show ?thesis by blast
next
  case True
  let ?g = "bundle_graph raw b" and ?pairs = "map (Pair ''bundle'') (artifact_ids b)"
  have free: "''bundle'' \<notin> set (artifact_ids b)" using True graph_ok_bundle_graph [OF ok] by blast
  have build: "build_provenance_graph_for_bundle raw b = Inr ?g" using True build_bundle_graph_eq by blast
  have "Range (derives b) \<subseteq> set (artifact_ids b)"
    using derives_known [OF ok] by (force simp: derives_def artifact_ids_def)
  then have acyclic: "acyclic (edges ?g) \<longleftrightarrow> acyclic (derives b)"
    unfolding edges_bundle_graph using free by (intro acyclic_top) auto
  define p where "p = \<lparr>ip_graph_digest = graph_digest ?g, ip_edges_verified = acyclic (derives b),
    ip_identities_verified = True, ip_reachable_pairs = map (\<lambda>(a, c). (a, c, True)) ?pairs,
    ip_verified = acyclic (derives b)\<rparr>"
  have reach: "map (\<lambda>(a, c). (a, c, a \<in> set (node_ids ?g) \<and> c \<in> set (node_ids ?g) \<and> (a, c) \<in> (edges ?g)\<^sup>*)) ?pairs =
      map (\<lambda>(a, c). (a, c, True)) ?pairs"
    by (auto simp: node_ids_bundle_graph edges_bundle_graph)
  have proof_ok: "build_integrity_proof ?g None ?pairs = Inr p"
    unfolding build_integrity_proof_def succeeds_edges [OF True] pair_results [OF True] reach
    using required_bundle_graph [of raw b]
    by (simp add: acyclic p_def construct_def proof_post_init_def graph_digest_def list_all_iff)
  have "\<forall>a \<in> set (ob_artifacts b). oa_artifact_id a \<noteq> ''bundle''"
    using free unfolding artifact_ids_def set_map by (metis imageI)
  then have "\<forall>n \<in> set (map artifact_node (ob_artifacts b)). pn_node_id n \<noteq> ''bundle''"
    by (simp add: artifact_node_def)
  then have "find (\<lambda>n. pn_node_id n = ''bundle'') (map artifact_node (ob_artifacts b) @ [bundle_node raw b]) = Some (bundle_node raw b)"
    by (rule find_last) (simp add: bundle_node_def)
  then have top: "graph_node ?g ''bundle'' = Inr (bundle_node raw b)"
    by (simp add: graph_node_def bundle_graph_def Let_def find_first_def)
  obtain us where "mapE (check_bundle_node b) (pg_nodes ?g) = Inr us"
    using check_bundle_nodes [OF ok] by (auto simp: is_ok_iff)
  then have "is_ok (verify_bundle_provenance raw b) \<longleftrightarrow> acyclic (derives b)"
    unfolding verify_bundle_provenance_def build proof_ok bindE_Inr top
    by (simp add: guards_single bundle_node_def p_def)
  with free show ?thesis by simp
qed

text \<open>
  The provenance of a valid bundle verifies exactly when its derivations are acyclic and no artifact is
  called \<open>bundle\<close>. So a bundle whose artifacts derive from each other in a circle, which the constructor
  accepts, is refused here; and so is every bundle with an artifact of that name, because the graph gives
  the name to the bundle itself.
\<close>

theorem bundle_provenance_iff:
  assumes "bundle_ok b"
  shows "is_ok (verify_bundle_provenance raw b) \<longleftrightarrow> ''bundle'' \<notin> set (artifact_ids b) \<and> acyclic (derives b)"
  by (rule bundle_provenance_outcome [OF assms])

lemma bundle_provenance_iff_witness:
  "is_ok (verify_bundle_provenance ''raw'' sample_bundle) \<longleftrightarrow> acyclic (derives sample_bundle)"
proof -
  have "''bundle'' \<notin> set (artifact_ids sample_bundle)" by code_simp
  with bundle_provenance_iff [OF sample_bundle_ok] show ?thesis by blast
qed

end
