(* ===== verification/Bundles.thy ===== *)
theory Bundles
  imports Containment Lines Operations
begin

text \<open>
  \<open>services/operations_service.py\<close>: building, exporting, disclosing and verifying operational bundles. An
  archive is the list of its members with their metadata and content, as \<open>zipfile\<close> decodes it; that
  decoding, the path resolution of \<open>pathlib\<close> and the conversion of text and floats by \<open>int\<close> are arguments.
\<close>

section \<open>Names and policies\<close>

definition safe_member_name :: "string \<Rightarrow> string result" where
  "safe_member_name name =
     (let c = backslash_to_slash name in
      bindE (guards [(c = [] \<or> starts_with c ''/'' \<or> ''..'' \<in> set (split_on CHR ''/'' c), ValueError ''artifact path'')])
        (\<lambda>_. Inr c))"

definition safe_artifact_id :: "string \<Rightarrow> string result" where
  "safe_artifact_id v =
     (let c = backslash_to_slash v in
      bindE (guards [(bad_component c, ValueError ''artifact_id'')]) (\<lambda>_. Inr c))"

text \<open>\<open>int(v)\<close>; the argument \<open>conv\<close> converts a float or a string.\<close>

definition py_int :: "(json \<Rightarrow> int result) \<Rightarrow> json \<Rightarrow> int result" where
  "py_int conv v =
     (case v of
        JInt n \<Rightarrow> Inr n
      | JBool b \<Rightarrow> Inr (if b then 1 else 0)
      | JStr _ \<Rightarrow> conv v
      | JFloat _ \<Rightarrow> conv v
      | _ \<Rightarrow> Inl (TypeError ''int''))"

definition parse_retention :: "(json \<Rightarrow> int result) \<Rightarrow> json \<Rightarrow> retention_policy option result" where
  "parse_retention conv v =
     (case v of
        JNull \<Rightarrow> Inr None
      | JObj d \<Rightarrow>
          bindE (get_opt d ''max_age_days'' (py_int conv)) (\<lambda>days.
          bindE (construct retention_policy_post_init
            \<lparr>rp_policy_id = get_str d ''policy_id'' [], rp_max_age_days = days,
             rp_max_sensitivity = get_str d ''max_sensitivity'' ''restricted''\<rparr>) (\<lambda>p. Inr (Some p)))
      | _ \<Rightarrow> Inl (ValueError ''retention_policy''))"

definition member_name :: "artifact \<Rightarrow> string" where
  "member_name a = ''artifacts/'' @ oa_artifact_id a @ ''/'' @ oa_path a"

section \<open>Building a bundle\<close>

definition load_bundle_spec :: "files \<Rightarrow> string \<Rightarrow> payload result" where
  "load_bundle_spec fs path =
     (case fs path of
        None \<Rightarrow> Inl (FileNotFoundError path)
      | Some text \<Rightarrow>
          if \<not> utf8_ok text then Inl (UnicodeDecodeError path)
          else (case loads text of
            None \<Rightarrow> Inl (JSONDecodeError path)
          | Some (JObj d) \<Rightarrow> Inr d
          | Some _ \<Rightarrow> Inl (ValueError ''root'')))"

text \<open>\<open>Path.suffix\<close> of a file name, and the kind of an artifact without an explicit one.\<close>

definition path_suffix :: "string \<Rightarrow> string" where
  "path_suffix name =
     (let parts = split_on CHR ''.'' name; ext = last parts; stem = butlast parts in
      if stem = [] \<or> join ''.'' stem = [] \<or> ext = [] then [] else ext)"

definition default_kind :: "string \<Rightarrow> string" where
  "default_kind name = (if path_suffix name = [] then ''file'' else path_suffix name)"

text \<open>
  One entry of the spec: the artifact and its bytes. The arguments locate a file below the directory of
  the spec and give the name of the file a path resolves to.
\<close>

definition build_artifact ::
    "(string \<Rightarrow> located) \<Rightarrow> (string \<Rightarrow> string) \<Rightarrow> json \<Rightarrow> (artifact \<times> string) result" where
  "build_artifact locate resolved entry = (case entry of
     JObj d \<Rightarrow>
       bindE (safe_artifact_id (get_str d ''artifact_id'' [])) (\<lambda>artifact_id.
       bindE (safe_member_name (get_str d ''path'' [])) (\<lambda>path.
       (case locate path of
          Outside \<Rightarrow> Inl (ValueError ''escapes'')
        | Absent \<Rightarrow> Inl (FileNotFoundError path)
        | Content content \<Rightarrow>
            let digest = sha256_hex content in
            bindE (guards [(case get_opt_str d ''sha256'' of None \<Rightarrow> False | Some e \<Rightarrow> e \<noteq> digest,
                ValueError ''digest mismatch'')]) (\<lambda>_.
            bindE (iter_json (get_or d ''derived_from'' (JArr []))) (\<lambda>sources.
            bindE (construct artifact_post_init
              \<lparr>oa_artifact_id = artifact_id, oa_path = path,
               oa_kind = get_str d ''kind'' (default_kind (resolved path)), oa_sha256 = digest,
               oa_size_bytes = int (length content), oa_sensitivity = get_str d ''sensitivity'' ''internal'',
               oa_derived_from = map py_str sources\<rparr>) (\<lambda>a. Inr (a, content)))))))
   | _ \<Rightarrow> Inl (ValueError ''artifact entry''))"

definition named_bundle :: "op_bundle \<Rightarrow> op_bundle result" where
  "named_bundle b =
     bindE (if ob_manifest_id b = ''pending''
            then construct bundle_post_init (b\<lparr>ob_manifest_id := computed_manifest_id b\<rparr>)
            else bindE (guards [(ob_manifest_id b \<noteq> computed_manifest_id b, ValueError ''manifest_id mismatch'')])
              (\<lambda>_. Inr b)) (\<lambda>b.
     if ob_bundle_id b = ''pending''
     then construct bundle_post_init (b\<lparr>ob_bundle_id := computed_bundle_id b\<rparr>)
     else bindE (guards [(ob_bundle_id b \<noteq> computed_bundle_id b, ValueError ''bundle_id mismatch'')]) (\<lambda>_. Inr b))"

definition package_version :: string where
  "package_version = ''0.5.1''"

definition build_bundle ::
    "(json \<Rightarrow> int result) \<Rightarrow> files \<Rightarrow> (string \<Rightarrow> located) \<Rightarrow> (string \<Rightarrow> string) \<Rightarrow>
     string \<Rightarrow> (op_bundle \<times> (string, string) dict) result" where
  "build_bundle conv fs locate resolved spec =
     bindE (load_bundle_spec fs spec) (\<lambda>d.
     bindE (guards [(missing_fields d [''bundle_id'', ''agent_name'', ''created_at'', ''artifacts''] \<noteq> [],
         ValueError ''missing'')]) (\<lambda>_.
     (case get_or d ''artifacts'' JNull of
        JArr (e # es) \<Rightarrow>
          bindE (mapE (build_artifact locate resolved) (e # es)) (\<lambda>records.
          bindE (item_str d ''created_at'') (\<lambda>created.
          bindE (parse_datetime created ''created_at'') (\<lambda>created_at.
          bindE (item_str d ''bundle_id'') (\<lambda>bundle_id.
          bindE (item_str d ''agent_name'') (\<lambda>agent_name.
          bindE (parse_retention conv (get_or d ''retention_policy'' JNull)) (\<lambda>policy.
          bindE (construct bundle_post_init
            \<lparr>ob_bundle_id = bundle_id, ob_manifest_id = get_str d ''manifest_id'' ''pending'',
             ob_agent_name = agent_name, ob_engine_version = get_str d ''engine_version'' package_version,
             ob_created_at = created_at, ob_artifacts = map fst records, ob_retention = policy\<rparr>) (\<lambda>b.
          bindE (named_bundle b) (\<lambda>b.
          Inr (b, AList.update ''manifest.json'' (indented (JObj (bundle_to_dict b)))
                 (dict_of (map (\<lambda>(a, content). (member_name a, content)) records)))))))))))
      | _ \<Rightarrow> Inl (ValueError ''artifacts''))))"

text \<open>\<open>export_bundle\<close>: the members in the order they are written; their timestamps and modes are constant.\<close>

definition export_bundle :: "(string, string) dict \<Rightarrow> (string \<times> string) list" where
  "export_bundle fs = sorted_items fs"

section \<open>Disclosure\<close>

definition lookup_file :: "(string, string) dict \<Rightarrow> artifact \<Rightarrow> (string \<times> string) result" where
  "lookup_file fs a =
     (case map_of fs (member_name a) of
        None \<Rightarrow> Inl (KeyError (member_name a)) | Some content \<Rightarrow> Inr (member_name a, content))"

definition export_disclosed_bundle ::
    "op_bundle \<Rightarrow> (string, string) dict \<Rightarrow> string \<Rightarrow> (op_bundle \<times> (string \<times> string) list) result" where
  "export_disclosed_bundle b fs max_sensitivity =
     bindE (filter_disclosable_ids (map (\<lambda>a. (oa_artifact_id a, oa_sensitivity a)) (ob_artifacts b)) max_sensitivity) (\<lambda>ids.
     let selected = filter (\<lambda>a. oa_artifact_id a \<in> set ids) (ob_artifacts b) in
     bindE (mapE (lookup_file fs) selected) (\<lambda>artifact_files.
     bindE (construct bundle_post_init
       (b\<lparr>ob_bundle_id := ''pending'', ob_manifest_id := ''pending'', ob_artifacts := selected\<rparr>)) (\<lambda>pending.
     bindE (construct bundle_post_init
       (pending\<lparr>ob_bundle_id := computed_bundle_id pending, ob_manifest_id := computed_manifest_id pending\<rparr>))
       (\<lambda>disclosed.
     Inr (disclosed, export_bundle
       (AList.update ''manifest.json'' (indented (JObj (bundle_to_dict disclosed))) (dict_of artifact_files)))))))"

section \<open>Verification\<close>

type_synonym archive = "(zip_info \<times> string) list"

definition member_names :: "archive \<Rightarrow> string list" where
  "member_names ar = map (zi_filename \<circ> fst) ar"

text \<open>\<open>archive.getinfo\<close> and \<open>archive.read\<close>; the names are distinct when they are used.\<close>

definition getmember :: "archive \<Rightarrow> string \<Rightarrow> (zip_info \<times> string) result" where
  "getmember ar name =
     (case find_first (\<lambda>m. zi_filename (fst m) = name) ar of None \<Rightarrow> Inl (KeyError name) | Some m \<Rightarrow> Inr m)"

definition read_artifact :: "(json \<Rightarrow> int result) \<Rightarrow> json \<Rightarrow> artifact result" where
  "read_artifact conv entry = (case entry of
     JObj d \<Rightarrow>
       bindE (item_str d ''artifact_id'') (\<lambda>raw_id.
       bindE (safe_artifact_id raw_id) (\<lambda>artifact_id.
       bindE (item_str d ''path'') (\<lambda>raw_path.
       bindE (safe_member_name raw_path) (\<lambda>path.
       bindE (item_str d ''kind'') (\<lambda>kind.
       bindE (item_str d ''sha256'') (\<lambda>digest.
       bindE (item d ''size_bytes'') (\<lambda>raw_size.
       bindE (py_int conv raw_size) (\<lambda>size_bytes.
       bindE (item_str d ''sensitivity'') (\<lambda>sensitivity.
       bindE (iter_json (get_or d ''derived_from'' (JArr []))) (\<lambda>sources.
       construct artifact_post_init
         \<lparr>oa_artifact_id = artifact_id, oa_path = path, oa_kind = kind, oa_sha256 = digest,
          oa_size_bytes = size_bytes, oa_sensitivity = sensitivity, oa_derived_from = map py_str sources\<rparr>))))))))))
   | _ \<Rightarrow> Inl (ValueError ''artifact entry''))"

definition parse_manifest :: "(json \<Rightarrow> int result) \<Rightarrow> string \<Rightarrow> op_bundle result" where
  "parse_manifest conv raw =
     (if \<not> utf8_ok raw then Inl (UnicodeDecodeError ''manifest.json'')
      else (case loads raw of
        None \<Rightarrow> Inl (JSONDecodeError ''manifest.json'')
      | Some (JObj d) \<Rightarrow>
          bindE (parse_retention conv (get_or d ''retention_policy'' JNull)) (\<lambda>policy.
          bindE (iter_json (get_or d ''artifacts'' (JArr []))) (\<lambda>entries.
          bindE (mapE (read_artifact conv) entries) (\<lambda>artifacts.
          bindE (item_str d ''bundle_id'') (\<lambda>bundle_id.
          bindE (item_str d ''manifest_id'') (\<lambda>manifest_id.
          bindE (item_str d ''agent_name'') (\<lambda>agent_name.
          bindE (item_str d ''engine_version'') (\<lambda>engine_version.
          bindE (item_str d ''created_at'') (\<lambda>created.
          bindE (parse_datetime created ''created_at'') (\<lambda>created_at.
          construct bundle_post_init
            \<lparr>ob_bundle_id = bundle_id, ob_manifest_id = manifest_id, ob_agent_name = agent_name,
             ob_engine_version = engine_version, ob_created_at = created_at, ob_artifacts = artifacts,
             ob_retention = policy\<rparr>)))))))))
      | Some _ \<Rightarrow> Inl (ValueError ''manifest'')))"

definition check_member :: "archive \<Rightarrow> artifact \<Rightarrow> unit result" where
  "check_member ar a =
     bindE (getmember ar (member_name a)) (\<lambda>m.
     guards [(zi_file_size (fst m) \<noteq> oa_size_bytes a, ValueError ''ZIP member size mismatch'')])"

definition read_manifest :: "(json \<Rightarrow> int result) \<Rightarrow> archive \<Rightarrow> (op_bundle \<times> (string, string) dict) result" where
  "read_manifest conv ar =
     bindE (guards [
       (\<not> distinct (member_names ar), ValueError ''duplicate ZIP member names''),
       (''manifest.json'' \<notin> set (member_names ar), ValueError ''missing manifest.json'')]) (\<lambda>_.
     bindE (getmember ar ''manifest.json'') (\<lambda>manifest.
     bindE (parse_manifest conv (snd manifest)) (\<lambda>b.
     let expected = set (map member_name (ob_artifacts b)) in
     bindE (guards [(set (member_names ar) - {''manifest.json''} \<noteq> expected, ValueError ''contents'')]) (\<lambda>_.
     bindE (validate_archive_envelope default_limits (map fst ar)) (\<lambda>_.
     bindE (mapE (check_member ar) (ob_artifacts b)) (\<lambda>_.
     bindE (mapE (\<lambda>n. bindE (getmember ar n) (\<lambda>m. Inr (n, snd m))) (sorted_set (map member_name (ob_artifacts b)))) (\<lambda>extracted.
     Inr (b, extracted))))))))"

definition check_content :: "(string, string) dict \<Rightarrow> artifact \<Rightarrow> unit result" where
  "check_content fs a =
     bindE (lookup_file fs a) (\<lambda>(_, content). guards [
       (int (length content) \<noteq> oa_size_bytes a, ValueError ''size mismatch''),
       (sha256_hex content \<noteq> oa_sha256 a, ValueError ''digest mismatch'')])"

text \<open>The argument \<open>unzip\<close> decodes the bytes of an archive.\<close>

definition verify_bundle :: "(json \<Rightarrow> int result) \<Rightarrow> (string \<Rightarrow> archive result) \<Rightarrow> string \<Rightarrow> op_bundle result" where
  "verify_bundle conv unzip raw =
     bindE (guards [(max_input_bytes default_limits < int (length raw), ValueError ''maximum input size'')]) (\<lambda>_.
     bindE (unzip raw) (\<lambda>ar.
     bindE (read_manifest conv ar) (\<lambda>(b, fs).
     bindE (guards [
       (ob_manifest_id b \<noteq> computed_manifest_id b, ValueError ''manifest_id integrity''),
       (ob_bundle_id b \<noteq> computed_bundle_id b, ValueError ''bundle_id integrity''),
       (set (map fst fs) \<noteq> set (map member_name (ob_artifacts b)), ValueError ''contents'')]) (\<lambda>_.
     bindE (mapE (check_content fs) (ob_artifacts b)) (\<lambda>_.
     bindE (verify_bundle_provenance raw b) (\<lambda>_. Inr b))))))"

definition decide_retention ::
    "(json \<Rightarrow> int result) \<Rightarrow> (string \<Rightarrow> archive result) \<Rightarrow> string \<Rightarrow> retention_policy \<Rightarrow> datetime \<Rightarrow>
     retention_decision result" where
  "decide_retention conv unzip raw p as_of =
     bindE (verify_bundle conv unzip raw) (\<lambda>b. assess_retention b p as_of)"

section \<open>Facts\<close>

lemma keys_update: "fst ` set (AList.update k v d) = insert k (fst ` set d)"
  by (simp add: dom_map_of_conv_image_fst [symmetric])

lemma keys_dict_of: "fst ` set (dict_of kvs) = fst ` set kvs"
proof -
  have "fst ` set (foldl (\<lambda>d (k, v). AList.update k v d) d kvs) = fst ` set d \<union> fst ` set kvs" for d
    by (induction kvs arbitrary: d) (simp_all add: keys_update split_beta)
  then show ?thesis by (simp add: dict_of_def)
qed

lemma read_artifact_ok: "read_artifact conv e = Inr a \<Longrightarrow> artifact_post_init a = Inr ()"
  by (cases e) (auto simp: read_artifact_def construct_Inr_iff)

lemma parse_manifest_ok:
  assumes "parse_manifest conv raw = Inr b"
  shows "bundle_ok b"
proof -
  have "utf8_ok raw" using assms by (auto simp: parse_manifest_def split: if_splits)
  moreover obtain v where "loads raw = Some v"
    using assms by (cases "loads raw") (simp_all add: parse_manifest_def split: if_splits)
  moreover obtain d where "v = JObj d"
    using assms calculation by (cases v) (simp_all add: parse_manifest_def)
  ultimately obtain es as where "mapE (read_artifact conv) es = Inr as" "ob_artifacts b = as" "bundle_post_init b = Inr ()"
    using assms unfolding parse_manifest_def by (simp) (elim bindE_InrE, simp add: construct_Inr_iff)
  moreover from this have "list_all (\<lambda>a. artifact_post_init a = Inr ()) as"
    by (intro mapE_all [OF _ read_artifact_ok])
  ultimately show ?thesis by (simp add: bundle_ok_def)
qed

lemma getmember_Inr: "getmember ar n = Inr m \<Longrightarrow> m \<in> set ar \<and> zi_filename (fst m) = n"
  by (auto simp: getmember_def split: option.splits dest: find_first_Some)

lemma check_content_Inr:
  assumes "check_content fs a = Inr ()"
  obtains content where "map_of fs (member_name a) = Some content"
    and "int (length content) = oa_size_bytes a" and "sha256_hex content = oa_sha256 a"
proof -
  from assms obtain content where "map_of fs (member_name a) = Some content"
    by (cases "map_of fs (member_name a)") (simp_all add: check_content_def lookup_file_def)
  with assms show thesis by (intro that) (auto simp: check_content_def lookup_file_def)
qed

lemma mapE_Inr_mem: "mapE f xs = Inr ys \<Longrightarrow> x \<in> set xs \<Longrightarrow> \<exists>y \<in> set ys. f x = Inr y"
  by (induction xs arbitrary: ys) auto

lemma mapE_Inr_mem': "mapE f xs = Inr ys \<Longrightarrow> y \<in> set ys \<Longrightarrow> \<exists>x \<in> set xs. f x = Inr y"
  by (induction xs arbitrary: ys) auto

lemma extracted_member:
  assumes "mapE (\<lambda>n. bindE (getmember ar n) (\<lambda>m. Inr (n, snd m))) ns = Inr fs" "map_of fs n = Some content"
  shows "\<exists>m \<in> set ar. zi_filename (fst m) = n \<and> snd m = content"
proof -
  have "(n, content) \<in> set fs" using assms(2) by (rule map_of_SomeD)
  from mapE_Inr_mem' [OF assms(1) this]
  obtain k where "bindE (getmember ar k) (\<lambda>m. Inr (k, snd m)) = Inr (n, content)" by (rule bexE)
  then obtain m where "getmember ar k = Inr m" "k = n" "snd m = content" by (elim bindE_InrE) simp
  with getmember_Inr show ?thesis by blast
qed

lemma read_manifest_Inr:
  assumes "read_manifest conv ar = Inr (b, fs)"
  shows "bundle_ok b" "set (member_names ar) = insert ''manifest.json'' (set (map member_name (ob_artifacts b)))"
    and "validate_archive_envelope default_limits (map fst ar) = Inr ()"
    and "mapE (\<lambda>n. bindE (getmember ar n) (\<lambda>m. Inr (n, snd m))) (sorted_set (map member_name (ob_artifacts b))) = Inr fs"
proof -
  from assms obtain raw where raw: "parse_manifest conv raw = Inr b"
    and names: "''manifest.json'' \<in> set (member_names ar)"
      "set (member_names ar) - {''manifest.json''} = set (map member_name (ob_artifacts b))"
    and env: "validate_archive_envelope default_limits (map fst ar) = Inr ()"
    and fs: "mapE (\<lambda>n. bindE (getmember ar n) (\<lambda>m. Inr (n, snd m))) (sorted_set (map member_name (ob_artifacts b))) = Inr fs"
    unfolding read_manifest_def Let_def by (elim bindE_InrE) simp
  show "bundle_ok b" by (rule parse_manifest_ok [OF raw])
  show "set (member_names ar) = insert ''manifest.json'' (set (map member_name (ob_artifacts b)))"
    using names by blast
  show "validate_archive_envelope default_limits (map fst ar) = Inr ()" by (rule env)
  show "mapE (\<lambda>n. bindE (getmember ar n) (\<lambda>m. Inr (n, snd m))) (sorted_set (map member_name (ob_artifacts b))) = Inr fs"
    by (rule fs)
qed

section \<open>Properties\<close>

text \<open>
  C8: an archive that verifies carries exactly what its manifest declares: the bundle is well formed and
  bears the identities computed from its content, its provenance is acyclic, the archive has no member
  besides the manifest and the artifacts and is within the containment limits, and each artifact is a
  member whose bytes have the declared size and digest.
\<close>

theorem verify_bundle_sound:
  assumes "verify_bundle conv unzip raw = Inr b"
  shows "\<exists>ar. unzip raw = Inr ar \<and> bundle_ok b \<and>
    ob_manifest_id b = computed_manifest_id b \<and> ob_bundle_id b = computed_bundle_id b \<and>
    acyclic (derives b) \<and>
    set (member_names ar) = insert ''manifest.json'' (set (map member_name (ob_artifacts b))) \<and>
    validate_archive_envelope default_limits (map fst ar) = Inr () \<and>
    (\<forall>a \<in> set (ob_artifacts b). \<exists>m \<in> set ar. zi_filename (fst m) = member_name a \<and>
      int (length (snd m)) = oa_size_bytes a \<and> sha256_hex (snd m) = oa_sha256 a)"
proof -
  from assms obtain ar fs us where ar: "unzip raw = Inr ar"
    and read: "read_manifest conv ar = Inr (b, fs)"
    and ids: "ob_manifest_id b = computed_manifest_id b" "ob_bundle_id b = computed_bundle_id b"
    and contents: "mapE (check_content fs) (ob_artifacts b) = Inr us"
    and prov: "is_ok (verify_bundle_provenance raw b)"
    unfolding verify_bundle_def by (elim bindE_InrE) (auto simp: bindE_eq_Inr_iff)
  note r = read_manifest_Inr [OF read]
  have "\<exists>m \<in> set ar. zi_filename (fst m) = member_name a \<and>
      int (length (snd m)) = oa_size_bytes a \<and> sha256_hex (snd m) = oa_sha256 a" if "a \<in> set (ob_artifacts b)" for a
  proof -
    have "check_content fs a = Inr ()" using mapE_Inr_mem [OF contents that] by auto
    then obtain content where "map_of fs (member_name a) = Some content"
      "int (length content) = oa_size_bytes a" "sha256_hex content = oa_sha256 a" by (rule check_content_Inr)
    with extracted_member [OF r(4)] show ?thesis by blast
  qed
  moreover have "acyclic (derives b)" using prov bundle_provenance_outcome [OF r(1)] by blast
  ultimately show ?thesis using ar ids r(1,2,3) by blast
qed

lemma plain_path: "CHR 0x5C \<notin> set c \<Longrightarrow> backslash_to_slash c = c"
  by (induction c) (auto simp: backslash_to_slash_def)

lemma read_artifact_stored:
  assumes a: "artifact_post_init a = Inr ()" "CHR 0x5C \<notin> set (oa_path a)"
  shows "read_artifact conv (sort_keys (JObj (artifact_to_dict a))) = Inr a"
proof -
  have "json_ok (\<lambda>s. True) (JObj (artifact_to_dict a))" by (simp add: artifact_to_dict_def)
  note st = storedD [OF stored_sorted_payload [OF this]]
  have "list_all (\<lambda>k. map_of (sorted_payload (artifact_to_dict a)) k = map_option sort_keys (map_of (artifact_to_dict a) k))
    [''artifact_id'', ''path'', ''kind'', ''sha256'', ''size_bytes'', ''sensitivity'', ''derived_from'']"
    by (simp add: list_all_iff st)
  note look = this [unfolded artifact_to_dict_def, simplified]
  have id: "safe_artifact_id (oa_artifact_id a) = Inr (oa_artifact_id a)"
    using a(1) no_backslash [of "oa_artifact_id a"]
    by (auto simp: safe_artifact_id_def artifact_post_init_def Let_def bad_component_def)
  have path: "safe_member_name (oa_path a) = Inr (oa_path a)"
    using a plain_path [OF a(2)] by (cases "oa_path a") (auto simp: safe_member_name_def artifact_post_init_def Let_def)
  have eta: "\<lparr>oa_artifact_id = oa_artifact_id a, oa_path = oa_path a, oa_kind = oa_kind a, oa_sha256 = oa_sha256 a,
      oa_size_bytes = oa_size_bytes a, oa_sensitivity = oa_sensitivity a, oa_derived_from = oa_derived_from a\<rparr> = a" by simp
  have con: "construct artifact_post_init a = Inr a" using a(1) by (rule construct_ok)
  have iter: "iter_json (jstrs xs) = Inr (map JStr xs)" for xs by (simp add: iter_json_def jstrs_def)
  show ?thesis
    unfolding sort_keys_JObj
    by (simp add: read_artifact_def item_str_def look artifact_to_dict_def id path py_int_def get_or_def iter comp_def
        eta con)
qed

definition policy_ok :: "retention_policy option \<Rightarrow> bool" where
  "policy_ok v = (case v of None \<Rightarrow> True | Some p \<Rightarrow> retention_policy_post_init p = Inr ())"

lemma parse_retention_stored:
  assumes "policy_ok v"
  shows "parse_retention conv (sort_keys (jopt (\<lambda>p. JObj (retention_policy_to_dict p)) v)) = Inr v"
proof (cases v)
  case None
  then show ?thesis by (simp add: jopt_def parse_retention_def)
next
  case (Some p)
  have "json_ok (\<lambda>s. True) (JObj (retention_policy_to_dict p))"
    by (simp add: retention_policy_to_dict_def jopt_def split: option.splits)
  note st = storedD [OF stored_sorted_payload [OF this]]
  have days: "get_opt (sorted_payload (retention_policy_to_dict p)) ''max_age_days'' (py_int conv) = Inr (rp_max_age_days p)"
    by (rule get_opt_stored [where j = JInt]) (subst st, simp_all add: retention_policy_to_dict_def py_int_def)
  have "get_str (sorted_payload (retention_policy_to_dict p)) ''policy_id'' [] = rp_policy_id p"
    "get_str (sorted_payload (retention_policy_to_dict p)) ''max_sensitivity'' ''restricted'' = rp_max_sensitivity p"
    unfolding get_str_def get_or_def st by (simp_all add: retention_policy_to_dict_def)
  moreover have eta: "\<lparr>rp_policy_id = rp_policy_id p, rp_max_age_days = rp_max_age_days p, rp_max_sensitivity = rp_max_sensitivity p\<rparr> = p"
    by simp
  moreover have "retention_policy_post_init p = Inr ()" using assms Some by (simp add: policy_ok_def)
  then have con: "construct retention_policy_post_init p = Inr p" by (rule construct_ok)
  ultimately show ?thesis
    unfolding Some jopt_def option.case sort_keys_JObj by (simp add: parse_retention_def days eta con)
qed

lemma json_ok_bundle: "json_ok (\<lambda>s. True) (JObj (bundle_to_dict b))"
  by (simp add: bundle_to_dict_def manifest_payload_def unnamed_payload_def artifact_to_dict_def list_all_iff
      retention_policy_to_dict_def jopt_def split: option.splits)

definition writable :: "op_bundle \<Rightarrow> bool" where
  "writable b = (bundle_ok b \<and> policy_ok (ob_retention b) \<and> dt_ok (ob_created_at b) \<and>
     list_all (\<lambda>a. CHR 0x5C \<notin> set (oa_path a)) (ob_artifacts b))"

lemma parse_manifest_stored:
  assumes b: "writable b" and doc: "utf8_ok doc" "loads doc = Some (sort_keys (JObj (bundle_to_dict b)))"
  shows "parse_manifest conv doc = Inr b"
proof -
  note st = storedD [OF stored_sorted_payload [OF json_ok_bundle]]
  let ?d = "sorted_payload (bundle_to_dict b)"
  have "list_all (\<lambda>k. map_of ?d k = map_option sort_keys (map_of (bundle_to_dict b) k))
    [''bundle_id'', ''manifest_id'', ''agent_name'', ''engine_version'', ''created_at'', ''artifacts'', ''retention_policy'']"
    by (simp add: list_all_iff st)
  then have look: "map_of ?d ''bundle_id'' = Some (JStr (ob_bundle_id b))"
    "map_of ?d ''manifest_id'' = Some (JStr (ob_manifest_id b))"
    "map_of ?d ''agent_name'' = Some (JStr (ob_agent_name b))"
    "map_of ?d ''engine_version'' = Some (JStr (ob_engine_version b))"
    "map_of ?d ''created_at'' = Some (JStr (utc_iso (ob_created_at b)))"
    "map_of ?d ''artifacts'' = Some (JArr (map (\<lambda>a. sort_keys (JObj (artifact_to_dict a))) (ob_artifacts b)))"
    "map_of ?d ''retention_policy'' = Some (sort_keys (jopt (\<lambda>p. JObj (retention_policy_to_dict p)) (ob_retention b)))"
    by (simp_all add: bundle_to_dict_def manifest_payload_def unnamed_payload_def comp_def del: sort_keys.simps(2))
  have ok: "bundle_post_init b = Inr ()" using b by (simp add: writable_def bundle_ok_def)
  then have "tz_aware (ob_created_at b)"
    unfolding bundle_post_init_def by (elim bindE_InrE) simp
  then obtain t where t: "ob_created_at b = Aware t" "in_range t"
    using b by (cases "ob_created_at b") (auto simp: writable_def dt_ok_def)
  have arts: "mapE (read_artifact conv) (map (\<lambda>a. sort_keys (JObj (artifact_to_dict a))) (ob_artifacts b)) = Inr (ob_artifacts b)"
  proof -
    have "mapE (\<lambda>a. read_artifact conv (sort_keys (JObj (artifact_to_dict a)))) (ob_artifacts b) =
        Inr (map (\<lambda>a. a) (ob_artifacts b))"
      using b by (intro mapE_Inr_id read_artifact_stored) (auto simp: writable_def bundle_ok_def list_all_iff)
    then show ?thesis by (simp add: mapE_map)
  qed
  have eta: "\<lparr>ob_bundle_id = ob_bundle_id b, ob_manifest_id = ob_manifest_id b, ob_agent_name = ob_agent_name b,
      ob_engine_version = ob_engine_version b, ob_created_at = Aware t, ob_artifacts = ob_artifacts b,
      ob_retention = ob_retention b\<rparr> = b" by (simp add: t(1) [symmetric])
  have con: "construct bundle_post_init b = Inr b" using ok by (rule construct_ok)
  have policy: "policy_ok (ob_retention b)" using b by (simp add: writable_def)
  show ?thesis
    unfolding parse_manifest_def doc(2) sort_keys_JObj
    by (simp add: doc(1) get_or_def item_str_def look parse_retention_stored [OF policy] iter_json_def arts
        t(1) parse_datetime_utc_iso [OF t(2)] eta con del: sort_keys.simps(2))
qed

lemma getmember_distinct:
  assumes "distinct (member_names ar)" "m \<in> set ar"
  shows "getmember ar (zi_filename (fst m)) = Inr m"
proof (cases "find_first (\<lambda>x. zi_filename (fst x) = zi_filename (fst m)) ar")
  case None
  with assms(2) show ?thesis by (auto simp: find_first_None)
next
  case (Some x)
  then have x: "x \<in> set ar" "zi_filename (fst x) = zi_filename (fst m)" by (auto dest: find_first_Some)
  have "inj_on (zi_filename \<circ> fst) (set ar)" using assms(1) by (simp add: member_names_def distinct_map)
  from inj_onD [OF this _ x(1) assms(2)] x(2) have "x = m" by simp
  with Some show ?thesis by (simp add: getmember_def)
qed

section \<open>Verification accepts what was exported\<close>

text \<open>An archive holds a bundle: its manifest, in whatever rendering, and the content of its artifacts.\<close>

definition holds :: "archive \<Rightarrow> op_bundle \<Rightarrow> bool" where
  "holds ar b =
     (distinct (member_names ar) \<and>
      set (member_names ar) = insert ''manifest.json'' (set (map member_name (ob_artifacts b))) \<and>
      (\<forall>m \<in> set ar. zi_filename (fst m) = ''manifest.json'' \<longrightarrow>
         utf8_ok (snd m) \<and> loads (snd m) = Some (sort_keys (JObj (bundle_to_dict b)))) \<and>
      (\<forall>a \<in> set (ob_artifacts b). \<forall>m \<in> set ar. zi_filename (fst m) = member_name a \<longrightarrow>
         zi_file_size (fst m) = oa_size_bytes a \<and> int (length (snd m)) = oa_size_bytes a \<and>
         sha256_hex (snd m) = oa_sha256 a) \<and>
      validate_archive_envelope default_limits (map fst ar) = Inr ())"

lemma read_manifest_holds:
  assumes b: "writable b" and ar: "holds ar b"
  shows "\<exists>fs. read_manifest conv ar = Inr (b, fs) \<and> set (map fst fs) = set (map member_name (ob_artifacts b)) \<and>
    (\<forall>a \<in> set (ob_artifacts b). check_content fs a = Inr ())"
proof -
  have dist: "distinct (member_names ar)" using ar by (simp add: holds_def)
  have names: "\<exists>m \<in> set ar. zi_filename (fst m) = n" if "n \<in> set (member_names ar)" for n
    using that by (auto simp: member_names_def)
  have "''manifest.json'' \<in> set (member_names ar)" using ar by (simp add: holds_def)
  then obtain man where man: "man \<in> set ar" "zi_filename (fst man) = ''manifest.json''" using names by blast
  then have manifest: "getmember ar ''manifest.json'' = Inr man" "parse_manifest conv (snd man) = Inr b"
    using getmember_distinct [OF dist man(1)] parse_manifest_stored [OF b] ar by (auto simp: holds_def)
  have arts: "\<exists>m. getmember ar (member_name a) = Inr m \<and> zi_file_size (fst m) = oa_size_bytes a \<and>
      int (length (snd m)) = oa_size_bytes a \<and> sha256_hex (snd m) = oa_sha256 a" if a: "a \<in> set (ob_artifacts b)" for a
  proof -
    have "member_name a \<in> set (member_names ar)" using ar a by (auto simp: holds_def)
    then obtain m where m: "m \<in> set ar" "zi_filename (fst m) = member_name a" using names by blast
    with ar a getmember_distinct [OF dist m(1)] show ?thesis unfolding holds_def by metis
  qed
  define content where "content n = snd (projr (getmember ar n))" for n
  have fs: "mapE (\<lambda>n. bindE (getmember ar n) (\<lambda>m. Inr (n, snd m))) (sorted_set (map member_name (ob_artifacts b))) =
      Inr (map (\<lambda>n. (n, content n)) (sorted_set (map member_name (ob_artifacts b))))" (is "_ = Inr ?fs")
    using arts by (intro mapE_Inr_id) (fastforce simp: content_def)
  have "mapE (check_member ar) (ob_artifacts b) = Inr (map (\<lambda>_. ()) (ob_artifacts b))"
    using arts by (intro mapE_Inr_id) (fastforce simp: check_member_def)
  moreover have "''manifest.json'' \<notin> member_name ` set (ob_artifacts b)" by (auto simp: member_name_def)
  moreover have "map_of ?fs (member_name a) = Some (content (member_name a))" if "a \<in> set (ob_artifacts b)" for a
    using that by (simp add: map_of_map_restrict)
  then have "check_content ?fs a = Inr ()" if "a \<in> set (ob_artifacts b)" for a
    using arts [OF that] that by (auto simp: check_content_def lookup_file_def content_def)
  ultimately show ?thesis
    using ar manifest
    by (intro exI [of _ ?fs]) (simp add: read_manifest_def Let_def holds_def fs comp_def)
qed

lemma verify_holding_archive:
  assumes "writable b" "holds ar b" and "unzip raw = Inr ar" "int (length raw) \<le> max_input_bytes default_limits"
    and "ob_manifest_id b = computed_manifest_id b" "ob_bundle_id b = computed_bundle_id b"
    and "acyclic (derives b)" "''bundle'' \<notin> set (artifact_ids b)"
  shows "verify_bundle conv unzip raw = Inr b"
proof -
  obtain fs where fs: "read_manifest conv ar = Inr (b, fs)" "set (map fst fs) = set (map member_name (ob_artifacts b))"
    "\<forall>a \<in> set (ob_artifacts b). check_content fs a = Inr ()"
    using read_manifest_holds [OF assms(1,2)] by blast
  have "bundle_ok b" using assms(1) by (simp add: writable_def)
  then have "is_ok (verify_bundle_provenance raw b)"
    using bundle_provenance_outcome assms(7,8) by blast
  then obtain p where "verify_bundle_provenance raw b = Inr p" by (auto simp: is_ok_iff)
  moreover have "mapE (check_content fs) (ob_artifacts b) = Inr (map (\<lambda>_. ()) (ob_artifacts b))"
    using fs(3) by (intro mapE_Inr_id) simp
  ultimately show ?thesis
    using assms(3-6) fs(1,2) by (simp add: verify_bundle_def)
qed

text \<open>The bundle disclosed from \<open>b\<close>: its artifacts within the ceiling, under recomputed identities.\<close>

definition disclosable :: "string \<Rightarrow> op_bundle \<Rightarrow> op_bundle" where
  "disclosable c b = b\<lparr>ob_artifacts := filter (\<lambda>a. rank (oa_sensitivity a) \<le> rank c) (ob_artifacts b)\<rparr>"

definition renamed :: "op_bundle \<Rightarrow> op_bundle" where
  "renamed b = b\<lparr>ob_bundle_id := computed_bundle_id b, ob_manifest_id := computed_manifest_id b\<rparr>"

lemma check_derivation_within:
  assumes ok: "bundle_ok b" and a: "a \<in> set (ob_artifacts b)" "rank (oa_sensitivity a) \<le> rank c"
    and arts: "ob_artifacts b' = ob_artifacts (disclosable c b)"
  shows "check_derivation b' a = Inr ()"
proof -
  have dist: "distinct (artifact_ids b')"
    using bundle_ok_distinct [OF ok] by (simp add: artifact_ids_def arts disclosable_def distinct_map_filter)
  have same: "s \<in> set (artifact_ids b') \<and> artifact_by_id b' s = artifact_by_id b s" if s: "s \<in> set (oa_derived_from a)" for s
  proof -
    obtain x where x: "x \<in> set (ob_artifacts b)" "oa_artifact_id x = s" using derives_known [OF ok a(1) s] by blast
    with derives_rank [OF ok a(1) _ x(1)] s a(2) have x': "x \<in> set (ob_artifacts b')" by (simp add: arts disclosable_def)
    with artifact_by_id_unique [OF dist x'] artifact_by_id_unique [OF bundle_ok_distinct [OF ok] x(1)] x(2)
    show ?thesis by (auto simp: artifact_ids_def)
  qed
  have "filter (\<lambda>s. s \<notin> set (artifact_ids b')) (oa_derived_from a) = []"
    using same by (simp add: filter_empty_conv)
  moreover have "mapE (\<lambda>s. bindE (artifact_by_id b' s) (\<lambda>x. Inr (oa_sensitivity x))) (oa_derived_from a) =
      mapE (\<lambda>s. bindE (artifact_by_id b s) (\<lambda>x. Inr (oa_sensitivity x))) (oa_derived_from a)"
    using same by (intro mapE_cong refl) simp
  moreover from check_derivation_ok [OF ok a(1)]
  have "filter (\<lambda>s. s \<notin> set (artifact_ids b)) (oa_derived_from a) = []"
    unfolding check_derivation_def by (elim bindE_InrE) simp
  ultimately show ?thesis
    using check_derivation_ok [OF ok a(1)] unfolding check_derivation_def
    by (cases "oa_derived_from a = []") simp_all
qed

lemma bundle_post_init_within:
  assumes ok: "bundle_ok b" and "ob_artifacts b' = ob_artifacts (disclosable c b)"
    and "\<not> blank (ob_bundle_id b')" "\<not> blank (ob_manifest_id b')"
    and "ob_agent_name b' = ob_agent_name b" "ob_engine_version b' = ob_engine_version b" "ob_created_at b' = ob_created_at b"
  shows "bundle_post_init b' = Inr ()"
proof -
  have "distinct (artifact_ids b')"
    using bundle_ok_distinct [OF ok] by (simp add: artifact_ids_def assms(2) disclosable_def distinct_map_filter)
  moreover from ok have "\<not> blank (ob_agent_name b)" "\<not> blank (ob_engine_version b)" "tz_aware (ob_created_at b)"
    unfolding bundle_ok_def bundle_post_init_def by (auto elim!: bindE_InrE)
  moreover have "mapE (check_derivation b') (ob_artifacts b') = Inr (map (\<lambda>_. ()) (ob_artifacts b'))"
    using check_derivation_within [OF ok _ _ assms(2)]
    by (intro mapE_Inr_id) (simp add: assms(2) disclosable_def)
  ultimately show ?thesis using assms(3-7) by (simp add: bundle_post_init_def)
qed

text \<open>
  Disclosure is closed under provenance. For a valid bundle, a supported ceiling and the files of the
  bundle, the export always succeeds: it keeps exactly the artifacts within the ceiling, which never
  derive from an artifact left out, and gives the result the identities that verification recomputes; and
  the only members written are the manifest and the files of those artifacts.
\<close>

theorem disclosure_closed:
  assumes ok: "bundle_ok b" and c: "c \<in> set sensitivities"
    and fs: "\<forall>a \<in> set (ob_artifacts b). map_of fs (member_name a) \<noteq> None"
  shows "\<exists>d ms. export_disclosed_bundle b fs c = Inr (d, ms) \<and> bundle_ok d \<and>
    ob_artifacts d = filter (\<lambda>a. rank (oa_sensitivity a) \<le> rank c) (ob_artifacts b) \<and>
    ob_manifest_id d = computed_manifest_id d \<and> ob_bundle_id d = computed_bundle_id d \<and>
    fst ` set ms = insert ''manifest.json'' (member_name ` set (ob_artifacts d))"
proof -
  let ?sel = "ob_artifacts (disclosable c b)"
  have art: "artifact_post_init a = Inr ()" if "a \<in> set (ob_artifacts b)" for a
    using ok that by (simp add: bundle_ok_def list_all_iff)
  have ids: "filter_disclosable_ids (map (\<lambda>a. (oa_artifact_id a, oa_sensitivity a)) (ob_artifacts b)) c =
      Inr (sort (map oa_artifact_id ?sel))"
    using c art artifact_ok_id artifact_known [OF ok]
    by (auto simp: filter_disclosable_ids_def validate_sensitivity_def guards_Inr_iff disclosable_def filter_map comp_def
        bindE_eq_Inr_iff)
  have sel: "filter (\<lambda>a. oa_artifact_id a \<in> set (sort (map oa_artifact_id ?sel))) (ob_artifacts b) = ?sel"
    using same_id [OF bundle_ok_distinct [OF ok]] by (fastforce simp: disclosable_def intro: filter_cong)
  have files: "mapE (lookup_file fs) ?sel = Inr (map (\<lambda>a. (member_name a, the (map_of fs (member_name a)))) ?sel)"
    using fs by (intro mapE_Inr_id) (auto simp: lookup_file_def disclosable_def)
  define pending where "pending = (disclosable c b)\<lparr>ob_bundle_id := ''pending'', ob_manifest_id := ''pending''\<rparr>"
  have pending: "bundle_post_init pending = Inr ()"
    by (rule bundle_post_init_within [OF ok]) (simp_all add: pending_def disclosable_def)
  have renamed: "bundle_post_init (renamed pending) = Inr ()"
    by (rule bundle_post_init_within [OF ok])
      (simp_all add: renamed_def pending_def disclosable_def computed_bundle_id_def computed_manifest_id_def)
  have "renamed pending = pending\<lparr>ob_bundle_id := computed_bundle_id pending, ob_manifest_id := computed_manifest_id pending\<rparr>"
    by (simp add: renamed_def)
  moreover have "pending = b\<lparr>ob_bundle_id := ''pending'', ob_manifest_id := ''pending'', ob_artifacts := ?sel\<rparr>"
    by (simp add: pending_def disclosable_def)
  moreover define ms where "ms = export_bundle (AList.update ''manifest.json'' (indented (JObj (bundle_to_dict (renamed pending))))
      (dict_of (map (\<lambda>a. (member_name a, the (map_of fs (member_name a)))) ?sel)))"
  ultimately have "export_disclosed_bundle b fs c = Inr (renamed pending, ms)"
    using pending renamed unfolding export_disclosed_bundle_def ids bindE_Inr Let_def sel files
    by (simp add: construct_ok)
  moreover have arts: "ob_artifacts (renamed pending) = ?sel"
    by (simp add: renamed_def pending_def)
  moreover have "bundle_ok (renamed pending)"
    using renamed art by (auto simp: bundle_ok_def arts disclosable_def list_all_iff)
  moreover have "fst ` set ms = insert ''manifest.json'' (member_name ` set ?sel)"
    by (simp add: ms_def export_bundle_def sorted_items_def keys_update keys_dict_of image_image)
  moreover have "ob_manifest_id (renamed pending) = computed_manifest_id (renamed pending)"
    "ob_bundle_id (renamed pending) = computed_bundle_id (renamed pending)"
    by (simp_all add: computed_manifest_id_def computed_bundle_id_def unnamed_payload_def renamed_def)
  ultimately show ?thesis
    by (intro exI [of _ "renamed pending"] exI [of _ ms] conjI) (simp_all add: disclosable_def)
qed

section \<open>Witnesses\<close>

definition sample_content :: string where
  "sample_content = ''abc''"

definition sample_plain :: op_bundle where
  "sample_plain = \<lparr>ob_bundle_id = ''pending'', ob_manifest_id = ''pending'', ob_agent_name = ''agent'',
     ob_engine_version = package_version, ob_created_at = Aware 0,
     ob_artifacts = [\<lparr>oa_artifact_id = ''x'', oa_path = ''f.txt'', oa_kind = ''txt'',
       oa_sha256 = sha256_hex sample_content, oa_size_bytes = 3, oa_sensitivity = ''internal'', oa_derived_from = []\<rparr>],
     ob_retention = None\<rparr>"

definition sample_export :: op_bundle where
  "sample_export = renamed sample_plain"

definition sample_archive :: archive where
  "sample_archive =
     [(\<lparr>zi_filename = ''artifacts/x/f.txt'', zi_file_size = 3, zi_compress_size = 5, zi_external_attr = 0x81A40000\<rparr>,
       sample_content),
      (\<lparr>zi_filename = ''manifest.json'', zi_file_size = 600, zi_compress_size = 400, zi_external_attr = 0x81A40000\<rparr>,
       json_line (bundle_to_dict sample_export))]"

lemmas sample_export_defs = sample_export_def renamed_def sample_plain_def

lemma sample_export_writable: "writable sample_export"
  by (simp add: writable_def bundle_ok_def bundle_post_init_def artifact_post_init_def check_derivation_def
      sample_export_defs artifact_ids_def computed_bundle_id_def computed_manifest_id_def package_version_def
      bad_component_def backslash_to_slash_def starts_with_def sensitivities_def sensitivity_order_def policy_ok_def
      dt_ok_def in_range_def day_us_def max_days_def Let_def)

lemma utf8_ok_digest_of [simp]: "utf8_ok (digest_of d)" "utf8_ok (sha256_hex s)"
  by (simp_all add: utf8_ok_sha256)

lemma json_ok_sample: "json_ok utf8_ok (JObj (bundle_to_dict sample_export))"
proof -
  have lit: "list_all utf8_ok [''bundle_id'', ''manifest_id'', ''agent_name'', ''engine_version'', ''created_at'',
      ''artifacts'', ''retention_policy'', ''agent'', ''0.5.1'', ''artifact_id'', ''path'', ''kind'', ''sha256'',
      ''size_bytes'', ''sensitivity'', ''derived_from'', ''x'', ''f.txt'', ''txt'', ''internal'']"
    by code_simp
  have iso: "utf8_ok (utc_iso (Aware 0))"
    by (rule utf8_ok_utc_iso) (simp add: in_range_def max_days_def day_us_def)
  have art: "json_ok utf8_ok (JObj (artifact_to_dict a))"
    if "list_all utf8_ok ([oa_artifact_id a, oa_path a, oa_kind a, oa_sha256 a, oa_sensitivity a] @ oa_derived_from a)" for a
    by (rule json_okI) (use that lit in \<open>simp_all add: artifact_to_dict_def jstrs_def list_all_iff\<close>)
  have "json_ok utf8_ok (JObj (artifact_to_dict a))" if "a \<in> set (ob_artifacts sample_export)" for a
    by (rule art) (use lit that in \<open>auto simp: sample_export_defs\<close>)
  moreover have "utf8_ok (ob_bundle_id sample_export)" "utf8_ok (ob_manifest_id sample_export)"
    "utf8_ok (ob_agent_name sample_export)" "utf8_ok (ob_engine_version sample_export)"
    "ob_created_at sample_export = Aware 0" "ob_retention sample_export = None"
    using lit by (simp_all add: sample_export_defs package_version_def computed_bundle_id_def computed_manifest_id_def)
  ultimately show ?thesis
    by (intro json_okI) (use lit iso in \<open>simp_all add: bundle_to_dict_def manifest_payload_def unnamed_payload_def
      jopt_def list_all_iff\<close>)
qed

lemma sample_archive_holds: "holds sample_archive sample_export"
proof -
  have "utf8_ok (json_line (bundle_to_dict sample_export))"
    by (rule utf8_ok_ascii, rule printable_byte, rule json_line_printable, rule json_ok_sample)
  moreover have "loads (json_line (bundle_to_dict sample_export)) = Some (sort_keys (JObj (bundle_to_dict sample_export)))"
    unfolding sort_keys_JObj by (rule loads_json_line [OF json_ok_sample])
  moreover have "validate_archive_envelope default_limits (map fst sample_archive) = Inr ()"
    by (simp add: archive_envelope_Inr sample_archive_def validate_archive_metadata_def default_limits_def unsafe_path_def
      starts_with_def is_symlink_def external_mode_def)
  moreover have "ob_artifacts sample_export = ob_artifacts sample_plain" by (simp add: sample_export_def renamed_def)
  then have "ob_artifacts sample_export = [\<lparr>oa_artifact_id = ''x'', oa_path = ''f.txt'', oa_kind = ''txt'',
       oa_sha256 = sha256_hex sample_content, oa_size_bytes = 3, oa_sensitivity = ''internal'', oa_derived_from = []\<rparr>]"
    by (simp add: sample_plain_def)
  ultimately show ?thesis
    unfolding holds_def
    by (auto simp: sample_archive_def member_names_def member_name_def sample_content_def simp del: sort_keys.simps)
qed

lemma sample_export_free: "acyclic (derives sample_export)" "''bundle'' \<notin> set (artifact_ids sample_export)"
  by (simp_all add: derives_def artifact_ids_def sample_export_defs acyclic_def)

lemma sample_export_named:
  "ob_manifest_id sample_export = computed_manifest_id sample_export"
  "ob_bundle_id sample_export = computed_bundle_id sample_export"
  by (simp_all add: sample_export_defs computed_manifest_id_def computed_bundle_id_def unnamed_payload_def)

lemma sample_verifies:
  "verify_bundle (\<lambda>_. Inl (ValueError ''int'')) (\<lambda>_. Inr sample_archive) ''zip'' = Inr sample_export"
  by (rule verify_holding_archive [OF sample_export_writable sample_archive_holds refl _ sample_export_named sample_export_free])
    (simp add: default_limits_def)



lemma verify_bundle_sound_witness:
  "ob_manifest_id sample_export = computed_manifest_id sample_export \<and> acyclic (derives sample_export)"
proof -
  have "verify_bundle (\<lambda>_. Inl (ValueError ''int'')) (\<lambda>_. Inr sample_archive) ''zip'' = Inr sample_export"
    by (rule sample_verifies)
  from verify_bundle_sound [OF this] show ?thesis by blast
qed

lemma disclosure_closed_witness:
  "\<exists>d ms. export_disclosed_bundle sample_export [(''artifacts/x/f.txt'', sample_content)] ''internal'' = Inr (d, ms)"
proof -
  have fs: "\<forall>a \<in> set (ob_artifacts sample_export). map_of [(''artifacts/x/f.txt'', sample_content)] (member_name a) \<noteq> None"
    by (simp add: sample_export_defs member_name_def)
  have c: "''internal'' \<in> set sensitivities" by (simp add: sensitivities_def sensitivity_order_def)
  have ok: "bundle_ok sample_export" using sample_export_writable by (simp add: writable_def)
  from disclosure_closed [OF ok c fs] show ?thesis by (elim exE conjE) (intro exI)
qed

end
