(* ===== verification/Diff.thy ===== *)
theory Diff
  imports SystemState Events Evidence "HOL-Library.Sublist"
begin

text \<open>
  \<open>domain/diff.py\<close>: the comparison of two runs. The table of the longest common subsequence is built
  row by row from the end, as the loops of \<open>_lcs_matches\<close> fill it; the walk over the table and the
  alignment by anchors follow the code, indices included.
\<close>

section \<open>Changes\<close>

record field_change =
  fc_path :: string
  fc_before :: json
  fc_after :: json

record action_change =
  ac_change_type :: string
  ac_before :: "payload option"
  ac_after :: "payload option"

record behavioral_diff =
  bd_state_changes :: "field_change list"
  bd_outcome_before :: "string option"
  bd_outcome_after :: "string option"
  bd_evidence_added :: "string list"
  bd_evidence_removed :: "string list"
  bd_action_changes :: "action_change list"

definition diff_changed :: "behavioral_diff \<Rightarrow> bool" where
  "diff_changed d =
     (bd_state_changes d \<noteq> [] \<or> bd_outcome_before d \<noteq> bd_outcome_after d \<or> bd_evidence_added d \<noteq> [] \<or>
      bd_evidence_removed d \<noteq> [] \<or> bd_action_changes d \<noteq> [])"

definition diff_risk :: "behavioral_diff \<Rightarrow> string" where
  "diff_risk d =
     (if bd_outcome_before d \<noteq> bd_outcome_after d then ''high''
      else if bd_action_changes d \<noteq> [] then
        (if list_ex (\<lambda>c. ac_change_type c \<in> {''added'', ''removed''}) (bd_action_changes d)
         then ''high'' else ''medium'')
      else if bd_state_changes d \<noteq> [] then
        (if list_ex (\<lambda>c. fc_path c \<in> {''model'', ''prompt_digest'', ''policy_digest'', ''retrieval_digest''} \<or>
             starts_with (fc_path c) ''tool_digests.'') (bd_state_changes d)
         then ''medium'' else ''low'')
      else if bd_evidence_added d \<noteq> [] \<or> bd_evidence_removed d \<noteq> [] then ''low''
      else ''none'')"

definition diff_to_dict :: "behavioral_diff \<Rightarrow> payload" where
  "diff_to_dict d = [
     (''state_changes'', JArr (map (\<lambda>c. JObj [(''path'', JStr (fc_path c)), (''before'', fc_before c),
        (''after'', fc_after c)]) (bd_state_changes d))),
     (''outcome_before'', jopt_str (bd_outcome_before d)),
     (''outcome_after'', jopt_str (bd_outcome_after d)),
     (''evidence_added'', jstrs (bd_evidence_added d)),
     (''evidence_removed'', jstrs (bd_evidence_removed d)),
     (''action_changes'', JArr (map (\<lambda>c. JObj [(''change_type'', JStr (ac_change_type c)),
        (''before'', jopt JObj (ac_before c)), (''after'', jopt JObj (ac_after c))]) (bd_action_changes d))),
     (''changed'', JBool (diff_changed d)),
     (''risk'', JStr (diff_risk d))]"

section \<open>State, evidence and outcome\<close>

definition child_changes :: "string \<Rightarrow> payload \<Rightarrow> payload \<Rightarrow> field_change list" where
  "child_changes key b a =
     map (\<lambda>child. \<lparr>fc_path = key @ ''.'' @ child, fc_before = get_or b child JNull, fc_after = get_or a child JNull\<rparr>)
       (filter (\<lambda>child. get_or b child JNull \<noteq> get_or a child JNull) (sorted_set (map fst b @ map fst a)))"

definition key_changes :: "payload \<Rightarrow> payload \<Rightarrow> string \<Rightarrow> field_change list" where
  "key_changes l r key =
     (let b = get_or l key JNull; a = get_or r key JNull in
      case (b, a) of
        (JObj bm, JObj am) \<Rightarrow> child_changes key bm am
      | _ \<Rightarrow> if b \<noteq> a then [\<lparr>fc_path = key, fc_before = b, fc_after = a\<rparr>] else [])"

definition state_changes :: "system_state \<Rightarrow> system_state \<Rightarrow> field_change list" where
  "state_changes before after =
     (let l = fingerprint_payload before; r = fingerprint_payload after in
      concat (map (key_changes l r) (sorted_set (map fst l @ map fst r))))"

definition evidence_ids :: "evidence_manifest option \<Rightarrow> string set" where
  "evidence_ids m = (case m of None \<Rightarrow> {} | Some e \<Rightarrow> set (map ei_evidence_id (em_items e)))"

text \<open>\<open>a or b\<close> on optional strings: an empty string is false.\<close>

definition or_else :: "string option \<Rightarrow> string \<Rightarrow> string" where
  "or_else v d = (case v of None \<Rightarrow> d | Some s \<Rightarrow> if s = [] then d else s)"

definition diff_outcome :: "event_envelope list option \<Rightarrow> string option" where
  "diff_outcome events =
     (case events of
        None \<Rightarrow> None
      | Some es \<Rightarrow>
          if es = [] then None
          else (case find_first (\<lambda>e. ev_event_type e = ''run.completed'') (rev es) of
              Some e \<Rightarrow> Some (or_else (map_of (ev_metadata e) ''outcome'') (or_else (ev_name e) ''completed''))
            | None \<Rightarrow>
                let terminal = last es in
                Some (or_else (map_of (ev_metadata terminal) ''outcome'')
                  (or_else (ev_name terminal) (ev_event_type terminal)))))"

section \<open>Actions\<close>

definition is_action :: "event_envelope \<Rightarrow> bool" where
  "is_action e =
     (starts_with (ev_event_type e) ''action.'' \<or> starts_with (ev_event_type e) ''decision.'' \<or>
      ev_event_type e \<in> {''tool.called'', ''tool.returned''})"

definition action_events :: "event_envelope list option \<Rightarrow> event_envelope list" where
  "action_events events = (case events of None \<Rightarrow> [] | Some es \<Rightarrow> filter is_action es)"

definition action_identity :: "event_envelope \<Rightarrow> string list" where
  "action_identity e =
     (case find_first (\<lambda>k. or_else (map_of (ev_metadata e) k) [] \<noteq> [])
         [''action_id'', ''tool_call_id'', ''decision_id'', ''event_id''] of
        Some k \<Rightarrow> [''id'', k, or_else (map_of (ev_metadata e) k) []]
      | None \<Rightarrow> [''shape'', ev_event_type e, ev_actor e, or_else (ev_state_id e) [], or_else (ev_payload_ref e) []])"

definition action_payload :: "event_envelope \<Rightarrow> payload" where
  "action_payload e = filter (\<lambda>(k, v). k \<noteq> ''sequence'' \<and> k \<noteq> ''occurred_at'') (event_to_dict e)"

section \<open>Longest common subsequences\<close>

text \<open>
  \<open>lcs_row x ys below\<close> is the row of the table for the key \<open>x\<close>, given the row below it; the table has one
  row more than keys.
\<close>

fun lcs_row :: "'k \<Rightarrow> 'k list \<Rightarrow> nat list \<Rightarrow> nat list" where
  "lcs_row x (y # ys) (b # below) =
     (let rest = lcs_row x ys below
      in (if x = y then 1 + hd below else max b (hd rest)) # rest)"
| "lcs_row x _ _ = [0]"

fun lcs_table :: "'k list \<Rightarrow> 'k list \<Rightarrow> nat list list" where
  "lcs_table [] ys = [replicate (Suc (length ys)) 0]"
| "lcs_table (x # xs) ys = (let t = lcs_table xs ys in lcs_row x ys (hd t) # t)"

function lcs_walk :: "'k list \<Rightarrow> 'k list \<Rightarrow> nat list list \<Rightarrow> nat \<Rightarrow> nat \<Rightarrow> (nat \<times> nat) list" where
  "lcs_walk xs ys t i j =
     (if i < length xs \<and> j < length ys then
        if xs ! i = ys ! j then (i, j) # lcs_walk xs ys t (i + 1) (j + 1)
        else if t ! i ! (j + 1) \<le> t ! (i + 1) ! j then lcs_walk xs ys t (i + 1) j
        else lcs_walk xs ys t i (j + 1)
      else [])"
  by pat_completeness auto

termination
  by (relation "measure (\<lambda>(xs, ys, t, i, j). (length xs - i) + (length ys - j))") auto

declare lcs_walk.simps [simp del]

definition lcs_matches :: "'k list \<Rightarrow> 'k list \<Rightarrow> (nat \<times> nat) list" where
  "lcs_matches xs ys = lcs_walk xs ys (lcs_table xs ys) 0 0"

section \<open>Alignment\<close>

type_synonym anchor = "int \<times> int"

definition anchors :: "(nat \<times> nat) list \<Rightarrow> nat \<Rightarrow> nat \<Rightarrow> anchor list" where
  "anchors ms m n = (- 1, - 1) # map (\<lambda>(i, j). (int i, int j)) ms @ [(int m, int n)]"

text \<open>\<open>xs[a:b]\<close> for \<open>0 \<le> a\<close>.\<close>

definition slice :: "int \<Rightarrow> int \<Rightarrow> 'a list \<Rightarrow> 'a list" where
  "slice a b xs = take (nat (b - a)) (drop (nat a) xs)"

text \<open>Two residues are paired position by position; the longer one is completed with \<open>None\<close>.\<close>

definition pair_up :: "'a list \<Rightarrow> 'a list \<Rightarrow> ('a option \<times> 'a option) list" where
  "pair_up l r =
     (let common = min (length l) (length r) in
      map (\<lambda>i. (Some (l ! i), Some (r ! i))) [0..<common] @
      map (\<lambda>x. (Some x, None)) (drop common l) @ map (\<lambda>x. (None, Some x)) (drop common r))"

definition align_gap :: "'a list \<Rightarrow> 'a list \<Rightarrow> anchor \<times> anchor \<Rightarrow> ('a option \<times> 'a option) list" where
  "align_gap lgap rgap = (\<lambda>((ls, rs), (le, re)).
     pair_up (slice (ls + 1) le lgap) (slice (rs + 1) re rgap) @
     (if le < int (length lgap) \<and> re < int (length rgap)
      then [(Some (lgap ! nat le), Some (rgap ! nat re))] else []))"

definition align_gaps :: "('a \<Rightarrow> 'k) \<Rightarrow> ('a \<Rightarrow> 'k) \<Rightarrow> 'a list \<Rightarrow> 'a list \<Rightarrow> ('a option \<times> 'a option) list" where
  "align_gaps lkey rkey lgap rgap =
     (let as = anchors (lcs_matches (map lkey lgap) (map rkey rgap)) (length lgap) (length rgap)
      in concat (map (align_gap lgap rgap) (zip as (tl as))))"

definition action_alignment ::
    "event_envelope list \<Rightarrow> event_envelope list \<Rightarrow> (nat option \<times> nat option) list" where
  "action_alignment left right =
     (let key = (\<lambda>e. py_repr (JObj (action_payload e)));
          as = anchors (lcs_matches (map key left) (map key right)) (length left) (length right)
      in concat (map (\<lambda>((ls, rs), (le, re)).
           align_gaps (\<lambda>i. action_identity (left ! i)) (\<lambda>i. action_identity (right ! i))
             (map nat [ls + 1..le - 1]) (map nat [rs + 1..re - 1]) @
           (if le < int (length left) \<and> re < int (length right) then [(Some (nat le), Some (nat re))] else []))
         (zip as (tl as))))"

definition change_of ::
    "event_envelope list \<Rightarrow> event_envelope list \<Rightarrow> nat option \<times> nat option \<Rightarrow> action_change list" where
  "change_of left right = (\<lambda>(l, r).
     case (l, r) of
       (None, r) \<Rightarrow> [\<lparr>ac_change_type = ''added'', ac_before = None,
                     ac_after = map_option (\<lambda>j. event_to_dict (right ! j)) r\<rparr>]
     | (Some i, None) \<Rightarrow> [\<lparr>ac_change_type = ''removed'', ac_before = Some (event_to_dict (left ! i)), ac_after = None\<rparr>]
     | (Some i, Some j) \<Rightarrow>
         if action_payload (left ! i) \<noteq> action_payload (right ! j)
         then [\<lparr>ac_change_type = ''changed'', ac_before = Some (event_to_dict (left ! i)),
                ac_after = Some (event_to_dict (right ! j))\<rparr>]
         else [])"

definition action_changes :: "event_envelope list option \<Rightarrow> event_envelope list option \<Rightarrow> action_change list" where
  "action_changes before after =
     (let left = action_events before; right = action_events after
      in concat (map (change_of left right) (action_alignment left right)))"

definition compare_runs ::
    "system_state \<Rightarrow> system_state \<Rightarrow> evidence_manifest option \<Rightarrow> evidence_manifest option \<Rightarrow>
     event_envelope list option \<Rightarrow> event_envelope list option \<Rightarrow> behavioral_diff" where
  "compare_runs bs as be ae bev aev =
     \<lparr>bd_state_changes = state_changes bs as,
      bd_outcome_before = diff_outcome bev, bd_outcome_after = diff_outcome aev,
      bd_evidence_added = sorted_list_of_set (evidence_ids ae - evidence_ids be),
      bd_evidence_removed = sorted_list_of_set (evidence_ids be - evidence_ids ae),
      bd_action_changes = action_changes bev aev\<rparr>"

section \<open>The matches are a longest common subsequence\<close>

fun lcs_length :: "'k list \<Rightarrow> 'k list \<Rightarrow> nat" where
  "lcs_length (x # xs) (y # ys) =
     (if x = y then 1 + lcs_length xs ys else max (lcs_length xs (y # ys)) (lcs_length (x # xs) ys))"
| "lcs_length _ _ = 0"

lemma lcs_length_Nil [simp]: "lcs_length xs [] = 0"
  by (cases xs) simp_all

lemma lcs_length_max: "subseq zs xs \<Longrightarrow> subseq zs ys \<Longrightarrow> length zs \<le> lcs_length xs ys"
proof (induction xs ys arbitrary: zs rule: lcs_length.induct)
  case (1 x xs y ys)
  show ?case
  proof (cases zs)
    case (Cons z zs')
    show ?thesis
    proof (cases "x = y")
      case True
      have "subseq zs' xs" "subseq zs' ys"
        using 1(4,5) Cons by (auto simp: subseq_Cons' split: if_splits elim: subseq_Cons' list_emb.cases)
      then have "length zs' \<le> lcs_length xs ys" using 1(1) [OF True] by blast
      with True Cons show ?thesis by simp
    next
      case False
      then consider "subseq zs xs" | "subseq zs ys"
        using 1(4,5) Cons by (cases "z = x") (auto elim: list_emb.cases)
      then show ?thesis
        using 1(2,3) [OF False] 1(4,5) False by cases (force simp: le_max_iff_disj)+
    qed
  qed simp
qed simp_all

lemma lcs_row_correct:
  "length below = Suc (length ys) \<Longrightarrow> (\<And>j. j \<le> length ys \<Longrightarrow> below ! j = lcs_length xs (drop j ys)) \<Longrightarrow>
    length (lcs_row x ys below) = Suc (length ys) \<and>
    (\<forall>j \<le> length ys. lcs_row x ys below ! j = lcs_length (x # xs) (drop j ys))"
proof (induction x ys below rule: lcs_row.induct)
  case (1 x y ys b below)
  have "below ! j = lcs_length xs (drop j ys)" if "j \<le> length ys" for j
    using 1(3) [of "Suc j"] that by simp
  with 1(1,2) have IH: "length (lcs_row x ys below) = Suc (length ys)"
    "\<forall>j \<le> length ys. lcs_row x ys below ! j = lcs_length (x # xs) (drop j ys)"
    by simp_all
  have "b = lcs_length xs (y # ys)" using 1(3) [of 0] by simp
  moreover have "hd below = lcs_length xs ys"
    using 1(2) 1(3) [of 1] by (cases below) simp_all
  moreover have "hd (lcs_row x ys below) = lcs_length (x # xs) ys"
    using IH by (cases "lcs_row x ys below") force+
  ultimately have "lcs_row x (y # ys) (b # below) = lcs_length (x # xs) (y # ys) # lcs_row x ys below"
    by (simp add: Let_def)
  with IH show ?case by (auto simp: nth_Cons' drop_Cons' Suc_le_eq)
qed simp_all

lemma lcs_table_correct:
  "length (lcs_table xs ys) = Suc (length xs) \<and> (\<forall>i \<le> length xs. length (lcs_table xs ys ! i) = Suc (length ys) \<and>
    (\<forall>j \<le> length ys. lcs_table xs ys ! i ! j = lcs_length (drop i xs) (drop j ys)))"
proof (induction xs)
  case Nil
  then show ?case by (simp add: nth_replicate del: replicate.simps)
next
  case (Cons x xs)
  then have "hd (lcs_table xs ys) = lcs_table xs ys ! 0" by (cases "lcs_table xs ys") simp_all
  with Cons have "length (lcs_row x ys (hd (lcs_table xs ys))) = Suc (length ys) \<and>
      (\<forall>j \<le> length ys. lcs_row x ys (hd (lcs_table xs ys)) ! j = lcs_length (x # xs) (drop j ys))"
    by (intro lcs_row_correct) auto
  with Cons show ?case by (auto simp: Let_def nth_Cons' drop_Cons' Suc_le_eq)
qed

text \<open>Pairs of positions with equal keys, increasing on both sides.\<close>

definition matching :: "'k list \<Rightarrow> 'k list \<Rightarrow> nat \<Rightarrow> nat \<Rightarrow> (nat \<times> nat) list \<Rightarrow> bool" where
  "matching xs ys i j ms =
     (sorted_wrt (\<lambda>(a, b) (c, d). a < c \<and> b < d) ms \<and>
      (\<forall>(a, b) \<in> set ms. i \<le> a \<and> a < length xs \<and> j \<le> b \<and> b < length ys \<and> xs ! a = ys ! b))"

lemma matching_weaken: "matching xs ys i j ms \<Longrightarrow> i' \<le> i \<Longrightarrow> j' \<le> j \<Longrightarrow> matching xs ys i' j' ms"
  unfolding matching_def by fastforce

lemma lcs_walk_correct:
  assumes "t = lcs_table xs ys" "i \<le> length xs" "j \<le> length ys"
  shows "matching xs ys i j (lcs_walk xs ys t i j) \<and>
    length (lcs_walk xs ys t i j) = lcs_length (drop i xs) (drop j ys)"
  using assms
proof (induction xs ys t i j rule: lcs_walk.induct)
  case (1 xs ys t i j)
  show ?case
  proof (cases "i < length xs \<and> j < length ys")
    case False
    then show ?thesis by (subst (1 2) lcs_walk.simps) (auto simp: matching_def)
  next
    case True
    then have dr: "drop i xs = xs ! i # drop (i + 1) xs" "drop j ys = ys ! j # drop (j + 1) ys"
      by (simp_all add: Cons_nth_drop_Suc)
    have t: "t ! i ! (j + 1) = lcs_length (drop i xs) (drop (j + 1) ys)"
      "t ! (i + 1) ! j = lcs_length (drop (i + 1) xs) (drop j ys)"
      using lcs_table_correct [of xs ys] 1(4) True by simp_all
    consider "xs ! i = ys ! j" | "xs ! i \<noteq> ys ! j" "t ! i ! (j + 1) \<le> t ! (i + 1) ! j"
      | "xs ! i \<noteq> ys ! j" "\<not> t ! i ! (j + 1) \<le> t ! (i + 1) ! j" by blast
    then show ?thesis
    proof cases
      case 1
      let ?ms = "lcs_walk xs ys t (i + 1) (j + 1)"
      have IH: "matching xs ys (i + 1) (j + 1) ?ms"
        "length ?ms = lcs_length (drop (i + 1) xs) (drop (j + 1) ys)"
        using "1.IH"(1) [OF True 1] "1.prems" True by simp_all
      have "matching xs ys i j ((i, j) # ?ms)"
        using IH(1) True 1 unfolding matching_def by fastforce
      moreover have "lcs_walk xs ys t i j = (i, j) # ?ms" using True 1 by (subst lcs_walk.simps) simp
      ultimately show ?thesis using IH(2) dr 1 by simp
    next
      case 2
      let ?ms = "lcs_walk xs ys t (i + 1) j"
      have "matching xs ys (i + 1) j ?ms" "length ?ms = lcs_length (drop (i + 1) xs) (drop j ys)"
        using "1.IH"(2) [OF True 2] "1.prems" True by simp_all
      moreover have "lcs_walk xs ys t i j = ?ms" using True 2 by (subst lcs_walk.simps) simp
      ultimately show ?thesis using matching_weaken [of xs ys "i + 1" j ?ms i j] dr 2 t by simp
    next
      case 3
      let ?ms = "lcs_walk xs ys t i (j + 1)"
      have "matching xs ys i (j + 1) ?ms" "length ?ms = lcs_length (drop i xs) (drop (j + 1) ys)"
        using "1.IH"(3) [OF True 3] "1.prems" True by simp_all
      moreover have "lcs_walk xs ys t i j = ?ms" using True 3 by (subst lcs_walk.simps) simp
      ultimately show ?thesis using matching_weaken [of xs ys i "j + 1" ?ms i j] dr 3 t by simp
    qed
  qed
qed

lemma lcs_matches_matching: "matching xs ys 0 0 (lcs_matches xs ys)"
  and length_lcs_matches: "length (lcs_matches xs ys) = lcs_length xs ys"
  using lcs_walk_correct [of "lcs_table xs ys" xs ys 0 0] by (simp_all add: lcs_matches_def)

section \<open>The alignment loses and reorders nothing\<close>

definition somes :: "'a option list \<Rightarrow> 'a list" where
  "somes os = concat (map (\<lambda>v. case v of None \<Rightarrow> [] | Some x \<Rightarrow> [x]) os)"

lemma somes_simps [simp]:
  "somes [] = []" "somes (None # os) = somes os" "somes (Some x # os) = x # somes os"
  "somes (os @ os') = somes os @ somes os'" "somes (map Some xs) = xs" "somes (map (\<lambda>x. None) zs) = []"
  "somes (concat oss) = concat (map somes oss)"
proof -
  show "somes (map Some xs) = xs" by (induction xs) (simp_all add: somes_def)
  show "somes (concat oss) = concat (map somes oss)" by (induction oss) (simp_all add: somes_def)
qed (simp_all add: somes_def)

abbreviation lefts :: "('a option \<times> 'b option) list \<Rightarrow> 'a list" where
  "lefts al \<equiv> somes (map fst al)"

abbreviation rights :: "('a option \<times> 'b option) list \<Rightarrow> 'b list" where
  "rights al \<equiv> somes (map snd al)"

lemma somes_map_Some [simp]: "somes (map (\<lambda>x. Some (f x)) xs) = map f xs"
  by (induction xs) simp_all

lemma map_nth_take: "n \<le> length xs \<Longrightarrow> map ((!) xs) [0..<n] = take n xs"
  by (rule nth_equalityI) simp_all

lemma pair_up_sides [simp]: "lefts (pair_up l r) = l" "rights (pair_up l r) = r"
  by (simp_all add: pair_up_def Let_def comp_def map_nth_take)

lemma slice_upto:
  assumes "- 1 \<le> a" "b \<le> int (length xs)"
  shows "slice (a + 1) b xs = map (\<lambda>i. xs ! nat i) [a + 1..b - 1]"
proof (rule nth_equalityI)
  show "length (slice (a + 1) b xs) = length (map (\<lambda>i. xs ! nat i) [a + 1..b - 1])"
    using assms by (simp add: slice_def)
  show "slice (a + 1) b xs ! k = map (\<lambda>i. xs ! nat i) [a + 1..b - 1] ! k" if "k < length (slice (a + 1) b xs)" for k
  proof -
    have k: "int k < b - (a + 1)" using that assms by (simp add: slice_def)
    have "[a + 1..b - 1] ! k = a + 1 + int k" by (rule nth_upto) (use k in simp)
    moreover have "nat (a + 1 + int k) = nat (a + 1) + k" using assms(1) by (simp add: nat_add_distrib)
    moreover have "k < length [a + 1..b - 1]" using k by simp
    ultimately show ?thesis
      using assms k by (simp only: slice_def nth_map) simp
  qed
qed

text \<open>Consecutive anchors cut a range into pieces; each piece is followed by its closing anchor, except the last.\<close>

definition increasing :: "anchor list \<Rightarrow> bool" where
  "increasing as = sorted_wrt (\<lambda>(a, b) (c, d). a < c \<and> b < d) as"

lemma cover:
  assumes "increasing ((a, b) # ms)" "\<forall>(c, d) \<in> set ms. c < m \<and> d < n" "a < m" "b < n"
  shows "concat (map (\<lambda>((ls, rs), (le, re)). map h [ls + 1..le - 1] @ (if le < m \<and> re < n then [h le] else []))
      (zip ((a, b) # ms @ [(m, n)]) (ms @ [(m, n)]))) = map h [a + 1..m - 1]"
    and "concat (map (\<lambda>((ls, rs), (le, re)). map k [rs + 1..re - 1] @ (if le < m \<and> re < n then [k re] else []))
      (zip ((a, b) # ms @ [(m, n)]) (ms @ [(m, n)]))) = map k [b + 1..n - 1]"
  using assms
proof (induction ms arbitrary: a b)
  case Nil
  { case 1 then show ?case by simp }
  { case 2 then show ?case by simp }
next
  case (Cons p ms)
  obtain c d where p: "p = (c, d)" by (cases p)
  have split: "[x + 1..z - 1] = [x + 1..y - 1] @ y # [y + 1..z - 1]" if "x < y" "y < z" for x y z :: int
    using that by (intro upto_split3) simp_all
  { case 1
    then have "increasing ((c, d) # ms)" "a < c" "c < m" "d < n" by (auto simp: increasing_def p)
    with 1 Cons.IH(1) [of c d] split [of a c m] show ?case by (simp add: p) }
  { case 2
    then have "increasing ((c, d) # ms)" "b < d" "c < m" "d < n" by (auto simp: increasing_def p)
    with 2 Cons.IH(2) [of c d] split [of b d n] show ?case by (simp add: p) }
qed

lemma anchors_increasing:
  assumes "matching xs ys 0 0 ms"
  shows "increasing ((- 1, - 1) # map (\<lambda>(i, j). (int i, int j)) ms)"
    and "\<forall>(c, d) \<in> set (map (\<lambda>(i, j). (int i, int j)) ms). c < int (length xs) \<and> d < int (length ys)"
proof -
  have "sorted_wrt (\<lambda>(a, b) (c, d). a < c \<and> b < d) (map (\<lambda>(i, j). (int i, int j)) ms)"
    using assms unfolding matching_def sorted_wrt_map by (simp add: case_prod_unfold)
  then show "increasing ((- 1, - 1) # map (\<lambda>(i, j). (int i, int j)) ms)" by (auto simp: increasing_def)
qed (use assms in \<open>auto simp: matching_def\<close>)

lemma anchor_bounds:
  assumes "matching xs ys 0 0 ms" "((ls, rs), (le, re)) \<in> set (zip as (tl as))" "as = anchors ms (length xs) (length ys)"
  shows "- 1 \<le> ls" "- 1 \<le> rs" "le \<le> int (length xs)" "re \<le> int (length ys)"
proof -
  have "(ls, rs) \<in> set as" "(le, re) \<in> set (tl as)"
    using assms(2) by (auto dest: set_zip_leftD set_zip_rightD)
  then show "- 1 \<le> ls" "- 1 \<le> rs" "le \<le> int (length xs)" "re \<le> int (length ys)"
    using assms(1,3) by (auto simp: anchors_def matching_def)
qed

lemma covered:
  fixes f :: "anchor \<times> anchor \<Rightarrow> ('a option \<times> 'b option) list"
  assumes ms: "matching xs ys 0 0 ms" and as: "as = anchors ms (length xs) (length ys)"
    and f: "\<And>ls rs le re. - 1 \<le> ls \<Longrightarrow> - 1 \<le> rs \<Longrightarrow> le \<le> int (length xs) \<Longrightarrow> re \<le> int (length ys) \<Longrightarrow>
      lefts (f ((ls, rs), (le, re))) = map h [ls + 1..le - 1] @ (if le < int (length xs) \<and> re < int (length ys) then [h le] else []) \<and>
      rights (f ((ls, rs), (le, re))) = map k [rs + 1..re - 1] @ (if le < int (length xs) \<and> re < int (length ys) then [k re] else [])"
  shows "lefts (concat (map f (zip as (tl as)))) = map h [0..int (length xs) - 1]"
    "rights (concat (map f (zip as (tl as)))) = map k [0..int (length ys) - 1]"
proof -
  let ?m = "int (length xs)" and ?n = "int (length ys)" and ?ms = "map (\<lambda>(i, j). (int i, int j)) ms"
  note c = cover [OF anchors_increasing [OF ms]]
  have side: "lefts (f p) = (case p of ((ls, rs), (le, re)) \<Rightarrow>
        map h [ls + 1..le - 1] @ (if le < ?m \<and> re < ?n then [h le] else []))"
      "rights (f p) = (case p of ((ls, rs), (le, re)) \<Rightarrow>
        map k [rs + 1..re - 1] @ (if le < ?m \<and> re < ?n then [k re] else []))"
    if "p \<in> set (zip as (tl as))" for p
  proof -
    obtain ls rs le re where p: "p = ((ls, rs), (le, re))" by (metis prod.exhaust)
    note b = anchor_bounds [OF ms that [unfolded p] as]
    show "lefts (f p) = (case p of ((ls, rs), (le, re)) \<Rightarrow>
        map h [ls + 1..le - 1] @ (if le < ?m \<and> re < ?n then [h le] else []))"
      "rights (f p) = (case p of ((ls, rs), (le, re)) \<Rightarrow>
        map k [rs + 1..re - 1] @ (if le < ?m \<and> re < ?n then [k re] else []))"
      unfolding p using f [OF b] by simp_all
  qed
  have "lefts (concat (map f (zip as (tl as)))) = concat (map (\<lambda>p. lefts (f p)) (zip as (tl as)))"
    by (simp add: map_concat comp_def)
  also have "map (\<lambda>p. lefts (f p)) (zip as (tl as)) = map (\<lambda>((ls, rs), (le, re)).
      map h [ls + 1..le - 1] @ (if le < ?m \<and> re < ?n then [h le] else [])) (zip as (tl as))"
    by (rule map_cong [OF refl]) (simp add: side(1) case_prod_unfold)
  finally show "lefts (concat (map f (zip as (tl as)))) = map h [0..?m - 1]"
    using c(1) [of h] by (simp add: as anchors_def)
  have "rights (concat (map f (zip as (tl as)))) = concat (map (\<lambda>p. rights (f p)) (zip as (tl as)))"
    by (simp add: map_concat comp_def)
  also have "map (\<lambda>p. rights (f p)) (zip as (tl as)) = map (\<lambda>((ls, rs), (le, re)).
      map k [rs + 1..re - 1] @ (if le < ?m \<and> re < ?n then [k re] else [])) (zip as (tl as))"
    by (rule map_cong [OF refl]) (simp add: side(2) case_prod_unfold)
  finally show "rights (concat (map f (zip as (tl as)))) = map k [0..?n - 1]"
    using c(2) [of k] by (simp add: as anchors_def)
qed

lemma map_nth_upto: "map (\<lambda>i. xs ! nat i) [0..int (length xs) - 1] = xs"
  by (rule nth_equalityI) (simp_all add: nth_upto)

lemma align_gaps_sides: "lefts (align_gaps lk rk l r) = l" "rights (align_gaps lk rk l r) = r"
proof -
  let ?ms = "lcs_matches (map lk l) (map rk r)"
  have ms: "matching (map lk l) (map rk r) 0 0 ?ms" by (rule lcs_matches_matching)
  note c = covered [OF ms refl, where f = "align_gap l r" and h = "\<lambda>i. l ! nat i" and k = "\<lambda>i. r ! nat i"]
  show "lefts (align_gaps lk rk l r) = l"
    unfolding align_gaps_def Let_def using c(1) by (simp add: align_gap_def slice_upto map_nth_upto)
  show "rights (align_gaps lk rk l r) = r"
    unfolding align_gaps_def Let_def using c(2) by (simp add: align_gap_def slice_upto map_nth_upto)
qed

lemma map_nat_upto: "map nat [0..int n - 1] = [0..<n]"
  by (rule nth_equalityI) (simp_all add: nth_upto)

lemma action_alignment_sides:
  "lefts (action_alignment left right) = [0..<length left]"
  "rights (action_alignment left right) = [0..<length right]"
proof -
  let ?key = "\<lambda>e. py_repr (JObj (action_payload e))"
  have ms: "matching (map ?key left) (map ?key right) 0 0 (lcs_matches (map ?key left) (map ?key right))"
    by (rule lcs_matches_matching)
  show "lefts (action_alignment left right) = [0..<length left]"
    unfolding action_alignment_def Let_def
    by (subst covered(1) [OF ms, where h = nat and k = nat]) (simp_all add: align_gaps_sides map_nat_upto)
  show "rights (action_alignment left right) = [0..<length right]"
    unfolding action_alignment_def Let_def
    by (subst covered(2) [OF ms, where h = nat and k = nat]) (simp_all add: align_gaps_sides map_nat_upto)
qed

section \<open>No change is missed and none is invented\<close>

lemma change_of_Nil: "change_of left right p = [] \<longleftrightarrow>
    (\<exists>i j. p = (Some i, Some j) \<and> action_payload (left ! i) = action_payload (right ! j))"
  by (cases p) (auto simp: change_of_def split: option.splits)

lemma unchanged_alignment:
  assumes "concat (map (change_of left right) (action_alignment left right)) = []"
  shows "map action_payload left = map action_payload right"
proof -
  let ?al = "action_alignment left right"
  have pair: "\<exists>i j. p = (Some i, Some j) \<and> action_payload (left ! i) = action_payload (right ! j)" if "p \<in> set ?al" for p
    using assms that by (auto simp: change_of_Nil [symmetric])
  define ps where "ps = map (\<lambda>p. (the (fst p), the (snd p))) ?al"
  have "map fst ?al = map (\<lambda>p. Some (fst p)) ps" "map snd ?al = map (\<lambda>p. Some (snd p)) ps"
    using pair by (fastforce simp: ps_def)+
  then have sides: "map fst ps = [0..<length left]" "map snd ps = [0..<length right]"
    using action_alignment_sides [of left right] by simp_all
  have "\<forall>q \<in> set ps. action_payload (left ! fst q) = action_payload (right ! snd q)"
    using pair by (fastforce simp: ps_def)
  then have "map (\<lambda>i. action_payload (left ! i)) (map fst ps) = map (\<lambda>j. action_payload (right ! j)) (map snd ps)"
    by simp
  moreover have "map (\<lambda>i. action_payload (xs ! i)) [0..<length xs] = map action_payload xs" for xs
    by (rule nth_equalityI) simp_all
  ultimately show ?thesis by (simp only: sides)
qed

lemma lcs_walk_diagonal: "i \<le> length ks \<Longrightarrow> lcs_walk ks ks t i i = map (\<lambda>k. (k, k)) [i..<length ks]"
proof (induction "length ks - i" arbitrary: i)
  case 0
  then show ?case by (subst lcs_walk.simps) simp
next
  case (Suc n)
  then have "i < length ks" "lcs_walk ks ks t (i + 1) (i + 1) = map (\<lambda>k. (k, k)) [i + 1..<length ks]"
    by simp_all
  then show ?case by (subst lcs_walk.simps) (simp add: upt_conv_Cons)
qed

lemma anchors_diagonal:
  "anchors (lcs_matches ks ks) n n = map (\<lambda>k. (int k - 1, int k - 1)) [0..<Suc (length ks)] @ [(int n, int n)]"
  unfolding lcs_matches_def lcs_walk_diagonal [OF le0] anchors_def
  by (rule nth_equalityI) (auto simp: nth_Cons' nth_append)

lemma align_gaps_Nil: "align_gaps lk rk [] [] = []"
  by (simp add: align_gaps_def lcs_matches_def lcs_walk.simps anchors_def align_gap_def slice_def pair_up_def)

lemma aligned_diagonal:
  assumes "map action_payload left = map action_payload right" "p \<in> set (action_alignment left right)"
  shows "\<exists>i < length left. p = (Some i, Some i)"
proof -
  let ?key = "\<lambda>e. py_repr (JObj (action_payload e))" and ?n = "length left"
  have len: "length right = ?n" using map_eq_imp_length_eq [OF assms(1)] by simp
  have "map ?key left = map (\<lambda>d. py_repr (JObj d)) (map action_payload left)" by simp
  then have keys: "map ?key right = map ?key left" using assms(1) by simp
  define as where "as = anchors (lcs_matches (map ?key left) (map ?key left)) ?n ?n"
  have as: "as = map (\<lambda>k. (int k - 1, int k - 1)) [0..<Suc ?n] @ [(int ?n, int ?n)]"
    unfolding as_def anchors_diagonal by simp
  obtain q where q: "q \<in> set (zip as (tl as))" and p: "p \<in> set (case q of ((ls, rs), (le, re)) \<Rightarrow>
      align_gaps (\<lambda>i. action_identity (left ! i)) (\<lambda>i. action_identity (right ! i))
        (map nat [ls + 1..le - 1]) (map nat [rs + 1..re - 1]) @
      (if le < int ?n \<and> re < int ?n then [(Some (nat le), Some (nat re))] else []))"
    using assms(2) unfolding action_alignment_def Let_def keys len as_def by auto
  from q obtain k where k: "k < length (tl as)" "q = (as ! k, tl as ! k)"
    by (auto simp: set_zip)
  then have "k \<le> ?n" by (simp add: as)
  then have "as ! k = (int k - 1, int k - 1)" "tl as ! k = (int k, int k)"
    using k(1) by (auto simp: as nth_append nth_tl less_Suc_eq)
  with k(2) p have "p \<in> set (if k < ?n then [(Some k, Some k)] else [])"
    by (simp add: align_gaps_Nil)
  then show ?thesis by (auto split: if_splits)
qed

lemma action_changes_Nil:
  "action_changes b a = [] \<longleftrightarrow> map action_payload (action_events b) = map action_payload (action_events a)"
proof
  show "map action_payload (action_events b) = map action_payload (action_events a)" if "action_changes b a = []"
    using unchanged_alignment that by (simp add: action_changes_def Let_def)
next
  assume same: "map action_payload (action_events b) = map action_payload (action_events a)"
  have "change_of (action_events b) (action_events a) p = []"
    if "p \<in> set (action_alignment (action_events b) (action_events a))" for p
  proof -
    obtain i where i: "i < length (action_events b)" "p = (Some i, Some i)"
      using aligned_diagonal [OF same \<open>p \<in> _\<close>] by blast
    have "map action_payload (action_events b) ! i = map action_payload (action_events a) ! i" by (simp only: same)
    then have "action_payload (action_events b ! i) = action_payload (action_events a ! i)"
      using i(1) map_eq_imp_length_eq [OF same] by simp
    then show ?thesis unfolding change_of_Nil i(2) by blast
  qed
  then show "action_changes b a = []" by (simp add: action_changes_def Let_def)
qed

lemma get_or_jdict: "get_or (map (\<lambda>(k, v). (k, JStr v)) d) c JNull = jopt_str (map_of d c)"
  by (simp add: get_or_def jopt_str_def map_of_map split: option.splits)

lemma child_changes_Nil:
  assumes "child_changes key (map (\<lambda>(k, v). (k, JStr v)) d) (map (\<lambda>(k, v). (k, JStr v)) e) = []"
  shows "map_of d = map_of e"
proof
  fix c
  let ?j = "map (\<lambda>(k, v). (k, JStr v))"
  show "map_of d c = map_of e c"
  proof (cases "c \<in> set (map fst (?j d) @ map fst (?j e))")
    case True
    then have "get_or (?j d) c JNull = get_or (?j e) c JNull"
      using assms by (auto simp: child_changes_def filter_empty_conv simp del: map_append)
    then show ?thesis by (simp add: get_or_jdict)
  next
    case False
    then have "map_of d c = None" "map_of e c = None"
      unfolding map_fst_case by (auto simp: map_of_eq_None_iff)
    then show ?thesis by simp
  qed
qed

lemma key_changes_str:
  "key_changes l r k = [] \<Longrightarrow> get_or l k JNull = JStr v \<Longrightarrow> get_or r k JNull = JStr w \<Longrightarrow> v = w"
  by (simp add: key_changes_def Let_def split: if_splits)

lemma key_changes_jopt:
  "key_changes l r k = [] \<Longrightarrow> get_or l k JNull = jopt_str v \<Longrightarrow> get_or r k JNull = jopt_str w \<Longrightarrow> v = w"
  by (cases v; cases w) (simp_all add: key_changes_def jopt_str_def Let_def split: if_splits)

lemma state_changes_Nil:
  assumes "dict_ok (ss_tool_digests s)" "dict_ok (ss_tool_digests t)"
  shows "state_changes s t = [] \<longleftrightarrow> fingerprint_payload s = fingerprint_payload t"
proof
  assume "fingerprint_payload s = fingerprint_payload t"
  moreover have "key_changes l l key = []" for l key
    by (auto simp: key_changes_def child_changes_def Let_def split: json.splits)
  ultimately show "state_changes s t = []" by (simp add: state_changes_def Let_def)
next
  assume none: "state_changes s t = []"
  let ?l = "fingerprint_payload s" and ?r = "fingerprint_payload t"
  have key: "key_changes ?l ?r key = []" if "key \<in> set (map fst ?l)" for key
    using none that by (auto simp: state_changes_def Let_def)
  have tools: "map_of (sorted_items (ss_tool_digests s)) = map_of (sorted_items (ss_tool_digests t))"
    using key [of "''tool_digests''"]
    by (intro child_changes_Nil [of "''tool_digests''"])
      (simp add: key_changes_def fingerprint_payload_def get_or_def jdict_def Let_def)
  have "sorted_items (ss_tool_digests s) = sorted_items (ss_tool_digests t)"
    using tools assms by (simp add: sorted_items_dict_eq dict_eq_iff dict_ok_def)
  moreover have "ss_agent_version s = ss_agent_version t"
    by (rule key_changes_str [OF key [of "''agent_version''"]]) (simp_all add: fingerprint_payload_def get_or_def)
  moreover have "ss_model s = ss_model t"
    by (rule key_changes_str [OF key [of "''model''"]]) (simp_all add: fingerprint_payload_def get_or_def)
  moreover have "ss_prompt_digest s = ss_prompt_digest t"
    by (rule key_changes_str [OF key [of "''prompt_digest''"]]) (simp_all add: fingerprint_payload_def get_or_def)
  moreover have "ss_retrieval_digest s = ss_retrieval_digest t"
    by (rule key_changes_jopt [OF key [of "''retrieval_digest''"]]) (simp_all add: fingerprint_payload_def get_or_def)
  moreover have "ss_memory_digest s = ss_memory_digest t"
    by (rule key_changes_jopt [OF key [of "''memory_digest''"]]) (simp_all add: fingerprint_payload_def get_or_def)
  moreover have "ss_policy_digest s = ss_policy_digest t"
    by (rule key_changes_jopt [OF key [of "''policy_digest''"]]) (simp_all add: fingerprint_payload_def get_or_def)
  ultimately show "?l = ?r" by (simp add: fingerprint_payload_def)
qed

section \<open>Properties\<close>

text \<open>
  C23: the matches are a longest common subsequence: they pair positions with equal keys, increase strictly
  on both sides, and no common subsequence of the two key sequences is longer.
\<close>

theorem lcs_matches_optimal:
  "matching xs ys 0 0 (lcs_matches xs ys) \<and>
   map (\<lambda>(i, j). xs ! i) (lcs_matches xs ys) = map (\<lambda>(i, j). ys ! j) (lcs_matches xs ys) \<and>
   \<not> (\<exists>zs. subseq zs xs \<and> subseq zs ys \<and> length (lcs_matches xs ys) < length zs)"
proof -
  have m: "matching xs ys 0 0 (lcs_matches xs ys)" by (rule lcs_matches_matching)
  then have "map (\<lambda>(i, j). xs ! i) (lcs_matches xs ys) = map (\<lambda>(i, j). ys ! j) (lcs_matches xs ys)"
    unfolding matching_def by (intro map_cong refl) auto
  moreover have "\<not> length (lcs_matches xs ys) < length zs" if "subseq zs xs" "subseq zs ys" for zs
    using lcs_length_max [OF that] by (simp add: length_lcs_matches)
  ultimately show ?thesis using m by blast
qed

text \<open>
  The alignment of two action sequences loses, repeats and reorders nothing: its left components are
  exactly the positions of the left sequence in order, its right components those of the right one.
\<close>

theorem action_alignment_lossless:
  "lefts (action_alignment left right) = [0..<length left] \<and>
   rights (action_alignment left right) = [0..<length right]"
  by (simp add: action_alignment_sides)

text \<open>
  A comparison reports a change exactly when there is one: it is unchanged if and only if the
  fingerprint payloads of the two states, the outcomes, the sets of evidence and the sequences of action
  contents, apart from position and time, all agree; and its risk is \<open>none\<close> exactly then.
\<close>

theorem compare_runs_complete:
  assumes "system_state_ok bs" and "system_state_ok as"
  shows "(diff_changed (compare_runs bs as be ae bev aev) \<longleftrightarrow>
      \<not> (fingerprint_payload bs = fingerprint_payload as \<and> diff_outcome bev = diff_outcome aev \<and>
         evidence_ids be = evidence_ids ae \<and>
         map action_payload (action_events bev) = map action_payload (action_events aev))) \<and>
    (diff_risk (compare_runs bs as be ae bev aev) = ''none'' \<longleftrightarrow> \<not> diff_changed (compare_runs bs as be ae bev aev))"
proof -
  have fin: "finite (evidence_ids m)" for m by (simp add: evidence_ids_def split: option.splits)
  have "diff_changed (compare_runs bs as be ae bev aev) \<longleftrightarrow>
      \<not> (fingerprint_payload bs = fingerprint_payload as \<and> diff_outcome bev = diff_outcome aev \<and>
         evidence_ids be = evidence_ids ae \<and>
         map action_payload (action_events bev) = map action_payload (action_events aev))"
    using state_changes_Nil [of bs as] assms fin
    by (auto simp: diff_changed_def compare_runs_def action_changes_Nil system_state_ok_def)
  moreover have "diff_risk d = ''none'' \<longleftrightarrow> \<not> diff_changed d" for d
    by (auto simp: diff_risk_def diff_changed_def)
  ultimately show ?thesis by blast
qed

lemma compare_runs_complete_witness:
  "\<not> diff_changed (compare_runs sample_state sample_state None None None None)"
  using compare_runs_complete [OF sample_state_ok sample_state_ok, of None None None None] by simp

end
