(* ===== verification/Incident.thy ===== *)
theory Incident
  imports ReliabilityEvidence
begin

text \<open>
  \<open>domain/security_incident.py\<close>: incident evidence, its lifecycle, identity, digest and timeline. The
  lifecycle statuses are strings in the code; \<open>status_order\<close> maps them to the phases, which are linearly
  ordered as \<open>_STATUS_ORDER\<close> ranks them.
\<close>

section \<open>The phases of an incident\<close>

datatype phase = Detected | Preserved | Contained | Assessed | Recovered | Reverified

fun phase_rank :: "phase \<Rightarrow> nat" where
  "phase_rank Detected = 0"
| "phase_rank Preserved = 1"
| "phase_rank Contained = 2"
| "phase_rank Assessed = 3"
| "phase_rank Recovered = 4"
| "phase_rank Reverified = 5"

lemma phase_rank_inject [simp]: "phase_rank p = phase_rank q \<longleftrightarrow> p = q"
  by (cases p; cases q) simp_all

instantiation phase :: linorder
begin

definition less_eq_phase :: "phase \<Rightarrow> phase \<Rightarrow> bool" where
  "less_eq_phase p q = (phase_rank p \<le> phase_rank q)"

definition less_phase :: "phase \<Rightarrow> phase \<Rightarrow> bool" where
  "less_phase p q = (phase_rank p < phase_rank q)"

instance
  by standard (auto simp: less_eq_phase_def less_phase_def)

end

definition status_order :: "(string, phase) dict" where
  "status_order = [(''detected'', Detected), (''preserved'', Preserved), (''contained'', Contained),
     (''assessed'', Assessed), (''recovered'', Recovered), (''reverified'', Reverified)]"

definition validate_status :: "string \<Rightarrow> unit result" where
  "validate_status s = guards [(map_of status_order s = None, ValueError ''incident status'')]"

definition validate_time :: "datetime \<Rightarrow> string \<Rightarrow> unit result" where
  "validate_time t name = guards [(\<not> tz_aware t, ValueError name)]"

text \<open>The digest of the detection context, which is also \<open>deterministic_identity\<close>.\<close>

definition detection_payload :: "string \<Rightarrow> datetime \<Rightarrow> string \<Rightarrow> string \<Rightarrow> payload" where
  "detection_payload event_id detected_at actor category = [
     (''event_id'', JStr event_id),
     (''detected_at'', JStr (utc_iso detected_at)),
     (''actor'', JStr actor),
     (''category'', JStr category)]"

definition derive_incident_id :: "string \<Rightarrow> datetime \<Rightarrow> string \<Rightarrow> string \<Rightarrow> string result" where
  "derive_incident_id event_id detected_at actor category =
     bindE (guards [
       (blank event_id, ValueError ''event_id''),
       (blank actor, ValueError ''actor''),
       (blank category, ValueError ''category'')]) (\<lambda>_.
     bindE (validate_time detected_at ''detected_at'') (\<lambda>_.
     Inr (digest_of (detection_payload event_id detected_at actor category))))"

section \<open>Evidence of an incident\<close>

record incident_ref =
  ir_kind :: string
  ir_identity :: string
  ir_digest :: string
  ir_source :: "string option"

definition incident_ref_post_init :: "incident_ref \<Rightarrow> unit result" where
  "incident_ref_post_init r = guards [
     (blank (ir_kind r) \<or> blank (ir_identity r), ValueError ''kind, identity''),
     (\<not> is_sha256 (ir_digest r), ValueError ''digest''),
     (blank_if_given (ir_source r), ValueError ''source'')]"

definition incident_ref_to_dict :: "incident_ref \<Rightarrow> payload" where
  "incident_ref_to_dict r = [
     (''kind'', JStr (ir_kind r)),
     (''identity'', JStr (ir_identity r)),
     (''digest'', JStr (ir_digest r)),
     (''source'', jopt_str (ir_source r))]"

definition bind_existing_evidence_reference :: "evidence_reference \<Rightarrow> incident_ref result" where
  "bind_existing_evidence_reference r = construct incident_ref_post_init
     \<lparr>ir_kind = er_kind r, ir_identity = er_identity r, ir_digest = er_digest r, ir_source = er_source r\<rparr>"

record affected_state =
  as_state_id :: string
  as_state_digest :: string
  as_trust_context :: string
  as_window_start :: "datetime option"
  as_window_end :: "datetime option"

definition optional_time :: "datetime option \<Rightarrow> string \<Rightarrow> unit result" where
  "optional_time t name = (case t of None \<Rightarrow> Inr () | Some d \<Rightarrow> validate_time d name)"

definition affected_state_post_init :: "affected_state \<Rightarrow> unit result" where
  "affected_state_post_init s =
     bindE (guards [
       (blank (as_state_id s), ValueError ''state_id''),
       (blank (as_trust_context s), ValueError ''trust_context''),
       (\<not> is_sha256 (as_state_digest s), ValueError ''state_digest''),
       ((as_window_start s = None) \<noteq> (as_window_end s = None), ValueError ''both endpoints'')]) (\<lambda>_.
     bindE (optional_time (as_window_start s) ''affected_window_start'') (\<lambda>_.
     bindE (optional_time (as_window_end s) ''affected_window_end'') (\<lambda>_.
     guards [(case (as_window_start s, as_window_end s) of
         (Some a, Some b) \<Rightarrow> instant b < instant a | _ \<Rightarrow> False, ValueError ''end precedes start'')])))"

definition jopt_time :: "datetime option \<Rightarrow> json" where
  "jopt_time t = jopt_str (map_option utc_iso t)"

definition affected_state_to_dict :: "affected_state \<Rightarrow> payload" where
  "affected_state_to_dict s = [
     (''state_id'', JStr (as_state_id s)),
     (''state_digest'', JStr (as_state_digest s)),
     (''trust_context'', JStr (as_trust_context s)),
     (''affected_window_start'', jopt_time (as_window_start s)),
     (''affected_window_end'', jopt_time (as_window_end s))]"

record key_impact =
  ki_key_identity :: string
  ki_version :: string
  ki_attestation_ids :: "string list"
  ki_evidence :: "incident_ref list"
  ki_exposure_start :: datetime
  ki_exposure_end :: "datetime option"

definition key_impact_post_init :: "key_impact \<Rightarrow> unit result" where
  "key_impact_post_init k =
     bindE (guards [
       (blank (ki_key_identity k), ValueError ''key_identity''),
       (blank (ki_version k), ValueError ''affected_key_version''),
       (list_ex blank (ki_attestation_ids k), ValueError ''attestation IDs'')]) (\<lambda>_.
     bindE (validate_time (ki_exposure_start k) ''exposure_start'') (\<lambda>_.
     (case ki_exposure_end k of
        None \<Rightarrow> Inr ()
      | Some e \<Rightarrow> bindE (validate_time e ''exposure_end'') (\<lambda>_.
          guards [(instant e < instant (ki_exposure_start k), ValueError ''exposure_end precedes'')]))))"

definition jrefs :: "incident_ref list \<Rightarrow> json" where
  "jrefs rs = JArr (map (\<lambda>r. JObj (incident_ref_to_dict r)) rs)"

definition key_impact_to_dict :: "key_impact \<Rightarrow> payload" where
  "key_impact_to_dict k = [
     (''key_identity'', JStr (ki_key_identity k)),
     (''affected_key_version'', JStr (ki_version k)),
     (''affected_attestation_ids'', jstrs (ki_attestation_ids k)),
     (''affected_evidence'', jrefs (ki_evidence k)),
     (''exposure_start'', JStr (utc_iso (ki_exposure_start k))),
     (''exposure_end'', jopt_time (ki_exposure_end k))]"

record recovery =
  re_recovery_id :: string
  re_evidence_ref :: incident_ref
  re_actor :: string
  re_source_incident_id :: string
  re_status :: string

definition recovery_post_init :: "recovery \<Rightarrow> unit result" where
  "recovery_post_init r = guards [
     (blank (re_recovery_id r), ValueError ''recovery_id''),
     (blank (re_actor r), ValueError ''actor''),
     (blank (re_source_incident_id r), ValueError ''source_incident_id''),
     (re_status r \<notin> {''planned'', ''applied'', ''failed''}, ValueError ''recovery status''),
     (re_status r = ''applied'' \<and> blank (re_source_incident_id r), ValueError ''source incident'')]"

definition recovery_to_dict :: "recovery \<Rightarrow> payload" where
  "recovery_to_dict r = [
     (''recovery_id'', JStr (re_recovery_id r)),
     (''evidence_ref'', JObj (incident_ref_to_dict (re_evidence_ref r))),
     (''actor'', JStr (re_actor r)),
     (''source_incident_id'', JStr (re_source_incident_id r)),
     (''status'', JStr (re_status r))]"

record post_recovery =
  po_verification_id :: string
  po_evidence_refs :: "incident_ref list"
  po_actor :: string
  po_status :: string
  po_performed_at :: datetime

definition post_recovery_post_init :: "post_recovery \<Rightarrow> unit result" where
  "post_recovery_post_init p =
     bindE (guards [
       (blank (po_verification_id p) \<or> blank (po_actor p), ValueError ''verification_id, actor''),
       (po_status p \<notin> {''verified'', ''failed'', ''unknown''}, ValueError ''post-recovery status''),
       (po_evidence_refs p = [], ValueError ''evidence refs'')]) (\<lambda>_.
     validate_time (po_performed_at p) ''performed_at'')"

definition post_recovery_to_dict :: "post_recovery \<Rightarrow> payload" where
  "post_recovery_to_dict p = [
     (''verification_id'', JStr (po_verification_id p)),
     (''evidence_refs'', jrefs (po_evidence_refs p)),
     (''actor'', JStr (po_actor p)),
     (''status'', JStr (po_status p)),
     (''performed_at'', JStr (utc_iso (po_performed_at p)))]"

section \<open>The incident record\<close>

record incident =
  in_incident_id :: string
  in_event_id :: string
  in_detected_at :: datetime
  in_actor :: string
  in_category :: string
  in_status :: string
  in_evidence_refs :: "incident_ref list"
  in_affected_states :: "affected_state list"
  in_event_digests :: "string list"
  in_uncertainty :: "string list"
  in_key_compromise :: "key_impact option"
  in_recovery :: "recovery option"
  in_post_recovery :: "post_recovery option"
  in_digest :: string

definition incident_payload :: "incident \<Rightarrow> payload" where
  "incident_payload i = [
     (''incident_id'', JStr (in_incident_id i)),
     (''event_id'', JStr (in_event_id i)),
     (''detected_at'', JStr (utc_iso (in_detected_at i))),
     (''actor'', JStr (in_actor i)),
     (''category'', JStr (in_category i)),
     (''status'', JStr (in_status i)),
     (''evidence_refs'', jrefs (in_evidence_refs i)),
     (''affected_states'', JArr (map (\<lambda>s. JObj (affected_state_to_dict s)) (in_affected_states i))),
     (''security_event_digests'', jstrs (in_event_digests i)),
     (''uncertainty'', jstrs (in_uncertainty i)),
     (''key_compromise'', jopt (\<lambda>k. JObj (key_impact_to_dict k)) (in_key_compromise i)),
     (''recovery'', jopt (\<lambda>r. JObj (recovery_to_dict r)) (in_recovery i)),
     (''post_recovery'', jopt (\<lambda>p. JObj (post_recovery_to_dict p)) (in_post_recovery i))]"

definition incident_digest :: "incident \<Rightarrow> string" where
  "incident_digest i = digest_of (incident_payload i)"

definition deterministic_identity :: "incident \<Rightarrow> string" where
  "deterministic_identity i =
     digest_of (detection_payload (in_event_id i) (in_detected_at i) (in_actor i) (in_category i))"

definition incident_to_dict :: "incident \<Rightarrow> payload" where
  "incident_to_dict i =
     [(''format_version'', JStr ''1'')] @ incident_payload i @ [(''incident_digest'', JStr (incident_digest i))]"

definition incident_post_init :: "incident \<Rightarrow> unit result" where
  "incident_post_init i =
     bindE (guards [
       (blank (in_incident_id i), ValueError ''incident_id''),
       (blank (in_event_id i), ValueError ''event_id''),
       (blank (in_actor i), ValueError ''actor''),
       (blank (in_category i), ValueError ''category'')]) (\<lambda>_.
     bindE (validate_time (in_detected_at i) ''detected_at'') (\<lambda>_.
     bindE (validate_status (in_status i)) (\<lambda>_.
     bindE (guards [
       (in_evidence_refs i = [], ValueError ''evidence ref''),
       (list_ex blank (in_uncertainty i), ValueError ''uncertainty'')]) (\<lambda>_.
     bindE (derive_incident_id (in_event_id i) (in_detected_at i) (in_actor i) (in_category i)) (\<lambda>expected.
     guards [
       (in_incident_id i \<noteq> expected, ValueError ''deterministic identity''),
       (list_ex (\<lambda>d. \<not> is_sha256 d) (in_event_digests i), ValueError ''security_event_digest''),
       (in_status i \<in> {''preserved'', ''contained'', ''assessed'', ''recovered'', ''reverified''} \<and>
          in_evidence_refs i = [], ValueError ''preserved evidence''),
       (in_status i \<in> {''recovered'', ''reverified''} \<and> in_recovery i = None, ValueError ''recovery evidence''),
       (in_status i = ''reverified'' \<and> in_post_recovery i = None, ValueError ''post-recovery verification''),
       (in_status i = ''reverified'' \<and> map_option po_status (in_post_recovery i) \<noteq> Some ''verified'',
          ValueError ''verified post-recovery''),
       (case in_recovery i of None \<Rightarrow> False | Some r \<Rightarrow> re_source_incident_id r \<noteq> in_incident_id i,
          ValueError ''bind to this incident''),
       (in_digest i \<noteq> [] \<and> in_digest i \<noteq> incident_digest i, ValueError ''digest mismatch'')])))))"

definition verify_forensic_continuity :: "incident \<Rightarrow> unit result" where
  "verify_forensic_continuity i =
     (let referenced = set (map ir_identity (in_evidence_refs i)) in
      bindE (guards [
        (in_status i \<noteq> ''reverified'', ValueError ''reverified''),
        (map_option po_status (in_post_recovery i) \<noteq> Some ''verified'', ValueError ''post-recovery''),
        (map_option re_status (in_recovery i) \<noteq> Some ''applied'', ValueError ''applied recovery'')]) (\<lambda>_.
      (case (in_recovery i, in_post_recovery i) of
         (Some r, Some p) \<Rightarrow> guards [
           (ir_identity (re_evidence_ref r) \<notin> referenced, ValueError ''recovery evidence outside''),
           (list_ex (\<lambda>v. ir_identity v \<notin> referenced) (po_evidence_refs p), ValueError ''verification evidence outside'')]
       | _ \<Rightarrow> Inr ())))"

section \<open>Timelines and reconstruction\<close>

record timeline =
  tl_incident_id :: string
  tl_entries :: "(string \<times> datetime) list"

text \<open>The loop carries the previous phase and time.\<close>

definition timeline_step :: "string \<times> datetime \<Rightarrow> (phase \<times> datetime) option \<Rightarrow> (phase \<times> datetime) option result" where
  "timeline_step e previous =
     (case map_of status_order (fst e) of
        None \<Rightarrow> Inl (KeyError (fst e))
      | Some p \<Rightarrow>
          bindE (validate_time (snd e) ''timeline timestamp'') (\<lambda>_.
          bindE (guards (case previous of
              None \<Rightarrow> []
            | Some (q, t) \<Rightarrow> [
                (p \<le> q, ValueError ''statuses must advance''),
                (instant (snd e) < instant t, ValueError ''timestamps must be monotonic'')])) (\<lambda>_.
          Inr (Some (p, snd e)))))"

definition timeline_post_init :: "timeline \<Rightarrow> unit result" where
  "timeline_post_init t =
     bindE (guards [(blank (tl_incident_id t), ValueError ''incident_id'')]) (\<lambda>_.
     bindE (foldE timeline_step (tl_entries t) None) (\<lambda>_. Inr ()))"

definition build_incident_timeline ::
    "incident \<Rightarrow> datetime \<Rightarrow> datetime option \<Rightarrow> datetime option \<Rightarrow> datetime option \<Rightarrow> datetime option \<Rightarrow>
     timeline result" where
  "build_incident_timeline i preserved_at contained_at assessed_at recovered_at reverified_at =
     construct timeline_post_init
       \<lparr>tl_incident_id = in_incident_id i,
        tl_entries = [(''detected'', in_detected_at i), (''preserved'', preserved_at)] @
          concat (map (\<lambda>(s, t). case t of None \<Rightarrow> [] | Some d \<Rightarrow> [(s, d)])
            [(''contained'', contained_at), (''assessed'', assessed_at), (''recovered'', recovered_at), (''reverified'', reverified_at)])\<rparr>"

definition missing_evidence :: "incident \<Rightarrow> string set \<Rightarrow> string list" where
  "missing_evidence i available =
     sort (filter (\<lambda>x. x \<notin> available) (map ir_identity (in_evidence_refs i)))"

definition reconstruct_security_state :: "incident \<Rightarrow> string set \<Rightarrow> payload" where
  "reconstruct_security_state i available = [
     (''incident_id'', JStr (in_incident_id i)),
     (''security_event_digests'', jstrs (in_event_digests i)),
     (''affected_state_ids'', jstrs (map as_state_id (in_affected_states i))),
     (''missing_evidence'', jstrs (missing_evidence i available)),
     (''complete'', JBool (missing_evidence i available = [] \<and> in_status i = ''reverified'')),
     (''causality_established'', JBool False)]"

section \<open>Facts\<close>

lemma validate_time_Inr [simp]: "validate_time t n = Inr u \<longleftrightarrow> tz_aware t"
  by (simp add: validate_time_def)

lemma derive_incident_id_Inr: "derive_incident_id e t a c = Inr x \<longleftrightarrow>
    \<not> blank e \<and> \<not> blank a \<and> \<not> blank c \<and> tz_aware t \<and> x = digest_of (detection_payload e t a c)"
  by (auto simp: derive_incident_id_def bindE_eq_Inr_iff)

lemma incident_facts:
  assumes "incident_post_init i = Inr ()"
  shows "tz_aware (in_detected_at i)" "in_incident_id i = deterministic_identity i" "in_evidence_refs i \<noteq> []"
    and "in_recovery i = Some r \<Longrightarrow> re_source_incident_id r = in_incident_id i"
    and "in_status i \<in> {''recovered'', ''reverified''} \<Longrightarrow> in_recovery i \<noteq> None"
    and "in_status i = ''reverified'' \<Longrightarrow> map_option po_status (in_post_recovery i) = Some ''verified''"
    and "in_digest i = [] \<or> in_digest i = incident_digest i"
  using assms unfolding incident_post_init_def bindE_eq_Inr_iff derive_incident_id_Inr deterministic_identity_def
  by auto

lemma utc_iso_inject:
  assumes "tz_aware s" "tz_aware t" "dt_ok s" "dt_ok t" "utc_iso s = utc_iso t"
  shows "s = t"
proof -
  obtain a b where ab: "s = Aware a" "t = Aware b" using assms(1,2) by (cases s; cases t) auto
  have "parse_datetime (utc_iso s) [] = Inr s" "parse_datetime (utc_iso t) [] = Inr t"
    using assms(3,4) by (auto simp: ab dt_ok_def intro: parse_datetime_utc_iso)
  then have "(Inr s :: datetime result) = Inr t" unfolding assms(5) by simp
  then show ?thesis by simp
qed

lemma json_ok_detection: "json_ok (\<lambda>s. True) (JObj (detection_payload e t a c))"
  by (simp add: detection_payload_def)

fun advancing :: "phase \<times> datetime \<Rightarrow> (phase \<times> datetime) list \<Rightarrow> bool" where
  "advancing q [] = True"
| "advancing q (p # ps) = (fst q < fst p \<and> instant (snd q) \<le> instant (snd p) \<and> advancing p ps)"

lemma advancing_sorted:
  "advancing q ps \<longleftrightarrow> sorted_wrt (<) (map fst (q # ps)) \<and> sorted (map (\<lambda>p. instant (snd p)) (q # ps))"
proof (induction ps arbitrary: q)
  case (Cons p ps)
  then show ?case by (auto intro: less_trans order_trans)
qed simp

definition known_entry :: "string \<times> datetime \<Rightarrow> bool" where
  "known_entry e = (map_of status_order (fst e) \<noteq> None \<and> tz_aware (snd e))"

definition phased :: "(string \<times> datetime) list \<Rightarrow> (phase \<times> datetime) list" where
  "phased es = map (\<lambda>(s, t). (the (map_of status_order s), t)) es"

lemma timeline_fold:
  "is_ok (foldE timeline_step es (Some q)) \<longleftrightarrow> list_all known_entry es \<and> advancing q (phased es)"
proof (induction es arbitrary: q)
  case (Cons e es)
  obtain s t where e: "e = (s, t)" by (cases e)
  show ?case
  proof (cases "map_of status_order s")
    case None
    then show ?thesis by (simp add: e timeline_step_def known_entry_def)
  next
    case (Some p)
    have "is_ok (foldE timeline_step (e # es) (Some q)) \<longleftrightarrow> tz_aware t \<and> fst q < p \<and> instant (snd q) \<le> instant t \<and>
        is_ok (foldE timeline_step es (Some (p, t)))"
      by (cases q) (auto simp: e Some timeline_step_def validate_time_def guards.simps not_le not_less)
    then show ?thesis using Cons.IH [of "(p, t)"] by (auto simp: e Some known_entry_def phased_def)
  qed
qed (simp add: phased_def)

section \<open>Properties\<close>

text \<open>
  A timeline is accepted exactly when its statuses are lifecycle statuses that advance strictly through
  the phases and its timestamps are offset-aware and never go back: no phase is entered twice and none
  after a later one.
\<close>

theorem timeline_iff:
  "timeline_post_init t = Inr () \<longleftrightarrow>
    \<not> blank (tl_incident_id t) \<and> list_all known_entry (tl_entries t) \<and>
    sorted_wrt (<) (map fst (phased (tl_entries t))) \<and>
    sorted (map (\<lambda>p. instant (snd p)) (phased (tl_entries t)))"
proof -
  have ok: "timeline_post_init t = Inr () \<longleftrightarrow> \<not> blank (tl_incident_id t) \<and> is_ok (foldE timeline_step (tl_entries t) None)"
    by (auto simp: timeline_post_init_def bindE_eq_Inr_iff is_ok_iff)
  show ?thesis
  proof (cases "tl_entries t")
    case Nil
    then show ?thesis by (simp add: ok phased_def)
  next
    case (Cons e es)
    obtain s d where e: "e = (s, d)" by (cases e)
    show ?thesis
    proof (cases "map_of status_order s")
      case None
      then show ?thesis by (simp add: ok Cons e timeline_step_def known_entry_def)
    next
      case (Some p)
      have "is_ok (foldE timeline_step (tl_entries t) None) \<longleftrightarrow> tz_aware d \<and> is_ok (foldE timeline_step es (Some (p, d)))"
        by (auto simp: Cons e Some timeline_step_def validate_time_def guards.simps)
      moreover have "phased (tl_entries t) = (p, d) # phased es" by (simp add: Cons e phased_def Some)
      ultimately show ?thesis
        unfolding ok timeline_fold advancing_sorted by (auto simp: Cons e known_entry_def Some)
    qed
  qed
qed

text \<open>
  Two incidents with one identity describe one detection: the same event, instant, actor and category,
  unless their detection contexts exhibit a collision of SHA-256. So an incident record cannot be moved to
  another detection and keep its identity.
\<close>

theorem incident_identity_binds:
  assumes "incident_post_init i = Inr ()" "incident_post_init j = Inr ()"
    and "dt_ok (in_detected_at i)" "dt_ok (in_detected_at j)"
    and "in_incident_id i = in_incident_id j"
  shows "(in_event_id i = in_event_id j \<and> in_detected_at i = in_detected_at j \<and> in_actor i = in_actor j \<and>
      in_category i = in_category j) \<or>
    digest_collision (detection_payload (in_event_id i) (in_detected_at i) (in_actor i) (in_category i))
      (detection_payload (in_event_id j) (in_detected_at j) (in_actor j) (in_category j))"
proof -
  let ?p = "\<lambda>i. detection_payload (in_event_id i) (in_detected_at i) (in_actor i) (in_category i)"
  note i = incident_facts [OF assms(1)] and j = incident_facts [OF assms(2)]
  have "digest_of (?p i) = digest_of (?p j)"
    using i(2) j(2) assms(5) by (simp add: deterministic_identity_def)
  from digest_of_inject [OF this json_ok_detection json_ok_detection]
  consider "digest_collision (?p i) (?p j)"
    | "\<forall>k. map_option sort_keys (map_of (?p i) k) = map_option sort_keys (map_of (?p j) k)" by blast
  then show ?thesis
  proof cases
    case 2
    then have "list_all (\<lambda>k. map_option sort_keys (map_of (?p i) k) = map_option sort_keys (map_of (?p j) k))
        [''event_id'', ''detected_at'', ''actor'', ''category'']" by (simp add: list_all_iff)
    then have "in_event_id i = in_event_id j" "utc_iso (in_detected_at i) = utc_iso (in_detected_at j)"
      "in_actor i = in_actor j" "in_category i = in_category j"
      by (simp_all add: detection_payload_def)
    then show ?thesis using utc_iso_inject [OF i(1) j(1) assms(3,4)] by blast
  qed blast
qed

text \<open>
  An incident that passes the continuity check can be reconstructed from what it preserves: it carries
  an applied recovery bound to its own identity and a verified post-recovery verification, every piece of
  evidence these rest on is among the preserved ones, and the reconstruction is complete exactly when all
  preserved evidence is available.
\<close>

theorem forensic_continuity_sound:
  assumes "incident_post_init i = Inr ()" "verify_forensic_continuity i = Inr ()"
  shows "\<exists>r p. in_recovery i = Some r \<and> in_post_recovery i = Some p \<and> re_status r = ''applied'' \<and>
    po_status p = ''verified'' \<and> re_source_incident_id r = deterministic_identity i \<and>
    insert (ir_identity (re_evidence_ref r)) (ir_identity ` set (po_evidence_refs p)) \<subseteq> ir_identity ` set (in_evidence_refs i) \<and>
    (map_of (reconstruct_security_state i available) ''complete'' = Some (JBool True) \<longleftrightarrow>
      ir_identity ` set (in_evidence_refs i) \<subseteq> available)"
proof -
  note f = incident_facts [OF assms(1)]
  from assms(2) obtain r p where rp: "in_recovery i = Some r" "in_post_recovery i = Some p"
    "re_status r = ''applied''" "po_status p = ''verified''" "in_status i = ''reverified''"
    unfolding verify_forensic_continuity_def Let_def by (auto simp: bindE_eq_Inr_iff)
  with assms(2) have "ir_identity (re_evidence_ref r) \<in> ir_identity ` set (in_evidence_refs i)"
    "\<forall>v \<in> set (po_evidence_refs p). ir_identity v \<in> ir_identity ` set (in_evidence_refs i)"
    unfolding verify_forensic_continuity_def Let_def by (simp_all add: bindE_eq_Inr_iff list_ex_iff)
  moreover have "missing_evidence i available = [] \<longleftrightarrow> ir_identity ` set (in_evidence_refs i) \<subseteq> available"
  proof -
    have "sort xs = [] \<longleftrightarrow> xs = []" for xs :: "string list" by (metis set_empty2 set_sort)
    then show ?thesis by (auto simp: missing_evidence_def filter_empty_conv)
  qed
  ultimately show ?thesis
    using rp f(2) f(4) [OF rp(1)] by (auto simp: reconstruct_security_state_def)
qed

section \<open>Witnesses\<close>

definition sample_incident_ref :: "string \<Rightarrow> incident_ref" where
  "sample_incident_ref i = \<lparr>ir_kind = ''log'', ir_identity = i, ir_digest = replicate 64 CHR ''a'', ir_source = None\<rparr>"

definition sample_incident_id :: string where
  "sample_incident_id = digest_of (detection_payload ''e1'' (Aware 0) ''soc'' ''key'')"

definition sample_incident :: incident where
  "sample_incident = \<lparr>in_incident_id = sample_incident_id, in_event_id = ''e1'', in_detected_at = Aware 0,
     in_actor = ''soc'', in_category = ''key'', in_status = ''reverified'',
     in_evidence_refs = [sample_incident_ref ''l1'', sample_incident_ref ''l2''], in_affected_states = [],
     in_event_digests = [], in_uncertainty = [], in_key_compromise = None,
     in_recovery = Some \<lparr>re_recovery_id = ''r'', re_evidence_ref = sample_incident_ref ''l1'', re_actor = ''ops'',
       re_source_incident_id = sample_incident_id, re_status = ''applied''\<rparr>,
     in_post_recovery = Some \<lparr>po_verification_id = ''v'', po_evidence_refs = [sample_incident_ref ''l2''],
       po_actor = ''audit'', po_status = ''verified'', po_performed_at = Aware 5\<rparr>,
     in_digest = []\<rparr>"

lemma sample_incident_ok: "incident_post_init sample_incident = Inr ()"
  by (simp add: incident_post_init_def sample_incident_def validate_status_def validate_time_def status_order_def
      derive_incident_id_def sample_incident_id_def)

lemma incident_identity_binds_witness:
  "in_event_id sample_incident = in_event_id (sample_incident\<lparr>in_uncertainty := [''scope'']\<rparr>)"
proof -
  let ?j = "sample_incident\<lparr>in_uncertainty := [''scope'']\<rparr>"
  have "incident_post_init ?j = Inr ()"
    by (simp add: incident_post_init_def sample_incident_def validate_status_def validate_time_def status_order_def
        derive_incident_id_def sample_incident_id_def)
  moreover have "dt_ok (in_detected_at sample_incident)"
    by (simp add: sample_incident_def dt_ok_def in_range_def max_days_def day_us_def)
  ultimately show ?thesis
    using incident_identity_binds [OF sample_incident_ok, of ?j] by simp
qed

lemma forensic_continuity_sound_witness:
  "map_of (reconstruct_security_state sample_incident {''l1'', ''l2''}) ''complete'' = Some (JBool True)"
proof -
  have "verify_forensic_continuity sample_incident = Inr ()"
    by (simp add: verify_forensic_continuity_def sample_incident_def sample_incident_ref_def Let_def)
  from forensic_continuity_sound [OF sample_incident_ok this, of "{''l1'', ''l2''}"] show ?thesis
    by (auto simp: sample_incident_def sample_incident_ref_def)
qed

end
