(* ===== verification/AccessControl.thy ===== *)
theory AccessControl
  imports JsonSupport
begin

text \<open>
  \<open>domain/access_control.py\<close>: principals, authorization requests, grants and the deny-by-default policy.
\<close>

datatype operation =
    READ | INGEST | VERIFY | TRANSITION | RECONCILE | RECOVER | ATTEST | DELETE | RETAIN
  | ADMINISTER_TRUST | ADMINISTER_KEYS

datatype principal_status = ACTIVE | REVOKED

record principal =
  pr_principal_id :: string
  pr_roles :: "string list"
  pr_resource_scopes :: "(string, string list) dict"
  pr_status :: principal_status
  pr_expires_at :: "datetime option"

definition principal_post_init :: "principal \<Rightarrow> unit result" where
  "principal_post_init p = guards [
     (blank (pr_principal_id p), ValueError ''principal_id''),
     (list_ex blank (pr_roles p), ValueError ''roles''),
     (list_ex (\<lambda>(d, _). blank d) (pr_resource_scopes p), ValueError ''resource-scope domains''),
     (list_ex (\<lambda>(_, rs). list_ex blank rs) (pr_resource_scopes p), ValueError ''resource scopes''),
     (case pr_expires_at p of None \<Rightarrow> False | Some t \<Rightarrow> \<not> tz_aware t, ValueError ''principal expiry'')]"

definition active_at :: "principal \<Rightarrow> datetime \<Rightarrow> bool result" where
  "active_at p w =
     (if \<not> tz_aware w then Inl (ValueError ''authorization timestamps'')
      else if pr_status p = REVOKED then Inr False
      else (case pr_expires_at p of None \<Rightarrow> Inr True | Some t \<Rightarrow> Inr (instant w < instant t)))"

definition can_access_resource :: "principal \<Rightarrow> string \<Rightarrow> string \<Rightarrow> bool" where
  "can_access_resource p domain resource = (resource \<in> set (dict_get (pr_resource_scopes p) domain []))"

record request =
  rq_operation :: operation
  rq_resource_domain :: string
  rq_resource_id :: string
  rq_resource_state :: string
  rq_requested_at :: datetime

definition request_post_init :: "request \<Rightarrow> unit result" where
  "request_post_init r = guards [
     (blank (rq_resource_domain r), ValueError ''resource_domain''),
     (blank (rq_resource_id r), ValueError ''resource_id''),
     (blank (rq_resource_state r), ValueError ''resource_state''),
     (\<not> tz_aware (rq_requested_at r), ValueError ''requested_at'')]"

record grant =
  gr_role :: string
  gr_operation :: operation
  gr_allowed_states :: "string list"

definition grant_post_init :: "grant \<Rightarrow> unit result" where
  "grant_post_init g = guards [
     (blank (gr_role g), ValueError ''grant role''),
     (gr_allowed_states g = [], ValueError ''at least one state''),
     (list_ex blank (gr_allowed_states g), ValueError ''grant states'')]"

record decision =
  de_allowed :: bool
  de_principal_id :: string
  de_operation :: operation
  de_resource_domain :: string
  de_resource_id :: string
  de_resource_state :: string
  de_reason :: string
  de_matched_role :: "string option"

definition deny :: "principal \<Rightarrow> request \<Rightarrow> string \<Rightarrow> decision" where
  "deny p r reason =
     \<lparr>de_allowed = False, de_principal_id = pr_principal_id p, de_operation = rq_operation r,
      de_resource_domain = rq_resource_domain r, de_resource_id = rq_resource_id r,
      de_resource_state = rq_resource_state r, de_reason = reason, de_matched_role = None\<rparr>"

definition grant_applies :: "principal \<Rightarrow> request \<Rightarrow> grant \<Rightarrow> bool" where
  "grant_applies p r g =
     (gr_operation g = rq_operation r \<and> gr_role g \<in> set (pr_roles p) \<and>
      rq_resource_state r \<in> set (gr_allowed_states g))"

definition authorize :: "grant list \<Rightarrow> principal \<Rightarrow> request \<Rightarrow> decision result" where
  "authorize grants p r =
     bindE (active_at p (rq_requested_at r)) (\<lambda>active.
     if \<not> active then
       Inr (deny p r (if pr_status p = REVOKED then ''principal_revoked'' else ''authorization_expired''))
     else if \<not> can_access_resource p (rq_resource_domain r) (rq_resource_id r) then
       Inr (deny p r ''resource_scope_denied'')
     else (case find_first (grant_applies p r) grants of
         None \<Rightarrow> Inr (deny p r ''operation_not_authorized'')
       | Some g \<Rightarrow> Inr
           \<lparr>de_allowed = True, de_principal_id = pr_principal_id p, de_operation = rq_operation r,
            de_resource_domain = rq_resource_domain r, de_resource_id = rq_resource_id r,
            de_resource_state = rq_resource_state r, de_reason = ''authorized'',
            de_matched_role = Some (gr_role g)\<rparr>))"

text \<open>What a policy must hold for access, stated without the order of its grants.\<close>

definition entitled :: "grant set \<Rightarrow> principal \<Rightarrow> request \<Rightarrow> bool" where
  "entitled grants p r =
     (pr_status p = ACTIVE \<and> (\<forall>t. pr_expires_at p = Some t \<longrightarrow> instant (rq_requested_at r) < instant t) \<and>
      can_access_resource p (rq_resource_domain r) (rq_resource_id r) \<and> (\<exists>g \<in> grants. grant_applies p r g))"

lemma entitled_mono: "grants \<subseteq> grants' \<Longrightarrow> entitled grants p r \<Longrightarrow> entitled grants' p r"
  by (auto simp: entitled_def)


definition sample_request :: request where
  "sample_request = \<lparr>rq_operation = READ, rq_resource_domain = ''chain'', rq_resource_id = ''c1'',
     rq_resource_state = ''verified'', rq_requested_at = Aware 5\<rparr>"

definition sample_principal :: principal where
  "sample_principal = \<lparr>pr_principal_id = ''u'', pr_roles = [''auditor''], pr_resource_scopes = [(''chain'', [''c1''])],
     pr_status = ACTIVE, pr_expires_at = Some (Aware 9)\<rparr>"

definition sample_grants :: "grant list" where
  "sample_grants = [\<lparr>gr_role = ''auditor'', gr_operation = READ, gr_allowed_states = [''verified'']\<rparr>]"


end
