(* ===== verification/Privacy.thy ===== *)
theory Privacy
  imports Events
begin

text \<open>
  \<open>domain/privacy.py\<close>: redaction of metadata by key and by rule. The regular-expression engine
  (\<open>re.compile\<close> and \<open>re.subn\<close>) and Unicode \<open>casefold\<close> are arguments.
\<close>

record redaction_rule =
  ru_rule_id :: string
  ru_pattern :: string
  ru_replacement :: string

text \<open>\<open>subn pattern replacement value\<close> is the new string and the number of substitutions.\<close>

type_synonym subn = "string \<Rightarrow> string \<Rightarrow> string \<Rightarrow> string \<times> nat"

definition rule_post_init :: "(string \<Rightarrow> unit result) \<Rightarrow> redaction_rule \<Rightarrow> unit result" where
  "rule_post_init compile r =
     bindE (guards [
       (blank (ru_rule_id r), ValueError ''rule_id''),
       (ru_pattern r = [], ValueError ''pattern'')]) (\<lambda>_. compile (ru_pattern r))"

definition rule_apply :: "subn \<Rightarrow> redaction_rule \<Rightarrow> string \<Rightarrow> string \<times> bool" where
  "rule_apply subn r v = (case subn (ru_pattern r) (ru_replacement r) v of (s, n) \<Rightarrow> (s, 0 < n))"

record privacy_policy =
  pp_policy_id :: string
  pp_redact_keys :: "string list"
  pp_rules :: "redaction_rule list"
  pp_replacement :: string

definition default_redact_keys :: "string list" where
  "default_redact_keys =
     [''api_key'', ''authorization'', ''email'', ''password'', ''phone'', ''secret'', ''ssn'', ''token'']"

definition privacy_policy_post_init :: "privacy_policy \<Rightarrow> unit result" where
  "privacy_policy_post_init p = guards [
     (blank (pp_policy_id p), ValueError ''policy_id''),
     (pp_replacement p = [], ValueError ''replacement''),
     (list_ex blank (pp_redact_keys p), ValueError ''redact_keys'')]"

definition secret_key :: "(string \<Rightarrow> string) \<Rightarrow> privacy_policy \<Rightarrow> string \<Rightarrow> bool" where
  "secret_key casefold p key = (casefold key \<in> set (map casefold (pp_redact_keys p)))"

definition path_text :: "string list \<Rightarrow> string" where
  "path_text path = join ''.'' path"

text \<open>The rules applied one after the other to a string, with the identifiers of those that matched.\<close>

fun apply_rules :: "subn \<Rightarrow> redaction_rule list \<Rightarrow> string list \<Rightarrow> string \<Rightarrow> string \<times> string list" where
  "apply_rules subn [] path v = (v, [])"
| "apply_rules subn (r # rules) path v =
     (case rule_apply subn r v of (s, matched) \<Rightarrow>
      case apply_rules subn rules path s of (t, findings) \<Rightarrow>
        (t, (if matched then [''rule:'' @ ru_rule_id r @ '':'' @ path_text path] else []) @ findings))"

lemma size_member: "(k, v) \<in> set kvs \<Longrightarrow> size v < Suc (size_list (size_prod (\<lambda>_. 0) size) kvs)"
  by (induction kvs) auto

text \<open>
  \<open>_redact_value\<close> and \<open>_redact_mapping\<close>. The members of a mapping are visited, and written, in the
  order of their keys.
\<close>

function redact_value :: "subn \<Rightarrow> (string \<Rightarrow> string) \<Rightarrow> privacy_policy \<Rightarrow> string list \<Rightarrow> json \<Rightarrow> json \<times> string list" where
  "redact_value subn casefold p path (JObj kvs) =
     (let members = map (\<lambda>(key, item).
         if secret_key casefold p key
         then ((key, JStr (pp_replacement p)), [''key:'' @ path_text (path @ [key])])
         else (case redact_value subn casefold p (path @ [key]) item of (v, fs) \<Rightarrow> ((key, v), fs)))
       (sorted_items kvs)
      in (JObj (map fst members), concat (map snd members)))"
| "redact_value subn casefold p path (JArr vs) =
     (let items = map (\<lambda>(i, item). redact_value subn casefold p (path @ [dec_nat i]) item) (zip [0..<length vs] vs)
      in (JArr (map fst items), concat (map snd items)))"
| "redact_value subn casefold p path (JStr s) =
     (case apply_rules subn (pp_rules p) path s of (r, fs) \<Rightarrow> (JStr r, fs))"
| "redact_value subn casefold p path JNull = (JNull, [])"
| "redact_value subn casefold p path (JBool b) = (JBool b, [])"
| "redact_value subn casefold p path (JInt n) = (JInt n, [])"
| "redact_value subn casefold p path (JFloat l) = (JFloat l, [])"
  by pat_completeness auto

termination
proof (relation "measure (\<lambda>(_, _, _, _, v). size v)", goal_cases)
  case 1
  show ?case by simp
next
  case (2 subn casefold p path kvs kv key item)
  then show ?case by (auto simp: sorted_items_def intro: size_member)
next
  case (3 subn casefold p path vs kv i item)
  then have "item \<in> set vs" by (auto dest: set_zip_rightD)
  then show ?case by (auto simp: less_Suc_eq_le size_list_estimation')
qed

text \<open>\<open>redact_metadata\<close>, and an event rebuilt with its redacted metadata.\<close>

definition redact_metadata ::
    "subn \<Rightarrow> (string \<Rightarrow> string) \<Rightarrow> privacy_policy \<Rightarrow> (string, string) dict \<Rightarrow> json \<times> string list" where
  "redact_metadata subn casefold p metadata = redact_value subn casefold p [] (jdict metadata)"

definition redact_event ::
    "subn \<Rightarrow> (string \<Rightarrow> string) \<Rightarrow> privacy_policy \<Rightarrow> event_envelope \<Rightarrow> event_envelope result" where
  "redact_event subn casefold p e =
     bindE (string_mapping (fst (redact_metadata subn casefold p (ev_metadata e))) ''metadata'') (\<lambda>m.
     construct event_post_init (e\<lparr>ev_metadata := m\<rparr>))"

definition redact_events ::
    "subn \<Rightarrow> (string \<Rightarrow> string) \<Rightarrow> privacy_policy \<Rightarrow> event_envelope list \<Rightarrow>
     (event_envelope list \<times> string list) result" where
  "redact_events subn casefold p events =
     bindE (mapE (redact_event subn casefold p) events) (\<lambda>output.
     Inr (output, map (\<lambda>(e, r). ''event:'' @ dec_int (ev_sequence e))
       (filter (\<lambda>(e, r). \<not> dict_eq (ev_metadata r) (ev_metadata e)) (zip events output))))"

section \<open>What redaction guarantees\<close>

fun clean :: "(string \<Rightarrow> string) \<Rightarrow> privacy_policy \<Rightarrow> json \<Rightarrow> bool" where
  "clean casefold p (JObj kvs) =
     (\<forall>kv \<in> set kvs. if secret_key casefold p (fst kv) then snd kv = JStr (pp_replacement p)
       else clean casefold p (snd kv))"
| "clean casefold p (JArr vs) = (\<forall>v \<in> set vs. clean casefold p v)"
| "clean casefold p _ = True"

lemma redact_clean: "clean casefold p (fst (redact_value subn casefold p path v))"
proof (induction subn casefold p path v rule: redact_value.induct)
  case (1 subn casefold p path kvs)
  then show ?case
    by (fastforce simp: Let_def split: prod.splits if_splits)
next
  case (2 subn casefold p path vs)
  then show ?case by (fastforce simp: Let_def split: prod.splits)
qed (auto split: prod.splits)

text \<open>A substitution that reports no match has changed nothing.\<close>

definition faithful_subn :: "subn \<Rightarrow> bool" where
  "faithful_subn subn = (\<forall>pattern replacement v s. subn pattern replacement v = (s, 0) \<longrightarrow> s = v)"

lemma apply_rules_silent:
  "faithful_subn subn \<Longrightarrow> apply_rules subn rules path v = (r, []) \<Longrightarrow> r = v"
  by (induction subn rules path v rule: apply_rules.induct)
    (auto simp: rule_apply_def faithful_subn_def split: prod.splits if_splits)

lemma insort_map_snd:
  "insort_key fst (k, f v) (map (\<lambda>(k, v). (k, f v)) xs) = map (\<lambda>(k, v). (k, f v)) (insort_key fst (k, v) xs)"
  by (induction xs) auto

lemma sorted_items_map: "sort_key fst (map (\<lambda>(k, v). (k, f v)) kvs) = map (\<lambda>(k, v). (k, f v)) (sorted_items kvs)"
  by (induction kvs) (auto simp: sorted_items_def insort_map_snd)

lemma map_snd_enumerate: "map (\<lambda>iv. f (snd iv)) (zip [0..<length vs] vs) = map f vs"
  by (rule nth_equalityI) simp_all

lemma redact_silent:
  "faithful_subn subn \<Longrightarrow> snd (redact_value subn casefold p path v) = [] \<Longrightarrow>
    fst (redact_value subn casefold p path v) = sort_keys v"
proof (induction subn casefold p path v rule: redact_value.induct)
  case (1 subn casefold p path kvs)
  let ?f = "\<lambda>(key, item). if secret_key casefold p key
         then ((key, JStr (pp_replacement p)), [''key:'' @ path_text (path @ [key])])
         else (case redact_value subn casefold p (path @ [key]) item of (v, fs) \<Rightarrow> ((key, v), fs))"
  have "fst (?f (k, v)) = (k, sort_keys v)" if m: "(k, v) \<in> set (sorted_items kvs)" for k v
  proof -
    have "snd (?f (k, v)) = []" using 1(3) m by (auto simp: Let_def)
    then have "\<not> secret_key casefold p k" "snd (redact_value subn casefold p (path @ [k]) v) = []"
      by (auto split: if_splits prod.splits)
    with 1(1) [OF m refl _ 1(2)] show ?thesis by (auto split: prod.splits)
  qed
  then have "map (\<lambda>kv. fst (?f kv)) (sorted_items kvs) = map (\<lambda>(k, v). (k, sort_keys v)) (sorted_items kvs)"
    by (intro map_cong refl) (auto simp del: prod.case)
  then show ?case by (simp add: Let_def comp_def sorted_items_map)
next
  case (2 subn casefold p path vs)
  let ?f = "\<lambda>(i, item). redact_value subn casefold p (path @ [dec_nat i]) item"
  have "fst (?f (i, v)) = sort_keys v" if m: "(i, v) \<in> set (zip [0..<length vs] vs)" for i v
  proof -
    have "snd (?f (i, v)) = []" using 2(3) m by (auto simp: Let_def)
    with 2(1) [OF m refl 2(2)] show ?thesis by simp
  qed
  then have "map (\<lambda>iv. fst (?f iv)) (zip [0..<length vs] vs) = map (\<lambda>iv. sort_keys (snd iv)) (zip [0..<length vs] vs)"
    by (intro map_cong refl) (auto simp del: prod.case)
  then show ?case by (simp add: Let_def comp_def map_snd_enumerate)
qed (auto simp: apply_rules_silent split: prod.splits)



end
