(* ===== verification/CryptoTrust.thy ===== *)
theory CryptoTrust
  imports JsonSupport
begin

text \<open>
  \<open>domain/cryptographic_trust.py\<close>: algorithms, key identities and their lifecycle, cryptographic profiles
  and the migrations between them. The verifier of a historical signature is an argument.
\<close>

section \<open>Algorithms and keys\<close>

datatype key_status = Active | Retired | Revoked | Superseded

fun key_status_value :: "key_status \<Rightarrow> string" where
  "key_status_value Active = ''active''"
| "key_status_value Retired = ''retired''"
| "key_status_value Revoked = ''revoked''"
| "key_status_value Superseded = ''superseded''"

record algorithm =
  al_identifier :: string
  al_parameters :: string

definition algorithm_post_init :: "algorithm \<Rightarrow> unit result" where
  "algorithm_post_init a = guards [
     (blank (al_identifier a), ValueError ''algorithm identifier''),
     (CHR 0x0A \<in> set (al_identifier a) \<or> CHR 0x0D \<in> set (al_identifier a), ValueError ''single-line'')]"

definition algorithm_to_dict :: "algorithm \<Rightarrow> payload" where
  "algorithm_to_dict a = [(''identifier'', JStr (al_identifier a)), (''parameters'', JStr (al_parameters a))]"

record key_identity =
  ky_key_id :: string
  ky_version :: int
  ky_algorithm :: algorithm
  ky_public_key_digest :: string
  ky_status :: key_status
  ky_successor :: "string option"

definition key_post_init :: "key_identity \<Rightarrow> unit result" where
  "key_post_init k = guards [
     (blank (ky_key_id k), ValueError ''key_id''),
     (ky_version k < 1, ValueError ''key version''),
     (\<not> is_sha256 (ky_public_key_digest k), ValueError ''public_key_digest''),
     (ky_status k = Superseded \<and> blank (opt_or (ky_successor k) []), ValueError ''must identify a successor''),
     (ky_status k \<noteq> Superseded \<and> ky_successor k \<noteq> None, ValueError ''only superseded keys'')]"

definition key_to_dict :: "key_identity \<Rightarrow> payload" where
  "key_to_dict k = [
     (''key_id'', JStr (ky_key_id k)),
     (''version'', JInt (ky_version k)),
     (''algorithm'', JObj (algorithm_to_dict (ky_algorithm k))),
     (''public_key_digest'', JStr (ky_public_key_digest k)),
     (''status'', JStr (key_status_value (ky_status k))),
     (''successor_key_id'', jopt_str (ky_successor k))]"

section \<open>Profiles\<close>

record crypto_profile =
  cp_proof_schema_version :: string
  cp_canonicalization_version :: string
  cp_digest_algorithm :: algorithm
  cp_signature_algorithm :: algorithm
  cp_trust_policy_version :: string
  cp_verifier_compatibility :: "string list"

definition profile_post_init :: "crypto_profile \<Rightarrow> unit result" where
  "profile_post_init p = guards [
     (blank (cp_proof_schema_version p), ValueError ''proof_schema_version''),
     (blank (cp_canonicalization_version p), ValueError ''canonicalization_version''),
     (blank (cp_trust_policy_version p), ValueError ''trust_policy_version''),
     (cp_verifier_compatibility p = [], ValueError ''verifier_compatibility''),
     (list_ex blank (cp_verifier_compatibility p), ValueError ''compatibility identifiers'')]"

definition profile_to_dict :: "crypto_profile \<Rightarrow> payload" where
  "profile_to_dict p = [
     (''proof_schema_version'', JStr (cp_proof_schema_version p)),
     (''canonicalization_version'', JStr (cp_canonicalization_version p)),
     (''digest_algorithm'', JObj (algorithm_to_dict (cp_digest_algorithm p))),
     (''signature_algorithm'', JObj (algorithm_to_dict (cp_signature_algorithm p))),
     (''trust_policy_version'', JStr (cp_trust_policy_version p)),
     (''verifier_compatibility'', jstrs (cp_verifier_compatibility p))]"

definition read_algorithm :: "payload \<Rightarrow> algorithm result" where
  "read_algorithm d =
     bindE (item_str d ''identifier'') (\<lambda>i.
     construct algorithm_post_init \<lparr>al_identifier = i, al_parameters = get_str d ''parameters'' []\<rparr>)"

definition all_strings :: "json list \<Rightarrow> string list option" where
  "all_strings vs =
     (if list_all (\<lambda>v. case v of JStr _ \<Rightarrow> True | _ \<Rightarrow> False) vs then Some (map py_str vs) else None)"

text \<open>The arguments of the constructor are evaluated in the order they are written.\<close>

definition profile_from_dict :: "payload \<Rightarrow> crypto_profile result" where
  "profile_from_dict d =
     (case (get_or d ''digest_algorithm'' JNull, get_or d ''signature_algorithm'' JNull) of
        (JObj dig, JObj sig) \<Rightarrow>
          (case get_or d ''verifier_compatibility'' JNull of
             JArr vs \<Rightarrow>
               (case all_strings vs of
                  None \<Rightarrow> Inl (ValueError ''string array'')
                | Some verifiers \<Rightarrow>
                    bindE (item_str d ''proof_schema_version'') (\<lambda>psv.
                    bindE (item_str d ''canonicalization_version'') (\<lambda>cv.
                    bindE (read_algorithm dig) (\<lambda>da.
                    bindE (read_algorithm sig) (\<lambda>sa.
                    bindE (item_str d ''trust_policy_version'') (\<lambda>tpv.
                    construct profile_post_init
                      \<lparr>cp_proof_schema_version = psv, cp_canonicalization_version = cv,
                       cp_digest_algorithm = da, cp_signature_algorithm = sa,
                       cp_trust_policy_version = tpv, cp_verifier_compatibility = verifiers\<rparr>))))))
           | _ \<Rightarrow> Inl (ValueError ''string array''))
      | _ \<Rightarrow> Inl (ValueError ''algorithm objects''))"

section \<open>Transitions and migrations\<close>

record key_transition =
  kt_from_key_id :: string
  kt_to_key_id :: string
  kt_event :: key_status
  kt_rationale :: string
  kt_authority :: string

definition key_transition_post_init :: "key_transition \<Rightarrow> unit result" where
  "key_transition_post_init t = guards [
     (blank (kt_from_key_id t), ValueError ''from_key_id''),
     (blank (kt_to_key_id t), ValueError ''to_key_id''),
     (blank (kt_rationale t), ValueError ''rationale''),
     (blank (kt_authority t), ValueError ''authority''),
     (kt_event t \<notin> {Retired, Revoked, Superseded}, ValueError ''key transition event'')]"

definition key_transition_to_dict :: "key_transition \<Rightarrow> payload" where
  "key_transition_to_dict t = [
     (''from_key_id'', JStr (kt_from_key_id t)),
     (''to_key_id'', JStr (kt_to_key_id t)),
     (''event'', JStr (key_status_value (kt_event t))),
     (''rationale'', JStr (kt_rationale t)),
     (''authority'', JStr (kt_authority t))]"

record trust_migration =
  tm_migration_id :: string
  tm_from_root_id :: string
  tm_from_root_version :: int
  tm_to_root_id :: string
  tm_to_root_version :: int
  tm_transition_authority :: string
  tm_activation_boundary :: string
  tm_verification_policy_version :: string

definition trust_migration_post_init :: "trust_migration \<Rightarrow> unit result" where
  "trust_migration_post_init m = guards [
     (blank (tm_migration_id m), ValueError ''migration_id''),
     (blank (tm_from_root_id m), ValueError ''from_root_id''),
     (blank (tm_to_root_id m), ValueError ''to_root_id''),
     (blank (tm_transition_authority m), ValueError ''transition_authority''),
     (blank (tm_activation_boundary m), ValueError ''activation_boundary''),
     (blank (tm_verification_policy_version m), ValueError ''verification_policy_version''),
     (tm_from_root_version m < 1 \<or> tm_to_root_version m < 1, ValueError ''trust-root versions''),
     ((tm_from_root_id m, tm_from_root_version m) = (tm_to_root_id m, tm_to_root_version m),
        ValueError ''must change the trust root'')]"

definition trust_migration_to_dict :: "trust_migration \<Rightarrow> payload" where
  "trust_migration_to_dict m = [
     (''migration_id'', JStr (tm_migration_id m)),
     (''from_root_id'', JStr (tm_from_root_id m)),
     (''from_root_version'', JInt (tm_from_root_version m)),
     (''to_root_id'', JStr (tm_to_root_id m)),
     (''to_root_version'', JInt (tm_to_root_version m)),
     (''transition_authority'', JStr (tm_transition_authority m)),
     (''activation_boundary'', JStr (tm_activation_boundary m)),
     (''verification_policy_version'', JStr (tm_verification_policy_version m))]"

record format_migration =
  fm_from_version :: string
  fm_to_version :: string
  fm_canonicalization_version :: string
  fm_compatibility_mode :: string
  fm_migration_authority :: string

definition format_migration_post_init :: "format_migration \<Rightarrow> unit result" where
  "format_migration_post_init m = guards [
     (blank (fm_from_version m), ValueError ''from_version''),
     (blank (fm_to_version m), ValueError ''to_version''),
     (blank (fm_canonicalization_version m), ValueError ''canonicalization_version''),
     (blank (fm_compatibility_mode m), ValueError ''compatibility_mode''),
     (blank (fm_migration_authority m), ValueError ''migration_authority''),
     (fm_from_version m = fm_to_version m, ValueError ''must change versions''),
     (fm_compatibility_mode m \<notin> {''read-both'', ''rewrite-forward'', ''dual-format''},
        ValueError ''unsupported proof-format compatibility mode'')]"

definition format_migration_to_dict :: "format_migration \<Rightarrow> payload" where
  "format_migration_to_dict m = [
     (''from_version'', JStr (fm_from_version m)),
     (''to_version'', JStr (fm_to_version m)),
     (''canonicalization_version'', JStr (fm_canonicalization_version m)),
     (''compatibility_mode'', JStr (fm_compatibility_mode m)),
     (''migration_authority'', JStr (fm_migration_authority m))]"

section \<open>The lifecycle of a key\<close>

definition rotate_key ::
    "key_identity \<Rightarrow> key_identity \<Rightarrow> string \<Rightarrow> string \<Rightarrow>
     (key_identity \<times> key_identity \<times> key_transition) result" where
  "rotate_key current replacement authority rationale =
     bindE (guards [
       (ky_status current \<noteq> Active, ValueError ''only an active key may be rotated''),
       (ky_status replacement \<noteq> Active, ValueError ''replacement key must be active''),
       (ky_key_id replacement = ky_key_id current, ValueError ''new identity''),
       (ky_algorithm replacement \<noteq> ky_algorithm current, ValueError ''change algorithms''),
       (ky_version replacement \<le> ky_version current, ValueError ''version must increase'')]) (\<lambda>_.
     bindE (construct key_post_init
       \<lparr>ky_key_id = ky_key_id current, ky_version = ky_version current, ky_algorithm = ky_algorithm current,
        ky_public_key_digest = ky_public_key_digest current, ky_status = Superseded,
        ky_successor = Some (ky_key_id replacement)\<rparr>) (\<lambda>successor.
     bindE (construct key_transition_post_init
       \<lparr>kt_from_key_id = ky_key_id current, kt_to_key_id = ky_key_id replacement, kt_event = Superseded,
        kt_rationale = rationale, kt_authority = authority\<rparr>) (\<lambda>transition.
     Inr (successor, replacement, transition))))"

text \<open>The key with a final status, and the record of its own transition.\<close>

definition closed_key :: "key_identity \<Rightarrow> key_status \<Rightarrow> key_identity" where
  "closed_key k status =
     \<lparr>ky_key_id = ky_key_id k, ky_version = ky_version k, ky_algorithm = ky_algorithm k,
      ky_public_key_digest = ky_public_key_digest k, ky_status = status, ky_successor = None\<rparr>"

definition own_transition :: "key_identity \<Rightarrow> key_status \<Rightarrow> string \<Rightarrow> string \<Rightarrow> key_transition result" where
  "own_transition k event authority rationale =
     construct key_transition_post_init
       \<lparr>kt_from_key_id = ky_key_id k, kt_to_key_id = ky_key_id k, kt_event = event,
        kt_rationale = rationale, kt_authority = authority\<rparr>"

definition retire_key ::
    "key_identity \<Rightarrow> string \<Rightarrow> string \<Rightarrow> (key_identity \<times> key_transition) result" where
  "retire_key k authority rationale =
     bindE (guards [(ky_status k \<noteq> Active, ValueError ''only an active key may be retired'')]) (\<lambda>_.
     bindE (construct key_post_init (closed_key k Retired)) (\<lambda>retired.
     bindE (own_transition k Retired authority rationale) (\<lambda>t. Inr (retired, t))))"

definition revoke_key ::
    "key_identity \<Rightarrow> string \<Rightarrow> string \<Rightarrow> (key_identity \<times> key_transition) result" where
  "revoke_key k authority rationale =
     (if ky_status k = Revoked then
        bindE (own_transition k Revoked authority rationale) (\<lambda>t. Inr (k, t))
      else
        bindE (construct key_post_init (closed_key k Revoked)) (\<lambda>revoked.
        bindE (own_transition k Revoked authority rationale) (\<lambda>t. Inr (revoked, t))))"

definition validate_historical_verification :: "key_identity \<Rightarrow> crypto_profile \<Rightarrow> unit result" where
  "validate_historical_verification k p = guards [
     (ky_status k \<notin> {Retired, Revoked, Superseded}, ValueError ''non-active historical key''),
     (al_identifier (ky_algorithm k) \<noteq> al_identifier (cp_signature_algorithm p),
        ValueError ''historical signature algorithm'')]"

definition verify_historical_signature ::
    "(key_identity \<Rightarrow> string \<Rightarrow> string \<Rightarrow> unit result) \<Rightarrow>
     key_identity \<Rightarrow> crypto_profile \<Rightarrow> string \<Rightarrow> string \<Rightarrow> unit result" where
  "verify_historical_signature verifier k p data signature =
     bindE (validate_historical_verification k p) (\<lambda>_. verifier k data signature)"

definition validate_algorithm_transition ::
    "crypto_profile \<Rightarrow> crypto_profile \<Rightarrow> trust_migration option \<Rightarrow> unit result" where
  "validate_algorithm_transition old new migration = guards [
     (cp_proof_schema_version old = cp_proof_schema_version new \<and>
        cp_canonicalization_version old = cp_canonicalization_version new \<and>
        cp_digest_algorithm old = cp_digest_algorithm new \<and>
        cp_signature_algorithm old = cp_signature_algorithm new \<and>
        cp_trust_policy_version old = cp_trust_policy_version new, ValueError ''identical''),
     (cp_canonicalization_version old \<noteq> cp_canonicalization_version new \<and>
        cp_proof_schema_version old = cp_proof_schema_version new, ValueError ''proof-schema transition''),
     (cp_trust_policy_version old \<noteq> cp_trust_policy_version new \<and> migration = None,
        ValueError ''trust-policy changes''),
     (cp_signature_algorithm old \<noteq> cp_signature_algorithm new \<and> migration = None,
        ValueError ''signature-algorithm changes''),
     (cp_digest_algorithm old \<noteq> cp_digest_algorithm new \<and> migration = None,
        ValueError ''digest-algorithm changes'')]"

section \<open>Sequences of operations\<close>

text \<open>What an operation makes of a key, and the replacement of one key by another.\<close>

inductive key_step :: "key_identity \<Rightarrow> key_identity \<Rightarrow> bool" where
  rotate: "rotate_key k r authority rationale = Inr (k', r', t) \<Longrightarrow> key_step k k'"
| retire: "retire_key k authority rationale = Inr (k', t) \<Longrightarrow> key_step k k'"
| revoke: "revoke_key k authority rationale = Inr (k', t) \<Longrightarrow> key_step k k'"

inductive_cases key_stepE: "key_step k k'"

inductive replaced :: "key_identity \<Rightarrow> key_identity \<Rightarrow> bool" where
  "rotate_key k r authority rationale = Inr (k', r', t) \<Longrightarrow> replaced k r"

inductive_cases replacedE: "replaced k r"

definition same_key :: "key_identity \<Rightarrow> key_identity \<Rightarrow> bool" where
  "same_key k k' =
     (ky_key_id k' = ky_key_id k \<and> ky_version k' = ky_version k \<and> ky_algorithm k' = ky_algorithm k \<and>
      ky_public_key_digest k' = ky_public_key_digest k)"

text \<open>Active keys may be retired or superseded; any key may be revoked, and stays so.\<close>

fun status_rank :: "key_status \<Rightarrow> nat" where
  "status_rank Active = 0"
| "status_rank Retired = 1"
| "status_rank Superseded = 1"
| "status_rank Revoked = 2"

lemma rotate_key_Inr:
  "rotate_key k r authority rationale = Inr (k', r', t) \<longleftrightarrow>
    ky_status k = Active \<and> ky_status r = Active \<and> ky_key_id r \<noteq> ky_key_id k \<and>
    ky_algorithm r = ky_algorithm k \<and> ky_version k < ky_version r \<and> r' = r \<and>
    k' = (closed_key k Superseded)\<lparr>ky_successor := Some (ky_key_id r)\<rparr> \<and> key_post_init k' = Inr () \<and>
    t = \<lparr>kt_from_key_id = ky_key_id k, kt_to_key_id = ky_key_id r, kt_event = Superseded,
         kt_rationale = rationale, kt_authority = authority\<rparr> \<and> key_transition_post_init t = Inr ()"
  by (auto simp: rotate_key_def closed_key_def bindE_eq_Inr_iff construct_Inr_iff)

lemma retire_key_Inr:
  "retire_key k authority rationale = Inr (k', t) \<longleftrightarrow>
    ky_status k = Active \<and> k' = closed_key k Retired \<and> key_post_init k' = Inr () \<and>
    own_transition k Retired authority rationale = Inr t"
  by (auto simp: retire_key_def bindE_eq_Inr_iff construct_Inr_iff)

lemma revoke_key_Inr:
  "revoke_key k authority rationale = Inr (k', t) \<longleftrightarrow>
    (if ky_status k = Revoked then k' = k else k' = closed_key k Revoked \<and> key_post_init k' = Inr ()) \<and>
    own_transition k Revoked authority rationale = Inr t"
  by (auto simp: revoke_key_def bindE_eq_Inr_iff construct_Inr_iff)

lemmas operation_simps = rotate_key_Inr retire_key_Inr revoke_key_Inr

lemma key_step_facts:
  assumes "key_step k k'" "key_post_init k = Inr ()"
  shows "key_post_init k' = Inr ()" "same_key k k'" "ky_status k' \<noteq> Active"
    "status_rank (ky_status k) < status_rank (ky_status k') \<or> k' = k"
    "ky_status k = Revoked \<Longrightarrow> k' = k"
proof -
  have st: "status_rank s < 2 \<longleftrightarrow> s \<noteq> Revoked" for s by (cases s) simp_all
  show "key_post_init k' = Inr ()" "same_key k k'" "ky_status k' \<noteq> Active"
    "status_rank (ky_status k) < status_rank (ky_status k') \<or> k' = k"
    "ky_status k = Revoked \<Longrightarrow> k' = k"
    using assms by (auto simp: operation_simps closed_key_def same_key_def st split: if_splits elim!: key_stepE)
qed

lemma key_steps:
  assumes "key_step\<^sup>*\<^sup>* k k'" "key_post_init k = Inr ()"
  shows "key_post_init k' = Inr () \<and> same_key k k' \<and>
    (k' = k \<or> ky_status k' \<noteq> Active \<and> status_rank (ky_status k) < status_rank (ky_status k'))"
  using assms(1)
proof (induction rule: rtranclp_induct)
  case base
  with assms(2) show ?case by (simp add: same_key_def)
next
  case (step x y)
  from step.IH have ok: "key_post_init x = Inr ()" by simp
  note f = key_step_facts [OF step.hyps(2) ok]
  from step.IH f(2) have "same_key k y" by (simp add: same_key_def)
  with f(1,3,4) step.IH show ?case by fastforce
qed

lemma replaced_increases:
  "replaced\<^sup>+\<^sup>+ k r \<Longrightarrow> ky_version k < ky_version r \<and> ky_algorithm r = ky_algorithm k"
  by (induction rule: tranclp_induct) (auto simp: operation_simps elim!: replacedE)

text \<open>
  C40: whatever sequence of rotations, retirements and revocations a valid key goes through, it stays a valid
  key of the same identity, version, algorithm and public key; once changed it is never active again and
  remains verifiable as a historical key under every profile with its algorithm; its status only moves from
  active over retired or superseded to revoked, which is final. Replacement increases the version and keeps
  the algorithm, so no sequence of rotations leads back to a key.
\<close>

theorem key_lifecycle_sound:
  assumes "key_post_init k = Inr ()" "key_step\<^sup>*\<^sup>* k k'"
  shows "key_post_init k' = Inr () \<and> same_key k k' \<and>
    (k' \<noteq> k \<longrightarrow> ky_status k' \<noteq> Active \<and> status_rank (ky_status k) < status_rank (ky_status k') \<and>
      (\<forall>p. al_identifier (cp_signature_algorithm p) = al_identifier (ky_algorithm k) \<longrightarrow>
        validate_historical_verification k' p = Inr ())) \<and>
    (ky_status k = Revoked \<longrightarrow> k' = k) \<and> \<not> replaced\<^sup>+\<^sup>+ k k'"
proof -
  note s = key_steps [OF assms(2,1)]
  have "ky_status k' \<in> {Retired, Revoked, Superseded}" if "k' \<noteq> k"
    using s that by (cases "ky_status k'") auto
  moreover have "\<not> status_rank Revoked < status_rank x" for x by (cases x) simp_all
  moreover have "\<not> replaced\<^sup>+\<^sup>+ k k'" using s replaced_increases [of k k'] by (auto simp: same_key_def)
  ultimately show ?thesis
    using s by (auto simp: validate_historical_verification_def same_key_def)
qed

definition sample_key :: "string \<Rightarrow> int \<Rightarrow> key_identity" where
  "sample_key i v = \<lparr>ky_key_id = i, ky_version = v, ky_algorithm = \<lparr>al_identifier = ''ed25519'', al_parameters = []\<rparr>,
     ky_public_key_digest = replicate 64 CHR ''0'', ky_status = Active, ky_successor = None\<rparr>"

lemma key_lifecycle_sound_witness:
  "\<exists>k'. key_step\<^sup>*\<^sup>* (sample_key ''a'' 1) k' \<and> ky_status k' = Revoked \<and> same_key (sample_key ''a'' 1) k'"
proof -
  let ?k = "sample_key ''a'' 1"
  let ?s = "(closed_key ?k Superseded)\<lparr>ky_successor := Some ''b''\<rparr>"
  have "rotate_key ?k (sample_key ''b'' 2) ''root'' ''yearly'' =
      Inr (?s, sample_key ''b'' 2, \<lparr>kt_from_key_id = ''a'', kt_to_key_id = ''b'', kt_event = Superseded,
        kt_rationale = ''yearly'', kt_authority = ''root''\<rparr>)" by code_simp
  then have "key_step ?k ?s" by (rule rotate)
  moreover have "revoke_key ?s ''root'' ''leak'' = Inr (closed_key ?k Revoked,
      \<lparr>kt_from_key_id = ''a'', kt_to_key_id = ''a'', kt_event = Revoked, kt_rationale = ''leak'',
       kt_authority = ''root''\<rparr>)" by code_simp
  then have "key_step ?s (closed_key ?k Revoked)" by (rule revoke)
  ultimately have steps: "key_step\<^sup>*\<^sup>* ?k (closed_key ?k Revoked)" by simp
  have "key_post_init ?k = Inr ()" by code_simp
  from key_lifecycle_sound [OF this steps] steps show ?thesis
    by (intro exI [of _ "closed_key ?k Revoked"]) (simp add: closed_key_def)
qed

text \<open>
  A change of cryptographic profile is accepted exactly when something changes, a change of
  canonicalization comes with a new proof schema, and a change of trust policy, signature algorithm or digest
  algorithm comes with a trust migration. Every rejection is a \<open>ValueError\<close>.
\<close>

theorem algorithm_transition_iff:
  shows "validate_algorithm_transition old new migration = Inr () \<longleftrightarrow>
    (cp_proof_schema_version old \<noteq> cp_proof_schema_version new \<or>
      cp_canonicalization_version old = cp_canonicalization_version new \<and>
      (cp_digest_algorithm old, cp_signature_algorithm old, cp_trust_policy_version old) \<noteq>
        (cp_digest_algorithm new, cp_signature_algorithm new, cp_trust_policy_version new)) \<and>
    ((cp_digest_algorithm old, cp_signature_algorithm old, cp_trust_policy_version old) =
        (cp_digest_algorithm new, cp_signature_algorithm new, cp_trust_policy_version new) \<or> migration \<noteq> None)"
  by (auto simp: validate_algorithm_transition_def)

end
