(* ===== verification/Base64.thy ===== *)
theory Base64
  imports JsonSupport
begin

text \<open>
  The URL-safe base64 of signatures and keys: \<open>_b64encode\<close> and \<open>_b64decode\<close> of
  \<open>domain/trust_anchor.py\<close> and \<open>domain/attestation_trust.py\<close>, over the encoder and the non-strict
  decoder of the standard library (\<open>binascii\<close>), which skips characters outside the alphabet and stops at
  a complete padding.
\<close>

section \<open>Encoding\<close>

definition b64_alphabet :: string where
  "b64_alphabet = ''ABCDEFGHIJKLMNOPQRSTUVWXYZabcdefghijklmnopqrstuvwxyz0123456789-_''"

definition b64_char :: "nat \<Rightarrow> char" where
  "b64_char v = b64_alphabet ! (v mod 64)"

fun b2a :: "string \<Rightarrow> string" where
  "b2a [] = []"
| "b2a [a] = [b64_char (byte a div 4), b64_char (byte a mod 4 * 16), CHR ''='', CHR ''='']"
| "b2a [a, b] = [b64_char (byte a div 4), b64_char (byte a mod 4 * 16 + byte b div 16),
     b64_char (byte b mod 16 * 4), CHR ''='']"
| "b2a (a # b # c # s) =
     b64_char (byte a div 4) # b64_char (byte a mod 4 * 16 + byte b div 16) #
     b64_char (byte b mod 16 * 4 + byte c div 64) # b64_char (byte c mod 64) # b2a s"

definition b64_encode :: "string \<Rightarrow> string" where
  "b64_encode s = rev (dropWhile (\<lambda>c. c = CHR ''='') (rev (b2a s)))"

section \<open>Decoding\<close>

text \<open>\<open>urlsafe_b64decode\<close> first replaces \<open>-\<close> and \<open>_\<close> by \<open>+\<close> and \<open>/\<close>, so both pairs are accepted.\<close>

definition b64_val :: "char \<Rightarrow> nat option" where
  "b64_val c =
     (let n = byte c in
      if 65 \<le> n \<and> n \<le> 90 then Some (n - 65)
      else if 97 \<le> n \<and> n \<le> 122 then Some (n - 71)
      else if 48 \<le> n \<and> n \<le> 57 then Some (n + 4)
      else if n = 43 \<or> n = 45 then Some 62
      else if n = 47 \<or> n = 95 then Some 63
      else None)"

text \<open>
  The loop of \<open>a2b_base64\<close> with its position in the current group of four, the bits left over from the
  last character and the number of padding characters seen.
\<close>

fun a2b :: "nat \<Rightarrow> nat \<Rightarrow> nat \<Rightarrow> string \<Rightarrow> string option" where
  "a2b quad left pads [] = (if quad = 0 then Some [] else None)"
| "a2b quad left pads (c # s) =
     (if c = CHR ''='' then
        if 2 \<le> quad \<and> 4 \<le> quad + (pads + 1) then Some []
        else a2b quad left (if 2 \<le> quad then pads + 1 else pads) s
      else case b64_val c of
        None \<Rightarrow> a2b quad left pads s
      | Some v \<Rightarrow>
          if quad = 0 then a2b 1 v 0 s
          else if quad = 1 then map_option (Cons (char_of (left * 4 + v div 16))) (a2b 2 (v mod 16) 0 s)
          else if quad = 2 then map_option (Cons (char_of (left * 16 + v div 4))) (a2b 3 (v mod 4) 0 s)
          else map_option (Cons (char_of (left * 64 + v))) (a2b 0 0 0 s))"

text \<open>The argument \<open>err\<close> is the exception class of the module; a non-ASCII text is a \<open>ValueError\<close> too.\<close>

definition b64_decode :: "(string \<Rightarrow> exn) \<Rightarrow> string \<Rightarrow> string result" where
  "b64_decode err s =
     (if s = [] then Inl (err ''must not be empty'')
      else if list_ex (\<lambda>c. 128 \<le> byte c) s then Inl (err ''invalid base64'')
      else case a2b 0 0 0 (s @ replicate (nat (- int (length s) mod 4)) CHR ''='') of
        None \<Rightarrow> Inl (err ''invalid base64'')
      | Some r \<Rightarrow> Inr r)"

section \<open>Decoding inverts encoding\<close>

lemma b64_alphabet_values: "map b64_val b64_alphabet = map Some [0..<64]"
  by (simp add: b64_alphabet_def b64_val_def byte_def upt_conv_Cons)

lemma b64_alphabet_plain: "list_all (\<lambda>c. c \<noteq> CHR ''='' \<and> byte c < 128) b64_alphabet"
  by (simp add: b64_alphabet_def byte_def)

lemma b64_chars:
  assumes "v < 64"
  shows "b64_val (b64_char v) = Some v" "b64_char v \<noteq> CHR ''=''" "byte (b64_char v) < 128"
proof -
  have l: "length b64_alphabet = 64" by (simp add: b64_alphabet_def)
  have "map b64_val b64_alphabet ! v = Some v" unfolding b64_alphabet_values using assms by simp
  with assms l show "b64_val (b64_char v) = Some v" by (simp add: b64_char_def)
  show "b64_char v \<noteq> CHR ''=''" "byte (b64_char v) < 128"
    using b64_alphabet_plain assms l by (simp_all add: b64_char_def list_all_length)
qed

lemma sextets:
  "byte a div 4 < 64" "byte a mod 4 * 16 < 64" "byte a mod 4 * 16 + byte b div 16 < 64"
  "byte b mod 16 * 4 < 64" "byte b mod 16 * 4 + byte c div 64 < 64" "byte c mod 64 < 64"
proof -
  have "byte a div 4 < 64" "byte b div 16 < 16" "byte c div 64 < 4"
    using byte_less [of a] byte_less [of b] byte_less [of c] by (simp_all add: less_mult_imp_div_less)
  moreover have "byte a mod 4 < 4" "byte b mod 16 < 16" "byte c mod 64 < 64" by simp_all
  ultimately show "byte a div 4 < 64" "byte a mod 4 * 16 < 64" "byte a mod 4 * 16 + byte b div 16 < 64"
    "byte b mod 16 * 4 < 64" "byte b mod 16 * 4 + byte c div 64 < 64" "byte c mod 64 < 64"
    by linarith+
qed

text \<open>The text without its padding, and the padding.\<close>

fun b2a_core :: "string \<Rightarrow> string" where
  "b2a_core [] = []"
| "b2a_core [a] = [b64_char (byte a div 4), b64_char (byte a mod 4 * 16)]"
| "b2a_core [a, b] = [b64_char (byte a div 4), b64_char (byte a mod 4 * 16 + byte b div 16),
     b64_char (byte b mod 16 * 4)]"
| "b2a_core (a # b # c # s) =
     b64_char (byte a div 4) # b64_char (byte a mod 4 * 16 + byte b div 16) #
     b64_char (byte b mod 16 * 4 + byte c div 64) # b64_char (byte c mod 64) # b2a_core s"

lemma b2a_core_chars: "list_all (\<lambda>c. c \<noteq> CHR ''='' \<and> byte c < 128) (b2a_core s)"
  by (induction s rule: b2a_core.induct) (simp_all add: b64_chars sextets)

lemma b2a_padding: "b2a s = b2a_core s @ replicate (nat (- int (length (b2a_core s)) mod 4)) CHR ''=''"
proof (induction s rule: b2a_core.induct)
  case (4 a b c s)
  have "- (int n + 4) mod 4 = - int n mod 4" for n by presburger
  with 4 show ?case by (simp add: algebra_simps)
qed (simp_all add: numeral_2_eq_2)

lemma b64_encode_core: "b64_encode s = b2a_core s"
proof -
  have "dropWhile (\<lambda>c. c = CHR ''='') (rev (b2a_core s)) = rev (b2a_core s)"
    using b2a_core_chars [of s] by (cases "b2a_core s" rule: rev_cases) simp_all
  moreover have "dropWhile (\<lambda>c. c = CHR ''='') (replicate n CHR ''='' @ t) = dropWhile (\<lambda>c. c = CHR ''='') t"
    for n and t :: string by (induction n) simp_all
  ultimately show ?thesis
    unfolding b64_encode_def by (subst b2a_padding) simp
qed

lemma b64_encode_ascii: "list_all (\<lambda>c. byte c < 128) (b64_encode s)"
  using b2a_core_chars [of s] by (simp add: b64_encode_core list_all_iff)

lemma b64_encode_eq_Nil [simp]: "b64_encode s = [] \<longleftrightarrow> s = []"
  by (cases s rule: b2a_core.cases) (simp_all add: b64_encode_core)

lemma rejoin:
  assumes "a < 256" "b < 256" "c < (256 :: nat)"
  shows "a div 4 * 4 + (a mod 4 * 16 + b div 16) div 16 = a"
    and "a div 4 * 4 + a mod 4 * 16 div 16 = a"
    and "(a mod 4 * 16 + b div 16) mod 16 * 16 + (b mod 16 * 4 + c div 64) div 4 = b"
    and "(a mod 4 * 16 + b div 16) mod 16 * 16 + b mod 16 * 4 div 4 = b"
    and "(b mod 16 * 4 + c div 64) mod 4 * 64 + c mod 64 = c"
proof -
  have d: "b div 16 < 16" "c div 64 < 4" using assms by (simp_all add: less_mult_imp_div_less)
  have e: "(a mod 4 * 16 + b div 16) div 16 = a mod 4" "(a mod 4 * 16 + b div 16) mod 16 = b div 16"
    using d(1) by simp_all
  have f: "(b mod 16 * 4 + c div 64) div 4 = b mod 16" "(b mod 16 * 4 + c div 64) mod 4 = c div 64"
    using d(2) by simp_all
  show "a div 4 * 4 + (a mod 4 * 16 + b div 16) div 16 = a" "a div 4 * 4 + a mod 4 * 16 div 16 = a"
    "(a mod 4 * 16 + b div 16) mod 16 * 16 + (b mod 16 * 4 + c div 64) div 4 = b"
    "(a mod 4 * 16 + b div 16) mod 16 * 16 + b mod 16 * 4 div 4 = b"
    "(b mod 16 * 4 + c div 64) mod 4 * 64 + c mod 64 = c"
    unfolding e f by simp_all
qed

lemma a2b_values:
  assumes "b64_val w = Some v" "w \<noteq> CHR ''=''"
  shows "a2b 0 l p (w # s) = a2b 1 v 0 s"
    and "a2b 1 l p (w # s) = map_option (Cons (char_of (l * 4 + v div 16))) (a2b 2 (v mod 16) 0 s)"
    and "a2b 2 l p (w # s) = map_option (Cons (char_of (l * 16 + v div 4))) (a2b 3 (v mod 4) 0 s)"
    and "a2b 3 l p (w # s) = map_option (Cons (char_of (l * 64 + v))) (a2b 0 0 0 s)"
  using assms by simp_all

lemma a2b_padding:
  "a2b 2 l 0 [CHR ''='', CHR ''=''] = Some []" "a2b 3 l 0 [CHR ''=''] = Some []" "a2b 0 l 0 [] = Some []"
  by simp_all

lemma a2b_b2a: "a2b 0 0 0 (b2a s) = Some s"
proof (induction s rule: b2a.induct)
  case (2 a)
  show ?case
    unfolding b2a.simps a2b_values [OF b64_chars(1,2) [OF sextets(1)]] a2b_values [OF b64_chars(1,2) [OF sextets(2)]]
      a2b_padding rejoin(2) [OF byte_less byte_less byte_less] by simp
next
  case (3 a b)
  show ?case
    unfolding b2a.simps a2b_values [OF b64_chars(1,2) [OF sextets(1)]] a2b_values [OF b64_chars(1,2) [OF sextets(3)]]
      a2b_values [OF b64_chars(1,2) [OF sextets(4)]] a2b_padding
      rejoin(1,4) [OF byte_less byte_less byte_less] by simp
next
  case (4 a b c s)
  show ?case
    unfolding b2a.simps a2b_values [OF b64_chars(1,2) [OF sextets(1)]] a2b_values [OF b64_chars(1,2) [OF sextets(3)]]
      a2b_values [OF b64_chars(1,2) [OF sextets(5)]] a2b_values [OF b64_chars(1,2) [OF sextets(6)]] 4
      rejoin(1,3,5) [OF byte_less byte_less byte_less] by simp
qed simp

lemma b64_decode_encode:
  assumes "s \<noteq> []"
  shows "b64_decode err (b64_encode s) = Inr s"
proof -
  have "\<not> list_ex (\<lambda>c. 128 \<le> byte c) (b64_encode s)"
    using b64_encode_ascii [of s] by (auto simp: list_all_iff list_ex_iff)
  moreover have "b64_encode s @ replicate (nat (- int (length (b64_encode s)) mod 4)) CHR ''='' = b2a s"
    unfolding b64_encode_core by (rule b2a_padding [symmetric])
  ultimately show ?thesis
    using assms by (simp add: b64_decode_def a2b_b2a)
qed

text \<open>
  Decoding inverts encoding: every non-empty byte string is read back from its unpadded URL-safe base64
  text, which is ASCII and free of padding.
\<close>

theorem b64_roundtrip:
  assumes "s \<noteq> []"
  shows "b64_decode err (b64_encode s) = Inr s \<and>
    list_all (\<lambda>c. byte c < 128 \<and> c \<noteq> CHR ''='') (b64_encode s)"
  using b64_decode_encode [OF assms] b2a_core_chars [of s] by (simp add: b64_encode_core list_all_iff)

lemma b64_roundtrip_witness: "b64_encode ''Hi~'' = ''SGl-'' \<and> b64_decode ValueError ''SGl-'' = Inr ''Hi~''"
proof -
  have e: "b64_encode ''Hi~'' = ''SGl-''" by code_simp
  from b64_roundtrip [of "''Hi~''" ValueError] show ?thesis by (simp add: e)
qed

end
