(* ===== verification/TrustAnchor.thy ===== *)
theory TrustAnchor
  imports Base64 Lines "HOL-Library.Product_Lexorder"
begin

text \<open>
  \<open>domain/trust_anchor.py\<close>, \<open>adapters/trust_anchor.py\<close> and \<open>utils/signatures.py\<close>: signed checkpoints of
  a history and the directory that anchors them. A directory is the list of its files, in the order a
  listing returns them. PyNaCl is an argument: \<open>None\<close> when it is not installed, otherwise the outcome of
  its verification.
\<close>

section \<open>Signatures\<close>

type_synonym nacl = "(string \<Rightarrow> string \<Rightarrow> string \<Rightarrow> bool) option"

definition verify_ed25519_signature :: "nacl \<Rightarrow> string \<Rightarrow> string \<Rightarrow> string \<Rightarrow> unit result" where
  "verify_ed25519_signature nacl public_key message signature =
     (case nacl of
        None \<Rightarrow> Inl (RuntimeError ''PyNaCl'')
      | Some check \<Rightarrow> guards [(\<not> check public_key message signature, ValueError ''Ed25519'')])"

section \<open>Checkpoints\<close>

record checkpoint =
  tc_checkpoint_id :: string
  tc_subject_id :: string
  tc_issued_at :: string
  tc_tip_digest :: string
  tc_record_count :: int
  tc_signing_key_id :: string
  tc_signing_key_digest :: string
  tc_signature :: string
  tc_previous :: "string option"
  tc_format_version :: string

definition checkpoint_post_init :: "checkpoint \<Rightarrow> unit result" where
  "checkpoint_post_init c = guards [
     (tc_format_version c \<noteq> ''1'', TrustAnchorError ''format version''),
     (blank (tc_checkpoint_id c), TrustAnchorError ''checkpoint_id''),
     (blank (tc_subject_id c), TrustAnchorError ''subject_id''),
     (blank (tc_issued_at c), TrustAnchorError ''issued_at''),
     (blank (tc_signing_key_id c), TrustAnchorError ''signing_key_id''),
     (blank (tc_signature c), TrustAnchorError ''signature''),
     (\<not> is_sha256 (tc_tip_digest c), TrustAnchorError ''history_tip_digest''),
     (\<not> is_sha256 (tc_signing_key_digest c), TrustAnchorError ''signing_key_digest''),
     (tc_record_count c < 0, TrustAnchorError ''history_record_count''),
     (case tc_previous c of None \<Rightarrow> False | Some d \<Rightarrow> \<not> is_sha256 d, TrustAnchorError ''previous_checkpoint_digest'')]"

definition checkpoint_payload :: "checkpoint \<Rightarrow> payload" where
  "checkpoint_payload c = [
     (''format_version'', JStr (tc_format_version c)),
     (''checkpoint_id'', JStr (tc_checkpoint_id c)),
     (''subject_id'', JStr (tc_subject_id c)),
     (''issued_at'', JStr (tc_issued_at c)),
     (''history_tip_digest'', JStr (tc_tip_digest c)),
     (''history_record_count'', JInt (tc_record_count c)),
     (''signing_key_id'', JStr (tc_signing_key_id c)),
     (''signing_key_digest'', JStr (tc_signing_key_digest c)),
     (''previous_checkpoint_digest'', jopt_str (tc_previous c))]"

definition checkpoint_bytes :: "checkpoint \<Rightarrow> string" where
  "checkpoint_bytes c = canonical (JObj (checkpoint_payload c))"

definition checkpoint_digest :: "checkpoint \<Rightarrow> string" where
  "checkpoint_digest c = digest_of (checkpoint_payload c)"

definition checkpoint_to_dict :: "checkpoint \<Rightarrow> payload" where
  "checkpoint_to_dict c = checkpoint_payload c @ [(''signature'', JStr (tc_signature c))]"

definition item_string :: "payload \<Rightarrow> string \<Rightarrow> string result" where
  "item_string d k = bindE (item d k) (\<lambda>v. require_string v k)"

definition checkpoint_from_dict :: "payload \<Rightarrow> checkpoint result" where
  "checkpoint_from_dict d =
     bindE (require_string (get_or d ''format_version'' (JStr ''1'')) ''format_version'') (\<lambda>fv.
     bindE (item_string d ''checkpoint_id'') (\<lambda>cid.
     bindE (item_string d ''subject_id'') (\<lambda>sid.
     bindE (item_string d ''issued_at'') (\<lambda>issued.
     bindE (item_string d ''history_tip_digest'') (\<lambda>htd.
     bindE (bindE (item d ''history_record_count'') (\<lambda>v. require_int v ''history_record_count'')) (\<lambda>count.
     bindE (item_string d ''signing_key_id'') (\<lambda>kid.
     bindE (item_string d ''signing_key_digest'') (\<lambda>kd.
     bindE (item_string d ''signature'') (\<lambda>sig.
     bindE (get_opt d ''previous_checkpoint_digest'' (\<lambda>v. require_string v ''previous_checkpoint_digest'')) (\<lambda>previous.
     construct checkpoint_post_init
       \<lparr>tc_checkpoint_id = cid, tc_subject_id = sid, tc_issued_at = issued, tc_tip_digest = htd,
        tc_record_count = count, tc_signing_key_id = kid, tc_signing_key_digest = kd, tc_signature = sig,
        tc_previous = previous, tc_format_version = fv\<rparr>))))))))))"

definition create_trust_checkpoint ::
    "string \<Rightarrow> string \<Rightarrow> string \<Rightarrow> string \<Rightarrow> int \<Rightarrow> string \<Rightarrow> string \<Rightarrow> string \<Rightarrow> string option \<Rightarrow> checkpoint result" where
  "create_trust_checkpoint checkpoint_id subject_id issued_at htd count kid kd signature previous =
     construct checkpoint_post_init
       \<lparr>tc_checkpoint_id = checkpoint_id, tc_subject_id = subject_id, tc_issued_at = issued_at, tc_tip_digest = htd,
        tc_record_count = count, tc_signing_key_id = kid, tc_signing_key_digest = kd,
        tc_signature = b64_encode signature, tc_previous = previous, tc_format_version = ''1''\<rparr>"

text \<open>\<open>Ed25519TrustCheckpointVerifier.verify\<close>.\<close>

definition decode_signature :: "string \<Rightarrow> string result" where
  "decode_signature s = b64_decode (\<lambda>m. TrustAnchorError (''signature '' @ m)) s"

definition verify_checkpoint :: "nacl \<Rightarrow> (string, string) dict \<Rightarrow> checkpoint \<Rightarrow> checkpoint result" where
  "verify_checkpoint nacl keys c =
     (case map_of keys (tc_signing_key_id c) of
        None \<Rightarrow> Inl (TrustAnchorError ''unknown signing key'')
      | Some public_key \<Rightarrow>
          if sha256_hex public_key \<noteq> tc_signing_key_digest c then Inl (TrustAnchorError ''key digest mismatch'')
          else (case bindE (decode_signature (tc_signature c)) (\<lambda>sig.
                  verify_ed25519_signature nacl public_key (checkpoint_bytes c) sig) of
              Inr _ \<Rightarrow> Inr c
            | Inl (RuntimeError _) \<Rightarrow> Inl (TrustAnchorError ''verification failed'')
            | Inl e \<Rightarrow> if is_value_error e then Inl (TrustAnchorError ''verification failed'') else Inl e))"

definition compare_local_tip :: "checkpoint \<Rightarrow> string \<Rightarrow> int \<Rightarrow> unit result" where
  "compare_local_tip c htd count = guards [
     (\<not> is_sha256 htd, TrustAnchorError ''history_tip_digest''),
     (count < 0, TrustAnchorError ''history_record_count''),
     (tc_tip_digest c \<noteq> htd \<or> tc_record_count c \<noteq> count, AnchorDiscrepancyError ''disagrees'')]"

definition ensure_checkpoint_sequence :: "checkpoint option \<Rightarrow> checkpoint \<Rightarrow> unit result" where
  "ensure_checkpoint_sequence previous current =
     (case previous of
        None \<Rightarrow> guards [(tc_previous current \<noteq> None, AnchorDiscrepancyError ''first checkpoint'')]
      | Some p \<Rightarrow> guards [
          (tc_previous current \<noteq> Some (checkpoint_digest p), AnchorDiscrepancyError ''discontinuous''),
          (tc_record_count current < tc_record_count p, AnchorDiscrepancyError ''rolled back'')])"

section \<open>The anchor directory\<close>

type_synonym dir = "(string, string) dict"

definition anchor_name :: "string \<Rightarrow> string result" where
  "anchor_name i =
     bindE (guards [
       (i = [] \<or> i = ''.'' \<or> i = ''..'', TrustAnchorError ''path segment''),
       (path_name i \<noteq> i, TrustAnchorError ''single path-safe segment'')]) (\<lambda>_. Inr (i @ ''.json''))"

definition anchor_retrieve :: "(checkpoint \<Rightarrow> checkpoint result) \<Rightarrow> dir \<Rightarrow> string \<Rightarrow> checkpoint result" where
  "anchor_retrieve verify d i =
     bindE (anchor_name i) (\<lambda>name.
     bindE (load_object (map_of d) name ''trust checkpoint'') (\<lambda>p.
     bindE (checkpoint_from_dict p) (\<lambda>c.
     if tc_checkpoint_id c \<noteq> i then Inl (TrustAnchorError ''storage key'') else verify c)))"

text \<open>\<open>root.glob("*.json")\<close>, and \<open>Path.stem\<close> of such a name.\<close>

definition is_json_name :: "string \<Rightarrow> bool" where
  "is_json_name n = (5 \<le> length n \<and> drop (length n - 5) n = ''.json'')"

definition path_stem :: "string \<Rightarrow> string" where
  "path_stem n = (if n = ''.json'' then n else take (length n - 5) n)"

definition checkpoint_key :: "checkpoint \<Rightarrow> int \<times> string" where
  "checkpoint_key c = (tc_record_count c, tc_issued_at c)"

definition anchor_latest ::
    "(checkpoint \<Rightarrow> checkpoint result) \<Rightarrow> dir \<Rightarrow> string option \<Rightarrow> checkpoint option result" where
  "anchor_latest verify d subject =
     bindE (mapE (\<lambda>n. anchor_retrieve verify d (path_stem n)) (filter is_json_name (map fst d))) (\<lambda>all.
     let cs = filter (\<lambda>c. subject = None \<or> subject = Some (tc_subject_id c)) all in
     if cs = [] then Inr None
     else bindE (guards [(subject = None \<and> 1 < length (remdups (map tc_subject_id cs)),
         AnchorDiscrepancyError ''requires a subject'')]) (\<lambda>_.
       let ordered = sort_key checkpoint_key cs;
           latest = last ordered;
           ties = filter (\<lambda>c. checkpoint_key c = checkpoint_key latest) ordered
       in bindE (guards [(1 < length ties, AnchorDiscrepancyError ''ambiguous'')]) (\<lambda>_.
          bindE (mapE (\<lambda>(p, c). ensure_checkpoint_sequence (Some p) c) (zip ordered (tl ordered))) (\<lambda>_.
          Inr (Some latest)))))"

text \<open>
  \<open>publish\<close>, when the process stops after \<open>written\<close> bytes of the temporary file; \<open>None\<close> is a completed
  publication, which moves the temporary file over its final name.
\<close>

definition anchor_publish_until ::
    "nat option \<Rightarrow> (checkpoint \<Rightarrow> checkpoint result) \<Rightarrow> dir \<Rightarrow> checkpoint \<Rightarrow> unit result \<times> dir" where
  "anchor_publish_until written verify d c =
     (let attempt =
        bindE (verify c) (\<lambda>_.
        bindE (anchor_name (tc_checkpoint_id c)) (\<lambda>name.
        case map_of d name of
          Some _ \<Rightarrow>
            bindE (anchor_retrieve verify d (tc_checkpoint_id c)) (\<lambda>existing.
            if checkpoint_digest existing = checkpoint_digest c \<and> tc_signature existing = tc_signature c
            then Inr None else Inl (AnchorDiscrepancyError ''different content''))
        | None \<Rightarrow>
            bindE (anchor_latest verify d (Some (tc_subject_id c))) (\<lambda>previous.
            bindE (ensure_checkpoint_sequence previous c) (\<lambda>_. Inr (Some name)))))
      in case attempt of
           Inl e \<Rightarrow> (Inl e, d)
         | Inr None \<Rightarrow> (Inr (), d)
         | Inr (Some name) \<Rightarrow>
             let tmp = name @ ''.tmp''; content = json_line (checkpoint_to_dict c) in
             (case written of
                Some k \<Rightarrow> (Inl (RuntimeError ''stopped''), AList.update tmp (take k content) d)
              | None \<Rightarrow> (Inr (), AList.update name content (AList.delete tmp d))))"

definition anchor_publish :: "(checkpoint \<Rightarrow> checkpoint result) \<Rightarrow> dir \<Rightarrow> checkpoint \<Rightarrow> unit result \<times> dir" where
  "anchor_publish verify d c = anchor_publish_until None verify d c"

section \<open>Documents\<close>

lemma json_ok_checkpoint [simp]:
  "json_ok (\<lambda>s. True) (JObj (checkpoint_payload c))" "json_ok (\<lambda>s. True) (JObj (checkpoint_to_dict c))"
  by (simp_all add: checkpoint_payload_def checkpoint_to_dict_def)

lemma checkpoint_from_stored:
  assumes "checkpoint_post_init c = Inr ()" "stored d (checkpoint_to_dict c)"
  shows "checkpoint_from_dict d = Inr c"
proof -
  have "construct checkpoint_post_init (c\<lparr>tc_previous := tc_previous c\<rparr>) = Inr c"
    using assms(1) by (simp add: construct_ok)
  then show ?thesis
    by (cases c, cases "tc_previous c")
      (simp_all add: checkpoint_from_dict_def item_string_def get_or_def get_opt_def require_string_def require_int_def
        storedD [OF assms(2)] checkpoint_to_dict_def checkpoint_payload_def jopt_str_def)
qed

lemma checkpoint_digest_inject:
  assumes "checkpoint_digest c = checkpoint_digest c'"
  shows "digest_collision (checkpoint_payload c) (checkpoint_payload c') \<or>
    checkpoint_payload c = checkpoint_payload c'"
proof -
  have "digest_collision (checkpoint_payload c) (checkpoint_payload c') \<or>
      (\<forall>k. map_option sort_keys (map_of (checkpoint_payload c) k) = map_option sort_keys (map_of (checkpoint_payload c') k))"
    using assms by (intro digest_of_inject) (simp_all add: checkpoint_digest_def)
  moreover have "checkpoint_payload c = checkpoint_payload c'"
    if k: "\<And>k. map_option sort_keys (map_of (checkpoint_payload c) k) = map_option sort_keys (map_of (checkpoint_payload c') k)"
    using k [of "''format_version''"] k [of "''checkpoint_id''"] k [of "''subject_id''"] k [of "''issued_at''"]
      k [of "''history_tip_digest''"] k [of "''history_record_count''"] k [of "''signing_key_id''"]
      k [of "''signing_key_digest''"] k [of "''previous_checkpoint_digest''"]
    by (simp add: checkpoint_payload_def)
  ultimately show ?thesis by blast
qed

lemma ensure_sequence_Inl: "ensure_checkpoint_sequence p c = Inl e \<Longrightarrow> \<exists>m. e = AnchorDiscrepancyError m"
  by (auto simp: ensure_checkpoint_sequence_def guards.simps split: option.splits if_splits)

section \<open>What an anchor directory holds\<close>

text \<open>
  A checkpoint the anchor can keep: constructed, accepted by the verifier, encodable, and with a path-safe
  identity. A directory holds checkpoints when its JSON files are exactly their documents.
\<close>

definition anchorable :: "(checkpoint \<Rightarrow> checkpoint result) \<Rightarrow> checkpoint \<Rightarrow> bool" where
  "anchorable verify c =
     (checkpoint_post_init c = Inr () \<and> is_ok (verify c) \<and> is_ok (anchor_name (tc_checkpoint_id c)) \<and>
      json_ok utf8_ok (JObj (checkpoint_to_dict c)))"

definition checkpoint_file :: "checkpoint \<Rightarrow> string \<times> string" where
  "checkpoint_file c = (tc_checkpoint_id c @ ''.json'', json_line (checkpoint_to_dict c))"

definition anchor_holds :: "(checkpoint \<Rightarrow> checkpoint result) \<Rightarrow> dir \<Rightarrow> checkpoint list \<Rightarrow> bool" where
  "anchor_holds verify d cs =
     (distinct (map fst d) \<and> list_all (anchorable verify) cs \<and>
      filter (\<lambda>f. is_json_name (fst f)) d = map checkpoint_file cs)"

fun chained :: "checkpoint option \<Rightarrow> checkpoint list \<Rightarrow> bool" where
  "chained p [] = True"
| "chained p (c # cs) =
     (ensure_checkpoint_sequence p c = Inr () \<and>
      (case p of None \<Rightarrow> True | Some q \<Rightarrow> checkpoint_key q < checkpoint_key c) \<and> chained (Some c) cs)"

definition chain_of :: "checkpoint list \<Rightarrow> string \<Rightarrow> checkpoint list" where
  "chain_of cs s = sort_key checkpoint_key (filter (\<lambda>c. tc_subject_id c = s) cs)"

definition well_chained :: "checkpoint list \<Rightarrow> bool" where
  "well_chained cs = (\<forall>s. chained None (chain_of cs s))"

definition last_opt :: "'a list \<Rightarrow> 'a option" where
  "last_opt xs = (if xs = [] then None else Some (last xs))"

lemma is_json_name_file [simp]: "is_json_name (i @ ''.json'')" "path_stem (i @ ''.json'') = (if i = [] then ''.json'' else i)"
  "\<not> is_json_name (i @ ''.json.tmp'')"
  by (simp_all add: is_json_name_def path_stem_def)

lemma anchor_name_Inr: "anchor_name i = Inr n \<longleftrightarrow> i \<notin> {[], ''.'', ''..''} \<and> path_name i = i \<and> n = i @ ''.json''"
  by (auto simp: anchor_name_def bindE_eq_Inr_iff)

lemma anchorable_name: "anchorable verify c \<Longrightarrow> anchor_name (tc_checkpoint_id c) = Inr (tc_checkpoint_id c @ ''.json'')"
  by (auto simp: anchorable_def is_ok_iff anchor_name_Inr)

lemma load_json_line:
  assumes "json_ok utf8_ok (JObj p)" "json_ok (\<lambda>s. True) (JObj p)" "fs name = Some (json_line p)"
  shows "load_object fs name field = Inr (sorted_payload p)"
  using assms
  by (simp add: load_object_def utf8_ok_ascii [OF printable_byte [OF json_line_printable]] loads_object_def
      loads_json_line require_object_id [OF json_ok_sorted_payload])

lemma chained_sorted: "chained p cs \<Longrightarrow> sorted_wrt (\<lambda>a b. checkpoint_key a < checkpoint_key b) cs \<and>
    (\<forall>q. p = Some q \<longrightarrow> (\<forall>c \<in> set cs. checkpoint_key q < checkpoint_key c))"
proof (induction cs arbitrary: p)
  case (Cons c cs)
  then have "sorted_wrt (\<lambda>a b. checkpoint_key a < checkpoint_key b) cs" "\<forall>x \<in> set cs. checkpoint_key c < checkpoint_key x"
    by auto
  with Cons.prems show ?case by (auto split: option.splits)
qed simp

lemma chained_snoc:
  "chained p (cs @ [c]) \<longleftrightarrow> chained p cs \<and>
    ensure_checkpoint_sequence (if cs = [] then p else Some (last cs)) c = Inr () \<and>
    (case (if cs = [] then p else Some (last cs)) of None \<Rightarrow> True | Some q \<Rightarrow> checkpoint_key q < checkpoint_key c)"
  by (induction cs arbitrary: p) (auto split: option.splits)

lemma chained_links: "chained p cs \<Longrightarrow>
    mapE (\<lambda>(p, c). ensure_checkpoint_sequence (Some p) c) (zip cs (tl cs)) = Inr (replicate (length cs - 1) ())"
proof (induction cs arbitrary: p)
  case (Cons c cs)
  show ?case
  proof (cases cs)
    case (Cons a list)
    with Cons.IH [of "Some c"] Cons.prems show ?thesis by simp
  qed simp
qed simp

lemma chained_previous:
  "chained p cs \<Longrightarrow> c \<in> set cs \<Longrightarrow> tc_previous c = None \<or>
    (\<exists>q. (q \<in> set cs \<or> p = Some q) \<and> tc_previous c = Some (checkpoint_digest q))"
proof (induction cs arbitrary: p)
  case (Cons x cs)
  show ?case
  proof (cases "c = x")
    case True
    with Cons.prems show ?thesis by (cases p) (auto simp: ensure_checkpoint_sequence_def)
  next
    case False
    with Cons.prems have "chained (Some x) cs" "c \<in> set cs" by simp_all
    from Cons.IH [OF this] show ?thesis by auto
  qed
qed simp

lemma sort_key_snoc_max:
  assumes "\<forall>x \<in> set xs. f x \<le> f c"
  shows "sort_key f (xs @ [c]) = sort_key f xs @ [c]"
proof -
  have ins: "insort_key f x (ys @ [c]) = insort_key f x ys @ [c]" if "f x \<le> f c" for x ys
    using that by (induction ys) auto
  show ?thesis using assms by (induction xs) (simp_all add: ins)
qed

lemma strict_ties:
  "sorted_wrt (\<lambda>a b. f a < f b) xs \<Longrightarrow> xs \<noteq> [] \<Longrightarrow> filter (\<lambda>c. f c = f (last xs)) xs = [last xs]"
  for f :: "'a \<Rightarrow> 'b :: linorder"
  by (induction xs rule: rev_induct) (auto simp: sorted_wrt_append filter_empty_conv)

lemma sorted_last: "sorted (map f xs) \<Longrightarrow> x \<in> set xs \<Longrightarrow> f x \<le> f (last xs)"
  for f :: "'a \<Rightarrow> 'b :: linorder"
  by (induction xs rule: rev_induct) (auto simp: sorted_append)

lemma two_members: "distinct xs \<Longrightarrow> a \<in> set xs \<Longrightarrow> b \<in> set xs \<Longrightarrow> a \<noteq> b \<Longrightarrow> 1 < length xs"
  by (cases xs; cases "tl xs") auto

lemma member_not_last:
  assumes "x \<in> set xs" "x \<noteq> last xs"
  obtains i where "xs ! i = x" "Suc i < length xs"
proof -
  obtain i where i: "i < length xs" "xs ! i = x" using assms(1) by (auto simp: in_set_conv_nth)
  have "last xs = xs ! (length xs - 1)" using assms(1) by (intro last_conv_nth) auto
  with i assms(2) have "i \<noteq> length xs - 1" by metis
  with i that show thesis by auto
qed

lemma update_fresh: "k \<notin> fst ` set d \<Longrightarrow> AList.update k v d = d @ [(k, v)]"
  by (induction d) auto

lemma filter_update_other: "\<not> P k \<Longrightarrow> filter (\<lambda>f. P (fst f)) (AList.update k v d) = filter (\<lambda>f. P (fst f)) d"
  by (induction d) auto

lemma filter_delete_other: "\<not> P k \<Longrightarrow> filter (\<lambda>f. P (fst f)) (AList.delete k d) = filter (\<lambda>f. P (fst f)) d"
  by (induction d) auto

definition anchor_added :: "dir \<Rightarrow> checkpoint \<Rightarrow> dir" where
  "anchor_added d c =
     AList.update (fst (checkpoint_file c)) (snd (checkpoint_file c)) (AList.delete (fst (checkpoint_file c) @ ''.tmp'') d)"

section \<open>The store under a verifier that returns what it accepts\<close>

locale checkpoint_verifier =
  fixes verify :: "checkpoint \<Rightarrow> checkpoint result"
  assumes verify_returns: "verify c = Inr c' \<Longrightarrow> c' = c"
begin

lemma anchorable_verify: "anchorable verify c \<Longrightarrow> verify c = Inr c"
  by (auto simp: anchorable_def is_ok_iff dest: verify_returns)

lemma held_file: "anchor_holds verify d cs \<Longrightarrow> f \<in> set d \<Longrightarrow> is_json_name (fst f) \<Longrightarrow> f \<in> checkpoint_file ` set cs"
proof -
  assume a: "anchor_holds verify d cs" "f \<in> set d" "is_json_name (fst f)"
  then have "f \<in> set (filter (\<lambda>f. is_json_name (fst f)) d)" by simp
  with a(1) show ?thesis unfolding anchor_holds_def by simp
qed

lemma held_lookup:
  assumes "anchor_holds verify d cs" "c \<in> set cs"
  shows "map_of d (tc_checkpoint_id c @ ''.json'') = Some (json_line (checkpoint_to_dict c))"
proof -
  have "checkpoint_file c \<in> set (filter (\<lambda>f. is_json_name (fst f)) d)"
    using assms by (simp add: anchor_holds_def)
  then have "checkpoint_file c \<in> set d" by (simp only: set_filter mem_Collect_eq)
  with assms(1) show ?thesis
    by (intro map_of_is_SomeI) (simp_all add: anchor_holds_def checkpoint_file_def)
qed

lemma fresh_lookup:
  assumes "anchor_holds verify d cs" "i \<notin> tc_checkpoint_id ` set cs"
  shows "map_of d (i @ ''.json'') = None"
proof (rule ccontr)
  assume "map_of d (i @ ''.json'') \<noteq> None"
  then obtain b where "(i @ ''.json'', b) \<in> set d" by (auto dest: map_of_SomeD)
  from held_file [OF assms(1) this] assms(2) show False by (auto simp: checkpoint_file_def)
qed

lemma retrieve_held:
  assumes "anchor_holds verify d cs" "c \<in> set cs"
  shows "anchor_retrieve verify d (tc_checkpoint_id c) = Inr c"
proof -
  have a: "anchorable verify c" using assms by (auto simp: anchor_holds_def list_all_iff)
  then have "load_object (map_of d) (tc_checkpoint_id c @ ''.json'') f = Inr (sorted_payload (checkpoint_to_dict c))" for f
    by (intro load_json_line held_lookup [OF assms]) (simp_all add: anchorable_def)
  moreover have "checkpoint_from_dict (sorted_payload (checkpoint_to_dict c)) = Inr c"
    using a by (intro checkpoint_from_stored stored_sorted_payload) (simp_all add: anchorable_def)
  ultimately show ?thesis
    by (simp add: anchor_retrieve_def anchorable_name [OF a] anchorable_verify [OF a])
qed

lemma listed_held:
  assumes "anchor_holds verify d cs"
  shows "mapE (\<lambda>n. anchor_retrieve verify d (path_stem n)) (filter is_json_name (map fst d)) = Inr cs"
proof -
  have "filter is_json_name (map fst d) = map fst (filter (\<lambda>f. is_json_name (fst f)) d)"
    by (simp add: filter_map comp_def)
  also have "\<dots> = map (\<lambda>c. tc_checkpoint_id c @ ''.json'') cs"
    using assms by (simp add: anchor_holds_def checkpoint_file_def comp_def)
  finally have n: "filter is_json_name (map fst d) = map (\<lambda>c. tc_checkpoint_id c @ ''.json'') cs" .
  have "tc_checkpoint_id c \<noteq> []" if "c \<in> set cs" for c
    using assms that by (auto simp: anchor_holds_def list_all_iff anchorable_def is_ok_iff anchor_name_Inr)
  then have "mapE (\<lambda>c. anchor_retrieve verify d (path_stem (tc_checkpoint_id c @ ''.json''))) cs = Inr (map id cs)"
    by (intro mapE_Inr_id) (simp add: retrieve_held [OF assms])
  then show ?thesis by (simp add: n mapE_map)
qed

lemma latest_held:
  assumes "anchor_holds verify d cs" "chained None (chain_of cs s)"
  shows "anchor_latest verify d (Some s) = Inr (last_opt (chain_of cs s))"
proof (cases "filter (\<lambda>c. tc_subject_id c = s) cs = []")
  case True
  then have "filter (\<lambda>c. s = tc_subject_id c) cs = []" by (auto simp: filter_empty_conv)
  with True show ?thesis by (simp add: anchor_latest_def listed_held [OF assms(1)] last_opt_def chain_of_def)
next
  case False
  have f: "filter (\<lambda>c. s = tc_subject_id c) cs = filter (\<lambda>c. tc_subject_id c = s) cs" by (intro filter_cong) auto
  have ne: "chain_of cs s \<noteq> []"
    using False unfolding chain_of_def by (metis length_0_conv length_sort)
  have "sorted_wrt (\<lambda>a b. checkpoint_key a < checkpoint_key b) (chain_of cs s)"
    using chained_sorted [OF assms(2)] by simp
  from strict_ties [OF this ne] chained_links [OF assms(2)] False ne show ?thesis
    by (simp add: anchor_latest_def listed_held [OF assms(1)] f chain_of_def [symmetric] Let_def last_opt_def)
qed

lemma publish_fresh:
  assumes "anchor_holds verify d cs" "well_chained cs" "anchorable verify c" "tc_checkpoint_id c \<notin> tc_checkpoint_id ` set cs"
  shows "anchor_publish verify d c =
    (case ensure_checkpoint_sequence (last_opt (chain_of cs (tc_subject_id c))) c of
       Inl e \<Rightarrow> (Inl e, d) | Inr _ \<Rightarrow> (Inr (), anchor_added d c))"
    and "\<exists>e. anchor_publish_until (Some k) verify d c = (Inl e, d) \<or>
      anchor_publish_until (Some k) verify d c =
        (Inl e, AList.update (tc_checkpoint_id c @ ''.json.tmp'') (take k (json_line (checkpoint_to_dict c))) d)"
proof -
  have "chained None (chain_of cs (tc_subject_id c))" using assms(2) by (simp add: well_chained_def)
  note l = latest_held [OF assms(1) this]
  show "anchor_publish verify d c =
    (case ensure_checkpoint_sequence (last_opt (chain_of cs (tc_subject_id c))) c of
       Inl e \<Rightarrow> (Inl e, d) | Inr _ \<Rightarrow> (Inr (), anchor_added d c))"
    by (simp add: anchor_publish_def anchor_publish_until_def anchorable_verify [OF assms(3)] anchorable_name [OF assms(3)]
        fresh_lookup [OF assms(1,4)] l anchor_added_def checkpoint_file_def Let_def split: sum.split)
  show "\<exists>e. anchor_publish_until (Some k) verify d c = (Inl e, d) \<or>
      anchor_publish_until (Some k) verify d c =
        (Inl e, AList.update (tc_checkpoint_id c @ ''.json.tmp'') (take k (json_line (checkpoint_to_dict c))) d)"
    by (cases "ensure_checkpoint_sequence (last_opt (chain_of cs (tc_subject_id c))) c")
      (auto simp: anchor_publish_until_def anchorable_verify [OF assms(3)] anchorable_name [OF assms(3)]
        fresh_lookup [OF assms(1,4)] l Let_def)
qed

lemma added_holds:
  assumes "anchor_holds verify d cs" "anchorable verify c" "tc_checkpoint_id c \<notin> tc_checkpoint_id ` set cs"
  shows "anchor_holds verify (anchor_added d c) (cs @ [c])"
proof -
  let ?d = "AList.delete (tc_checkpoint_id c @ ''.json.tmp'') d"
  have "tc_checkpoint_id c @ ''.json'' \<notin> fst ` set ?d"
    using fresh_lookup [OF assms(1,3)] by (auto simp: map_of_eq_None_iff AList.delete_eq)
  then have "anchor_added d c = ?d @ [checkpoint_file c]" and "tc_checkpoint_id c @ ''.json'' \<notin> fst ` set ?d"
    by (simp_all add: anchor_added_def checkpoint_file_def update_fresh)
  moreover have "distinct (map fst ?d)"
    using assms(1) by (simp add: anchor_holds_def distinct_delete)
  moreover have "filter (\<lambda>f. is_json_name (fst f)) ?d = map checkpoint_file cs"
    using assms(1) filter_delete_other [of is_json_name "tc_checkpoint_id c @ ''.json.tmp''" d]
    by (simp add: anchor_holds_def)
  ultimately show ?thesis
    using assms by (simp add: anchor_holds_def checkpoint_file_def)
qed

lemma chain_of_snoc:
  assumes "chained None (chain_of cs (tc_subject_id c))"
    and "\<And>p. last_opt (chain_of cs (tc_subject_id c)) = Some p \<Longrightarrow> checkpoint_key p < checkpoint_key c"
  shows "chain_of (cs @ [c]) s = (if s = tc_subject_id c then chain_of cs s @ [c] else chain_of cs s)"
proof (cases "s = tc_subject_id c")
  case True
  let ?xs = "filter (\<lambda>c. tc_subject_id c = s) cs"
  have "checkpoint_key x \<le> checkpoint_key c" if x: "x \<in> set ?xs" for x
  proof -
    have x: "x \<in> set (chain_of cs s)" using x by (simp add: chain_of_def)
    then obtain ys p where ys: "chain_of cs s = ys @ [p]" by (cases "chain_of cs s" rule: rev_cases) auto
    have "sorted_wrt (\<lambda>a b. checkpoint_key a < checkpoint_key b) (ys @ [p])"
      using chained_sorted [OF assms(1)] True ys by simp
    with x ys have "checkpoint_key x \<le> checkpoint_key p" by (auto simp: sorted_wrt_append)
    also have "\<dots> < checkpoint_key c" using assms(2) [of p] True ys by (simp add: last_opt_def)
    finally show ?thesis by simp
  qed
  then have "sort_key checkpoint_key (?xs @ [c]) = sort_key checkpoint_key ?xs @ [c]"
    by (intro sort_key_snoc_max) blast
  with True show ?thesis by (simp add: chain_of_def)
qed (simp add: chain_of_def)

lemma publish_later:
  assumes "well_chained cs" "ensure_checkpoint_sequence (last_opt (chain_of cs (tc_subject_id c))) c = Inr ()"
    and "\<And>p. last_opt (chain_of cs (tc_subject_id c)) = Some p \<Longrightarrow> checkpoint_key p < checkpoint_key c"
  shows "well_chained (cs @ [c])" "last_opt (chain_of (cs @ [c]) (tc_subject_id c)) = Some c"
proof -
  have ch: "chained None (chain_of cs s)" for s using assms(1) by (simp add: well_chained_def)
  have sn: "chain_of (cs @ [c]) s = (if s = tc_subject_id c then chain_of cs s @ [c] else chain_of cs s)" for s
    by (rule chain_of_snoc [OF ch]) (rule assms(3))
  have "chained None (chain_of cs (tc_subject_id c) @ [c])"
    unfolding chained_snoc using ch assms(2,3) by (auto simp: last_opt_def split: if_splits option.splits)
  with ch sn show "well_chained (cs @ [c])" by (simp add: well_chained_def)
  show "last_opt (chain_of (cs @ [c]) (tc_subject_id c)) = Some c" by (simp add: sn last_opt_def)
qed

text \<open>A pair of neighbours that do not follow each other makes the latest checkpoint unavailable.\<close>

lemma broken_links:
  assumes "Suc i < length xs" "ensure_checkpoint_sequence (Some (xs ! i)) (xs ! Suc i) \<noteq> Inr ()"
  shows "\<exists>m. mapE (\<lambda>(p, c). ensure_checkpoint_sequence (Some p) c) (zip xs (tl xs)) = Inl (AnchorDiscrepancyError m)"
  using assms
proof (induction xs arbitrary: i)
  case (Cons x xs)
  then obtain y ys where ys: "xs = y # ys" by (cases xs) auto
  show ?case
  proof (cases "ensure_checkpoint_sequence (Some x) y")
    case (Inl e)
    with ensure_sequence_Inl [OF Inl] ys show ?thesis by auto
  next
    case (Inr u)
    with Cons.prems ys obtain j where j: "i = Suc j" by (cases i) auto
    with Cons.IH [of j] Cons.prems ys Inr show ?thesis by auto
  qed
qed simp

lemma publish_not_later:
  assumes holds: "anchor_holds verify d' (cs @ [c])" and ch: "chained None (chain_of cs (tc_subject_id c))"
    and fresh: "tc_checkpoint_id c \<notin> tc_checkpoint_id ` set cs"
    and p: "last_opt (chain_of cs (tc_subject_id c)) = Some p" "\<not> checkpoint_key p < checkpoint_key c"
  shows "(\<exists>q \<in> set cs. digest_collision (checkpoint_payload q) (checkpoint_payload c)) \<or>
    (\<exists>m. anchor_latest verify d' (Some (tc_subject_id c)) = Inl (AnchorDiscrepancyError m))"
proof -
  let ?s = "tc_subject_id c"
  let ?T = "chain_of (cs @ [c]) ?s"
  have T: "set ?T = insert c (set (chain_of cs ?s))" "length ?T = Suc (length (chain_of cs ?s))"
    "sorted (map checkpoint_key ?T)" by (auto simp: chain_of_def)
  have sub: "set (chain_of cs ?s) \<subseteq> set cs" by (auto simp: chain_of_def)
  have pin: "p \<in> set (chain_of cs ?s)" using p(1) by (auto simp: last_opt_def split: if_splits)
  have "p \<noteq> c" using pin sub fresh by auto
  have "distinct ?T"
  proof -
    have "distinct (map fst d')" "filter (\<lambda>f. is_json_name (fst f)) d' = map checkpoint_file (cs @ [c])"
      using holds by (simp_all add: anchor_holds_def)
    then have "distinct (map fst (map checkpoint_file (cs @ [c])))" by (metis distinct_map_filter)
    then have "distinct (cs @ [c])" by (simp only: map_map) (blast dest: distinct_map [THEN iffD1])
    then show ?thesis by (simp add: chain_of_def)
  qed
  have f: "filter (\<lambda>x. ?s = tc_subject_id x) (cs @ [c]) = filter (\<lambda>x. tc_subject_id x = ?s) (cs @ [c])"
    by (intro filter_cong) auto
  have ne: "?T \<noteq> []" using T(2) by auto
  let ?ties = "filter (\<lambda>x. checkpoint_key x = checkpoint_key (last ?T)) ?T"
  let ?links = "mapE (\<lambda>(p, c). ensure_checkpoint_sequence (Some p) c) (zip ?T (tl ?T))"
  have latest: "anchor_latest verify d' (Some ?s) =
      bindE (guards [(1 < length ?ties, AnchorDiscrepancyError ''ambiguous'')]) (\<lambda>_. bindE ?links (\<lambda>_. Inr (Some (last ?T))))"
    using ne unfolding anchor_latest_def listed_held [OF holds] bindE_Inr
    by (simp only: f option.simps simp_thms filter_False) (auto simp: chain_of_def Let_def)
  have le: "checkpoint_key x \<le> checkpoint_key p" if "x \<in> set (chain_of cs ?s)" for x
    using sorted_last [of checkpoint_key "chain_of cs ?s" x] that p(1)
    by (auto simp: last_opt_def chain_of_def split: if_splits)
  have ge: "checkpoint_key p \<le> checkpoint_key (last ?T)"
    using sorted_last [OF T(3), of p] pin T(1) by blast
  have last_in: "last ?T = c \<or> last ?T \<in> set (chain_of cs ?s)" using last_in_set [OF ne] T(1) by blast
  show ?thesis
  proof (cases "checkpoint_key c = checkpoint_key p")
    case True
    have "checkpoint_key (last ?T) = checkpoint_key p" using last_in True le ge by force
    with True pin T(1) have "c \<in> set ?ties" "p \<in> set ?ties" by auto
    with two_members [of ?ties c p] \<open>distinct ?T\<close> \<open>p \<noteq> c\<close> have "1 < length ?ties" by (metis distinct_filter)
    then show ?thesis unfolding latest by simp
  next
    case False
    with p(2) have "checkpoint_key c < checkpoint_key p" by auto
    with ge have "c \<noteq> last ?T" by auto
    moreover have "c \<in> set ?T" using T(1) by blast
    ultimately obtain i where i: "?T ! i = c" "Suc i < length ?T" by (metis member_not_last)
    let ?n = "?T ! Suc i"
    have "?n \<noteq> c" using nth_eq_iff_index_eq [OF \<open>distinct ?T\<close>, of "Suc i" i] i by auto
    moreover have "?n \<in> set ?T" using i(2) by (rule nth_mem)
    ultimately have n: "?n \<in> set (chain_of cs ?s)" using T(1) by blast
    show ?thesis
    proof (cases "ensure_checkpoint_sequence (Some c) ?n")
      case (Inl e)
      then obtain m where "?links = Inl (AnchorDiscrepancyError m)"
        using broken_links [OF i(2)] i(1) by auto
      then show ?thesis unfolding latest by (auto simp: guards.simps)
    next
      case (Inr u)
      then have "tc_previous ?n = Some (checkpoint_digest c)"
        by (auto simp: ensure_checkpoint_sequence_def)
      with chained_previous [OF ch n] obtain q where q: "q \<in> set cs" "checkpoint_digest q = checkpoint_digest c"
        using sub by auto
      have "tc_checkpoint_id q \<noteq> tc_checkpoint_id c" using q(1) fresh by (metis imageI)
      then have "checkpoint_payload q \<noteq> checkpoint_payload c" by (simp add: checkpoint_payload_def)
      with checkpoint_digest_inject [OF q(2)] q(1) show ?thesis by blast
    qed
  qed
qed

end

interpretation ed25519: checkpoint_verifier "verify_checkpoint nacl keys" for nacl keys
  by unfold_locales (auto simp: verify_checkpoint_def split: option.splits if_splits sum.splits exn.splits)

section \<open>Publication\<close>


text \<open>
  Publication accepts checkpoints that make their subject unusable. It does not compare issue times, so
  a checkpoint that continues the latest one but is not later by its key is written; from then on the
  latest checkpoint of the subject cannot be determined and every further publication for it fails, or two
  payloads collide under SHA-256.
\<close>

theorem anchor_publish_poisons:
  assumes "anchor_holds (verify_checkpoint nacl keys) d cs" "well_chained cs"
    and "anchorable (verify_checkpoint nacl keys) c" "tc_checkpoint_id c \<notin> tc_checkpoint_id ` set cs"
    and "last_opt (chain_of cs (tc_subject_id c)) = Some p" "ensure_checkpoint_sequence (Some p) c = Inr ()"
    and "\<not> checkpoint_key p < checkpoint_key c"
  shows "\<exists>d'. anchor_publish (verify_checkpoint nacl keys) d c = (Inr (), d') \<and>
    ((\<exists>q \<in> set cs. digest_collision (checkpoint_payload q) (checkpoint_payload c)) \<or>
     (\<exists>m. anchor_latest (verify_checkpoint nacl keys) d' (Some (tc_subject_id c)) = Inl (AnchorDiscrepancyError m) \<and>
       (\<forall>c'. anchorable (verify_checkpoint nacl keys) c' \<and> tc_subject_id c' = tc_subject_id c \<and>
          tc_checkpoint_id c' \<notin> tc_checkpoint_id ` set (cs @ [c]) \<longrightarrow>
          anchor_publish (verify_checkpoint nacl keys) d' c' = (Inl (AnchorDiscrepancyError m), d'))))"
proof -
  let ?V = "verify_checkpoint nacl keys"
  let ?d = "anchor_added d c"
  have pub: "anchor_publish ?V d c = (Inr (), ?d)"
    using ed25519.publish_fresh(1) [OF assms(1-4)] assms(5,6) by simp
  have added: "anchor_holds ?V ?d (cs @ [c])"
    by (rule ed25519.added_holds [OF assms(1,3,4)])
  have stuck: "anchor_publish ?V ?d c' = (Inl e, ?d)"
    if "anchor_latest ?V ?d (Some (tc_subject_id c)) = Inl e" "anchorable ?V c'" "tc_subject_id c' = tc_subject_id c"
      "tc_checkpoint_id c' \<notin> tc_checkpoint_id ` set (cs @ [c])" for e c'
    using that ed25519.fresh_lookup [OF added that(4)]
    by (simp add: anchor_publish_def anchor_publish_until_def ed25519.anchorable_verify anchorable_name)
  have "chained None (chain_of cs (tc_subject_id c))" using assms(2) by (simp add: well_chained_def)
  from ed25519.publish_not_later [OF added this assms(4,5,7)] pub stuck show ?thesis by blast
qed

section \<open>A sample anchor\<close>

definition sample_nacl :: nacl where
  "sample_nacl = Some (\<lambda>public_key message signature. signature = public_key)"

definition sample_keys :: "(string, string) dict" where
  "sample_keys = [(''k'', ''pk'')]"

definition sample_checkpoint :: "string \<Rightarrow> string \<Rightarrow> string option \<Rightarrow> checkpoint" where
  "sample_checkpoint i issued previous =
     \<lparr>tc_checkpoint_id = i, tc_subject_id = ''s'', tc_issued_at = issued, tc_tip_digest = replicate 64 CHR ''0'',
      tc_record_count = 3, tc_signing_key_id = ''k'', tc_signing_key_digest = sha256_hex ''pk'',
      tc_signature = ''cGs'', tc_previous = previous, tc_format_version = ''1''\<rparr>"

definition first_checkpoint :: checkpoint where
  "first_checkpoint = sample_checkpoint ''c1'' ''2024-02'' None"

definition next_checkpoint :: "string \<Rightarrow> checkpoint" where
  "next_checkpoint issued = sample_checkpoint ''c2'' issued (Some (checkpoint_digest first_checkpoint))"

lemma sample_anchorable:
  assumes "i \<in> {''c1'', ''c2''}" "issued \<in> {''2024-01'', ''2024-02'', ''2024-03''}"
    and "\<And>d. previous = Some d \<Longrightarrow> is_sha256 d"
  shows "anchorable (verify_checkpoint sample_nacl sample_keys) (sample_checkpoint i issued previous)"
proof -
  let ?c = "sample_checkpoint i issued previous"
  have z: "is_sha256 (replicate 64 CHR ''0'')" by code_simp
  have n: "anchor_name ''c1'' = Inr ''c1.json''" "anchor_name ''c2'' = Inr ''c2.json''" by code_simp+
  have dec: "decode_signature ''cGs'' = Inr ''pk''" by code_simp
  have u: "utf8_ok x" if "x \<in> {''c1'', ''c2'', ''2024-01'', ''2024-02'', ''2024-03'', ''s'', ''k'', ''cGs'', ''1''}" for x
    using that by (intro utf8_ok_ascii) (auto simp: byte_def)
  have keys: "list_all utf8_ok (map fst (checkpoint_to_dict ?c))"
    by (simp add: checkpoint_to_dict_def checkpoint_payload_def utf8_ok_ascii byte_def)
  have "json_ok utf8_ok (jopt_str previous)"
    using assms(3) by (cases previous) (simp_all add: jopt_str_def utf8_ok_sha256)
  then have vals: "list_all (json_ok utf8_ok) (map snd (checkpoint_to_dict ?c))"
    using assms(1,2) u utf8_ok_sha256 [OF z]
    by (auto simp: checkpoint_to_dict_def checkpoint_payload_def sample_checkpoint_def utf8_ok_sha256)
  have "json_ok utf8_ok (JObj (checkpoint_to_dict ?c))"
    by (rule json_okI [OF _ keys vals]) (simp add: checkpoint_to_dict_def checkpoint_payload_def)
  moreover have "checkpoint_post_init ?c = Inr ()"
    using assms z by (auto simp: checkpoint_post_init_def sample_checkpoint_def split: option.split)
  moreover have "is_ok (verify_checkpoint sample_nacl sample_keys ?c)"
    by (simp add: verify_checkpoint_def sample_checkpoint_def sample_keys_def sample_nacl_def
        verify_ed25519_signature_def dec)
  ultimately show ?thesis using assms(1) n by (auto simp: anchorable_def sample_checkpoint_def)
qed

lemma sample_anchored:
  "anchor_holds (verify_checkpoint sample_nacl sample_keys) [checkpoint_file first_checkpoint] [first_checkpoint]"
  "well_chained [first_checkpoint]"
  "last_opt (chain_of [first_checkpoint] ''s'') = Some first_checkpoint"
  using sample_anchorable [of "''c1''" "''2024-02''" None] is_json_name_file(1) [of "''c1''"]
  by (simp_all add: anchor_holds_def first_checkpoint_def checkpoint_file_def well_chained_def chain_of_def
      last_opt_def ensure_checkpoint_sequence_def sample_checkpoint_def)

lemma next_anchorable:
  "issued \<in> {''2024-01'', ''2024-03''} \<Longrightarrow>
    anchorable (verify_checkpoint sample_nacl sample_keys) (next_checkpoint issued)"
  "tc_checkpoint_id (next_checkpoint issued) \<notin> tc_checkpoint_id ` set [first_checkpoint]"
  "ensure_checkpoint_sequence (Some first_checkpoint) (next_checkpoint issued) = Inr ()"
  "tc_subject_id (next_checkpoint issued) = ''s''"
  by (auto simp: next_checkpoint_def checkpoint_digest_def sample_checkpoint_def first_checkpoint_def
      ensure_checkpoint_sequence_def intro!: sample_anchorable [unfolded sample_checkpoint_def])


lemma anchor_publish_poisons_witness:
  "\<exists>d'. anchor_publish (verify_checkpoint sample_nacl sample_keys) [checkpoint_file first_checkpoint]
    (next_checkpoint ''2024-01'') = (Inr (), d')"
proof -
  have "\<not> checkpoint_key first_checkpoint < checkpoint_key (next_checkpoint ''2024-01'')"
    by (simp add: checkpoint_key_def first_checkpoint_def next_checkpoint_def sample_checkpoint_def)
  with anchor_publish_poisons [OF sample_anchored(1,2) next_anchorable(1,2), of "''2024-01''" first_checkpoint]
    sample_anchored(3) next_anchorable(3,4) [of "''2024-01''"]
  show ?thesis by auto
qed

end
