(* ===== verification/AttestationTrust.thy ===== *)
theory AttestationTrust
  imports TrustAnchor
begin

text \<open>
  \<open>domain/attestation_trust.py\<close>: signed snapshots of the keys trusted to sign attestations, and the rules
  for the step from one snapshot to the next.
\<close>

section \<open>Anchors and snapshots\<close>

record trust_key =
  ta_key_id :: string
  ta_public_key :: string
  ta_status :: string
  ta_superseded_by :: "string option"

definition trust_key_post_init :: "trust_key \<Rightarrow> unit result" where
  "trust_key_post_init a = guards [
     (blank (ta_key_id a), ValueError ''key_id''),
     (ta_status a \<notin> {''active'', ''revoked'', ''superseded''}, ValueError ''status''),
     (length (ta_public_key a) \<noteq> 32, ValueError ''32 bytes''),
     (ta_status a = ''superseded'' \<and> blank (opt_or (ta_superseded_by a) []), ValueError ''replacement key''),
     (ta_status a \<noteq> ''superseded'' \<and> ta_superseded_by a \<noteq> None, ValueError ''superseded_by'')]"

definition trust_key_to_dict :: "trust_key \<Rightarrow> payload" where
  "trust_key_to_dict a = [
     (''key_id'', JStr (ta_key_id a)),
     (''public_key'', JStr (b64_encode (ta_public_key a))),
     (''status'', JStr (ta_status a)),
     (''superseded_by'', jopt_str (ta_superseded_by a))]"

definition trust_key_from_dict :: "payload \<Rightarrow> trust_key result" where
  "trust_key_from_dict d =
     bindE (item_str d ''key_id'') (\<lambda>i.
     bindE (item_str d ''public_key'') (\<lambda>k64.
     bindE (b64_decode ValueError k64) (\<lambda>k.
     construct trust_key_post_init
       \<lparr>ta_key_id = i, ta_public_key = k, ta_status = get_str d ''status'' ''active'',
        ta_superseded_by = get_opt_str d ''superseded_by''\<rparr>)))"

record trust_state =
  ts_authority_key_id :: string
  ts_version :: int
  ts_issued_at :: string
  ts_anchors :: "trust_key list"
  ts_signature :: string
  ts_previous :: "string option"

definition trust_state_post_init :: "trust_state \<Rightarrow> unit result" where
  "trust_state_post_init s = guards [
     (blank (ts_authority_key_id s), ValueError ''authority_key_id''),
     (ts_version s < 1, ValueError ''version''),
     (blank (ts_issued_at s), ValueError ''issued_at''),
     (\<not> distinct (map ta_key_id (ts_anchors s)), ValueError ''duplicate key ids''),
     (blank (ts_signature s), ValueError ''signature''),
     (case ts_previous s of None \<Rightarrow> False | Some d \<Rightarrow> \<not> is_sha256 d, ValueError ''previous_digest''),
     (list_ex (\<lambda>a. ta_status a = ''superseded'' \<and>
        \<not> list_ex (\<lambda>b. Some (ta_key_id b) = ta_superseded_by a) (ts_anchors s)) (ts_anchors s),
        ValueError ''unknown replacement'')]"

definition trust_state_payload :: "trust_state \<Rightarrow> payload" where
  "trust_state_payload s = [
     (''authority_key_id'', JStr (ts_authority_key_id s)),
     (''version'', JInt (ts_version s)),
     (''issued_at'', JStr (ts_issued_at s)),
     (''previous_digest'', jopt_str (ts_previous s)),
     (''anchors'', JArr (map (\<lambda>a. JObj (trust_key_to_dict a)) (ts_anchors s)))]"

definition trust_state_bytes :: "trust_state \<Rightarrow> string" where
  "trust_state_bytes s = canonical (JObj (trust_state_payload s))"

definition trust_state_digest :: "trust_state \<Rightarrow> string" where
  "trust_state_digest s = digest_of (trust_state_payload s)"

definition trust_state_to_dict :: "trust_state \<Rightarrow> payload" where
  "trust_state_to_dict s = trust_state_payload s @ [(''signature'', JStr (ts_signature s))]"

definition require_list :: "json \<Rightarrow> string \<Rightarrow> json list result" where
  "require_list v field = (case v of JArr vs \<Rightarrow> Inr vs | _ \<Rightarrow> Inl (ValueError field))"

definition trust_state_from_dict :: "payload \<Rightarrow> trust_state result" where
  "trust_state_from_dict d =
     bindE (item_str d ''authority_key_id'') (\<lambda>authority.
     bindE (bindE (item d ''version'') (\<lambda>v. require_int v ''version'')) (\<lambda>version.
     bindE (item_str d ''issued_at'') (\<lambda>issued.
     bindE (bindE (require_list (get_or d ''anchors'' (JArr [])) ''anchors'')
       (mapE (\<lambda>v. bindE (require_object v ''anchors[]'') trust_key_from_dict))) (\<lambda>keys.
     bindE (item_str d ''signature'') (\<lambda>sig.
     construct trust_state_post_init
       \<lparr>ts_authority_key_id = authority, ts_version = version, ts_issued_at = issued, ts_anchors = keys,
        ts_signature = sig, ts_previous = get_opt_str d ''previous_digest''\<rparr>)))))"

text \<open>\<open>Ed25519AttestationTrustStateVerifier.verify\<close>: a missing PyNaCl is not caught here.\<close>

definition verify_trust_state :: "nacl \<Rightarrow> (string, string) dict \<Rightarrow> trust_state \<Rightarrow> trust_state result" where
  "verify_trust_state nacl authorities s =
     (case map_of authorities (ts_authority_key_id s) of
        None \<Rightarrow> Inl (ValueError ''unknown authority key'')
      | Some raw_key \<Rightarrow>
          (case bindE (b64_decode ValueError (ts_signature s)) (\<lambda>sig.
              verify_ed25519_signature nacl raw_key (trust_state_bytes s) sig) of
             Inr _ \<Rightarrow> Inr s
           | Inl e \<Rightarrow> if is_value_error e then Inl (ValueError ''verification failed'') else Inl e))"

definition create_signed_trust_state :: "trust_state \<Rightarrow> string \<Rightarrow> string option \<Rightarrow> trust_state result" where
  "create_signed_trust_state s signature authority =
     construct trust_state_post_init
       (s\<lparr>ts_authority_key_id := (case authority of None \<Rightarrow> ts_authority_key_id s
            | Some a \<Rightarrow> if a = [] then ts_authority_key_id s else a),
          ts_signature := b64_encode signature\<rparr>)"

definition apply_trust_state :: "trust_state \<Rightarrow> string option \<Rightarrow> (string, string) dict result" where
  "apply_trust_state s expected =
     bindE (guards [(ts_previous s \<noteq> expected, ValueError ''previous_digest does not match'')]) (\<lambda>_.
     Inr (dict_of (map (\<lambda>a. (ta_key_id a, ta_status a)) (ts_anchors s))))"

definition signing_key_status :: "trust_state \<Rightarrow> string \<Rightarrow> trust_key result" where
  "signing_key_status s key_id =
     (case find_first (\<lambda>a. ta_key_id a = key_id) (ts_anchors s) of
        None \<Rightarrow> Inl (ValueError ''not trusted'')
      | Some a \<Rightarrow> if ta_status a \<noteq> ''active'' then Inl (ValueError ''attestation signing key'') else Inr a)"

section \<open>Transitions\<close>

text \<open>\<open>issued\<close>: \<open>value.replace("Z", "+00:00")\<close>, parsed and required to carry a timezone.\<close>

definition replace_z :: "string \<Rightarrow> string" where
  "replace_z s = concat (map (\<lambda>c. if c = CHR ''Z'' then ''+00:00'' else [c]) s)"

definition issued :: "string \<Rightarrow> datetime result" where
  "issued s =
     (case fromisoformat (replace_z s) of
        Inl e \<Rightarrow> if is_value_error e then Inl (ValueError ''ISO-8601'') else Inl e
      | Inr t \<Rightarrow> if \<not> tz_aware t then Inl (ValueError ''timezone'') else Inr t)"

definition key_of :: "trust_state \<Rightarrow> string \<Rightarrow> trust_key option" where
  "key_of s i = map_of (map (\<lambda>a. (ta_key_id a, a)) (ts_anchors s)) i"

text \<open>The checks on a key of the previous snapshot, and those on a key of the current one.\<close>

definition check_kept :: "trust_state \<Rightarrow> trust_key \<Rightarrow> unit result" where
  "check_kept current old =
     (case key_of current (ta_key_id old) of
        None \<Rightarrow> Inr ()
      | Some new \<Rightarrow> guards [
          (ta_public_key new \<noteq> ta_public_key old, ValueError ''key material changed''),
          (ta_status old = ''revoked'' \<and> ta_status new \<noteq> ''revoked'', ValueError ''revoked key reactivated''),
          (ta_status old = ''superseded'' \<and>
             (ta_status new \<noteq> ''superseded'' \<or> ta_superseded_by new \<noteq> ta_superseded_by old),
             ValueError ''superseded key reactivated'')])"

definition check_current :: "trust_state \<Rightarrow> trust_state \<Rightarrow> trust_key \<Rightarrow> unit result" where
  "check_current previous current new = guards [
     (key_of previous (ta_key_id new) = None \<and> ta_status new \<noteq> ''active'', ValueError ''must first appear active''),
     (ta_status new = ''superseded'' \<and>
        map_option ta_status (key_of current (opt_or (ta_superseded_by new) [])) \<noteq> Some ''active'',
        ValueError ''requires an active successor'')]"

definition validate_trust_transition :: "trust_state option \<Rightarrow> trust_state \<Rightarrow> unit result" where
  "validate_trust_transition previous current =
     (case previous of
        None \<Rightarrow> guards [(ts_previous current \<noteq> None, ValueError ''must not name a predecessor'')]
      | Some p \<Rightarrow>
          bindE (guards [
            (ts_version current \<noteq> ts_version p + 1, ValueError ''versions must advance''),
            (ts_previous current \<noteq> Some (trust_state_digest p), ValueError ''does not match history tip'')]) (\<lambda>_.
          bindE (issued (ts_issued_at current)) (\<lambda>t.
          bindE (issued (ts_issued_at p)) (\<lambda>t0.
          bindE (guards [(instant t \<le> instant t0, ValueError ''increase monotonically'')]) (\<lambda>_.
          bindE (mapE (check_kept current) (ts_anchors p)) (\<lambda>_.
          bindE (mapE (check_current p current) (ts_anchors current)) (\<lambda>_. Inr ())))))))"

section \<open>Documents\<close>

definition trust_state_ok :: "trust_state \<Rightarrow> bool" where
  "trust_state_ok s =
     (trust_state_post_init s = Inr () \<and> list_all (\<lambda>a. trust_key_post_init a = Inr ()) (ts_anchors s))"

lemma json_ok_trust_key [simp]: "json_ok (\<lambda>s. True) (JObj (trust_key_to_dict a))"
  by (simp add: trust_key_to_dict_def)

lemma json_ok_trust_state [simp]:
  "json_ok (\<lambda>s. True) (JObj (trust_state_payload s))" "json_ok (\<lambda>s. True) (JObj (trust_state_to_dict s))"
  by (auto simp: trust_state_payload_def trust_state_to_dict_def)

lemma trust_key_from_stored:
  assumes "trust_key_post_init a = Inr ()" "stored d (trust_key_to_dict a)"
  shows "trust_key_from_dict d = Inr a"
proof -
  have "ta_public_key a \<noteq> []" using assms(1) by (auto simp: trust_key_post_init_def)
  then have "b64_decode ValueError (b64_encode (ta_public_key a)) = Inr (ta_public_key a)"
    by (rule b64_decode_encode)
  with assms(1) show ?thesis
    by (simp add: trust_key_from_dict_def item_str_def get_str_def get_or_def storedD [OF assms(2)]
        trust_key_to_dict_def construct_ok trust_key_post_init_def)
qed

lemma trust_state_from_stored:
  assumes "trust_state_ok s" "stored d (trust_state_to_dict s)"
  shows "trust_state_from_dict d = Inr s"
proof -
  have "mapE (\<lambda>v. bindE (require_object v ''anchors[]'') trust_key_from_dict)
      (map (\<lambda>a. sort_keys (JObj (trust_key_to_dict a))) (ts_anchors s)) = Inr (map id (ts_anchors s))"
    unfolding mapE_map
  proof (rule mapE_Inr_id)
    fix a assume "a \<in> set (ts_anchors s)"
    then have a: "trust_key_post_init a = Inr ()" using assms(1) by (simp add: trust_state_ok_def list_all_iff)
    show "bindE (require_object (sort_keys (JObj (trust_key_to_dict a))) ''anchors[]'') trust_key_from_dict = Inr (id a)"
      by (rule require_object_nested) (simp_all add: trust_key_from_stored [OF a])
  qed
  with assms(1) show ?thesis
    by (simp add: trust_state_from_dict_def item_str_def get_or_def require_list_def require_int_def
        storedD [OF assms(2)] trust_state_to_dict_def trust_state_payload_def construct_ok trust_state_ok_def
        trust_state_post_init_def comp_def del: sort_keys.simps(2))
qed

section \<open>What a transition preserves\<close>

text \<open>
  How a key may develop: its material is fixed, a revoked key stays revoked, a superseded one stays
  superseded by the same key.
\<close>

definition develops :: "trust_key \<Rightarrow> trust_key \<Rightarrow> bool" where
  "develops a b =
     (ta_public_key b = ta_public_key a \<and> (ta_status a = ''revoked'' \<longrightarrow> ta_status b = ''revoked'') \<and>
      (ta_status a = ''superseded'' \<longrightarrow> ta_status b = ''superseded'' \<and> ta_superseded_by b = ta_superseded_by a))"

lemma develops_trans: "develops a b \<Longrightarrow> develops b c \<Longrightarrow> develops a c"
  by (auto simp: develops_def)

lemma key_of_mem:
  assumes "trust_state_post_init s = Inr ()" "a \<in> set (ts_anchors s)"
  shows "key_of s (ta_key_id a) = Some a"
proof -
  have "distinct (map fst (map (\<lambda>a. (ta_key_id a, a)) (ts_anchors s)))"
    using assms(1) by (simp add: trust_state_post_init_def comp_def)
  then show ?thesis
    unfolding key_of_def using assms(2) by (intro map_of_is_SomeI) auto
qed

lemma transition_develops:
  assumes "validate_trust_transition (Some p) s = Inr ()" "trust_state_post_init s = Inr ()"
    and "a \<in> set (ts_anchors p)" "b \<in> set (ts_anchors s)" "ta_key_id a = ta_key_id b"
  shows "develops a b"
proof -
  have "\<exists>y. check_kept s a = Inr y"
    using assms(1,3) mapE_member [of "check_kept s" "ts_anchors p" _ a]
    by (auto simp: validate_trust_transition_def bindE_eq_Inr_iff)
  moreover have "key_of s (ta_key_id a) = Some b" using key_of_mem [OF assms(2,4)] assms(5) by simp
  ultimately show ?thesis by (auto simp: check_kept_def develops_def)
qed

end
