(* ===== verification/TrustHistory.thy ===== *)
theory TrustHistory
  imports AttestationTrust
begin

text \<open>
  \<open>adapters/attestation_trust_history.py\<close> and \<open>services/trust_service.py\<close>: the append-only history of
  trust snapshots, a JSON-lines file, and the loading of verification keys and verified snapshots. Whether
  a path passes through a symbolic link, is a regular file, and whether the lock was acquired are arguments.
\<close>

section \<open>Reading\<close>

definition key_ids :: "trust_state \<Rightarrow> string set" where
  "key_ids s = ta_key_id ` set (ts_anchors s)"

text \<open>The variables of the loop: the previous snapshot, every key seen so far and the previous keys.\<close>

record cursor =
  cu_previous :: "trust_state option"
  cu_seen :: "string set"
  cu_ids :: "string set"

definition start :: cursor where
  "start = \<lparr>cu_previous = None, cu_seen = {}, cu_ids = {}\<rparr>"

definition advance :: "cursor \<Rightarrow> trust_state \<Rightarrow> cursor" where
  "advance cu s = \<lparr>cu_previous = Some s, cu_seen = cu_seen cu \<union> key_ids s, cu_ids = key_ids s\<rparr>"

definition check_trust_record :: "cursor \<Rightarrow> trust_state \<Rightarrow> unit result" where
  "check_trust_record cu s =
     bindE (validate_trust_transition (cu_previous cu) s) (\<lambda>_.
     guards [(cu_previous cu \<noteq> None \<and> (key_ids s \<inter> cu_seen cu) - cu_ids cu \<noteq> {}, ValueError ''cannot reappear'')])"

definition read_trust_record :: "cursor \<Rightarrow> string \<Rightarrow> trust_state result" where
  "read_trust_record cu line =
     (case loads line of
        None \<Rightarrow> Inl (JSONDecodeError ''line'')
      | Some (JObj d) \<Rightarrow>
          bindE (trust_state_from_dict d) (\<lambda>s.
          bindE (check_trust_record cu s) (\<lambda>_. Inr s))
      | Some _ \<Rightarrow> Inl (ValueError ''JSON object''))"

fun parse_trust_lines :: "int option \<Rightarrow> cursor \<Rightarrow> nat \<Rightarrow> string list \<Rightarrow> trust_state list result" where
  "parse_trust_lines max_records cu n [] = Inr []"
| "parse_trust_lines max_records cu n (line # rest) =
     (if blank line then parse_trust_lines max_records cu n rest
      else if (case max_records of None \<Rightarrow> False | Some m \<Rightarrow> m \<le> int n) then Inl (OverflowError ''record count'')
      else case read_trust_record cu line of
        Inl e \<Rightarrow> if caught e then Inl (ValueError ''invalid attestation trust history'') else Inl e
      | Inr s \<Rightarrow> bindE (parse_trust_lines max_records (advance cu s) (Suc n) rest) (\<lambda>ss. Inr (s # ss)))"

definition parse_history_records :: "string list \<Rightarrow> int option \<Rightarrow> trust_state list result" where
  "parse_history_records ls max_records =
     bindE (guards [(case max_records of None \<Rightarrow> False | Some m \<Rightarrow> m \<le> 0, ValueError ''max_records'')]) (\<lambda>_.
     parse_trust_lines max_records start 0 ls)"

record trust_snapshot =
  hs_records :: "trust_state list"
  hs_byte_size :: int
  hs_exists :: bool

record history_path =
  hp_symlink :: bool
  hp_regular :: bool
  hp_lock_symlink :: bool

definition read_trust_snapshot :: "history_path \<Rightarrow> string option \<Rightarrow> int \<Rightarrow> int \<Rightarrow> trust_snapshot result" where
  "read_trust_snapshot path content max_bytes max_records =
     bindE (guards [
       (max_bytes \<le> 0 \<or> max_records \<le> 0, ValueError ''bounds must be positive''),
       (hp_symlink path, ValueError ''symlink'')]) (\<lambda>_.
     case content of
       None \<Rightarrow> Inr \<lparr>hs_records = [], hs_byte_size = 0, hs_exists = False\<rparr>
     | Some raw \<Rightarrow>
         bindE (guards [
           (\<not> hp_regular path, ValueError ''must be a file''),
           (max_bytes < int (length raw), OverflowError ''read limit''),
           (\<not> utf8_ok raw, ValueError ''UTF-8'')]) (\<lambda>_.
         bindE (parse_history_records (splitlines raw) (Some max_records)) (\<lambda>records.
         Inr \<lparr>hs_records = records, hs_byte_size = int (length raw), hs_exists = True\<rparr>)))"

section \<open>The store\<close>

type_synonym trust_verifier = "trust_state \<Rightarrow> trust_state result"

definition read_trust_unlocked :: "trust_verifier \<Rightarrow> history_path \<Rightarrow> string option \<Rightarrow> trust_state list result" where
  "read_trust_unlocked verify path content =
     (case content of
        None \<Rightarrow> Inr []
      | Some raw \<Rightarrow>
          bindE (read_trust_snapshot path content (max (int (length raw) + 1) 1) 1000000) (\<lambda>snapshot.
          bindE (mapE verify (hs_records snapshot)) (\<lambda>_. Inr (hs_records snapshot))))"

definition trust_history_read ::
    "bool \<Rightarrow> trust_verifier \<Rightarrow> history_path \<Rightarrow> string option \<Rightarrow> trust_state list result" where
  "trust_history_read acquired verify path content =
     (if \<not> acquired then Inl (TimeoutError ''attestation trust history lock'')
      else read_trust_unlocked verify path content)"

text \<open>The scan for an entry of the same version.\<close>

definition find_version :: "trust_state list \<Rightarrow> trust_state \<Rightarrow> trust_state option result" where
  "find_version records s =
     (case find_first (\<lambda>e. ts_version e = ts_version s) records of
        None \<Rightarrow> Inr None
      | Some e \<Rightarrow>
          if trust_state_to_dict e = trust_state_to_dict s then Inr (Some e)
          else Inl (ValueError ''version already exists''))"

definition trust_history_append ::
    "bool \<Rightarrow> trust_verifier \<Rightarrow> history_path \<Rightarrow> string option \<Rightarrow> trust_state \<Rightarrow> trust_state result \<times> string option" where
  "trust_history_append acquired verify path content s =
     (let attempt =
        bindE (guards [(hp_symlink path \<or> hp_lock_symlink path, ValueError ''symlink'')]) (\<lambda>_.
        bindE (verify s) (\<lambda>verified.
        if \<not> acquired then Inl (TimeoutError ''attestation trust history lock'')
        else
          bindE (read_trust_unlocked verify path content) (\<lambda>records.
          bindE (find_version records verified) (\<lambda>found.
          case found of
            Some e \<Rightarrow> Inr (e, None)
          | None \<Rightarrow>
              bindE (validate_trust_transition (last_opt records) verified) (\<lambda>_.
              Inr (verified, Some (json_line (trust_state_to_dict verified) @ [LF])))))))
      in case attempt of
           Inl e \<Rightarrow> (Inl e, content)
         | Inr (r, None) \<Rightarrow> (Inr r, content)
         | Inr (r, Some line) \<Rightarrow> (Inr r, Some (opt_or content [] @ line)))"

section \<open>The trust service\<close>

definition authority_key :: "string \<times> json \<Rightarrow> (string \<times> string) result" where
  "authority_key = (\<lambda>(key_id, encoded).
     if blank key_id then Inl (ValueError ''identifiers must be non-empty'')
     else case encoded of
       JStr e \<Rightarrow>
         if e = [] then Inl (ValueError ''must be base64 text'')
         else (case b64_decode ValueError e of
             Inl _ \<Rightarrow> Inl (ValueError ''not valid base64'')
           | Inr k \<Rightarrow> Inr (key_id, k))
     | _ \<Rightarrow> Inl (ValueError ''must be base64 text''))"

definition authority_store_from_dict :: "payload \<Rightarrow> (string, string) dict result" where
  "authority_store_from_dict d =
     (case get_or d ''keys'' (JObj []) of
        JObj keys \<Rightarrow> mapE authority_key keys
      | _ \<Rightarrow> Inl (ValueError ''keys object''))"

definition load_authority_store :: "files \<Rightarrow> string \<Rightarrow> (string, string) dict result" where
  "load_authority_store fs path = bindE (load_object fs path ''payload'') authority_store_from_dict"

definition load_trust_state :: "files \<Rightarrow> string \<Rightarrow> trust_state result" where
  "load_trust_state fs path = bindE (load_object fs path ''payload'') trust_state_from_dict"

definition verify_trust_state_file :: "nacl \<Rightarrow> (string, string) dict \<Rightarrow> files \<Rightarrow> string \<Rightarrow> trust_state result" where
  "verify_trust_state_file nacl authorities fs path =
     bindE (load_trust_state fs path) (verify_trust_state nacl authorities)"

definition verify_trust_history ::
    "nacl \<Rightarrow> (string, string) dict \<Rightarrow> history_path \<Rightarrow> string option \<Rightarrow> int \<Rightarrow> int \<Rightarrow> trust_snapshot result" where
  "verify_trust_history nacl authorities path content max_bytes max_records =
     bindE (read_trust_snapshot path content max_bytes max_records) (\<lambda>snapshot.
     bindE (mapE (verify_trust_state nacl authorities) (hs_records snapshot)) (\<lambda>_. Inr snapshot))"

text \<open>Here the history is given with the flags of its path, and the current state by its path.\<close>

definition load_verified_trust_states ::
    "nacl \<Rightarrow> (string, string) dict \<Rightarrow> files \<Rightarrow> string option \<Rightarrow> (history_path \<times> string option) option \<Rightarrow> int \<Rightarrow> int \<Rightarrow>
     trust_state list result" where
  "load_verified_trust_states nacl authorities fs current_path history max_bytes max_records =
     bindE (case history of
         None \<Rightarrow> Inr []
       | Some (path, content) \<Rightarrow>
           bindE (verify_trust_history nacl authorities path content max_bytes max_records) (\<lambda>s. Inr (hs_records s))) (\<lambda>states.
     case current_path of
       None \<Rightarrow> Inr states
     | Some path \<Rightarrow>
         bindE (verify_trust_state_file nacl authorities fs path) (\<lambda>current.
         Inr (if list_all (\<lambda>e. ts_version e \<noteq> ts_version current \<or> trust_state_digest e \<noteq> trust_state_digest current) states
              then states @ [current] else states)))"

text \<open>\<open>append_attestation_trust_state\<close>: the persisted state is also written to the current-state file, if one is given.\<close>

definition append_trust_state ::
    "bool \<Rightarrow> trust_verifier \<Rightarrow> history_path \<Rightarrow> string option \<Rightarrow> trust_state \<Rightarrow> string option \<Rightarrow> files \<Rightarrow>
     trust_state result \<times> string option \<times> files" where
  "append_trust_state acquired verify path content s current_path fs =
     (case trust_history_append acquired verify path content s of
        (Inl e, content') \<Rightarrow> (Inl e, content', fs)
      | (Inr persisted, content') \<Rightarrow>
          (Inr persisted, content',
           case current_path of None \<Rightarrow> fs | Some p \<Rightarrow> fs(p \<mapsto> indented (JObj (trust_state_to_dict persisted)))))"

section \<open>Accepted histories\<close>

fun trust_linked :: "cursor \<Rightarrow> trust_state list \<Rightarrow> bool" where
  "trust_linked cu [] = True"
| "trust_linked cu (s # ss) = (check_trust_record cu s = Inr () \<and> trust_linked (advance cu s) ss)"

lemma trust_linked_append: "trust_linked cu (ss @ ts) \<longleftrightarrow> trust_linked cu ss \<and> trust_linked (foldl advance cu ss) ts"
  by (induction ss arbitrary: cu) auto

lemma cursor_simps [simp]:
  "cu_previous (foldl advance start h) = last_opt h"
  "cu_seen (foldl advance start h) = \<Union> (key_ids ` set h)"
  "cu_ids (foldl advance start h) = (if h = [] then {} else key_ids (last h))"
  by (induction h rule: rev_induct) (auto simp: start_def advance_def last_opt_def)

lemma trust_state_from_dict_Inr: "trust_state_from_dict d = Inr s \<Longrightarrow> trust_state_post_init s = Inr ()"
  by (auto simp: trust_state_from_dict_def bindE_eq_Inr_iff construct_Inr_iff)

lemma read_trust_record_Inr:
  "read_trust_record cu line = Inr s \<Longrightarrow> check_trust_record cu s = Inr () \<and> trust_state_post_init s = Inr ()"
  by (auto simp: read_trust_record_def trust_state_from_dict_Inr split: option.splits json.splits)

lemma parse_trust_lines_sound:
  "parse_trust_lines m cu n ls = Inr ss \<Longrightarrow> trust_linked cu ss \<and> list_all (\<lambda>s. trust_state_post_init s = Inr ()) ss"
proof (induction m cu n ls arbitrary: ss rule: parse_trust_lines.induct)
  case (2 m cu n line rest)
  show ?case
  proof (cases "blank line")
    case True
    with 2 show ?thesis by simp
  next
    case False
    with 2(3) obtain s us where s: "read_trust_record cu line = Inr s"
      "parse_trust_lines m (advance cu s) (Suc n) rest = Inr us" "ss = s # us"
      "\<not> (case m of None \<Rightarrow> False | Some m \<Rightarrow> m \<le> int n)"
      by (auto split: if_splits sum.splits)
    from 2(2) [OF False s(4,1,2)] read_trust_record_Inr [OF s(1)] s(3) show ?thesis by simp
  qed
qed simp

text \<open>The keys two snapshots share develop from one to the other; neighbours are linked.\<close>

definition snapshot_develops :: "trust_state \<Rightarrow> trust_state \<Rightarrow> bool" where
  "snapshot_develops s t =
     (\<forall>a \<in> set (ts_anchors s). \<forall>b \<in> set (ts_anchors t). ta_key_id a = ta_key_id b \<longrightarrow> develops a b)"

definition snapshot_follows :: "trust_state \<Rightarrow> trust_state \<Rightarrow> bool" where
  "snapshot_follows s t =
     (ts_version t = ts_version s + 1 \<and> ts_previous t = Some (trust_state_digest s) \<and>
      (\<exists>t0 t1. issued (ts_issued_at s) = Inr t0 \<and> issued (ts_issued_at t) = Inr t1 \<and> instant t0 < instant t1))"

lemma check_trust_record_develops:
  assumes "check_trust_record (foldl advance start h) s = Inr ()" "trust_state_post_init s = Inr ()"
    and "sorted_wrt snapshot_develops h"
  shows "sorted_wrt snapshot_develops (h @ [s])" "h \<noteq> [] \<Longrightarrow> snapshot_follows (last h) s"
proof -
  have val: "validate_trust_transition (Some (last h)) s = Inr ()"
    and reap: "(key_ids s \<inter> \<Union> (key_ids ` set h)) - key_ids (last h) = {}" if "h \<noteq> []"
    using assms(1) that by (auto simp: check_trust_record_def last_opt_def) blast
  then show "h \<noteq> [] \<Longrightarrow> snapshot_follows (last h) s"
    by (auto simp: validate_trust_transition_def snapshot_follows_def bindE_eq_Inr_iff)
  have "snapshot_develops t s" if t: "t \<in> set h" for t
    unfolding snapshot_develops_def
  proof (intro ballI impI)
    fix a b assume ab: "a \<in> set (ts_anchors t)" "b \<in> set (ts_anchors s)" "ta_key_id a = ta_key_id b"
    from t have ne: "h \<noteq> []" by auto
    have "ta_key_id a \<in> key_ids t" "ta_key_id a \<in> key_ids s"
      unfolding key_ids_def using ab(1) imageI [OF ab(1), of ta_key_id] imageI [OF ab(2), of ta_key_id] ab(3) by simp_all
    with t reap [OF ne] have "ta_key_id a \<in> key_ids (last h)" by blast
    then obtain c where c: "c \<in> set (ts_anchors (last h))" "ta_key_id c = ta_key_id a" by (auto simp: key_ids_def)
    have cb: "develops c b"
      using transition_develops [OF val [OF ne] assms(2) c(1) ab(2)] c(2) ab(3) by simp
    show "develops a b"
    proof (cases "t = last h")
      case True
      with transition_develops [OF val [OF ne] assms(2) _ ab(2,3)] ab(1) show ?thesis by simp
    next
      case False
      have h: "h = butlast h @ [last h]" using ne by simp
      then have "t \<in> set (butlast h)" using t False by (metis Un_iff empty_iff empty_set set_ConsD set_append)
      moreover have "sorted_wrt snapshot_develops (butlast h @ [last h])" using assms(3) ne by simp
      ultimately have "snapshot_develops t (last h)" by (simp add: sorted_wrt_append)
      with ab(1) c have "develops a c" by (auto simp: snapshot_develops_def)
      from this cb show ?thesis by (rule develops_trans)
    qed
  qed
  with assms(3) show "sorted_wrt snapshot_develops (h @ [s])" by (simp add: sorted_wrt_append)
qed

lemma trust_linked_develops:
  assumes "trust_linked (foldl advance start h) ss" "list_all (\<lambda>s. trust_state_post_init s = Inr ()) ss"
    and "sorted_wrt snapshot_develops h" "successively snapshot_follows h"
  shows "sorted_wrt snapshot_develops (h @ ss) \<and> successively snapshot_follows (h @ ss)"
  using assms
proof (induction ss arbitrary: h)
  case (Cons s ss)
  have c: "check_trust_record (foldl advance start h) s = Inr ()" "trust_state_post_init s = Inr ()"
    "trust_linked (foldl advance start (h @ [s])) ss" using Cons.prems(1,2) by simp_all
  note d = check_trust_record_develops [OF c(1,2) Cons.prems(3)]
  have "successively snapshot_follows (h @ [s])"
    using Cons.prems(4) d(2) by (auto simp: successively_append_iff)
  from Cons.IH [OF c(3) _ d(1) this] Cons.prems(2) show ?case by simp
qed simp


section \<open>Appending\<close>

definition trust_storable :: "trust_state \<Rightarrow> bool" where
  "trust_storable s = (trust_state_ok s \<and> json_ok utf8_ok (JObj (trust_state_to_dict s)))"

definition trust_document :: "trust_state list \<Rightarrow> string" where
  "trust_document rs = json_lines (map trust_state_to_dict rs)"

definition trust_represents :: "trust_verifier \<Rightarrow> string option \<Rightarrow> trust_state list \<Rightarrow> bool" where
  "trust_represents verify content rs =
     (list_all trust_storable rs \<and> list_all (\<lambda>s. is_ok (verify s)) rs \<and> trust_linked start rs \<and>
      length rs \<le> 1000000 \<and> (content = Some (trust_document rs) \<or> content = None \<and> rs = []))"

definition plain_path :: "history_path \<Rightarrow> bool" where
  "plain_path path = (\<not> hp_symlink path \<and> hp_regular path \<and> \<not> hp_lock_symlink path)"

lemma stored_line:
  assumes "trust_storable s"
  shows "loads (json_line (trust_state_to_dict s)) = Some (JObj (sorted_payload (trust_state_to_dict s)))"
    and "trust_state_from_dict (sorted_payload (trust_state_to_dict s)) = Inr s"
  using assms trust_state_from_stored [OF _ stored_sorted_payload, of s]
  by (simp_all add: trust_storable_def loads_json_line)

lemma read_stored_line:
  "trust_storable s \<Longrightarrow> read_trust_record cu (json_line (trust_state_to_dict s)) =
    bindE (check_trust_record cu s) (\<lambda>_. Inr s)"
  by (simp add: read_trust_record_def stored_line)

lemma parse_stored_lines:
  assumes "list_all trust_storable rs" "trust_linked cu rs" "int (n + length rs) \<le> m"
  shows "parse_trust_lines (Some m) cu n (map (\<lambda>s. json_line (trust_state_to_dict s)) rs @ rest) =
    bindE (parse_trust_lines (Some m) (foldl advance cu rs) (n + length rs) rest) (\<lambda>us. Inr (rs @ us))"
  using assms
proof (induction rs arbitrary: cu n)
  case Nil
  then show ?case by (cases "parse_trust_lines (Some m) cu n rest") simp_all
next
  case (Cons s rs)
  then have "read_trust_record cu (json_line (trust_state_to_dict s)) = Inr s" by (simp add: read_stored_line)
  moreover note Cons.IH [of "advance cu s" "Suc n"]
  ultimately show ?case
    using Cons.prems by (cases "parse_trust_lines (Some m) (foldl advance (advance cu s) rs) (Suc (n + length rs)) rest") simp_all
qed

text \<open>A last record that is rejected, or that exceeds the limit, makes the file unreadable.\<close>

lemma parse_rejected_line:
  assumes "list_all trust_storable (rs @ [s])" "trust_linked start rs" "int (length rs) \<le> m"
    and "check_trust_record (foldl advance start rs) s \<noteq> Inr () \<or> int (length rs) = m"
  shows "\<exists>e. parse_trust_lines (Some m) start 0 (map (\<lambda>s. json_line (trust_state_to_dict s)) (rs @ [s])) = Inl e"
proof -
  have "\<exists>e. parse_trust_lines (Some m) (foldl advance start rs) (length rs) [json_line (trust_state_to_dict s)] = Inl e"
    using assms(1,4)
    by (cases "check_trust_record (foldl advance start rs) s") (auto simp: read_stored_line)
  then show ?thesis
    using parse_stored_lines [of rs start 0 m "[json_line (trust_state_to_dict s)]"] assms(1,2,3) by auto
qed

lemma trust_document_lines:
  assumes "list_all trust_storable rs"
  shows "splitlines (trust_document rs) = map (\<lambda>s. json_line (trust_state_to_dict s)) rs" "utf8_ok (trust_document rs)"
proof -
  have j: "list_all (\<lambda>p. json_ok utf8_ok (JObj p)) (map trust_state_to_dict rs)"
    using assms by (auto simp: trust_storable_def list_all_iff)
  show "splitlines (trust_document rs) = map (\<lambda>s. json_line (trust_state_to_dict s)) rs"
    using splitlines_json_lines [OF j, of "[]"] by (simp add: trust_document_def comp_def)
  show "utf8_ok (trust_document rs)"
    using ascii_json_lines [OF j] by (simp add: trust_document_def utf8_ok_ascii)
qed

locale trust_verifier =
  fixes verify :: "trust_state \<Rightarrow> trust_state result"
  assumes verify_returns: "verify s = Inr s' \<Longrightarrow> s' = s"
begin

lemma verify_ok: "is_ok (verify s) \<Longrightarrow> verify s = Inr s"
  by (auto simp: is_ok_iff dest: verify_returns)

lemma verify_all: "list_all (\<lambda>s. is_ok (verify s)) rs \<Longrightarrow> mapE verify rs = Inr rs"
  using mapE_Inr_id [of rs verify id] verify_ok by (simp add: list_all_iff)

lemma read_unlocked_represents:
  assumes "trust_represents verify content rs" "plain_path path"
  shows "read_trust_unlocked verify path content = Inr rs"
proof (cases content)
  case None
  with assms show ?thesis by (simp add: trust_represents_def read_trust_unlocked_def)
next
  case (Some raw)
  then have raw: "raw = trust_document rs" and st: "list_all trust_storable rs" and li: "trust_linked start rs"
    and v: "list_all (\<lambda>s. is_ok (verify s)) rs" and n: "length rs \<le> 1000000"
    using assms(1) by (auto simp: trust_represents_def)
  have "parse_trust_lines (Some 1000000) start 0 (map (\<lambda>s. json_line (trust_state_to_dict s)) rs) = Inr rs"
    using parse_stored_lines [OF st li, of 0 1000000 "[]"] n by simp
  then show ?thesis
    using Some assms(2) verify_all [OF v]
    by (simp add: raw read_trust_unlocked_def read_trust_snapshot_def plain_path_def parse_history_records_def
        trust_document_lines [OF st])
qed

text \<open>What an append does on a history it can read.\<close>

lemma append_outcome:
  assumes "trust_represents verify content rs" "plain_path path" "trust_storable s" "is_ok (verify s)"
  shows "trust_history_append True verify path content s =
    (case find_version rs s of
       Inl e \<Rightarrow> (Inl e, content)
     | Inr (Some e) \<Rightarrow> (Inr e, content)
     | Inr None \<Rightarrow>
         (case validate_trust_transition (last_opt rs) s of
            Inl e \<Rightarrow> (Inl e, content)
          | Inr _ \<Rightarrow> (Inr s, Some (trust_document (rs @ [s])))))"
proof -
  have "opt_or content [] = trust_document rs"
    using assms(1) by (auto simp: trust_represents_def trust_document_def opt_or_def)
  then have "opt_or content [] @ json_line (trust_state_to_dict s) @ [LF] = trust_document (rs @ [s])"
    by (simp add: trust_document_def)
  moreover have "\<not> hp_symlink path" "\<not> hp_lock_symlink path" using assms(2) by (simp_all add: plain_path_def)
  ultimately show ?thesis
    using read_unlocked_represents [OF assms(1,2)] verify_ok [OF assms(4)]
    by (cases "find_version rs s"; cases "validate_trust_transition (last_opt rs) s")
      (auto simp: trust_history_append_def split: option.split)
qed

lemma append_represents:
  assumes "trust_represents verify content rs" "trust_storable s" "is_ok (verify s)"
    and "check_trust_record (foldl advance start rs) s = Inr ()" "length rs < 1000000"
  shows "trust_represents verify (Some (trust_document (rs @ [s]))) (rs @ [s])"
  using assms by (simp add: trust_represents_def trust_linked_append)

lemma read_rejected:
  assumes "trust_represents verify content rs" "trust_storable s"
    and "check_trust_record (foldl advance start rs) s \<noteq> Inr () \<or> length rs = 1000000"
  shows "\<exists>e. read_trust_unlocked verify path (Some (trust_document (rs @ [s]))) = Inl e"
proof -
  have st: "list_all trust_storable (rs @ [s])" and li: "trust_linked start rs" and n: "length rs \<le> 1000000"
    using assms(1,2) by (simp_all add: trust_represents_def)
  obtain e where "parse_trust_lines (Some 1000000) start 0 (map (\<lambda>s. json_line (trust_state_to_dict s)) (rs @ [s])) = Inl e"
    using parse_rejected_line [OF st li, of 1000000] n assms(3) by auto
  then have p: "parse_history_records (splitlines (trust_document (rs @ [s]))) (Some 1000000) = Inl e"
    by (simp only: trust_document_lines [OF st]) (simp add: parse_history_records_def)
  show ?thesis
    by (simp add: read_trust_unlocked_def read_trust_snapshot_def p bindE_def guards.simps split: sum.split)
qed

end

interpretation ed25519_trust: trust_verifier "verify_trust_state nacl authorities" for nacl authorities
  by unfold_locales (auto simp: verify_trust_state_def split: option.splits if_splits sum.splits)

text \<open>The keys of a snapshot that were removed earlier.\<close>

definition reappearing :: "trust_state list \<Rightarrow> trust_state \<Rightarrow> string set" where
  "reappearing rs s = (if rs = [] then {} else (key_ids s \<inter> \<Union> (key_ids ` set rs)) - key_ids (last rs))"

lemma check_appended:
  "validate_trust_transition (last_opt rs) s = Inr () \<Longrightarrow>
    check_trust_record (foldl advance start rs) s = Inr () \<longleftrightarrow> reappearing rs s = {}"
  by (auto simp: check_trust_record_def reappearing_def last_opt_def)

lemma find_version_Inr:
  "find_version rs s = Inr (Some e) \<Longrightarrow> e \<in> set rs \<and> trust_state_to_dict e = trust_state_to_dict s"
  by (auto simp: find_version_def split: option.splits if_splits dest: find_first_Some)

text \<open>
  C31: appending to a history keeps it and extends it by at most the new snapshot. On a readable history an
  append fails and changes nothing, returns an entry with the same contents and changes nothing, or adds
  exactly the snapshot, which follows the last one; in the last case, if no removed key reappears and the
  record limit is not reached, reading returns the old history with the snapshot at its end.
\<close>

theorem trust_append_sound:
  assumes "trust_represents (verify_trust_state nacl authorities) content rs" "plain_path path"
    and "trust_storable s" "is_ok (verify_trust_state nacl authorities s)"
  shows "let V = verify_trust_state nacl authorities; (r, content') = trust_history_append True V path content s
    in (case r of
          Inl e \<Rightarrow> content' = content
        | Inr u \<Rightarrow> content' = content \<and> u \<in> set rs \<and> trust_state_to_dict u = trust_state_to_dict s \<or>
            content' = Some (trust_document (rs @ [s])) \<and> u = s \<and> (rs \<noteq> [] \<longrightarrow> snapshot_follows (last rs) s) \<and>
            (reappearing rs s = {} \<and> length rs < 1000000 \<longrightarrow>
              trust_represents V content' (rs @ [s]) \<and> trust_history_read True V path content' = Inr (rs @ [s])))"
proof -
  let ?V = "verify_trust_state nacl authorities"
  note out = ed25519_trust.append_outcome [OF assms]
  have new: "trust_represents ?V (Some (trust_document (rs @ [s]))) (rs @ [s])"
    if "validate_trust_transition (last_opt rs) s = Inr ()" "reappearing rs s = {}" "length rs < 1000000"
    using ed25519_trust.append_represents [OF assms(1,3,4)] check_appended [OF that(1)] that by simp
  have follows: "snapshot_follows (last rs) s" if "validate_trust_transition (last_opt rs) s = Inr ()" "rs \<noteq> []"
    using that by (auto simp: validate_trust_transition_def snapshot_follows_def bindE_eq_Inr_iff last_opt_def)
  show ?thesis
  proof (cases "find_version rs s")
    case (Inl e)
    then show ?thesis by (simp add: out)
  next
    case found: (Inr f)
    show ?thesis
    proof (cases f)
      case (Some e)
      with found find_version_Inr [of rs s e] show ?thesis by (simp add: out)
    next
      case None
      show ?thesis
      proof (cases "validate_trust_transition (last_opt rs) s")
        case (Inl e)
        with found None show ?thesis by (simp add: out)
      next
        case (Inr u)
        with found None new follows ed25519_trust.read_unlocked_represents [OF _ assms(2)] show ?thesis
          by (simp add: out trust_history_read_def)
      qed
    qed
  qed
qed

text \<open>
  An append can make the history unreadable. Only the reader rejects a key that comes back after its
  removal, and only the reader knows the limit of 1000000 records; an append checks neither, so it
  accepts and writes such a snapshot, and from then on every read and every append of the history fails.
\<close>

theorem trust_append_poisons:
  assumes "trust_represents (verify_trust_state nacl authorities) content rs" "plain_path path"
    and "trust_storable s" "is_ok (verify_trust_state nacl authorities s)"
    and "find_version rs s = Inr None" "validate_trust_transition (last_opt rs) s = Inr ()"
    and "reappearing rs s \<noteq> {} \<or> length rs = 1000000"
  shows "\<exists>e content'. trust_history_append True (verify_trust_state nacl authorities) path content s = (Inr s, content') \<and>
    trust_history_read True (verify_trust_state nacl authorities) path content' = Inl e \<and>
    (\<forall>s'. is_ok (verify_trust_state nacl authorities s') \<longrightarrow>
      trust_history_append True (verify_trust_state nacl authorities) path content' s' = (Inl e, content'))"
proof -
  let ?V = "verify_trust_state nacl authorities"
  let ?c = "Some (trust_document (rs @ [s]))"
  have app: "trust_history_append True ?V path content s = (Inr s, ?c)"
    using ed25519_trust.append_outcome [OF assms(1-4)] assms(5,6) by simp
  obtain e where e: "read_trust_unlocked ?V path ?c = Inl e"
    using ed25519_trust.read_rejected [OF assms(1,3), of path] check_appended [OF assms(6)] assms(7) by auto
  have "trust_history_append True ?V path ?c s' = (Inl e, ?c)" if "is_ok (?V s')" for s'
    using assms(2) ed25519_trust.verify_ok [OF that]
    by (simp add: trust_history_append_def plain_path_def e)
  with app e show ?thesis by (auto simp: trust_history_read_def)
qed

section \<open>A sample history\<close>

definition accept_all :: nacl where
  "accept_all = Some (\<lambda>public_key message signature. True)"

definition sample_trust_key :: "string \<Rightarrow> trust_key" where
  "sample_trust_key i = \<lparr>ta_key_id = i, ta_public_key = replicate 32 CHR ''x'', ta_status = ''active'', ta_superseded_by = None\<rparr>"

definition sample_trust_state :: "int \<Rightarrow> string \<Rightarrow> string list \<Rightarrow> trust_state option \<Rightarrow> trust_state" where
  "sample_trust_state version t ids previous =
     \<lparr>ts_authority_key_id = ''root'', ts_version = version, ts_issued_at = t, ts_anchors = map sample_trust_key ids,
      ts_signature = ''cGs'', ts_previous = map_option trust_state_digest previous\<rparr>"

definition trust_1 :: trust_state where
  "trust_1 = sample_trust_state 1 ''2024-01-01T00:00:00Z'' [''a'', ''b''] None"

definition trust_2 :: trust_state where
  "trust_2 = sample_trust_state 2 ''2024-01-02T00:00:00Z'' [''a''] (Some trust_1)"

definition trust_3 :: "string list \<Rightarrow> trust_state" where
  "trust_3 ids = sample_trust_state 3 ''2024-01-03T00:00:00Z'' ids (Some trust_2)"

definition sample_authorities :: "(string, string) dict" where
  "sample_authorities = [(''root'', ''pk'')]"

lemma sample_trust_storable:
  assumes "1 \<le> version" "t \<in> {''2024-01-01T00:00:00Z'', ''2024-01-02T00:00:00Z'', ''2024-01-03T00:00:00Z''}"
    and "ids \<in> {[''a''], [''a'', ''b'']}"
  shows "trust_storable (sample_trust_state version t ids previous)"
    and "is_ok (verify_trust_state accept_all sample_authorities (sample_trust_state version t ids previous))"
proof -
  let ?s = "sample_trust_state version t ids previous"
  have dec: "b64_decode ValueError ''cGs'' = Inr ''pk''" by code_simp
  show "is_ok (verify_trust_state accept_all sample_authorities ?s)"
    by (simp add: verify_trust_state_def sample_trust_state_def sample_authorities_def accept_all_def
        verify_ed25519_signature_def dec)
  have "trust_state_ok ?s"
    using assms
    by (auto simp: trust_state_ok_def trust_state_post_init_def trust_key_post_init_def sample_trust_state_def
        sample_trust_key_def trust_state_digest_def split: option.split)
  moreover have "json_ok utf8_ok (JObj (trust_state_to_dict ?s))"
  proof (rule json_okI)
    have u: "utf8_ok ''root''" "utf8_ok ''cGs''" "utf8_ok ''active''" "utf8_ok ''key_id''" "utf8_ok ''public_key''"
      "utf8_ok ''status''" "utf8_ok ''superseded_by''"
      by (simp_all add: utf8_ok_ascii byte_def)
    have t: "utf8_ok t" using assms(2) by (auto simp: utf8_ok_ascii byte_def)
    have "json_ok utf8_ok (JObj (trust_key_to_dict (sample_trust_key i)))" if "i \<in> {''a'', ''b''}" for i
    proof -
      have "utf8_ok i" using that by (auto simp: utf8_ok_ascii byte_def)
      then show ?thesis
        by (intro json_okI) (simp_all add: trust_key_to_dict_def sample_trust_key_def jopt_str_def u utf8_ok_ascii b64_encode_ascii)
    qed
    moreover have "set ids \<subseteq> {''a'', ''b''}" using assms(3) by auto
    ultimately have keys: "\<forall>i \<in> set ids. json_ok utf8_ok (JObj (trust_key_to_dict (sample_trust_key i)))"
      by (meson subsetD)
    have "json_ok utf8_ok (jopt_str (map_option trust_state_digest previous))"
      by (cases previous) (simp_all add: jopt_str_def utf8_ok_sha256 trust_state_digest_def)
    with keys t u show "list_all (json_ok utf8_ok) (map snd (trust_state_to_dict ?s))"
      by (simp add: trust_state_to_dict_def trust_state_payload_def sample_trust_state_def)
  qed (simp_all add: trust_state_to_dict_def trust_state_payload_def utf8_ok_ascii byte_def)
  ultimately show "trust_storable ?s" by (simp add: trust_storable_def)
qed

lemma sample_issued:
  "\<exists>t1 t2 t3. issued ''2024-01-01T00:00:00Z'' = Inr t1 \<and> issued ''2024-01-02T00:00:00Z'' = Inr t2 \<and>
    issued ''2024-01-03T00:00:00Z'' = Inr t3 \<and> instant t1 < instant t2 \<and> instant t2 < instant t3"
proof -
  have z: "replace_z ''2024-01-01T00:00:00Z'' = ''2024-01-01T00:00:00+00:00''"
    "replace_z ''2024-01-02T00:00:00Z'' = ''2024-01-02T00:00:00+00:00''"
    "replace_z ''2024-01-03T00:00:00Z'' = ''2024-01-03T00:00:00+00:00''" by code_simp+
  have f: "fromisoformat ''2024-01-01T00:00:00+00:00'' = Inr (Aware (738885 * day_us))"
    "fromisoformat ''2024-01-02T00:00:00+00:00'' = Inr (Aware (738886 * day_us))"
    "fromisoformat ''2024-01-03T00:00:00+00:00'' = Inr (Aware (738887 * day_us))" by code_simp+
  show ?thesis by (simp add: issued_def z f day_us_def)
qed

lemma sample_trust_history:
  "trust_represents (verify_trust_state accept_all sample_authorities) (Some (trust_document [trust_1, trust_2])) [trust_1, trust_2]"
  "find_version [trust_1, trust_2] (trust_3 ids) = Inr None"
  "ids \<in> {[''a''], [''a'', ''b'']} \<Longrightarrow> validate_trust_transition (last_opt [trust_1, trust_2]) (trust_3 ids) = Inr ()"
proof -
  obtain t1 t2 t3 where t: "issued ''2024-01-01T00:00:00Z'' = Inr t1" "issued ''2024-01-02T00:00:00Z'' = Inr t2"
    "issued ''2024-01-03T00:00:00Z'' = Inr t3" "instant t1 < instant t2" "instant t2 < instant t3"
    using sample_issued by blast
  note defs = trust_1_def trust_2_def trust_3_def sample_trust_state_def sample_trust_key_def
  show "find_version [trust_1, trust_2] (trust_3 ids) = Inr None"
    by (simp add: find_version_def find_first_def defs)
  show "validate_trust_transition (last_opt [trust_1, trust_2]) (trust_3 ids) = Inr ()" if "ids \<in> {[''a''], [''a'', ''b'']}"
    using that t by (auto simp: validate_trust_transition_def last_opt_def defs check_kept_def check_current_def key_of_def)
  have "trust_linked start [trust_1, trust_2]"
    using t by (auto simp: check_trust_record_def validate_trust_transition_def start_def advance_def key_ids_def defs
        check_kept_def check_current_def key_of_def)
  then show "trust_represents (verify_trust_state accept_all sample_authorities) (Some (trust_document [trust_1, trust_2])) [trust_1, trust_2]"
    using sample_trust_storable [of 1 "''2024-01-01T00:00:00Z''" "[''a'', ''b'']" None]
      sample_trust_storable [of 2 "''2024-01-02T00:00:00Z''" "[''a'']" "Some trust_1"]
    by (simp add: trust_represents_def trust_1_def [symmetric] trust_2_def [symmetric])
qed

definition sample_path :: history_path where
  "sample_path = \<lparr>hp_symlink = False, hp_regular = True, hp_lock_symlink = False\<rparr>"

lemma sample_plain_path: "plain_path sample_path"
  by (simp add: plain_path_def sample_path_def)

lemma trust_3_storable:
  "ids \<in> {[''a''], [''a'', ''b'']} \<Longrightarrow> trust_storable (trust_3 ids)"
  "ids \<in> {[''a''], [''a'', ''b'']} \<Longrightarrow> is_ok (verify_trust_state accept_all sample_authorities (trust_3 ids))"
  using sample_trust_storable [of 3 "''2024-01-03T00:00:00Z''" ids "Some trust_2"] by (auto simp: trust_3_def)

lemma sample_reappearing: "reappearing [trust_1, trust_2] (trust_3 [''a'']) = {}" "''b'' \<in> reappearing [trust_1, trust_2] (trust_3 [''a'', ''b''])"
  by (auto simp: reappearing_def key_ids_def trust_1_def trust_2_def trust_3_def sample_trust_state_def sample_trust_key_def)

lemma trust_append_sound_witness:
  "trust_represents (verify_trust_state accept_all sample_authorities)
    (snd (trust_history_append True (verify_trust_state accept_all sample_authorities) sample_path
      (Some (trust_document [trust_1, trust_2])) (trust_3 [''a'']))) [trust_1, trust_2, trust_3 [''a'']]"
proof -
  have out: "trust_history_append True (verify_trust_state accept_all sample_authorities) sample_path
      (Some (trust_document [trust_1, trust_2])) (trust_3 [''a'']) =
      (Inr (trust_3 [''a'']), Some (trust_document ([trust_1, trust_2] @ [trust_3 [''a'']])))"
    using ed25519_trust.append_outcome [OF sample_trust_history(1) sample_plain_path trust_3_storable, of "[''a'']"]
      sample_trust_history(2,3) [of "[''a'']"] by simp
  have "trust_document ([trust_1, trust_2] @ [trust_3 [''a'']]) \<noteq> trust_document [trust_1, trust_2]"
    by (simp add: trust_document_def)
  with trust_append_sound [OF sample_trust_history(1) sample_plain_path trust_3_storable, of "[''a'']"]
    sample_reappearing(1) show ?thesis by (auto simp: out Let_def)
qed

lemma trust_append_poisons_witness:
  "\<exists>e content'. trust_history_append True (verify_trust_state accept_all sample_authorities) sample_path
      (Some (trust_document [trust_1, trust_2])) (trust_3 [''a'', ''b'']) = (Inr (trust_3 [''a'', ''b'']), content') \<and>
    trust_history_read True (verify_trust_state accept_all sample_authorities) sample_path content' = Inl e"
  using trust_append_poisons [OF sample_trust_history(1) sample_plain_path trust_3_storable sample_trust_history(2,3), of "[''a'', ''b'']"]
    sample_reappearing(2) by fastforce


end
