(* ===== verification/Assurance.thy ===== *)
theory Assurance
  imports Lines
begin

text \<open>
  \<open>domain/assurance_operations.py\<close> and \<open>services/assurance_decision_service.py\<close>: the deterministic
  assurance policy, its digest-bound decision records, the operational exceptions to them, and the replay
  of a persisted decision. The time that \<open>generated_at or datetime.now(UTC)\<close> selects is an argument.
\<close>

section \<open>Decisions\<close>

datatype security_decision =
    ALLOW | ALLOW_WITH_LIMITATIONS | REQUIRE_REVERIFICATION | QUARANTINE | REJECT | REVOKE_TRUST | RECOVERY_REQUIRED

fun decision_value :: "security_decision \<Rightarrow> string" where
  "decision_value ALLOW = ''ALLOW''"
| "decision_value ALLOW_WITH_LIMITATIONS = ''ALLOW_WITH_LIMITATIONS''"
| "decision_value REQUIRE_REVERIFICATION = ''REQUIRE_REVERIFICATION''"
| "decision_value QUARANTINE = ''QUARANTINE''"
| "decision_value REJECT = ''REJECT''"
| "decision_value REVOKE_TRUST = ''REVOKE_TRUST''"
| "decision_value RECOVERY_REQUIRED = ''RECOVERY_REQUIRED''"

definition decision_of :: "string \<Rightarrow> security_decision option" where
  "decision_of s =
     find (\<lambda>d. decision_value d = s)
       [ALLOW, ALLOW_WITH_LIMITATIONS, REQUIRE_REVERIFICATION, QUARANTINE, REJECT, REVOKE_TRUST, RECOVERY_REQUIRED]"

definition allowed_verification :: "string list" where
  "allowed_verification = [''verified'', ''verified_with_limitations'', ''unverified'', ''invalid'', ''tampered'',
     ''incomplete'', ''trust_anchor_unavailable'']"

definition allowed_states :: "string list" where
  "allowed_states = [''unknown'', ''reliable'', ''degraded'', ''unreliable'', ''recovered'']"

text \<open>\<open>astimezone(UTC)\<close> of an aware value, and \<open>_timestamp\<close>.\<close>

definition to_utc :: "datetime \<Rightarrow> datetime result" where
  "to_utc t = (if in_range (instant t) then Inr t else Inl (OverflowError ''date value out of range''))"

definition timestamp :: "datetime \<Rightarrow> string result" where
  "timestamp t =
     (if \<not> tz_aware t then Inl (ValueError ''decision timestamps'')
      else bindE (to_utc t) (\<lambda>u. Inr (utc_iso u)))"

record decision_input =
  ai_subject_id :: string
  ai_reliability_state :: string
  ai_verification_status :: string
  ai_trust_status :: string
  ai_recovery_required :: bool
  ai_evidence_references :: "string list"
  ai_verification_results :: "string list"
  ai_residual_risk :: "string list"

definition decision_input_post_init :: "decision_input \<Rightarrow> unit result" where
  "decision_input_post_init i = guards [
     (blank (ai_subject_id i), ValueError ''subject_id''),
     (ai_reliability_state i \<notin> set allowed_states, ValueError ''reliability state''),
     (ai_verification_status i \<notin> set allowed_verification, ValueError ''verification status''),
     (blank (ai_trust_status i), ValueError ''trust_status''),
     (ai_evidence_references i = [], ValueError ''evidence reference''),
     (list_ex blank (ai_evidence_references i), ValueError ''evidence references''),
     (list_ex blank (ai_verification_results i), ValueError ''verification results''),
     (list_ex blank (ai_residual_risk i), ValueError ''residual risk'')]"

record assurance_decision =
  ad_decision :: security_decision
  ad_subject_id :: string
  ad_policy_id :: string
  ad_policy_version :: string
  ad_evidence_references :: "string list"
  ad_verification_results :: "string list"
  ad_rationale :: "string list"
  ad_decision_context :: string
  ad_residual_risk :: "string list"
  ad_generated_at :: string
  ad_source_reliability_state :: string
  ad_source_verification_status :: string
  ad_unchanged :: bool
  ad_digest :: string

definition decision_payload :: "assurance_decision \<Rightarrow> payload" where
  "decision_payload d = [
     (''decision'', JStr (decision_value (ad_decision d))),
     (''subject_id'', JStr (ad_subject_id d)),
     (''policy_id'', JStr (ad_policy_id d)),
     (''policy_version'', JStr (ad_policy_version d)),
     (''evidence_references'', jstrs (ad_evidence_references d)),
     (''verification_results'', jstrs (ad_verification_results d)),
     (''rationale'', jstrs (ad_rationale d)),
     (''decision_context'', JStr (ad_decision_context d)),
     (''residual_risk'', jstrs (ad_residual_risk d)),
     (''generated_at'', JStr (ad_generated_at d)),
     (''source_reliability_state'', JStr (ad_source_reliability_state d)),
     (''source_verification_status'', JStr (ad_source_verification_status d)),
     (''system_state_unchanged'', JBool (ad_unchanged d))]"

definition decision_digest :: "assurance_decision \<Rightarrow> string" where
  "decision_digest d = digest_of (decision_payload d)"

definition decision_to_dict :: "assurance_decision \<Rightarrow> payload" where
  "decision_to_dict d = decision_payload d @ [(''digest'', JStr (ad_digest d))]"

text \<open>The constructor binds the digest: \<open>__post_init__\<close> sets it.\<close>

definition make_decision :: "assurance_decision \<Rightarrow> assurance_decision result" where
  "make_decision d =
     bindE (guards [
       (blank (ad_subject_id d), ValueError ''subject_id''),
       (blank (ad_policy_id d) \<or> blank (ad_policy_version d), ValueError ''policy identity''),
       (ad_evidence_references d = [], ValueError ''evidence references''),
       (ad_verification_results d = [], ValueError ''verification results''),
       (ad_rationale d = [], ValueError ''rationale''),
       (blank (ad_decision_context d), ValueError ''decision context''),
       (\<not> ad_unchanged d, ValueError ''must not rewrite system state''),
       (ad_digest d \<noteq> [] \<and> ad_digest d \<noteq> decision_digest d, ValueError ''digest mismatch'')]) (\<lambda>_.
     Inr (d\<lparr>ad_digest := decision_digest d\<rparr>))"

text \<open>The policy: the first rule that applies.\<close>

definition policy_rule :: "decision_input \<Rightarrow> security_decision \<times> string" where
  "policy_rule i =
     (if ai_trust_status i = ''revoked'' then (REVOKE_TRUST, ''trust-authority-revoked'')
      else if ai_recovery_required i then (RECOVERY_REQUIRED, ''recovery-required'')
      else if ai_verification_status i = ''tampered'' then (QUARANTINE, ''portable-evidence-tampered'')
      else if ai_verification_status i \<in> {''invalid'', ''incomplete''} then (REJECT, ''evidence-invalid-or-incomplete'')
      else if ai_verification_status i \<in> {''unverified'', ''trust_anchor_unavailable''}
        then (REQUIRE_REVERIFICATION, ''verification-not-established'')
      else if ai_reliability_state i = ''unreliable'' then (REJECT, ''reliability-unacceptable'')
      else if ai_reliability_state i = ''degraded'' then (ALLOW_WITH_LIMITATIONS, ''reliability-degraded'')
      else if ai_verification_status i = ''verified_with_limitations''
        then (ALLOW_WITH_LIMITATIONS, ''verification-limitations-present'')
      else if ai_reliability_state i \<in> {''reliable'', ''recovered''} then (ALLOW, ''verified-reliability-state'')
      else (REQUIRE_REVERIFICATION, ''state-not-sufficiently-established''))"

definition evaluate_assurance_decision ::
    "decision_input \<Rightarrow> string \<Rightarrow> string \<Rightarrow> datetime \<Rightarrow> assurance_decision result" where
  "evaluate_assurance_decision i policy_id policy_version generated_at =
     bindE (guards [(blank policy_id \<or> blank policy_version, ValueError ''policy identity'')]) (\<lambda>_.
     bindE (timestamp generated_at) (\<lambda>when.
     let (decision, rule) = policy_rule i in
     make_decision
       \<lparr>ad_decision = decision, ad_subject_id = ai_subject_id i, ad_policy_id = policy_id,
        ad_policy_version = policy_version, ad_evidence_references = ai_evidence_references i,
        ad_verification_results = ai_verification_results i,
        ad_rationale = [''policy-rule:'' @ rule, ''reliability-state:'' @ ai_reliability_state i,
          ''verification-status:'' @ ai_verification_status i, ''trust-status:'' @ ai_trust_status i],
        ad_decision_context = ''evidence-backed assurance policy evaluation'',
        ad_residual_risk = (if ai_residual_risk i \<noteq> [] then ai_residual_risk i
          else if decision = ALLOW then [] else [rule]),
        ad_generated_at = when, ad_source_reliability_state = ai_reliability_state i,
        ad_source_verification_status = ai_verification_status i, ad_unchanged = True, ad_digest = []\<rparr>))"

section \<open>Exceptions\<close>

record assurance_exception =
  ax_exception_id :: string
  ax_subject_id :: string
  ax_invariant :: string
  ax_reason :: string
  ax_authorized_by :: string
  ax_expires_at :: string
  ax_compensating_control :: string
  ax_reverification_required :: string
  ax_evidence_references :: "string list"
  ax_created_at :: string
  ax_decision_digest :: "string option"
  ax_preserved :: bool
  ax_digest :: string

definition exception_payload :: "assurance_exception \<Rightarrow> payload" where
  "exception_payload x = [
     (''exception_id'', JStr (ax_exception_id x)),
     (''subject_id'', JStr (ax_subject_id x)),
     (''invariant'', JStr (ax_invariant x)),
     (''reason_operation_continues'', JStr (ax_reason x)),
     (''authorized_by'', JStr (ax_authorized_by x)),
     (''expires_at'', JStr (ax_expires_at x)),
     (''compensating_control'', JStr (ax_compensating_control x)),
     (''reverification_required'', JStr (ax_reverification_required x)),
     (''evidence_references'', jstrs (ax_evidence_references x)),
     (''created_at'', JStr (ax_created_at x))] @
     (case ax_decision_digest x of None \<Rightarrow> [] | Some d \<Rightarrow> [(''decision_digest'', JStr d)]) @
     [(''system_state_preserved'', JBool (ax_preserved x))]"

definition exception_digest :: "assurance_exception \<Rightarrow> string" where
  "exception_digest x = digest_of (exception_payload x)"

definition exception_to_dict :: "assurance_exception \<Rightarrow> payload" where
  "exception_to_dict x = exception_payload x @ [(''digest'', JStr (ax_digest x))]"

definition make_exception :: "assurance_exception \<Rightarrow> assurance_exception result" where
  "make_exception x =
     bindE (guards [
       (blank (ax_exception_id x), ValueError ''exception_id''),
       (blank (ax_subject_id x), ValueError ''subject_id''),
       (blank (ax_invariant x), ValueError ''invariant''),
       (blank (ax_reason x), ValueError ''reason_operation_continues''),
       (blank (ax_authorized_by x), ValueError ''authorized_by''),
       (blank (ax_expires_at x), ValueError ''expires_at''),
       (blank (ax_compensating_control x), ValueError ''compensating_control''),
       (blank (ax_reverification_required x), ValueError ''reverification_required''),
       (blank (ax_created_at x), ValueError ''created_at''),
       (ax_evidence_references x = [], ValueError ''evidence references'')]) (\<lambda>_.
     bindE (fromisoformat (ax_created_at x)) (\<lambda>created.
     bindE (fromisoformat (ax_expires_at x)) (\<lambda>expires.
     bindE (guards [(\<not> tz_aware created \<or> \<not> tz_aware expires, ValueError ''timezone-aware'')]) (\<lambda>_.
     bindE (to_utc expires) (\<lambda>e.
     bindE (to_utc created) (\<lambda>c.
     bindE (guards [
       (instant e \<le> instant c, ValueError ''later than creation''),
       (case ax_decision_digest x of None \<Rightarrow> False | Some d \<Rightarrow> \<not> is_sha256 d, ValueError ''decision_digest''),
       (\<not> ax_preserved x, ValueError ''must preserve''),
       (ax_digest x \<noteq> [] \<and> ax_digest x \<noteq> exception_digest x, ValueError ''digest mismatch'')]) (\<lambda>_.
     Inr (x\<lparr>ax_digest := exception_digest x\<rparr>))))))))"

definition exceptional :: "security_decision \<Rightarrow> bool" where
  "exceptional d = (d \<in> {ALLOW_WITH_LIMITATIONS, REQUIRE_REVERIFICATION})"

definition create_assurance_exception ::
    "assurance_decision \<Rightarrow> string \<Rightarrow> string \<Rightarrow> string \<Rightarrow> datetime \<Rightarrow> string \<Rightarrow> string \<Rightarrow> datetime \<Rightarrow>
     assurance_exception result" where
  "create_assurance_exception d exception_id reason authorized_by expires_at control reverification created_at =
     bindE (guards [(\<not> exceptional (ad_decision d), ValueError ''non-clear'')]) (\<lambda>_.
     bindE (timestamp expires_at) (\<lambda>expires.
     bindE (timestamp created_at) (\<lambda>created.
     make_exception
       \<lparr>ax_exception_id = exception_id, ax_subject_id = ad_subject_id d,
        ax_invariant = ''decision:'' @ decision_value (ad_decision d), ax_reason = reason,
        ax_authorized_by = authorized_by, ax_expires_at = expires, ax_compensating_control = control,
        ax_reverification_required = reverification, ax_evidence_references = ad_evidence_references d,
        ax_created_at = created, ax_decision_digest = Some (ad_digest d), ax_preserved = True, ax_digest = []\<rparr>)))"

section \<open>Reading persisted records\<close>

definition strict_string :: "json \<Rightarrow> string \<Rightarrow> string result" where
  "strict_string v name = (case v of JStr s \<Rightarrow> if blank s then Inl (ValueError name) else Inr s | _ \<Rightarrow> Inl (ValueError name))"

definition strict_bool :: "json \<Rightarrow> string \<Rightarrow> bool result" where
  "strict_bool v name = (case v of JBool b \<Rightarrow> Inr b | _ \<Rightarrow> Inl (ValueError name))"

definition strict_strings :: "json \<Rightarrow> string \<Rightarrow> bool \<Rightarrow> string list result" where
  "strict_strings v name allow_empty =
     (case v of
        JArr vs \<Rightarrow>
          if list_ex (\<lambda>w. case w of JStr s \<Rightarrow> blank s | _ \<Rightarrow> True) vs then Inl (ValueError name)
          else if \<not> allow_empty \<and> vs = [] then Inl (ValueError name)
          else Inr (map py_str vs)
      | _ \<Rightarrow> Inl (ValueError name))"

definition require_keys :: "payload \<Rightarrow> string list \<Rightarrow> string list \<Rightarrow> unit result" where
  "require_keys d allowed required = guards [
     (list_ex (\<lambda>k. k \<notin> set allowed) (map fst d), ValueError ''unsupported fields''),
     (list_ex (\<lambda>k. k \<notin> set (map fst d)) required, ValueError ''missing required fields'')]"

definition the_item :: "payload \<Rightarrow> string \<Rightarrow> (json \<Rightarrow> string \<Rightarrow> 'a result) \<Rightarrow> 'a result" where
  "the_item d k f = bindE (item d k) (\<lambda>v. f v k)"

definition decision_keys :: "string list" where
  "decision_keys = [''decision'', ''subject_id'', ''policy_id'', ''policy_version'', ''evidence_references'',
     ''verification_results'', ''rationale'', ''decision_context'', ''residual_risk'', ''generated_at'',
     ''source_reliability_state'', ''source_verification_status'', ''system_state_unchanged'', ''digest'']"

definition assurance_decision_from_dict :: "payload \<Rightarrow> assurance_decision result" where
  "assurance_decision_from_dict d =
     bindE (require_keys d decision_keys decision_keys) (\<lambda>_.
     bindE (the_item d ''generated_at'' strict_string) (\<lambda>generated.
     bindE (fromisoformat generated) (\<lambda>when.
     if \<not> tz_aware when then Inl (ValueError ''generated_at'') else
     bindE (the_item d ''decision'' strict_string) (\<lambda>decision_text.
     case decision_of decision_text of
       None \<Rightarrow> Inl (ValueError ''unsupported assurance decision'')
     | Some decision \<Rightarrow>
     bindE (the_item d ''subject_id'' strict_string) (\<lambda>subject.
     bindE (the_item d ''policy_id'' strict_string) (\<lambda>policy.
     bindE (the_item d ''policy_version'' strict_string) (\<lambda>version.
     bindE (the_item d ''evidence_references'' (\<lambda>v n. strict_strings v n False)) (\<lambda>evidence.
     bindE (the_item d ''verification_results'' (\<lambda>v n. strict_strings v n False)) (\<lambda>results.
     bindE (the_item d ''rationale'' (\<lambda>v n. strict_strings v n False)) (\<lambda>rationale.
     bindE (the_item d ''decision_context'' strict_string) (\<lambda>ctx.
     bindE (the_item d ''residual_risk'' (\<lambda>v n. strict_strings v n True)) (\<lambda>risk.
     bindE (the_item d ''source_reliability_state'' strict_string) (\<lambda>state.
     bindE (the_item d ''source_verification_status'' strict_string) (\<lambda>status.
     bindE (the_item d ''system_state_unchanged'' strict_bool) (\<lambda>unchanged.
     bindE (the_item d ''digest'' strict_string) (\<lambda>digest.
     make_decision
       \<lparr>ad_decision = decision, ad_subject_id = subject, ad_policy_id = policy, ad_policy_version = version,
        ad_evidence_references = evidence, ad_verification_results = results, ad_rationale = rationale,
        ad_decision_context = ctx, ad_residual_risk = risk, ad_generated_at = generated,
        ad_source_reliability_state = state, ad_source_verification_status = status,
        ad_unchanged = unchanged, ad_digest = digest\<rparr>))))))))))))))))"

definition exception_keys :: "string list" where
  "exception_keys = [''exception_id'', ''subject_id'', ''invariant'', ''reason_operation_continues'', ''authorized_by'',
     ''expires_at'', ''compensating_control'', ''reverification_required'', ''evidence_references'', ''created_at'',
     ''system_state_preserved'', ''digest'']"

definition assurance_exception_from_dict :: "payload \<Rightarrow> assurance_exception result" where
  "assurance_exception_from_dict d =
     bindE (require_keys d (exception_keys @ [''decision_digest'']) exception_keys) (\<lambda>_.
     bindE (case get_or d ''decision_digest'' JNull of
         JNull \<Rightarrow> Inr None | JStr s \<Rightarrow> Inr (Some s) | _ \<Rightarrow> Inl (ValueError ''decision_digest'')) (\<lambda>dd.
     bindE (the_item d ''exception_id'' strict_string) (\<lambda>i.
     bindE (the_item d ''subject_id'' strict_string) (\<lambda>subject.
     bindE (the_item d ''invariant'' strict_string) (\<lambda>invariant.
     bindE (the_item d ''reason_operation_continues'' strict_string) (\<lambda>reason.
     bindE (the_item d ''authorized_by'' strict_string) (\<lambda>by_whom.
     bindE (the_item d ''expires_at'' strict_string) (\<lambda>expires.
     bindE (the_item d ''compensating_control'' strict_string) (\<lambda>control.
     bindE (the_item d ''reverification_required'' strict_string) (\<lambda>reverification.
     bindE (the_item d ''evidence_references'' (\<lambda>v n. strict_strings v n False)) (\<lambda>evidence.
     bindE (the_item d ''created_at'' strict_string) (\<lambda>created.
     bindE (the_item d ''system_state_preserved'' strict_bool) (\<lambda>preserved.
     bindE (the_item d ''digest'' strict_string) (\<lambda>digest.
     make_exception
       \<lparr>ax_exception_id = i, ax_subject_id = subject, ax_invariant = invariant, ax_reason = reason,
        ax_authorized_by = by_whom, ax_expires_at = expires, ax_compensating_control = control,
        ax_reverification_required = reverification, ax_evidence_references = evidence, ax_created_at = created,
        ax_decision_digest = dd, ax_preserved = preserved, ax_digest = digest\<rparr>))))))))))))))"

section \<open>The service\<close>

text \<open>\<open>_read_json_object\<close>: whether the path passes through a symbolic link, and its bytes, are given.\<close>

definition read_json_object :: "bool \<Rightarrow> string option \<Rightarrow> int \<Rightarrow> payload result" where
  "read_json_object symlink content max_bytes =
     bindE (guards [(max_bytes \<le> 0, ValueError ''max_bytes''), (symlink, ValueError ''symlink'')]) (\<lambda>_.
     case content of
       None \<Rightarrow> Inl (FileNotFoundError ''path'')
     | Some raw \<Rightarrow>
         if max_bytes < int (length raw) then Inl (OverflowError ''byte limit'')
         else if \<not> utf8_ok raw then Inl (ValueError ''UTF-8'')
         else (case loads raw of
             Some (JObj d) \<Rightarrow> Inr d
           | Some _ \<Rightarrow> Inl (ValueError ''JSON object'')
           | None \<Rightarrow> Inl (ValueError ''not valid JSON'')))"

definition rationale_value :: "assurance_decision \<Rightarrow> string \<Rightarrow> string result" where
  "rationale_value d pre =
     (case map (drop (length pre)) (filter (\<lambda>s. starts_with s pre) (ad_rationale d)) of
        [m] \<Rightarrow> if blank m then Inl (ValueError pre) else Inr m
      | _ \<Rightarrow> Inl (ValueError pre))"

definition verify_assurance_decision_semantics :: "assurance_decision \<Rightarrow> unit result" where
  "verify_assurance_decision_semantics d =
     bindE (rationale_value d ''trust-status:'') (\<lambda>trust_status.
     bindE (rationale_value d ''policy-rule:'') (\<lambda>rule.
     bindE (fromisoformat (ad_generated_at d)) (\<lambda>when.
     if \<not> tz_aware when then Inl (ValueError ''timezone-aware'') else
     bindE (construct decision_input_post_init
       \<lparr>ai_subject_id = ad_subject_id d, ai_reliability_state = ad_source_reliability_state d,
        ai_verification_status = ad_source_verification_status d, ai_trust_status = trust_status,
        ai_recovery_required = (rule = ''recovery-required''), ai_evidence_references = ad_evidence_references d,
        ai_verification_results = ad_verification_results d, ai_residual_risk = ad_residual_risk d\<rparr>) (\<lambda>i.
     bindE (to_utc when) (\<lambda>u.
     bindE (evaluate_assurance_decision i (ad_policy_id d) (ad_policy_version d) u) (\<lambda>replayed.
     guards [(decision_to_dict replayed \<noteq> decision_to_dict d, ValueError ''policy replay'')]))))))"

definition load_assurance_decision :: "bool \<Rightarrow> string option \<Rightarrow> int \<Rightarrow> assurance_decision result" where
  "load_assurance_decision symlink content max_bytes =
     bindE (read_json_object symlink content max_bytes) (\<lambda>p.
     bindE (assurance_decision_from_dict p) (\<lambda>d.
     bindE (verify_assurance_decision_semantics d) (\<lambda>_. Inr d)))"

definition load_assurance_exception :: "bool \<Rightarrow> string option \<Rightarrow> int \<Rightarrow> assurance_exception result" where
  "load_assurance_exception symlink content max_bytes =
     bindE (read_json_object symlink content max_bytes) assurance_exception_from_dict"

definition verify_assurance_exception_binding ::
    "assurance_decision \<Rightarrow> assurance_exception \<Rightarrow> datetime \<Rightarrow> string result" where
  "verify_assurance_exception_binding d x evaluated_at =
     bindE (guards [
       (\<not> tz_aware evaluated_at, ValueError ''evaluation timestamp''),
       (\<not> exceptional (ad_decision d), ValueError ''does not permit''),
       (ax_subject_id x \<noteq> ad_subject_id d, ValueError ''subject''),
       (ax_invariant x \<noteq> ''decision:'' @ decision_value (ad_decision d), ValueError ''invariant''),
       (ax_evidence_references x \<noteq> ad_evidence_references d, ValueError ''evidence references''),
       (case ax_decision_digest x of None \<Rightarrow> False | Some g \<Rightarrow> g \<noteq> ad_digest d, ValueError ''decision digest'')]) (\<lambda>_.
     bindE (fromisoformat (ax_expires_at x)) (\<lambda>expires.
     if \<not> tz_aware expires then Inl (ValueError ''expiry'') else
     bindE (to_utc evaluated_at) (\<lambda>a.
     bindE (to_utc expires) (\<lambda>e.
     Inr (if instant a < instant e then ''active'' else ''expired'')))))"

definition assurance_artifact_bytes :: "bool \<Rightarrow> string option \<Rightarrow> int \<Rightarrow> int result" where
  "assurance_artifact_bytes symlink content max_bytes =
     bindE (guards [(symlink, ValueError ''symlink'')]) (\<lambda>_.
     case content of
       None \<Rightarrow> Inl (FileNotFoundError ''path'')
     | Some raw \<Rightarrow>
         if max_bytes < int (length raw) then Inl (OverflowError ''byte limit'')
         else Inr (int (length raw)))"

section \<open>The policy\<close>

lemma fromisoformat_utc_iso: "in_range t \<Longrightarrow> fromisoformat (utc_iso (Aware t)) = Inr (Aware t)"
  using parse_datetime_utc_iso [of t "[]"] by (cases "fromisoformat (utc_iso (Aware t))")
    (auto simp: parse_datetime_def split: if_splits)

lemma timestamp_Inr: "timestamp t = Inr s \<longleftrightarrow> (\<exists>u. t = Aware u \<and> in_range u \<and> s = utc_iso (Aware u))"
  by (cases t) (auto simp: timestamp_def to_utc_def)

definition residual_of :: "decision_input \<Rightarrow> string list" where
  "residual_of i =
     (if ai_residual_risk i \<noteq> [] then ai_residual_risk i
      else if fst (policy_rule i) = ALLOW then [] else [snd (policy_rule i)])"

definition evaluated :: "decision_input \<Rightarrow> string \<Rightarrow> string \<Rightarrow> int \<Rightarrow> assurance_decision" where
  "evaluated i policy_id policy_version u =
     (let d = \<lparr>ad_decision = fst (policy_rule i), ad_subject_id = ai_subject_id i, ad_policy_id = policy_id,
        ad_policy_version = policy_version, ad_evidence_references = ai_evidence_references i,
        ad_verification_results = ai_verification_results i,
        ad_rationale = [''policy-rule:'' @ snd (policy_rule i), ''reliability-state:'' @ ai_reliability_state i,
          ''verification-status:'' @ ai_verification_status i, ''trust-status:'' @ ai_trust_status i],
        ad_decision_context = ''evidence-backed assurance policy evaluation'', ad_residual_risk = residual_of i,
        ad_generated_at = utc_iso (Aware u), ad_source_reliability_state = ai_reliability_state i,
        ad_source_verification_status = ai_verification_status i, ad_unchanged = True, ad_digest = []\<rparr>
      in d\<lparr>ad_digest := decision_digest d\<rparr>)"

lemma evaluated_fields [simp]:
  "ad_decision (evaluated i p v u) = fst (policy_rule i)" "ad_subject_id (evaluated i p v u) = ai_subject_id i"
  "ad_policy_id (evaluated i p v u) = p" "ad_policy_version (evaluated i p v u) = v"
  "ad_evidence_references (evaluated i p v u) = ai_evidence_references i"
  "ad_verification_results (evaluated i p v u) = ai_verification_results i"
  "ad_residual_risk (evaluated i p v u) = residual_of i" "ad_generated_at (evaluated i p v u) = utc_iso (Aware u)"
  "ad_source_reliability_state (evaluated i p v u) = ai_reliability_state i"
  "ad_source_verification_status (evaluated i p v u) = ai_verification_status i"
  "ad_unchanged (evaluated i p v u)"
  by (simp_all add: evaluated_def Let_def)

lemma evaluate_Inr:
  "evaluate_assurance_decision i policy_id policy_version t = Inr d \<longleftrightarrow>
    \<not> blank policy_id \<and> \<not> blank policy_version \<and> \<not> blank (ai_subject_id i) \<and> ai_evidence_references i \<noteq> [] \<and>
    ai_verification_results i \<noteq> [] \<and>
    (\<exists>u. t = Aware u \<and> in_range u \<and> d = evaluated i policy_id policy_version u)"
proof (cases "policy_rule i")
  case (Pair decision rule)
  have "\<not> blank ''evidence-backed assurance policy evaluation''" by simp
  with Pair show ?thesis
    unfolding evaluate_assurance_decision_def evaluated_def residual_of_def
    by (auto simp: bindE_eq_Inr_iff timestamp_Inr make_decision_def)
qed

text \<open>
  The policy allows exactly what is verified. On valid inputs with results, a policy identity and an
  aware time it always decides; it allows operation exactly when trust is not revoked, no recovery is
  required, the verification is unqualified and the state is reliable or recovered; it allows it with
  limitations only for verified evidence of a state that is not unreliable; every decision leaves the
  system state unchanged, and every other decision names a residual risk.
\<close>

theorem assurance_policy_correct:
  assumes "decision_input_post_init i = Inr ()" "ai_verification_results i \<noteq> []"
    and "\<not> blank policy_id" "\<not> blank policy_version" "in_range u"
  shows "\<exists>d. evaluate_assurance_decision i policy_id policy_version (Aware u) = Inr d \<and>
    (ad_decision d = ALLOW \<longleftrightarrow> ai_trust_status i \<noteq> ''revoked'' \<and> \<not> ai_recovery_required i \<and>
       ai_verification_status i = ''verified'' \<and> ai_reliability_state i \<in> {''reliable'', ''recovered''}) \<and>
    (ad_decision d = ALLOW_WITH_LIMITATIONS \<longrightarrow> ai_trust_status i \<noteq> ''revoked'' \<and> \<not> ai_recovery_required i \<and>
       ai_verification_status i \<in> {''verified'', ''verified_with_limitations''} \<and> ai_reliability_state i \<noteq> ''unreliable'') \<and>
    ad_unchanged d \<and> (ad_decision d = ALLOW \<or> ad_residual_risk d \<noteq> [])"
proof -
  have v: "ai_verification_status i \<in> {''verified'', ''verified_with_limitations'', ''unverified'', ''invalid'', ''tampered'',
      ''incomplete'', ''trust_anchor_unavailable''}"
    using assms(1) by (simp add: decision_input_post_init_def allowed_verification_def)
  have "evaluate_assurance_decision i policy_id policy_version (Aware u) = Inr (evaluated i policy_id policy_version u)"
    using assms by (auto simp: evaluate_Inr decision_input_post_init_def)
  moreover have "residual_of i \<noteq> [] \<or> fst (policy_rule i) = ALLOW" by (simp add: residual_of_def)
  moreover have "fst (policy_rule i) = ALLOW \<longleftrightarrow> ai_trust_status i \<noteq> ''revoked'' \<and> \<not> ai_recovery_required i \<and>
       ai_verification_status i = ''verified'' \<and> ai_reliability_state i \<in> {''reliable'', ''recovered''}"
    using v by (auto simp: policy_rule_def)
  moreover have "fst (policy_rule i) = ALLOW_WITH_LIMITATIONS \<longrightarrow> ai_trust_status i \<noteq> ''revoked'' \<and> \<not> ai_recovery_required i \<and>
       ai_verification_status i \<in> {''verified'', ''verified_with_limitations''} \<and> ai_reliability_state i \<noteq> ''unreliable''"
    using v by (auto simp: policy_rule_def)
  ultimately show ?thesis by (intro exI [of _ "evaluated i policy_id policy_version u"]) auto
qed

section \<open>Replay\<close>

lemma decision_value_inject [simp]: "decision_value d = decision_value e \<longleftrightarrow> d = e"
  by (cases d; cases e) simp_all

lemma decision_to_dict_inject: "decision_to_dict d = decision_to_dict e \<Longrightarrow> d = e"
  by (cases d; cases e) (simp add: decision_to_dict_def decision_payload_def)

definition evidence_context :: "assurance_decision \<Rightarrow> string \<Rightarrow> bool \<Rightarrow> decision_input" where
  "evidence_context d trust recovery =
     \<lparr>ai_subject_id = ad_subject_id d, ai_reliability_state = ad_source_reliability_state d,
      ai_verification_status = ad_source_verification_status d, ai_trust_status = trust,
      ai_recovery_required = recovery, ai_evidence_references = ad_evidence_references d,
      ai_verification_results = ad_verification_results d, ai_residual_risk = ad_residual_risk d\<rparr>"

lemma verify_semantics_Inr:
  "verify_assurance_decision_semantics d = Inr () \<longleftrightarrow>
    (\<exists>trust rule u. rationale_value d ''trust-status:'' = Inr trust \<and> rationale_value d ''policy-rule:'' = Inr rule \<and>
       fromisoformat (ad_generated_at d) = Inr (Aware u) \<and> in_range u \<and>
       decision_input_post_init (evidence_context d trust (rule = ''recovery-required'')) = Inr () \<and>
       evaluate_assurance_decision (evidence_context d trust (rule = ''recovery-required'')) (ad_policy_id d)
         (ad_policy_version d) (Aware u) = Inr d)"
  (is "?l \<longleftrightarrow> ?r")
proof
  have tz: "tz_aware t \<longleftrightarrow> (\<exists>u. t = Aware u)" for t by (cases t) simp_all
  assume ?l
  then obtain trust rule tm replayed where
    "rationale_value d ''trust-status:'' = Inr trust" "rationale_value d ''policy-rule:'' = Inr rule"
    "fromisoformat (ad_generated_at d) = Inr tm" "tz_aware tm" "in_range (instant tm)"
    "decision_input_post_init (evidence_context d trust (rule = ''recovery-required'')) = Inr ()"
    "evaluate_assurance_decision (evidence_context d trust (rule = ''recovery-required'')) (ad_policy_id d)
         (ad_policy_version d) tm = Inr replayed" "decision_to_dict replayed = decision_to_dict d"
    unfolding verify_assurance_decision_semantics_def evidence_context_def [symmetric]
    by (auto simp: bindE_eq_Inr_iff construct_Inr_iff to_utc_def split: if_splits)
  then show ?r using decision_to_dict_inject [of replayed d] by (auto simp: tz)
next
  assume ?r
  then obtain trust rule u where
    "rationale_value d ''trust-status:'' = Inr trust" "rationale_value d ''policy-rule:'' = Inr rule"
    "fromisoformat (ad_generated_at d) = Inr (Aware u)" "in_range u"
    "decision_input_post_init (evidence_context d trust (rule = ''recovery-required'')) = Inr ()"
    "evaluate_assurance_decision (evidence_context d trust (rule = ''recovery-required'')) (ad_policy_id d)
         (ad_policy_version d) (Aware u) = Inr d" by blast
  then show ?l
    unfolding verify_assurance_decision_semantics_def evidence_context_def [symmetric]
    by (simp add: construct_ok to_utc_def)
qed

text \<open>The rationale of an evaluated decision and the context it was evaluated in are recovered from it.\<close>

lemma policy_rule_names:
  "snd (policy_rule i) \<noteq> []" "\<not> blank (snd (policy_rule i))"
  by (simp_all add: policy_rule_def)

lemma rationale_evaluated:
  assumes "\<not> blank (ai_trust_status i)"
  shows "rationale_value (evaluated i p v u) ''trust-status:'' = Inr (ai_trust_status i)"
    and "rationale_value (evaluated i p v u) ''policy-rule:'' = Inr (snd (policy_rule i))"
  using assms policy_rule_names(2) [of i]
  by (simp_all add: rationale_value_def evaluated_def Let_def starts_with_def)

lemma policy_rule_replay:
  assumes "ai_trust_status j = ai_trust_status i" "ai_verification_status j = ai_verification_status i"
    and "ai_reliability_state j = ai_reliability_state i"
    and "ai_recovery_required j = (snd (policy_rule i) = ''recovery-required'')"
  shows "policy_rule j = policy_rule i"
  using assms by (auto simp: policy_rule_def)

lemma evaluated_replay:
  "evaluated (evidence_context (evaluated i p v u) (ai_trust_status i) (snd (policy_rule i) = ''recovery-required''))
    p v u = evaluated i p v u"
proof -
  define j where "j = evidence_context (evaluated i p v u) (ai_trust_status i) (snd (policy_rule i) = ''recovery-required'')"
  have f: "ai_subject_id j = ai_subject_id i" "ai_reliability_state j = ai_reliability_state i"
    "ai_verification_status j = ai_verification_status i" "ai_trust_status j = ai_trust_status i"
    "ai_recovery_required j = (snd (policy_rule i) = ''recovery-required'')"
    "ai_evidence_references j = ai_evidence_references i" "ai_verification_results j = ai_verification_results i"
    "ai_residual_risk j = residual_of i"
    by (simp_all add: j_def evidence_context_def)
  have r: "policy_rule j = policy_rule i" by (rule policy_rule_replay) (simp_all add: f)
  have "residual_of j = residual_of i" unfolding residual_of_def [of j] r f by (simp add: residual_of_def)
  then have "evaluated j p v u = evaluated i p v u" by (simp add: evaluated_def r f)
  then show ?thesis by (simp only: j_def)
qed

text \<open>
  Replay accepts exactly the decisions of the policy. A decision record passes the semantic check if and
  only if it is what the policy returns for some valid inputs, policy identity and time; a record altered in
  any field is rejected unless it is again such a decision.
\<close>

theorem assurance_replay_iff:
  "verify_assurance_decision_semantics d = Inr () \<longleftrightarrow>
    (\<exists>i p v t. decision_input_post_init i = Inr () \<and> evaluate_assurance_decision i p v t = Inr d)"
proof
  assume "verify_assurance_decision_semantics d = Inr ()"
  then show "\<exists>i p v t. decision_input_post_init i = Inr () \<and> evaluate_assurance_decision i p v t = Inr d"
    unfolding verify_semantics_Inr by blast
next
  assume "\<exists>i p v t. decision_input_post_init i = Inr () \<and> evaluate_assurance_decision i p v t = Inr d"
  then obtain i p v u where i: "decision_input_post_init i = Inr ()" "\<not> blank p" "\<not> blank v" "ai_verification_results i \<noteq> []"
    "in_range u" and d: "d = evaluated i p v u" by (auto simp: evaluate_Inr)
  let ?j = "evidence_context d (ai_trust_status i) (snd (policy_rule i) = ''recovery-required'')"
  have trust: "\<not> blank (ai_trust_status i)" using i(1) by (simp add: decision_input_post_init_def)
  have g: "ad_generated_at d = utc_iso (Aware u)" "ad_policy_id d = p" "ad_policy_version d = v"
    by (simp_all add: d)
  have j: "decision_input_post_init ?j = Inr ()" "ai_verification_results ?j \<noteq> []"
    using i policy_rule_names(2) [of i]
    by (auto simp: decision_input_post_init_def evidence_context_def d residual_of_def)
  have "evaluate_assurance_decision ?j p v (Aware u) = Inr d"
    using i(2,3,5) j evaluated_replay [of i p v u] by (auto simp: evaluate_Inr decision_input_post_init_def d)
  with trust j g i(5) show "verify_assurance_decision_semantics d = Inr ()"
    unfolding verify_semantics_Inr
    by (auto simp: d rationale_evaluated fromisoformat_utc_iso)
qed

section \<open>Operational exceptions\<close>

lemma json_ok_decision [simp]: "json_ok (\<lambda>s. True) (JObj (decision_payload d))"
  by (simp add: decision_payload_def)

lemma decision_digest_inject:
  assumes "ad_digest d = ad_digest e" "ad_digest d = decision_digest d" "ad_digest e = decision_digest e"
  shows "d = e \<or> digest_collision (decision_payload d) (decision_payload e)"
proof -
  have "digest_collision (decision_payload d) (decision_payload e) \<or>
      (\<forall>k. map_option sort_keys (map_of (decision_payload d) k) = map_option sort_keys (map_of (decision_payload e) k))"
    using assms by (intro digest_of_inject) (simp_all add: decision_digest_def)
  moreover have "d = e"
    if k: "\<And>k. map_option sort_keys (map_of (decision_payload d) k) = map_option sort_keys (map_of (decision_payload e) k)"
    using k [of "''decision''"] k [of "''subject_id''"] k [of "''policy_id''"] k [of "''policy_version''"]
      k [of "''evidence_references''"] k [of "''verification_results''"] k [of "''rationale''"]
      k [of "''decision_context''"] k [of "''residual_risk''"] k [of "''generated_at''"]
      k [of "''source_reliability_state''"] k [of "''source_verification_status''"]
      k [of "''system_state_unchanged''"] assms(1)
    by (intro decision_to_dict_inject) (simp add: decision_payload_def decision_to_dict_def)
  ultimately show ?thesis by blast
qed

lemma create_exception_Inr:
  assumes "create_assurance_exception d i reason who expires_at control reverification created_at = Inr x"
  shows "exceptional (ad_decision d)"
    and "\<exists>e c. expires_at = Aware e \<and> created_at = Aware c \<and> in_range e \<and> c < e \<and> ax_expires_at x = utc_iso (Aware e)"
    and "ax_subject_id x = ad_subject_id d" "ax_invariant x = ''decision:'' @ decision_value (ad_decision d)"
    and "ax_evidence_references x = ad_evidence_references d" "ax_decision_digest x = Some (ad_digest d)" "ax_preserved x"
  using assms
  by (auto simp: create_assurance_exception_def make_exception_def bindE_eq_Inr_iff timestamp_Inr fromisoformat_utc_iso
      to_utc_def split: if_splits)

text \<open>
  An exception is bound to one decision and to its time. An exception exists only for a decision that
  is neither clear nor a refusal, expires after its creation and preserves the system state; checked against
  its decision it is active exactly before its expiry; and no other decision record accepts it, unless two
  payloads collide under SHA-256.
\<close>

theorem assurance_exception_bound:
  assumes "create_assurance_exception d i reason who expires_at control reverification created_at = Inr x"
    and "in_range a"
  shows "exceptional (ad_decision d) \<and> ax_preserved x \<and>
    (\<exists>e c. expires_at = Aware e \<and> created_at = Aware c \<and> c < e \<and>
       verify_assurance_exception_binding d x (Aware a) = Inr (if a < e then ''active'' else ''expired'')) \<and>
    (\<forall>d' s. verify_assurance_exception_binding d' x (Aware a) = Inr s \<and> ad_digest d' = decision_digest d' \<and>
       ad_digest d = decision_digest d \<longrightarrow> d' = d \<or> digest_collision (decision_payload d') (decision_payload d))"
proof -
  note x = create_exception_Inr [OF assms(1)]
  obtain e c where e: "expires_at = Aware e" "created_at = Aware c" "in_range e" "c < e" "ax_expires_at x = utc_iso (Aware e)"
    using x(2) by blast
  have "verify_assurance_exception_binding d x (Aware a) = Inr (if a < e then ''active'' else ''expired'')"
    using x e assms(2) by (simp add: verify_assurance_exception_binding_def to_utc_def fromisoformat_utc_iso)
  moreover have "d' = d \<or> digest_collision (decision_payload d') (decision_payload d)"
    if "verify_assurance_exception_binding d' x (Aware a) = Inr s" "ad_digest d' = decision_digest d'"
      "ad_digest d = decision_digest d" for d' s
  proof (rule decision_digest_inject)
    show "ad_digest d' = ad_digest d"
      using that(1) x(6) by (auto simp: verify_assurance_exception_binding_def bindE_eq_Inr_iff)
  qed (rule that)+
  ultimately show ?thesis using x(1,7) e by blast
qed

definition sample_input :: decision_input where
  "sample_input = \<lparr>ai_subject_id = ''s'', ai_reliability_state = ''degraded'', ai_verification_status = ''verified'',
     ai_trust_status = ''trusted'', ai_recovery_required = False, ai_evidence_references = [''e''],
     ai_verification_results = [''r''], ai_residual_risk = []\<rparr>"

lemma assurance_policy_correct_witness:
  "\<exists>d. evaluate_assurance_decision sample_input ''p'' ''1'' (Aware 5) = Inr d \<and> ad_decision d \<noteq> ALLOW"
proof -
  have "decision_input_post_init sample_input = Inr ()" by code_simp
  from assurance_policy_correct [OF this, of "''p''" "''1''" 5] show ?thesis
    by (auto simp: sample_input_def in_range_def day_us_def max_days_def)
qed

lemma assurance_exception_bound_witness:
  "\<exists>d x. create_assurance_exception d ''x'' ''r'' ''a'' (Aware 9) ''c'' ''v'' (Aware 7) = Inr x \<and>
    verify_assurance_exception_binding d x (Aware 8) = Inr ''active''"
proof -
  let ?d = "evaluated sample_input ''p'' ''1'' 5"
  have r: "in_range 5" "in_range 7" "in_range 8" "in_range 9" by (simp_all add: in_range_def day_us_def max_days_def)
  have f: "fst (policy_rule sample_input) = ALLOW_WITH_LIMITATIONS" by code_simp
  have b: "\<not> blank (utc_iso (Aware 7))" "\<not> blank (utc_iso (Aware 9))" by code_simp+
  have "is_sha256 (ad_digest ?d)" by (simp add: evaluated_def Let_def decision_digest_def)
  then have "\<exists>x. create_assurance_exception ?d ''x'' ''r'' ''a'' (Aware 9) ''c'' ''v'' (Aware 7) = Inr x"
    using r f b by (simp add: create_assurance_exception_def make_exception_def timestamp_def to_utc_def exceptional_def
        fromisoformat_utc_iso sample_input_def)
  then obtain x where "create_assurance_exception ?d ''x'' ''r'' ''a'' (Aware 9) ''c'' ''v'' (Aware 7) = Inr x" by blast
  with assurance_exception_bound [OF this r(3)] show ?thesis by (intro exI [of _ ?d] exI [of _ x]) auto
qed

end
