(* ===== verification/ClaimProfile.thy ===== *)
theory ClaimProfile
  imports ReliabilityState ReliabilityEvidence
begin

text \<open>
  \<open>domain/reliability_claim_profile.py\<close> and \<open>services/reliability_claim_profile_service.py\<close>: versioned profiles
  of what a decision claim requires, their evaluation on an evidence chain, and the built-in profiles. The
  evaluation against the records of a workspace database is not modelled.
\<close>

section \<open>Profiles\<close>

record claim_profile =
  cp_profile_id :: string
  cp_version :: string
  cp_title :: string
  cp_evidence_kinds :: "string list"
  cp_conditions :: "string list"
  cp_decisions :: "string list"
  cp_rationale :: bool
  cp_reconciliation_states :: "string list"
  cp_reliability_states :: "string list"
  cp_contract_types :: "string list"
  cp_caveats :: "string list"
  cp_description :: string

definition profile_guards :: "claim_profile \<Rightarrow> unit result" where
  "profile_guards p = guards [
     (blank (cp_profile_id p), ValueError ''profile_id''),
     (blank (cp_version p), ValueError ''version''),
     (blank (cp_title p), ValueError ''title''),
     (cp_evidence_kinds p = [], ValueError ''required_evidence_kinds''),
     (cp_decisions p = [], ValueError ''allowed_decisions''),
     (list_ex (\<lambda>d. d \<notin> {''accept'', ''review'', ''reject''}) (cp_decisions p), ValueError ''unsupported decision''),
     (list_ex (\<lambda>s. s \<notin> {''pending'', ''verified'', ''stale'', ''missing'', ''invalid'', ''recovered''})
        (cp_reconciliation_states p), ValueError ''required_reconciliation_states''),
     (list_ex (\<lambda>s. s \<notin> {''reliable'', ''degraded'', ''unreliable'', ''recovered''}) (cp_reliability_states p),
        ValueError ''required_reliability_states''),
     (\<not> distinct (cp_decisions p), ValueError ''duplicate decisions''),
     (\<not> distinct (cp_evidence_kinds p), ValueError ''duplicate kinds''),
     (\<not> distinct (cp_contract_types p), ValueError ''duplicate contract types''),
     (list_ex blank (cp_contract_types p), ValueError ''blank contract type''),
     (list_ex blank (cp_caveats p), ValueError ''blank caveat'')]"

definition claim_profile_payload :: "claim_profile \<Rightarrow> payload" where
  "claim_profile_payload p = [
     (''profile_id'', JStr (cp_profile_id p)),
     (''version'', JStr (cp_version p)),
     (''title'', JStr (cp_title p)),
     (''description'', JStr (cp_description p)),
     (''required_evidence_kinds'', jstrs (cp_evidence_kinds p)),
     (''required_verification_conditions'', jstrs (cp_conditions p)),
     (''allowed_decisions'', jstrs (cp_decisions p)),
     (''required_rationale'', JBool (cp_rationale p)),
     (''required_reconciliation_states'', jstrs (cp_reconciliation_states p)),
     (''required_reliability_states'', jstrs (cp_reliability_states p)),
     (''required_ai_contract_types'', jstrs (cp_contract_types p)),
     (''caveats'', jstrs (cp_caveats p))]"

definition claim_profile_digest :: "claim_profile \<Rightarrow> string" where
  "claim_profile_digest p = digest_of (claim_profile_payload p)"

definition claim_profile_to_dict :: "claim_profile \<Rightarrow> payload" where
  "claim_profile_to_dict p = claim_profile_payload p @ [(''digest'', JStr (claim_profile_digest p))]"

definition get_strings :: "payload \<Rightarrow> string \<Rightarrow> string list result" where
  "get_strings d k = string_sequence (get_or d k (JArr [])) k"

definition claim_profile_from_dict :: "payload \<Rightarrow> claim_profile result" where
  "claim_profile_from_dict d =
     bindE (item_str d ''profile_id'') (\<lambda>profile_id.
     bindE (item_str d ''version'') (\<lambda>version.
     bindE (item_str d ''title'') (\<lambda>title.
     bindE (get_strings d ''required_evidence_kinds'') (\<lambda>kinds.
     bindE (get_strings d ''required_verification_conditions'') (\<lambda>conditions.
     bindE (get_strings d ''allowed_decisions'') (\<lambda>decisions.
     bindE (require_bool (get_or d ''required_rationale'' (JBool True)) ''required_rationale'') (\<lambda>rationale.
     bindE (get_strings d ''required_reconciliation_states'') (\<lambda>reconciliation.
     bindE (get_strings d ''required_reliability_states'') (\<lambda>reliability.
     bindE (get_strings d ''required_ai_contract_types'') (\<lambda>contracts.
     bindE (get_strings d ''caveats'') (\<lambda>caveats.
     bindE (construct profile_guards
       \<lparr>cp_profile_id = profile_id, cp_version = version, cp_title = title, cp_evidence_kinds = kinds,
        cp_conditions = conditions, cp_decisions = decisions, cp_rationale = rationale,
        cp_reconciliation_states = reconciliation, cp_reliability_states = reliability,
        cp_contract_types = contracts, cp_caveats = caveats, cp_description = get_str d ''description'' []\<rparr>) (\<lambda>p.
     bindE (guards [(get_str d ''digest'' [] \<noteq> [] \<and> get_str d ''digest'' [] \<noteq> claim_profile_digest p,
       ValueError ''digest mismatch'')]) (\<lambda>_. Inr p)))))))))))))"

definition load_claim_profile :: "files \<Rightarrow> string \<Rightarrow> claim_profile result" where
  "load_claim_profile fs path = bindE (load_object fs path ''payload'') claim_profile_from_dict"

definition write_claim_profile :: "claim_profile \<Rightarrow> string \<Rightarrow> files \<Rightarrow> files" where
  "write_claim_profile p path fs = fs(path \<mapsto> indented (JObj (claim_profile_to_dict p)))"

section \<open>Evaluation\<close>

record profile_evaluation =
  pe_profile_id :: string
  pe_profile_version :: string
  pe_satisfied :: bool
  pe_passed :: "string list"
  pe_failed :: "string list"
  pe_allowed_decisions :: "string list"
  pe_decision :: string
  pe_missing :: "string list"
  pe_caveats :: "string list"

text \<open>\<open>passed_requirements\<close> and \<open>failed_requirements\<close> repeat the passed and the failed conditions.\<close>

definition evaluation_to_dict :: "profile_evaluation \<Rightarrow> payload" where
  "evaluation_to_dict e = [
     (''format_version'', JStr ''1''),
     (''profile_id'', JStr (pe_profile_id e)),
     (''profile_version'', JStr (pe_profile_version e)),
     (''satisfied'', JBool (pe_satisfied e)),
     (''decision'', JStr (pe_decision e)),
     (''passed_conditions'', jstrs (pe_passed e)),
     (''failed_conditions'', jstrs (pe_failed e)),
     (''allowed_decisions'', jstrs (pe_allowed_decisions e)),
     (''passed_requirements'', jstrs (pe_passed e)),
     (''failed_requirements'', jstrs (pe_failed e)),
     (''missing_evidence'', jstrs (pe_missing e)),
     (''caveats'', jstrs (pe_caveats e))]"

definition write_claim_profile_evaluation :: "profile_evaluation \<Rightarrow> string \<Rightarrow> files \<Rightarrow> files" where
  "write_claim_profile_evaluation e path fs = fs(path \<mapsto> indented (JObj (evaluation_to_dict e)))"

definition claim_references :: "chain \<Rightarrow> evidence_reference list" where
  "claim_references c =
     [rc_run c, rc_state c] @ rc_evidence c @ [rc_provenance c, rc_integrity c] @
     List.map_filter id [rc_reconciliation_ref c, rc_recovery_ref c, rc_attestation_ref c,
       rc_decision_basis_ref c, rc_comparison_ref c, rc_reconciliation_binding_ref c]"

definition has_kind :: "chain \<Rightarrow> string \<Rightarrow> bool" where
  "has_kind c kind = list_ex (\<lambda>r. er_kind r = kind) (claim_references c)"

definition contract_aliases :: "(string, string) dict" where
  "contract_aliases = [(''prompt_evidence'', ''prompt''), (''retrieval_evidence'', ''retrieval''),
     (''policy_evidence'', ''policy''), (''human_approval'', ''human_approval'')]"

definition matches_contract :: "evidence_reference \<Rightarrow> string \<Rightarrow> bool" where
  "matches_contract r contract_type =
     (er_kind r \<in> {''evidence'', ''ai-contract:'' @ contract_type} \<and>
      list_ex (\<lambda>name. let p = ''ai-contract:'' @ name @ '':''
          in starts_with (er_identity r) p \<and> length p < length (er_identity r))
        [contract_type, dict_get contract_aliases contract_type contract_type])"

definition has_contract :: "chain \<Rightarrow> string \<Rightarrow> bool" where
  "has_contract c contract_type = list_ex (\<lambda>r. matches_contract r contract_type) (claim_references c)"

text \<open>The table of the conditions; a condition it does not have fails.\<close>

definition condition_holds :: "chain \<Rightarrow> string \<Rightarrow> bool" where
  "condition_holds c condition = dict_get [
     (''chain_verified'', rc_verification_status c = ''verified''),
     (''reconciliation_verified'', rc_reconciliation_state c = ''verified''),
     (''recovery_present'', rc_recovery_ref c \<noteq> None),
     (''attestation_present'', rc_attestation_ref c \<noteq> None),
     (''decision_rationale_present'', rc_decision_rationale c \<noteq> []),
     (''decision_basis_present'', rc_decision_basis_ref c \<noteq> None)] condition False"

definition decision_for :: "claim_profile \<Rightarrow> string list \<Rightarrow> bool \<Rightarrow> string" where
  "decision_for p failed decision_allowed =
     (if failed = [] \<and> decision_allowed then
        (if cp_profile_id p = ''ai_decision_with_limitations.v1'' then ''accepted_with_limitations'' else ''accepted'')
      else if cp_profile_id p = ''policy_reverification_required.v1'' then ''requires_reverification''
      else if ''review'' \<in> set (cp_decisions p) \<and> cp_caveats p \<noteq> [] then ''accepted_with_limitations''
      else ''rejected'')"

text \<open>The checks in source order: the label of each and whether it passes.\<close>

definition state_check :: "string \<Rightarrow> string list \<Rightarrow> string \<Rightarrow> (string \<times> bool) list" where
  "state_check label required state =
     (if required = [] then [] else [(label @ state, state \<in> set required)])"

definition kind_checks :: "chain \<Rightarrow> claim_profile \<Rightarrow> (string \<times> bool) list" where
  "kind_checks c p = map (\<lambda>k. (''evidence-kind:'' @ k, has_kind c k)) (cp_evidence_kinds p)"

definition contract_checks :: "chain \<Rightarrow> claim_profile \<Rightarrow> (string \<times> bool) list" where
  "contract_checks c p = map (\<lambda>k. (''ai-contract:'' @ k, has_contract c k)) (cp_contract_types p)"

definition profile_checks :: "chain \<Rightarrow> claim_profile \<Rightarrow> (string \<times> bool) list" where
  "profile_checks c p =
     kind_checks c p @ contract_checks c p @
     map (\<lambda>k. (k, condition_holds c k)) (cp_conditions p) @
     state_check ''reconciliation-state:'' (cp_reconciliation_states p) (rc_reconciliation_state c) @
     state_check ''reliability-state:'' (cp_reliability_states p) (rc_reliability_state c) @
     (if cp_rationale p then [(''rationale-present'', rc_decision_rationale c \<noteq> [])] else [])"

definition evaluate_claim_profile :: "chain \<Rightarrow> claim_profile \<Rightarrow> profile_evaluation" where
  "evaluate_claim_profile c p =
     (let checks = profile_checks c p;
          allowed = rc_decision c \<in> set (cp_decisions p);
          passed = map fst (filter snd checks);
          failed = map fst (filter (\<lambda>ck. \<not> snd ck) checks) @ (if allowed then [] else [''decision:'' @ rc_decision c]);
          missing = filter (\<lambda>k. \<not> has_kind c k) (cp_evidence_kinds p) @
            map fst (filter (\<lambda>ck. \<not> snd ck) (contract_checks c p))
      in \<lparr>pe_profile_id = cp_profile_id p, pe_profile_version = cp_version p,
          pe_satisfied = (failed = [] \<and> allowed), pe_passed = passed, pe_failed = failed,
          pe_allowed_decisions = cp_decisions p, pe_decision = decision_for p failed allowed,
          pe_missing = missing, pe_caveats = cp_caveats p\<rparr>)"

section \<open>Registries\<close>

definition make_registry :: "claim_profile list \<Rightarrow> claim_profile list result" where
  "make_registry ps =
     (if distinct (map (\<lambda>p. (cp_profile_id p, cp_version p)) ps) then Inr ps
      else Inl (ValueError ''duplicate claim profile''))"

definition registry_get :: "claim_profile list \<Rightarrow> string \<Rightarrow> string \<Rightarrow> claim_profile result" where
  "registry_get ps profile_id version =
     (case find_first (\<lambda>p. cp_profile_id p = profile_id \<and> cp_version p = version) ps of
        None \<Rightarrow> Inl (KeyError ''unknown claim profile'') | Some p \<Rightarrow> Inr p)"

text \<open>\<open>_profile\<close> with its default arguments, before the constructor.\<close>

definition builtin_profile :: "string \<Rightarrow> string \<Rightarrow> string \<Rightarrow> string list \<Rightarrow> claim_profile" where
  "builtin_profile profile_id title description contract_types =
     \<lparr>cp_profile_id = profile_id, cp_version = ''1'', cp_title = title,
      cp_evidence_kinds = [''run'', ''state'', ''provenance'', ''integrity''],
      cp_conditions = [''chain_verified'', ''reconciliation_verified'', ''decision_rationale_present''],
      cp_decisions = [''accept'', ''review'', ''reject''], cp_rationale = True,
      cp_reconciliation_states = [''verified'', ''recovered''],
      cp_reliability_states = [''reliable'', ''recovered''],
      cp_contract_types = contract_types, cp_caveats = [], cp_description = description\<rparr>"

definition incident_profile :: claim_profile where
  "incident_profile =
     (builtin_profile ''incident_recovery_verified.v1'' ''Incident recovery verified''
        ''A failure and recovery are separately recorded and the recovered state is verified.'' [''runtime_trace''])
     \<lparr>cp_conditions := [''chain_verified'', ''reconciliation_verified'', ''recovery_present'', ''decision_rationale_present''],
      cp_evidence_kinds := [''run'', ''state'', ''provenance'', ''integrity'', ''recovery'']\<rparr>"

definition limitations_profile :: claim_profile where
  "limitations_profile =
     (builtin_profile ''ai_decision_with_limitations.v1'' ''AI decision with limitations''
        ''A decision is allowed only with visible caveats and residual risk.'' [''policy_evidence'', ''evaluator_evidence''])
     \<lparr>cp_decisions := [''review''], cp_caveats := [''Decision must travel with its caveats and residual risk.'']\<rparr>"

definition reverification_profile :: claim_profile where
  "reverification_profile =
     (builtin_profile ''policy_reverification_required.v1'' ''Policy reverification required''
        ''Evidence or trust change requires reverification before acceptance.'' [''policy_evidence''])
     \<lparr>cp_decisions := [''review'', ''reject''], cp_reconciliation_states := [''stale'', ''invalid'', ''missing''],
      cp_reliability_states := [''degraded'', ''unreliable''],
      cp_caveats := [''Acceptance is blocked until policy evidence is reverified.'']\<rparr>"

definition builtin_claim_profiles :: "claim_profile list" where
  "builtin_claim_profiles = [
     builtin_profile ''rag_answer_verified.v1'' ''RAG answer verified''
       ''A RAG answer is supported by digest-bound prompt, model, retrieval, and citation-bound evidence.''
       [''prompt_evidence'', ''model_invocation'', ''retrieval_evidence''],
     builtin_profile ''tool_action_authorized.v1'' ''Tool action authorized''
       ''A tool action was authorized by policy, executed under a known schema, and recorded with input and output digests.''
       [''tool_call'', ''policy_evidence''],
     builtin_profile ''model_invocation_reconstructable.v1'' ''Model invocation reconstructable''
       ''A model invocation can be reconstructed from provider, model, parameters, request/response digests, and runtime trace.''
       [''model_invocation'', ''runtime_trace''],
     builtin_profile ''human_approval_recorded.v1'' ''Human approval recorded''
       ''A human approval exists with actor reference, role, scope, approval basis, and time.'' [''human_approval''],
     incident_profile,
     (builtin_profile ''release_evidence_complete.v1'' ''Release evidence complete''
       ''A release claim includes package digest, tests, build evidence, version, changelog, and unresolved limitations.''
       [''policy_evidence'', ''human_approval''])
       \<lparr>cp_caveats := [''Release authorization remains a separate human decision.'']\<rparr>,
     limitations_profile, reverification_profile]"

definition legacy_release_profile :: claim_profile where
  "legacy_release_profile =
     (builtin_profile ''release_evidence_complete.v1'' ''Release evidence complete''
        ''Legacy release-proof compatibility profile requiring the core reliability evidence chain without requiring Phase 1 AI contracts.'' [])
     \<lparr>cp_caveats := [''Release authorization remains a separate human decision.'']\<rparr>"

definition legacy_reverification_profile :: claim_profile where
  "legacy_reverification_profile =
     (builtin_profile ''policy_reverification_required.v1'' ''Policy reverification required''
        ''Legacy policy-change profile for non-AI evidence chains.'' [])
     \<lparr>cp_conditions := [''chain_verified''], cp_decisions := [''review'', ''reject''],
      cp_reconciliation_states := [], cp_reliability_states := [],
      cp_caveats := [''Acceptance is blocked until policy evidence is reverified.'']\<rparr>"

definition legacy_profiles :: "(string, claim_profile) dict" where
  "legacy_profiles = [(''release-evidence-complete'', legacy_release_profile),
     (''compliance-handoff-ready'', legacy_release_profile),
     (''model-prompt-change-review'', legacy_reverification_profile)]"

definition get_builtin_claim_profile :: "string \<Rightarrow> string \<Rightarrow> claim_profile result" where
  "get_builtin_claim_profile profile_id version =
     (case map_of legacy_profiles profile_id of
        Some p \<Rightarrow> if cp_version p \<noteq> version then Inl (KeyError ''unknown claim profile'') else Inr p
      | None \<Rightarrow> registry_get builtin_claim_profiles
          (dict_get [(''incident-recovery-verified'', ''incident_recovery_verified.v1'')] profile_id profile_id) version)"

section \<open>What a satisfied profile says\<close>

lemma satisfied_checks:
  "pe_satisfied (evaluate_claim_profile c p) \<longleftrightarrow>
     rc_decision c \<in> set (cp_decisions p) \<and> list_all snd (profile_checks c p)"
  by (auto simp: evaluate_claim_profile_def Let_def filter_empty_conv list_all_iff)

lemma all_state_check [simp]:
  "list_all snd (state_check label required state) \<longleftrightarrow> required = [] \<or> state \<in> set required"
  by (simp add: state_check_def)

lemma all_profile_checks:
  "list_all snd (profile_checks c p) \<longleftrightarrow>
     list_all (has_kind c) (cp_evidence_kinds p) \<and> list_all (has_contract c) (cp_contract_types p) \<and>
     list_all (condition_holds c) (cp_conditions p) \<and>
     (cp_reconciliation_states p = [] \<or> rc_reconciliation_state c \<in> set (cp_reconciliation_states p)) \<and>
     (cp_reliability_states p = [] \<or> rc_reliability_state c \<in> set (cp_reliability_states p)) \<and>
     (cp_rationale p \<longrightarrow> rc_decision_rationale c \<noteq> [])"
  by (simp add: profile_checks_def kind_checks_def contract_checks_def list.pred_map comp_def)

text \<open>
  An evaluation is complete and explains itself. A profile is satisfied exactly when the chain has every
  required kind and contract, meets every condition (a condition without a meaning fails), is in a
  required state where states are required, gives a rationale where one is required, and takes an allowed
  decision; it is satisfied exactly when nothing is listed as failed; every check is listed as passed or
  as failed; the missing evidence is that of the failed kinds and contracts; and only a satisfied
  profile is \<open>accepted\<close>.
\<close>

theorem claim_evaluation_correct:
  "let e = evaluate_claim_profile c p in
    (pe_satisfied e \<longleftrightarrow>
       (\<forall>k \<in> set (cp_evidence_kinds p). has_kind c k) \<and> (\<forall>k \<in> set (cp_contract_types p). has_contract c k) \<and>
       (\<forall>k \<in> set (cp_conditions p). condition_holds c k) \<and>
       (cp_reconciliation_states p = [] \<or> rc_reconciliation_state c \<in> set (cp_reconciliation_states p)) \<and>
       (cp_reliability_states p = [] \<or> rc_reliability_state c \<in> set (cp_reliability_states p)) \<and>
       (cp_rationale p \<longrightarrow> rc_decision_rationale c \<noteq> []) \<and> rc_decision c \<in> set (cp_decisions p)) \<and>
    (pe_satisfied e \<longleftrightarrow> pe_failed e = []) \<and>
    length (pe_passed e) + length (pe_failed e) =
      length (profile_checks c p) + (if rc_decision c \<in> set (cp_decisions p) then 0 else 1) \<and>
    (pe_missing e = [] \<longleftrightarrow> (\<forall>k \<in> set (cp_evidence_kinds p). has_kind c k) \<and> (\<forall>k \<in> set (cp_contract_types p). has_contract c k)) \<and>
    (pe_decision e = ''accepted'' \<longrightarrow> pe_satisfied e)"
proof -
  have len: "length (filter snd cs) + length (filter (\<lambda>ck. \<not> snd ck) cs) = length cs" for cs :: "(string \<times> bool) list"
    by (rule sum_length_filter_compl)
  have dec: "decision_for p failed al = ''accepted'' \<Longrightarrow> failed = [] \<and> al" for failed al
    by (auto simp: decision_for_def split: if_splits)
  have "pe_satisfied (evaluate_claim_profile c p) \<longleftrightarrow> pe_failed (evaluate_claim_profile c p) = []"
    by (simp add: evaluate_claim_profile_def Let_def)
  moreover have "pe_missing (evaluate_claim_profile c p) = [] \<longleftrightarrow>
      (\<forall>k \<in> set (cp_evidence_kinds p). has_kind c k) \<and> (\<forall>k \<in> set (cp_contract_types p). has_contract c k)"
    by (auto simp: evaluate_claim_profile_def Let_def contract_checks_def filter_empty_conv filter_map comp_def)
  moreover have "pe_decision (evaluate_claim_profile c p) = ''accepted'' \<Longrightarrow> pe_satisfied (evaluate_claim_profile c p)"
    by (auto simp: evaluate_claim_profile_def Let_def dest!: dec)
  moreover have "length (pe_passed (evaluate_claim_profile c p)) + length (pe_failed (evaluate_claim_profile c p)) =
      length (profile_checks c p) + (if rc_decision c \<in> set (cp_decisions p) then 0 else 1)"
    using len [of "profile_checks c p"] by (simp add: evaluate_claim_profile_def Let_def)
  moreover have "pe_satisfied (evaluate_claim_profile c p) \<longleftrightarrow>
       (\<forall>k \<in> set (cp_evidence_kinds p). has_kind c k) \<and> (\<forall>k \<in> set (cp_contract_types p). has_contract c k) \<and>
       (\<forall>k \<in> set (cp_conditions p). condition_holds c k) \<and>
       (cp_reconciliation_states p = [] \<or> rc_reconciliation_state c \<in> set (cp_reconciliation_states p)) \<and>
       (cp_reliability_states p = [] \<or> rc_reliability_state c \<in> set (cp_reliability_states p)) \<and>
       (cp_rationale p \<longrightarrow> rc_decision_rationale c \<noteq> []) \<and> rc_decision c \<in> set (cp_decisions p)"
    unfolding satisfied_checks unfolding all_profile_checks unfolding list_all_iff by auto
  ultimately show ?thesis
    unfolding Let_def by (intro conjI) blast+
qed

section \<open>The built-in profiles\<close>

lemma builtin_profiles_valid: "list_all (\<lambda>p. profile_guards p = Inr ()) (builtin_claim_profiles @ map snd legacy_profiles)"
  by code_simp

lemma builtin_registry: "make_registry builtin_claim_profiles = Inr builtin_claim_profiles"
  by code_simp

lemmas profile_defs = incident_profile_def limitations_profile_def reverification_profile_def builtin_profile_def
  condition_holds_def dict_get_def opt_or_def

lemma reverification_unsatisfiable: "\<not> pe_satisfied (evaluate_claim_profile c reverification_profile)"
  by (auto simp: satisfied_checks all_profile_checks profile_defs)

lemma incident_reconciliation:
  "pe_satisfied (evaluate_claim_profile c incident_profile) \<Longrightarrow> rc_reconciliation_state c = ''verified''"
  by (simp add: satisfied_checks all_profile_checks profile_defs)

lemma limitations_state:
  "pe_satisfied (evaluate_claim_profile c limitations_profile) \<Longrightarrow>
     rc_decision c = ''review'' \<and> rc_reliability_state c \<in> {''reliable'', ''recovered''}"
  by (simp add: satisfied_checks all_profile_checks profile_defs)

lemma builtin_lookup:
  "get_builtin_claim_profile ''policy_reverification_required.v1'' ''1'' = Inr reverification_profile"
  "get_builtin_claim_profile ''incident_recovery_verified.v1'' ''1'' = Inr incident_profile"
  "get_builtin_claim_profile ''ai_decision_with_limitations.v1'' ''1'' = Inr limitations_profile"
  by code_simp+

section \<open>Witness\<close>

definition release_chain :: chain where
  "release_chain = sample_chain\<lparr>rc_verification_status := ''verified'', rc_reliability_state := ''reliable'',
     rc_reconciliation_state := ''verified'', rc_decision := ''accept'', rc_decision_rationale := [''checked'']\<rparr>"

lemma claim_evaluation_correct_witness:
  "pe_satisfied (evaluate_claim_profile release_chain legacy_release_profile) \<and>
     pe_decision (evaluate_claim_profile release_chain legacy_release_profile) = ''accepted''"
proof -
  have "pe_failed (evaluate_claim_profile release_chain legacy_release_profile) = []"
    "pe_decision (evaluate_claim_profile release_chain legacy_release_profile) = ''accepted''"
    by code_simp+
  with claim_evaluation_correct [of release_chain legacy_release_profile] show ?thesis
    unfolding Let_def by (elim conjE) (intro conjI, simp_all only: simp_thms)
qed

end
