(* ===== verification/EventStore.thy ===== *)
theory EventStore
  imports Events Lines
begin

text \<open>
  \<open>adapters/jsonl_store.py\<close>: the append-only store of the events of all runs, one JSON line per event. The
  file is its content, \<open>None\<close> when it does not exist; whether the lock is acquired is an argument.
\<close>

section \<open>Reading\<close>

text \<open>
  The lines of a file opened in text mode: a line ends with LF, CR or both. A file that is not UTF-8 is
  rejected before its first line is parsed; Python decodes it block by block, and a malformed record of an
  earlier block is then reported instead, as a \<open>ValueError\<close> too.
\<close>

definition after_newline :: "string \<Rightarrow> string" where
  "after_newline t = (case t of d # u \<Rightarrow> if d = LF then u else t | [] \<Rightarrow> [])"

lemma after_newline_shorter: "length (after_newline t) \<le> length t"
  by (auto simp: after_newline_def split: list.splits)

function text_lines :: "string \<Rightarrow> string list" where
  "text_lines [] = []"
| "text_lines (c # t) =
     (if c = LF then [] # text_lines t
      else if byte c = 13 then [] # text_lines (after_newline t)
      else (case text_lines t of [] \<Rightarrow> [[c]] | l # ls \<Rightarrow> (c # l) # ls))"
  by pat_completeness auto
termination
  by (relation "measure length") (auto simp: after_newline_shorter le_imp_less_Suc)

definition read_event :: "string \<Rightarrow> event_envelope result" where
  "read_event line =
     (case loads line of
        None \<Rightarrow> Inl (JSONDecodeError ''line'')
      | Some (JObj d) \<Rightarrow> event_from_dict d
      | Some _ \<Rightarrow> Inl (ValueError ''JSON object''))"

text \<open>\<open>except (json.JSONDecodeError, TypeError, ValueError)\<close>\<close>

definition event_caught :: "exn \<Rightarrow> bool" where
  "event_caught e = (case e of TypeError _ \<Rightarrow> True | _ \<Rightarrow> is_value_error e)"

fun read_events :: "string option \<Rightarrow> string list \<Rightarrow> event_envelope list result" where
  "read_events run_id [] = Inr []"
| "read_events run_id (line # rest) =
     (if blank line then read_events run_id rest
      else case read_event line of
        Inl e \<Rightarrow> if event_caught e then Inl (ValueError ''invalid event'') else Inl e
      | Inr ev \<Rightarrow> bindE (read_events run_id rest) (\<lambda>evs.
          Inr (if run_id = None \<or> run_id = Some (ev_run_id ev) then ev # evs else evs)))"

definition event_read_unlocked :: "string option \<Rightarrow> string option \<Rightarrow> event_envelope list result" where
  "event_read_unlocked content run_id =
     (case content of
        None \<Rightarrow> Inr []
      | Some raw \<Rightarrow> if utf8_ok raw then read_events run_id (text_lines raw) else Inl (UnicodeDecodeError ''events''))"

definition event_read :: "bool \<Rightarrow> string option \<Rightarrow> string option \<Rightarrow> event_envelope list result" where
  "event_read acquired content run_id =
     (if \<not> acquired then Inl (TimeoutError ''event-store lock'') else event_read_unlocked content run_id)"

text \<open>The loop of \<open>validate_run\<close>: each event against the expected sequence number.\<close>

fun check_sequence :: "int \<Rightarrow> event_envelope list \<Rightarrow> unit result" where
  "check_sequence n [] = Inr ()"
| "check_sequence n (ev # evs) =
     (if ev_sequence ev \<noteq> n then Inl (ValueError ''sequence'') else check_sequence (n + 1) evs)"

definition validate_run :: "bool \<Rightarrow> string option \<Rightarrow> string \<Rightarrow> event_envelope list result" where
  "validate_run acquired content run_id =
     bindE (event_read acquired content (Some run_id)) (\<lambda>evs.
     bindE (check_sequence 0 evs) (\<lambda>_. Inr evs))"

section \<open>Writing\<close>

text \<open>\<open>append\<close>; \<open>Some k\<close> is a process that stops after \<open>k\<close> bytes of its record.\<close>

definition event_append_until :: "nat option \<Rightarrow> bool \<Rightarrow> string option \<Rightarrow> event_envelope \<Rightarrow> unit result \<times> string option" where
  "event_append_until stop acquired content e =
     (let line = json_line (event_to_dict e) @ [LF]
      in if \<not> acquired then (Inl (TimeoutError ''event-store lock''), content)
         else (Inr (), Some (opt_or content [] @ (case stop of None \<Rightarrow> line | Some k \<Rightarrow> take k line))))"

definition event_append :: "bool \<Rightarrow> string option \<Rightarrow> event_envelope \<Rightarrow> unit result \<times> string option" where
  "event_append = event_append_until None"

section \<open>Files of events\<close>

definition event_storable :: "event_envelope \<Rightarrow> bool" where
  "event_storable e = (event_ok e \<and> json_ok utf8_ok (JObj (event_to_dict e)))"

definition sort_event :: "event_envelope \<Rightarrow> event_envelope" where
  "sort_event e = e\<lparr>ev_metadata := sorted_items (ev_metadata e)\<rparr>"

lemma ev_run_id_sort [simp]: "ev_run_id (sort_event e) = ev_run_id e"
  by (simp add: sort_event_def)

definition events_file :: "event_envelope list \<Rightarrow> string" where
  "events_file es = json_lines (map event_to_dict es)"

lemma events_file_simps [simp]:
  "events_file [] = []" "events_file (es @ [e]) = events_file es @ json_line (event_to_dict e) @ [LF]"
  by (simp_all add: events_file_def)

lemma text_lines_line:
  "list_all printable l \<Longrightarrow> text_lines (l @ LF # r) = l # text_lines r"
proof (induction l)
  case (Cons c l)
  then have "c \<noteq> LF" "byte c \<noteq> 13" by (auto simp: printable_def byte_def)
  with Cons show ?case by simp
qed simp

lemma text_lines_last: "list_all printable l \<Longrightarrow> l \<noteq> [] \<Longrightarrow> text_lines l = [l]"
proof (induction l)
  case (Cons c l)
  then have "c \<noteq> LF" "byte c \<noteq> 13" by (auto simp: printable_def byte_def)
  with Cons show ?case by (cases l) simp_all
qed simp

lemma text_lines_json_lines:
  "list_all (\<lambda>p. json_ok utf8_ok (JObj p)) ps \<Longrightarrow> text_lines (json_lines ps @ r) = map json_line ps @ text_lines r"
  by (induction ps) (simp_all add: text_lines_line json_line_printable)

lemma read_event_line:
  assumes "event_storable e"
  shows "read_event (json_line (event_to_dict e)) = Inr (sort_event e)"
proof -
  have ok: "event_ok e" and j: "json_ok utf8_ok (JObj (event_to_dict e))"
    using assms by (simp_all add: event_storable_def)
  show ?thesis
    using event_from_stored [OF ok stored_sorted_payload [OF json_ok_event_to_dict [OF ok]]]
    by (simp add: read_event_def loads_json_line [OF j] sort_event_def)
qed

lemma read_events_append:
  "read_events r (xs @ ys) = bindE (read_events r xs) (\<lambda>es. bindE (read_events r ys) (\<lambda>fs. Inr (es @ fs)))"
proof (induction xs)
  case Nil
  show ?case by (cases "read_events r ys") simp_all
next
  case (Cons x xs)
  show ?case
    by (cases "read_event x"; cases "read_events r xs"; cases "read_events r ys") (simp_all add: Cons)
qed

lemma read_events_lines:
  "list_all event_storable es \<Longrightarrow>
   read_events r (map (\<lambda>e. json_line (event_to_dict e)) es) =
     Inr (filter (\<lambda>e. r = None \<or> r = Some (ev_run_id e)) (map sort_event es))"
  by (induction es) (simp_all add: read_event_line)

lemma events_json: "list_all event_storable es \<Longrightarrow> list_all (\<lambda>p. json_ok utf8_ok (JObj p)) (map event_to_dict es)"
  by (auto simp: list_all_iff event_storable_def)

lemma read_file_with:
  assumes "list_all event_storable es" "list_all (\<lambda>c. byte c < 128) q"
  shows "event_read_unlocked (Some (events_file es @ q)) r =
    bindE (read_events r (text_lines q)) (\<lambda>fs.
      Inr (filter (\<lambda>e. r = None \<or> r = Some (ev_run_id e)) (map sort_event es) @ fs))"
proof -
  have "utf8_ok (events_file es @ q)"
    using ascii_json_lines [OF events_json [OF assms(1)]] assms(2)
    by (intro utf8_ok_ascii) (simp add: events_file_def)
  then show ?thesis
    using text_lines_json_lines [OF events_json [OF assms(1)], of q] read_events_lines [OF assms(1), of r]
    by (simp add: event_read_unlocked_def events_file_def read_events_append comp_def)
qed

lemma read_file:
  "list_all event_storable es \<Longrightarrow> event_read_unlocked (Some (events_file es)) r =
     Inr (filter (\<lambda>e. r = None \<or> r = Some (ev_run_id e)) (map sort_event es))"
  using read_file_with [of es "[]" r] by simp

text \<open>The numbers \<open>0, 1, 2, ...\<close> of a complete run.\<close>

lemma check_sequence_Inr: "check_sequence n evs = Inr () \<longleftrightarrow> map ev_sequence evs = map (\<lambda>i. n + int i) [0..<length evs]"
proof (induction evs arbitrary: n)
  case (Cons e evs)
  have "map (\<lambda>i. n + int i) [0..<length (e # evs)] = n # map (\<lambda>i. n + 1 + int i) [0..<length evs]"
    by (simp add: upt_conv_Cons map_Suc_upt [symmetric] comp_def algebra_simps del: upt_Suc)
  with Cons show ?case by simp
qed simp

lemma check_sequence_cases: "check_sequence n evs = Inr () \<or> (\<exists>m. check_sequence n evs = Inl (ValueError m))"
  by (induction evs arbitrary: n) auto

section \<open>The contract of the store\<close>

text \<open>
  The store is the list of the events appended to it. On the file of any events, an append
  adds its event at the end, a read returns every event in order (metadata sorted by key) or those of one
  run, and a run is valid exactly when its events are numbered \<open>0, 1, 2, ...\<close> without gap, repetition or
  reordering, however the runs are interleaved.
\<close>

theorem event_store_refines:
  assumes "list_all event_storable es" "event_storable e"
  shows "event_append True (Some (events_file es)) e = (Inr (), Some (events_file (es @ [e]))) \<and>
    event_append True None e = (Inr (), Some (events_file [e])) \<and>
    event_read True (Some (events_file es)) None = Inr (map sort_event es) \<and>
    (let run = filter (\<lambda>e. ev_run_id e = r) (map sort_event es)
     in event_read True (Some (events_file es)) (Some r) = Inr run \<and>
        validate_run True (Some (events_file es)) r =
          (if map ev_sequence run = map int [0..<length run] then Inr run else Inl (ValueError ''sequence'')))"
proof -
  define run where "run = filter (\<lambda>e. ev_run_id e = r) (map sort_event es)"
  have run: "event_read_unlocked (Some (events_file es)) (Some r) = Inr run"
    unfolding read_file [OF assms(1)] run_def by (simp add: eq_commute [of r])
  have one: "events_file [e] = json_line (event_to_dict e) @ [LF]"
    using events_file_simps(2) [of "[]" e] by simp
  have seq: "check_sequence n evs = Inr () \<or> check_sequence n evs = Inl (ValueError ''sequence'')" for n evs
    by (induction evs arbitrary: n) auto
  have "validate_run True (Some (events_file es)) r =
      (if map ev_sequence run = map int [0..<length run] then Inr run else Inl (ValueError ''sequence''))"
    using seq [of 0 run] check_sequence_Inr [of 0 run]
    by (auto simp: validate_run_def event_read_def run)
  then show ?thesis
    unfolding run_def [symmetric] Let_def
    using run by (simp add: event_append_def event_append_until_def opt_or_def event_read_def
        read_file [OF assms(1)] one)
qed

text \<open>
  A torn record blocks the store. A process that stops inside a record leaves a file that no later read
  of any run accepts; one that stops just before the newline leaves the record readable, but the
  next append makes the file unreadable as well: the store has no repair of its tail.
\<close>

theorem event_crash_blocks:
  assumes "list_all event_storable es" "event_storable e" "event_storable f"
    and "0 < k" "k \<le> length (json_line (event_to_dict e))"
  shows "let torn = snd (event_append_until (Some k) True (Some (events_file es)) e) in
    if k < length (json_line (event_to_dict e)) then \<forall>r. event_read True torn r = Inl (ValueError ''invalid event'')
    else event_read True torn None = Inr (map sort_event (es @ [e])) \<and>
      (\<forall>r. event_read True (snd (event_append True torn f)) r = Inl (ValueError ''invalid event''))"
proof -
  let ?l = "json_line (event_to_dict e)"
  let ?m = "json_line (event_to_dict f)"
  let ?p = "take k ?l"
  have j: "json_ok utf8_ok (JObj (event_to_dict e))" "json_ok utf8_ok (JObj (event_to_dict f))"
    using assms(2,3) by (simp_all add: event_storable_def)
  note pr = json_line_printable [OF j(1)] json_line_printable [OF j(2)]
  have pp: "list_all printable ?p" using pr(1) by (metis append_take_drop_id list_all_append)
  obtain t where l: "?l = CHR ''{'' # t" using json_line_start by blast
  have p: "?p \<noteq> []" "\<not> blank (?p @ u)" for u
    using assms(4) l by (cases k; simp)+
  have bad: "read_events r [x] = Inl (ValueError ''invalid event'')" if "loads x = None" "\<not> blank x" for r x
    using that by (simp add: read_event_def event_caught_def)
  have torn: "snd (event_append_until (Some k) True (Some (events_file es)) e) = Some (events_file es @ ?p)"
    using assms(5) by (simp add: event_append_until_def opt_or_def)
  have inside: "event_read True (Some (events_file es @ ?p)) r = Inl (ValueError ''invalid event'')"
    if "k < length ?l" for r
  proof -
    have "strict_prefix ?p ?l" using that by (metis strict_prefixI' append_take_drop_id id_take_nth_drop)
    from torn_line [OF j(1) this] p(2) [of "[]"] show ?thesis
      by (simp add: event_read_def read_file_with [OF assms(1) printable_byte [OF pp]] text_lines_last [OF pp p(1)]
          bad del: read_events.simps)
  qed
  have whole: "event_read True (Some (events_file es @ ?l)) None = Inr (map sort_event (es @ [e]))"
    using read_file_with [OF assms(1) printable_byte [OF pr(1)], of None] text_lines_last [OF pr(1)]
    by (simp add: event_read_def read_event_line [OF assms(2)])
  have glued: "event_read True (snd (event_append True (Some (events_file es @ ?l)) f)) r = Inl (ValueError ''invalid event'')" for r
  proof -
    obtain m' where m: "?m = CHR ''{'' # m'" using json_line_start by blast
    then have none: "loads (?l @ ?m) = None" using glued_line [OF j(1), of ?m] by (simp add: is_ws_def)
    have nb: "\<not> blank (?l @ ?m)" using l by simp
    have pl: "list_all printable (?l @ ?m)" using pr by simp
    have "list_all (\<lambda>c. byte c < 128) ((?l @ ?m) @ [LF])"
      using printable_byte [OF pl] by (simp add: byte_def)
    from read_file_with [OF assms(1) this, of r] text_lines_line [OF pl, of "[]"] bad [OF none nb, of r]
    show ?thesis
      by (simp add: event_append_def event_append_until_def event_read_def opt_or_def del: read_events.simps)
  qed
  show ?thesis
    unfolding torn Let_def using inside whole glued assms(5) by simp
qed

section \<open>Witnesses\<close>

lemma sample_event_storable: "event_storable sample_event"
  unfolding event_storable_def by (intro conjI sample_event_ok) code_simp

lemma event_store_refines_witness:
  "event_append True (Some []) sample_event = (Inr (), Some (events_file [sample_event])) \<and>
   event_read True (Some (events_file [sample_event])) None = Inr [sort_event sample_event] \<and>
   validate_run True (Some (events_file [sample_event])) ''r'' = Inl (ValueError ''sequence'')"
proof -
  have s: "ev_sequence sample_event = 3" "ev_run_id sample_event = ''r''" by (simp_all add: sample_event_def)
  show ?thesis
    using event_store_refines [of "[]" sample_event "''r''"] event_store_refines [of "[sample_event]" sample_event "''r''"]
      sample_event_storable s by (simp add: Let_def sort_event_def)
qed

lemma event_crash_blocks_witness:
  "event_read True (snd (event_append_until (Some 1) True (Some []) sample_event)) None =
     Inl (ValueError ''invalid event'')"
proof -
  obtain t where "json_line (event_to_dict sample_event) = CHR ''{'' # t" using json_line_start by blast
  moreover have "loads ''{'' = None" by code_simp
  moreover have "json_line (event_to_dict sample_event) \<noteq> ''{''"
    using loads_json_line [of "event_to_dict sample_event"] sample_event_storable \<open>loads ''{'' = None\<close>
    by (auto simp: event_storable_def)
  ultimately show ?thesis
    using event_crash_blocks [of "[]" sample_event sample_event 1] sample_event_storable
    by (simp add: Let_def Suc_le_eq split: if_splits)
qed

end
