(* ===== verification/Comparison.thy ===== *)
theory Comparison
  imports Diff EventStore ReliabilityEvidence Provenance
begin

text \<open>
  \<open>domain/reliability_comparison.py\<close>, \<open>services/reliability_comparison_service.py\<close> and the loaders of
  \<open>services/state_service.py\<close>, \<open>services/evidence_service.py\<close> and \<open>services/diff_service.py\<close>: the comparison of
  two runs as a stored artifact, its construction from files and its replay.

  A file system maps paths to bytes; \<open>relative\<close> is the path of a file below the directory of the artifact,
  and \<open>locate\<close> finds a source below the root, as \<open>pathlib\<close> resolves them. The lock of an event store is free.
\<close>

section \<open>Inputs\<close>

record comparison_input =
  ci_role :: string
  ci_kind :: string
  ci_identity :: string
  ci_digest :: string
  ci_source :: string

definition comparison_input_post_init :: "comparison_input \<Rightarrow> unit result" where
  "comparison_input_post_init i = guards [
     (blank (ci_role i), ValueError ''role''),
     (blank (ci_kind i), ValueError ''kind''),
     (blank (ci_identity i), ValueError ''identity''),
     (blank (ci_source i), ValueError ''source''),
     (\<not> is_sha256 (ci_digest i), ValueError ''digest''),
     (starts_with (ci_source i) ''/'' \<or> ''..'' \<in> set (split_on CHR ''/'' (backslash_to_slash (ci_source i))),
        ValueError ''source must be relative'')]"

definition comparison_input_to_dict :: "comparison_input \<Rightarrow> payload" where
  "comparison_input_to_dict i = [
     (''role'', JStr (ci_role i)),
     (''kind'', JStr (ci_kind i)),
     (''identity'', JStr (ci_identity i)),
     (''digest'', JStr (ci_digest i)),
     (''source'', JStr (backslash_to_slash (ci_source i)))]"

section \<open>The artifact\<close>

record behavioral_comparison =
  bc_comparison_id :: string
  bc_before :: "comparison_input list"
  bc_after :: "comparison_input list"
  bc_diff :: payload
  bc_significance :: string
  bc_discrepancy :: "string list"
  bc_digest :: string
  bc_format_version :: string

definition comparison_payload :: "behavioral_comparison \<Rightarrow> payload" where
  "comparison_payload c = [
     (''format_version'', JStr (bc_format_version c)),
     (''before'', JArr (map (JObj \<circ> comparison_input_to_dict) (bc_before c))),
     (''after'', JArr (map (JObj \<circ> comparison_input_to_dict) (bc_after c))),
     (''diff'', JObj (bc_diff c)),
     (''significance'', JStr (bc_significance c)),
     (''discrepancy'', jstrs (bc_discrepancy c))]"

definition computed_comparison_id :: "behavioral_comparison \<Rightarrow> string" where
  "computed_comparison_id c = digest_of (comparison_payload c)"

definition comparison_digest :: "behavioral_comparison \<Rightarrow> string" where
  "comparison_digest c = digest_of (comparison_payload c)"

definition make_comparison :: "behavioral_comparison \<Rightarrow> behavioral_comparison result" where
  "make_comparison c =
     bindE (guards [
       (bc_format_version c \<noteq> ''1'', ValueError ''format version''),
       (blank (bc_comparison_id c), ValueError ''comparison_id''),
       (bc_significance c \<notin> {''none'', ''low'', ''medium'', ''high''}, ValueError ''significance''),
       (bc_before c = [] \<or> bc_after c = [], ValueError ''at least one input''),
       (bc_digest c \<noteq> [] \<and> bc_digest c \<noteq> comparison_digest c, ValueError ''digest mismatch''),
       (bc_comparison_id c \<noteq> computed_comparison_id c, ValueError ''identity mismatch'')]) (\<lambda>_.
     Inr (c\<lparr>bc_digest := comparison_digest c\<rparr>))"

definition comparison_to_dict :: "behavioral_comparison \<Rightarrow> bool \<Rightarrow> payload" where
  "comparison_to_dict c include_digest =
     comparison_payload c @ [(''comparison_id'', JStr (bc_comparison_id c))] @
     (if include_digest then [(''digest'', JStr (bc_digest c))] else [])"

text \<open>The local function \<open>parse\<close> of \<open>from_dict\<close>.\<close>

definition parse_input :: "json \<Rightarrow> comparison_input result" where
  "parse_input v =
     (case v of
        JObj d \<Rightarrow>
          bindE (item_str d ''role'') (\<lambda>role.
          bindE (item_str d ''kind'') (\<lambda>kind.
          bindE (item_str d ''identity'') (\<lambda>identity.
          bindE (item_str d ''digest'') (\<lambda>digest.
          bindE (item_str d ''source'') (\<lambda>source.
          construct comparison_input_post_init
            \<lparr>ci_role = role, ci_kind = kind, ci_identity = identity, ci_digest = digest, ci_source = source\<rparr>)))))
      | _ \<Rightarrow> Inl (ValueError ''comparison input''))"

definition parse_inputs :: "json \<Rightarrow> comparison_input list result" where
  "parse_inputs v = (case v of JArr items \<Rightarrow> mapE parse_input items | _ \<Rightarrow> Inl (ValueError ''comparison inputs''))"

text \<open>
  \<open>dict(v)\<close>: the copy of an object, or an object made of pairs. A payload has string keys: pairs with
  another key, for which Python makes a dictionary that no comparison equals, are answered with \<open>TypeError\<close>.
\<close>

definition pair_of :: "json \<Rightarrow> (string \<times> json) result" where
  "pair_of v = bindE (iter_json v) (\<lambda>vs.
     case vs of [k, w] \<Rightarrow> (case k of JStr s \<Rightarrow> Inr (s, w) | _ \<Rightarrow> Inl (TypeError ''key'')) | _ \<Rightarrow> Inl (ValueError ''length''))"

definition py_dict :: "json \<Rightarrow> payload result" where
  "py_dict v = (case v of
     JObj d \<Rightarrow> Inr d
   | _ \<Rightarrow> bindE (iter_json v) (\<lambda>vs. bindE (mapE pair_of vs) (\<lambda>kvs. Inr (dict_of kvs))))"

definition comparison_from_dict :: "payload \<Rightarrow> behavioral_comparison result" where
  "comparison_from_dict d =
     bindE (item_str d ''comparison_id'') (\<lambda>comparison_id.
     bindE (parse_inputs (get_or d ''before'' (JArr []))) (\<lambda>before.
     bindE (parse_inputs (get_or d ''after'' (JArr []))) (\<lambda>after.
     bindE (bindE (item d ''diff'') py_dict) (\<lambda>diff.
     bindE (item_str d ''significance'') (\<lambda>significance.
     bindE (string_sequence (get_or d ''discrepancy'' (JArr [])) ''discrepancy'') (\<lambda>discrepancy.
     make_comparison
       \<lparr>bc_comparison_id = comparison_id, bc_before = before, bc_after = after, bc_diff = diff,
        bc_significance = significance, bc_discrepancy = discrepancy,
        bc_digest = get_str d ''digest'' [], bc_format_version = get_str d ''format_version'' ''1''\<rparr>))))))"

definition load_comparison :: "files \<Rightarrow> string \<Rightarrow> behavioral_comparison result" where
  "load_comparison fs path = bindE (load_object fs path ''payload'') comparison_from_dict"

section \<open>Loading the compared artifacts\<close>

definition load_state :: "files \<Rightarrow> string \<Rightarrow> system_state result" where
  "load_state fs path = bindE (load_object fs path ''payload'') system_state_from_dict"

definition load_manifest :: "files \<Rightarrow> string \<Rightarrow> evidence_manifest result" where
  "load_manifest fs path = bindE (load_object fs path ''payload'') evidence_manifest_from_dict"

definition optional_manifest :: "files \<Rightarrow> string option \<Rightarrow> evidence_manifest option result" where
  "optional_manifest fs path =
     (case path of None \<Rightarrow> Inr None | Some p \<Rightarrow> bindE (load_manifest fs p) (\<lambda>m. Inr (Some m)))"

text \<open>The path and the run of the events, when both are given and the run is not empty.\<close>

definition events_source :: "string option \<Rightarrow> string option \<Rightarrow> (string \<times> string) option" where
  "events_source path run =
     (case (path, run) of (Some p, Some r) \<Rightarrow> if r = [] then None else Some (p, r) | _ \<Rightarrow> None)"

definition optional_events :: "files \<Rightarrow> (string \<times> string) option \<Rightarrow> event_envelope list option result" where
  "optional_events fs source =
     (case source of
        None \<Rightarrow> Inr None
      | Some (p, r) \<Rightarrow> bindE (validate_run True (fs p) r) (\<lambda>es. Inr (Some es)))"

definition compare_artifacts ::
    "files \<Rightarrow> string \<Rightarrow> string \<Rightarrow> string option \<Rightarrow> string option \<Rightarrow> (string \<times> string) option \<Rightarrow>
     (string \<times> string) option \<Rightarrow> behavioral_diff result" where
  "compare_artifacts fs before after before_evidence after_evidence before_events after_events =
     bindE (load_state fs before) (\<lambda>bs.
     bindE (load_state fs after) (\<lambda>as.
     bindE (optional_manifest fs before_evidence) (\<lambda>be.
     bindE (optional_manifest fs after_evidence) (\<lambda>ae.
     bindE (optional_events fs before_events) (\<lambda>bev.
     bindE (optional_events fs after_events) (\<lambda>aev.
     Inr (compare_runs bs as be ae bev aev)))))))"

section \<open>Construction\<close>

definition diff_payload :: "behavioral_diff \<Rightarrow> payload" where
  "diff_payload d = [
     (''state_changes'', JArr (map (\<lambda>c. JObj [(''path'', JStr (fc_path c)), (''before'', fc_before c),
        (''after'', fc_after c)]) (bd_state_changes d))),
     (''outcome_before'', jopt_str (bd_outcome_before d)),
     (''outcome_after'', jopt_str (bd_outcome_after d)),
     (''evidence_added'', jstrs (bd_evidence_added d)),
     (''evidence_removed'', jstrs (bd_evidence_removed d)),
     (''action_changes'', JArr (map (\<lambda>c. JObj [(''change_type'', JStr (ac_change_type c)),
        (''before'', jopt JObj (ac_before c)), (''after'', jopt JObj (ac_after c))]) (bd_action_changes d)))]"

definition discrepancy :: "behavioral_diff \<Rightarrow> string list" where
  "discrepancy d =
     (if bd_state_changes d \<noteq> [] then [''state_change''] else []) @
     (if bd_outcome_before d \<noteq> bd_outcome_after d then [''outcome_change''] else []) @
     (if bd_evidence_added d \<noteq> [] then [''evidence_added''] else []) @
     (if bd_evidence_removed d \<noteq> [] then [''evidence_removed''] else []) @
     (if bd_action_changes d \<noteq> [] then [''action_change''] else [])"

definition file_digest :: "files \<Rightarrow> string \<Rightarrow> string result" where
  "file_digest fs path = (case fs path of None \<Rightarrow> Inl (FileNotFoundError path) | Some b \<Rightarrow> Inr (sha256_hex b))"

definition input_of ::
    "files \<Rightarrow> (string \<Rightarrow> string result) \<Rightarrow> string \<Rightarrow> string \<Rightarrow> string \<Rightarrow> string \<Rightarrow> comparison_input result" where
  "input_of fs relative role kind identity path =
     bindE (file_digest fs path) (\<lambda>digest.
     bindE (relative path) (\<lambda>source.
     construct comparison_input_post_init
       \<lparr>ci_role = role, ci_kind = kind, ci_identity = identity, ci_digest = digest, ci_source = source\<rparr>))"

definition evidence_inputs ::
    "files \<Rightarrow> (string \<Rightarrow> string result) \<Rightarrow> string \<Rightarrow> string option \<Rightarrow> comparison_input list result" where
  "evidence_inputs fs relative role path =
     (case path of
        None \<Rightarrow> Inr []
      | Some p \<Rightarrow>
          bindE (load_manifest fs p) (\<lambda>m.
          bindE (input_of fs relative role ''evidence-manifest'' (em_manifest_id m) p) (\<lambda>i. Inr [i])))"

definition events_inputs ::
    "files \<Rightarrow> (string \<Rightarrow> string result) \<Rightarrow> string \<Rightarrow> (string \<times> string) option \<Rightarrow> comparison_input list result" where
  "events_inputs fs relative role source =
     (case source of
        None \<Rightarrow> Inr []
      | Some (p, r) \<Rightarrow>
          bindE (validate_run True (fs p) r) (\<lambda>_.
          bindE (input_of fs relative role ''run-events'' r p) (\<lambda>i. Inr [i])))"

definition comparison_inputs ::
    "files \<Rightarrow> (string \<Rightarrow> string result) \<Rightarrow> string \<Rightarrow> string \<Rightarrow> string option \<Rightarrow> string option \<Rightarrow>
     (string \<times> string) option \<Rightarrow> (string \<times> string) option \<Rightarrow> (comparison_input list \<times> comparison_input list) result" where
  "comparison_inputs fs relative before after before_evidence after_evidence before_events after_events =
     bindE (load_state fs before) (\<lambda>bs.
     bindE (load_state fs after) (\<lambda>as.
     bindE (input_of fs relative ''before_state'' ''state'' (ss_state_id bs) before) (\<lambda>b1.
     bindE (input_of fs relative ''after_state'' ''state'' (ss_state_id as) after) (\<lambda>a1.
     bindE (evidence_inputs fs relative ''before_evidence'' before_evidence) (\<lambda>b2.
     bindE (evidence_inputs fs relative ''after_evidence'' after_evidence) (\<lambda>a2.
     bindE (events_inputs fs relative ''before_events'' before_events) (\<lambda>b3.
     bindE (events_inputs fs relative ''after_events'' after_events) (\<lambda>a3.
     Inr (b1 # b2 @ b3, a1 # a2 @ a3)))))))))"

text \<open>The comparison, and the content of the file it is written to.\<close>

definition build_comparison ::
    "files \<Rightarrow> (string \<Rightarrow> string result) \<Rightarrow> string \<Rightarrow> string \<Rightarrow> string option \<Rightarrow> string option \<Rightarrow>
     (string \<times> string) option \<Rightarrow> (string \<times> string) option \<Rightarrow> (behavioral_comparison \<times> string) result" where
  "build_comparison fs relative before after before_evidence after_evidence before_events after_events =
     bindE (comparison_inputs fs relative before after before_evidence after_evidence before_events after_events)
       (\<lambda>(befores, afters).
     bindE (compare_artifacts fs before after before_evidence after_evidence before_events after_events) (\<lambda>d.
     let draft = \<lparr>bc_comparison_id = [], bc_before = befores, bc_after = afters, bc_diff = diff_payload d,
           bc_significance = diff_risk d, bc_discrepancy = discrepancy d, bc_digest = [], bc_format_version = ''1''\<rparr>
     in bindE (make_comparison (draft\<lparr>bc_comparison_id := digest_of (comparison_payload draft)\<rparr>)) (\<lambda>c.
        Inr (c, indented (JObj (comparison_to_dict c True))))))"

definition comparison_input_references :: "behavioral_comparison \<Rightarrow> evidence_reference list result" where
  "comparison_input_references c =
     mapE (\<lambda>i. construct evidence_reference_post_init
        (EvidenceReference (ci_kind i) (ci_identity i) (ci_digest i) (Some (ci_source i)) None)) (bc_before c @ bc_after c)"

section \<open>Replay\<close>

text \<open>
  Equality of Python values: the order of keys does not count, and a number equals another of the same
  value whatever its type. The argument gives the integer a float lexeme is equal to, if any.
\<close>

fun py_norm :: "(string \<Rightarrow> int option) \<Rightarrow> json \<Rightarrow> json" where
  "py_norm fval (JBool b) = JInt (if b then 1 else 0)"
| "py_norm fval (JFloat l) = (case fval l of Some i \<Rightarrow> JInt i | None \<Rightarrow> JFloat l)"
| "py_norm fval (JArr vs) = JArr (map (py_norm fval) vs)"
| "py_norm fval (JObj kvs) = JObj (sort_key fst (map (\<lambda>(k, v). (k, py_norm fval v)) kvs))"
| "py_norm fval v = v"

definition input_source :: "(string \<Rightarrow> located) \<Rightarrow> comparison_input \<Rightarrow> string result" where
  "input_source locate i =
     (case locate (backslash_to_slash (ci_source i)) of
        Outside \<Rightarrow> Inl (ValueError ''escapes root'')
      | Absent \<Rightarrow> Inl (FileNotFoundError (ci_source i))
      | Content b \<Rightarrow> if sha256_hex b \<noteq> ci_digest i then Inl (ValueError ''source digest mismatch'') else Inr b)"

definition input_with_role :: "string \<Rightarrow> comparison_input list \<Rightarrow> comparison_input option" where
  "input_with_role role items = find_first (\<lambda>i. ci_role i = role) items"

definition required_source :: "(string \<Rightarrow> located) \<Rightarrow> string \<Rightarrow> comparison_input list \<Rightarrow> string result" where
  "required_source locate role items =
     (case input_with_role role items of
        None \<Rightarrow> Inl (StopIteration role) | Some i \<Rightarrow> input_source locate i)"

definition manifest_source :: "(string \<Rightarrow> located) \<Rightarrow> comparison_input option \<Rightarrow> evidence_manifest option result" where
  "manifest_source locate i =
     (case i of
        None \<Rightarrow> Inr None
      | Some i \<Rightarrow> bindE (input_source locate i) (\<lambda>b.
          bindE (load_manifest (\<lambda>_. Some b) (ci_source i)) (\<lambda>m. Inr (Some m))))"

definition run_source :: "(string \<Rightarrow> located) \<Rightarrow> comparison_input option \<Rightarrow> event_envelope list option result" where
  "run_source locate i =
     (case i of
        None \<Rightarrow> Inr None
      | Some i \<Rightarrow> bindE (input_source locate i) (\<lambda>b.
          bindE (validate_run True (Some b) (ci_identity i)) (\<lambda>es. Inr (Some es))))"

text \<open>The comparison of the sources a stored comparison names.\<close>

definition replay_comparison :: "(string \<Rightarrow> located) \<Rightarrow> behavioral_comparison \<Rightarrow> behavioral_diff result" where
  "replay_comparison locate c =
     bindE (required_source locate ''before_state'' (bc_before c)) (\<lambda>before_state.
     bindE (required_source locate ''after_state'' (bc_after c)) (\<lambda>after_state.
     bindE (manifest_source locate (input_with_role ''before_evidence'' (bc_before c))) (\<lambda>before_evidence.
     bindE (manifest_source locate (input_with_role ''after_evidence'' (bc_after c))) (\<lambda>after_evidence.
     bindE (run_source locate (input_with_role ''before_events'' (bc_before c))) (\<lambda>before_events.
     bindE (run_source locate (input_with_role ''after_events'' (bc_after c))) (\<lambda>after_events.
     bindE (load_state (\<lambda>_. Some before_state) ''before_state'') (\<lambda>bs.
     bindE (load_state (\<lambda>_. Some after_state) ''after_state'') (\<lambda>as.
     Inr (compare_runs bs as before_evidence after_evidence before_events after_events)))))))))"

definition verify_comparison ::
    "(string \<Rightarrow> int option) \<Rightarrow> (string \<Rightarrow> located) \<Rightarrow> behavioral_comparison \<Rightarrow> unit result" where
  "verify_comparison fval locate c =
     bindE (replay_comparison locate c) (\<lambda>d. guards [
       (py_norm fval (JObj (bc_diff c)) \<noteq> py_norm fval (JObj (diff_payload d)), ValueError ''semantics''),
       (bc_significance c \<noteq> diff_risk d, ValueError ''significance''),
       (bc_discrepancy c \<noteq> discrepancy d, ValueError ''discrepancy'')])"

section \<open>A built comparison is replayed\<close>

text \<open>The root finds every file at the path it is recorded under.\<close>

definition consistent :: "files \<Rightarrow> (string \<Rightarrow> string result) \<Rightarrow> (string \<Rightarrow> located) \<Rightarrow> bool" where
  "consistent fs relative locate \<longleftrightarrow>
     (\<forall>p s b. relative p = Inr s \<and> fs p = Some b \<longrightarrow> locate (backslash_to_slash s) = Content b)"

lemma load_object_Inr:
  "load_object fs p f = Inr d \<longleftrightarrow> (\<exists>b. fs p = Some b \<and> utf8_ok b \<and> loads_object b f = Inr d)"
  by (auto simp: load_object_def split: option.splits)

lemma load_state_content: "load_state fs p = Inr s \<Longrightarrow> fs p = Some b \<Longrightarrow> load_state (\<lambda>_. Some b) q = Inr s"
  by (auto simp: load_state_def load_object_Inr bindE_eq_Inr_iff)

lemma load_manifest_content: "load_manifest fs p = Inr m \<Longrightarrow> fs p = Some b \<Longrightarrow> load_manifest (\<lambda>_. Some b) q = Inr m"
  by (auto simp: load_manifest_def load_object_Inr bindE_eq_Inr_iff)

lemma input_of_Inr:
  assumes "input_of fs relative role kind identity p = Inr i" "consistent fs relative locate"
  obtains b where "fs p = Some b" "input_source locate i = Inr b" "ci_role i = role" "ci_identity i = identity"
    "ci_kind i = kind" "ci_digest i = sha256_hex b"
proof -
  obtain b s where b: "fs p = Some b" "relative p = Inr s"
    and i: "i = \<lparr>ci_role = role, ci_kind = kind, ci_identity = identity, ci_digest = sha256_hex b, ci_source = s\<rparr>"
    using assms(1) by (auto simp: input_of_def file_digest_def construct_Inr_iff split: option.splits)
  have "locate (backslash_to_slash s) = Content b"
    using assms(2) b by (simp add: consistent_def)
  with b i that show thesis by (simp add: input_source_def)
qed

lemma evidence_inputs_source:
  assumes "evidence_inputs fs relative role path = Inr is" "consistent fs relative locate"
    and "optional_manifest fs path = Inr m"
  shows "manifest_source locate (input_with_role role is) = Inr m" "list_all (\<lambda>i. ci_role i = role) is"
proof -
  have "manifest_source locate (input_with_role role is) = Inr m \<and> list_all (\<lambda>i. ci_role i = role) is"
  proof (cases path)
    case None
    with assms show ?thesis
      by (simp add: evidence_inputs_def optional_manifest_def manifest_source_def input_with_role_def find_first_def)
  next
    case (Some p)
    then obtain n i where n: "load_manifest fs p = Inr n" "m = Some n"
      and i: "input_of fs relative role ''evidence-manifest'' (em_manifest_id n) p = Inr i" "is = [i]"
      using assms(1,3) by (auto simp: evidence_inputs_def optional_manifest_def)
    from input_of_Inr [OF i(1) assms(2)] obtain b where b: "fs p = Some b" "input_source locate i = Inr b" "ci_role i = role" .
    from load_manifest_content [OF n(1) b(1)] b i(2) n(2) show ?thesis
      by (simp add: manifest_source_def input_with_role_def find_first_def)
  qed
  then show "manifest_source locate (input_with_role role is) = Inr m" "list_all (\<lambda>i. ci_role i = role) is" by simp_all
qed

lemma events_inputs_source:
  assumes "events_inputs fs relative role source = Inr is" "consistent fs relative locate"
    and "optional_events fs source = Inr es"
  shows "run_source locate (input_with_role role is) = Inr es" "list_all (\<lambda>i. ci_role i = role) is"
proof -
  have "run_source locate (input_with_role role is) = Inr es \<and> list_all (\<lambda>i. ci_role i = role) is"
  proof (cases source)
    case None
    with assms show ?thesis
      by (simp add: events_inputs_def optional_events_def run_source_def input_with_role_def find_first_def)
  next
    case (Some pr)
    obtain p r where pr: "pr = (p, r)" by (cases pr)
    with Some obtain evs i where n: "validate_run True (fs p) r = Inr evs" "es = Some evs"
      and i: "input_of fs relative role ''run-events'' r p = Inr i" "is = [i]"
      using assms(1,3) by (auto simp: events_inputs_def optional_events_def)
    from input_of_Inr [OF i(1) assms(2)] obtain b where
      b: "fs p = Some b" "input_source locate i = Inr b" "ci_role i = role" "ci_identity i = r" .
    with n i(2) show ?thesis
      by (simp add: run_source_def input_with_role_def find_first_def)
  qed
  then show "run_source locate (input_with_role role is) = Inr es" "list_all (\<lambda>i. ci_role i = role) is" by simp_all
qed

lemma input_with_role_skip:
  "list_all (\<lambda>i. ci_role i \<noteq> role) is \<Longrightarrow> input_with_role role (is @ js) = input_with_role role js"
  by (induction "is") (simp_all add: input_with_role_def find_first_def)

lemma input_with_role_stop:
  "list_all (\<lambda>i. ci_role i \<noteq> role) js \<Longrightarrow> input_with_role role (is @ js) = input_with_role role is"
  by (induction "is") (simp_all add: input_with_role_def find_first_def list_all_iff find_None_iff)

lemma input_with_role_hit: "ci_role i = role \<Longrightarrow> input_with_role role (i # is) = Some i"
  by (simp add: input_with_role_def find_first_def)

lemma input_with_role_miss: "ci_role i \<noteq> role \<Longrightarrow> input_with_role role (i # is) = input_with_role role is"
  by (simp add: input_with_role_def find_first_def)

lemma other_role: "list_all (\<lambda>i. ci_role i = role) is \<Longrightarrow> role \<noteq> role' \<Longrightarrow> list_all (\<lambda>i. ci_role i \<noteq> role') is"
  by (auto simp: list_all_iff)

lemma make_comparison_Inr:
  "make_comparison c = Inr c' \<Longrightarrow> c' = c\<lparr>bc_digest := comparison_digest c\<rparr> \<and> bc_comparison_id c = computed_comparison_id c"
  by (auto simp: make_comparison_def bindE_eq_Inr_iff)

lemma build_comparison_replay:
  assumes "build_comparison fs relative p q pe qe pv qv = Inr (c, text)" "consistent fs relative locate"
  obtains d where "compare_artifacts fs p q pe qe pv qv = Inr d" "replay_comparison locate c = Inr d"
    "bc_diff c = diff_payload d" "bc_significance c = diff_risk d" "bc_discrepancy c = discrepancy d"
    "bc_digest c = comparison_digest c" "bc_comparison_id c = computed_comparison_id c"
proof -
  obtain befores afters d where inp: "comparison_inputs fs relative p q pe qe pv qv = Inr (befores, afters)"
    and cmp: "compare_artifacts fs p q pe qe pv qv = Inr d"
    and mk: "make_comparison \<lparr>bc_comparison_id = digest_of (comparison_payload \<lparr>bc_comparison_id = [], bc_before = befores,
          bc_after = afters, bc_diff = diff_payload d, bc_significance = diff_risk d, bc_discrepancy = discrepancy d,
          bc_digest = [], bc_format_version = ''1''\<rparr>), bc_before = befores, bc_after = afters, bc_diff = diff_payload d,
        bc_significance = diff_risk d, bc_discrepancy = discrepancy d, bc_digest = [], bc_format_version = ''1''\<rparr> = Inr c"
    using assms(1) by (auto simp: build_comparison_def Let_def)
  note c = make_comparison_Inr [OF mk]
  obtain bs as be ae bev aev where ld: "load_state fs p = Inr bs" "load_state fs q = Inr as"
    "optional_manifest fs pe = Inr be" "optional_manifest fs qe = Inr ae"
    "optional_events fs pv = Inr bev" "optional_events fs qv = Inr aev" "d = compare_runs bs as be ae bev aev"
    using cmp by (auto simp: compare_artifacts_def)
  obtain b1 a1 b2 a2 b3 a3 where
    i: "input_of fs relative ''before_state'' ''state'' (ss_state_id bs) p = Inr b1"
      "input_of fs relative ''after_state'' ''state'' (ss_state_id as) q = Inr a1"
      "evidence_inputs fs relative ''before_evidence'' pe = Inr b2"
      "evidence_inputs fs relative ''after_evidence'' qe = Inr a2"
      "events_inputs fs relative ''before_events'' pv = Inr b3"
      "events_inputs fs relative ''after_events'' qv = Inr a3"
    and ba: "befores = b1 # b2 @ b3" "afters = a1 # a2 @ a3"
    using inp ld(1,2) by (auto simp: comparison_inputs_def)
  from input_of_Inr [OF i(1) assms(2)] obtain b where
    b: "fs p = Some b" "input_source locate b1 = Inr b" "ci_role b1 = ''before_state''" .
  from input_of_Inr [OF i(2) assms(2)] obtain a where
    a: "fs q = Some a" "input_source locate a1 = Inr a" "ci_role a1 = ''after_state''" .
  note e2 = evidence_inputs_source [OF i(3) assms(2) ld(3)] evidence_inputs_source [OF i(4) assms(2) ld(4)]
  note e3 = events_inputs_source [OF i(5) assms(2) ld(5)] events_inputs_source [OF i(6) assms(2) ld(6)]
  have src: "required_source locate ''before_state'' befores = Inr b" "required_source locate ''after_state'' afters = Inr a"
    using a b ba by (simp_all add: required_source_def input_with_role_hit)
  have ev: "input_with_role ''before_evidence'' befores = input_with_role ''before_evidence'' b2"
    "input_with_role ''after_evidence'' afters = input_with_role ''after_evidence'' a2"
    using a b ba input_with_role_stop [OF other_role [OF e3(2)]] input_with_role_stop [OF other_role [OF e3(4)]]
    by (simp_all add: input_with_role_miss)
  have rn: "input_with_role ''before_events'' befores = input_with_role ''before_events'' b3"
    "input_with_role ''after_events'' afters = input_with_role ''after_events'' a3"
    using a b ba input_with_role_skip [OF other_role [OF e2(2)]] input_with_role_skip [OF other_role [OF e2(4)]]
    by (simp_all add: input_with_role_miss)
  have f: "bc_before c = befores" "bc_after c = afters" "bc_diff c = diff_payload d"
    "bc_significance c = diff_risk d" "bc_discrepancy c = discrepancy d"
    "bc_digest c = comparison_digest c" "bc_comparison_id c = computed_comparison_id c"
    using c by (simp_all add: comparison_digest_def computed_comparison_id_def comparison_payload_def)
  have "replay_comparison locate c = Inr d"
    using load_state_content [OF ld(1) b(1)] load_state_content [OF ld(2) a(1)] e2 e3
    by (simp add: replay_comparison_def f src ev rn ld(7))
  with cmp f show thesis by (intro that)
qed

lemma diff_none: "diff_risk d = ''none'' \<longleftrightarrow> \<not> diff_changed d"
  by (auto simp: diff_risk_def diff_changed_def)

lemma discrepancy_none: "discrepancy d = [] \<longleftrightarrow> \<not> diff_changed d"
  by (simp add: discrepancy_def diff_changed_def)

section \<open>The contracts of a comparison\<close>

text \<open>
  A built comparison passes its own replay. From any files, when the root finds each file at its
  recorded path, the comparison that \<open>build\<close> writes holds the difference of those files, its identity and
  digest are those of its content, and verification recomputes the same difference and accepts it.
\<close>

theorem comparison_verifies:
  assumes "build_comparison fs relative p q pe qe pv qv = Inr (c, text)" "consistent fs relative locate"
  shows "verify_comparison fval locate c = Inr () \<and> bc_digest c = comparison_digest c \<and>
    bc_comparison_id c = comparison_digest c \<and>
    (\<exists>d. compare_artifacts fs p q pe qe pv qv = Inr d \<and> bc_diff c = diff_payload d \<and>
       bc_significance c = diff_risk d \<and> bc_discrepancy c = discrepancy d)"
proof -
  obtain d where "compare_artifacts fs p q pe qe pv qv = Inr d" "replay_comparison locate c = Inr d"
    "bc_diff c = diff_payload d" "bc_significance c = diff_risk d" "bc_discrepancy c = discrepancy d"
    "bc_digest c = comparison_digest c" "bc_comparison_id c = computed_comparison_id c"
    using build_comparison_replay [OF assms] .
  then show ?thesis
    by (simp add: verify_comparison_def comparison_digest_def computed_comparison_id_def)
qed

text \<open>The inputs a comparison is computed from: the first of each role.\<close>

definition compared :: "behavioral_comparison \<Rightarrow> comparison_input \<Rightarrow> bool" where
  "compared c i \<longleftrightarrow>
     (\<exists>role \<in> {''before_state'', ''before_evidence'', ''before_events''}. input_with_role role (bc_before c) = Some i) \<or>
     (\<exists>role \<in> {''after_state'', ''after_evidence'', ''after_events''}. input_with_role role (bc_after c) = Some i)"

text \<open>
  A verified comparison says what its sources say. Its source files have the digests it records, its
  significance and its discrepancies are those of the recomputed difference, it reports no discrepancy
  exactly when the two runs agree and exactly when its significance is \<open>none\<close>, and any other verified
  comparison of the same sources reports the same.
\<close>

theorem comparison_replay_sound:
  assumes "verify_comparison fval locate c = Inr ()"
  shows "\<exists>d. replay_comparison locate c = Inr d \<and> bc_significance c = diff_risk d \<and> bc_discrepancy c = discrepancy d \<and>
    (bc_discrepancy c = [] \<longleftrightarrow> \<not> diff_changed d) \<and> (bc_discrepancy c = [] \<longleftrightarrow> bc_significance c = ''none'') \<and>
    (\<forall>i. compared c i \<longrightarrow> (\<exists>b. locate (backslash_to_slash (ci_source i)) = Content b \<and> sha256_hex b = ci_digest i)) \<and>
    (\<forall>c'. bc_before c' = bc_before c \<and> bc_after c' = bc_after c \<and> verify_comparison fval locate c' = Inr () \<longrightarrow>
       bc_significance c' = bc_significance c \<and> bc_discrepancy c' = bc_discrepancy c \<and>
       py_norm fval (JObj (bc_diff c')) = py_norm fval (JObj (bc_diff c)))"
proof -
  obtain d where d: "replay_comparison locate c = Inr d" "bc_significance c = diff_risk d" "bc_discrepancy c = discrepancy d"
    "py_norm fval (JObj (bc_diff c)) = py_norm fval (JObj (diff_payload d))"
    using assms by (auto simp: verify_comparison_def simp del: py_norm.simps)
  have src: "\<exists>b. locate (backslash_to_slash (ci_source i)) = Content b \<and> sha256_hex b = ci_digest i"
    if "input_source locate i = Inr b" for i b
    using that by (auto simp: input_source_def split: located.splits if_splits)
  have ins: "\<exists>b. input_source locate i = Inr b" if "compared c i" for i
    using that d(1)
    by (auto simp: compared_def replay_comparison_def required_source_def manifest_source_def run_source_def)
  have same: "replay_comparison locate c' = Inr d" if "bc_before c' = bc_before c" "bc_after c' = bc_after c" for c'
    using that d(1) by (simp add: replay_comparison_def)
  then have "bc_significance c' = bc_significance c \<and> bc_discrepancy c' = bc_discrepancy c \<and>
       py_norm fval (JObj (bc_diff c')) = py_norm fval (JObj (bc_diff c))"
    if "bc_before c' = bc_before c" "bc_after c' = bc_after c" "verify_comparison fval locate c' = Inr ()" for c'
    using that d(2-4) by (auto simp: verify_comparison_def simp del: py_norm.simps)
  with d ins src show ?thesis
    by (intro exI [of _ d]) (simp add: discrepancy_none diff_none del: py_norm.simps, blast)
qed

section \<open>Witnesses\<close>

definition sample_files :: files where
  "sample_files p = (if p = ''state.json'' then Some (canonical (JObj (system_state_to_dict sample_state))) else None)"

definition sample_locate :: "string \<Rightarrow> located" where
  "sample_locate p = (case sample_files p of None \<Rightarrow> Absent | Some b \<Rightarrow> Content b)"

lemma diff_risk_known: "diff_risk d \<in> {''none'', ''low'', ''medium'', ''high''}"
  by (simp add: diff_risk_def)

lemma sample_load: "\<exists>s. load_state sample_files ''state.json'' = Inr s \<and> ss_state_id s = ss_state_id sample_state"
proof -
  obtain d where d: "loads_object (canonical (JObj (system_state_to_dict sample_state))) ''payload'' = Inr d"
    "stored d (system_state_to_dict sample_state)"
    using loads_object_canonical [OF json_ok_system_state_to_dict [OF sample_state_ok]] .
  have "utf8_ok (canonical (JObj (system_state_to_dict sample_state)))" by code_simp
  with d system_state_from_stored [OF sample_state_ok d(2)] show ?thesis
    by (simp add: load_state_def load_object_def sample_files_def)
qed

lemma sample_build:
  "\<exists>c t. build_comparison sample_files Inr ''state.json'' ''state.json'' None None None None = Inr (c, t)"
proof -
  obtain s where s: "load_state sample_files ''state.json'' = Inr s" "ss_state_id s = ss_state_id sample_state"
    using sample_load by blast
  have b: "\<not> blank (ss_state_id sample_state)" by (simp add: sample_state_def)
  obtain c where c: "sample_files ''state.json'' = Some c" by (simp add: sample_files_def)
  have i0: "\<exists>i. input_of sample_files Inr role ''state'' (ss_state_id sample_state) ''state.json'' = Inr i" if "\<not> blank role" for role
    using that b c
    by (simp add: input_of_def file_digest_def construct_def comparison_input_post_init_def backslash_to_slash_def starts_with_def)
  obtain i where i: "input_of sample_files Inr ''before_state'' ''state'' (ss_state_id sample_state) ''state.json'' = Inr i"
    using i0 [of "''before_state''"] by auto
  obtain j where j: "input_of sample_files Inr ''after_state'' ''state'' (ss_state_id sample_state) ''state.json'' = Inr j"
    using i0 [of "''after_state''"] by auto
  show ?thesis
    using s i j diff_risk_known
    by (simp add: build_comparison_def comparison_inputs_def compare_artifacts_def evidence_inputs_def events_inputs_def
        optional_manifest_def optional_events_def make_comparison_def computed_comparison_id_def comparison_payload_def)
qed

lemma sample_consistent: "consistent sample_files Inr sample_locate"
  by (auto simp: consistent_def sample_locate_def sample_files_def backslash_to_slash_def)

lemma comparison_verifies_witness:
  "\<exists>c t. build_comparison sample_files Inr ''state.json'' ''state.json'' None None None None = Inr (c, t) \<and>
     verify_comparison (\<lambda>_. None) sample_locate c = Inr ()"
  using sample_build comparison_verifies [OF _ sample_consistent, of "''state.json''" "''state.json''" None None None None]
  by blast

lemma comparison_replay_sound_witness:
  "\<exists>c d. verify_comparison (\<lambda>_. None) sample_locate c = Inr () \<and> replay_comparison sample_locate c = Inr d \<and>
     bc_significance c = diff_risk d"
proof -
  obtain c t where c: "build_comparison sample_files Inr ''state.json'' ''state.json'' None None None None = Inr (c, t)"
    using sample_build by blast
  obtain d where "replay_comparison sample_locate c = Inr d" "bc_diff c = diff_payload d" "bc_significance c = diff_risk d"
    "bc_discrepancy c = discrepancy d"
    using build_comparison_replay [OF c sample_consistent] .
  then have "verify_comparison (\<lambda>_. None) sample_locate c = Inr ()" by (simp add: verify_comparison_def)
  from comparison_replay_sound [OF this] this show ?thesis by blast
qed

end
