(* ===== verification/DecisionBasis.thy ===== *)
theory DecisionBasis
  imports ClaimProfile Comparison StateService
begin

text \<open>
  \<open>domain/reliability_decision_basis.py\<close>, \<open>services/reliability_decision_basis_service.py\<close>,
  \<open>domain/reliability_reconciliation_binding.py\<close> and \<open>services/reliability_reconciliation_binding_service.py\<close>: the
  artifacts that bind a decision to its basis and a discrepancy to its reconciliation. As in the
  comparison, \<open>locate\<close> finds a source below the root.
\<close>

section \<open>The decision basis\<close>

record decision_basis =
  db_format_version :: string
  db_basis_type :: string
  db_basis_id :: string
  db_version :: string
  db_decision :: string
  db_reliability_state :: string
  db_rationale :: "string list"
  db_input_digests :: "string list"
  db_policy_id :: "string option"
  db_policy_version :: "string option"
  db_policy_digest :: "string option"
  db_digest :: string

definition expected_states :: "string \<Rightarrow> string list" where
  "expected_states decision =
     (if decision = ''accept'' then [''reliable'', ''recovered'']
      else if decision = ''review'' then [''degraded''] else [''unreliable''])"

definition decision_basis_payload :: "decision_basis \<Rightarrow> payload" where
  "decision_basis_payload b = [
     (''format_version'', JStr (db_format_version b)),
     (''basis_type'', JStr (db_basis_type b)),
     (''basis_id'', JStr (db_basis_id b)),
     (''version'', JStr (db_version b)),
     (''decision'', JStr (db_decision b)),
     (''reliability_state'', JStr (db_reliability_state b)),
     (''rationale'', jstrs (db_rationale b)),
     (''input_digests'', jstrs (db_input_digests b)),
     (''policy_id'', jopt_str (db_policy_id b)),
     (''policy_version'', jopt_str (db_policy_version b)),
     (''policy_digest'', jopt_str (db_policy_digest b))]"

definition decision_basis_digest :: "decision_basis \<Rightarrow> string" where
  "decision_basis_digest b = digest_of (decision_basis_payload b)"

definition decision_basis_guards :: "decision_basis \<Rightarrow> unit result" where
  "decision_basis_guards b = guards [
     (db_format_version b \<noteq> ''1'', ValueError ''format version''),
     (db_basis_type b \<notin> {''policy'', ''rule'', ''comparison'', ''manual'', ''external''}, ValueError ''basis type''),
     (blank (db_basis_id b), ValueError ''basis_id''),
     (blank (db_version b), ValueError ''version''),
     (db_decision b \<notin> {''accept'', ''review'', ''reject''}, ValueError ''decision''),
     (db_reliability_state b \<notin> {''reliable'', ''degraded'', ''unreliable'', ''recovered''}, ValueError ''reliability state''),
     (db_reliability_state b \<notin> set (expected_states (db_decision b)), ValueError ''decision/state semantics''),
     (list_ex (\<lambda>d. \<not> is_sha256 d) (db_input_digests b), ValueError ''input_digests''),
     (case db_policy_digest b of None \<Rightarrow> False | Some d \<Rightarrow> \<not> is_sha256 d, ValueError ''policy_digest''),
     (db_policy_digest b \<noteq> None \<and> db_basis_type b \<noteq> ''policy'', ValueError ''policy_digest''),
     (blank_if_given (db_policy_id b), ValueError ''policy_id''),
     (blank_if_given (db_policy_version b), ValueError ''policy_version''),
     (db_digest b \<noteq> [] \<and> db_digest b \<noteq> decision_basis_digest b, ValueError ''digest mismatch'')]"

definition make_decision_basis :: "decision_basis \<Rightarrow> decision_basis result" where
  "make_decision_basis b =
     bindE (decision_basis_guards b) (\<lambda>_. Inr (b\<lparr>db_digest := decision_basis_digest b\<rparr>))"

definition decision_basis_to_dict :: "decision_basis \<Rightarrow> payload" where
  "decision_basis_to_dict b = decision_basis_payload b @ [(''digest'', JStr (db_digest b))]"

definition decision_basis_from_dict :: "payload \<Rightarrow> decision_basis result" where
  "decision_basis_from_dict d =
     bindE (item_str d ''format_version'') (\<lambda>format.
     bindE (item_str d ''basis_type'') (\<lambda>basis_type.
     bindE (item_str d ''basis_id'') (\<lambda>basis_id.
     bindE (item_str d ''version'') (\<lambda>version.
     bindE (item_str d ''decision'') (\<lambda>decision.
     bindE (item_str d ''reliability_state'') (\<lambda>state.
     bindE (get_strings d ''rationale'') (\<lambda>rationale.
     bindE (get_strings d ''input_digests'') (\<lambda>inputs.
     make_decision_basis
       \<lparr>db_format_version = format, db_basis_type = basis_type, db_basis_id = basis_id, db_version = version,
        db_decision = decision, db_reliability_state = state, db_rationale = rationale, db_input_digests = inputs,
        db_policy_id = get_opt_str d ''policy_id'', db_policy_version = get_opt_str d ''policy_version'',
        db_policy_digest = get_opt_str d ''policy_digest'', db_digest = get_str d ''digest'' []\<rparr>))))))))"

definition load_decision_basis :: "files \<Rightarrow> string \<Rightarrow> decision_basis result" where
  "load_decision_basis fs path = bindE (load_object fs path ''payload'') decision_basis_from_dict"

definition write_decision_basis :: "decision_basis \<Rightarrow> string \<Rightarrow> files \<Rightarrow> files" where
  "write_decision_basis b path fs = fs(path \<mapsto> indented (JObj (decision_basis_to_dict b)))"

text \<open>\<open>tuple(dict.fromkeys(inputs))\<close>: the first occurrence of each.\<close>

definition build_decision_basis ::
    "chain \<Rightarrow> claim_profile \<Rightarrow> string option \<Rightarrow> string option \<Rightarrow> decision_basis result" where
  "build_decision_basis c p basis_id version =
     (if \<not> pe_satisfied (evaluate_claim_profile c p) then Inl (ValueError ''claim profile was not satisfied'')
      else
        let inputs = [er_digest (rc_run c), er_digest (rc_state c)] @ map er_digest (rc_evidence c) @
              map er_digest (List.map_filter id [rc_comparison_ref c, rc_reconciliation_ref c, rc_recovery_ref c])
        in make_decision_basis
             \<lparr>db_format_version = ''1'', db_basis_type = ''rule'',
              db_basis_id = or_else basis_id (''claim-profile:'' @ cp_profile_id p),
              db_version = or_else version (cp_version p), db_decision = rc_decision c,
              db_reliability_state = rc_reliability_state c, db_rationale = rc_decision_rationale c,
              db_input_digests = rev (remdups (rev inputs)), db_policy_id = None, db_policy_version = None,
              db_policy_digest = None, db_digest = []\<rparr>)"

definition allowed_inputs :: "chain \<Rightarrow> string list" where
  "allowed_inputs c = map er_digest
     ([rc_run c, rc_state c] @ rc_evidence c @ [rc_provenance c, rc_integrity c] @
      List.map_filter id [rc_comparison_ref c, rc_reconciliation_ref c, rc_recovery_ref c, rc_attestation_ref c])"

definition basis_checks :: "chain \<Rightarrow> evidence_reference \<Rightarrow> decision_basis \<Rightarrow> unit result" where
  "basis_checks c r b = guards [
     (er_kind r \<noteq> (if db_basis_type b = ''policy'' then ''policy'' else ''decision-basis''), ValueError ''kind''),
     (db_basis_id b \<noteq> er_identity r, ValueError ''identity''),
     (db_decision b \<noteq> rc_decision c, ValueError ''decision''),
     (db_reliability_state b \<noteq> rc_reliability_state c, ValueError ''reliability state''),
     (db_rationale b \<noteq> rc_decision_rationale c, ValueError ''rationale''),
     (list_ex (\<lambda>d. d \<notin> set (allowed_inputs c)) (db_input_digests b), ValueError ''inputs outside the chain'')]"

definition verify_decision_basis :: "(string \<Rightarrow> located) \<Rightarrow> chain \<Rightarrow> unit result" where
  "verify_decision_basis locate c =
     (case rc_decision_basis_ref c of
        None \<Rightarrow> Inr ()
      | Some r \<Rightarrow> (case er_source r of
          None \<Rightarrow> Inl (ValueError ''local artifact source'')
        | Some s \<Rightarrow> (case locate (backslash_to_slash s) of
            Outside \<Rightarrow> Inl (ValueError ''escapes root'')
          | Absent \<Rightarrow> Inl (FileNotFoundError s)
          | Content content \<Rightarrow>
              bindE (guards [(sha256_hex content \<noteq> er_digest r, ValueError ''source digest mismatch'')]) (\<lambda>_.
              bindE (load_decision_basis (\<lambda>_. Some content) s) (basis_checks c r)))))"

text \<open>
  \<open>prepare_reliability_decision_basis\<close>: the two files written, the bound chain, and its verification against
  the directory of the files. \<open>same_parent\<close> is whether both paths lie in one directory, and \<open>located\<close> how that directory
  finds a file after the writes.
\<close>

definition prepare_decision_basis ::
    "bool \<Rightarrow> (files \<Rightarrow> string \<Rightarrow> located) \<Rightarrow> chain \<Rightarrow> claim_profile \<Rightarrow> string \<Rightarrow> string \<Rightarrow>
     string option \<Rightarrow> string option \<Rightarrow> files \<Rightarrow> chain result \<times> files" where
  "prepare_decision_basis same_parent located c p basis_path chain_path basis_id version fs =
     (if \<not> same_parent then (Inl (ValueError ''same parent''), fs)
      else case build_decision_basis c p basis_id version of
        Inl e \<Rightarrow> (Inl e, fs)
      | Inr b \<Rightarrow>
          let fs1 = write_decision_basis b basis_path fs
          in case bindE (file_digest fs1 basis_path) (\<lambda>digest.
               bindE (construct evidence_reference_post_init
                 (EvidenceReference ''decision-basis'' (db_basis_id b) digest (Some (path_name basis_path)) None)) (\<lambda>r.
               construct chain_post_init (c\<lparr>rc_decision_basis_ref := Some r\<rparr>))) of
             Inl e \<Rightarrow> (Inl e, fs1)
           | Inr bound \<Rightarrow>
               let fs2 = fs1(chain_path \<mapsto> indented (JObj (chain_to_dict bound)))
               in (bindE (verify_decision_basis (located fs2) bound) (\<lambda>_. Inr bound), fs2))"

section \<open>The reconciliation binding\<close>

record reconciliation_binding =
  rb_format_version :: string
  rb_comparison_id :: string
  rb_comparison_digest :: string
  rb_reconciliation_id :: string
  rb_reconciliation_digest :: string
  rb_status :: string
  rb_resolved :: "string list"
  rb_resolution :: string

definition binding_post_init :: "reconciliation_binding \<Rightarrow> unit result" where
  "binding_post_init b = guards [
     (rb_format_version b \<noteq> ''1'', ValueError ''format version''),
     (blank (rb_comparison_id b), ValueError ''comparison_id''),
     (blank (rb_reconciliation_id b), ValueError ''reconciliation_id''),
     (blank (rb_status b), ValueError ''reconciliation_status''),
     (blank (rb_resolution b), ValueError ''resolution''),
     (\<not> is_sha256 (rb_comparison_digest b), ValueError ''comparison_digest''),
     (\<not> is_sha256 (rb_reconciliation_digest b), ValueError ''reconciliation_digest''),
     (rb_status b \<notin> {''verified'', ''recovered''}, ValueError ''verified or recovered''),
     (rb_resolution b \<noteq> ''resolved'', ValueError ''resolution''),
     (list_ex blank (rb_resolved b), ValueError ''resolved_discrepancies'')]"

definition binding_payload :: "reconciliation_binding \<Rightarrow> payload" where
  "binding_payload b = [
     (''format_version'', JStr (rb_format_version b)),
     (''comparison_id'', JStr (rb_comparison_id b)),
     (''comparison_digest'', JStr (rb_comparison_digest b)),
     (''reconciliation_id'', JStr (rb_reconciliation_id b)),
     (''reconciliation_digest'', JStr (rb_reconciliation_digest b)),
     (''reconciliation_status'', JStr (rb_status b)),
     (''resolved_discrepancies'', jstrs (rb_resolved b)),
     (''resolution'', JStr (rb_resolution b))]"

definition binding_digest :: "reconciliation_binding \<Rightarrow> string" where
  "binding_digest b = digest_of (binding_payload b)"

definition binding_to_dict :: "reconciliation_binding \<Rightarrow> bool \<Rightarrow> payload" where
  "binding_to_dict b include_digest =
     binding_payload b @ (if include_digest then [(''digest'', JStr (binding_digest b))] else [])"

definition binding_from_dict :: "payload \<Rightarrow> reconciliation_binding result" where
  "binding_from_dict d =
     bindE (item_str d ''format_version'') (\<lambda>format.
     bindE (item_str d ''comparison_id'') (\<lambda>comparison_id.
     bindE (item_str d ''comparison_digest'') (\<lambda>comparison_digest.
     bindE (item_str d ''reconciliation_id'') (\<lambda>reconciliation_id.
     bindE (item_str d ''reconciliation_digest'') (\<lambda>reconciliation_digest.
     bindE (item_str d ''reconciliation_status'') (\<lambda>status.
     bindE (get_strings d ''resolved_discrepancies'') (\<lambda>resolved.
     bindE (construct binding_post_init
       \<lparr>rb_format_version = format, rb_comparison_id = comparison_id, rb_comparison_digest = comparison_digest,
        rb_reconciliation_id = reconciliation_id, rb_reconciliation_digest = reconciliation_digest,
        rb_status = status, rb_resolved = resolved, rb_resolution = get_str d ''resolution'' ''resolved''\<rparr>) (\<lambda>b.
     bindE (guards [(get_str d ''digest'' [] \<noteq> [] \<and> get_str d ''digest'' [] \<noteq> binding_digest b,
       ValueError ''digest mismatch'')]) (\<lambda>_. Inr b)))))))))"

definition load_binding :: "files \<Rightarrow> string \<Rightarrow> reconciliation_binding result" where
  "load_binding fs path = bindE (load_object fs path ''payload'') binding_from_dict"

text \<open>\<open>payload.get(k, payload.get(l, ""))\<close> as a string.\<close>

definition get_either :: "payload \<Rightarrow> string \<Rightarrow> string \<Rightarrow> string" where
  "get_either d k l = py_str (get_or d k (get_or d l (JStr [])))"

definition reconciliation_semantics :: "files \<Rightarrow> string \<Rightarrow> (string \<times> string) result" where
  "reconciliation_semantics fs path =
     bindE (load_object fs path ''payload'') (\<lambda>d.
     let identity = get_either d ''reconciliation_id'' ''bundle_id''; status = get_either d ''status'' ''state''
     in bindE (guards [
          (blank identity, ValueError ''canonical identity''),
          (status \<notin> {''verified'', ''recovered''}, ValueError ''verified or recovered'')]) (\<lambda>_.
        Inr (identity, status)))"

definition build_binding ::
    "files \<Rightarrow> string \<Rightarrow> string \<Rightarrow> (reconciliation_binding \<times> string) result" where
  "build_binding fs comparison_path reconciliation_path =
     bindE (load_comparison fs comparison_path) (\<lambda>cmp.
     bindE (reconciliation_semantics fs reconciliation_path) (\<lambda>(identity, status).
     bindE (guards [(bc_discrepancy cmp = [], ValueError ''at least one detected discrepancy'')]) (\<lambda>_.
     bindE (file_digest fs comparison_path) (\<lambda>comparison_digest.
     bindE (file_digest fs reconciliation_path) (\<lambda>reconciliation_digest.
     bindE (construct binding_post_init
       \<lparr>rb_format_version = ''1'', rb_comparison_id = bc_comparison_id cmp, rb_comparison_digest = comparison_digest,
        rb_reconciliation_id = identity, rb_reconciliation_digest = reconciliation_digest, rb_status = status,
        rb_resolved = bc_discrepancy cmp, rb_resolution = ''resolved''\<rparr>) (\<lambda>b.
     Inr (b, indented (JObj (binding_to_dict b True)))))))))"

text \<open>The reconciliation file is given as the root locates it.\<close>

definition verify_binding ::
    "reconciliation_binding \<Rightarrow> behavioral_comparison \<Rightarrow> located \<Rightarrow> unit result" where
  "verify_binding b cmp reconciliation =
     (case reconciliation of
        Outside \<Rightarrow> Inl (ValueError ''escapes root'')
      | Absent \<Rightarrow> Inl (FileNotFoundError ''reconciliation'')
      | Content content \<Rightarrow>
          bindE (guards [
            (rb_comparison_id b \<noteq> bc_comparison_id cmp, ValueError ''comparison identity''),
            (rb_resolved b \<noteq> bc_discrepancy cmp, ValueError ''discrepancy set''),
            (sha256_hex content \<noteq> rb_reconciliation_digest b, ValueError ''reconciliation digest'')]) (\<lambda>_.
          bindE (reconciliation_semantics (\<lambda>_. Some content) ''reconciliation'') (\<lambda>(identity, status). guards [
            (identity \<noteq> rb_reconciliation_id b, ValueError ''reconciliation identity''),
            (status \<noteq> rb_status b, ValueError ''reconciliation status'')])))"

section \<open>Which built-in profiles can be met\<close>

lemma build_decision_basis_Inr:
  "build_decision_basis c p i v = Inr b \<Longrightarrow> pe_satisfied (evaluate_claim_profile c p) \<and>
     rc_reliability_state c \<in> set (expected_states (rc_decision c))"
  by (auto simp: build_decision_basis_def make_decision_basis_def decision_basis_guards_def bindE_eq_Inr_iff split: if_splits)

definition contract_ref :: "string \<Rightarrow> evidence_reference" where
  "contract_ref contract_type =
     EvidenceReference ''evidence'' (''ai-contract:'' @ contract_type @ '':1'') (replicate 64 CHR ''a'') None None"

definition claim_chain :: chain where
  "claim_chain = sample_chain
     \<lparr>rc_evidence := map contract_ref [''prompt'', ''model_invocation'', ''retrieval'', ''tool_call'', ''policy'',
        ''runtime_trace'', ''human_approval''],
      rc_verification_status := ''verified'', rc_reliability_state := ''reliable'',
      rc_reconciliation_state := ''verified'', rc_recovery_ref := Some (sample_ref ''recovery''),
      rc_decision := ''accept'', rc_decision_rationale := [''checked'']\<rparr>"

definition unknown_snapshot :: snapshot where
  "unknown_snapshot = snapshot_of ''s'' []"

lemma claim_chain_checks:
  "chain_post_init claim_chain = Inr ()" "transition_checks unknown_snapshot claim_chain = Inr ()"
  by code_simp+

lemma make_decision_basis_succeeds: "decision_basis_guards b = Inr () \<Longrightarrow> \<exists>b'. make_decision_basis b = Inr b'"
  by (simp add: make_decision_basis_def)

lemma build_decision_basis_succeeds:
  assumes "pe_satisfied (evaluate_claim_profile c p)" "\<not> blank (cp_version p)"
    "rc_decision c \<in> {''accept'', ''review'', ''reject''}"
    "rc_reliability_state c \<in> {''reliable'', ''degraded'', ''unreliable'', ''recovered''}"
    "rc_reliability_state c \<in> set (expected_states (rc_decision c))"
    "\<forall>r \<in> set (claim_references c). is_sha256 (er_digest r)"
  shows "\<exists>b. build_decision_basis c p None None = Inr b"
proof -
  define inputs where "inputs = rev (remdups (rev ([er_digest (rc_run c), er_digest (rc_state c)] @
      map er_digest (rc_evidence c) @
      map er_digest (List.map_filter id [rc_comparison_ref c, rc_reconciliation_ref c, rc_recovery_ref c]))))"
  have "is_sha256 (er_digest r)"
    if "r \<in> {rc_run c, rc_state c} \<union> set (rc_evidence c) \<union>
      set (List.map_filter id [rc_comparison_ref c, rc_reconciliation_ref c, rc_recovery_ref c])" for r
    using that assms(6) by (auto simp: claim_references_def map_filter_simps split: option.splits)
  then have "\<not> list_ex (\<lambda>d. \<not> is_sha256 d) inputs"
    unfolding inputs_def by (auto simp: list_ex_iff)
  then show ?thesis
    using assms(1-5) unfolding build_decision_basis_def Let_def inputs_def [symmetric]
    by (auto simp: decision_basis_guards_def or_else_def expected_states_def blank_if_given_def intro!: make_decision_basis_succeeds
        split: if_splits)
qed

lemma claim_chain_satisfies:
  "list_all (\<lambda>p. cp_profile_id p \<in> {''ai_decision_with_limitations.v1'', ''policy_reverification_required.v1''} \<or>
     pe_satisfied (evaluate_claim_profile claim_chain p) \<and> \<not> blank (cp_version p)) builtin_claim_profiles"
  by code_simp

lemma claim_chain_ready:
  "rc_decision claim_chain \<in> {''accept'', ''review'', ''reject''}"
  "rc_reliability_state claim_chain \<in> {''reliable'', ''degraded'', ''unreliable'', ''recovered''}"
  "rc_reliability_state claim_chain \<in> set (expected_states (rc_decision claim_chain))"
  "list_all (\<lambda>r. is_sha256 (er_digest r)) (claim_references claim_chain)"
  by code_simp+

lemma builtin_gap_ids:
  "filter (\<lambda>p. cp_profile_id p \<in> {''ai_decision_with_limitations.v1'', ''policy_reverification_required.v1''})
     builtin_claim_profiles = [limitations_profile, reverification_profile]"
  by code_simp

lemma builtin_gap_builds_nothing:
  assumes "p \<in> set builtin_claim_profiles"
    "cp_profile_id p \<in> {''ai_decision_with_limitations.v1'', ''policy_reverification_required.v1''}"
  shows "build_decision_basis c p i v \<noteq> Inr b"
proof
  assume "build_decision_basis c p i v = Inr b"
  note built = build_decision_basis_Inr [OF this]
  have "p \<in> set (filter (\<lambda>p. cp_profile_id p \<in> {''ai_decision_with_limitations.v1'', ''policy_reverification_required.v1''})
      builtin_claim_profiles)" using assms by simp
  then have "p = limitations_profile \<or> p = reverification_profile" unfolding builtin_gap_ids by simp
  then show False
    using built reverification_unsatisfiable limitations_state [of c] by (auto simp: expected_states_def)
qed

lemma recovered_needs_recovered:
  "transition_checks current c = Inr () \<Longrightarrow> rc_reliability_state c = ''recovered'' \<Longrightarrow> rc_reconciliation_state c = ''recovered''"
  by (simp add: transition_checks_def Let_def)

text \<open>
  C18: two of the built-in profiles can never lead to a decision basis. Every other built-in profile is met by
  a valid chain that the reliability state service would accept and whose decision basis is built; for
  \<open>ai_decision_with_limitations.v1\<close> and \<open>policy_reverification_required.v1\<close> there is no chain at all, the
  latter not even being satisfied by any; and a chain that the service accepts into \<open>recovered\<close> never
  satisfies \<open>incident_recovery_verified.v1\<close>, the profile of a verified recovery.
\<close>

theorem builtin_profile_gaps:
  "(\<forall>p \<in> set builtin_claim_profiles.
      (\<exists>c current b. chain_post_init c = Inr () \<and> transition_checks current c = Inr () \<and>
         build_decision_basis c p None None = Inr b) \<longleftrightarrow>
      cp_profile_id p \<notin> {''ai_decision_with_limitations.v1'', ''policy_reverification_required.v1''}) \<and>
   (\<forall>c. \<not> pe_satisfied (evaluate_claim_profile c reverification_profile)) \<and>
   (\<forall>c current. pe_satisfied (evaluate_claim_profile c incident_profile) \<and> rc_reliability_state c = ''recovered'' \<longrightarrow>
      transition_checks current c \<noteq> Inr ())"
proof (intro conjI allI impI ballI iffI)
  fix p
  assume p: "p \<in> set builtin_claim_profiles"
  {
    assume "\<exists>c current b. chain_post_init c = Inr () \<and> transition_checks current c = Inr () \<and>
      build_decision_basis c p None None = Inr b"
    then show "cp_profile_id p \<notin> {''ai_decision_with_limitations.v1'', ''policy_reverification_required.v1''}"
      using builtin_gap_builds_nothing [OF p] by blast
  }
  assume "cp_profile_id p \<notin> {''ai_decision_with_limitations.v1'', ''policy_reverification_required.v1''}"
  with p claim_chain_satisfies have "pe_satisfied (evaluate_claim_profile claim_chain p)" "\<not> blank (cp_version p)"
    by (auto simp: list_all_iff)
  then have "\<exists>b. build_decision_basis claim_chain p None None = Inr b"
    by (rule build_decision_basis_succeeds)
      (use claim_chain_ready(4) in \<open>simp_all only: claim_chain_ready(1-3) list_all_iff\<close>)
  with claim_chain_checks show "\<exists>c current b. chain_post_init c = Inr () \<and> transition_checks current c = Inr () \<and>
      build_decision_basis c p None None = Inr b"
    by blast
next
  show "\<not> pe_satisfied (evaluate_claim_profile c reverification_profile)" for c
    by (rule reverification_unsatisfiable)
next
  fix c current
  assume "pe_satisfied (evaluate_claim_profile c incident_profile) \<and> rc_reliability_state c = ''recovered''"
  then show "transition_checks current c \<noteq> Inr ()"
    using incident_reconciliation [of c] recovered_needs_recovered [of current c] by auto
qed

lemma builtin_profile_gaps_witness:
  "\<not> (\<exists>c current b. chain_post_init c = Inr () \<and> transition_checks current c = Inr () \<and>
      build_decision_basis c limitations_profile None None = Inr b) \<and>
   \<not> pe_satisfied (evaluate_claim_profile claim_chain reverification_profile)"
proof -
  have "limitations_profile \<in> set builtin_claim_profiles" by (simp add: builtin_claim_profiles_def)
  moreover have "cp_profile_id limitations_profile = ''ai_decision_with_limitations.v1''"
    by (simp add: limitations_profile_def builtin_profile_def)
  ultimately show ?thesis using builtin_profile_gaps by blast
qed

end
