(* ===== verification/ChainEvidence.thy ===== *)
theory ChainEvidence
  imports DecisionBasis EvidenceReceipt
begin

text \<open>
  \<open>services/reliability_evidence_service.py\<close>: the construction of an evidence chain from files and its
  verification against a root, with the receipts of its evidence, its comparison, its reconciliation binding and
  its decision basis. A path is the string of the path, the file system maps it to bytes; \<open>locate\<close>
  resolves a source below the root of a verification.
\<close>

section \<open>References to files\<close>

definition artifact_identity :: "files \<Rightarrow> string \<Rightarrow> string list \<Rightarrow> string" where
  "artifact_identity fs path names =
     (case fs path of
        None \<Rightarrow> path_name path
      | Some b \<Rightarrow>
          if \<not> utf8_ok b then path_name path
          else (case loads b of
              Some (JObj d) \<Rightarrow>
                (case find_first (\<lambda>k. \<not> blank (get_str d k [])) names of
                   None \<Rightarrow> path_name path | Some k \<Rightarrow> get_str d k [])
            | _ \<Rightarrow> path_name path))"

text \<open>\<open>_ref\<close> of a file, the only way it is called.\<close>

definition file_ref ::
    "files \<Rightarrow> string \<Rightarrow> string \<Rightarrow> string \<Rightarrow> evidence_reference option \<Rightarrow> evidence_reference result" where
  "file_ref fs kind identity path receipt_ref =
     bindE (file_digest fs path) (\<lambda>digest.
     construct evidence_reference_post_init
       (EvidenceReference kind identity digest (Some (path_name path)) receipt_ref))"

definition optional_ref ::
    "files \<Rightarrow> string \<Rightarrow> (string \<Rightarrow> string) \<Rightarrow> string option \<Rightarrow> evidence_reference option result" where
  "optional_ref fs kind identity path =
     (case path of
        None \<Rightarrow> Inr None | Some p \<Rightarrow> bindE (file_ref fs kind (identity p) p None) (\<lambda>r. Inr (Some r)))"

definition load_receipt :: "files \<Rightarrow> string \<Rightarrow> receipt result" where
  "load_receipt fs path =
     (case fs path of None \<Rightarrow> Inl (FileNotFoundError path) | Some b \<Rightarrow> receipt_of_content b)"

section \<open>Construction\<close>

record chain_request =
  cr_run_id :: string
  cr_run_path :: string
  cr_state_id :: string
  cr_state_path :: string
  cr_evidence_paths :: "string list"
  cr_provenance_path :: string
  cr_integrity_path :: string
  cr_verification_status :: string
  cr_reliability_state :: string
  cr_reconciliation_state :: string
  cr_reconciliation_path :: "string option"
  cr_recovery_path :: "string option"
  cr_attestation_path :: "string option"
  cr_basis_path :: "string option"
  cr_basis_kind :: string
  cr_decision :: string
  cr_rationale :: "string list"
  cr_receipt_paths :: "(string, string) dict"
  cr_comparison_path :: "string option"
  cr_binding_path :: "string option"

definition receipt_path_of :: "chain_request \<Rightarrow> string \<Rightarrow> string option" where
  "receipt_path_of q path =
     (case map_of (cr_receipt_paths q) path of
        Some p \<Rightarrow> Some p | None \<Rightarrow> map_of (cr_receipt_paths q) (path_name path))"

text \<open>The checks of a receipt against its artifact, the provenance and the run of the request.\<close>

definition bind_receipt :: "files \<Rightarrow> chain_request \<Rightarrow> string \<Rightarrow> string \<Rightarrow> evidence_reference result" where
  "bind_receipt fs q path receipt_path =
     bindE (load_receipt fs receipt_path) (\<lambda>r.
     bindE (file_digest fs path) (\<lambda>digest.
     bindE (guards [
       (rp_artifact_digest r \<noteq> digest, ValueError ''receipt artifact digest''),
       (rp_artifact_size r \<noteq> int (length (opt_or (fs path) [])), ValueError ''receipt artifact size'')]) (\<lambda>_.
     bindE (receipt_reference r (Some (path_name receipt_path))) (\<lambda>receipt_ref.
     bindE (case rp_provenance_ref r of
         None \<Rightarrow> Inr ()
       | Some p \<Rightarrow>
           if er_identity p \<noteq> path_name (cr_provenance_path q) then Inl (ValueError ''receipt provenance'')
           else bindE (file_digest fs (cr_provenance_path q)) (\<lambda>d.
             guards [(er_digest p \<noteq> d, ValueError ''receipt provenance'')])) (\<lambda>_.
     bindE (guards [(rp_run_id r \<noteq> None \<and> rp_run_id r \<noteq> Some (cr_run_id q), ValueError ''receipt run_id'')]) (\<lambda>_.
     Inr receipt_ref))))))"

definition evidence_ref_of :: "files \<Rightarrow> chain_request \<Rightarrow> string \<Rightarrow> evidence_reference result" where
  "evidence_ref_of fs q path =
     (case receipt_path_of q path of
        None \<Rightarrow> file_ref fs ''evidence'' (path_name path) path None
      | Some p \<Rightarrow> bindE (bind_receipt fs q path p) (\<lambda>receipt_ref.
          file_ref fs ''evidence'' (er_identity receipt_ref) path (Some receipt_ref)))"

definition evidence_identity :: "string \<times> evidence_reference \<Rightarrow> json" where
  "evidence_identity = (\<lambda>(path, r). JObj [
     (''path'', JStr path),
     (''digest'', JStr (er_digest r)),
     (''receipt_id'', jopt_str (map_option er_identity (er_receipt_ref r))),
     (''receipt_digest'', jopt_str (map_option er_digest (er_receipt_ref r)))])"

definition ref_identity :: "evidence_reference \<Rightarrow> payload" where
  "ref_identity r = [(''identity'', JStr (er_identity r)), (''digest'', JStr (er_digest r))]"

definition reconciliation_fields :: "string list" where
  "reconciliation_fields = [''reconciliation_id'', ''bundle_id'']"

definition comparison_part :: "files \<Rightarrow> chain_request \<Rightarrow> (behavioral_comparison \<times> evidence_reference) option result" where
  "comparison_part fs q =
     (case cr_comparison_path q of
        None \<Rightarrow> Inr None
      | Some p \<Rightarrow>
          bindE (load_comparison fs p) (\<lambda>cmp.
          bindE (file_ref fs ''comparison'' (bc_comparison_id cmp) p None) (\<lambda>r. Inr (Some (cmp, r)))))"

text \<open>\<open>locate_beside b p\<close> resolves the path \<open>p\<close> in the directory of the binding \<open>b\<close>.\<close>

definition binding_part ::
    "files \<Rightarrow> (string \<Rightarrow> string \<Rightarrow> located) \<Rightarrow> chain_request \<Rightarrow> (behavioral_comparison \<times> evidence_reference) option \<Rightarrow>
     evidence_reference option result" where
  "binding_part fs locate_beside q comparison =
     (case cr_binding_path q of
        None \<Rightarrow> Inr None
      | Some path \<Rightarrow>
          (case (comparison, cr_reconciliation_path q) of
             (Some (cmp, comparison_ref), Some reconciliation) \<Rightarrow>
               bindE (load_binding fs path) (\<lambda>b.
               bindE (file_ref fs ''reconciliation'' (artifact_identity fs reconciliation reconciliation_fields)
                 reconciliation None) (\<lambda>reconciliation_ref.
               bindE (verify_binding b cmp (locate_beside path reconciliation)) (\<lambda>_.
               bindE (guards [
                 (rb_comparison_id b \<noteq> er_identity comparison_ref \<or> rb_comparison_digest b \<noteq> er_digest comparison_ref,
                    ValueError ''comparison reference''),
                 (rb_reconciliation_id b \<noteq> er_identity reconciliation_ref \<or>
                    rb_reconciliation_digest b \<noteq> er_digest reconciliation_ref,
                    ValueError ''reconciliation reference'')]) (\<lambda>_.
               bindE (file_ref fs ''reconciliation-binding'' (binding_digest b) path None) (\<lambda>r. Inr (Some r))))))
           | _ \<Rightarrow> Inl (ValueError ''requires both comparison_path and reconciliation_path'')))"

definition basis_part :: "files \<Rightarrow> chain_request \<Rightarrow> evidence_reference option result" where
  "basis_part fs q =
     (case cr_basis_path q of
        None \<Rightarrow> Inr None
      | Some p \<Rightarrow>
          bindE (load_decision_basis fs p) (\<lambda>b.
          bindE (guards [
            (cr_basis_kind q \<noteq> (if db_basis_type b = ''policy'' then ''policy'' else ''decision-basis''),
               ValueError ''decision_basis_kind''),
            (db_decision b \<noteq> cr_decision q \<or> db_reliability_state b \<noteq> cr_reliability_state q,
               ValueError ''decision-basis decision/state''),
            (db_rationale b \<noteq> cr_rationale q, ValueError ''decision-basis rationale'')]) (\<lambda>_.
          bindE (file_ref fs (cr_basis_kind q) (db_basis_id b) p None) (\<lambda>r. Inr (Some r)))))"

definition optional_entry :: "string \<Rightarrow> payload option \<Rightarrow> payload" where
  "optional_entry k d = (case d of None \<Rightarrow> [] | Some d \<Rightarrow> [(k, JObj d)])"

definition build_chain ::
    "files \<Rightarrow> (string \<Rightarrow> string \<Rightarrow> located) \<Rightarrow> chain_request \<Rightarrow> chain result" where
  "build_chain fs locate_beside q =
     bindE (guards [(cr_verification_status q = ''verified'' \<and> cr_evidence_paths q = [],
       ValueError ''verified chain requires evidence references'')]) (\<lambda>_.
     let paths = sort (cr_evidence_paths q) in
     bindE (mapE (evidence_ref_of fs q) paths) (\<lambda>evidence.
     bindE (file_digest fs (cr_run_path q)) (\<lambda>run_digest.
     bindE (file_digest fs (cr_state_path q)) (\<lambda>state_digest.
     bindE (file_digest fs (cr_provenance_path q)) (\<lambda>provenance_digest.
     bindE (file_digest fs (cr_integrity_path q)) (\<lambda>integrity_digest.
     bindE (comparison_part fs q) (\<lambda>comparison.
     bindE (binding_part fs locate_beside q comparison) (\<lambda>binding_ref.
     bindE (basis_part fs q) (\<lambda>basis_ref.
     let chain_id = sha256_hex (canonical_ascii (JObj ([
           (''run_id'', JStr (cr_run_id q)), (''run_digest'', JStr run_digest),
           (''state_id'', JStr (cr_state_id q)), (''state_digest'', JStr state_digest),
           (''evidence'', JArr (map evidence_identity (zip paths evidence))),
           (''provenance_digest'', JStr provenance_digest), (''integrity_digest'', JStr integrity_digest)] @
           optional_entry ''comparison'' (map_option (ref_identity \<circ> snd) comparison) @
           optional_entry ''reconciliation_binding'' (map_option ref_identity binding_ref) @
           optional_entry ''decision_basis''
             (map_option (\<lambda>r. (''kind'', JStr (cr_basis_kind q)) # ref_identity r) basis_ref))))
     in
     bindE (file_ref fs ''run'' (cr_run_id q) (cr_run_path q) None) (\<lambda>run.
     bindE (file_ref fs ''state'' (cr_state_id q) (cr_state_path q) None) (\<lambda>state.
     bindE (file_ref fs ''provenance'' (path_name (cr_provenance_path q)) (cr_provenance_path q) None) (\<lambda>provenance.
     bindE (file_ref fs ''integrity'' (path_name (cr_integrity_path q)) (cr_integrity_path q) None) (\<lambda>integrity.
     bindE (optional_ref fs ''reconciliation'' (\<lambda>p. artifact_identity fs p reconciliation_fields)
       (cr_reconciliation_path q)) (\<lambda>reconciliation.
     bindE (optional_ref fs ''recovery'' (\<lambda>p. artifact_identity fs p [''recovery_id'']) (cr_recovery_path q)) (\<lambda>recovery.
     bindE (optional_ref fs ''attestation'' path_name (cr_attestation_path q)) (\<lambda>attestation.
     construct chain_post_init
       \<lparr>rc_chain_id = chain_id, rc_run = run, rc_state = state, rc_evidence = evidence, rc_provenance = provenance,
        rc_integrity = integrity, rc_verification_status = cr_verification_status q,
        rc_reliability_state = cr_reliability_state q, rc_reconciliation_state = cr_reconciliation_state q,
        rc_reconciliation_ref = reconciliation, rc_recovery_ref = recovery, rc_attestation_ref = attestation,
        rc_decision_basis_ref = basis_ref, rc_comparison_ref = map_option snd comparison,
        rc_reconciliation_binding_ref = binding_ref, rc_decision = cr_decision q,
        rc_decision_rationale = cr_rationale q\<rparr>))))))))))))))))"

section \<open>Verification\<close>

text \<open>\<open>_safe_source\<close> and \<open>is_file\<close>: the content of a source below the root.\<close>

definition source_content :: "(string \<Rightarrow> located) \<Rightarrow> string \<Rightarrow> string result" where
  "source_content locate s =
     (case locate (backslash_to_slash s) of
        Outside \<Rightarrow> Inl (ValueError ''escapes root'')
      | Absent \<Rightarrow> Inl (FileNotFoundError s)
      | Content b \<Rightarrow> Inr b)"

definition verify_source :: "(string \<Rightarrow> located) \<Rightarrow> evidence_reference \<Rightarrow> unit result" where
  "verify_source locate r =
     (case er_source r of
        None \<Rightarrow> Inr ()
      | Some s \<Rightarrow> bindE (source_content locate s) (\<lambda>b.
          guards [(sha256_hex b \<noteq> er_digest r, ValueError ''source digest mismatch'')]))"

definition verify_receipt :: "(string \<Rightarrow> located) \<Rightarrow> chain \<Rightarrow> evidence_reference \<Rightarrow> unit result" where
  "verify_receipt locate c e =
     (case er_receipt_ref e of
        None \<Rightarrow> Inr ()
      | Some q \<Rightarrow> (case (er_kind q = ''receipt'', er_source q) of
          (True, Some s) \<Rightarrow>
            bindE (source_content locate s) (\<lambda>b.
            bindE (receipt_of_content b) (\<lambda>r.
            bindE (guards [
              (rp_receipt_id r \<noteq> er_identity q, ValueError ''receipt identity''),
              (rp_digest r \<noteq> er_digest q, ValueError ''receipt digest''),
              (er_identity e \<noteq> rp_receipt_id r, ValueError ''reference identity''),
              (er_digest e \<noteq> rp_artifact_digest r, ValueError ''artifact digest''),
              (er_source e = None, ValueError ''local artifact source'')]) (\<lambda>_.
            bindE (source_content locate (opt_or (er_source e) [])) (\<lambda>content. guards ([
              (int (length content) \<noteq> rp_artifact_size r, ValueError ''artifact size''),
              (sha256_hex content \<noteq> rp_artifact_digest r, ValueError ''artifact digest''),
              (rp_run_id r \<noteq> None \<and> rp_run_id r \<noteq> Some (er_identity (rc_run c)), ValueError ''run_id'')] @
              (case rp_provenance_ref r of
                 None \<Rightarrow> []
               | Some p \<Rightarrow> [
                   (er_kind p \<noteq> ''provenance'', ValueError ''provenance kind''),
                   (er_identity p \<noteq> er_identity (rc_provenance c) \<or> er_digest p \<noteq> er_digest (rc_provenance c),
                      ValueError ''provenance'')]))))))
        | _ \<Rightarrow> Inl (ValueError ''incomplete receipt binding'')))"

definition verify_receipts :: "(string \<Rightarrow> located) \<Rightarrow> chain \<Rightarrow> unit result" where
  "verify_receipts locate c = bindE (mapE (verify_receipt locate c) (rc_evidence c)) (\<lambda>_. Inr ())"

text \<open>A reference without a source stands for the root itself, which is a directory.\<close>

definition located_source :: "(string \<Rightarrow> located) \<Rightarrow> evidence_reference \<Rightarrow> string result" where
  "located_source locate r =
     (case er_source r of None \<Rightarrow> Inl (IsADirectoryError ''root'') | Some s \<Rightarrow> source_content locate s)"

definition located_file :: "(string \<Rightarrow> located) \<Rightarrow> evidence_reference \<Rightarrow> located" where
  "located_file locate r = (case er_source r of None \<Rightarrow> Absent | Some s \<Rightarrow> locate (backslash_to_slash s))"

definition verify_comparison_ref ::
    "(string \<Rightarrow> int option) \<Rightarrow> (string \<Rightarrow> located) \<Rightarrow> evidence_reference \<Rightarrow> unit result" where
  "verify_comparison_ref fval locate r =
     bindE (located_source locate r) (\<lambda>b.
     bindE (load_comparison (\<lambda>_. Some b) ''comparison'') (\<lambda>cmp.
     bindE (guards [
       (bc_comparison_id cmp \<noteq> er_identity r, ValueError ''comparison identity''),
       (sha256_hex b \<noteq> er_digest r, ValueError ''comparison digest'')]) (\<lambda>_.
     verify_comparison fval locate cmp)))"

definition verify_binding_ref :: "(string \<Rightarrow> located) \<Rightarrow> chain \<Rightarrow> evidence_reference \<Rightarrow> unit result" where
  "verify_binding_ref locate c r =
     (case (rc_comparison_ref c, rc_reconciliation_ref c) of
        (Some comparison_ref, Some reconciliation_ref) \<Rightarrow>
          bindE (located_source locate r) (\<lambda>content.
          bindE (load_binding (\<lambda>_. Some content) ''binding'') (\<lambda>b.
          bindE (guards [
            (binding_digest b \<noteq> er_identity r, ValueError ''binding identity''),
            (sha256_hex content \<noteq> er_digest r, ValueError ''binding digest'')]) (\<lambda>_.
          bindE (bindE (located_source locate comparison_ref) (\<lambda>d. load_comparison (\<lambda>_. Some d) ''comparison'')) (\<lambda>cmp.
          bindE (verify_binding b cmp (located_file locate reconciliation_ref)) (\<lambda>_. guards [
            (rb_comparison_id b \<noteq> er_identity comparison_ref \<or> rb_comparison_digest b \<noteq> er_digest comparison_ref,
               ValueError ''comparison mismatch''),
            (rb_reconciliation_id b \<noteq> er_identity reconciliation_ref \<or>
               rb_reconciliation_digest b \<noteq> er_digest reconciliation_ref,
               ValueError ''reconciliation mismatch'')])))))
      | _ \<Rightarrow> Inl (ValueError ''requires both references''))"

definition verified_references :: "chain \<Rightarrow> evidence_reference list" where
  "verified_references c =
     [rc_run c, rc_state c] @ rc_evidence c @ [rc_provenance c, rc_integrity c] @
     List.map_filter id [rc_reconciliation_ref c, rc_recovery_ref c, rc_attestation_ref c, rc_comparison_ref c]"

definition verify_chain :: "(string \<Rightarrow> int option) \<Rightarrow> (string \<Rightarrow> located) \<Rightarrow> chain \<Rightarrow> unit result" where
  "verify_chain fval locate c =
     bindE (mapE (verify_source locate) (verified_references c)) (\<lambda>_.
     bindE (verify_receipts locate c) (\<lambda>_.
     bindE (case rc_comparison_ref c of None \<Rightarrow> Inr () | Some r \<Rightarrow> verify_comparison_ref fval locate r) (\<lambda>_.
     bindE (case rc_reconciliation_binding_ref c of None \<Rightarrow> Inr () | Some r \<Rightarrow> verify_binding_ref locate c r) (\<lambda>_.
     verify_decision_basis locate c))))"

section \<open>Persistence\<close>

definition write_chain :: "chain \<Rightarrow> string \<Rightarrow> files \<Rightarrow> files" where
  "write_chain c path fs = fs(path \<mapsto> indented (JObj (chain_to_dict c)))"

definition load_chain :: "files \<Rightarrow> string \<Rightarrow> chain result" where
  "load_chain fs path =
     (case fs path of
        None \<Rightarrow> Inl (FileNotFoundError path)
      | Some b \<Rightarrow>
          if \<not> utf8_ok b then Inl (UnicodeDecodeError path)
          else case loads b of
              None \<Rightarrow> Inl (JSONDecodeError path)
            | Some (JObj d) \<Rightarrow> chain_from_dict d
            | Some _ \<Rightarrow> Inl (ValueError ''root must be an object''))"

text \<open>
  \<open>transition_reliability_state_from_file\<close> of \<open>services/reliability_state_service.py\<close>: \<open>root\<close> locates the sources
  of the chain when an evidence root is given.
\<close>

definition transition_from_file ::
    "(string \<Rightarrow> int option) \<Rightarrow> files \<Rightarrow> bool \<Rightarrow> (string \<Rightarrow> located) option \<Rightarrow> datetime \<Rightarrow> jsonl \<Rightarrow>
     string \<Rightarrow> string \<Rightarrow> string \<Rightarrow> datetime option \<Rightarrow> string list \<Rightarrow> transition result \<times> jsonl" where
  "transition_from_file fval fs recover root now history subject_id chain_path actor occurred_at rationale =
     (case load_chain fs chain_path of
        Inl e \<Rightarrow> (Inl e, history)
      | Inr c \<Rightarrow>
          (case service_jsonl recover (map_option (verify_chain fval) root) now history subject_id c actor occurred_at rationale of
             (r, history', events) \<Rightarrow> (r, history')))"

section \<open>What a verification establishes\<close>

definition holds_source :: "(string \<Rightarrow> located) \<Rightarrow> evidence_reference \<Rightarrow> string \<Rightarrow> bool" where
  "holds_source locate r b \<longleftrightarrow>
     (\<exists>s. er_source r = Some s \<and> locate (backslash_to_slash s) = Content b) \<and> sha256_hex b = er_digest r"

lemma source_content_Inr: "source_content locate s = Inr b \<longleftrightarrow> locate (backslash_to_slash s) = Content b"
  by (simp add: source_content_def split: located.split)

lemma verify_source_Inr:
  "verify_source locate r = Inr () \<longleftrightarrow> er_source r = None \<or> (\<exists>b. holds_source locate r b)"
  by (auto simp: verify_source_def holds_source_def source_content_Inr bindE_eq_Inr_iff split: option.split)

lemma located_source_Inr:
  "located_source locate r = Inr b \<longleftrightarrow> (\<exists>s. er_source r = Some s \<and> locate (backslash_to_slash s) = Content b)"
  by (auto simp: located_source_def source_content_Inr split: option.split)

text \<open>A receipt that vouches for an evidence reference of a chain.\<close>

definition vouches :: "(string \<Rightarrow> located) \<Rightarrow> chain \<Rightarrow> evidence_reference \<Rightarrow> evidence_reference \<Rightarrow> receipt \<Rightarrow> bool" where
  "vouches locate c e q r \<longleftrightarrow>
     (\<exists>b. located_source locate q = Inr b \<and> receipt_of_content b = Inr r) \<and> er_kind q = ''receipt'' \<and>
     rp_receipt_id r = er_identity q \<and> rp_receipt_id r = er_identity e \<and> rp_digest r = er_digest q \<and>
     (\<exists>content. holds_source locate e content \<and> sha256_hex content = rp_artifact_digest r \<and>
        int (length content) = rp_artifact_size r) \<and>
     (rp_run_id r = None \<or> rp_run_id r = Some (er_identity (rc_run c))) \<and>
     (\<forall>p. rp_provenance_ref r = Some p \<longrightarrow> er_kind p = ''provenance'' \<and>
        er_identity p = er_identity (rc_provenance c) \<and> er_digest p = er_digest (rc_provenance c))"

lemma verify_receipt_Inr:
  "verify_receipt locate c e = Inr () \<longleftrightarrow> (\<forall>q. er_receipt_ref e = Some q \<longrightarrow> (\<exists>r. vouches locate c e q r))"
proof (cases "er_receipt_ref e")
  case None
  then show ?thesis by (simp add: verify_receipt_def)
next
  case (Some q)
  show ?thesis
  proof (cases "er_kind q = ''receipt''")
    case False
    with Some show ?thesis by (simp add: verify_receipt_def vouches_def)
  next
    case kind: True
    show ?thesis
    proof (cases "er_source q")
      case None
      with Some kind show ?thesis by (simp add: verify_receipt_def vouches_def located_source_def)
    next
      case s: (Some s)
      have "verify_receipt locate c e = Inr () \<longleftrightarrow> (\<exists>r. vouches locate c e q r)"
      proof (cases "bindE (source_content locate s) receipt_of_content")
        case (Inl x)
        then show ?thesis
          by (auto simp: verify_receipt_def vouches_def Some kind s located_source_def bindE_eq_Inr_iff)
      next
        case (Inr r)
        then obtain b where b: "source_content locate s = Inr b" "receipt_of_content b = Inr r"
          by (auto simp: bindE_eq_Inr_iff)
        then have "vouches locate c e q x \<Longrightarrow> x = r" for x
          by (simp add: vouches_def located_source_def s)
        then have "(\<exists>r. vouches locate c e q r) \<longleftrightarrow> vouches locate c e q r" by blast
        moreover have "verify_receipt locate c e = Inr () \<longleftrightarrow> vouches locate c e q r"
          unfolding verify_receipt_def vouches_def
          by (cases "er_source e"; cases "rp_provenance_ref r")
            (auto simp: Some kind s b bindE_eq_Inr_iff source_content_Inr located_source_def holds_source_def opt_or_def)
        ultimately show ?thesis by simp
      qed
      with Some show ?thesis by simp
    qed
  qed
qed

text \<open>The comparison a chain refers to, and what the root says it is.\<close>

definition replayed :: "(string \<Rightarrow> located) \<Rightarrow> evidence_reference \<Rightarrow> behavioral_comparison \<Rightarrow> behavioral_diff \<Rightarrow> bool" where
  "replayed locate r cmp d \<longleftrightarrow>
     (\<exists>b. holds_source locate r b \<and> load_comparison (\<lambda>_. Some b) ''comparison'' = Inr cmp) \<and>
     bc_comparison_id cmp = er_identity r \<and> replay_comparison locate cmp = Inr d \<and>
     bc_significance cmp = diff_risk d \<and> bc_discrepancy cmp = discrepancy d"

lemma verify_comparison_ref_Inr:
  "verify_comparison_ref fval locate r = Inr () \<Longrightarrow> \<exists>cmp d. replayed locate r cmp d"
  unfolding verify_comparison_ref_def
  by (elim bindE_InrE)
    (auto simp: located_source_Inr replayed_def holds_source_def verify_comparison_def simp del: py_norm.simps)

text \<open>The binding a chain refers to resolves the discrepancies of a comparison.\<close>

definition resolves :: "(string \<Rightarrow> located) \<Rightarrow> chain \<Rightarrow> evidence_reference \<Rightarrow> behavioral_comparison \<Rightarrow> reconciliation_binding \<Rightarrow> bool" where
  "resolves locate c r cmp b \<longleftrightarrow>
     (\<exists>content. holds_source locate r content \<and> load_binding (\<lambda>_. Some content) ''binding'' = Inr b) \<and>
     binding_digest b = er_identity r \<and> rb_comparison_id b = bc_comparison_id cmp \<and> rb_resolved b = bc_discrepancy cmp \<and>
     rb_status b \<in> {''verified'', ''recovered''} \<and>
     (\<exists>q content. rc_reconciliation_ref c = Some q \<and> holds_source locate q content \<and>
        reconciliation_semantics (\<lambda>_. Some content) ''reconciliation'' = Inr (rb_reconciliation_id b, rb_status b) \<and>
        rb_reconciliation_id b = er_identity q)"

lemma semantics_status: "reconciliation_semantics fs p = Inr (i, s) \<Longrightarrow> s \<in> {''verified'', ''recovered''}"
  by (auto simp: reconciliation_semantics_def Let_def bindE_eq_Inr_iff)

lemma located_file_Content: "located_file locate r = Content b \<longleftrightarrow> located_source locate r = Inr b"
  by (auto simp: located_file_def located_source_Inr split: option.split)

lemma verify_binding_Inr:
  "verify_binding b cmp f = Inr () \<longleftrightarrow>
     rb_comparison_id b = bc_comparison_id cmp \<and> rb_resolved b = bc_discrepancy cmp \<and>
     (\<exists>content. f = Content content \<and> sha256_hex content = rb_reconciliation_digest b \<and>
        reconciliation_semantics (\<lambda>_. Some content) ''reconciliation'' = Inr (rb_reconciliation_id b, rb_status b))"
  by (auto simp: verify_binding_def bindE_eq_Inr_iff split: located.split)

lemma verify_binding_ref_Inr:
  assumes "verify_binding_ref locate c r = Inr ()" "rc_comparison_ref c = Some q"
    and "located_source locate q = Inr d" "load_comparison (\<lambda>_. Some d) ''comparison'' = Inr cmp"
  shows "\<exists>b. resolves locate c r cmp b"
proof -
  obtain p where p: "rc_reconciliation_ref c = Some p"
    using assms(1,2) by (cases "rc_reconciliation_ref c") (simp_all add: verify_binding_ref_def)
  obtain content b where b: "located_source locate r = Inr content" "load_binding (\<lambda>_. Some content) ''binding'' = Inr b"
    "binding_digest b = er_identity r" "sha256_hex content = er_digest r"
    "verify_binding b cmp (located_file locate p) = Inr ()"
    "rb_reconciliation_id b = er_identity p" "rb_reconciliation_digest b = er_digest p"
    using assms by (auto simp: verify_binding_ref_def p)
  obtain x where x: "located_file locate p = Content x" "sha256_hex x = rb_reconciliation_digest b"
    "reconciliation_semantics (\<lambda>_. Some x) ''reconciliation'' = Inr (rb_reconciliation_id b, rb_status b)"
    "rb_comparison_id b = bc_comparison_id cmp" "rb_resolved b = bc_discrepancy cmp"
    using b(5) by (auto simp: verify_binding_Inr)
  have "holds_source locate p x"
    using x(1,2) b(7) by (auto simp: located_file_Content located_source_Inr holds_source_def)
  with x b p semantics_status [OF x(3)] show ?thesis
    by (intro exI [of _ b]) (auto simp: resolves_def holds_source_def located_source_Inr)
qed

text \<open>The basis a chain refers to is a basis of its decision.\<close>

definition justifies :: "(string \<Rightarrow> located) \<Rightarrow> chain \<Rightarrow> evidence_reference \<Rightarrow> decision_basis \<Rightarrow> bool" where
  "justifies locate c r b \<longleftrightarrow>
     (\<exists>content s. holds_source locate r content \<and> load_decision_basis (\<lambda>_. Some content) s = Inr b) \<and>
     db_basis_id b = er_identity r \<and> db_decision b = rc_decision c \<and> db_reliability_state b = rc_reliability_state c \<and>
     db_rationale b = rc_decision_rationale c \<and> set (db_input_digests b) \<subseteq> set (allowed_inputs c)"

lemma verify_decision_basis_Inr:
  "verify_decision_basis locate c = Inr () \<Longrightarrow> rc_decision_basis_ref c = Some r \<Longrightarrow> \<exists>b. justifies locate c r b"
  by (fastforce simp: verify_decision_basis_def justifies_def holds_source_def basis_checks_def bindE_eq_Inr_iff list_ex_iff
      split: option.splits located.splits)

lemma decision_basis_guards_state:
  "decision_basis_guards b = Inr () \<Longrightarrow> db_reliability_state b \<in> set (expected_states (db_decision b))"
  by (simp add: decision_basis_guards_def)

lemma load_decision_basis_ok: "load_decision_basis fs p = Inr b \<Longrightarrow> db_reliability_state b \<in> set (expected_states (db_decision b))"
  unfolding load_decision_basis_def decision_basis_from_dict_def make_decision_basis_def
  by (elim bindE_InrE) (auto dest: decision_basis_guards_state)

text \<open>
  C3: end to end, a verified chain is backed by its artifacts. Every reference that names a source names a
  file below the root with the recorded digest; every receipt of its evidence vouches for exactly that
  file, run and provenance; its comparison, if it has one, reports what the compared files say; its
  reconciliation binding resolves exactly the discrepancies of that comparison with a verified or
  recovered reconciliation; its decision basis has its decision, state and rationale, rests on digests of the
  chain only, and its state is one the decision calls for.
\<close>

theorem verified_chain_sound:
  assumes "verify_chain fval locate c = Inr ()"
  shows "(\<forall>r \<in> set (verified_references c). er_source r = None \<or> (\<exists>b. holds_source locate r b)) \<and>
    (\<forall>e \<in> set (rc_evidence c). \<forall>q. er_receipt_ref e = Some q \<longrightarrow> (\<exists>r. vouches locate c e q r)) \<and>
    (\<forall>r. rc_comparison_ref c = Some r \<longrightarrow> (\<exists>cmp d. replayed locate r cmp d \<and>
       (\<forall>q. rc_reconciliation_binding_ref c = Some q \<longrightarrow> (\<exists>b. resolves locate c q cmp b \<and> rb_resolved b = discrepancy d)))) \<and>
    (rc_reconciliation_binding_ref c \<noteq> None \<longrightarrow> rc_comparison_ref c \<noteq> None) \<and>
    (\<forall>r. rc_decision_basis_ref c = Some r \<longrightarrow> (\<exists>b. justifies locate c r b \<and>
       rc_reliability_state c \<in> set (expected_states (rc_decision c))))"
proof -
  have v: "\<forall>r \<in> set (verified_references c). verify_source locate r = Inr ()"
    "\<forall>e \<in> set (rc_evidence c). verify_receipt locate c e = Inr ()"
    "\<And>r. rc_comparison_ref c = Some r \<Longrightarrow> verify_comparison_ref fval locate r = Inr ()"
    "\<And>r. rc_reconciliation_binding_ref c = Some r \<Longrightarrow> verify_binding_ref locate c r = Inr ()"
    "verify_decision_basis locate c = Inr ()"
    using assms by (auto simp: verify_chain_def verify_receipts_def mapE_unit)
  have cmp: "\<exists>cmp d. replayed locate r cmp d \<and>
       (\<forall>q. rc_reconciliation_binding_ref c = Some q \<longrightarrow> (\<exists>b. resolves locate c q cmp b \<and> rb_resolved b = discrepancy d))"
    if r: "rc_comparison_ref c = Some r" for r
  proof -
    obtain cmp d where d: "replayed locate r cmp d"
      using verify_comparison_ref_Inr [OF v(3) [OF r]] by blast
    then obtain b where b: "holds_source locate r b" "load_comparison (\<lambda>_. Some b) ''comparison'' = Inr cmp"
      by (auto simp: replayed_def)
    then have "located_source locate r = Inr b" by (auto simp: located_source_Inr holds_source_def)
    from verify_binding_ref_Inr [OF v(4) r this b(2)]
    have "\<exists>b. resolves locate c q cmp b" if "rc_reconciliation_binding_ref c = Some q" for q using that by blast
    moreover have "rb_resolved b' = bc_discrepancy cmp" if "resolves locate c q cmp b'" for q b'
      using that by (simp add: resolves_def)
    moreover have "bc_discrepancy cmp = discrepancy d" using d by (simp add: replayed_def)
    ultimately show ?thesis using d by metis
  qed
  have bind: "rc_comparison_ref c \<noteq> None" if "rc_reconciliation_binding_ref c = Some q" for q
    using v(4) [OF that] by (cases "rc_comparison_ref c") (simp_all add: verify_binding_ref_def)
  have basis: "\<exists>b. justifies locate c r b \<and> rc_reliability_state c \<in> set (expected_states (rc_decision c))"
    if "rc_decision_basis_ref c = Some r" for r
  proof -
    from v(5) that obtain b where b: "justifies locate c r b" by (auto dest: verify_decision_basis_Inr)
    then have "rc_reliability_state c \<in> set (expected_states (rc_decision c))"
      using load_decision_basis_ok by (metis justifies_def)
    with b show ?thesis by blast
  qed
  show ?thesis
    using v(1,2) cmp bind basis unfolding verify_source_Inr verify_receipt_Inr by auto
qed

definition stored_chain :: chain where
  "stored_chain = claim_chain\<lparr>rc_run := EvidenceReference ''run'' ''r1'' (sha256_hex ''r'') (Some ''run.json'') None\<rparr>"

definition stored_locate :: "string \<Rightarrow> located" where
  "stored_locate s = (if s = ''run.json'' then Content ''r'' else Absent)"

lemma verified_chain_sound_witness:
  "verify_chain (\<lambda>_. None) stored_locate stored_chain = Inr () \<and> holds_source stored_locate (rc_run stored_chain) ''r''"
proof -
  have "backslash_to_slash ''run.json'' = ''run.json''" by code_simp
  then have "verify_chain (\<lambda>_. None) stored_locate stored_chain = Inr ()"
    by (simp add: verify_chain_def verified_references_def verify_receipts_def verify_receipt_def verify_source_def
        source_content_def verify_decision_basis_def stored_locate_def stored_chain_def claim_chain_def sample_chain_def
        sample_ref_def contract_ref_def map_filter_simps)
  note v = this
  from verified_chain_sound [OF v] have "\<forall>r \<in> set (verified_references stored_chain).
      er_source r = None \<or> (\<exists>b. holds_source stored_locate r b)" by (rule conjunct1)
  then have "er_source (rc_run stored_chain) = None \<or> (\<exists>b. holds_source stored_locate (rc_run stored_chain) b)"
    by (rule bspec) (simp add: verified_references_def)
  moreover have run: "rc_run stored_chain = EvidenceReference ''run'' ''r1'' (sha256_hex ''r'') (Some ''run.json'') None"
    by (simp add: stored_chain_def)
  ultimately obtain b where "holds_source stored_locate (rc_run stored_chain) b" by auto
  then have "b = ''r''"
    unfolding holds_source_def run by (simp add: stored_locate_def split: if_splits)
  with v \<open>holds_source stored_locate (rc_run stored_chain) b\<close> show ?thesis by simp
qed

end
