(* ===== verification/BuiltChain.thy ===== *)
theory BuiltChain
  imports ChainEvidence
begin

text \<open>
  The construction and the verification of \<open>services/reliability_evidence_service.py\<close> against each other: a
  chain built from files verifies against the directory that holds them.
\<close>

section \<open>References to files that are in place\<close>

text \<open>
  Every file is found under its name below the root, and beside the binding. The recorded source of a
  file is its name alone, so this asks that no two files of different content share one.
\<close>

definition in_place :: "files \<Rightarrow> (string \<Rightarrow> string \<Rightarrow> located) \<Rightarrow> (string \<Rightarrow> located) \<Rightarrow> bool" where
  "in_place fs beside locate \<longleftrightarrow>
     (\<forall>p b. fs p = Some b \<longrightarrow> locate (backslash_to_slash (path_name p)) = Content b \<and> (\<forall>q. beside q p = Content b))"

lemma in_placeD: "in_place fs beside locate \<Longrightarrow> fs p = Some b \<Longrightarrow> locate (backslash_to_slash (path_name p)) = Content b"
  "in_place fs beside locate \<Longrightarrow> fs p = Some b \<Longrightarrow> beside q p = Content b"
  by (simp_all add: in_place_def)

lemma file_digest_Inr: "file_digest fs p = Inr d \<longleftrightarrow> (\<exists>b. fs p = Some b \<and> d = sha256_hex b)"
  by (auto simp: file_digest_def split: option.splits)

lemma file_ref_Inr:
  "file_ref fs k i p rr = Inr r \<Longrightarrow>
     \<exists>b. fs p = Some b \<and> r = EvidenceReference k i (sha256_hex b) (Some (path_name p)) rr"
  by (auto simp: file_ref_def file_digest_Inr construct_Inr_iff bindE_eq_Inr_iff)

text \<open>What is loaded from a file is loaded from its content.\<close>

lemma load_object_content: "load_object fs p f = Inr d \<Longrightarrow> fs p = Some b \<Longrightarrow> load_object (\<lambda>_. Some b) s f = Inr d"
  by (simp add: load_object_Inr)

lemma load_comparison_content:
  "load_comparison fs p = Inr v \<Longrightarrow> fs p = Some b \<Longrightarrow> load_comparison (\<lambda>_. Some b) s = Inr v"
  unfolding load_comparison_def by (elim bindE_InrE) (simp add: load_object_content)

lemma load_binding_content:
  "load_binding fs p = Inr v \<Longrightarrow> fs p = Some b \<Longrightarrow> load_binding (\<lambda>_. Some b) s = Inr v"
  unfolding load_binding_def by (elim bindE_InrE) (simp add: load_object_content)

lemma load_decision_basis_content:
  "load_decision_basis fs p = Inr v \<Longrightarrow> fs p = Some b \<Longrightarrow> load_decision_basis (\<lambda>_. Some b) s = Inr v"
  unfolding load_decision_basis_def by (elim bindE_InrE) (simp add: load_object_content)

lemma file_ref_verifies:
  assumes "in_place fs beside locate" "file_ref fs k i p rr = Inr r"
  shows "verify_source locate r = Inr ()"
proof -
  obtain b where "fs p = Some b" "r = EvidenceReference k i (sha256_hex b) (Some (path_name p)) rr"
    using file_ref_Inr [OF assms(2)] by blast
  then show ?thesis
    using in_placeD(1) [OF assms(1)] by (auto simp: verify_source_Inr holds_source_def)
qed

lemma optional_ref_verifies:
  assumes "in_place fs beside locate" "optional_ref fs k i p = Inr (Some r)"
  shows "verify_source locate r = Inr ()"
  using assms(2) file_ref_verifies [OF assms(1)] by (auto simp: optional_ref_def split: option.splits)

section \<open>The parts of a built chain\<close>

lemma construct_value: "construct f r = Inr r' \<Longrightarrow> r' = r"
  by (simp add: construct_Inr_iff)

lemma built_chain:
  assumes "build_chain fs beside q = Inr c"
  obtains comparison where
    "mapE (evidence_ref_of fs q) (sort (cr_evidence_paths q)) = Inr (rc_evidence c)"
    "comparison_part fs q = Inr comparison" "rc_comparison_ref c = map_option snd comparison"
    "binding_part fs beside q comparison = Inr (rc_reconciliation_binding_ref c)"
    "basis_part fs q = Inr (rc_decision_basis_ref c)"
    "file_ref fs ''run'' (cr_run_id q) (cr_run_path q) None = Inr (rc_run c)"
    "file_ref fs ''state'' (cr_state_id q) (cr_state_path q) None = Inr (rc_state c)"
    "file_ref fs ''provenance'' (path_name (cr_provenance_path q)) (cr_provenance_path q) None = Inr (rc_provenance c)"
    "file_ref fs ''integrity'' (path_name (cr_integrity_path q)) (cr_integrity_path q) None = Inr (rc_integrity c)"
    "optional_ref fs ''reconciliation'' (\<lambda>p. artifact_identity fs p reconciliation_fields) (cr_reconciliation_path q)
       = Inr (rc_reconciliation_ref c)"
    "optional_ref fs ''recovery'' (\<lambda>p. artifact_identity fs p [''recovery_id'']) (cr_recovery_path q) = Inr (rc_recovery_ref c)"
    "optional_ref fs ''attestation'' path_name (cr_attestation_path q) = Inr (rc_attestation_ref c)"
    "rc_decision c = cr_decision q" "rc_reliability_state c = cr_reliability_state q"
    "rc_decision_rationale c = cr_rationale q"
  using assms unfolding build_chain_def Let_def
  by (elim bindE_InrE) (drule construct_value, rule that; simp only: chain.select_convs; assumption?)

section \<open>Each part verifies\<close>

lemma comparison_ref_verifies:
  assumes at: "in_place fs beside locate" and c: "comparison_part fs q = Inr (Some (cmp, r))"
    and v: "verify_comparison fval locate cmp = Inr ()"
  shows "verify_comparison_ref fval locate r = Inr ()" "verify_source locate r = Inr ()"
    "bindE (located_source locate r) (\<lambda>d. load_comparison (\<lambda>_. Some d) ''comparison'') = Inr cmp"
proof -
  obtain p where p: "load_comparison fs p = Inr cmp" "file_ref fs ''comparison'' (bc_comparison_id cmp) p None = Inr r"
    using c by (auto simp: comparison_part_def split: option.splits)
  then obtain b where b: "fs p = Some b"
    "r = EvidenceReference ''comparison'' (bc_comparison_id cmp) (sha256_hex b) (Some (path_name p)) None"
    using file_ref_Inr by blast
  have s: "located_source locate r = Inr b"
    using in_placeD(1) [OF at b(1)] by (simp add: located_source_Inr b(2))
  show "verify_comparison_ref fval locate r = Inr ()"
    using s load_comparison_content [OF p(1) b(1)] v by (simp add: verify_comparison_ref_def b(2))
  show "bindE (located_source locate r) (\<lambda>d. load_comparison (\<lambda>_. Some d) ''comparison'') = Inr cmp"
    using s load_comparison_content [OF p(1) b(1)] by simp
  show "verify_source locate r = Inr ()" by (rule file_ref_verifies [OF at p(2)])
qed

lemma binding_ref_verifies:
  assumes at: "in_place fs beside locate" and c: "comparison_part fs q = Inr comparison"
    and r: "binding_part fs beside q comparison = Inr (Some r)"
    and refs: "rc_comparison_ref c = map_option snd comparison"
      "optional_ref fs ''reconciliation'' (\<lambda>p. artifact_identity fs p reconciliation_fields) (cr_reconciliation_path q)
         = Inr (rc_reconciliation_ref c)"
    and loaded: "\<And>cmp s. comparison = Some (cmp, s) \<Longrightarrow>
      bindE (located_source locate s) (\<lambda>d. load_comparison (\<lambda>_. Some d) ''comparison'') = Inr cmp"
  shows "verify_binding_ref locate c r = Inr ()"
proof -
  obtain path cmp s p b rr where parts: "comparison = Some (cmp, s)" "cr_reconciliation_path q = Some p"
    "load_binding fs path = Inr b"
    "file_ref fs ''reconciliation'' (artifact_identity fs p reconciliation_fields) p None = Inr rr"
    "verify_binding b cmp (beside path p) = Inr ()"
    "rb_comparison_id b = er_identity s" "rb_comparison_digest b = er_digest s"
    "rb_reconciliation_id b = er_identity rr" "rb_reconciliation_digest b = er_digest rr"
    "file_ref fs ''reconciliation-binding'' (binding_digest b) path None = Inr r"
    using r by (auto simp: binding_part_def split: option.splits prod.splits)
  obtain x where x: "fs p = Some x" "er_source rr = Some (path_name p)"
    using file_ref_Inr [OF parts(4)] by auto
  obtain y where y: "fs path = Some y"
    "r = EvidenceReference ''reconciliation-binding'' (binding_digest b) (sha256_hex y) (Some (path_name path)) None"
    using file_ref_Inr [OF parts(10)] by blast
  have "rc_reconciliation_ref c = Some rr" "rc_comparison_ref c = Some s"
    using refs parts(1,2,4) by (auto simp: optional_ref_def)
  moreover have "located_source locate r = Inr y"
    using in_placeD(1) [OF at y(1)] by (simp add: located_source_Inr y(2))
  moreover have "located_file locate rr = beside path p"
    using in_placeD [OF at x(1)] by (simp add: located_file_def x(2))
  ultimately show ?thesis
    using parts(5-9) load_binding_content [OF parts(3) y(1)] loaded [OF parts(1)]
    by (simp add: verify_binding_ref_def y(2))
qed

lemma basis_ref_verifies:
  assumes at: "in_place fs beside locate" and r: "basis_part fs q = Inr (rc_decision_basis_ref c)"
    and c: "rc_decision c = cr_decision q" "rc_reliability_state c = cr_reliability_state q"
      "rc_decision_rationale c = cr_rationale q"
    and inputs: "\<And>p b. cr_basis_path q = Some p \<Longrightarrow> load_decision_basis fs p = Inr b \<Longrightarrow>
      set (db_input_digests b) \<subseteq> set (allowed_inputs c)"
  shows "verify_decision_basis locate c = Inr ()"
proof (cases "rc_decision_basis_ref c")
  case None
  then show ?thesis by (simp add: verify_decision_basis_def)
next
  case (Some s)
  then obtain p b where p: "cr_basis_path q = Some p" "load_decision_basis fs p = Inr b"
    "cr_basis_kind q = (if db_basis_type b = ''policy'' then ''policy'' else ''decision-basis'')"
    "db_decision b = cr_decision q" "db_reliability_state b = cr_reliability_state q" "db_rationale b = cr_rationale q"
    "file_ref fs (cr_basis_kind q) (db_basis_id b) p None = Inr s"
    using r by (auto simp: basis_part_def split: option.splits)
  obtain x where x: "fs p = Some x"
    "s = EvidenceReference (cr_basis_kind q) (db_basis_id b) (sha256_hex x) (Some (path_name p)) None"
    using file_ref_Inr [OF p(7)] by blast
  have "basis_checks c s b = Inr ()"
    using p(3-6) c inputs [OF p(1,2)] by (auto simp: basis_checks_def x(2) list_ex_iff)
  then show ?thesis
    using in_placeD(1) [OF at x(1)] load_decision_basis_content [OF p(2) x(1)]
    by (simp add: verify_decision_basis_def Some x(2))
qed

lemma made_provenance_kind: "make_receipt r0 = Inr r \<Longrightarrow> rp_provenance_ref r = Some p \<Longrightarrow> er_kind p = ''provenance''"
  by (auto simp: make_receipt_Inr_iff receipt_guards_def kind_not_in_def)

lemma receipt_provenance_kind: "receipt_of_content b = Inr r \<Longrightarrow> rp_provenance_ref r = Some p \<Longrightarrow> er_kind p = ''provenance''"
  by (auto simp: receipt_of_content_def receipt_from_dict_def made_provenance_kind split: if_splits option.splits json.splits)

lemma evidence_ref_verifies:
  assumes at: "in_place fs beside locate" and e: "evidence_ref_of fs q path = Inr e"
    and run: "file_ref fs ''run'' (cr_run_id q) (cr_run_path q) None = Inr (rc_run c)"
    and prov: "file_ref fs ''provenance'' (path_name (cr_provenance_path q)) (cr_provenance_path q) None = Inr (rc_provenance c)"
  shows "verify_receipt locate c e = Inr ()" "verify_source locate e = Inr ()"
proof -
  show "verify_source locate e = Inr ()"
    using e file_ref_verifies [OF at] by (auto simp: evidence_ref_of_def split: option.splits)
  show "verify_receipt locate c e = Inr ()"
  proof (cases "receipt_path_of q path")
    case None
    then have "er_receipt_ref e = None"
      using e file_ref_Inr by (fastforce simp: evidence_ref_of_def)
    then show ?thesis by (simp add: verify_receipt_def)
  next
    case (Some p)
    then obtain r s d where r: "load_receipt fs p = Inr r" "file_digest fs path = Inr d" "rp_artifact_digest r = d"
      "rp_artifact_size r = int (length (opt_or (fs path) []))" "receipt_reference r (Some (path_name p)) = Inr s"
      "rp_run_id r = None \<or> rp_run_id r = Some (cr_run_id q)"
      "\<And>w. rp_provenance_ref r = Some w \<Longrightarrow> er_identity w = path_name (cr_provenance_path q) \<and>
         file_digest fs (cr_provenance_path q) = Inr (er_digest w)"
      "file_ref fs ''evidence'' (er_identity s) path (Some s) = Inr e"
      using e by (fastforce simp: evidence_ref_of_def bind_receipt_def split: if_splits option.splits)
    obtain x where x: "fs path = Some x" "e = EvidenceReference ''evidence'' (er_identity s) (sha256_hex x) (Some (path_name path)) (Some s)"
      using file_ref_Inr [OF r(8)] by blast
    obtain y where y: "fs p = Some y" "receipt_of_content y = Inr r"
      using r(1) by (auto simp: load_receipt_def split: option.splits)
    have s: "s = EvidenceReference ''receipt'' (rp_receipt_id r) (rp_digest r) (Some (path_name p)) None"
      using r(5) by (simp add: receipt_reference_def construct_Inr_iff)
    have "vouches locate c e s r"
      using in_placeD(1) [OF at x(1)] in_placeD(1) [OF at y(1)] y r(2-4,6,7) file_ref_Inr [OF run] file_ref_Inr [OF prov]
        receipt_provenance_kind [OF y(2)]
      by (auto simp: vouches_def located_source_Inr holds_source_def s x opt_or_def file_digest_Inr)
    then show ?thesis by (auto simp: verify_receipt_Inr x(2))
  qed
qed

section \<open>A built chain verifies\<close>

text \<open>
  C5: what \<open>build\<close> produces, \<open>verify\<close> accepts. When the files of the request lie in the directory the chain
  is verified against, the comparison, if there is one, replays there, and the decision basis, if there
  is one, rests on artifacts of the chain, then every check of the verification passes: the digests of all
  sources, the receipts, the comparison, the reconciliation binding and the decision basis.
\<close>

theorem built_chain_verifies:
  assumes built: "build_chain fs beside q = Inr c" and at: "in_place fs beside locate"
    and replays: "\<And>p cmp. cr_comparison_path q = Some p \<Longrightarrow> load_comparison fs p = Inr cmp \<Longrightarrow>
      verify_comparison fval locate cmp = Inr ()"
    and inputs: "\<And>p b. cr_basis_path q = Some p \<Longrightarrow> load_decision_basis fs p = Inr b \<Longrightarrow>
      set (db_input_digests b) \<subseteq> set (allowed_inputs c)"
  shows "verify_chain fval locate c = Inr ()"
proof -
  obtain comparison where parts:
    "mapE (evidence_ref_of fs q) (sort (cr_evidence_paths q)) = Inr (rc_evidence c)"
    "comparison_part fs q = Inr comparison" "rc_comparison_ref c = map_option snd comparison"
    "binding_part fs beside q comparison = Inr (rc_reconciliation_binding_ref c)"
    "basis_part fs q = Inr (rc_decision_basis_ref c)"
    "file_ref fs ''run'' (cr_run_id q) (cr_run_path q) None = Inr (rc_run c)"
    "file_ref fs ''state'' (cr_state_id q) (cr_state_path q) None = Inr (rc_state c)"
    "file_ref fs ''provenance'' (path_name (cr_provenance_path q)) (cr_provenance_path q) None = Inr (rc_provenance c)"
    "file_ref fs ''integrity'' (path_name (cr_integrity_path q)) (cr_integrity_path q) None = Inr (rc_integrity c)"
    "optional_ref fs ''reconciliation'' (\<lambda>p. artifact_identity fs p reconciliation_fields) (cr_reconciliation_path q)
       = Inr (rc_reconciliation_ref c)"
    "optional_ref fs ''recovery'' (\<lambda>p. artifact_identity fs p [''recovery_id'']) (cr_recovery_path q) = Inr (rc_recovery_ref c)"
    "optional_ref fs ''attestation'' path_name (cr_attestation_path q) = Inr (rc_attestation_ref c)"
    "rc_decision c = cr_decision q" "rc_reliability_state c = cr_reliability_state q"
    "rc_decision_rationale c = cr_rationale q"
    using built_chain [OF built] .
  have cmp: "verify_comparison_ref fval locate r = Inr () \<and> verify_source locate r = Inr () \<and>
      bindE (located_source locate r) (\<lambda>d. load_comparison (\<lambda>_. Some d) ''comparison'') = Inr k"
    if c: "comparison = Some (k, r)" for k r
  proof -
    obtain p where "cr_comparison_path q = Some p" "load_comparison fs p = Inr k"
      using parts(2) c by (auto simp: comparison_part_def split: option.splits)
    then show ?thesis
      using comparison_ref_verifies [OF at parts(2) [unfolded c] replays] by blast
  qed
  have evidence: "verify_receipt locate c e = Inr () \<and> verify_source locate e = Inr ()" if e: "e \<in> set (rc_evidence c)" for e
  proof -
    obtain path where "evidence_ref_of fs q path = Inr e"
      using parts(1) e by (auto simp: mapE_Inr_iff list_all2_conv_all_nth in_set_conv_nth)
    then show ?thesis using evidence_ref_verifies [OF at _ parts(6,8)] by blast
  qed
  have "verify_source locate r = Inr ()" if "r \<in> set (verified_references c)" for r
    using that evidence cmp parts(3) file_ref_verifies [OF at parts(6)] file_ref_verifies [OF at parts(7)]
      file_ref_verifies [OF at parts(8)] file_ref_verifies [OF at parts(9)] parts(10-12) optional_ref_verifies [OF at]
    by (auto simp: verified_references_def map_filter_simps split: option.splits)
  moreover have "verify_binding_ref locate c r = Inr ()" if "rc_reconciliation_binding_ref c = Some r" for r
    using binding_ref_verifies [OF at parts(2) _ parts(3,10)] parts(4) that cmp by simp
  moreover have "verify_decision_basis locate c = Inr ()"
    by (rule basis_ref_verifies [OF at parts(5,13-15) inputs])
  moreover have "verify_comparison_ref fval locate r = Inr ()" if "rc_comparison_ref c = Some r" for r
    using that parts(3) cmp by auto
  ultimately show ?thesis
    using evidence by (simp add: verify_chain_def verify_receipts_def mapE_unit bindE_eq_Inr_iff split: option.split)
qed

section \<open>Witnesses\<close>

definition release_files :: files where
  "release_files p = map_of [(''run.json'', ''r''), (''state.json'', ''s''), (''graph.json'', ''p''), (''proof.json'', ''i''),
     (''log.txt'', ''e''), (''audit.txt'', ''a'')] p"

definition release_locate :: "string \<Rightarrow> located" where
  "release_locate p = (case release_files p of None \<Rightarrow> Absent | Some b \<Rightarrow> Content b)"

definition release_request :: chain_request where
  "release_request =
     \<lparr>cr_run_id = ''run-1'', cr_run_path = ''run.json'', cr_state_id = ''state-1'', cr_state_path = ''state.json'',
      cr_evidence_paths = [''log.txt'', ''audit.txt''], cr_provenance_path = ''graph.json'', cr_integrity_path = ''proof.json'',
      cr_verification_status = ''verified'', cr_reliability_state = ''reliable'', cr_reconciliation_state = ''verified'',
      cr_reconciliation_path = None, cr_recovery_path = None, cr_attestation_path = None, cr_basis_path = None,
      cr_basis_kind = ''decision-basis'', cr_decision = ''accept'', cr_rationale = [''tests pass''], cr_receipt_paths = [],
      cr_comparison_path = None, cr_binding_path = None\<rparr>"

lemma release_names:
  "list_all (\<lambda>p. backslash_to_slash (path_name p) = p \<and> \<not> blank p)
     [''run.json'', ''state.json'', ''graph.json'', ''proof.json'', ''log.txt'', ''audit.txt'']"
  by code_simp

lemma release_in_place: "in_place release_files (\<lambda>_. release_locate) release_locate"
proof -
  have "backslash_to_slash (path_name p) = p" if "release_files p = Some b" for p b
    using that release_names by (auto simp: release_files_def list_all_iff split: if_splits)
  then show ?thesis by (auto simp: in_place_def release_locate_def)
qed

lemma release_file_ref:
  assumes "release_files p = Some b" "\<not> blank k" "\<not> blank i"
  shows "file_ref release_files k i p None = Inr (EvidenceReference k i (sha256_hex b) (Some (path_name p)) None)"
proof -
  have "\<not> blank (path_name p)"
  proof -
    have "p \<in> {''run.json'', ''state.json'', ''graph.json'', ''proof.json'', ''log.txt'', ''audit.txt''}"
      using assms(1) by (auto simp: release_files_def split: if_splits)
    then show ?thesis by (elim insertE emptyE) (simp_all only:, code_simp+)
  qed
  with assms show ?thesis
    by (simp add: file_ref_def file_digest_def construct_def evidence_reference_post_init_def blank_if_given_def)
qed

lemma release_built: "\<exists>c. build_chain release_files (\<lambda>_. release_locate) release_request = Inr c"
proof -
  have names: "path_name ''graph.json'' = ''graph.json''" "path_name ''proof.json'' = ''proof.json''"
    "path_name ''log.txt'' = ''log.txt''" "path_name ''audit.txt'' = ''audit.txt''"
    "sort [''log.txt'', ''audit.txt''] = [''audit.txt'', ''log.txt'']"
    by code_simp+
  have files: "release_files ''run.json'' = Some ''r''" "release_files ''state.json'' = Some ''s''"
    "release_files ''graph.json'' = Some ''p''" "release_files ''proof.json'' = Some ''i''"
    "release_files ''log.txt'' = Some ''e''" "release_files ''audit.txt'' = Some ''a''"
    by (simp_all add: release_files_def)
  show ?thesis
    unfolding build_chain_def Let_def
    by (simp add: release_request_def names files file_digest_def release_file_ref evidence_ref_of_def receipt_path_of_def
        comparison_part_def binding_part_def basis_part_def optional_ref_def construct_def chain_post_init_def kind_not_in_def)
qed

lemma built_chain_verifies_witness:
  "\<exists>c. build_chain release_files (\<lambda>_. release_locate) release_request = Inr c \<and>
     verify_chain (\<lambda>_. None) release_locate c = Inr ()"
proof -
  obtain c where c: "build_chain release_files (\<lambda>_. release_locate) release_request = Inr c"
    using release_built by blast
  have "verify_chain (\<lambda>_. None) release_locate c = Inr ()"
    by (rule built_chain_verifies [OF c release_in_place]) (simp_all add: release_request_def)
  with c show ?thesis by blast
qed

end
