(* ===== verification/WrittenArtifacts.thy ===== *)
theory WrittenArtifacts
  imports BuiltChain
begin

text \<open>
  The artifacts of a decision as files: what the writers of the chain, the decision basis and the claim profile
  store, the loaders return.
\<close>

text \<open>Every string of the document is text.\<close>

definition encodable :: "payload \<Rightarrow> bool" where
  "encodable d = json_ok utf8_ok (JObj d)"

lemma load_written:
  "encodable d \<Longrightarrow> load_object (fs(p \<mapsto> indented (JObj d))) p field = Inr (sorted_payload d) \<and> stored (sorted_payload d) d"
  by (simp add: encodable_def load_object_indented stored_written)

lemma strings_stored: "sort_keys (jstrs xs) = jstrs xs" "string_sequence (jstrs xs) f = Inr xs"
  by (simp_all add: jstrs_def string_sequence_def comp_def)

lemma decision_basis_from_stored:
  assumes "make_decision_basis b0 = Inr b" "stored d (decision_basis_to_dict b)"
  shows "decision_basis_from_dict d = Inr b"
proof -
  have b: "b = b0\<lparr>db_digest := decision_basis_digest b0\<rparr>" and g: "decision_basis_guards b0 = Inr ()"
    using assms(1) by (auto simp: make_decision_basis_def bindE_eq_Inr_iff)
  have dig: "decision_basis_digest (b0\<lparr>db_digest := x\<rparr>) = decision_basis_digest b0" for x
    by (simp add: decision_basis_digest_def decision_basis_payload_def)
  have "decision_basis_from_dict d = make_decision_basis b"
    using storedD [OF assms(2)]
    by (cases b) (simp add: decision_basis_from_dict_def decision_basis_to_dict_def decision_basis_payload_def item_str_def
        item_def get_strings_def get_or_def get_str_def get_opt_str_def jopt_str_def strings_stored split: option.split)
  moreover have "make_decision_basis b = Inr b"
    using g by (simp add: make_decision_basis_def decision_basis_guards_def b dig)
  ultimately show ?thesis by simp
qed

lemma claim_profile_from_stored:
  assumes "profile_guards p = Inr ()" "stored d (claim_profile_to_dict p)"
  shows "claim_profile_from_dict d = Inr p"
  using storedD [OF assms(2)] assms(1)
  by (cases p) (simp add: claim_profile_from_dict_def claim_profile_to_dict_def claim_profile_payload_def item_str_def
      item_def get_strings_def get_or_def get_str_def require_bool_def strings_stored construct_def)

lemma load_chain_written:
  assumes "chain_ok c" "encodable (chain_to_dict c)"
  shows "load_chain (write_chain c path fs) path = Inr c"
proof -
  have "loads (indented (JObj (chain_to_dict c))) = Some (JObj (sorted_payload (chain_to_dict c)))"
    using assms(2) by (simp add: encodable_def loads_indented sort_keys_JObj del: sort_keys.simps)
  moreover have "utf8_ok (indented (JObj (chain_to_dict c)))"
    using assms(2) by (auto simp: encodable_def intro: utf8_ok_indented)
  moreover have "chain_from_dict (sorted_payload (chain_to_dict c)) = Inr c"
    using load_written [OF assms(2)] by (intro chain_from_dict_to_dict [OF assms(1)]) blast
  ultimately show ?thesis by (simp add: load_chain_def write_chain_def)
qed

text \<open>
  What is written is what is loaded. A chain, a decision basis and a claim profile whose strings are text
  are returned by their loaders from the files their writers leave, equal in every field and with their digest
  checked; no other file is touched.
\<close>

theorem written_artifacts_load:
  "(chain_ok c \<and> encodable (chain_to_dict c) \<longrightarrow> load_chain (write_chain c path fs) path = Inr c) \<and>
   (make_decision_basis b0 = Inr b \<and> encodable (decision_basis_to_dict b) \<longrightarrow>
      load_decision_basis (write_decision_basis b path fs) path = Inr b) \<and>
   (profile_guards p = Inr () \<and> encodable (claim_profile_to_dict p) \<longrightarrow>
      load_claim_profile (write_claim_profile p path fs) path = Inr p) \<and>
   (\<forall>q. q \<noteq> path \<longrightarrow> write_chain c path fs q = fs q \<and> write_decision_basis b path fs q = fs q \<and>
      write_claim_profile p path fs q = fs q)"
proof (intro conjI impI allI)
  assume "chain_ok c \<and> encodable (chain_to_dict c)"
  then show "load_chain (write_chain c path fs) path = Inr c" by (simp add: load_chain_written)
next
  assume b: "make_decision_basis b0 = Inr b \<and> encodable (decision_basis_to_dict b)"
  then show "load_decision_basis (write_decision_basis b path fs) path = Inr b"
    using load_written [of "decision_basis_to_dict b" fs path] decision_basis_from_stored [of b0 b]
    by (auto simp: load_decision_basis_def write_decision_basis_def)
next
  assume "profile_guards p = Inr () \<and> encodable (claim_profile_to_dict p)"
  then show "load_claim_profile (write_claim_profile p path fs) path = Inr p"
    using load_written [of "claim_profile_to_dict p" fs path] claim_profile_from_stored [of p]
    by (auto simp: load_claim_profile_def write_claim_profile_def)
qed (simp_all add: write_chain_def write_decision_basis_def write_claim_profile_def)

section \<open>Witness\<close>

lemma encodable_digest:
  "encodable d \<Longrightarrow> is_sha256 s \<Longrightarrow> ''digest'' \<notin> set (map fst d) \<Longrightarrow> encodable (d @ [(''digest'', JStr s)])"
  by (auto simp: encodable_def json_ok.simps(4) utf8_ok_sha256 image_iff) (code_simp | force)+

lemma encodable_profile: "encodable (claim_profile_payload incident_profile)"
  by code_simp

lemma written_artifacts_load_witness:
  "load_claim_profile (write_claim_profile incident_profile ''p.json'' (\<lambda>_. None)) ''p.json'' = Inr incident_profile"
proof -
  have "encodable (claim_profile_to_dict incident_profile)"
    unfolding claim_profile_to_dict_def
    by (rule encodable_digest [OF encodable_profile]) (simp_all add: claim_profile_digest_def claim_profile_payload_def)
  moreover have "profile_guards incident_profile = Inr ()" by code_simp
  ultimately show ?thesis using written_artifacts_load by blast
qed

end
