(* ===== verification/ContentStore.thy ===== *)
theory ContentStore
  imports Governance
begin

text \<open>
  \<open>adapters/content_store.py\<close> with the retention contract it relies on (\<open>domain/retention.py\<close>,
  \<open>adapters/retention.py\<close>). The store is a map from digests to bytes: the path of an artifact is its digest
  split after two characters. The retention adapter is an interface; the adapter of the program is one
  interpretation of it.
\<close>

section \<open>Retention\<close>

record requirement =
  rq_artifact_id :: string
  rq_retain_until :: datetime
  rq_legal_hold :: bool
  rq_policy_id :: string

definition requirement_post_init :: "requirement \<Rightarrow> unit result" where
  "requirement_post_init r = guards [
     (blank (rq_artifact_id r) \<or> blank (rq_policy_id r), ValueError ''artifact_id and policy_id''),
     (\<not> tz_aware (rq_retain_until r), ValueError ''retain_until'')]"

type_synonym retention_state = "string \<rightharpoonup> requirement"

definition require_retention :: "retention_state \<Rightarrow> requirement \<Rightarrow> retention_state" where
  "require_retention s r =
     (case s (rq_artifact_id r) of
        None \<Rightarrow> s(rq_artifact_id r \<mapsto> r)
      | Some existing \<Rightarrow>
          if instant (rq_retain_until existing) \<le> instant (rq_retain_until r) then s(rq_artifact_id r \<mapsto> r) else s)"

definition release_retention :: "retention_state \<Rightarrow> string \<Rightarrow> retention_state" where
  "release_retention s i =
     (case s i of None \<Rightarrow> s | Some existing \<Rightarrow> if rq_legal_hold existing then s else s(i := None))"

definition can_delete :: "retention_state \<Rightarrow> string \<Rightarrow> datetime \<Rightarrow> bool result" where
  "can_delete s i now =
     (if \<not> tz_aware now then Inl (ValueError ''now'')
      else case s i of
          None \<Rightarrow> Inr True
        | Some r \<Rightarrow> Inr (\<not> rq_legal_hold r \<and> instant (rq_retain_until r) \<le> instant now))"

definition is_held :: "retention_state \<Rightarrow> string \<Rightarrow> bool" where
  "is_held s i = (case s i of None \<Rightarrow> False | Some r \<Rightarrow> rq_legal_hold r)"

section \<open>The content-addressed store\<close>

type_synonym artifacts = "string \<rightharpoonup> string"

definition path_for :: "string \<Rightarrow> string result" where
  "path_for digest = (if \<not> is_sha256 digest then Inl (ValueError ''digest'') else Inr digest)"

text \<open>
  \<open>put\<close>. Between the check of existence and the link of the temporary file another process may have
  linked its own; \<open>rival\<close> is the content it linked, if any.
\<close>

definition artifact_put :: "string option \<Rightarrow> artifacts \<Rightarrow> string \<Rightarrow> string result \<times> artifacts" where
  "artifact_put rival m content =
     (let digest = sha256_hex content
      in case path_for digest of
          Inl e \<Rightarrow> (Inl e, m)
        | Inr target \<Rightarrow>
            (case m target of
               Some existing \<Rightarrow>
                 (if sha256_hex existing \<noteq> digest then Inl (ValueError ''Artifact integrity failure'') else Inr digest, m)
             | None \<Rightarrow> (Inr digest, m(target \<mapsto> opt_or rival content))))"

text \<open>\<open>store_content\<close> of \<open>services/evidence_service.py\<close>\<close>

definition store_content :: "string option \<Rightarrow> artifacts \<Rightarrow> string \<Rightarrow> string result \<times> artifacts" where
  "store_content rival m content = artifact_put rival m content"

definition artifact_get :: "artifacts \<Rightarrow> string \<Rightarrow> string result" where
  "artifact_get m digest =
     bindE (path_for digest) (\<lambda>target.
     case m target of
       None \<Rightarrow> Inl (FileNotFoundError digest)
     | Some content \<Rightarrow>
         if sha256_hex content \<noteq> digest then Inl (ValueError ''Artifact integrity failure'') else Inr content)"

definition artifact_exists :: "artifacts \<Rightarrow> string \<Rightarrow> bool result" where
  "artifact_exists m digest = bindE (path_for digest) (\<lambda>target. Inr (m target \<noteq> None))"

text \<open>\<open>delete\<close>: the file is gone before its deletion record is built.\<close>

definition artifact_delete ::
    "(string \<Rightarrow> datetime \<Rightarrow> bool result) \<Rightarrow> artifacts \<Rightarrow> string \<Rightarrow> datetime \<Rightarrow> string \<Rightarrow> string \<Rightarrow> string \<Rightarrow> string list \<Rightarrow>
     deletion_record result \<times> artifacts" where
  "artifact_delete deletable m digest now sensitivity policy_id reason derived_from =
     (case bindE (guards [(\<not> tz_aware now, ValueError ''now'')]) (\<lambda>_.
           bindE (path_for digest) (\<lambda>target.
           bindE (guards [(m target = None, FileNotFoundError digest)]) (\<lambda>_.
           bindE (deletable digest now) (\<lambda>ok.
           if ok then Inr target else Inl (PermissionError digest))))) of
        Inl e \<Rightarrow> (Inl e, m)
      | Inr target \<Rightarrow>
          (build_deletion_record digest digest sensitivity now policy_id reason derived_from, m(target := None)))"

section \<open>The retention interface\<close>

text \<open>
  What the store relies on: as long as an artifact is protected, the adapter does not permit its deletion.
\<close>

locale retention =
  fixes permits :: "'s \<Rightarrow> string \<Rightarrow> datetime \<Rightarrow> bool result" and protected :: "'s \<Rightarrow> string \<Rightarrow> datetime \<Rightarrow> bool"
  assumes protected_blocks: "protected s i now \<Longrightarrow> permits s i now \<noteq> Inr True"
begin

lemma delete_keeps_protected:
  assumes "protected s i now"
  shows "snd (artifact_delete (permits s) m d now v p r xs) i = m i"
  using protected_blocks [OF assms]
  by (auto simp: artifact_delete_def path_for_def bindE_eq_Inr_iff split: sum.splits if_splits)

lemma delete_unprotected:
  assumes "snd (artifact_delete (permits s) m d now v p r xs) \<noteq> m"
  shows "\<not> protected s d now \<and> permits s d now = Inr True \<and> m d \<noteq> None"
  using assms protected_blocks [of s d now]
  by (auto simp: artifact_delete_def path_for_def bindE_eq_Inr_iff split: sum.splits if_splits)

end

definition mem_protected :: "retention_state \<Rightarrow> string \<Rightarrow> datetime \<Rightarrow> bool" where
  "mem_protected s i now =
     (case s i of None \<Rightarrow> False | Some r \<Rightarrow> rq_legal_hold r \<or> instant now < instant (rq_retain_until r))"

interpretation mem: retention can_delete mem_protected
  by unfold_locales (auto simp: can_delete_def mem_protected_def split: option.splits)

section \<open>Integrity\<close>

lemma path_for_sha [simp]: "path_for (sha256_hex c) = Inr (sha256_hex c)"
  by (simp add: path_for_def)

lemma artifact_get_Inr: "artifact_get m d = Inr c \<longleftrightarrow> is_sha256 d \<and> m d = Some c \<and> sha256_hex c = d"
  by (auto simp: artifact_get_def path_for_def split: option.splits if_splits)

text \<open>
  C32: the address of an artifact is its content. What a read returns hashes to the address; after a successful
  write, with or without a rival that stored something of the same hash, the address reads back the content
  or two contents collide; a write changes no other address and no stored content; and deletion removes
  at most the given address, only when it was there and the retention adapter permits it, hence never
  while a legal hold or an unexpired requirement protects it.
\<close>

theorem artifact_store_integrity:
  "(artifact_get m d = Inr c \<longrightarrow> sha256_hex c = d) \<and>
   (artifact_put rival m c = (Inr d, m') \<and> sha256_hex (opt_or rival c) = sha256_hex c \<longrightarrow>
      (\<exists>b. artifact_get m' d = Inr b \<and> (b = c \<or> collision b c))) \<and>
   (artifact_put rival m c = (x, m') \<longrightarrow> (\<forall>k. m' k = m k \<or> m k = None \<and> k = sha256_hex c)) \<and>
   (artifact_delete (can_delete s) m d now v p r xs = (y, m'') \<longrightarrow>
      (\<forall>k. m'' k = m k \<or> k = d \<and> m'' k = None) \<and>
      (m'' \<noteq> m \<longrightarrow> can_delete s d now = Inr True \<and> \<not> mem_protected s d now))"
proof (intro conjI impI)
  assume put: "artifact_put rival m c = (Inr d, m') \<and> sha256_hex (opt_or rival c) = sha256_hex c"
  then have d: "d = sha256_hex c"
    by (auto simp: artifact_put_def Let_def split: option.splits if_splits)
  obtain b where "m' d = Some b" "sha256_hex b = d"
    using put by (cases "m d") (auto simp: artifact_put_def Let_def d split: if_splits)
  then have "artifact_get m' d = Inr b" by (simp add: artifact_get_Inr d)
  moreover have "b = c \<or> collision b c" using \<open>sha256_hex b = d\<close> by (auto simp: d collision_def)
  ultimately show "\<exists>b. artifact_get m' d = Inr b \<and> (b = c \<or> collision b c)" by blast
next
  assume "artifact_put rival m c = (x, m')"
  then show "\<forall>k. m' k = m k \<or> m k = None \<and> k = sha256_hex c"
    by (auto simp: artifact_put_def Let_def split: option.splits if_splits)
next
  assume del: "artifact_delete (can_delete s) m d now v p r xs = (y, m'')"
  then show "\<forall>k. m'' k = m k \<or> k = d \<and> m'' k = None"
    by (auto simp: artifact_delete_def path_for_def bindE_eq_Inr_iff split: sum.splits if_splits)
  assume "m'' \<noteq> m"
  with del have "snd (artifact_delete (can_delete s) m d now v p r xs) \<noteq> m" by simp
  from mem.delete_unprotected [OF this] show "can_delete s d now = Inr True" "\<not> mem_protected s d now" by simp_all
qed (simp add: artifact_get_Inr)

section \<open>Holds\<close>

text \<open>Every operation on the requirements.\<close>

datatype retention_op = Require requirement | Release string

fun retention_step :: "retention_state \<Rightarrow> retention_op \<Rightarrow> retention_state" where
  "retention_step s (Require r) = require_retention s r"
| "retention_step s (Release i) = release_retention s i"

text \<open>
  How a legal hold ends. A hold survives every release and every requirement that ends earlier, and while
  it lasts nothing may be deleted; the only operation that ends it is a requirement for the same artifact that
  ends no earlier and carries no hold, and then the artifact may be deleted as soon as that requirement
  expires. A hold that ends earlier than a requirement already present is not recorded at all.
\<close>

theorem legal_hold_lifetime:
  assumes "s i = Some h" "rq_legal_hold h" "rq_artifact_id h = i" "tz_aware now"
  shows "(is_held (retention_step s op) i \<longleftrightarrow>
      \<not> (\<exists>r. op = Require r \<and> rq_artifact_id r = i \<and> \<not> rq_legal_hold r \<and>
           instant (rq_retain_until h) \<le> instant (rq_retain_until r))) \<and>
    can_delete s i now = Inr False \<and>
    (\<forall>r. rq_artifact_id r = i \<and> \<not> rq_legal_hold r \<and> instant (rq_retain_until h) \<le> instant (rq_retain_until r) \<and>
       instant (rq_retain_until r) \<le> instant now \<longrightarrow> can_delete (require_retention s r) i now = Inr True) \<and>
    (\<forall>t g. t i = Some g \<and> instant (rq_retain_until h) < instant (rq_retain_until g) \<longrightarrow> require_retention t h = t)"
  using assms
  by (cases op) (auto simp: require_retention_def release_retention_def can_delete_def is_held_def split: option.splits)

lemma not_blank_utc_iso: "\<not> blank (utc_iso t)"
proof -
  obtain y m d where ymd: "ord2ymd (instant t div day_us) = (y, m, d)" by (cases "ord2ymd (instant t div day_us)")
  have "length (pad 4 y) = 4" "list_all is_digit (pad 4 y)" by simp_all
  then obtain c cs where "pad 4 y = c # cs" "is_digit c" by (cases "pad 4 y") auto
  then show ?thesis
    by (simp add: utc_iso_def iso_naive_def iso_date_def ymd is_digit_def byte_def)
qed

text \<open>
  A deletion may leave no record. Once the retention adapter permits it, the artifact is gone whatever the
  call returns, and the call returns a deletion record exactly when its policy, its reason, its sensitivity and
  its sources are acceptable: these are checked after the deletion.
\<close>

theorem deletion_without_record:
  assumes "m d \<noteq> None" "is_sha256 d" "tz_aware now" "permits d now = Inr True"
  shows "case artifact_delete permits m d now v p r xs of (y, m') \<Rightarrow>
    m' d = None \<and> (is_ok y \<longleftrightarrow> \<not> blank r \<and> \<not> blank p \<and> v \<in> set sensitivities \<and> \<not> list_ex blank xs)"
proof -
  show ?thesis
    using assms
    by (auto simp: artifact_delete_def path_for_def build_deletion_record_def deletion_record_post_init_def construct_Inr_iff is_ok_iff
        not_blank_utc_iso)
qed

section \<open>Witnesses\<close>

definition held_requirement :: "string \<Rightarrow> requirement" where
  "held_requirement i = \<lparr>rq_artifact_id = i, rq_retain_until = Aware 5, rq_legal_hold = True, rq_policy_id = ''p''\<rparr>"

lemma artifact_store_integrity_witness:
  "\<exists>m' b. artifact_put None (\<lambda>_. None) ''x'' = (Inr (sha256_hex ''x''), m') \<and> artifact_get m' (sha256_hex ''x'') = Inr b \<and>
     (b = ''x'' \<or> collision b ''x'')"
proof -
  have "artifact_put None (\<lambda>_. None) ''x'' = (Inr (sha256_hex ''x''), [sha256_hex ''x'' \<mapsto> ''x''])"
    by (simp add: artifact_put_def Let_def opt_or_def)
  with artifact_store_integrity [where m = "\<lambda>_. None" and rival = None and c = "''x''" and d = "sha256_hex ''x''"]
  show ?thesis by (auto simp: opt_or_def)
qed

lemma legal_hold_lifetime_witness:
  "can_delete (require_retention [''a'' \<mapsto> held_requirement ''a''] (held_requirement ''a''\<lparr>rq_legal_hold := False\<rparr>)) ''a'' (Aware 9) = Inr True"
  using legal_hold_lifetime [of "[''a'' \<mapsto> held_requirement ''a'']" "''a''" "held_requirement ''a''" "Aware 9"]
  by (simp add: held_requirement_def)

lemma deletion_without_record_witness:
  "\<not> is_ok (fst (artifact_delete (\<lambda>_ _. Inr True) [replicate 64 CHR ''a'' \<mapsto> ''x''] (replicate 64 CHR ''a'') (Aware 9) ''secret'' ''p'' ''r'' [])) \<and>
   snd (artifact_delete (\<lambda>_ _. Inr True) [replicate 64 CHR ''a'' \<mapsto> ''x''] (replicate 64 CHR ''a'') (Aware 9) ''secret'' ''p'' ''r'' [])
     (replicate 64 CHR ''a'') = None"
proof -
  let ?d = "replicate 64 CHR ''a''" and ?m = "[replicate 64 CHR ''a'' \<mapsto> ''x'']"
  have "is_sha256 ?d" "''secret'' \<notin> set sensitivities" by code_simp+
  with deletion_without_record [where m = ?m and d = ?d and now = "Aware 9" and permits = "\<lambda>_ _. Inr True" and
      v = "''secret''" and p = "''p''" and r = "''r''" and xs = "[]"] show ?thesis
    by (auto split: prod.splits)
qed

end
