(* ===== verification/Ingestion.thy ===== *)
theory Ingestion
  imports EvidenceReceipt ContentStore Privacy Lines
begin

text \<open>
  \<open>adapters/evidence_ingestion.py\<close> and \<open>services/evidence_ingestion_service.py\<close>: external evidence is redacted,
  admitted by the governance policy, stored under its digest and vouched for by a receipt. The receipt store is
  the list of its files, each with its name and its bytes.
\<close>

section \<open>The receipt store\<close>

type_synonym receipts = "(string \<times> string) list"

definition receipt_file :: "string \<Rightarrow> string" where
  "receipt_file receipt_id = receipt_id @ ''.json''"

text \<open>\<open>existing.to_dict() == receipt.to_dict()\<close>: dictionaries compare up to the order of keys.\<close>

definition same_receipt :: "receipt \<Rightarrow> receipt \<Rightarrow> bool" where
  "same_receipt r s = (sort_keys (JObj (receipt_to_dict r)) = sort_keys (JObj (receipt_to_dict s)))"

definition check_existing :: "string \<Rightarrow> receipt \<Rightarrow> unit result" where
  "check_existing content r =
     bindE (receipt_of_content content) (\<lambda>existing.
     if same_receipt existing r then Inr ()
     else Inl (ValueError (if rp_source_event_id r \<noteq> None then ''source_event_id conflict'' else ''receipt identity collision'')))"

text \<open>As in the artifact store, \<open>rival\<close> is what another process linked between the check and the link.\<close>

definition receipt_put :: "string option \<Rightarrow> receipts \<Rightarrow> receipt \<Rightarrow> unit result \<times> receipts" where
  "receipt_put rival m r =
     (let target = receipt_file (rp_receipt_id r); payload = indented (JObj (receipt_to_dict r))
      in case map_of m target of
          Some content \<Rightarrow> (check_existing content r, m)
        | None \<Rightarrow>
            (case rival of
               None \<Rightarrow> (Inr (), m @ [(target, payload)])
             | Some content \<Rightarrow> (check_existing content r, m @ [(target, content)])))"

definition receipt_get :: "receipts \<Rightarrow> string \<Rightarrow> receipt result" where
  "receipt_get m receipt_id =
     (case map_of m (receipt_file receipt_id) of
        None \<Rightarrow> Inl (FileNotFoundError receipt_id)
      | Some content \<Rightarrow> receipt_of_content content)"

section \<open>The local adapter\<close>

record evidence_store =
  es_artifacts :: artifacts
  es_receipts :: receipts

record ingest_request =
  iq_producer_type :: string
  iq_producer_id :: string
  iq_source_ref :: string
  iq_captured_at :: datetime
  iq_producer_version :: "string option"
  iq_source_event_id :: "string option"
  iq_run_id :: "string option"
  iq_metadata :: "(string, string) dict"
  iq_provenance_ref :: "evidence_reference option"
  iq_sensitivity :: string

text \<open>The regular expressions and the case folding of the redactor, with the two policies.\<close>

record privacy_runtime =
  pr_subn :: subn
  pr_casefold :: "string \<Rightarrow> string"
  pr_privacy :: privacy_policy
  pr_governance :: governance_policy

definition ingested_metadata :: "privacy_runtime option \<Rightarrow> (string, string) dict \<Rightarrow> (string, string) dict" where
  "ingested_metadata governance metadata =
     (case governance of
        None \<Rightarrow> metadata
      | Some g \<Rightarrow>
          (case fst (redact_metadata (pr_subn g) (pr_casefold g) (pr_privacy g) metadata) of
             JObj kvs \<Rightarrow> map (\<lambda>(k, v). (k, py_str v)) kvs | _ \<Rightarrow> []))"

definition request_receipt :: "privacy_runtime option \<Rightarrow> string \<Rightarrow> ingest_request \<Rightarrow> receipt result" where
  "request_receipt governance content q = make_receipt
     \<lparr>rp_producer_type = iq_producer_type q, rp_producer_id = iq_producer_id q,
      rp_artifact_digest = sha256_hex content, rp_artifact_size = int (length content),
      rp_captured_at = iq_captured_at q, rp_source_ref = iq_source_ref q,
      rp_source_event_id = iq_source_event_id q, rp_producer_version = iq_producer_version q,
      rp_run_id = iq_run_id q, rp_provenance_ref = iq_provenance_ref q,
      rp_metadata = ingested_metadata governance (iq_metadata q), rp_receipt_id = [], rp_digest = []\<rparr>"

text \<open>The manifest of one item; \<open>receipt.run_id or receipt.receipt_id\<close>.\<close>

definition receipt_manifest :: "receipt \<Rightarrow> evidence_item \<Rightarrow> evidence_manifest" where
  "receipt_manifest r i =
     \<lparr>em_manifest_id = rp_receipt_id r,
      em_run_id = (if opt_or (rp_run_id r) [] = [] then rp_receipt_id r else opt_or (rp_run_id r) []),
      em_items = [i]\<rparr>"

definition admit_receipt :: "privacy_runtime \<Rightarrow> receipt \<Rightarrow> string \<Rightarrow> unit result" where
  "admit_receipt g r sensitivity =
     bindE (to_evidence_item r sensitivity) (\<lambda>item.
     bindE (construct evidence_manifest_post_init (receipt_manifest r item)) (\<lambda>manifest.
     bindE (evaluate_evidence_governance manifest (pr_governance g)) (\<lambda>decision.
     guards [(\<not> gd_storage_allowed decision, ValueError ''evidence storage rejected by governance policy'')])))"

definition assert_existing_artifact :: "artifacts \<Rightarrow> receipt \<Rightarrow> unit result" where
  "assert_existing_artifact m r =
     bindE (artifact_get m (rp_artifact_digest r)) (\<lambda>content.
     guards [(int (length content) \<noteq> rp_artifact_size r, ValueError ''evidence artifact size mismatch'')])"

text \<open>Everything before the first write.\<close>

definition prepare :: "privacy_runtime option \<Rightarrow> string \<Rightarrow> ingest_request \<Rightarrow> receipt result" where
  "prepare governance content q =
     bindE (guards [(iq_sensitivity q \<notin> set sensitivities, ValueError ''sensitivity'')]) (\<lambda>_.
     bindE (request_receipt governance content q) (\<lambda>r.
     bindE (case governance of None \<Rightarrow> Inr () | Some g \<Rightarrow> admit_receipt g r (iq_sensitivity q)) (\<lambda>_. Inr r)))"

text \<open>The two rivals are those of the artifact store and of the receipt store.\<close>

definition ingest_bytes ::
    "string option \<times> string option \<Rightarrow> privacy_runtime option \<Rightarrow> evidence_store \<Rightarrow> string \<Rightarrow> ingest_request \<Rightarrow>
     receipt result \<times> evidence_store" where
  "ingest_bytes rivals governance s content q =
     (case prepare governance content q of
        Inl e \<Rightarrow> (Inl e, s)
      | Inr r \<Rightarrow>
          (case artifact_put (fst rivals) (es_artifacts s) content of
             (Inl e, m) \<Rightarrow> (Inl e, s\<lparr>es_artifacts := m\<rparr>)
           | (Inr kept, m) \<Rightarrow>
               (case bindE (guards [(kept \<noteq> rp_artifact_digest r, ValueError ''unexpected digest'')]) (\<lambda>_.
                     assert_existing_artifact m r) of
                  Inl e \<Rightarrow> (Inl e, s\<lparr>es_artifacts := m\<rparr>)
                | Inr _ \<Rightarrow>
                    (case receipt_put (snd rivals) (es_receipts s) r of
                       (x, n) \<Rightarrow> (bindE x (\<lambda>_. Inr r), \<lparr>es_artifacts = m, es_receipts = n\<rparr>)))))"

definition ingest_file ::
    "string option \<times> string option \<Rightarrow> privacy_runtime option \<Rightarrow> evidence_store \<Rightarrow> files \<Rightarrow> string \<Rightarrow> string option \<Rightarrow>
     ingest_request \<Rightarrow> receipt result \<times> evidence_store" where
  "ingest_file rivals governance s fs path source_ref q =
     (case fs path of
        None \<Rightarrow> (Inl (FileNotFoundError path), s)
      | Some content \<Rightarrow>
          ingest_bytes rivals governance s content
            (q\<lparr>iq_source_ref := (if opt_or source_ref [] = [] then path_name path else opt_or source_ref []),
               iq_provenance_ref := None\<rparr>))"

text \<open>
  \<open>adapters/first_party_evidence.py\<close>: a producer captures its own file. Without a capture time it is the current
  time \<open>now\<close>; the subclasses only give the type of the producer.
\<close>

record adapter_context =
  ax_producer_id :: string
  ax_producer_version :: "string option"
  ax_source_event_id :: "string option"
  ax_run_id :: "string option"
  ax_metadata :: "(string, string) dict"
  ax_sensitivity :: string

definition file_adapter :: "adapter_context \<Rightarrow> adapter_context result" where
  "file_adapter = construct (\<lambda>c. guards [(blank (ax_producer_id c), ValueError ''producer_id'')])"

definition adapter_ingest ::
    "string option \<times> string option \<Rightarrow> privacy_runtime option \<Rightarrow> evidence_store \<Rightarrow> files \<Rightarrow> string \<Rightarrow> adapter_context \<Rightarrow>
     datetime \<Rightarrow> string \<Rightarrow> datetime option \<Rightarrow> string option \<Rightarrow> receipt result \<times> evidence_store" where
  "adapter_ingest rivals governance s fs producer_type c now path captured_at source_ref =
     (let captured = opt_or captured_at now;
          source = (if opt_or source_ref [] = [] then path_name path else opt_or source_ref [])
      in if \<not> tz_aware captured then (Inl (ValueError ''captured_at''), s)
         else ingest_file rivals governance s fs path (Some source)
           \<lparr>iq_producer_type = producer_type, iq_producer_id = ax_producer_id c, iq_source_ref = source,
            iq_captured_at = captured, iq_producer_version = ax_producer_version c,
            iq_source_event_id = ax_source_event_id c, iq_run_id = ax_run_id c, iq_metadata = ax_metadata c,
            iq_provenance_ref = None, iq_sensitivity = ax_sensitivity c\<rparr>)"

definition verify_ingested :: "evidence_store \<Rightarrow> receipt \<Rightarrow> unit result" where
  "verify_ingested s r =
     bindE (assert_existing_artifact (es_artifacts s) r) (\<lambda>_.
     bindE (receipt_get (es_receipts s) (rp_receipt_id r)) (\<lambda>persisted.
     guards [(\<not> same_receipt persisted r, ValueError ''persisted evidence receipt mismatch'')]))"

text \<open>The services: a source reference and a provenance reference as in \<open>ingest_file\<close>; \<open>load_evidence_receipt\<close>.\<close>

definition ingest_evidence_file ::
    "string option \<times> string option \<Rightarrow> privacy_runtime option \<Rightarrow> evidence_store \<Rightarrow> files \<Rightarrow> string \<Rightarrow> string option \<Rightarrow>
     ingest_request \<Rightarrow> receipt result \<times> evidence_store" where
  "ingest_evidence_file rivals governance s fs path source_ref q = ingest_file rivals governance s fs path source_ref q"

definition verify_evidence_receipt :: "evidence_store \<Rightarrow> receipt \<Rightarrow> unit result" where
  "verify_evidence_receipt s r = verify_ingested s r"

definition load_evidence_receipt :: "files \<Rightarrow> string \<Rightarrow> receipt result" where
  "load_evidence_receipt fs path = bindE (load_object fs path ''payload'') receipt_from_dict"

section \<open>Stored receipts\<close>

definition receipt_text :: "receipt \<Rightarrow> bool" where
  "receipt_text r = json_ok utf8_ok (JObj (receipt_to_dict r))"

lemma receipt_of_written:
  assumes "receipt_ok r" "receipt_text r"
  shows "receipt_of_content (indented (JObj (receipt_to_dict r))) = Inr (sort_receipt r)"
proof -
  have "loads (indented (JObj (receipt_to_dict r))) = Some (JObj (sorted_payload (receipt_to_dict r)))"
    using assms(2) by (simp add: receipt_text_def loads_indented sort_keys_JObj del: sort_keys.simps)
  moreover have "utf8_ok (indented (JObj (receipt_to_dict r)))"
    using assms(2) by (auto simp: receipt_text_def intro: utf8_ok_indented)
  moreover have "receipt_from_dict (sorted_payload (receipt_to_dict r)) = Inr (sort_receipt r)"
    using assms(2) by (intro receipt_from_dict_to_dict [OF assms(1)] stored_written) (simp add: receipt_text_def)
  ultimately show ?thesis by (simp add: receipt_of_content_def)
qed

lemma same_receipt_refl [simp]: "same_receipt r r"
  by (simp add: same_receipt_def)

lemma same_receipt_sort [simp]: "same_receipt (sort_receipt r) s = same_receipt r s" "same_receipt s (sort_receipt r) = same_receipt s r"
  by (simp_all add: same_receipt_def receipt_to_dict_def) (simp_all add: sort_receipt_def)

lemma same_receipt_sym: "same_receipt r s = same_receipt s r"
  by (auto simp: same_receipt_def)

lemma receipt_text_dict_ok: "receipt_text r \<Longrightarrow> dict_ok (rp_metadata r)"
  by (simp add: receipt_text_def receipt_to_dict_def receipt_payload_def identity_payload_def dict_ok_def json_ok.simps(4) jdict_def
      comp_def case_prod_beta)

section \<open>One step of the receipt store\<close>

text \<open>A receipt file is written once: no operation changes or removes it.\<close>

lemma receipt_put_keeps: "receipt_put rival m r = (x, n) \<Longrightarrow> map_of m k = Some b \<Longrightarrow> map_of n k = Some b"
  by (auto simp: receipt_put_def Let_def map_add_def split: option.splits if_splits)

lemma receipt_put_reads:
  assumes "receipt_put rival m r = (Inr (), n)" "receipt_ok r" "receipt_text r"
  shows "\<exists>p. receipt_get n (rp_receipt_id r) = Inr p \<and> same_receipt p r"
proof (cases "map_of m (receipt_file (rp_receipt_id r))")
  case None
  show ?thesis
  proof (cases rival)
    case None
    with assms \<open>map_of m _ = None\<close> receipt_of_written [OF assms(2,3)] show ?thesis
      by (auto simp: receipt_put_def receipt_get_def Let_def map_add_def)
  next
    case (Some c)
    with assms(1) \<open>map_of m _ = None\<close> show ?thesis
      by (auto simp: receipt_put_def receipt_get_def check_existing_def Let_def map_add_def bindE_eq_Inr_iff split: if_splits)
  qed
next
  case (Some c)
  with assms(1) show ?thesis
    by (auto simp: receipt_put_def receipt_get_def check_existing_def Let_def bindE_eq_Inr_iff split: if_splits)
qed

text \<open>Once a receipt is present, a receipt of the same identity is accepted exactly when it is the same receipt.\<close>

lemma receipt_put_present:
  assumes "receipt_get m (rp_receipt_id r) = Inr p"
  shows "receipt_put rival m r =
    (if same_receipt p r then Inr ()
     else Inl (ValueError (if rp_source_event_id r \<noteq> None then ''source_event_id conflict'' else ''receipt identity collision'')), m)"
  using assms by (auto simp: receipt_put_def receipt_get_def check_existing_def Let_def split: option.splits)

lemma artifact_put_present:
  assumes "artifact_get m (sha256_hex content) = Inr b"
  shows "artifact_put rival m content = (Inr (sha256_hex content), m)"
  using assms by (auto simp: artifact_put_def artifact_get_Inr)

section \<open>The steps of an ingestion\<close>

lemma request_receipt_digest:
  assumes "request_receipt g content q = Inr r"
  shows "rp_artifact_digest r = sha256_hex content" "rp_artifact_size r = int (length content)"
    "rp_metadata r = ingested_metadata g (iq_metadata q)" "rp_captured_at r = iq_captured_at q"
    "rp_provenance_ref r = iq_provenance_ref q" "rp_source_event_id r = iq_source_event_id q"
  using assms by (auto simp: request_receipt_def make_receipt_Inr_iff)

lemma prepare_request: "prepare g content q = Inr r \<Longrightarrow> request_receipt g content q = Inr r"
  by (auto simp: prepare_def bindE_eq_Inr_iff)

lemma ingest_bytes_Inr:
  assumes "ingest_bytes rivals g s content q = (Inr r, s')"
  shows "prepare g content q = Inr r"
    and "artifact_put (fst rivals) (es_artifacts s) content = (Inr (sha256_hex content), es_artifacts s')"
    and "assert_existing_artifact (es_artifacts s') r = Inr ()"
    and "receipt_put (snd rivals) (es_receipts s) r = (Inr (), es_receipts s')"
proof -
  have p: "prepare g content q = Inr r" and "\<exists>m n. artifact_put (fst rivals) (es_artifacts s) content = (Inr (rp_artifact_digest r), m) \<and>
      assert_existing_artifact m r = Inr () \<and> receipt_put (snd rivals) (es_receipts s) r = (Inr (), n) \<and>
      s' = \<lparr>es_artifacts = m, es_receipts = n\<rparr>"
    using assms by (auto simp: ingest_bytes_def bindE_eq_Inr_iff split: sum.splits prod.splits if_splits)
  moreover have "rp_artifact_digest r = sha256_hex content"
    using p by (intro request_receipt_digest prepare_request)
  ultimately show "prepare g content q = Inr r"
    "artifact_put (fst rivals) (es_artifacts s) content = (Inr (sha256_hex content), es_artifacts s')"
    "assert_existing_artifact (es_artifacts s') r = Inr ()"
    "receipt_put (snd rivals) (es_receipts s) r = (Inr (), es_receipts s')" by auto
qed

lemma ingest_bytes_InrI:
  assumes "prepare g content q = Inr r" "artifact_put (fst rivals) (es_artifacts s) content = (Inr (sha256_hex content), m)"
    "assert_existing_artifact m r = Inr ()"
  shows "ingest_bytes rivals g s content q =
    (case receipt_put (snd rivals) (es_receipts s) r of (x, n) \<Rightarrow> (bindE x (\<lambda>_. Inr r), \<lparr>es_artifacts = m, es_receipts = n\<rparr>))"
  using assms request_receipt_digest(1) [OF prepare_request [OF assms(1)]] by (simp add: ingest_bytes_def)

lemma prepare_ok:
  assumes "prepare g content q = Inr r" "receipt_text r" "dt_ok (iq_captured_at q)" "case_option True reference_ok (iq_provenance_ref q)"
  shows "receipt_ok r"
proof -
  have req: "request_receipt g content q = Inr r" using assms(1) by (rule prepare_request)
  show ?thesis
    using req receipt_text_dict_ok [OF assms(2)] assms(3,4) request_receipt_digest(3) [OF req]
    unfolding request_receipt_def by (elim make_receipt_ok) simp_all
qed

text \<open>
  C21: what is ingested verifies. After a successful ingestion, whatever other processes linked meanwhile, the
  receipt passes verification against the store that holds it; its address reads back the ingested content, or
  another content of the same size and digest; and ingesting the same content again returns the same receipt
  and leaves the store as it is.
\<close>

theorem ingest_verifies:
  assumes "ingest_bytes rivals g s content q = (Inr r, s')" "receipt_text r"
    "dt_ok (iq_captured_at q)" "case_option True reference_ok (iq_provenance_ref q)"
  shows "verify_ingested s' r = Inr () \<and>
    (\<exists>b. artifact_get (es_artifacts s') (rp_artifact_digest r) = Inr b \<and> length b = length content \<and>
       (b = content \<or> collision b content)) \<and>
    (\<forall>rivals'. ingest_bytes rivals' g s' content q = (Inr r, s'))"
proof -
  note parts = ingest_bytes_Inr [OF assms(1)]
  note req = request_receipt_digest [OF prepare_request [OF parts(1)]]
  have "receipt_ok r" using parts(1) assms(2-4) by (rule prepare_ok)
  with parts(4) assms(2) obtain p where p: "receipt_get (es_receipts s') (rp_receipt_id r) = Inr p" "same_receipt p r"
    using receipt_put_reads by blast
  obtain b where b: "artifact_get (es_artifacts s') (sha256_hex content) = Inr b" "length b = length content"
    using parts(3) by (auto simp: assert_existing_artifact_def bindE_eq_Inr_iff req)
  then have "sha256_hex b = sha256_hex content" by (simp add: artifact_get_Inr)
  then have "b = content \<or> collision b content" by (auto simp: collision_def)
  moreover have "ingest_bytes rivals' g s' content q = (Inr r, s')" for rivals'
    using ingest_bytes_InrI [where rivals = rivals', OF parts(1) artifact_put_present [OF b(1)] parts(3)] receipt_put_present [OF p(1)] p(2) by simp
  moreover have "verify_ingested s' r = Inr ()"
    using p parts(3) by (simp add: verify_ingested_def)
  ultimately show ?thesis using b by (auto simp: req)
qed

section \<open>Governance\<close>

lemma redact_jdict:
  "fst (redact_value subn casefold p path (jdict m)) =
     jdict (map (\<lambda>(k, v). (k, if secret_key casefold p k then pp_replacement p
       else fst (apply_rules subn (pp_rules p) (path @ [k]) v))) (sorted_items m))"
  unfolding jdict_def redact_value.simps Let_def fst_conv sorted_items_def
  by (simp add: sorted_items_map [unfolded sorted_items_def] comp_def case_prod_beta split: prod.splits)

lemma ingested_metadata_redacted:
  "jdict (ingested_metadata (Some g) m) = fst (redact_metadata (pr_subn g) (pr_casefold g) (pr_privacy g) m)"
  by (simp add: ingested_metadata_def redact_metadata_def redact_jdict)
    (simp add: jdict_def comp_def case_prod_beta)

lemma admit_receipt_Inr:
  assumes "admit_receipt g r v = Inr ()" "governance_policy_ok (pr_governance g)"
  shows "rank v \<le> rank (gp_storage_max (pr_governance g))"
proof -
  from assms(1) obtain item m d where item: "to_evidence_item r v = Inr item"
    and m: "evaluate_evidence_governance m (pr_governance g) = Inr d" "em_items m = [item]" "gd_storage_allowed d"
    by (fastforce simp: admit_receipt_def receipt_manifest_def bindE_eq_Inr_iff construct_Inr_iff)
  have v: "ei_sensitivity item = v" and i: "evidence_item_post_init item = Inr ()"
    using item by (auto simp: to_evidence_item_def Let_def construct_Inr_iff)
  then have known: "v \<in> set sensitivities" by (auto simp: evidence_item_post_init_def sensitivities_def sensitivity_order_def)
  from m show ?thesis
    using governance_policy_known [OF assms(2)] known v
    by (auto simp: evaluate_evidence_governance_def bindE_eq_Inr_iff govern_item_def exceeds_known Let_def split: if_splits)
qed

text \<open>What a refused ingestion leaves: nothing, unless it was refused after the artifact was stored.\<close>

lemma ingest_bytes_frame:
  assumes "ingest_bytes rivals g s content q = (x, s')"
  shows "es_artifacts s k = Some b \<Longrightarrow> es_artifacts s' k = Some b"
    and "map_of (es_receipts s) i = Some b \<Longrightarrow> map_of (es_receipts s') i = Some b"
  using assms receipt_put_keeps [of "snd rivals" "es_receipts s"]
  by (auto simp: ingest_bytes_def artifact_put_def Let_def path_for_sha split: sum.splits prod.splits option.splits if_splits)

lemma ingest_bytes_changes:
  assumes "ingest_bytes rivals g s content q = (x, s')" "s' \<noteq> s"
  shows "\<exists>r. prepare g content q = Inr r"
  using assms by (auto simp: ingest_bytes_def split: sum.splits)

lemma ingest_bytes_new_receipt:
  assumes "ingest_bytes (rival, None) g s content q = (x, s')" "map_of (es_receipts s) i = None" "map_of (es_receipts s') i = Some b"
  shows "\<exists>r. prepare g content q = Inr r \<and> b = indented (JObj (receipt_to_dict r))"
  using assms
  by (auto simp: ingest_bytes_def receipt_put_def Let_def split: sum.splits prod.splits option.splits if_splits)

text \<open>
  C24: nothing reaches the stores unless the governance policy admits its sensitivity, and nothing stored is ever
  overwritten: an ingestion that changes the stores at all has a receipt of a sensitivity within the storage
  ceiling; every artifact and receipt file already there stays as it is, whatever the outcome; and the metadata
  of a receipt file the ingestion writes have been through redaction, so under a key of the policy there is
  only the replacement.
\<close>

theorem ingestion_governed:
  assumes "ingest_bytes (rival, None) (Some g) s content q = (x, s')" "governance_policy_ok (pr_governance g)"
  shows "(s' \<noteq> s \<longrightarrow> rank (iq_sensitivity q) \<le> rank (gp_storage_max (pr_governance g))) \<and>
    (\<forall>k b. es_artifacts s k = Some b \<longrightarrow> es_artifacts s' k = Some b) \<and>
    (\<forall>k b. map_of (es_receipts s) k = Some b \<longrightarrow> map_of (es_receipts s') k = Some b) \<and>
    (\<forall>k b. map_of (es_receipts s) k = None \<and> map_of (es_receipts s') k = Some b \<longrightarrow>
       (\<exists>r. b = indented (JObj (receipt_to_dict r)) \<and> rp_artifact_digest r = sha256_hex content \<and>
          clean (pr_casefold g) (pr_privacy g) (jdict (rp_metadata r))))"
proof (intro conjI allI impI)
  assume "s' \<noteq> s"
  with assms(1) obtain r where "prepare (Some g) content q = Inr r" using ingest_bytes_changes by blast
  then have "admit_receipt g r (iq_sensitivity q) = Inr ()" by (auto simp: prepare_def bindE_eq_Inr_iff)
  then show "rank (iq_sensitivity q) \<le> rank (gp_storage_max (pr_governance g))"
    using assms(2) by (rule admit_receipt_Inr)
next
  fix k b assume "map_of (es_receipts s) k = None \<and> map_of (es_receipts s') k = Some b"
  then obtain r where r: "prepare (Some g) content q = Inr r" "b = indented (JObj (receipt_to_dict r))"
    using ingest_bytes_new_receipt [OF assms(1)] by blast
  note req = request_receipt_digest [OF prepare_request [OF r(1)]]
  show "\<exists>r. b = indented (JObj (receipt_to_dict r)) \<and> rp_artifact_digest r = sha256_hex content \<and>
      clean (pr_casefold g) (pr_privacy g) (jdict (rp_metadata r))"
    using r(2) req(1,3) by (intro exI [of _ r]) (simp add: ingested_metadata_redacted redact_metadata_def redact_clean)
qed (use ingest_bytes_frame [OF assms(1)] in auto)

section \<open>Two captures of one occurrence\<close>

lemma same_receipt_look:
  assumes "same_receipt r s" "receipt_text r" "receipt_text s"
  shows "rp_artifact_digest r = rp_artifact_digest s" "utc_iso (rp_captured_at r) = utc_iso (rp_captured_at s)"
proof -
  have "map_option sort_keys (map_of (receipt_to_dict r) k) = map_option sort_keys (map_of (receipt_to_dict s) k)" for k
  proof -
    have "sorted_payload (receipt_to_dict r) = sorted_payload (receipt_to_dict s)"
      using assms(1) by (simp add: same_receipt_def sort_keys_JObj del: sort_keys.simps)
    then show ?thesis
      using storedD [OF stored_written] assms(2,3) unfolding receipt_text_def by metis
  qed
  from this [of "''artifact_digest''"] this [of "''captured_at''"]
  show "rp_artifact_digest r = rp_artifact_digest s" "utc_iso (rp_captured_at r) = utc_iso (rp_captured_at s)"
    by (simp_all add: receipt_to_dict_def receipt_payload_def identity_payload_def)
qed

lemma request_receipt_recaptured:
  assumes "request_receipt g content q = Inr r" "tz_aware t"
  shows "\<exists>r'. request_receipt g content (q\<lparr>iq_captured_at := t\<rparr>) = Inr r' \<and> rp_receipt_id r' = rp_receipt_id r \<and>
    r' = r\<lparr>rp_captured_at := t, rp_digest := rp_digest r'\<rparr> \<and> is_sha256 (rp_digest r')"
  using assms
  by (auto simp: request_receipt_def make_receipt_Inr_iff receipt_guards_def computed_receipt_id_def occurrence_payload_def
      identity_payload_def receipt_computed_digest_def split: option.splits)

lemma request_receipt_other_content:
  assumes "request_receipt g content q = Inr r" "iq_source_event_id q = Some e"
  shows "\<exists>r'. request_receipt g content' q = Inr r' \<and> rp_receipt_id r' = rp_receipt_id r \<and> is_sha256 (rp_digest r') \<and>
    r' = r\<lparr>rp_artifact_digest := sha256_hex content', rp_artifact_size := int (length content'), rp_digest := rp_digest r'\<rparr>"
  using assms
  by (auto simp: request_receipt_def make_receipt_Inr_iff receipt_guards_def computed_receipt_id_def occurrence_payload_def
      identity_payload_def receipt_computed_digest_def split: option.splits)

lemma admit_receipt_recaptured: "admit_receipt g (r\<lparr>rp_captured_at := t, rp_digest := d\<rparr>) v = admit_receipt g r v"
  by (simp add: admit_receipt_def to_evidence_item_def receipt_manifest_def)

lemma to_evidence_item_other_content:
  assumes "to_evidence_item r v = Inr i" "is_sha256 h"
  shows "to_evidence_item (r\<lparr>rp_artifact_digest := h, rp_artifact_size := n, rp_digest := d\<rparr>) v =
    Inr (i\<lparr>ei_digest := Some h, ei_content_ref := Some (''cas:'' @ h)\<rparr>)"
  using assms by (simp add: to_evidence_item_def Let_def construct_Inr_iff)
    (auto simp: construct_def evidence_item_post_init_def)

lemma govern_other_content:
  assumes "evaluate_evidence_governance (receipt_manifest r i) p = Inr d" "gd_storage_allowed d" "h \<noteq> []"
  shows "\<exists>d. evaluate_evidence_governance (receipt_manifest r (i\<lparr>ei_digest := Some h, ei_content_ref := c\<rparr>)) p = Inr d \<and>
    gd_storage_allowed d"
proof -
  obtain b where "exceeds (ei_sensitivity i) (gp_storage_max p) = Inr False" "exceeds (ei_sensitivity i) (gp_telemetry_max p) = Inr b"
    using assms by (auto simp: receipt_manifest_def evaluate_evidence_governance_def govern_item_def bindE_eq_Inr_iff Let_def split: if_splits)
  with \<open>h \<noteq> []\<close> show ?thesis
    by (simp add: receipt_manifest_def evaluate_evidence_governance_def govern_item_def opt_or_def)
qed

lemma admit_receipt_other_content:
  assumes "admit_receipt g r v = Inr ()" "is_sha256 h"
  shows "admit_receipt g (r\<lparr>rp_artifact_digest := h, rp_artifact_size := n, rp_digest := d\<rparr>) v = Inr ()"
proof -
  obtain i e where i: "to_evidence_item r v = Inr i"
    and m: "evidence_manifest_post_init (receipt_manifest r i) = Inr ()"
    and e: "evaluate_evidence_governance (receipt_manifest r i) (pr_governance g) = Inr e" "gd_storage_allowed e"
    using assms(1) by (auto simp: admit_receipt_def bindE_eq_Inr_iff construct_Inr_iff)
  let ?i = "i\<lparr>ei_digest := Some h, ei_content_ref := Some (''cas:'' @ h)\<rparr>"
  have "h \<noteq> []" using assms(2) by (auto simp: is_sha256_def)
  from govern_other_content [OF e this] obtain e'
    where "evaluate_evidence_governance (receipt_manifest r ?i) (pr_governance g) = Inr e'" "gd_storage_allowed e'" by blast
  moreover have "evidence_manifest_post_init (receipt_manifest r ?i) = Inr ()"
    using m by (simp add: evidence_manifest_post_init_def receipt_manifest_def)
  moreover have "receipt_manifest (r\<lparr>rp_artifact_digest := h, rp_artifact_size := n, rp_digest := d\<rparr>) = receipt_manifest r"
    by (rule ext) (simp add: receipt_manifest_def)
  ultimately show ?thesis
    unfolding admit_receipt_def to_evidence_item_other_content [OF i assms(2)] by (simp add: construct_def)
qed

lemma receipt_text_changed:
  assumes "receipt_text r" "tz_aware t" "dt_ok t" "is_sha256 d" "is_sha256 h"
  shows "receipt_text (r\<lparr>rp_captured_at := t, rp_digest := d\<rparr>)"
    "receipt_text (r\<lparr>rp_artifact_digest := h, rp_artifact_size := n, rp_digest := d\<rparr>)"
proof -
  have "utf8_ok (utc_iso t)" using assms(2,3) utf8_ok_utc_iso by (cases t) (auto simp: dt_ok_def)
  then show "receipt_text (r\<lparr>rp_captured_at := t, rp_digest := d\<rparr>)"
    "receipt_text (r\<lparr>rp_artifact_digest := h, rp_artifact_size := n, rp_digest := d\<rparr>)"
    using assms
    by (simp_all add: receipt_text_def receipt_to_dict_def receipt_payload_def identity_payload_def json_ok.simps(4) utf8_ok_sha256)
qed

lemma other_content_refused:
  assumes "prepare g content q = Inr r" "\<exists>e. receipt_put rival (es_receipts s) r = (Inl e, es_receipts s)"
  shows "case ingest_bytes (None, rival) g s content q of (y, s') \<Rightarrow>
    \<not> is_ok y \<and> es_receipts s' = es_receipts s \<and> es_artifacts s' (sha256_hex content) \<noteq> None"
  using assms
  by (auto simp: ingest_bytes_def artifact_put_def Let_def opt_or_def split: sum.splits prod.splits option.splits if_splits)

text \<open>
  A second capture of an occurrence is refused, however it came about. Ingesting the same content again with a
  different capture time fails, also when no source event is named; another content for the same source event
  fails too, and then its artifact stays in the store without a receipt. The receipts are never changed.
\<close>

theorem recapture_rejected:
  assumes "ingest_bytes rivals g s content q = (Inr r, s')" "receipt_text r"
    "dt_ok (iq_captured_at q)" "case_option True reference_ok (iq_provenance_ref q)"
  shows "(tz_aware t \<and> dt_ok t \<and> utc_iso t \<noteq> utc_iso (iq_captured_at q) \<longrightarrow>
      ingest_bytes rivals' g s' content (q\<lparr>iq_captured_at := t\<rparr>) =
        (Inl (ValueError (if iq_source_event_id q \<noteq> None then ''source_event_id conflict'' else ''receipt identity collision'')), s')) \<and>
    (iq_source_event_id q \<noteq> None \<and> sha256_hex other \<noteq> sha256_hex content \<longrightarrow>
      (case ingest_bytes (None, rival) g s' other q of (y, s'') \<Rightarrow>
         \<not> is_ok y \<and> es_receipts s'' = es_receipts s' \<and> es_artifacts s'' (sha256_hex other) \<noteq> None))"
proof -
  note parts = ingest_bytes_Inr [OF assms(1)]
  note preq = prepare_request [OF parts(1)]
  note req = request_receipt_digest [OF preq]
  have "receipt_ok r" using parts(1) assms(2-4) by (rule prepare_ok)
  with parts(4) assms(2) obtain p where p: "receipt_get (es_receipts s') (rp_receipt_id r) = Inr p" "same_receipt p r"
    using receipt_put_reads by blast
  have sens: "iq_sensitivity q \<in> set sensitivities"
    and admitted: "(case g of None \<Rightarrow> Inr () | Some g \<Rightarrow> admit_receipt g r (iq_sensitivity q)) = Inr ()"
    using parts(1) by (auto simp: prepare_def bindE_eq_Inr_iff)
  have aware: "tz_aware (iq_captured_at q)" using \<open>receipt_ok r\<close> by (simp add: receipt_ok_def receipt_guards_def req(4))
  show ?thesis
  proof (intro conjI impI)
    assume t: "tz_aware t \<and> dt_ok t \<and> utc_iso t \<noteq> utc_iso (iq_captured_at q)"
    with request_receipt_recaptured [OF preq] obtain r' where r': "request_receipt g content (q\<lparr>iq_captured_at := t\<rparr>) = Inr r'"
      "rp_receipt_id r' = rp_receipt_id r" "r' = r\<lparr>rp_captured_at := t, rp_digest := rp_digest r'\<rparr>" "is_sha256 (rp_digest r')"
      by blast
    note req' = request_receipt_digest [OF r'(1)]
    have "case_option True (\<lambda>g. admit_receipt g r' (iq_sensitivity q) = Inr ()) g"
      using admitted admit_receipt_recaptured by (subst r'(3)) (auto split: option.splits)
    then have prep: "prepare g content (q\<lparr>iq_captured_at := t\<rparr>) = Inr r'"
      using sens r'(1) by (simp add: prepare_def split: option.splits)
    have "receipt_text r'"
      using receipt_text_changed(1) [OF assms(2), of t "rp_digest r'"] t r'(3,4) by simp
    with t same_receipt_look(2) [of r r'] assms(2) have "\<not> same_receipt p r'"
      using p(2) by (auto simp: same_receipt_def req(4) req'(4))
    then have put: "receipt_put (snd rivals') (es_receipts s') r' =
      (Inl (ValueError (if iq_source_event_id q \<noteq> None then ''source_event_id conflict'' else ''receipt identity collision'')), es_receipts s')"
      using receipt_put_present [of "es_receipts s'" r' p] p(1) r'(2) req'(6) by simp
    obtain b where b: "artifact_get (es_artifacts s') (sha256_hex content) = Inr b"
      using parts(3) by (auto simp: assert_existing_artifact_def bindE_eq_Inr_iff req)
    have "assert_existing_artifact (es_artifacts s') r' = Inr ()"
      using parts(3) by (simp add: assert_existing_artifact_def req(1,2) req'(1,2))
    from ingest_bytes_InrI [where rivals = rivals', OF prep artifact_put_present [OF b] this] put
    show "ingest_bytes rivals' g s' content (q\<lparr>iq_captured_at := t\<rparr>) =
        (Inl (ValueError (if iq_source_event_id q \<noteq> None then ''source_event_id conflict'' else ''receipt identity collision'')), s')"
      by simp
  next
    assume o: "iq_source_event_id q \<noteq> None \<and> sha256_hex other \<noteq> sha256_hex content"
    with request_receipt_other_content [OF preq] obtain r' where r': "request_receipt g other q = Inr r'"
      "rp_receipt_id r' = rp_receipt_id r" "is_sha256 (rp_digest r')"
      "r' = r\<lparr>rp_artifact_digest := sha256_hex other, rp_artifact_size := int (length other), rp_digest := rp_digest r'\<rparr>"
      by blast
    note req' = request_receipt_digest [OF r'(1)]
    have "case_option True (\<lambda>g. admit_receipt g r' (iq_sensitivity q) = Inr ()) g"
      using admitted admit_receipt_other_content [of _ r "iq_sensitivity q" "sha256_hex other"]
      by (subst r'(4)) (auto split: option.splits)
    then have prep: "prepare g other q = Inr r'"
      using sens r'(1) by (simp add: prepare_def split: option.splits)
    have "receipt_text r'"
      by (subst r'(4)) (rule receipt_text_changed(2) [OF assms(2) aware assms(3) r'(3)], simp)
    with o same_receipt_look(1) [of r r'] assms(2) have "\<not> same_receipt p r'"
      using p(2) by (auto simp: same_receipt_def req(1) req'(1))
    then have put: "\<exists>e. receipt_put rival (es_receipts s') r' = (Inl e, es_receipts s')"
      using receipt_put_present [of "es_receipts s'" r' p] p(1) r'(2) by simp
    show "case ingest_bytes (None, rival) g s' other q of (y, s'') \<Rightarrow>
         \<not> is_ok y \<and> es_receipts s'' = es_receipts s' \<and> es_artifacts s'' (sha256_hex other) \<noteq> None"
      by (rule other_content_refused [OF prep]) (use put in simp_all)
  qed
qed

section \<open>Witnesses\<close>

definition sample_request :: ingest_request where
  "sample_request = \<lparr>iq_producer_type = ''ci'', iq_producer_id = ''p'', iq_source_ref = ''build'', iq_captured_at = Aware 5,
     iq_producer_version = None, iq_source_event_id = None, iq_run_id = None, iq_metadata = [(''token'', ''x'')],
     iq_provenance_ref = None, iq_sensitivity = ''internal''\<rparr>"

definition empty_store :: evidence_store where
  "empty_store = \<lparr>es_artifacts = (\<lambda>_. None), es_receipts = []\<rparr>"

lemma receipt_keys_utf8:
  "list_all utf8_ok [''format_version'', ''1'', ''producer_type'', ''producer_id'', ''producer_version'', ''source_ref'', ''source_event_id'', ''artifact_digest'', ''artifact_size'', ''run_id'', ''provenance_ref'', ''metadata'', ''captured_at'', ''receipt_id'', ''digest'']"
  by code_simp

lemma receipt_text_iff:
  "receipt_text r \<longleftrightarrow>
     list_all utf8_ok [rp_producer_type r, rp_producer_id r, rp_source_ref r, rp_artifact_digest r, utc_iso (rp_captured_at r),
       rp_receipt_id r, rp_digest r] \<and>
     list_all (json_ok utf8_ok) [jopt_str (rp_producer_version r), jopt_str (rp_source_event_id r), jopt_str (rp_run_id r),
       jopt jref (rp_provenance_ref r), jdict (sorted_items (rp_metadata r))]"
  using receipt_keys_utf8
  by (auto simp: receipt_text_def receipt_to_dict_def receipt_payload_def identity_payload_def json_ok.simps(4))

definition sample_fields :: receipt where
  "sample_fields = \<lparr>rp_producer_type = ''ci'', rp_producer_id = ''p'', rp_artifact_digest = sha256_hex ''x'', rp_artifact_size = 1,
     rp_captured_at = Aware 5, rp_source_ref = ''build'', rp_source_event_id = None, rp_producer_version = None,
     rp_run_id = None, rp_provenance_ref = None, rp_metadata = [(''token'', ''x'')], rp_receipt_id = [], rp_digest = []\<rparr>"

lemma sample_fields_guards: "receipt_guards sample_fields = Inr ()"
  by (simp add: receipt_guards_def sample_fields_def blank_if_given_def kind_not_in_def)

lemma sample_fields_text:
  "list_all utf8_ok [''ci'', ''p'', ''build'', utc_iso (Aware 5)]"
  "list_all (json_ok utf8_ok) [jopt_str None, jopt jref None, jdict (sorted_items [(''token'', ''x'')])]"
  by code_simp+

lemma sample_prepared: "\<exists>r. prepare None ''x'' sample_request = Inr r \<and> receipt_text r"
proof -
  obtain r where r: "make_receipt sample_fields = Inr r" and
    parts: "r = sample_fields\<lparr>rp_receipt_id := rp_receipt_id r, rp_digest := rp_digest r\<rparr>"
      "is_sha256 (rp_receipt_id r)" "is_sha256 (rp_digest r)"
    using sample_fields_guards
    by (auto simp: make_receipt_Inr_iff computed_receipt_id_def receipt_computed_digest_def) (simp_all add: sample_fields_def)
  have "receipt_text (sample_fields\<lparr>rp_receipt_id := rp_receipt_id r, rp_digest := rp_digest r\<rparr>)"
    using parts(2,3) sample_fields_text by (simp add: receipt_text_iff utf8_ok_sha256 sample_fields_def)
  then have "receipt_text r" using parts(1) by simp
  moreover have "request_receipt None ''x'' sample_request = Inr r"
    using r by (simp add: request_receipt_def sample_request_def sample_fields_def ingested_metadata_def)
  moreover have "''internal'' \<in> set sensitivities" by code_simp
  ultimately show ?thesis by (auto simp: prepare_def sample_request_def)
qed

lemma sample_ingested: "\<exists>r s. ingest_bytes (None, None) None empty_store ''x'' sample_request = (Inr r, s) \<and> receipt_text r"
proof -
  obtain r where r: "prepare None ''x'' sample_request = Inr r" "receipt_text r" using sample_prepared by blast
  note req = request_receipt_digest [OF prepare_request [OF r(1)]]
  have "assert_existing_artifact [sha256_hex ''x'' \<mapsto> ''x''] r = Inr ()"
    by (simp add: assert_existing_artifact_def artifact_get_def req)
  then have "ingest_bytes (None, None) None empty_store ''x'' sample_request =
    (Inr r, \<lparr>es_artifacts = [sha256_hex ''x'' \<mapsto> ''x''], es_receipts = [(receipt_file (rp_receipt_id r), indented (JObj (receipt_to_dict r)))]\<rparr>)"
    by (subst ingest_bytes_InrI [OF r(1)]) (simp_all add: empty_store_def artifact_put_def opt_or_def receipt_put_def Let_def)
  with r(2) show ?thesis by blast
qed

lemma ingest_verifies_witness:
  "\<exists>r s. ingest_bytes (None, None) None empty_store ''x'' sample_request = (Inr r, s) \<and> verify_ingested s r = Inr ()"
proof -
  obtain r s where i: "ingest_bytes (None, None) None empty_store ''x'' sample_request = (Inr r, s)" "receipt_text r"
    using sample_ingested by blast
  have "dt_ok (iq_captured_at sample_request)" "case_option True reference_ok (iq_provenance_ref sample_request)" by code_simp+
  from ingest_verifies [OF i this] have "verify_ingested s r = Inr ()" by simp
  with i(1) show ?thesis by blast
qed

lemma recapture_rejected_witness:
  "\<exists>r s. ingest_bytes (None, None) None empty_store ''x'' sample_request = (Inr r, s) \<and>
     ingest_bytes (None, None) None s ''x'' (sample_request\<lparr>iq_captured_at := Aware 6\<rparr>) =
       (Inl (ValueError ''receipt identity collision''), s)"
proof -
  obtain r s where i: "ingest_bytes (None, None) None empty_store ''x'' sample_request = (Inr r, s)" "receipt_text r"
    using sample_ingested by blast
  have "utc_iso (Aware 6) \<noteq> utc_iso (Aware 5)" "dt_ok (Aware 5)" "dt_ok (Aware 6)" by code_simp+
  with recapture_rejected [OF i, where t = "Aware 6" and rivals' = "(None, None)"] i(1) show ?thesis
    by (auto simp: sample_request_def)
qed

definition public_only :: privacy_runtime where
  "public_only = \<lparr>pr_subn = (\<lambda>_ _ v. (v, 0)), pr_casefold = id,
     pr_privacy = \<lparr>pp_policy_id = ''p'', pp_redact_keys = default_redact_keys, pp_rules = [], pp_replacement = ''x''\<rparr>,
     pr_governance = \<lparr>gp_policy_id = ''p'', gp_storage_max = ''public'', gp_telemetry_max = ''public'', gp_require_digest_for = []\<rparr>\<rparr>"

lemma ingestion_governed_witness:
  "snd (ingest_bytes (None, None) (Some public_only) empty_store ''x'' sample_request) = empty_store"
proof -
  obtain y s where i: "ingest_bytes (None, None) (Some public_only) empty_store ''x'' sample_request = (y, s)"
    by (cases "ingest_bytes (None, None) (Some public_only) empty_store ''x'' sample_request")
  have "governance_policy_ok (pr_governance public_only)" by code_simp
  moreover have "\<not> rank (iq_sensitivity sample_request) \<le> rank (gp_storage_max (pr_governance public_only))" by code_simp
  ultimately show ?thesis using ingestion_governed [OF i] i by simp
qed

end
