(* ===== verification/AIContracts.thy ===== *)
theory AIContracts
  imports ClaimProfile AttestationTrust Evidence Lines
begin

text \<open>
  \<open>ai_contracts/*.py\<close>: the typed evidence of prompts, retrievals, model and tool calls, runtime traces, policies,
  evaluators, observations and human approvals, and its references as \<open>integrations/base.py\<close> issues them. A
  contract checks that a time is in UTC, so a \<open>datetime\<close> has its \<open>utcoffset\<close> here.
\<close>

section \<open>Primitives\<close>

text \<open>\<open>Zoned t off\<close> is the instant \<open>t\<close> with the offset \<open>off\<close> from UTC, in microseconds.\<close>

datatype stamp = Plain int | Zoned int int

fun stamp_datetime :: "stamp \<Rightarrow> datetime" where
  "stamp_datetime (Plain t) = Naive t"
| "stamp_datetime (Zoned t off) = Aware t"

text \<open>\<open>datetime.fromisoformat(value.replace("Z", "+00:00"))\<close>, keeping the offset.\<close>

definition stamp_fromisoformat :: "string \<Rightarrow> stamp result" where
  "stamp_fromisoformat s =
     (case p_date s of
        None \<Rightarrow> Inl (ValueError ''isoformat'')
      | Some (n, []) \<Rightarrow> Inr (Plain (n * day_us))
      | Some (n, _ # r) \<Rightarrow>
          (case p_clock r of
             None \<Rightarrow> Inl (ValueError ''isoformat'')
           | Some (u, r') \<Rightarrow>
               (case p_offset r' of
                  None \<Rightarrow> Inl (ValueError ''isoformat'')
                | Some None \<Rightarrow> Inr (Plain (n * day_us + u))
                | Some (Some off) \<Rightarrow> Inr (Zoned (n * day_us + u - off) off))))"

definition require_non_empty :: "string \<Rightarrow> string \<Rightarrow> unit result" where
  "require_non_empty value field = guards [(blank value, ValueError field)]"

text \<open>The loop over the names of the required fields.\<close>

definition require_fields :: "(string \<times> string) list \<Rightarrow> unit result" where
  "require_fields fs = guards (map (\<lambda>(field, value). (blank value, ValueError field)) fs)"

definition require_optional :: "string option \<Rightarrow> string \<Rightarrow> unit result" where
  "require_optional value field = (case value of None \<Rightarrow> Inr () | Some v \<Rightarrow> require_non_empty v field)"

definition require_optional_reason :: "string option \<Rightarrow> string option \<Rightarrow> string \<Rightarrow> unit result" where
  "require_optional_reason value reason field =
     guards [(value = None \<and> (case reason of None \<Rightarrow> True | Some r \<Rightarrow> blank r), ValueError field)]"

text \<open>The conversion to UTC raises \<open>OverflowError\<close> for an instant outside the years of the calendar.\<close>

definition require_utc_datetime :: "stamp \<Rightarrow> string \<Rightarrow> unit result" where
  "require_utc_datetime value field =
     (case value of
        Plain _ \<Rightarrow> Inl (ValueError field)
      | Zoned t off \<Rightarrow>
          if \<not> in_range t then Inl (OverflowError ''date value out of range'')
          else guards [(off \<noteq> 0, ValueError field)])"

text \<open>\<open>isoformat().replace("+00:00", "Z")\<close>: the offset is at the end and occurs nowhere else.\<close>

definition datetime_to_json :: "stamp \<Rightarrow> string result" where
  "datetime_to_json value =
     bindE (require_utc_datetime value ''datetime'') (\<lambda>_. Inr (iso_naive (instant (stamp_datetime value)) @ ''Z''))"

definition json_mapping :: "payload \<Rightarrow> string \<Rightarrow> payload result" where
  "json_mapping value field =
     bindE (mapE (\<lambda>(k, v).
         bindE (require_non_empty k field) (\<lambda>_.
         bindE (require_value v (field @ ''.'' @ k)) (\<lambda>w. Inr (k, w)))) value)
       (\<lambda>kvs. Inr (sorted_items (dict_of kvs)))"

definition contract_bytes :: "payload \<Rightarrow> string" where
  "contract_bytes payload = canonical_ascii (JObj payload)"

definition contract_digest :: "payload \<Rightarrow> string" where
  "contract_digest payload = sha256_hex (contract_bytes payload)"

definition evidence_item_from_payload ::
    "payload \<Rightarrow> string \<Rightarrow> string \<Rightarrow> string \<Rightarrow> string option \<Rightarrow> string \<Rightarrow> evidence_item result" where
  "evidence_item_from_payload payload contract_type producer_id run_id evidence_id sensitivity =
     (let digest = contract_digest payload;
          generated = ''ai-contract:'' @ contract_type @ '':'' @ run_id @ '':'' @ take 16 digest
      in construct evidence_item_post_init
        \<lparr>ei_evidence_id = (if opt_or evidence_id [] = [] then generated else opt_or evidence_id []),
         ei_source = ''statewake.ai_contracts.'' @ contract_type,
         ei_digest = Some digest, ei_content_ref = None,
         ei_metadata = [(''contract_type'', contract_type), (''producer_id'', producer_id), (''run_id'', run_id)],
         ei_sensitivity = sensitivity\<rparr>)"

text \<open>The arguments every contract passes.\<close>

definition contract_item :: "string \<Rightarrow> payload result \<Rightarrow> string \<Rightarrow> string \<Rightarrow> evidence_item result" where
  "contract_item contract_type payload producer_id run_id =
     bindE payload (\<lambda>d. evidence_item_from_payload d contract_type producer_id run_id None ''internal'')"

definition schema_version :: string where
  "schema_version = ''statewake.ai_contract.v1''"

definition contract_head :: "string \<Rightarrow> string \<Rightarrow> string \<Rightarrow> string \<Rightarrow> payload" where
  "contract_head contract_type version producer_id run_id = [
     (''schema_version'', JStr schema_version), (''contract_type'', JStr contract_type),
     (''contract_version'', JStr version), (''producer_id'', JStr producer_id), (''run_id'', JStr run_id)]"

text \<open>\<open>self.metadata or {}\<close>\<close>

definition metadata_of :: "payload option \<Rightarrow> payload result" where
  "metadata_of metadata = json_mapping (opt_or metadata []) ''metadata''"

definition check_mapping :: "payload \<Rightarrow> string \<Rightarrow> unit result" where
  "check_mapping value field = bindE (json_mapping value field) (\<lambda>_. Inr ())"

section \<open>Serialized contracts\<close>

definition contract_from_json_bytes :: "string \<Rightarrow> payload result" where
  "contract_from_json_bytes content =
     (if utf8_ok content then loads_object content ''ai_contract'' else Inl (UnicodeDecodeError ''ai_contract''))"

definition required_base_fields :: "string list" where
  "required_base_fields =
     [''schema_version'', ''contract_type'', ''contract_version'', ''producer_id'', ''run_id'', ''captured_at'']"

definition validate_contract_payload :: "payload \<Rightarrow> unit result" where
  "validate_contract_payload d =
     bindE (guards [
       (missing_fields d required_base_fields \<noteq> [], ValueError ''missing''),
       (map_of d ''schema_version'' \<noteq> Some (JStr schema_version), ValueError ''schema_version'')]) (\<lambda>_.
     guards (map (\<lambda>k. (case map_of d k of Some (JStr v) \<Rightarrow> blank v | _ \<Rightarrow> True, ValueError k))
       [''contract_type'', ''contract_version'', ''producer_id'', ''run_id'']))"

section \<open>Prompts\<close>

record prompt_contract =
  pc_contract_version :: string
  pc_producer_id :: string
  pc_run_id :: string
  pc_source :: string
  pc_captured_at :: stamp
  pc_template_id :: "string option"
  pc_template_version :: "string option"
  pc_rendered_digest :: "string option"
  pc_variables_digest :: "string option"
  pc_redaction_policy_id :: "string option"
  pc_metadata :: payload

definition prompt_post_init :: "prompt_contract \<Rightarrow> unit result" where
  "prompt_post_init c =
     bindE (require_fields [(''contract_version'', pc_contract_version c), (''producer_id'', pc_producer_id c),
       (''run_id'', pc_run_id c), (''source'', pc_source c)]) (\<lambda>_.
     bindE (require_utc_datetime (pc_captured_at c) ''captured_at'') (\<lambda>_.
     bindE (guards [(pc_template_id c = None \<and> pc_rendered_digest c = None, ValueError ''prompt evidence'')]) (\<lambda>_.
     bindE (require_optional (pc_template_id c) ''prompt_template_id'') (\<lambda>_.
     bindE (require_optional (pc_template_version c) ''prompt_template_version'') (\<lambda>_.
     bindE (require_optional (pc_rendered_digest c) ''rendered_prompt_digest'') (\<lambda>_.
     bindE (require_optional (pc_variables_digest c) ''variables_digest'') (\<lambda>_.
     bindE (require_optional (pc_redaction_policy_id c) ''redaction_policy_id'') (\<lambda>_.
     check_mapping (pc_metadata c) ''metadata''))))))))"

definition prompt_to_dict :: "prompt_contract \<Rightarrow> payload result" where
  "prompt_to_dict c =
     bindE (datetime_to_json (pc_captured_at c)) (\<lambda>captured_at.
     bindE (json_mapping (pc_metadata c) ''metadata'') (\<lambda>metadata.
     Inr (contract_head ''prompt'' (pc_contract_version c) (pc_producer_id c) (pc_run_id c) @ [
       (''source'', JStr (pc_source c)), (''captured_at'', JStr captured_at),
       (''prompt_template_id'', jopt_str (pc_template_id c)),
       (''prompt_template_version'', jopt_str (pc_template_version c)),
       (''rendered_prompt_digest'', jopt_str (pc_rendered_digest c)),
       (''variables_digest'', jopt_str (pc_variables_digest c)),
       (''redaction_policy_id'', jopt_str (pc_redaction_policy_id c)),
       (''metadata'', JObj metadata)])))"

definition prompt_item :: "prompt_contract \<Rightarrow> evidence_item result" where
  "prompt_item c = contract_item ''prompt'' (prompt_to_dict c) (pc_producer_id c) (pc_run_id c)"

section \<open>Retrievals\<close>

record retrieval_contract =
  rv_contract_version :: string
  rv_producer_id :: string
  rv_run_id :: string
  rv_corpus_identity :: string
  rv_query_digest :: string
  rv_item_ids :: "string list"
  rv_chunk_digests :: "string list"
  rv_citation_boundary :: string
  rv_captured_at :: stamp
  rv_corpus_digest :: "string option"
  rv_corpus_snapshot_id :: "string option"
  rv_ranking_metadata :: "payload option"
  rv_metadata :: "payload option"

definition require_values :: "string \<Rightarrow> string list \<Rightarrow> unit result" where
  "require_values field values =
     bindE (guards [(values = [], ValueError field)]) (\<lambda>_. require_fields (map (\<lambda>v. (field, v)) values))"

definition retrieval_post_init :: "retrieval_contract \<Rightarrow> unit result" where
  "retrieval_post_init c =
     bindE (require_fields [(''contract_version'', rv_contract_version c), (''producer_id'', rv_producer_id c),
       (''run_id'', rv_run_id c), (''corpus_identity'', rv_corpus_identity c), (''query_digest'', rv_query_digest c),
       (''citation_boundary'', rv_citation_boundary c)]) (\<lambda>_.
     bindE (guards [(rv_corpus_digest c = None \<and> rv_corpus_snapshot_id c = None, ValueError ''retrieval evidence'')]) (\<lambda>_.
     bindE (require_values ''retrieved_item_ids'' (rv_item_ids c)) (\<lambda>_.
     bindE (require_values ''chunk_digests'' (rv_chunk_digests c)) (\<lambda>_.
     bindE (require_utc_datetime (rv_captured_at c) ''captured_at'') (\<lambda>_.
     bindE (check_mapping (opt_or (rv_ranking_metadata c) []) ''ranking_metadata'') (\<lambda>_.
     check_mapping (opt_or (rv_metadata c) []) ''metadata''))))))"

definition retrieval_to_dict :: "retrieval_contract \<Rightarrow> payload result" where
  "retrieval_to_dict c =
     bindE (json_mapping (opt_or (rv_ranking_metadata c) []) ''ranking_metadata'') (\<lambda>ranking_metadata.
     bindE (datetime_to_json (rv_captured_at c)) (\<lambda>captured_at.
     bindE (metadata_of (rv_metadata c)) (\<lambda>metadata.
     Inr (contract_head ''retrieval'' (rv_contract_version c) (rv_producer_id c) (rv_run_id c) @ [
       (''corpus_identity'', JStr (rv_corpus_identity c)),
       (''corpus_digest'', jopt_str (rv_corpus_digest c)),
       (''corpus_snapshot_id'', jopt_str (rv_corpus_snapshot_id c)),
       (''query_digest'', JStr (rv_query_digest c)),
       (''retrieved_item_ids'', jstrs (rv_item_ids c)),
       (''chunk_digests'', jstrs (rv_chunk_digests c)),
       (''ranking_metadata'', JObj ranking_metadata),
       (''citation_boundary'', JStr (rv_citation_boundary c)),
       (''captured_at'', JStr captured_at), (''metadata'', JObj metadata)]))))"

definition retrieval_item :: "retrieval_contract \<Rightarrow> evidence_item result" where
  "retrieval_item c = contract_item ''retrieval'' (retrieval_to_dict c) (rv_producer_id c) (rv_run_id c)"

section \<open>Model invocations\<close>

record model_contract =
  mi_contract_version :: string
  mi_producer_id :: string
  mi_run_id :: string
  mi_provider :: string
  mi_model_name :: string
  mi_parameters :: payload
  mi_request_digest :: string
  mi_response_digest :: string
  mi_captured_at :: stamp
  mi_model_version :: "string option"
  mi_omission_reason :: "string option"
  mi_finish_reason :: "string option"
  mi_metadata :: "payload option"

definition model_post_init :: "model_contract \<Rightarrow> unit result" where
  "model_post_init c =
     bindE (require_fields [(''contract_version'', mi_contract_version c), (''producer_id'', mi_producer_id c), (''run_id'', mi_run_id c), (''provider'', mi_provider c), (''model_name'', mi_model_name c), (''request_digest'', mi_request_digest c), (''response_digest'', mi_response_digest c)]) (\<lambda>_.
     bindE (require_optional_reason (mi_model_version c) (mi_omission_reason c) ''model_version'') (\<lambda>_.
     bindE (require_utc_datetime (mi_captured_at c) ''captured_at'') (\<lambda>_.
     bindE (check_mapping (mi_parameters c) ''parameters'') (\<lambda>_.
     check_mapping (opt_or (mi_metadata c) []) ''metadata''))))"

definition model_to_dict :: "model_contract \<Rightarrow> payload result" where
  "model_to_dict c =
     bindE (json_mapping (mi_parameters c) ''parameters'') (\<lambda>parameters.
     bindE (datetime_to_json (mi_captured_at c)) (\<lambda>captured_at.
     bindE (metadata_of (mi_metadata c)) (\<lambda>metadata.
     Inr (contract_head ''model_invocation'' (mi_contract_version c) (mi_producer_id c) (mi_run_id c) @ [
       (''provider'', JStr (mi_provider c)),
       (''model_name'', JStr (mi_model_name c)),
       (''model_version'', jopt_str (mi_model_version c)),
       (''model_version_omission_reason'', jopt_str (mi_omission_reason c)),
       (''parameters'', JObj parameters),
       (''request_digest'', JStr (mi_request_digest c)),
       (''response_digest'', JStr (mi_response_digest c)),
       (''finish_reason'', jopt_str (mi_finish_reason c)),
       (''captured_at'', JStr captured_at),
       (''metadata'', JObj metadata)]))))"

definition model_item :: "model_contract \<Rightarrow> evidence_item result" where
  "model_item c = contract_item ''model_invocation'' (model_to_dict c) (mi_producer_id c) (mi_run_id c)"

section \<open>Tool calls\<close>

record tool_contract =
  tc_contract_version :: string
  tc_producer_id :: string
  tc_run_id :: string
  tc_tool_name :: string
  tc_tool_schema :: string
  tc_input_digest :: string
  tc_output_digest :: string
  tc_execution_status :: string
  tc_side_effects :: string
  tc_captured_at :: stamp
  tc_authorization :: "string option"
  tc_metadata :: "payload option"

definition tool_post_init :: "tool_contract \<Rightarrow> unit result" where
  "tool_post_init c =
     bindE (require_fields [(''contract_version'', tc_contract_version c), (''producer_id'', tc_producer_id c), (''run_id'', tc_run_id c), (''tool_name'', tc_tool_name c), (''schema_version'', tc_tool_schema c), (''input_digest'', tc_input_digest c), (''output_digest'', tc_output_digest c), (''execution_status'', tc_execution_status c), (''side_effect_classification'', tc_side_effects c)]) (\<lambda>_.
     bindE (require_utc_datetime (tc_captured_at c) ''captured_at'') (\<lambda>_.
     bindE (guards [(tc_side_effects c \<noteq> ''none'' \<and> tc_authorization c = None, ValueError ''authorization_decision'')]) (\<lambda>_.
     bindE (require_optional (tc_authorization c) ''authorization_decision'') (\<lambda>_.
     check_mapping (opt_or (tc_metadata c) []) ''metadata''))))"

definition tool_to_dict :: "tool_contract \<Rightarrow> payload result" where
  "tool_to_dict c =
     bindE (datetime_to_json (tc_captured_at c)) (\<lambda>captured_at.
     bindE (metadata_of (tc_metadata c)) (\<lambda>metadata.
     Inr (contract_head ''tool_call'' (tc_contract_version c) (tc_producer_id c) (tc_run_id c) @ [
       (''tool_name'', JStr (tc_tool_name c)),
       (''tool_schema_version'', JStr (tc_tool_schema c)),
       (''input_digest'', JStr (tc_input_digest c)),
       (''output_digest'', JStr (tc_output_digest c)),
       (''authorization_decision'', jopt_str (tc_authorization c)),
       (''execution_status'', JStr (tc_execution_status c)),
       (''side_effect_classification'', JStr (tc_side_effects c)),
       (''captured_at'', JStr captured_at),
       (''metadata'', JObj metadata)])))"

definition tool_item :: "tool_contract \<Rightarrow> evidence_item result" where
  "tool_item c = contract_item ''tool_call'' (tool_to_dict c) (tc_producer_id c) (tc_run_id c)"

section \<open>Runtime traces\<close>

record runtime_contract =
  rx_contract_version :: string
  rx_producer_id :: string
  rx_run_id :: string
  rx_framework :: string
  rx_trace_id :: string
  rx_span_id :: string
  rx_started_at :: stamp
  rx_captured_at :: stamp
  rx_parent_run_id :: "string option"
  rx_ended_at :: "stamp option"
  rx_error_status :: "string option"
  rx_retry_of_run_id :: "string option"
  rx_recovery_run_id :: "string option"
  rx_metadata :: "payload option"

definition check_ended :: "runtime_contract \<Rightarrow> unit result" where
  "check_ended c =
     (case rx_ended_at c of
        None \<Rightarrow> Inr ()
      | Some t \<Rightarrow>
          bindE (require_utc_datetime t ''ended_at'') (\<lambda>_.
          guards [(instant (stamp_datetime t) < instant (stamp_datetime (rx_started_at c)), ValueError ''ended_at'')]))"

definition runtime_post_init :: "runtime_contract \<Rightarrow> unit result" where
  "runtime_post_init c =
     bindE (require_fields [(''contract_version'', rx_contract_version c), (''producer_id'', rx_producer_id c), (''run_id'', rx_run_id c), (''framework'', rx_framework c), (''trace_id'', rx_trace_id c), (''span_id'', rx_span_id c)]) (\<lambda>_.
     bindE (require_utc_datetime (rx_started_at c) ''started_at'') (\<lambda>_.
     bindE (require_utc_datetime (rx_captured_at c) ''captured_at'') (\<lambda>_.
     bindE (check_ended c) (\<lambda>_.
     bindE (require_optional (rx_retry_of_run_id c) ''retry_of_run_id'') (\<lambda>_.
     bindE (require_optional (rx_recovery_run_id c) ''recovery_run_id'') (\<lambda>_.
     check_mapping (opt_or (rx_metadata c) []) ''metadata''))))))"

definition runtime_to_dict :: "runtime_contract \<Rightarrow> payload result" where
  "runtime_to_dict c =
     bindE (datetime_to_json (rx_started_at c)) (\<lambda>started_at.
     bindE (case rx_ended_at c of None \<Rightarrow> Inr None | Some t \<Rightarrow> bindE (datetime_to_json t) (\<lambda>e. Inr (Some e))) (\<lambda>ended_at.
     bindE (datetime_to_json (rx_captured_at c)) (\<lambda>captured_at.
     bindE (metadata_of (rx_metadata c)) (\<lambda>metadata.
     Inr (contract_head ''runtime_trace'' (rx_contract_version c) (rx_producer_id c) (rx_run_id c) @ [
       (''parent_run_id'', jopt_str (rx_parent_run_id c)),
       (''trace_id'', JStr (rx_trace_id c)),
       (''span_id'', JStr (rx_span_id c)),
       (''framework'', JStr (rx_framework c)),
       (''started_at'', JStr started_at),
       (''ended_at'', jopt_str ended_at),
       (''error_status'', jopt_str (rx_error_status c)),
       (''retry_of_run_id'', jopt_str (rx_retry_of_run_id c)),
       (''recovery_run_id'', jopt_str (rx_recovery_run_id c)),
       (''captured_at'', JStr captured_at),
       (''metadata'', JObj metadata)])))))"

definition runtime_item :: "runtime_contract \<Rightarrow> evidence_item result" where
  "runtime_item c = contract_item ''runtime_trace'' (runtime_to_dict c) (rx_producer_id c) (rx_run_id c)"

section \<open>Policies\<close>

record policy_contract =
  pl_contract_version :: string
  pl_producer_id :: string
  pl_run_id :: string
  pl_policy_id :: string
  pl_policy_version :: string
  pl_decision :: string
  pl_rationale_digest :: string
  pl_residual_risk :: string
  pl_captured_at :: stamp
  pl_metadata :: "payload option"

definition policy_post_init :: "policy_contract \<Rightarrow> unit result" where
  "policy_post_init c =
     bindE (require_fields [(''contract_version'', pl_contract_version c), (''producer_id'', pl_producer_id c), (''run_id'', pl_run_id c), (''policy_id'', pl_policy_id c), (''policy_version'', pl_policy_version c), (''decision'', pl_decision c), (''rationale_digest'', pl_rationale_digest c), (''residual_risk'', pl_residual_risk c)]) (\<lambda>_.
     bindE (require_utc_datetime (pl_captured_at c) ''captured_at'') (\<lambda>_.
     check_mapping (opt_or (pl_metadata c) []) ''metadata''))"

definition policy_to_dict :: "policy_contract \<Rightarrow> payload result" where
  "policy_to_dict c =
     bindE (datetime_to_json (pl_captured_at c)) (\<lambda>captured_at.
     bindE (metadata_of (pl_metadata c)) (\<lambda>metadata.
     Inr (contract_head ''policy'' (pl_contract_version c) (pl_producer_id c) (pl_run_id c) @ [
       (''policy_id'', JStr (pl_policy_id c)),
       (''policy_version'', JStr (pl_policy_version c)),
       (''decision'', JStr (pl_decision c)),
       (''rationale_digest'', JStr (pl_rationale_digest c)),
       (''residual_risk'', JStr (pl_residual_risk c)),
       (''captured_at'', JStr captured_at),
       (''metadata'', JObj metadata)])))"

definition policy_item :: "policy_contract \<Rightarrow> evidence_item result" where
  "policy_item c = contract_item ''policy'' (policy_to_dict c) (pl_producer_id c) (pl_run_id c)"

section \<open>Evaluators\<close>

record evaluator_contract =
  vc_contract_version :: string
  vc_producer_id :: string
  vc_run_id :: string
  vc_evaluator_id :: string
  vc_evaluator_version :: string
  vc_metric_version :: string
  vc_metric_values :: payload
  vc_thresholds :: payload
  vc_dataset_identity :: string
  vc_limitations :: string
  vc_captured_at :: stamp
  vc_metadata :: "payload option"

definition evaluator_post_init :: "evaluator_contract \<Rightarrow> unit result" where
  "evaluator_post_init c =
     bindE (require_fields [(''contract_version'', vc_contract_version c), (''producer_id'', vc_producer_id c), (''run_id'', vc_run_id c), (''evaluator_id'', vc_evaluator_id c), (''evaluator_version'', vc_evaluator_version c), (''metric_version'', vc_metric_version c), (''dataset_identity'', vc_dataset_identity c), (''evaluator_limitations'', vc_limitations c)]) (\<lambda>_.
     bindE (guards [(vc_metric_values c = [], ValueError ''metric_values''), (vc_thresholds c = [], ValueError ''thresholds'')]) (\<lambda>_.
     bindE (require_utc_datetime (vc_captured_at c) ''captured_at'') (\<lambda>_.
     bindE (check_mapping (vc_metric_values c) ''metric_values'') (\<lambda>_.
     bindE (check_mapping (vc_thresholds c) ''thresholds'') (\<lambda>_.
     check_mapping (opt_or (vc_metadata c) []) ''metadata'')))))"

definition evaluator_to_dict :: "evaluator_contract \<Rightarrow> payload result" where
  "evaluator_to_dict c =
     bindE (json_mapping (vc_metric_values c) ''metric_values'') (\<lambda>metric_values.
     bindE (json_mapping (vc_thresholds c) ''thresholds'') (\<lambda>thresholds.
     bindE (datetime_to_json (vc_captured_at c)) (\<lambda>captured_at.
     bindE (metadata_of (vc_metadata c)) (\<lambda>metadata.
     Inr (contract_head ''evaluator'' (vc_contract_version c) (vc_producer_id c) (vc_run_id c) @ [
       (''evaluator_id'', JStr (vc_evaluator_id c)),
       (''evaluator_version'', JStr (vc_evaluator_version c)),
       (''metric_version'', JStr (vc_metric_version c)),
       (''metric_values'', JObj metric_values),
       (''thresholds'', JObj thresholds),
       (''dataset_identity'', JStr (vc_dataset_identity c)),
       (''evaluator_limitations'', JStr (vc_limitations c)),
       (''captured_at'', JStr captured_at),
       (''metadata'', JObj metadata)])))))"

definition evaluator_item :: "evaluator_contract \<Rightarrow> evidence_item result" where
  "evaluator_item c = contract_item ''evaluator'' (evaluator_to_dict c) (vc_producer_id c) (vc_run_id c)"

section \<open>Observations\<close>

record observation_contract =
  ov_contract_version :: string
  ov_producer_id :: string
  ov_run_id :: string
  ov_framework :: string
  ov_trace_id :: string
  ov_span_id :: string
  ov_observation_kind :: string
  ov_observed_at :: stamp
  ov_parent_run_id :: "string option"
  ov_metadata :: "payload option"

definition observation_post_init :: "observation_contract \<Rightarrow> unit result" where
  "observation_post_init c =
     bindE (require_fields [(''contract_version'', ov_contract_version c), (''producer_id'', ov_producer_id c), (''run_id'', ov_run_id c), (''framework'', ov_framework c), (''trace_id'', ov_trace_id c), (''span_id'', ov_span_id c), (''observation_kind'', ov_observation_kind c)]) (\<lambda>_.
     bindE (require_utc_datetime (ov_observed_at c) ''observed_at'') (\<lambda>_.
     bindE (require_optional (ov_parent_run_id c) ''parent_run_id'') (\<lambda>_.
     check_mapping (opt_or (ov_metadata c) []) ''metadata'')))"

definition observation_to_dict :: "observation_contract \<Rightarrow> payload result" where
  "observation_to_dict c =
     bindE (datetime_to_json (ov_observed_at c)) (\<lambda>observed_at.
     bindE (metadata_of (ov_metadata c)) (\<lambda>metadata.
     Inr (contract_head ''observation'' (ov_contract_version c) (ov_producer_id c) (ov_run_id c) @ [
       (''framework'', JStr (ov_framework c)),
       (''trace_id'', JStr (ov_trace_id c)),
       (''span_id'', JStr (ov_span_id c)),
       (''observation_kind'', JStr (ov_observation_kind c)),
       (''observed_at'', JStr observed_at),
       (''captured_at'', JStr observed_at),
       (''parent_run_id'', jopt_str (ov_parent_run_id c)),
       (''metadata'', JObj metadata)])))"

definition observation_item :: "observation_contract \<Rightarrow> evidence_item result" where
  "observation_item c = contract_item ''observation'' (observation_to_dict c) (ov_producer_id c) (ov_run_id c)"

section \<open>Human approvals\<close>

record approval_contract =
  ha_contract_version :: string
  ha_producer_id :: string
  ha_run_id :: string
  ha_actor_identity_ref :: string
  ha_role :: string
  ha_approval_action :: string
  ha_approval_basis_digest :: string
  ha_scope :: string
  ha_captured_at :: stamp
  ha_metadata :: "payload option"

definition approval_post_init :: "approval_contract \<Rightarrow> unit result" where
  "approval_post_init c =
     bindE (require_fields [(''contract_version'', ha_contract_version c), (''producer_id'', ha_producer_id c), (''run_id'', ha_run_id c), (''actor_identity_ref'', ha_actor_identity_ref c), (''role'', ha_role c), (''approval_action'', ha_approval_action c), (''approval_basis_digest'', ha_approval_basis_digest c), (''scope'', ha_scope c)]) (\<lambda>_.
     bindE (require_utc_datetime (ha_captured_at c) ''captured_at'') (\<lambda>_.
     check_mapping (opt_or (ha_metadata c) []) ''metadata''))"

definition approval_to_dict :: "approval_contract \<Rightarrow> payload result" where
  "approval_to_dict c =
     bindE (datetime_to_json (ha_captured_at c)) (\<lambda>captured_at.
     bindE (metadata_of (ha_metadata c)) (\<lambda>metadata.
     Inr (contract_head ''human_approval'' (ha_contract_version c) (ha_producer_id c) (ha_run_id c) @ [
       (''actor_identity_ref'', JStr (ha_actor_identity_ref c)),
       (''role'', JStr (ha_role c)),
       (''approval_action'', JStr (ha_approval_action c)),
       (''approval_basis_digest'', JStr (ha_approval_basis_digest c)),
       (''scope'', JStr (ha_scope c)),
       (''captured_at'', JStr captured_at),
       (''metadata'', JObj metadata)])))"

definition approval_item :: "approval_contract \<Rightarrow> evidence_item result" where
  "approval_item c = contract_item ''human_approval'' (approval_to_dict c) (ha_producer_id c) (ha_run_id c)"

text \<open>\<open>_require_sha256\<close>\<close>

definition require_sha256 :: "string \<Rightarrow> string \<Rightarrow> unit result" where
  "require_sha256 value field = guards [(blank value, ValueError field), (\<not> is_sha256 value, ValueError field)]"

section \<open>Revocations\<close>

record revocation_contract =
  hr_contract_version :: string
  hr_producer_id :: string
  hr_run_id :: string
  hr_actor_identity_ref :: string
  hr_role :: string
  hr_approval_action :: string
  hr_approval_basis_digest :: string
  hr_scope :: string
  hr_target_id :: string
  hr_target_digest :: string
  hr_reason :: string
  hr_captured_at :: stamp
  hr_metadata :: "payload option"

definition revocation_post_init :: "revocation_contract \<Rightarrow> unit result" where
  "revocation_post_init c =
     bindE (require_fields [(''contract_version'', hr_contract_version c), (''producer_id'', hr_producer_id c), (''run_id'', hr_run_id c), (''actor_identity_ref'', hr_actor_identity_ref c), (''role'', hr_role c), (''approval_action'', hr_approval_action c), (''approval_basis_digest'', hr_approval_basis_digest c), (''scope'', hr_scope c), (''reason'', hr_reason c)]) (\<lambda>_.
     bindE (require_sha256 (hr_target_id c) ''target_approval_receipt_id'') (\<lambda>_.
     bindE (require_sha256 (hr_target_digest c) ''target_approval_receipt_digest'') (\<lambda>_.
     bindE (require_utc_datetime (hr_captured_at c) ''captured_at'') (\<lambda>_.
     check_mapping (opt_or (hr_metadata c) []) ''metadata''))))"

definition revocation_to_dict :: "revocation_contract \<Rightarrow> payload result" where
  "revocation_to_dict c =
     bindE (datetime_to_json (hr_captured_at c)) (\<lambda>captured_at.
     bindE (metadata_of (hr_metadata c)) (\<lambda>metadata.
     Inr (contract_head ''human_approval_revocation'' (hr_contract_version c) (hr_producer_id c) (hr_run_id c) @ [
       (''actor_identity_ref'', JStr (hr_actor_identity_ref c)),
       (''role'', JStr (hr_role c)),
       (''approval_action'', JStr (hr_approval_action c)),
       (''approval_basis_digest'', JStr (hr_approval_basis_digest c)),
       (''scope'', JStr (hr_scope c)),
       (''target_approval_receipt_id'', JStr (hr_target_id c)),
       (''target_approval_receipt_digest'', JStr (hr_target_digest c)),
       (''reason'', JStr (hr_reason c)),
       (''captured_at'', JStr captured_at),
       (''metadata'', JObj metadata)])))"

definition revocation_item :: "revocation_contract \<Rightarrow> evidence_item result" where
  "revocation_item c = contract_item ''human_approval_revocation'' (revocation_to_dict c) (hr_producer_id c) (hr_run_id c)"

text \<open>
  \<open>require_string(payload.get(k))\<close>, and the parts both \<open>from_dict\<close> share: the checks of schema and type, and
  the capture time. \<open>metadata\<close> defaults to an empty mapping.
\<close>

definition get_string :: "payload \<Rightarrow> string \<Rightarrow> string result" where
  "get_string d k = require_string (get_or d k JNull) k"

definition check_schema :: "payload \<Rightarrow> string \<Rightarrow> unit result" where
  "check_schema d contract_type =
     bindE (get_string d ''schema_version'') (\<lambda>v.
     bindE (guards [(v \<noteq> schema_version, ValueError ''schema version'')]) (\<lambda>_.
     bindE (get_string d ''contract_type'') (\<lambda>t.
     guards [(t \<noteq> contract_type, ValueError ''contract type'')])))"

definition approval_from_dict :: "payload \<Rightarrow> approval_contract result" where
  "approval_from_dict d =
     bindE (check_schema d ''human_approval'') (\<lambda>_.
     bindE (bindE (get_string d ''captured_at'') (\<lambda>t. stamp_fromisoformat (replace_z t))) (\<lambda>captured.
     bindE (require_object (get_or d ''metadata'' (JObj [])) ''metadata'') (\<lambda>metadata.
     bindE (get_string d ''contract_version'') (\<lambda>contract_version.
     bindE (get_string d ''producer_id'') (\<lambda>producer_id.
     bindE (get_string d ''run_id'') (\<lambda>run_id.
     bindE (get_string d ''actor_identity_ref'') (\<lambda>actor_identity_ref.
     bindE (get_string d ''role'') (\<lambda>role.
     bindE (get_string d ''approval_action'') (\<lambda>approval_action.
     bindE (get_string d ''approval_basis_digest'') (\<lambda>approval_basis_digest.
     bindE (get_string d ''scope'') (\<lambda>scope.
     construct approval_post_init
       \<lparr>ha_contract_version = contract_version, ha_producer_id = producer_id, ha_run_id = run_id, ha_actor_identity_ref = actor_identity_ref, ha_role = role, ha_approval_action = approval_action, ha_approval_basis_digest = approval_basis_digest, ha_scope = scope,
        ha_captured_at = captured, ha_metadata = Some metadata\<rparr>)))))))))))"

definition revocation_from_dict :: "payload \<Rightarrow> revocation_contract result" where
  "revocation_from_dict d =
     bindE (check_schema d ''human_approval_revocation'') (\<lambda>_.
     bindE (bindE (get_string d ''captured_at'') (\<lambda>t. stamp_fromisoformat (replace_z t))) (\<lambda>captured.
     bindE (require_object (get_or d ''metadata'' (JObj [])) ''metadata'') (\<lambda>metadata.
     bindE (get_string d ''contract_version'') (\<lambda>contract_version.
     bindE (get_string d ''producer_id'') (\<lambda>producer_id.
     bindE (get_string d ''run_id'') (\<lambda>run_id.
     bindE (get_string d ''actor_identity_ref'') (\<lambda>actor_identity_ref.
     bindE (get_string d ''role'') (\<lambda>role.
     bindE (get_string d ''approval_action'') (\<lambda>approval_action.
     bindE (get_string d ''approval_basis_digest'') (\<lambda>approval_basis_digest.
     bindE (get_string d ''scope'') (\<lambda>scope.
     bindE (get_string d ''target_approval_receipt_id'') (\<lambda>target_id.
     bindE (get_string d ''target_approval_receipt_digest'') (\<lambda>target_digest.
     bindE (get_string d ''reason'') (\<lambda>reason.
     construct revocation_post_init
       \<lparr>hr_contract_version = contract_version, hr_producer_id = producer_id, hr_run_id = run_id, hr_actor_identity_ref = actor_identity_ref, hr_role = role, hr_approval_action = approval_action, hr_approval_basis_digest = approval_basis_digest, hr_scope = scope, hr_target_id = target_id, hr_target_digest = target_digest, hr_reason = reason,
        hr_captured_at = captured, hr_metadata = Some metadata\<rparr>))))))))))))))"

section \<open>All contracts\<close>

datatype contract =
    Prompt prompt_contract | Retrieval retrieval_contract | ModelInvocation model_contract | ToolCall tool_contract
  | RuntimeTrace runtime_contract | Policy policy_contract | Evaluator evaluator_contract
  | Observation observation_contract | HumanApproval approval_contract | Revocation revocation_contract

fun contract_type :: "contract \<Rightarrow> string" where
  "contract_type (Prompt _) = ''prompt''"
| "contract_type (Retrieval _) = ''retrieval''"
| "contract_type (ModelInvocation _) = ''model_invocation''"
| "contract_type (ToolCall _) = ''tool_call''"
| "contract_type (RuntimeTrace _) = ''runtime_trace''"
| "contract_type (Policy _) = ''policy''"
| "contract_type (Evaluator _) = ''evaluator''"
| "contract_type (Observation _) = ''observation''"
| "contract_type (HumanApproval _) = ''human_approval''"
| "contract_type (Revocation _) = ''human_approval_revocation''"

fun contract_post_init :: "contract \<Rightarrow> unit result" where
  "contract_post_init (Prompt c) = prompt_post_init c"
| "contract_post_init (Retrieval c) = retrieval_post_init c"
| "contract_post_init (ModelInvocation c) = model_post_init c"
| "contract_post_init (ToolCall c) = tool_post_init c"
| "contract_post_init (RuntimeTrace c) = runtime_post_init c"
| "contract_post_init (Policy c) = policy_post_init c"
| "contract_post_init (Evaluator c) = evaluator_post_init c"
| "contract_post_init (Observation c) = observation_post_init c"
| "contract_post_init (HumanApproval c) = approval_post_init c"
| "contract_post_init (Revocation c) = revocation_post_init c"

fun contract_to_dict :: "contract \<Rightarrow> payload result" where
  "contract_to_dict (Prompt c) = prompt_to_dict c"
| "contract_to_dict (Retrieval c) = retrieval_to_dict c"
| "contract_to_dict (ModelInvocation c) = model_to_dict c"
| "contract_to_dict (ToolCall c) = tool_to_dict c"
| "contract_to_dict (RuntimeTrace c) = runtime_to_dict c"
| "contract_to_dict (Policy c) = policy_to_dict c"
| "contract_to_dict (Evaluator c) = evaluator_to_dict c"
| "contract_to_dict (Observation c) = observation_to_dict c"
| "contract_to_dict (HumanApproval c) = approval_to_dict c"
| "contract_to_dict (Revocation c) = revocation_to_dict c"

fun contract_evidence :: "contract \<Rightarrow> evidence_item result" where
  "contract_evidence (Prompt c) = prompt_item c"
| "contract_evidence (Retrieval c) = retrieval_item c"
| "contract_evidence (ModelInvocation c) = model_item c"
| "contract_evidence (ToolCall c) = tool_item c"
| "contract_evidence (RuntimeTrace c) = runtime_item c"
| "contract_evidence (Policy c) = policy_item c"
| "contract_evidence (Evaluator c) = evaluator_item c"
| "contract_evidence (Observation c) = observation_item c"
| "contract_evidence (HumanApproval c) = approval_item c"
| "contract_evidence (Revocation c) = revocation_item c"

section \<open>Capture\<close>

text \<open>\<open>integrations/base.py\<close>: a captured contract with its payload and evidence, and the reference of a chain to it.\<close>

record capture_result =
  cp_contract :: contract
  cp_payload :: payload
  cp_evidence :: evidence_item

definition capture_digest :: "capture_result \<Rightarrow> string result" where
  "capture_digest r = (case ei_digest (cp_evidence r) of None \<Rightarrow> Inl (ValueError ''digest'') | Some d \<Rightarrow> Inr d)"

definition capture_contract :: "contract \<Rightarrow> capture_result result" where
  "capture_contract c =
     bindE (contract_to_dict c) (\<lambda>payload.
     bindE (contract_evidence c) (\<lambda>evidence.
     Inr \<lparr>cp_contract = c, cp_payload = payload, cp_evidence = evidence\<rparr>))"

definition digest_json :: "json \<Rightarrow> string result" where
  "digest_json value = bindE (require_object value ''payload'') (\<lambda>d. Inr (contract_digest d))"

definition profile_kind :: "string \<Rightarrow> string" where
  "profile_kind t = dict_get [(''prompt'', ''prompt_evidence''), (''retrieval'', ''retrieval_evidence'')] t t"

definition profile_evidence_reference :: "capture_result \<Rightarrow> evidence_reference result" where
  "profile_evidence_reference r =
     (let t = dict_get (ei_metadata (cp_evidence r)) ''contract_type'' ''unknown'' in
     bindE (if opt_or (ei_digest (cp_evidence r)) [] = [] then capture_digest r
            else Inr (opt_or (ei_digest (cp_evidence r)) [])) (\<lambda>digest.
     construct evidence_reference_post_init
       (EvidenceReference (''ai-contract:'' @ profile_kind t) (ei_evidence_id (cp_evidence r)) digest
         (Some (ei_source (cp_evidence r))) None)))"

text \<open>What of a producer's event is kept as metadata. The length is in characters, not in bytes.\<close>

definition safe_metadata_fields :: "string list" where
  "safe_metadata_fields = [''run_id'', ''producer_id'', ''trace_id'', ''span_id'', ''parent_run_id'', ''parent_span_id'',
     ''source_event_id'', ''model_name'', ''model_version'', ''tool_name'', ''schema_version'', ''corpus_identity'',
     ''corpus_snapshot_id'', ''execution_status'', ''side_effect_classification'', ''policy_id'', ''policy_version'',
     ''decision'', ''evaluator_id'', ''evaluator_version'', ''metric_version'', ''dataset_identity'', ''job_name'',
     ''artifact_digest'', ''framework'', ''provider'', ''statewake.run_id'', ''statewake.producer_id'',
     ''gen_ai.operation.name'', ''gen_ai.system'', ''gen_ai.request.model'', ''gen_ai.response.model'',
     ''retry_of_run_id'', ''recovery_of_run_id'']"

definition safe_metadata_value :: "json \<Rightarrow> bool" where
  "safe_metadata_value v =
     (case v of JBool _ \<Rightarrow> True | JInt _ \<Rightarrow> True
      | JStr s \<Rightarrow> 0 < length (opt_or (utf8_dec s) []) \<and> length (opt_or (utf8_dec s) []) \<le> 256 | _ \<Rightarrow> False)"

definition metadata_without_payload :: "payload \<Rightarrow> string list \<Rightarrow> payload" where
  "metadata_without_payload d exclude =
     filter (\<lambda>(k, v). k \<notin> set exclude \<and> k \<in> set safe_metadata_fields \<and> safe_metadata_value v) d"

section \<open>A checked contract serialises\<close>

text \<open>What \<open>require_value\<close> returns: no value of \<open>json\<close> is refused.\<close>

fun json_copy :: "json \<Rightarrow> json" where
  "json_copy (JObj kvs) = JObj (dict_of (map (\<lambda>(k, v). (k, json_copy v)) kvs))"
| "json_copy (JArr vs) = JArr (map json_copy vs)"
| "json_copy v = v"

lemma require_value_copy: "require_value v field = Inr (json_copy v)"
proof (induction v field rule: require_value.induct)
  case (1 kvs field)
  then have "mapE (\<lambda>(k, v). bindE (require_value v (field @ ''.'' @ k)) (\<lambda>w. Inr (k, w))) kvs =
      Inr (map (\<lambda>(k, v). (k, json_copy v)) kvs)"
    by (intro mapE_Inr_id) fastforce
  then show ?case by simp
next
  case (2 vs field)
  then have "mapE (\<lambda>v. require_value v field) vs = Inr (map json_copy vs)" by (intro mapE_Inr_id)
  then show ?case by simp
qed simp_all

definition copy_mapping :: "payload \<Rightarrow> payload" where
  "copy_mapping d = sorted_items (dict_of (map (\<lambda>(k, v). (k, json_copy v)) d))"

lemma json_mapping_Inr:
  assumes "\<not> list_ex (\<lambda>kv. blank (fst kv)) d"
  shows "json_mapping d field = Inr (copy_mapping d)"
proof -
  have "mapE (\<lambda>(k, v). bindE (require_non_empty k field) (\<lambda>_.
      bindE (require_value v (field @ ''.'' @ k)) (\<lambda>w. Inr (k, w)))) d = Inr (map (\<lambda>(k, v). (k, json_copy v)) d)"
    using assms by (intro mapE_Inr_id) (auto simp: require_non_empty_def require_value_copy list_ex_iff)
  then show ?thesis by (simp add: json_mapping_def copy_mapping_def)
qed

lemma json_mapping_Inl:
  assumes "list_ex (\<lambda>kv. blank (fst kv)) d"
  shows "json_mapping d field = Inl (ValueError field)"
proof -
  have "mapE (\<lambda>(k, v). bindE (require_non_empty k field) (\<lambda>_.
      bindE (require_value v (field @ ''.'' @ k)) (\<lambda>w. Inr (k, w)))) d = Inl (ValueError field)"
    using assms
  proof (induction d)
    case (Cons kv d)
    then show ?case
      by (cases kv; cases "blank (fst kv)") (auto simp: require_non_empty_def require_value_copy guards.simps)
  qed simp
  then show ?thesis by (simp add: json_mapping_def)
qed

lemma check_mapping_Inr [simp]: "check_mapping d field = Inr () \<longleftrightarrow> \<not> list_ex (\<lambda>kv. blank (fst kv)) d"
  using json_mapping_Inr [of d field] json_mapping_Inl [of d field] by (cases "list_ex (\<lambda>kv. blank (fst kv)) d") (simp_all add: check_mapping_def)

lemma metadata_of_Inr: "\<not> list_ex (\<lambda>kv. blank (fst kv)) (opt_or m []) \<Longrightarrow> metadata_of m = Inr (copy_mapping (opt_or m []))"
  by (simp add: metadata_of_def json_mapping_Inr)

lemma require_utc_Inr [simp]: "require_utc_datetime t field = Inr () \<longleftrightarrow> (\<exists>u. t = Zoned u 0 \<and> in_range u)"
  by (cases t) (auto simp: require_utc_datetime_def)

lemma datetime_to_json_Zoned: "in_range u \<Longrightarrow> datetime_to_json (Zoned u 0) = Inr (iso_naive u @ ''Z'')"
  by (simp add: datetime_to_json_def require_utc_datetime_def)

lemma require_fields_Inr [simp]: "require_fields fs = Inr () \<longleftrightarrow> list_all (\<lambda>fv. \<not> blank (snd fv)) fs"
  by (induction fs) (auto simp: require_fields_def list_all_iff)

lemmas post_init_defs = prompt_post_init_def retrieval_post_init_def model_post_init_def tool_post_init_def
  runtime_post_init_def policy_post_init_def evaluator_post_init_def observation_post_init_def approval_post_init_def
  revocation_post_init_def check_ended_def

lemmas to_dict_defs = prompt_to_dict_def retrieval_to_dict_def model_to_dict_def tool_to_dict_def runtime_to_dict_def
  policy_to_dict_def evaluator_to_dict_def observation_to_dict_def approval_to_dict_def revocation_to_dict_def

fun contract_producer :: "contract \<Rightarrow> string" where
  "contract_producer (Prompt c) = pc_producer_id c"
| "contract_producer (Retrieval c) = rv_producer_id c"
| "contract_producer (ModelInvocation c) = mi_producer_id c"
| "contract_producer (ToolCall c) = tc_producer_id c"
| "contract_producer (RuntimeTrace c) = rx_producer_id c"
| "contract_producer (Policy c) = pl_producer_id c"
| "contract_producer (Evaluator c) = vc_producer_id c"
| "contract_producer (Observation c) = ov_producer_id c"
| "contract_producer (HumanApproval c) = ha_producer_id c"
| "contract_producer (Revocation c) = hr_producer_id c"

fun contract_run :: "contract \<Rightarrow> string" where
  "contract_run (Prompt c) = pc_run_id c"
| "contract_run (Retrieval c) = rv_run_id c"
| "contract_run (ModelInvocation c) = mi_run_id c"
| "contract_run (ToolCall c) = tc_run_id c"
| "contract_run (RuntimeTrace c) = rx_run_id c"
| "contract_run (Policy c) = pl_run_id c"
| "contract_run (Evaluator c) = vc_run_id c"
| "contract_run (Observation c) = ov_run_id c"
| "contract_run (HumanApproval c) = ha_run_id c"
| "contract_run (Revocation c) = hr_run_id c"

fun contract_version_of :: "contract \<Rightarrow> string" where
  "contract_version_of (Prompt c) = pc_contract_version c"
| "contract_version_of (Retrieval c) = rv_contract_version c"
| "contract_version_of (ModelInvocation c) = mi_contract_version c"
| "contract_version_of (ToolCall c) = tc_contract_version c"
| "contract_version_of (RuntimeTrace c) = rx_contract_version c"
| "contract_version_of (Policy c) = pl_contract_version c"
| "contract_version_of (Evaluator c) = vc_contract_version c"
| "contract_version_of (Observation c) = ov_contract_version c"
| "contract_version_of (HumanApproval c) = ha_contract_version c"
| "contract_version_of (Revocation c) = hr_contract_version c"

text \<open>A payload opens with the head of its contract and has a capture time.\<close>

definition headed :: "contract \<Rightarrow> payload \<Rightarrow> bool" where
  "headed c d = (\<exists>rest t. d = contract_head (contract_type c) (contract_version_of c) (contract_producer c) (contract_run c) @ rest \<and>
     map_of rest ''captured_at'' = Some (JStr t))"

lemma require_values_Inr [simp]:
  "require_values f vs = Inr () \<longleftrightarrow> vs \<noteq> [] \<and> list_all (\<lambda>v. \<not> blank v) vs"
  by (auto simp: require_values_def bindE_eq_Inr_iff list_all_iff)

lemmas serialise_simps = bindE_eq_Inr_iff datetime_to_json_Zoned headed_def json_mapping_Inr metadata_of_Inr

lemma prompt_serialises: "prompt_post_init c = Inr () \<Longrightarrow> \<exists>d. prompt_to_dict c = Inr d \<and> headed (Prompt c) d"
  by (auto simp: prompt_post_init_def prompt_to_dict_def serialise_simps split: option.splits)

lemma retrieval_serialises: "retrieval_post_init c = Inr () \<Longrightarrow> \<exists>d. retrieval_to_dict c = Inr d \<and> headed (Retrieval c) d"
  by (auto simp: retrieval_post_init_def retrieval_to_dict_def serialise_simps split: option.splits)

lemma model_serialises: "model_post_init c = Inr () \<Longrightarrow> \<exists>d. model_to_dict c = Inr d \<and> headed (ModelInvocation c) d"
  by (auto simp: model_post_init_def model_to_dict_def serialise_simps split: option.splits)

lemma tool_serialises: "tool_post_init c = Inr () \<Longrightarrow> \<exists>d. tool_to_dict c = Inr d \<and> headed (ToolCall c) d"
  by (auto simp: tool_post_init_def tool_to_dict_def serialise_simps split: option.splits)

lemma runtime_serialises: "runtime_post_init c = Inr () \<Longrightarrow> \<exists>d. runtime_to_dict c = Inr d \<and> headed (RuntimeTrace c) d"
  by (auto simp: runtime_post_init_def runtime_to_dict_def serialise_simps check_ended_def split: option.splits)

lemma policy_serialises: "policy_post_init c = Inr () \<Longrightarrow> \<exists>d. policy_to_dict c = Inr d \<and> headed (Policy c) d"
  by (auto simp: policy_post_init_def policy_to_dict_def serialise_simps split: option.splits)

lemma evaluator_serialises: "evaluator_post_init c = Inr () \<Longrightarrow> \<exists>d. evaluator_to_dict c = Inr d \<and> headed (Evaluator c) d"
  by (auto simp: evaluator_post_init_def evaluator_to_dict_def serialise_simps split: option.splits)

lemma observation_serialises: "observation_post_init c = Inr () \<Longrightarrow> \<exists>d. observation_to_dict c = Inr d \<and> headed (Observation c) d"
  by (auto simp: observation_post_init_def observation_to_dict_def serialise_simps split: option.splits)

lemma approval_serialises: "approval_post_init c = Inr () \<Longrightarrow> \<exists>d. approval_to_dict c = Inr d \<and> headed (HumanApproval c) d"
  by (auto simp: approval_post_init_def approval_to_dict_def serialise_simps split: option.splits)

lemma revocation_serialises: "revocation_post_init c = Inr () \<Longrightarrow> \<exists>d. revocation_to_dict c = Inr d \<and> headed (Revocation c) d"
  by (auto simp: revocation_post_init_def revocation_to_dict_def serialise_simps split: option.splits)

lemma contract_serialises: "contract_post_init c = Inr () \<Longrightarrow> \<exists>d. contract_to_dict c = Inr d \<and> headed c d"
  by (cases c) (simp_all add: prompt_serialises retrieval_serialises model_serialises tool_serialises runtime_serialises
      policy_serialises evaluator_serialises observation_serialises approval_serialises revocation_serialises)

lemma contract_evidence_eq:
  "contract_evidence c = contract_item (contract_type c) (contract_to_dict c) (contract_producer c) (contract_run c)"
  by (cases c) (simp_all add: prompt_item_def retrieval_item_def model_item_def tool_item_def runtime_item_def
      policy_item_def evaluator_item_def observation_item_def approval_item_def revocation_item_def)

lemma contract_named:
  "contract_post_init c = Inr () \<Longrightarrow>
    \<not> blank (contract_version_of c) \<and> \<not> blank (contract_producer c) \<and> \<not> blank (contract_run c)"
  by (cases c) (simp_all add: post_init_defs bindE_eq_Inr_iff)

lemma headed_valid:
  assumes "headed c d" "contract_post_init c = Inr ()"
  shows "validate_contract_payload d = Inr ()"
proof -
  have "\<not> blank (contract_type c)" by (cases c) simp_all
  with assms(1) contract_named [OF assms(2)] show ?thesis
    by (auto simp: headed_def contract_head_def validate_contract_payload_def required_base_fields_def missing_fields_def
        bindE_eq_Inr_iff)
qed

definition issued_item :: "contract \<Rightarrow> payload \<Rightarrow> evidence_item" where
  "issued_item c d =
     \<lparr>ei_evidence_id = ''ai-contract:'' @ contract_type c @ '':'' @ contract_run c @ '':'' @ take 16 (contract_digest d),
      ei_source = ''statewake.ai_contracts.'' @ contract_type c, ei_digest = Some (contract_digest d), ei_content_ref = None,
      ei_metadata = [(''contract_type'', contract_type c), (''producer_id'', contract_producer c), (''run_id'', contract_run c)],
      ei_sensitivity = ''internal''\<rparr>"

lemma contract_captured:
  assumes "contract_post_init c = Inr ()"
  shows "\<exists>d. capture_contract c = Inr \<lparr>cp_contract = c, cp_payload = d, cp_evidence = issued_item c d\<rparr> \<and> headed c d"
proof -
  obtain d where d: "contract_to_dict c = Inr d" "headed c d" using contract_serialises [OF assms] by blast
  have "evidence_item_post_init (issued_item c d) = Inr ()"
    by (simp add: issued_item_def evidence_item_post_init_def)
  moreover have "contract_evidence c = construct evidence_item_post_init (issued_item c d)"
    unfolding contract_evidence_eq contract_item_def d(1) bindE_Inr evidence_item_from_payload_def Let_def opt_or_def
      issued_item_def option.case
    by (rule arg_cong2 [where f = construct], rule refl) (simp only: refl if_True append.simps)
  ultimately have "contract_evidence c = Inr (issued_item c d)" by (simp add: construct_ok)
  with d show ?thesis by (simp add: capture_contract_def)
qed

text \<open>
  A contract that passes its own checks can always be captured. Its payload is built, has the shape every
  serialised contract must have, and the evidence issued for it is well formed and bound to the digest of
  exactly that payload.
\<close>

theorem contract_capture_complete:
  assumes "contract_post_init c = Inr ()"
  shows "\<exists>r. capture_contract c = Inr r \<and> contract_to_dict c = Inr (cp_payload r) \<and>
    validate_contract_payload (cp_payload r) = Inr () \<and>
    evidence_item_post_init (cp_evidence r) = Inr () \<and> capture_digest r = Inr (contract_digest (cp_payload r)) \<and>
    dict_get (ei_metadata (cp_evidence r)) ''contract_type'' [] = contract_type c"
proof -
  obtain d where d: "capture_contract c = Inr \<lparr>cp_contract = c, cp_payload = d, cp_evidence = issued_item c d\<rparr>" "headed c d"
    using contract_captured [OF assms] by blast
  then have "contract_to_dict c = Inr d" "contract_evidence c = Inr (issued_item c d)"
    by (auto simp: capture_contract_def bindE_eq_Inr_iff)
  moreover have "evidence_item_post_init (issued_item c d) = Inr ()"
    by (simp add: issued_item_def evidence_item_post_init_def)
  moreover have "ei_digest (issued_item c d) = Some (contract_digest d)"
    "dict_get (ei_metadata (issued_item c d)) ''contract_type'' [] = contract_type c"
    by (simp_all add: issued_item_def dict_get_def opt_or_def)
  ultimately show ?thesis using d headed_valid [OF d(2) assms] by (simp add: capture_digest_def)
qed

section \<open>Which requirements a captured contract meets\<close>

definition issued_reference :: "contract \<Rightarrow> payload \<Rightarrow> evidence_reference" where
  "issued_reference c d = EvidenceReference (''ai-contract:'' @ profile_kind (contract_type c))
     (''ai-contract:'' @ contract_type c @ '':'' @ contract_run c @ '':'' @ take 16 (contract_digest d)) (contract_digest d)
     (Some (''statewake.ai_contracts.'' @ contract_type c)) None"

lemma profile_reference_issued:
  "profile_evidence_reference \<lparr>cp_contract = c, cp_payload = d, cp_evidence = issued_item c d\<rparr> = Inr (issued_reference c d)"
proof -
  have "evidence_reference_post_init (issued_reference c d) = Inr ()"
    by (simp add: issued_reference_def evidence_reference_post_init_def contract_digest_def blank_if_given_def)
  moreover have "contract_digest d \<noteq> []" by (simp add: contract_digest_def)
  ultimately show ?thesis
    by (simp add: profile_evidence_reference_def issued_item_def dict_get_def opt_or_def construct_ok issued_reference_def)
qed

lemma starts_with_name:
  assumes "CHR '':'' \<notin> set a" "CHR '':'' \<notin> set b"
  shows "starts_with (a @ CHR '':'' # x) (b @ '':'') \<longleftrightarrow> a = b"
  using assms
proof (induction b arbitrary: a)
  case Nil
  then show ?case by (cases a) (auto simp: starts_with_def)
next
  case (Cons c b)
  then show ?case by (cases a) (auto simp: starts_with_def)
qed

lemma no_colon_type: "CHR '':'' \<notin> set (contract_type c)"
  by (cases c) simp_all

lemma matches_issued:
  assumes "CHR '':'' \<notin> set t"
  shows "matches_contract (EvidenceReference k (''ai-contract:'' @ contract_type c @ '':'' @ run @ '':'' @ take 16 (contract_digest d)) h src q) t \<longleftrightarrow>
    k \<in> {''evidence'', ''ai-contract:'' @ t} \<and> contract_type c \<in> {t, dict_get contract_aliases t t}"
proof -
  have sha: "take 16 (contract_digest d) \<noteq> []" by (simp add: contract_digest_def)
  have one: "starts_with (''ai-contract:'' @ contract_type c @ '':'' @ x) (''ai-contract:'' @ n @ '':'') \<longleftrightarrow> contract_type c = n"
    if "CHR '':'' \<notin> set n" for n x
    using starts_with_name [OF no_colon_type that, of c] by (simp add: starts_with_def)
  have al: "CHR '':'' \<notin> set (dict_get contract_aliases t t)"
    using assms by (auto simp: dict_get_def contract_aliases_def opt_or_def)
  have len: "length (''ai-contract:'' @ n @ '':'') < length (''ai-contract:'' @ contract_type c @ '':'' @ run @ '':'' @ take 16 (contract_digest d))"
    if "contract_type c = n" for n using that sha by simp
  show ?thesis
    using one [OF assms] one [OF al] len
    by (auto simp: matches_contract_def Let_def)
qed

lemma dict_get_profile_kind: "contract_type c \<in> {profile_kind (contract_type c), dict_get contract_aliases (profile_kind (contract_type c)) (profile_kind (contract_type c))}"
  by (cases c) (simp_all add: profile_kind_def dict_get_def contract_aliases_def opt_or_def)

lemma er_issued [simp]: "er_identity (issued_reference c d) = ''ai-contract:'' @ contract_type c @ '':'' @ contract_run c @ '':'' @ take 16 (contract_digest d)"
  by (simp add: issued_reference_def)

text \<open>
  Which requirement of a claim profile the reference issued for a captured contract meets: exactly the one
  of its profile kind. A prompt meets \<open>prompt_evidence\<close> and a retrieval \<open>retrieval_evidence\<close>, every other contract
  the requirement named as its own type; so nothing captured meets \<open>policy_evidence\<close>, which four built-in
  profiles require, and \<open>evaluator_evidence\<close> is not met even under another kind of reference.
\<close>

theorem issued_reference_meets:
  assumes "contract_post_init c = Inr ()"
  shows "\<exists>r ref. capture_contract c = Inr r \<and> profile_evidence_reference r = Inr ref \<and>
    (\<forall>t. CHR '':'' \<notin> set t \<longrightarrow> (matches_contract ref t \<longleftrightarrow> t = profile_kind (contract_type c))) \<and>
    \<not> matches_contract ref ''policy_evidence'' \<and>
    (\<forall>k q. \<not> matches_contract (EvidenceReference k (er_identity ref) (er_digest ref) (er_source ref) q) ''evaluator_evidence'')"
proof -
  obtain d where d: "capture_contract c = Inr \<lparr>cp_contract = c, cp_payload = d, cp_evidence = issued_item c d\<rparr>"
    using contract_captured [OF assms] by blast
  have meets: "matches_contract (issued_reference c d) t \<longleftrightarrow> t = profile_kind (contract_type c)"
    if t: "CHR '':'' \<notin> set t" for t
    unfolding issued_reference_def matches_issued [OF t] using dict_get_profile_kind [of c] by auto
  have "profile_kind (contract_type c) \<noteq> ''policy_evidence''"
    by (cases c) (simp_all add: profile_kind_def dict_get_def opt_or_def)
  then have "\<not> matches_contract (issued_reference c d) ''policy_evidence''" using meets [of "''policy_evidence''"] by auto
  moreover have "\<not> matches_contract (EvidenceReference k (er_identity (issued_reference c d)) h src q) ''evaluator_evidence''" for k h src q
  proof -
    have "CHR '':'' \<notin> set ''evaluator_evidence''" by simp
    moreover have "contract_type c \<notin> {''evaluator_evidence'', dict_get contract_aliases ''evaluator_evidence'' ''evaluator_evidence''}"
      by (cases c) (simp_all add: dict_get_def contract_aliases_def opt_or_def)
    ultimately show ?thesis
      using matches_issued [where t = "''evaluator_evidence''" and k = k and c = c and run = "contract_run c" and d = d and
          h = h and src = src and q = q] unfolding er_issued by blast
  qed
  ultimately show ?thesis using d profile_reference_issued [of c d] meets by blast
qed

section \<open>Human approvals are read back\<close>

lemma stamp_datetime_parse: "fromisoformat s = map_sum id stamp_datetime (stamp_fromisoformat s)"
  by (auto simp: fromisoformat_def stamp_fromisoformat_def split: option.splits list.splits prod.splits)

lemma stamp_fromisoformat_utc:
  assumes "in_range t"
  shows "stamp_fromisoformat (utc_iso (Aware t)) = Inr (Zoned t 0)"
proof -
  define n u where "n = t div day_us" and "u = t mod day_us"
  have u: "0 \<le> u" "u < day_us" and t: "n * day_us + u = t"
    by (simp_all add: n_def u_def day_us_def)
  from assms have n: "0 \<le> n" "n < max_days"
    using u t unfolding in_range_def day_us_def max_days_def by linarith+
  have "p_clock (iso_time u @ ''+00:00'') = Some (u, ''+00:00'')"
    using u by (intro p_clock_iso_time) (simp_all add: is_digit_def byte_def)
  moreover have "p_offset ''+00:00'' = Some (Some 0)" by code_simp
  moreover have "utc_iso (Aware t) = iso_date n @ CHR ''T'' # (iso_time u @ ''+00:00'')"
    by (simp add: utc_iso_def iso_naive_def n_def u_def)
  ultimately show ?thesis
    using p_date_iso_date [OF n, of "CHR ''T'' # (iso_time u @ ''+00:00'')"] t by (simp add: stamp_fromisoformat_def)
qed

lemma iso_naive_no_z: "CHR ''Z'' \<notin> set (iso_naive t)"
proof -
  have d: "CHR ''Z'' \<notin> set (pad k n)" for k n
    using digits_pad [of k n] by (auto simp: list_all_iff is_digit_def byte_def)
  have "CHR ''Z'' \<notin> set (iso_date n)" for n using d by (auto simp: iso_date_def split: prod.split)
  moreover have "CHR ''Z'' \<notin> set (iso_time u)" for u using d by (auto simp: iso_time_def Let_def)
  ultimately show ?thesis by (simp add: iso_naive_def)
qed

lemma replace_z_append: "replace_z (a @ b) = replace_z a @ replace_z b"
  by (simp add: replace_z_def)

lemma replace_z_id: "CHR ''Z'' \<notin> set s \<Longrightarrow> replace_z s = s"
  by (induction s) (auto simp: replace_z_def)

lemma stamp_roundtrip: "in_range t \<Longrightarrow> stamp_fromisoformat (replace_z (iso_naive t @ ''Z'')) = Inr (Zoned t 0)"
  using stamp_fromisoformat_utc [of t] by (simp add: replace_z_append replace_z_id iso_naive_no_z utc_iso_def) (simp add: replace_z_def)

text \<open>What a stored contract is read from.\<close>

definition metadata_text :: "payload option \<Rightarrow> bool" where
  "metadata_text m = json_ok utf8_ok (JObj (opt_or m []))"

lemma json_copy_id: "json_ok (\<lambda>s. True) v \<Longrightarrow> json_copy v = v"
  using require_value_copy [of v "[]"] require_value_id [of v "[]"] by simp

lemma copy_mapping_id:
  assumes "json_ok (\<lambda>s. True) (JObj d)"
  shows "copy_mapping d = sorted_items d"
proof -
  have "map (\<lambda>(k, v). (k, json_copy v)) d = d"
    using assms by (intro map_idI) (auto simp: json_ok.simps(4) json_copy_id)
  then show ?thesis using assms by (simp add: copy_mapping_def dict_of_id json_ok.simps(4))
qed

lemma sort_keys_sorted_items:
  assumes "json_ok (\<lambda>s. True) (JObj d)"
  shows "sort_keys (JObj (sorted_items d)) = JObj (sorted_payload d)"
proof -
  have "distinct (map fst d)" using assms by (rule json_ok_JObjD)
  then have "sorted_payload (sorted_items d) = sorted_payload d"
    by (intro sorted_payload_cong) simp_all
  then show ?thesis by (simp add: sort_keys_JObj del: sort_keys.simps)
qed

lemma get_string_stored: "map_of d k = Some (JStr s) \<Longrightarrow> get_string d k = Inr s"
  by (simp add: get_string_def get_or_def require_string_def)

lemma approval_from_stored:
  assumes "approval_post_init c = Inr ()" "approval_to_dict c = Inr e" "stored d e" "metadata_text (ha_metadata c)"
  shows "approval_from_dict d = Inr (c\<lparr>ha_metadata := Some (sorted_payload (opt_or (ha_metadata c) []))\<rparr>)"
proof -
  let ?m = "opt_or (ha_metadata c) []"
  obtain u where u: "ha_captured_at c = Zoned u 0" "in_range u" and m: "\<not> list_ex (\<lambda>kv. blank (fst kv)) ?m"
    using assms(1) by (auto simp: approval_post_init_def bindE_eq_Inr_iff)
  have j: "json_ok (\<lambda>s. True) (JObj ?m)" using assms(4) json_ok_weaken unfolding metadata_text_def by blast
  have e: "e = contract_head ''human_approval'' (ha_contract_version c) (ha_producer_id c) (ha_run_id c) @ [
       (''actor_identity_ref'', JStr (ha_actor_identity_ref c)), (''role'', JStr (ha_role c)),
       (''approval_action'', JStr (ha_approval_action c)), (''approval_basis_digest'', JStr (ha_approval_basis_digest c)),
       (''scope'', JStr (ha_scope c)), (''captured_at'', JStr (iso_naive u @ ''Z'')), (''metadata'', JObj (sorted_items ?m))]"
    using assms(2) u m by (simp add: approval_to_dict_def datetime_to_json_Zoned metadata_of_Inr copy_mapping_id [OF j])
  have "json_ok (\<lambda>s. True) (JObj (sorted_payload ?m))" using j by (rule json_ok_sorted_payload)
  then have md: "require_object (get_or d ''metadata'' (JObj [])) ''metadata'' = Inr (sorted_payload ?m)"
    using storedD [OF assms(3), of "''metadata''"] sort_keys_sorted_items [OF j]
    by (simp add: e contract_head_def get_or_def require_object_id del: sort_keys.simps)
  have post: "approval_post_init (c\<lparr>ha_metadata := Some (sorted_payload ?m)\<rparr>) = Inr ()"
    using assms(1) by (auto simp: approval_post_init_def bindE_eq_Inr_iff opt_or_def sorted_payload_def list_ex_iff)
  have eta: "\<lparr>ha_contract_version = ha_contract_version c, ha_producer_id = ha_producer_id c, ha_run_id = ha_run_id c, ha_actor_identity_ref = ha_actor_identity_ref c, ha_role = ha_role c, ha_approval_action = ha_approval_action c, ha_approval_basis_digest = ha_approval_basis_digest c, ha_scope = ha_scope c, ha_captured_at = Zoned u 0, ha_metadata = x\<rparr> = c\<lparr>ha_metadata := x\<rparr>" for x
    using u by (cases c) simp
  show ?thesis
    unfolding approval_from_dict_def check_schema_def
    using storedD [OF assms(3)] u md construct_ok [where post = approval_post_init, OF post]
    by (simp add: e contract_head_def get_string_stored stamp_roundtrip eta)
qed

lemma revocation_from_stored:
  assumes "revocation_post_init c = Inr ()" "revocation_to_dict c = Inr e" "stored d e" "metadata_text (hr_metadata c)"
  shows "revocation_from_dict d = Inr (c\<lparr>hr_metadata := Some (sorted_payload (opt_or (hr_metadata c) []))\<rparr>)"
proof -
  let ?m = "opt_or (hr_metadata c) []"
  obtain u where u: "hr_captured_at c = Zoned u 0" "in_range u" and m: "\<not> list_ex (\<lambda>kv. blank (fst kv)) ?m"
    using assms(1) by (auto simp: revocation_post_init_def bindE_eq_Inr_iff)
  have j: "json_ok (\<lambda>s. True) (JObj ?m)" using assms(4) json_ok_weaken unfolding metadata_text_def by blast
  have e: "e = contract_head ''human_approval_revocation'' (hr_contract_version c) (hr_producer_id c) (hr_run_id c) @ [
       (''actor_identity_ref'', JStr (hr_actor_identity_ref c)), (''role'', JStr (hr_role c)),
       (''approval_action'', JStr (hr_approval_action c)), (''approval_basis_digest'', JStr (hr_approval_basis_digest c)),
       (''scope'', JStr (hr_scope c)), (''target_approval_receipt_id'', JStr (hr_target_id c)),
       (''target_approval_receipt_digest'', JStr (hr_target_digest c)), (''reason'', JStr (hr_reason c)),
       (''captured_at'', JStr (iso_naive u @ ''Z'')), (''metadata'', JObj (sorted_items ?m))]"
    using assms(2) u m by (simp add: revocation_to_dict_def datetime_to_json_Zoned metadata_of_Inr copy_mapping_id [OF j])
  have "json_ok (\<lambda>s. True) (JObj (sorted_payload ?m))" using j by (rule json_ok_sorted_payload)
  then have md: "require_object (get_or d ''metadata'' (JObj [])) ''metadata'' = Inr (sorted_payload ?m)"
    using storedD [OF assms(3), of "''metadata''"] sort_keys_sorted_items [OF j]
    by (simp add: e contract_head_def get_or_def require_object_id del: sort_keys.simps)
  have post: "revocation_post_init (c\<lparr>hr_metadata := Some (sorted_payload ?m)\<rparr>) = Inr ()"
    using assms(1) by (auto simp: revocation_post_init_def bindE_eq_Inr_iff opt_or_def sorted_payload_def list_ex_iff)
  have eta: "\<lparr>hr_contract_version = hr_contract_version c, hr_producer_id = hr_producer_id c, hr_run_id = hr_run_id c, hr_actor_identity_ref = hr_actor_identity_ref c, hr_role = hr_role c, hr_approval_action = hr_approval_action c, hr_approval_basis_digest = hr_approval_basis_digest c, hr_scope = hr_scope c, hr_target_id = hr_target_id c, hr_target_digest = hr_target_digest c, hr_reason = hr_reason c, hr_captured_at = Zoned u 0, hr_metadata = x\<rparr> = c\<lparr>hr_metadata := x\<rparr>" for x
    using u by (cases c) simp
  show ?thesis
    unfolding revocation_from_dict_def check_schema_def
    using storedD [OF assms(3)] u md construct_ok [where post = revocation_post_init, OF post]
    by (simp add: e contract_head_def get_string_stored stamp_roundtrip eta)
qed

lemma contract_bytes_read:
  assumes "json_ok utf8_ok (JObj e)"
  shows "utf8_ok (contract_bytes e)" "loads_object (contract_bytes e) field = Inr (sorted_payload e)" "stored (sorted_payload e) e"
proof -
  have j: "json_ok (\<lambda>s. True) (JObj e)" using assms by (rule json_ok_weaken)
  show "utf8_ok (contract_bytes e)"
    using printable_byte [OF printable_render [OF json_ok_sort_keys [OF assms]]]
    by (intro utf8_ok_ascii) (simp add: contract_bytes_def canonical_ascii_def)
  have "loads (contract_bytes e) = Some (JObj (sorted_payload e))"
    using loads_canonical_ascii [OF assms] by (simp add: contract_bytes_def sort_keys_JObj del: sort_keys.simps)
  then show "loads_object (contract_bytes e) field = Inr (sorted_payload e)"
    by (simp add: loads_object_def require_object_id json_ok_sorted_payload [OF j])
  show "stored (sorted_payload e) e" using assms by (rule stored_written)
qed

definition approval_text :: "approval_contract \<Rightarrow> bool" where
  "approval_text c = (list_all utf8_ok [ha_contract_version c, ha_producer_id c, ha_run_id c, ha_actor_identity_ref c, ha_role c,
     ha_approval_action c, ha_approval_basis_digest c, ha_scope c] \<and> metadata_text (ha_metadata c))"

definition revocation_text :: "revocation_contract \<Rightarrow> bool" where
  "revocation_text c = (list_all utf8_ok [hr_contract_version c, hr_producer_id c, hr_run_id c, hr_actor_identity_ref c, hr_role c,
     hr_approval_action c, hr_approval_basis_digest c, hr_scope c, hr_reason c] \<and> metadata_text (hr_metadata c))"

lemma contract_keys_utf8:
  "list_all utf8_ok [''schema_version'', schema_version, ''contract_type'', ''human_approval'', ''human_approval_revocation'',
     ''contract_version'', ''producer_id'', ''run_id'', ''actor_identity_ref'', ''role'', ''approval_action'',
     ''approval_basis_digest'', ''scope'', ''target_approval_receipt_id'', ''target_approval_receipt_digest'', ''reason'',
     ''captured_at'', ''metadata'']"
  by code_simp

lemma json_ok_sorted_items: "json_ok ok (JObj d) \<Longrightarrow> json_ok ok (JObj (sorted_items d))"
  by (auto simp: json_ok.simps(4) sorted_items_def)

lemma utf8_ok_iso_z: "utf8_ok (iso_naive u @ ''Z'')"
  using iso_naive_bytes [of u] by (intro utf8_ok_ascii) (simp add: byte_def)

lemma approval_json_ok:
  assumes "approval_post_init c = Inr ()" "approval_to_dict c = Inr e" "approval_text c"
  shows "json_ok utf8_ok (JObj e)"
proof -
  let ?m = "opt_or (ha_metadata c) []"
  obtain u where u: "ha_captured_at c = Zoned u 0" "in_range u" and m: "\<not> list_ex (\<lambda>kv. blank (fst kv)) ?m"
    using assms(1) by (auto simp: approval_post_init_def bindE_eq_Inr_iff)
  have k: "json_ok utf8_ok (JObj ?m)" using assms(3) by (simp add: approval_text_def metadata_text_def)
  have j: "json_ok (\<lambda>s. True) (JObj ?m)" using k by (rule json_ok_weaken)
  show ?thesis
    using assms(2,3) u m contract_keys_utf8 json_ok_sorted_items [OF k] utf8_ok_iso_z [of u]
    by (auto simp: approval_to_dict_def datetime_to_json_Zoned metadata_of_Inr copy_mapping_id [OF j] contract_head_def
        approval_text_def json_ok.simps(4))
qed

lemma revocation_json_ok:
  assumes "revocation_post_init c = Inr ()" "revocation_to_dict c = Inr e" "revocation_text c"
  shows "json_ok utf8_ok (JObj e)"
proof -
  let ?m = "opt_or (hr_metadata c) []"
  obtain u where u: "hr_captured_at c = Zoned u 0" "in_range u" and m: "\<not> list_ex (\<lambda>kv. blank (fst kv)) ?m"
    and sha: "is_sha256 (hr_target_id c)" "is_sha256 (hr_target_digest c)"
    using assms(1) by (auto simp: revocation_post_init_def bindE_eq_Inr_iff require_sha256_def)
  have k: "json_ok utf8_ok (JObj ?m)" using assms(3) by (simp add: revocation_text_def metadata_text_def)
  have j: "json_ok (\<lambda>s. True) (JObj ?m)" using k by (rule json_ok_weaken)
  show ?thesis
    using assms(2,3) u m contract_keys_utf8 json_ok_sorted_items [OF k] utf8_ok_iso_z [of u] sha [THEN utf8_ok_sha256]
    by (auto simp: revocation_to_dict_def datetime_to_json_Zoned metadata_of_Inr copy_mapping_id [OF j] contract_head_def
        revocation_text_def json_ok.simps(4))
qed

lemma sorted_payload_idem:
  assumes "json_ok ok (JObj d)"
  shows "sorted_payload (sorted_payload d) = sorted_payload d"
  using sort_keys_idem [OF assms] by (simp add: sort_keys_JObj del: sort_keys.simps)

lemma contract_bytes_cong:
  assumes "json_ok (\<lambda>s. True) (JObj d)" "json_ok (\<lambda>s. True) (JObj e)" "\<And>k. map_option sort_keys (map_of d k) = map_option sort_keys (map_of e k)"
  shows "contract_bytes d = contract_bytes e"
  using sorted_payload_cong [OF json_ok_JObjD [OF assms(1)] json_ok_JObjD [OF assms(2)] assms(3)]
  by (simp add: contract_bytes_def canonical_ascii_def sort_keys_JObj del: sort_keys.simps)

lemma approval_rewritten:
  assumes "approval_post_init c = Inr ()" "approval_to_dict c = Inr e" "approval_text c"
  shows "\<exists>e'. approval_to_dict (c\<lparr>ha_metadata := Some (sorted_payload (opt_or (ha_metadata c) []))\<rparr>) = Inr e' \<and>
    contract_bytes e' = contract_bytes e"
proof -
  let ?m = "opt_or (ha_metadata c) []"
  let ?s = "sorted_payload ?m"
  let ?h = "\<lambda>md. contract_head ''human_approval'' (ha_contract_version c) (ha_producer_id c) (ha_run_id c) @ [
       (''actor_identity_ref'', JStr (ha_actor_identity_ref c)), (''role'', JStr (ha_role c)),
       (''approval_action'', JStr (ha_approval_action c)), (''approval_basis_digest'', JStr (ha_approval_basis_digest c)),
       (''scope'', JStr (ha_scope c)), (''captured_at'', JStr (iso_naive (instant (stamp_datetime (ha_captured_at c))) @ ''Z'')), (''metadata'', md)]"
  obtain u where u: "ha_captured_at c = Zoned u 0" "in_range u" and m: "\<not> list_ex (\<lambda>kv. blank (fst kv)) ?m"
    using assms(1) by (auto simp: approval_post_init_def bindE_eq_Inr_iff)
  have k: "json_ok utf8_ok (JObj ?m)" using assms(3) by (simp add: approval_text_def metadata_text_def)
  have j: "json_ok (\<lambda>s. True) (JObj ?m)" using k by (rule json_ok_weaken)
  have js: "json_ok (\<lambda>s. True) (JObj ?s)" using j by (rule json_ok_sorted_payload)
  have ms: "\<not> list_ex (\<lambda>kv. blank (fst kv)) ?s" using m by (auto simp: sorted_payload_def list_ex_iff)
  have e: "e = ?h (JObj (sorted_items ?m))"
    using assms(2) u m by (simp add: approval_to_dict_def datetime_to_json_Zoned metadata_of_Inr copy_mapping_id [OF j])
  have e': "approval_to_dict (c\<lparr>ha_metadata := Some ?s\<rparr>) = Inr (?h (JObj (sorted_items ?s)))"
    using u ms metadata_of_Inr [of "Some ?s"] copy_mapping_id [OF js]
    by (simp add: approval_to_dict_def datetime_to_json_Zoned opt_or_def)
  have head: "json_ok (\<lambda>s. True) (JObj (?h md)) \<longleftrightarrow> json_ok (\<lambda>s. True) md" for md
    by (simp add: contract_head_def)
  have "contract_bytes (?h (JObj (sorted_items ?s))) = contract_bytes (?h (JObj (sorted_items ?m)))"
  proof (rule contract_bytes_cong)
    show "json_ok (\<lambda>s. True) (JObj (?h (JObj (sorted_items ?s))))" "json_ok (\<lambda>s. True) (JObj (?h (JObj (sorted_items ?m))))"
      unfolding head using json_ok_sorted_items js j by blast+
    have "sort_keys (JObj (sorted_items ?s)) = sort_keys (JObj (sorted_items ?m))"
      by (simp only: sort_keys_sorted_items [OF js] sort_keys_sorted_items [OF j] sorted_payload_idem [OF j])
    then show "map_option sort_keys (map_of (?h (JObj (sorted_items ?s))) x) = map_option sort_keys (map_of (?h (JObj (sorted_items ?m))) x)" for x
      by (simp add: contract_head_def del: sort_keys.simps)
  qed
  with e e' show ?thesis by simp
qed

text \<open>
  A stored human approval or revocation is read back as it was recorded: from the bytes of its payload the
  same contract is rebuilt, its metadata with sorted keys, and the rebuilt approval serialises to the
  same bytes, so the digest its evidence names is the digest of what it says.
\<close>

theorem human_contracts_roundtrip:
  "(approval_post_init a = Inr () \<and> approval_to_dict a = Inr d \<and> approval_text a \<longrightarrow>
      (let a' = a\<lparr>ha_metadata := Some (sorted_payload (opt_or (ha_metadata a) []))\<rparr> in
        bindE (contract_from_json_bytes (contract_bytes d)) approval_from_dict = Inr a' \<and>
        (\<exists>d'. approval_to_dict a' = Inr d' \<and> contract_bytes d' = contract_bytes d))) \<and>
   (revocation_post_init r = Inr () \<and> revocation_to_dict r = Inr e \<and> revocation_text r \<longrightarrow>
      bindE (contract_from_json_bytes (contract_bytes e)) revocation_from_dict =
        Inr (r\<lparr>hr_metadata := Some (sorted_payload (opt_or (hr_metadata r) []))\<rparr>))"
proof (intro conjI impI)
  assume a: "approval_post_init a = Inr () \<and> approval_to_dict a = Inr d \<and> approval_text a"
  then have j: "json_ok utf8_ok (JObj d)" using approval_json_ok by blast
  show "let a' = a\<lparr>ha_metadata := Some (sorted_payload (opt_or (ha_metadata a) []))\<rparr> in
        bindE (contract_from_json_bytes (contract_bytes d)) approval_from_dict = Inr a' \<and>
        (\<exists>d'. approval_to_dict a' = Inr d' \<and> contract_bytes d' = contract_bytes d)"
    using a approval_rewritten [of a d] approval_from_stored [of a d] contract_bytes_read [OF j]
    by (simp add: Let_def contract_from_json_bytes_def approval_text_def)
next
  assume r: "revocation_post_init r = Inr () \<and> revocation_to_dict r = Inr e \<and> revocation_text r"
  then have j: "json_ok utf8_ok (JObj e)" using revocation_json_ok by blast
  show "bindE (contract_from_json_bytes (contract_bytes e)) revocation_from_dict =
        Inr (r\<lparr>hr_metadata := Some (sorted_payload (opt_or (hr_metadata r) []))\<rparr>)"
    using r revocation_from_stored [of r e] contract_bytes_read [OF j]
    by (simp add: contract_from_json_bytes_def revocation_text_def)
qed

section \<open>Witnesses\<close>

definition sample_approval :: approval_contract where
  "sample_approval = \<lparr>ha_contract_version = ''1'', ha_producer_id = ''p'', ha_run_id = ''r'', ha_actor_identity_ref = ''actor'',
     ha_role = ''lead'', ha_approval_action = ''release'', ha_approval_basis_digest = ''b'', ha_scope = ''all'',
     ha_captured_at = Zoned 5 0, ha_metadata = Some [(''reason'', JStr ''ok''), (''a'', JArr [JInt 1])]\<rparr>"

lemma sample_approval_ok: "approval_post_init sample_approval = Inr ()" "approval_text sample_approval"
  "is_ok (approval_to_dict sample_approval)"
  by code_simp+

lemma contract_capture_complete_witness: "\<exists>r. capture_contract (HumanApproval sample_approval) = Inr r"
  using contract_capture_complete [of "HumanApproval sample_approval"] sample_approval_ok by auto

lemma issued_reference_meets_witness:
  "\<exists>r ref. capture_contract (HumanApproval sample_approval) = Inr r \<and> profile_evidence_reference r = Inr ref \<and>
     matches_contract ref ''human_approval'' \<and> \<not> matches_contract ref ''policy_evidence''"
proof -
  have "profile_kind ''human_approval'' = ''human_approval''" "CHR '':'' \<notin> set ''human_approval''" by code_simp+
  then show ?thesis
    using issued_reference_meets [of "HumanApproval sample_approval"] sample_approval_ok(1) by auto
qed

lemma human_contracts_roundtrip_witness:
  "\<exists>d. approval_to_dict sample_approval = Inr d \<and>
     is_ok (bindE (contract_from_json_bytes (contract_bytes d)) approval_from_dict)"
proof -
  obtain d where d: "approval_to_dict sample_approval = Inr d" using sample_approval_ok(3) by (auto simp: is_ok_iff)
  with human_contracts_roundtrip [of sample_approval d] sample_approval_ok show ?thesis by (auto simp: Let_def is_ok_iff)
qed

end
