(* ===== verification/JsonParsed.thy ===== *)
theory JsonParsed
  imports JsonSupport
begin

text \<open>
  What the JSON reader returns is a value Python can hold: its objects have distinct keys. So validating a decoded
  object, as \<open>loads_object\<close> does, changes nothing.
\<close>

lemma dict_of_snoc: "dict_of (kvs @ [(k, v)]) = AList.update k v (dict_of kvs)"
  by (simp add: dict_of_def)

lemma dict_of_parsed: "distinct (map fst (dict_of kvs)) \<and> set (dict_of kvs) \<subseteq> set kvs"
proof (induction kvs rule: rev_induct)
  case (snoc kv kvs)
  obtain k v where kv: "kv = (k, v)" by (cases kv)
  have "set (AList.update k v d) \<subseteq> insert (k, v) (set d)" for d :: "('a \<times> 'b) list"
    by (induction d) auto
  with snoc show ?case by (fastforce simp: kv dict_of_snoc distinct_update)
qed (simp add: dict_of_def)

lemma p_num_py_ok: "p_num s = Some (v, r) \<Longrightarrow> py_ok v"
  by (auto simp: p_num_def Let_def split: option.splits prod.splits list.splits if_splits)

lemma parsed_py_ok:
  "(p_value n s = Some (v, r) \<longrightarrow> py_ok v) \<and> (p_elems n s = Some (vs, r) \<longrightarrow> list_all py_ok vs) \<and>
   (p_members n s = Some (kvs, r) \<longrightarrow> list_all (\<lambda>kv. py_ok (snd kv)) kvs)"
proof (induction n arbitrary: s v vs kvs r)
  case (Suc n)
  have members: "py_ok (JObj (dict_of kvs))" if "p_members n s = Some (kvs, r)" for s kvs r
    using Suc.IH [of _ _ _ _ kvs] that dict_of_parsed [of kvs] by (fastforce simp: list_all_iff)
  have elems: "py_ok (JArr vs)" if "p_elems n s = Some (vs, r)" for s vs r
    using Suc.IH [of _ _ _ vs] that by (fastforce simp: list_all_iff)
  have "p_value (Suc n) s = Some (v, r) \<Longrightarrow> py_ok v"
    using members elems p_num_py_ok by (auto simp: p_value.simps split: list.splits if_splits)
  moreover have v: "p_value n s = Some (v, r) \<Longrightarrow> py_ok v" for s v r using Suc.IH by blast
  have e: "p_elems n s = Some (vs, r) \<Longrightarrow> list_all py_ok vs" for s vs r using Suc.IH by blast
  have m: "p_members n s = Some (kvs, r) \<Longrightarrow> list_all (\<lambda>kv. py_ok (snd kv)) kvs" for s kvs r using Suc.IH by blast
  have "p_elems (Suc n) s = Some (vs, r) \<Longrightarrow> list_all py_ok vs"
    by (auto simp: p_elems.simps split: option.splits list.splits if_splits prod.splits dest!: v e)
  moreover have "p_members (Suc n) s = Some (kvs, r) \<Longrightarrow> list_all (\<lambda>kv. py_ok (snd kv)) kvs"
    by (auto simp: p_members.simps split: option.splits list.splits if_splits prod.splits dest!: v m)
  ultimately show ?case by blast
qed (simp add: p_value.simps p_elems.simps p_members.simps)

lemma loads_py_ok: "loads s = Some v \<Longrightarrow> py_ok v"
  using parsed_py_ok by (fastforce simp: loads_def split: option.splits prod.splits if_splits)

lemma require_value_py_ok: "py_ok v \<Longrightarrow> require_value v field = Inr v"
proof (induction v field rule: require_value.induct)
  case (1 kvs field)
  have "mapE (\<lambda>(k, v). bindE (require_value v (field @ ''.'' @ k)) (\<lambda>w. Inr (k, w))) kvs =
      Inr (map id kvs)"
    using 1 by (intro mapE_Inr_id) fastforce
  with 1 show ?case by (simp add: dict_of_id)
next
  case (2 vs field)
  have "mapE (\<lambda>v. require_value v field) vs = Inr (map id vs)"
    using 2 by (intro mapE_Inr_id) simp
  then show ?case by simp
qed auto

lemma require_object_py_ok: "py_ok (JObj d) \<Longrightarrow> require_object (JObj d) field = Inr d"
  using require_value_py_ok [of "JObj d" field]
  by (simp add: require_object_def bindE_eq_Inr_iff)

lemma loads_object_iff: "loads_object s field = Inr d \<longleftrightarrow> loads s = Some (JObj d)"
  by (auto simp: loads_object_def require_object_py_ok dest: loads_py_ok split: option.splits)
    (metis loads_py_ok require_object_error require_object_py_ok sum.distinct(1) sum.inject(2))

end
