(* ===== verification/HumanApproval.thy ===== *)
theory HumanApproval
  imports AIContracts Ingestion JsonParsed "HOL-Library.Product_Lexorder"
begin

text \<open>
  \<open>adapters/human_approval.py\<close>: human approvals and their revocations as evidence in a workspace, and the lifecycle
  (active, superseded, revoked) projected from them. The clock and whether the lock is acquired are arguments,
  and so is what other processes write meanwhile, as for an ingestion.
\<close>

section \<open>Records\<close>

record approval_record =
  ar_contract :: approval_contract
  ar_receipt :: receipt

record revocation_record =
  vr_contract :: revocation_contract
  vr_receipt :: receipt

record lifecycle_item =
  li_approval :: approval_record
  li_status :: string
  li_superseded_by :: "string option"
  li_revocation :: "revocation_record option"

definition approval_producer_type :: string where
  "approval_producer_type = ''statewake-human-approval''"

definition revocation_producer_type :: string where
  "revocation_producer_type = ''statewake-human-approval-revocation''"

definition receipt_projection :: "receipt \<Rightarrow> payload" where
  "receipt_projection r = [
     (''receipt_id'', JStr (rp_receipt_id r)), (''receipt_digest'', JStr (rp_digest r)),
     (''artifact_digest'', JStr (rp_artifact_digest r)), (''captured_at'', JStr (utc_iso (rp_captured_at r))),
     (''producer_id'', JStr (rp_producer_id r)), (''run_id'', jopt_str (rp_run_id r))]"

definition approval_record_to_dict :: "approval_record \<Rightarrow> payload result" where
  "approval_record_to_dict a =
     bindE (approval_to_dict (ar_contract a)) (\<lambda>d.
     Inr [(''contract'', JObj d), (''receipt'', JObj (receipt_projection (ar_receipt a)))])"

definition revocation_record_to_dict :: "revocation_record \<Rightarrow> payload result" where
  "revocation_record_to_dict v =
     bindE (revocation_to_dict (vr_contract v)) (\<lambda>d.
     Inr [(''contract'', JObj d), (''receipt'', JObj (receipt_projection (vr_receipt v)))])"

definition lifecycle_item_to_dict :: "lifecycle_item \<Rightarrow> payload result" where
  "lifecycle_item_to_dict i =
     bindE (approval_record_to_dict (li_approval i)) (\<lambda>payload.
     bindE (case li_revocation i of None \<Rightarrow> Inr JNull | Some v \<Rightarrow> bindE (revocation_record_to_dict v) (\<lambda>d. Inr (JObj d))) (\<lambda>revocation.
     Inr (payload @ [(''lifecycle'', JObj [
       (''status'', JStr (li_status i)), (''superseded_by_receipt_id'', jopt_str (li_superseded_by i)),
       (''revocation'', revocation)])])))"

section \<open>Requests\<close>

text \<open>The arguments \<open>append\<close> and \<open>revoke\<close> have in common.\<close>

record lifecycle_request =
  lq_target_record_id :: string
  lq_candidate_identity :: string
  lq_candidate_digest :: string
  lq_report_digest :: string
  lq_profile_id :: string
  lq_profile_version :: string
  lq_actor_identity_ref :: string
  lq_actor_role :: string
  lq_producer_id :: string
  lq_run_id :: string
  lq_approval_action :: string
  lq_scope :: string
  lq_reason :: string
  lq_idempotency_key :: string

definition approval_request_fingerprint :: "lifecycle_request \<Rightarrow> string option \<Rightarrow> string" where
  "approval_request_fingerprint q supersedes = contract_digest [
     (''operation'', JStr ''approve''), (''target_record_id'', JStr (lq_target_record_id q)),
     (''candidate_digest'', JStr (lq_candidate_digest q)), (''report_digest'', JStr (lq_report_digest q)),
     (''actor_identity_ref'', JStr (lq_actor_identity_ref q)), (''actor_role'', JStr (lq_actor_role q)),
     (''producer_id'', JStr (lq_producer_id q)), (''run_id'', JStr (lq_run_id q)),
     (''approval_action'', JStr (lq_approval_action q)), (''scope'', JStr (lq_scope q)),
     (''reason'', JStr (lq_reason q)), (''supersedes_approval_receipt_id'', jopt_str supersedes)]"

definition revocation_request_fingerprint :: "lifecycle_request \<Rightarrow> string \<Rightarrow> string" where
  "revocation_request_fingerprint q target = contract_digest [
     (''operation'', JStr ''revoke''), (''target_record_id'', JStr (lq_target_record_id q)),
     (''candidate_digest'', JStr (lq_candidate_digest q)), (''report_digest'', JStr (lq_report_digest q)),
     (''target_approval_receipt_id'', JStr target),
     (''actor_identity_ref'', JStr (lq_actor_identity_ref q)), (''actor_role'', JStr (lq_actor_role q)),
     (''producer_id'', JStr (lq_producer_id q)), (''run_id'', JStr (lq_run_id q)),
     (''approval_action'', JStr (lq_approval_action q)), (''scope'', JStr (lq_scope q)),
     (''reason'', JStr (lq_reason q))]"

section \<open>Reading\<close>

text \<open>\<open>loads_object\<close> of the bytes of a file.\<close>

definition loads_bytes :: "string \<Rightarrow> string \<Rightarrow> payload result" where
  "loads_bytes content field =
     (if utf8_ok content then loads_object content field else Inl (UnicodeDecodeError field))"

definition verify_common :: "string \<Rightarrow> string \<Rightarrow> stamp \<Rightarrow> receipt \<Rightarrow> unit result" where
  "verify_common producer_id run_id captured_at r = guards [
     (producer_id \<noteq> rp_producer_id r, ValueError ''producer''),
     (Some run_id \<noteq> rp_run_id r, ValueError ''run''),
     (stamp_datetime captured_at \<noteq> rp_captured_at r, ValueError ''timestamp'')]"

datatype entry = Unrelated | Approved approval_record | Revoked revocation_record

definition read_approval :: "receipt \<Rightarrow> string \<Rightarrow> entry result" where
  "read_approval r content =
     bindE (bindE (loads_bytes content ''human approval contract'') approval_from_dict) (\<lambda>c.
     bindE (verify_common (ha_producer_id c) (ha_run_id c) (ha_captured_at c) r) (\<lambda>_.
     bindE (guards [(Some (ha_approval_basis_digest c) \<noteq> map_of (rp_metadata r) ''report_digest'', ValueError ''basis'')]) (\<lambda>_.
     Inr (Approved \<lparr>ar_contract = c, ar_receipt = r\<rparr>))))"

definition read_revocation :: "receipt \<Rightarrow> string \<Rightarrow> entry result" where
  "read_revocation r content =
     bindE (bindE (loads_bytes content ''human approval revocation contract'') revocation_from_dict) (\<lambda>c.
     bindE (verify_common (hr_producer_id c) (hr_run_id c) (hr_captured_at c) r) (\<lambda>_.
     bindE (guards [
       (Some (hr_approval_basis_digest c) \<noteq> map_of (rp_metadata r) ''report_digest'', ValueError ''basis''),
       (Some (hr_target_id c) \<noteq> map_of (rp_metadata r) ''target_approval_receipt_id'' \<or>
        Some (hr_target_digest c) \<noteq> map_of (rp_metadata r) ''target_approval_receipt_digest'', ValueError ''target'')]) (\<lambda>_.
     Inr (Revoked \<lparr>vr_contract = c, vr_receipt = r\<rparr>))))"

definition read_entry :: "artifacts \<Rightarrow> string \<Rightarrow> entry result" where
  "read_entry m content =
     bindE (bindE (loads_bytes content ''evidence receipt'') receipt_from_dict) (\<lambda>r.
     if rp_producer_type r \<notin> {approval_producer_type, revocation_producer_type} then Inr Unrelated
     else
       bindE (artifact_get m (rp_artifact_digest r)) (\<lambda>artifact.
       bindE (guards [(int (length artifact) \<noteq> rp_artifact_size r, ValueError ''artifact size'')]) (\<lambda>_.
       if rp_producer_type r = approval_producer_type then read_approval r artifact else read_revocation r artifact)))"

definition approvals_of :: "entry list \<Rightarrow> approval_record list" where
  "approvals_of es = concat (map (\<lambda>e. case e of Approved a \<Rightarrow> [a] | _ \<Rightarrow> []) es)"

definition revocations_of :: "entry list \<Rightarrow> revocation_record list" where
  "revocations_of es = concat (map (\<lambda>e. case e of Revoked v \<Rightarrow> [v] | _ \<Rightarrow> []) es)"

text \<open>The receipts are read in the order of their names, which counts those of other producers, too.\<close>

definition records_unlocked :: "int \<Rightarrow> evidence_store \<Rightarrow> (approval_record list \<times> revocation_record list) result" where
  "records_unlocked max_receipts s =
     (let paths = sorted_items (es_receipts s)
      in if max_receipts < int (length paths) then Inl (OverflowError ''approval receipt scan'')
         else bindE (mapE (\<lambda>(name, content). read_entry (es_artifacts s) content) paths) (\<lambda>es.
           Inr (approvals_of es, revocations_of es)))"

section \<open>The lifecycle\<close>

definition approvals_for_target :: "approval_record list \<Rightarrow> string \<Rightarrow> string \<Rightarrow> approval_record list" where
  "approvals_for_target approvals target_record_id report_digest =
     filter (\<lambda>a. map_of (rp_metadata (ar_receipt a)) ''target_record_id'' = Some target_record_id \<and>
       map_of (rp_metadata (ar_receipt a)) ''report_digest'' = Some report_digest) approvals"

definition require_authority_match :: "approval_record \<Rightarrow> string \<Rightarrow> string \<Rightarrow> string \<Rightarrow> unit result" where
  "require_authority_match a producer_id approval_action scope = guards [
     (ha_producer_id (ar_contract a) \<noteq> producer_id \<or> ha_approval_action (ar_contract a) \<noteq> approval_action \<or>
      ha_scope (ar_contract a) \<noteq> scope, ApprovalLifecycleTargetError ''authority'')]"

definition contract_metadata :: "approval_record \<Rightarrow> payload" where
  "contract_metadata a = opt_or (ha_metadata (ar_contract a)) []"

definition require_candidate_match :: "approval_record \<Rightarrow> lifecycle_request \<Rightarrow> unit result" where
  "require_candidate_match a q =
     (let md = contract_metadata a in guards [
       (map_of md ''candidate_identity'' \<noteq> Some (JStr (lq_candidate_identity q)) \<or>
        map_of md ''candidate_digest'' \<noteq> Some (JStr (lq_candidate_digest q)) \<or>
        map_of md ''profile_id'' \<noteq> Some (JStr (lq_profile_id q)) \<or>
        map_of md ''profile_version'' \<noteq> Some (JStr (lq_profile_version q)), ApprovalLifecycleTargetError ''candidate'')])"

definition approval_id :: "approval_record \<Rightarrow> string" where
  "approval_id a = rp_receipt_id (ar_receipt a)"

definition approval_time :: "approval_record \<Rightarrow> int" where
  "approval_time a = instant (stamp_datetime (ha_captured_at (ar_contract a)))"

definition revocation_time :: "revocation_record \<Rightarrow> int" where
  "revocation_time v = instant (stamp_datetime (hr_captured_at (vr_contract v)))"

text \<open>The statuses and the successors, by receipt.\<close>

type_synonym supersessions = "(string, string) dict \<times> (string, string) dict"

definition apply_supersession ::
    "(string, approval_record) dict \<Rightarrow> approval_record \<Rightarrow> supersessions \<Rightarrow> supersessions result" where
  "apply_supersession by_id successor = (\<lambda>(statuses, successors).
     let md = contract_metadata successor;
         predecessor_id = get_or md ''supersedes_approval_receipt_id'' JNull;
         predecessor_digest = get_or md ''supersedes_approval_receipt_digest'' JNull;
         c = ar_contract successor; r = ar_receipt successor
     in if predecessor_id = JNull \<and> predecessor_digest = JNull then Inr (statuses, successors)
        else case (predecessor_id, predecessor_digest) of
          (JStr p, JStr d) \<Rightarrow>
            (case map_of by_id p of
               None \<Rightarrow> Inl (ValueError ''unknown predecessor'')
             | Some predecessor \<Rightarrow>
                 bindE (guards [
                   (approval_id predecessor = approval_id successor, ValueError ''supersede itself''),
                   (rp_digest (ar_receipt predecessor) \<noteq> d, ValueError ''predecessor digest''),
                   (map_of (rp_metadata r) ''supersedes_approval_receipt_id'' \<noteq> Some p, ValueError ''receipt metadata''),
                   (map_of (rp_metadata r) ''supersedes_approval_receipt_digest'' \<noteq> Some d, ValueError ''receipt metadata'')]) (\<lambda>_.
                 bindE (require_authority_match predecessor (ha_producer_id c) (ha_approval_action c) (ha_scope c)) (\<lambda>_.
                 bindE (guards [
                   (approval_time successor < approval_time predecessor, ValueError ''precedes its predecessor''),
                   (map_of successors p \<noteq> None, ValueError ''more than one superseding successor'')]) (\<lambda>_.
                 Inr (AList.update p ''superseded'' statuses, AList.update p (approval_id successor) successors)))))
        | _ \<Rightarrow> Inl (ValueError ''incomplete''))"

type_synonym applied = "(string, string) dict \<times> (string, revocation_record) dict"

definition apply_revocation ::
    "(string, approval_record) dict \<Rightarrow> string \<Rightarrow> string \<Rightarrow> revocation_record \<Rightarrow> applied \<Rightarrow> applied result" where
  "apply_revocation by_id target_record_id report_digest v = (\<lambda>(statuses, revoked).
     let md = rp_metadata (vr_receipt v); c = vr_contract v; target_id = hr_target_id c
     in if map_of md ''target_record_id'' \<noteq> Some target_record_id \<or> map_of md ''report_digest'' \<noteq> Some report_digest
        then Inr (statuses, revoked)
        else case map_of by_id target_id of
          None \<Rightarrow> Inl (ValueError ''unknown approval'')
        | Some target \<Rightarrow>
            bindE (guards [(rp_digest (ar_receipt target) \<noteq> hr_target_digest c, ValueError ''target digest'')]) (\<lambda>_.
            bindE (require_authority_match target (hr_producer_id c) (hr_approval_action c) (hr_scope c)) (\<lambda>_.
            bindE (guards [
              (revocation_time v < approval_time target, ValueError ''precedes its target''),
              (map_of statuses target_id \<noteq> Some ''active'', ValueError ''conflicting transitions'')]) (\<lambda>_.
            Inr (AList.update target_id ''revoked'' statuses, AList.update target_id v revoked)))))"

definition lifecycle_unlocked ::
    "string \<Rightarrow> string \<Rightarrow> approval_record list \<Rightarrow> revocation_record list \<Rightarrow> lifecycle_item list result" where
  "lifecycle_unlocked target_record_id report_digest approvals revocations =
     (let selected = approvals_for_target approvals target_record_id report_digest;
          by_id = dict_of (map (\<lambda>a. (approval_id a, a)) selected)
      in bindE (foldE (apply_supersession by_id) selected (map (\<lambda>(i, _). (i, ''active'')) by_id, [])) (\<lambda>(statuses, successors).
         bindE (foldE (apply_revocation by_id target_record_id report_digest) revocations (statuses, [])) (\<lambda>(statuses, revoked).
         Inr (map (\<lambda>a. \<lparr>li_approval = a, li_status = dict_get statuses (approval_id a) [],
                li_superseded_by = map_of successors (approval_id a), li_revocation = map_of revoked (approval_id a)\<rparr>)
           (sort_key (\<lambda>a. (approval_time a, approval_id a)) selected)))))"

definition with_lock :: "bool \<Rightarrow> 'a result \<Rightarrow> 'a result" where
  "with_lock locked x = (if locked then x else Inl (TimeoutError ''human-approval lock''))"

definition for_target :: "bool \<Rightarrow> int \<Rightarrow> evidence_store \<Rightarrow> string \<Rightarrow> string \<Rightarrow> approval_record list result" where
  "for_target locked max_receipts s target_record_id report_digest = with_lock locked
     (bindE (records_unlocked max_receipts s) (\<lambda>(approvals, revocations).
      Inr (approvals_for_target approvals target_record_id report_digest)))"

definition lifecycle_for_target :: "bool \<Rightarrow> int \<Rightarrow> evidence_store \<Rightarrow> string \<Rightarrow> string \<Rightarrow> lifecycle_item list result" where
  "lifecycle_for_target locked max_receipts s target_record_id report_digest = with_lock locked
     (bindE (records_unlocked max_receipts s) (\<lambda>(approvals, revocations).
      lifecycle_unlocked target_record_id report_digest approvals revocations))"

definition active_for_target :: "bool \<Rightarrow> int \<Rightarrow> evidence_store \<Rightarrow> string \<Rightarrow> string \<Rightarrow> approval_record list result" where
  "active_for_target locked max_receipts s target_record_id report_digest =
     bindE (lifecycle_for_target locked max_receipts s target_record_id report_digest) (\<lambda>items.
     Inr (map li_approval (filter (\<lambda>i. li_status i = ''active'') items)))"

section \<open>Appending and revoking\<close>

definition store_init :: "int \<Rightarrow> unit result" where
  "store_init max_receipts = guards [(max_receipts \<le> 0, ValueError ''max_receipts'')]"

text \<open>\<open>_find_idempotent_retry\<close>\<close>

fun entry_metadata :: "entry \<Rightarrow> (string, string) dict" where
  "entry_metadata (Approved a) = rp_metadata (ar_receipt a)"
| "entry_metadata (Revoked v) = rp_metadata (vr_receipt v)"
| "entry_metadata Unrelated = []"

fun is_approval :: "entry \<Rightarrow> bool" where
  "is_approval (Approved _) = True"
| "is_approval _ = False"

fun find_retry :: "string \<Rightarrow> string \<Rightarrow> bool \<Rightarrow> entry list \<Rightarrow> entry option result" where
  "find_retry key fingerprint expect_approval [] = Inr None"
| "find_retry key fingerprint expect_approval (e # es) =
     (if map_of (entry_metadata e) ''idempotency_key'' \<noteq> Some key then find_retry key fingerprint expect_approval es
      else if map_of (entry_metadata e) ''request_fingerprint'' \<noteq> Some fingerprint
      then Inl (ApprovalIdempotencyConflictError ''request'')
      else if is_approval e = expect_approval then Inr (Some e)
      else Inl (ApprovalIdempotencyConflictError ''operation''))"

definition find_idempotent_retry ::
    "string \<Rightarrow> string \<Rightarrow> bool \<Rightarrow> approval_record list \<Rightarrow> revocation_record list \<Rightarrow> entry option result" where
  "find_idempotent_retry key fingerprint expect_approval approvals revocations =
     find_retry key fingerprint expect_approval (map Approved approvals @ map Revoked revocations)"

definition clock_time :: "datetime \<Rightarrow> stamp result" where
  "clock_time now =
     (if \<not> tz_aware now then Inl (ValueError ''approval clock'')
      else if \<not> in_range (instant now) then Inl (OverflowError ''date value out of range'')
      else Inr (Zoned (instant now) 0))"

text \<open>The approval a transition is about: in the lifecycle, active, of the same authority and candidate.\<close>

definition transition_target :: "lifecycle_request \<Rightarrow> string \<Rightarrow> lifecycle_item list \<Rightarrow> approval_record result" where
  "transition_target q i items =
     (case find_first (\<lambda>x. approval_id (li_approval x) = i) items of
        None \<Rightarrow> Inl (ApprovalLifecycleTargetError ''report basis'')
      | Some x \<Rightarrow>
          bindE (guards [(li_status x \<noteq> ''active'', ApprovalLifecycleConflictError ''only an active approval'')]) (\<lambda>_.
          bindE (require_authority_match (li_approval x) (lq_producer_id q) (lq_approval_action q) (lq_scope q)) (\<lambda>_.
          bindE (require_candidate_match (li_approval x) q) (\<lambda>_. Inr (li_approval x)))))"

definition already_recorded :: "lifecycle_request \<Rightarrow> approval_record option \<Rightarrow> lifecycle_item list \<Rightarrow> bool" where
  "already_recorded q predecessor items =
     list_ex (\<lambda>x. li_status x = ''active'' \<and>
       (case predecessor of None \<Rightarrow> True | Some p \<Rightarrow> approval_id (li_approval x) \<noteq> approval_id p) \<and>
       ha_actor_identity_ref (ar_contract (li_approval x)) = lq_actor_identity_ref q \<and>
       ha_approval_action (ar_contract (li_approval x)) = lq_approval_action q \<and>
       ha_scope (ar_contract (li_approval x)) = lq_scope q) items"

definition approval_metadata :: "lifecycle_request \<Rightarrow> approval_record option \<Rightarrow> payload" where
  "approval_metadata q predecessor =
     [(''candidate_identity'', JStr (lq_candidate_identity q)), (''candidate_digest'', JStr (lq_candidate_digest q)),
      (''profile_id'', JStr (lq_profile_id q)), (''profile_version'', JStr (lq_profile_version q)),
      (''reason'', JStr (lq_reason q)), (''target_record_id'', JStr (lq_target_record_id q))] @
     (case predecessor of None \<Rightarrow> [] | Some p \<Rightarrow>
        [(''supersedes_approval_receipt_id'', JStr (approval_id p)),
         (''supersedes_approval_receipt_digest'', JStr (rp_digest (ar_receipt p)))])"

definition approval_receipt_metadata ::
    "lifecycle_request \<Rightarrow> string \<Rightarrow> approval_record option \<Rightarrow> (string, string) dict" where
  "approval_receipt_metadata q fingerprint predecessor =
     [(''contract_type'', ''human_approval''), (''target_record_id'', lq_target_record_id q),
      (''candidate_digest'', lq_candidate_digest q), (''report_digest'', lq_report_digest q),
      (''request_fingerprint'', fingerprint), (''idempotency_key'', lq_idempotency_key q)] @
     (case predecessor of None \<Rightarrow> [] | Some p \<Rightarrow>
        [(''supersedes_approval_receipt_id'', approval_id p),
         (''supersedes_approval_receipt_digest'', rp_digest (ar_receipt p))])"

text \<open>The keyword arguments of the ingestion of a lifecycle contract.\<close>

definition lifecycle_ingest ::
    "string \<Rightarrow> string \<Rightarrow> lifecycle_request \<Rightarrow> stamp \<Rightarrow> (string, string) dict \<Rightarrow> ingest_request" where
  "lifecycle_ingest producer_type source_prefix q captured_at metadata =
     \<lparr>iq_producer_type = producer_type, iq_producer_id = lq_producer_id q,
      iq_source_ref = source_prefix @ lq_target_record_id q, iq_captured_at = stamp_datetime captured_at,
      iq_producer_version = None, iq_source_event_id = Some (lq_idempotency_key q), iq_run_id = Some (lq_run_id q),
      iq_metadata = metadata, iq_provenance_ref = None, iq_sensitivity = ''internal''\<rparr>"

text \<open>Everything between the check for a retry and the ingestion: the new contract with its request and bytes.\<close>

definition prepare_approval ::
    "datetime \<Rightarrow> lifecycle_request \<Rightarrow> string option \<Rightarrow> approval_record list \<Rightarrow> revocation_record list \<Rightarrow>
     (approval_contract \<times> ingest_request \<times> string) result" where
  "prepare_approval now q supersedes approvals revocations =
     bindE (lifecycle_unlocked (lq_target_record_id q) (lq_report_digest q) approvals revocations) (\<lambda>items.
     bindE (case supersedes of None \<Rightarrow> Inr None
            | Some i \<Rightarrow> bindE (transition_target q i items) (\<lambda>p. Inr (Some p))) (\<lambda>predecessor.
     bindE (guards [(already_recorded q predecessor items, ApprovalAlreadyRecordedError ''active approval'')]) (\<lambda>_.
     bindE (clock_time now) (\<lambda>captured_at.
     bindE (construct approval_post_init
       \<lparr>ha_contract_version = ''1'', ha_producer_id = lq_producer_id q, ha_run_id = lq_run_id q,
        ha_actor_identity_ref = lq_actor_identity_ref q, ha_role = lq_actor_role q,
        ha_approval_action = lq_approval_action q, ha_approval_basis_digest = lq_report_digest q,
        ha_scope = lq_scope q, ha_captured_at = captured_at,
        ha_metadata = Some (approval_metadata q predecessor)\<rparr>) (\<lambda>c.
     bindE (approval_to_dict c) (\<lambda>payload.
     Inr (c, lifecycle_ingest approval_producer_type ''human-approval:'' q captured_at
               (approval_receipt_metadata q (approval_request_fingerprint q supersedes) predecessor),
          contract_bytes payload)))))))"

definition approval_append ::
    "bool \<Rightarrow> string option \<times> string option \<Rightarrow> int \<Rightarrow> datetime \<Rightarrow> evidence_store \<Rightarrow> lifecycle_request \<Rightarrow> string option \<Rightarrow>
     (approval_record \<times> bool) result \<times> evidence_store" where
  "approval_append locked rivals max_receipts now s q supersedes =
     (case with_lock locked
         (bindE (records_unlocked max_receipts s) (\<lambda>(approvals, revocations).
          bindE (find_idempotent_retry (lq_idempotency_key q) (approval_request_fingerprint q supersedes) True approvals revocations)
            (\<lambda>retry. case retry of
               Some (Approved a) \<Rightarrow> Inr (Inl a)
             | _ \<Rightarrow> bindE (prepare_approval now q supersedes approvals revocations) (\<lambda>x. Inr (Inr x))))) of
        Inl e \<Rightarrow> (Inl e, s)
      | Inr (Inl a) \<Rightarrow> (Inr (a, False), s)
      | Inr (Inr (c, request, content)) \<Rightarrow>
          (case ingest_bytes rivals None s content request of
             (x, s') \<Rightarrow> (bindE x (\<lambda>r. Inr (\<lparr>ar_contract = c, ar_receipt = r\<rparr>, True)), s')))"

definition revocation_metadata :: "lifecycle_request \<Rightarrow> payload" where
  "revocation_metadata q =
     [(''candidate_identity'', JStr (lq_candidate_identity q)), (''candidate_digest'', JStr (lq_candidate_digest q)),
      (''profile_id'', JStr (lq_profile_id q)), (''profile_version'', JStr (lq_profile_version q)),
      (''target_record_id'', JStr (lq_target_record_id q))]"

definition revocation_receipt_metadata :: "lifecycle_request \<Rightarrow> string \<Rightarrow> approval_record \<Rightarrow> (string, string) dict" where
  "revocation_receipt_metadata q fingerprint target =
     [(''contract_type'', ''human_approval_revocation''), (''lifecycle_action'', ''revoke''),
      (''target_record_id'', lq_target_record_id q), (''candidate_digest'', lq_candidate_digest q),
      (''report_digest'', lq_report_digest q), (''target_approval_receipt_id'', approval_id target),
      (''target_approval_receipt_digest'', rp_digest (ar_receipt target)),
      (''request_fingerprint'', fingerprint), (''idempotency_key'', lq_idempotency_key q)]"

definition prepare_revocation ::
    "datetime \<Rightarrow> lifecycle_request \<Rightarrow> string \<Rightarrow> approval_record list \<Rightarrow> revocation_record list \<Rightarrow>
     (revocation_contract \<times> ingest_request \<times> string) result" where
  "prepare_revocation now q target_id approvals revocations =
     bindE (lifecycle_unlocked (lq_target_record_id q) (lq_report_digest q) approvals revocations) (\<lambda>items.
     bindE (transition_target q target_id items) (\<lambda>target.
     bindE (clock_time now) (\<lambda>captured_at.
     bindE (construct revocation_post_init
       \<lparr>hr_contract_version = ''1'', hr_producer_id = lq_producer_id q, hr_run_id = lq_run_id q,
        hr_actor_identity_ref = lq_actor_identity_ref q, hr_role = lq_actor_role q,
        hr_approval_action = lq_approval_action q, hr_approval_basis_digest = lq_report_digest q,
        hr_scope = lq_scope q, hr_target_id = approval_id target, hr_target_digest = rp_digest (ar_receipt target),
        hr_reason = lq_reason q, hr_captured_at = captured_at, hr_metadata = Some (revocation_metadata q)\<rparr>) (\<lambda>c.
     bindE (revocation_to_dict c) (\<lambda>payload.
     Inr (c, lifecycle_ingest revocation_producer_type ''human-approval-revocation:'' q captured_at
               (revocation_receipt_metadata q (revocation_request_fingerprint q target_id) target),
          contract_bytes payload))))))"

definition approval_revoke ::
    "bool \<Rightarrow> string option \<times> string option \<Rightarrow> int \<Rightarrow> datetime \<Rightarrow> evidence_store \<Rightarrow> lifecycle_request \<Rightarrow> string \<Rightarrow>
     (revocation_record \<times> bool) result \<times> evidence_store" where
  "approval_revoke locked rivals max_receipts now s q target_id =
     (case with_lock locked
         (bindE (records_unlocked max_receipts s) (\<lambda>(approvals, revocations).
          bindE (find_idempotent_retry (lq_idempotency_key q) (revocation_request_fingerprint q target_id) False approvals revocations)
            (\<lambda>retry. case retry of
               Some (Revoked v) \<Rightarrow> Inr (Inl v)
             | _ \<Rightarrow> bindE (prepare_revocation now q target_id approvals revocations) (\<lambda>x. Inr (Inr x))))) of
        Inl e \<Rightarrow> (Inl e, s)
      | Inr (Inl v) \<Rightarrow> (Inr (v, False), s)
      | Inr (Inr (c, request, content)) \<Rightarrow>
          (case ingest_bytes rivals None s content request of
             (x, s') \<Rightarrow> (bindE x (\<lambda>r. Inr (\<lparr>vr_contract = c, vr_receipt = r\<rparr>, True)), s')))"

section \<open>A consistent lifecycle\<close>

definition supersedes_of :: "approval_record \<Rightarrow> string option" where
  "supersedes_of a = (case map_of (contract_metadata a) ''supersedes_approval_receipt_id'' of Some (JStr p) \<Rightarrow> Some p | _ \<Rightarrow> None)"

definition same_authority :: "approval_record \<Rightarrow> string \<Rightarrow> string \<Rightarrow> string \<Rightarrow> bool" where
  "same_authority a producer_id approval_action scope =
     (ha_producer_id (ar_contract a) = producer_id \<and> ha_approval_action (ar_contract a) = approval_action \<and>
      ha_scope (ar_contract a) = scope)"

text \<open>An approval that supersedes none, and one that supersedes \<open>p\<close>.\<close>

definition no_link :: "approval_record \<Rightarrow> bool" where
  "no_link a = (map_of (contract_metadata a) ''supersedes_approval_receipt_id'' = None \<and>
     map_of (contract_metadata a) ''supersedes_approval_receipt_digest'' = None)"

definition link_to :: "approval_record \<Rightarrow> approval_record \<Rightarrow> bool" where
  "link_to a p =
     (map_of (contract_metadata a) ''supersedes_approval_receipt_id'' = Some (JStr (approval_id p)) \<and>
      map_of (contract_metadata a) ''supersedes_approval_receipt_digest'' = Some (JStr (rp_digest (ar_receipt p))) \<and>
      map_of (rp_metadata (ar_receipt a)) ''supersedes_approval_receipt_id'' = Some (approval_id p) \<and>
      map_of (rp_metadata (ar_receipt a)) ''supersedes_approval_receipt_digest'' = Some (rp_digest (ar_receipt p)) \<and>
      approval_id p \<noteq> approval_id a \<and>
      same_authority p (ha_producer_id (ar_contract a)) (ha_approval_action (ar_contract a)) (ha_scope (ar_contract a)) \<and>
      approval_time p \<le> approval_time a)"

definition revocation_of :: "revocation_record \<Rightarrow> approval_record \<Rightarrow> bool" where
  "revocation_of v p =
     (approval_id p = hr_target_id (vr_contract v) \<and> rp_digest (ar_receipt p) = hr_target_digest (vr_contract v) \<and>
      same_authority p (hr_producer_id (vr_contract v)) (hr_approval_action (vr_contract v)) (hr_scope (vr_contract v)) \<and>
      approval_time p \<le> revocation_time v)"

lemma require_authority_Inr [simp]: "require_authority_match a p x s = Inr () \<longleftrightarrow> same_authority a p x s"
  by (auto simp: require_authority_match_def same_authority_def)

lemma authority_ok [simp]: "same_authority a p x s \<Longrightarrow> require_authority_match a p x s = Inr ()"
  by simp

lemma supersedes_no_link: "no_link a \<Longrightarrow> supersedes_of a = None"
  by (simp add: no_link_def supersedes_of_def)

lemma supersedes_link: "link_to a p \<Longrightarrow> supersedes_of a = Some (approval_id p)"
  by (simp add: link_to_def supersedes_of_def)

lemma supersession_none: "no_link a \<Longrightarrow> apply_supersession b a s = Inr s"
  by (cases s) (simp add: no_link_def apply_supersession_def get_or_def)

lemma supersession_one:
  assumes "link_to a p" "map_of b (approval_id p) = Some p" "map_of successors (approval_id p) = None"
  shows "apply_supersession b a (statuses, successors) =
    Inr (AList.update (approval_id p) ''superseded'' statuses, AList.update (approval_id p) (approval_id a) successors)"
proof -
  have "same_authority p (ha_producer_id (ar_contract a)) (ha_approval_action (ar_contract a)) (ha_scope (ar_contract a))"
    using assms(1) by (simp add: link_to_def)
  with assms show ?thesis
    by (simp add: link_to_def apply_supersession_def get_or_def Let_def)
qed

text \<open>The pass over the supersessions depends on the set of the approvals only.\<close>

lemma supersessions_fold:
  assumes "\<forall>a \<in> set xs. no_link a \<or> (\<exists>p. link_to a p \<and> map_of b (approval_id p) = Some p)"
    and "distinct (map approval_id xs)"
    and "\<forall>a \<in> set xs. \<forall>a' \<in> set xs. \<forall>p. supersedes_of a = Some p \<and> supersedes_of a' = Some p \<longrightarrow> a = a'"
    and "\<forall>a \<in> set xs. \<forall>p. supersedes_of a = Some p \<longrightarrow> map_of successors p = None"
  shows "\<exists>statuses' successors'. foldE (apply_supersession b) xs (statuses, successors) = Inr (statuses', successors') \<and>
    map_of statuses' = (\<lambda>i. if \<exists>a \<in> set xs. supersedes_of a = Some i then Some ''superseded'' else map_of statuses i)"
  using assms
proof (induction xs arbitrary: statuses successors)
  case Nil
  then show ?case by simp
next
  case (Cons a xs)
  show ?case
  proof (cases "no_link a")
    case True
    have "\<exists>statuses' successors'. foldE (apply_supersession b) xs (statuses, successors) = Inr (statuses', successors') \<and>
      map_of statuses' = (\<lambda>i. if \<exists>a \<in> set xs. supersedes_of a = Some i then Some ''superseded'' else map_of statuses i)"
      by (rule Cons.IH) (use Cons.prems in auto)
    then show ?thesis using True supersedes_no_link [OF True] by (auto simp: supersession_none fun_eq_iff)
  next
    case False
    then obtain p where p: "link_to a p" "map_of b (approval_id p) = Some p" using Cons.prems(1) by auto
    note sup = supersedes_link [OF p(1)]
    have free: "map_of successors (approval_id p) = None" using Cons.prems(4) sup by simp
    have other: "\<forall>a' \<in> set xs. supersedes_of a' \<noteq> Some (approval_id p)"
      using Cons.prems(2,3) sup by (metis (no_types, lifting) distinct.simps(2) list.set_intros list.simps(9) option.discI image_eqI set_map)
    have "\<exists>statuses' successors'. foldE (apply_supersession b) xs
        (AList.update (approval_id p) ''superseded'' statuses, AList.update (approval_id p) (approval_id a) successors) =
          Inr (statuses', successors') \<and>
      map_of statuses' = (\<lambda>i. if \<exists>a \<in> set xs. supersedes_of a = Some i then Some ''superseded''
        else map_of (AList.update (approval_id p) ''superseded'' statuses) i)"
      by (rule Cons.IH) (use Cons.prems other in \<open>auto simp: update_conv'\<close>)
    then show ?thesis using supersession_one [OF p free] sup by (auto simp: update_conv' fun_eq_iff)
  qed
qed

lemma revocation_step:
  assumes "map_of (rp_metadata (vr_receipt v)) ''target_record_id'' = Some t" "map_of (rp_metadata (vr_receipt v)) ''report_digest'' = Some d"
    and "revocation_of v p" "map_of b (approval_id p) = Some p" "map_of statuses (approval_id p) = Some ''active''"
  shows "apply_revocation b t d v (statuses, revoked) =
    Inr (AList.update (approval_id p) ''revoked'' statuses, AList.update (approval_id p) v revoked)"
proof -
  have i: "hr_target_id (vr_contract v) = approval_id p"
    and "same_authority p (hr_producer_id (vr_contract v)) (hr_approval_action (vr_contract v)) (hr_scope (vr_contract v))"
    using assms(3) by (simp_all add: revocation_of_def)
  with assms show ?thesis
    by (simp add: revocation_of_def apply_revocation_def Let_def)
qed

definition revocation_for :: "string \<Rightarrow> string \<Rightarrow> revocation_record \<Rightarrow> bool" where
  "revocation_for t d v =
     (map_of (rp_metadata (vr_receipt v)) ''target_record_id'' = Some t \<and> map_of (rp_metadata (vr_receipt v)) ''report_digest'' = Some d)"

definition revokes :: "revocation_record \<Rightarrow> string" where
  "revokes v = hr_target_id (vr_contract v)"

lemma revocations_fold:
  assumes "\<forall>v \<in> set vs. revocation_for t d v \<longrightarrow> (\<exists>p. revocation_of v p \<and> map_of b (approval_id p) = Some p \<and>
      map_of statuses (approval_id p) = Some ''active'')"
    and "distinct (map (\<lambda>v. rp_receipt_id (vr_receipt v)) vs)"
    and "\<forall>v \<in> set vs. \<forall>v' \<in> set vs. revocation_for t d v \<and> revocation_for t d v' \<and> revokes v = revokes v' \<longrightarrow> v = v'"
  shows "\<exists>statuses' revoked'. foldE (apply_revocation b t d) vs (statuses, revoked) = Inr (statuses', revoked') \<and>
    map_of statuses' = (\<lambda>i. if \<exists>v \<in> set vs. revocation_for t d v \<and> revokes v = i then Some ''revoked'' else map_of statuses i)"
  using assms
proof (induction vs arbitrary: statuses revoked)
  case Nil
  then show ?case by simp
next
  case (Cons v vs)
  show ?case
  proof (cases "revocation_for t d v")
    case False
    then have "apply_revocation b t d v (statuses, revoked) = Inr (statuses, revoked)"
      by (auto simp: revocation_for_def apply_revocation_def Let_def)
    moreover have "\<exists>statuses' revoked'. foldE (apply_revocation b t d) vs (statuses, revoked) = Inr (statuses', revoked') \<and>
      map_of statuses' = (\<lambda>i. if \<exists>v \<in> set vs. revocation_for t d v \<and> revokes v = i then Some ''revoked'' else map_of statuses i)"
      by (rule Cons.IH) (use Cons.prems in auto)
    ultimately show ?thesis using False by (auto simp: fun_eq_iff)
  next
    case True
    then obtain p where p: "revocation_of v p" "map_of b (approval_id p) = Some p" "map_of statuses (approval_id p) = Some ''active''"
      using Cons.prems(1) by auto
    have rv: "revokes v = approval_id p" using p(1) by (simp add: revocation_of_def revokes_def)
    have other: "\<forall>v' \<in> set vs. revocation_for t d v' \<longrightarrow> revokes v' \<noteq> approval_id p"
      using Cons.prems(2,3) True rv by (metis (no_types, lifting) distinct.simps(2) list.set_intros list.simps(9) image_eqI set_map)
    have "\<exists>statuses' revoked'. foldE (apply_revocation b t d) vs
        (AList.update (approval_id p) ''revoked'' statuses, AList.update (approval_id p) v revoked) = Inr (statuses', revoked') \<and>
      map_of statuses' = (\<lambda>i. if \<exists>v \<in> set vs. revocation_for t d v \<and> revokes v = i then Some ''revoked''
        else map_of (AList.update (approval_id p) ''revoked'' statuses) i)"
    proof (rule Cons.IH)
      show "\<forall>v' \<in> set vs. revocation_for t d v' \<longrightarrow> (\<exists>q. revocation_of v' q \<and> map_of b (approval_id q) = Some q \<and>
          map_of (AList.update (approval_id p) ''revoked'' statuses) (approval_id q) = Some ''active'')"
        using Cons.prems(1) other by (fastforce simp: update_conv' revokes_def revocation_of_def)
    qed (use Cons.prems in auto)
    moreover have "apply_revocation b t d v (statuses, revoked) =
        Inr (AList.update (approval_id p) ''revoked'' statuses, AList.update (approval_id p) v revoked)"
      using True p by (intro revocation_step) (simp_all add: revocation_for_def)
    ultimately show ?thesis using True rv by (auto simp: update_conv' fun_eq_iff)
  qed
qed

text \<open>The lifecycle of one basis, as a property of the sets of approvals and revocations.\<close>

definition approval_for :: "string \<Rightarrow> string \<Rightarrow> approval_record \<Rightarrow> bool" where
  "approval_for t d a =
     (map_of (rp_metadata (ar_receipt a)) ''target_record_id'' = Some t \<and> map_of (rp_metadata (ar_receipt a)) ''report_digest'' = Some d)"

definition superseded_in :: "string \<Rightarrow> string \<Rightarrow> approval_record set \<Rightarrow> string \<Rightarrow> bool" where
  "superseded_in t d A i = (\<exists>a \<in> A. approval_for t d a \<and> supersedes_of a = Some i)"

definition revoked_in :: "string \<Rightarrow> string \<Rightarrow> revocation_record set \<Rightarrow> string \<Rightarrow> bool" where
  "revoked_in t d V i = (\<exists>v \<in> V. revocation_for t d v \<and> revokes v = i)"

definition active_in :: "string \<Rightarrow> string \<Rightarrow> approval_record set \<Rightarrow> revocation_record set \<Rightarrow> approval_record \<Rightarrow> bool" where
  "active_in t d A V a = (\<not> superseded_in t d A (approval_id a) \<and> \<not> revoked_in t d V (approval_id a))"

definition same_grant :: "approval_record \<Rightarrow> approval_record \<Rightarrow> bool" where
  "same_grant a b =
     (ha_actor_identity_ref (ar_contract a) = ha_actor_identity_ref (ar_contract b) \<and>
      ha_approval_action (ar_contract a) = ha_approval_action (ar_contract b) \<and>
      ha_scope (ar_contract a) = ha_scope (ar_contract b))"

definition links_ok :: "string \<Rightarrow> string \<Rightarrow> approval_record set \<Rightarrow> bool" where
  "links_ok t d A =
     ((\<forall>a \<in> A. approval_for t d a \<longrightarrow> no_link a \<or> (\<exists>p \<in> A. approval_for t d p \<and> link_to a p)) \<and>
      (\<forall>a \<in> A. \<forall>a' \<in> A. \<forall>p. approval_for t d a \<and> approval_for t d a' \<and> supersedes_of a = Some p \<and> supersedes_of a' = Some p \<longrightarrow> a = a'))"

definition revocations_ok :: "string \<Rightarrow> string \<Rightarrow> approval_record set \<Rightarrow> revocation_record set \<Rightarrow> bool" where
  "revocations_ok t d A V =
     ((\<forall>v \<in> V. revocation_for t d v \<longrightarrow> (\<exists>p \<in> A. approval_for t d p \<and> revocation_of v p \<and> \<not> superseded_in t d A (approval_id p))) \<and>
      (\<forall>v \<in> V. \<forall>v' \<in> V. revocation_for t d v \<and> revocation_for t d v' \<and> revokes v = revokes v' \<longrightarrow> v = v'))"

definition unique_active :: "string \<Rightarrow> string \<Rightarrow> approval_record set \<Rightarrow> revocation_record set \<Rightarrow> bool" where
  "unique_active t d A V =
     (\<forall>a \<in> A. \<forall>a' \<in> A. approval_for t d a \<and> approval_for t d a' \<and> active_in t d A V a \<and> active_in t d A V a' \<and> same_grant a a' \<longrightarrow> a = a')"

definition status_in :: "string \<Rightarrow> string \<Rightarrow> approval_record set \<Rightarrow> revocation_record set \<Rightarrow> approval_record \<Rightarrow> string" where
  "status_in t d A V a =
     (if revoked_in t d V (approval_id a) then ''revoked''
      else if superseded_in t d A (approval_id a) then ''superseded'' else ''active'')"

lemma set_approvals_for_target: "set (approvals_for_target A t d) = {a \<in> set A. approval_for t d a}"
  by (auto simp: approvals_for_target_def approval_for_def)

lemma distinct_approvals_for_target: "distinct (map approval_id A) \<Longrightarrow> distinct (map approval_id (approvals_for_target A t d))"
  by (simp add: approvals_for_target_def distinct_map_filter)

lemma lifecycle_projected:
  assumes "links_ok t d (set A)" "revocations_ok t d (set A) (set V)"
    and "distinct (map approval_id A)" "distinct (map (\<lambda>v. rp_receipt_id (vr_receipt v)) V)"
  shows "\<exists>items. lifecycle_unlocked t d A V = Inr items \<and>
    set (map li_approval items) = {a \<in> set A. approval_for t d a} \<and>
    (\<forall>x \<in> set items. li_status x = status_in t d (set A) (set V) (li_approval x))"
proof -
  let ?sel = "approvals_for_target A t d"
  let ?b = "map (\<lambda>a. (approval_id a, a)) ?sel"
  have dist: "distinct (map approval_id ?sel)" using assms(3) by (rule distinct_approvals_for_target)
  then have keys: "distinct (map fst ?b)" by (simp add: comp_def)
  have b: "dict_of ?b = ?b" using keys by (rule dict_of_id)
  have look: "map_of ?b (approval_id a) = Some a" if "a \<in> set ?sel" for a
    using keys that by (intro map_of_is_SomeI) auto
  have start: "map_of (map (\<lambda>(i, _). (i, ''active'')) ?b) (approval_id a) = Some ''active''" if "a \<in> set ?sel" for a
    using dist that by (intro map_of_is_SomeI) (auto simp: comp_def)
  obtain st su where sup: "foldE (apply_supersession ?b) ?sel (map (\<lambda>(i, _). (i, ''active'')) ?b, []) = Inr (st, su)"
    and st: "map_of st = (\<lambda>i. if \<exists>a \<in> set ?sel. supersedes_of a = Some i then Some ''superseded''
      else map_of (map (\<lambda>(i, _). (i, ''active'')) ?b) i)"
    using supersessions_fold [of ?sel ?b "[]" "map (\<lambda>(i, _). (i, ''active'')) ?b"] assms(1) dist look
    unfolding links_ok_def set_approvals_for_target by fastforce
  have sd: "(\<exists>a \<in> set ?sel. supersedes_of a = Some i) \<longleftrightarrow> superseded_in t d (set A) i" for i
    by (auto simp: superseded_in_def set_approvals_for_target)
  obtain st' rv where rev: "foldE (apply_revocation ?b t d) V (st, []) = Inr (st', rv)"
    and st': "map_of st' = (\<lambda>i. if revoked_in t d (set V) i then Some ''revoked'' else map_of st i)"
  proof -
    have "\<forall>v \<in> set V. revocation_for t d v \<longrightarrow> (\<exists>p. revocation_of v p \<and> map_of ?b (approval_id p) = Some p \<and>
        map_of st (approval_id p) = Some ''active'')"
    proof (intro ballI impI)
      fix v assume "v \<in> set V" "revocation_for t d v"
      then obtain p where p: "p \<in> set A" "approval_for t d p" "revocation_of v p" "\<not> superseded_in t d (set A) (approval_id p)"
        using assms(2) unfolding revocations_ok_def by blast
      then have "p \<in> set ?sel" by (simp add: set_approvals_for_target)
      then show "\<exists>p. revocation_of v p \<and> map_of ?b (approval_id p) = Some p \<and> map_of st (approval_id p) = Some ''active''"
        using p look start st sd by (intro exI [of _ p]) simp
    qed
    then show ?thesis
      using revocations_fold [of V t d ?b st "[]"] assms(2,4) that unfolding revocations_ok_def revoked_in_def by blast
  qed
  let ?items = "map (\<lambda>a. \<lparr>li_approval = a, li_status = dict_get st' (approval_id a) [],
                li_superseded_by = map_of su (approval_id a), li_revocation = map_of rv (approval_id a)\<rparr>)
           (sort_key (\<lambda>a. (approval_time a, approval_id a)) ?sel)"
  have "lifecycle_unlocked t d A V = Inr ?items"
    unfolding lifecycle_unlocked_def Let_def b sup by (simp add: rev)
  moreover have "dict_get st' (approval_id a) [] = status_in t d (set A) (set V) a" if "a \<in> set ?sel" for a
    using start [OF that] st sd by (simp add: dict_get_def opt_or_def st' status_in_def)
  ultimately show ?thesis by (intro exI [of _ ?items]) (auto simp: set_approvals_for_target)
qed

section \<open>The files of the store\<close>

definition receipt_in :: "string \<Rightarrow> receipt result" where
  "receipt_in content = bindE (loads_bytes content ''evidence receipt'') receipt_from_dict"

definition file_ok :: "artifacts \<Rightarrow> string \<times> string \<Rightarrow> bool" where
  "file_ok m nc = (\<exists>r e. receipt_in (snd nc) = Inr r \<and> fst nc = receipt_file (rp_receipt_id r) \<and> read_entry m (snd nc) = Inr e)"

definition entries_of :: "evidence_store \<Rightarrow> entry list" where
  "entries_of s = map (\<lambda>nc. projr (read_entry (es_artifacts s) (snd nc))) (sorted_items (es_receipts s))"

definition approvals_in :: "evidence_store \<Rightarrow> approval_record set" where
  "approvals_in s = set (approvals_of (entries_of s))"

definition revocations_in :: "evidence_store \<Rightarrow> revocation_record set" where
  "revocations_in s = set (revocations_of (entries_of s))"

definition store_ok :: "evidence_store \<Rightarrow> bool" where
  "store_ok s =
     (distinct (map fst (es_receipts s)) \<and> (\<forall>nc \<in> set (es_receipts s). file_ok (es_artifacts s) nc) \<and>
      (\<forall>t d. links_ok t d (approvals_in s) \<and> revocations_ok t d (approvals_in s) (revocations_in s) \<and>
        unique_active t d (approvals_in s) (revocations_in s)))"

lemma receipt_file_inject [simp]: "receipt_file i = receipt_file j \<longleftrightarrow> i = j"
  by (simp add: receipt_file_def)

lemma read_entry_receipt:
  assumes "read_entry m c = Inr e"
  shows "e = Approved a \<Longrightarrow> receipt_in c = Inr (ar_receipt a) \<and> rp_producer_type (ar_receipt a) = approval_producer_type"
    and "e = Revoked v \<Longrightarrow> receipt_in c = Inr (vr_receipt v) \<and> rp_producer_type (vr_receipt v) = revocation_producer_type"
  using assms
  by (auto simp: read_entry_def receipt_in_def bindE_eq_Inr_iff read_approval_def read_revocation_def split: if_splits)

lemma read_entry_mono:
  assumes "read_entry m c = Inr e" "\<And>k b. m k = Some b \<Longrightarrow> m' k = Some b"
  shows "read_entry m' c = Inr e"
proof -
  have "artifact_get m' d = Inr b" if "artifact_get m d = Inr b" for d b
    using that assms(2) by (simp add: artifact_get_Inr)
  then show ?thesis using assms(1) by (auto simp: read_entry_def bindE_eq_Inr_iff split: if_splits)
qed

lemma set_sorted_items [simp]: "set (sorted_items d) = set d"
  by (simp add: sorted_items_def)

lemma approvals_of_simps [simp]:
  "approvals_of [] = []" "approvals_of (e # es) = (case e of Approved a \<Rightarrow> a # approvals_of es | _ \<Rightarrow> approvals_of es)"
  "revocations_of [] = []" "revocations_of (e # es) = (case e of Revoked v \<Rightarrow> v # revocations_of es | _ \<Rightarrow> revocations_of es)"
  by (simp_all add: approvals_of_def revocations_of_def split: entry.split)

lemma set_approvals_of: "set (approvals_of es) = {a. Approved a \<in> set es}" "set (revocations_of es) = {v. Revoked v \<in> set es}"
  by (induction es) (auto split: entry.splits)

lemma file_ok_entry:
  assumes "file_ok m nc"
  obtains e where "read_entry m (snd nc) = Inr e" "projr (read_entry m (snd nc)) = e"
    "\<And>a. e = Approved a \<Longrightarrow> fst nc = receipt_file (approval_id a)"
    "\<And>v. e = Revoked v \<Longrightarrow> fst nc = receipt_file (rp_receipt_id (vr_receipt v))"
proof -
  obtain r e where e: "receipt_in (snd nc) = Inr r" "fst nc = receipt_file (rp_receipt_id r)" "read_entry m (snd nc) = Inr e"
    using assms by (auto simp: file_ok_def)
  show thesis
    by (rule that [OF e(3)]) (use e read_entry_receipt [OF e(3)] in \<open>auto simp: approval_id_def\<close>)
qed

lemma file_ok_named:
  assumes "file_ok m nc"
  shows "projr (read_entry m (snd nc)) = Approved a \<Longrightarrow> fst nc = receipt_file (approval_id a)"
    and "projr (read_entry m (snd nc)) = Revoked v \<Longrightarrow> fst nc = receipt_file (rp_receipt_id (vr_receipt v))"
  by (rule file_ok_entry [OF assms], simp)+

lemma distinct_ids:
  assumes "distinct (map fst xs)" "\<forall>nc \<in> set xs. file_ok m nc"
  shows "distinct (map approval_id (approvals_of (map (\<lambda>nc. projr (read_entry m (snd nc))) xs))) \<and>
    distinct (map (\<lambda>v. rp_receipt_id (vr_receipt v)) (revocations_of (map (\<lambda>nc. projr (read_entry m (snd nc))) xs)))"
  using assms
proof (induction xs)
  case (Cons nc xs)
  let ?es = "map (\<lambda>nc. projr (read_entry m (snd nc))) xs"
  have ok: "file_ok m nc'" if "nc' \<in> set xs" for nc' using Cons.prems(2) that by simp
  have a: "\<exists>nc' \<in> set xs. fst nc' = receipt_file (approval_id a)" if in_a: "a \<in> set (approvals_of ?es)" for a
  proof -
    obtain nc' where "nc' \<in> set xs" "projr (read_entry m (snd nc')) = Approved a"
      using in_a unfolding set_approvals_of by fastforce
    then show ?thesis using file_ok_named(1) [OF ok] by blast
  qed
  have v: "\<exists>nc' \<in> set xs. fst nc' = receipt_file (rp_receipt_id (vr_receipt v))" if in_v: "v \<in> set (revocations_of ?es)" for v
  proof -
    obtain nc' where "nc' \<in> set xs" "projr (read_entry m (snd nc')) = Revoked v"
      using in_v unfolding set_approvals_of by fastforce
    then show ?thesis using file_ok_named(2) [OF ok] by blast
  qed
  have new: "fst nc \<noteq> fst nc'" if "nc' \<in> set xs" for nc'
    using Cons.prems(1) that by auto
  have nc: "file_ok m nc" using Cons.prems(2) by simp
  have IH: "distinct (map approval_id (approvals_of ?es)) \<and> distinct (map (\<lambda>v. rp_receipt_id (vr_receipt v)) (revocations_of ?es))"
    using Cons.prems by (intro Cons.IH) simp_all
  show ?case
  proof (cases "projr (read_entry m (snd nc))")
    case (Approved a)
    have "approval_id a \<notin> approval_id ` set (approvals_of ?es)"
    proof
      assume "approval_id a \<in> approval_id ` set (approvals_of ?es)"
      then obtain b where "b \<in> set (approvals_of ?es)" "approval_id b = approval_id a" by (elim imageE) simp
      with a obtain nc' where "nc' \<in> set xs" "fst nc' = receipt_file (approval_id a)" by fastforce
      then show False using new [of nc'] file_ok_named(1) [OF nc Approved] by simp
    qed
    with IH Approved show ?thesis by simp
  next
    case (Revoked v)
    have "rp_receipt_id (vr_receipt v) \<notin> (\<lambda>v. rp_receipt_id (vr_receipt v)) ` set (revocations_of ?es)"
    proof
      assume "rp_receipt_id (vr_receipt v) \<in> (\<lambda>v. rp_receipt_id (vr_receipt v)) ` set (revocations_of ?es)"
      then obtain w where "w \<in> set (revocations_of ?es)" "rp_receipt_id (vr_receipt w) = rp_receipt_id (vr_receipt v)"
        by (elim imageE) simp
      with v obtain nc' where "nc' \<in> set xs" "fst nc' = receipt_file (rp_receipt_id (vr_receipt v))" by fastforce
      then show False using new [of nc'] file_ok_named(2) [OF nc Revoked] by simp
    qed
    with IH Revoked show ?thesis by simp
  qed (use IH in simp)
qed simp

lemma store_reads:
  assumes "\<forall>nc \<in> set (es_receipts s). file_ok (es_artifacts s) nc"
  shows "records_unlocked m s =
    (if m < int (length (es_receipts s)) then Inl (OverflowError ''approval receipt scan'')
     else Inr (approvals_of (entries_of s), revocations_of (entries_of s)))"
proof -
  have "mapE (\<lambda>(name, content). read_entry (es_artifacts s) content) (sorted_items (es_receipts s)) = Inr (entries_of s)"
    unfolding entries_of_def
    using assms by (intro mapE_Inr_id) (auto simp: file_ok_def)
  moreover have "length (sorted_items (es_receipts s)) = length (es_receipts s)" by (simp add: sorted_items_def)
  ultimately show ?thesis by (simp add: records_unlocked_def)
qed

lemma store_lifecycle:
  assumes "store_ok s"
  shows "\<exists>items. lifecycle_unlocked t d (approvals_of (entries_of s)) (revocations_of (entries_of s)) = Inr items \<and>
    set (map li_approval items) = {a \<in> approvals_in s. approval_for t d a} \<and>
    (\<forall>x \<in> set items. li_status x = status_in t d (approvals_in s) (revocations_in s) (li_approval x))"
proof -
  have "distinct (map fst (sorted_items (es_receipts s)))" "\<forall>nc \<in> set (sorted_items (es_receipts s)). file_ok (es_artifacts s) nc"
    using assms by (simp_all add: store_ok_def)
  from distinct_ids [OF this] show ?thesis
    using assms unfolding approvals_in_def revocations_in_def
    by (intro lifecycle_projected) (simp_all add: store_ok_def entries_of_def approvals_in_def revocations_in_def)
qed

section \<open>A receipt is added\<close>

lemma store_extended:
  assumes "distinct (map fst (es_receipts s))" "\<forall>nc \<in> set (es_receipts s). file_ok (es_artifacts s) nc"
    and "\<And>k b. es_artifacts s k = Some b \<Longrightarrow> es_artifacts s' k = Some b"
    and "es_receipts s' = es_receipts s @ [(receipt_file (rp_receipt_id r), c)]"
    and "map_of (es_receipts s) (receipt_file (rp_receipt_id r)) = None"
    and "receipt_in c = Inr r'" "rp_receipt_id r' = rp_receipt_id r" "read_entry (es_artifacts s') c = Inr e"
  shows "distinct (map fst (es_receipts s')) \<and> (\<forall>nc \<in> set (es_receipts s'). file_ok (es_artifacts s') nc) \<and>
    set (entries_of s') = insert e (set (entries_of s))"
proof -
  have mono: "read_entry (es_artifacts s') (snd nc) = read_entry (es_artifacts s) (snd nc) \<and> file_ok (es_artifacts s') nc"
    if nc: "nc \<in> set (es_receipts s)" for nc
  proof -
    obtain r e where f: "receipt_in (snd nc) = Inr r" "fst nc = receipt_file (rp_receipt_id r)"
      "read_entry (es_artifacts s) (snd nc) = Inr e"
      using assms(2) nc by (auto simp: file_ok_def)
    from read_entry_mono [OF f(3) assms(3)] have "read_entry (es_artifacts s') (snd nc) = Inr e" .
    with f show ?thesis by (auto simp: file_ok_def)
  qed
  have new: "file_ok (es_artifacts s') (receipt_file (rp_receipt_id r), c)" using assms(6-8) by (auto simp: file_ok_def)
  have "set (entries_of s') = insert e ((\<lambda>nc. projr (read_entry (es_artifacts s') (snd nc))) ` set (es_receipts s))"
    using assms(8) by (simp add: entries_of_def assms(4))
  also have "(\<lambda>nc. projr (read_entry (es_artifacts s') (snd nc))) ` set (es_receipts s) = set (entries_of s)"
    using mono by (auto simp: entries_of_def image_iff)
  finally have "set (entries_of s') = insert e (set (entries_of s))" .
  moreover have "receipt_file (rp_receipt_id r) \<notin> fst ` set (es_receipts s)"
    using assms(5) by (simp add: map_of_eq_None_iff)
  then have "distinct (map fst (es_receipts s'))" using assms(1) by (simp add: assms(4))
  moreover have "\<forall>nc \<in> set (es_receipts s'). file_ok (es_artifacts s') nc" using mono new by (simp add: assms(4))
  ultimately show ?thesis by blast
qed

lemma artifacts_extended:
  assumes "\<forall>nc \<in> set (es_receipts s). file_ok (es_artifacts s) nc"
    and "\<And>k b. es_artifacts s k = Some b \<Longrightarrow> es_artifacts s' k = Some b" "es_receipts s' = es_receipts s"
  shows "(\<forall>nc \<in> set (es_receipts s'). file_ok (es_artifacts s') nc) \<and> entries_of s' = entries_of s"
proof -
  have mono: "read_entry (es_artifacts s') (snd nc) = read_entry (es_artifacts s) (snd nc) \<and> file_ok (es_artifacts s') nc"
    if nc: "nc \<in> set (es_receipts s)" for nc
  proof -
    obtain r e where f: "receipt_in (snd nc) = Inr r" "fst nc = receipt_file (rp_receipt_id r)"
      "read_entry (es_artifacts s) (snd nc) = Inr e"
      using assms(1) nc by (auto simp: file_ok_def)
    from read_entry_mono [OF f(3) assms(2)] have "read_entry (es_artifacts s') (snd nc) = Inr e" .
    with f show ?thesis by (auto simp: file_ok_def)
  qed
  then show ?thesis using assms(3) by (auto simp: entries_of_def)
qed

lemma store_ok_artifacts:
  assumes "store_ok s" "\<And>k b. es_artifacts s k = Some b \<Longrightarrow> es_artifacts s' k = Some b" "es_receipts s' = es_receipts s"
  shows "store_ok s'"
  using assms(1) artifacts_extended [OF _ assms(2,3)] assms(3)
  by (simp add: store_ok_def approvals_in_def revocations_in_def)

lemma receipt_in_written:
  assumes "receipt_ok r" "receipt_text r"
  shows "receipt_in (indented (JObj (receipt_to_dict r))) = Inr (sort_receipt r)"
proof -
  have j: "json_ok utf8_ok (JObj (receipt_to_dict r))" using assms(2) by (simp add: receipt_text_def)
  have "loads (indented (JObj (receipt_to_dict r))) = Some (JObj (sorted_payload (receipt_to_dict r)))"
    using j by (simp add: loads_indented sort_keys_JObj del: sort_keys.simps)
  moreover have "require_object (JObj (sorted_payload (receipt_to_dict r))) f = Inr (sorted_payload (receipt_to_dict r))" for f
    by (intro require_object_id json_ok_sorted_payload json_ok_weaken [OF j])
  moreover have "receipt_from_dict (sorted_payload (receipt_to_dict r)) = Inr (sort_receipt r)"
    using j by (intro receipt_from_dict_to_dict [OF assms(1)] stored_written)
  ultimately show ?thesis using utf8_ok_indented [OF j] by (simp add: receipt_in_def loads_bytes_def loads_object_def)
qed

lemma json_ok_utf8_jdict:
  "json_ok utf8_ok (jdict d) \<longleftrightarrow> distinct (map fst d) \<and> (\<forall>kv \<in> set d. utf8_ok (fst kv) \<and> utf8_ok (snd kv))"
  by (auto simp: jdict_def json_ok.simps(4) map_fst_case simp del: map_map)

section \<open>The parts of an append\<close>

lemma find_retry_Some: "find_retry k f b es = Inr (Some e) \<Longrightarrow> e \<in> set es \<and> is_approval e = b"
  by (induction es) (auto split: if_splits)

lemma find_retry_None: "find_retry k f b es = Inr None \<Longrightarrow> e \<in> set es \<Longrightarrow> map_of (entry_metadata e) ''idempotency_key'' \<noteq> Some k"
  by (induction es) (auto split: if_splits)

lemma retry_kind [simp]:
  "find_idempotent_retry k f b As Vs \<noteq> Inr (Some Unrelated)"
  "find_idempotent_retry k f True As Vs \<noteq> Inr (Some (Revoked v))"
  "find_idempotent_retry k f False As Vs \<noteq> Inr (Some (Approved a))"
  by (auto simp: find_idempotent_retry_def dest!: find_retry_Some)

lemma append_parts:
  assumes "approval_append locked rivals m now s q prev = (Inr (a, True), s')"
  obtains As Vs request content where "locked" "records_unlocked m s = Inr (As, Vs)"
    and "find_idempotent_retry (lq_idempotency_key q) (approval_request_fingerprint q prev) True As Vs = Inr None"
    and "prepare_approval now q prev As Vs = Inr (ar_contract a, request, content)"
    and "ingest_bytes rivals None s content request = (Inr (ar_receipt a), s')"
  using assms
  by (auto simp: approval_append_def with_lock_def bindE_eq_Inr_iff split: if_splits sum.splits prod.splits option.splits entry.splits)

lemma revoke_parts:
  assumes "approval_revoke locked rivals m now s q i = (Inr (v, True), s')"
  obtains As Vs request content where "locked" "records_unlocked m s = Inr (As, Vs)"
    and "find_idempotent_retry (lq_idempotency_key q) (revocation_request_fingerprint q i) False As Vs = Inr None"
    and "prepare_revocation now q i As Vs = Inr (vr_contract v, request, content)"
    and "ingest_bytes rivals None s content request = (Inr (vr_receipt v), s')"
  using assms
  by (auto simp: approval_revoke_def with_lock_def bindE_eq_Inr_iff split: if_splits sum.splits prod.splits option.splits entry.splits)

text \<open>What a prepared approval and a prepared revocation are.\<close>

lemma prepare_approval_parts:
  assumes "prepare_approval now q prev As Vs = Inr (c, request, content)"
  obtains items p payload where "lifecycle_unlocked (lq_target_record_id q) (lq_report_digest q) As Vs = Inr items"
    and "prev = None \<and> p = None \<or> (\<exists>i x. prev = Some i \<and> p = Some x \<and> transition_target q i items = Inr x)"
    and "\<not> already_recorded q p items" "tz_aware now" "in_range (instant now)"
    and "c = \<lparr>ha_contract_version = ''1'', ha_producer_id = lq_producer_id q, ha_run_id = lq_run_id q,
        ha_actor_identity_ref = lq_actor_identity_ref q, ha_role = lq_actor_role q,
        ha_approval_action = lq_approval_action q, ha_approval_basis_digest = lq_report_digest q,
        ha_scope = lq_scope q, ha_captured_at = Zoned (instant now) 0, ha_metadata = Some (approval_metadata q p)\<rparr>"
    and "approval_post_init c = Inr ()" "approval_to_dict c = Inr payload" "content = contract_bytes payload"
    and "request = lifecycle_ingest approval_producer_type ''human-approval:'' q (Zoned (instant now) 0)
      (approval_receipt_metadata q (approval_request_fingerprint q prev) p)"
  using assms
  by (cases prev) (auto simp: prepare_approval_def bindE_eq_Inr_iff construct_Inr_iff clock_time_def split: if_splits)

lemma prepare_revocation_parts:
  assumes "prepare_revocation now q i As Vs = Inr (c, request, content)"
  obtains items p payload where "lifecycle_unlocked (lq_target_record_id q) (lq_report_digest q) As Vs = Inr items"
    and "transition_target q i items = Inr p" "tz_aware now" "in_range (instant now)"
    and "c = \<lparr>hr_contract_version = ''1'', hr_producer_id = lq_producer_id q, hr_run_id = lq_run_id q,
        hr_actor_identity_ref = lq_actor_identity_ref q, hr_role = lq_actor_role q,
        hr_approval_action = lq_approval_action q, hr_approval_basis_digest = lq_report_digest q,
        hr_scope = lq_scope q, hr_target_id = approval_id p, hr_target_digest = rp_digest (ar_receipt p),
        hr_reason = lq_reason q, hr_captured_at = Zoned (instant now) 0, hr_metadata = Some (revocation_metadata q)\<rparr>"
    and "revocation_post_init c = Inr ()" "revocation_to_dict c = Inr payload" "content = contract_bytes payload"
    and "request = lifecycle_ingest revocation_producer_type ''human-approval-revocation:'' q (Zoned (instant now) 0)
      (revocation_receipt_metadata q (revocation_request_fingerprint q i) p)"
  using assms
  by (auto simp: prepare_revocation_def bindE_eq_Inr_iff construct_Inr_iff clock_time_def split: if_splits)

lemma transition_target_parts:
  assumes "transition_target q i items = Inr p"
  obtains x where "x \<in> set items" "li_approval x = p" "li_status x = ''active''" "approval_id p = i"
    "same_authority p (lq_producer_id q) (lq_approval_action q) (lq_scope q)" "require_candidate_match p q = Inr ()"
proof -
  obtain x where x: "find_first (\<lambda>x. approval_id (li_approval x) = i) items = Some x" "li_approval x = p" "li_status x = ''active''"
    "same_authority p (lq_producer_id q) (lq_approval_action q) (lq_scope q)" "require_candidate_match p q = Inr ()"
    using assms by (auto simp: transition_target_def bindE_eq_Inr_iff split: option.splits)
  then show thesis using that [of x] find_first_Some by fastforce
qed

section \<open>A new receipt\<close>

lemma receipt_of_content_in:
  assumes "receipt_of_content c = Inr r"
  shows "receipt_in c = Inr r"
proof -
  obtain d where d: "utf8_ok c" "loads c = Some (JObj d)" "receipt_from_dict d = Inr r"
    using assms by (auto simp: receipt_of_content_def split: if_splits option.splits json.splits)
  have "loads_object c f = Inr d" for f using d(2) by (simp add: loads_object_iff)
  with d show ?thesis by (simp add: receipt_in_def loads_bytes_def)
qed

lemma map_of_receipt_to_dict:
  "map_of (receipt_to_dict r) ''producer_type'' = Some (JStr (rp_producer_type r))"
  "map_of (receipt_to_dict r) ''metadata'' = Some (jdict (sorted_items (rp_metadata r)))"
  "distinct (map fst (receipt_to_dict r))"
  by (simp_all add: receipt_to_dict_def receipt_payload_def identity_payload_def)

lemma map_of_sorted_payload: "distinct (map fst d) \<Longrightarrow> map_of (sorted_payload d) k = map_option sort_keys (map_of d k)"
proof -
  assume d: "distinct (map fst d)"
  have "distinct (map fst (map (\<lambda>(k, v). (k, sort_keys v)) d))" using d by (simp only: map_fst_case)
  then have "map_of (sorted_payload d) = map_of (map (\<lambda>(k, v). (k, sort_keys v)) d)"
    unfolding sorted_payload_def sorted_items_def [symmetric] by (rule map_of_sorted_items)
  then show ?thesis by (simp add: map_of_map)
qed

lemma same_receipt_fields:
  assumes "same_receipt r s" "distinct (map fst (rp_metadata s))"
  shows "rp_producer_type r = rp_producer_type s" "map_of (rp_metadata r) k = map_of (rp_metadata s) k"
proof -
  have "sorted_payload (receipt_to_dict r) = sorted_payload (receipt_to_dict s)"
    using assms(1) by (simp add: same_receipt_def sort_keys_JObj del: sort_keys.simps)
  then have e: "map_option sort_keys (map_of (receipt_to_dict r) k) = map_option sort_keys (map_of (receipt_to_dict s) k)" for k
    using map_of_sorted_payload map_of_receipt_to_dict(3) by metis
  show "rp_producer_type r = rp_producer_type s" using e [of "''producer_type''"] by (simp add: map_of_receipt_to_dict)
  have "sorted_items (rp_metadata r) = sorted_items (rp_metadata s)"
    using e [of "''metadata''"] by (simp add: map_of_receipt_to_dict)
  moreover from this have "distinct (map fst (rp_metadata r))" using assms(2) by (metis distinct_sorted_items)
  ultimately show "map_of (rp_metadata r) k = map_of (rp_metadata s) k"
    using assms(2) map_of_sorted_items [of "rp_metadata r"] map_of_sorted_items [of "rp_metadata s"] by simp
qed

text \<open>An ingested lifecycle contract has a new receipt, if no record of the store has its idempotency key.\<close>

lemma lifecycle_receipt_new:
  assumes "store_ok s" "ingest_bytes (None, None) None s content request = (Inr r, s')"
    and "iq_producer_type request \<in> {approval_producer_type, revocation_producer_type}"
    and "distinct (map fst (iq_metadata request))" "map_of (iq_metadata request) ''idempotency_key'' = Some k"
    and none: "\<forall>e \<in> set (entries_of s). map_of (entry_metadata e) ''idempotency_key'' \<noteq> Some k"
  shows "map_of (es_receipts s) (receipt_file (rp_receipt_id r)) = None \<and>
    es_receipts s' = es_receipts s @ [(receipt_file (rp_receipt_id r), indented (JObj (receipt_to_dict r)))]"
proof -
  note parts = ingest_bytes_Inr [OF assms(2)]
  have req: "request_receipt None content request = Inr r" using parts(1) by (rule prepare_request)
  have md: "rp_metadata r = iq_metadata request" and ty: "rp_producer_type r = iq_producer_type request"
    using req by (auto simp: request_receipt_def make_receipt_Inr_iff ingested_metadata_def)
  have "map_of (es_receipts s) (receipt_file (rp_receipt_id r)) = None"
  proof (rule ccontr)
    assume "map_of (es_receipts s) (receipt_file (rp_receipt_id r)) \<noteq> None"
    then obtain c where c: "map_of (es_receipts s) (receipt_file (rp_receipt_id r)) = Some c" by blast
    then have mem: "(receipt_file (rp_receipt_id r), c) \<in> set (es_receipts s)" by (rule map_of_SomeD)
    obtain r0 where r0: "receipt_of_content c = Inr r0" "same_receipt r0 r"
      using parts(4) c by (auto simp: receipt_put_def check_existing_def Let_def bindE_eq_Inr_iff split: if_splits)
    have ok: "file_ok (es_artifacts s) (receipt_file (rp_receipt_id r), c)" using assms(1) mem by (auto simp: store_ok_def)
    then obtain e where e: "read_entry (es_artifacts s) c = Inr e" by (auto simp: file_ok_def)
    have inn: "receipt_in c = Inr r0" using r0(1) by (rule receipt_of_content_in)
    have f: "rp_producer_type r0 = rp_producer_type r" "map_of (rp_metadata r0) ''idempotency_key'' = Some k"
      using same_receipt_fields [OF r0(2)] assms(4,5) md by simp_all
    have "e \<noteq> Unrelated"
      using e inn f(1) ty assms(3)
      by (auto simp: read_entry_def receipt_in_def bindE_eq_Inr_iff read_approval_def read_revocation_def split: if_splits)
    then have "entry_metadata e = rp_metadata r0"
      using read_entry_receipt [OF e] inn by (cases e) auto
    moreover have "e \<in> set (entries_of s)"
      using e mem by (force simp: entries_of_def)
    ultimately show False using none f(2) by auto
  qed
  then show ?thesis using parts(4) by (auto simp: receipt_put_def Let_def)
qed

lemma make_receipt_sha: "make_receipt f = Inr r \<Longrightarrow> is_sha256 (rp_receipt_id r) \<and> is_sha256 (rp_digest r)"
  by (simp add: make_receipt_Inr_iff computed_receipt_id_def receipt_computed_digest_def)

lemma receipt_in_sha:
  assumes "receipt_in c = Inr r"
  shows "is_sha256 (rp_receipt_id r) \<and> is_sha256 (rp_digest r)"
  using assms unfolding receipt_in_def receipt_from_dict_def
  by (elim bindE_InrE) (erule make_receipt_sha)

lemma approval_in_sha:
  assumes "store_ok s" "a \<in> approvals_in s"
  shows "is_sha256 (approval_id a) \<and> is_sha256 (rp_digest (ar_receipt a))"
proof -
  obtain nc where nc: "nc \<in> set (es_receipts s)" "projr (read_entry (es_artifacts s) (snd nc)) = Approved a"
    using assms(2) by (fastforce simp: approvals_in_def set_approvals_of entries_of_def)
  then obtain e where "read_entry (es_artifacts s) (snd nc) = Inr e" using assms(1) by (auto simp: store_ok_def file_ok_def)
  with nc(2) have "receipt_in (snd nc) = Inr (ar_receipt a)" using read_entry_receipt(1) by fastforce
  then show ?thesis using receipt_in_sha by (simp add: approval_id_def)
qed

definition request_text :: "lifecycle_request \<Rightarrow> bool" where
  "request_text q = list_all utf8_ok [lq_target_record_id q, lq_candidate_identity q, lq_candidate_digest q, lq_report_digest q,
     lq_profile_id q, lq_profile_version q, lq_actor_identity_ref q, lq_actor_role q, lq_producer_id q, lq_run_id q,
     lq_approval_action q, lq_scope q, lq_reason q, lq_idempotency_key q]"

lemma lifecycle_keys_utf8:
  "list_all utf8_ok [''candidate_identity'', ''candidate_digest'', ''profile_id'', ''profile_version'', ''reason'', ''target_record_id'',
     ''supersedes_approval_receipt_id'', ''supersedes_approval_receipt_digest'', ''contract_type'', ''human_approval'',
     ''report_digest'', ''request_fingerprint'', ''idempotency_key'', ''human_approval_revocation'', ''lifecycle_action'', ''revoke'',
     ''target_approval_receipt_id'', ''target_approval_receipt_digest'', ''1'',
     approval_producer_type, revocation_producer_type, ''human-approval:'', ''human-approval-revocation:'']"
  by code_simp

lemma lifecycle_receipt:
  assumes "prepare None content (lifecycle_ingest ty src_prefix q (Zoned u 0) md) = Inr r" "in_range u" "request_text q"
    and "(ty, src_prefix) \<in> {(approval_producer_type, ''human-approval:''), (revocation_producer_type, ''human-approval-revocation:'')}"
    and "distinct (map fst md)" "\<forall>kv \<in> set md. utf8_ok (fst kv) \<and> utf8_ok (snd kv)"
  shows "receipt_ok r \<and> receipt_text r \<and> rp_producer_type r = ty \<and> rp_producer_id r = lq_producer_id q \<and>
    rp_run_id r = Some (lq_run_id q) \<and> rp_captured_at r = Aware u \<and> rp_metadata r = md \<and>
    rp_artifact_digest r = sha256_hex content \<and> rp_artifact_size r = int (length content)"
proof -
  have req: "request_receipt None content (lifecycle_ingest ty src_prefix q (Zoned u 0) md) = Inr r"
    using assms(1) by (rule prepare_request)
  have f: "rp_producer_type r = ty" "rp_producer_id r = lq_producer_id q" "rp_run_id r = Some (lq_run_id q)"
    "rp_captured_at r = Aware u" "rp_metadata r = md" "rp_artifact_digest r = sha256_hex content"
    "rp_artifact_size r = int (length content)" "rp_source_ref r = src_prefix @ lq_target_record_id q"
    "rp_source_event_id r = Some (lq_idempotency_key q)" "rp_producer_version r = None" "rp_provenance_ref r = None"
    using req by (auto simp: request_receipt_def make_receipt_Inr_iff ingested_metadata_def lifecycle_ingest_def)
  have sha: "is_sha256 (rp_receipt_id r)" "is_sha256 (rp_digest r)"
    using req make_receipt_sha unfolding request_receipt_def by blast+
  have "utf8_ok ty" using lifecycle_keys_utf8 assms(4) by auto
  moreover have "utf8_ok (src_prefix @ lq_target_record_id q)"
    using assms(3,4) by (intro utf8_ok_append) (auto simp: request_text_def byte_def)
  moreover have "json_ok utf8_ok (jdict (sorted_items md))"
    using assms(5,6) by (simp add: json_ok_utf8_jdict)
  ultimately have "receipt_text r"
    using f sha assms(2,3) utf8_ok_utc_iso [of u]
    by (simp add: receipt_text_iff utf8_ok_sha256 request_text_def jopt_str_def jopt_def)
  moreover have "receipt_ok r"
    using assms(1) \<open>receipt_text r\<close> by (rule prepare_ok) (simp_all add: lifecycle_ingest_def dt_ok_def assms(2))
  ultimately show ?thesis using f by simp
qed

definition stored_approval :: "approval_record \<Rightarrow> approval_record" where
  "stored_approval a = \<lparr>ar_contract = (ar_contract a)\<lparr>ha_metadata := Some (sorted_payload (contract_metadata a))\<rparr>,
     ar_receipt = sort_receipt (ar_receipt a)\<rparr>"

definition stored_revocation :: "revocation_record \<Rightarrow> revocation_record" where
  "stored_revocation v = \<lparr>vr_contract = (vr_contract v)\<lparr>hr_metadata := Some (sorted_payload (opt_or (hr_metadata (vr_contract v)) []))\<rparr>,
     vr_receipt = sort_receipt (vr_receipt v)\<rparr>"

lemma approval_entry_read:
  assumes "receipt_ok r" "receipt_text r" "rp_producer_type r = approval_producer_type" "rp_producer_id r = ha_producer_id c"
    and "rp_run_id r = Some (ha_run_id c)" "rp_captured_at r = stamp_datetime (ha_captured_at c)"
    and "map_of (rp_metadata r) ''report_digest'' = Some (ha_approval_basis_digest c)"
    and "rp_artifact_digest r = sha256_hex (contract_bytes d)" "rp_artifact_size r = int (length (contract_bytes d))"
    and "m (sha256_hex (contract_bytes d)) = Some (contract_bytes d)"
    and "approval_post_init c = Inr ()" "approval_to_dict c = Inr d" "approval_text c"
  shows "read_entry m (indented (JObj (receipt_to_dict r))) = Inr (Approved (stored_approval \<lparr>ar_contract = c, ar_receipt = r\<rparr>))"
proof -
  have "receipt_in (indented (JObj (receipt_to_dict r))) = Inr (sort_receipt r)" using assms(1,2) by (rule receipt_in_written)
  moreover have "artifact_get m (sha256_hex (contract_bytes d)) = Inr (contract_bytes d)"
    using assms(10) by (simp add: artifact_get_Inr)
  moreover have j: "json_ok utf8_ok (JObj d)" using assms(11-13) by (rule approval_json_ok)
  then have "bindE (loads_bytes (contract_bytes d) f) approval_from_dict =
      Inr (c\<lparr>ha_metadata := Some (sorted_payload (opt_or (ha_metadata c) []))\<rparr>)" for f
    using contract_bytes_read [OF j] approval_from_stored [OF assms(11,12)] assms(13)
    by (simp add: loads_bytes_def approval_text_def)
  moreover have "distinct (map fst (rp_metadata r))" using assms(1) by (simp add: receipt_ok_def dict_ok_def)
  ultimately show ?thesis
    using assms(3-9)
    by (simp add: read_entry_def receipt_in_def [symmetric] read_approval_def sort_receipt_def verify_common_def stored_approval_def
        contract_metadata_def)
qed

lemma revocation_entry_read:
  assumes "receipt_ok r" "receipt_text r" "rp_producer_type r = revocation_producer_type" "rp_producer_id r = hr_producer_id c"
    and "rp_run_id r = Some (hr_run_id c)" "rp_captured_at r = stamp_datetime (hr_captured_at c)"
    and "map_of (rp_metadata r) ''report_digest'' = Some (hr_approval_basis_digest c)"
    and "map_of (rp_metadata r) ''target_approval_receipt_id'' = Some (hr_target_id c)"
    and "map_of (rp_metadata r) ''target_approval_receipt_digest'' = Some (hr_target_digest c)"
    and "rp_artifact_digest r = sha256_hex (contract_bytes d)" "rp_artifact_size r = int (length (contract_bytes d))"
    and "m (sha256_hex (contract_bytes d)) = Some (contract_bytes d)"
    and "revocation_post_init c = Inr ()" "revocation_to_dict c = Inr d" "revocation_text c"
  shows "read_entry m (indented (JObj (receipt_to_dict r))) = Inr (Revoked (stored_revocation \<lparr>vr_contract = c, vr_receipt = r\<rparr>))"
proof -
  have "receipt_in (indented (JObj (receipt_to_dict r))) = Inr (sort_receipt r)" using assms(1,2) by (rule receipt_in_written)
  moreover have "artifact_get m (sha256_hex (contract_bytes d)) = Inr (contract_bytes d)"
    using assms(12) by (simp add: artifact_get_Inr)
  moreover have j: "json_ok utf8_ok (JObj d)" using assms(13-15) by (rule revocation_json_ok)
  then have "bindE (loads_bytes (contract_bytes d) f) revocation_from_dict =
      Inr (c\<lparr>hr_metadata := Some (sorted_payload (opt_or (hr_metadata c) []))\<rparr>)" for f
    using contract_bytes_read [OF j] revocation_from_stored [OF assms(13,14)] assms(15)
    by (simp add: loads_bytes_def revocation_text_def)
  moreover have "distinct (map fst (rp_metadata r))" using assms(1) by (simp add: receipt_ok_def dict_ok_def)
  moreover have "revocation_producer_type \<noteq> approval_producer_type" by (simp add: revocation_producer_type_def approval_producer_type_def)
  ultimately show ?thesis
    using assms(3-11)
    by (simp add: read_entry_def receipt_in_def [symmetric] read_revocation_def sort_receipt_def verify_common_def stored_revocation_def)
qed

end
