(* ===== verification/ApprovalHistory.thy ===== *)
theory ApprovalHistory
  imports HumanApproval
begin

text \<open>
  The histories of the human-approval store: what \<open>append\<close>, \<open>revoke\<close> and the ingestion of other evidence do to a store
  one after the other, and what the lifecycle projected from the receipts shows after any such history.
\<close>

section \<open>Approvals and revocations as sets\<close>

lemma status_active [simp]: "status_in t d A V a = ''active'' \<longleftrightarrow> active_in t d A V a"
  by (auto simp: status_in_def active_in_def)

definition basis_ok :: "string \<Rightarrow> string \<Rightarrow> approval_record set \<Rightarrow> revocation_record set \<Rightarrow> bool" where
  "basis_ok t d A V = (links_ok t d A \<and> revocations_ok t d A V \<and> unique_active t d A V)"

lemma store_ok_basis:
  "store_ok s \<longleftrightarrow> distinct (map fst (es_receipts s)) \<and> (\<forall>nc \<in> set (es_receipts s). file_ok (es_artifacts s) nc) \<and>
     (\<forall>t d. basis_ok t d (approvals_in s) (revocations_in s))"
  by (simp add: store_ok_def basis_ok_def)

lemma same_grant_sym: "same_grant a b = same_grant b a"
  by (auto simp: same_grant_def)

lemma superseded_insert [simp]:
  "superseded_in t d (insert a A) i \<longleftrightarrow> approval_for t d a \<and> supersedes_of a = Some i \<or> superseded_in t d A i"
  by (auto simp: superseded_in_def)

lemma revoked_insert [simp]:
  "revoked_in t d (insert v V) i \<longleftrightarrow> revocation_for t d v \<and> revokes v = i \<or> revoked_in t d V i"
  by (auto simp: revoked_in_def)

lemma active_insert:
  "active_in t d (insert a A) V b \<longleftrightarrow> active_in t d A V b \<and> \<not> (approval_for t d a \<and> supersedes_of a = Some (approval_id b))"
  "active_in t d A (insert v V) b \<longleftrightarrow> active_in t d A V b \<and> \<not> (revocation_for t d v \<and> revokes v = approval_id b)"
  by (auto simp: active_in_def)

text \<open>What a new approval of a basis may be: it supersedes none or an active approval, and repeats no other active grant.\<close>

definition may_approve :: "string \<Rightarrow> string \<Rightarrow> approval_record set \<Rightarrow> revocation_record set \<Rightarrow> approval_record \<Rightarrow> bool" where
  "may_approve t d A V a =
     ((no_link a \<or> (\<exists>p \<in> A. approval_for t d p \<and> link_to a p \<and> active_in t d A V p)) \<and>
      (\<forall>b \<in> A. approval_for t d b \<and> active_in t d A V b \<and> supersedes_of a \<noteq> Some (approval_id b) \<longrightarrow> \<not> same_grant a b))"

definition may_revoke :: "string \<Rightarrow> string \<Rightarrow> approval_record set \<Rightarrow> revocation_record set \<Rightarrow> revocation_record \<Rightarrow> bool" where
  "may_revoke t d A V v = (\<exists>p \<in> A. approval_for t d p \<and> revocation_of v p \<and> active_in t d A V p)"

lemma may_supersede:
  assumes "may_approve t d A V a" "supersedes_of a = Some i"
  shows "\<not> superseded_in t d A i" "\<not> revoked_in t d V i"
  using assms by (auto simp: may_approve_def active_in_def dest: supersedes_no_link supersedes_link)

lemma basis_ok_approve:
  assumes "basis_ok t d A V" "approval_for t d a \<Longrightarrow> may_approve t d A V a"
  shows "basis_ok t d (insert a A) V"
proof (cases "approval_for t d a")
  case False
  then show ?thesis using assms(1)
    by (auto simp: basis_ok_def links_ok_def revocations_ok_def unique_active_def active_insert)
next
  case True
  note may = assms(2) [OF True]
  note old = assms(1) [unfolded basis_ok_def]
  have fresh: "supersedes_of b \<noteq> supersedes_of a" if "b \<in> A" "approval_for t d b" "supersedes_of a \<noteq> None" for b
    using may_supersede(1) [OF may] that by (fastforce simp: superseded_in_def)
  have "links_ok t d (insert a A)"
    unfolding links_ok_def
  proof (intro conjI ballI impI allI)
    fix b assume b: "b \<in> insert a A" "approval_for t d b"
    show "no_link b \<or> (\<exists>p\<in>insert a A. approval_for t d p \<and> link_to b p)"
      using b may old unfolding may_approve_def links_ok_def by blast
  next
    fix b b' p assume b: "b \<in> insert a A" "b' \<in> insert a A"
      and "approval_for t d b \<and> approval_for t d b' \<and> supersedes_of b = Some p \<and> supersedes_of b' = Some p"
    then show "b = b'" using old fresh [of b] fresh [of b'] unfolding links_ok_def by fastforce
  qed
  moreover have "revocations_ok t d (insert a A) V"
    unfolding revocations_ok_def
  proof (intro conjI ballI impI)
    fix v assume v: "v \<in> V" "revocation_for t d v"
    then obtain p where p: "p \<in> A" "approval_for t d p" "revocation_of v p" "\<not> superseded_in t d A (approval_id p)"
      using old unfolding revocations_ok_def by blast
    have "revoked_in t d V (approval_id p)" using v p(3) by (auto simp: revoked_in_def revokes_def revocation_of_def)
    then have "supersedes_of a \<noteq> Some (approval_id p)" using may_supersede(2) [OF may] by blast
    with p show "\<exists>p\<in>insert a A. approval_for t d p \<and> revocation_of v p \<and> \<not> superseded_in t d (insert a A) (approval_id p)"
      by auto
  qed (use old in \<open>auto simp: revocations_ok_def\<close>)
  moreover have "unique_active t d (insert a A) V"
    unfolding unique_active_def
  proof (intro ballI impI)
    fix b b' assume b: "b \<in> insert a A" "b' \<in> insert a A"
      and h: "approval_for t d b \<and> approval_for t d b' \<and> active_in t d (insert a A) V b \<and> active_in t d (insert a A) V b' \<and> same_grant b b'"
    have other: "\<not> same_grant a c" if "c \<in> A" "approval_for t d c" "active_in t d (insert a A) V c" for c
      using may that True unfolding may_approve_def active_insert by blast
    show "b = b'"
    proof (cases "b = a \<or> b' = a")
      case True
      then show ?thesis using b h other same_grant_sym by blast
    next
      case False
      then show ?thesis using b h old unfolding unique_active_def active_insert by blast
    qed
  qed
  ultimately show ?thesis by (simp add: basis_ok_def)
qed

lemma basis_ok_revoke:
  assumes "basis_ok t d A V" "revocation_for t d v \<Longrightarrow> may_revoke t d A V v"
  shows "basis_ok t d A (insert v V)"
proof (cases "revocation_for t d v")
  case False
  then show ?thesis using assms(1)
    by (auto simp: basis_ok_def revocations_ok_def unique_active_def active_insert)
next
  case True
  obtain p where p: "p \<in> A" "approval_for t d p" "revocation_of v p" "active_in t d A V p"
    using assms(2) [OF True] by (auto simp: may_revoke_def)
  have rv: "revokes v = approval_id p" using p(3) by (simp add: revocation_of_def revokes_def)
  have fresh: "revokes w \<noteq> approval_id p" if "w \<in> V" "revocation_for t d w" for w
    using p(4) that by (auto simp: active_in_def revoked_in_def)
  have "revocations_ok t d A (insert v V)"
    unfolding revocations_ok_def
  proof (intro conjI ballI impI)
    fix w assume "w \<in> insert v V" "revocation_for t d w"
    then show "\<exists>p\<in>A. approval_for t d p \<and> revocation_of w p \<and> \<not> superseded_in t d A (approval_id p)"
      using p assms(1) unfolding basis_ok_def revocations_ok_def active_in_def by blast
  next
    fix w w' assume "w \<in> insert v V" "w' \<in> insert v V" "revocation_for t d w \<and> revocation_for t d w' \<and> revokes w = revokes w'"
    then show "w = w'" using assms(1) fresh rv unfolding basis_ok_def revocations_ok_def by auto
  qed
  with assms(1) show ?thesis by (auto simp: basis_ok_def unique_active_def active_insert)
qed

text \<open>A status that is not active is final.\<close>

lemma status_final:
  assumes "A \<subseteq> A'" "V \<subseteq> V'" "revocations_ok t d A' V'" "status_in t d A V a \<noteq> ''active''"
  shows "status_in t d A' V' a = status_in t d A V a"
proof -
  have mono: "superseded_in t d A (approval_id a) \<Longrightarrow> superseded_in t d A' (approval_id a)"
    "revoked_in t d V (approval_id a) \<Longrightarrow> revoked_in t d V' (approval_id a)"
    using assms(1,2) by (auto simp: superseded_in_def revoked_in_def)
  have "\<not> (revoked_in t d V' (approval_id a) \<and> superseded_in t d A' (approval_id a))"
  proof
    assume both: "revoked_in t d V' (approval_id a) \<and> superseded_in t d A' (approval_id a)"
    then obtain v where v: "v \<in> V'" "revocation_for t d v" "revokes v = approval_id a" by (auto simp: revoked_in_def)
    then obtain p where "revocation_of v p" "\<not> superseded_in t d A' (approval_id p)"
      using assms(3) unfolding revocations_ok_def by blast
    with v both show False by (simp add: revocation_of_def revokes_def)
  qed
  with mono assms(4) show ?thesis by (auto simp: status_in_def active_in_def split: if_splits)
qed

section \<open>Metadata\<close>

lemma approval_metadata_text:
  assumes "request_text q" "case_option True (\<lambda>a. is_sha256 (approval_id a) \<and> is_sha256 (rp_digest (ar_receipt a))) p"
  shows "metadata_text (Some (approval_metadata q p))"
  using assms lifecycle_keys_utf8
  by (auto simp: metadata_text_def opt_or_def approval_metadata_def request_text_def json_ok.simps(4) utf8_ok_sha256 split: option.splits)

lemma approval_receipt_metadata_text:
  assumes "request_text q" "is_sha256 fp" "case_option True (\<lambda>a. is_sha256 (approval_id a) \<and> is_sha256 (rp_digest (ar_receipt a))) p"
  shows "distinct (map fst (approval_receipt_metadata q fp p)) \<and>
    (\<forall>kv \<in> set (approval_receipt_metadata q fp p). utf8_ok (fst kv) \<and> utf8_ok (snd kv))"
  using assms lifecycle_keys_utf8
  by (auto simp: approval_receipt_metadata_def request_text_def utf8_ok_sha256 split: option.splits)

lemma revocation_metadata_text: "request_text q \<Longrightarrow> metadata_text (Some (revocation_metadata q))"
  using lifecycle_keys_utf8
  by (auto simp: metadata_text_def opt_or_def revocation_metadata_def request_text_def json_ok.simps(4))

lemma revocation_receipt_metadata_text:
  assumes "request_text q" "is_sha256 fp" "is_sha256 (approval_id p)" "is_sha256 (rp_digest (ar_receipt p))"
  shows "distinct (map fst (revocation_receipt_metadata q fp p)) \<and>
    (\<forall>kv \<in> set (revocation_receipt_metadata q fp p). utf8_ok (fst kv) \<and> utf8_ok (snd kv))"
  using assms lifecycle_keys_utf8
  by (auto simp: revocation_receipt_metadata_def request_text_def utf8_ok_sha256)

lemma fingerprint_sha [simp]: "is_sha256 (approval_request_fingerprint q p)" "is_sha256 (revocation_request_fingerprint q i)"
  by (simp_all add: approval_request_fingerprint_def revocation_request_fingerprint_def contract_digest_def)

section \<open>What an operation reads\<close>

lemma no_retry_new_key:
  assumes "find_idempotent_retry k f b (approvals_of es) (revocations_of es) = Inr None" "e \<in> set es"
  shows "map_of (entry_metadata e) ''idempotency_key'' \<noteq> Some k"
proof (cases e)
  case Unrelated
  then show ?thesis by simp
next
  case (Approved a)
  then have "e \<in> set (map Approved (approvals_of es) @ map Revoked (revocations_of es))"
    using assms(2) by (simp add: set_approvals_of)
  then show ?thesis using assms(1) find_retry_None unfolding find_idempotent_retry_def by blast
next
  case (Revoked v)
  then have "e \<in> set (map Approved (approvals_of es) @ map Revoked (revocations_of es))"
    using assms(2) by (simp add: set_approvals_of)
  then show ?thesis using assms(1) find_retry_None unfolding find_idempotent_retry_def by blast
qed

lemma store_records:
  assumes "store_ok s" "records_unlocked m s = Inr (As, Vs)"
  shows "As = approvals_of (entries_of s)" "Vs = revocations_of (entries_of s)" "int (length (es_receipts s)) \<le> m"
  using assms store_reads [of s m] by (auto simp: store_ok_def split: if_splits)

lemma store_items:
  assumes "store_ok s" "lifecycle_unlocked t d (approvals_of (entries_of s)) (revocations_of (entries_of s)) = Inr items"
  shows "a \<in> approvals_in s \<and> approval_for t d a \<longleftrightarrow> (\<exists>x \<in> set items. li_approval x = a)"
    and "x \<in> set items \<Longrightarrow> li_status x = status_in t d (approvals_in s) (revocations_in s) (li_approval x)"
proof -
  have f: "set (map li_approval items) = {a \<in> approvals_in s. approval_for t d a}"
    "\<forall>x \<in> set items. li_status x = status_in t d (approvals_in s) (revocations_in s) (li_approval x)"
    using store_lifecycle [OF assms(1), of t d] assms(2) by auto
  have "a \<in> {a \<in> approvals_in s. approval_for t d a} \<longleftrightarrow> (\<exists>x \<in> set items. li_approval x = a)"
    unfolding f(1) [symmetric] by auto
  then show "a \<in> approvals_in s \<and> approval_for t d a \<longleftrightarrow> (\<exists>x \<in> set items. li_approval x = a)" by simp
  show "x \<in> set items \<Longrightarrow> li_status x = status_in t d (approvals_in s) (revocations_in s) (li_approval x)"
    using f(2) by blast
qed

text \<open>The approval a transition found is stored, of the same basis, and active.\<close>

lemma store_target:
  assumes "store_ok s" "lifecycle_unlocked t d (approvals_of (entries_of s)) (revocations_of (entries_of s)) = Inr items"
    and "transition_target q i items = Inr p"
  shows "p \<in> approvals_in s \<and> approval_for t d p \<and> active_in t d (approvals_in s) (revocations_in s) p \<and> approval_id p = i \<and>
    same_authority p (lq_producer_id q) (lq_approval_action q) (lq_scope q) \<and>
    is_sha256 (approval_id p) \<and> is_sha256 (rp_digest (ar_receipt p))"
proof -
  obtain x where x: "x \<in> set items" "li_approval x = p" "li_status x = ''active''" "approval_id p = i"
    "same_authority p (lq_producer_id q) (lq_approval_action q) (lq_scope q)"
    using assms(3) by (rule transition_target_parts)
  then have p: "p \<in> approvals_in s" "approval_for t d p" using store_items(1) [OF assms(1,2), of p] by blast+
  moreover have "active_in t d (approvals_in s) (revocations_in s) p"
    using store_items(2) [OF assms(1,2) x(1)] x(2,3) status_active by metis
  ultimately show ?thesis using x approval_in_sha [OF assms(1) p(1)] by simp
qed

lemma new_grant:
  assumes "store_ok s" "lifecycle_unlocked t d (approvals_of (entries_of s)) (revocations_of (entries_of s)) = Inr items"
    and "\<not> already_recorded q p items" "b \<in> approvals_in s" "approval_for t d b"
    and "active_in t d (approvals_in s) (revocations_in s) b" "case_option True (\<lambda>x. approval_id b \<noteq> approval_id x) p"
  shows "\<not> (ha_actor_identity_ref (ar_contract b) = lq_actor_identity_ref q \<and>
    ha_approval_action (ar_contract b) = lq_approval_action q \<and> ha_scope (ar_contract b) = lq_scope q)"
proof -
  obtain x where "x \<in> set items" "li_approval x = b" using store_items(1) [OF assms(1,2), of b] assms(4,5) by blast
  moreover from this have "li_status x = ''active''" using store_items(2) [OF assms(1,2)] assms(6) by simp
  ultimately show ?thesis using assms(3,7) by (auto simp: already_recorded_def list_ex_iff split: option.splits)
qed

lemma stored_approval_named:
  assumes "store_ok s" "b \<in> approvals_in s"
  shows "receipt_file (approval_id b) \<in> fst ` set (es_receipts s)"
proof -
  obtain nc where "nc \<in> set (es_receipts s)" "projr (read_entry (es_artifacts s) (snd nc)) = Approved b"
    using assms(2) by (fastforce simp: approvals_in_def set_approvals_of entries_of_def)
  then show ?thesis using file_ok_named(1) assms(1) unfolding store_ok_def by (metis image_eqI)
qed

section \<open>A successful append\<close>

text \<open>
  The bytes of the contract are those at the address of the receipt: no other content of the same SHA-256 digest was
  stored there before.
\<close>

definition contract_kept :: "evidence_store \<Rightarrow> payload result \<Rightarrow> receipt \<Rightarrow> bool" where
  "contract_kept s payload r = (\<exists>d. payload = Inr d \<and> es_artifacts s (rp_artifact_digest r) = Some (contract_bytes d))"

lemma append_stored:
  assumes "store_ok s" "approval_append locked (None, None) m now s q prev = (Inr (a, True), s')" "request_text q"
    and "contract_kept s' (approval_to_dict (ar_contract a)) (ar_receipt a)"
  obtains items p where
      "lifecycle_unlocked (lq_target_record_id q) (lq_report_digest q) (approvals_of (entries_of s)) (revocations_of (entries_of s)) = Inr items"
    and "prev = None \<and> p = None \<or> (\<exists>i x. prev = Some i \<and> p = Some x \<and> transition_target q i items = Inr x)"
    and "\<not> already_recorded q p items" "int (length (es_receipts s)) \<le> m" "tz_aware now" "in_range (instant now)"
    and "ar_contract a = \<lparr>ha_contract_version = ''1'', ha_producer_id = lq_producer_id q, ha_run_id = lq_run_id q,
        ha_actor_identity_ref = lq_actor_identity_ref q, ha_role = lq_actor_role q,
        ha_approval_action = lq_approval_action q, ha_approval_basis_digest = lq_report_digest q,
        ha_scope = lq_scope q, ha_captured_at = Zoned (instant now) 0, ha_metadata = Some (approval_metadata q p)\<rparr>"
    and "rp_metadata (ar_receipt a) = approval_receipt_metadata q (approval_request_fingerprint q prev) p"
    and "\<forall>b \<in> approvals_in s. approval_id b \<noteq> approval_id a" "length (es_receipts s') = Suc (length (es_receipts s))"
    and "\<forall>e \<in> set (entries_of s). map_of (entry_metadata e) ''idempotency_key'' \<noteq> Some (lq_idempotency_key q)"
    and "distinct (map fst (es_receipts s'))" "\<forall>nc \<in> set (es_receipts s'). file_ok (es_artifacts s') nc"
    and "set (entries_of s') = insert (Approved (stored_approval a)) (set (entries_of s))"
proof -
  obtain As Vs request content where a: "locked" "records_unlocked m s = Inr (As, Vs)"
    "find_idempotent_retry (lq_idempotency_key q) (approval_request_fingerprint q prev) True As Vs = Inr None"
    "prepare_approval now q prev As Vs = Inr (ar_contract a, request, content)"
    "ingest_bytes (None, None) None s content request = (Inr (ar_receipt a), s')"
    using assms(2) by (rule append_parts)
  note rec = store_records [OF assms(1) a(2)]
  obtain items p payload where b: "lifecycle_unlocked (lq_target_record_id q) (lq_report_digest q) As Vs = Inr items"
    "prev = None \<and> p = None \<or> (\<exists>i x. prev = Some i \<and> p = Some x \<and> transition_target q i items = Inr x)"
    "\<not> already_recorded q p items" "tz_aware now" "in_range (instant now)"
    and c: "ar_contract a = \<lparr>ha_contract_version = ''1'', ha_producer_id = lq_producer_id q, ha_run_id = lq_run_id q,
        ha_actor_identity_ref = lq_actor_identity_ref q, ha_role = lq_actor_role q,
        ha_approval_action = lq_approval_action q, ha_approval_basis_digest = lq_report_digest q,
        ha_scope = lq_scope q, ha_captured_at = Zoned (instant now) 0, ha_metadata = Some (approval_metadata q p)\<rparr>"
    and d: "approval_post_init (ar_contract a) = Inr ()" "approval_to_dict (ar_contract a) = Inr payload" "content = contract_bytes payload"
    and q: "request = lifecycle_ingest approval_producer_type ''human-approval:'' q (Zoned (instant now) 0)
      (approval_receipt_metadata q (approval_request_fingerprint q prev) p)"
    using a(4) by (rule prepare_approval_parts)
  note b1 = b(1) [unfolded rec(1,2)]
  have sha: "case_option True (\<lambda>x. is_sha256 (approval_id x) \<and> is_sha256 (rp_digest (ar_receipt x))) p"
    using b(2) store_target [OF assms(1) b1] by (auto split: option.split)
  note md = approval_receipt_metadata_text [OF assms(3) fingerprint_sha(1) [of q prev] sha]
  have new_key: "\<forall>e \<in> set (entries_of s). map_of (entry_metadata e) ''idempotency_key'' \<noteq> Some (lq_idempotency_key q)"
    using no_retry_new_key [OF a(3) [unfolded rec(1,2)]] by blast
  have r: "receipt_ok (ar_receipt a) \<and> receipt_text (ar_receipt a) \<and> rp_producer_type (ar_receipt a) = approval_producer_type \<and>
      rp_producer_id (ar_receipt a) = lq_producer_id q \<and> rp_run_id (ar_receipt a) = Some (lq_run_id q) \<and>
      rp_captured_at (ar_receipt a) = Aware (instant now) \<and>
      rp_metadata (ar_receipt a) = approval_receipt_metadata q (approval_request_fingerprint q prev) p \<and>
      rp_artifact_digest (ar_receipt a) = sha256_hex content \<and> rp_artifact_size (ar_receipt a) = int (length content)"
    by (rule lifecycle_receipt [OF ingest_bytes_Inr(1) [OF a(5) [unfolded q]] b(5) assms(3)]) (use md in auto)
  have new: "map_of (es_receipts s) (receipt_file (approval_id a)) = None \<and>
      es_receipts s' = es_receipts s @ [(receipt_file (approval_id a), indented (JObj (receipt_to_dict (ar_receipt a))))]"
    unfolding approval_id_def
    by (rule lifecycle_receipt_new [OF assms(1) a(5), of "lq_idempotency_key q"])
      (use md new_key in \<open>auto simp: q lifecycle_ingest_def approval_receipt_metadata_def\<close>)
  have ct: "approval_text (ar_contract a)"
    using assms(3) approval_metadata_text [OF assms(3) sha] lifecycle_keys_utf8
    by (simp add: c approval_text_def request_text_def)
  have eta: "\<lparr>ar_contract = ar_contract a, ar_receipt = ar_receipt a\<rparr> = a" by simp
  have read: "read_entry (es_artifacts s') (indented (JObj (receipt_to_dict (ar_receipt a)))) = Inr (Approved (stored_approval a))"
    using approval_entry_read [OF _ _ _ _ _ _ _ _ _ _ d(1,2) ct, of "ar_receipt a" "es_artifacts s'", unfolded eta] r assms(4) c d
    by (simp add: contract_kept_def approval_receipt_metadata_def)
  have inn: "receipt_in (indented (JObj (receipt_to_dict (ar_receipt a)))) = Inr (sort_receipt (ar_receipt a))"
    using r by (intro receipt_in_written) simp_all
  have ext: "distinct (map fst (es_receipts s')) \<and> (\<forall>nc \<in> set (es_receipts s'). file_ok (es_artifacts s') nc) \<and>
      set (entries_of s') = insert (Approved (stored_approval a)) (set (entries_of s))"
    by (rule store_extended [where r = "ar_receipt a" and r' = "sort_receipt (ar_receipt a)", OF _ _ ingest_bytes_frame(1) [OF a(5)]])
      (use assms(1) new inn read in \<open>auto simp: store_ok_def approval_id_def sort_receipt_def\<close>)
  have ids: "\<forall>b \<in> approvals_in s. approval_id b \<noteq> approval_id a"
  proof
    fix b assume "b \<in> approvals_in s"
    then have "receipt_file (approval_id b) \<in> fst ` set (es_receipts s)" by (rule stored_approval_named [OF assms(1)])
    moreover have "receipt_file (approval_id a) \<notin> fst ` set (es_receipts s)" using new by (simp add: map_of_eq_None_iff)
    ultimately show "approval_id b \<noteq> approval_id a" by metis
  qed
  show thesis
    by (rule that [of items p]) (use b1 b rec c r ids new new_key ext in auto)
qed

lemma stored_approval_fields [simp]:
  "approval_id (stored_approval a) = approval_id a" "approval_time (stored_approval a) = approval_time a"
  "same_grant (stored_approval a) b = same_grant a b"
  "rp_digest (ar_receipt (stored_approval a)) = rp_digest (ar_receipt a)"
  "rp_metadata (ar_receipt (stored_approval a)) = sorted_items (rp_metadata (ar_receipt a))"
  "contract_metadata (stored_approval a) = sorted_payload (contract_metadata a)"
  "same_authority (stored_approval a) x y z = same_authority a x y z"
  "ha_producer_id (ar_contract (stored_approval a)) = ha_producer_id (ar_contract a)"
  "ha_approval_action (ar_contract (stored_approval a)) = ha_approval_action (ar_contract a)"
  "ha_scope (ar_contract (stored_approval a)) = ha_scope (ar_contract a)"
  "ha_actor_identity_ref (ar_contract (stored_approval a)) = ha_actor_identity_ref (ar_contract a)"
  by (simp_all add: stored_approval_def sort_receipt_def approval_id_def approval_time_def same_grant_def contract_metadata_def
      opt_or_def same_authority_def)

lemma stored_approval_reads:
  assumes "rp_metadata (ar_receipt a) = approval_receipt_metadata q fp p" "ha_metadata (ar_contract a) = Some (approval_metadata q p)"
  shows "approval_for t d (stored_approval a) \<longleftrightarrow> t = lq_target_record_id q \<and> d = lq_report_digest q"
    and "p = None \<Longrightarrow> no_link (stored_approval a)"
    and "p = Some x \<Longrightarrow> same_authority x (ha_producer_id (ar_contract a)) (ha_approval_action (ar_contract a)) (ha_scope (ar_contract a)) \<Longrightarrow>
      approval_id x \<noteq> approval_id a \<Longrightarrow> approval_time x \<le> approval_time a \<Longrightarrow> link_to (stored_approval a) x"
    and "p = None \<Longrightarrow> supersedes_of (stored_approval a) = None" "p = Some x \<Longrightarrow> supersedes_of (stored_approval a) = Some (approval_id x)"
    and "map_of (rp_metadata (ar_receipt (stored_approval a))) ''idempotency_key'' = Some (lq_idempotency_key q)"
    and "map_of (rp_metadata (ar_receipt (stored_approval a))) ''request_fingerprint'' = Some fp"
proof -
  have d: "distinct (map fst (rp_metadata (ar_receipt a)))" "distinct (map fst (contract_metadata a))"
    using assms
    by (cases p; simp add: approval_receipt_metadata_def contract_metadata_def approval_metadata_def opt_or_def)+
  note look = map_of_sorted_items [OF d(1)] map_of_sorted_payload [OF d(2)]
  have c: "contract_metadata a = approval_metadata q p" using assms(2) by (simp add: contract_metadata_def opt_or_def)
  show "approval_for t d (stored_approval a) \<longleftrightarrow> t = lq_target_record_id q \<and> d = lq_report_digest q"
    using assms(1) look by (auto simp: approval_for_def approval_receipt_metadata_def)
  show "p = None \<Longrightarrow> no_link (stored_approval a)" "p = None \<Longrightarrow> supersedes_of (stored_approval a) = None"
    "p = Some x \<Longrightarrow> supersedes_of (stored_approval a) = Some (approval_id x)"
    using c look by (simp_all add: no_link_def supersedes_of_def approval_metadata_def)
  show "p = Some x \<Longrightarrow> same_authority x (ha_producer_id (ar_contract a)) (ha_approval_action (ar_contract a)) (ha_scope (ar_contract a)) \<Longrightarrow>
      approval_id x \<noteq> approval_id a \<Longrightarrow> approval_time x \<le> approval_time a \<Longrightarrow> link_to (stored_approval a) x"
    using assms(1) c look by (simp add: link_to_def approval_metadata_def approval_receipt_metadata_def)
  show "map_of (rp_metadata (ar_receipt (stored_approval a))) ''idempotency_key'' = Some (lq_idempotency_key q)"
    "map_of (rp_metadata (ar_receipt (stored_approval a))) ''request_fingerprint'' = Some fp"
    using assms(1) look by (simp_all add: approval_receipt_metadata_def)
qed

lemma entries_approved:
  assumes "set (entries_of s') = insert e (set (entries_of s))"
  shows "approvals_in s' = (case e of Approved a \<Rightarrow> insert a (approvals_in s) | _ \<Rightarrow> approvals_in s)"
    "revocations_in s' = (case e of Revoked v \<Rightarrow> insert v (revocations_in s) | _ \<Rightarrow> revocations_in s)"
  using assms by (auto simp: approvals_in_def revocations_in_def set_approvals_of split: entry.split)

lemma append_preserves:
  assumes "store_ok s" "approval_append locked (None, None) m now s q prev = (Inr (a, True), s')" "request_text q"
    and "contract_kept s' (approval_to_dict (ar_contract a)) (ar_receipt a)" "\<forall>b \<in> approvals_in s. approval_time b \<le> instant now"
  shows "store_ok s' \<and> approvals_in s' = insert (stored_approval a) (approvals_in s) \<and> revocations_in s' = revocations_in s \<and>
    approval_time a = instant now"
proof -
  obtain items p where b: "lifecycle_unlocked (lq_target_record_id q) (lq_report_digest q) (approvals_of (entries_of s)) (revocations_of (entries_of s)) = Inr items"
    "prev = None \<and> p = None \<or> (\<exists>i x. prev = Some i \<and> p = Some x \<and> transition_target q i items = Inr x)"
    "\<not> already_recorded q p items"
    and c: "ar_contract a = \<lparr>ha_contract_version = ''1'', ha_producer_id = lq_producer_id q, ha_run_id = lq_run_id q,
        ha_actor_identity_ref = lq_actor_identity_ref q, ha_role = lq_actor_role q,
        ha_approval_action = lq_approval_action q, ha_approval_basis_digest = lq_report_digest q,
        ha_scope = lq_scope q, ha_captured_at = Zoned (instant now) 0, ha_metadata = Some (approval_metadata q p)\<rparr>"
    and r: "rp_metadata (ar_receipt a) = approval_receipt_metadata q (approval_request_fingerprint q prev) p"
    and ids: "\<forall>b \<in> approvals_in s. approval_id b \<noteq> approval_id a"
    and ext: "distinct (map fst (es_receipts s'))" "\<forall>nc \<in> set (es_receipts s'). file_ok (es_artifacts s') nc"
      "set (entries_of s') = insert (Approved (stored_approval a)) (set (entries_of s))"
    using assms(1-4) by (rule append_stored)
  have time: "approval_time a = instant now" by (simp add: approval_time_def c)
  have reads: "ha_metadata (ar_contract a) = Some (approval_metadata q p)" by (simp add: c)
  note reads = stored_approval_reads [OF r reads]
  let ?t = "lq_target_record_id q" and ?d = "lq_report_digest q"
  have may: "may_approve ?t ?d (approvals_in s) (revocations_in s) (stored_approval a)"
    unfolding may_approve_def
  proof (intro conjI ballI impI)
    show "no_link (stored_approval a) \<or>
      (\<exists>p\<in>approvals_in s. approval_for ?t ?d p \<and> link_to (stored_approval a) p \<and> active_in ?t ?d (approvals_in s) (revocations_in s) p)"
    proof (cases p)
      case None
      then show ?thesis using reads(2) by simp
    next
      case (Some x)
      then obtain i where "transition_target q i items = Inr x" using b(2) by auto
      note x = store_target [OF assms(1) b(1) this]
      then have "approval_id x \<noteq> approval_id a" "approval_time x \<le> approval_time a" using ids assms(5) time by auto
      then have "link_to (stored_approval a) x"
        using x by (intro reads(3) [OF Some]) (simp_all add: c)
      with x show ?thesis by blast
    qed
  next
    fix b assume b': "b \<in> approvals_in s"
      "approval_for ?t ?d b \<and> active_in ?t ?d (approvals_in s) (revocations_in s) b \<and> supersedes_of (stored_approval a) \<noteq> Some (approval_id b)"
    then have "case_option True (\<lambda>x. approval_id b \<noteq> approval_id x) p" using reads(5) by (auto split: option.split)
    from new_grant [OF assms(1) b(1,3) b'(1) _ _ this] b'(2) show "\<not> same_grant (stored_approval a) b"
      by (auto simp: same_grant_def c)
  qed
  have in_s': "approvals_in s' = insert (stored_approval a) (approvals_in s)" "revocations_in s' = revocations_in s"
    using entries_approved [OF ext(3)] by simp_all
  have "basis_ok t d (approvals_in s') (revocations_in s')" for t d
    unfolding in_s'
    by (rule basis_ok_approve) (use assms(1) may in \<open>auto simp: store_ok_basis reads(1)\<close>)
  with ext in_s' time show ?thesis by (simp add: store_ok_basis)
qed

section \<open>A successful revocation\<close>

lemma revoke_stored:
  assumes "store_ok s" "approval_revoke locked (None, None) m now s q i = (Inr (v, True), s')" "request_text q"
    and "contract_kept s' (revocation_to_dict (vr_contract v)) (vr_receipt v)"
  obtains items p where
      "lifecycle_unlocked (lq_target_record_id q) (lq_report_digest q) (approvals_of (entries_of s)) (revocations_of (entries_of s)) = Inr items"
    and "transition_target q i items = Inr p"
    and "vr_contract v = \<lparr>hr_contract_version = ''1'', hr_producer_id = lq_producer_id q, hr_run_id = lq_run_id q,
        hr_actor_identity_ref = lq_actor_identity_ref q, hr_role = lq_actor_role q,
        hr_approval_action = lq_approval_action q, hr_approval_basis_digest = lq_report_digest q,
        hr_scope = lq_scope q, hr_target_id = approval_id p, hr_target_digest = rp_digest (ar_receipt p),
        hr_reason = lq_reason q, hr_captured_at = Zoned (instant now) 0, hr_metadata = Some (revocation_metadata q)\<rparr>"
    and "rp_metadata (vr_receipt v) = revocation_receipt_metadata q (revocation_request_fingerprint q i) p"
    and "distinct (map fst (es_receipts s'))" "\<forall>nc \<in> set (es_receipts s'). file_ok (es_artifacts s') nc"
    and "set (entries_of s') = insert (Revoked (stored_revocation v)) (set (entries_of s))"
proof -
  obtain As Vs request content where a: "locked" "records_unlocked m s = Inr (As, Vs)"
    "find_idempotent_retry (lq_idempotency_key q) (revocation_request_fingerprint q i) False As Vs = Inr None"
    "prepare_revocation now q i As Vs = Inr (vr_contract v, request, content)"
    "ingest_bytes (None, None) None s content request = (Inr (vr_receipt v), s')"
    using assms(2) by (rule revoke_parts)
  note rec = store_records [OF assms(1) a(2)]
  obtain items p payload where b: "lifecycle_unlocked (lq_target_record_id q) (lq_report_digest q) As Vs = Inr items"
    "transition_target q i items = Inr p" "tz_aware now" "in_range (instant now)"
    and c: "vr_contract v = \<lparr>hr_contract_version = ''1'', hr_producer_id = lq_producer_id q, hr_run_id = lq_run_id q,
        hr_actor_identity_ref = lq_actor_identity_ref q, hr_role = lq_actor_role q,
        hr_approval_action = lq_approval_action q, hr_approval_basis_digest = lq_report_digest q,
        hr_scope = lq_scope q, hr_target_id = approval_id p, hr_target_digest = rp_digest (ar_receipt p),
        hr_reason = lq_reason q, hr_captured_at = Zoned (instant now) 0, hr_metadata = Some (revocation_metadata q)\<rparr>"
    and d: "revocation_post_init (vr_contract v) = Inr ()" "revocation_to_dict (vr_contract v) = Inr payload" "content = contract_bytes payload"
    and q: "request = lifecycle_ingest revocation_producer_type ''human-approval-revocation:'' q (Zoned (instant now) 0)
      (revocation_receipt_metadata q (revocation_request_fingerprint q i) p)"
    using a(4) by (rule prepare_revocation_parts)
  note b1 = b(1) [unfolded rec(1,2)]
  note x = store_target [OF assms(1) b1 b(2)]
  note md = revocation_receipt_metadata_text [OF assms(3) fingerprint_sha(2) [of q i], of p]
  have new_key: "\<forall>e \<in> set (entries_of s). map_of (entry_metadata e) ''idempotency_key'' \<noteq> Some (lq_idempotency_key q)"
    using no_retry_new_key [OF a(3) [unfolded rec(1,2)]] by blast
  have r: "receipt_ok (vr_receipt v) \<and> receipt_text (vr_receipt v) \<and> rp_producer_type (vr_receipt v) = revocation_producer_type \<and>
      rp_producer_id (vr_receipt v) = lq_producer_id q \<and> rp_run_id (vr_receipt v) = Some (lq_run_id q) \<and>
      rp_captured_at (vr_receipt v) = Aware (instant now) \<and>
      rp_metadata (vr_receipt v) = revocation_receipt_metadata q (revocation_request_fingerprint q i) p \<and>
      rp_artifact_digest (vr_receipt v) = sha256_hex content \<and> rp_artifact_size (vr_receipt v) = int (length content)"
    by (rule lifecycle_receipt [OF ingest_bytes_Inr(1) [OF a(5) [unfolded q]] b(4) assms(3)]) (use md x in auto)
  have new: "map_of (es_receipts s) (receipt_file (rp_receipt_id (vr_receipt v))) = None \<and>
      es_receipts s' = es_receipts s @ [(receipt_file (rp_receipt_id (vr_receipt v)), indented (JObj (receipt_to_dict (vr_receipt v))))]"
    by (rule lifecycle_receipt_new [OF assms(1) a(5), of "lq_idempotency_key q"])
      (use md x new_key in \<open>auto simp: q lifecycle_ingest_def revocation_receipt_metadata_def\<close>)
  have ct: "revocation_text (vr_contract v)"
    using assms(3) revocation_metadata_text [OF assms(3)] lifecycle_keys_utf8
    by (simp add: c revocation_text_def request_text_def)
  have eta: "\<lparr>vr_contract = vr_contract v, vr_receipt = vr_receipt v\<rparr> = v" by simp
  have read: "read_entry (es_artifacts s') (indented (JObj (receipt_to_dict (vr_receipt v)))) = Inr (Revoked (stored_revocation v))"
    using revocation_entry_read [OF _ _ _ _ _ _ _ _ _ _ _ _ d(1,2) ct, of "vr_receipt v" "es_artifacts s'", unfolded eta] r assms(4) c d
    by (simp add: contract_kept_def revocation_receipt_metadata_def)
  have inn: "receipt_in (indented (JObj (receipt_to_dict (vr_receipt v)))) = Inr (sort_receipt (vr_receipt v))"
    using r by (intro receipt_in_written) simp_all
  have ext: "distinct (map fst (es_receipts s')) \<and> (\<forall>nc \<in> set (es_receipts s'). file_ok (es_artifacts s') nc) \<and>
      set (entries_of s') = insert (Revoked (stored_revocation v)) (set (entries_of s))"
    by (rule store_extended [where r = "vr_receipt v" and r' = "sort_receipt (vr_receipt v)", OF _ _ ingest_bytes_frame(1) [OF a(5)]])
      (use assms(1) new inn read in \<open>auto simp: store_ok_def sort_receipt_def\<close>)
  show thesis
    by (rule that [of items p]) (use b1 b c r ext in auto)
qed

lemma stored_revocation_fields:
  "vr_contract (stored_revocation v) = (vr_contract v)\<lparr>hr_metadata := Some (sorted_payload (opt_or (hr_metadata (vr_contract v)) []))\<rparr>"
  "rp_metadata (vr_receipt (stored_revocation v)) = sorted_items (rp_metadata (vr_receipt v))"
  by (simp_all add: stored_revocation_def sort_receipt_def)

lemma revoke_preserves:
  assumes "store_ok s" "approval_revoke locked (None, None) m now s q i = (Inr (v, True), s')" "request_text q"
    and "contract_kept s' (revocation_to_dict (vr_contract v)) (vr_receipt v)" "\<forall>b \<in> approvals_in s. approval_time b \<le> instant now"
  shows "store_ok s' \<and> approvals_in s' = approvals_in s \<and> revocations_in s' = insert (stored_revocation v) (revocations_in s)"
proof -
  obtain items p where b: "lifecycle_unlocked (lq_target_record_id q) (lq_report_digest q) (approvals_of (entries_of s)) (revocations_of (entries_of s)) = Inr items"
    "transition_target q i items = Inr p"
    and c: "vr_contract v = \<lparr>hr_contract_version = ''1'', hr_producer_id = lq_producer_id q, hr_run_id = lq_run_id q,
        hr_actor_identity_ref = lq_actor_identity_ref q, hr_role = lq_actor_role q,
        hr_approval_action = lq_approval_action q, hr_approval_basis_digest = lq_report_digest q,
        hr_scope = lq_scope q, hr_target_id = approval_id p, hr_target_digest = rp_digest (ar_receipt p),
        hr_reason = lq_reason q, hr_captured_at = Zoned (instant now) 0, hr_metadata = Some (revocation_metadata q)\<rparr>"
    and r: "rp_metadata (vr_receipt v) = revocation_receipt_metadata q (revocation_request_fingerprint q i) p"
    and ext: "distinct (map fst (es_receipts s'))" "\<forall>nc \<in> set (es_receipts s'). file_ok (es_artifacts s') nc"
      "set (entries_of s') = insert (Revoked (stored_revocation v)) (set (entries_of s))"
    using assms(1-4) by (rule revoke_stored)
  note x = store_target [OF assms(1) b]
  have "distinct (map fst (rp_metadata (vr_receipt v)))" by (simp add: r revocation_receipt_metadata_def)
  then have basis: "revocation_for t d (stored_revocation v) \<longleftrightarrow> t = lq_target_record_id q \<and> d = lq_report_digest q" for t d
    by (auto simp: revocation_for_def stored_revocation_fields map_of_sorted_items) (simp_all add: r revocation_receipt_metadata_def)
  have "revocation_of (stored_revocation v) p"
    using x assms(5) by (simp add: revocation_of_def stored_revocation_fields c revocation_time_def)
  with x have may: "may_revoke (lq_target_record_id q) (lq_report_digest q) (approvals_in s) (revocations_in s) (stored_revocation v)"
    by (auto simp: may_revoke_def)
  have in_s': "approvals_in s' = approvals_in s" "revocations_in s' = insert (stored_revocation v) (revocations_in s)"
    using entries_approved [OF ext(3)] by simp_all
  have "basis_ok t d (approvals_in s') (revocations_in s')" for t d
    unfolding in_s'
    by (rule basis_ok_revoke) (use assms(1) may in \<open>auto simp: store_ok_basis basis\<close>)
  with ext in_s' show ?thesis by (simp add: store_ok_basis)
qed

section \<open>The other operations\<close>

lemma ingest_refused:
  assumes "ingest_bytes (rival, None) g s content q = (Inl e, s')"
  shows "es_receipts s' = es_receipts s"
  using assms
  by (auto simp: ingest_bytes_def receipt_put_def Let_def dest!: sym [where s = "Inr ()" and t = "bindE x f" for x f]
      split: sum.splits prod.splits option.splits if_splits)

lemma append_other:
  assumes "approval_append locked (None, None) m now s q prev = (x, s')" "\<forall>a. x \<noteq> Inr (a, True)"
  shows "es_receipts s' = es_receipts s" "es_artifacts s k = Some b \<Longrightarrow> es_artifacts s' k = Some b"
proof -
  have "s' = s \<or> (\<exists>content request e. ingest_bytes (None, None) None s content request = (Inl e, s'))"
    using assms
    by (auto simp: approval_append_def bindE_def split: sum.splits prod.splits)
  then show "es_receipts s' = es_receipts s" "es_artifacts s k = Some b \<Longrightarrow> es_artifacts s' k = Some b"
    using ingest_refused ingest_bytes_frame(1) by blast+
qed

lemma revoke_other:
  assumes "approval_revoke locked (None, None) m now s q i = (x, s')" "\<forall>v. x \<noteq> Inr (v, True)"
  shows "es_receipts s' = es_receipts s" "es_artifacts s k = Some b \<Longrightarrow> es_artifacts s' k = Some b"
proof -
  have "s' = s \<or> (\<exists>content request e. ingest_bytes (None, None) None s content request = (Inl e, s'))"
    using assms
    by (auto simp: approval_revoke_def bindE_def split: sum.splits prod.splits)
  then show "es_receipts s' = es_receipts s" "es_artifacts s k = Some b \<Longrightarrow> es_artifacts s' k = Some b"
    using ingest_refused ingest_bytes_frame(1) by blast+
qed

text \<open>Evidence of another producer is no entry of the lifecycle.\<close>

lemma foreign_ingested:
  assumes "store_ok s" "ingest_bytes (None, None) g s content request = (x, s')"
    and "iq_producer_type request \<notin> {approval_producer_type, revocation_producer_type}"
    and "\<forall>r. x = Inr r \<longrightarrow> receipt_text r" "dt_ok (iq_captured_at request)" "case_option True reference_ok (iq_provenance_ref request)"
  shows "store_ok s' \<and> approvals_in s' = approvals_in s \<and> revocations_in s' = revocations_in s"
proof (cases "es_receipts s' = es_receipts s")
  case True
  have kept: "\<And>k b. es_artifacts s k = Some b \<Longrightarrow> es_artifacts s' k = Some b" using ingest_bytes_frame(1) [OF assms(2)] .
  have "entries_of s' = entries_of s"
    using artifacts_extended [OF _ kept True] assms(1) by (simp add: store_ok_def)
  with store_ok_artifacts [OF assms(1) kept True] show ?thesis by (simp add: approvals_in_def revocations_in_def)
next
  case False
  then obtain r where r: "x = Inr r" using ingest_refused assms(2) by (cases x) blast+
  note parts = ingest_bytes_Inr [OF assms(2) [unfolded r]]
  have new: "map_of (es_receipts s) (receipt_file (rp_receipt_id r)) = None"
    "es_receipts s' = es_receipts s @ [(receipt_file (rp_receipt_id r), indented (JObj (receipt_to_dict r)))]"
    using parts(4) False by (auto simp: receipt_put_def Let_def split: option.splits)
  have rt: "receipt_text r" using assms(4) r by simp
  have ok: "receipt_ok r" using parts(1) rt assms(5,6) by (rule prepare_ok)
  have inn: "receipt_in (indented (JObj (receipt_to_dict r))) = Inr (sort_receipt r)" using ok rt by (rule receipt_in_written)
  have "rp_producer_type r = iq_producer_type request"
    using prepare_request [OF parts(1)] by (auto simp: request_receipt_def make_receipt_Inr_iff)
  then have read: "read_entry (es_artifacts s') (indented (JObj (receipt_to_dict r))) = Inr Unrelated"
    using inn assms(3) by (simp add: read_entry_def receipt_in_def [symmetric] sort_receipt_def)
  have ext: "distinct (map fst (es_receipts s')) \<and> (\<forall>nc \<in> set (es_receipts s'). file_ok (es_artifacts s') nc) \<and>
      set (entries_of s') = insert Unrelated (set (entries_of s))"
    by (rule store_extended [where r = r and r' = "sort_receipt r", OF _ _ ingest_bytes_frame(1) [OF assms(2)]])
      (use assms(1) new inn read in \<open>auto simp: store_ok_def sort_receipt_def\<close>)
  with assms(1) entries_approved [of s' Unrelated s] show ?thesis by (simp add: store_ok_basis)
qed

section \<open>Histories\<close>

text \<open>
  One operation on a workspace at a time \<open>t\<close>: the clock does not go back, the texts of a request are those UTF-8 can
  encode, and the bytes of a new contract meet no other content of the same digest. Operations that fail count, too.
\<close>

inductive approval_step :: "int \<Rightarrow> int \<times> evidence_store \<Rightarrow> int \<times> evidence_store \<Rightarrow> bool" for m where
  append_op: "approval_step m (t, s) (instant now, s')"
    if "approval_append locked (None, None) m now s q prev = (x, s')" "request_text q" "t \<le> instant now"
      "\<forall>a. x = Inr (a, True) \<longrightarrow> contract_kept s' (approval_to_dict (ar_contract a)) (ar_receipt a)"
| revoke_op: "approval_step m (t, s) (instant now, s')"
    if "approval_revoke locked (None, None) m now s q i = (x, s')" "request_text q" "t \<le> instant now"
      "\<forall>v. x = Inr (v, True) \<longrightarrow> contract_kept s' (revocation_to_dict (vr_contract v)) (vr_receipt v)"
| ingest_op: "approval_step m (t, s) (t, s')"
    if "ingest_bytes (None, None) g s content request = (x, s')"
      "iq_producer_type request \<notin> {approval_producer_type, revocation_producer_type}"
      "\<forall>r. x = Inr r \<longrightarrow> receipt_text r" "dt_ok (iq_captured_at request)" "case_option True reference_ok (iq_provenance_ref request)"

inductive approval_history :: "int \<Rightarrow> int \<times> evidence_store \<Rightarrow> bool" for m where
  empty_history: "approval_history m (t, empty_store)"
| longer_history: "approval_history m w \<Longrightarrow> approval_step m w w' \<Longrightarrow> approval_history m w'"

definition history_ok :: "int \<times> evidence_store \<Rightarrow> bool" where
  "history_ok w = (store_ok (snd w) \<and> (\<forall>b \<in> approvals_in (snd w). approval_time b \<le> fst w))"

lemma entries_empty [simp]: "entries_of empty_store = []" "approvals_in empty_store = {}" "revocations_in empty_store = {}"
  by (simp_all add: entries_of_def empty_store_def approvals_in_def revocations_in_def sorted_items_def)

lemma history_ok_empty: "history_ok (t, empty_store)"
  by (simp add: history_ok_def store_ok_def links_ok_def revocations_ok_def unique_active_def) (simp add: empty_store_def)

lemma approval_step_ok:
  assumes "approval_step m w w'" "history_ok w"
  shows "history_ok w' \<and> approvals_in (snd w) \<subseteq> approvals_in (snd w') \<and> revocations_in (snd w) \<subseteq> revocations_in (snd w')"
  using assms
proof cases
  case (append_op locked now s q prev x s' t)
  have time: "\<forall>b \<in> approvals_in s. approval_time b \<le> instant now" using append_op assms(2) by (auto simp: history_ok_def)
  have ok: "store_ok s" using append_op assms(2) by (simp add: history_ok_def)
  show ?thesis
  proof (cases "\<exists>a. x = Inr (a, True)")
    case True
    then obtain a where a: "x = Inr (a, True)" by blast
    from append_preserves [OF ok append_op(3) [unfolded a] append_op(4) _ time] append_op(6) a
    have "store_ok s' \<and> approvals_in s' = insert (stored_approval a) (approvals_in s) \<and> revocations_in s' = revocations_in s \<and>
      approval_time a = instant now" by simp
    then show ?thesis using time append_op(1,2) by (auto simp: history_ok_def)
  next
    case False
    then have "store_ok s' \<and> entries_of s' = entries_of s"
      using append_other [OF append_op(3)] ok store_ok_artifacts [OF ok, of s'] artifacts_extended [of s s'] by (auto simp: store_ok_def)
    then show ?thesis using time append_op(1,2) by (simp add: history_ok_def approvals_in_def revocations_in_def)
  qed
next
  case (revoke_op locked now s q i x s' t)
  have time: "\<forall>b \<in> approvals_in s. approval_time b \<le> instant now" using revoke_op assms(2) by (auto simp: history_ok_def)
  have ok: "store_ok s" using revoke_op assms(2) by (simp add: history_ok_def)
  show ?thesis
  proof (cases "\<exists>v. x = Inr (v, True)")
    case True
    then obtain v where v: "x = Inr (v, True)" by blast
    from revoke_preserves [OF ok revoke_op(3) [unfolded v] revoke_op(4) _ time] revoke_op(6) v
    have "store_ok s' \<and> approvals_in s' = approvals_in s \<and> revocations_in s' = insert (stored_revocation v) (revocations_in s)"
      by simp
    then show ?thesis using time revoke_op(1,2) by (auto simp: history_ok_def)
  next
    case False
    then have "store_ok s' \<and> entries_of s' = entries_of s"
      using revoke_other [OF revoke_op(3)] ok store_ok_artifacts [OF ok, of s'] artifacts_extended [of s s'] by (auto simp: store_ok_def)
    then show ?thesis using time revoke_op(1,2) by (simp add: history_ok_def approvals_in_def revocations_in_def)
  qed
next
  case (ingest_op g s content request x s' t)
  have "store_ok s" using ingest_op assms(2) by (simp add: history_ok_def)
  from foreign_ingested [OF this ingest_op(3-7)] show ?thesis using ingest_op(1,2) assms(2) by (simp add: history_ok_def)
qed

lemma approval_history_ok: "approval_history m w \<Longrightarrow> history_ok w"
  by (induction rule: approval_history.induct) (auto simp: history_ok_empty approval_step_ok)

lemma approval_steps_ok:
  assumes "(approval_step m)\<^sup>*\<^sup>* w w'" "history_ok w"
  shows "history_ok w' \<and> approvals_in (snd w) \<subseteq> approvals_in (snd w') \<and> revocations_in (snd w) \<subseteq> revocations_in (snd w')"
  using assms(1)
proof (induction rule: rtranclp_induct)
  case (step y z)
  with approval_step_ok [OF step(2)] show ?case by blast
qed (simp add: assms(2))

section \<open>What a lifecycle shows\<close>

lemma store_lifecycle_for_target:
  assumes "store_ok s" "int (length (es_receipts s)) \<le> m"
  shows "lifecycle_for_target True m s t d =
    lifecycle_unlocked t d (approvals_of (entries_of s)) (revocations_of (entries_of s))"
  using assms by (simp add: lifecycle_for_target_def with_lock_def store_reads store_ok_def)


text \<open>
  C28: the record of approvals only grows, and a superseded or revoked approval never becomes active again: in every
  later lifecycle of the same target and report the approval is still listed, with the same status unless it was
  active.
\<close>

theorem approval_status_final:
  assumes "approval_history m (t, s)" "(approval_step m)\<^sup>*\<^sup>* (t, s) (u, s')"
    and "lifecycle_for_target True n s target digest = Inr items" "lifecycle_for_target True k s' target digest = Inr items'"
    and "x \<in> set items"
  shows "\<exists>y \<in> set items'. li_approval y = li_approval x \<and> (li_status x \<noteq> ''active'' \<longrightarrow> li_status y = li_status x)"
proof -
  have h: "history_ok (t, s)" using assms(1) by (rule approval_history_ok)
  note grown = approval_steps_ok [OF assms(2) h]
  have ok: "store_ok s" "store_ok s'" using h grown by (simp_all add: history_ok_def)
  have items: "lifecycle_unlocked target digest (approvals_of (entries_of s)) (revocations_of (entries_of s)) = Inr items"
    using assms(3) ok(1) store_records [OF ok(1)]
    by (auto simp: lifecycle_for_target_def with_lock_def bindE_eq_Inr_iff)
  have items': "lifecycle_unlocked target digest (approvals_of (entries_of s')) (revocations_of (entries_of s')) = Inr items'"
    using assms(4) ok(2) store_records [OF ok(2)]
    by (auto simp: lifecycle_for_target_def with_lock_def bindE_eq_Inr_iff)
  have "li_approval x \<in> approvals_in s' \<and> approval_for target digest (li_approval x)"
    using store_items(1) [OF ok(1) items, of "li_approval x"] assms(5) grown by auto
  then obtain y where y: "y \<in> set items'" "li_approval y = li_approval x"
    using store_items(1) [OF ok(2) items'] by blast
  have "li_status y = li_status x" if "li_status x \<noteq> ''active''"
  proof -
    have st: "li_status x = status_in target digest (approvals_in s) (revocations_in s) (li_approval x)"
      "li_status y = status_in target digest (approvals_in s') (revocations_in s') (li_approval x)"
      using store_items(2) [OF ok(1) items assms(5)] store_items(2) [OF ok(2) items' y(1)] y(2) by simp_all
    show ?thesis
      unfolding st by (rule status_final) (use grown ok(2) that st in \<open>auto simp: store_ok_def\<close>)
  qed
  with y show ?thesis by blast
qed

section \<open>The same request again\<close>

lemma find_retry_unique:
  assumes "e \<in> set es" "\<forall>e' \<in> set es. map_of (entry_metadata e') ''idempotency_key'' = Some k \<longrightarrow> e' = e"
    and "map_of (entry_metadata e) ''idempotency_key'' = Some k" "map_of (entry_metadata e) ''request_fingerprint'' = Some f"
    and "is_approval e"
  shows "find_retry k f True es = Inr (Some e)"
  using assms(1,2)
proof (induction es)
  case (Cons x xs)
  show ?case
  proof (cases "map_of (entry_metadata x) ''idempotency_key'' = Some k")
    case True
    then have "x = e" using Cons.prems(2) by simp
    with assms(3-5) show ?thesis by simp
  next
    case False
    then have "e \<in> set xs" using Cons.prems(1) assms(3) by auto
    moreover have "\<forall>e' \<in> set xs. map_of (entry_metadata e') ''idempotency_key'' = Some k \<longrightarrow> e' = e"
      using Cons.prems(2) by (meson list.set_intros(2))
    ultimately have "find_retry k f True xs = Inr (Some e)" by (rule Cons.IH)
    then show ?thesis by (simp add: False)
  qed
qed simp

lemma full_store:
  assumes "m < int (length (es_receipts s))"
  shows "approval_append True rivals m now s q prev = (Inl (OverflowError ''approval receipt scan''), s)"
    "approval_revoke True rivals m now s q i = (Inl (OverflowError ''approval receipt scan''), s)"
    "lifecycle_for_target True m s t d = Inl (OverflowError ''approval receipt scan'')"
proof -
  have "records_unlocked m s = Inl (OverflowError ''approval receipt scan'')"
    using assms by (simp add: records_unlocked_def sorted_items_def)
  then show "approval_append True rivals m now s q prev = (Inl (OverflowError ''approval receipt scan''), s)"
    "approval_revoke True rivals m now s q i = (Inl (OverflowError ''approval receipt scan''), s)"
    "lifecycle_for_target True m s t d = Inl (OverflowError ''approval receipt scan'')"
    by (simp_all add: approval_append_def approval_revoke_def lifecycle_for_target_def with_lock_def)
qed

lemma append_retried:
  assumes "store_ok s" "approval_append locked (None, None) m now s q prev = (Inr (a, True), s')" "request_text q"
    and "contract_kept s' (approval_to_dict (ar_contract a)) (ar_receipt a)" "int (length (es_receipts s)) < m"
  shows "approval_append True rivals m later s' q prev = (Inr (stored_approval a, False), s')"
proof -
  obtain items p where
    c: "ar_contract a = \<lparr>ha_contract_version = ''1'', ha_producer_id = lq_producer_id q, ha_run_id = lq_run_id q,
        ha_actor_identity_ref = lq_actor_identity_ref q, ha_role = lq_actor_role q,
        ha_approval_action = lq_approval_action q, ha_approval_basis_digest = lq_report_digest q,
        ha_scope = lq_scope q, ha_captured_at = Zoned (instant now) 0, ha_metadata = Some (approval_metadata q p)\<rparr>"
    and r: "rp_metadata (ar_receipt a) = approval_receipt_metadata q (approval_request_fingerprint q prev) p"
    and n: "length (es_receipts s') = Suc (length (es_receipts s))"
    and new: "\<forall>e \<in> set (entries_of s). map_of (entry_metadata e) ''idempotency_key'' \<noteq> Some (lq_idempotency_key q)"
    and ok: "\<forall>nc \<in> set (es_receipts s'). file_ok (es_artifacts s') nc"
    and e: "set (entries_of s') = insert (Approved (stored_approval a)) (set (entries_of s))"
    using assms(1-4) by (rule append_stored)
  have "ha_metadata (ar_contract a) = Some (approval_metadata q p)" by (simp add: c)
  note reads = stored_approval_reads(6,7) [OF r this]
  have "find_idempotent_retry (lq_idempotency_key q) (approval_request_fingerprint q prev) True
      (approvals_of (entries_of s')) (revocations_of (entries_of s')) = Inr (Some (Approved (stored_approval a)))"
    unfolding find_idempotent_retry_def
  proof (rule find_retry_unique)
    let ?es = "map Approved (approvals_of (entries_of s')) @ map Revoked (revocations_of (entries_of s'))"
    show "Approved (stored_approval a) \<in> set ?es" using e by (simp add: set_approvals_of)
    have "set ?es \<subseteq> set (entries_of s')" by (auto simp: set_approvals_of)
    then show "\<forall>e' \<in> set ?es. map_of (entry_metadata e') ''idempotency_key'' = Some (lq_idempotency_key q) \<longrightarrow>
        e' = Approved (stored_approval a)"
      using new unfolding e by blast
    show "map_of (entry_metadata (Approved (stored_approval a))) ''idempotency_key'' = Some (lq_idempotency_key q)"
      "map_of (entry_metadata (Approved (stored_approval a))) ''request_fingerprint'' = Some (approval_request_fingerprint q prev)"
      unfolding entry_metadata.simps by (rule reads)+
  qed simp
  moreover have "records_unlocked m s' = Inr (approvals_of (entries_of s'), revocations_of (entries_of s'))"
    using store_reads [OF ok] n assms(5) by simp
  ultimately show ?thesis by (simp add: approval_append_def with_lock_def)
qed

text \<open>
  C30: a request that is repeated, at any later time, with the same idempotency key returns the approval it
  recorded and leaves the store as it is. The exception is the last append that fits: \<open>max_receipts\<close> bounds what is
  scanned and not what is stored, so the append at the limit succeeds, and then every operation on approvals fails
  and leaves the store, the repeated request too.
\<close>

theorem append_repeated:
  assumes "approval_history n (t, s)" "approval_append locked (None, None) m now s q prev = (Inr (a, True), s')" "request_text q"
    and "contract_kept s' (approval_to_dict (ar_contract a)) (ar_receipt a)"
  shows "if int (length (es_receipts s)) < m
    then approval_append True rivals m later s' q prev = (Inr (stored_approval a, False), s')
    else approval_append True rivals m later s' q' prev' = (Inl (OverflowError ''approval receipt scan''), s') \<and>
      approval_revoke True rivals m later s' q' i = (Inl (OverflowError ''approval receipt scan''), s') \<and>
      lifecycle_for_target True m s' target digest = Inl (OverflowError ''approval receipt scan'')"
proof (cases "int (length (es_receipts s)) < m")
  case True
  have "store_ok s" using approval_history_ok [OF assms(1)] by (simp add: history_ok_def)
  from append_retried [OF this assms(2-4) True] True show ?thesis by simp
next
  case False
  have "store_ok s" using approval_history_ok [OF assms(1)] by (simp add: history_ok_def)
  then have "length (es_receipts s') = Suc (length (es_receipts s))" using assms(2-4) by (rule append_stored)
  then have "m < int (length (es_receipts s'))" using False by simp
  then show ?thesis using False by (simp add: full_store)
qed

section \<open>A clock behind its predecessor\<close>

lemma supersession_behind:
  assumes "map_of (contract_metadata a) ''supersedes_approval_receipt_id'' = Some (JStr (approval_id p))"
    and "map_of (contract_metadata a) ''supersedes_approval_receipt_digest'' = Some (JStr (rp_digest (ar_receipt p)))"
    and "map_of (rp_metadata (ar_receipt a)) ''supersedes_approval_receipt_id'' = Some (approval_id p)"
    and "map_of (rp_metadata (ar_receipt a)) ''supersedes_approval_receipt_digest'' = Some (rp_digest (ar_receipt p))"
    and "approval_id p \<noteq> approval_id a" "approval_time a < approval_time p" "map_of b (approval_id p) = Some p"
    and "same_authority p (ha_producer_id (ar_contract a)) (ha_approval_action (ar_contract a)) (ha_scope (ar_contract a))"
  shows "apply_supersession b a st = Inl (ValueError ''precedes its predecessor'')"
  using assms by (cases st) (simp add: apply_supersession_def get_or_def Let_def)

text \<open>One such successor, wherever its receipt is in the order of the scan, and the basis has no lifecycle.\<close>

lemma lifecycle_behind:
  assumes "links_ok t d A" "set As' = insert a A" "distinct (map approval_id As')" "a \<notin> A" "approval_for t d a"
    and "p \<in> A" "approval_for t d p" "\<And>b st. map_of b (approval_id p) = Some p \<Longrightarrow> apply_supersession b a st = Inl e"
  shows "lifecycle_unlocked t d As' Vs = Inl e"
proof -
  let ?sel = "approvals_for_target As' t d"
  let ?b = "map (\<lambda>a. (approval_id a, a)) ?sel"
  let ?start = "map (\<lambda>(i, _). (i, ''active'')) ?b"
  have dist: "distinct (map approval_id ?sel)" using assms(3) by (rule distinct_approvals_for_target)
  then have keys: "distinct (map fst ?b)" by (simp add: comp_def)
  have look: "map_of ?b (approval_id x) = Some x" if "x \<in> set ?sel" for x
    using keys that by (intro map_of_is_SomeI) auto
  have in_sel: "x \<in> set ?sel \<longleftrightarrow> (x = a \<or> x \<in> A) \<and> approval_for t d x" for x
    using assms(2) by (simp add: set_approvals_for_target)
  obtain pre post where split: "?sel = pre @ a # post" using in_sel [of a] assms(5) split_list by fastforce
  have pre: "x \<in> A \<and> approval_for t d x" if "x \<in> set pre" for x
    using that dist in_sel [of x] unfolding split by auto
  have linked: "\<forall>x \<in> set pre. no_link x \<or> (\<exists>q. link_to x q \<and> map_of ?b (approval_id q) = Some q)"
  proof
    fix x assume "x \<in> set pre"
    then consider "no_link x" | q where "q \<in> A" "approval_for t d q" "link_to x q"
      using pre assms(1) unfolding links_ok_def by blast
    then show "no_link x \<or> (\<exists>q. link_to x q \<and> map_of ?b (approval_id q) = Some q)"
      by cases (use in_sel look in blast)+
  qed
  have "\<forall>x \<in> set pre. \<forall>y \<in> set pre. \<forall>q. supersedes_of x = Some q \<and> supersedes_of y = Some q \<longrightarrow> x = y"
    using pre assms(1) unfolding links_ok_def by blast
  moreover have "distinct (map approval_id pre)" using dist unfolding split by simp
  ultimately obtain st where st: "foldE (apply_supersession ?b) pre (?start, []) = Inr st"
    using supersessions_fold [OF linked, of "[]" ?start] by auto
  have "map_of ?b (approval_id p) = Some p" by (rule look) (use in_sel assms(6,7) in simp)
  from assms(8) [OF this, of st] have "foldE (apply_supersession ?b) (pre @ a # post) (?start, []) = Inl e"
    unfolding foldE_append st by simp
  then have "foldE (apply_supersession ?b) ?sel (?start, []) = Inl e" using split by simp
  then show ?thesis unfolding lifecycle_unlocked_def Let_def dict_of_id [OF keys] by simp
qed


section \<open>Witnesses\<close>

definition grant_request :: lifecycle_request where
  "grant_request = \<lparr>lq_target_record_id = ''t'', lq_candidate_identity = ''c'', lq_candidate_digest = ''cd'', lq_report_digest = ''rd'',
     lq_profile_id = ''f'', lq_profile_version = ''1'', lq_actor_identity_ref = ''actor'', lq_actor_role = ''lead'',
     lq_producer_id = ''p'', lq_run_id = ''r'', lq_approval_action = ''release'', lq_scope = ''all'', lq_reason = ''ok'',
     lq_idempotency_key = ''k''\<rparr>"

definition granted_contract :: approval_contract where
  "granted_contract = \<lparr>ha_contract_version = ''1'', ha_producer_id = ''p'', ha_run_id = ''r'', ha_actor_identity_ref = ''actor'',
     ha_role = ''lead'', ha_approval_action = ''release'', ha_approval_basis_digest = ''rd'', ha_scope = ''all'',
     ha_captured_at = Zoned 5 0, ha_metadata = Some (approval_metadata grant_request None)\<rparr>"

lemma granted_contract_ok: "approval_post_init granted_contract = Inr ()" "is_ok (approval_to_dict granted_contract)"
  "request_text grant_request"
  by code_simp+

definition granted_ingest :: ingest_request where
  "granted_ingest = lifecycle_ingest approval_producer_type ''human-approval:'' grant_request (Zoned 5 0)
     (approval_receipt_metadata grant_request (approval_request_fingerprint grant_request None) None)"

lemma granted_prepared:
  assumes "approval_to_dict granted_contract = Inr d"
  shows "prepare_approval (Aware 5) grant_request None [] [] = Inr (granted_contract, granted_ingest, contract_bytes d)"
proof -
  have "lifecycle_unlocked t d [] [] = Inr []" for t d by (simp add: lifecycle_unlocked_def approvals_for_target_def dict_of_def)
  moreover have "in_range 5" by code_simp
  moreover have "granted_contract = \<lparr>ha_contract_version = ''1'', ha_producer_id = lq_producer_id grant_request, ha_run_id = lq_run_id grant_request,
        ha_actor_identity_ref = lq_actor_identity_ref grant_request, ha_role = lq_actor_role grant_request,
        ha_approval_action = lq_approval_action grant_request, ha_approval_basis_digest = lq_report_digest grant_request,
        ha_scope = lq_scope grant_request, ha_captured_at = Zoned 5 0, ha_metadata = Some (approval_metadata grant_request None)\<rparr>"
    by (simp add: granted_contract_def grant_request_def)
  ultimately show ?thesis
    using assms granted_contract_ok(1)
    by (simp add: prepare_approval_def clock_time_def construct_def already_recorded_def granted_ingest_def)
qed

lemma granted_receipt: "\<exists>r. prepare None content granted_ingest = Inr r"
proof -
  let ?f = "\<lparr>rp_producer_type = approval_producer_type, rp_producer_id = ''p'', rp_artifact_digest = sha256_hex content,
     rp_artifact_size = int (length content), rp_captured_at = Aware 5, rp_source_ref = ''human-approval:t'',
     rp_source_event_id = Some ''k'', rp_producer_version = None, rp_run_id = Some ''r'', rp_provenance_ref = None,
     rp_metadata = iq_metadata granted_ingest, rp_receipt_id = [], rp_digest = []\<rparr>"
  have "receipt_guards ?f = Inr ()"
    by (simp add: receipt_guards_def blank_if_given_def kind_not_in_def approval_producer_type_def granted_ingest_def
        lifecycle_ingest_def approval_receipt_metadata_def)
  then obtain r where "make_receipt ?f = Inr r" by (auto simp: make_receipt_Inr_iff)
  moreover have "request_receipt None content granted_ingest = make_receipt ?f"
    by (simp add: request_receipt_def granted_ingest_def lifecycle_ingest_def ingested_metadata_def grant_request_def)
  moreover have "''internal'' \<in> set sensitivities" by code_simp
  ultimately show ?thesis
    by (auto simp: prepare_def) (simp_all add: granted_ingest_def lifecycle_ingest_def)
qed

lemma granted:
  "\<exists>a s. approval_append True (None, None) 1 (Aware 5) empty_store grant_request None = (Inr (a, True), s) \<and>
     contract_kept s (approval_to_dict (ar_contract a)) (ar_receipt a)"
proof -
  obtain d where d: "approval_to_dict granted_contract = Inr d" using granted_contract_ok(2) by (auto simp: is_ok_iff)
  let ?c = "contract_bytes d"
  obtain r where r: "prepare None ?c granted_ingest = Inr r" using granted_receipt by blast
  note req = request_receipt_digest [OF prepare_request [OF r]]
  have "assert_existing_artifact [sha256_hex ?c \<mapsto> ?c] r = Inr ()"
    by (simp add: assert_existing_artifact_def artifact_get_def req)
  then have i: "ingest_bytes (None, None) None empty_store ?c granted_ingest =
    (Inr r, \<lparr>es_artifacts = [sha256_hex ?c \<mapsto> ?c], es_receipts = [(receipt_file (rp_receipt_id r), indented (JObj (receipt_to_dict r)))]\<rparr>)"
    by (subst ingest_bytes_InrI [OF r]) (simp_all add: empty_store_def artifact_put_def opt_or_def receipt_put_def Let_def)
  have "records_unlocked 1 empty_store = Inr ([], [])"
    by (simp add: records_unlocked_def empty_store_def sorted_items_def)
  then have "approval_append True (None, None) 1 (Aware 5) empty_store grant_request None =
    (Inr (\<lparr>ar_contract = granted_contract, ar_receipt = r\<rparr>, True),
     \<lparr>es_artifacts = [sha256_hex ?c \<mapsto> ?c], es_receipts = [(receipt_file (rp_receipt_id r), indented (JObj (receipt_to_dict r)))]\<rparr>)"
    by (simp add: approval_append_def with_lock_def find_idempotent_retry_def granted_prepared [OF d] i)
  moreover have "contract_kept \<lparr>es_artifacts = [sha256_hex ?c \<mapsto> ?c], es_receipts = R\<rparr> (approval_to_dict granted_contract) r" for R
    by (simp add: contract_kept_def d req)
  ultimately show ?thesis by fastforce
qed

lemma granted_stored:
  obtains a s where "approval_append True (None, None) 1 (Aware 5) empty_store grant_request None = (Inr (a, True), s)"
    and "contract_kept s (approval_to_dict (ar_contract a)) (ar_receipt a)" "approval_history 1 (5, s)" "store_ok s"
    and "approvals_of (entries_of s) = [stored_approval a]" "revocations_of (entries_of s) = []" "length (es_receipts s) = 1"
    and "ar_contract a = granted_contract"
    and "rp_metadata (ar_receipt a) = approval_receipt_metadata grant_request (approval_request_fingerprint grant_request None) None"
proof -
  obtain a s where a: "approval_append True (None, None) 1 (Aware 5) empty_store grant_request None = (Inr (a, True), s)"
    "contract_kept s (approval_to_dict (ar_contract a)) (ar_receipt a)"
    using granted by blast
  have start: "store_ok empty_store" using history_ok_empty [of 0] by (simp add: history_ok_def)
  have "approval_step 1 (5, empty_store) (instant (Aware 5), s)"
    by (rule append_op [OF a(1)]) (use granted_contract_ok(3) a(2) in simp_all)
  then have h: "approval_history 1 (5, s)" using longer_history [OF empty_history] by simp
  obtain p where "None = (None :: string option) \<and> p = None \<or> (\<exists>i x. None = Some i \<and> p = Some x \<and> (\<exists>items. transition_target grant_request i items = Inr x))"
    and c: "ar_contract a = \<lparr>ha_contract_version = ''1'', ha_producer_id = lq_producer_id grant_request, ha_run_id = lq_run_id grant_request,
        ha_actor_identity_ref = lq_actor_identity_ref grant_request, ha_role = lq_actor_role grant_request,
        ha_approval_action = lq_approval_action grant_request, ha_approval_basis_digest = lq_report_digest grant_request,
        ha_scope = lq_scope grant_request, ha_captured_at = Zoned (instant (Aware 5)) 0,
        ha_metadata = Some (approval_metadata grant_request p)\<rparr>"
    and r: "rp_metadata (ar_receipt a) = approval_receipt_metadata grant_request (approval_request_fingerprint grant_request None) p"
    and n: "length (es_receipts s) = Suc (length (es_receipts empty_store))"
    by (rule append_stored [OF start a(1) granted_contract_ok(3) a(2)]) auto
  then have p: "p = None" by simp
  have ok: "store_ok s" using approval_history_ok [OF h] by (simp add: history_ok_def)
  have "set (approvals_of (entries_of s)) = {stored_approval a}" "set (revocations_of (entries_of s)) = {}"
    using append_preserves [OF start a(1) granted_contract_ok(3) a(2)] by (simp_all add: approvals_in_def revocations_in_def)
  moreover have "distinct (map approval_id (approvals_of (entries_of s)))"
    using distinct_ids [of "sorted_items (es_receipts s)" "es_artifacts s"] ok by (simp add: store_ok_def entries_of_def)
  moreover have "xs = [x]" if "set xs = {x}" "distinct xs" for xs and x :: approval_record
    using that distinct_card [of xs] by (cases xs; cases "tl xs") auto
  ultimately have "approvals_of (entries_of s) = [stored_approval a]" "revocations_of (entries_of s) = []"
    by (simp_all add: distinct_map)
  moreover have "ar_contract a = granted_contract" by (simp add: c p granted_contract_def grant_request_def)
  ultimately show thesis using that a h ok n r p by (simp add: empty_store_def)
qed


lemma append_repeated_witness:
  "\<exists>a s. approval_append True (None, None) 1 (Aware 5) empty_store grant_request None = (Inr (a, True), s) \<and>
     approval_append True (None, None) 1 (Aware 6) s grant_request None = (Inr (stored_approval a, False), s)"
proof -
  obtain a s where a: "approval_append True (None, None) 1 (Aware 5) empty_store grant_request None = (Inr (a, True), s)"
    "contract_kept s (approval_to_dict (ar_contract a)) (ar_receipt a)"
    using granted by blast
  have "length (es_receipts empty_store) = 0" by (simp add: empty_store_def)
  with append_repeated [OF empty_history [of 1 0] a(1) granted_contract_ok(3) a(2), of "(None, None)" "Aware 6"] a(1)
  show ?thesis by auto
qed

lemma approval_status_final_witness:
  "\<exists>s items. approval_history 1 (5, s) \<and> (approval_step 1)\<^sup>*\<^sup>* (5, s) (6, s) \<and>
     lifecycle_for_target True 1 s ''t'' ''rd'' = Inr items \<and> items \<noteq> [] \<and>
     (\<forall>x \<in> set items. \<exists>y \<in> set items. li_approval y = li_approval x)"
proof -
  obtain a s where a: "approval_append True (None, None) 1 (Aware 5) empty_store grant_request None = (Inr (a, True), s)"
    "contract_kept s (approval_to_dict (ar_contract a)) (ar_receipt a)" "approval_history 1 (5, s)" "store_ok s"
    "approvals_of (entries_of s) = [stored_approval a]" "length (es_receipts s) = 1" "ar_contract a = granted_contract"
    and r: "rp_metadata (ar_receipt a) = approval_receipt_metadata grant_request (approval_request_fingerprint grant_request None) None"
    by (rule granted_stored) blast
  have "store_ok empty_store" using history_ok_empty [of 0] by (simp add: history_ok_def)
  from append_retried [OF this a(1) granted_contract_ok(3) a(2)]
  have "approval_append True (None, None) 1 (Aware 6) s grant_request None = (Inr (stored_approval a, False), s)"
    by (simp add: empty_store_def)
  then have "approval_step 1 (5, s) (instant (Aware 6), s)"
    by (rule append_op) (simp_all add: granted_contract_ok(3))
  then have step: "(approval_step 1)\<^sup>*\<^sup>* (5, s) (6, s)" by simp
  obtain items where items: "lifecycle_unlocked ''t'' ''rd'' (approvals_of (entries_of s)) (revocations_of (entries_of s)) = Inr items"
    using store_lifecycle [OF a(4)] by blast
  then have l: "lifecycle_for_target True 1 s ''t'' ''rd'' = Inr items"
    using store_lifecycle_for_target [OF a(4)] a(6) by simp
  have "approval_for ''t'' ''rd'' (stored_approval a)"
    by (subst stored_approval_reads(1) [OF r]) (simp_all add: a(7) granted_contract_def grant_request_def)
  then have "items \<noteq> []" using store_items(1) [OF a(4) items, of "stored_approval a"] a(5) by (auto simp: approvals_in_def)
  with approval_status_final [OF a(3) step l l] a(3) step l show ?thesis by blast
qed

lemma lifecycle_single:
  assumes "no_link x" "approval_for t d x"
  shows "lifecycle_unlocked t d [x] [] =
    Inr [\<lparr>li_approval = x, li_status = ''active'', li_superseded_by = None, li_revocation = None\<rparr>]"
proof -
  have "approvals_for_target [x] t d = [x]" using assms(2) by (simp add: approvals_for_target_def approval_for_def)
  then show ?thesis
    using assms(1) by (simp add: lifecycle_unlocked_def supersession_none dict_of_def dict_get_def opt_or_def)
qed

text \<open>The second request supersedes the first approval, at an earlier time.\<close>

definition later_request :: lifecycle_request where
  "later_request = grant_request\<lparr>lq_idempotency_key := ''k2''\<rparr>"

lemma later_request_fields [simp]:
  "lq_target_record_id later_request = ''t''" "lq_report_digest later_request = ''rd''" "lq_producer_id later_request = ''p''"
  "lq_approval_action later_request = ''release''" "lq_scope later_request = ''all''" "lq_run_id later_request = ''r''"
  "lq_actor_identity_ref later_request = ''actor''" "lq_actor_role later_request = ''lead''"
  by (simp_all add: later_request_def grant_request_def)

lemma later_prepared:
  assumes "ar_contract a = granted_contract"
    and "rp_metadata (ar_receipt a) = approval_receipt_metadata grant_request (approval_request_fingerprint grant_request None) None"
  shows "\<exists>c request content.
    prepare_approval (Aware 4) later_request (Some (approval_id a)) [stored_approval a] [] = Inr (c, request, content) \<and>
    distinct (map fst (iq_metadata request))"
proof -
  let ?x = "\<lparr>li_approval = stored_approval a, li_status = ''active'', li_superseded_by = None, li_revocation = None\<rparr>"
  have md: "ha_metadata (ar_contract a) = Some (approval_metadata grant_request None)" by (simp add: assms(1) granted_contract_def)
  note reads = stored_approval_reads [OF assms(2) md]
  have "approval_for ''t'' ''rd'' (stored_approval a)" unfolding reads(1) by (simp add: grant_request_def)
  then have items: "lifecycle_unlocked ''t'' ''rd'' [stored_approval a] [] = Inr [?x]"
    by (intro lifecycle_single reads(2)) simp_all
  have auth: "same_authority (stored_approval a) ''p'' ''release'' ''all''"
    by (simp add: same_authority_def assms(1) granted_contract_def)
  have cm: "contract_metadata a = approval_metadata grant_request None" using md by (simp add: contract_metadata_def opt_or_def)
  then have "distinct (map fst (contract_metadata a))" by (simp add: approval_metadata_def)
  then have "require_candidate_match (stored_approval a) later_request = Inr ()"
    by (simp add: require_candidate_match_def Let_def map_of_sorted_payload cm approval_metadata_def later_request_def)
  then have target: "transition_target later_request (approval_id a) [?x] = Inr (stored_approval a)"
    using auth by (simp add: transition_target_def find_first_def)
  have free: "\<not> already_recorded later_request (Some (stored_approval a)) [?x]" by (simp add: already_recorded_def)
  let ?c = "granted_contract\<lparr>ha_captured_at := Zoned 4 0, ha_metadata := Some (approval_metadata later_request (Some (stored_approval a)))\<rparr>"
  have "in_range 4" by code_simp
  then have ok: "approval_post_init ?c = Inr ()" and dict: "\<exists>d. approval_to_dict ?c = Inr d"
    by (simp_all add: granted_contract_def approval_post_init_def check_mapping_def json_mapping_Inr opt_or_def approval_metadata_def
        approval_to_dict_def datetime_to_json_Zoned metadata_of_Inr bindE_eq_Inr_iff)
  have c: "?c = \<lparr>ha_contract_version = ''1'', ha_producer_id = lq_producer_id later_request, ha_run_id = lq_run_id later_request,
        ha_actor_identity_ref = lq_actor_identity_ref later_request, ha_role = lq_actor_role later_request,
        ha_approval_action = lq_approval_action later_request, ha_approval_basis_digest = lq_report_digest later_request,
        ha_scope = lq_scope later_request, ha_captured_at = Zoned 4 0,
        ha_metadata = Some (approval_metadata later_request (Some (stored_approval a)))\<rparr>"
    by (simp add: granted_contract_def)
  obtain d where d: "approval_to_dict ?c = Inr d" using dict by blast
  have "prepare_approval (Aware 4) later_request (Some (approval_id a)) [stored_approval a] [] = Inr (?c,
      lifecycle_ingest approval_producer_type ''human-approval:'' later_request (Zoned 4 0)
        (approval_receipt_metadata later_request (approval_request_fingerprint later_request (Some (approval_id a))) (Some (stored_approval a))),
      contract_bytes d)"
    using items target free ok d \<open>in_range 4\<close> unfolding c
    by (simp add: prepare_approval_def clock_time_def construct_def)
  then show ?thesis by (simp add: lifecycle_ingest_def approval_receipt_metadata_def)
qed


end
