(* ===== verification/Attestation.thy ===== *)
theory Attestation
  imports AttestationTrust EventStore StateService
begin

text \<open>
  Reliability outcome attestations: \<open>domain/reliability_attestation.py\<close>, the trust context of a signed one
  (\<open>domain/reliability_attestation_trust_context.py\<close>) and their append-only store
  (\<open>adapters/reliability_attestation.py\<close>), a file of attestations and of the signatures that belong to them.
\<close>

section \<open>Attestations\<close>

record attestation =
  oa_attestation_id :: string
  oa_subject :: string
  oa_occurred_at :: string
  oa_actor :: string
  oa_chain_id :: string
  oa_chain_digest :: string
  oa_transition_id :: string
  oa_transition_digest :: string
  oa_reliability_state :: string
  oa_decision :: string
  oa_verification_status :: string
  oa_reconciliation_state :: string
  oa_rationale :: "string list"
  oa_signing_key_id :: "string option"
  oa_previous :: string
  oa_digest :: string

definition attestation_payload :: "attestation \<Rightarrow> payload" where
  "attestation_payload a = [
     (''attestation_id'', JStr (oa_attestation_id a)),
     (''subject_id'', JStr (oa_subject a)),
     (''occurred_at'', JStr (oa_occurred_at a)),
     (''actor'', JStr (oa_actor a)),
     (''evidence_chain_id'', JStr (oa_chain_id a)),
     (''evidence_chain_digest'', JStr (oa_chain_digest a)),
     (''transition_id'', JStr (oa_transition_id a)),
     (''transition_digest'', JStr (oa_transition_digest a)),
     (''reliability_state'', JStr (oa_reliability_state a)),
     (''decision'', JStr (oa_decision a)),
     (''verification_status'', JStr (oa_verification_status a)),
     (''reconciliation_state'', JStr (oa_reconciliation_state a)),
     (''decision_rationale'', jstrs (oa_rationale a)),
     (''signing_key_id'', jopt_str (oa_signing_key_id a)),
     (''previous_digest'', JStr (oa_previous a))]"

definition attestation_digest :: "attestation \<Rightarrow> string" where
  "attestation_digest a = digest_of (attestation_payload a)"

text \<open>The decision that belongs to a state.\<close>

definition expected_decision :: "string \<Rightarrow> string" where
  "expected_decision state =
     (if state \<in> {''reliable'', ''recovered''} then ''accept'' else if state = ''degraded'' then ''review'' else ''reject'')"

definition attestation_guards :: "attestation \<Rightarrow> unit result" where
  "attestation_guards a = guards [
     (\<not> is_sha256 (oa_chain_digest a), ValueError ''evidence_chain_digest''),
     (\<not> is_sha256 (oa_transition_digest a), ValueError ''transition_digest''),
     (oa_previous a \<noteq> [] \<and> \<not> is_sha256 (oa_previous a), ValueError ''previous_digest''),
     (blank (oa_attestation_id a) \<or> blank (oa_subject a) \<or> blank (oa_actor a), ValueError ''attestation_id, subject_id, actor''),
     (oa_reliability_state a \<notin> {''reliable'', ''degraded'', ''unreliable'', ''recovered''}, ValueError ''reliability state''),
     (oa_decision a \<notin> {''accept'', ''review'', ''reject''}, ValueError ''decision''),
     (oa_verification_status a \<noteq> ''verified'', ValueError ''verified evidence''),
     (oa_reconciliation_state a \<notin> {''verified'', ''recovered''}, ValueError ''reconciliation state''),
     (oa_decision a \<noteq> expected_decision (oa_reliability_state a), ValueError ''decision does not match''),
     (oa_reliability_state a = ''recovered'' \<and> oa_reconciliation_state a \<noteq> ''recovered'', ValueError ''recovered''),
     (oa_digest a \<noteq> [] \<and> oa_digest a \<noteq> attestation_digest a, ValueError ''digest mismatch'')]"

text \<open>The constructor: \<open>__post_init__\<close> sets the digest.\<close>

definition make_attestation :: "attestation \<Rightarrow> attestation result" where
  "make_attestation a = bindE (attestation_guards a) (\<lambda>_. Inr (a\<lparr>oa_digest := attestation_digest a\<rparr>))"

definition attestation_to_dict :: "attestation \<Rightarrow> payload" where
  "attestation_to_dict a =
     (''format_version'', JStr ''1'') # attestation_payload a @ [(''digest'', JStr (oa_digest a))]"

definition attestation_from_dict :: "payload \<Rightarrow> attestation result" where
  "attestation_from_dict d =
     bindE (guards [(case get_opt_str d ''format_version'' of None \<Rightarrow> False | Some v \<Rightarrow> v \<noteq> ''1'', ValueError ''format version'')]) (\<lambda>_.
     bindE (item_str d ''attestation_id'') (\<lambda>attestation_id.
     bindE (item_str d ''subject_id'') (\<lambda>subject_id.
     bindE (item_str d ''occurred_at'') (\<lambda>occurred_at.
     bindE (item_str d ''actor'') (\<lambda>actor.
     bindE (item_str d ''evidence_chain_id'') (\<lambda>chain_id.
     bindE (item_str d ''evidence_chain_digest'') (\<lambda>chain_digest.
     bindE (item_str d ''transition_id'') (\<lambda>transition_id.
     bindE (item_str d ''transition_digest'') (\<lambda>transition_digest.
     bindE (item_str d ''reliability_state'') (\<lambda>reliability_state.
     bindE (item_str d ''decision'') (\<lambda>decision.
     bindE (item_str d ''verification_status'') (\<lambda>verification_status.
     bindE (item_str d ''reconciliation_state'') (\<lambda>reconciliation_state.
     bindE (string_sequence (get_or d ''decision_rationale'' (JArr [])) ''decision_rationale'') (\<lambda>rationale.
     make_attestation
       \<lparr>oa_attestation_id = attestation_id, oa_subject = subject_id, oa_occurred_at = occurred_at, oa_actor = actor,
        oa_chain_id = chain_id, oa_chain_digest = chain_digest, oa_transition_id = transition_id,
        oa_transition_digest = transition_digest, oa_reliability_state = reliability_state, oa_decision = decision,
        oa_verification_status = verification_status, oa_reconciliation_state = reconciliation_state,
        oa_rationale = rationale, oa_signing_key_id = get_opt_str d ''signing_key_id'',
        oa_previous = get_str d ''previous_digest'' [], oa_digest = get_str d ''digest'' []\<rparr>))))))))))))))"

section \<open>Signed envelopes\<close>

record envelope =
  en_algorithm :: string
  en_key_id :: string
  en_attestation :: payload
  en_payload_digest :: string
  en_signature :: string

definition envelope_post_init :: "envelope \<Rightarrow> unit result" where
  "envelope_post_init e = guards [
     (en_algorithm e \<noteq> ''Ed25519'', ValueError ''algorithm''),
     (blank (en_key_id e), ValueError ''key_id''),
     (en_payload_digest e \<noteq> digest_of (en_attestation e), ValueError ''payload digest''),
     (blank (en_signature e), ValueError ''signature'')]"

definition envelope_payload :: "envelope \<Rightarrow> payload" where
  "envelope_payload e = [(''attestation'', JObj (en_attestation e)), (''payload_digest'', JStr (en_payload_digest e))]"

definition envelope_bytes :: "envelope \<Rightarrow> string" where
  "envelope_bytes e = canonical (JObj (envelope_payload e))"

definition envelope_to_dict :: "envelope \<Rightarrow> payload" where
  "envelope_to_dict e = [
     (''algorithm'', JStr (en_algorithm e)),
     (''key_id'', JStr (en_key_id e)),
     (''attestation'', JObj (en_attestation e)),
     (''payload_digest'', JStr (en_payload_digest e)),
     (''signature'', JStr (en_signature e))]"

definition envelope_from_dict :: "payload \<Rightarrow> envelope result" where
  "envelope_from_dict d =
     (case get_or d ''attestation'' JNull of
        JObj a \<Rightarrow>
          bindE (item_str d ''algorithm'') (\<lambda>algorithm.
          bindE (item_str d ''key_id'') (\<lambda>key_id.
          bindE (item_str d ''payload_digest'') (\<lambda>payload_digest.
          bindE (item_str d ''signature'') (\<lambda>signature.
          construct envelope_post_init
            \<lparr>en_algorithm = algorithm, en_key_id = key_id, en_attestation = a, en_payload_digest = payload_digest,
             en_signature = signature\<rparr>))))
      | _ \<Rightarrow> Inl (ValueError ''attestation payload''))"

section \<open>The trust context of a signature\<close>

record trust_context =
  cx_format_version :: string
  cx_envelope_artifact_id :: string
  cx_envelope_digest :: string
  cx_attestation_id :: string
  cx_attestation_digest :: string
  cx_signing_key_id :: string
  cx_signing_key_digest :: string
  cx_state_artifact_id :: string
  cx_state_digest :: string
  cx_state_version :: int
  cx_authority_artifact_id :: string
  cx_authority_key_id :: string
  cx_authority_key_digest :: string

definition context_post_init :: "trust_context \<Rightarrow> unit result" where
  "context_post_init c = guards [
     (cx_format_version c \<noteq> ''1'', ValueError ''format version''),
     (list_ex blank [cx_envelope_artifact_id c, cx_attestation_id c, cx_signing_key_id c, cx_state_artifact_id c,
        cx_authority_artifact_id c, cx_authority_key_id c], ValueError ''must not be empty''),
     (\<not> list_all is_sha256 [cx_envelope_digest c, cx_attestation_digest c, cx_signing_key_digest c, cx_state_digest c,
        cx_authority_key_digest c], ValueError ''SHA-256''),
     (cx_state_version c < 1, ValueError ''trust_state_version''),
     (card {cx_envelope_artifact_id c, cx_state_artifact_id c, cx_authority_artifact_id c} \<noteq> 3, ValueError ''must be unique'')]"

definition context_payload :: "trust_context \<Rightarrow> payload" where
  "context_payload c = [
     (''format_version'', JStr (cx_format_version c)),
     (''envelope_artifact_id'', JStr (cx_envelope_artifact_id c)),
     (''envelope_digest'', JStr (cx_envelope_digest c)),
     (''attestation_id'', JStr (cx_attestation_id c)),
     (''attestation_digest'', JStr (cx_attestation_digest c)),
     (''signing_key_id'', JStr (cx_signing_key_id c)),
     (''signing_key_digest'', JStr (cx_signing_key_digest c)),
     (''trust_state_artifact_id'', JStr (cx_state_artifact_id c)),
     (''trust_state_digest'', JStr (cx_state_digest c)),
     (''trust_state_version'', JInt (cx_state_version c)),
     (''authority_store_artifact_id'', JStr (cx_authority_artifact_id c)),
     (''authority_key_id'', JStr (cx_authority_key_id c)),
     (''authority_key_digest'', JStr (cx_authority_key_digest c))]"

definition context_digest :: "trust_context \<Rightarrow> string" where
  "context_digest c = digest_of (context_payload c)"

definition context_to_dict :: "trust_context \<Rightarrow> payload" where
  "context_to_dict c = context_payload c @ [(''digest'', JStr (context_digest c))]"

definition context_from_dict :: "payload \<Rightarrow> trust_context result" where
  "context_from_dict d =
     bindE (item_str d ''format_version'') (\<lambda>format_version.
     bindE (item_str d ''envelope_artifact_id'') (\<lambda>envelope_artifact_id.
     bindE (item_str d ''envelope_digest'') (\<lambda>envelope_digest.
     bindE (item_str d ''attestation_id'') (\<lambda>attestation_id.
     bindE (item_str d ''attestation_digest'') (\<lambda>attestation_digest.
     bindE (item_str d ''signing_key_id'') (\<lambda>signing_key_id.
     bindE (item_str d ''signing_key_digest'') (\<lambda>signing_key_digest.
     bindE (item_str d ''trust_state_artifact_id'') (\<lambda>state_artifact_id.
     bindE (item_str d ''trust_state_digest'') (\<lambda>state_digest.
     bindE (bindE (item d ''trust_state_version'') (\<lambda>v. require_int v ''trust_state_version'')) (\<lambda>state_version.
     bindE (item_str d ''authority_store_artifact_id'') (\<lambda>authority_artifact_id.
     bindE (item_str d ''authority_key_id'') (\<lambda>authority_key_id.
     bindE (item_str d ''authority_key_digest'') (\<lambda>authority_key_digest.
     bindE (construct context_post_init
       \<lparr>cx_format_version = format_version, cx_envelope_artifact_id = envelope_artifact_id,
        cx_envelope_digest = envelope_digest, cx_attestation_id = attestation_id,
        cx_attestation_digest = attestation_digest, cx_signing_key_id = signing_key_id,
        cx_signing_key_digest = signing_key_digest, cx_state_artifact_id = state_artifact_id,
        cx_state_digest = state_digest, cx_state_version = state_version,
        cx_authority_artifact_id = authority_artifact_id, cx_authority_key_id = authority_key_id,
        cx_authority_key_digest = authority_key_digest\<rparr>) (\<lambda>c.
     bindE (guards [(get_str d ''digest'' [] \<noteq> [] \<and> get_str d ''digest'' [] \<noteq> context_digest c, ValueError ''digest mismatch'')]) (\<lambda>_.
     Inr c)))))))))))))))"

section \<open>The persisted signature\<close>

record signed_binding =
  sb_envelope :: envelope
  sb_context :: trust_context

definition signed_binding_post_init :: "signed_binding \<Rightarrow> unit result" where
  "signed_binding_post_init b =
     bindE (attestation_from_dict (en_attestation (sb_envelope b))) (\<lambda>a.
     let e = sb_envelope b; c = sb_context b in guards [
       (oa_signing_key_id a = None, ValueError ''signing_key_id''),
       (Some (en_key_id e) \<noteq> oa_signing_key_id a, ValueError ''envelope key''),
       (cx_attestation_id c \<noteq> oa_attestation_id a, ValueError ''attestation_id mismatch''),
       (cx_attestation_digest c \<noteq> oa_digest a, ValueError ''attestation digest mismatch''),
       (cx_signing_key_id c \<noteq> en_key_id e, ValueError ''signing key mismatch''),
       (cx_envelope_digest c \<noteq> digest_of (envelope_to_dict e), ValueError ''envelope digest mismatch'')])"

text \<open>The property \<open>attestation\<close>; a binding that was constructed has one.\<close>

definition attested :: "signed_binding \<Rightarrow> attestation" where
  "attested b = projr (attestation_from_dict (en_attestation (sb_envelope b)))"

definition binding_record_type :: string where
  "binding_record_type = ''signed-reliability-outcome-binding.v1''"

definition signed_binding_to_record :: "signed_binding \<Rightarrow> payload" where
  "signed_binding_to_record b = [
     (''record_type'', JStr binding_record_type),
     (''envelope'', JObj (envelope_to_dict (sb_envelope b))),
     (''trust_context'', JObj (context_to_dict (sb_context b)))]"

text \<open>Equality of bindings: dictionaries compare up to the order of keys.\<close>

definition same_binding :: "signed_binding \<Rightarrow> signed_binding \<Rightarrow> bool" where
  "same_binding b c =
     (sb_context b = sb_context c \<and>
      sort_keys (JObj (envelope_to_dict (sb_envelope b))) = sort_keys (JObj (envelope_to_dict (sb_envelope c))))"

section \<open>Reading the store\<close>

definition read_binding_record :: "attestation list \<Rightarrow> signed_binding list \<Rightarrow> payload \<Rightarrow> signed_binding result" where
  "read_binding_record records bindings d =
     bindE (guards [(set (map fst d) \<noteq> {''record_type'', ''envelope'', ''trust_context''}, ValueError ''unsupported fields'')]) (\<lambda>_.
     case (get_or d ''envelope'' JNull, get_or d ''trust_context'' JNull) of
       (JObj envelope, JObj context) \<Rightarrow>
         bindE (envelope_from_dict envelope) (\<lambda>e.
         bindE (context_from_dict context) (\<lambda>c.
         bindE (construct signed_binding_post_init \<lparr>sb_envelope = e, sb_context = c\<rparr>) (\<lambda>b.
         bindE (case find_first (\<lambda>a. oa_attestation_id a = oa_attestation_id (attested b)) records of
             None \<Rightarrow> Inl (ValueError ''not yet recorded'')
           | Some recorded \<Rightarrow> guards [
               (recorded \<noteq> attested b, ValueError ''does not match''),
               (oa_attestation_id (attested b) \<in> set (map (\<lambda>b. oa_attestation_id (attested b)) bindings),
                  ValueError ''duplicate signed attestation'')]) (\<lambda>_. Inr b))))
     | _ \<Rightarrow> Inl (ValueError ''must be objects''))"

definition read_attestation_record :: "int option \<Rightarrow> attestation list \<Rightarrow> payload \<Rightarrow> attestation result" where
  "read_attestation_record max_records records d =
     bindE (guards [(case max_records of None \<Rightarrow> False | Some m \<Rightarrow> m \<le> int (length records), OverflowError ''read limit'')]) (\<lambda>_.
     bindE (attestation_from_dict d) (\<lambda>a.
     bindE (guards [
       (oa_previous a \<noteq> (case last_opt records of None \<Rightarrow> [] | Some p \<Rightarrow> oa_digest p), ValueError ''continuity''),
       (oa_attestation_id a \<in> set (map oa_attestation_id records), ValueError ''duplicate'')]) (\<lambda>_. Inr a)))"

definition read_attestation_line ::
    "int option \<Rightarrow> attestation list \<Rightarrow> signed_binding list \<Rightarrow> string \<Rightarrow> (attestation + signed_binding) result" where
  "read_attestation_line max_records records bindings line =
     (case loads line of
        None \<Rightarrow> Inl (JSONDecodeError ''line'')
      | Some (JObj d) \<Rightarrow>
          (case map_of d ''record_type'' of
             None \<Rightarrow> bindE (read_attestation_record max_records records d) (\<lambda>a. Inr (Inl a))
           | Some v \<Rightarrow>
               if v = JStr binding_record_type then bindE (read_binding_record records bindings d) (\<lambda>b. Inr (Inr b))
               else Inl (ValueError ''record type''))
      | Some _ \<Rightarrow> Inl (ValueError ''JSON object''))"

type_synonym attestations = "attestation list \<times> signed_binding list"

fun parse_attestations :: "int option \<Rightarrow> attestation list \<Rightarrow> signed_binding list \<Rightarrow> string list \<Rightarrow> attestations result" where
  "parse_attestations max_records records bindings [] = Inr (records, bindings)"
| "parse_attestations max_records records bindings (line # rest) =
     (if blank line then parse_attestations max_records records bindings rest
      else case read_attestation_line max_records records bindings line of
        Inl e \<Rightarrow> Inl (if caught e then ValueError ''invalid attestation'' else e)
      | Inr (Inl a) \<Rightarrow> parse_attestations max_records (records @ [a]) bindings rest
      | Inr (Inr b) \<Rightarrow> parse_attestations max_records records (bindings @ [b]) rest)"

definition parse_snapshot_lines :: "string list \<Rightarrow> int option \<Rightarrow> attestations result" where
  "parse_snapshot_lines ls max_records =
     bindE (guards [(case max_records of None \<Rightarrow> False | Some m \<Rightarrow> m \<le> 0, ValueError ''max_records'')]) (\<lambda>_.
     parse_attestations max_records [] [] ls)"

definition parse_attestation_records :: "string list \<Rightarrow> int option \<Rightarrow> attestation list result" where
  "parse_attestation_records ls max_records =
     bindE (parse_snapshot_lines ls max_records) (\<lambda>(records, _). Inr records)"

text \<open>\<open>read_reliability_attestation_snapshot\<close>: the bounded read, when nothing changes the file meanwhile.\<close>

record attestation_snapshot =
  as_records :: "attestation list"
  as_byte_size :: int
  as_exists :: bool
  as_bindings :: "signed_binding list"

definition binding_for :: "attestation_snapshot \<Rightarrow> string \<Rightarrow> signed_binding option" where
  "binding_for s i = find_first (\<lambda>b. oa_attestation_id (attested b) = i) (as_bindings s)"

definition read_attestation_snapshot :: "bool \<Rightarrow> bool \<Rightarrow> string option \<Rightarrow> int \<Rightarrow> int \<Rightarrow> attestation_snapshot result" where
  "read_attestation_snapshot symlink regular content max_bytes max_records =
     bindE (guards [
       (max_bytes \<le> 0 \<or> max_records \<le> 0, ValueError ''bounds must be positive''),
       (symlink, ValueError ''symlink'')]) (\<lambda>_.
     case content of
       None \<Rightarrow> Inr \<lparr>as_records = [], as_byte_size = 0, as_exists = False, as_bindings = []\<rparr>
     | Some raw \<Rightarrow>
         bindE (guards [
           (\<not> regular, ValueError ''must be a file''),
           (max_bytes < int (length raw), OverflowError ''read limit''),
           (\<not> utf8_ok raw, ValueError ''UTF-8'')]) (\<lambda>_.
         bindE (parse_snapshot_lines (splitlines raw) (Some max_records)) (\<lambda>(records, bindings).
         Inr \<lparr>as_records = records, as_byte_size = int (length raw), as_exists = True, as_bindings = bindings\<rparr>)))"

text \<open>The store reads in text mode.\<close>

definition read_store_unlocked :: "string option \<Rightarrow> attestations result" where
  "read_store_unlocked content =
     (case content of
        None \<Rightarrow> Inr ([], [])
      | Some raw \<Rightarrow> if utf8_ok raw then parse_snapshot_lines (text_lines raw) None else Inl (UnicodeDecodeError ''attestations''))"

definition read_store :: "bool \<Rightarrow> string option \<Rightarrow> attestations result" where
  "read_store acquired content =
     (if \<not> acquired then Inl (TimeoutError ''attestation-store lock'') else read_store_unlocked content)"

definition read_attestations :: "bool \<Rightarrow> string option \<Rightarrow> attestation list result" where
  "read_attestations acquired content = bindE (read_store acquired content) (\<lambda>(records, _). Inr records)"

definition read_signed_bindings :: "bool \<Rightarrow> string option \<Rightarrow> signed_binding list result" where
  "read_signed_bindings acquired content = bindE (read_store acquired content) (\<lambda>(_, bindings). Inr bindings)"

section \<open>Appending\<close>

definition attestation_line :: "attestation \<Rightarrow> string" where
  "attestation_line a = json_line (attestation_to_dict a) @ [LF]"

definition binding_line :: "signed_binding \<Rightarrow> string" where
  "binding_line b = json_line (signed_binding_to_record b) @ [LF]"

definition chain_tip :: "attestation list \<Rightarrow> string" where
  "chain_tip records = (case last_opt records of None \<Rightarrow> [] | Some p \<Rightarrow> oa_digest p)"

text \<open>What an append decides to write: nothing for an entry that is there.\<close>

definition admit_attestation :: "attestation list \<Rightarrow> attestation \<Rightarrow> attestation option result" where
  "admit_attestation records a =
     (case find_first (\<lambda>e. oa_attestation_id e = oa_attestation_id a) records of
        Some e \<Rightarrow>
          bindE (guards [(attestation_payload (e\<lparr>oa_previous := []\<rparr>) \<noteq> attestation_payload (a\<lparr>oa_previous := []\<rparr>),
            ValueError ''identity collision'')]) (\<lambda>_. Inr (Some e))
      | None \<Rightarrow> bindE (guards [(oa_previous a \<noteq> chain_tip records, ValueError ''previous_digest'')]) (\<lambda>_. Inr None))"

definition attestation_append :: "bool \<Rightarrow> string option \<Rightarrow> attestation \<Rightarrow> attestation result \<times> string option" where
  "attestation_append acquired content a =
     (case bindE (read_store acquired content) (\<lambda>(records, _). admit_attestation records a) of
        Inl e \<Rightarrow> (Inl e, content)
      | Inr (Some e) \<Rightarrow> (Inr e, content)
      | Inr None \<Rightarrow> (Inr a, Some (opt_or content [] @ attestation_line a)))"

definition admit_signed :: "attestations \<Rightarrow> signed_binding \<Rightarrow> (signed_binding + string) result" where
  "admit_signed rb b =
     (case rb of (records, bindings) \<Rightarrow>
       let a = attested b;
           existing = find_first (\<lambda>e. oa_attestation_id e = oa_attestation_id a) records;
           existing_binding = find_first (\<lambda>c. oa_attestation_id (attested c) = oa_attestation_id a) bindings
       in bindE (guards [(case existing of None \<Rightarrow> False | Some e \<Rightarrow> e \<noteq> a, ValueError ''identity collision'')]) (\<lambda>_.
          case existing_binding of
            Some c \<Rightarrow> bindE (guards [(\<not> same_binding c b, ValueError ''binding collision'')]) (\<lambda>_. Inr (Inl c))
          | None \<Rightarrow>
              (case existing of
                 Some _ \<Rightarrow> Inr (Inr (binding_line b))
               | None \<Rightarrow>
                   bindE (guards [(oa_previous a \<noteq> chain_tip records, ValueError ''previous_digest'')]) (\<lambda>_.
                   Inr (Inr (attestation_line a @ binding_line b))))))"

text \<open>\<open>append_signed\<close>; \<open>Some k\<close> is a process that stops after \<open>k\<close> bytes of what it writes.\<close>

definition append_signed_until ::
    "nat option \<Rightarrow> bool \<Rightarrow> string option \<Rightarrow> signed_binding \<Rightarrow> signed_binding result \<times> string option" where
  "append_signed_until stop acquired content b =
     (case bindE (read_store acquired content) (\<lambda>rb. admit_signed rb b) of
        Inl e \<Rightarrow> (Inl e, content)
      | Inr (Inl c) \<Rightarrow> (Inr c, content)
      | Inr (Inr added) \<Rightarrow> (Inr b, Some (opt_or content [] @ (case stop of None \<Rightarrow> added | Some k \<Rightarrow> take k added))))"

definition append_signed :: "bool \<Rightarrow> string option \<Rightarrow> signed_binding \<Rightarrow> signed_binding result \<times> string option" where
  "append_signed = append_signed_until None"

section \<open>Attestations are read back\<close>

definition attestation_ok :: "attestation \<Rightarrow> bool" where
  "attestation_ok a = (attestation_guards a = Inr () \<and> oa_digest a = attestation_digest a)"

lemma make_attestation_Inr:
  "make_attestation a = Inr b \<longleftrightarrow> attestation_guards a = Inr () \<and> b = a\<lparr>oa_digest := attestation_digest a\<rparr>"
  by (auto simp: make_attestation_def bindE_eq_Inr_iff)

lemma attestation_digest_update [simp]: "attestation_digest (a\<lparr>oa_digest := h\<rparr>) = attestation_digest a"
  by (simp add: attestation_digest_def attestation_payload_def)

lemma make_attestation_ok: "make_attestation a = Inr b \<Longrightarrow> attestation_ok b"
  by (auto simp: make_attestation_Inr attestation_ok_def attestation_guards_def)

lemma attestation_from_dict_ok: "attestation_from_dict d = Inr a \<Longrightarrow> attestation_ok a"
  unfolding attestation_from_dict_def by (elim bindE_InrE) (erule make_attestation_ok)

lemma attestation_digest_facts [simp]: "attestation_digest a \<noteq> []" "is_sha256 (attestation_digest a)"
  by (simp_all add: attestation_digest_def)

lemma json_ok_attestation [simp]:
  "json_ok (\<lambda>s. True) (JObj (attestation_payload a))" "json_ok (\<lambda>s. True) (JObj (attestation_to_dict a))"
  by (simp_all add: attestation_to_dict_def attestation_payload_def)

lemma attestation_stored_self: "stored (attestation_to_dict a) (attestation_to_dict a)"
  by (rule stored_refl) (simp add: attestation_to_dict_def attestation_payload_def jopt_str_def split: option.splits)

lemma attestation_from_stored:
  assumes "attestation_ok a" "stored d (attestation_to_dict a)"
  shows "attestation_from_dict d = Inr a"
proof -
  have g: "attestation_guards a = Inr ()" and h: "oa_digest a = attestation_digest a"
    using assms(1) by (simp_all add: attestation_ok_def)
  have look: "list_all (\<lambda>k. map_of d k = map_option sort_keys (map_of (attestation_to_dict a) k))
      (map fst (attestation_to_dict undefined))"
    using storedD [OF assms(2)] by (simp add: list_all_iff)
  note look = look [unfolded attestation_to_dict_def attestation_payload_def, simplified]
  have opt: "get_opt_str d ''signing_key_id'' = oa_signing_key_id a"
    using look by (cases "oa_signing_key_id a") (simp_all add: jopt_str_def)
  have eta: "\<lparr>oa_attestation_id = oa_attestation_id a, oa_subject = oa_subject a, oa_occurred_at = oa_occurred_at a,
      oa_actor = oa_actor a, oa_chain_id = oa_chain_id a, oa_chain_digest = oa_chain_digest a,
      oa_transition_id = oa_transition_id a, oa_transition_digest = oa_transition_digest a,
      oa_reliability_state = oa_reliability_state a, oa_decision = oa_decision a,
      oa_verification_status = oa_verification_status a, oa_reconciliation_state = oa_reconciliation_state a,
      oa_rationale = oa_rationale a, oa_signing_key_id = oa_signing_key_id a, oa_previous = oa_previous a,
      oa_digest = oa_digest a\<rparr> = a" by simp
  have "make_attestation a = Inr a" using g h by (simp add: make_attestation_Inr)
  then show ?thesis
    using look opt by (simp add: attestation_from_dict_def item_str_def get_or_def get_str_def eta)
qed

lemma sorted_payload_canonical:
  assumes "json_ok (\<lambda>s. True) (JObj d)"
  shows "canonical (JObj (sorted_payload d)) = canonical (JObj d)" "digest_of (sorted_payload d) = digest_of d"
  using sort_keys_idem [OF assms] by (simp_all add: canonical_def digest_of_def sort_keys_JObj del: sort_keys.simps(2))

section \<open>Bindings are read back\<close>

text \<open>A binding whose envelope carries the dictionary of its attestation, and the same with sorted keys.\<close>

definition binding_ok :: "signed_binding \<Rightarrow> bool" where
  "binding_ok b =
     (attestation_ok (attested b) \<and> en_attestation (sb_envelope b) = attestation_to_dict (attested b) \<and>
      envelope_post_init (sb_envelope b) = Inr () \<and> context_post_init (sb_context b) = Inr () \<and>
      signed_binding_post_init b = Inr ())"

definition sort_binding :: "signed_binding \<Rightarrow> signed_binding" where
  "sort_binding b = b\<lparr>sb_envelope := (sb_envelope b)\<lparr>en_attestation := sorted_payload (en_attestation (sb_envelope b))\<rparr>\<rparr>"

lemma attested_sort [simp]: "binding_ok b \<Longrightarrow> attested (sort_binding b) = attested b"
  using attestation_from_stored [of "attested b", OF _ stored_sorted_payload [OF json_ok_attestation(2)]]
  by (simp add: binding_ok_def sort_binding_def attested_def [of "_\<lparr>sb_envelope := _\<rparr>"])

lemma json_ok_envelope: "json_ok (\<lambda>s. True) (JObj (en_attestation e)) \<Longrightarrow> json_ok (\<lambda>s. True) (JObj (envelope_to_dict e))"
  by (simp add: envelope_to_dict_def)

lemma json_ok_context [simp]: "json_ok (\<lambda>s. True) (JObj (context_to_dict c))" "json_ok (\<lambda>s. True) (JObj (context_payload c))"
  by (simp_all add: context_to_dict_def context_payload_def)

lemma envelope_from_stored:
  assumes "envelope_post_init e = Inr ()" "json_ok (\<lambda>s. True) (JObj (en_attestation e))" "stored d (envelope_to_dict e)"
  shows "envelope_from_dict d = Inr (e\<lparr>en_attestation := sorted_payload (en_attestation e)\<rparr>)"
proof -
  have look: "map_of d ''attestation'' = Some (JObj (sorted_payload (en_attestation e)))"
    "map_of d ''algorithm'' = Some (JStr (en_algorithm e))" "map_of d ''key_id'' = Some (JStr (en_key_id e))"
    "map_of d ''payload_digest'' = Some (JStr (en_payload_digest e))" "map_of d ''signature'' = Some (JStr (en_signature e))"
    by (simp_all add: storedD [OF assms(3)] envelope_to_dict_def sort_keys_JObj del: sort_keys.simps(2))
  let ?e = "e\<lparr>en_attestation := sorted_payload (en_attestation e)\<rparr>"
  have "envelope_post_init ?e = Inr ()"
    using assms(1) sorted_payload_canonical(2) [OF assms(2)] by (simp add: envelope_post_init_def)
  then show ?thesis
    using look by (cases e) (simp add: envelope_from_dict_def get_or_def item_str_def construct_ok)
qed

lemma context_from_stored:
  assumes "context_post_init c = Inr ()" "stored d (context_to_dict c)"
  shows "context_from_dict d = Inr c"
proof -
  have look: "list_all (\<lambda>k. map_of d k = map_option sort_keys (map_of (context_to_dict c) k)) (map fst (context_to_dict undefined))"
    using storedD [OF assms(2)] by (simp add: list_all_iff)
  note look = look [unfolded context_to_dict_def context_payload_def, simplified]
  have eta: "\<lparr>cx_format_version = cx_format_version c, cx_envelope_artifact_id = cx_envelope_artifact_id c,
        cx_envelope_digest = cx_envelope_digest c, cx_attestation_id = cx_attestation_id c,
        cx_attestation_digest = cx_attestation_digest c, cx_signing_key_id = cx_signing_key_id c,
        cx_signing_key_digest = cx_signing_key_digest c, cx_state_artifact_id = cx_state_artifact_id c,
        cx_state_digest = cx_state_digest c, cx_state_version = cx_state_version c,
        cx_authority_artifact_id = cx_authority_artifact_id c, cx_authority_key_id = cx_authority_key_id c,
        cx_authority_key_digest = cx_authority_key_digest c\<rparr> = c" by simp
  show ?thesis
    using look assms(1)
    by (simp add: context_from_dict_def item_str_def get_str_def get_or_def require_int_def eta construct_ok)
qed

definition attestation_text :: "attestation \<Rightarrow> bool" where
  "attestation_text a = json_ok utf8_ok (JObj (attestation_to_dict a))"

definition binding_text :: "signed_binding \<Rightarrow> bool" where
  "binding_text b = json_ok utf8_ok (JObj (signed_binding_to_record b))"

lemma read_attestation_line_own:
  assumes "attestation_ok a" "attestation_text a" "oa_previous a = chain_tip R" "oa_attestation_id a \<notin> oa_attestation_id ` set R"
  shows "read_attestation_line None R B (json_line (attestation_to_dict a)) = Inr (Inl a)"
proof -
  have st: "stored (sorted_payload (attestation_to_dict a)) (attestation_to_dict a)" by (rule stored_sorted_payload) simp
  have "map_of (attestation_to_dict a) ''record_type'' = None" by (simp add: attestation_to_dict_def attestation_payload_def)
  then have "map_of (sorted_payload (attestation_to_dict a)) ''record_type'' = None" by (simp add: storedD [OF st])
  moreover have "read_attestation_record None R (sorted_payload (attestation_to_dict a)) = Inr a"
    using assms(3,4) attestation_from_stored [OF assms(1) st]
    by (simp add: read_attestation_record_def chain_tip_def)
  ultimately show ?thesis
    using loads_json_line assms(2) by (simp add: read_attestation_line_def attestation_text_def)
qed

lemma signed_binding_post_init_sort: "binding_ok b \<Longrightarrow> signed_binding_post_init (sort_binding b) = Inr ()"
proof -
  assume b: "binding_ok b"
  let ?e = "sb_envelope b"
  have j: "json_ok (\<lambda>s. True) (JObj (en_attestation ?e))" using b by (simp add: binding_ok_def)
  have same: "attestation_from_dict (sorted_payload (en_attestation ?e)) = attestation_from_dict (en_attestation ?e)"
    using b attestation_from_stored [of "attested b", OF _ stored_sorted_payload [OF json_ok_attestation(2)]]
      attestation_from_stored [of "attested b", OF _ attestation_stored_self]
    by (simp add: binding_ok_def)
  moreover have "digest_of (envelope_to_dict (?e\<lparr>en_attestation := sorted_payload (en_attestation ?e)\<rparr>)) = digest_of (envelope_to_dict ?e)"
    by (rule digest_of_cong) (use sort_keys_idem [OF j] in \<open>simp_all add: envelope_to_dict_def sort_keys_JObj del: sort_keys.simps(2)\<close>)
  ultimately have "signed_binding_post_init (sort_binding b) = signed_binding_post_init b"
    by (simp add: signed_binding_post_init_def sort_binding_def Let_def)
  then show ?thesis using b by (simp add: binding_ok_def)
qed

lemma read_binding_line_own:
  assumes "binding_ok b" "binding_text b" "find_first (\<lambda>a. oa_attestation_id a = oa_attestation_id (attested b)) R = Some (attested b)"
    and "oa_attestation_id (attested b) \<notin> (\<lambda>b. oa_attestation_id (attested b)) ` set B"
  shows "read_attestation_line None R B (json_line (signed_binding_to_record b)) = Inr (Inr (sort_binding b))"
proof -
  let ?e = "sb_envelope b" and ?r = "signed_binding_to_record b"
  have j: "json_ok (\<lambda>s. True) (JObj (en_attestation ?e))" using assms(1) by (simp add: binding_ok_def)
  then have jr: "json_ok (\<lambda>s. True) (JObj ?r)"
    using json_ok_envelope [OF j] by (simp add: signed_binding_to_record_def)
  note st = stored_sorted_payload [OF jr]
  have look: "map_of (sorted_payload ?r) ''record_type'' = Some (JStr binding_record_type)"
    "map_of (sorted_payload ?r) ''envelope'' = Some (JObj (sorted_payload (envelope_to_dict ?e)))"
    "map_of (sorted_payload ?r) ''trust_context'' = Some (JObj (sorted_payload (context_to_dict (sb_context b))))"
    unfolding storedD [OF st] by (simp_all add: signed_binding_to_record_def sort_keys_JObj del: sort_keys.simps(2))
  have keys: "set (map fst (sorted_payload ?r)) = {''record_type'', ''envelope'', ''trust_context''}"
    by (auto simp: sorted_payload_def signed_binding_to_record_def)
  have e: "envelope_from_dict (sorted_payload (envelope_to_dict ?e)) = Inr (?e\<lparr>en_attestation := sorted_payload (en_attestation ?e)\<rparr>)"
    using assms(1) by (intro envelope_from_stored j stored_sorted_payload json_ok_envelope) (simp add: binding_ok_def)
  have c: "context_from_dict (sorted_payload (context_to_dict (sb_context b))) = Inr (sb_context b)"
    using assms(1) by (intro context_from_stored stored_sorted_payload) (simp_all add: binding_ok_def)
  have eta: "\<lparr>sb_envelope = ?e\<lparr>en_attestation := sorted_payload (en_attestation ?e)\<rparr>, sb_context = sb_context b\<rparr> = sort_binding b"
    by (simp add: sort_binding_def)
  have new: "oa_attestation_id (attested b) \<notin> set (map (\<lambda>b. oa_attestation_id (attested b)) B)" using assms(4) by simp
  have "read_binding_record R B (sorted_payload ?r) = Inr (sort_binding b)"
    using assms(1,3) new signed_binding_post_init_sort [OF assms(1)]
    by (simp add: read_binding_record_def keys get_or_def look e c eta construct_ok del: set_map)
  then show ?thesis
    using loads_json_line assms(2) look(1) by (simp add: read_attestation_line_def binding_text_def)
qed

section \<open>Files of attestations and bindings\<close>

text \<open>A store is the list of what was appended to it.\<close>

type_synonym att_entry = "attestation + signed_binding"

definition entry_dict :: "att_entry \<Rightarrow> payload" where
  "entry_dict e = (case e of Inl a \<Rightarrow> attestation_to_dict a | Inr b \<Rightarrow> signed_binding_to_record b)"

definition entries_file :: "att_entry list \<Rightarrow> string" where
  "entries_file es = json_lines (map entry_dict es)"

definition atts :: "att_entry list \<Rightarrow> attestation list" where
  "atts es = List.map_filter (case_sum Some (\<lambda>_. None)) es"

definition sigs :: "att_entry list \<Rightarrow> signed_binding list" where
  "sigs es = List.map_filter (case_sum (\<lambda>_. None) (Some \<circ> sort_binding)) es"

lemma atts_sigs_simps [simp]:
  "atts [] = []" "sigs [] = []" "atts (Inl a # es) = a # atts es" "atts (Inr b # es) = atts es"
  "sigs (Inl a # es) = sigs es" "sigs (Inr b # es) = sort_binding b # sigs es"
  "atts (es @ fs) = atts es @ atts fs" "sigs (es @ fs) = sigs es @ sigs fs"
  by (simp_all add: atts_def sigs_def map_filter_def)

fun entry_ok :: "attestation list \<Rightarrow> signed_binding list \<Rightarrow> att_entry \<Rightarrow> bool" where
  "entry_ok R B (Inl a) = (attestation_ok a \<and> attestation_text a \<and> oa_previous a = chain_tip R \<and>
     oa_attestation_id a \<notin> oa_attestation_id ` set R)"
| "entry_ok R B (Inr b) = (binding_ok b \<and> binding_text b \<and> attested b \<in> set R \<and>
     oa_attestation_id (attested b) \<notin> (\<lambda>b. oa_attestation_id (attested b)) ` set B)"

fun entries_ok :: "attestation list \<Rightarrow> signed_binding list \<Rightarrow> att_entry list \<Rightarrow> bool" where
  "entries_ok R B [] = True"
| "entries_ok R B (e # es) = (entry_ok R B e \<and> entries_ok (R @ atts [e]) (B @ sigs [e]) es)"

lemma entries_ok_append: "entries_ok R B (es @ fs) \<longleftrightarrow> entries_ok R B es \<and> entries_ok (R @ atts es) (B @ sigs es) fs"
proof (induction es arbitrary: R B)
  case (Cons e es)
  then show ?case by (cases e) auto
qed simp

lemma find_by_id:
  "distinct (map oa_attestation_id R) \<Longrightarrow> a \<in> set R \<Longrightarrow> find_first (\<lambda>e. oa_attestation_id e = oa_attestation_id a) R = Some a"
proof (induction R)
  case (Cons x R)
  then show ?case by (cases "x = a") (auto simp: find_first_def image_iff)
qed simp

lemma read_entry_own:
  assumes "entry_ok R B e" "distinct (map oa_attestation_id R)"
  shows "read_attestation_line None R B (json_line (entry_dict e)) =
    Inr (case e of Inl a \<Rightarrow> Inl a | Inr b \<Rightarrow> Inr (sort_binding b))"
  using assms find_by_id [of R]
  by (cases e) (simp_all add: entry_dict_def read_attestation_line_own read_binding_line_own)

lemma entry_ok_distinct:
  "entry_ok R B e \<Longrightarrow> distinct (map oa_attestation_id R) \<Longrightarrow> distinct (map oa_attestation_id (R @ atts [e]))"
  by (cases e) auto

lemma parse_entries:
  assumes "entries_ok R B es" "distinct (map oa_attestation_id R)"
  shows "parse_attestations None R B (map (\<lambda>e. json_line (entry_dict e)) es @ ls) =
      parse_attestations None (R @ atts es) (B @ sigs es) ls \<and> distinct (map oa_attestation_id (R @ atts es))"
  using assms
proof (induction es arbitrary: R B)
  case (Cons e es)
  then have e: "entry_ok R B e" by simp
  have "parse_attestations None R B (map (\<lambda>e. json_line (entry_dict e)) (e # es) @ ls) =
      parse_attestations None (R @ atts [e]) (B @ sigs [e]) (map (\<lambda>e. json_line (entry_dict e)) es @ ls)"
    using read_entry_own [OF e Cons.prems(2)] by (cases e) simp_all
  with Cons.IH [of "R @ atts [e]" "B @ sigs [e]"] Cons.prems entry_ok_distinct [OF e Cons.prems(2)] show ?case
    by (cases e) simp_all
qed simp

lemma entry_text: "entry_ok R B e \<Longrightarrow> json_ok utf8_ok (JObj (entry_dict e))"
  by (cases e) (simp_all add: entry_dict_def attestation_text_def binding_text_def)

lemma entries_text: "entries_ok R B es \<Longrightarrow> list_all (\<lambda>p. json_ok utf8_ok (JObj p)) (map entry_dict es)"
  by (induction es arbitrary: R B) (auto intro: entry_text)

definition represents_entries :: "string option \<Rightarrow> att_entry list \<Rightarrow> bool" where
  "represents_entries content es \<longleftrightarrow> entries_ok [] [] es \<and> (content = Some (entries_file es) \<or> content = None \<and> es = [])"

lemma read_entries_with:
  assumes "entries_ok [] [] es" "list_all (\<lambda>c. byte c < 128) q"
  shows "read_store True (Some (entries_file es @ q)) = parse_attestations None (atts es) (sigs es) (text_lines q)"
proof -
  have "utf8_ok (entries_file es @ q)"
    using ascii_json_lines [OF entries_text [OF assms(1)]] assms(2) by (intro utf8_ok_ascii) (simp add: entries_file_def)
  moreover have "text_lines (entries_file es @ q) = map (\<lambda>e. json_line (entry_dict e)) es @ text_lines q"
    using text_lines_json_lines [OF entries_text [OF assms(1)], of q] by (simp add: entries_file_def comp_def)
  ultimately show ?thesis
    using parse_entries [OF assms(1), of "text_lines q"]
    by (simp add: read_store_def read_store_unlocked_def parse_snapshot_lines_def)
qed

lemma read_represented: "represents_entries content es \<Longrightarrow> read_store True content = Inr (atts es, sigs es)"
  using read_entries_with [of es "[]"]
  by (auto simp: represents_entries_def read_store_def read_store_unlocked_def)

end
