(* ===== verification/AttestationHistory.thy ===== *)
theory AttestationHistory
  imports Attestation
begin

text \<open>
  What an append to the store of attestations keeps: the functional contract of \<open>append\<close> and \<open>append_signed\<close> over
  the entries a file holds, and what a process that stops inside a write leaves behind.
\<close>

section \<open>Appends keep a store readable\<close>

lemma represents_distinct: "represents_entries content es \<Longrightarrow> distinct (map oa_attestation_id (atts es))"
  using parse_entries [of "[]" "[]" es "[]"] by (auto simp: represents_entries_def)

lemma represents_add:
  "represents_entries content es \<Longrightarrow> entries_ok (atts es) (sigs es) fs \<Longrightarrow>
   represents_entries (Some (opt_or content [] @ entries_file fs)) (es @ fs)"
  by (auto simp: represents_entries_def entries_ok_append entries_file_def opt_or_def)

lemma find_attestation:
  assumes "distinct (map oa_attestation_id R)"
  shows "find_first (\<lambda>e. oa_attestation_id e = i) R = Some a \<longleftrightarrow> a \<in> set R \<and> oa_attestation_id a = i"
  using find_by_id [OF assms, of a] find_first_Some [of "\<lambda>e. oa_attestation_id e = i" R a] by auto

text \<open>What is missing for a signature: its attestation, if that is not there, and the signature.\<close>

definition missing :: "attestation list \<Rightarrow> signed_binding \<Rightarrow> att_entry list" where
  "missing R b = (if attested b \<in> set R then [] else [Inl (attested b)]) @ [Inr b]"

definition signable :: "signed_binding \<Rightarrow> bool" where
  "signable b = (binding_ok b \<and> binding_text b \<and> attestation_text (attested b))"

text \<open>The contract of \<open>append_signed\<close>, over the attestations and the signatures that are there.\<close>

definition signed_spec :: "attestation list \<Rightarrow> signed_binding list \<Rightarrow> signed_binding \<Rightarrow> (signed_binding + att_entry list) result" where
  "signed_spec R B b =
     (let i = oa_attestation_id (attested b) in
      if i \<in> oa_attestation_id ` set R \<and> attested b \<notin> set R then Inl (ValueError ''identity collision'')
      else case find_first (\<lambda>c. oa_attestation_id (attested c) = i) B of
          Some c \<Rightarrow> if same_binding c b then Inr (Inl c) else Inl (ValueError ''binding collision'')
        | None \<Rightarrow>
            if attested b \<notin> set R \<and> oa_previous (attested b) \<noteq> chain_tip R then Inl (ValueError ''previous_digest'')
            else Inr (Inr (missing R b)))"

lemma admit_signed_spec:
  assumes "distinct (map oa_attestation_id R)"
  shows "admit_signed (R, B) b = map_sum id (map_sum id entries_file) (signed_spec R B b)"
proof (cases "find_first (\<lambda>e. oa_attestation_id e = oa_attestation_id (attested b)) R")
  case None
  then have n: "oa_attestation_id (attested b) \<notin> oa_attestation_id ` set R" by (auto simp: find_first_None)
  then have "attested b \<notin> set R" by auto
  with n None show ?thesis
    by (simp add: admit_signed_def signed_spec_def Let_def missing_def entries_file_def entry_dict_def attestation_line_def
        binding_line_def split: option.splits)
next
  case (Some e)
  then have e: "e \<in> set R" "oa_attestation_id e = oa_attestation_id (attested b)"
    by (simp_all add: find_attestation [OF assms])
  then have img: "oa_attestation_id (attested b) \<in> oa_attestation_id ` set R" by (metis imageI)
  show ?thesis
  proof (cases "e = attested b")
    case True
    then show ?thesis
      using img Some e(1)
      by (simp add: admit_signed_def signed_spec_def Let_def missing_def entries_file_def entry_dict_def binding_line_def
          split: option.splits)
  next
    case False
    then have "attested b \<notin> set R" using Some find_by_id [OF assms, of "attested b"] by force
    with False img Some show ?thesis by (simp add: admit_signed_def signed_spec_def Let_def)
  qed
qed

lemma signed_spec_new:
  assumes "signed_spec R B b = Inr (Inr fs)" "signable b" "distinct (map oa_attestation_id R)"
  shows "fs = missing R b" "entries_ok R B fs"
proof -
  note d = assms(1) [unfolded signed_spec_def Let_def]
  from d show fs: "fs = missing R b" by (simp split: if_splits option.splits)
  have new: "oa_attestation_id (attested b) \<notin> (\<lambda>c. oa_attestation_id (attested c)) ` set B"
    using d by (auto simp: find_first_None split: if_splits option.splits)
  have "oa_attestation_id (attested b) \<notin> oa_attestation_id ` set R \<and> oa_previous (attested b) = chain_tip R"
    if "attested b \<notin> set R"
    using d that by (simp split: if_splits option.splits)
  with new assms(2) show "entries_ok R B fs"
    by (auto simp: fs missing_def signable_def binding_ok_def)
qed

lemma append_signed_until_spec:
  assumes "represents_entries content es"
  shows "append_signed_until stop True content b =
    (case signed_spec (atts es) (sigs es) b of
       Inl e \<Rightarrow> (Inl e, content)
     | Inr (Inl c) \<Rightarrow> (Inr c, content)
     | Inr (Inr fs) \<Rightarrow>
         (Inr b, Some (opt_or content [] @ (case stop of None \<Rightarrow> entries_file fs | Some k \<Rightarrow> take k (entries_file fs)))))"
  using assms
  by (simp add: append_signed_until_def read_represented admit_signed_spec [OF represents_distinct] split: sum.splits)

text \<open>
  The store of signed attestations refines its contract. Over a file of attestations and signatures, an append of a
  signature that can be stored does what the contract says of the entries: it answers with the signature that is there,
  refuses an attestation that does not continue the chain or that has the identity of another one, or adds
  the attestation, if it is not there, and the signature; what it adds is read back.
\<close>

theorem signed_append_refines:
  assumes "represents_entries content es" "signable b"
  shows "(case signed_spec (atts es) (sigs es) b of
      Inl e \<Rightarrow> append_signed True content b = (Inl e, content)
    | Inr (Inl c) \<Rightarrow> append_signed True content b = (Inr c, content)
    | Inr (Inr fs) \<Rightarrow>
        fst (append_signed True content b) = Inr b \<and> fs = missing (atts es) b \<and>
        represents_entries (snd (append_signed True content b)) (es @ fs) \<and>
        read_store True (snd (append_signed True content b)) = Inr (atts es @ atts fs, sigs es @ sigs fs))"
  using append_signed_until_spec [OF assms(1), of None b] represents_add [OF assms(1)]
    signed_spec_new [OF _ assms(2) represents_distinct [OF assms(1)]] read_represented
  by (fastforce simp: append_signed_def split: sum.splits)

section \<open>The contract of a store of signatures\<close>

text \<open>A signature that is there with sorted keys is the same one.\<close>

lemma same_binding_sort: "binding_ok b \<Longrightarrow> same_binding (sort_binding b) b"
proof -
  assume "binding_ok b"
  then have j: "json_ok (\<lambda>s. True) (JObj (en_attestation (sb_envelope b)))" by (simp add: binding_ok_def)
  show ?thesis
    using sort_keys_idem [OF j]
    by (simp add: same_binding_def sort_binding_def envelope_to_dict_def sort_keys_JObj sorted_payload_def del: sort_keys.simps(2))
qed

lemma find_first_snoc: "\<forall>c \<in> set B. \<not> p c \<Longrightarrow> p b \<Longrightarrow> find_first p (B @ [b]) = Some b"
  by (induction B) (simp_all add: find_first_def)

lemma signed_spec_again:
  assumes "signed_spec R B b = Inr (Inr fs)" "signable b" "distinct (map oa_attestation_id R)"
  shows "signed_spec (R @ atts fs) (B @ sigs fs) b = Inr (Inl (sort_binding b))"
proof -
  note new = signed_spec_new [OF assms]
  have B: "find_first (\<lambda>c. oa_attestation_id (attested c) = oa_attestation_id (attested b)) B = None"
    using assms(1) by (auto simp: signed_spec_def Let_def split: if_splits option.splits)
  then have none: "\<forall>c \<in> set B. oa_attestation_id (attested c) \<noteq> oa_attestation_id (attested b)" by (simp add: find_first_None)
  have b: "binding_ok b" using assms(2) by (simp add: signable_def)
  have "find_first (\<lambda>c. oa_attestation_id (attested c) = oa_attestation_id (attested b)) (B @ sigs fs) = Some (sort_binding b)"
    using none b by (simp add: new(1) missing_def find_first_snoc)
  moreover have "attested b \<in> set (R @ atts fs)" by (simp add: new(1) missing_def)
  ultimately show ?thesis using same_binding_sort [OF b] by (simp add: signed_spec_def Let_def)
qed

text \<open>What a client of the store relies on, over the attestations and the signatures it holds.\<close>

locale signed_store =
  fixes append :: "'s \<Rightarrow> signed_binding \<Rightarrow> signed_binding result \<times> 's"
    and read :: "'s \<Rightarrow> attestations result"
    and represents :: "'s \<Rightarrow> attestation list \<Rightarrow> signed_binding list \<Rightarrow> bool"
  assumes represents_ids: "represents s R B \<Longrightarrow> distinct (map oa_attestation_id R)"
    and read_ok: "represents s R B \<Longrightarrow> read s = Inr (R, B)"
    and append_new: "represents s R B \<Longrightarrow> signable b \<Longrightarrow> signed_spec R B b = Inr (Inr fs) \<Longrightarrow>
      fst (append s b) = Inr b \<and> represents (snd (append s b)) (R @ atts fs) (B @ sigs fs)"
    and append_known: "represents s R B \<Longrightarrow> signed_spec R B b = Inr (Inl c) \<Longrightarrow> append s b = (Inr c, s)"
    and append_refused: "represents s R B \<Longrightarrow> signed_spec R B b = Inl e \<Longrightarrow> append s b = (Inl e, s)"
begin

text \<open>What is appended is there, and is appended once.\<close>

lemma append_outcome:
  assumes "represents s R B" "signable b" "fst (append s b) = Inr c"
  obtains R' B' d where "represents (snd (append s b)) (R @ R') (B @ B')" "signed_spec (R @ R') (B @ B') b = Inr (Inl d)" "same_binding d b"
proof (cases "signed_spec R B b")
  case (Inl e)
  with append_refused [OF assms(1) Inl] assms(3) show thesis by simp
next
  case (Inr r)
  show thesis
  proof (cases r)
    case (Inl d)
    with Inr have sp: "signed_spec R B b = Inr (Inl d)" by simp
    then have "same_binding d b" by (auto simp: signed_spec_def Let_def split: if_splits option.splits)
    with append_known [OF assms(1) sp] assms(1) sp show thesis by (intro that [of "[]" "[]" d]) simp_all
  next
    case (Inr fs)
    with \<open>signed_spec R B b = Inr r\<close> have sp: "signed_spec R B b = Inr (Inr fs)" by simp
    have "binding_ok b" using assms(2) by (simp add: signable_def)
    with append_new [OF assms(1,2) sp] signed_spec_again [OF sp assms(2) represents_ids [OF assms(1)]] same_binding_sort
    show thesis by (intro that) simp_all
  qed
qed

lemma append_twice:
  assumes "represents s R B" "signable b" "fst (append s b) = Inr c"
  shows "\<exists>d. append (snd (append s b)) b = (Inr d, snd (append s b)) \<and> same_binding d b"
  using append_outcome [OF assms] append_known by metis

lemma append_extends:
  assumes "represents s R B" "signable b"
  shows "\<exists>R' B'. read (snd (append s b)) = Inr (R @ R', B @ B')"
proof (cases "fst (append s b)")
  case (Inl e)
  have "signed_spec R B b = Inl e' \<Longrightarrow> ?thesis" "signed_spec R B b = Inr (Inl d) \<Longrightarrow> ?thesis" for e' d
    using append_refused [OF assms(1)] append_known [OF assms(1)] read_ok [OF assms(1)] by force+
  with append_new [OF assms] Inl show ?thesis by (cases "signed_spec R B b"; cases "projr (signed_spec R B b)") force+
next
  case (Inr c)
  with append_outcome [OF assms Inr] read_ok show ?thesis by metis
qed

end

definition holds_entries :: "string option \<Rightarrow> attestation list \<Rightarrow> signed_binding list \<Rightarrow> bool" where
  "holds_entries content R B \<longleftrightarrow> (\<exists>es. represents_entries content es \<and> R = atts es \<and> B = sigs es)"

interpretation attestations: signed_store "append_signed True" "read_store True" holds_entries
proof unfold_locales
  fix s R B b fs c e
  assume "holds_entries s R B"
  then obtain es where es: "represents_entries s es" "R = atts es" "B = sigs es" by (auto simp: holds_entries_def)
  note d = represents_distinct [OF es(1)] and spec = append_signed_until_spec [OF es(1), of None b, folded append_signed_def]
  show "distinct (map oa_attestation_id R)" "read_store True s = Inr (R, B)"
    using d read_represented [OF es(1)] es by simp_all
  show "fst (append_signed True s b) = Inr b \<and> holds_entries (snd (append_signed True s b)) (R @ atts fs) (B @ sigs fs)"
    if "signable b" "signed_spec R B b = Inr (Inr fs)"
  proof -
    have "represents_entries (Some (opt_or s [] @ entries_file fs)) (es @ fs)"
      using represents_add [OF es(1)] signed_spec_new(2) [OF that(2,1)] d es by simp
    then show ?thesis using spec that(2) es by (auto simp: holds_entries_def)
  qed
  show "append_signed True s b = (Inr c, s)" if "signed_spec R B b = Inr (Inl c)" using spec that es by simp
  show "append_signed True s b = (Inl e, s)" if "signed_spec R B b = Inl e" using spec that es by simp
qed

text \<open>
  A signature is stored once, and nothing is lost. An append that succeeds leaves a store in which the same append
  answers with that signature and writes nothing; and every append, whatever its answer, leaves a store that is read as an
  extension of what was there.
\<close>

theorem signed_append_once:
  assumes "represents_entries content es" "signable b"
  shows "(\<forall>c. fst (append_signed True content b) = Inr c \<longrightarrow> (\<exists>d.
      append_signed True (snd (append_signed True content b)) b = (Inr d, snd (append_signed True content b)) \<and> same_binding d b)) \<and>
    (\<exists>R' B'. read_store True (snd (append_signed True content b)) = Inr (atts es @ R', sigs es @ B'))"
proof -
  have h: "holds_entries content (atts es) (sigs es)" using assms(1) by (auto simp: holds_entries_def)
  show ?thesis using attestations.append_twice [OF h assms(2)] attestations.append_extends [OF h assms(2)] by blast
qed

section \<open>Stops inside a write\<close>

lemma read_more:
  assumes "represents_entries content es" "list_all printable q" "q \<noteq> []"
  shows "read_store True (Some (opt_or content [] @ q)) = parse_attestations None (atts es) (sigs es) [q]"
    "read_store True (Some (opt_or content [] @ q @ [LF])) = parse_attestations None (atts es) (sigs es) [q]"
proof -
  have c: "opt_or content [] = entries_file es" "entries_ok [] [] es"
    using assms(1) by (auto simp: represents_entries_def opt_or_def entries_file_def)
  have lf: "list_all (\<lambda>c. byte c < 128) (q @ [LF])"
    using printable_byte [OF assms(2)] by (simp add: byte_def)
  show "read_store True (Some (opt_or content [] @ q)) = parse_attestations None (atts es) (sigs es) [q]"
    using read_entries_with [OF c(2) printable_byte [OF assms(2)]] text_lines_last [OF assms(2,3)] by (simp add: c(1))
  show "read_store True (Some (opt_or content [] @ q @ [LF])) = parse_attestations None (atts es) (sigs es) [q]"
    using read_entries_with [OF c(2) lf] text_lines_line [OF assms(2), of "[]"] by (simp add: c(1))
qed

lemma read_unfinished:
  assumes "represents_entries content es" "entry_ok (atts es) (sigs es) e"
  shows "read_store True (Some (opt_or content [] @ json_line (entry_dict e))) = Inr (atts (es @ [e]), sigs (es @ [e]))"
  using read_more(1) [OF assms(1) json_line_printable [OF entry_text [OF assms(2)]]]
    read_entry_own [OF assms(2) represents_distinct [OF assms(1)]]
  by (cases e) simp_all

lemma unreadable_line: "loads l = None \<Longrightarrow> \<not> blank l \<Longrightarrow> parse_attestations None R B [l] = Inl (ValueError ''invalid attestation'')"
  by (simp add: read_attestation_line_def caught_def)

lemma read_torn:
  assumes "represents_entries content es" "json_ok utf8_ok (JObj d)" "0 < k" "k < length (json_line d)"
  shows "read_store True (Some (opt_or content [] @ take k (json_line d))) = Inl (ValueError ''invalid attestation'')"
proof -
  let ?p = "take k (json_line d)"
  obtain t where l: "json_line d = CHR ''{'' # t" using json_line_start by blast
  have p: "?p \<noteq> []" "\<not> blank ?p" using assms(3) l by (cases k; simp)+
  have "strict_prefix ?p (json_line d)"
    using assms(4) by (metis strict_prefixI' append_take_drop_id id_take_nth_drop)
  moreover have "list_all printable ?p"
    using json_line_printable [OF assms(2)] by (metis append_take_drop_id list_all_append)
  ultimately show ?thesis
    using read_more(1) [OF assms(1)] unreadable_line [OF torn_line [OF assms(2)]] p by simp
qed

lemma read_glued:
  assumes "represents_entries content es" "json_ok utf8_ok (JObj d)" "json_ok utf8_ok (JObj f)"
  shows "read_store True (Some (opt_or content [] @ json_line d @ json_line f @ [LF])) = Inl (ValueError ''invalid attestation'')"
proof -
  let ?q = "json_line d @ json_line f"
  obtain t m where l: "json_line d = CHR ''{'' # t" "json_line f = CHR ''{'' # m" using json_line_start by metis
  have "loads ?q = None" using glued_line [OF assms(2), of "json_line f"] l(2) by (simp add: is_ws_def)
  moreover have "\<not> blank ?q" using l(1) by simp
  moreover have "list_all printable ?q" using json_line_printable assms(2,3) by simp
  ultimately show ?thesis
    using read_more(2) [OF assms(1), of ?q] unreadable_line [of ?q] by simp
qed

lemma represents_Some: "represents_entries content es \<Longrightarrow> represents_entries (Some (opt_or content [])) es"
  by (auto simp: represents_entries_def opt_or_def entries_file_def)

lemma read_cut:
  assumes "represents_entries content es" "entry_ok (atts es) (sigs es) e" "0 < k" "k \<le> length (json_line (entry_dict e))"
  shows "read_store True (Some (opt_or content [] @ take k (json_line (entry_dict e)))) =
    (if k = length (json_line (entry_dict e)) then Inr (atts (es @ [e]), sigs (es @ [e]))
     else Inl (ValueError ''invalid attestation''))"
  using read_unfinished [OF assms(1,2)] read_torn [OF assms(1) entry_text [OF assms(2)], of k] assms(3,4) by simp

lemma spec_after_attestation:
  assumes "signed_spec R B b = Inr (Inr [Inl (attested b), Inr b])"
  shows "signed_spec (R @ [attested b]) B b = Inr (Inr [Inr b])"
  using assms by (auto simp: signed_spec_def Let_def missing_def split: if_splits option.splits)

lemma entries_file_simps [simp]:
  "entries_file [] = []" "entries_file (e # es) = json_line (entry_dict e) @ LF # entries_file es"
  by (simp_all add: entries_file_def)

lemma append_signed_done:
  assumes "represents_entries c ds" "signed_spec (atts ds) (sigs ds) b = Inr (Inr gs)" "signable b"
  shows "fst (append_signed True c b) = Inr b \<and> represents_entries (snd (append_signed True c b)) (ds @ gs)"
  using append_signed_until_spec [OF assms(1), of None b] represents_add [OF assms(1)]
    signed_spec_new(2) [OF assms(2,3) represents_distinct [OF assms(1)]] assms(2)
  by (simp add: append_signed_def)

lemma append_signed_unreadable:
  "read_store True c = Inl e \<Longrightarrow> append_signed True c b = (Inl e, c)"
  by (simp add: append_signed_def append_signed_until_def)

text \<open>The retry after an attestation that lacks its line break.\<close>

lemma append_signed_glued:
  assumes "represents_entries content es" "signable b"
    and "signed_spec (atts es) (sigs es) b = Inr (Inr [Inl (attested b), Inr b])"
  shows "let s = append_signed True (Some (opt_or content [] @ json_line (attestation_to_dict (attested b)))) b in
    fst s = Inr b \<and> read_store True (snd s) = Inl (ValueError ''invalid attestation'')"
proof -
  let ?a = "attested b" and ?old = "opt_or content []"
  let ?l = "json_line (attestation_to_dict ?a)" and ?m = "json_line (signed_binding_to_record b)"
  have ok: "entries_ok (atts es) (sigs es) [Inl ?a, Inr b]"
    using signed_spec_new(2) [OF assms(3,2) represents_distinct [OF assms(1)]] .
  have d: "distinct (map oa_attestation_id (atts es @ [?a]))"
    using entry_ok_distinct [of "atts es" "sigs es" "Inl ?a"] represents_distinct [OF assms(1)] ok by simp
  have "read_store True (Some (?old @ ?l)) = Inr (atts es @ [?a], sigs es)"
    using read_unfinished [OF assms(1), of "Inl ?a"] ok by (simp add: entry_dict_def)
  then have "append_signed True (Some (?old @ ?l)) b = (Inr b, Some (?old @ ?l @ ?m @ [LF]))"
    using admit_signed_spec [OF d, of "sigs es" b] spec_after_attestation [OF assms(3)]
    by (simp add: append_signed_def append_signed_until_def opt_or_def entry_dict_def)
  then show ?thesis
    using read_glued [OF assms(1)] assms(2) by (simp add: signable_def attestation_text_def binding_text_def)
qed

text \<open>
  C22: an append of a signature is not atomic. A process that stops after \<open>k\<close> bytes of what it adds leaves one of four
  files. If nothing or exactly the attestation was written, a retry completes the append. If only the line break after
  the attestation is missing, a retry answers with success, but the store it leaves is refused by every later read. If
  only the last line break is missing, the signature is there and is read. In every other case the store
  is refused by every later read, and by every later append.
\<close>

theorem signed_append_interrupted:
  assumes "represents_entries content es" "signable b" "signed_spec (atts es) (sigs es) b = Inr (Inr fs)"
    and "k < length (entries_file fs)"
  shows "let torn = snd (append_signed_until (Some k) True content b);
      first = (if attested b \<in> set (atts es) then 0 else length (attestation_line (attested b)));
      (r, again) = append_signed True torn b in
    if k = 0 \<or> k = first then r = Inr b \<and> represents_entries again (es @ fs)
    else if Suc k = first then r = Inr b \<and> read_store True again = Inl (ValueError ''invalid attestation'')
    else if Suc k = length (entries_file fs) then read_store True torn = Inr (atts (es @ fs), sigs (es @ fs))
    else read_store True torn = Inl (ValueError ''invalid attestation'') \<and> r = Inl (ValueError ''invalid attestation'')"
proof -
  let ?a = "attested b" and ?old = "opt_or content []" and ?bad = "Inl (ValueError ''invalid attestation'')"
  let ?l = "json_line (attestation_to_dict ?a)" and ?m = "json_line (signed_binding_to_record b)"
  let ?torn = "Some (?old @ take k (entries_file fs))"
  note d = represents_distinct [OF assms(1)]
  note fs = signed_spec_new(1) [OF assms(3,2) d] and ok = signed_spec_new(2) [OF assms(3,2) d]
  note dict [simp] = entry_dict_def
  have torn: "snd (append_signed_until (Some k) True content b) = ?torn"
    using append_signed_until_spec [OF assms(1)] assms(3) by simp
  note done_again = append_signed_done [OF _ _ assms(2)]
  have zero: "fst (append_signed True ?torn b) = Inr b \<and> represents_entries (snd (append_signed True ?torn b)) (es @ fs)" if "k = 0"
    using done_again [OF represents_Some [OF assms(1)] assms(3)] that by simp
  show ?thesis
  proof (cases "?a \<in> set (atts es)")
    case True
    then have f: "fs = [Inr b]" using fs by (simp add: missing_def)
    have "read_store True ?torn = (if Suc k = length (entries_file fs) then Inr (atts (es @ fs), sigs (es @ fs)) else ?bad)" if "0 < k"
      using read_cut [OF assms(1), of "Inr b" k] ok that assms(4) by (simp add: f)
    with True zero show ?thesis unfolding torn Let_def by (auto simp: append_signed_unreadable split: prod.splits)
  next
    case False
    then have f: "fs = [Inl ?a, Inr b]" using fs by (simp add: missing_def)
    have al: "length (attestation_line ?a) = Suc (length ?l)" by (simp add: attestation_line_def)
    let ?es = "es @ [Inl ?a]" and ?one = "Some (?old @ ?l @ [LF])"
    have r1: "represents_entries ?one ?es" using represents_add [OF assms(1), of "[Inl ?a]"] ok by (simp add: f)
    have s1: "signed_spec (atts ?es) (sigs ?es) b = Inr (Inr [Inr b])" using spec_after_attestation assms(3) f by simp
    consider "k = 0" | "0 < k" "k < length ?l" | "k = length ?l" | "k = Suc (length ?l)" | "Suc (length ?l) < k" by linarith
    then show ?thesis
    proof cases
      case 1
      with zero show ?thesis unfolding torn Let_def by (auto split: prod.splits)
    next
      case 2
      have "read_store True ?torn = ?bad" using read_cut [OF assms(1), of "Inl ?a" k] ok 2 by (simp add: f)
      with False 2 al show ?thesis unfolding torn Let_def by (auto simp: f append_signed_unreadable split: prod.splits)
    next
      case 3
      have t: "?torn = Some (?old @ ?l)" using 3 by (simp add: f)
      show ?thesis
        using append_signed_glued [OF assms(1,2)] assms(3) 3 False al unfolding torn t Let_def by (auto simp: f split: prod.splits)
    next
      case 4
      have t: "?torn = ?one" using 4 by (simp add: f)
      have "fst (append_signed True ?torn b) = Inr b \<and> represents_entries (snd (append_signed True ?torn b)) (es @ fs)"
        using done_again [OF r1 s1] unfolding t by (simp add: f)
      with 4 False al show ?thesis unfolding torn Let_def by (auto split: prod.splits)
    next
      case 5
      define j where "j = k - Suc (length ?l)"
      have k: "k = Suc (length ?l) + j" "0 < j" "j \<le> length ?m" using 5 assms(4) by (simp_all add: j_def f)
      have t: "?torn = Some (opt_or ?one [] @ take j ?m)" using k(3) by (simp add: k(1) f opt_or_def)
      have e: "entry_ok (atts ?es) (sigs ?es) (Inr b)" using ok by (simp add: f)
      have "read_store True ?torn = (if j = length ?m then Inr (atts (es @ fs), sigs (es @ fs)) else ?bad)"
        using read_cut [OF r1 e k(2)] k(3) unfolding t by (simp add: f)
      with k False al show ?thesis unfolding torn Let_def by (auto simp: f append_signed_unreadable split: prod.splits)
    qed
  qed
qed

section \<open>Witnesses\<close>

definition sample_outcome :: "string \<Rightarrow> attestation" where
  "sample_outcome i =
     \<lparr>oa_attestation_id = i, oa_subject = ''s'', oa_occurred_at = ''now'', oa_actor = ''me'', oa_chain_id = ''c'',
        oa_chain_digest = sha256_hex ''c'', oa_transition_id = ''t'', oa_transition_digest = sha256_hex ''t'',
        oa_reliability_state = ''reliable'', oa_decision = ''accept'', oa_verification_status = ''verified'',
        oa_reconciliation_state = ''verified'', oa_rationale = [], oa_signing_key_id = Some ''a'', oa_previous = [], oa_digest = []\<rparr>"

definition sample_attestation :: "string \<Rightarrow> attestation" where
  "sample_attestation i = (sample_outcome i)\<lparr>oa_digest := attestation_digest (sample_outcome i)\<rparr>"

definition sample_envelope :: envelope where
  "sample_envelope =
     \<lparr>en_algorithm = ''Ed25519'', en_key_id = ''a'', en_attestation = attestation_to_dict (sample_attestation ''x''),
      en_payload_digest = digest_of (attestation_to_dict (sample_attestation ''x'')), en_signature = ''c2ln''\<rparr>"

definition sample_binding :: signed_binding where
  "sample_binding = \<lparr>sb_envelope = sample_envelope, sb_context =
     \<lparr>cx_format_version = ''1'', cx_envelope_artifact_id = ''e'', cx_envelope_digest = digest_of (envelope_to_dict sample_envelope),
      cx_attestation_id = ''x'', cx_attestation_digest = oa_digest (sample_attestation ''x''), cx_signing_key_id = ''a'',
      cx_signing_key_digest = sha256_hex ''pk'', cx_state_artifact_id = ''s'', cx_state_digest = sha256_hex ''ts'',
      cx_state_version = 1, cx_authority_artifact_id = ''r'', cx_authority_key_id = ''root'',
      cx_authority_key_digest = sha256_hex ''rk''\<rparr>\<rparr>"

lemma ok_strings [simp]: "utf8_ok ''1''" "utf8_ok ''a''" "utf8_ok ''c''" "utf8_ok ''e''" "utf8_ok ''r''" "utf8_ok ''s''" "utf8_ok ''t''"
  "utf8_ok ''x''" "utf8_ok ''me''" "utf8_ok ''now''" "utf8_ok ''root''" "utf8_ok ''accept''" "utf8_ok ''verified''" "utf8_ok ''reliable''"
  "utf8_ok ''Ed25519''" "utf8_ok ''c2ln''" "utf8_ok []"
  by code_simp+

lemma utf8_ok_digest [simp]: "utf8_ok (digest_of d)" "utf8_ok (sha256_hex s)"
  by (rule utf8_ok_sha256, simp)+

lemma ascii_keys [simp]: "list_all (\<lambda>k. utf8_ok k) (map fst (attestation_to_dict a))"
  "list_all (\<lambda>k. utf8_ok k) (map fst (envelope_to_dict e))" "list_all (\<lambda>k. utf8_ok k) (map fst (context_to_dict c))"
  "list_all (\<lambda>k. utf8_ok k) (map fst (signed_binding_to_record b))"
  by (simp_all add: attestation_to_dict_def attestation_payload_def envelope_to_dict_def context_to_dict_def
      context_payload_def signed_binding_to_record_def utf8_ok_ascii byte_def)

lemma attestation_textI:
  assumes "list_all utf8_ok [oa_attestation_id a, oa_subject a, oa_occurred_at a, oa_actor a, oa_chain_id a, oa_chain_digest a,
      oa_transition_id a, oa_transition_digest a, oa_reliability_state a, oa_decision a, oa_verification_status a,
      oa_reconciliation_state a, oa_previous a, oa_digest a]"
    and "list_all utf8_ok (oa_rationale a)" "\<forall>k. oa_signing_key_id a = Some k \<longrightarrow> utf8_ok k"
  shows "attestation_text a"
  unfolding attestation_text_def
proof (intro json_okI ascii_keys)
  show "distinct (map fst (attestation_to_dict a))" by (simp add: attestation_to_dict_def attestation_payload_def)
  have "list_all (json_ok utf8_ok) (map JStr (oa_rationale a))" using assms(2) by (simp add: list_all_iff)
  then show "list_all (json_ok utf8_ok) (map snd (attestation_to_dict a))"
    using assms(1,3) by (simp add: attestation_to_dict_def attestation_payload_def jopt_str_def jstrs_def list_all_iff split: option.split)
qed

lemma sample_attestation_ok:
  assumes "\<not> blank i" "utf8_ok i"
  shows "attestation_ok (sample_attestation i)" "attestation_text (sample_attestation i)"
proof -
  have "make_attestation (sample_outcome i) = Inr (sample_attestation i)"
    using assms(1)
    by (simp add: make_attestation_Inr sample_attestation_def attestation_guards_def expected_decision_def sample_outcome_def)
  then show "attestation_ok (sample_attestation i)" by (rule make_attestation_ok)
  show "attestation_text (sample_attestation i)"
    using assms(2) by (intro attestation_textI) (simp_all add: sample_attestation_def sample_outcome_def attestation_digest_def)
qed

lemma binding_textI:
  assumes "attestation_text a" "en_attestation (sb_envelope b) = attestation_to_dict a"
    and "list_all utf8_ok [en_algorithm (sb_envelope b), en_key_id (sb_envelope b), en_payload_digest (sb_envelope b), en_signature (sb_envelope b)]"
    and "let c = sb_context b in list_all utf8_ok [cx_format_version c, cx_envelope_artifact_id c, cx_envelope_digest c, cx_attestation_id c,
      cx_attestation_digest c, cx_signing_key_id c, cx_signing_key_digest c, cx_state_artifact_id c, cx_state_digest c,
      cx_authority_artifact_id c, cx_authority_key_id c, cx_authority_key_digest c]"
  shows "binding_text b"
proof -
  have "json_ok utf8_ok (JObj (envelope_to_dict (sb_envelope b)))"
    using assms(1-3) by (intro json_okI ascii_keys) (simp_all add: envelope_to_dict_def attestation_text_def)
  moreover have "json_ok utf8_ok (JObj (context_to_dict (sb_context b)))"
    using assms(4) by (intro json_okI ascii_keys) (simp_all add: context_to_dict_def context_payload_def context_digest_def Let_def)
  moreover have "utf8_ok binding_record_type" by code_simp
  ultimately show ?thesis
    unfolding binding_text_def by (intro json_okI ascii_keys) (simp_all add: signed_binding_to_record_def)
qed

lemma sample_signable: "signable sample_binding" "attested sample_binding = sample_attestation ''x''"
proof -
  note a = sample_attestation_ok [of "''x''", simplified]
  show at: "attested sample_binding = sample_attestation ''x''"
    using attestation_from_stored [OF a(1) attestation_stored_self]
    by (simp add: attested_def sample_binding_def sample_envelope_def)
  have f: "attestation_from_dict (en_attestation sample_envelope) = Inr (sample_attestation ''x'')"
    using attestation_from_stored [OF a(1) attestation_stored_self] by (simp add: sample_envelope_def)
  have "signed_binding_post_init sample_binding = Inr ()"
    unfolding signed_binding_post_init_def
    by (simp add: sample_binding_def f) (simp add: sample_envelope_def sample_attestation_def sample_outcome_def)
  then have "binding_ok sample_binding"
    using a(1) at by (simp add: binding_ok_def sample_binding_def sample_envelope_def envelope_post_init_def context_post_init_def
        attestation_ok_def)
  moreover have "binding_text sample_binding"
    by (rule binding_textI [OF a(2)]) (simp_all add: sample_binding_def sample_envelope_def sample_attestation_def attestation_digest_def)
  ultimately show "signable sample_binding" using a(2) at by (simp add: signable_def)
qed

lemma sample_spec: "signed_spec [] [] sample_binding = Inr (Inr [Inl (sample_attestation ''x''), Inr sample_binding])"
  by (simp add: signed_spec_def missing_def sample_signable find_first_def chain_tip_def last_opt_def
      sample_attestation_def sample_outcome_def)

lemma no_entries_represents: "represents_entries None []"
  by (simp add: represents_entries_def)

lemma signed_append_refines_witness:
  "read_store True (snd (append_signed True None sample_binding)) = Inr ([sample_attestation ''x''], [sort_binding sample_binding])"
  using signed_append_refines [OF no_entries_represents sample_signable(1)] sample_spec by simp

lemma signed_append_once_witness:
  "\<exists>d. append_signed True (snd (append_signed True None sample_binding)) sample_binding = (Inr d, snd (append_signed True None sample_binding))"
proof -
  have "fst (append_signed True None sample_binding) = Inr sample_binding"
    using append_signed_until_spec [OF no_entries_represents, of None sample_binding] sample_spec by (simp add: append_signed_def)
  with signed_append_once [OF no_entries_represents sample_signable(1)] show ?thesis by blast
qed

lemma signed_append_interrupted_witness:
  "fst (append_signed True (snd (append_signed_until (Some 1) True None sample_binding)) sample_binding) =
    Inl (ValueError ''invalid attestation'')"
proof -
  have long: "1 < length (json_line d)" if "json_ok utf8_ok (JObj d)" for d
  proof -
    obtain t where t: "json_line d = CHR ''{'' # t" using json_line_start by blast
    moreover have "loads ''{'' = None" by code_simp
    ultimately have "t \<noteq> []" using loads_json_line [OF that] by auto
    with t show ?thesis by (cases t) simp_all
  qed
  have l: "1 < length (json_line (attestation_to_dict (sample_attestation ''x'')))"
    using long sample_attestation_ok(2) [of "''x''"] by (simp add: attestation_text_def)
  from signed_append_interrupted [OF no_entries_represents sample_signable(1), of "[Inl (sample_attestation ''x''), Inr sample_binding]" 1]
  show ?thesis using sample_spec l by (auto simp: Let_def sample_signable(2) attestation_line_def entry_dict_def split: prod.splits)
qed

end
