(* ===== verification/KeyManagement.thy ===== *)
theory KeyManagement
  imports Base64 Lines
begin

text \<open>
  \<open>domain/key_management.py\<close> and \<open>adapters/key_management.py\<close>: references to keys that a host keeps, and the signers
  that use them. The providers of the host are functions; the signing process is a function from its input to how it
  ends. Times are whole seconds.
\<close>

section \<open>References to keys\<close>

record signing_key =
  sk_key_id :: string
  sk_provider :: string
  sk_algorithm :: string
  sk_version :: "string option"
  sk_public_key_digest :: "string option"

definition signing_key_post_init :: "signing_key \<Rightarrow> unit result" where
  "signing_key_post_init k = guards [
     (blank (sk_key_id k) \<or> blank (sk_provider k), ValueError ''must not be empty''),
     (sk_algorithm k \<noteq> ''Ed25519'', ValueError ''algorithm''),
     (case sk_public_key_digest k of None \<Rightarrow> False | Some d \<Rightarrow> \<not> is_sha256 d, ValueError ''public_key_digest'')]"

definition signing_key_to_dict :: "signing_key \<Rightarrow> payload" where
  "signing_key_to_dict k = [
     (''key_id'', JStr (sk_key_id k)),
     (''provider'', JStr (sk_provider k)),
     (''algorithm'', JStr (sk_algorithm k)),
     (''version'', jopt_str (sk_version k)),
     (''public_key_digest'', jopt_str (sk_public_key_digest k))]"

definition public_key_digest :: "string \<Rightarrow> string" where
  "public_key_digest key = sha256_hex key"

section \<open>The adapter\<close>

type_synonym signer = "signing_key \<Rightarrow> string \<Rightarrow> string result"

definition adapter_sign :: "signer \<Rightarrow> signing_key \<Rightarrow> string \<Rightarrow> string result" where
  "adapter_sign provider key message =
     bindE (provider key message) (\<lambda>signature.
     bindE (guards [(signature = [], ValueError ''non-empty bytes'')]) (\<lambda>_. Inr signature))"

definition adapter_rotate :: "(signing_key \<Rightarrow> signing_key result) option \<Rightarrow> signing_key \<Rightarrow> signing_key result" where
  "adapter_rotate lifecycle key =
     (case lifecycle of None \<Rightarrow> Inl (RuntimeError ''key lifecycle provider'') | Some f \<Rightarrow> f key)"

definition adapter_revoke :: "(signing_key \<Rightarrow> string \<Rightarrow> unit result) option \<Rightarrow> signing_key \<Rightarrow> string \<Rightarrow> unit result" where
  "adapter_revoke lifecycle key reason =
     (case lifecycle of
        None \<Rightarrow> Inl (RuntimeError ''key lifecycle provider'')
      | Some f \<Rightarrow> bindE (guards [(blank reason, ValueError ''revocation reason'')]) (\<lambda>_. f key reason))"

section \<open>Signing by a command\<close>

record command_provider =
  cp_command :: "string list"
  cp_timeout_seconds :: int
  cp_max_payload :: int
  cp_max_response :: int

definition make_command_provider :: "command_provider \<Rightarrow> command_provider result" where
  "make_command_provider p = construct (\<lambda>p. guards [
     (cp_command p = [] \<or> [] \<in> set (cp_command p), ValueError ''command''),
     (cp_timeout_seconds p \<le> 0, ValueError ''timeout''),
     (cp_max_payload p \<le> 0, ValueError ''payload limit''),
     (cp_max_response p \<le> 0, ValueError ''response limit'')]) p"

definition default_command_provider :: "string list \<Rightarrow> command_provider" where
  "default_command_provider command =
     \<lparr>cp_command = command, cp_timeout_seconds = 30, cp_max_payload = 1048576, cp_max_response = 4096\<rparr>"

text \<open>\<open>subprocess.run\<close>: a process that does not start, that is stopped after the timeout, or that ends.\<close>

datatype process_end = NotStarted | TimedOut | Exited (exit_code: int) (exit_stdout: string)

definition signing_protocol :: string where
  "signing_protocol = ''statewake-external-signing.v1''"

definition signing_request :: "signing_key \<Rightarrow> string \<Rightarrow> string" where
  "signing_request key message = canonical (JObj [
     (''protocol'', JStr signing_protocol),
     (''key'', JObj (signing_key_to_dict key)),
     (''payload_base64'', JStr (b64_encode message))]) @ [LF]"

text \<open>
  \<open>base64.b64decode(..., validate=True)\<close>: the strict decoder rejects a leading padding, characters outside the
  alphabet, data after a started padding and anything after a complete one. It accepts both pairs of special characters.
\<close>

fun a2b_strict :: "bool \<Rightarrow> nat \<Rightarrow> nat \<Rightarrow> nat \<Rightarrow> string \<Rightarrow> string option" where
  "a2b_strict started quad left pads [] = (if quad = 0 then Some [] else None)"
| "a2b_strict started quad left pads (c # s) =
     (if c = CHR ''='' then
        if 2 \<le> quad \<and> 4 \<le> quad + (pads + 1) then if s = [] then Some [] else None
        else a2b_strict True quad left (if 2 \<le> quad then pads + 1 else pads) s
      else case b64_val c of
        None \<Rightarrow> None
      | Some v \<Rightarrow>
          if started then None
          else if quad = 0 then a2b_strict started 1 v 0 s
          else if quad = 1 then map_option (Cons (char_of (left * 4 + v div 16))) (a2b_strict started 2 (v mod 16) 0 s)
          else if quad = 2 then map_option (Cons (char_of (left * 16 + v div 4))) (a2b_strict started 3 (v mod 4) 0 s)
          else map_option (Cons (char_of (left * 64 + v))) (a2b_strict started 0 0 0 s))"

definition b64_decode_strict :: "string \<Rightarrow> string option" where
  "b64_decode_strict s =
     (let t = s @ replicate (nat (- int (length s) mod 4)) CHR ''='' in
      if list_ex (\<lambda>c. 128 \<le> byte c) s \<or> take 1 t = ''='' then None else a2b_strict False 0 0 0 t)"

definition read_signature :: "signing_key \<Rightarrow> string \<Rightarrow> string result" where
  "read_signature key out =
     (if \<not> utf8_ok out then Inl (ValueError ''invalid UTF-8 JSON'')
      else case loads out of
        None \<Rightarrow> Inl (ValueError ''invalid UTF-8 JSON'')
      | Some (JObj d) \<Rightarrow>
          bindE (guards [
            (set (map fst d) \<noteq> {''protocol'', ''algorithm'', ''key_id'', ''signature_base64''}, ValueError ''unsupported fields''),
            (map_of d ''protocol'' \<noteq> Some (JStr signing_protocol), ValueError ''protocol mismatch''),
            (map_of d ''algorithm'' \<noteq> Some (JStr (sk_algorithm key)), ValueError ''algorithm mismatch''),
            (map_of d ''key_id'' \<noteq> Some (JStr (sk_key_id key)), ValueError ''key identity mismatch'')]) (\<lambda>_.
          case map_of d ''signature_base64'' of
            Some (JStr encoded) \<Rightarrow>
              bindE (guards [(encoded = [], ValueError ''must be base64 text'')]) (\<lambda>_.
              case b64_decode_strict encoded of
                None \<Rightarrow> Inl (ValueError ''not valid base64'')
              | Some signature \<Rightarrow> bindE (guards [(length signature \<noteq> 64, ValueError ''exactly 64 bytes'')]) (\<lambda>_. Inr signature))
          | _ \<Rightarrow> Inl (ValueError ''must be base64 text''))
      | Some _ \<Rightarrow> Inl (ValueError ''JSON object''))"

definition command_sign :: "command_provider \<Rightarrow> (string list \<Rightarrow> string \<Rightarrow> process_end) \<Rightarrow> signer" where
  "command_sign p run key message =
     bindE (guards [(cp_max_payload p < int (length message), ValueError ''payload exceeds size limit'')]) (\<lambda>_.
     case run (cp_command p) (signing_request key message) of
       TimedOut \<Rightarrow> Inl (TimeoutError ''signing provider'')
     | NotStarted \<Rightarrow> Inl (RuntimeError ''could not be executed'')
     | Exited code out \<Rightarrow>
         bindE (guards [
           (code \<noteq> 0, RuntimeError ''exit code''),
           (cp_max_response p < int (length out), ValueError ''response exceeds size limit'')]) (\<lambda>_.
         read_signature key out))"

section \<open>Lemmas\<close>

lemma adapter_sign_Inr: "adapter_sign provider key message = Inr s \<longleftrightarrow> provider key message = Inr s \<and> s \<noteq> []"
  by (auto simp: adapter_sign_def bindE_eq_Inr_iff)

lemma command_sign_64:
  assumes "command_sign p run key message = Inr s"
  shows "length s = 64" "int (length message) \<le> cp_max_payload p"
  using assms
  by (auto simp: command_sign_def read_signature_def bindE_eq_Inr_iff
      split: process_end.splits json.splits option.splits if_splits)

text \<open>The adapter over a command never fails for an empty signature.\<close>

lemma adapter_over_command: "adapter_sign (command_sign p run) key message = command_sign p run key message"
proof (cases "command_sign p run key message")
  case (Inr s)
  then have "s \<noteq> []" using command_sign_64(1) by fastforce
  with Inr show ?thesis by (simp add: adapter_sign_def)
qed (simp add: adapter_sign_def)

text \<open>The strict decoder reads what the encoder writes.\<close>

lemma a2b_strict_values:
  assumes "b64_val w = Some v" "w \<noteq> CHR ''=''"
  shows "a2b_strict False 0 l p (w # s) = a2b_strict False 1 v 0 s"
    and "a2b_strict False 1 l p (w # s) = map_option (Cons (char_of (l * 4 + v div 16))) (a2b_strict False 2 (v mod 16) 0 s)"
    and "a2b_strict False 2 l p (w # s) = map_option (Cons (char_of (l * 16 + v div 4))) (a2b_strict False 3 (v mod 4) 0 s)"
    and "a2b_strict False 3 l p (w # s) = map_option (Cons (char_of (l * 64 + v))) (a2b_strict False 0 0 0 s)"
  using assms by simp_all

lemma a2b_strict_padding:
  "a2b_strict False 2 l 0 [CHR ''='', CHR ''=''] = Some []" "a2b_strict False 3 l 0 [CHR ''=''] = Some []"
  by simp_all

lemma a2b_strict_b2a: "a2b_strict False 0 0 0 (b2a s) = Some s"
proof (induction s rule: b2a.induct)
  case (2 a)
  show ?case
    unfolding b2a.simps a2b_strict_values [OF b64_chars(1,2) [OF sextets(1)]] a2b_strict_values [OF b64_chars(1,2) [OF sextets(2)]]
      a2b_strict_padding rejoin(2) [OF byte_less byte_less byte_less] by simp
next
  case (3 a b)
  show ?case
    unfolding b2a.simps a2b_strict_values [OF b64_chars(1,2) [OF sextets(1)]] a2b_strict_values [OF b64_chars(1,2) [OF sextets(3)]]
      a2b_strict_values [OF b64_chars(1,2) [OF sextets(4)]] a2b_strict_padding
      rejoin(1,4) [OF byte_less byte_less byte_less] by simp
next
  case (4 a b c s)
  show ?case
    unfolding b2a.simps a2b_strict_values [OF b64_chars(1,2) [OF sextets(1)]] a2b_strict_values [OF b64_chars(1,2) [OF sextets(3)]]
      a2b_strict_values [OF b64_chars(1,2) [OF sextets(5)]] a2b_strict_values [OF b64_chars(1,2) [OF sextets(6)]] 4
      rejoin(1,3,5) [OF byte_less byte_less byte_less] by simp
qed simp

lemma b64_decode_strict_encode: "b64_decode_strict (b64_encode s) = Some s"
proof -
  have "\<not> list_ex (\<lambda>c. 128 \<le> byte c) (b64_encode s)"
    using b64_encode_ascii [of s] by (auto simp: list_all_iff list_ex_iff)
  moreover have t: "b64_encode s @ replicate (nat (- int (length (b64_encode s)) mod 4)) CHR ''='' = b2a s"
    unfolding b64_encode_core by (rule b2a_padding [symmetric])
  moreover have "take 1 (b2a s) \<noteq> ''=''"
    by (cases s rule: b2a.cases) (simp_all add: b64_chars(2) [OF sextets(1)])
  ultimately show ?thesis by (simp add: b64_decode_strict_def a2b_strict_b2a)
qed

definition signing_response :: "signing_key \<Rightarrow> string \<Rightarrow> payload" where
  "signing_response key signature = [
     (''protocol'', JStr signing_protocol), (''algorithm'', JStr (sk_algorithm key)),
     (''key_id'', JStr (sk_key_id key)), (''signature_base64'', JStr (b64_encode signature))]"

text \<open>A signer that follows the protocol is understood.\<close>

lemma read_signature_response:
  assumes "length signature = 64" "utf8_ok out" "loads out = Some (JObj (signing_response key signature))"
  shows "read_signature key out = Inr signature"
proof -
  have "b64_encode signature \<noteq> []" using assms(1) by auto
  with assms b64_decode_strict_encode [of signature] show ?thesis
    by (auto simp: read_signature_def signing_response_def)
qed

section \<open>A host that follows the protocol\<close>

lemma loads_canonical_line: "json_ok (\<lambda>s. True) (JObj d) \<Longrightarrow> loads (canonical (JObj d) @ [LF]) = Some (JObj (sorted_payload d))"
proof -
  assume ok: "json_ok (\<lambda>s. True) (JObj d)"
  let ?v = "JObj (sorted_payload d)"
  have v: "sort_keys (JObj d) = ?v" by (rule sort_keys_JObj)
  obtain t where t: "render esc_raw ?v = CHR ''{'' # t" by simp
  have "raw.reads ?v" using raw.reads_json_ok [OF json_ok_sort_keys [OF ok]] unfolding v .
  note r = raw.readsD [OF this, of "Suc (length (render esc_raw ?v @ [LF]))" "[LF]"]
  have "skip_ws (render esc_raw ?v @ [LF]) = render esc_raw ?v @ [LF]" using t by (simp add: is_ws_def)
  moreover have "skip_ws [LF] = []" by (simp add: skip_ws_def is_ws_def)
  ultimately show ?thesis using r unfolding canonical_def v loads_def by (simp del: render.simps)
qed

text \<open>
  The other side of the protocol: a process that decodes the request, lets its host sign the payload with the key of
  that name, and answers on one line.
\<close>

definition protocol_signer :: "(string \<Rightarrow> string \<Rightarrow> string) \<Rightarrow> string \<Rightarrow> process_end" where
  "protocol_signer host input =
     (case loads input of
        Some (JObj d) \<Rightarrow>
          (case (map_of d ''key'', map_of d ''payload_base64'') of
             (Some (JObj k), Some (JStr m)) \<Rightarrow>
               (case (map_of k ''key_id'', map_of k ''algorithm'', b64_decode_strict m) of
                  (Some (JStr i), Some (JStr a), Some message) \<Rightarrow>
                    Exited 0 (json_line [(''protocol'', JStr signing_protocol), (''algorithm'', JStr a), (''key_id'', JStr i),
                      (''signature_base64'', JStr (b64_encode (host i message)))])
                | _ \<Rightarrow> Exited 1 [])
           | _ \<Rightarrow> Exited 1 [])
      | _ \<Rightarrow> Exited 1 [])"

lemma protocol_signer_answers:
  "protocol_signer host (signing_request key message) = Exited 0 (json_line (signing_response key (host (sk_key_id key) message)))"
proof -
  let ?k = "signing_key_to_dict key"
  let ?d = "[(''protocol'', JStr signing_protocol), (''key'', JObj ?k), (''payload_base64'', JStr (b64_encode message))]"
  have k: "json_ok (\<lambda>s. True) (JObj ?k)" by (simp add: signing_key_to_dict_def)
  then have d: "json_ok (\<lambda>s. True) (JObj ?d)" by simp
  note st = storedD [OF stored_sorted_payload [OF d]] storedD [OF stored_sorted_payload [OF k]]
  have "map_of (sorted_payload ?d) ''key'' = Some (JObj (sorted_payload ?k))"
    "map_of (sorted_payload ?d) ''payload_base64'' = Some (JStr (b64_encode message))"
    "map_of (sorted_payload ?k) ''key_id'' = Some (JStr (sk_key_id key))"
    "map_of (sorted_payload ?k) ''algorithm'' = Some (JStr (sk_algorithm key))"
    unfolding st by (simp_all add: signing_key_to_dict_def sort_keys_JObj del: sort_keys.simps(2))
  then show ?thesis
    using loads_canonical_line [OF d] b64_decode_strict_encode [of message]
    by (simp add: protocol_signer_def signing_request_def signing_response_def)
qed

text \<open>
  Signing by a command is the signature of the host. With a signing process that follows the protocol, a message
  within the limit is signed with what the host computes for exactly that message and that key, when the answer is within
  its limit and is a signature of 64 bytes; and nothing but 64 bytes is ever accepted as a signature.
\<close>

theorem command_sign_host:
  assumes "utf8_ok (sk_key_id key)" "utf8_ok (sk_algorithm key)" "int (length message) \<le> cp_max_payload p"
    and "int (length (json_line (signing_response key (host (sk_key_id key) message)))) \<le> cp_max_response p"
  shows "adapter_sign (command_sign p (\<lambda>_. protocol_signer host)) key message =
    (let s = host (sk_key_id key) message in
     if length s = 64 then Inr s else Inl (ValueError (if s = [] then ''must be base64 text'' else ''exactly 64 bytes'')))"
proof -
  let ?s = "host (sk_key_id key) message" and ?r = "signing_response key (host (sk_key_id key) message)"
  have j: "json_ok utf8_ok (JObj ?r)"
    using assms(1,2) utf8_ok_ascii [OF b64_encode_ascii [of ?s]]
    by (intro json_okI) (simp_all add: signing_response_def signing_protocol_def utf8_ok_ascii byte_def)
  have u: "utf8_ok (json_line ?r)" by (rule utf8_ok_ascii [OF printable_byte [OF json_line_printable [OF j]]])
  note st = storedD [OF stored_sorted_payload [OF json_ok_weaken [OF j]]]
  have look: "map_of (sorted_payload ?r) ''protocol'' = Some (JStr signing_protocol)"
    "map_of (sorted_payload ?r) ''algorithm'' = Some (JStr (sk_algorithm key))"
    "map_of (sorted_payload ?r) ''key_id'' = Some (JStr (sk_key_id key))"
    "map_of (sorted_payload ?r) ''signature_base64'' = Some (JStr (b64_encode ?s))"
    unfolding st by (simp_all add: signing_response_def)
  have keys: "fst ` set (sorted_payload ?r) = {''protocol'', ''algorithm'', ''key_id'', ''signature_base64''}"
    by (auto simp: sorted_payload_def signing_response_def)
  have "read_signature key (json_line ?r) = (if length ?s = 64 then Inr ?s
      else Inl (ValueError (if ?s = [] then ''must be base64 text'' else ''exactly 64 bytes'')))"
    using u look by (auto simp: read_signature_def loads_json_line [OF j] keys b64_decode_strict_encode)
  then show ?thesis
    unfolding adapter_over_command using assms(3,4)
    by (simp add: command_sign_def protocol_signer_answers Let_def)
qed

definition sample_signing_key :: signing_key where
  "sample_signing_key = \<lparr>sk_key_id = ''a'', sk_provider = ''hsm'', sk_algorithm = ''Ed25519'', sk_version = None, sk_public_key_digest = None\<rparr>"

lemma command_sign_host_witness:
  "adapter_sign (command_sign (default_command_provider [''sign'']) (\<lambda>_. protocol_signer (\<lambda>i m. replicate 64 CHR ''x''))) sample_signing_key ''m'' =
    Inr (replicate 64 CHR ''x'')"
proof -
  have "int (length (json_line (signing_response sample_signing_key (replicate 64 CHR ''x'')))) \<le> 4096" by code_simp
  moreover have "utf8_ok ''a''" "utf8_ok ''Ed25519''" by code_simp+
  ultimately show ?thesis
    using command_sign_host [of sample_signing_key "''m''" "default_command_provider [''sign'']" "\<lambda>i m. replicate 64 CHR ''x''"]
    by (simp add: sample_signing_key_def default_command_provider_def)
qed

end
