(* ===== verification/AttestationService.thy ===== *)
theory AttestationService
  imports AttestationHistory KeyManagement TrustHistory
begin

text \<open>
  \<open>services/reliability_attestation_service.py\<close>: attestations are built from a chain and a transition, signed by an
  external key, recorded with the trust state that was used, and verified against it. The signing adapter, PyNaCl,
  the clock and the offset of the local time zone are arguments.
\<close>

section \<open>Building\<close>

text \<open>\<open>astimezone(UTC)\<close>: a naive time is taken as local time, \<open>local t\<close> microseconds ahead of UTC.\<close>

definition astimezone_utc :: "(int \<Rightarrow> int) \<Rightarrow> datetime \<Rightarrow> datetime result" where
  "astimezone_utc local t =
     (let u = (if tz_aware t then instant t else instant t - local (instant t))
      in if in_range u then Inr (Aware u) else Inl (OverflowError ''date value out of range''))"

definition attestation_stable_id :: "string \<Rightarrow> chain \<Rightarrow> transition \<Rightarrow> string \<Rightarrow> string" where
  "attestation_stable_id subject_id c t occurred_at = sha256_hex (canonical_ascii (JObj [
     (''subject_id'', JStr subject_id),
     (''evidence_chain_digest'', JStr (chain_digest c)),
     (''transition_digest'', JStr (transition_digest t)),
     (''decision'', JStr (rc_decision c)),
     (''reliability_state'', JStr (rt_to_state t)),
     (''occurred_at'', JStr occurred_at)]))"

definition outcome_fields :: "chain \<Rightarrow> transition \<Rightarrow> string \<Rightarrow> string \<Rightarrow> string option \<Rightarrow> string \<Rightarrow> attestation" where
  "outcome_fields c t actor occurred signing_key_id previous =
     \<lparr>oa_attestation_id = attestation_stable_id (rt_subject_id t) c t occurred,
      oa_subject = rt_subject_id t, oa_occurred_at = occurred, oa_actor = actor,
      oa_chain_id = rc_chain_id c, oa_chain_digest = chain_digest c, oa_transition_id = rt_transition_id t,
      oa_transition_digest = transition_digest t, oa_reliability_state = rt_to_state t, oa_decision = rt_decision t,
      oa_verification_status = rc_verification_status c, oa_reconciliation_state = rc_reconciliation_state c,
      oa_rationale = (if rt_rationale t = [] then rc_decision_rationale c else rt_rationale t),
      oa_signing_key_id = signing_key_id, oa_previous = previous, oa_digest = []\<rparr>"

definition build_attestation ::
    "(int \<Rightarrow> int) \<Rightarrow> bool \<Rightarrow> datetime \<Rightarrow> string option \<Rightarrow> chain \<Rightarrow> transition \<Rightarrow> string \<Rightarrow> datetime option \<Rightarrow> string option \<Rightarrow>
     attestation result" where
  "build_attestation local acquired now store c t actor occurred_at signing_key_id =
     bindE (guards [
       (rt_evidence_chain_id t \<noteq> rc_chain_id c, ValueError ''not bound''),
       (rt_evidence_chain_digest t \<noteq> chain_digest c, ValueError ''digest does not match''),
       (blank (rt_subject_id t), ValueError ''subject_id'')]) (\<lambda>_.
     bindE (astimezone_utc local (opt_or occurred_at now)) (\<lambda>occurred.
     bindE (read_attestations acquired store) (\<lambda>records.
     make_attestation (outcome_fields c t actor (utc_iso occurred) signing_key_id (chain_tip records)))))"

definition attest_outcome ::
    "(int \<Rightarrow> int) \<Rightarrow> bool \<Rightarrow> datetime \<Rightarrow> string option \<Rightarrow> chain \<Rightarrow> transition \<Rightarrow> string \<Rightarrow> datetime option \<Rightarrow> string option \<Rightarrow>
     attestation result \<times> string option" where
  "attest_outcome local acquired now store c t actor occurred_at signing_key_id =
     (case build_attestation local acquired now store c t actor occurred_at signing_key_id of
        Inl e \<Rightarrow> (Inl e, store)
      | Inr a \<Rightarrow> attestation_append acquired store a)"

text \<open>\<open>verify_reliability_outcome_binding\<close>\<close>

definition verify_outcome_binding :: "attestation \<Rightarrow> chain \<Rightarrow> transition \<Rightarrow> unit result" where
  "verify_outcome_binding a c t = guards [
     (oa_chain_id a \<noteq> rc_chain_id c \<or> oa_chain_digest a \<noteq> chain_digest c, ValueError ''evidence-chain binding''),
     (oa_transition_id a \<noteq> rt_transition_id t \<or> oa_transition_digest a \<noteq> transition_digest t,
        ValueError ''transition binding''),
     (oa_subject a \<noteq> rt_subject_id t \<or> oa_reliability_state a \<noteq> rt_to_state t \<or> oa_decision a \<noteq> rt_decision t,
        ValueError ''outcome binding''),
     (oa_verification_status a \<noteq> rc_verification_status c \<or> oa_reconciliation_state a \<noteq> rc_reconciliation_state c,
        ValueError ''verification/reconciliation binding''),
     (oa_digest a \<noteq> attestation_digest a, ValueError ''digest verification'')]"

definition write_attestation :: "attestation \<Rightarrow> string \<Rightarrow> files \<Rightarrow> files" where
  "write_attestation a path fs = fs(path \<mapsto> indented (JObj (attestation_to_dict a)))"

definition load_attestation :: "files \<Rightarrow> string \<Rightarrow> attestation result" where
  "load_attestation fs path =
     (case fs path of
        None \<Rightarrow> Inl (FileNotFoundError path)
      | Some b \<Rightarrow>
          if \<not> utf8_ok b then Inl (UnicodeDecodeError path)
          else case loads b of
              None \<Rightarrow> Inl (JSONDecodeError path)
            | Some (JObj d) \<Rightarrow> attestation_from_dict d
            | Some _ \<Rightarrow> Inl (ValueError ''root must be an object''))"

section \<open>Signing and verifying\<close>

definition create_signed_envelope :: "attestation \<Rightarrow> string \<Rightarrow> string \<Rightarrow> envelope result" where
  "create_signed_envelope a key_id signature = construct envelope_post_init
     \<lparr>en_algorithm = ''Ed25519'', en_key_id = key_id, en_attestation = attestation_to_dict a,
      en_payload_digest = digest_of (attestation_to_dict a), en_signature = b64_encode signature\<rparr>"

definition envelope_key :: "(string, string) dict \<Rightarrow> trust_state option \<Rightarrow> envelope \<Rightarrow> string result" where
  "envelope_key keys trust e =
     (case trust of
        Some s \<Rightarrow>
          bindE (signing_key_status s (en_key_id e)) (\<lambda>anchor.
          bindE (guards [(map_of keys (ta_key_id anchor) \<noteq> Some (ta_public_key anchor), ValueError ''trust key mismatch'')]) (\<lambda>_.
          Inr (ta_public_key anchor)))
      | None \<Rightarrow> (case map_of keys (en_key_id e) of None \<Rightarrow> Inl (ValueError ''unknown signing key'') | Some k \<Rightarrow> Inr k))"

definition verify_signed_envelope ::
    "nacl \<Rightarrow> (string, string) dict \<Rightarrow> trust_state option \<Rightarrow> envelope \<Rightarrow> attestation result" where
  "verify_signed_envelope nacl keys trust e =
     bindE (envelope_key keys trust e) (\<lambda>public_key.
     bindE (b64_decode ValueError (en_signature e)) (\<lambda>signature.
     bindE (case verify_ed25519_signature nacl public_key (envelope_bytes e) signature of
         Inr _ \<Rightarrow> Inr ()
       | Inl x \<Rightarrow> Inl (if is_value_error x then ValueError ''signature verification failed'' else x)) (\<lambda>_.
     bindE (attestation_from_dict (en_attestation e)) (\<lambda>a.
     bindE (guards [(oa_signing_key_id a \<noteq> Some (en_key_id e), ValueError ''signing_key_id'')]) (\<lambda>_. Inr a)))))"

definition trusted_keys :: "trust_state \<Rightarrow> (string, string) dict" where
  "trusted_keys s = dict_of (map (\<lambda>a. (ta_key_id a, ta_public_key a)) (ts_anchors s))"

definition decimal :: "int \<Rightarrow> string" where
  "decimal i = py_str (JInt i)"

definition build_trust_context ::
    "nacl \<Rightarrow> trust_state \<Rightarrow> (string, string) dict \<Rightarrow> envelope \<Rightarrow> string option \<Rightarrow> string option \<Rightarrow> string option \<Rightarrow>
     trust_context result" where
  "build_trust_context nacl s authorities e envelope_id state_id authority_id =
     bindE (verify_trust_state nacl authorities s) (\<lambda>_.
     bindE (verify_signed_envelope nacl (trusted_keys s) (Some s) e) (\<lambda>a.
     bindE (signing_key_status s (en_key_id e)) (\<lambda>anchor.
     bindE (case map_of authorities (ts_authority_key_id s) of
         None \<Rightarrow> Inl (ValueError ''authority key is absent'') | Some k \<Rightarrow> Inr k) (\<lambda>authority_key.
     construct context_post_init
       \<lparr>cx_format_version = ''1'',
        cx_envelope_artifact_id =
          (if opt_or envelope_id [] = [] then ''attestation-envelope:'' @ oa_attestation_id a else opt_or envelope_id []),
        cx_envelope_digest = digest_of (envelope_to_dict e), cx_attestation_id = oa_attestation_id a,
        cx_attestation_digest = oa_digest a, cx_signing_key_id = en_key_id e,
        cx_signing_key_digest = sha256_hex (ta_public_key anchor),
        cx_state_artifact_id =
          (if opt_or state_id [] = [] then ''attestation-trust-state:'' @ decimal (ts_version s) @ '':'' @ trust_state_digest s
           else opt_or state_id []),
        cx_state_digest = trust_state_digest s, cx_state_version = ts_version s,
        cx_authority_artifact_id =
          (if opt_or authority_id [] = [] then ''attestation-authority:'' @ ts_authority_key_id s else opt_or authority_id []),
        cx_authority_key_id = ts_authority_key_id s, cx_authority_key_digest = sha256_hex authority_key\<rparr>))))"

definition verify_trust_context ::
    "nacl \<Rightarrow> trust_state \<Rightarrow> (string, string) dict \<Rightarrow> signed_binding \<Rightarrow> attestation result" where
  "verify_trust_context nacl s authorities b =
     (let c = sb_context b in
      bindE (guards [
        (ts_version s \<noteq> cx_state_version c, ValueError ''version mismatch''),
        (trust_state_digest s \<noteq> cx_state_digest c, ValueError ''trust-state digest mismatch''),
        (ts_authority_key_id s \<noteq> cx_authority_key_id c, ValueError ''authority identity mismatch'')]) (\<lambda>_.
      bindE (case map_of authorities (cx_authority_key_id c) of
          None \<Rightarrow> Inl (ValueError ''authority key is absent'') | Some k \<Rightarrow> Inr k) (\<lambda>authority_key.
      bindE (guards [(sha256_hex authority_key \<noteq> cx_authority_key_digest c, ValueError ''authority key digest mismatch'')]) (\<lambda>_.
      bindE (verify_trust_state nacl authorities s) (\<lambda>_.
      bindE (signing_key_status s (cx_signing_key_id c)) (\<lambda>anchor.
      bindE (guards [(sha256_hex (ta_public_key anchor) \<noteq> cx_signing_key_digest c, ValueError ''signing key digest mismatch'')]) (\<lambda>_.
      verify_signed_envelope nacl (trusted_keys s) (Some s) (sb_envelope b))))))))"

text \<open>The states of the recorded version and digest; two that differ conflict.\<close>

fun resolve_state :: "trust_context \<Rightarrow> trust_state option \<Rightarrow> trust_state list \<Rightarrow> trust_state result" where
  "resolve_state c resolved [] = (case resolved of None \<Rightarrow> Inl (ValueError ''unavailable'') | Some s \<Rightarrow> Inr s)"
| "resolve_state c resolved (s # rest) =
     (if (ts_version s, trust_state_digest s) \<noteq> (cx_state_version c, cx_state_digest c) then resolve_state c resolved rest
      else case resolved of
          None \<Rightarrow> resolve_state c (Some s) rest
        | Some r \<Rightarrow>
            if trust_state_to_dict r \<noteq> trust_state_to_dict s then Inl (ValueError ''conflicting trust states'')
            else resolve_state c (Some s) rest)"

definition resolve_trust_state :: "signed_binding \<Rightarrow> trust_state list \<Rightarrow> trust_state result" where
  "resolve_trust_state b states = resolve_state (sb_context b) None states"

definition verify_persisted ::
    "nacl \<Rightarrow> bool \<Rightarrow> string option \<Rightarrow> trust_state list \<Rightarrow> (string, string) dict \<Rightarrow> attestation \<Rightarrow> signed_binding result" where
  "verify_persisted nacl acquired store states authorities a =
     bindE (read_signed_bindings acquired store) (\<lambda>bindings.
     case filter (\<lambda>b. oa_attestation_id (attested b) = oa_attestation_id a) bindings of
       [] \<Rightarrow> Inl (ValueError ''binding not found'')
     | [b] \<Rightarrow>
         bindE (guards [(attested b \<noteq> a, ValueError ''does not match'')]) (\<lambda>_.
         bindE (resolve_trust_state b states) (\<lambda>s.
         bindE (verify_trust_context nacl s authorities b) (\<lambda>verified.
         bindE (guards [(verified \<noteq> a, ValueError ''identity/content mismatch'')]) (\<lambda>_. Inr b))))
     | _ \<Rightarrow> Inl (ValueError ''multiple bindings''))"

definition record_signed ::
    "nacl \<Rightarrow> bool \<Rightarrow> string option \<Rightarrow> trust_state \<Rightarrow> (string, string) dict \<Rightarrow> envelope \<Rightarrow> signed_binding result \<times> string option" where
  "record_signed nacl acquired store s authorities e =
     (case bindE (build_trust_context nacl s authorities e None None None) (\<lambda>c.
         construct signed_binding_post_init \<lparr>sb_envelope = e, sb_context = c\<rparr>) of
        Inl x \<Rightarrow> (Inl x, store)
      | Inr b \<Rightarrow> append_signed acquired store b)"

definition sign_and_record ::
    "nacl \<Rightarrow> bool \<Rightarrow> string option \<Rightarrow> signer \<Rightarrow> signing_key \<Rightarrow> trust_state \<Rightarrow>
     (string, string) dict \<Rightarrow> attestation \<Rightarrow> signed_binding result \<times> string option" where
  "sign_and_record nacl acquired store sign key s authorities a =
     (case bindE (guards [(oa_signing_key_id a \<noteq> Some (sk_key_id key), ValueError ''signing_key_id'')]) (\<lambda>_.
         bindE (verify_trust_state nacl authorities s) (\<lambda>_.
         bindE (signing_key_status s (sk_key_id key)) (\<lambda>anchor.
         bindE (guards [(case sk_public_key_digest key of None \<Rightarrow> False | Some d \<Rightarrow> d \<noteq> sha256_hex (ta_public_key anchor),
           ValueError ''key digest'')]) (\<lambda>_.
         bindE (create_signed_envelope a (sk_key_id key) ''placeholder'') (\<lambda>placeholder.
         bindE (adapter_sign sign key (envelope_bytes placeholder)) (\<lambda>signature.
         create_signed_envelope a (sk_key_id key) signature)))))) of
        Inl x \<Rightarrow> (Inl x, store)
      | Inr e \<Rightarrow> record_signed nacl acquired store s authorities e)"

definition attest_signed ::
    "(int \<Rightarrow> int) \<Rightarrow> nacl \<Rightarrow> bool \<Rightarrow> datetime \<Rightarrow> string option \<Rightarrow> signer \<Rightarrow> signing_key \<Rightarrow>
     trust_state \<Rightarrow> (string, string) dict \<Rightarrow> chain \<Rightarrow> transition \<Rightarrow> string \<Rightarrow> datetime option \<Rightarrow>
     signed_binding result \<times> string option" where
  "attest_signed local nacl acquired now store sign key s authorities c t actor occurred_at =
     (case build_attestation local acquired now store c t actor occurred_at (Some (sk_key_id key)) of
        Inl x \<Rightarrow> (Inl x, store)
      | Inr a \<Rightarrow> sign_and_record nacl acquired store sign key s authorities a)"

section \<open>What is built and verified\<close>

lemma build_attestation_InrE:
  assumes "build_attestation local acquired now store c t actor occurred_at k = Inr a"
  obtains R u where "rt_evidence_chain_id t = rc_chain_id c" "rt_evidence_chain_digest t = chain_digest c"
    "\<not> blank (rt_subject_id t)" "astimezone_utc local (opt_or occurred_at now) = Inr u" "read_attestations acquired store = Inr R"
    "make_attestation (outcome_fields c t actor (utc_iso u) k (chain_tip R)) = Inr a"
  using assms unfolding build_attestation_def by (elim bindE_InrE) simp

lemma build_attestation_bound:
  assumes "build_attestation local acquired now store c t actor occurred_at k = Inr a"
  shows "attestation_ok a" "verify_outcome_binding a c t = Inr ()"
proof -
  obtain R u where g: "rt_evidence_chain_id t = rc_chain_id c" "rt_evidence_chain_digest t = chain_digest c"
    and m: "make_attestation (outcome_fields c t actor (utc_iso u) k (chain_tip R)) = Inr a"
    by (rule build_attestation_InrE [OF assms])
  show ok: "attestation_ok a" by (rule make_attestation_ok [OF m])
  have "oa_chain_id a = rc_chain_id c" "oa_chain_digest a = chain_digest c" "oa_transition_id a = rt_transition_id t"
    "oa_transition_digest a = transition_digest t" "oa_subject a = rt_subject_id t" "oa_reliability_state a = rt_to_state t"
    "oa_decision a = rt_decision t" "oa_verification_status a = rc_verification_status c"
    "oa_reconciliation_state a = rc_reconciliation_state c"
    using m by (simp_all add: make_attestation_Inr outcome_fields_def)
  then show "verify_outcome_binding a c t = Inr ()"
    using ok by (simp add: verify_outcome_binding_def attestation_ok_def)
qed

lemma create_signed_envelope_Inr:
  assumes "create_signed_envelope a k signature = Inr e"
  shows "en_attestation e = attestation_to_dict a" "en_key_id e = k" "en_signature e = b64_encode signature"
    "envelope_post_init e = Inr ()"
  using assms by (auto simp: create_signed_envelope_def construct_Inr_iff)

definition sort_envelope :: "envelope \<Rightarrow> envelope" where
  "sort_envelope e = e\<lparr>en_attestation := sorted_payload (en_attestation e)\<rparr>"

lemma sort_envelope_fields [simp]:
  "en_algorithm (sort_envelope e) = en_algorithm e" "en_key_id (sort_envelope e) = en_key_id e"
  "en_payload_digest (sort_envelope e) = en_payload_digest e" "en_signature (sort_envelope e) = en_signature e"
  by (simp_all add: sort_envelope_def)

lemma sort_binding_envelope: "sort_binding b = b\<lparr>sb_envelope := sort_envelope (sb_envelope b)\<rparr>"
  by (simp add: sort_binding_def sort_envelope_def)

lemma envelope_bytes_sort:
  assumes "json_ok (\<lambda>s. True) (JObj (en_attestation e))"
  shows "envelope_bytes (sort_envelope e) = envelope_bytes e"
  using sort_keys_idem [OF assms]
  by (simp add: envelope_bytes_def envelope_payload_def canonical_def sort_envelope_def sort_keys_JObj sorted_payload_def
      del: sort_keys.simps(2))

lemma verify_signed_envelope_sort:
  assumes "attestation_ok a" "en_attestation e = attestation_to_dict a"
  shows "verify_signed_envelope nacl keys trust (sort_envelope e) = verify_signed_envelope nacl keys trust e"
proof -
  have "attestation_from_dict (en_attestation (sort_envelope e)) = attestation_from_dict (en_attestation e)"
    using attestation_from_stored [OF assms(1) stored_sorted_payload [OF json_ok_attestation(2)]]
      attestation_from_stored [OF assms(1) attestation_stored_self] by (simp add: sort_envelope_def assms(2))
  moreover have "envelope_bytes (sort_envelope e) = envelope_bytes e" by (rule envelope_bytes_sort) (simp add: assms(2))
  ultimately show ?thesis unfolding verify_signed_envelope_def envelope_key_def sort_envelope_fields by (simp only:)
qed

lemma verify_trust_state_Inr: "verify_trust_state nacl authorities s = Inr x \<Longrightarrow> x = s"
  by (auto simp: verify_trust_state_def split: option.splits sum.splits if_splits)

lemma build_trust_context_InrE:
  assumes "build_trust_context nacl s authorities e i j k = Inr c"
  obtains a anchor authority where "verify_trust_state nacl authorities s = Inr s"
      "verify_signed_envelope nacl (trusted_keys s) (Some s) e = Inr a" "signing_key_status s (en_key_id e) = Inr anchor"
      "map_of authorities (ts_authority_key_id s) = Some authority"
    and "cx_state_version c = ts_version s" "cx_state_digest c = trust_state_digest s"
      "cx_authority_key_id c = ts_authority_key_id s" "cx_authority_key_digest c = sha256_hex authority"
      "cx_signing_key_id c = en_key_id e" "cx_signing_key_digest c = sha256_hex (ta_public_key anchor)"
proof -
  obtain x a anchor authority v where v: "verify_trust_state nacl authorities s = Inr x"
      "verify_signed_envelope nacl (trusted_keys s) (Some s) e = Inr a" "signing_key_status s (en_key_id e) = Inr anchor"
    and m: "(case map_of authorities (ts_authority_key_id s) of None \<Rightarrow> Inl (ValueError v) | Some k \<Rightarrow> Inr k) = Inr authority"
    and c: "cx_state_version c = ts_version s" "cx_state_digest c = trust_state_digest s"
      "cx_authority_key_id c = ts_authority_key_id s" "cx_authority_key_digest c = sha256_hex authority"
      "cx_signing_key_id c = en_key_id e" "cx_signing_key_digest c = sha256_hex (ta_public_key anchor)"
    using assms unfolding build_trust_context_def by (elim bindE_InrE) (simp add: construct_Inr_iff)
  from m have "map_of authorities (ts_authority_key_id s) = Some authority" by (simp split: option.splits)
  with v verify_trust_state_Inr [OF v(1)] c show thesis using that by simp
qed

text \<open>What was bound verifies, also with the keys of the envelope sorted.\<close>

lemma built_context_verifies:
  assumes "build_trust_context nacl s authorities e None None None = Inr c"
    and "attestation_ok a" "en_attestation e = attestation_to_dict a"
  shows "verify_trust_context nacl s authorities \<lparr>sb_envelope = sort_envelope e, sb_context = c\<rparr> = Inr a"
proof -
  obtain a' anchor authority where b: "verify_trust_state nacl authorities s = Inr s"
      "verify_signed_envelope nacl (trusted_keys s) (Some s) e = Inr a'" "signing_key_status s (en_key_id e) = Inr anchor"
      "map_of authorities (ts_authority_key_id s) = Some authority"
    and c: "cx_state_version c = ts_version s" "cx_state_digest c = trust_state_digest s"
      "cx_authority_key_id c = ts_authority_key_id s" "cx_authority_key_digest c = sha256_hex authority"
      "cx_signing_key_id c = en_key_id e" "cx_signing_key_digest c = sha256_hex (ta_public_key anchor)"
    by (rule build_trust_context_InrE [OF assms(1)])
  have "a' = a"
    using b(2) attestation_from_stored [OF assms(2) attestation_stored_self]
    by (auto simp: verify_signed_envelope_def bindE_eq_Inr_iff assms(3))
  then show ?thesis
    using b verify_signed_envelope_sort [OF assms(2,3), of nacl "trusted_keys s" "Some s"]
    by (simp add: verify_trust_context_def c)
qed

section \<open>Signatures are found again\<close>

lemma sigs_from:
  "entries_ok R B es \<Longrightarrow> c \<in> set (sigs es) \<Longrightarrow> \<exists>d. c = sort_binding d \<and> binding_ok d \<and> attested d \<in> set (R @ atts es)"
proof (induction es arbitrary: R B)
  case (Cons e es)
  then show ?case
  proof (cases e)
    case (Inr d)
    with Cons show ?thesis by fastforce
  qed fastforce
qed simp

lemma sigs_distinct:
  "entries_ok R B es \<Longrightarrow> distinct (map (\<lambda>b. oa_attestation_id (attested b)) B) \<Longrightarrow>
   distinct (map (\<lambda>b. oa_attestation_id (attested b)) (B @ sigs es))"
proof (induction es arbitrary: R B)
  case (Cons e es)
  then show ?case
  proof (cases e)
    case (Inl a)
    with Cons.IH [of "R @ [a]" B] Cons.prems show ?thesis by simp
  next
    case (Inr d)
    with Cons.prems have "distinct (map (\<lambda>b. oa_attestation_id (attested b)) (B @ [sort_binding d]))" by simp
    with Cons.IH [of R "B @ [sort_binding d]"] Cons.prems Inr show ?thesis by simp
  qed
qed simp

lemma filter_unique: "distinct (map f xs) \<Longrightarrow> x \<in> set xs \<Longrightarrow> filter (\<lambda>y. f y = f x) xs = [x]"
proof (induction xs)
  case (Cons y xs)
  then show ?case
    by (cases "x = y") (auto simp: filter_empty_conv image_iff dest: sym)
qed simp

lemma verify_persisted_found:
  assumes "represents_entries content es" "b \<in> set (sigs es)" "attested b = a"
  shows "verify_persisted nacl True content states authorities a =
    bindE (resolve_trust_state b states) (\<lambda>s.
    bindE (verify_trust_context nacl s authorities b) (\<lambda>verified.
    bindE (guards [(verified \<noteq> a, ValueError ''identity/content mismatch'')]) (\<lambda>_. Inr b)))"
proof -
  have "distinct (map (\<lambda>b. oa_attestation_id (attested b)) (sigs es))"
    using sigs_distinct [of "[]" "[]" es] assms(1) by (auto simp: represents_entries_def)
  from filter_unique [OF this assms(2)] show ?thesis
    using read_represented [OF assms(1)] by (simp add: verify_persisted_def read_signed_bindings_def assms(3))
qed

lemma resolve_state_unique:
  assumes "s \<in> set states" "cx_state_version c = ts_version s" "cx_state_digest c = trust_state_digest s"
    and "\<forall>t \<in> set states. ts_version t = ts_version s \<and> trust_state_digest t = trust_state_digest s \<longrightarrow> t = s"
  shows "resolve_state c None states = Inr s"
proof -
  have "resolved \<in> {None, Some s} \<Longrightarrow> resolved = Some s \<or> s \<in> set ts \<Longrightarrow> set ts \<subseteq> set states \<Longrightarrow>
      resolve_state c resolved ts = Inr s" for resolved ts
  proof (induction ts arbitrary: resolved)
    case (Cons t ts)
    show ?case
    proof (cases "ts_version t = ts_version s \<and> trust_state_digest t = trust_state_digest s")
      case True
      with Cons.prems assms(4) have "t = s" by auto
      with Cons.IH [of "Some s"] Cons.prems show ?thesis by (auto simp: assms(2,3))
    next
      case False
      with Cons.prems have "resolved = Some s \<or> s \<in> set ts" by auto
      with Cons.IH [of resolved] Cons.prems False show ?thesis by (auto simp: assms(2,3))
    qed
  qed auto
  from this [of None states] assms(1) show ?thesis by simp
qed

lemma same_binding_sorted:
  assumes "same_binding (sort_binding d) b" "binding_ok d" "attested d = a" "en_attestation (sb_envelope b) = attestation_to_dict a"
  shows "sort_binding d = sort_binding b"
proof -
  let ?e = "sb_envelope d" and ?f = "sb_envelope b"
  have en: "en_attestation ?e = attestation_to_dict a" using assms(2,3) by (simp add: binding_ok_def)
  have c: "sb_context d = sb_context b"
    and k: "sort_keys (JObj (envelope_to_dict (sort_envelope ?e))) = sort_keys (JObj (envelope_to_dict ?f))"
    using assms(1) by (simp_all add: same_binding_def sort_binding_envelope)
  have j: "json_ok (\<lambda>s. True) (JObj (envelope_to_dict ?f))" by (rule json_ok_envelope) (simp add: assms(4))
  have j2: "json_ok (\<lambda>s. True) (JObj (envelope_to_dict (sort_envelope ?e)))"
    using json_ok_sorted_payload [OF json_ok_attestation(2)] by (intro json_ok_envelope) (simp add: sort_envelope_def en)
  have same: "map_option sort_keys (map_of (envelope_to_dict (sort_envelope ?e)) i) = map_option sort_keys (map_of (envelope_to_dict ?f) i)"
    for i
    using k storedD [OF stored_sorted_payload [OF j]] storedD [OF stored_sorted_payload [OF j2]] by (simp add: sort_keys_JObj del: sort_keys.simps(2))
  have "en_algorithm ?e = en_algorithm ?f" "en_key_id ?e = en_key_id ?f"
    "en_payload_digest ?e = en_payload_digest ?f" "en_signature ?e = en_signature ?f"
    using same [of "''algorithm''"] same [of "''key_id''"] same [of "''payload_digest''"] same [of "''signature''"]
    by (simp_all add: envelope_to_dict_def)
  then have "sort_envelope ?e = sort_envelope ?f"
    by (simp add: sort_envelope_def en assms(4))
  with c show ?thesis by (simp add: sort_binding_envelope)
qed

lemma sort_binding_idem: "binding_ok b \<Longrightarrow> sort_binding (sort_binding b) = sort_binding b"
proof -
  assume "binding_ok b"
  then have j: "json_ok (\<lambda>s. True) (JObj (en_attestation (sb_envelope b)))" by (simp add: binding_ok_def)
  have "sorted_payload (sorted_payload (en_attestation (sb_envelope b))) = sorted_payload (en_attestation (sb_envelope b))"
    using sort_keys_idem [OF j] by (simp add: sort_keys_JObj del: sort_keys.simps(2))
  then show ?thesis by (simp add: sort_binding_def)
qed

text \<open>A signature that is there already is the one that is asked for, with sorted keys.\<close>

lemma signed_spec_existing:
  assumes "represents_entries content es" "binding_ok b" "signed_spec (atts es) (sigs es) b = Inr (Inl c)"
  shows "c \<in> set (sigs es)" "c = sort_binding b"
proof -
  have ok: "entries_ok [] [] es" using assms(1) by (simp add: represents_entries_def)
  have f: "find_first (\<lambda>c. oa_attestation_id (attested c) = oa_attestation_id (attested b)) (sigs es) = Some c"
    and same: "same_binding c b"
    and known: "oa_attestation_id (attested b) \<in> oa_attestation_id ` set (atts es) \<Longrightarrow> attested b \<in> set (atts es)"
    using assms(3) by (auto simp: signed_spec_def Let_def split: if_splits option.splits)
  from find_first_Some [OF f] have c: "c \<in> set (sigs es)" "oa_attestation_id (attested c) = oa_attestation_id (attested b)"
    by simp_all
  then show "c \<in> set (sigs es)" by simp
  obtain e where e: "c = sort_binding e" "binding_ok e" "attested e \<in> set (atts es)"
    using sigs_from [OF ok c(1)] by auto
  have i: "oa_attestation_id (attested e) = oa_attestation_id (attested b)" using c(2) e by simp
  then have "attested b \<in> set (atts es)" using known e(3) by (metis imageI)
  then have "attested e = attested b" using i e(3) represents_distinct [OF assms(1)] by (metis find_by_id option.inject)
  then show "c = sort_binding b"
    using same_binding_sorted [of e b "attested b"] same e assms(2) by (simp add: binding_ok_def)
qed

lemma append_signed_answer:
  assumes "represents_entries content es" "binding_ok b" "append_signed True content b = (Inr b', content')"
  shows "b' \<in> {b, sort_binding b}"
  using append_signed_until_spec [OF assms(1), of None b, folded append_signed_def, unfolded assms(3)]
    signed_spec_existing [OF assms(1,2)]
  by (auto split: sum.splits)

lemma append_signed_found:
  assumes "represents_entries content es" "binding_ok b" "append_signed True content b = (Inr b', content')"
    and "b' = b \<longrightarrow> signable b"
  shows "\<exists>es'. represents_entries content' es' \<and> sort_binding b \<in> set (sigs es')"
proof -
  note d = represents_distinct [OF assms(1)]
  note spec = append_signed_until_spec [OF assms(1), of None b, folded append_signed_def, unfolded assms(3)]
  show ?thesis
  proof (cases "signed_spec (atts es) (sigs es) b")
    case (Inr r)
    show ?thesis
    proof (cases r)
      case (Inl c)
      with \<open>signed_spec (atts es) (sigs es) b = Inr r\<close> have r: "signed_spec (atts es) (sigs es) b = Inr (Inl c)" by simp
      with spec signed_spec_existing [OF assms(1,2) r] assms(1) show ?thesis by auto
    next
      case (Inr fs)
      have r: "signed_spec (atts es) (sigs es) b = Inr (Inr fs)" using \<open>signed_spec (atts es) (sigs es) b = Inr r\<close> Inr by simp
      with spec have b': "b' = b" "content' = Some (opt_or content [] @ entries_file fs)" by simp_all
      with assms(4) have s: "signable b" by simp
      have "represents_entries content' (es @ fs)"
        using represents_add [OF assms(1) signed_spec_new(2) [OF r s d]] b'(2) by simp
      moreover have "sort_binding b \<in> set (sigs (es @ fs))" by (simp add: signed_spec_new(1) [OF r s d] missing_def)
      ultimately show ?thesis by blast
    qed
  qed (use spec in simp)
qed

lemma resolve_state_Inr:
  "resolve_state c resolved states = Inr s \<Longrightarrow>
   resolved = Some s \<or> s \<in> set states \<and> ts_version s = cx_state_version c \<and> trust_state_digest s = cx_state_digest c"
  by (induction c resolved states rule: resolve_state.induct) (auto split: option.splits if_splits)

lemma sign_and_record_Inr:
  assumes "sign_and_record nacl True content sign key s authorities a = (Inr b', content')" "attestation_ok a"
  obtains e c where "en_attestation e = attestation_to_dict a" "binding_ok \<lparr>sb_envelope = e, sb_context = c\<rparr>"
    "build_trust_context nacl s authorities e None None None = Inr c"
    "attested \<lparr>sb_envelope = e, sb_context = c\<rparr> = a"
    "append_signed True content \<lparr>sb_envelope = e, sb_context = c\<rparr> = (Inr b', content')"
proof -
  obtain e sig where e: "create_signed_envelope a (sk_key_id key) sig = Inr e"
    and r: "record_signed nacl True content s authorities e = (Inr b', content')"
    using assms(1) unfolding sign_and_record_def by (auto simp: bindE_eq_Inr_iff split: sum.splits)
  from r obtain c where c: "build_trust_context nacl s authorities e None None None = Inr c"
    and p: "signed_binding_post_init \<lparr>sb_envelope = e, sb_context = c\<rparr> = Inr ()"
    and ap: "append_signed True content \<lparr>sb_envelope = e, sb_context = c\<rparr> = (Inr b', content')"
    unfolding record_signed_def by (auto simp: bindE_eq_Inr_iff construct_Inr_iff split: sum.splits)
  note en = create_signed_envelope_Inr [OF e]
  have cx: "context_post_init c = Inr ()"
    using c unfolding build_trust_context_def by (elim bindE_InrE) (simp add: construct_Inr_iff)
  have at: "attested \<lparr>sb_envelope = e, sb_context = c\<rparr> = a"
    using attestation_from_stored [OF assms(2) attestation_stored_self] by (simp add: attested_def en(1))
  have "binding_ok \<lparr>sb_envelope = e, sb_context = c\<rparr>"
    using assms(2) at en(1,4) cx p by (simp add: binding_ok_def)
  with that en(1) c at ap show thesis by blast
qed

lemma recorded_verifies:
  assumes "represents_entries content es" "attestation_ok a"
    and "sign_and_record nacl True content sign key s authorities a = (Inr b, content')"
    and "attestation_text a" "binding_text b"
    and "s \<in> set states" "\<forall>t \<in> set states. ts_version t = ts_version s \<and> trust_state_digest t = trust_state_digest s \<longrightarrow> t = s"
  shows "attested b = a \<and> verify_persisted nacl True content' states authorities a = Inr (sort_binding b)"
proof -
  obtain e c where e: "en_attestation e = attestation_to_dict a" and ok: "binding_ok \<lparr>sb_envelope = e, sb_context = c\<rparr>"
    and c: "build_trust_context nacl s authorities e None None None = Inr c"
    and at: "attested \<lparr>sb_envelope = e, sb_context = c\<rparr> = a"
    and ap: "append_signed True content \<lparr>sb_envelope = e, sb_context = c\<rparr> = (Inr b, content')"
    by (rule sign_and_record_Inr [OF assms(3,2)])
  let ?b = "\<lparr>sb_envelope = e, sb_context = c\<rparr>"
  have "b = ?b \<longrightarrow> signable ?b" using ok assms(4,5) at by (auto simp: signable_def)
  from append_signed_found [OF assms(1) ok ap this] obtain es' where
    es': "represents_entries content' es'" "sort_binding ?b \<in> set (sigs es')" by blast
  have b: "b \<in> {?b, sort_binding ?b}" by (rule append_signed_answer [OF assms(1) ok ap])
  have sorted: "sort_binding b = sort_binding ?b" "attested b = a" using b sort_binding_idem [OF ok] ok at by auto
  have cx: "cx_state_version c = ts_version s" "cx_state_digest c = trust_state_digest s"
    using c by (auto elim: build_trust_context_InrE)
  have "resolve_trust_state (sort_binding ?b) states = Inr s"
    using resolve_state_unique [OF assms(6) cx assms(7)] by (simp add: resolve_trust_state_def sort_binding_def)
  moreover have "verify_trust_context nacl s authorities (sort_binding ?b) = Inr a"
    using built_context_verifies [OF c assms(2) e] by (simp add: sort_binding_envelope)
  ultimately show ?thesis
    using verify_persisted_found [OF es', of a nacl states authorities] ok at sorted by simp
qed

text \<open>
  C11: what \<open>attest_signed_reliability_outcome\<close> records can be verified. On a store that holds attestations and
  signatures, a call that succeeds binds the outcome to the chain and the transition it was made for, and
  \<open>verify_persisted_signed_reliability_outcome\<close> finds its signature again among any trust states that
  contain the one that was used, when no other has its version and digest.
\<close>

theorem attest_signed_verifies:
  assumes "represents_entries content es"
    and "attest_signed local nacl True now content sign key s authorities c t actor occurred_at = (Inr b, content')"
    and "attestation_text (attested b)" "binding_text b"
    and "s \<in> set states" "\<forall>u \<in> set states. ts_version u = ts_version s \<and> trust_state_digest u = trust_state_digest s \<longrightarrow> u = s"
  shows "verify_outcome_binding (attested b) c t = Inr () \<and>
    verify_persisted nacl True content' states authorities (attested b) = Inr (sort_binding b)"
proof -
  obtain a where a: "build_attestation local True now content c t actor occurred_at (Some (sk_key_id key)) = Inr a"
    and r: "sign_and_record nacl True content sign key s authorities a = (Inr b, content')"
    using assms(2) by (auto simp: attest_signed_def split: sum.splits)
  note ok = build_attestation_bound(1,2) [OF a]
  have at: "attested b = a"
  proof -
    from sign_and_record_Inr [OF r ok(1)] obtain e d where
      "binding_ok \<lparr>sb_envelope = e, sb_context = d\<rparr>" "attested \<lparr>sb_envelope = e, sb_context = d\<rparr> = a"
      "append_signed True content \<lparr>sb_envelope = e, sb_context = d\<rparr> = (Inr b, content')" by blast
    with append_signed_answer [OF assms(1) this(1,3)] show ?thesis by auto
  qed
  then show ?thesis
    using recorded_verifies [OF assms(1) ok(1) r _ assms(4,5,6)] assms(3) ok(2) by simp
qed

lemma verify_ed25519_Inr:
  "verify_ed25519_signature nacl k m s = Inr u \<longleftrightarrow> (\<exists>check. nacl = Some check \<and> check k m s)"
  by (cases nacl) (simp_all add: verify_ed25519_signature_def)

lemma caught_Inr: "(case m of Inr v \<Rightarrow> Inr () | Inl x \<Rightarrow> Inl (f x)) = Inr u \<longleftrightarrow> (\<exists>v. m = Inr v)"
  by (cases m) simp_all

text \<open>
  C9: a persisted signature that verifies is authentic. \<open>verify_persisted_signed_reliability_outcome\<close> answers only
  with a signature for exactly the given attestation, under one of the given trust states: the one of the recorded
  version and digest, which the recorded authority key has signed, and in which the key of the signature is active; the
  Ed25519 check of that key accepts the signature over the attestation.
\<close>

theorem signed_outcome_sound:
  assumes "verify_persisted nacl acquired store states authorities a = Inr b"
  shows "acquired \<and> attested b = a \<and>
    (\<exists>s anchor authority check signature. s \<in> set states \<and>
      ts_version s = cx_state_version (sb_context b) \<and> trust_state_digest s = cx_state_digest (sb_context b) \<and>
      map_of authorities (ts_authority_key_id s) = Some authority \<and>
      sha256_hex authority = cx_authority_key_digest (sb_context b) \<and>
      verify_trust_state nacl authorities s = Inr s \<and>
      signing_key_status s (en_key_id (sb_envelope b)) = Inr anchor \<and> ta_status anchor = ''active'' \<and>
      nacl = Some check \<and> b64_decode ValueError (en_signature (sb_envelope b)) = Inr signature \<and>
      check (ta_public_key anchor) (envelope_bytes (sb_envelope b)) signature \<and>
      attestation_from_dict (en_attestation (sb_envelope b)) = Inr a \<and>
      oa_signing_key_id a = Some (en_key_id (sb_envelope b)))"
proof -
  obtain bs s where r: "read_signed_bindings acquired store = Inr bs"
    and at: "attested b = a" and s: "resolve_trust_state b states = Inr s" and v: "verify_trust_context nacl s authorities b = Inr a"
    using assms unfolding verify_persisted_def
    by (elim bindE_InrE) (auto simp: bindE_eq_Inr_iff split: list.splits)
  have acq: "acquired" using r by (auto simp: read_signed_bindings_def read_store_def bindE_eq_Inr_iff split: if_splits)
  have s': "s \<in> set states" "ts_version s = cx_state_version (sb_context b)" "trust_state_digest s = cx_state_digest (sb_context b)"
    using resolve_state_Inr [OF s [unfolded resolve_trust_state_def]] by simp_all
  obtain authority where au: "map_of authorities (cx_authority_key_id (sb_context b)) = Some authority"
      "ts_authority_key_id s = cx_authority_key_id (sb_context b)" "sha256_hex authority = cx_authority_key_digest (sb_context b)"
      "is_ok (verify_trust_state nacl authorities s)" "verify_signed_envelope nacl (trusted_keys s) (Some s) (sb_envelope b) = Inr a"
    using v by (auto simp: verify_trust_context_def Let_def bindE_eq_Inr_iff split: option.splits)
  obtain check anchor signature where e: "nacl = Some check" "signing_key_status s (en_key_id (sb_envelope b)) = Inr anchor"
      "b64_decode ValueError (en_signature (sb_envelope b)) = Inr signature"
      "check (ta_public_key anchor) (envelope_bytes (sb_envelope b)) signature"
      "attestation_from_dict (en_attestation (sb_envelope b)) = Inr a" "oa_signing_key_id a = Some (en_key_id (sb_envelope b))"
    using au(5) by (auto simp: verify_signed_envelope_def envelope_key_def bindE_eq_Inr_iff caught_Inr verify_ed25519_Inr)
  moreover have "ta_status anchor = ''active''"
    using e(2) by (auto simp: signing_key_status_def split: option.splits if_splits)
  moreover have "verify_trust_state nacl authorities s = Inr s"
    using au(4) verify_trust_state_Inr by (auto simp: is_ok_iff)
  ultimately show ?thesis using acq at s' au(1,2,3) by auto
qed

lemma append_signed_Inl: "append_signed acquired content b = (Inl e, content') \<Longrightarrow> content' = content"
  by (auto simp: append_signed_def append_signed_until_def split: sum.splits)

lemma sign_and_record_Inl:
  "sign_and_record nacl acquired content sign key s authorities a = (Inl e, content') \<Longrightarrow> content' = content"
  by (auto simp: sign_and_record_def record_signed_def dest: append_signed_Inl split: sum.splits)

section \<open>Repeated calls\<close>

text \<open>
  C33: a signed attestation cannot be asked for twice. When the outcome of a chain, a transition and a time is in the store
  and is not a successor of its last entry (it is the last entry itself, when a call with these arguments ended or was
  stopped after writing the attestation), \<open>attest_signed_reliability_outcome\<close> fails and changes nothing: it links the
  repeated attestation to the end of the store, and so never arrives at the attestation that is there.
\<close>

theorem attest_signed_blocked:
  assumes "represents_entries content es" "a \<in> set (atts es)" "astimezone_utc local occurred = Inr u"
    and "oa_attestation_id a = attestation_stable_id (rt_subject_id t) c t (utc_iso u)" "oa_previous a \<noteq> chain_tip (atts es)"
  shows "\<exists>e. attest_signed local nacl True now content sign key s authorities c t actor (Some occurred) = (Inl e, content)"
proof (cases "build_attestation local True now content c t actor (Some occurred) (Some (sk_key_id key))")
  case (Inl e)
  then show ?thesis by (simp add: attest_signed_def)
next
  case (Inr a')
  obtain R v where "astimezone_utc local (opt_or (Some occurred) now) = Inr v" "read_attestations True content = Inr R"
    "make_attestation (outcome_fields c t actor (utc_iso v) (Some (sk_key_id key)) (chain_tip R)) = Inr a'"
    by (rule build_attestation_InrE [OF Inr])
  then have id: "oa_attestation_id a' = oa_attestation_id a" and new: "oa_previous a' = chain_tip (atts es)"
    using assms(3,4) read_represented [OF assms(1)]
    by (auto simp: opt_or_def read_attestations_def make_attestation_Inr outcome_fields_def)
  note ok = build_attestation_bound(1) [OF Inr]
  have "a' \<notin> set (atts es)"
    using represents_distinct [OF assms(1)] assms(2,5) id new by (metis find_by_id option.inject)
  then have "signed_spec (atts es) (sigs es) b = Inl (ValueError ''identity collision'')" if "attested b = a'" for b
    using assms(2) id that by (force simp: signed_spec_def)
  then have collision: "append_signed True content b = (Inl (ValueError ''identity collision''), content)" if "attested b = a'" for b
    using append_signed_until_spec [OF assms(1), of None b] that by (simp add: append_signed_def)
  have "\<exists>e. sign_and_record nacl True content sign key s authorities a' = (Inl e, content)"
  proof (cases "sign_and_record nacl True content sign key s authorities a'")
    case (Pair r content')
    show ?thesis
    proof (cases r)
      case (Inr b')
      with Pair sign_and_record_Inr [OF _ ok] collision show ?thesis by (metis sum.distinct(1) prod.inject)
    next
      case (Inl e)
      with Pair sign_and_record_Inl show ?thesis by metis
    qed
  qed
  with Inr show ?thesis by (simp add: attest_signed_def)
qed

lemma attestation_append_spec:
  assumes "represents_entries content es"
  shows "attestation_append True content a =
    (case find_first (\<lambda>e. oa_attestation_id e = oa_attestation_id a) (atts es) of
       Some e \<Rightarrow>
         if attestation_payload (e\<lparr>oa_previous := []\<rparr>) = attestation_payload (a\<lparr>oa_previous := []\<rparr>) then (Inr e, content)
         else (Inl (ValueError ''identity collision''), content)
     | None \<Rightarrow>
         if oa_previous a = chain_tip (atts es) then (Inr a, Some (opt_or content [] @ entries_file [Inl a]))
         else (Inl (ValueError ''previous_digest''), content))"
proof -
  have al: "entries_file [Inl a] = attestation_line a" by (simp add: attestation_line_def entry_dict_def)
  have r: "attestation_append True content a = (case admit_attestation (atts es) a of
      Inl e \<Rightarrow> (Inl e, content) | Inr (Some e) \<Rightarrow> (Inr e, content)
    | Inr None \<Rightarrow> (Inr a, Some (opt_or content [] @ entries_file [Inl a])))"
    unfolding attestation_append_def read_represented [OF assms] al [symmetric] by simp
  show ?thesis
    unfolding r by (cases "find_first (\<lambda>e. oa_attestation_id e = oa_attestation_id a) (atts es)")
      (simp_all add: admit_attestation_def)
qed

lemma expected_decision_cases: "expected_decision s \<in> {''accept'', ''review'', ''reject''}"
  by (simp add: expected_decision_def)

text \<open>A built attestation, in a later state of the store.\<close>

lemma build_attestation_later:
  assumes "build_attestation local True now content c t actor (Some occurred) k = Inr a"
    and "represents_entries content' es" "list_all attestation_ok (atts es)"
  shows "\<exists>a'. build_attestation local True now' content' c t actor (Some occurred) k = Inr a' \<and>
    oa_attestation_id a' = oa_attestation_id a \<and> oa_previous a' = chain_tip (atts es) \<and>
    attestation_payload (a'\<lparr>oa_previous := []\<rparr>) = attestation_payload (a\<lparr>oa_previous := []\<rparr>)"
proof -
  obtain R u where g: "rt_evidence_chain_id t = rc_chain_id c" "rt_evidence_chain_digest t = chain_digest c"
      "\<not> blank (rt_subject_id t)" "astimezone_utc local (opt_or (Some occurred) now) = Inr u"
    and m: "make_attestation (outcome_fields c t actor (utc_iso u) k (chain_tip R)) = Inr a"
    by (rule build_attestation_InrE [OF assms(1)])
  let ?f = "outcome_fields c t actor (utc_iso u) k (chain_tip (atts es))"
  have "chain_tip (atts es) = [] \<or> is_sha256 (chain_tip (atts es))"
    using assms(3) last_opt_cases [of "atts es"] by (auto simp: chain_tip_def last_opt_def attestation_ok_def)
  moreover have "attestation_guards (outcome_fields c t actor (utc_iso u) k (chain_tip R)) = Inr ()"
    using m by (simp add: make_attestation_Inr)
  ultimately have "attestation_guards ?f = Inr ()"
    using expected_decision_cases [of "rt_to_state t"] by (simp add: attestation_guards_def outcome_fields_def)
  then have "build_attestation local True now' content' c t actor (Some occurred) k = Inr (?f\<lparr>oa_digest := attestation_digest ?f\<rparr>)"
    using g read_represented [OF assms(2)]
    by (simp add: build_attestation_def read_attestations_def opt_or_def make_attestation_def)
  then show ?thesis
    using m by (auto simp: make_attestation_Inr outcome_fields_def attestation_payload_def)
qed

lemma atts_ok: "entries_ok R B es \<Longrightarrow> list_all attestation_ok (atts es)"
proof (induction es arbitrary: R B)
  case (Cons e es)
  then show ?case by (cases e) auto
qed simp

text \<open>
  An unsigned attestation can be asked for twice. A call of \<open>attest_reliability_outcome\<close> with a given time that
  succeeds leaves a store in which the same call answers with the attestation that is there and changes nothing.
\<close>

theorem attest_outcome_repeated:
  assumes "represents_entries content es" "attestation_text a"
    and "attest_outcome local True now content c t actor (Some occurred) k = (Inr a, content')"
  shows "attest_outcome local True now' content' c t actor (Some occurred) k = (Inr a, content') \<and>
    (\<exists>es'. represents_entries content' es' \<and> a \<in> set (atts es'))"
proof -
  obtain b where b: "build_attestation local True now content c t actor (Some occurred) k = Inr b"
    and ap: "attestation_append True content b = (Inr a, content')"
    using assms(3) by (auto simp: attest_outcome_def split: sum.splits)
  note d = represents_distinct [OF assms(1)]
  have same: "attestation_payload (a\<lparr>oa_previous := []\<rparr>) = attestation_payload (b\<lparr>oa_previous := []\<rparr>)"
    "oa_attestation_id a = oa_attestation_id b"
    and es': "\<exists>es'. represents_entries content' es' \<and> a \<in> set (atts es')"
  proof -
    show "attestation_payload (a\<lparr>oa_previous := []\<rparr>) = attestation_payload (b\<lparr>oa_previous := []\<rparr>)"
      using ap attestation_append_spec [OF assms(1), of b] by (auto split: option.splits if_splits)
    then show "oa_attestation_id a = oa_attestation_id b" by (simp add: attestation_payload_def)
    show "\<exists>es'. represents_entries content' es' \<and> a \<in> set (atts es')"
    proof (cases "find_first (\<lambda>e. oa_attestation_id e = oa_attestation_id b) (atts es)")
      case (Some e)
      with ap attestation_append_spec [OF assms(1), of b] have "a = e" "content' = content" by (auto split: if_splits)
      with assms(1) find_first_Some [OF Some] show ?thesis by blast
    next
      case None
      with ap attestation_append_spec [OF assms(1), of b] have "a = b" "oa_previous b = chain_tip (atts es)"
        "content' = Some (opt_or content [] @ entries_file [Inl b])" by (auto split: if_splits)
      moreover have "entry_ok (atts es) (sigs es) (Inl b)"
        using build_attestation_bound(1) [OF b] assms(2) None \<open>a = b\<close> \<open>oa_previous b = chain_tip (atts es)\<close>
        by (auto simp: find_first_None)
      ultimately have "represents_entries content' (es @ [Inl b])" using represents_add [OF assms(1), of "[Inl b]"] by simp
      with \<open>a = b\<close> show ?thesis by (metis atts_sigs_simps(3,7) append_is_Nil_conv in_set_conv_decomp)
    qed
  qed
  then obtain es' where r: "represents_entries content' es'" and mem: "a \<in> set (atts es')" by blast
  have "list_all attestation_ok (atts es')" using r atts_ok [of "[]" "[]"] by (simp add: represents_entries_def)
  from build_attestation_later [OF b r this, of now'] obtain a' where a':
    "build_attestation local True now' content' c t actor (Some occurred) k = Inr a'" "oa_attestation_id a' = oa_attestation_id b"
    "attestation_payload (a'\<lparr>oa_previous := []\<rparr>) = attestation_payload (b\<lparr>oa_previous := []\<rparr>)" by blast
  have "find_first (\<lambda>e. oa_attestation_id e = oa_attestation_id a') (atts es') = Some a"
    using find_by_id [OF represents_distinct [OF r] mem] a'(2) same(2) by simp
  then show ?thesis
    using a' same(1) es' attestation_append_spec [OF r, of a'] by (simp add: attest_outcome_def)
qed

section \<open>Witnesses\<close>

definition outcome_transition :: transition where
  "outcome_transition = sample_transition\<lparr>rt_evidence_chain_digest := chain_digest sample_chain, rt_rationale := []\<rparr>"

definition no_offset :: "int \<Rightarrow> int" where
  "no_offset t = 0"

definition signed_fields :: attestation where
  "signed_fields = outcome_fields sample_chain outcome_transition ''me'' (utc_iso (Aware 0)) (Some ''a'') []"

definition sample_signed :: attestation where
  "sample_signed = signed_fields\<lparr>oa_digest := attestation_digest signed_fields\<rparr>"

lemma sample_time: "astimezone_utc no_offset (Aware 0) = Inr (Aware 0)" "in_range 0"
  by code_simp+

lemma signed_fields_values [simp]:
  "oa_attestation_id signed_fields = attestation_stable_id ''s'' sample_chain outcome_transition (utc_iso (Aware 0))"
  "oa_subject signed_fields = ''s''" "oa_occurred_at signed_fields = utc_iso (Aware 0)" "oa_actor signed_fields = ''me''"
  "oa_chain_id signed_fields = ''c''" "oa_chain_digest signed_fields = chain_digest sample_chain"
  "oa_transition_id signed_fields = ''t1''" "oa_transition_digest signed_fields = transition_digest outcome_transition"
  "oa_reliability_state signed_fields = ''reliable''" "oa_decision signed_fields = ''accept''"
  "oa_verification_status signed_fields = ''verified''" "oa_reconciliation_state signed_fields = ''verified''"
  "oa_rationale signed_fields = [''ok'']" "oa_signing_key_id signed_fields = Some ''a''" "oa_previous signed_fields = []"
  "oa_digest signed_fields = []"
  by (simp_all add: signed_fields_def outcome_fields_def outcome_transition_def sample_transition_def sample_chain_def)

lemma is_sha256_digests [simp]: "is_sha256 (chain_digest c)" "is_sha256 (transition_digest t)" "is_sha256 (trust_state_digest s)"
  by (simp_all add: chain_digest_def transition_digest_def trust_state_digest_def)

lemma stable_id_sha256 [simp]: "is_sha256 (attestation_stable_id i c t u)"
  by (simp add: attestation_stable_id_def)

lemma sample_signed_ok: "make_attestation signed_fields = Inr sample_signed" "attestation_ok sample_signed"
  "attestation_text sample_signed"
proof -
  show m: "make_attestation signed_fields = Inr sample_signed"
    by (simp add: make_attestation_Inr sample_signed_def attestation_guards_def expected_decision_def)
  show "attestation_ok sample_signed" by (rule make_attestation_ok [OF m])
  have "utf8_ok ''ok''" "utf8_ok ''t1''" by code_simp+
  then show "attestation_text sample_signed"
    by (intro attestation_textI)
      (simp_all add: sample_signed_def utf8_ok_sha256 attestation_digest_facts utf8_ok_utc_iso [OF sample_time(2)])
qed

lemma sample_built:
  assumes "opt_or occurred_at now = Aware 0"
  shows "build_attestation no_offset True now None sample_chain outcome_transition ''me'' occurred_at (Some ''a'') = Inr sample_signed"
proof -
  have "read_attestations True None = Inr []" by (simp add: read_attestations_def read_represented [OF no_entries_represents])
  moreover have "make_attestation (outcome_fields sample_chain outcome_transition ''me'' (utc_iso (Aware 0)) (Some ''a'') (chain_tip [])) =
      Inr sample_signed"
    using sample_signed_ok(1) by (simp add: signed_fields_def chain_tip_def last_opt_def)
  ultimately show ?thesis
    by (simp add: build_attestation_def assms sample_time(1))
      (simp add: outcome_transition_def sample_transition_def sample_chain_def)
qed

lemma attest_outcome_repeated_witness:
  "\<exists>content'. attest_outcome no_offset True (Aware 1) None sample_chain outcome_transition ''me'' (Some (Aware 0)) (Some ''a'') = (Inr sample_signed, content') \<and>
    attest_outcome no_offset True (Aware 2) content' sample_chain outcome_transition ''me'' (Some (Aware 0)) (Some ''a'') = (Inr sample_signed, content')"
proof -
  have "attestation_append True None sample_signed = (Inr sample_signed, Some (entries_file [Inl sample_signed]))"
    using attestation_append_spec [OF no_entries_represents, of sample_signed]
    by (simp add: find_first_def chain_tip_def last_opt_def sample_signed_def opt_or_def)
  then have "attest_outcome no_offset True (Aware 1) None sample_chain outcome_transition ''me'' (Some (Aware 0)) (Some ''a'') =
      (Inr sample_signed, Some (entries_file [Inl sample_signed]))"
    using sample_built [of "Some (Aware 0)" "Aware 1"] by (simp add: attest_outcome_def opt_or_def)
  with attest_outcome_repeated [OF no_entries_represents sample_signed_ok(3) this, of "Aware 2"] show ?thesis by blast
qed

definition sample_signer :: signer where
  "sample_signer key message = Inr ''sig''"

definition sample_signed_envelope :: envelope where
  "sample_signed_envelope =
     \<lparr>en_algorithm = ''Ed25519'', en_key_id = ''a'', en_attestation = attestation_to_dict sample_signed,
      en_payload_digest = digest_of (attestation_to_dict sample_signed), en_signature = ''c2ln''\<rparr>"

definition sample_trust_context :: trust_context where
  "sample_trust_context =
     \<lparr>cx_format_version = ''1'', cx_envelope_artifact_id = ''attestation-envelope:'' @ oa_attestation_id sample_signed,
      cx_envelope_digest = digest_of (envelope_to_dict sample_signed_envelope),
      cx_attestation_id = oa_attestation_id sample_signed, cx_attestation_digest = oa_digest sample_signed,
      cx_signing_key_id = ''a'', cx_signing_key_digest = sha256_hex (replicate 32 CHR ''x''),
      cx_state_artifact_id = ''attestation-trust-state:'' @ ''1'' @ '':'' @ trust_state_digest trust_1,
      cx_state_digest = trust_state_digest trust_1, cx_state_version = 1,
      cx_authority_artifact_id = ''attestation-authority:root'', cx_authority_key_id = ''root'',
      cx_authority_key_digest = sha256_hex ''pk''\<rparr>"

definition sample_recorded :: signed_binding where
  "sample_recorded = \<lparr>sb_envelope = sample_signed_envelope, sb_context = sample_trust_context\<rparr>"

lemma sample_signed_read: "attestation_from_dict (attestation_to_dict sample_signed) = Inr sample_signed"
  by (rule attestation_from_stored [OF sample_signed_ok(2) attestation_stored_self])

lemma sample_b64: "b64_encode ''sig'' = ''c2ln''" "b64_decode ValueError ''c2ln'' = Inr ''sig''" "decimal 1 = ''1''"
  by code_simp+

lemma sample_envelope_created:
  "create_signed_envelope sample_signed ''a'' ''sig'' = Inr sample_signed_envelope"
  "\<exists>e. create_signed_envelope sample_signed ''a'' ''placeholder'' = Inr e"
proof -
  have "b64_encode ''placeholder'' = ''cGxhY2Vob2xkZXI''" by code_simp
  then show "\<exists>e. create_signed_envelope sample_signed ''a'' ''placeholder'' = Inr e"
    by (simp add: create_signed_envelope_def construct_Inr_iff envelope_post_init_def)
  show "create_signed_envelope sample_signed ''a'' ''sig'' = Inr sample_signed_envelope"
    by (simp add: create_signed_envelope_def construct_Inr_iff envelope_post_init_def sample_signed_envelope_def sample_b64)
qed

lemma sample_trust_facts:
  "verify_trust_state accept_all sample_authorities trust_1 = Inr trust_1"
  "signing_key_status trust_1 ''a'' = Inr (sample_trust_key ''a'')"
  "map_of (trusted_keys trust_1) ''a'' = Some (replicate 32 CHR ''x'')"
  "ts_version trust_1 = 1" "ts_authority_key_id trust_1 = ''root''"
proof -
  have "is_ok (verify_trust_state accept_all sample_authorities trust_1)"
    using sample_trust_storable(2) [of 1 "''2024-01-01T00:00:00Z''" "[''a'', ''b'']" None] by (simp add: trust_1_def)
  then show "verify_trust_state accept_all sample_authorities trust_1 = Inr trust_1"
    using verify_trust_state_Inr by (auto simp: is_ok_iff)
  show "signing_key_status trust_1 ''a'' = Inr (sample_trust_key ''a'')" "map_of (trusted_keys trust_1) ''a'' = Some (replicate 32 CHR ''x'')"
    "ts_version trust_1 = 1" "ts_authority_key_id trust_1 = ''root''"
    by (simp_all add: signing_key_status_def trusted_keys_def trust_1_def sample_trust_state_def sample_trust_key_def find_first_def dict_of_def)
qed

lemma envelope_verifies: "verify_signed_envelope accept_all (trusted_keys trust_1) (Some trust_1) sample_signed_envelope = Inr sample_signed"
  by (simp add: verify_signed_envelope_def envelope_key_def sample_signed_envelope_def sample_trust_facts sample_trust_key_def
      sample_b64 verify_ed25519_signature_def accept_all_def sample_signed_read)
    (simp add: sample_signed_def)

lemma sample_context_built:
  "build_trust_context accept_all trust_1 sample_authorities sample_signed_envelope None None None = Inr sample_trust_context"
  "context_post_init sample_trust_context = Inr ()"
proof -
  show c: "context_post_init sample_trust_context = Inr ()"
    by (simp add: context_post_init_def sample_trust_context_def sample_signed_def)
  have k: "en_key_id sample_signed_envelope = ''a''" by (simp add: sample_signed_envelope_def)
  have "map_of sample_authorities ''root'' = Some ''pk''" by (simp add: sample_authorities_def)
  then show "build_trust_context accept_all trust_1 sample_authorities sample_signed_envelope None None None = Inr sample_trust_context"
    using c by (simp add: build_trust_context_def sample_trust_facts envelope_verifies k opt_or_def sample_b64(3) sample_trust_context_def
        construct_Inr_iff sample_trust_key_def)
qed

lemma sample_recorded_facts:
  "attested sample_recorded = sample_signed" "signed_binding_post_init sample_recorded = Inr ()" "binding_text sample_recorded"
proof -
  show "attested sample_recorded = sample_signed"
    by (simp add: attested_def sample_recorded_def sample_signed_envelope_def sample_signed_read)
  have e: "en_attestation sample_signed_envelope = attestation_to_dict sample_signed" "en_key_id sample_signed_envelope = ''a''"
    by (simp_all add: sample_signed_envelope_def)
  have k: "oa_signing_key_id sample_signed = Some ''a''" by (simp add: sample_signed_def)
  show "signed_binding_post_init sample_recorded = Inr ()"
    by (simp add: signed_binding_post_init_def sample_recorded_def e sample_signed_read k)
      (simp add: sample_trust_context_def)
  have u: "utf8_ok (''attestation-envelope:'' @ oa_attestation_id sample_signed)"
    "utf8_ok (''attestation-trust-state:'' @ ''1'' @ '':'' @ trust_state_digest trust_1)"
    by (intro utf8_ok_append; simp add: utf8_ok_sha256 utf8_ok_ascii sample_signed_def byte_def)+
  have v: "utf8_ok ''attestation-authority:root''" by code_simp
  show "binding_text sample_recorded"
    by (rule binding_textI [OF sample_signed_ok(3)])
      (use u v in \<open>simp_all add: sample_recorded_def e sample_trust_context_def utf8_ok_sha256\<close>,
       simp_all add: sample_signed_envelope_def sample_signed_def utf8_ok_sha256)
qed

lemma sample_attested:
  assumes "opt_or occurred_at now = Aware 0"
  shows "attest_signed no_offset accept_all True now None sample_signer sample_signing_key trust_1 sample_authorities
      sample_chain outcome_transition ''me'' occurred_at =
    (Inr sample_recorded, Some (entries_file [Inl sample_signed, Inr sample_recorded]))"
proof -
  have spec: "signed_spec [] [] sample_recorded = Inr (Inr [Inl sample_signed, Inr sample_recorded])"
    by (simp add: signed_spec_def missing_def sample_recorded_facts(1) find_first_def chain_tip_def last_opt_def)
      (simp add: sample_signed_def)
  have ap: "append_signed True None sample_recorded = (Inr sample_recorded, Some (entries_file [Inl sample_signed, Inr sample_recorded]))"
    using append_signed_until_spec [OF no_entries_represents, of None sample_recorded] spec by (simp add: append_signed_def opt_or_def)
  have "construct signed_binding_post_init \<lparr>sb_envelope = sample_signed_envelope, sb_context = sample_trust_context\<rparr> = Inr sample_recorded"
    using sample_recorded_facts(2) by (simp add: construct_Inr_iff sample_recorded_def)
  then have rec: "record_signed accept_all True None trust_1 sample_authorities sample_signed_envelope =
      (Inr sample_recorded, Some (entries_file [Inl sample_signed, Inr sample_recorded]))"
    by (simp add: record_signed_def sample_context_built(1) ap)
  have k: "oa_signing_key_id sample_signed = Some ''a''" "sk_key_id sample_signing_key = ''a''" "sk_public_key_digest sample_signing_key = None"
    by (simp_all add: sample_signed_def sample_signing_key_def)
  obtain e where "create_signed_envelope sample_signed ''a'' ''placeholder'' = Inr e" using sample_envelope_created(2) by blast
  then have "sign_and_record accept_all True None sample_signer sample_signing_key trust_1 sample_authorities sample_signed =
      (Inr sample_recorded, Some (entries_file [Inl sample_signed, Inr sample_recorded]))"
    by (simp add: sign_and_record_def k sample_trust_facts adapter_sign_def sample_signer_def sample_envelope_created(1) rec)
  then show ?thesis using sample_built [OF assms] by (simp add: attest_signed_def k(2))
qed

lemma attest_signed_verifies_witness:
  "verify_persisted accept_all True (snd (attest_signed no_offset accept_all True (Aware 0) None sample_signer sample_signing_key trust_1
     sample_authorities sample_chain outcome_transition ''me'' None)) [trust_1] sample_authorities sample_signed = Inr (sort_binding sample_recorded)"
proof -
  have "opt_or None (Aware 0) = Aware 0" by (simp add: opt_or_def)
  note s = sample_attested [OF this]
  from attest_signed_verifies [OF no_entries_represents s, of "[trust_1]"] show ?thesis
    by (simp add: sample_recorded_facts sample_signed_ok(3) s)
qed

lemma signed_outcome_sound_witness:
  "\<exists>store b. verify_persisted accept_all True store [trust_1] sample_authorities sample_signed = Inr b \<and>
    attested b = sample_signed \<and> verify_trust_state accept_all sample_authorities trust_1 = Inr trust_1"
proof -
  have ok: "binding_ok sample_recorded"
    using sample_recorded_facts sample_signed_ok(2) sample_context_built(2) sample_envelope_created(1) create_signed_envelope_Inr(4)
    by (auto simp: binding_ok_def sample_recorded_def) (simp_all add: sample_signed_envelope_def)
  have spec: "entries_ok [] [] [Inl sample_signed, Inr sample_recorded]"
    using ok sample_signed_ok(2,3) sample_recorded_facts by (simp add: chain_tip_def last_opt_def) (simp add: sample_signed_def)
  then have r: "represents_entries (Some (entries_file [Inl sample_signed, Inr sample_recorded])) [Inl sample_signed, Inr sample_recorded]"
    by (simp add: represents_entries_def)
  have c: "cx_state_version (sb_context (sort_binding sample_recorded)) = ts_version trust_1"
    "cx_state_digest (sb_context (sort_binding sample_recorded)) = trust_state_digest trust_1"
    by (simp_all add: sort_binding_def sample_recorded_def sample_trust_context_def sample_trust_facts)
  have v: "verify_trust_context accept_all trust_1 sample_authorities (sort_binding sample_recorded) = Inr sample_signed"
    using built_context_verifies [OF sample_context_built(1) sample_signed_ok(2)]
    by (simp add: sort_binding_envelope sample_recorded_def sample_signed_envelope_def)
  have "verify_persisted accept_all True (Some (entries_file [Inl sample_signed, Inr sample_recorded])) [trust_1] sample_authorities sample_signed =
      Inr (sort_binding sample_recorded)"
    using verify_persisted_found [OF r, of "sort_binding sample_recorded" sample_signed] ok c v
    by (simp add: sample_recorded_facts(1) resolve_trust_state_def)
  with signed_outcome_sound [OF this] show ?thesis by (metis list.set_intros(1) list.simps(15) singletonD empty_set)
qed

lemma attest_signed_blocked_witness:
  "\<exists>e. attest_signed no_offset accept_all True (Aware 1) (Some (entries_file [Inl sample_signed])) sample_signer sample_signing_key trust_1
     sample_authorities sample_chain outcome_transition ''me'' (Some (Aware 0)) = (Inl e, Some (entries_file [Inl sample_signed]))"
proof -
  have "represents_entries (Some (entries_file [Inl sample_signed])) [Inl sample_signed]"
    using sample_signed_ok(2,3) by (simp add: represents_entries_def chain_tip_def last_opt_def) (simp add: sample_signed_def)
  moreover have "oa_previous sample_signed = []" "chain_tip [sample_signed] = attestation_digest signed_fields"
    "oa_attestation_id sample_signed = attestation_stable_id ''s'' sample_chain outcome_transition (utc_iso (Aware 0))"
    by (simp_all add: sample_signed_def chain_tip_def last_opt_def)
  moreover have "rt_subject_id outcome_transition = ''s''" by (simp add: outcome_transition_def sample_transition_def)
  moreover have "atts [Inl sample_signed] = [sample_signed]" by simp
  moreover have "[] \<noteq> attestation_digest signed_fields" using attestation_digest_facts(1) by metis
  ultimately show ?thesis
    by (intro attest_signed_blocked [OF _ _ sample_time(1), of _ "[Inl sample_signed]" sample_signed]) simp_all
qed

end
