(* ===== verification/OutcomeVerification.thy ===== *)
theory OutcomeVerification
  imports AttestationService ChainEvidence
begin

text \<open>
  \<open>domain/reliability_recovery_outcome.py\<close>, \<open>services/reliability_recovery_service.py\<close>,
  \<open>domain/reliability_outcome_verification.py\<close> and \<open>services/reliability_outcome_verification_service.py\<close>:
  an attested outcome is checked end to end against its chain, the recorded history and, for a recovered state, the
  recovery artifacts. \<open>locate\<close> resolves a source below the evidence root.
\<close>

section \<open>Recovery outcomes\<close>

record recovery_outcome =
  ro_format_version :: string
  ro_recovery_id :: string
  ro_recovery_digest :: string
  ro_recovery_status :: string
  ro_source_reconciliation_id :: string
  ro_reconciliation_id :: string
  ro_reconciliation_digest :: string
  ro_reconciliation_status :: string
  ro_outcome :: string

definition recovery_outcome_post_init :: "recovery_outcome \<Rightarrow> unit result" where
  "recovery_outcome_post_init r = guards [
     (ro_format_version r \<noteq> ''1'', ValueError ''format version''),
     (blank (ro_recovery_id r), ValueError ''recovery_id''),
     (blank (ro_source_reconciliation_id r), ValueError ''source_reconciliation_id''),
     (blank (ro_reconciliation_id r), ValueError ''reconciliation_id''),
     (blank (ro_recovery_status r), ValueError ''recovery_status''),
     (blank (ro_reconciliation_status r), ValueError ''reconciliation_status''),
     (blank (ro_outcome r), ValueError ''outcome''),
     (\<not> is_sha256 (ro_recovery_digest r), ValueError ''recovery_digest''),
     (\<not> is_sha256 (ro_reconciliation_digest r), ValueError ''reconciliation_digest''),
     (ro_recovery_status r \<noteq> ''applied'', ValueError ''applied recovery result''),
     (ro_reconciliation_status r \<notin> {''verified'', ''recovered''}, ValueError ''verified or recovered''),
     (ro_outcome r \<noteq> ''recovered'', ValueError ''recovered result''),
     (ro_source_reconciliation_id r \<noteq> ro_reconciliation_id r, ValueError ''source reconciliation'')]"

definition recovery_outcome_payload :: "recovery_outcome \<Rightarrow> payload" where
  "recovery_outcome_payload r = [
     (''format_version'', JStr (ro_format_version r)),
     (''recovery_id'', JStr (ro_recovery_id r)),
     (''recovery_digest'', JStr (ro_recovery_digest r)),
     (''recovery_status'', JStr (ro_recovery_status r)),
     (''source_reconciliation_id'', JStr (ro_source_reconciliation_id r)),
     (''reconciliation_id'', JStr (ro_reconciliation_id r)),
     (''reconciliation_digest'', JStr (ro_reconciliation_digest r)),
     (''reconciliation_status'', JStr (ro_reconciliation_status r)),
     (''outcome'', JStr (ro_outcome r))]"

definition recovery_outcome_digest :: "recovery_outcome \<Rightarrow> string" where
  "recovery_outcome_digest r = digest_of (recovery_outcome_payload r)"

definition recovery_outcome_to_dict :: "recovery_outcome \<Rightarrow> bool \<Rightarrow> payload" where
  "recovery_outcome_to_dict r include_digest =
     recovery_outcome_payload r @ (if include_digest then [(''digest'', JStr (recovery_outcome_digest r))] else [])"

definition recovery_outcome_from_dict :: "payload \<Rightarrow> recovery_outcome result" where
  "recovery_outcome_from_dict d =
     bindE (item_str d ''format_version'') (\<lambda>format_version.
     bindE (item_str d ''recovery_id'') (\<lambda>recovery_id.
     bindE (item_str d ''recovery_digest'') (\<lambda>recovery_digest.
     bindE (item_str d ''recovery_status'') (\<lambda>recovery_status.
     bindE (item_str d ''source_reconciliation_id'') (\<lambda>source_reconciliation_id.
     bindE (item_str d ''reconciliation_id'') (\<lambda>reconciliation_id.
     bindE (item_str d ''reconciliation_digest'') (\<lambda>reconciliation_digest.
     bindE (item_str d ''reconciliation_status'') (\<lambda>reconciliation_status.
     bindE (construct recovery_outcome_post_init
       \<lparr>ro_format_version = format_version, ro_recovery_id = recovery_id, ro_recovery_digest = recovery_digest,
        ro_recovery_status = recovery_status, ro_source_reconciliation_id = source_reconciliation_id,
        ro_reconciliation_id = reconciliation_id, ro_reconciliation_digest = reconciliation_digest,
        ro_reconciliation_status = reconciliation_status, ro_outcome = get_str d ''outcome'' ''recovered''\<rparr>) (\<lambda>r.
     bindE (guards [(get_str d ''digest'' [] \<noteq> [] \<and> get_str d ''digest'' [] \<noteq> recovery_outcome_digest r,
       ValueError ''digest mismatch'')]) (\<lambda>_. Inr r))))))))))"

section \<open>Recovery records\<close>

definition recovery_step_ok :: "json \<Rightarrow> unit result" where
  "recovery_step_ok v =
     (case v of
        JObj step \<Rightarrow> guards [
          (\<not> {''step_id'', ''target'', ''action'', ''status'', ''reason''} \<subseteq> set (map fst step), ValueError ''step is missing required fields''),
          (blank (get_str step ''target'' []) \<or> blank (get_str step ''action'' []), ValueError ''step target/action''),
          (get_str step ''status'' [] \<notin> {''pending'', ''applied'', ''failed'', ''skipped''}, ValueError ''step status'')]
      | _ \<Rightarrow> Inl (ValueError ''step must be a JSON object''))"

definition recovery_record_digest :: "payload \<Rightarrow> string" where
  "recovery_record_digest d = sha256_hex (canonical_ascii (JObj (filter (\<lambda>kv. fst kv \<noteq> ''digest'') d)))"

definition verify_recovery_record :: "payload \<Rightarrow> unit result" where
  "verify_recovery_record d =
     bindE (guards [(\<not> {''recovery_id'', ''occurred_at'', ''impact_id'', ''source_reconciliation_id'', ''actor'', ''approved'',
         ''status'', ''steps'', ''reason''} \<subseteq> set (map fst d), ValueError ''missing required fields'')]) (\<lambda>_.
     bindE (parse_datetime (get_str d ''occurred_at'' []) ''occurred_at'') (\<lambda>_.
     bindE (guards [(list_ex (\<lambda>k. blank (get_str d k [])) [''recovery_id'', ''impact_id'', ''source_reconciliation_id'', ''actor''],
       ValueError ''must not be empty'')]) (\<lambda>_.
     let status = get_str d ''status'' [] in
     bindE (guards [(status \<notin> {''planned'', ''applied'', ''partially-applied'', ''failed''}, ValueError ''recovery status'')]) (\<lambda>_.
     bindE (require_bool (get_or d ''approved'' (JBool False)) ''approved'') (\<lambda>approved.
     bindE (guards [(status = ''applied'' \<and> \<not> approved, ValueError ''must be approved'')]) (\<lambda>_.
     case get_or d ''steps'' JNull of
       JArr steps \<Rightarrow>
         bindE (mapE recovery_step_ok steps) (\<lambda>_. guards [
           (get_str d ''digest'' [] \<noteq> [] \<and> get_str d ''digest'' [] \<noteq> recovery_record_digest d, ValueError ''digest mismatch'')])
     | _ \<Rightarrow> Inl (ValueError ''steps must be a list'')))))))"

text \<open>Both sources are resolved before either is looked for.\<close>

definition recovery_sources :: "(string \<Rightarrow> located) \<Rightarrow> string \<Rightarrow> string \<Rightarrow> (string \<times> string) result" where
  "recovery_sources locate recovery reconciliation =
     (case (locate (backslash_to_slash recovery), locate (backslash_to_slash reconciliation)) of
        (Outside, _) \<Rightarrow> Inl (ValueError ''recovery source escapes root'')
      | (_, Outside) \<Rightarrow> Inl (ValueError ''reconciliation source escapes root'')
      | (Absent, _) \<Rightarrow> Inl (FileNotFoundError ''recovery source not found'')
      | (_, Absent) \<Rightarrow> Inl (FileNotFoundError ''reconciliation source not found'')
      | (Content a, Content b) \<Rightarrow> Inr (a, b))"

definition verify_recovery_outcome :: "(string \<Rightarrow> located) \<Rightarrow> chain \<Rightarrow> recovery_outcome result" where
  "verify_recovery_outcome locate c =
     bindE (guards [(rc_reliability_state c \<noteq> ''recovered'', ValueError ''applies only to recovered'')]) (\<lambda>_.
     case (rc_recovery_ref c, rc_reconciliation_ref c) of
       (None, _) \<Rightarrow> Inl (ValueError ''lacks a recovery reference'')
     | (Some _, None) \<Rightarrow> Inl (ValueError ''lacks a reconciliation reference'')
     | (Some r, Some q) \<Rightarrow>
         bindE (guards [
           (er_kind r \<noteq> ''recovery'', ValueError ''kind recovery''),
           (er_kind q \<noteq> ''reconciliation'', ValueError ''kind reconciliation''),
           (er_source r = None \<or> er_source q = None, ValueError ''local sources'')]) (\<lambda>_.
         let recovery_source = opt_or (er_source r) []; reconciliation_source = opt_or (er_source q) [] in
         bindE (recovery_sources locate recovery_source reconciliation_source) (\<lambda>(recovery_file, reconciliation_file).
         bindE (guards [
           (sha256_hex recovery_file \<noteq> er_digest r, ValueError ''recovery artifact digest mismatch''),
           (sha256_hex reconciliation_file \<noteq> er_digest q, ValueError ''reconciliation artifact digest mismatch'')]) (\<lambda>_.
         bindE (load_object (\<lambda>_. Some recovery_file) recovery_source ''payload'') (\<lambda>recovery.
         bindE (load_object (\<lambda>_. Some reconciliation_file) reconciliation_source ''payload'') (\<lambda>reconciliation.
         bindE (guards [(get_str recovery ''recovery_id'' [] \<noteq> er_identity r \<and> er_identity r \<noteq> path_name recovery_source,
           ValueError ''recovery artifact identity'')]) (\<lambda>_.
         bindE (verify_recovery_record recovery) (\<lambda>_.
         let reconciliation_id = py_str (get_or reconciliation ''bundle_id'' (get_or reconciliation ''reconciliation_id'' (JStr [])));
             status = py_str (get_or reconciliation ''state'' (get_or reconciliation ''status'' (JStr [])));
             source_id = get_str recovery ''source_reconciliation_id'' [] in
         bindE (guards [
           (get_str recovery ''status'' [] \<noteq> ''applied'', ValueError ''applied recovery result''),
           (reconciliation_id \<noteq> er_identity q, ValueError ''reconciliation artifact identity''),
           (status \<notin> {''verified'', ''recovered''}, ValueError ''successful post-recovery result''),
           (source_id \<noteq> reconciliation_id, ValueError ''exact reconciliation result''),
           (rc_reconciliation_state c \<noteq> ''recovered'', ValueError ''recovered reconciliation state'')]) (\<lambda>_.
         construct recovery_outcome_post_init
           \<lparr>ro_format_version = ''1'', ro_recovery_id = er_identity r, ro_recovery_digest = er_digest r,
            ro_recovery_status = get_str recovery ''status'' [], ro_source_reconciliation_id = source_id,
            ro_reconciliation_id = reconciliation_id, ro_reconciliation_digest = er_digest q,
            ro_reconciliation_status = status, ro_outcome = ''recovered''\<rparr>)))))))))"

section \<open>Reports\<close>

definition outcome_checks :: "string list" where
  "outcome_checks = [''attestation_integrity'', ''evidence_chain_integrity'', ''evidence_sources'', ''state_transition_integrity'',
     ''state_transition_binding'', ''outcome_semantics'', ''comparison_binding'', ''reconciliation_binding'',
     ''recovery_outcome_binding'', ''attestation_binding'']"

record outcome_report =
  ov_attestation_id :: string
  ov_subject_id :: string
  ov_verified :: bool
  ov_checks :: "string list"
  ov_failures :: "string list"

definition outcome_report_post_init :: "outcome_report \<Rightarrow> unit result" where
  "outcome_report_post_init r = guards [
     (blank (ov_attestation_id r) \<or> blank (ov_subject_id r), ValueError ''must not be empty''),
     (\<not> set (ov_checks r) \<subseteq> set outcome_checks, ValueError ''unsupported verification check''),
     (\<not> distinct (ov_checks r), ValueError ''must be unique''),
     (ov_verified r \<and> ov_failures r \<noteq> [], ValueError ''cannot contain failures''),
     (\<not> ov_verified r \<and> ov_failures r = [], ValueError ''must contain failures'')]"

definition outcome_report_payload :: "outcome_report \<Rightarrow> payload" where
  "outcome_report_payload r = [
     (''attestation_id'', JStr (ov_attestation_id r)),
     (''subject_id'', JStr (ov_subject_id r)),
     (''verified'', JBool (ov_verified r)),
     (''checks'', jstrs (ov_checks r)),
     (''failures'', jstrs (ov_failures r))]"

definition outcome_report_to_dict :: "outcome_report \<Rightarrow> bool \<Rightarrow> payload" where
  "outcome_report_to_dict r include_digest =
     outcome_report_payload r @ (if include_digest then [(''digest'', JStr (digest_of (outcome_report_payload r)))] else [])"

section \<open>Verification of an outcome\<close>

definition transition_for_attestation ::
    "bool \<Rightarrow> bool \<Rightarrow> jsonl \<Rightarrow> string \<Rightarrow> attestation \<Rightarrow> transition result \<times> jsonl" where
  "transition_for_attestation acquired recover history subject_id a =
     (case jsonl_read acquired recover history (Some subject_id) of
        (Inl e, history') \<Rightarrow> (Inl e, history')
      | (Inr transitions, history') \<Rightarrow>
          (case filter (\<lambda>t. rt_transition_id t = oa_transition_id a) transitions of
             [] \<Rightarrow> (Inl (ValueError ''transition not found''), history')
           | [t] \<Rightarrow> (Inr t, history')
           | _ \<Rightarrow> (Inl (ValueError ''transition is not unique''), history')))"

text \<open>A \<open>try\<close> block: the checks it has recorded and the exception that has ended it, if any.\<close>

type_synonym try_block = "string list \<times> exn option"

definition attempt :: "string list \<Rightarrow> 'a result \<Rightarrow> try_block" where
  "attempt checks r = (case r of Inl e \<Rightarrow> ([], Some e) | Inr _ \<Rightarrow> (checks, None))"

fun exn_text :: "exn \<Rightarrow> string" where
  "exn_text (ValueError m) = m" | "exn_text (KeyError m) = m" | "exn_text (AttributeError m) = m"
| "exn_text (PermissionError m) = m" | "exn_text (IntegrityError m) = m" | "exn_text (TypeError m) = m"
| "exn_text (RuntimeError m) = m" | "exn_text (StopIteration m) = m" | "exn_text (OverflowError m) = m"
| "exn_text (TimeoutError m) = m" | "exn_text (FileNotFoundError m) = m" | "exn_text (IsADirectoryError m) = m"
| "exn_text (JSONDecodeError m) = m" | "exn_text (UnicodeDecodeError m) = m" | "exn_text (TrustAnchorError m) = m"
| "exn_text (AnchorDiscrepancyError m) = m" | "exn_text (ContainmentViolationError m) = m"
| "exn_text (ApprovalIdempotencyConflictError m) = m" | "exn_text (ApprovalAlreadyRecordedError m) = m"
| "exn_text (ApprovalLifecycleConflictError m) = m" | "exn_text (ApprovalLifecycleTargetError m) = m"

definition is_os_error :: "exn \<Rightarrow> bool" where
  "is_os_error e = (case e of PermissionError _ \<Rightarrow> True | TimeoutError _ \<Rightarrow> True | FileNotFoundError _ \<Rightarrow> True
     | IsADirectoryError _ \<Rightarrow> True | _ \<Rightarrow> False)"

text \<open>The blocks in order; an exception that a block does not catch ends the verification.\<close>

fun run_attempts :: "((exn \<Rightarrow> bool) \<times> try_block) list \<Rightarrow> (string list \<times> string list) result" where
  "run_attempts [] = Inr ([], [])"
| "run_attempts ((catches, checks, None) # rest) =
     bindE (run_attempts rest) (\<lambda>(cs, fs). Inr (checks @ cs, fs))"
| "run_attempts ((catches, checks, Some e) # rest) =
     (if catches e then bindE (run_attempts rest) (\<lambda>(cs, fs). Inr (checks @ cs, exn_text e # fs)) else Inl e)"

definition check_chain_attempt :: "(string \<Rightarrow> int option) \<Rightarrow> (string \<Rightarrow> located) \<Rightarrow> attestation \<Rightarrow> chain \<Rightarrow> try_block" where
  "check_chain_attempt fval locate a c = attempt [''evidence_chain_integrity'', ''evidence_sources'']
     (bindE (guards [(oa_chain_id a \<noteq> rc_chain_id c \<or> oa_chain_digest a \<noteq> chain_digest c, ValueError ''not bound to the chain'')])
       (\<lambda>_. verify_chain fval locate c))"

definition check_transition_attempt :: "attestation \<Rightarrow> chain \<Rightarrow> transition result \<Rightarrow> try_block" where
  "check_transition_attempt a c found = attempt [''state_transition_integrity'', ''state_transition_binding'']
     (bindE found (\<lambda>t. guards [
       (transition_digest t \<noteq> oa_transition_digest a, ValueError ''transition digest''),
       (rt_evidence_chain_id t \<noteq> rc_chain_id c \<or> rt_evidence_chain_digest t \<noteq> chain_digest c, ValueError ''transition chain'')]))"

definition outcome_decision :: "string \<Rightarrow> string option" where
  "outcome_decision state = map_of [(''reliable'', ''accept''), (''recovered'', ''accept''), (''degraded'', ''review''),
     (''unreliable'', ''reject'')] state"

definition check_semantics :: "string \<Rightarrow> attestation \<Rightarrow> chain \<Rightarrow> transition \<Rightarrow> unit result" where
  "check_semantics subject_id a c t =
     bindE (guards [
       (rt_subject_id t \<noteq> oa_subject a \<or> rt_subject_id t \<noteq> subject_id, ValueError ''subject binding mismatch''),
       (rt_to_state t \<noteq> oa_reliability_state a \<or> rt_decision t \<noteq> oa_decision a, ValueError ''attested outcome'')]) (\<lambda>_.
     bindE (case outcome_decision (rt_to_state t) of None \<Rightarrow> Inl (KeyError (rt_to_state t)) | Some d \<Rightarrow> Inr d) (\<lambda>expected. guards [
       (rt_decision t \<noteq> expected, ValueError ''decision/state semantics''),
       (rt_to_state t = ''recovered'' \<and> rc_reconciliation_state c \<noteq> ''recovered'', ValueError ''recovered reconciliation state'')]))"

definition semantics_attempt :: "(string \<Rightarrow> located) \<Rightarrow> string \<Rightarrow> attestation \<Rightarrow> chain \<Rightarrow> transition \<Rightarrow> try_block" where
  "semantics_attempt locate subject_id a c t =
     (case check_semantics subject_id a c t of
        Inl e \<Rightarrow> ([], Some e)
      | Inr _ \<Rightarrow>
          (let done = [''outcome_semantics''] @ (if rc_comparison_ref c \<noteq> None then [''comparison_binding''] else []) @
                 (if rc_reconciliation_binding_ref c \<noteq> None then [''reconciliation_binding''] else [])
           in if rt_to_state t \<noteq> ''recovered'' then (done, None)
              else case verify_recovery_outcome locate c of
                  Inl e \<Rightarrow> (done, Some e)
                | Inr _ \<Rightarrow> (done @ [''recovery_outcome_binding''], None)))"

definition expected_checks :: "chain \<Rightarrow> string set" where
  "expected_checks c =
     {''attestation_integrity'', ''evidence_chain_integrity'', ''evidence_sources'', ''state_transition_integrity'',
      ''state_transition_binding'', ''outcome_semantics'', ''attestation_binding''} \<union>
     (if rc_reliability_state c = ''recovered'' then {''recovery_outcome_binding''} else {}) \<union>
     (if rc_comparison_ref c \<noteq> None then {''comparison_binding''} else {}) \<union>
     (if rc_reconciliation_binding_ref c \<noteq> None then {''reconciliation_binding''} else {})"

text \<open>The blocks before the history is read, and those after.\<close>

definition early_attempts ::
    "(string \<Rightarrow> int option) \<Rightarrow> (string \<Rightarrow> located) \<Rightarrow> attestation \<Rightarrow> chain \<Rightarrow> ((exn \<Rightarrow> bool) \<times> try_block) list" where
  "early_attempts fval locate a c =
     [(is_value_error, attempt [''attestation_integrity'']
         (guards [(attestation_digest a \<noteq> oa_digest a, ValueError ''attestation digest mismatch'')])),
      (\<lambda>e. is_value_error e \<or> (case e of FileNotFoundError _ \<Rightarrow> True | _ \<Rightarrow> False), check_chain_attempt fval locate a c)]"

definition late_attempts ::
    "(string \<Rightarrow> located) \<Rightarrow> string \<Rightarrow> attestation \<Rightarrow> chain \<Rightarrow> transition result \<Rightarrow> ((exn \<Rightarrow> bool) \<times> try_block) list" where
  "late_attempts locate subject_id a c found =
     (\<lambda>e. is_value_error e \<or> is_os_error e, check_transition_attempt a c found) #
     (case found of
        Inl _ \<Rightarrow> []
      | Inr t \<Rightarrow> [
          (is_value_error, semantics_attempt locate subject_id a c t),
          (is_value_error, attempt [''attestation_binding''] (verify_outcome_binding a c t))])"

definition outcome_report_of :: "string \<Rightarrow> attestation \<Rightarrow> chain \<Rightarrow> string list \<Rightarrow> string list \<Rightarrow> outcome_report result" where
  "outcome_report_of subject_id a c checks failed =
     (let failures = (if oa_subject a \<noteq> subject_id then [''subject binding mismatch''] else []) @ failed in
      construct outcome_report_post_init
        \<lparr>ov_attestation_id = oa_attestation_id a, ov_subject_id = subject_id,
         ov_verified = (failures = [] \<and> set checks = expected_checks c), ov_checks = checks, ov_failures = failures\<rparr>)"

definition verify_outcome ::
    "(string \<Rightarrow> int option) \<Rightarrow> (string \<Rightarrow> located) \<Rightarrow> bool \<Rightarrow> bool \<Rightarrow> jsonl \<Rightarrow> string \<Rightarrow> attestation \<Rightarrow> chain \<Rightarrow>
     outcome_report result \<times> jsonl" where
  "verify_outcome fval locate acquired recover history subject_id a c =
     (case run_attempts (early_attempts fval locate a c) of
        Inl e \<Rightarrow> (Inl e, history)
      | Inr (early_checks, early_failed) \<Rightarrow>
          (case transition_for_attestation acquired recover history subject_id a of
             (found, history') \<Rightarrow>
               (bindE (run_attempts (late_attempts locate subject_id a c found)) (\<lambda>(checks, failed).
                  outcome_report_of subject_id a c (early_checks @ checks) (early_failed @ failed)), history')))"

section \<open>When a report is positive\<close>

lemma attempt_None: "snd (attempt cs r) = None \<longleftrightarrow> is_ok r" "snd (attempt cs r) = None \<Longrightarrow> fst (attempt cs r) = cs"
  by (cases r; simp add: attempt_def)+

lemma run_attempts_clean:
  "run_attempts xs = Inr (cs, []) \<longleftrightarrow> list_all (\<lambda>x. snd (snd x) = None) xs \<and> cs = concat (map (fst \<circ> snd) xs)"
proof (induction xs arbitrary: cs)
  case (Cons x xs)
  then show ?case
  proof (cases x)
    case (fields catches checks e)
    with Cons show ?thesis by (cases e) (auto simp: bindE_eq_Inr_iff)
  qed
qed auto

text \<open>The semantics block, when nothing ends it.\<close>

lemma semantics_attempt_None:
  "snd (semantics_attempt locate subject_id a c t) = None \<longleftrightarrow>
    check_semantics subject_id a c t = Inr () \<and> (rt_to_state t = ''recovered'' \<longrightarrow> is_ok (verify_recovery_outcome locate c))"
  by (auto simp: semantics_attempt_def Let_def is_ok_def split: sum.splits)

lemma semantics_attempt_checks:
  "snd (semantics_attempt locate subject_id a c t) = None \<Longrightarrow>
    fst (semantics_attempt locate subject_id a c t) = [''outcome_semantics''] @
      (if rc_comparison_ref c \<noteq> None then [''comparison_binding''] else []) @
      (if rc_reconciliation_binding_ref c \<noteq> None then [''reconciliation_binding''] else []) @
      (if rt_to_state t = ''recovered'' then [''recovery_outcome_binding''] else [])"
  by (auto simp: semantics_attempt_def Let_def split: sum.splits if_splits)

definition outcome_bound :: "(string \<Rightarrow> int option) \<Rightarrow> (string \<Rightarrow> located) \<Rightarrow> string \<Rightarrow> attestation \<Rightarrow> chain \<Rightarrow> transition \<Rightarrow> bool" where
  "outcome_bound fval locate subject_id a c t =
     (oa_digest a = attestation_digest a \<and> verify_chain fval locate c = Inr () \<and>
      transition_digest t = oa_transition_digest a \<and> rt_evidence_chain_id t = rc_chain_id c \<and>
      rt_evidence_chain_digest t = chain_digest c \<and> rt_subject_id t = subject_id \<and>
      outcome_decision (rt_to_state t) = Some (rt_decision t) \<and>
      (rt_to_state t = ''recovered'' \<longrightarrow> rc_reconciliation_state c = ''recovered'' \<and> is_ok (verify_recovery_outcome locate c)) \<and>
      verify_outcome_binding a c t = Inr ())"

lemma verify_outcome_binding_Inr:
  "verify_outcome_binding a c t = Inr () \<longleftrightarrow>
     oa_chain_id a = rc_chain_id c \<and> oa_chain_digest a = chain_digest c \<and> oa_transition_id a = rt_transition_id t \<and>
     oa_transition_digest a = transition_digest t \<and> oa_subject a = rt_subject_id t \<and> oa_reliability_state a = rt_to_state t \<and>
     oa_decision a = rt_decision t \<and> oa_verification_status a = rc_verification_status c \<and>
     oa_reconciliation_state a = rc_reconciliation_state c \<and> oa_digest a = attestation_digest a"
  by (auto simp: verify_outcome_binding_def)

lemma attempts_clean:
  "(list_all (\<lambda>x. snd (snd x) = None) (early_attempts fval locate a c @ late_attempts locate subject_id a c (Inr t)) \<and> oa_subject a = subject_id) =
    outcome_bound fval locate subject_id a c t"
  by (auto simp: early_attempts_def late_attempts_def attempt_None check_chain_attempt_def check_transition_attempt_def
      semantics_attempt_None check_semantics_def outcome_bound_def verify_outcome_binding_Inr is_ok_iff bindE_eq_Inr_iff
      split: option.splits)

definition clean_checks :: "chain \<Rightarrow> transition \<Rightarrow> string list" where
  "clean_checks c t =
     [''attestation_integrity'', ''evidence_chain_integrity'', ''evidence_sources'', ''state_transition_integrity'',
      ''state_transition_binding'', ''outcome_semantics''] @
     (if rc_comparison_ref c \<noteq> None then [''comparison_binding''] else []) @
     (if rc_reconciliation_binding_ref c \<noteq> None then [''reconciliation_binding''] else []) @
     (if rt_to_state t = ''recovered'' then [''recovery_outcome_binding''] else []) @ [''attestation_binding'']"

lemma attempts_checks:
  assumes "list_all (\<lambda>x. snd (snd x) = None) (early_attempts fval locate a c @ late_attempts locate s a c (Inr t))"
  shows "concat (map (fst \<circ> snd) (early_attempts fval locate a c @ late_attempts locate s a c (Inr t))) = clean_checks c t"
  using assms
  by (simp add: early_attempts_def late_attempts_def check_chain_attempt_def check_transition_attempt_def attempt_None(2)
      semantics_attempt_checks clean_checks_def)

lemma clean_checks_expected:
  "set (clean_checks c t) = expected_checks c \<longleftrightarrow> (rt_to_state t = ''recovered'' \<longleftrightarrow> rc_reliability_state c = ''recovered'')"
proof
  assume "set (clean_checks c t) = expected_checks c"
  then have "''recovery_outcome_binding'' \<in> set (clean_checks c t) \<longleftrightarrow> ''recovery_outcome_binding'' \<in> expected_checks c" by simp
  then show "rt_to_state t = ''recovered'' \<longleftrightarrow> rc_reliability_state c = ''recovered''"
    by (simp add: clean_checks_def expected_checks_def split: if_splits)
next
  assume "rt_to_state t = ''recovered'' \<longleftrightarrow> rc_reliability_state c = ''recovered''"
  then show "set (clean_checks c t) = expected_checks c"
    by (auto simp: clean_checks_def expected_checks_def)
qed

lemma clean_checks_valid: "set (clean_checks c t) \<subseteq> set outcome_checks" "distinct (clean_checks c t)"
  by (auto simp: clean_checks_def outcome_checks_def)

lemma late_attempts_Inl:
  "\<not> list_all (\<lambda>x. snd (snd x) = None) (late_attempts locate s a c (Inl e))"
  by (simp add: late_attempts_def check_transition_attempt_def attempt_def)

text \<open>A run without any failure.\<close>

lemma outcome_bound_runs:
  assumes "outcome_bound fval locate s a c t"
  shows "\<exists>cs1 cs2. run_attempts (early_attempts fval locate a c) = Inr (cs1, []) \<and>
    run_attempts (late_attempts locate s a c (Inr t)) = Inr (cs2, []) \<and> cs1 @ cs2 = clean_checks c t \<and> oa_subject a = s"
proof -
  have l: "list_all (\<lambda>x. snd (snd x) = None) (early_attempts fval locate a c @ late_attempts locate s a c (Inr t))" "oa_subject a = s"
    using assms attempts_clean [of fval locate a c s t] by auto
  with attempts_checks [OF l(1)] show ?thesis
    using run_attempts_clean [of "early_attempts fval locate a c"] run_attempts_clean [of "late_attempts locate s a c (Inr t)"]
    by auto
qed

lemma outcome_verified_holds:
  "(\<exists>r. fst (verify_outcome fval locate acquired recover history s a c) = Inr r \<and> ov_verified r) \<longleftrightarrow>
   \<not> blank (oa_attestation_id a) \<and> \<not> blank s \<and>
   (\<exists>t. fst (transition_for_attestation acquired recover history s a) = Inr t \<and> outcome_bound fval locate s a c t \<and>
     (rt_to_state t = ''recovered'' \<longleftrightarrow> rc_reliability_state c = ''recovered''))"
proof -
  obtain found history' where f: "transition_for_attestation acquired recover history s a = (found, history')" by fastforce
  show ?thesis
  proof
    assume "\<exists>r. fst (verify_outcome fval locate acquired recover history s a c) = Inr r \<and> ov_verified r"
    then obtain cs1 cs2 r where run: "run_attempts (early_attempts fval locate a c) = Inr (cs1, [])"
        "run_attempts (late_attempts locate s a c found) = Inr (cs2, [])" "oa_subject a = s" "set (cs1 @ cs2) = expected_checks c"
      and nb: "\<not> blank (oa_attestation_id a)" "\<not> blank s"
      by (fastforce simp: verify_outcome_def f outcome_report_of_def Let_def construct_Inr_iff bindE_eq_Inr_iff
          outcome_report_post_init_def split: sum.splits if_splits)
    note l = run(1,2) [unfolded run_attempts_clean]
    obtain t where t: "found = Inr t" using l(2) late_attempts_Inl by (cases found) auto
    have all: "list_all (\<lambda>x. snd (snd x) = None) (early_attempts fval locate a c @ late_attempts locate s a c (Inr t))"
      using l t by simp
    then have "outcome_bound fval locate s a c t" using attempts_clean run(3) by blast
    moreover have "cs1 @ cs2 = clean_checks c t" using attempts_checks [OF all] l t by simp
    ultimately show "\<not> blank (oa_attestation_id a) \<and> \<not> blank s \<and>
        (\<exists>t. fst (transition_for_attestation acquired recover history s a) = Inr t \<and> outcome_bound fval locate s a c t \<and>
          (rt_to_state t = ''recovered'' \<longleftrightarrow> rc_reliability_state c = ''recovered''))"
      using nb f t run(4) clean_checks_expected [of c t] by auto
  next
    assume "\<not> blank (oa_attestation_id a) \<and> \<not> blank s \<and>
        (\<exists>t. fst (transition_for_attestation acquired recover history s a) = Inr t \<and> outcome_bound fval locate s a c t \<and>
          (rt_to_state t = ''recovered'' \<longleftrightarrow> rc_reliability_state c = ''recovered''))"
    then obtain t where nb: "\<not> blank (oa_attestation_id a)" "\<not> blank s" and t: "found = Inr t" "outcome_bound fval locate s a c t"
      "rt_to_state t = ''recovered'' \<longleftrightarrow> rc_reliability_state c = ''recovered''" using f by auto
    from outcome_bound_runs [OF t(2)] obtain cs1 cs2 where run: "run_attempts (early_attempts fval locate a c) = Inr (cs1, [])"
      "run_attempts (late_attempts locate s a c (Inr t)) = Inr (cs2, [])" "cs1 @ cs2 = clean_checks c t" "oa_subject a = s" by blast
    have "set (cs1 @ cs2) = expected_checks c" unfolding run(3) clean_checks_expected by (rule t(3))
    then show "\<exists>r. fst (verify_outcome fval locate acquired recover history s a c) = Inr r \<and> ov_verified r"
      using nb run clean_checks_valid [of c t] unfolding run(3) [symmetric]
      by (simp add: verify_outcome_def f t(1) outcome_report_of_def construct_Inr_iff outcome_report_post_init_def)
  qed
qed

text \<open>
  C6: a positive report means exactly this. \<open>verify_reliability_outcome\<close> reports an outcome as verified if and only if the
  history has one transition of the attested identity for the subject, that transition and the attestation are bound to
  the chain and to each other by their digests, the chain verifies against its evidence, the decision is the one of the
  state, and the transition recovers if and only if the chain does, with recovery artifacts that verify.
\<close>

theorem outcome_verified_iff:
  "(\<exists>r. fst (verify_outcome fval locate acquired recover history s a c) = Inr r \<and> ov_verified r) \<longleftrightarrow>
   \<not> blank (oa_attestation_id a) \<and> \<not> blank s \<and>
   (\<exists>t. fst (transition_for_attestation acquired recover history s a) = Inr t \<and> outcome_bound fval locate s a c t \<and>
     (rt_to_state t = ''recovered'' \<longleftrightarrow> rc_reliability_state c = ''recovered''))"
  by (rule outcome_verified_holds)

text \<open>
  C37: a chain in the state \<open>recovered\<close> with an attested transition to any other state gets no report. When everything that
  is compared agrees, \<open>verify_reliability_outcome\<close> finds no failure, but misses the recovery check the chain calls for, and
  the constructor of the report refuses a negative report without failures.
\<close>

theorem recovered_chain_no_report:
  assumes "fst (transition_for_attestation acquired recover history s a) = Inr t" "outcome_bound fval locate s a c t"
    and "rc_reliability_state c = ''recovered''" "rt_to_state t \<noteq> ''recovered''" "\<not> blank (oa_attestation_id a)" "\<not> blank s"
  shows "fst (verify_outcome fval locate acquired recover history s a c) = Inl (ValueError ''must contain failures'')"
proof -
  obtain history' where f: "transition_for_attestation acquired recover history s a = (Inr t, history')"
    using assms(1) by (metis prod.collapse)
  from outcome_bound_runs [OF assms(2)] obtain cs1 cs2 where run: "run_attempts (early_attempts fval locate a c) = Inr (cs1, [])"
    "run_attempts (late_attempts locate s a c (Inr t)) = Inr (cs2, [])" "cs1 @ cs2 = clean_checks c t" "oa_subject a = s" by blast
  have "set (cs1 @ cs2) \<noteq> expected_checks c" unfolding run(3) clean_checks_expected using assms(3,4) by simp
  then show ?thesis
    using run assms(5,6) clean_checks_valid [of c t] unfolding run(3) [symmetric]
    by (simp add: verify_outcome_def f outcome_report_of_def construct_def outcome_report_post_init_def)
qed

lemma verified_no_failures:
  "fst (verify_outcome fval locate acquired recover history s a c) = Inr r \<Longrightarrow> ov_verified r \<Longrightarrow> ov_failures r = []"
  by (auto simp: verify_outcome_def outcome_report_of_def Let_def construct_Inr_iff bindE_eq_Inr_iff split: sum.splits prod.splits)

section \<open>What the verification guarantees, and what it does not\<close>

lemma filter_single_id:
  assumes "distinct (map f xs)" "x \<in> set xs"
  shows "filter (\<lambda>y. f y = f x) xs = [x]"
  using filter_unique [OF assms] .

lemma transition_found:
  assumes "jsonl_represents history h" "t \<in> set h" "oa_transition_id a = rt_transition_id t"
  shows "transition_for_attestation True recover history (rt_subject_id t) a = (Inr t, history)"
proof -
  have "distinct (map rt_transition_id (select (Some (rt_subject_id t)) h))"
    using jsonl.represents_ok [OF assms(1)]
    by (auto simp: history_ok_def select_def of_subject_def intro: distinct_map_filter)
  moreover have "t \<in> set (select (Some (rt_subject_id t)) h)" using assms(2) by (simp add: select_def of_subject_def)
  ultimately have "filter (\<lambda>u. rt_transition_id u = rt_transition_id t) (select (Some (rt_subject_id t)) h) = [t]"
    by (rule filter_unique)
  then show ?thesis
    using jsonl.read_ok [OF assms(1), of recover "Some (rt_subject_id t)"] by (simp add: transition_for_attestation_def assms(3))
qed

lemma attestation_decision:
  "attestation_guards a = Inr () \<Longrightarrow> outcome_decision (oa_reliability_state a) = Some (oa_decision a)"
  by (auto simp: attestation_guards_def outcome_decision_def expected_decision_def)

text \<open>
  C14: what the services write, the verification accepts. An attestation that is built for a chain and a transition of the
  recorded history is reported as verified, when the chain verifies and has the state of the transition and, for a recovered
  state, the recovery artifacts verify.
\<close>

theorem attested_outcome_verifies:
  assumes "build_attestation local acquired now store c t actor occurred_at k = Inr a"
    and "jsonl_represents history h" "t \<in> set h" "verify_chain fval locate c = Inr ()"
    and "rt_to_state t = rc_reliability_state c" "rt_to_state t = ''recovered'' \<longrightarrow> is_ok (verify_recovery_outcome locate c)"
  shows "\<exists>r. verify_outcome fval locate True recover history (rt_subject_id t) a c = (Inr r, history) \<and> ov_verified r \<and> ov_failures r = []"
proof -
  obtain R u where g: "rt_evidence_chain_id t = rc_chain_id c" "rt_evidence_chain_digest t = chain_digest c" "\<not> blank (rt_subject_id t)"
    by (rule build_attestation_InrE [OF assms(1)])
  note ok = build_attestation_bound [OF assms(1)]
  have gd: "attestation_guards a = Inr ()" and dg: "oa_digest a = attestation_digest a" using ok(1) by (simp_all add: attestation_ok_def)
  note b = ok(2) [unfolded verify_outcome_binding_Inr]
  have nb: "\<not> blank (oa_attestation_id a)" using gd by (simp add: attestation_guards_def)
  have "rt_to_state t = ''recovered'' \<longrightarrow> rc_reconciliation_state c = ''recovered''"
    using gd b by (auto simp: attestation_guards_def)
  then have bound: "outcome_bound fval locate (rt_subject_id t) a c t"
    using b g attestation_decision [OF gd] assms(4,6) dg ok(2) by (simp add: outcome_bound_def)
  have f: "transition_for_attestation True recover history (rt_subject_id t) a = (Inr t, history)"
    using transition_found [OF assms(2,3)] b by simp
  have "\<exists>r. fst (verify_outcome fval locate True recover history (rt_subject_id t) a c) = Inr r \<and> ov_verified r"
    unfolding outcome_verified_holds using nb g(3) f bound assms(5) by auto
  then obtain r where r: "fst (verify_outcome fval locate True recover history (rt_subject_id t) a c) = Inr r" "ov_verified r" by blast
  moreover have "ov_failures r = []" using verified_no_failures [OF r] .
  moreover have "snd (verify_outcome fval locate True recover history (rt_subject_id t) a c) = history"
    using f by (auto simp: verify_outcome_def split: sum.splits)
  ultimately show ?thesis by (metis prod.collapse)
qed

text \<open>
  C34: a positive report does not compare the outcome with the chain. When an attestation and a recorded transition agree on
  an outcome and are bound to a chain that verifies, the report is positive although the chain was judged otherwise:
  neither the state nor the decision of the chain is looked at.
\<close>

theorem verified_outcome_contradicts_chain:
  assumes "jsonl_represents history h" "t \<in> set h" "outcome_bound fval locate (rt_subject_id t) a c t"
    and "rt_to_state t \<noteq> ''recovered''" "rc_reliability_state c \<noteq> ''recovered''" "rt_to_state t \<noteq> rc_reliability_state c"
    and "\<not> blank (oa_attestation_id a)" "\<not> blank (rt_subject_id t)"
  shows "\<exists>r. fst (verify_outcome fval locate True recover history (rt_subject_id t) a c) = Inr r \<and> ov_verified r \<and>
    oa_reliability_state a \<noteq> rc_reliability_state c"
proof -
  note b = assms(3) [unfolded outcome_bound_def verify_outcome_binding_Inr]
  have "transition_for_attestation True recover history (rt_subject_id t) a = (Inr t, history)"
    using transition_found [OF assms(1,2)] b by simp
  then have "\<exists>r. fst (verify_outcome fval locate True recover history (rt_subject_id t) a c) = Inr r \<and> ov_verified r"
    unfolding outcome_verified_holds using assms by auto
  then show ?thesis using b assms(6) by auto
qed

lemma guards_value_error: "guards gs = Inl e \<Longrightarrow> list_all (\<lambda>g. is_value_error (snd g)) gs \<Longrightarrow> is_value_error e"
  by (auto dest!: guards_Inl_mem simp: list_all_iff)

text \<open>
  A recovered outcome whose recovery artifact is missing gets no report. The check of the chain records the missing file
  as a failure, but the check of the recovery looks for it again in a block that catches \<open>ValueError\<close> only:
  \<open>verify_reliability_outcome\<close> raises, instead of reporting the failure.
\<close>

theorem missing_recovery_raises:
  assumes "fst (transition_for_attestation acquired recover history s a) = Inr t" "check_semantics s a c t = Inr ()"
    and "rt_to_state t = ''recovered''" "rc_reliability_state c = ''recovered''"
    and "rc_recovery_ref c = Some r" "er_kind r = ''recovery''" "er_source r = Some x"
    and "rc_reconciliation_ref c = Some q" "er_kind q = ''reconciliation''" "er_source q = Some y"
    and "locate (backslash_to_slash x) = Absent" "locate (backslash_to_slash y) \<noteq> Outside"
  shows "\<exists>e. fst (verify_outcome fval locate acquired recover history s a c) = Inl e \<and> \<not> is_value_error e"
proof (cases "run_attempts (early_attempts fval locate a c)")
  case (Inl e)
  then have "\<not> is_value_error e"
    by (cases "check_chain_attempt fval locate a c")
      (auto simp: early_attempts_def attempt_def bindE_def split: sum.splits option.splits if_splits elim!: run_attempts.elims)
  with Inl show ?thesis by (simp add: verify_outcome_def)
next
  case (Inr early)
  obtain history' where f: "transition_for_attestation acquired recover history s a = (Inr t, history')"
    using assms(1) by (metis prod.collapse)
  have "recovery_sources locate x y = Inl (FileNotFoundError ''recovery source not found'')"
    using assms(11,12) by (simp add: recovery_sources_def split: located.splits)
  then have "verify_recovery_outcome locate c = Inl (FileNotFoundError ''recovery source not found'')"
    using assms(4-10) by (simp add: verify_recovery_outcome_def opt_or_def)
  then have sem: "snd (semantics_attempt locate s a c t) = Some (FileNotFoundError ''recovery source not found'')"
    using assms(2,3) by (simp add: semantics_attempt_def Let_def)
  obtain cs e where ct: "check_transition_attempt a c (Inr t) = (cs, e)" "\<forall>x. e = Some x \<longrightarrow> is_value_error x"
    by (cases "check_transition_attempt a c (Inr t)") (auto simp: check_transition_attempt_def attempt_def dest: guards_value_error split: sum.splits)
  have "run_attempts (late_attempts locate s a c (Inr t)) = Inl (FileNotFoundError ''recovery source not found'')"
    using sem ct by (cases "semantics_attempt locate s a c t"; cases e) (simp_all add: late_attempts_def)
  with Inr f show ?thesis by (auto simp: verify_outcome_def)
qed

lemma verify_recovery_identity:
  assumes "verify_recovery_outcome locate c = Inr r" "rc_reconciliation_ref c = Some q" "er_source q = Some y"
    and "locate (backslash_to_slash y) = Content content" "load_object (\<lambda>_. Some content) y ''payload'' = Inr d"
    and "map_of d ''bundle_id'' = Some w"
  shows "py_str w = er_identity q"
  using assms
  by (auto simp: verify_recovery_outcome_def recovery_sources_def Let_def opt_or_def get_or_def bindE_eq_Inr_iff
      split: option.splits located.splits)

lemma verify_binding_identity:
  assumes "verify_chain fval locate c = Inr ()" "rc_reconciliation_binding_ref c = Some b" "rc_reconciliation_ref c = Some q"
    and "er_source q = Some y" "locate (backslash_to_slash y) = Content content" "load_object (\<lambda>_. Some content) y ''payload'' = Inr d"
    and "map_of d ''reconciliation_id'' = Some v"
  shows "py_str v = er_identity q"
proof -
  have "verify_binding_ref locate c b = Inr ()" using assms(1,2) by (auto simp: verify_chain_def bindE_eq_Inr_iff)
  then obtain cmp bind where "verify_binding bind cmp (located_file locate q) = Inr ()" "rb_reconciliation_id bind = er_identity q"
    using assms(3) by (auto simp: verify_binding_ref_def bindE_eq_Inr_iff split: option.splits)
  moreover have "load_object (\<lambda>_. Some content) ''reconciliation'' ''payload'' = Inr d"
    using assms(6) by (simp add: load_object_Inr)
  ultimately show ?thesis
    using assms(4,5,7)
    by (auto simp: verify_binding_def located_file_def reconciliation_semantics_def get_either_def get_or_def Let_def bindE_eq_Inr_iff)
qed

text \<open>
  C38: the two readers of a reconciliation disagree on its name. The binding of a reconciliation and the chain take
  \<open>reconciliation_id\<close> before \<open>bundle_id\<close>, the recovery check takes \<open>bundle_id\<close> first: for a chain with a reconciliation
  binding whose reconciliation carries both, with different values, no recovered outcome is ever reported as verified.
\<close>

theorem reconciliation_identity_conflict:
  assumes "rc_reliability_state c = ''recovered''" "rc_reconciliation_binding_ref c = Some b" "rc_reconciliation_ref c = Some q"
    and "er_source q = Some y" "locate (backslash_to_slash y) = Content content" "load_object (\<lambda>_. Some content) y ''payload'' = Inr d"
    and "map_of d ''reconciliation_id'' = Some v" "map_of d ''bundle_id'' = Some w" "py_str v \<noteq> py_str w"
  shows "\<not> (\<exists>r. fst (verify_outcome fval locate acquired recover history s a c) = Inr r \<and> ov_verified r)"
proof
  assume "\<exists>r. fst (verify_outcome fval locate acquired recover history s a c) = Inr r \<and> ov_verified r"
  then obtain t where "outcome_bound fval locate s a c t" "rt_to_state t = ''recovered''"
    unfolding outcome_verified_holds using assms(1) by auto
  then have v: "verify_chain fval locate c = Inr ()" and "is_ok (verify_recovery_outcome locate c)"
    by (auto simp: outcome_bound_def)
  then obtain r where "verify_recovery_outcome locate c = Inr r" by (auto simp: is_ok_iff)
  from verify_recovery_identity [OF this assms(3-6,8)] verify_binding_identity [OF v assms(2-7)] assms(9)
  show False by simp
qed

section \<open>Witnesses\<close>

text \<open>A chain in any state with sources that are not located, a first transition of it and an attestation of both.\<close>

definition judged_chain :: "string \<Rightarrow> string \<Rightarrow> string \<Rightarrow> chain" where
  "judged_chain state reconciliation decision =
     claim_chain\<lparr>rc_reliability_state := state, rc_reconciliation_state := reconciliation, rc_decision := decision\<rparr>"

definition first_fields :: "bool \<Rightarrow> transition" where
  "first_fields recovers = sample_transition
     \<lparr>rt_from_state := (if recovers then ''unreliable'' else ''unknown''), rt_to_state := (if recovers then ''recovered'' else ''reliable'')\<rparr>"

definition first_transition :: "bool \<Rightarrow> chain \<Rightarrow> transition" where
  "first_transition recovers c = (first_fields recovers)\<lparr>rt_evidence_chain_digest := chain_digest c\<rparr>"

definition first_outcome :: "bool \<Rightarrow> chain \<Rightarrow> attestation" where
  "first_outcome recovers c = outcome_fields c (first_transition recovers c) ''me'' (utc_iso (Aware 0)) None []"

definition first_attestation :: "bool \<Rightarrow> chain \<Rightarrow> attestation" where
  "first_attestation recovers c = (first_outcome recovers c)\<lparr>oa_digest := attestation_digest (first_outcome recovers c)\<rparr>"

lemma first_transition_fields [simp]:
  "rt_transition_id (first_transition r c) = ''t1''" "rt_subject_id (first_transition r c) = ''s''"
  "rt_evidence_chain_id (first_transition r c) = ''c''" "rt_evidence_chain_digest (first_transition r c) = chain_digest c"
  "rt_to_state (first_transition r c) = (if r then ''recovered'' else ''reliable'')" "rt_decision (first_transition r c) = ''accept''"
  "rt_previous (first_transition r c) = []"
  by (simp_all add: first_transition_def first_fields_def sample_transition_def)

lemma first_storable: "storable (first_transition recovers c)"
proof (rule storableI)
  have "transition_ok (first_fields True)" "transition_ok (first_fields False)" by code_simp+
  then have "transition_ok (first_fields recovers)" by (cases recovers) simp_all
  then show "transition_ok (first_transition recovers c)"
    by (simp add: transition_ok_def transition_post_init_def first_transition_def)
  have "list_all utf8_ok (transition_strings (first_fields True))" "list_all utf8_ok (transition_strings (first_fields False))" by code_simp+
  then have "list_all utf8_ok (transition_strings (first_fields recovers))" by (cases recovers) simp_all
  then show "list_all utf8_ok (transition_strings (first_transition recovers c))"
    using utf8_ok_sha256 [of "chain_digest c"] by (simp add: transition_strings_def first_transition_def)
qed

definition first_history :: "bool \<Rightarrow> chain \<Rightarrow> jsonl" where
  "first_history recovers c = snd (jsonl_append True True None (first_transition recovers c))"

lemma first_represents: "jsonl_represents (first_history recovers c) [first_transition recovers c]"
proof -
  have e: "jsonl_represents None []" by (simp add: jsonl_represents_def)
  have "append_spec [] (first_transition recovers c) = Inr (first_transition recovers c, [first_transition recovers c])"
    by (simp add: append_spec_def find_first_def)
  from jsonl.append_ok [OF e first_storable this, of True] show ?thesis by (simp add: first_history_def)
qed

lemma first_attestation_built:
  assumes "rc_chain_id c = ''c''" "rc_verification_status c = ''verified''" "rc_reconciliation_state c = (if r then ''recovered'' else ''verified'')"
  shows "build_attestation no_offset True (Aware 0) None c (first_transition r c) ''me'' None None = Inr (first_attestation r c)"
proof -
  have "read_attestations True None = Inr []" by (simp add: read_attestations_def read_represented [OF no_entries_represents])
  moreover have "make_attestation (first_outcome r c) = Inr (first_attestation r c)"
    using assms
    by (simp add: make_attestation_Inr first_attestation_def attestation_guards_def expected_decision_def)
      (simp add: first_outcome_def outcome_fields_def)
  moreover have "astimezone_utc no_offset (opt_or None (Aware 0)) = Inr (Aware 0)" by (simp add: opt_or_def sample_time)
  ultimately show ?thesis
    using assms(1) by (simp add: build_attestation_def first_outcome_def chain_tip_def last_opt_def)
qed

lemma judged_chain_verifies: "verify_chain (\<lambda>_. None) (\<lambda>_. Absent) (judged_chain s r d) = Inr ()"
  by (simp add: verify_chain_def verified_references_def verify_receipts_def verify_receipt_def verify_source_def
      verify_decision_basis_def judged_chain_def claim_chain_def sample_chain_def sample_ref_def contract_ref_def map_filter_simps)

lemma judged_chain_fields [simp]:
  "rc_chain_id (judged_chain s r d) = ''c''" "rc_verification_status (judged_chain s r d) = ''verified''"
  "rc_reconciliation_state (judged_chain s r d) = r" "rc_reliability_state (judged_chain s r d) = s"
  by (simp_all add: judged_chain_def claim_chain_def sample_chain_def)

lemma attested_outcome_verifies_witness:
  "\<exists>r. verify_outcome (\<lambda>_. None) (\<lambda>_. Absent) True True (first_history False (judged_chain ''reliable'' ''verified'' ''accept'')) ''s''
      (first_attestation False (judged_chain ''reliable'' ''verified'' ''accept'')) (judged_chain ''reliable'' ''verified'' ''accept'') =
    (Inr r, first_history False (judged_chain ''reliable'' ''verified'' ''accept'')) \<and> ov_verified r \<and> ov_failures r = []"
  using attested_outcome_verifies [OF first_attestation_built [of "judged_chain ''reliable'' ''verified'' ''accept''" False] first_represents
      _ judged_chain_verifies, where recover = True] by simp

text \<open>An attestation is bound to a judged chain, whatever the judgment.\<close>

lemma first_bound:
  assumes "c = judged_chain s ''verified'' d"
  shows "outcome_bound (\<lambda>_. None) (\<lambda>_. Absent) ''s'' (first_attestation False c) c (first_transition False c)"
    "\<not> blank (oa_attestation_id (first_attestation False c))" "oa_transition_id (first_attestation False c) = ''t1''"
proof -
  have b: "build_attestation no_offset True (Aware 0) None c (first_transition False c) ''me'' None None = Inr (first_attestation False c)"
    by (rule first_attestation_built) (simp_all add: assms)
  note ok = build_attestation_bound [OF b]
  have "oa_transition_digest (first_attestation False c) = transition_digest (first_transition False c)"
    using ok(2) by (simp add: verify_outcome_binding_Inr)
  then show "outcome_bound (\<lambda>_. None) (\<lambda>_. Absent) ''s'' (first_attestation False c) c (first_transition False c)"
    using ok judged_chain_verifies by (simp add: outcome_bound_def attestation_ok_def assms outcome_decision_def)
  show "\<not> blank (oa_attestation_id (first_attestation False c))"
    using ok(1) by (simp add: attestation_ok_def attestation_guards_def)
  show "oa_transition_id (first_attestation False c) = ''t1''" using ok(2) by (simp add: verify_outcome_binding_Inr)
qed

lemma verified_outcome_contradicts_chain_witness:
  "\<exists>r. fst (verify_outcome (\<lambda>_. None) (\<lambda>_. Absent) True True (first_history False (judged_chain ''unreliable'' ''verified'' ''reject'')) ''s''
      (first_attestation False (judged_chain ''unreliable'' ''verified'' ''reject'')) (judged_chain ''unreliable'' ''verified'' ''reject'')) = Inr r \<and>
    ov_verified r \<and> chain_post_init (judged_chain ''unreliable'' ''verified'' ''reject'') = Inr ()"
proof -
  have nb: "\<not> blank ''s''" by code_simp
  have p: "chain_post_init (judged_chain ''unreliable'' ''verified'' ''reject'') = Inr ()" by code_simp
  let ?c = "judged_chain ''unreliable'' ''verified'' ''reject''"
  have "outcome_bound (\<lambda>_. None) (\<lambda>_. Absent) (rt_subject_id (first_transition False ?c)) (first_attestation False ?c) ?c (first_transition False ?c)"
    using first_bound(1) [OF refl] by simp
  from verified_outcome_contradicts_chain [OF first_represents [of False ?c] _ this, where recover = True]
  show ?thesis using first_bound(2) [OF refl] nb p by auto
qed

lemma recovered_chain_no_report_witness:
  "fst (verify_outcome (\<lambda>_. None) (\<lambda>_. Absent) True True (first_history False (judged_chain ''recovered'' ''verified'' ''accept'')) ''s''
      (first_attestation False (judged_chain ''recovered'' ''verified'' ''accept'')) (judged_chain ''recovered'' ''verified'' ''accept'')) =
    Inl (ValueError ''must contain failures'')"
proof -
  let ?c = "judged_chain ''recovered'' ''verified'' ''accept''"
  have nb: "\<not> blank ''s''" by code_simp
  have "transition_for_attestation True True (first_history False ?c) ''s'' (first_attestation False ?c) = (Inr (first_transition False ?c), first_history False ?c)"
    using transition_found [OF first_represents [of False ?c], of "first_transition False ?c" "first_attestation False ?c" True]
      first_bound(3) [OF refl, of "''recovered''" "''accept''"] by simp
  then show ?thesis
    using recovered_chain_no_report [of True True "first_history False ?c" "''s''" "first_attestation False ?c" "first_transition False ?c" "\<lambda>_. None" "\<lambda>_. Absent" ?c]
      first_bound [OF refl, of "''recovered''" "''accept''"] nb by simp
qed

definition gone_chain :: chain where
  "gone_chain = (judged_chain ''recovered'' ''recovered'' ''accept'')
     \<lparr>rc_recovery_ref := Some (EvidenceReference ''recovery'' ''r'' (sha256_hex ''r'') (Some ''recovery.json'') None),
      rc_reconciliation_ref := Some (EvidenceReference ''reconciliation'' ''q'' (sha256_hex ''q'') (Some ''reconciliation.json'') None)\<rparr>"

lemma missing_recovery_raises_witness:
  "\<exists>e. fst (verify_outcome (\<lambda>_. None) (\<lambda>_. Absent) True True (first_history True gone_chain) ''s'' (first_attestation True gone_chain) gone_chain) =
    Inl e \<and> \<not> is_value_error e"
proof -
  have c: "rc_chain_id gone_chain = ''c''" "rc_verification_status gone_chain = ''verified''" "rc_reconciliation_state gone_chain = ''recovered''"
    "rc_reliability_state gone_chain = ''recovered''"
    by (simp_all add: gone_chain_def)
  have "build_attestation no_offset True (Aware 0) None gone_chain (first_transition True gone_chain) ''me'' None None =
      Inr (first_attestation True gone_chain)"
    by (rule first_attestation_built) (simp_all add: c)
  note b = build_attestation_bound(2) [OF this, unfolded verify_outcome_binding_Inr]
  have f: "transition_for_attestation True True (first_history True gone_chain) ''s'' (first_attestation True gone_chain) =
      (Inr (first_transition True gone_chain), first_history True gone_chain)"
    using transition_found [OF first_represents [of True gone_chain], of "first_transition True gone_chain" "first_attestation True gone_chain" True] b
    by simp
  have "check_semantics ''s'' (first_attestation True gone_chain) gone_chain (first_transition True gone_chain) = Inr ()"
    using b by (simp add: check_semantics_def outcome_decision_def c)
  moreover have "rc_recovery_ref gone_chain = Some (EvidenceReference ''recovery'' ''r'' (sha256_hex ''r'') (Some ''recovery.json'') None)"
    "rc_reconciliation_ref gone_chain = Some (EvidenceReference ''reconciliation'' ''q'' (sha256_hex ''q'') (Some ''reconciliation.json'') None)"
    by (simp_all add: gone_chain_def)
  ultimately show ?thesis
    using missing_recovery_raises [of True True "first_history True gone_chain" "''s''" "first_attestation True gone_chain" "first_transition True gone_chain"
        gone_chain _ "''recovery.json''" _ "''reconciliation.json''" "\<lambda>_. Absent" "\<lambda>_. None"] by (simp add: f c)
qed

definition two_names :: string where
  "two_names = ''{'' @ [CHR 0x22] @ ''reconciliation_id'' @ [CHR 0x22] @ '':1,'' @ [CHR 0x22] @ ''bundle_id'' @ [CHR 0x22] @ '':2}''"

lemma reconciliation_identity_conflict_witness:
  "\<not> (\<exists>r. fst (verify_outcome (\<lambda>_. None) (\<lambda>_. Content two_names) True True None ''s'' (sample_attestation ''x'')
      (gone_chain\<lparr>rc_reconciliation_binding_ref := Some (sample_ref ''reconciliation-binding'')\<rparr>)) = Inr r \<and> ov_verified r)"
proof -
  let ?c = "gone_chain\<lparr>rc_reconciliation_binding_ref := Some (sample_ref ''reconciliation-binding'')\<rparr>"
  have "load_object (\<lambda>_. Some two_names) ''reconciliation.json'' ''payload'' = Inr [(''reconciliation_id'', JInt 1), (''bundle_id'', JInt 2)]"
    by code_simp
  moreover have "py_str (JInt 1) \<noteq> py_str (JInt 2)" by code_simp
  moreover have "rc_reliability_state ?c = ''recovered''" "rc_reconciliation_ref ?c =
      Some (EvidenceReference ''reconciliation'' ''q'' (sha256_hex ''q'') (Some ''reconciliation.json'') None)"
    by (simp_all add: gone_chain_def)
  ultimately show ?thesis
    using reconciliation_identity_conflict [of ?c _ _ "''reconciliation.json''" "\<lambda>_. Content two_names" two_names] by simp
qed

end
