(* ===== verification/Spec2Isabelle.thy ===== *)
theory Spec2Isabelle
  imports SystemState Events EvidenceAdmission StateService Bundles Diff Incident AccessControl Privacy
    CryptoTrust TrustHistory Assurance WrittenArtifacts Ingestion ApprovalHistory OutcomeVerification
begin

text \<open>
  \<^bold>\<open>StateWake\<close>, the evidence and reliability core of \<open>src/src/statewake\<close>.

  \<^bold>\<open>The program.\<close> An agent runs; StateWake records what it ran in, what it did and on what evidence, and decides
  whether the result may be relied on. A run leaves a \<^emph>\<open>snapshot\<close> of its runtime, \<^emph>\<open>events\<close> and an \<^emph>\<open>evidence
  manifest\<close>. External evidence is \<^emph>\<open>ingested\<close> into a content-addressed store and vouched for by a \<^emph>\<open>receipt\<close>; a
  receipt is \<^emph>\<open>admitted\<close> when the bytes still match it. Two runs are \<^emph>\<open>compared\<close>; the discrepancy is
  \<^emph>\<open>bound\<close> to its reconciliation; a \<^emph>\<open>decision basis\<close> records why a claim profile is satisfied. All of them are
  collected, by digest, in an \<^emph>\<open>evidence chain\<close>. A chain moves a subject along the \<^emph>\<open>lifecycle\<close> of its
  reliability state, in an append-only, hash-linked history; the outcome is \<^emph>\<open>attested\<close>, signed and verified. \<^emph>\<open>Bundles\<close> carry artifacts out, with their
  provenance and retention; \<^emph>\<open>trust anchors\<close> and \<^emph>\<open>trust histories\<close> say which keys sign what;
  \<^emph>\<open>assurance decisions\<close>, incidents, access control, privacy and runtime containment govern the operation.

  \<^bold>\<open>The layers below.\<close>
  \<^item> \<open>Prelude\<close>: Python exceptions as values (\<open>exn\<close>, \<open>'a result\<close>), their bind, the chain of guards of a
    \<open>__post_init__\<close>, dictionaries as association lists, string operations.
  \<^item> \<open>Sha256\<close>: \<open>hashlib.sha256\<close> over 32-bit words. Nothing is assumed of it: a statement about tampering
    concludes equality or exhibits two different byte strings of one hash.
  \<^item> \<open>Json\<close>, \<open>JsonFacts\<close>, \<open>JsonIndent\<close>, \<open>JsonPrefix\<close>, \<open>JsonSupport\<close> (\<open>utils/json_support.py\<close>): the printers the
    program uses (compact, ASCII or not; indented), the reader, their round trips, and the fact that no strict
    prefix of a printed object is a document.
  \<^item> \<open>Datetime\<close>, \<open>DatetimeFacts\<close> (\<open>utils/time.py\<close>): instants, ISO-8601 text, the calendar as a bijection.
  \<^item> \<open>Lines\<close>, \<open>Base64\<close>: files of JSON lines and \<open>str.splitlines\<close>; the encoding of signatures and keys.

  \<^bold>\<open>The records.\<close>
  \<^item> \<open>SystemState\<close>, \<open>Events\<close>, \<open>Evidence\<close> (\<open>domain/state.py\<close>, \<open>events.py\<close>, \<open>evidence.py\<close>), \<open>EventStore\<close>
    (\<open>adapters/jsonl_store.py\<close>), \<open>Diff\<close> (\<open>domain/diff.py\<close>): run data, the event file, the comparison of runs with
    the longest common subsequence the code computes.
  \<^item> \<open>EvidenceReceipt\<close>, \<open>EvidenceAdmission\<close>, \<open>ContentStore\<close>, \<open>Ingestion\<close> (\<open>domain/evidence_receipt.py\<close>,
    \<open>evidence_admission.py\<close>, \<open>retention.py\<close>; \<open>adapters/content_store.py\<close>, \<open>retention.py\<close>,
    \<open>evidence_ingestion.py\<close>, \<open>first_party_evidence.py\<close>): from the bytes of a producer to admitted evidence.
  \<^item> \<open>AIContracts\<close> (\<open>ai_contracts\<close>, and the capture of a contract in \<open>integrations/base.py\<close>): the ten typed contracts,
    their payloads, digests and evidence items; \<open>HumanApproval\<close> (\<open>adapters/human_approval.py\<close>): approvals and
    revocations kept as ingested contracts, and the lifecycle projected from them; \<open>ApprovalHistory\<close>: its histories;
    \<open>JsonParsed\<close>: what the reader returns is a plain JSON value.
  \<^item> \<open>ReliabilityEvidence\<close>, \<open>Comparison\<close>, \<open>ClaimProfile\<close>, \<open>DecisionBasis\<close>, \<open>ChainEvidence\<close>, \<open>BuiltChain\<close>,
    \<open>WrittenArtifacts\<close> (\<open>domain/reliability_*.py\<close> and the services of the same names): the artifacts of a decision,
    how they are built from files, verified against a root, written and loaded.
  \<^item> \<open>ReliabilityState\<close>, \<open>StateStore\<close>, \<open>StateService\<close>: the lifecycle, its two stores (JSON lines with crash recovery,
    and SQLite) behind the interface \<open>state_store\<close>, and the service proved once on that interface.
  \<^item> \<open>Governance\<close>, \<open>Privacy\<close>, \<open>AccessControl\<close>, \<open>Incident\<close>, \<open>Containment\<close>: the policies, as the files of the same
    names under \<open>domain\<close> (\<open>Governance\<close> also holds \<open>data_lifecycle.py\<close>).
  \<^item> \<open>Provenance\<close>, \<open>Operations\<close>, \<open>Bundles\<close>: the provenance graph with its two searches, operational bundles, and
    \<open>services/operations_service.py\<close>.
  \<^item> \<open>CryptoTrust\<close>, \<open>TrustAnchor\<close>, \<open>AttestationTrust\<close>, \<open>TrustHistory\<close>, \<open>Assurance\<close>: keys and profiles, anchored
    checkpoints, signed trust snapshots and their history, assurance decisions and exceptions.
  \<^item> \<open>Attestation\<close>, \<open>AttestationHistory\<close> (\<open>domain/reliability_attestation*.py\<close>,
    \<open>adapters/reliability_attestation.py\<close>), \<open>KeyManagement\<close> (\<open>domain\<close> and \<open>adapters/key_management.py\<close>),
    \<open>AttestationService\<close> (\<open>services/reliability_attestation_service.py\<close>): attested outcomes, their hash-linked
    store with the signatures bound to them, the external signer, and the service that signs and verifies;
    \<open>OutcomeVerification\<close> (\<open>domain\<close> and \<open>services\<close> \<open>reliability_recovery*.py\<close> and
    \<open>reliability_outcome_verification*.py\<close>): recovered outcomes and the report on an attested outcome.

  \<^bold>\<open>How the code is read.\<close> A dataclass is a record and its \<open>__post_init__\<close> a function from the record to
  \<open>Inr ()\<close> or to \<open>Inl\<close> of the exception of the first guard that fails; a method is a function; a file system is a
  map from paths to bytes, a directory the list or the map of its files, and a writer returns it updated.
  Exceptions carry a tag instead of the full message. A string is the list of its UTF-8 bytes. A loop is a
  structural recursion, or has a termination proof, or fuel: the depth-first search of a graph has the number of
  its nodes plus one, the JSON reader the length of its input plus one, and both are proved enough. The limit of
  1,000,000 history records and every size limit are the numbers of the code.

  \<^bold>\<open>Arguments.\<close> What is not under \<open>src\<close> is an argument of the definitions that use it: the decoding of ZIP
  archives, path resolution and symbolic links, regular expressions and case folding, \<open>int\<close> of arbitrary
  text, the value of a float literal, PyNaCl, an external signer (a function from the bytes it is sent to how its
  process ends), the current time and the local time zone, whether a lock is acquired, what the operating system
  leaves of an interrupted write, and the file another process links between a check and a write.

  \<^bold>\<open>What the theorems show.\<close> Each property is the theorem after the text that bears its number.
  \<^item> \<^emph>\<open>Histories\<close> (\<open>StateStore\<close>, \<open>StateService\<close>, \<open>TrustHistory\<close>, \<open>TrustAnchor\<close>): the stores refine one
    abstract history and agree, a torn write is repaired, a history is tamper-evident, the service only makes
    allowed steps and makes progress, and no key is reactivated.
  \<^item> \<^emph>\<open>Evidence\<close> (\<open>ReliabilityEvidence\<close>, \<open>EvidenceAdmission\<close>, \<open>Ingestion\<close>, \<open>ContentStore\<close>, \<open>Comparison\<close>,
    \<open>DecisionBasis\<close>, \<open>ChainEvidence\<close>, \<open>BuiltChain\<close>, \<open>WrittenArtifacts\<close>): what is built verifies, what verifies
    is backed by the files it refers to, and decisions rest on the status they require.
  \<^item> \<^emph>\<open>Attested outcomes\<close> (\<open>AttestationHistory\<close>, \<open>AttestationService\<close>, \<open>OutcomeVerification\<close>): what is signed is
    recorded once and verifies again, a signature that verifies comes from an active key of an authenticated trust
    state, and a positive report means exactly that the transition, the attestation and the chain are bound together
    and that their evidence verifies.
  \<^item> \<^emph>\<open>Human approvals\<close> (\<open>ApprovalHistory\<close>, \<open>AIContracts\<close>): after any interleaving of approvals, revocations and other
    evidence the lifecycle is readable and grants nothing twice, a status that is not active is final, and a retry
    is idempotent.
  \<^item> \<^emph>\<open>Bundles and graphs\<close> (\<open>Bundles\<close>, \<open>Operations\<close>, \<open>Provenance\<close>): an accepted archive is exactly what its
    manifest says, exported archives are accepted, and the searches decide what they look for.
  \<^item> \<^emph>\<open>Policies\<close> (\<open>Diff\<close>, \<open>AccessControl\<close>, \<open>Privacy\<close>, \<open>Containment\<close>, \<open>Assurance\<close>, \<open>ClaimProfile\<close>,
    \<open>CryptoTrust\<close>): the code's procedures decide what their specifications say.
  \<^item> \<^emph>\<open>Errors\<close>: several theorems prove what goes wrong: a line without its end, a removed key brought back, two
    built-in profiles no chain can satisfy, a second capture of one artifact, a legal hold that a later requirement
    ends, an artifact deleted without a record, an approval that a clock set back or a full scan makes unreadable, a
    requirement no captured contract meets, a signed append that stops half way, a signed attestation that cannot be
    asked for again, a recovered chain without a report, an outcome its chain contradicts, a reconciliation with two
    names.
  The interfaces are locales (\<open>string_codec\<close>, \<open>state_store\<close>, \<open>retention\<close>, \<open>signed_store\<close> and others), each interpreted on the
  model's own definitions.

  \<^bold>\<open>Not modelled.\<close> Directory creation, permissions, \<open>fsync\<close> and temporary names (pure I/O); the SQLite workspace, its
  exports and the claim evaluation that reads it; the HTTP and command-line layers, view models and reports, which
  project the modelled artifacts; integrations with third-party frameworks; the package registry; URL
  validation (\<open>urlparse\<close>); lineage, completeness, proof bundles and verification reports, which collect and count
  the modelled artifacts.
\<close>

end
